(* ===== verification/Prelude.thy ===== *)
theory Prelude
  imports Main "HOL-Library.Product_Lexorder"
begin

text \<open>
  Shared vocabulary of the development: the exceptions the simulator throws, the result type of
  its operations, the sequencing of state changing steps, and the notion of a step that keeps a
  property of the state.

  A C++ method that may throw is a function from the state to \<open>exc + state\<close>: \<open>Inl e\<close> is the
  exception that leaves the method, \<open>Inr w\<close> the state after its normal return.  A failing
  \<open>assert\<close> is \<open>AssertFailed\<close>, the dereference of a null pointer (undefined in C++) is
  \<open>NullPointer\<close>, \<open>exit(-1)\<close> is \<open>ProcessExit\<close>.
\<close>

datatype exc =
    EventAlreadyPosted        \<comment> \<open>Event::Exc: the event is already posted\<close>
  | EventPostedInPast         \<comment> \<open>Event::Exc: posting in the past\<close>
  | EventAlreadyInQueue       \<comment> \<open>Event::Exc: an equivalent event is in the queue\<close>
  | EventTimeWhileQueued      \<comment> \<open>Event::Exc of setTime\<close>
  | EntitySameName
  | RTSchedExc string
  | RRSchedExc string
  | RTKernelExc string
  | KernAlreadySet
  | TaskAlreadyActive
  | TaskNotActive string
  | TaskNotExecuting string
  | TaskAlreadyExecuting
  | TaskCannotBlock
  | EmptyTask
  | InstrExc string
  | ServerExc string
  | BaseExc string
  | ParseExc string
  | SparePotExc string
  | RandomVarExc string
  | StatExc string
  | OutOfRange                \<comment> \<open>std::out_of_range\<close>
  | UndefinedBehaviour string
  | StdExc string             \<comment> \<open>std::exception and std::runtime_error\<close>
  | InvalidArgument           \<comment> \<open>std::invalid_argument\<close>
  | DivisionByZero            \<comment> \<open>of integers, or a quotient of doubles that is infinite or NaN\<close>
  | AssertFailed string
  | NullPointer string
  | ProcessExit

section \<open>Sequencing\<close>

fun bindE :: "'e + 'a \<Rightarrow> ('a \<Rightarrow> 'e + 'b) \<Rightarrow> 'e + 'b" where
  "bindE (Inl e) f = Inl e"
| "bindE (Inr a) f = f a"

lemma bindE_cong [fundef_cong]:
  "m = m' \<Longrightarrow> (\<And>a. m' = Inr a \<Longrightarrow> f a = f' a) \<Longrightarrow> bindE m f = bindE m' f'"
  by (cases m') auto

lemma bindE_eq_Inr: "bindE m f = Inr b \<longleftrightarrow> (\<exists>a. m = Inr a \<and> f a = Inr b)"
  by (cases m) auto

text \<open>A step for every element of a list, in order.\<close>

fun mapE :: "('a \<Rightarrow> 'e + 'b) \<Rightarrow> 'a list \<Rightarrow> 'e + 'b list" where
  "mapE f [] = Inr []"
| "mapE f (x # xs) = bindE (f x) (\<lambda>y. bindE (mapE f xs) (\<lambda>ys. Inr (y # ys)))"

lemma bindE_eq_Inl: "bindE m f = Inl e \<longleftrightarrow> m = Inl e \<or> (\<exists>a. m = Inr a \<and> f a = Inl e)"
  by (cases m) auto

text \<open>The statements of a method, run in order until one throws.\<close>

fun steps :: "('w \<Rightarrow> 'e + 'w) list \<Rightarrow> 'w \<Rightarrow> 'e + 'w" where
  "steps [] w = Inr w"
| "steps (f # fs) w = bindE (f w) (steps fs)"

lemma steps_append: "steps (fs @ gs) w = bindE (steps fs w) (steps gs)"
proof (induction fs arbitrary: w)
  case Nil
  then show ?case by simp
next
  case (Cons f fs)
  then show ?case by (cases "f w") auto
qed

definition whenE :: "('w \<Rightarrow> bool) \<Rightarrow> ('w \<Rightarrow> 'e + 'w) \<Rightarrow> 'w \<Rightarrow> 'e + 'w" where
  "whenE c f w = (if c w then f w else Inr w)"

definition guardE :: "('w \<Rightarrow> bool) \<Rightarrow> 'e \<Rightarrow> 'w \<Rightarrow> 'e + 'w" where
  "guardE c e w = (if c w then Inr w else Inl e)"

definition pureE :: "('w \<Rightarrow> 'w) \<Rightarrow> 'w \<Rightarrow> 'e + 'w" where
  "pureE f w = Inr (f w)"

lemmas step_defs = whenE_def guardE_def pureE_def

lemma whenE_True [simp]: "c w \<Longrightarrow> whenE c f w = f w"
  and whenE_False [simp]: "\<not> c w \<Longrightarrow> whenE c f w = Inr w"
  by (simp_all add: whenE_def)

lemma guardE_True [simp]: "c w \<Longrightarrow> guardE c e w = Inr w"
  and guardE_False [simp]: "\<not> c w \<Longrightarrow> guardE c e w = Inl e"
  by (simp_all add: guardE_def)

lemma pureE_apply [simp]: "pureE f w = Inr (f w)"
  by (simp add: pureE_def)

lemma guardE_eq_Inr [simp]: "guardE c e w = Inr w' \<longleftrightarrow> c w \<and> w' = w"
  by (auto simp: guardE_def)

section \<open>Steps that keep a property\<close>

text \<open>
  \<open>preserves P f\<close>: whenever \<open>f\<close> returns normally from a state with \<open>P\<close>, \<open>P\<close> holds after it.
  The collection \<open>pres\<close> holds the rules by which \<open>preserves\<close> is proved from the shape of a
  method, and the facts of the operations proved so far.
\<close>

named_theorems pres \<open>steps that keep the property at hand\<close>

definition preserves :: "('w \<Rightarrow> bool) \<Rightarrow> ('w \<Rightarrow> 'e + 'w) \<Rightarrow> bool" where
  "preserves P f \<longleftrightarrow> (\<forall>w w'. P w \<longrightarrow> f w = Inr w' \<longrightarrow> P w')"

lemma preservesI: "(\<And>w w'. P w \<Longrightarrow> f w = Inr w' \<Longrightarrow> P w') \<Longrightarrow> preserves P f"
  by (simp add: preserves_def)

lemma preservesD: "preserves P f \<Longrightarrow> f w = Inr w' \<Longrightarrow> P w \<Longrightarrow> P w'"
  by (auto simp: preserves_def)

lemma preserves_steps [pres]: "(\<And>f. f \<in> set fs \<Longrightarrow> preserves P f) \<Longrightarrow> preserves P (steps fs)"
proof (induction fs)
  case Nil
  then show ?case by (simp add: preserves_def)
next
  case (Cons f fs)
  then have f: "preserves P f" and fs: "preserves P (steps fs)" by auto
  show ?case
  proof (rule preservesI)
    fix w w'
    assume "P w" and "steps (f # fs) w = Inr w'"
    moreover from this obtain v where "f w = Inr v" and "steps fs v = Inr w'"
      by (auto simp: bindE_eq_Inr)
    ultimately show "P w'" using f fs by (blast dest: preservesD)
  qed
qed

lemma preserves_bindE [pres]:
  assumes "preserves P f" and "preserves P g"
  shows "preserves P (\<lambda>w. bindE (f w) g)"
proof (rule preservesI)
  fix w w'
  assume "P w" and "bindE (f w) g = Inr w'"
  then obtain v where "f w = Inr v" and "g v = Inr w'"
    by (auto simp: bindE_eq_Inr)
  with \<open>P w\<close> show "P w'"
    using assms by (blast dest: preservesD)
qed

lemma preserves_whenE [pres]:
  assumes "preserves P f"
  shows "preserves P (whenE c f)"
  by (rule preservesI) (auto simp: whenE_def split: if_splits intro: preservesD [OF assms])

lemma preserves_guardE [pres]: "preserves P (guardE c e)"
  by (rule preservesI) simp

lemma preserves_pureE: "(\<And>w. P w \<Longrightarrow> P (f w)) \<Longrightarrow> preserves P (pureE f)"
  by (rule preservesI) auto

lemma preserves_if [pres]:
  assumes "preserves P f" and "preserves P g"
  shows "preserves P (\<lambda>w. if c w then f w else g w)"
  by (rule preservesI)
    (auto split: if_splits intro: preservesD [OF assms(1)] preservesD [OF assms(2)])

lemma preserves_Inr [pres]: "preserves P Inr"
  by (rule preservesI) simp

lemma preserves_Inl [pres]: "preserves P (\<lambda>w. Inl (e w))"
  by (rule preservesI) simp

lemma preserves_reader:
  assumes "\<And>x. preserves P (f x)"
  shows "preserves P (\<lambda>w. f (g w) w)"
  by (rule preservesI) (auto intro: preservesD [OF assms])

lemma preserves_option [pres]:
  assumes "preserves P f" and "\<And>x. preserves P (g x)"
  shows "preserves P (\<lambda>w. case m w of None \<Rightarrow> f w | Some x \<Rightarrow> g x w)"
  by (rule preservesI)
    (auto split: option.splits intro: preservesD [OF assms(1)] preservesD [OF assms(2)])

lemma preserves_list [pres]:
  assumes "preserves P f" and "\<And>x xs. preserves P (g x xs)"
  shows "preserves P (\<lambda>w. case m w of [] \<Rightarrow> f w | x # xs \<Rightarrow> g x xs w)"
  by (rule preservesI)
    (auto split: list.splits intro: preservesD [OF assms(1)] preservesD [OF assms(2)])

end
