(* ===== verification/StrToken.thy ===== *)
theory StrToken
  imports Prelude Complex_Main "HOL-Library.Code_Target_Numeral"
begin

text \<open>
  \<open>libmetasim/strtoken.cpp\<close>: the functions that cut the text of instructions, random variables, schedulers and
  times into tokens and parameters.  Positions are of the unsigned type \<open>size_t\<close> of 64 bits, which the code
  uses at its edge: \<open>npos\<close> is its largest value, differences wrap, and \<open>++npos\<close> is 0.  The members of
  \<open>std::string\<close> the code calls are written out; two loops that may not end have \<open>None\<close> as their value.
\<close>

section \<open>Strings of the standard library\<close>

definition npos :: nat where
  "npos = 2 ^ 64 - 1"

definition sz_sub :: "nat \<Rightarrow> nat \<Rightarrow> nat" where
  "sz_sub a b = (if b \<le> a then a - b else a + 2 ^ 64 - b)"

definition sz_inc :: "nat \<Rightarrow> nat" where
  "sz_inc a = (if a = npos then 0 else a + 1)"

definition find_from :: "(char \<Rightarrow> bool) \<Rightarrow> string \<Rightarrow> nat \<Rightarrow> nat" where
  "find_from P s pos =
    (let i = pos + length (takeWhile (\<lambda>c. \<not> P c) (drop pos s)) in if i < length s then i else npos)"

definition find_last :: "(char \<Rightarrow> bool) \<Rightarrow> string \<Rightarrow> nat" where
  "find_last P s = (let n = length (takeWhile (\<lambda>c. \<not> P c) (rev s)) in if n < length s then length s - 1 - n else npos)"

definition find_string :: "string \<Rightarrow> string \<Rightarrow> nat \<Rightarrow> nat" where
  "find_string sep s pos =
    (case List.find (\<lambda>i. i + length sep \<le> length s \<and> take (length sep) (drop i s) = sep) [pos..<length s + 1] of
       None \<Rightarrow> npos | Some i \<Rightarrow> i)"

definition str_substr :: "nat \<Rightarrow> nat \<Rightarrow> string \<Rightarrow> exc + string" where
  "str_substr pos n s = (if length s < pos then Inl OutOfRange else Inr (take n (drop pos s)))"

definition str_erase :: "nat \<Rightarrow> nat \<Rightarrow> string \<Rightarrow> exc + string" where
  "str_erase pos n s = (if length s < pos then Inl OutOfRange else Inr (take pos s @ drop n (drop pos s)))"

section \<open>Numbers in text\<close>

text \<open>
  \<open>atof\<close> and \<open>atoi\<close> of the C library: white space, a sign, digits, for \<open>atof\<close> also a fraction and an
  exponent; what follows is ignored and nothing to convert gives 0.  \<open>atof\<close> reads hexadecimal numbers,
  infinities and NaNs too, which are not modelled, nor is the range of \<open>double\<close> and \<open>int\<close>.
\<close>

definition is_digit :: "char \<Rightarrow> bool" where
  "is_digit c \<longleftrightarrow> c \<in> set ''0123456789''"

definition is_space :: "char \<Rightarrow> bool" where
  "is_space c \<longleftrightarrow> c \<in> {CHR '' '', CHR 0x09, CHR 0x0A, CHR 0x0B, CHR 0x0C, CHR 0x0D}"

definition digit_value :: "char \<Rightarrow> nat" where
  "digit_value c = of_char c - 48"

definition digits_value :: "string \<Rightarrow> nat" where
  "digits_value = foldl (\<lambda>n c. 10 * n + digit_value c) 0"

definition read_sign :: "string \<Rightarrow> bool \<times> string" where
  "read_sign s = (case s of [] \<Rightarrow> (False, [])
     | c # cs \<Rightarrow> if c = CHR ''-'' then (True, cs) else if c = CHR ''+'' then (False, cs) else (False, s))"

definition signed :: "bool \<Rightarrow> 'a \<Rightarrow> 'a :: uminus" where
  "signed neg x = (if neg then - x else x)"

definition atoi :: "string \<Rightarrow> int" where
  "atoi s = (let (neg, t) = read_sign (dropWhile is_space s) in signed neg (int (digits_value (takeWhile is_digit t))))"

text \<open>The exponent counts only when it has digits.\<close>

definition read_exponent :: "string \<Rightarrow> int" where
  "read_exponent s = (case s of [] \<Rightarrow> 0
     | c # cs \<Rightarrow> if c \<in> {CHR ''e'', CHR ''E''} then
          let (neg, t) = read_sign cs in signed neg (int (digits_value (takeWhile is_digit t)))
        else 0)"

definition power_of_ten :: "int \<Rightarrow> rat" where
  "power_of_ten e = (if 0 \<le> e then 10 ^ nat e else 1 / 10 ^ nat (- e))"

definition atof :: "string \<Rightarrow> rat" where
  "atof s =
    (let (neg, t) = read_sign (dropWhile is_space s);
         whole = takeWhile is_digit t;
         t1 = dropWhile is_digit t;
         (frac, t2) = (case t1 of [] \<Rightarrow> ([], [])
            | c # cs \<Rightarrow> if c = CHR ''.'' then (takeWhile is_digit cs, dropWhile is_digit cs) else ([], t1))
     in if whole = [] \<and> frac = [] then 0
        else signed neg ((of_nat (digits_value whole) + of_nat (digits_value frac) / 10 ^ length frac)
               * power_of_ten (read_exponent t2)))"

text \<open>A number as a stream prints it.\<close>

definition digit_char :: "nat \<Rightarrow> char" where
  "digit_char n = ''0123456789'' ! n"

fun decimal :: "nat \<Rightarrow> string" where
  "decimal n = (if n < 10 then [digit_char n] else decimal (n div 10) @ [digit_char (n mod 10)])"

declare decimal.simps [simp del]

definition decimal_int :: "int \<Rightarrow> string" where
  "decimal_int i = (if i < 0 then CHR ''-'' # decimal (nat (- i)) else decimal (nat i))"

text \<open>\<open>stoi\<close> throws when there is no number or it does not fit.\<close>

definition stoi :: "string \<Rightarrow> exc + int" where
  "stoi s =
    (let (neg, t) = read_sign (dropWhile is_space s)
     in if takeWhile is_digit t = [] then Inl InvalidArgument
        else if atoi s < - (2 ^ 31) \<or> 2 ^ 31 \<le> atoi s then Inl OutOfRange else Inr (atoi s))"

section \<open>Tokens\<close>

definition remove_spaces :: "string \<Rightarrow> exc + string" where
  "remove_spaces tk =
    (if tk = [] then Inr tk
     else bindE (str_erase 0 (find_from (\<lambda>c. c \<noteq> CHR '' '') tk 0) tk) (\<lambda>temp.
       let pos = find_last (\<lambda>c. c \<noteq> CHR '' '') temp in
       str_erase (sz_inc pos) (sz_sub (sz_sub (length temp) pos) 1) temp))"

definition piece :: "string \<Rightarrow> nat \<Rightarrow> nat \<Rightarrow> exc + string" where
  "piece s from len = bindE (str_substr from len s) remove_spaces"

partial_function (option) split_loop :: "string \<Rightarrow> string \<Rightarrow> nat \<Rightarrow> string list \<Rightarrow> (exc + string list) option" where
  [code]: "split_loop code sep old_pos temp =
    (let pos = find_string sep code old_pos in
     case piece code old_pos (if pos \<noteq> npos then sz_sub pos old_pos else length code - old_pos) of
       Inl e \<Rightarrow> Some (Inl e)
     | Inr t \<Rightarrow> if pos \<noteq> npos then split_loop code sep (pos + length sep) (temp @ [t])
               else Some (Inr (temp @ [t])))"

definition split_string :: "string \<Rightarrow> string \<Rightarrow> (exc + string list) option" where
  "split_string code sep = split_loop code sep 0 []"

lemma find_from_bound: "find_from P s pos \<noteq> npos \<Longrightarrow> pos \<le> find_from P s pos \<and> find_from P s pos < length s"
  by (auto simp: find_from_def Let_def split: if_splits)

function split_instr_loop :: "string \<Rightarrow> nat \<Rightarrow> string list \<Rightarrow> exc + string list" where
  "split_instr_loop code old_pos temp =
    (let pos = find_from ((=) CHR '';'') code old_pos in
     if pos \<noteq> npos then
       bindE (piece code old_pos (sz_sub pos old_pos)) (\<lambda>t. split_instr_loop code (pos + 1) (temp @ [t]))
     else Inr temp)"
  by pat_completeness auto

termination split_instr_loop
  by (relation "measure (\<lambda>(code, old_pos, temp). length code + 1 - old_pos)") (auto dest!: find_from_bound)

declare split_instr_loop.simps [simp del]

definition split_instr :: "string \<Rightarrow> exc + string list" where
  "split_instr code = split_instr_loop code 0 []"

definition get_token :: "string \<Rightarrow> exc + string" where
  "get_token instr =
    (let pos = find_string ''('' instr 0;
         pos1 = find_from (\<lambda>c. c \<notin> {CHR '' '', CHR 0x0A}) instr 0
     in str_substr pos1 (sz_sub pos pos1) instr)"

definition get_param :: "string \<Rightarrow> exc + string" where
  "get_param instr =
    (let pos = find_string ''('' instr 0 in
     if pos \<noteq> npos then
       let end = find_last ((=) CHR '')'') instr
       in str_substr (pos + 1) (sz_sub (sz_sub end pos) 1) instr
     else Inr [])"

text \<open>
  A round of the loop of \<open>split_param\<close>.  After an opening parenthesis the piece goes on to the closing one; if
  there is none, \<open>pos == p.size()\<close> does not hold of \<open>npos\<close>, and \<open>++pos\<close> makes it 0.
\<close>

partial_function (option) split_param_loop ::
    "string \<Rightarrow> string \<Rightarrow> char \<Rightarrow> char \<Rightarrow> nat \<Rightarrow> nat \<Rightarrow> string list \<Rightarrow> (exc + nat \<times> nat \<times> string list) option" where
  [code]: "split_param_loop p sep open_par close_par pos old_pos temp =
    (if pos \<le> length p then
       let pos1 = find_from (\<lambda>c. c \<in> set (sep @ [open_par])) p pos;
           pos2 = (if pos1 \<noteq> npos \<and> p ! pos1 = open_par then
                     let q = find_from ((=) close_par) p pos1 in if q = length p then npos else sz_inc q
                   else pos1)
       in if pos2 \<noteq> npos then
            (case piece p old_pos (sz_sub pos2 old_pos) of
               Inl e \<Rightarrow> Some (Inl e)
             | Inr t \<Rightarrow> split_param_loop p sep open_par close_par (sz_inc pos2) (sz_inc pos2) (temp @ [t]))
          else split_param_loop p sep open_par close_par pos2 old_pos temp
     else Some (Inr (pos, old_pos, temp)))"

definition split_param :: "string \<Rightarrow> string \<Rightarrow> char \<Rightarrow> char \<Rightarrow> (exc + string list) option" where
  "split_param p sep open_par close_par =
    (case split_param_loop p sep open_par close_par 0 0 [] of
       None \<Rightarrow> None
     | Some r \<Rightarrow> Some (bindE r (\<lambda>(pos, old_pos, temp).
          if pos \<noteq> old_pos then
            bindE (piece p old_pos (length p - old_pos)) (\<lambda>t. Inr (if t \<noteq> [] then temp @ [t] else temp))
          else Inr temp)))"

text \<open>With the default arguments of the declaration.\<close>

abbreviation split_params :: "string \<Rightarrow> (exc + string list) option" where
  "split_params p \<equiv> split_param p '','' CHR ''('' CHR '')''"

definition parse_double :: "string \<Rightarrow> exc + rat \<times> string" where
  "parse_double nums =
    bindE (remove_spaces nums) (\<lambda>tmp.
    let pos = find_from (\<lambda>c. c \<in> set ''smnu'') tmp 0 in
    bindE (if pos \<noteq> npos then str_substr pos (sz_sub (length tmp) pos) tmp else Inr []) (\<lambda>unit.
    bindE (str_substr 0 pos tmp) (\<lambda>snum. Inr (atof snum, unit))))"

section \<open>Factories\<close>

text \<open>\<open>factory.hpp\<close>: the registry maps the name of a class to the function that creates its objects.\<close>

definition factory_create :: "(string \<times> (string list \<Rightarrow> exc + 'a)) list \<Rightarrow> string \<Rightarrow> string list \<Rightarrow> exc + 'a option" where
  "factory_create reg k par = (case map_of reg k of
      None \<Rightarrow> Inr None
    | Some create \<Rightarrow> bindE (create par) (\<lambda>x. Inr (Some x)))"

text \<open>Sequencing of what may throw and may not return.\<close>

definition bindN :: "(exc + 'a) option \<Rightarrow> ('a \<Rightarrow> (exc + 'b) option) \<Rightarrow> (exc + 'b) option" where
  "bindN m f = (case m of None \<Rightarrow> None | Some (Inl e) \<Rightarrow> Some (Inl e) | Some (Inr a) \<Rightarrow> f a)"

text \<open>The token and the parameters of a text \<open>token(par1, par2, ...)\<close>.\<close>

definition token_params :: "string \<Rightarrow> (exc + string \<times> string list) option" where
  "token_params str =
     bindN (Some (get_token str)) (\<lambda>token.
     bindN (Some (get_param str)) (\<lambda>p.
     bindN (split_params p) (\<lambda>parms. Some (Inr (token, parms)))))"

end
