(* ===== verification/Yaml.thy ===== *)
theory Yaml
  imports Prelude
begin

text \<open>
  The reader of configurations (\<open>yaml.hpp\<close>, \<open>yaml.cpp\<close>): objects and the parser of a part of YAML.  A stream is what
  is left of the text and whether a read has failed.  \<open>Parser::parse\<close> is called again for the object that begins on
  the rest of a line and gives back the line it did not use; nothing bounds its recursion, so it is a partial function
  whose value \<open>None\<close> is not to return.  Strings are shorter than \<open>npos\<close>, and the number of the line, which only the
  messages show, is not modelled.
\<close>

section \<open>Objects\<close>

datatype obj_type = Undefined | Null | Scalar | Sequence | Attributes      \<comment> \<open>\<open>ObjType::Map\<close>\<close>

datatype yobj = YObj (y_type: obj_type) (y_scalar: string) (y_list: "yobj list") (y_attrs: "string \<Rightarrow> yobj option")

definition Object :: yobj where
  "Object = YObj Undefined [] [] (\<lambda>_. None)"

definition Object_of_type :: "obj_type \<Rightarrow> yobj" where
  "Object_of_type t = YObj t [] [] (\<lambda>_. None)"

definition setType :: "obj_type \<Rightarrow> yobj \<Rightarrow> yobj" where
  "setType t o1 = (if y_type o1 \<noteq> t then YObj t [] [] (\<lambda>_. None) else o1)"

definition put_scalar :: "string \<Rightarrow> yobj \<Rightarrow> yobj" where
  "put_scalar s o1 = (case setType Scalar o1 of YObj t _ l a \<Rightarrow> YObj t s l a)"

definition put_attr :: "string \<Rightarrow> yobj \<Rightarrow> yobj \<Rightarrow> yobj" where
  "put_attr k v o1 = (case setType Attributes o1 of YObj t s l a \<Rightarrow> YObj t s l (a(k := Some v)))"

definition push_back :: "yobj \<Rightarrow> yobj \<Rightarrow> yobj" where
  "push_back v o1 = (case setType Sequence o1 of YObj t s l a \<Rightarrow> YObj t s (l @ [v]) a)"

text \<open>\<open>put(index, obj)\<close>: the value \<open>None\<close> is a write outside of the vector.\<close>

definition put_index :: "nat \<Rightarrow> yobj \<Rightarrow> yobj \<Rightarrow> yobj option" where
  "put_index n v o1 = (case setType Sequence o1 of YObj t s l a \<Rightarrow>
     (if n < length l then Some (YObj t s (l[n := v]) a) else None))"

text \<open>\<open>clear\<close>: the object swaps its contents with an empty one; the two objects after \<open>swap\<close>.\<close>

definition swap_obj :: "yobj \<Rightarrow> yobj \<Rightarrow> yobj \<times> yobj" where
  "swap_obj o1 other = (other, o1)"

definition clear_obj :: "yobj \<Rightarrow> yobj" where
  "clear_obj o1 = fst (swap_obj o1 Object)"

definition get_index :: "nat \<Rightarrow> yobj \<Rightarrow> exc + yobj" where
  "get_index i o1 = (if length (y_list o1) \<le> i then Inl (BaseExc ''YAML out of bounds exception!'') else Inr (y_list o1 ! i))"

definition has :: "string \<Rightarrow> yobj \<Rightarrow> bool" where
  "has k o1 \<longleftrightarrow> y_attrs o1 k \<noteq> None"

text \<open>\<open>get(key)\<close> makes an undefined object for a key that is not there: the value and the object after the call.\<close>

definition get_attr :: "string \<Rightarrow> yobj \<Rightarrow> yobj \<times> yobj" where
  "get_attr k o1 = (case o1 of YObj t s l a \<Rightarrow>
     (case a k of Some v \<Rightarrow> (v, o1) | None \<Rightarrow> (Object, YObj t s l (a(k := Some Object)))))"

text \<open>\<open>get() = s\<close> and \<open>get(key) = obj\<close>: the type of the object stays.\<close>

definition assign_scalar :: "string \<Rightarrow> yobj \<Rightarrow> yobj" where
  "assign_scalar s o1 = (case o1 of YObj t _ l a \<Rightarrow> YObj t s l a)"

definition assign_attr :: "string \<Rightarrow> yobj \<Rightarrow> yobj \<Rightarrow> yobj" where
  "assign_attr k v o1 = (case o1 of YObj t s l a \<Rightarrow> YObj t s l (a(k := Some v)))"

definition defined :: "yobj \<Rightarrow> bool" where
  "defined o1 \<longleftrightarrow> y_type o1 \<noteq> Undefined \<and> y_type o1 \<noteq> Null"

section \<open>Lines\<close>

definition nonblank :: "char \<Rightarrow> bool" where
  "nonblank c \<longleftrightarrow> c \<noteq> CHR '' ''"

text \<open>The first character with a property, by position: \<open>find\<close> and its kind.\<close>

definition find_first :: "(char \<Rightarrow> bool) \<Rightarrow> string \<Rightarrow> nat option" where
  "find_first P s = (let n = length (takeWhile (\<lambda>c. \<not> P c) s) in if n < length s then Some n else None)"

definition first_non_whitespace :: "string \<Rightarrow> nat option" where
  "first_non_whitespace = find_first nonblank"

definition contains_forbidden_characters :: "string \<Rightarrow> bool" where
  "contains_forbidden_characters s \<longleftrightarrow> CHR 0x09 \<in> set s"

definition ytrim :: "string \<Rightarrow> string" where
  "ytrim s = rev (dropWhile (\<lambda>c. \<not> nonblank c) (rev (dropWhile (\<lambda>c. \<not> nonblank c) s)))"

definition uncomment :: "string \<Rightarrow> string" where
  "uncomment = takeWhile (\<lambda>c. c \<noteq> CHR ''#'')"

definition spaces :: "nat \<Rightarrow> string" where
  "spaces n = replicate n (CHR '' '')"

record istream =
  is_rest :: string
  is_failed :: bool

definition newline :: char where
  "newline = CHR 0x0A"

text \<open>\<open>std::getline\<close>: the line and the stream; the line of a read that fails is not used.\<close>

definition std_getline :: "istream \<Rightarrow> string \<times> istream" where
  "std_getline i =
    (if is_failed i \<or> is_rest i = [] then ([], i\<lparr>is_failed := True\<rparr>)
     else (takeWhile (\<lambda>c. c \<noteq> newline) (is_rest i),
       i\<lparr>is_rest := drop 1 (dropWhile (\<lambda>c. c \<noteq> newline) (is_rest i))\<rparr>))"

definition Parser_getline :: "bool \<Rightarrow> string \<Rightarrow> istream \<Rightarrow> string \<times> istream" where
  "Parser_getline should_read line i = (if \<not> should_read then (line, i) else std_getline i)"

section \<open>The parser\<close>

lemma dropWhile_shorter: "length (dropWhile P xs) \<le> length xs"
  by (induction xs) auto

lemma ytrim_shorter: "length (ytrim s) \<le> length s"
  unfolding ytrim_def by (metis dropWhile_shorter length_rev order_trans)

text \<open>
  The loop that cuts the content of a scalar inside a sequence in brackets; \<open>last_found\<close> starts as the length.
\<close>

function cut_scalar :: "string \<Rightarrow> nat \<Rightarrow> string \<times> nat" where
  "cut_scalar content last_found =
    (case find_first (\<lambda>c. c = CHR '']'' \<or> c = CHR '','') content of
       None \<Rightarrow> (content, last_found)
     | Some i \<Rightarrow> cut_scalar (ytrim (take i content)) i)"
  by pat_completeness auto

termination cut_scalar
  by (relation "measure (\<lambda>(content, _). length content)")
    (auto simp: find_first_def Let_def split: if_splits intro: le_less_trans [OF ytrim_shorter])

declare cut_scalar.simps [simp del]

text \<open>What kind of object begins with this content, and whether it is a sequence in brackets.\<close>

definition begin_object :: "string \<Rightarrow> bool \<Rightarrow> yobj \<Rightarrow> exc + yobj \<times> bool" where
  "begin_object content trad root =
    (if defined root then Inr (root, trad)
     else if hd content = CHR ''-'' then
       (if trad then Inl (ParseExc ''- inside a traditional sequence'') else Inr (setType Sequence root, trad))
     else if hd content = CHR ''['' then Inr (setType Sequence root, True)
     else if CHR '':'' \<in> set content then Inr (setType Attributes root, trad)
     else Inr (setType Scalar root, trad))"

type_synonym parse_result = "yobj \<times> string \<times> istream"

text \<open>
  \<open>parse_loop base incremented should_read trad root line i\<close> is the loop of \<open>Parser::parse\<close> with the values of its
  variables at the head of the loop; its value is the object, the line left over and the stream.
\<close>

partial_function (option) parse_loop ::
    "nat \<Rightarrow> bool \<Rightarrow> bool \<Rightarrow> bool \<Rightarrow> yobj \<Rightarrow> string \<Rightarrow> istream \<Rightarrow> (exc + parse_result) option" where
  "parse_loop base incremented should_read trad root line0 i0 =
    (let (line1, i) = Parser_getline should_read line0 i0 in
     if is_failed i then Some (Inr (root, [], i))
     else if contains_forbidden_characters line1 then Some (Inl (ParseExc ''forbidden character''))
     else let line = uncomment line1 in
     case first_non_whitespace line of
       None \<Rightarrow> parse_loop base incremented True trad root line i
     | Some sbegin \<Rightarrow>
       if sbegin < base \<and> \<not> trad then Some (Inr (root, line, i))
       else if base < sbegin \<and> \<not> trad \<and> incremented then Some (Inl (ParseExc ''levels of indentation''))
       else
         let further = base < sbegin \<and> \<not> trad;
             base = (if further then sbegin else base);
             incremented = (incremented \<or> further);
             content = ytrim line in
         case begin_object content trad root of
           Inl e \<Rightarrow> Some (Inl e)
         | Inr (root, trad) \<Rightarrow>
           (case y_type root of
              Undefined \<Rightarrow> Some (Inl (ParseExc ''Unexpected error''))
            | Null \<Rightarrow> Some (Inl (ParseExc ''Unexpected error''))
            | Scalar \<Rightarrow>
                let (value, last_found) = (if trad then cut_scalar content (length content) else (content, length content))
                in Some (Inr (assign_scalar value root, spaces (base + 1) @ drop last_found content, i))
            | Sequence \<Rightarrow>
                if trad \<and> hd content = CHR '']'' then Some (Inr (root, spaces (base + 1) @ drop 1 content, i))
                else if trad \<and> hd content \<noteq> CHR '','' \<and> hd content \<noteq> CHR ''['' then
                  Some (Inl (ParseExc ''unexpected character inside a sequence''))
                else if \<not> trad \<and> hd content \<noteq> CHR ''-'' then Some (Inr (root, line, i))
                else
                  Option.bind (parse_loop (base + 1) False False trad Object (spaces (base + 1) @ drop 1 content) i) (\<lambda>res.
                  case res of Inl e \<Rightarrow> Some (Inl e)
                  | Inr (subObj, remaining_line, i1) \<Rightarrow>
                      parse_loop base incremented (remaining_line = []) trad (push_back subObj root)
                        (if remaining_line = [] then line else remaining_line) i1)
            | Attributes \<Rightarrow>
                (case find_first (\<lambda>c. c = CHR '':'') content of
                   None \<Rightarrow> Some (Inl (ParseExc ''no colon''))
                 | Some colon_pos \<Rightarrow>
                   let attr = ytrim (take colon_pos content) in
                   if attr = [] then Some (Inl (ParseExc ''no attribute name''))
                   else
                     Option.bind (parse_loop (base + 1) False False trad Object
                         (spaces (base + 1) @ drop (colon_pos + 1) content) i) (\<lambda>res.
                     case res of Inl e \<Rightarrow> Some (Inl e)
                     | Inr (subObj, remaining_line, i1) \<Rightarrow>
                         parse_loop base incremented (remaining_line = []) trad (assign_attr attr subObj root)
                           (if remaining_line = [] then line else remaining_line) i1))))"

declare parse_loop.simps [code]

definition yaml_parse :: "string \<Rightarrow> (exc + yobj) option" where
  "yaml_parse text_of_file =
     map_option (map_sum id fst) (parse_loop 0 False False False Object [] \<lparr>is_rest = text_of_file, is_failed = False\<rparr>)"

end
