(* ===== verification/Csv.thy ===== *)
theory Csv
  imports StrToken Yaml
begin

text \<open>
  \<open>librtsim/include/rtsim/csv.hpp\<close> and \<open>trim.hpp\<close>: tables of text with a header.  The table is a map from the name of a
  column to its cells, and reading a cell outside of a column, which the code does not check, is undefined.
\<close>

definition ltrim :: "string \<Rightarrow> string" where
  "ltrim s = dropWhile is_space s"

definition rtrim :: "string \<Rightarrow> string" where
  "rtrim s = rev (dropWhile is_space (rev s))"

definition csv_trim :: "string \<Rightarrow> string" where
  "csv_trim s = rtrim (ltrim s)"

record csv_doc =
  csv_table :: "string \<Rightarrow> string list option"
  csv_header :: "string list"

definition csv_empty :: csv_doc where
  "csv_empty = \<lparr>csv_table = (\<lambda>_. None), csv_header = []\<rparr>"

definition csv_swap :: "csv_doc \<Rightarrow> csv_doc \<Rightarrow> csv_doc \<times> csv_doc" where
  "csv_swap d other = (other, d)"

definition csv_clear :: "csv_doc \<Rightarrow> csv_doc" where
  "csv_clear d = fst (csv_swap d csv_empty)"

definition csv_columns :: "csv_doc \<Rightarrow> nat" where
  "csv_columns d = length (csv_header d)"

text \<open>
  \<open>rows\<close> looks at the first column of the map, the one with the least name: strings compare by the codes of their
  characters.  The names in the map are those of the header.
\<close>

fun string_less :: "string \<Rightarrow> string \<Rightarrow> bool" where
  "string_less [] t \<longleftrightarrow> t \<noteq> []"
| "string_less (c # s) [] \<longleftrightarrow> False"
| "string_less (c # s) (d # t) \<longleftrightarrow> (of_char c :: nat) < of_char d \<or> c = d \<and> string_less s t"

fun least_name :: "string list \<Rightarrow> string" where
  "least_name [] = []"
| "least_name [n] = n"
| "least_name (n # m # ns) = (let k = least_name (m # ns) in if string_less k n then k else n)"

definition csv_rows :: "csv_doc \<Rightarrow> nat" where
  "csv_rows d =
    (if csv_header d = [] then 0
     else case csv_table d (least_name (csv_header d)) of None \<Rightarrow> 0 | Some col \<Rightarrow> length col)"

definition csv_at :: "string \<Rightarrow> nat \<Rightarrow> csv_doc \<Rightarrow> exc + string" where
  "csv_at colname row_idx d =
    (case csv_table d colname of None \<Rightarrow> Inr []
     | Some col \<Rightarrow> if row_idx < length col then Inr (col ! row_idx) else Inl (UndefinedBehaviour ''row_idx''))"

fun csv_getcells :: "string list \<Rightarrow> nat \<Rightarrow> csv_doc \<Rightarrow> exc + string list" where
  "csv_getcells [] row_idx d = Inr []"
| "csv_getcells (c # cs) row_idx d = bindE (csv_at c row_idx d) (\<lambda>x. bindE (csv_getcells cs row_idx d) (\<lambda>xs. Inr (x # xs)))"

definition csv_getrow :: "nat \<Rightarrow> csv_doc \<Rightarrow> exc + string list" where
  "csv_getrow row_idx d = csv_getcells (csv_header d) row_idx d"

definition csv_getcolumn :: "string \<Rightarrow> csv_doc \<Rightarrow> exc + string list" where
  "csv_getcolumn colname d =
    (case csv_table d colname of None \<Rightarrow> Inl (StdExc ''std::runtime_error'') | Some col \<Rightarrow> Inr col)"

section \<open>Reading\<close>

text \<open>\<open>getline\<close> up to a delimiter; with the end of a line it is \<open>std_getline\<close>.\<close>

definition getline_to :: "char \<Rightarrow> istream \<Rightarrow> string \<times> istream" where
  "getline_to delim i =
    (if is_failed i \<or> is_rest i = [] then ([], i\<lparr>is_failed := True\<rparr>)
     else (takeWhile (\<lambda>c. c \<noteq> delim) (is_rest i), i\<lparr>is_rest := drop 1 (dropWhile (\<lambda>c. c \<noteq> delim) (is_rest i))\<rparr>))"

text \<open>The cells of a line, trimmed: the loop \<open>while (getline(iss, cell, ','))\<close>.\<close>

lemma getline_shorter:
  "is_rest i \<noteq> [] \<Longrightarrow> length (drop 1 (dropWhile P (is_rest i))) < length (is_rest i)"
  by (cases "is_rest i") (auto intro: le_less_trans [OF diff_le_self] le_less_trans [OF dropWhile_shorter])

function csv_cells :: "istream \<Rightarrow> string list" where
  "csv_cells i = (let (cell, i1) = getline_to CHR '','' i in if is_failed i1 then [] else csv_trim cell # csv_cells i1)"
  by pat_completeness auto

termination csv_cells
  by (relation "measure (\<lambda>i. length (is_rest i))")
    (auto simp: getline_to_def getline_shorter [simplified] split: if_splits)

declare csv_cells.simps [simp del]

definition line_cells :: "string \<Rightarrow> string list" where
  "line_cells buffer = csv_cells \<lparr>is_rest = buffer, is_failed = False\<rparr>"

fun read_header :: "string list \<Rightarrow> csv_doc \<Rightarrow> csv_doc" where
  "read_header [] d = d"
| "read_header (cell # cells) d =
    read_header cells (d\<lparr>csv_header := csv_header d @ [cell], csv_table := (csv_table d)(cell := Some [])\<rparr>)"

definition push_cell :: "string \<Rightarrow> string \<Rightarrow> csv_doc \<Rightarrow> csv_doc" where
  "push_cell key cell d =
    d\<lparr>csv_table := (csv_table d)(key := Some ((case csv_table d key of None \<Rightarrow> [] | Some col \<Rightarrow> col) @ [cell]))\<rparr>"

text \<open>A row: the cells of the line, then empty cells up to the width of the header.\<close>

fun read_cells :: "string list \<Rightarrow> nat \<Rightarrow> csv_doc \<Rightarrow> exc + csv_doc" where
  "read_cells [] i d = Inr (fold (\<lambda>key. push_cell key []) (drop i (csv_header d)) d)"
| "read_cells (cell # cells) i d =
    (if i < length (csv_header d) then read_cells cells (Suc i) (push_cell (csv_header d ! i) cell d) else Inl OutOfRange)"

function read_rows :: "istream \<Rightarrow> csv_doc \<Rightarrow> exc + csv_doc" where
  "read_rows i d = (let (buffer, i1) = getline_to newline i in
     if is_failed i1 then Inr d else bindE (read_cells (line_cells buffer) 0 d) (read_rows i1))"
  by pat_completeness auto

termination read_rows
  by (relation "measure (\<lambda>(i, d). length (is_rest i))")
    (auto simp: getline_to_def getline_shorter [simplified] split: if_splits)

declare read_rows.simps [simp del]

definition csv_readStream :: "istream \<Rightarrow> exc + csv_doc" where
  "csv_readStream i = (let (buffer, i1) = getline_to newline i in read_rows i1 (read_header (line_cells buffer) csv_empty))"

definition csv_readFile :: "(string \<Rightarrow> string option) \<Rightarrow> string \<Rightarrow> exc + csv_doc" where
  "csv_readFile fs path =
    (case fs path of None \<Rightarrow> Inl (StdExc ''std::runtime_error'')
     | Some text_of_file \<Rightarrow> csv_readStream \<lparr>is_rest = text_of_file, is_failed = False\<rparr>)"

definition CSVDocument_ctor :: "(string \<Rightarrow> string option) \<Rightarrow> string \<Rightarrow> exc + csv_doc" where
  "CSVDocument_ctor fs path = (if path \<noteq> [] then csv_readFile fs path else Inr csv_empty)"

end
