(* ===== verification/PList.thy ===== *)
theory PList
  imports Prelude
begin

text \<open>
  \<open>libmetasim/include/metasim/plist.hpp\<close>: the priority list, a \<open>std::set\<close> of pointers ordered by
  a comparison object.  The set is modelled by the list of its elements in iteration order and
  every operation takes the comparison \<open>lt\<close>, as \<open>Compare\<close> does in the template.  Two elements are
  the same key for the container when neither is less than the other.

  The model of insertion walks to the position that the search tree would find; the two agree as
  long as the elements are sorted, which the lemmas keep as an invariant.
\<close>

definition equivalent_key :: "('a \<Rightarrow> 'a \<Rightarrow> bool) \<Rightarrow> 'a \<Rightarrow> 'a \<Rightarrow> bool" where
  "equivalent_key lt x y \<longleftrightarrow> \<not> lt x y \<and> \<not> lt y x"

fun pl_insert :: "('a \<Rightarrow> 'a \<Rightarrow> bool) \<Rightarrow> 'a \<Rightarrow> 'a list \<Rightarrow> 'a list \<times> bool" where
  "pl_insert lt x [] = ([x], True)"
| "pl_insert lt x (y # ys) =
     (if lt x y then (x # y # ys, True)
      else if lt y x then (y # fst (pl_insert lt x ys), snd (pl_insert lt x ys))
      else (y # ys, False))"

definition pl_erase :: "('a \<Rightarrow> 'a \<Rightarrow> bool) \<Rightarrow> 'a \<Rightarrow> 'a list \<Rightarrow> 'a list" where
  "pl_erase lt x xs = filter (\<lambda>y. \<not> equivalent_key lt x y) xs"

definition pl_find :: "('a \<Rightarrow> 'a \<Rightarrow> bool) \<Rightarrow> 'a \<Rightarrow> 'a list \<Rightarrow> 'a option" where
  "pl_find lt x xs = List.find (equivalent_key lt x) xs"

text \<open>\<open>front()\<close> and \<open>back()\<close> of an empty container are undefined in C++: \<open>None\<close>.\<close>

definition pl_front :: "'a list \<Rightarrow> 'a option" where
  "pl_front xs = (case xs of [] \<Rightarrow> None | x # _ \<Rightarrow> Some x)"

definition pl_back :: "'a list \<Rightarrow> 'a option" where
  "pl_back xs = (if xs = [] then None else Some (last xs))"

definition pl_empty :: "'a list \<Rightarrow> bool" where
  "pl_empty xs \<longleftrightarrow> xs = []"

definition pl_clear :: "'a list \<Rightarrow> 'a list" where
  "pl_clear xs = []"

definition pl_size :: "'a list \<Rightarrow> nat" where
  "pl_size xs = length xs"

section \<open>The container under a strict order\<close>

text \<open>
  What \<open>std::set\<close> asks of the comparison (a strict weak order), and what it gives in return.
\<close>

locale strict_weak_order =
  fixes lt :: "'a \<Rightarrow> 'a \<Rightarrow> bool"
  assumes irrefl: "\<not> lt x x"
    and trans: "lt x y \<Longrightarrow> lt y z \<Longrightarrow> lt x z"
    and cotrans: "lt x z \<Longrightarrow> lt x y \<or> lt y z"
begin

lemma asym: "lt x y \<Longrightarrow> \<not> lt y x"
  using irrefl trans by blast

lemma equivalent_refl: "equivalent_key lt x x"
  by (simp add: equivalent_key_def irrefl)

lemma sorted_distinct: "sorted_wrt lt xs \<Longrightarrow> distinct xs"
  by (induction xs) (auto simp: irrefl)

lemma sorted_not_equivalent:
  "sorted_wrt lt xs \<Longrightarrow> x \<in> set xs \<Longrightarrow> y \<in> set xs \<Longrightarrow> x \<noteq> y \<Longrightarrow> \<not> equivalent_key lt x y"
  by (induction xs) (auto simp: equivalent_key_def)

lemma insert_set: "set (fst (pl_insert lt x xs)) \<subseteq> insert x (set xs)"
  by (induction xs) auto

lemma insert_set_new: "snd (pl_insert lt x xs) \<Longrightarrow> set (fst (pl_insert lt x xs)) = insert x (set xs)"
  by (induction xs) (auto split: if_splits)

lemma insert_refused: "\<not> snd (pl_insert lt x xs) \<Longrightarrow> fst (pl_insert lt x xs) = xs"
  by (induction xs) (auto split: if_splits)

lemma insert_superset: "set xs \<subseteq> set (fst (pl_insert lt x xs))"
  by (induction xs) auto

lemma insert_sorted: "sorted_wrt lt xs \<Longrightarrow> sorted_wrt lt (fst (pl_insert lt x xs))"
proof (induction xs)
  case Nil
  then show ?case by simp
next
  case (Cons y ys)
  then show ?case using insert_set [of x ys] by (auto intro: trans)
qed

lemma insert_accepts:
  "sorted_wrt lt xs \<Longrightarrow> snd (pl_insert lt x xs) \<longleftrightarrow> (\<forall>y\<in>set xs. \<not> equivalent_key lt x y)"
proof (induction xs)
  case Nil
  then show ?case by simp
next
  case (Cons y ys)
  then have tail: "\<forall>z\<in>set ys. lt y z" and sorted: "sorted_wrt lt ys" by auto
  show ?case
  proof (cases "lt x y")
    case True
    then have "\<forall>z\<in>set (y # ys). lt x z" using tail trans by auto
    with True show ?thesis by (auto simp: equivalent_key_def)
  next
    case False
    then show ?thesis using Cons.IH [OF sorted] by (auto simp: equivalent_key_def)
  qed
qed

lemma insert_length:
  "length (fst (pl_insert lt x xs)) = (if snd (pl_insert lt x xs) then Suc (length xs) else length xs)"
  by (induction xs) auto

lemma erase_sorted: "sorted_wrt lt xs \<Longrightarrow> sorted_wrt lt (pl_erase lt x xs)"
  by (simp add: pl_erase_def sorted_wrt_filter)

lemma erase_subset: "set (pl_erase lt x xs) \<subseteq> set xs"
  by (auto simp: pl_erase_def)

lemma erase_self: "x \<notin> set (pl_erase lt x xs)"
  by (simp add: pl_erase_def equivalent_refl)

lemma erase_set:
  assumes "sorted_wrt lt xs" and "x \<in> set xs"
  shows "set (pl_erase lt x xs) = set xs - {x}"
  using assms sorted_not_equivalent [OF assms(1), of x] equivalent_refl
  by (auto simp: pl_erase_def)

lemma erase_removes1:
  assumes "sorted_wrt lt xs" and "x \<in> set xs"
  shows "pl_erase lt x xs = remove1 x xs"
proof -
  have "filter (\<lambda>y. \<not> equivalent_key lt x y) xs = filter (\<lambda>y. y \<noteq> x) xs"
    by (rule filter_cong) (use assms sorted_not_equivalent [OF assms(1), of x] equivalent_refl in auto)
  then show ?thesis
    using sorted_distinct [OF assms(1)] distinct_remove1_removeAll [of xs x]
    by (auto simp: pl_erase_def removeAll_filter_not_eq intro: filter_cong)
qed

lemma erase_first: "sorted_wrt lt (x # xs) \<Longrightarrow> pl_erase lt x (x # xs) = xs"
  using erase_removes1 [of "x # xs" x] by simp

lemma erase_shorter: "x \<in> set xs \<Longrightarrow> length (pl_erase lt x xs) < length xs"
  unfolding pl_erase_def by (rule length_filter_less [of x]) (auto simp: equivalent_refl)

lemma erase_absent:
  "(\<And>y. y \<in> set xs \<Longrightarrow> \<not> equivalent_key lt x y) \<Longrightarrow> pl_erase lt x xs = xs"
  by (simp add: pl_erase_def filter_id_conv)

lemma front_least: "sorted_wrt lt xs \<Longrightarrow> pl_front xs = Some x \<Longrightarrow> y \<in> set xs \<Longrightarrow> y = x \<or> lt x y"
  by (cases xs) (auto simp: pl_front_def)

lemma back_greatest: "sorted_wrt lt xs \<Longrightarrow> pl_back xs = Some x \<Longrightarrow> y \<in> set xs \<Longrightarrow> y = x \<or> lt y x"
  by (induction xs rule: rev_induct) (auto simp: pl_back_def sorted_wrt_append split: if_splits)

lemma insert_erase:
  assumes "sorted_wrt lt xs" and "snd (pl_insert lt x xs)"
  shows "pl_erase lt x (fst (pl_insert lt x xs)) = xs"
  using assms
proof (induction xs)
  case Nil
  then show ?case by (simp add: pl_erase_def equivalent_refl)
next
  case (Cons y ys)
  show ?case
  proof (cases "lt x y")
    case True
    with Cons.prems have "sorted_wrt lt (x # y # ys)"
      using insert_sorted [of "y # ys" x] by simp
    with True show ?thesis by (simp add: erase_first)
  next
    case False
    with Cons show ?thesis by (auto simp: pl_erase_def equivalent_key_def split: if_splits)
  qed
qed

end

lemma pl_insert_cong:
  "(\<And>y. y \<in> set xs \<Longrightarrow> lt x y = lt' x y \<and> lt y x = lt' y x) \<Longrightarrow> pl_insert lt x xs = pl_insert lt' x xs"
  by (induction xs) auto

lemma sorted_wrt_cong:
  "(\<And>x y. x \<in> set xs \<Longrightarrow> y \<in> set xs \<Longrightarrow> lt x y = lt' x y) \<Longrightarrow> sorted_wrt lt xs = sorted_wrt lt' xs"
  by (induction xs) auto

end
