(* ===== verification/SortedCont.thy ===== *)
theory SortedCont
  imports PList "HOL-Library.Multiset"
begin

text \<open>
  \<open>librtsim/include/rtsim/sortedcont.hpp\<close>: a vector kept in the order of a comparison, and the map made of it.  An
  iterator is a position, \<open>end()\<close> the length.  \<open>std::lower_bound\<close> is the first element that is not less, on the
  ordered ranges it is called on; the lemmas hold for every comparison that is a strict weak order.
\<close>

definition sv_first_non_less :: "('a \<Rightarrow> 'a \<Rightarrow> bool) \<Rightarrow> 'a \<Rightarrow> 'a list \<Rightarrow> nat" where
  "sv_first_non_less lt v xs = length (takeWhile (\<lambda>x. lt x v) xs)"

definition sv_find :: "('a \<Rightarrow> 'a \<Rightarrow> bool) \<Rightarrow> 'a \<Rightarrow> 'a list \<Rightarrow> nat" where
  "sv_find lt v xs =
    (let res = sv_first_non_less lt v xs in if res < length xs \<and> lt v (xs ! res) then length xs else res)"

definition sv_insert :: "('a \<Rightarrow> 'a \<Rightarrow> bool) \<Rightarrow> 'a \<Rightarrow> 'a list \<Rightarrow> 'a list" where
  "sv_insert lt v xs = (let p = sv_first_non_less lt v xs in take p xs @ v # drop p xs)"

text \<open>\<open>front()\<close>, \<open>back()\<close> and \<open>[]\<close> outside of the vector are undefined: \<open>None\<close>.\<close>

definition sv_front :: "'a list \<Rightarrow> 'a option" where
  "sv_front xs = (case xs of [] \<Rightarrow> None | x # _ \<Rightarrow> Some x)"

definition sv_back :: "'a list \<Rightarrow> 'a option" where
  "sv_back xs = (if xs = [] then None else Some (last xs))"

definition sv_at_pos :: "nat \<Rightarrow> 'a list \<Rightarrow> exc + 'a" where
  "sv_at_pos n xs = (if n < length xs then Inr (xs ! n) else Inl OutOfRange)"

definition sv_index :: "nat \<Rightarrow> 'a list \<Rightarrow> 'a option" where
  "sv_index n xs = (if n < length xs then Some (xs ! n) else None)"

definition less_pair :: "('k \<Rightarrow> 'k \<Rightarrow> bool) \<Rightarrow> 'k \<times> 'v \<Rightarrow> 'k \<times> 'v \<Rightarrow> bool" where
  "less_pair lt v1 v2 \<longleftrightarrow> lt (fst v1) (fst v2)"

text \<open>The maps look for a pair of the key and \<open>V()\<close>.\<close>

definition sm_first_non_less_key :: "('k \<Rightarrow> 'k \<Rightarrow> bool) \<Rightarrow> 'v \<Rightarrow> 'k \<Rightarrow> ('k \<times> 'v) list \<Rightarrow> nat" where
  "sm_first_non_less_key lt v0 key m = sv_first_non_less (less_pair lt) (key, v0) m"

definition sm_find_from_key :: "('k \<Rightarrow> 'k \<Rightarrow> bool) \<Rightarrow> 'v \<Rightarrow> 'k \<Rightarrow> ('k \<times> 'v) list \<Rightarrow> nat" where
  "sm_find_from_key lt v0 key m = sv_find (less_pair lt) (key, v0) m"

definition sm_at_key :: "('k \<Rightarrow> 'k \<Rightarrow> bool) \<Rightarrow> 'v \<Rightarrow> 'k \<Rightarrow> ('k \<times> 'v) list \<Rightarrow> exc + 'k \<times> 'v" where
  "sm_at_key lt v0 key m =
    (let res = sm_find_from_key lt v0 key m in if res = length m then Inl OutOfRange else Inr (m ! res))"

section \<open>The container under a strict weak order\<close>

context strict_weak_order
begin

definition sv_sorted :: "'a list \<Rightarrow> bool" where
  "sv_sorted = sorted_wrt (\<lambda>x y. \<not> lt y x)"

lemma sv_sorted_simps [simp]:
  "sv_sorted []" "sv_sorted (x # xs) \<longleftrightarrow> (\<forall>y\<in>set xs. \<not> lt y x) \<and> sv_sorted xs"
  by (simp_all add: sv_sorted_def)

lemma sv_insert_Nil [simp]: "sv_insert lt v [] = [v]"
  and sv_insert_Cons [simp]: "sv_insert lt v (x # xs) = (if lt x v then x # sv_insert lt v xs else v # x # xs)"
  by (simp_all add: sv_insert_def sv_first_non_less_def Let_def)

lemma sv_insert_mset: "mset (sv_insert lt v xs) = add_mset v (mset xs)"
  by (induction xs) auto

lemma sv_insert_set [simp]: "set (sv_insert lt v xs) = insert v (set xs)"
  by (induction xs) auto

lemma sv_insert_sorted: "sv_sorted xs \<Longrightarrow> sv_sorted (sv_insert lt v xs)"
proof (induction xs)
  case (Cons x xs)
  then show ?case using asym [of x v] cotrans [of _ v x] by (cases "lt x v") auto
qed simp

text \<open>The first element that is not less splits an ordered vector.\<close>

lemma sv_split:
  assumes "sv_sorted xs"
  shows "i < length xs \<Longrightarrow> i < sv_first_non_less lt v xs \<longleftrightarrow> lt (xs ! i) v"
  using assms
proof (induction xs arbitrary: i)
  case (Cons x xs)
  show ?case
  proof (cases i)
    case 0
    then show ?thesis by (simp add: sv_first_non_less_def)
  next
    case (Suc j)
    then have "j < sv_first_non_less lt v xs \<longleftrightarrow> lt (xs ! j) v" using Cons by simp
    moreover have "\<not> lt (xs ! j) x" using Cons.prems Suc by simp
    ultimately show ?thesis using Suc trans [of "xs ! j" v x] cotrans [of "xs ! j" v x] by (auto simp: sv_first_non_less_def)
  qed
qed simp

lemma sv_first_bound: "sv_first_non_less lt v xs \<le> length xs"
  by (simp add: sv_first_non_less_def length_takeWhile_le)

text \<open>\<open>find\<close> is the first element with the key, and of equal keys the one inserted last comes first.\<close>

lemma find_first_equivalent:
  assumes "sv_sorted xs"
  shows "(case filter (equivalent_key lt v) xs of [] \<Rightarrow> sv_find lt v xs = length xs
    | x # _ \<Rightarrow> sv_find lt v xs < length xs \<and> xs ! sv_find lt v xs = x)"
  using assms
proof (induction xs)
  case Nil
  then show ?case by (simp add: sv_find_def sv_first_non_less_def)
next
  case (Cons x xs)
  have IH: "(case filter (equivalent_key lt v) xs of [] \<Rightarrow> sv_find lt v xs = length xs
    | x # _ \<Rightarrow> sv_find lt v xs < length xs \<and> xs ! sv_find lt v xs = x)" using Cons by simp
  consider (less) "lt x v" | (greater) "lt v x" | (same) "equivalent_key lt v x"
    unfolding equivalent_key_def by blast
  then show ?case
  proof cases
    case less
    then have "sv_find lt v (x # xs) = Suc (sv_find lt v xs)"
      by (simp add: sv_find_def sv_first_non_less_def Let_def)
    moreover have "\<not> equivalent_key lt v x" using less by (simp add: equivalent_key_def)
    ultimately show ?thesis using IH by (simp split: list.splits)
  next
    case greater
    then have "\<not> equivalent_key lt v y" if "y \<in> set (x # xs)" for y
      using Cons.prems that cotrans [of v x y] by (auto simp: equivalent_key_def)
    then have "filter (equivalent_key lt v) (x # xs) = []" by (simp add: filter_empty_conv)
    moreover have "sv_find lt v (x # xs) = length (x # xs)"
      using greater asym by (simp add: sv_find_def sv_first_non_less_def Let_def)
    ultimately show ?thesis by simp
  next
    case same
    then show ?thesis by (simp add: sv_find_def sv_first_non_less_def Let_def equivalent_key_def)
  qed
qed

lemma filter_insert:
  assumes "sv_sorted xs"
  shows "filter (equivalent_key lt v) (sv_insert lt x xs) =
    (if equivalent_key lt v x then x # filter (equivalent_key lt v) xs else filter (equivalent_key lt v) xs)"
  using assms
proof (induction xs)
  case (Cons y ys)
  have "\<not> (equivalent_key lt v x \<and> equivalent_key lt v y)" if "lt y x"
    using that cotrans [of y x v] by (auto simp: equivalent_key_def)
  then show ?case using Cons by auto
qed simp

lemma inserts_sorted: "sv_sorted xs \<Longrightarrow> sv_sorted (foldl (\<lambda>xs v. sv_insert lt v xs) xs vs)"
  by (induction vs arbitrary: xs) (simp_all add: sv_insert_sorted)

lemma filter_inserts:
  "sv_sorted xs \<Longrightarrow> filter (equivalent_key lt v) (foldl (\<lambda>xs v. sv_insert lt v xs) xs vs) =
    rev (filter (equivalent_key lt v) vs) @ filter (equivalent_key lt v) xs"
  by (induction vs arbitrary: xs) (simp_all add: sv_insert_sorted filter_insert)

end

text \<open>A map is ordered by its keys.\<close>

lemma less_pair_order: "strict_weak_order lt \<Longrightarrow> strict_weak_order (less_pair lt)"
  unfolding strict_weak_order_def less_pair_def by blast

end
