(* ===== verification/PowerModels.thy ===== *)
theory PowerModels
  imports SortedCont Complex_Main "HOL-Library.Word"
begin

text \<open>
  Operating points (\<open>opp.hpp\<close>), the stateless models of power and speed (\<open>stateless_cpumodel_*.hpp\<close>,
  \<open>interpolate.hpp\<close>), their parameters (\<open>powermodel_params.hpp\<close>) and the model of a processor (\<open>powermodel.hpp\<close>,
  \<open>powermodel.cpp\<close>).  A stateless model is an object with one virtual method, and is modelled by that method.
  Frequencies have 32 bits; a \<open>double\<close> is a rational number, and a quotient by zero, an infinity or NaN of the code,
  is \<open>DivisionByZero\<close>.  The exponential function is a parameter.
\<close>

section \<open>Operating points\<close>

type_synonym freq = "32 word"

record opp =
  opp_frequency :: freq
  opp_voltage :: rat

definition OPP :: "freq \<Rightarrow> rat \<Rightarrow> opp" where
  "OPP f v = \<lparr>opp_frequency = f, opp_voltage = v\<rparr>"

definition OPP_fromVectors :: "rat list \<Rightarrow> freq list \<Rightarrow> exc + opp list" where
  "OPP_fromVectors V F =
    (if length V \<noteq> length F then Inl (AssertFailed ''V.size() == F.size()'') else Inr (map2 (\<lambda>v f. OPP f v) V F))"

definition opp_less_freq :: "opp \<Rightarrow> opp \<Rightarrow> bool" where
  "opp_less_freq lhs rhs \<longleftrightarrow> opp_frequency lhs < opp_frequency rhs"

definition opp_less :: "opp \<Rightarrow> opp \<Rightarrow> bool" where
  "opp_less lhs rhs =
    (if opp_less_freq lhs rhs then True else if opp_less_freq rhs lhs then False else opp_voltage lhs < opp_voltage rhs)"

definition opp_greater :: "opp \<Rightarrow> opp \<Rightarrow> bool" where
  "opp_greater lhs rhs = opp_less rhs lhs"

text \<open>The code compares the voltage of the left hand side with itself.\<close>

definition opp_eq :: "opp \<Rightarrow> opp \<Rightarrow> bool" where
  "opp_eq lhs rhs \<longleftrightarrow> opp_frequency lhs = opp_frequency rhs \<and> opp_voltage lhs = opp_voltage lhs"

definition opp_neq :: "opp \<Rightarrow> opp \<Rightarrow> bool" where
  "opp_neq lhs rhs \<longleftrightarrow> \<not> opp_eq lhs rhs"

interpretation opp_freq: strict_weak_order opp_less_freq
  by unfold_locales (auto simp: opp_less_freq_def)

interpretation opp_order: strict_weak_order opp_less
  by unfold_locales (auto simp: opp_less_def opp_less_freq_def split: if_splits)

section \<open>Parameters\<close>

record bp_power =
  bp_d :: rat
  bp_e :: rat
  bp_g :: rat
  bp_k :: rat

record bp_speed =
  sp_a :: rat
  sp_b :: rat
  sp_c :: rat
  sp_d :: rat

record tb_params =
  tb_workload :: string
  tb_freq :: freq
  tb_volt :: rat
  tb_power :: rat
  tb_speed :: rat

datatype cpum_params =
    MinimalParams
  | BPParams string bp_power bp_speed
  | TBParams tb_params
  | TBApproxParams tb_params

definition minimal_key :: string where "minimal_key = ''minimal''"
definition bp_key :: string where "bp_key = ''balsini_pannocchi''"
definition tb_key :: string where "tb_key = ''table_based''"
definition tb_approx_key :: string where "tb_approx_key = ''table_based_approx''"

record cpum_descriptor =
  cd_name :: string
  cd_type :: string
  cd_params :: "cpum_params list"

section \<open>Stateless models\<close>

datatype model_type = PowerModel | SpeedModel

type_synonym stateless = "opp \<Rightarrow> string \<Rightarrow> freq \<Rightarrow> exc + rat"

definition FREQ_MAX :: freq where
  "FREQ_MAX = - 1"

definition freq_val :: "freq \<Rightarrow> rat" where
  "freq_val f = of_nat (unat f)"

definition divE :: "rat \<Rightarrow> rat \<Rightarrow> exc + rat" where
  "divE a b = (if b = 0 then Inl DivisionByZero else Inr (a / b))"

fun Minimal_lookup :: "model_type \<Rightarrow> stateless" where
  "Minimal_lookup PowerModel opp _ _ = Inr (opp_voltage opp * opp_voltage opp * freq_val (opp_frequency opp))"
| "Minimal_lookup SpeedModel opp _ f_max = divE (freq_val f_max) (freq_val (opp_frequency opp))"

subsection \<open>The model of Balsini and Pannocchi\<close>

text \<open>The constructor enters the parameters one by one; a parameter of another class is a null pointer.\<close>

fun BP_ctor :: "(bp_power \<Rightarrow> bp_speed \<Rightarrow> 'p) \<Rightarrow> cpum_params list \<Rightarrow> (string \<Rightarrow> 'p option) \<Rightarrow> exc + (string \<Rightarrow> 'p option)" where
  "BP_ctor conv [] m = Inr m"
| "BP_ctor conv (p # ps) m =
    (case p of BPParams workload pw sp \<Rightarrow> BP_ctor conv ps (m(workload := Some (conv pw sp)))
     | _ \<Rightarrow> Inl (NullPointer ''dynamic_cast<CPUModelBPParams *>''))"

text \<open>\<open>findParams\<close> with the fallback; the past-the-end iterator is not checked again.\<close>

definition BP_find :: "(string \<Rightarrow> 'p option) \<Rightarrow> string \<Rightarrow> exc + 'p" where
  "BP_find m workload =
    (case m workload of Some p \<Rightarrow> Inr p
     | None \<Rightarrow> (case m ''idle'' of Some p \<Rightarrow> Inr p | None \<Rightarrow> Inl (NullPointer ''_params.cend()'')))"

definition BP_power_lookup :: "(string \<Rightarrow> bp_power option) \<Rightarrow> stateless" where
  "BP_power_lookup m opp workload _ =
    (let f = freq_val (opp_frequency opp * 1000); v = opp_voltage opp in
     bindE (BP_find m workload) (\<lambda>p.
     let P_charge = bp_k p * f * (v * v);
         P_short = bp_e p * P_charge;
         P_dyn = P_short + P_charge;
         P_leak = bp_g p * v * P_dyn
     in Inr (P_leak + P_dyn + bp_d p)))"

definition BP_speed_lookup :: "(rat \<Rightarrow> rat) \<Rightarrow> (string \<Rightarrow> bp_speed option) \<Rightarrow> stateless" where
  "BP_speed_lookup ex m opp workload _ =
    (let f = freq_val (opp_frequency opp * 1000) in
     bindE (BP_find m workload) (\<lambda>p.
     bindE (divE (sp_b p) f) (\<lambda>ideal.
     bindE (divE f (sp_d p)) (\<lambda>q.
     let slope = sp_c p * ex (- q) in divE 1 (sp_a p + ideal + slope)))))"

fun BP_create :: "(rat \<Rightarrow> rat) \<Rightarrow> model_type \<Rightarrow> cpum_params list \<Rightarrow> exc + stateless" where
  "BP_create ex PowerModel ps = bindE (BP_ctor (\<lambda>pw sp. pw) ps (\<lambda>_. None)) (\<lambda>m. Inr (BP_power_lookup m))"
| "BP_create ex SpeedModel ps = bindE (BP_ctor (\<lambda>pw sp. sp) ps (\<lambda>_. None)) (\<lambda>m. Inr (BP_speed_lookup ex m))"

subsection \<open>Tables\<close>

type_synonym smap = "(opp \<times> rat) list"

definition TB_setParams :: "opp \<Rightarrow> string \<Rightarrow> rat \<Rightarrow> (string \<Rightarrow> smap option) \<Rightarrow> (string \<Rightarrow> smap option)" where
  "TB_setParams opp workload expected_value m =
    m(workload := Some (sv_insert (less_pair opp_less_freq) (opp, expected_value)
        (case m workload of None \<Rightarrow> [] | Some l \<Rightarrow> l)))"

definition find_suitable_map :: "(string \<Rightarrow> smap option) \<Rightarrow> string \<Rightarrow> smap option" where
  "find_suitable_map m workload =
    (case m workload of Some l \<Rightarrow> Some l
     | None \<Rightarrow> (case m ''busy'' of Some l \<Rightarrow> Some l | None \<Rightarrow> m ''idle''))"

definition exact_map_lookup :: "smap \<Rightarrow> opp \<Rightarrow> rat" where
  "exact_map_lookup m key =
    (let res = sm_find_from_key opp_less_freq 0 key m in if res = length m then 0 else snd (m ! res))"

definition exact_table_lookup :: "(string \<Rightarrow> smap option) \<Rightarrow> stateless" where
  "exact_table_lookup m opp workload _ =
    (case find_suitable_map m workload of None \<Rightarrow> Inr 0 | Some l \<Rightarrow> Inr (exact_map_lookup l opp))"

text \<open>Inverse distance weighting over the elements of a range.\<close>

definition weight :: "opp \<Rightarrow> opp \<Rightarrow> (opp \<Rightarrow> opp \<Rightarrow> rat) \<Rightarrow> exc + rat" where
  "weight x xi distance_fn = divE 1 (distance_fn x xi ^ 2)"

fun interpolate_loop :: "opp \<Rightarrow> (opp \<Rightarrow> opp \<Rightarrow> rat) \<Rightarrow> smap \<Rightarrow> rat \<Rightarrow> rat \<Rightarrow> exc + rat \<times> rat" where
  "interpolate_loop x distance_fn [] weightened_sum sum_of_weights = Inr (weightened_sum, sum_of_weights)"
| "interpolate_loop x distance_fn (cur # rest) weightened_sum sum_of_weights =
    bindE (weight x (fst cur) distance_fn) (\<lambda>cur_weight.
      interpolate_loop x distance_fn rest (weightened_sum + cur_weight * snd cur) (sum_of_weights + cur_weight))"

definition interpolate :: "opp \<Rightarrow> smap \<Rightarrow> (opp \<Rightarrow> opp \<Rightarrow> rat) \<Rightarrow> exc + rat" where
  "interpolate x its distance_fn = bindE (interpolate_loop x distance_fn its 0 0) (\<lambda>(ws, sw). divE ws sw)"

definition opp_power_distance :: "opp \<Rightarrow> opp \<Rightarrow> rat" where
  "opp_power_distance x xi =
    (opp_voltage x - opp_voltage xi) ^ 2 * \<bar>freq_val (opp_frequency x) - freq_val (opp_frequency xi)\<bar>"

definition opp_speed_distance :: "opp \<Rightarrow> opp \<Rightarrow> rat" where
  "opp_speed_distance x xi = (freq_val (opp_frequency x) - freq_val (opp_frequency xi)) ^ 2"

text \<open>The range from \<open>prev\<close> to \<open>next\<close> ends before \<open>next\<close>.\<close>

definition approx_table_lookup :: "(opp \<Rightarrow> opp \<Rightarrow> rat) \<Rightarrow> (string \<Rightarrow> smap option) \<Rightarrow> stateless" where
  "approx_table_lookup distance m opp workload _ =
    (case find_suitable_map m workload of None \<Rightarrow> Inr 0
     | Some l \<Rightarrow>
         let r = sm_first_non_less_key opp_less_freq 0 opp l;
             res = (if r = length l then length l - 1 else r);
             res_key = fst (l ! res)
         in if \<not> opp_less opp res_key then Inr (snd (l ! res))
            else if res = 0 then Inr (snd (l ! res))
            else let next_it = res; prev = res - 1
                 in interpolate opp (take (next_it - prev) (drop prev l)) distance)"

definition tb_value :: "model_type \<Rightarrow> tb_params \<Rightarrow> rat" where
  "tb_value ty pp = (case ty of PowerModel \<Rightarrow> tb_power pp | SpeedModel \<Rightarrow> tb_speed pp)"

fun TB_ctor :: "model_type \<Rightarrow> cpum_params list \<Rightarrow> (string \<Rightarrow> smap option) \<Rightarrow> exc + (string \<Rightarrow> smap option)" where
  "TB_ctor ty [] m = Inr m"
| "TB_ctor ty (p # ps) m =
    (let set_row = (\<lambda>pp. TB_ctor ty ps (TB_setParams (OPP (tb_freq pp) (tb_volt pp)) (tb_workload pp) (tb_value ty pp) m)) in
     case p of TBParams pp \<Rightarrow> set_row pp | TBApproxParams pp \<Rightarrow> set_row pp
     | _ \<Rightarrow> Inl (NullPointer ''dynamic_cast<CPUModelTBParams *>''))"

definition TB_create :: "model_type \<Rightarrow> cpum_params list \<Rightarrow> exc + stateless" where
  "TB_create ty ps = bindE (TB_ctor ty ps (\<lambda>_. None)) (\<lambda>m. Inr (exact_table_lookup m))"

definition TBApprox_create :: "model_type \<Rightarrow> cpum_params list \<Rightarrow> exc + stateless" where
  "TBApprox_create ty ps =
    bindE (TB_ctor ty ps (\<lambda>_. None)) (\<lambda>m.
      Inr (approx_table_lookup (case ty of PowerModel \<Rightarrow> opp_power_distance | SpeedModel \<Rightarrow> opp_speed_distance) m))"

definition StatelessCPUModel_create :: "(rat \<Rightarrow> rat) \<Rightarrow> model_type \<Rightarrow> cpum_descriptor \<Rightarrow> exc + stateless" where
  "StatelessCPUModel_create ex ty desc =
    (if cd_type desc = minimal_key then Inr (Minimal_lookup ty)
     else if cd_type desc = bp_key then BP_create ex ty (cd_params desc)
     else if cd_type desc = tb_key then TB_create ty (cd_params desc)
     else if cd_type desc = tb_approx_key then TBApprox_create ty (cd_params desc)
     else Inl (StdExc ''std::exception''))"

section \<open>The model of a processor\<close>

record cpu_model =
  cm_workload :: string
  cm_opp :: opp
  cm_F_max :: freq
  cm_power_value :: rat
  cm_speed_value :: rat
  cm_power_model :: "stateless option"
  cm_speed_model :: "stateless option"

definition CPUModel_ctor :: "opp \<Rightarrow> freq \<Rightarrow> cpu_model" where
  "CPUModel_ctor opp f_max =
    \<lparr>cm_workload = ''idle'', cm_opp = opp, cm_F_max = f_max, cm_power_value = 0, cm_speed_value = 0,
     cm_power_model = None, cm_speed_model = None\<rparr>"

text \<open>Both models are made of \<open>power_desc\<close>, as in the code.\<close>

definition CPUModel_create :: "(rat \<Rightarrow> rat) \<Rightarrow> cpum_descriptor \<Rightarrow> cpum_descriptor \<Rightarrow> opp \<Rightarrow> freq \<Rightarrow> exc + cpu_model" where
  "CPUModel_create ex power_desc speed_desc start_opp f_max =
    bindE (StatelessCPUModel_create ex PowerModel power_desc) (\<lambda>pm.
    bindE (StatelessCPUModel_create ex SpeedModel power_desc) (\<lambda>sm.
      Inr ((CPUModel_ctor start_opp f_max)\<lparr>cm_power_model := Some pm, cm_speed_model := Some sm\<rparr>)))"

definition virtual_lookup :: "stateless option \<Rightarrow> stateless" where
  "virtual_lookup sm opp workload f_max =
    (case sm of None \<Rightarrow> Inl (NullPointer ''StatelessCPUModel'') | Some l \<Rightarrow> l opp workload f_max)"

definition CPUModel_setOPP :: "opp \<Rightarrow> string \<Rightarrow> cpu_model \<Rightarrow> exc + cpu_model" where
  "CPUModel_setOPP opp workload m =
    (let m1 = m\<lparr>cm_opp := opp\<rparr>;
         m2 = (if workload \<noteq> [] then m1\<lparr>cm_workload := workload\<rparr> else m1);
         m3 = (if cm_F_max m2 < opp_frequency (cm_opp m2) then m2\<lparr>cm_opp := (cm_opp m2)\<lparr>opp_frequency := cm_F_max m2\<rparr>\<rparr> else m2)
     in bindE (virtual_lookup (cm_power_model m3) (cm_opp m3) (cm_workload m3) (cm_F_max m3)) (\<lambda>pw.
        bindE (virtual_lookup (cm_speed_model m3) (cm_opp m3) (cm_workload m3) (cm_F_max m3)) (\<lambda>sp.
          Inr (m3\<lparr>cm_power_value := pw, cm_speed_value := sp\<rparr>))))"

definition CPUModel_setVoltage :: "rat \<Rightarrow> cpu_model \<Rightarrow> exc + cpu_model" where
  "CPUModel_setVoltage v m = CPUModel_setOPP ((cm_opp m)\<lparr>opp_voltage := v\<rparr>) (cm_workload m) m"

definition CPUModel_setFrequency :: "freq \<Rightarrow> cpu_model \<Rightarrow> exc + cpu_model" where
  "CPUModel_setFrequency f m = CPUModel_setOPP ((cm_opp m)\<lparr>opp_frequency := f\<rparr>) (cm_workload m) m"

definition CPUModel_setWorkload :: "string \<Rightarrow> cpu_model \<Rightarrow> exc + cpu_model" where
  "CPUModel_setWorkload workload m = CPUModel_setOPP (cm_opp m) workload m"

definition CPUModel_setFrequencyMax :: "freq \<Rightarrow> cpu_model \<Rightarrow> exc + cpu_model" where
  "CPUModel_setFrequencyMax f_max m =
    (let m1 = m\<lparr>cm_F_max := f_max\<rparr>
     in if f_max < opp_frequency (cm_opp m1) then CPUModel_setOPP (cm_opp m1) (cm_workload m1) m1 else Inr m1)"

definition lookupPower :: "cpu_model \<Rightarrow> opp \<Rightarrow> string \<Rightarrow> exc + rat" where
  "lookupPower m opp workload = virtual_lookup (cm_power_model m) opp workload FREQ_MAX"

definition lookupSpeed :: "cpu_model \<Rightarrow> opp \<Rightarrow> string \<Rightarrow> exc + rat" where
  "lookupSpeed m opp workload = virtual_lookup (cm_speed_model m) opp workload FREQ_MAX"

end
