(* ===== verification/Processors.thy ===== *)
theory Processors
  imports PowerModels
begin

text \<open>
  \<open>librtsim/include/rtsim/cpu.hpp\<close>: processors and the islands that share an operating point.  Objects are numbered;
  a destroyed object is \<open>None\<close> and its use a null pointer.  A processor points to its island and an island has the set of
  its processors, which the model lists in the order of their numbers.  The values a processor caches come from the
  model of its island.  The names of the objects, which \<open>Entity\<close> registers, are left out.
\<close>

section \<open>State\<close>

datatype island_type = GENERIC | BIG | LITTLE | UNKNOWN

definition Type_toString :: "island_type \<Rightarrow> exc + string" where
  "Type_toString t = (case t of GENERIC \<Rightarrow> Inr ''Island_Generic'' | BIG \<Rightarrow> Inr ''Island_big'' | LITTLE \<Rightarrow> Inr ''Island_LITTLE''
     | UNKNOWN \<Rightarrow> Inl (AssertFailed ''false''))"

record pcpu =
  pc_index :: int
  pc_workload :: string
  pc_power :: rat
  pc_speed :: rat
  pc_max_power :: rat
  pc_disabled :: bool
  pc_kernel :: "nat option"
  pc_island :: "nat option"

record island =
  is_type :: island_type
  is_model :: "cpu_model option"
  is_cpus :: "nat list"
  is_opps :: "opp list"
  is_current_opp :: nat
  is_frequency_switches :: nat

record platform =
  pl_cpus :: "nat \<Rightarrow> pcpu option"
  pl_islands :: "nat \<Rightarrow> island option"

definition no_platform :: platform where
  "no_platform = \<lparr>pl_cpus = (\<lambda>_. None), pl_islands = (\<lambda>_. None)\<rparr>"

definition cpu_at :: "nat \<Rightarrow> platform \<Rightarrow> exc + pcpu" where
  "cpu_at c pl = (case pl_cpus pl c of None \<Rightarrow> Inl (NullPointer ''CPU'') | Some x \<Rightarrow> Inr x)"

definition island_at :: "nat \<Rightarrow> platform \<Rightarrow> exc + island" where
  "island_at i pl = (case pl_islands pl i of None \<Rightarrow> Inl (NullPointer ''CPUIsland'') | Some s \<Rightarrow> Inr s)"

definition put_cpu :: "nat \<Rightarrow> pcpu \<Rightarrow> platform \<Rightarrow> platform" where
  "put_cpu c x pl = pl\<lparr>pl_cpus := (pl_cpus pl)(c := Some x)\<rparr>"

definition put_island :: "nat \<Rightarrow> island \<Rightarrow> platform \<Rightarrow> platform" where
  "put_island i s pl = pl\<lparr>pl_islands := (pl_islands pl)(i := Some s)\<rparr>"

section \<open>What an island tells\<close>

definition Island_getProcessorsNumber :: "island \<Rightarrow> nat" where
  "Island_getProcessorsNumber s = length (is_cpus s)"

definition getOPPsize :: "island \<Rightarrow> nat" where
  "getOPPsize s = length (is_opps s)"

definition Island_getOPP :: "nat \<Rightarrow> island \<Rightarrow> exc + opp" where
  "Island_getOPP opp_index s =
    (if opp_index < getOPPsize s then Inr (is_opps s ! opp_index) else Inl (AssertFailed ''opp_index < getOPPsize()''))"

definition Island_getFrequency :: "nat \<Rightarrow> island \<Rightarrow> exc + freq" where
  "Island_getFrequency opp_index s = bindE (Island_getOPP opp_index s) (\<lambda>p. Inr (opp_frequency p))"

definition Island_getVoltage :: "nat \<Rightarrow> island \<Rightarrow> exc + rat" where
  "Island_getVoltage opp_index s = bindE (Island_getOPP opp_index s) (\<lambda>p. Inr (opp_voltage p))"

text \<open>The loop over the points; the number of points when no frequency matches.\<close>

fun index_of_frequency :: "freq \<Rightarrow> opp list \<Rightarrow> nat" where
  "index_of_frequency f [] = 0"
| "index_of_frequency f (p # ps) = (if opp_frequency p = f then 0 else Suc (index_of_frequency f ps))"

definition getOPPIndexByFrequency :: "freq \<Rightarrow> island \<Rightarrow> exc + nat" where
  "getOPPIndexByFrequency f s = (if 0 < f then Inr (index_of_frequency f (is_opps s)) else Inl (AssertFailed ''frequency > 0''))"

definition getOPPIndexByOPP :: "opp \<Rightarrow> island \<Rightarrow> exc + nat" where
  "getOPPIndexByOPP p s = getOPPIndexByFrequency (opp_frequency p) s"

definition Island_getHigherOPPs :: "nat \<Rightarrow> island \<Rightarrow> exc + opp list" where
  "Island_getHigherOPPs opp_index s =
    (if opp_index < getOPPsize s then Inr (drop opp_index (is_opps s)) else Inl (AssertFailed ''opp_index < getOPPsize()''))"

section \<open>What a processor tells\<close>

definition PCPU_getWorkload :: "pcpu \<Rightarrow> string" where
  "PCPU_getWorkload x = (if pc_disabled x \<or> length (pc_workload x) < 1 then ''idle'' else pc_workload x)"

definition PCPU_busy :: "pcpu \<Rightarrow> bool" where
  "PCPU_busy x \<longleftrightarrow> \<not> pc_disabled x \<and> PCPU_getWorkload x \<noteq> ''idle''"

definition PCPU_getSpeed :: "pcpu \<Rightarrow> rat" where
  "PCPU_getSpeed x = (if pc_disabled x then 0 else pc_speed x)"

text \<open>The calls that are forwarded to the island, with the value without one.\<close>

definition forwarded :: "(island \<Rightarrow> exc + 'a) \<Rightarrow> 'a \<Rightarrow> nat \<Rightarrow> platform \<Rightarrow> exc + 'a" where
  "forwarded f d c pl = bindE (cpu_at c pl) (\<lambda>x.
     case pc_island x of None \<Rightarrow> Inr d | Some i \<Rightarrow> bindE (island_at i pl) f)"

definition PCPU_getOPPs :: "nat \<Rightarrow> platform \<Rightarrow> exc + opp list" where
  "PCPU_getOPPs = forwarded (\<lambda>s. Inr (is_opps s)) []"

definition PCPU_getOPPIndex :: "nat \<Rightarrow> platform \<Rightarrow> exc + nat" where
  "PCPU_getOPPIndex = forwarded (\<lambda>s. Inr (is_current_opp s)) 0"

definition PCPU_getOPP :: "nat \<Rightarrow> platform \<Rightarrow> exc + opp" where
  "PCPU_getOPP = forwarded (\<lambda>s. Island_getOPP (is_current_opp s) s) (OPP 0 0)"

definition PCPU_getOPP_at :: "nat \<Rightarrow> nat \<Rightarrow> platform \<Rightarrow> exc + opp" where
  "PCPU_getOPP_at opp_index = forwarded (Island_getOPP opp_index) (OPP 0 0)"

definition PCPU_getFrequency :: "nat \<Rightarrow> platform \<Rightarrow> exc + freq" where
  "PCPU_getFrequency = forwarded (\<lambda>s. Island_getFrequency (is_current_opp s) s) 0"

definition PCPU_getFrequency_at :: "nat \<Rightarrow> nat \<Rightarrow> platform \<Rightarrow> exc + freq" where
  "PCPU_getFrequency_at opp_index = forwarded (Island_getFrequency opp_index) 0"

definition PCPU_getVoltage :: "nat \<Rightarrow> platform \<Rightarrow> exc + rat" where
  "PCPU_getVoltage = forwarded (\<lambda>s. Island_getVoltage (is_current_opp s) s) 0"

definition PCPU_getVoltage_at :: "nat \<Rightarrow> nat \<Rightarrow> platform \<Rightarrow> exc + rat" where
  "PCPU_getVoltage_at opp_index = forwarded (Island_getVoltage opp_index) 0"

definition PCPU_getFrequencySwitches :: "nat \<Rightarrow> platform \<Rightarrow> exc + nat" where
  "PCPU_getFrequencySwitches = forwarded (\<lambda>s. Inr (is_frequency_switches s)) 0"

definition PCPU_getHigherOPPs :: "nat \<Rightarrow> platform \<Rightarrow> exc + opp list" where
  "PCPU_getHigherOPPs = forwarded (\<lambda>s. Island_getHigherOPPs (is_current_opp s) s) []"

definition PCPU_getHigherOPPs_at :: "nat \<Rightarrow> nat \<Rightarrow> platform \<Rightarrow> exc + opp list" where
  "PCPU_getHigherOPPs_at opp_index = forwarded (Island_getHigherOPPs opp_index) []"

definition getValueByOPP :: "(cpu_model \<Rightarrow> opp \<Rightarrow> string \<Rightarrow> exc + rat) \<Rightarrow> nat \<Rightarrow> string \<Rightarrow> nat \<Rightarrow> platform \<Rightarrow> exc + rat" where
  "getValueByOPP lookup opp_index workload = forwarded (\<lambda>s.
     if opp_index = getOPPsize s then Inr 0
     else case is_model s of None \<Rightarrow> Inr 0
       | Some powermodel \<Rightarrow> bindE (Island_getOPP opp_index s) (\<lambda>p. lookup powermodel p workload)) 0"

definition getSpeedByOPP :: "nat \<Rightarrow> string \<Rightarrow> nat \<Rightarrow> platform \<Rightarrow> exc + rat" where
  "getSpeedByOPP = getValueByOPP lookupSpeed"

definition getSpeed_at :: "freq \<Rightarrow> string \<Rightarrow> nat \<Rightarrow> platform \<Rightarrow> exc + rat" where
  "getSpeed_at f workload c pl =
    forwarded (\<lambda>s. bindE (getOPPIndexByFrequency f s) (\<lambda>k. getSpeedByOPP k workload c pl)) 0 c pl"

text \<open>The share of the power of the idle island, and for a workload its own power on top.\<close>

definition getPowerByOPP :: "nat \<Rightarrow> string \<Rightarrow> nat \<Rightarrow> platform \<Rightarrow> exc + rat" where
  "getPowerByOPP opp_index workload c pl =
    forwarded (\<lambda>s.
      let num_cpus = Island_getProcessorsNumber s in
      if num_cpus = 0 then Inl (AssertFailed ''num_cpus > 0'')
      else bindE (getValueByOPP lookupPower opp_index ''idle'' c pl) (\<lambda>island_idle_power.
        if workload = ''idle'' then Inr (island_idle_power / of_nat num_cpus)
        else bindE (getValueByOPP lookupPower opp_index workload c pl) (\<lambda>cpu_active_power.
          Inr (island_idle_power / of_nat num_cpus + cpu_active_power)))) 0 c pl"

definition getPower_at :: "freq \<Rightarrow> string \<Rightarrow> nat \<Rightarrow> platform \<Rightarrow> exc + rat" where
  "getPower_at f workload c pl =
    forwarded (\<lambda>s. bindE (getOPPIndexByFrequency f s) (\<lambda>k. getPowerByOPP k workload c pl)) 0 c pl"

definition getPowerSaving :: "rat \<Rightarrow> pcpu \<Rightarrow> rat" where
  "getPowerSaving pw x =
    (let p_max = pc_max_power x in if p_max = 0 \<or> pw = 0 then 0 else (p_max - pw) / p_max)"

section \<open>Changes\<close>

definition PCPU_updateModel :: "nat \<Rightarrow> platform \<Rightarrow> exc + platform" where
  "PCPU_updateModel c pl = bindE (cpu_at c pl) (\<lambda>x.
     case pc_island x of
       None \<Rightarrow> Inr (put_cpu c (x\<lparr>pc_power := 0, pc_speed := 0\<rparr>) pl)
     | Some i \<Rightarrow> bindE (island_at i pl) (\<lambda>s.
         bindE (getPowerByOPP (is_current_opp s) (PCPU_getWorkload x) c pl) (\<lambda>pw.
         bindE (getSpeedByOPP (is_current_opp s) (PCPU_getWorkload x) c pl) (\<lambda>sp.
           Inr (put_cpu c (x\<lparr>pc_power := pw, pc_speed := sp\<rparr>) pl)))))"

text \<open>The two ends of the association call each other; the test at the head of each stops them.\<close>

function setIsland :: "nat \<Rightarrow> nat option \<Rightarrow> platform \<Rightarrow> exc + bool \<times> platform"
  and addCPU :: "nat \<Rightarrow> nat \<Rightarrow> platform \<Rightarrow> exc + bool \<times> platform" where
  "setIsland c target pl = bindE (cpu_at c pl) (\<lambda>x.
     if pc_island x = target then Inr (False, pl)
     else bindE (case target of None \<Rightarrow> Inr (put_cpu c (x\<lparr>pc_island := target\<rparr>) pl)
         | Some i \<Rightarrow> bindE (addCPU i c (put_cpu c (x\<lparr>pc_island := target\<rparr>) pl)) (\<lambda>r. Inr (snd r))) (\<lambda>pl1.
       bindE (PCPU_updateModel c pl1) (\<lambda>pl2. Inr (True, pl2))))"
| "addCPU i c pl = bindE (island_at i pl) (\<lambda>s.
     if c \<in> set (is_cpus s) then Inr (False, pl)
     else bindE (setIsland c (Some i) (put_island i (s\<lparr>is_cpus := insort c (is_cpus s)\<rparr>) pl)) (\<lambda>r. Inr (True, snd r)))"
  by pat_completeness auto

definition association_left :: "nat \<Rightarrow> nat option \<Rightarrow> platform \<Rightarrow> nat" where
  "association_left c target pl =
    (case pl_cpus pl c of None \<Rightarrow> 0 | Some x \<Rightarrow> if pc_island x = target then 0 else 1) +
    (case target of None \<Rightarrow> 0 | Some i \<Rightarrow> (case pl_islands pl i of None \<Rightarrow> 0 | Some s \<Rightarrow> if c \<in> set (is_cpus s) then 0 else 1))"

termination setIsland
  by (relation "measure (\<lambda>a. case a of Inl (c, target, pl) \<Rightarrow> association_left c target pl
      | Inr (i, c, pl) \<Rightarrow> association_left c (Some i) pl)")
    (auto simp: association_left_def cpu_at_def island_at_def put_cpu_def put_island_def set_insort_key split: option.splits)

declare setIsland.simps [simp del] addCPU.simps [simp del]

definition removeCPU :: "nat \<Rightarrow> nat \<Rightarrow> platform \<Rightarrow> exc + bool \<times> platform" where
  "removeCPU i c pl = bindE (island_at i pl) (\<lambda>s.
     if c \<notin> set (is_cpus s) then Inr (False, pl)
     else bindE (setIsland c None pl) (\<lambda>r.
          bindE (island_at i (snd r)) (\<lambda>s1.
            Inr (True, put_island i (s1\<lparr>is_cpus := remove1 c (is_cpus s1)\<rparr>) (snd r)))))"

fun for_cpus :: "(nat \<Rightarrow> platform \<Rightarrow> exc + platform) \<Rightarrow> nat list \<Rightarrow> platform \<Rightarrow> exc + platform" where
  "for_cpus f [] pl = Inr pl"
| "for_cpus f (c # cs) pl = bindE (f c pl) (for_cpus f cs)"

definition updateModels :: "nat \<Rightarrow> platform \<Rightarrow> exc + platform" where
  "updateModels i pl = bindE (island_at i pl) (\<lambda>s.
     if is_model s = None then Inr pl else for_cpus PCPU_updateModel (is_cpus s) pl)"

definition Island_setOPP :: "nat \<Rightarrow> nat \<Rightarrow> platform \<Rightarrow> exc + platform" where
  "Island_setOPP opp_index i pl = bindE (island_at i pl) (\<lambda>s.
     if \<not> opp_index < length (is_opps s) then Inl (AssertFailed ''opp_index < _opps.size()'')
     else if is_current_opp s \<noteq> opp_index then
       updateModels i (put_island i
         (s\<lparr>is_frequency_switches := Suc (is_frequency_switches s), is_current_opp := opp_index\<rparr>) pl)
     else Inr pl)"

definition Island_newRun :: "nat \<Rightarrow> platform \<Rightarrow> exc + platform" where
  "Island_newRun i pl = bindE (updateModels i pl) (\<lambda>pl1.
     bindE (island_at i pl1) (\<lambda>s. Inr (put_island i (s\<lparr>is_frequency_switches := 0\<rparr>) pl1)))"

fun sum_power :: "nat list \<Rightarrow> platform \<Rightarrow> rat \<Rightarrow> exc + rat" where
  "sum_power [] pl power_cons = Inr power_cons"
| "sum_power (c # cs) pl power_cons = bindE (cpu_at c pl) (\<lambda>x. sum_power cs pl (power_cons + pc_power x))"

definition Island_getPower :: "nat \<Rightarrow> platform \<Rightarrow> exc + rat" where
  "Island_getPower i pl = bindE (island_at i pl) (\<lambda>s.
     if is_model s = None then Inr 0 else sum_power (is_cpus s) pl 0)"

fun any_busy :: "nat list \<Rightarrow> platform \<Rightarrow> exc + bool" where
  "any_busy [] pl = Inr False"
| "any_busy (c # cs) pl = bindE (cpu_at c pl) (\<lambda>x. if PCPU_busy x then Inr True else any_busy cs pl)"

definition Island_busy :: "nat \<Rightarrow> platform \<Rightarrow> exc + bool" where
  "Island_busy i pl = bindE (island_at i pl) (\<lambda>s. any_busy (is_cpus s) pl)"

text \<open>Constructors take a number that is not in use; that of \<open>CPU\<close> ignores the island it is given.\<close>

definition PCPU_ctor :: "nat \<Rightarrow> platform \<Rightarrow> platform" where
  "PCPU_ctor c pl = put_cpu c \<lparr>pc_index = 0, pc_workload = ''idle'', pc_power = 0, pc_speed = 0, pc_max_power = 0,
     pc_disabled = False, pc_kernel = None, pc_island = None\<rparr> pl"

definition createMinimalPowerModel :: "(rat \<Rightarrow> rat) \<Rightarrow> opp list \<Rightarrow> exc + cpu_model option" where
  "createMinimalPowerModel ex opps =
    (if length opps < 1 then Inr None
     else let pmd = \<lparr>cd_name = [], cd_type = minimal_key, cd_params = []\<rparr>;
              curr_opp = opps ! (length opps - 1)
          in bindE (CPUModel_create ex pmd pmd curr_opp (opp_frequency curr_opp)) (\<lambda>m. Inr (Some m)))"

text \<open>
  An island without a model of its own asks for the minimal model of its points \<open>_opps\<close>, but the member \<open>_powermodel\<close>
  is declared before \<open>_opps\<close> and so is initialised first: what is read is not yet a vector.
\<close>

definition CPUIsland_ctor ::
    "(rat \<Rightarrow> rat) \<Rightarrow> nat \<Rightarrow> nat list \<Rightarrow> island_type \<Rightarrow> opp list \<Rightarrow> cpu_model option \<Rightarrow> platform \<Rightarrow> exc + platform" where
  "CPUIsland_ctor ex i cpus ty opps powermodel pl =
    bindE (Type_toString ty) (\<lambda>_.
    bindE (case powermodel of Some m \<Rightarrow> Inr (Some m) | None \<Rightarrow> Inl (UndefinedBehaviour ''_opps'')) (\<lambda>m.
      for_cpus (\<lambda>c pl. bindE (addCPU i c pl) (\<lambda>r. Inr (snd r))) cpus
        (put_island i \<lparr>is_type = ty, is_model = m, is_cpus = [], is_opps = opps,
           is_current_opp = (if length opps > 0 then length opps - 1 else 0), is_frequency_switches = 0\<rparr> pl)))"

definition PCPU_setIndex :: "int \<Rightarrow> nat \<Rightarrow> platform \<Rightarrow> exc + platform" where
  "PCPU_setIndex k c pl = bindE (cpu_at c pl) (\<lambda>x. Inr (put_cpu c (x\<lparr>pc_index := k\<rparr>) pl))"

text \<open>The constructor that makes its processors, with the numbers of the objects it makes.\<close>

fun make_cpus :: "int \<Rightarrow> nat list \<Rightarrow> platform \<Rightarrow> exc + platform" where
  "make_cpus k [] pl = Inr pl"
| "make_cpus k (c # cs) pl = bindE (PCPU_setIndex k c (PCPU_ctor c pl)) (make_cpus (k + 1) cs)"

definition CPUIsland_ctor_num ::
    "(rat \<Rightarrow> rat) \<Rightarrow> nat \<Rightarrow> nat list \<Rightarrow> island_type \<Rightarrow> opp list \<Rightarrow> cpu_model option \<Rightarrow> platform \<Rightarrow> exc + platform" where
  "CPUIsland_ctor_num ex i new_cpus ty opps powermodel pl =
    bindE (CPUIsland_ctor ex i [] ty opps powermodel pl) (make_cpus 0 new_cpus)"

definition CPUIsland_dtor :: "nat \<Rightarrow> platform \<Rightarrow> exc + platform" where
  "CPUIsland_dtor i pl = bindE (island_at i pl) (\<lambda>s.
     bindE (for_cpus (\<lambda>c pl. bindE (setIsland c None pl) (\<lambda>r. Inr (snd r))) (is_cpus s) pl) (\<lambda>pl1.
       Inr (pl1\<lparr>pl_islands := (pl_islands pl1)(i := None)\<rparr>)))"

definition PCPU_dtor :: "nat \<Rightarrow> platform \<Rightarrow> exc + platform" where
  "PCPU_dtor c pl = bindE (cpu_at c pl) (\<lambda>x.
     bindE (case pc_island x of None \<Rightarrow> Inr pl | Some i \<Rightarrow> bindE (removeCPU i c pl) (\<lambda>r. Inr (snd r))) (\<lambda>pl1.
       Inr (pl1\<lparr>pl_cpus := (pl_cpus pl1)(c := None)\<rparr>)))"

definition PCPU_setWorkload :: "string \<Rightarrow> nat \<Rightarrow> platform \<Rightarrow> exc + platform" where
  "PCPU_setWorkload workload c pl = bindE (cpu_at c pl) (\<lambda>x.
     if pc_disabled x then Inl (AssertFailed ''!disabled()'')
     else PCPU_updateModel c (put_cpu c (x\<lparr>pc_workload := workload\<rparr>) pl))"

definition PCPU_newRun :: "nat \<Rightarrow> platform \<Rightarrow> exc + platform" where
  "PCPU_newRun = PCPU_setWorkload ''idle''"

definition PCPU_disable :: "nat \<Rightarrow> platform \<Rightarrow> exc + platform" where
  "PCPU_disable c pl = bindE (cpu_at c pl) (\<lambda>x. Inr (put_cpu c (x\<lparr>pc_disabled := True\<rparr>) pl))"

definition PCPU_enable :: "nat \<Rightarrow> platform \<Rightarrow> exc + platform" where
  "PCPU_enable c pl = bindE (cpu_at c pl) (\<lambda>x. Inr (put_cpu c (x\<lparr>pc_disabled := False\<rparr>) pl))"

definition PCPU_setKernel :: "nat option \<Rightarrow> nat \<Rightarrow> platform \<Rightarrow> exc + platform" where
  "PCPU_setKernel k c pl = bindE (cpu_at c pl) (\<lambda>x. Inr (put_cpu c (x\<lparr>pc_kernel := k\<rparr>) pl))"

definition PCPU_setPowerMax :: "rat \<Rightarrow> nat \<Rightarrow> platform \<Rightarrow> exc + platform" where
  "PCPU_setPowerMax p c pl = bindE (cpu_at c pl) (\<lambda>x. Inr (put_cpu c (x\<lparr>pc_max_power := p\<rparr>) pl))"

definition PCPU_setOPP :: "nat \<Rightarrow> nat \<Rightarrow> platform \<Rightarrow> exc + platform" where
  "PCPU_setOPP opp_index c pl = bindE (cpu_at c pl) (\<lambda>x.
     case pc_island x of None \<Rightarrow> Inl (AssertFailed ''island'') | Some i \<Rightarrow> Island_setOPP opp_index i pl)"

text \<open>\<open>customCPUFactory\<close>: a queue of processors made elsewhere; the null pointer when it is empty.\<close>

definition factory_addCPU :: "nat \<Rightarrow> nat list \<Rightarrow> nat list" where
  "factory_addCPU c q = q @ [c]"

definition factory_createCPU :: "nat list \<Rightarrow> nat option \<times> nat list" where
  "factory_createCPU q = (case q of [] \<Rightarrow> (None, []) | c # cs \<Rightarrow> (Some c, cs))"

section \<open>The calls\<close>

datatype plat_op =
    MakeCPU nat
  | MakeIsland nat "nat list" island_type "opp list" "cpu_model option"
  | MakeIslandOf nat "nat list" island_type "opp list" "cpu_model option"
  | DestroyCPU nat
  | DestroyIsland nat
  | AddCPU nat nat
  | RemoveCPU nat nat
  | SetIsland nat "nat option"
  | SetOPP nat nat
  | SetCPUOPP nat nat
  | IslandNewRun nat
  | SetWorkload nat string
  | SetIndex nat int
  | SetKernel nat "nat option"
  | SetPowerMax nat rat
  | Disable nat
  | Enable nat

text \<open>A number is given to one object only.\<close>

definition drop_flag :: "exc + bool \<times> platform \<Rightarrow> exc + platform" where
  "drop_flag r = bindE r (\<lambda>p. Inr (snd p))"

fun do_plat :: "(rat \<Rightarrow> rat) \<Rightarrow> plat_op \<Rightarrow> platform \<Rightarrow> exc + platform" where
  "do_plat ex (MakeCPU c) pl = Inr (PCPU_ctor c pl)"
| "do_plat ex (MakeIsland i cs ty opps m) pl = CPUIsland_ctor ex i cs ty opps m pl"
| "do_plat ex (MakeIslandOf i cs ty opps m) pl = CPUIsland_ctor_num ex i cs ty opps m pl"
| "do_plat ex (DestroyCPU c) pl = PCPU_dtor c pl"
| "do_plat ex (DestroyIsland i) pl = CPUIsland_dtor i pl"
| "do_plat ex (AddCPU i c) pl = drop_flag (addCPU i c pl)"
| "do_plat ex (RemoveCPU i c) pl = drop_flag (removeCPU i c pl)"
| "do_plat ex (SetIsland c i) pl = drop_flag (setIsland c i pl)"
| "do_plat ex (SetOPP i k) pl = Island_setOPP k i pl"
| "do_plat ex (SetCPUOPP c k) pl = PCPU_setOPP k c pl"
| "do_plat ex (IslandNewRun i) pl = Island_newRun i pl"
| "do_plat ex (SetWorkload c wl) pl = PCPU_setWorkload wl c pl"
| "do_plat ex (SetIndex c k) pl = PCPU_setIndex k c pl"
| "do_plat ex (SetKernel c k) pl = PCPU_setKernel k c pl"
| "do_plat ex (SetPowerMax c p) pl = PCPU_setPowerMax p c pl"
| "do_plat ex (Disable c) pl = PCPU_disable c pl"
| "do_plat ex (Enable c) pl = PCPU_enable c pl"

end
