(* ===== verification/PowerModels_Laws.thy ===== *)
theory PowerModels_Laws
  imports PowerModels
begin

text \<open>
  What the tables of a model return: the last row written for a frequency, and, for the approximate model, the row at
  or below a frequency; the values a model of a processor keeps.
\<close>

section \<open>Tables\<close>

interpretation smap_order: strict_weak_order "less_pair opp_less_freq"
  by (rule less_pair_order) (rule opp_freq.strict_weak_order_axioms)

lemma same_frequency: "equivalent_key (less_pair opp_less_freq) x y \<longleftrightarrow> opp_frequency (fst x) = opp_frequency (fst y)"
  by (auto simp: equivalent_key_def less_pair_def opp_less_freq_def)

definition row_pair :: "model_type \<Rightarrow> tb_params \<Rightarrow> opp \<times> rat" where
  "row_pair ty p = (OPP (tb_freq p) (tb_volt p), tb_value ty p)"

definition rows_of :: "string \<Rightarrow> tb_params list \<Rightarrow> tb_params list" where
  "rows_of w = filter (\<lambda>p. tb_workload p = w)"

definition table_of :: "model_type \<Rightarrow> tb_params list \<Rightarrow> smap" where
  "table_of ty rows = foldl (\<lambda>xs v. sv_insert (less_pair opp_less_freq) v xs) [] (map (row_pair ty) rows)"

text \<open>The rows whose workload stands for the one asked for.\<close>

definition suitable_rows :: "tb_params list \<Rightarrow> string \<Rightarrow> tb_params list" where
  "suitable_rows rows w =
    (if rows_of w rows \<noteq> [] then rows_of w rows
     else if rows_of ''busy'' rows \<noteq> [] then rows_of ''busy'' rows else rows_of ''idle'' rows)"

definition table_params :: "(tb_params \<Rightarrow> cpum_params) \<Rightarrow> bool" where
  "table_params c \<longleftrightarrow> c = TBParams \<or> c = TBApproxParams"

lemma TB_ctor_rows:
  assumes "table_params c" and "\<And>w. m w = (if rows_of w done = [] then None else Some (table_of ty (rows_of w done)))"
  shows "\<exists>m'. TB_ctor ty (map c rows) m = Inr m' \<and>
    (\<forall>w. m' w = (if rows_of w (done @ rows) = [] then None else Some (table_of ty (rows_of w (done @ rows)))))"
  using assms(2)
proof (induction rows arbitrary: m "done")
  case Nil
  then show ?case by simp
next
  case (Cons p rows)
  let ?m = "TB_setParams (OPP (tb_freq p) (tb_volt p)) (tb_workload p) (tb_value ty p) m"
  have "?m w = (if rows_of w (done @ [p]) = [] then None else Some (table_of ty (rows_of w (done @ [p]))))" for w
    by (simp add: TB_setParams_def Cons.prems rows_of_def table_of_def row_pair_def)
  from Cons.IH [of ?m "done @ [p]", OF this] show ?case
    using assms(1) by (auto simp: table_params_def)
qed

lemma table_map:
  assumes "table_params c"
  obtains m where "TB_ctor ty (map c rows) (\<lambda>_. None) = Inr m"
    and "\<And>w. find_suitable_map m w =
      (if suitable_rows rows w = [] then None else Some (table_of ty (suitable_rows rows w)))"
proof -
  obtain m where m: "TB_ctor ty (map c rows) (\<lambda>_. None) = Inr m"
    "\<And>w. m w = (if rows_of w rows = [] then None else Some (table_of ty (rows_of w rows)))"
    using TB_ctor_rows [OF assms, of "\<lambda>_. None" "[]" ty rows] by (auto simp: rows_of_def)
  then show ?thesis using that by (auto simp: find_suitable_map_def suitable_rows_def)
qed

lemma table_sorted: "smap_order.sv_sorted (table_of ty rows)"
  unfolding table_of_def by (rule smap_order.inserts_sorted) simp

lemma table_set: "set (table_of ty rows) = row_pair ty ` set rows"
proof -
  have "set (foldl (\<lambda>xs v. sv_insert (less_pair opp_less_freq) v xs) xs vs) = set vs \<union> set xs" for vs xs
    by (induction vs arbitrary: xs) auto
  from this [of "[]" "map (row_pair ty) rows"] show ?thesis by (simp add: table_of_def)
qed

lemma exact_map_lookup_last:
  "exact_map_lookup (table_of ty rows) opp =
    (case filter (\<lambda>p. tb_freq p = opp_frequency opp) (rev rows) of [] \<Rightarrow> 0 | p # _ \<Rightarrow> tb_value ty p)"
proof -
  have eq: "filter (equivalent_key (less_pair opp_less_freq) (opp, 0)) (table_of ty rows) =
      map (row_pair ty) (filter (\<lambda>p. tb_freq p = opp_frequency opp) (rev rows))"
    unfolding table_of_def
    by (simp add: smap_order.filter_inserts filter_map comp_def same_frequency row_pair_def OPP_def rev_filter [symmetric]
        rev_map [symmetric] eq_commute [of "opp_frequency opp"])
  show ?thesis
    using smap_order.find_first_equivalent [OF table_sorted, of "(opp, 0)" ty rows] unfolding eq
    by (auto simp: exact_map_lookup_def sm_find_from_key_def Let_def row_pair_def split: list.splits) (metis snd_conv)
qed

text \<open>
  A model made of a table returns the value of the last row with the workload and the frequency; a workload without
  rows stands for "busy", or else for "idle", and a frequency without a row has the value 0.
\<close>

lemma table_lookup_last_row:
  "bindE (StatelessCPUModel_create ex ty \<lparr>cd_name = n, cd_type = tb_key, cd_params = map TBParams rows\<rparr>)
      (\<lambda>m. m opp w f_max) =
    Inr (case filter (\<lambda>p. tb_freq p = opp_frequency opp) (rev (suitable_rows rows w)) of
           [] \<Rightarrow> 0 | p # _ \<Rightarrow> tb_value ty p)"
proof -
  obtain m where m: "TB_ctor ty (map TBParams rows) (\<lambda>_. None) = Inr m"
    "\<And>w. find_suitable_map m w =
      (if suitable_rows rows w = [] then None else Some (table_of ty (suitable_rows rows w)))"
    using table_map [of TBParams ty rows] by (auto simp: table_params_def)
  then show ?thesis
    using exact_map_lookup_last [of ty "suitable_rows rows w" opp]
    by (simp add: StatelessCPUModel_create_def TB_create_def exact_table_lookup_def minimal_key_def bp_key_def tb_key_def)
qed

section \<open>The approximate tables\<close>

lemma interpolate_one: "interpolate x [(k, v)] d = (if d x k = 0 then Inl DivisionByZero else Inr v)"
  by (simp add: interpolate_def weight_def divE_def)

lemma take_one: "0 < r \<Longrightarrow> r < length l \<Longrightarrow> take (r - (r - 1)) (drop (r - 1) l) = [l ! (r - 1)]"
  by (cases r) (auto simp: Cons_nth_drop_Suc [symmetric])

text \<open>The element an approximate lookup takes: the last one not above the point, or the first one.\<close>

lemma approx_table_cases:
  assumes "find_suitable_map m w = Some l" and "smap_order.sv_sorted l" and "l \<noteq> []"
    and "approx_table_lookup d m opp w f = Inr v"
  obtains i where "i < length l" and "v = snd (l ! i)"
    and "\<And>j. j < length l \<Longrightarrow> opp_frequency (fst (l ! j)) \<le> opp_frequency opp \<Longrightarrow>
      opp_frequency (fst (l ! i)) \<le> opp_frequency opp \<and>
      (opp_frequency (fst (l ! j)) \<le> opp_frequency (fst (l ! i)) \<or> opp_frequency (fst (l ! j)) = opp_frequency opp)"
proof -
  let ?F = "\<lambda>j. opp_frequency (fst (l ! j))" and ?r = "sm_first_non_less_key opp_less_freq 0 opp l"
  have split: "j < ?r \<longleftrightarrow> ?F j < opp_frequency opp" if "j < length l" for j
    using smap_order.sv_split [OF assms(2) that, of "(opp, 0)"]
    by (simp add: sm_first_non_less_key_def less_pair_def opp_less_freq_def)
  have le: "?r \<le> length l" unfolding sm_first_non_less_key_def by (rule smap_order.sv_first_bound)
  have mono: "?F j \<le> ?F k" if "j \<le> k" "k < length l" for j k
    using assms(2) that unfolding smap_order.sv_sorted_def
    by (cases "j = k") (auto simp: sorted_wrt_iff_nth_less less_pair_def opp_less_freq_def not_less)
  consider (over) "?r = length l" | (hit) "?r < length l" "\<not> opp_less opp (fst (l ! ?r))"
    | (first) "?r = 0" "?r < length l" "opp_less opp (fst (l ! ?r))"
    | (prev) "0 < ?r" "?r < length l" "opp_less opp (fst (l ! ?r))" using le by linarith
  then show ?thesis
  proof cases
    case over
    then have below: "?F (length l - 1) < opp_frequency opp" using split [of "length l - 1"] assms(3) by auto
    then have "\<not> opp_less opp (fst (l ! (length l - 1)))" by (auto simp: opp_less_def opp_less_freq_def)
    then have "v = snd (l ! (length l - 1))" using assms(1,4) over by (simp add: approx_table_lookup_def Let_def)
    then show ?thesis using that [of "length l - 1"] assms(3) below mono by (simp add: less_imp_le)
  next
    case hit
    then have "v = snd (l ! ?r)" using assms(1,4) by (simp add: approx_table_lookup_def Let_def)
    moreover have "?F ?r = opp_frequency opp"
      using split [OF hit(1)] hit(2) by (auto simp: opp_less_def opp_less_freq_def split: if_splits)
    ultimately show ?thesis using that [of ?r] hit(1) by auto
  next
    case first
    then have "v = snd (l ! 0)" using assms(1,4) by (simp add: approx_table_lookup_def Let_def)
    then show ?thesis using that [of 0] first split mono
      by (metis antisym_conv3 first(1) first(2) leD le0 le_less not_less_zero)
  next
    case prev
    then have "v = snd (l ! (?r - 1))"
      using assms(1,4) take_one [OF prev(1,2)] interpolate_one [of opp "fst (l ! (?r - 1))" "snd (l ! (?r - 1))" d]
      by (simp add: approx_table_lookup_def Let_def split: if_splits)
    moreover have "?F (?r - 1) < opp_frequency opp" using split [of "?r - 1"] prev by simp
    moreover have "?F j \<le> ?F (?r - 1) \<or> ?F j = opp_frequency opp" if "j < length l" "?F j \<le> opp_frequency opp" for j
    proof (cases "j < ?r")
      case True
      then show ?thesis using mono [of j "?r - 1"] prev by simp
    next
      case False
      then show ?thesis using that split [OF that(1)] by simp
    qed
    ultimately show ?thesis using that [of "?r - 1"] prev by (simp add: less_imp_le)
  qed
qed

text \<open>
  The approximate model does not interpolate: the range it gives to \<open>interpolate\<close> has one element.  A value it
  returns is that of a row, and when there are rows at or below the frequency it is one of them, with no other row
  between.
\<close>

lemma approx_lookup_takes_row_below:
  assumes "StatelessCPUModel_create ex ty \<lparr>cd_name = n, cd_type = tb_approx_key, cd_params = map TBApproxParams rows\<rparr> = Inr m"
    and "suitable_rows rows w \<noteq> []" and "m opp w f_max = Inr v"
  shows "\<exists>p\<in>set (suitable_rows rows w). v = tb_value ty p \<and>
    (\<forall>q\<in>set (suitable_rows rows w). tb_freq q \<le> opp_frequency opp \<longrightarrow>
      tb_freq p \<le> opp_frequency opp \<and> \<not> (tb_freq p < tb_freq q \<and> tb_freq q < opp_frequency opp))"
proof -
  let ?rs = "suitable_rows rows w"
  obtain t where t: "TB_ctor ty (map TBApproxParams rows) (\<lambda>_. None) = Inr t"
    "find_suitable_map t w = Some (table_of ty ?rs)"
    using table_map [of TBApproxParams ty rows] assms(2) unfolding table_params_def by (metis (no_types, lifting))
  obtain d where "m = approx_table_lookup d t"
    using assms(1) t(1)
    by (auto simp: StatelessCPUModel_create_def TBApprox_create_def minimal_key_def bp_key_def tb_key_def tb_approx_key_def)
  with assms(3) have look: "approx_table_lookup d t opp w f_max = Inr v" by simp
  have ne: "table_of ty ?rs \<noteq> []" using assms(2) table_set [of ty ?rs] by auto
  obtain i where i: "i < length (table_of ty ?rs)" "v = snd (table_of ty ?rs ! i)"
    "\<And>j. j < length (table_of ty ?rs) \<Longrightarrow> opp_frequency (fst (table_of ty ?rs ! j)) \<le> opp_frequency opp \<Longrightarrow>
      opp_frequency (fst (table_of ty ?rs ! i)) \<le> opp_frequency opp \<and>
      (opp_frequency (fst (table_of ty ?rs ! j)) \<le> opp_frequency (fst (table_of ty ?rs ! i)) \<or>
       opp_frequency (fst (table_of ty ?rs ! j)) = opp_frequency opp)"
    using approx_table_cases [OF t(2) table_sorted ne look] by blast
  obtain p where p: "p \<in> set ?rs" "table_of ty ?rs ! i = row_pair ty p"
    using nth_mem [OF i(1)] by (auto simp: table_set)
  have "tb_freq p \<le> opp_frequency opp \<and> \<not> (tb_freq p < tb_freq q \<and> tb_freq q < opp_frequency opp)"
    if "q \<in> set ?rs" "tb_freq q \<le> opp_frequency opp" for q
  proof -
    have "row_pair ty q \<in> set (table_of ty ?rs)" using that(1) table_set by blast
    then obtain j where "j < length (table_of ty ?rs)" "table_of ty ?rs ! j = row_pair ty q" by (auto simp: in_set_conv_nth)
    then show ?thesis using i(3) [of j] p(2) that(2) by (auto simp: row_pair_def OPP_def)
  qed
  moreover have "v = tb_value ty p" using i(2) p(2) by (simp add: row_pair_def)
  ultimately show ?thesis using p(1) by blast
qed

definition cheap_row :: tb_params where
  "cheap_row = \<lparr>tb_workload = ''idle'', tb_freq = 200, tb_volt = 1, tb_power = 3, tb_speed = 5\<rparr>"

lemma approx_lookup_takes_row_below_witness:
  "\<exists>m. StatelessCPUModel_create (\<lambda>x. x) PowerModel
      \<lparr>cd_name = [], cd_type = tb_approx_key, cd_params = map TBApproxParams [cheap_row]\<rparr> = Inr m \<and>
    (\<exists>p\<in>set (suitable_rows [cheap_row] ''busy''). 3 = tb_value PowerModel p \<and>
      (\<forall>q\<in>set (suitable_rows [cheap_row] ''busy''). tb_freq q \<le> opp_frequency (OPP 300 1) \<longrightarrow>
        tb_freq p \<le> opp_frequency (OPP 300 1) \<and> \<not> (tb_freq p < tb_freq q \<and> tb_freq q < opp_frequency (OPP 300 1))))"
proof -
  let ?m = "approx_table_lookup opp_power_distance (TB_setParams (OPP 200 1) ''idle'' 3 (\<lambda>_. None))"
  have m: "StatelessCPUModel_create (\<lambda>x. x) PowerModel
      \<lparr>cd_name = [], cd_type = tb_approx_key, cd_params = map TBApproxParams [cheap_row]\<rparr> = Inr ?m"
    by (simp add: StatelessCPUModel_create_def TBApprox_create_def minimal_key_def bp_key_def tb_key_def tb_approx_key_def
        cheap_row_def tb_value_def)
  have rows: "suitable_rows [cheap_row] ''busy'' \<noteq> []" by (simp add: suitable_rows_def rows_of_def cheap_row_def)
  have v: "?m (OPP 300 1) ''busy'' 0 = Inr 3"
    by (simp add: approx_table_lookup_def find_suitable_map_def TB_setParams_def sm_first_non_less_key_def
        sv_first_non_less_def less_pair_def opp_less_freq_def OPP_def opp_less_def)
  show ?thesis using m approx_lookup_takes_row_below [OF m rows v] by blast
qed

text \<open>Two points with one voltage: the distance of powers is zero, and the quotient is not a number.\<close>

lemma equal_voltages_have_no_power:
  "bindE (StatelessCPUModel_create ex PowerModel \<lparr>cd_name = n, cd_type = tb_approx_key,
      cd_params = map TBApproxParams [cheap_row, cheap_row\<lparr>tb_freq := 400\<rparr>]\<rparr>)
    (\<lambda>m. m (OPP 300 1) ''idle'' 0) = Inl DivisionByZero"
  by (simp add: StatelessCPUModel_create_def TBApprox_create_def minimal_key_def bp_key_def tb_key_def tb_approx_key_def
      cheap_row_def tb_value_def approx_table_lookup_def find_suitable_map_def TB_setParams_def sm_first_non_less_key_def
      sv_first_non_less_def less_pair_def opp_less_freq_def OPP_def opp_less_def interpolate_one opp_power_distance_def)

section \<open>The model of a processor\<close>

text \<open>The frequency is capped, and the values kept are those of the point, the workload and the greatest frequency.\<close>

definition cm_inv :: "cpu_model \<Rightarrow> bool" where
  "cm_inv m \<longleftrightarrow> opp_frequency (cm_opp m) \<le> cm_F_max m \<and>
     virtual_lookup (cm_power_model m) (cm_opp m) (cm_workload m) (cm_F_max m) = Inr (cm_power_value m) \<and>
     virtual_lookup (cm_speed_model m) (cm_opp m) (cm_workload m) (cm_F_max m) = Inr (cm_speed_value m)"

lemma setOPP_establishes: "CPUModel_setOPP opp workload m = Inr m' \<Longrightarrow> cm_inv m'"
  by (auto simp: CPUModel_setOPP_def cm_inv_def Let_def bindE_eq_Inr split: if_splits)

lemma setters_keep_model:
  "CPUModel_setVoltage v m = Inr m' \<Longrightarrow> cm_inv m'"
  "CPUModel_setFrequency f m = Inr m' \<Longrightarrow> cm_inv m'"
  "CPUModel_setWorkload workload m = Inr m' \<Longrightarrow> cm_inv m'"
  "CPUModel_setFrequencyMax f m = Inr m' \<Longrightarrow> f < opp_frequency (cm_opp m) \<Longrightarrow> cm_inv m'"
  by (auto simp: CPUModel_setVoltage_def CPUModel_setFrequency_def CPUModel_setWorkload_def CPUModel_setFrequencyMax_def
      intro: setOPP_establishes)

text \<open>A greater maximum leaves the speed of the old one.\<close>

lemma setFrequencyMax_keeps_speed:
  "opp_frequency (cm_opp m) \<le> f \<Longrightarrow> CPUModel_setFrequencyMax f m = Inr (m\<lparr>cm_F_max := f\<rparr>)"
  by (auto simp: CPUModel_setFrequencyMax_def Let_def dest: leD)

text \<open>Both models come from the description of the power; the minimal model is slower at higher frequencies.\<close>

lemma create_ignores_speed_descriptor:
  "CPUModel_create ex pd sd opp f_max = CPUModel_create ex pd sd' opp f_max"
  by (simp add: CPUModel_create_def)

lemma freq_val_max: "freq_val FREQ_MAX = 4294967295"
  by (simp add: freq_val_def FREQ_MAX_def unsigned_minus_1_eq_mask mask_eq_exp_minus_1)

lemma minimal_speed_falls:
  assumes "CPUModel_create ex pd sd opp0 f_max = Inr m" and "cd_type pd = minimal_key"
  shows "lookupSpeed m opp w = divE 4294967295 (freq_val (opp_frequency opp))"
  using assms
  by (auto simp: CPUModel_create_def StatelessCPUModel_create_def lookupSpeed_def virtual_lookup_def freq_val_max)

end
