(* ===== verification/Processors_Laws.thy ===== *)
theory Processors_Laws
  imports Processors PowerModels_Laws
begin

text \<open>
  The association of processors and islands: how far the calls of its two ends go, the invariant of the links
  (\<open>links_ok\<close>) and of the cached speeds (\<open>speed_ok\<close>), and the power of an island as the sum of its processors.
\<close>

section \<open>Access\<close>

lemma access_simps [simp]:
  "cpu_at c (put_cpu c x pl) = Inr x" "c \<noteq> d \<Longrightarrow> cpu_at d (put_cpu c x pl) = cpu_at d pl"
  "cpu_at c (put_island i s pl) = cpu_at c pl" "island_at i (put_island i s pl) = Inr s"
  "i \<noteq> j \<Longrightarrow> island_at j (put_island i s pl) = island_at j pl" "island_at i (put_cpu c x pl) = island_at i pl"
  "pl_cpus (put_cpu c x pl) = (pl_cpus pl)(c \<mapsto> x)" "pl_cpus (put_island i s pl) = pl_cpus pl"
  "pl_islands (put_cpu c x pl) = pl_islands pl" "pl_islands (put_island i s pl) = (pl_islands pl)(i \<mapsto> s)"
  by (auto simp: cpu_at_def island_at_def put_cpu_def put_island_def)

lemma at_Inr [simp]: "cpu_at c pl = Inr x \<longleftrightarrow> pl_cpus pl c = Some x" "island_at i pl = Inr s \<longleftrightarrow> pl_islands pl i = Some s"
  by (auto simp: cpu_at_def island_at_def split: option.splits)

lemma at_Some: "pl_cpus pl c = Some x \<Longrightarrow> cpu_at c pl = Inr x" "pl_islands pl i = Some s \<Longrightarrow> island_at i pl = Inr s"
  by simp_all

section \<open>The calls of the association\<close>

definition set_insert :: "nat \<Rightarrow> nat list \<Rightarrow> nat list" where
  "set_insert c l = (if c \<in> set l then l else insort c l)"

lemma set_insert_facts [simp]:
  "set (set_insert c l) = insert c (set l)" "sorted (set_insert c l) = sorted l" "distinct (set_insert c l) = distinct l"
  by (auto simp: set_insert_def set_insort_key sorted_insort distinct_insort)

definition join :: "nat \<Rightarrow> pcpu \<Rightarrow> nat \<Rightarrow> island \<Rightarrow> platform \<Rightarrow> platform" where
  "join c x i s pl = put_cpu c (x\<lparr>pc_island := Some i\<rparr>) (put_island i (s\<lparr>is_cpus := set_insert c (is_cpus s)\<rparr>) pl)"

lemma put_swap: "put_island i s (put_cpu c x pl) = put_cpu c x (put_island i s pl)"
  by (simp add: put_cpu_def put_island_def)

lemma put_same: "pl_islands pl i = Some s \<Longrightarrow> put_island i s pl = pl"
  by (simp add: put_island_def fun_upd_idem)

text \<open>Each end calls the other once, which finds the link made.\<close>

lemma setIsland_some:
  assumes "pl_cpus pl c = Some x" and "pc_island x \<noteq> Some i" and "pl_islands pl i = Some s"
  shows "setIsland c (Some i) pl = bindE (PCPU_updateModel c (join c x i s pl)) (\<lambda>pl1. Inr (True, pl1))"
proof -
  let ?pl = "put_cpu c (x\<lparr>pc_island := Some i\<rparr>) pl"
  have "bindE (addCPU i c ?pl) (\<lambda>r. Inr (snd r)) = Inr (join c x i s pl)"
  proof (cases "c \<in> set (is_cpus s)")
    case True
    then show ?thesis using assms put_same [OF assms(3)]
      by (subst addCPU.simps) (simp add: at_Some join_def set_insert_def)
  next
    case False
    then show ?thesis using assms
      by (subst addCPU.simps, subst setIsland.simps)
        (simp add: at_Some join_def set_insert_def put_swap)
  qed
  then show ?thesis using assms by (subst setIsland.simps) (simp add: at_Some)
qed

lemma setIsland_none:
  assumes "pl_cpus pl c = Some x" and "pc_island x \<noteq> None"
  shows "setIsland c None pl = Inr (True, put_cpu c (x\<lparr>pc_island := None, pc_power := 0, pc_speed := 0\<rparr>) pl)"
proof -
  have "put_cpu c y (put_cpu c z pl) = put_cpu c y pl" for y z by (simp add: put_cpu_def)
  then show ?thesis using assms by (subst setIsland.simps) (simp add: at_Some PCPU_updateModel_def)
qed

lemma setIsland_same: "pl_cpus pl c = Some x \<Longrightarrow> setIsland c (pc_island x) pl = Inr (False, pl)"
  by (subst setIsland.simps) (simp add: at_Some)

lemma addCPU_new:
  assumes "pl_cpus pl c = Some x" and "pl_islands pl i = Some s" and "c \<notin> set (is_cpus s)" and "pc_island x \<noteq> Some i"
  shows "addCPU i c pl = bindE (PCPU_updateModel c (join c x i s pl)) (\<lambda>pl1. Inr (True, pl1))"
proof -
  let ?s = "s\<lparr>is_cpus := insort c (is_cpus s)\<rparr>"
  have "join c x i ?s (put_island i ?s pl) = join c x i s pl"
    using assms(3) by (simp add: join_def set_insert_def set_insort_key put_island_def)
  moreover have "setIsland c (Some i) (put_island i ?s pl) =
      bindE (PCPU_updateModel c (join c x i ?s (put_island i ?s pl))) (\<lambda>pl1. Inr (True, pl1))"
    using assms by (intro setIsland_some) simp_all
  ultimately have "setIsland c (Some i) (put_island i ?s pl) =
      bindE (PCPU_updateModel c (join c x i s pl)) (\<lambda>pl1. Inr (True, pl1))" by simp
  then show ?thesis using assms
    by (subst addCPU.simps) (cases "PCPU_updateModel c (join c x i s pl)", simp_all add: at_Some)
qed

lemma addCPU_old: "pl_islands pl i = Some s \<Longrightarrow> c \<in> set (is_cpus s) \<Longrightarrow> addCPU i c pl = Inr (False, pl)"
  by (subst addCPU.simps) (simp add: at_Some)

section \<open>The invariants\<close>

text \<open>A processor is in the set of its island, which is alive; the sets are sets.\<close>

definition links_ok :: "platform \<Rightarrow> bool" where
  "links_ok pl \<longleftrightarrow>
    (\<forall>c x i. pl_cpus pl c = Some x \<longrightarrow> pc_island x = Some i \<longrightarrow> (\<exists>s. pl_islands pl i = Some s \<and> c \<in> set (is_cpus s))) \<and>
    (\<forall>i s. pl_islands pl i = Some s \<longrightarrow> sorted (is_cpus s) \<and> distinct (is_cpus s))"

text \<open>The speed of a workload at the current point of an island.\<close>

definition island_speed :: "island \<Rightarrow> nat \<Rightarrow> string \<Rightarrow> exc + rat" where
  "island_speed s k workload =
    (if k = getOPPsize s then Inr 0
     else case is_model s of None \<Rightarrow> Inr 0 | Some m \<Rightarrow> bindE (Island_getOPP k s) (\<lambda>p. lookupSpeed m p workload))"

lemma getSpeedByOPP_island:
  "getSpeedByOPP k workload c pl = forwarded (\<lambda>s. island_speed s k workload) 0 c pl"
  by (simp add: getSpeedByOPP_def getValueByOPP_def island_speed_def)

lemma island_speed_cong:
  "is_model s = is_model t \<Longrightarrow> is_opps s = is_opps t \<Longrightarrow> island_speed s k w = island_speed t k w"
  by (cases "is_model t") (simp_all add: island_speed_def getOPPsize_def Island_getOPP_def)

definition cached :: "platform \<Rightarrow> pcpu \<Rightarrow> bool" where
  "cached pl x \<longleftrightarrow> (case pc_island x of None \<Rightarrow> pc_speed x = 0
     | Some i \<Rightarrow> \<exists>s. pl_islands pl i = Some s \<and> island_speed s (is_current_opp s) (PCPU_getWorkload x) = Inr (pc_speed x))"

text \<open>Every processor that is not disabled, but those in \<open>S\<close>, has the speed of its workload.\<close>

definition speed_ok :: "nat set \<Rightarrow> platform \<Rightarrow> bool" where
  "speed_ok S pl \<longleftrightarrow> (\<forall>c x. pl_cpus pl c = Some x \<longrightarrow> \<not> pc_disabled x \<longrightarrow> c \<notin> S \<longrightarrow> cached pl x)"

definition good :: "nat set \<Rightarrow> platform \<Rightarrow> bool" where
  "good S pl \<longleftrightarrow> links_ok pl \<and> speed_ok S pl"

lemma cached_cong:
  "pc_island y = pc_island x \<Longrightarrow> pc_speed y = pc_speed x \<Longrightarrow> PCPU_getWorkload y = PCPU_getWorkload x \<Longrightarrow> cached pl y = cached pl x"
  by (cases "pc_island x") (simp_all add: cached_def)

lemma good_island:
  "good S pl \<Longrightarrow> pl_cpus pl c = Some x \<Longrightarrow> pc_island x = Some i \<Longrightarrow> \<exists>s. pl_islands pl i = Some s \<and> c \<in> set (is_cpus s)"
  by (simp add: good_def links_ok_def)

lemma good_mono: "good S pl \<Longrightarrow> S \<subseteq> T \<Longrightarrow> good T pl"
  by (auto simp: good_def speed_ok_def)

text \<open>Changes of one processor.\<close>

lemma cached_put_cpu [simp]: "cached (put_cpu c x pl) y = cached pl y"
  by (simp add: cached_def split: option.splits)

lemma getWorkload_values [simp]:
  "PCPU_getWorkload (x\<lparr>pc_power := pw\<rparr>) = PCPU_getWorkload x" "PCPU_getWorkload (x\<lparr>pc_speed := pw\<rparr>) = PCPU_getWorkload x"
  "PCPU_getWorkload (x\<lparr>pc_island := i\<rparr>) = PCPU_getWorkload x"
  by (simp_all add: PCPU_getWorkload_def)

lemma links_put_cpu:
  assumes "links_ok pl" and "pc_island x = None \<or> (\<exists>y. pl_cpus pl c = Some y \<and> pc_island x = pc_island y)"
  shows "links_ok (put_cpu c x pl)"
  using assms unfolding links_ok_def by (simp split: if_splits) (metis option.distinct(1))

lemma speed_put_cpu:
  assumes "speed_ok S pl" and "cached pl x \<or> pc_disabled x"
  shows "speed_ok (S - {c}) (put_cpu c x pl)"
  using assms unfolding speed_ok_def by (simp split: if_splits) blast

lemma good_put_cpu:
  assumes "good S pl" and "pc_island x = None \<or> (\<exists>y. pl_cpus pl c = Some y \<and> pc_island x = pc_island y)"
    and "cached pl x \<or> pc_disabled x"
  shows "good (S - {c}) (put_cpu c x pl)"
  using assms links_put_cpu speed_put_cpu by (simp add: good_def)

text \<open>What \<open>updateModel\<close> does: the values of one processor.\<close>

lemma updateModel_cases:
  assumes "PCPU_updateModel c pl = Inr pl'"
  obtains x pw sp where "pl_cpus pl c = Some x" and "pl' = put_cpu c (x\<lparr>pc_power := pw, pc_speed := sp\<rparr>) pl"
    and "cached pl (x\<lparr>pc_power := pw, pc_speed := sp\<rparr>)"
    and "\<And>i s. pc_island x = Some i \<Longrightarrow> pl_islands pl i = Some s \<Longrightarrow>
      getPowerByOPP (is_current_opp s) (PCPU_getWorkload x) c pl = Inr pw"
proof -
  from assms obtain x where x: "pl_cpus pl c = Some x" by (auto simp: PCPU_updateModel_def bindE_eq_Inr)
  show ?thesis
  proof (cases "pc_island x")
    case None
    then have "pl' = put_cpu c (x\<lparr>pc_power := 0, pc_speed := 0\<rparr>) pl" using assms x by (simp add: PCPU_updateModel_def at_Some)
    then show ?thesis using None by (intro that [OF x]) (auto simp: cached_def)
  next
    case (Some i)
    then obtain s pw sp where u: "pl_islands pl i = Some s"
      "getPowerByOPP (is_current_opp s) (PCPU_getWorkload x) c pl = Inr pw"
      "getSpeedByOPP (is_current_opp s) (PCPU_getWorkload x) c pl = Inr sp"
      "pl' = put_cpu c (x\<lparr>pc_power := pw, pc_speed := sp\<rparr>) pl"
      using assms x by (auto simp: PCPU_updateModel_def at_Some bindE_eq_Inr)
    have "island_speed s (is_current_opp s) (PCPU_getWorkload x) = Inr sp"
      using u(1,3) Some x by (simp add: getSpeedByOPP_island forwarded_def at_Some)
    then show ?thesis using Some u by (intro that [OF x u(4)]) (auto simp: cached_def)
  qed
qed

lemma updateModel_good:
  assumes "good S pl" and "PCPU_updateModel c pl = Inr pl'"
  shows "good (S - {c}) pl'" and "pl_islands pl' = pl_islands pl"
proof -
  from assms(2) obtain x pw sp where u: "pl_cpus pl c = Some x" "pl' = put_cpu c (x\<lparr>pc_power := pw, pc_speed := sp\<rparr>) pl"
    "cached pl (x\<lparr>pc_power := pw, pc_speed := sp\<rparr>)" by (rule updateModel_cases)
  show "good (S - {c}) pl'" unfolding u(2) using u by (intro good_put_cpu [OF assms(1)]) simp_all
  show "pl_islands pl' = pl_islands pl" using u(2) by simp
qed

lemma for_updateModel_good:
  "good S pl \<Longrightarrow> for_cpus PCPU_updateModel cs pl = Inr pl' \<Longrightarrow> good (S - set cs) pl' \<and> pl_islands pl' = pl_islands pl"
proof (induction cs arbitrary: S pl)
  case (Cons c cs)
  then obtain pl1 where pl1: "PCPU_updateModel c pl = Inr pl1" "for_cpus PCPU_updateModel cs pl1 = Inr pl'"
    by (auto simp: bindE_eq_Inr)
  note u = updateModel_good [OF Cons.prems(1) pl1(1)]
  have "S - set (c # cs) = S - {c} - set cs" by auto
  with Cons.IH [OF u(1) pl1(2)] u(2) show ?case by (simp only:)
qed simp

section \<open>The operations keep the invariants\<close>

text \<open>Changes of one island that keep its processors, and those that add one.\<close>

lemma links_put_island:
  assumes "links_ok pl" and "sorted (is_cpus s)" and "distinct (is_cpus s)"
    and "\<And>s0. pl_islands pl i = Some s0 \<Longrightarrow> set (is_cpus s0) \<subseteq> set (is_cpus s)"
  shows "links_ok (put_island i s pl)"
  using assms unfolding links_ok_def by (simp split: if_splits) blast

lemma cached_put_island:
  assumes "cached pl x" and "\<And>s0. pl_islands pl i = Some s0 \<Longrightarrow>
      is_model s0 = is_model s \<and> is_opps s0 = is_opps s \<and> is_current_opp s0 = is_current_opp s"
  shows "cached (put_island i s pl) x"
proof (cases "pc_island x")
  case None
  then show ?thesis using assms(1) by (simp add: cached_def)
next
  case (Some j)
  then obtain s1 where s1: "pl_islands pl j = Some s1"
    "island_speed s1 (is_current_opp s1) (PCPU_getWorkload x) = Inr (pc_speed x)"
    using assms(1) by (auto simp: cached_def)
  show ?thesis
  proof (cases "j = i")
    case True
    then have "is_model s1 = is_model s \<and> is_opps s1 = is_opps s \<and> is_current_opp s1 = is_current_opp s"
      using assms(2) s1(1) by simp
    then show ?thesis using Some s1 True island_speed_cong [of s1 s] by (simp add: cached_def)
  next
    case False
    then show ?thesis using Some s1 by (simp add: cached_def)
  qed
qed

lemma good_put_island:
  assumes "good S pl" and "pl_islands pl i = Some s0" and "sorted (is_cpus s)" and "distinct (is_cpus s)"
    and "set (is_cpus s0) \<subseteq> set (is_cpus s)"
    and "is_model s0 = is_model s \<and> is_opps s0 = is_opps s \<and> is_current_opp s0 = is_current_opp s"
  shows "good S (put_island i s pl)"
  using assms cached_put_island [of pl _ i s] links_put_island [of pl s i] by (auto simp: good_def speed_ok_def)

lemma join_good:
  assumes "good {} pl" and "pl_cpus pl c = Some x" and "pl_islands pl i = Some s"
  shows "good {c} (join c x i s pl)"
proof -
  let ?s = "s\<lparr>is_cpus := set_insert c (is_cpus s)\<rparr>"
  have s: "sorted (is_cpus s)" "distinct (is_cpus s)" using assms by (auto simp: good_def links_ok_def)
  have g: "good {} (put_island i ?s pl)" using assms(1,3) s by (intro good_put_island [of _ _ _ s]) auto
  then have "links_ok (join c x i s pl)"
    using assms(2) unfolding join_def good_def links_ok_def by (simp split: if_splits)
  moreover have "speed_ok {c} (join c x i s pl)"
    using g unfolding join_def good_def speed_ok_def by simp
  ultimately show ?thesis by (simp add: good_def)
qed

lemma setIsland_good:
  assumes "good {} pl" and "setIsland c target pl = Inr (b, pl')"
  shows "good {} pl'"
proof -
  from assms(2) obtain x where x: "pl_cpus pl c = Some x" by (subst (asm) setIsland.simps) (auto simp: bindE_eq_Inr)
  show ?thesis
  proof (cases "pc_island x = target")
    case True
    then show ?thesis using assms setIsland_same [OF x] by simp
  next
    case False
    show ?thesis
    proof (cases target)
      case None
      then have "pl' = put_cpu c (x\<lparr>pc_island := None, pc_power := 0, pc_speed := 0\<rparr>) pl"
        using assms(2) setIsland_none [OF x] False by simp
      moreover have "good ({} - {c}) (put_cpu c (x\<lparr>pc_island := None, pc_power := 0, pc_speed := 0\<rparr>) pl)"
        using assms(1) by (intro good_put_cpu) (simp_all add: cached_def)
      ultimately show ?thesis by simp
    next
      case (Some i)
      then obtain s where s: "pl_islands pl i = Some s"
        using assms(2) x False
        by (subst (asm) setIsland.simps, subst (asm) addCPU.simps) (auto simp: at_Some bindE_eq_Inr)
      have "bindE (PCPU_updateModel c (join c x i s pl)) (\<lambda>pl1. Inr (True, pl1)) = Inr (b, pl')"
        using setIsland_some [OF x _ s] assms(2) False Some by simp
      then have "PCPU_updateModel c (join c x i s pl) = Inr pl'" by (auto simp: bindE_eq_Inr)
      then show ?thesis using updateModel_good(1) [OF join_good [OF assms(1) x s], of c pl'] by simp
    qed
  qed
qed

lemma addCPU_good:
  assumes "good {} pl" and "addCPU i c pl = Inr (b, pl')"
  shows "good {} pl'"
proof -
  from assms(2) obtain s where s: "pl_islands pl i = Some s" by (subst (asm) addCPU.simps) (auto simp: bindE_eq_Inr)
  show ?thesis
  proof (cases "c \<in> set (is_cpus s)")
    case True
    then show ?thesis using assms addCPU_old [OF s] by simp
  next
    case False
    with s assms(2) obtain x where x: "pl_cpus pl c = Some x"
      by (subst (asm) addCPU.simps, subst (asm) setIsland.simps) (auto simp: at_Some bindE_eq_Inr)
    have "pc_island x \<noteq> Some i" using assms(1) x s False by (fastforce simp: good_def links_ok_def)
    then have "bindE (PCPU_updateModel c (join c x i s pl)) (\<lambda>pl1. Inr (True, pl1)) = Inr (b, pl')"
      using addCPU_new [OF x s False] assms(2) by simp
    then have "PCPU_updateModel c (join c x i s pl) = Inr pl'" by (auto simp: bindE_eq_Inr)
    then show ?thesis using updateModel_good(1) [OF join_good [OF assms(1) x s], of c pl'] by simp
  qed
qed

text \<open>Leaving an island: the processor has none then, and no island changes.\<close>

lemma leave_island:
  assumes "good {} pl" and "setIsland c None pl = Inr (b, pl')"
  shows "good {} pl'" and "pl_islands pl' = pl_islands pl"
    and "\<exists>x. pl_cpus pl' c = Some x \<and> pc_island x = None"
    and "\<And>d. d \<noteq> c \<Longrightarrow> pl_cpus pl' d = pl_cpus pl d"
proof -
  from assms(2) obtain x where x: "pl_cpus pl c = Some x" by (subst (asm) setIsland.simps) (auto simp: bindE_eq_Inr)
  have "pl' = pl \<and> pc_island x = None \<or> pl' = put_cpu c (x\<lparr>pc_island := None, pc_power := 0, pc_speed := 0\<rparr>) pl"
    using assms(2) setIsland_same [OF x] setIsland_none [OF x] by (cases "pc_island x") auto
  then show "pl_islands pl' = pl_islands pl" "\<exists>x. pl_cpus pl' c = Some x \<and> pc_island x = None"
    "\<And>d. d \<noteq> c \<Longrightarrow> pl_cpus pl' d = pl_cpus pl d" using x by auto
  show "good {} pl'" using setIsland_good [OF assms] .
qed

lemma removeCPU_good:
  assumes "good {} pl" and "removeCPU i c pl = Inr (b, pl')"
  shows "good {} pl'"
    and "\<And>x j. pl_cpus pl' c = Some x \<Longrightarrow> pl_cpus pl c = Some x \<or> pc_island x = None"
proof -
  from assms(2) obtain s where s: "pl_islands pl i = Some s" by (auto simp: removeCPU_def bindE_eq_Inr)
  show "good {} pl'"
  proof (cases "c \<in> set (is_cpus s)")
    case False
    then show ?thesis using assms s by (simp add: removeCPU_def at_Some)
  next
    case True
    then obtain r where r: "setIsland c None pl = Inr r" using assms(2) s by (auto simp: removeCPU_def at_Some bindE_eq_Inr)
    obtain b1 pl1 where r1: "r = (b1, pl1)" by (cases r)
    note l = leave_island [OF assms(1) r [unfolded r1]]
    have pl': "pl' = put_island i (s\<lparr>is_cpus := remove1 c (is_cpus s)\<rparr>) pl1"
      using assms(2) s True r r1 l(2) by (simp add: removeCPU_def at_Some)
    have "sorted (remove1 c (is_cpus s))" "distinct (remove1 c (is_cpus s))" "distinct (is_cpus s)"
      using assms(1) s by (auto simp: good_def links_ok_def sorted_remove1)
    then have "links_ok pl'"
      using l(1,2,3) s unfolding pl' good_def links_ok_def by (simp split: if_splits) (metis option.inject option.distinct(1))
    moreover have "speed_ok {} pl'"
      using l(1,2) s cached_put_island [of pl1 _ i "s\<lparr>is_cpus := remove1 c (is_cpus s)\<rparr>"]
      unfolding pl' good_def speed_ok_def by simp
    ultimately show ?thesis by (simp add: good_def)
  qed
  show "pl_cpus pl c = Some x \<or> pc_island x = None" if "pl_cpus pl' c = Some x" for x
  proof (cases "c \<in> set (is_cpus s)")
    case False
    then show ?thesis using assms s that by (simp add: removeCPU_def at_Some)
  next
    case True
    then obtain r where r: "setIsland c None pl = Inr r" using assms(2) s by (auto simp: removeCPU_def at_Some bindE_eq_Inr)
    obtain b1 pl1 where r1: "r = (b1, pl1)" by (cases r)
    note l = leave_island [OF assms(1) r [unfolded r1]]
    have "pl' = put_island i (s\<lparr>is_cpus := remove1 c (is_cpus s)\<rparr>) pl1"
      using assms(2) s True r r1 l(2) by (simp add: removeCPU_def at_Some)
    then show ?thesis using l(3) that by auto
  qed
qed

text \<open>A change of the operating point reaches every processor of the island, which are all in its set.\<close>

lemma updateModels_good:
  assumes "good S pl" and "pl_islands pl i = Some s" and "S \<subseteq> set (is_cpus s)" and "is_model s = None \<Longrightarrow> S = {}"
    and "updateModels i pl = Inr pl'"
  shows "good {} pl'" and "pl_islands pl' = pl_islands pl"
proof -
  have "good {} pl' \<and> pl_islands pl' = pl_islands pl"
  proof (cases "is_model s = None")
    case True
    then show ?thesis using assms by (simp add: updateModels_def at_Some)
  next
    case False
    then have "for_cpus PCPU_updateModel (is_cpus s) pl = Inr pl'"
      using assms(2,5) by (simp add: updateModels_def at_Some split: if_splits)
    from for_updateModel_good [OF assms(1) this] show ?thesis using assms(3) by (auto intro: good_mono)
  qed
  then show "good {} pl'" and "pl_islands pl' = pl_islands pl" by auto
qed

lemma island_speed_None: "is_model s = None \<Longrightarrow> island_speed s k w = Inr 0"
  by (simp add: island_speed_def)

lemma setOPP_good:
  assumes "good {} pl" and "Island_setOPP k i pl = Inr pl'"
  shows "good {} pl'"
proof -
  from assms(2) obtain s where s: "pl_islands pl i = Some s" by (auto simp: Island_setOPP_def bindE_eq_Inr)
  let ?s = "s\<lparr>is_frequency_switches := Suc (is_frequency_switches s), is_current_opp := k\<rparr>"
    and ?S = "if is_model s = None then {} else set (is_cpus s)"
  have srt: "sorted (is_cpus s)" "distinct (is_cpus s)" using assms(1) s by (auto simp: good_def links_ok_def)
  show ?thesis
  proof (cases "is_current_opp s = k")
    case True
    then show ?thesis using assms s by (simp add: Island_setOPP_def at_Some split: if_splits)
  next
    case False
    have lk: "links_ok (put_island i ?s pl)" using assms(1) s srt by (intro links_put_island) (auto simp: good_def)
    have "cached (put_island i ?s pl) x" if x: "pl_cpus pl c = Some x" "\<not> pc_disabled x" "c \<notin> ?S" for c x
    proof -
      have ca: "cached pl x" using assms(1) x by (auto simp: good_def speed_ok_def)
      show ?thesis
      proof (cases "pc_island x = Some i")
        case True
        then have "c \<in> set (is_cpus s)" using assms(1) x s by (fastforce simp: good_def links_ok_def)
        with x(3) have "is_model s = None" by (auto split: if_splits)
        then show ?thesis using ca True s by (auto simp: cached_def island_speed_None)
      next
        case False
        then show ?thesis using ca by (auto simp: cached_def split: option.splits)
      qed
    qed
    then have g: "good ?S (put_island i ?s pl)" using lk by (auto simp: good_def speed_ok_def)
    have "updateModels i (put_island i ?s pl) = Inr pl'"
      using assms(2) s False by (simp add: Island_setOPP_def at_Some split: if_splits)
    then show ?thesis by (intro updateModels_good(1) [OF g, of i ?s]) auto
  qed
qed

lemma newRun_good:
  assumes "good {} pl" and "Island_newRun i pl = Inr pl'"
  shows "good {} pl'"
proof -
  from assms(2) obtain pl1 s1 where u: "updateModels i pl = Inr pl1" "pl_islands pl1 i = Some s1"
    "pl' = put_island i (s1\<lparr>is_frequency_switches := 0\<rparr>) pl1"
    by (auto simp: Island_newRun_def bindE_eq_Inr)
  from u(1) obtain s where s: "pl_islands pl i = Some s" by (auto simp: updateModels_def bindE_eq_Inr)
  have g: "good {} pl1" using updateModels_good(1) [OF assms(1) s _ _ u(1)] by simp
  then have "sorted (is_cpus s1)" "distinct (is_cpus s1)" using u(2) by (auto simp: good_def links_ok_def)
  then show ?thesis using good_put_island [OF g u(2)] u(3) by simp
qed

lemma setWorkload_good:
  assumes "good {} pl" and "PCPU_setWorkload wl c pl = Inr pl'"
  shows "good {} pl'"
proof -
  from assms(2) obtain x where x: "pl_cpus pl c = Some x" by (auto simp: PCPU_setWorkload_def bindE_eq_Inr)
  let ?pl = "put_cpu c (x\<lparr>pc_workload := wl\<rparr>) pl"
  have "links_ok ?pl" using assms(1) x by (intro links_put_cpu) (auto simp: good_def)
  moreover have "speed_ok {c} ?pl" using assms(1) by (auto simp: good_def speed_ok_def)
  ultimately have "good {c} ?pl" by (simp add: good_def)
  moreover have "PCPU_updateModel c ?pl = Inr pl'" using assms(2) x by (simp add: PCPU_setWorkload_def at_Some split: if_splits)
  ultimately show ?thesis using updateModel_good(1) [of "{c}" ?pl c pl'] by simp
qed

text \<open>Changes of what the speed does not depend on.\<close>

lemma put_cpu_same_speed:
  assumes "good {} pl" and "pl_cpus pl c = Some x" and "pc_island y = pc_island x" and "pc_speed y = pc_speed x"
    and "pc_workload y = pc_workload x" and "pc_disabled y = pc_disabled x \<or> pc_disabled y"
  shows "good {} (put_cpu c y pl)"
proof -
  have "cached pl y \<or> pc_disabled y"
  proof (cases "pc_disabled y")
    case False
    then have "PCPU_getWorkload y = PCPU_getWorkload x" "cached pl x"
      using assms by (auto simp: PCPU_getWorkload_def good_def speed_ok_def)
    then show ?thesis using assms(3,4) cached_cong [of y x] by simp
  qed simp
  then have "good ({} - {c}) (put_cpu c y pl)" using assms(1-3) by (intro good_put_cpu) auto
  then show ?thesis by simp
qed

lemma setters_good:
  assumes "good {} pl"
  shows "PCPU_setIndex k c pl = Inr pl' \<Longrightarrow> good {} pl'" "PCPU_setKernel kn c pl = Inr pl' \<Longrightarrow> good {} pl'"
    "PCPU_setPowerMax p c pl = Inr pl' \<Longrightarrow> good {} pl'" "PCPU_disable c pl = Inr pl' \<Longrightarrow> good {} pl'"
  using put_cpu_same_speed [OF assms]
  by (auto simp: PCPU_setIndex_def PCPU_setKernel_def PCPU_setPowerMax_def PCPU_disable_def bindE_eq_Inr)

lemma ctor_good: "good {} pl \<Longrightarrow> good {} (PCPU_ctor c pl)"
  using good_put_cpu [of "{}" pl "\<lparr>pc_index = 0, pc_workload = ''idle'', pc_power = 0, pc_speed = 0, pc_max_power = 0,
     pc_disabled = False, pc_kernel = None, pc_island = None\<rparr>" c] by (simp add: PCPU_ctor_def cached_def)

lemma for_cpus_good:
  assumes "\<And>c pl pl'. good {} pl \<Longrightarrow> f c pl = Inr pl' \<Longrightarrow> good {} pl'"
  shows "good {} pl \<Longrightarrow> for_cpus f cs pl = Inr pl' \<Longrightarrow> good {} pl'"
  using assms by (induction cs arbitrary: pl) (auto simp: bindE_eq_Inr)

lemma island_ctor_good:
  assumes "good {} pl" and "pl_islands pl i = None" and "CPUIsland_ctor ex i cs ty opps m pl = Inr pl'"
  shows "good {} pl'"
proof -
  from assms(3) obtain m1 where m1: "for_cpus (\<lambda>c pl. bindE (addCPU i c pl) (\<lambda>r. Inr (snd r))) cs
      (put_island i \<lparr>is_type = ty, is_model = m1, is_cpus = [], is_opps = opps,
        is_current_opp = (if length opps > 0 then length opps - 1 else 0), is_frequency_switches = 0\<rparr> pl) = Inr pl'"
    by (auto simp: CPUIsland_ctor_def bindE_eq_Inr)
  then obtain s pl1 where s: "is_cpus s = []" "pl1 = put_island i s pl"
    "for_cpus (\<lambda>c pl. bindE (addCPU i c pl) (\<lambda>r. Inr (snd r))) cs pl1 = Inr pl'"
    by (metis island.select_convs(3))
  have "links_ok pl1" using assms(1,2) s(1) unfolding s(2) by (intro links_put_island) (auto simp: good_def)
  moreover have "speed_ok {} pl1"
    using assms(1,2) cached_put_island [of pl _ i s] unfolding s(2) by (simp add: good_def speed_ok_def)
  ultimately have "good {} pl1" by (simp add: good_def)
  then show ?thesis by (rule for_cpus_good [OF _ _ s(3), rotated]) (auto simp: bindE_eq_Inr intro: addCPU_good)
qed

lemma make_cpus_good: "good {} pl \<Longrightarrow> make_cpus k cs pl = Inr pl' \<Longrightarrow> good {} pl'"
proof (induction cs arbitrary: k pl)
  case (Cons c cs)
  then obtain pl1 where "PCPU_setIndex k c (PCPU_ctor c pl) = Inr pl1" "make_cpus (k + 1) cs pl1 = Inr pl'"
    by (auto simp: bindE_eq_Inr)
  then show ?case using Cons.IH setters_good(1) [OF ctor_good [OF Cons.prems(1)]] by blast
qed simp

text \<open>Destructors: nothing points to the object any more.\<close>

lemma leave_all:
  assumes "good {} pl" and "for_cpus (\<lambda>c pl. bindE (setIsland c None pl) (\<lambda>r. Inr (snd r))) cs pl = Inr pl'"
  shows "good {} pl' \<and> pl_islands pl' = pl_islands pl \<and>
    (\<forall>c\<in>set cs. \<forall>x. pl_cpus pl' c = Some x \<longrightarrow> pc_island x = None) \<and>
    (\<forall>c x. pl_cpus pl c = Some x \<longrightarrow> pc_island x = None \<longrightarrow> (\<forall>y. pl_cpus pl' c = Some y \<longrightarrow> pc_island y = None))"
  using assms
proof (induction cs arbitrary: pl)
  case (Cons c cs)
  then obtain b pl1 where pl1: "setIsland c None pl = Inr (b, pl1)"
    "for_cpus (\<lambda>c pl. bindE (setIsland c None pl) (\<lambda>r. Inr (snd r))) cs pl1 = Inr pl'"
    by (auto simp: bindE_eq_Inr)
  note l = leave_island [OF Cons.prems(1) pl1(1)]
  note IH = Cons.IH [OF l(1) pl1(2)]
  then show ?case using l(2,3,4) by (auto, metis)
qed simp

lemma island_dtor_good:
  assumes "good {} pl" and "CPUIsland_dtor i pl = Inr pl'"
  shows "good {} pl'"
proof -
  from assms(2) obtain s pl1 where s: "pl_islands pl i = Some s"
    "for_cpus (\<lambda>c pl. bindE (setIsland c None pl) (\<lambda>r. Inr (snd r))) (is_cpus s) pl = Inr pl1"
    "pl' = pl1\<lparr>pl_islands := (pl_islands pl1)(i := None)\<rparr>"
    by (auto simp: CPUIsland_dtor_def bindE_eq_Inr)
  note l = leave_all [OF assms(1) s(2)]
  have none: "pc_island x \<noteq> Some i" if "pl_cpus pl1 c = Some x" for c x
    using l that s(1) by (fastforce simp: good_def links_ok_def)
  then have "links_ok pl'" using l unfolding s(3) good_def links_ok_def by (simp del: at_Inr) metis
  moreover have "cached pl' x" if "pl_cpus pl1 c = Some x" "cached pl1 x" for c x
    using that none [OF that(1)] unfolding s(3) by (auto simp: cached_def split: option.splits)
  then have "speed_ok {} pl'" using l unfolding s(3) good_def speed_ok_def by simp
  ultimately show ?thesis by (simp add: good_def)
qed

lemma cpu_dtor_good:
  assumes "good {} pl" and "PCPU_dtor c pl = Inr pl'"
  shows "good {} pl'"
proof -
  from assms(2) obtain x where x: "pl_cpus pl c = Some x" by (auto simp: PCPU_dtor_def bindE_eq_Inr)
  have "\<exists>pl1. good {} pl1 \<and> pl' = pl1\<lparr>pl_cpus := (pl_cpus pl1)(c := None)\<rparr>"
  proof (cases "pc_island x")
    case None
    then show ?thesis using assms x by (auto simp: PCPU_dtor_def at_Some)
  next
    case (Some i)
    then obtain b pl1 where "removeCPU i c pl = Inr (b, pl1)" "pl' = pl1\<lparr>pl_cpus := (pl_cpus pl1)(c := None)\<rparr>"
      using assms(2) x by (auto simp: PCPU_dtor_def at_Some bindE_eq_Inr)
    then show ?thesis using removeCPU_good(1) [OF assms(1)] by blast
  qed
  then obtain pl1 where g: "good {} pl1" "pl' = pl1\<lparr>pl_cpus := (pl_cpus pl1)(c := None)\<rparr>" by blast
  have "cached pl' y = cached pl1 y" for y by (simp add: cached_def g(2) split: option.splits)
  then show ?thesis using g(1) unfolding good_def links_ok_def speed_ok_def by (simp add: g(2))
qed

section \<open>Reachable states\<close>

text \<open>
  The calls: all those of the two classes but \<open>CPU::enable\<close>, after which the speed of a processor may be out of date, as
  what is disabled is not told of a new operating point.  A number is given to one object at a time.
\<close>

fun op_allowed :: "plat_op \<Rightarrow> platform \<Rightarrow> bool" where
  "op_allowed (MakeCPU c) pl \<longleftrightarrow> pl_cpus pl c = None"
| "op_allowed (MakeIsland i cs ty opps m) pl \<longleftrightarrow> pl_islands pl i = None"
| "op_allowed (MakeIslandOf i cs ty opps m) pl \<longleftrightarrow> pl_islands pl i = None \<and> distinct cs \<and> (\<forall>c\<in>set cs. pl_cpus pl c = None)"
| "op_allowed (Enable c) pl \<longleftrightarrow> False"
| "op_allowed _ pl \<longleftrightarrow> True"

inductive plat_reach :: "(rat \<Rightarrow> rat) \<Rightarrow> platform \<Rightarrow> bool" for ex where
  start: "plat_reach ex no_platform"
| step: "plat_reach ex pl \<Longrightarrow> op_allowed oper pl \<Longrightarrow> do_plat ex oper pl = Inr pl' \<Longrightarrow> plat_reach ex pl'"

lemma do_plat_good:
  assumes "good {} pl" and "op_allowed oper pl" and "do_plat ex oper pl = Inr pl'"
  shows "good {} pl'"
proof (cases oper)
  case (SetCPUOPP c k)
  then show ?thesis using assms setOPP_good
    by (auto simp: PCPU_setOPP_def bindE_eq_Inr split: option.splits)
next
  case (MakeIslandOf i cs ty opps m)
  then obtain pl1 where "CPUIsland_ctor ex i [] ty opps m pl = Inr pl1" "make_cpus 0 cs pl1 = Inr pl'"
    using assms(3) by (auto simp: CPUIsland_ctor_num_def bindE_eq_Inr)
  moreover have "pl_islands pl i = None" using assms(2) MakeIslandOf by simp
  ultimately show ?thesis using island_ctor_good [OF assms(1)] make_cpus_good by blast
next
  case (Enable c)
  then show ?thesis using assms(2) by simp
next
  case (MakeCPU c)
  then show ?thesis using assms by (auto simp: drop_flag_def bindE_eq_Inr intro: ctor_good)
next
  case (MakeIsland i cs ty opps m)
  then show ?thesis using assms by (auto simp: drop_flag_def bindE_eq_Inr intro: island_ctor_good)
next
  case (DestroyCPU c)
  then show ?thesis using assms by (auto simp: drop_flag_def bindE_eq_Inr intro: cpu_dtor_good)
next
  case (DestroyIsland i)
  then show ?thesis using assms by (auto simp: drop_flag_def bindE_eq_Inr intro: island_dtor_good)
next
  case (AddCPU i c)
  then show ?thesis using assms by (auto simp: drop_flag_def bindE_eq_Inr intro: addCPU_good)
next
  case (RemoveCPU i c)
  then show ?thesis using assms by (auto simp: drop_flag_def bindE_eq_Inr intro: removeCPU_good(1))
next
  case (SetIsland c i)
  then show ?thesis using assms by (auto simp: drop_flag_def bindE_eq_Inr intro: setIsland_good)
next
  case (SetOPP i k)
  then show ?thesis using assms by (auto simp: drop_flag_def bindE_eq_Inr intro: setOPP_good)
next
  case (IslandNewRun i)
  then show ?thesis using assms by (auto simp: drop_flag_def bindE_eq_Inr intro: newRun_good)
next
  case (SetWorkload c wl)
  then show ?thesis using assms by (auto simp: drop_flag_def bindE_eq_Inr intro: setWorkload_good)
next
  case (SetIndex c k)
  then show ?thesis using assms by (auto simp: drop_flag_def bindE_eq_Inr intro: setters_good)
next
  case (SetKernel c k)
  then show ?thesis using assms by (auto simp: drop_flag_def bindE_eq_Inr intro: setters_good)
next
  case (SetPowerMax c k)
  then show ?thesis using assms by (auto simp: drop_flag_def bindE_eq_Inr intro: setters_good)
next
  case (Disable c)
  then show ?thesis using assms by (auto simp: drop_flag_def bindE_eq_Inr intro: setters_good)
qed

lemma reach_good: "plat_reach ex pl \<Longrightarrow> good {} pl"
proof (induction rule: plat_reach.induct)
  case start
  then show ?case by (simp add: good_def links_ok_def speed_ok_def no_platform_def)
next
  case (step pl oper pl')
  then show ?case using do_plat_good by blast
qed

text \<open>
  C29. Processors and islands: in whatever order processors and islands are made, joined, separated, destroyed, disabled, given
  workloads and operating points - whatever calls are made but \<open>CPU::enable\<close> - a processor is in the set of its island, which
  has not been destroyed, and the speed it reports, which the instructions of tasks divide by, is the one its model gives
  for its workload at the operating point of the island, unless it is disabled.
\<close>

theorem reachable_processor:
  assumes "plat_reach ex pl" and "pl_cpus pl c = Some x"
  shows "case pc_island x of
      None \<Rightarrow> \<not> pc_disabled x \<longrightarrow> PCPU_getSpeed x = 0
    | Some i \<Rightarrow> \<exists>s. pl_islands pl i = Some s \<and> c \<in> set (is_cpus s) \<and>
        (\<not> pc_disabled x \<longrightarrow> getSpeedByOPP (is_current_opp s) (PCPU_getWorkload x) c pl = Inr (PCPU_getSpeed x))"
proof -
  have g: "links_ok pl" "speed_ok {} pl" using reach_good [OF assms(1)] by (auto simp: good_def)
  have speed: "cached pl x" if "\<not> pc_disabled x" using g(2) assms(2) that by (simp add: speed_ok_def)
  show ?thesis
  proof (cases "pc_island x")
    case None
    then show ?thesis using speed by (auto simp: cached_def PCPU_getSpeed_def)
  next
    case (Some i)
    then obtain s where "pl_islands pl i = Some s" "c \<in> set (is_cpus s)"
      using good_island [OF reach_good [OF assms(1)] assms(2)] by blast
    then show ?thesis
      using Some speed assms(2) by (auto simp: cached_def PCPU_getSpeed_def getSpeedByOPP_island forwarded_def at_Some)
  qed
qed

text \<open>Runs of calls.\<close>

fun run_plat :: "(rat \<Rightarrow> rat) \<Rightarrow> plat_op list \<Rightarrow> platform \<Rightarrow> exc + platform" where
  "run_plat ex [] pl = Inr pl"
| "run_plat ex (oper # ops) pl = bindE (do_plat ex oper pl) (run_plat ex ops)"

fun run_allowed :: "(rat \<Rightarrow> rat) \<Rightarrow> plat_op list \<Rightarrow> platform \<Rightarrow> bool" where
  "run_allowed ex [] pl \<longleftrightarrow> True"
| "run_allowed ex (oper # ops) pl \<longleftrightarrow> op_allowed oper pl \<and>
    (case do_plat ex oper pl of Inl e \<Rightarrow> False | Inr pl1 \<Rightarrow> run_allowed ex ops pl1)"

lemma run_reach: "plat_reach ex pl \<Longrightarrow> run_allowed ex ops pl \<Longrightarrow> run_plat ex ops pl = Inr pl' \<Longrightarrow> plat_reach ex pl'"
proof (induction ops arbitrary: pl)
  case (Cons oper ops)
  then show ?case by (cases "do_plat ex oper pl") (auto intro: plat_reach.step)
qed simp

definition minimal_model :: "opp list \<Rightarrow> cpu_model option" where
  "minimal_model opps = (case createMinimalPowerModel id opps of Inl e \<Rightarrow> None | Inr m \<Rightarrow> m)"

definition example_calls :: "plat_op list" where
  "example_calls = [MakeCPU 0, MakeCPU 1, MakeIsland 0 [0] LITTLE [OPP 200 1, OPP 400 2] (minimal_model [OPP 200 1, OPP 400 2]), AddCPU 0 1,
     SetWorkload 1 ''busy'', SetOPP 0 0]"

lemma bindE_weak: "m = m' \<Longrightarrow> bindE m f = bindE m' f"
  by simp

lemmas plat_eval = minimal_model_def CPUIsland_ctor_def CPUIsland_ctor_num_def Type_toString_def createMinimalPowerModel_def CPUModel_create_def
  StatelessCPUModel_create_def minimal_key_def PCPU_ctor_def drop_flag_def addCPU.simps setIsland.simps PCPU_updateModel_def
  getPowerByOPP_def getSpeedByOPP_def getValueByOPP_def forwarded_def at_Some getOPPsize_def Island_getProcessorsNumber_def
  Island_getOPP_def lookupPower_def lookupSpeed_def virtual_lookup_def divE_def freq_val_def OPP_def
  PCPU_getWorkload_def Island_setOPP_def updateModels_def PCPU_setWorkload_def Island_getPower_def no_platform_def Let_def
  removeCPU_def PCPU_dtor_def PCPU_enable_def PCPU_disable_def FREQ_MAX_def unsigned_minus_1_eq_mask mask_eq_exp_minus_1

lemma example_run: "run_allowed id example_calls no_platform"
  by (simp add: example_calls_def plat_eval cong: bindE_weak)

lemma example_speed:
  "(case run_plat id example_calls no_platform of Inl e \<Rightarrow> None
    | Inr pl \<Rightarrow> map_option (\<lambda>x. (pc_disabled x, pc_island x, pc_speed x)) (pl_cpus pl 1)) =
    Some (False, Some 0, 4294967295 / 200)"
  by (simp add: example_calls_def plat_eval cong: bindE_weak)

lemma reachable_processor_witness:
  "\<exists>pl x s. plat_reach id pl \<and> pl_cpus pl 1 = Some x \<and> pl_islands pl 0 = Some s \<and> 1 \<in> set (is_cpus s) \<and>
    getSpeedByOPP (is_current_opp s) (PCPU_getWorkload x) 1 pl = Inr (4294967295 / 200)"
proof -
  obtain pl x where pl: "run_plat id example_calls no_platform = Inr pl" "pl_cpus pl 1 = Some x"
    "\<not> pc_disabled x" "pc_island x = Some 0" "pc_speed x = 4294967295 / 200"
    using example_speed by (auto split: sum.splits)
  have r: "plat_reach id pl" by (rule run_reach [OF plat_reach.start example_run pl(1)])
  show ?thesis using reachable_processor [OF r pl(2)] r pl by (auto simp: PCPU_getSpeed_def)
qed

section \<open>The power of an island\<close>

definition island_power :: "island \<Rightarrow> nat \<Rightarrow> string \<Rightarrow> exc + rat" where
  "island_power s k workload =
    (let value = (\<lambda>w. if k = getOPPsize s then Inr 0
        else case is_model s of None \<Rightarrow> Inr 0 | Some m \<Rightarrow> bindE (Island_getOPP k s) (\<lambda>p. lookupPower m p w));
         n = length (is_cpus s)
     in if n = 0 then Inl (AssertFailed ''num_cpus > 0'')
        else bindE (value ''idle'') (\<lambda>idle. if workload = ''idle'' then Inr (idle / of_nat n)
          else bindE (value workload) (\<lambda>act. Inr (idle / of_nat n + act))))"

lemma getPowerByOPP_island:
  "pl_cpus pl c = Some x \<Longrightarrow> pc_island x = Some i \<Longrightarrow> pl_islands pl i = Some s \<Longrightarrow>
    getPowerByOPP k workload c pl = island_power s k workload"
  by (simp add: getPowerByOPP_def getValueByOPP_def forwarded_def at_Some island_power_def Let_def Island_getProcessorsNumber_def)

lemma for_power:
  assumes "distinct cs" and "\<forall>c\<in>set cs. \<exists>x. pl_cpus pl c = Some x \<and> pc_island x = Some i"
    and "pl_islands pl i = Some s" and "for_cpus PCPU_updateModel cs pl = Inr pl'"
  shows "(\<forall>c. c \<notin> set cs \<longrightarrow> pl_cpus pl' c = pl_cpus pl c) \<and>
    (\<forall>c\<in>set cs. \<forall>x. pl_cpus pl c = Some x \<longrightarrow> (\<exists>y. pl_cpus pl' c = Some y \<and>
      island_power s (is_current_opp s) (PCPU_getWorkload x) = Inr (pc_power y)))"
  using assms
proof (induction cs arbitrary: pl)
  case (Cons c cs)
  obtain pl1 where pl1: "PCPU_updateModel c pl = Inr pl1" "for_cpus PCPU_updateModel cs pl1 = Inr pl'"
    using Cons.prems(4) by (auto simp: bindE_eq_Inr)
  from pl1(1) obtain x pw sp where u: "pl_cpus pl c = Some x" "pl1 = put_cpu c (x\<lparr>pc_power := pw, pc_speed := sp\<rparr>) pl"
    "\<And>i s. pc_island x = Some i \<Longrightarrow> pl_islands pl i = Some s \<Longrightarrow>
      getPowerByOPP (is_current_opp s) (PCPU_getWorkload x) c pl = Inr pw" by (rule updateModel_cases) blast
  have xi: "pc_island x = Some i" using Cons.prems(2) u(1) by simp
  then have pw: "island_power s (is_current_opp s) (PCPU_getWorkload x) = Inr pw"
    using u(3) [OF xi Cons.prems(3)] getPowerByOPP_island [OF u(1) xi Cons.prems(3)] by simp
  have IH: "(\<forall>d. d \<notin> set cs \<longrightarrow> pl_cpus pl' d = pl_cpus pl1 d) \<and>
    (\<forall>d\<in>set cs. \<forall>x. pl_cpus pl1 d = Some x \<longrightarrow> (\<exists>y. pl_cpus pl' d = Some y \<and>
      island_power s (is_current_opp s) (PCPU_getWorkload x) = Inr (pc_power y)))"
    using Cons.prems(1-3) u(2) by (intro Cons.IH [OF _ _ _ pl1(2)]) auto
  have nin: "c \<notin> set cs" using Cons.prems(1) by simp
  then have same: "pl_cpus pl1 d = pl_cpus pl d" if "d \<noteq> c" for d using u(2) that by simp
  have "pl_cpus pl' c = Some (x\<lparr>pc_power := pw, pc_speed := sp\<rparr>)" using IH nin u(2) by simp
  moreover have "pl_cpus pl1 d = pl_cpus pl d" if "d \<in> set cs" for d using same that nin by metis
  ultimately show ?case using IH same u(1) pw by simp
qed simp

lemma sum_power_sum:
  assumes "\<forall>c\<in>set cs. \<exists>x. pl_cpus pl c = Some x \<and> pc_power x = d + f c"
  shows "sum_power cs pl a = Inr (a + of_nat (length cs) * d + (\<Sum>c\<leftarrow>cs. f c))"
  using assms by (induction cs arbitrary: a) (auto simp: at_Some algebra_simps)

text \<open>
  C30. After the models of an island are updated, as a change of the operating point and a new run do, the power of the
  island is that of the idle island and of every workload that runs: the shares of the processors add up.
\<close>

theorem island_power_adds_up:
  assumes "plat_reach ex pl" and "pl_islands pl i = Some s" and "is_model s = Some m" and "is_cpus s \<noteq> []"
    and "is_current_opp s < length (is_opps s)"
    and "\<forall>c\<in>set (is_cpus s). \<exists>x. pl_cpus pl c = Some x \<and> pc_island x = Some i" and "updateModels i pl = Inr pl'"
  shows "\<exists>idle active. lookupPower m (is_opps s ! is_current_opp s) ''idle'' = Inr idle \<and>
    (\<forall>c\<in>set (is_cpus s). \<forall>x. pl_cpus pl c = Some x \<longrightarrow>
      (if PCPU_getWorkload x = ''idle'' then active c = 0
       else lookupPower m (is_opps s ! is_current_opp s) (PCPU_getWorkload x) = Inr (active c))) \<and>
    Island_getPower i pl' = Inr (idle + (\<Sum>c\<leftarrow>is_cpus s. active c))"
proof -
  let ?p = "is_opps s ! is_current_opp s" and ?n = "length (is_cpus s)"
  let ?wl = "\<lambda>c. PCPU_getWorkload (the (pl_cpus pl c))"
  have dist: "distinct (is_cpus s)" using reach_good [OF assms(1)] assms(2) by (auto simp: good_def links_ok_def)
  have fc: "for_cpus PCPU_updateModel (is_cpus s) pl = Inr pl'" using assms(2,3,7) by (simp add: updateModels_def at_Some)
  note power = for_power [OF dist assms(6,2) fc]
  have isl: "pl_islands pl' = pl_islands pl" using for_updateModel_good [OF reach_good [OF assms(1)] fc] by simp
  have ip: "island_power s (is_current_opp s) w = bindE (lookupPower m ?p ''idle'') (\<lambda>idle.
      if w = ''idle'' then Inr (idle / of_nat ?n) else bindE (lookupPower m ?p w) (\<lambda>act. Inr (idle / of_nat ?n + act)))" for w
    using assms(3,4,5) by (simp add: island_power_def getOPPsize_def Island_getOPP_def Let_def)
  obtain c0 where c0: "c0 \<in> set (is_cpus s)" using assms(4) by (cases "is_cpus s") auto
  then obtain x0 where "pl_cpus pl c0 = Some x0" using assms(6) by blast
  with c0 obtain v0 where "island_power s (is_current_opp s) (PCPU_getWorkload x0) = Inr v0"
    using power by metis
  then obtain idle where idle: "lookupPower m ?p ''idle'' = Inr idle" by (auto simp: ip bindE_eq_Inr)
  define active where "active c = (if ?wl c = ''idle'' then 0 else (case lookupPower m ?p (?wl c) of Inl e \<Rightarrow> 0 | Inr a \<Rightarrow> a))" for c
  have each: "\<exists>y. pl_cpus pl' c = Some y \<and> pc_power y = idle / of_nat ?n + active c \<and>
      (?wl c \<noteq> ''idle'' \<longrightarrow> lookupPower m ?p (?wl c) = Inr (active c))" if mem: "c \<in> set (is_cpus s)" for c
  proof -
    obtain x where x: "pl_cpus pl c = Some x" using assms(6) mem by blast
    then obtain y :: pcpu where y: "pl_cpus pl' c = Some y"
      "island_power s (is_current_opp s) (PCPU_getWorkload x) = Inr (pc_power y)" using power mem by metis
    show ?thesis
    proof (cases "PCPU_getWorkload x = ''idle''")
      case True
      then show ?thesis using x y idle by (simp add: ip active_def)
    next
      case False
      then obtain a where "lookupPower m ?p (PCPU_getWorkload x) = Inr a" "pc_power y = idle / of_nat ?n + a"
        using y(2) idle by (auto simp: ip bindE_eq_Inr dest: sym)
      then show ?thesis using x y(1) False by (simp add: active_def)
    qed
  qed
  have "Island_getPower i pl' = sum_power (is_cpus s) pl' 0"
    using isl assms(2,3) by (simp add: Island_getPower_def at_Some)
  also have "\<dots> = Inr (0 + of_nat ?n * (idle / of_nat ?n) + (\<Sum>c\<leftarrow>is_cpus s. active c))"
    using each by (intro sum_power_sum) blast
  also have "\<dots> = Inr (idle + (\<Sum>c\<leftarrow>is_cpus s. active c))" using assms(4) by simp
  finally have total: "Island_getPower i pl' = Inr (idle + (\<Sum>c\<leftarrow>is_cpus s. active c))" .
  have "if PCPU_getWorkload x = ''idle'' then active c = 0 else lookupPower m ?p (PCPU_getWorkload x) = Inr (active c)"
    if "c \<in> set (is_cpus s)" "pl_cpus pl c = Some x" for c x
    using each [OF that(1)] that(2) by (auto simp: active_def)
  then show ?thesis using idle total by blast
qed

definition power_calls :: "plat_op list" where
  "power_calls = [MakeCPU 0, MakeCPU 1, MakeIsland 0 [0, 1] LITTLE [OPP 200 1] (minimal_model [OPP 200 1]), SetWorkload 1 ''busy'']"

lemma power_run: "run_allowed id power_calls no_platform"
  by (simp add: power_calls_def plat_eval cong: bindE_weak)

lemma power_state:
  "(case run_plat id power_calls no_platform of Inl e \<Rightarrow> None
    | Inr pl \<Rightarrow> (case updateModels 0 pl of Inl e \<Rightarrow> None | Inr pl1 \<Rightarrow>
        Some (map_option (\<lambda>s. (is_cpus s, is_opps s, is_current_opp s, is_model s = None)) (pl_islands pl 0),
          map_option (\<lambda>x. (pc_island x, pc_workload x, pc_disabled x)) (pl_cpus pl 0),
          map_option (\<lambda>x. (pc_island x, pc_workload x, pc_disabled x)) (pl_cpus pl 1),
          Island_getPower 0 pl1))) =
    Some (Some ([0, 1], [OPP 200 1], 0, False), Some (Some 0, ''idle'', False), Some (Some 0, ''busy'', False), Inr 400)"
  by (simp add: power_calls_def plat_eval cong: bindE_weak)

lemma island_power_adds_up_witness:
  "\<exists>pl s m pl' idle active. plat_reach id pl \<and> pl_islands pl 0 = Some s \<and> is_model s = Some m \<and>
    updateModels 0 pl = Inr pl' \<and> lookupPower m (OPP 200 1) ''idle'' = Inr idle \<and>
    lookupPower m (OPP 200 1) ''busy'' = Inr (active 1) \<and>
    Island_getPower 0 pl' = Inr (idle + (\<Sum>c\<leftarrow>is_cpus s. active (c::nat)))"
proof -
  obtain pl pl' s x y where st: "run_plat id power_calls no_platform = Inr pl" "updateModels 0 pl = Inr pl'"
    "pl_islands pl 0 = Some s" "is_cpus s = [0, 1]" "is_opps s = [OPP 200 1]" "is_current_opp s = 0" "is_model s \<noteq> None"
    "pl_cpus pl 0 = Some x" "pl_cpus pl 1 = Some y" "pc_island x = Some 0" "pc_island y = Some 0"
    "PCPU_getWorkload y = ''busy''"
    using power_state by (auto split: sum.splits simp: PCPU_getWorkload_def)
  obtain m where m: "is_model s = Some m" using st(7) by auto
  have r: "plat_reach id pl" by (rule run_reach [OF plat_reach.start power_run st(1)])
  have cs: "\<forall>c\<in>set (is_cpus s). \<exists>x. pl_cpus pl c = Some x \<and> pc_island x = Some 0" using st by simp
  have ne: "is_cpus s \<noteq> []" "is_current_opp s < length (is_opps s)" using st by simp_all
  from island_power_adds_up [OF r st(3) m ne cs st(2)] show ?thesis using r st m by fastforce
qed

text \<open>Before that, the processors added first keep the share of a smaller island.\<close>

lemma power_after_adding:
  "(case run_plat id [MakeCPU 0, MakeCPU 1, MakeIsland 0 [0, 1] LITTLE [OPP 200 1] (minimal_model [OPP 200 1])] no_platform of
      Inl e \<Rightarrow> Inl e | Inr pl \<Rightarrow> Island_getPower 0 pl) = Inr (200 + 100)"
  by (simp add: plat_eval cong: bindE_weak)

text \<open>An island that makes its processors has none of them.\<close>

lemma island_of_number_is_empty:
  "(case run_plat id [MakeIslandOf 0 [0, 1] LITTLE [OPP 200 1] (minimal_model [OPP 200 1])] no_platform of
      Inl e \<Rightarrow> None | Inr pl \<Rightarrow> map_option is_cpus (pl_islands pl 0)) = Some []"
  by (simp add: plat_eval PCPU_setIndex_def cong: bindE_weak)

lemma destroyed:
  "cpu_at c (pl\<lparr>pl_cpus := f\<rparr>) = (case f c of None \<Rightarrow> Inl (NullPointer ''CPU'') | Some x \<Rightarrow> Inr x)"
  "island_at i (pl\<lparr>pl_cpus := f\<rparr>) = island_at i pl"
  by (simp_all add: cpu_at_def island_at_def)

text \<open>A processor that moves stays in the set of its old island, which refers to it after its end.\<close>

lemma moved_processor_is_dangling:
  "(case run_plat id [MakeCPU 0, MakeIsland 0 [0] LITTLE [OPP 200 1] (minimal_model [OPP 200 1]), MakeIsland 1 [] BIG [OPP 200 1] (minimal_model [OPP 200 1]),
      SetIsland 0 (Some 1), DestroyCPU 0] no_platform of Inl e \<Rightarrow> Inl e | Inr pl \<Rightarrow> Island_getPower 0 pl) =
    Inl (NullPointer ''CPU'')"
  by (simp add: plat_eval destroyed cong: bindE_weak)

text \<open>A processor that is enabled again may have the speed of the idle workload.\<close>

lemma enabled_processor_keeps_speed:
  assumes "PCPU_enable c pl = Inr pl'" and "pl_cpus pl c = Some x"
  shows "pl_cpus pl' c = Some (x\<lparr>pc_disabled := False\<rparr>)"
  using assms by (auto simp: PCPU_enable_def at_Some)

end
