(* ===== verification/Tick.thy ===== *)
theory Tick
  imports Prelude Complex_Main
begin

text \<open>
  \<open>libmetasim/include/metasim/tick.hpp\<close> and \<open>tick.cpp\<close>: the time of the simulator.  A \<open>Tick\<close> wraps
  a signed 64 bit integer.  Signed overflow is undefined in C++, so a tick is modelled by \<open>int\<close> and
  the range of the type by \<open>tick_in_range\<close>; the conversion to a 32 bit \<open>int\<close>, which the
  schedulers use, does wrap and is written with \<open>signed_take_bit\<close>.  Doubles are rational numbers:
  rounding is not modelled.
\<close>

type_synonym tick = int

definition MAXTICK :: tick where
  "MAXTICK = 2 ^ 63 - 1"

definition tick_in_range :: "tick \<Rightarrow> bool" where
  "tick_in_range t \<longleftrightarrow> - (2 ^ 63) \<le> t \<and> t \<le> MAXTICK"

definition Tick_of_int :: "int \<Rightarrow> tick" where
  "Tick_of_int t = t"

text \<open>\<open>Tick::ceil\<close>, \<open>Tick::floor\<close>, \<open>Tick::round\<close> and the truncating constructor from \<open>double\<close>.\<close>

definition Tick_of_double :: "rat \<Rightarrow> tick" where
  "Tick_of_double x = (if x < 0 then \<lceil>x\<rceil> else \<lfloor>x\<rfloor>)"

definition Tick_ceil :: "rat \<Rightarrow> tick" where
  "Tick_ceil x = \<lceil>x\<rceil>"

definition Tick_floor :: "rat \<Rightarrow> tick" where
  "Tick_floor x = \<lfloor>x\<rfloor>"

end
