(* ===== verification/Engine.thy ===== *)
theory Engine
  imports PList Tick
begin

text \<open>
  The event engine of \<open>libmetasim\<close>: \<open>event.cpp\<close>/\<open>event.hpp\<close> (class \<open>Event\<close> and its static event
  queue) and \<open>simul.cpp\<close>/\<open>simul.hpp\<close> (class \<open>Simulation\<close>).

  An event object is named by a key of type \<open>'e\<close> and its fields are an \<open>event\<close> record; the static
  members of \<open>Event\<close> and the singleton \<open>Simulation\<close> are the fields of \<open>sim\<close>, which the state of
  the whole program extends.  The virtual methods \<open>doit\<close> and \<open>probe\<close> are arguments of
  \<open>Event_action\<close> and of the operations that reach it.  Printing is not modelled.
\<close>

record event =
  ev_order :: nat
  ev_isInQueue :: bool
  ev_time :: tick
  ev_lastTime :: tick
  ev_priority :: int
  ev_std_priority :: int
  ev_disposable :: bool

record 'e sim =
  globTime :: tick
  evs :: "'e \<Rightarrow> event"
  eventQueue :: "'e list"
  evCounter :: nat
  numRuns :: nat
  actRuns :: nat
  sim_end :: bool

definition DEFAULT_PRIORITY :: int where
  "DEFAULT_PRIORITY = 8"

definition IMMEDIATE_PRIORITY :: int where
  "IMMEDIATE_PRIORITY = 0"

section \<open>Event\<close>

definition Event_ctor :: "int \<Rightarrow> event" where
  "Event_ctor p = \<lparr>ev_order = 0, ev_isInQueue = False, ev_time = MAXTICK, ev_lastTime = MAXTICK,
     ev_priority = p, ev_std_priority = p, ev_disposable = False\<rparr>"

definition Event_copy :: "event \<Rightarrow> event" where
  "Event_copy e = \<lparr>ev_order = 0, ev_isInQueue = False, ev_time = MAXTICK, ev_lastTime = MAXTICK,
     ev_priority = ev_priority e, ev_std_priority = ev_std_priority e,
     ev_disposable = ev_disposable e\<rparr>"

definition Event_Cmp :: "event \<Rightarrow> event \<Rightarrow> bool" where
  "Event_Cmp e1 e2 =
    (let firstTime = ev_time e1; secondTime = ev_time e2 in
     if firstTime < secondTime then True
     else if firstTime = secondTime then
       if ev_priority e1 < ev_priority e2 then True
       else if ev_priority e1 = ev_priority e2 then
         if ev_order e1 < ev_order e2 then True else False
       else False
     else False)"

definition upd_event :: "'e \<Rightarrow> (event \<Rightarrow> event) \<Rightarrow> ('e, 'z) sim_scheme \<Rightarrow> ('e, 'z) sim_scheme" where
  "upd_event e f w = w\<lparr>evs := (evs w)(e := f (evs w e))\<rparr>"

definition queue_lt :: "('e, 'z) sim_scheme \<Rightarrow> 'e \<Rightarrow> 'e \<Rightarrow> bool" where
  "queue_lt w a b = Event_Cmp (evs w a) (evs w b)"

definition Event_isInQueue :: "'e \<Rightarrow> ('e, 'z) sim_scheme \<Rightarrow> bool" where
  "Event_isInQueue e w = ev_isInQueue (evs w e)"

definition Event_getTime :: "'e \<Rightarrow> ('e, 'z) sim_scheme \<Rightarrow> tick" where
  "Event_getTime e w = ev_time (evs w e)"

definition Event_getLastTime :: "'e \<Rightarrow> ('e, 'z) sim_scheme \<Rightarrow> tick" where
  "Event_getLastTime e w = ev_lastTime (evs w e)"

definition Event_setPriority :: "'e \<Rightarrow> int \<Rightarrow> ('e, 'z) sim_scheme \<Rightarrow> ('e, 'z) sim_scheme" where
  "Event_setPriority e p = upd_event e (\<lambda>ev. ev\<lparr>ev_priority := p\<rparr>)"

definition Event_restorePriority :: "'e \<Rightarrow> ('e, 'z) sim_scheme \<Rightarrow> ('e, 'z) sim_scheme" where
  "Event_restorePriority e = upd_event e (\<lambda>ev. ev\<lparr>ev_priority := ev_std_priority ev\<rparr>)"

definition Event_setTime ::
    "'e \<Rightarrow> tick \<Rightarrow> ('e, 'z) sim_scheme \<Rightarrow> exc + ('e, 'z) sim_scheme" where
  "Event_setTime e actTime w =
    (if ev_isInQueue (evs w e) then Inl EventTimeWhileQueued
     else Inr (upd_event e (\<lambda>ev. ev\<lparr>ev_time := actTime\<rparr>) w))"

definition Event_post ::
    "'e \<Rightarrow> tick \<Rightarrow> bool \<Rightarrow> ('e, 'z) sim_scheme \<Rightarrow> exc + ('e, 'z) sim_scheme" where
  "Event_post e myTime disp w =
    (if ev_isInQueue (evs w e) then Inl EventAlreadyPosted
     else if myTime < globTime w then Inl EventPostedInPast
     else bindE (Event_setTime e myTime w) (\<lambda>w1.
       let w2 = (upd_event e (\<lambda>ev. ev\<lparr>ev_order := evCounter w1\<rparr>) w1)\<lparr>evCounter := evCounter w1 + 1\<rparr>;
           (q, inserted) = pl_insert (queue_lt w2) e (eventQueue w2)
       in if \<not> inserted then Inl EventAlreadyInQueue
          else Inr (upd_event e (\<lambda>ev. ev\<lparr>ev_isInQueue := True, ev_disposable := disp\<rparr>)
                      (w2\<lparr>eventQueue := q\<rparr>))))"

definition Event_drop :: "'e \<Rightarrow> ('e, 'z) sim_scheme \<Rightarrow> ('e, 'z) sim_scheme" where
  "Event_drop e w =
     upd_event e (\<lambda>ev. ev\<lparr>ev_isInQueue := False\<rparr>)
       (w\<lparr>eventQueue := pl_erase (queue_lt w) e (eventQueue w)\<rparr>)"

text \<open>The destructor; also what is left of \<open>delete\<close> once memory is not modelled.\<close>

definition Event_dtor :: "'e \<Rightarrow> ('e, 'z) sim_scheme \<Rightarrow> ('e, 'z) sim_scheme" where
  "Event_dtor e = Event_drop e"

definition Event_process ::
    "'e \<Rightarrow> bool \<Rightarrow> ('e, 'z) sim_scheme \<Rightarrow> exc + ('e, 'z) sim_scheme" where
  "Event_process e disp w =
    (let w1 = Event_setPriority e IMMEDIATE_PRIORITY (Event_drop e w)
     in Event_post e (globTime w1) disp w1)"

definition Event_getFirst :: "('e, 'z) sim_scheme \<Rightarrow> 'e option" where
  "Event_getFirst w = pl_front (eventQueue w)"

definition Event_action ::
    "('e \<Rightarrow> ('e, 'z) sim_scheme \<Rightarrow> exc + ('e, 'z) sim_scheme) \<Rightarrow>
     'e \<Rightarrow> ('e, 'z) sim_scheme \<Rightarrow> exc + ('e, 'z) sim_scheme" where
  "Event_action doit e w =
     doit e (Event_restorePriority e
       (upd_event e (\<lambda>ev. ev\<lparr>ev_lastTime := ev_time ev\<rparr>) w))"

section \<open>Simulation\<close>

text \<open>
  \<open>NoMoreEventsInQueue\<close> is a class of \<open>simul.cpp\<close> alone: only the engine throws it, everything else
  that leaves a step is an exception of a handler.
\<close>

datatype sim_exc = NoMoreEventsInQueue | HandlerExc exc

definition Simulation_setTime :: "tick \<Rightarrow> ('e, 'z) sim_scheme \<Rightarrow> ('e, 'z) sim_scheme" where
  "Simulation_setTime t w = w\<lparr>globTime := t\<rparr>"

definition Simulation_sim_step ::
    "('e \<Rightarrow> ('e, 'z) sim_scheme \<Rightarrow> exc + ('e, 'z) sim_scheme) \<Rightarrow>
     ('e, 'z) sim_scheme \<Rightarrow> sim_exc + tick \<times> ('e, 'z) sim_scheme" where
  "Simulation_sim_step doit w =
    (case Event_getFirst w of
       None \<Rightarrow> Inl NoMoreEventsInQueue
     | Some temp \<Rightarrow>
         let w1 = Event_drop temp w;
             mytime = Event_getTime temp w1
         in case Event_action doit temp (Simulation_setTime mytime w1) of
              Inl e \<Rightarrow> Inl (HandlerExc e)
            | Inr w2 \<Rightarrow>
                Inr (mytime, if ev_disposable (evs w2 temp) then Event_dtor temp w2 else w2))"

definition Simulation_getNextEventTime :: "('e, 'z) sim_scheme \<Rightarrow> sim_exc + tick" where
  "Simulation_getNextEventTime w =
    (case Event_getFirst w of
       None \<Rightarrow> Inl NoMoreEventsInQueue
     | Some temp \<Rightarrow> Inr (Event_getTime temp w))"

text \<open>
  The main cycle of \<open>run\<close>, with the \<open>catch\<close> of \<open>NoMoreEventsInQueue\<close>.  It may not end, when the
  handlers post at the current time for ever: that is the value \<open>None\<close>.
\<close>

partial_function (option) Simulation_main_cycle ::
    "('e \<Rightarrow> ('e, 'z) sim_scheme \<Rightarrow> exc + ('e, 'z) sim_scheme) \<Rightarrow> tick \<Rightarrow>
     ('e, 'z) sim_scheme \<Rightarrow> (exc + ('e, 'z) sim_scheme) option" where
  [code]: "Simulation_main_cycle doit endTick w =
    (if globTime w < endTick then
       (case Simulation_sim_step doit w of
          Inl NoMoreEventsInQueue \<Rightarrow> Some (Inr w)
        | Inl (HandlerExc e) \<Rightarrow> Some (Inl e)
        | Inr (t, w') \<Rightarrow> Simulation_main_cycle doit endTick (Simulation_setTime t w'))
     else Some (Inr w))"

text \<open>The cycle of \<open>run_to\<close>.\<close>

partial_function (option) Simulation_run_to_cycle ::
    "('e \<Rightarrow> ('e, 'z) sim_scheme \<Rightarrow> exc + ('e, 'z) sim_scheme) \<Rightarrow> tick \<Rightarrow>
     ('e, 'z) sim_scheme \<Rightarrow> (exc + ('e, 'z) sim_scheme) option" where
  [code]: "Simulation_run_to_cycle doit stop w =
    (case Simulation_getNextEventTime w of
       Inl e \<Rightarrow> Some (Inr w)
     | Inr t \<Rightarrow>
         if t \<le> stop then
           (case Simulation_sim_step doit w of
              Inl NoMoreEventsInQueue \<Rightarrow> Some (Inr w)
            | Inl (HandlerExc e) \<Rightarrow> Some (Inl e)
            | Inr (t, w') \<Rightarrow> Simulation_run_to_cycle doit stop (Simulation_setTime t w'))
         else Some (Inr w))"

text \<open>
  \<open>run_to\<close>: the local \<open>MsgEvt\<close> (key \<open>msg\<close>, priority \<open>DEFAULT_PRIORITY + 10\<close>) is constructed, posted
  at \<open>stop\<close>, and dropped by its destructor when the block is left.
\<close>

definition Simulation_run_to ::
    "('e \<Rightarrow> ('e, 'z) sim_scheme \<Rightarrow> exc + ('e, 'z) sim_scheme) \<Rightarrow> 'e \<Rightarrow> tick \<Rightarrow>
     ('e, 'z) sim_scheme \<Rightarrow> (exc + tick \<times> ('e, 'z) sim_scheme) option" where
  "Simulation_run_to doit msg stop w =
    (case Event_post msg stop False (upd_event msg (\<lambda>_. Event_ctor (DEFAULT_PRIORITY + 10)) w) of
       Inl e \<Rightarrow> Some (Inl e)
     | Inr w1 \<Rightarrow>
         map_option (\<lambda>r. bindE r (\<lambda>w2. Inr (globTime w2, Event_dtor msg w2)))
           (Simulation_run_to_cycle doit stop w1))"

definition Simulation_initRuns :: "('e, 'z) sim_scheme \<Rightarrow> ('e, 'z) sim_scheme" where
  "Simulation_initRuns w = w\<lparr>globTime := 0, sim_end := False\<rparr>"

lemma pl_erase_shorter_Cmp:
  "x \<in> set xs \<Longrightarrow> length (pl_erase (queue_lt w) x xs) < length xs"
  unfolding pl_erase_def
  by (rule length_filter_less [of x]) (auto simp: equivalent_key_def queue_lt_def Event_Cmp_def)

function Simulation_clearLoop :: "('e, 'z) sim_scheme \<Rightarrow> ('e, 'z) sim_scheme" where
  "Simulation_clearLoop w =
    (case Event_getFirst w of
       None \<Rightarrow> w
     | Some temp \<Rightarrow>
         let w1 = Event_drop temp w
         in Simulation_clearLoop (if ev_disposable (evs w1 temp) then Event_dtor temp w1 else w1))"
  by pat_completeness auto

lemma drop_queue: "eventQueue (Event_drop e w) = pl_erase (queue_lt w) e (eventQueue w)"
  by (simp add: Event_drop_def upd_event_def)

lemma pl_erase_length_le: "length (pl_erase lt x xs) \<le> length xs"
  by (simp add: pl_erase_def)

termination Simulation_clearLoop
proof (relation "measure (\<lambda>w. length (eventQueue w))", simp)
  fix w :: "('e, 'z) sim_scheme" and temp w1
  assume "Event_getFirst w = Some temp" and w1: "w1 = Event_drop temp w"
  then have "temp \<in> set (eventQueue w)"
    by (auto simp: Event_getFirst_def pl_front_def split: list.splits)
  then have "length (eventQueue w1) < length (eventQueue w)"
    using pl_erase_shorter_Cmp by (simp add: w1 drop_queue)
  moreover have "length (eventQueue (Event_dtor temp w1)) \<le> length (eventQueue w1)"
    by (simp add: Event_dtor_def drop_queue pl_erase_length_le)
  ultimately show "(if ev_disposable (evs w1 temp) then Event_dtor temp w1 else w1, w)
      \<in> measure (\<lambda>w. length (eventQueue w))"
    by simp
qed

declare Simulation_clearLoop.simps [simp del]

definition Simulation_clearEventQueue :: "('e, 'z) sim_scheme \<Rightarrow> ('e, 'z) sim_scheme" where
  "Simulation_clearEventQueue w = (Simulation_clearLoop w)\<lparr>globTime := 0\<rparr>"

text \<open>
  \<open>run\<close>.  The calls that leave the engine are hooks: \<open>Entity::callNewRun\<close>, \<open>Entity::callEndRun\<close> and
  the static methods of \<open>BaseStat\<close>.  As in the code only the exception of an empty queue is caught.
\<close>

record 'w run_hooks =
  hook_callNewRun :: "'w \<Rightarrow> exc + 'w"
  hook_callEndRun :: "'w \<Rightarrow> exc + 'w"
  hook_statInit :: "nat \<Rightarrow> 'w \<Rightarrow> exc + 'w"
  hook_statNewRun :: "'w \<Rightarrow> exc + 'w"
  hook_statEndRun :: "'w \<Rightarrow> exc + 'w"
  hook_statEndSim :: "'w \<Rightarrow> exc + 'w"

definition Simulation_initSingleRun ::
    "('e, 'z) sim_scheme run_hooks \<Rightarrow> ('e, 'z) sim_scheme \<Rightarrow> exc + ('e, 'z) sim_scheme" where
  "Simulation_initSingleRun h w =
     steps [pureE (Simulation_setTime 0), hook_callNewRun h, hook_statNewRun h] w"

definition Simulation_endSingleRun ::
    "('e, 'z) sim_scheme run_hooks \<Rightarrow> ('e, 'z) sim_scheme \<Rightarrow> exc + ('e, 'z) sim_scheme" where
  "Simulation_endSingleRun h w =
     steps [hook_callEndRun h, hook_statEndRun h, pureE Simulation_clearEventQueue] w"

definition run_parameters :: "int \<Rightarrow> bool \<times> bool \<times> nat" where
  "run_parameters nRuns =
    (let (initializeRuns, terminateSim, n) =
       (if nRuns < -1 then (True, False, 1)
        else if nRuns = -1 then (False, False, 1)
        else if nRuns = 0 then (False, True, 1)
        else if nRuns = 1 then (True, True, 1)
        else (True, True, nat nRuns))
     in (initializeRuns, terminateSim, if n = 2 then 3 else n))"

fun Simulation_runs ::
    "('e, 'z) sim_scheme run_hooks \<Rightarrow>
     ('e \<Rightarrow> ('e, 'z) sim_scheme \<Rightarrow> exc + ('e, 'z) sim_scheme) \<Rightarrow> tick \<Rightarrow> nat \<Rightarrow>
     ('e, 'z) sim_scheme \<Rightarrow> (exc + ('e, 'z) sim_scheme) option" where
  "Simulation_runs h doit endTick 0 w = Some (Inr w)"
| "Simulation_runs h doit endTick (Suc left) w =
    (case Simulation_initSingleRun h w of
       Inl e \<Rightarrow> Some (Inl e)
     | Inr w1 \<Rightarrow>
         (case Simulation_main_cycle doit endTick w1 of
            None \<Rightarrow> None
          | Some (Inl e) \<Rightarrow> Some (Inl e)
          | Some (Inr w2) \<Rightarrow>
              (case Simulation_endSingleRun h w2 of
                 Inl e \<Rightarrow> Some (Inl e)
               | Inr w3 \<Rightarrow>
                   Simulation_runs h doit endTick left (w3\<lparr>actRuns := actRuns w3 + 1\<rparr>))))"

definition Simulation_run ::
    "('e, 'z) sim_scheme run_hooks \<Rightarrow>
     ('e \<Rightarrow> ('e, 'z) sim_scheme \<Rightarrow> exc + ('e, 'z) sim_scheme) \<Rightarrow> tick \<Rightarrow> int \<Rightarrow>
     ('e, 'z) sim_scheme \<Rightarrow> (exc + ('e, 'z) sim_scheme) option" where
  "Simulation_run h doit endTick nRuns w =
    (let (initializeRuns, terminateSim, n) = run_parameters nRuns;
         init = (if initializeRuns
                 then steps [hook_statInit h n, pureE Simulation_initRuns] (w\<lparr>numRuns := n\<rparr>)
                 else Inr (w\<lparr>numRuns := n\<rparr>))
     in case init of
          Inl e \<Rightarrow> Some (Inl e)
        | Inr w1 \<Rightarrow>
            map_option (\<lambda>r. bindE r (\<lambda>w2.
                if terminateSim then hook_statEndSim h (w2\<lparr>sim_end := True\<rparr>)
                else Inr (w2\<lparr>sim_end := True\<rparr>)))
              (Simulation_runs h doit endTick n (w1\<lparr>actRuns := 0\<rparr>)))"

end
