(* ===== verification/Engine_Laws.thy ===== *)
theory Engine_Laws
  imports Engine
begin

text \<open>
  What the event engine guarantees: the invariant of the event queue, the exact outcome of posting,
  the order in which events are taken, the monotony of the clock and the end of the cycles.
\<close>

section \<open>The comparison is a strict order on keys\<close>

lemma Event_Cmp_lex:
  "Event_Cmp a b \<longleftrightarrow>
     (ev_time a, ev_priority a, ev_order a) < (ev_time b, ev_priority b, ev_order b)"
  by (auto simp: Event_Cmp_def)

lemma Event_Cmp_irrefl [simp]: "\<not> Event_Cmp a a"
  by (simp add: Event_Cmp_def)

lemma Event_Cmp_trans: "Event_Cmp a b \<Longrightarrow> Event_Cmp b c \<Longrightarrow> Event_Cmp a c"
  unfolding Event_Cmp_lex by (rule less_trans)

lemma Event_Cmp_cotrans: "Event_Cmp a c \<Longrightarrow> Event_Cmp a b \<or> Event_Cmp b c"
  unfolding Event_Cmp_lex by (meson leI le_less_trans)

interpretation evq: strict_weak_order "queue_lt w" for w
proof unfold_locales
  fix x y z :: 'a
  show "\<not> queue_lt w x x" by (simp add: queue_lt_def)
  show "queue_lt w x y \<Longrightarrow> queue_lt w y z \<Longrightarrow> queue_lt w x z"
    unfolding queue_lt_def by (rule Event_Cmp_trans)
  show "queue_lt w x z \<Longrightarrow> queue_lt w x y \<or> queue_lt w y z"
    unfolding queue_lt_def by (rule Event_Cmp_cotrans)
qed

lemma Event_Cmp_time: "Event_Cmp a b \<Longrightarrow> ev_time a \<le> ev_time b"
  by (auto simp: Event_Cmp_lex)

lemma equivalent_order: "equivalent_key (queue_lt w) a b \<Longrightarrow> ev_order (evs w a) = ev_order (evs w b)"
  by (auto simp: equivalent_key_def queue_lt_def Event_Cmp_lex not_less)

lemma queue_lt_evs: "evs w' = evs w \<Longrightarrow> queue_lt w' = queue_lt w"
  by (simp add: queue_lt_def fun_eq_iff)

section \<open>The invariant of the queue\<close>

definition event_ok :: "('e, 'z) sim_scheme \<Rightarrow> 'e \<Rightarrow> bool" where
  "event_ok w e \<longleftrightarrow> ev_isInQueue (evs w e) \<and> globTime w \<le> ev_time (evs w e)
     \<and> ev_order (evs w e) < evCounter w"

definition evq_inv :: "('e, 'z) sim_scheme \<Rightarrow> bool" where
  "evq_inv w \<longleftrightarrow> sorted_wrt (queue_lt w) (eventQueue w) \<and> list_all (event_ok w) (eventQueue w)"

lemma evq_inv_sorted: "evq_inv w \<Longrightarrow> sorted_wrt (queue_lt w) (eventQueue w)"
  by (simp add: evq_inv_def)

lemma evq_inv_event: "evq_inv w \<Longrightarrow> e \<in> set (eventQueue w) \<Longrightarrow> event_ok w e"
  by (auto simp: evq_inv_def list_all_iff)

lemma evq_inv_cong:
  assumes "eventQueue w' = eventQueue w" and "globTime w' = globTime w" and "evCounter w' = evCounter w"
    and "\<And>e. e \<in> set (eventQueue w) \<Longrightarrow> evs w' e = evs w e"
  shows "evq_inv w' \<longleftrightarrow> evq_inv w"
proof -
  have "sorted_wrt (queue_lt w') (eventQueue w) \<longleftrightarrow> sorted_wrt (queue_lt w) (eventQueue w)"
    by (rule sorted_wrt_cong) (simp add: queue_lt_def assms(4))
  moreover have "list_all (event_ok w') (eventQueue w) \<longleftrightarrow> list_all (event_ok w) (eventQueue w)"
    by (rule list.pred_cong) (simp_all add: event_ok_def assms)
  ultimately show ?thesis by (simp add: evq_inv_def assms(1))
qed

lemma upd_event_simps [simp]:
  "evs (upd_event e f w) = (evs w)(e := f (evs w e))"
  "globTime (upd_event e f w) = globTime w"
  "eventQueue (upd_event e f w) = eventQueue w"
  "evCounter (upd_event e f w) = evCounter w"
  by (simp_all add: upd_event_def)

lemma evq_inv_upd_unqueued: "e \<notin> set (eventQueue w) \<Longrightarrow> evq_inv (upd_event e f w) = evq_inv w"
  by (rule evq_inv_cong) auto

lemma not_queued: "evq_inv w \<Longrightarrow> \<not> ev_isInQueue (evs w e) \<Longrightarrow> e \<notin> set (eventQueue w)"
  using evq_inv_event [of w e] by (auto simp: event_ok_def)

section \<open>Dropping an event\<close>

lemma drop_not_in_queue [simp]: "e \<notin> set (eventQueue (Event_drop e w))"
  by (simp add: drop_queue evq.erase_self)

lemma drop_subset: "set (eventQueue (Event_drop e w)) \<subseteq> set (eventQueue w)"
  by (simp add: drop_queue evq.erase_subset)

lemma drop_simps [simp]:
  "globTime (Event_drop e w) = globTime w"
  "evCounter (Event_drop e w) = evCounter w"
  "evs (Event_drop e w) = (evs w)(e := (evs w e)\<lparr>ev_isInQueue := False\<rparr>)"
  by (simp_all add: Event_drop_def upd_event_def)

lemma drop_evq_inv:
  assumes "evq_inv w"
  shows "evq_inv (Event_drop e w)"
proof -
  let ?v = "w\<lparr>eventQueue := pl_erase (queue_lt w) e (eventQueue w)\<rparr>"
  have lt: "queue_lt ?v = queue_lt w"
    by (simp add: queue_lt_def fun_eq_iff)
  have ok: "event_ok ?v = event_ok w"
    by (simp add: event_ok_def fun_eq_iff)
  have "evq_inv ?v"
    using evq_inv_sorted [OF assms] evq_inv_event [OF assms] evq.erase_subset [of w e "eventQueue w"]
    by (auto simp: evq_inv_def lt ok list_all_iff intro: evq.erase_sorted)
  moreover have "e \<notin> set (eventQueue ?v)"
    by (simp add: evq.erase_self)
  ultimately show ?thesis
    by (simp add: Event_drop_def evq_inv_upd_unqueued)
qed

lemma drop_exact:
  assumes "evq_inv w" and "e \<in> set (eventQueue w)"
  shows "eventQueue (Event_drop e w) = remove1 e (eventQueue w)"
  using assms by (simp add: drop_queue evq_inv_sorted evq.erase_removes1)

lemma drop_again:
  assumes "evq_inv w" and "e \<in> set (eventQueue w)"
  shows "eventQueue (Event_drop e (Event_drop e w)) = eventQueue (Event_drop e w)"
proof -
  have "\<not> equivalent_key (queue_lt (Event_drop e w)) e y" if "y \<in> set (eventQueue (Event_drop e w))" for y
  proof -
    have "y \<in> set (eventQueue w)" and "y \<noteq> e"
      using that drop_subset [of e w] drop_not_in_queue [of e w] by (auto simp del: drop_not_in_queue)
    then have "\<not> equivalent_key (queue_lt w) e y"
      using evq.sorted_not_equivalent [OF evq_inv_sorted [OF assms(1)] assms(2)] by blast
    then show ?thesis
      by (auto simp: equivalent_key_def queue_lt_def Event_Cmp_lex)
  qed
  then show ?thesis by (simp add: drop_queue [of e "Event_drop e w"] evq.erase_absent)
qed

section \<open>Posting an event\<close>

lemma post_accepted:
  assumes inv: "evq_inv w" and "\<not> ev_isInQueue (evs w e)" and time: "globTime w \<le> t"
  shows "\<exists>w'. Event_post e t d w = Inr w' \<and> evq_inv w' \<and> set (eventQueue w') = insert e (set (eventQueue w))
     \<and> globTime w' = globTime w \<and> evCounter w' = evCounter w + 1
     \<and> evs w' = (evs w)(e := (evs w e)\<lparr>ev_time := t, ev_order := evCounter w, ev_isInQueue := True,
                               ev_disposable := d\<rparr>)"
proof -
  let ?ev = "(evs w e)\<lparr>ev_time := t, ev_order := evCounter w\<rparr>"
  let ?w2 = "(upd_event e (\<lambda>ev. ev\<lparr>ev_time := t, ev_order := evCounter w\<rparr>) w)\<lparr>evCounter := evCounter w + 1\<rparr>"
  let ?q = "eventQueue w"
  have new: "e \<notin> set ?q" using inv assms(2) by (rule not_queued)
  have lt: "queue_lt ?w2 x y = queue_lt w x y" if "x \<in> set ?q" "y \<in> set ?q" for x y
    using that new by (auto simp: queue_lt_def)
  have sorted: "sorted_wrt (queue_lt ?w2) ?q"
    using evq_inv_sorted [OF inv] sorted_wrt_cong [OF lt, of ?q] by auto
  have fresh: "\<not> equivalent_key (queue_lt ?w2) e y" if "y \<in> set ?q" for y
  proof
    assume "equivalent_key (queue_lt ?w2) e y"
    then have "ev_order (evs ?w2 e) = ev_order (evs ?w2 y)"
      by (rule equivalent_order)
    then have "evCounter w = ev_order (evs w y)"
      using that new by (auto split: if_splits)
    then show False
      using evq_inv_event [OF inv that] by (simp add: event_ok_def)
  qed
  then have ins: "snd (pl_insert (queue_lt ?w2) e ?q)"
    using sorted by (simp add: evq.insert_accepts)
  let ?q' = "fst (pl_insert (queue_lt ?w2) e ?q)"
  let ?w' = "upd_event e (\<lambda>ev. ev\<lparr>ev_isInQueue := True, ev_disposable := d\<rparr>) (?w2\<lparr>eventQueue := ?q'\<rparr>)"
  have set': "set ?q' = insert e (set ?q)"
    using ins by (rule evq.insert_set_new)
  have "upd_event e (\<lambda>ev. ev\<lparr>ev_order := evCounter w\<rparr>) (upd_event e (\<lambda>ev. ev\<lparr>ev_time := t\<rparr>) w)
      = upd_event e (\<lambda>ev. ev\<lparr>ev_time := t, ev_order := evCounter w\<rparr>) w"
    by (simp add: upd_event_def)
  then have post: "Event_post e t d w = Inr ?w'"
    using assms(2) time ins by (simp add: Event_post_def Event_setTime_def Let_def case_prod_beta)
  have lt': "queue_lt ?w' = queue_lt ?w2"
    by (auto simp: queue_lt_def fun_eq_iff Event_Cmp_def)
  have "sorted_wrt (queue_lt ?w') (eventQueue ?w')"
    unfolding lt' using sorted by (simp add: evq.insert_sorted)
  moreover have "event_ok ?w' x" if "x \<in> set (eventQueue ?w')" for x
  proof (cases "x = e")
    case True
    then show ?thesis using time by (simp add: event_ok_def)
  next
    case False
    then have "event_ok w x" using that set' evq_inv_event [OF inv] by auto
    with False show ?thesis by (auto simp: event_ok_def)
  qed
  ultimately have "evq_inv ?w'"
    by (simp add: evq_inv_def list_all_iff)
  then show ?thesis
    using post set' by (auto simp: fun_eq_iff)
qed

lemma post_result:
  assumes "evq_inv w"
  shows "Event_post e t d w = Inl x \<longleftrightarrow>
     (if ev_isInQueue (evs w e) then x = EventAlreadyPosted
      else t < globTime w \<and> x = EventPostedInPast)"
proof (cases "ev_isInQueue (evs w e) \<or> t < globTime w")
  case True
  then show ?thesis by (auto simp: Event_post_def)
next
  case False
  then obtain w' where "Event_post e t d w = Inr w'"
    using post_accepted [OF assms, of e t d] by auto
  with False show ?thesis by simp
qed

lemma post_Inr:
  assumes "Event_post e t d w = Inr w'"
  shows "\<not> ev_isInQueue (evs w e)" and "globTime w \<le> t"
  using assms by (auto simp: Event_post_def split: if_splits)

lemma post_evq_inv: "evq_inv w \<Longrightarrow> Event_post e t d w = Inr w' \<Longrightarrow> evq_inv w'"
  using post_accepted [of w e t d] post_Inr [of e t d w w'] by auto

lemma post_preserves [pres]: "preserves evq_inv (Event_post e t d)"
  by (rule preservesI) (rule post_evq_inv)

lemma post_globTime: "evq_inv w \<Longrightarrow> Event_post e t d w = Inr w' \<Longrightarrow> globTime w' = globTime w"
  using post_accepted [of w e t d] post_Inr [of e t d w w'] by auto

section \<open>The state at a given time\<close>

text \<open>The property every handler keeps: the queue is well formed and the clock stands still.\<close>

definition at_time :: "tick \<Rightarrow> ('e, 'z) sim_scheme \<Rightarrow> bool" where
  "at_time t w \<longleftrightarrow> evq_inv w \<and> globTime w = t"

lemma at_time_cong:
  assumes "eventQueue w' = eventQueue w" and "globTime w' = globTime w" and "evCounter w' = evCounter w"
    and "evs w' = evs w"
  shows "at_time t w' \<longleftrightarrow> at_time t w"
  using evq_inv_cong [of w' w] assms by (simp add: at_time_def)

lemma post_at_time [pres]: "preserves (at_time T) (Event_post e t d)"
  by (rule preservesI) (auto simp: at_time_def post_evq_inv post_globTime)

lemma drop_at_time: "at_time T w \<Longrightarrow> at_time T (Event_drop e w)"
  by (simp add: at_time_def drop_evq_inv)

lemma upd_unqueued_at_time:
  "e \<notin> set (eventQueue w) \<Longrightarrow> at_time T (upd_event e f w) = at_time T w"
  by (simp add: at_time_def evq_inv_upd_unqueued)

lemma process_at_time [pres]: "preserves (at_time T) (Event_process e d)"
proof (rule preservesI)
  fix w w' :: "('a, 'b) sim_scheme"
  let ?v = "Event_setPriority e IMMEDIATE_PRIORITY (Event_drop e w)"
  assume "at_time T w" and "Event_process e d w = Inr w'"
  moreover from \<open>at_time T w\<close> have "at_time T ?v"
    by (simp add: Event_setPriority_def upd_unqueued_at_time drop_at_time)
  ultimately show "at_time T w'"
    by (auto simp: Event_process_def Let_def intro: preservesD [OF post_at_time])
qed

section \<open>Handlers\<close>

lemma setTime_same: "globTime w = t \<Longrightarrow> Simulation_setTime t w = w"
  by (auto simp: Simulation_setTime_def)

lemma first_in_queue: "Event_getFirst w = Some e \<Longrightarrow> e \<in> set (eventQueue w)"
  by (auto simp: Event_getFirst_def pl_front_def split: list.splits)

lemma first_least:
  assumes "evq_inv w" and "Event_getFirst w = Some e" and "x \<in> set (eventQueue w)"
  shows "x = e \<or> Event_Cmp (evs w e) (evs w x)"
  using evq.front_least [OF evq_inv_sorted [OF assms(1)]] assms(2,3)
  by (auto simp: Event_getFirst_def queue_lt_def)

lemma popped_at_time:
  assumes "evq_inv w" and "Event_getFirst w = Some e"
  shows "at_time (ev_time (evs w e)) (Simulation_setTime (ev_time (evs w e)) (Event_drop e w))"
proof -
  let ?t = "ev_time (evs w e)" and ?v = "Event_drop e w"
  have v: "evq_inv ?v" by (rule drop_evq_inv) (rule assms(1))
  have "event_ok (Simulation_setTime ?t ?v) x" if "x \<in> set (eventQueue ?v)" for x
  proof -
    from that drop_subset [of e w] drop_not_in_queue [of e w]
    have "x \<in> set (eventQueue w)" and "x \<noteq> e" by auto
    with first_least [OF assms] have "?t \<le> ev_time (evs ?v x)" by (auto dest: Event_Cmp_time)
    with evq_inv_event [OF v that] show ?thesis by (simp add: event_ok_def Simulation_setTime_def)
  qed
  moreover have "sorted_wrt (queue_lt (Simulation_setTime ?t ?v)) (eventQueue ?v)"
    using evq_inv_sorted [OF v] queue_lt_evs [of "Simulation_setTime ?t ?v" ?v]
    by (simp add: Simulation_setTime_def)
  ultimately show ?thesis
    by (simp add: at_time_def evq_inv_def list_all_iff Simulation_setTime_def)
qed

locale event_handler =
  fixes doit :: "'e \<Rightarrow> ('e, 'z) sim_scheme \<Rightarrow> exc + ('e, 'z) sim_scheme"
  assumes keeps: "preserves (at_time T) (doit e)"
begin

lemma action_keeps:
  assumes "at_time T w" and "e \<notin> set (eventQueue w)" and "Event_action doit e w = Inr w'"
  shows "at_time T w'"
proof (rule preservesD [OF keeps])
  show "doit e (Event_restorePriority e (upd_event e (\<lambda>ev. ev\<lparr>ev_lastTime := ev_time ev\<rparr>) w)) = Inr w'"
    using assms(3) by (simp add: Event_action_def)
  show "at_time T (Event_restorePriority e (upd_event e (\<lambda>ev. ev\<lparr>ev_lastTime := ev_time ev\<rparr>) w))"
    using assms(1,2) by (simp add: Event_restorePriority_def upd_unqueued_at_time)
qed

lemma sim_step_first:
  assumes "Simulation_sim_step doit w = Inr (t, w')"
  obtains e w2 where "Event_getFirst w = Some e" and "t = ev_time (evs w e)"
    and "Event_action doit e (Simulation_setTime t (Event_drop e w)) = Inr w2"
    and "w' = (if ev_disposable (evs w2 e) then Event_dtor e w2 else w2)"
  using assms
  by (auto simp: Simulation_sim_step_def Let_def Event_getTime_def split: option.splits sum.splits)

lemma sim_step_at_time:
  assumes "evq_inv w" and "Simulation_sim_step doit w = Inr (t, w')"
  shows "at_time t w'" and "globTime w \<le> t"
proof -
  obtain e w2 where first: "Event_getFirst w = Some e" and t: "t = ev_time (evs w e)"
    and act: "Event_action doit e (Simulation_setTime t (Event_drop e w)) = Inr w2"
    and w': "w' = (if ev_disposable (evs w2 e) then Event_dtor e w2 else w2)"
    using assms(2) by (rule sim_step_first)
  have "at_time t w2"
  proof (rule action_keeps [OF _ _ act])
    show "at_time t (Simulation_setTime t (Event_drop e w))"
      unfolding t by (rule popped_at_time [OF assms(1) first])
    show "e \<notin> set (eventQueue (Simulation_setTime t (Event_drop e w)))"
      by (simp add: Simulation_setTime_def)
  qed
  then show "at_time t w'"
    by (simp add: w' Event_dtor_def drop_at_time)
  show "globTime w \<le> t"
    using evq_inv_event [OF assms(1) first_in_queue [OF first]] by (simp add: t event_ok_def)
qed

lemma sim_step_evq_inv:
  assumes "evq_inv w" and "Simulation_sim_step doit w = Inr (t, w')"
  shows "evq_inv (Simulation_setTime t w')" and "globTime (Simulation_setTime t w') = t"
  using sim_step_at_time [OF assms] setTime_same [of w' t] by (simp_all add: at_time_def)

lemma sim_step_empty: "Simulation_sim_step doit w = Inl NoMoreEventsInQueue \<longleftrightarrow> Event_getFirst w = None"
  by (auto simp: Simulation_sim_step_def Let_def split: option.splits sum.splits)

lemma main_cycle_result:
  assumes "Simulation_main_cycle doit endTick w = Some (Inr w')" and "evq_inv w"
  shows "evq_inv w' \<and> globTime w \<le> globTime w' \<and> (globTime w' < endTick \<longrightarrow> Event_getFirst w' = None)"
proof -
  have "Simulation_main_cycle doit' endTick w = Some r \<Longrightarrow> doit' = doit \<Longrightarrow> evq_inv w \<Longrightarrow> r = Inr w' \<Longrightarrow>
    evq_inv w' \<and> globTime w \<le> globTime w' \<and> (globTime w' < endTick \<longrightarrow> Event_getFirst w' = None)" for doit' r
  proof (induction doit' endTick w r rule: Simulation_main_cycle.raw_induct [rotated, consumes 1, case_names step])
    case (step cycle doit' endTick w r)
    show ?case
    proof (cases "globTime w < endTick")
      case False
      with step show ?thesis by auto
    next
      case True
      show ?thesis
      proof (cases "Simulation_sim_step doit w")
        case (Inl x)
        with True step.hyps step.prems show ?thesis
          by (cases x) (auto simp: sim_step_empty)
      next
        case (Inr p)
        then obtain t v where p: "Simulation_sim_step doit w = Inr (t, v)" by (cases p) auto
        with True step.hyps step.prems have "cycle doit endTick (Simulation_setTime t v) = Some r" by auto
        from step.IH [OF this] step.prems sim_step_evq_inv [OF _ p] sim_step_at_time(2) [OF _ p]
        show ?thesis by auto
      qed
    qed
  qed
  with assms show ?thesis by blast
qed

lemma run_to_cycle_result:
  assumes "Simulation_run_to_cycle doit stop w = Some (Inr w')" and "evq_inv w"
  shows "evq_inv w' \<and> globTime w \<le> globTime w' \<and> globTime w' \<le> max stop (globTime w)
    \<and> (\<forall>e\<in>set (eventQueue w'). stop < ev_time (evs w' e))"
proof -
  have "Simulation_run_to_cycle doit' stop w = Some r \<Longrightarrow> doit' = doit \<Longrightarrow> evq_inv w \<Longrightarrow> r = Inr w' \<Longrightarrow>
    evq_inv w' \<and> globTime w \<le> globTime w' \<and> globTime w' \<le> max stop (globTime w)
    \<and> (\<forall>e\<in>set (eventQueue w'). stop < ev_time (evs w' e))" for doit' r
  proof (induction doit' stop w r rule: Simulation_run_to_cycle.raw_induct [rotated, consumes 1, case_names step])
    case (step cycle doit' stop w r)
    show ?case
    proof (cases "Event_getFirst w")
      case None
      then have "eventQueue w = []"
        by (cases "eventQueue w") (auto simp: Event_getFirst_def pl_front_def)
      with None step show ?thesis by (auto simp: Simulation_getNextEventTime_def)
    next
      case (Some e)
      have "\<forall>x\<in>set (eventQueue w). ev_time (evs w e) \<le> ev_time (evs w x)"
        using first_least [OF step.prems(2) Some] by (auto dest: Event_Cmp_time)
      moreover obtain t v where "ev_time (evs w e) \<le> stop \<Longrightarrow> Simulation_sim_step doit w = Inr (t, v)
          \<and> cycle doit stop (Simulation_setTime t v) = Some r"
        using step.hyps step.prems Some
        by (auto simp: Simulation_getNextEventTime_def Event_getTime_def sim_step_empty
            split: sum.splits sim_exc.splits if_splits)
      moreover have "t \<le> stop" if "ev_time (evs w e) \<le> stop" "Simulation_sim_step doit w = Inr (t, v)"
        using that sim_step_first [OF that(2)] Some by auto
      ultimately show ?thesis
        using step.IH [of doit stop "Simulation_setTime t v" r] step.prems step.hyps Some
          sim_step_evq_inv [of w t v] sim_step_at_time(2) [of w t v]
        by (auto simp: Simulation_getNextEventTime_def Event_getTime_def split: if_splits)
    qed
  qed
  with assms show ?thesis by blast
qed

end

section \<open>Processing an event at once\<close>

lemma process_accepted:
  assumes "evq_inv w"
  shows "\<exists>w'. Event_process e d w = Inr w' \<and> evq_inv w'
     \<and> set (eventQueue w') = insert e (set (eventQueue (Event_drop e w)))
     \<and> globTime w' = globTime w
     \<and> evs w' = (evs w)(e := (evs w e)\<lparr>ev_time := globTime w, ev_order := evCounter w,
                              ev_priority := 0, ev_isInQueue := True, ev_disposable := d\<rparr>)"
proof -
  let ?v = "Event_setPriority e IMMEDIATE_PRIORITY (Event_drop e w)"
  have "evq_inv ?v"
    using assms by (simp add: Event_setPriority_def evq_inv_upd_unqueued drop_evq_inv)
  then obtain w' where "Event_post e (globTime ?v) d ?v = Inr w'" and "evq_inv w'"
    and "set (eventQueue w') = insert e (set (eventQueue ?v))" and "globTime w' = globTime ?v"
    and "evs w' = (evs ?v)(e := (evs ?v e)\<lparr>ev_time := globTime ?v, ev_order := evCounter ?v,
                              ev_isInQueue := True, ev_disposable := d\<rparr>)"
    using post_accepted [of ?v e "globTime ?v" d] by (auto simp: Event_setPriority_def)
  then show ?thesis
    by (auto simp: Event_process_def Event_setPriority_def IMMEDIATE_PRIORITY_def Let_def fun_eq_iff)
qed

lemma getFirst_unique_least:
  assumes "evq_inv w" and "e \<in> set (eventQueue w)"
    and "\<And>x. x \<in> set (eventQueue w) \<Longrightarrow> x \<noteq> e \<Longrightarrow> Event_Cmp (evs w e) (evs w x)"
  shows "Event_getFirst w = Some e"
proof -
  obtain f where f: "Event_getFirst w = Some f"
    using assms(2) by (cases "eventQueue w") (auto simp: Event_getFirst_def pl_front_def)
  show ?thesis
  proof (cases "f = e")
    case False
    with assms(3) first_in_queue [OF f] have "Event_Cmp (evs w e) (evs w f)" by blast
    moreover have "Event_Cmp (evs w f) (evs w e)"
      using first_least [OF assms(1) f assms(2)] False by simp
    ultimately show ?thesis using Event_Cmp_trans Event_Cmp_irrefl by blast
  qed (simp add: f)
qed

section \<open>The end of the cycles\<close>

definition due_now :: "('e, 'z) sim_scheme \<Rightarrow> 'e set" where
  "due_now w = {e \<in> set (eventQueue w). ev_time (evs w e) = globTime w}"

lemma due_now_popped:
  assumes "Event_getFirst w = Some e"
  shows "due_now (Event_restorePriority e (upd_event e (\<lambda>ev. ev\<lparr>ev_lastTime := ev_time ev\<rparr>)
            (Simulation_setTime t (Event_drop e w))))
    \<subseteq> {x \<in> set (eventQueue w). x \<noteq> e \<and> ev_time (evs w x) = t}"
  using drop_subset [of e w] drop_not_in_queue [of e w]
  by (auto simp: due_now_def Event_restorePriority_def Simulation_setTime_def simp del: drop_not_in_queue)

lemma due_now_dtor: "due_now (Event_dtor e w) \<subseteq> due_now w"
  using drop_subset [of e w] drop_not_in_queue [of e w]
  by (auto simp: due_now_def Event_dtor_def simp del: drop_not_in_queue)

lemma sim_step_due_now:
  assumes "event_handler doit" and "\<And>e w w'. doit e w = Inr w' \<Longrightarrow> due_now w' \<subseteq> due_now w"
    and "Simulation_sim_step doit w = Inr (t, w')" and "globTime w = t"
  shows "card (due_now w') < card (due_now w)"
proof -
  obtain e w2 where first: "Event_getFirst w = Some e" and t: "t = ev_time (evs w e)"
    and act: "Event_action doit e (Simulation_setTime t (Event_drop e w)) = Inr w2"
    and w': "w' = (if ev_disposable (evs w2 e) then Event_dtor e w2 else w2)"
    using event_handler.sim_step_first [OF assms(1,3)] .
  have "due_now w2 \<subseteq> {x \<in> set (eventQueue w). x \<noteq> e \<and> ev_time (evs w x) = t}"
    using assms(2) [OF act [unfolded Event_action_def]] due_now_popped [OF first] by blast
  moreover have "due_now w' \<subseteq> due_now w2"
    using due_now_dtor [of e w2] by (simp add: w')
  ultimately have "due_now w' \<subseteq> due_now w - {e}"
    using assms(4) by (auto simp: due_now_def)
  moreover have "e \<in> due_now w"
    using first_in_queue [OF first] assms(4) t by (simp add: due_now_def)
  ultimately have "due_now w' \<subset> due_now w" by blast
  then show ?thesis
    by (rule psubset_card_mono [rotated]) (simp add: due_now_def)
qed

lemma main_cycle_ends:
  assumes "event_handler doit"
    and later: "\<And>e w w'. doit e w = Inr w' \<Longrightarrow> due_now w' \<subseteq> due_now w"
  shows "evq_inv w \<Longrightarrow> \<exists>r. Simulation_main_cycle doit endTick w = Some r"
proof (induction "(nat (endTick - globTime w), card (due_now w))" arbitrary: w rule: less_induct)
  case less
  note cycle = Simulation_main_cycle.simps [of doit endTick w]
  show ?case
  proof (cases "globTime w < endTick")
    case False
    then show ?thesis using cycle by simp
  next
    case True
    show ?thesis
    proof (cases "Simulation_sim_step doit w")
      case (Inl x)
      then show ?thesis using cycle by (cases x) auto
    next
      case (Inr p)
      then obtain t v where p: "Simulation_sim_step doit w = Inr (t, v)" by (cases p) auto
      note step = event_handler.sim_step_at_time [OF assms(1) less.prems p]
      have same: "Simulation_setTime t v = v"
        using step(1) by (simp add: at_time_def setTime_same)
      have "(nat (endTick - globTime v), card (due_now v)) < (nat (endTick - globTime w), card (due_now w))"
        using step True sim_step_due_now [OF assms(1) later p]
        by (cases "globTime w = t") (auto simp: at_time_def)
      then obtain r where "Simulation_main_cycle doit endTick v = Some r"
        using less.hyps step(1) by (auto simp: at_time_def)
      then show ?thesis using cycle p same by auto
    qed
  qed
qed

section \<open>Clearing the queue\<close>

lemma clearLoop_empty: "eventQueue (Simulation_clearLoop w) = []"
proof (induction w rule: Simulation_clearLoop.induct)
  case (1 w)
  show ?case
  proof (cases "Event_getFirst w")
    case None
    then show ?thesis
      by (cases "eventQueue w") (auto simp: Simulation_clearLoop.simps [of w] Event_getFirst_def pl_front_def)
  next
    case (Some e)
    then show ?thesis using 1 [OF Some refl] by (simp add: Simulation_clearLoop.simps [of w] Let_def)
  qed
qed

lemma clearLoop_flag: "ev_isInQueue (evs (Simulation_clearLoop w) e) \<Longrightarrow> ev_isInQueue (evs w e)"
proof (induction w rule: Simulation_clearLoop.induct)
  case (1 w)
  show ?case
  proof (cases "Event_getFirst w")
    case None
    then show ?thesis using 1 by (simp add: Simulation_clearLoop.simps [of w])
  next
    case (Some x)
    then show ?thesis using 1(1) [OF Some refl] 1(2)
      by (auto simp: Simulation_clearLoop.simps [of w] Let_def Event_dtor_def split: if_splits)
  qed
qed

lemma clearLoop_unflagged:
  "evq_inv w \<Longrightarrow> e \<in> set (eventQueue w) \<Longrightarrow> \<not> ev_isInQueue (evs (Simulation_clearLoop w) e)"
proof (induction w rule: Simulation_clearLoop.induct)
  case (1 w)
  obtain x where x: "Event_getFirst w = Some x"
    using 1(3) by (cases "eventQueue w") (auto simp: Event_getFirst_def pl_front_def)
  let ?v = "Event_drop x w"
  let ?u = "if ev_disposable (evs ?v x) then Event_dtor x ?v else ?v"
  have loop: "Simulation_clearLoop w = Simulation_clearLoop ?u"
    using x by (simp add: Simulation_clearLoop.simps [of w] Let_def)
  have u: "evq_inv ?u"
    using 1(2) by (simp add: Event_dtor_def drop_evq_inv)
  show ?case
  proof (cases "e \<in> set (eventQueue ?u)")
    case True
    with 1(1) [OF x refl u] show ?thesis by (simp add: loop)
  next
    case False
    have "x \<notin> set (eventQueue ?v)" by (rule drop_not_in_queue)
    have "eventQueue ?v = remove1 x (eventQueue w)"
      using drop_exact [OF 1(2) first_in_queue [OF x]] .
    moreover have "eventQueue (Event_drop x ?v) = eventQueue ?v"
      by (rule drop_again) (use 1(2) x first_in_queue in auto)
    ultimately have "e = x"
      using False 1(3) by (cases "e = x") (auto simp: Event_dtor_def in_set_remove1 split: if_splits)
    then have "\<not> ev_isInQueue (evs ?u e)" by (simp add: Event_dtor_def)
    then show ?thesis using clearLoop_flag loop by metis
  qed
qed

section \<open>A small concrete engine\<close>

text \<open>
  The handler of \<open>MsgEvt\<close> (\<open>simul.cpp\<close>), which only prints, and a queue with two events on it; the
  witnesses below run on it.
\<close>

definition MsgEvt_doit :: "nat \<Rightarrow> (nat, unit) sim_scheme \<Rightarrow> exc + (nat, unit) sim_scheme" where
  "MsgEvt_doit e w = Inr w"

definition engine_example :: "nat sim" where
  "engine_example = \<lparr>globTime = 3,
     evs = (\<lambda>e. if e = 0 then (Event_ctor 8)\<lparr>ev_isInQueue := True, ev_time := 5, ev_order := 0\<rparr>
                else if e = 1 then (Event_ctor 8)\<lparr>ev_isInQueue := True, ev_time := 5, ev_order := 1\<rparr>
                else Event_ctor 8),
     eventQueue = [0, 1], evCounter = 2, numRuns = 1, actRuns = 0, sim_end = False\<rparr>"

lemma engine_example_inv: "evq_inv engine_example"
  by (simp add: engine_example_def evq_inv_def queue_lt_def Event_Cmp_def event_ok_def Event_ctor_def)

interpretation msg: event_handler MsgEvt_doit
  by unfold_locales (auto simp: MsgEvt_doit_def intro: preservesI)

section \<open>Properties\<close>

text \<open>
  C22. Posting an event fails exactly when the event is already posted or its time lies before the
  current time (the third exception of \<open>post\<close>, for an equivalent key, cannot occur); otherwise the
  event, and only it, is added to the queue with a fresh order number, and the queue stays well
  formed.
\<close>

theorem post_outcome:
  assumes "evq_inv w"
  shows "case Event_post e t d w of
      Inl EventAlreadyPosted \<Rightarrow> ev_isInQueue (evs w e)
    | Inl EventPostedInPast \<Rightarrow> \<not> ev_isInQueue (evs w e) \<and> t < globTime w
    | Inl _ \<Rightarrow> False
    | Inr w' \<Rightarrow> \<not> ev_isInQueue (evs w e) \<and> globTime w \<le> t \<and> evq_inv w' \<and> globTime w' = globTime w
        \<and> set (eventQueue w') = insert e (set (eventQueue w))
        \<and> evs w' = (evs w)(e := (evs w e)\<lparr>ev_time := t, ev_order := evCounter w,
                                  ev_isInQueue := True, ev_disposable := d\<rparr>)"
proof (cases "ev_isInQueue (evs w e) \<or> t < globTime w")
  case True
  then show ?thesis by (auto simp: Event_post_def)
next
  case False
  then show ?thesis using post_accepted [OF assms, of e t d] by auto
qed

theorem post_outcome_witness:
  "(case Event_post 2 5 False engine_example of Inr w' \<Rightarrow> eventQueue w' = [0, 1, 2] | _ \<Rightarrow> False) \<and>
   (case Event_post 2 4 False engine_example of Inr w' \<Rightarrow> set (eventQueue w') = {2, 0, 1} | _ \<Rightarrow> False)"
  using post_outcome [OF engine_example_inv, of 2 4 False]
  by (simp add: engine_example_def Event_post_def Event_setTime_def upd_event_def queue_lt_def
      Event_Cmp_def Event_ctor_def Let_def)

text \<open>
  The event that a step must take, by the order of \<open>Event::Cmp\<close>, and the state its handler finds: the
  clock at the time of the event and the event out of the queue, with its standard priority back.
\<close>

definition first_event :: "('e, 'z) sim_scheme \<Rightarrow> 'e \<Rightarrow> bool" where
  "first_event w e \<longleftrightarrow> e \<in> set (eventQueue w) \<and> (\<forall>x\<in>set (eventQueue w) - {e}.
     (ev_time (evs w e), ev_priority (evs w e), ev_order (evs w e))
       < (ev_time (evs w x), ev_priority (evs w x), ev_order (evs w x)))"

definition handler_finds :: "'e \<Rightarrow> ('e, 'z) sim_scheme \<Rightarrow> ('e, 'z) sim_scheme" where
  "handler_finds e w = w\<lparr>globTime := ev_time (evs w e), eventQueue := remove1 e (eventQueue w),
     evs := (evs w)(e := (evs w e)\<lparr>ev_isInQueue := False, ev_lastTime := ev_time (evs w e),
                              ev_priority := ev_std_priority (evs w e)\<rparr>)\<rparr>"

lemma getFirst_first_event: "evq_inv w \<Longrightarrow> Event_getFirst w = Some e \<Longrightarrow> first_event w e"
  using first_least [of w e] by (auto simp: first_event_def Event_Cmp_lex first_in_queue)

lemma action_handler_finds:
  assumes "evq_inv w" and "e \<in> set (eventQueue w)"
  shows "Event_action doit e (Simulation_setTime (ev_time (evs w e)) (Event_drop e w)) = doit e (handler_finds e w)"
proof -
  have "Event_drop e w = w\<lparr>eventQueue := remove1 e (eventQueue w), evs := (evs w)(e := (evs w e)\<lparr>ev_isInQueue := False\<rparr>)\<rparr>"
    using drop_exact [OF assms] by (simp add: Event_drop_def upd_event_def)
  then show ?thesis
    by (cases w) (simp add: Event_action_def Simulation_setTime_def upd_event_def Event_restorePriority_def handler_finds_def)
qed



text \<open>
  \<open>process\<close> makes an event the next one to be executed: it succeeds from every well formed
  state, and unless another immediate event is already due the event is the first of the queue, at
  the current time and with the immediate priority.
\<close>

theorem process_is_next:
  assumes "evq_inv w"
    and "\<forall>x\<in>set (eventQueue w). x = e \<or> ev_time (evs w x) = globTime w \<longrightarrow> 0 < ev_priority (evs w x)"
  shows "\<exists>w'. Event_process e d w = Inr w' \<and> evq_inv w' \<and> Event_getFirst w' = Some e
    \<and> ev_time (evs w' e) = globTime w \<and> ev_priority (evs w' e) = IMMEDIATE_PRIORITY"
proof -
  obtain w' where w': "Event_process e d w = Inr w'" and inv: "evq_inv w'"
    and q: "set (eventQueue w') = insert e (set (eventQueue (Event_drop e w)))"
    and "evs w' = (evs w)(e := (evs w e)\<lparr>ev_time := globTime w, ev_order := evCounter w,
                              ev_priority := 0, ev_isInQueue := True, ev_disposable := d\<rparr>)"
    using process_accepted [OF assms(1), of e d] by auto
  note evs' = this(4)
  have "Event_Cmp (evs w' e) (evs w' x)" if "x \<in> set (eventQueue w')" and "x \<noteq> e" for x
  proof -
    have x: "x \<in> set (eventQueue w)" using that q drop_subset [of e w] by auto
    with evq_inv_event [OF assms(1) x] have "globTime w \<le> ev_time (evs w x)"
      by (simp add: event_ok_def)
    with assms(2) x that(2) show ?thesis
      by (auto simp: Event_Cmp_lex evs')
  qed
  then have "Event_getFirst w' = Some e"
    using getFirst_unique_least [OF inv] q by blast
  with w' inv evs' show ?thesis by (auto simp: IMMEDIATE_PRIORITY_def)
qed

lemma process_is_next_witness:
  "\<exists>w'. Event_process 1 False engine_example = Inr w' \<and> Event_getFirst w' = Some 1"
  using process_is_next [OF engine_example_inv, of 1 False]
  by (auto simp: engine_example_def Event_ctor_def)

text \<open>
  C20. When the main cycle of \<open>run\<close> returns, either the clock has reached \<open>endTick\<close> or the event queue
  is empty, and it does return when no handler posts an event at the current time.
\<close>

theorem main_cycle_correct:
  assumes "event_handler doit" and "evq_inv w"
    and "\<And>e v v'. doit e v = Inr v' \<Longrightarrow> due_now v' \<subseteq> due_now v"
  shows "\<exists>r. Simulation_main_cycle doit endTick w = Some r \<and>
    (\<forall>w'. r = Inr w' \<longrightarrow> evq_inv w' \<and> globTime w \<le> globTime w' \<and>
       (endTick \<le> globTime w' \<or> eventQueue w' = []))"
proof -
  have "\<exists>r. Simulation_main_cycle doit endTick w = Some r"
    by (rule main_cycle_ends [OF assms(1) _ assms(2)]) (rule assms(3))
  then obtain r where r: "Simulation_main_cycle doit endTick w = Some r" ..
  have "eventQueue v = []" if "Event_getFirst v = None" for v :: "('a, 'b) sim_scheme"
    using that by (cases "eventQueue v") (auto simp: Event_getFirst_def pl_front_def)
  with event_handler.main_cycle_result [OF assms(1) _ assms(2)] r show ?thesis
    by (metis linorder_not_less)
qed

theorem main_cycle_correct_witness:
  "\<exists>r. Simulation_main_cycle MsgEvt_doit 10 engine_example = Some r \<and>
    (\<forall>w'. r = Inr w' \<longrightarrow> evq_inv w' \<and> 3 \<le> globTime w' \<and> (10 \<le> globTime w' \<or> eventQueue w' = []))"
  using main_cycle_correct [OF msg.event_handler_axioms engine_example_inv, of 10]
  by (simp add: MsgEvt_doit_def engine_example_def)

text \<open>
  When \<open>run_to stop\<close> ends, every event still in the queue lies after \<open>stop\<close> and the clock is not
  beyond \<open>stop\<close>: it executed all the events up to \<open>stop\<close> and none after it.
\<close>

theorem run_to_correct:
  assumes "event_handler doit" and "evq_inv w" and "globTime w \<le> stop"
    and "Simulation_run_to_cycle doit stop w = Some (Inr w')"
  shows "evq_inv w' \<and> globTime w \<le> globTime w' \<and> globTime w' \<le> stop \<and>
    (\<forall>e\<in>set (eventQueue w'). stop < ev_time (evs w' e))"
  using event_handler.run_to_cycle_result [OF assms(1,4,2)] assms(3) by auto

lemma run_to_correct_witness:
  "\<exists>w'. Simulation_run_to_cycle MsgEvt_doit 4 engine_example = Some (Inr w') \<and>
    (\<forall>e\<in>set (eventQueue w'). 4 < ev_time (evs w' e))"
proof -
  have run: "Simulation_run_to_cycle MsgEvt_doit 4 engine_example = Some (Inr engine_example)"
    by (subst Simulation_run_to_cycle.simps)
      (simp add: Simulation_getNextEventTime_def Event_getFirst_def pl_front_def Event_getTime_def
        engine_example_def Event_ctor_def)
  have "globTime engine_example \<le> 4" by (simp add: engine_example_def)
  from run_to_correct [OF msg.event_handler_axioms engine_example_inv this run] run show ?thesis
    by blast
qed

text \<open>
  \<open>clearEventQueue\<close> ends, leaves the queue empty and the clock at zero, and no event that was in
  the queue is still marked as posted, so each can be posted again in the next run.
\<close>

theorem clearEventQueue_clears:
  assumes "evq_inv w"
  shows "eventQueue (Simulation_clearEventQueue w) = [] \<and> globTime (Simulation_clearEventQueue w) = 0
    \<and> (\<forall>e\<in>set (eventQueue w). \<not> ev_isInQueue (evs (Simulation_clearEventQueue w) e))"
  using clearLoop_empty [of w] clearLoop_unflagged [OF assms]
  by (simp add: Simulation_clearEventQueue_def)

lemma clearEventQueue_clears_witness:
  "\<not> ev_isInQueue (evs (Simulation_clearEventQueue engine_example) 1)"
  using clearEventQueue_clears [OF engine_example_inv] by (simp add: engine_example_def)

end
