(* ===== verification/World.thy ===== *)
theory World
  imports Engine_Laws
begin

text \<open>
  The state of a simulation of \<open>librtsim\<close>: the objects the classes of \<open>include/rtsim\<close> describe, named
  by numbers, added to the state of the engine.  \<open>_rtTask\<close>, \<open>_kernel\<close> and the other pointers are
  references (\<open>absTask\<close>, \<open>rtkref\<close>, \<open>kernref\<close>), null pointers are \<open>None\<close>.  An \<open>RTKernel\<close> and an
  \<open>MRTKernel\<close> are told apart by their reference, which is how virtual calls are resolved.  A server
  stands on a root kernel: hierarchies have the two levels that \<open>system_descriptor.cpp\<close> builds.
\<close>

datatype absTask = TaskRef nat | ServerRef nat
datatype rtkref = RTK nat | MRTK nat
datatype kernref = KRoot rtkref | KServer nat

section \<open>Event objects\<close>

text \<open>One constructor per event member; the numbers are those of the objects that own it.\<close>

datatype evt =
    ArrEvt nat | EndEvt nat | KillEvt nat | SchedEvt nat | DeschedEvt nat | FakeArrEvt nat | DeadEvt nat
  | EndInstrEvt nat nat | SuspEvt nat nat | ResumeEvt nat nat
  | BeginDispatchEvt nat | EndDispatchEvt nat
  | BeginDispatchMultiEvt nat nat | EndDispatchMultiEvt nat nat
  | RREvt nat
  | BandExEvt nat | DlineMissEvt nat | RechargingEvt nat
  | SrvSchedEvt nat | SrvDeschedEvt nat | SrvDispatchEvt nat
  | ReplEvt nat | IdleEvt nat

text \<open>The priority each constructor passes to \<open>Event::Event\<close>.\<close>

fun evt_priority :: "evt \<Rightarrow> int" where
  "evt_priority (EndEvt t) = DEFAULT_PRIORITY - 2"
| "evt_priority (KillEvt t) = DEFAULT_PRIORITY - 2"
| "evt_priority (DeadEvt t) = DEFAULT_PRIORITY - 2 + 3"
| "evt_priority (EndInstrEvt t i) = DEFAULT_PRIORITY - 3"
| "evt_priority (BeginDispatchEvt k) = DEFAULT_PRIORITY + 10"
| "evt_priority (EndDispatchEvt k) = DEFAULT_PRIORITY + 10"
| "evt_priority (BeginDispatchMultiEvt k c) = DEFAULT_PRIORITY + 10"
| "evt_priority (EndDispatchMultiEvt k c) = DEFAULT_PRIORITY + 10"
| "evt_priority (BandExEvt s) = DEFAULT_PRIORITY + 4"
| "evt_priority (DlineMissEvt s) = DEFAULT_PRIORITY + 6"
| "evt_priority (RechargingEvt s) = DEFAULT_PRIORITY - 1"
| "evt_priority (SrvDispatchEvt s) = DEFAULT_PRIORITY + 5"
| "evt_priority (ReplEvt s) = DEFAULT_PRIORITY - 1"
| "evt_priority (IdleEvt s) = DEFAULT_PRIORITY - 1"
| "evt_priority _ = DEFAULT_PRIORITY"

text \<open>The constructor of \<open>FakeArrEvt\<close> lowers the current priority, not the standard one.\<close>

definition evt_ctor :: "evt \<Rightarrow> event" where
  "evt_ctor e = (case e of
      FakeArrEvt t \<Rightarrow> (Event_ctor DEFAULT_PRIORITY)\<lparr>ev_priority := DEFAULT_PRIORITY - 1\<rparr>
    | _ \<Rightarrow> Event_ctor (evt_priority e))"

section \<open>Random variables\<close>

text \<open>
  A \<open>RandomVar\<close> is the sequence of values its \<open>get()\<close> will return; what its distribution does is not
  needed by the code that draws from it.
\<close>

record randvar =
  rv_draws :: "nat \<Rightarrow> rat"
  rv_pos :: nat
  rv_max :: rat
  rv_uniform :: bool

definition RandomVar_get :: "randvar \<Rightarrow> rat \<times> randvar" where
  "RandomVar_get v = (rv_draws v (rv_pos v), v\<lparr>rv_pos := rv_pos v + 1\<rparr>)"

definition RandomVar_getMaximum :: "randvar \<Rightarrow> rat" where
  "RandomVar_getMaximum v = rv_max v"

section \<open>Instructions and tasks\<close>

record exec_instr =
  isBegOfInstr :: bool
  cost :: randvar
  ei_workload :: string
  ei_execdTime :: tick
  currentCost :: tick
  actCycles :: rat
  ei_lastTime :: tick
  executing :: bool

datatype instr =
    ExecInstr exec_instr
  | WaitInstr string int bool   \<comment> \<open>\<open>_res\<close>, \<open>_numberOfRes\<close>, \<open>_waiting\<close>\<close>
  | SignalInstr string int
  | SuspendInstr tick

datatype task_state = TSK_IDLE | TSK_READY | TSK_EXEC | TSK_BLOCKED

record task =
  int_time :: "randvar option"
  lastArrival :: tick
  phase :: tick
  arrival :: tick
  execdTime :: tick
  maxC :: tick
  arrQueue :: "tick list"
  arrQueueSize :: int
  tstate :: task_state
  instrQueue :: "instr list"
  actInstr :: nat
  tkernel :: "kernref option"
  lastSched :: tick
  dl :: tick
  rdl :: tick
  feedback :: "tick list option"
  dead_abort :: bool
  dead_kill :: bool
  endEvt_cpu :: int
  schedEvt_cpu :: int
  deschedEvt_cpu :: int
  deadEvt_cpu :: int
  t_nonperiodic :: bool
  t_id :: int

section \<open>Schedulers, kernels, processors\<close>

datatype model_kind =
    EDFModel bool int           \<comment> \<open>\<open>extP\<close>, \<open>prio\<close>\<close>
  | FIFOModel
  | TrueFIFOModel
  | FPModel tick
  | RMModel tick bool           \<comment> \<open>\<open>_prio\<close> of \<open>FPModel\<close>, \<open>extP\<close>\<close>
  | RRModel tick                \<comment> \<open>\<open>_rrSlice\<close>\<close>

record task_model =
  tm_active :: bool
  tm_insertTime :: int
  tm_kind :: model_kind

datatype sched_kind = EDFScheduler | FIFOScheduler | TrueFIFOScheduler | FPScheduler | RMScheduler
  | RRScheduler int bool        \<comment> \<open>\<open>defaultSlice\<close>, \<open>_enabled\<close>\<close>

record scheduler =
  sch_kernel :: "kernref option"
  sch_queue :: "absTask list"
  sch_tasks :: "absTask \<Rightarrow> task_model option"
  sch_currExe :: "absTask option"
  sch_kind :: sched_kind

record cpu =
  cpu_index :: int
  cpu_workload :: string
  cpu_disabled :: bool
  cpu_speedOf :: "string \<Rightarrow> rat"
  cpu_speed :: rat

record rtkernel =
  rk_sched :: nat
  rk_resMng :: "nat option"
  rk_currExe :: "absTask option"
  rk_cpu :: "nat option"
  rk_handled :: "absTask list"
  rk_isContextSwitching :: bool
  rk_contextSwitchDelay :: tick

text \<open>
  \<open>mk_cpus\<close> lists the keys of the maps of \<open>MRTKernel\<close> in their order, that of the pointers;
  \<open>mk_endTask\<close> is \<open>_task\<close> of the \<open>EndDispatchMultiEvt\<close> of the processor.
\<close>

record mrtkernel =
  mk_sched :: nat
  mk_resMng :: "nat option"
  mk_handled :: "absTask list"
  mk_cpus :: "nat list"
  mk_currExe :: "nat \<Rightarrow> absTask option"
  mk_oldExe :: "absTask \<Rightarrow> nat option"
  mk_dispatched :: "absTask \<Rightarrow> nat option"
  mk_isContextSwitching :: "nat \<Rightarrow> bool"
  mk_endTask :: "nat \<Rightarrow> absTask option"
  mk_contextSwitchDelay :: tick
  mk_migrationDelay :: tick
  mk_servers :: "nat list"

section \<open>Resources\<close>

record resource =
  r_total :: int
  r_available :: int
  r_available_initial :: int
  r_owner :: "absTask option"

record resmanager =
  rm_resources :: "string \<Rightarrow> resource option"
  rm_blocked :: "string \<Rightarrow> (absTask \<times> int) list"

section \<open>Servers\<close>

datatype server_status = IDLE | READY | EXECUTING | RELEASING | RECHARGING
datatype timer_status = RUNNING | STOPPED
datatype policy = ORIGINAL | REUSE_DLINE

record capacity_timer =
  ct_last_time :: tick
  ct_value :: rat
  ct_status :: timer_status
  ct_der :: rat

record server =
  srv_arr :: tick
  srv_last_arr :: tick
  srv_status :: server_status
  srv_dline :: tick
  srv_abs_dline :: tick
  srv_tasks :: "absTask list"
  srv_last_exec_time :: tick
  srv_kernel :: "rtkref option"
  srv_sched :: nat
  srv_currExe :: "absTask option"
  srv_id :: int
  cbs_Q :: tick
  cbs_P :: tick
  cbs_d :: tick
  cbs_cap :: tick
  cbs_last_time :: tick
  cbs_HR :: bool
  cbs_vtime :: capacity_timer
  cbs_idle_policy :: policy
  cbs_killed :: bool
  cbs_yielding :: bool

section \<open>The whole state\<close>

record world = "evt sim" +
  tasks :: "nat \<Rightarrow> task"
  servers :: "nat \<Rightarrow> server"
  scheds :: "nat \<Rightarrow> scheduler"
  rtks :: "nat \<Rightarrow> rtkernel"
  mrtks :: "nat \<Rightarrow> mrtkernel"
  cpus :: "nat \<Rightarrow> cpu"
  resmans :: "nat \<Rightarrow> resmanager"

text \<open>
  What the constructors store.  An unused number names an object as its constructor leaves it, with
  no kernel, no instructions and no parameters.
\<close>

definition Task_ctor :: "int \<Rightarrow> randvar option \<Rightarrow> tick \<Rightarrow> tick \<Rightarrow> int \<Rightarrow> tick \<Rightarrow> task" where
  "Task_ctor i iat rd ph qs c = \<lparr>int_time = iat, lastArrival = 0, phase = ph, arrival = 0,
     execdTime = 0, maxC = c, arrQueue = [], arrQueueSize = qs, tstate = TSK_IDLE, instrQueue = [],
     actInstr = 0, tkernel = None, lastSched = 0, dl = 0, rdl = rd, feedback = None,
     dead_abort = False, dead_kill = False, endEvt_cpu = -1, schedEvt_cpu = -1, deschedEvt_cpu = -1,
     deadEvt_cpu = -1, t_nonperiodic = False, t_id = i\<rparr>"

definition ExecInstr_ctor :: "randvar \<Rightarrow> string \<Rightarrow> exec_instr" where
  "ExecInstr_ctor c wl = \<lparr>isBegOfInstr = False, cost = c, ei_workload = wl, ei_execdTime = 0,
     currentCost = 0, actCycles = 0, ei_lastTime = 0, executing = False\<rparr>"

definition DeltaVar :: "tick \<Rightarrow> randvar" where
  "DeltaVar c = \<lparr>rv_draws = (\<lambda>_. of_int c), rv_pos = 0, rv_max = of_int c, rv_uniform = False\<rparr>"

definition FixedInstr_ctor :: "tick \<Rightarrow> string \<Rightarrow> exec_instr" where
  "FixedInstr_ctor duration wl = ExecInstr_ctor (DeltaVar duration) wl"

definition Scheduler_ctor :: "sched_kind \<Rightarrow> scheduler" where
  "Scheduler_ctor k = \<lparr>sch_kernel = None, sch_queue = [], sch_tasks = (\<lambda>_. None), sch_currExe = None,
     sch_kind = k\<rparr>"

definition RTKernel_ctor :: "nat \<Rightarrow> nat option \<Rightarrow> rtkernel" where
  "RTKernel_ctor s c = \<lparr>rk_sched = s, rk_resMng = None, rk_currExe = None, rk_cpu = c, rk_handled = [],
     rk_isContextSwitching = False, rk_contextSwitchDelay = 0\<rparr>"

definition MRTKernel_ctor :: "nat \<Rightarrow> nat list \<Rightarrow> mrtkernel" where
  "MRTKernel_ctor s cs = \<lparr>mk_sched = s, mk_resMng = None, mk_handled = [], mk_cpus = cs,
     mk_currExe = (\<lambda>_. None), mk_oldExe = (\<lambda>_. None), mk_dispatched = (\<lambda>_. None),
     mk_isContextSwitching = (\<lambda>_. False), mk_endTask = (\<lambda>_. None), mk_contextSwitchDelay = 0,
     mk_migrationDelay = 0, mk_servers = []\<rparr>"

definition CPU_ctor :: "int \<Rightarrow> (string \<Rightarrow> rat) \<Rightarrow> cpu" where
  "CPU_ctor i sp = \<lparr>cpu_index = i, cpu_workload = ''idle'', cpu_disabled = False, cpu_speedOf = sp,
     cpu_speed = sp ''idle''\<rparr>"

definition Resource_ctor :: "int \<Rightarrow> int \<Rightarrow> resource" where
  "Resource_ctor nr nr_available = \<lparr>r_total = nr, r_available = nr_available,
     r_available_initial = nr_available, r_owner = None\<rparr>"

definition CapacityTimer_ctor :: capacity_timer where
  "CapacityTimer_ctor = \<lparr>ct_last_time = 0, ct_value = 0, ct_status = STOPPED, ct_der = 1\<rparr>"

definition CBServer_ctor :: "int \<Rightarrow> tick \<Rightarrow> tick \<Rightarrow> tick \<Rightarrow> bool \<Rightarrow> nat \<Rightarrow> server" where
  "CBServer_ctor i q p d hr sched = \<lparr>srv_arr = 0, srv_last_arr = 0, srv_status = IDLE, srv_dline = 0,
     srv_abs_dline = 0, srv_tasks = [], srv_last_exec_time = 0, srv_kernel = None, srv_sched = sched,
     srv_currExe = None, srv_id = i, cbs_Q = q, cbs_P = p, cbs_d = d, cbs_cap = 0, cbs_last_time = 0,
     cbs_HR = hr, cbs_vtime = CapacityTimer_ctor, cbs_idle_policy = ORIGINAL, cbs_killed = False,
     cbs_yielding = False\<rparr>"

definition empty_world :: world where
  "empty_world = \<lparr>globTime = 0, evs = evt_ctor, eventQueue = [], evCounter = 0, numRuns = 0,
     actRuns = 0, sim_end = False,
     tasks = (\<lambda>t. Task_ctor (2 * int t + 1) None 0 0 1000 0),
     servers = (\<lambda>s. CBServer_ctor (2 * int s + 2) 0 0 0 False 0),
     scheds = (\<lambda>_. Scheduler_ctor FIFOScheduler), rtks = (\<lambda>_. RTKernel_ctor 0 None),
     mrtks = (\<lambda>_. MRTKernel_ctor 0 []), cpus = (\<lambda>c. CPU_ctor (int c) (\<lambda>_. 1)),
     resmans = (\<lambda>_. \<lparr>rm_resources = (\<lambda>_. None), rm_blocked = (\<lambda>_. [])\<rparr>)\<rparr>"

definition upd_task :: "nat \<Rightarrow> (task \<Rightarrow> task) \<Rightarrow> world \<Rightarrow> world" where
  "upd_task t f w = w\<lparr>tasks := (tasks w)(t := f (tasks w t))\<rparr>"

definition upd_server :: "nat \<Rightarrow> (server \<Rightarrow> server) \<Rightarrow> world \<Rightarrow> world" where
  "upd_server s f w = w\<lparr>servers := (servers w)(s := f (servers w s))\<rparr>"

definition upd_sched :: "nat \<Rightarrow> (scheduler \<Rightarrow> scheduler) \<Rightarrow> world \<Rightarrow> world" where
  "upd_sched s f w = w\<lparr>scheds := (scheds w)(s := f (scheds w s))\<rparr>"

definition upd_rtk :: "nat \<Rightarrow> (rtkernel \<Rightarrow> rtkernel) \<Rightarrow> world \<Rightarrow> world" where
  "upd_rtk k f w = w\<lparr>rtks := (rtks w)(k := f (rtks w k))\<rparr>"

definition upd_mrtk :: "nat \<Rightarrow> (mrtkernel \<Rightarrow> mrtkernel) \<Rightarrow> world \<Rightarrow> world" where
  "upd_mrtk k f w = w\<lparr>mrtks := (mrtks w)(k := f (mrtks w k))\<rparr>"

definition upd_cpu :: "nat \<Rightarrow> (cpu \<Rightarrow> cpu) \<Rightarrow> world \<Rightarrow> world" where
  "upd_cpu c f w = w\<lparr>cpus := (cpus w)(c := f (cpus w c))\<rparr>"

definition upd_resman :: "nat \<Rightarrow> (resmanager \<Rightarrow> resmanager) \<Rightarrow> world \<Rightarrow> world" where
  "upd_resman m f w = w\<lparr>resmans := (resmans w)(m := f (resmans w m))\<rparr>"

definition upd_model :: "nat \<Rightarrow> absTask \<Rightarrow> (task_model \<Rightarrow> task_model) \<Rightarrow> world \<Rightarrow> world" where
  "upd_model s t f = upd_sched s (\<lambda>sc. sc\<lparr>sch_tasks := (sch_tasks sc)(t := map_option f (sch_tasks sc t))\<rparr>)"

lemmas upd_defs = upd_task_def upd_server_def upd_sched_def upd_rtk_def upd_mrtk_def upd_cpu_def
  upd_resman_def upd_model_def

section \<open>Steps of the world keep the queue and the clock\<close>

lemma at_time_upd [simp]:
  "at_time T (upd_task t ft w) = at_time T w"
  "at_time T (upd_server s fs w) = at_time T w"
  "at_time T (upd_sched s fc w) = at_time T w"
  "at_time T (upd_rtk k fk w) = at_time T w"
  "at_time T (upd_mrtk k fm w) = at_time T w"
  "at_time T (upd_cpu c fp w) = at_time T w"
  "at_time T (upd_resman m fr w) = at_time T w"
  "at_time T (upd_model s a fmo w) = at_time T w"
  by (rule at_time_cong, simp_all add: upd_defs)+

text \<open>The engine fields are untouched by the updates of the objects.\<close>

lemma upd_engine [simp]:
  "globTime (upd_task t ft w) = globTime w" "evs (upd_task t ft w) = evs w"
  "globTime (upd_server s fs w) = globTime w" "evs (upd_server s fs w) = evs w"
  "globTime (upd_sched s fc w) = globTime w" "evs (upd_sched s fc w) = evs w"
  "globTime (upd_rtk k fk w) = globTime w" "evs (upd_rtk k fk w) = evs w"
  "globTime (upd_mrtk k fm w) = globTime w" "evs (upd_mrtk k fm w) = evs w"
  "globTime (upd_cpu c fp w) = globTime w" "evs (upd_cpu c fp w) = evs w"
  "globTime (upd_resman m fr w) = globTime w" "evs (upd_resman m fr w) = evs w"
  by (simp_all add: upd_defs)

text \<open>\<open>okr P r\<close>: the outcome \<open>r\<close> is an exception or a state with \<open>P\<close>.\<close>

definition okr :: "('w \<Rightarrow> bool) \<Rightarrow> exc + 'w \<Rightarrow> bool" where
  "okr P r \<longleftrightarrow> (case r of Inl _ \<Rightarrow> True | Inr w \<Rightarrow> P w)"

lemma okr_simps [simp]: "okr P (Inl e)" "okr P (Inr w) = P w"
  by (simp_all add: okr_def)

lemma okr_bindE [pres]: "okr P r \<Longrightarrow> (\<And>w. r = Inr w \<Longrightarrow> P w \<Longrightarrow> okr P (f w)) \<Longrightarrow> okr P (bindE r f)"
  by (cases r) auto

lemma okr_read: "(\<And>x. r = Inr x \<Longrightarrow> okr P (f x)) \<Longrightarrow> okr P (bindE r f)"
  by (cases r) auto

lemma okr_seq: "okr Q r \<Longrightarrow> (\<And>w. Q w \<Longrightarrow> okr P (f w)) \<Longrightarrow> okr P (bindE r f)"
  by (cases r) auto

lemma okr_mono: "okr Q r \<Longrightarrow> (\<And>w. Q w \<Longrightarrow> P w) \<Longrightarrow> okr P r"
  by (cases r) auto

lemma okr_whenE [pres]: "P w \<Longrightarrow> (c w \<Longrightarrow> okr P (f w)) \<Longrightarrow> okr P (whenE c f w)"
  by (simp add: whenE_def)

lemma okr_if [pres]: "(b \<Longrightarrow> okr P x) \<Longrightarrow> (\<not> b \<Longrightarrow> okr P y) \<Longrightarrow> okr P (if b then x else y)"
  by simp

lemma okr_option [pres]:
  "(m = None \<Longrightarrow> okr P x) \<Longrightarrow> (\<And>a. m = Some a \<Longrightarrow> okr P (f a)) \<Longrightarrow>
   okr P (case m of None \<Rightarrow> x | Some a \<Rightarrow> f a)"
  by (cases m) auto

lemma preserves_okr: "preserves P f \<longleftrightarrow> (\<forall>w. P w \<longrightarrow> okr P (f w))"
  by (auto simp: preserves_def okr_def split: sum.splits)

lemma preserves_okrD: "preserves P f \<Longrightarrow> P w \<Longrightarrow> okr P (f w)"
  by (simp add: preserves_okr)

lemma okr_post [pres]: "at_time T w \<Longrightarrow> okr (at_time T) (Event_post e t d w)"
  by (rule preserves_okrD [OF post_at_time])

lemma okr_process [pres]: "at_time T w \<Longrightarrow> okr (at_time T) (Event_process e d w)"
  by (rule preserves_okrD [OF process_at_time])

lemma at_time_drop [simp]: "at_time T w \<Longrightarrow> at_time T (Event_drop e w)"
  by (rule drop_at_time)

lemma okr_steps [pres]:
  "P w \<Longrightarrow> (\<And>f v. f \<in> set fs \<Longrightarrow> P v \<Longrightarrow> okr P (f v)) \<Longrightarrow> okr P (steps fs w)"
  by (rule preserves_okrD [OF preserves_steps]) (auto simp: preserves_okr)

end
