(* ===== verification/RTScheduler.thy ===== *)
theory RTScheduler
  imports World
begin

text \<open>
  \<open>librtsim/scheduler\<close>: class \<open>Scheduler\<close> with its ready queue of task models
  (\<open>scheduler.cpp\<close>) and the policies \<open>edfsched.cpp\<close>, \<open>fifosched.cpp\<close>, \<open>truefifo.cpp\<close>,
  \<open>fpsched.cpp\<close>, \<open>rmsched.cpp\<close>, \<open>rrsched.cpp\<close>.  Models and tasks correspond one to one, so the ready
  queue is a list of tasks ordered by the keys of their models.  \<open>Tick\<close> values stored in \<open>int\<close>
  members go through \<open>int32_of\<close>.
\<close>

definition int32_of :: "int \<Rightarrow> int" where
  "int32_of x = signed_take_bit 31 x"

section \<open>What a scheduler asks of a task\<close>

definition absTask_getDeadline :: "world \<Rightarrow> absTask \<Rightarrow> tick" where
  "absTask_getDeadline w a = (case a of
      TaskRef t \<Rightarrow> dl (tasks w t) | ServerRef s \<Rightarrow> srv_abs_dline (servers w s))"

definition absTask_getRelDline :: "world \<Rightarrow> absTask \<Rightarrow> tick" where
  "absTask_getRelDline w a = (case a of
      TaskRef t \<Rightarrow> rdl (tasks w t) | ServerRef s \<Rightarrow> srv_dline (servers w s))"

definition absTask_getArrival :: "world \<Rightarrow> absTask \<Rightarrow> tick" where
  "absTask_getArrival w a = (case a of
      TaskRef t \<Rightarrow> arrival (tasks w t) | ServerRef s \<Rightarrow> srv_arr (servers w s))"

definition absTask_getTaskNumber :: "world \<Rightarrow> absTask \<Rightarrow> int" where
  "absTask_getTaskNumber w a = (case a of
      TaskRef t \<Rightarrow> t_id (tasks w t) | ServerRef s \<Rightarrow> srv_id (servers w s))"

section \<open>Task models\<close>

definition TaskModel_ctor :: "model_kind \<Rightarrow> task_model" where
  "TaskModel_ctor k = \<lparr>tm_active = False, tm_insertTime = 0, tm_kind = k\<rparr>"

text \<open>
  The virtual \<open>getPriority() const\<close>.  \<open>RMModel::getPriority()\<close> is not \<open>const\<close>: it overloads the
  method of \<open>FPModel\<close> instead of overriding it, so a call through \<open>TaskModel\<close> reaches
  \<open>FPModel::getPriority\<close>, which returns \<open>_prio\<close>.
\<close>

definition TaskModel_getPriority :: "world \<Rightarrow> absTask \<Rightarrow> task_model \<Rightarrow> tick" where
  "TaskModel_getPriority w a m = (case tm_kind m of
      EDFModel extP prio \<Rightarrow> if extP then prio else absTask_getDeadline w a
    | FIFOModel \<Rightarrow> absTask_getArrival w a
    | TrueFIFOModel \<Rightarrow> 0
    | FPModel prio \<Rightarrow> prio
    | RMModel prio extP \<Rightarrow> prio
    | RRModel slice \<Rightarrow> 1)"

text \<open>The method \<open>RMModel::getPriority()\<close>, which nothing calls.\<close>

definition RMModel_getPriority :: "world \<Rightarrow> absTask \<Rightarrow> tick \<Rightarrow> bool \<Rightarrow> tick" where
  "RMModel_getPriority w a prio extP = (if extP then prio else absTask_getRelDline w a)"

definition TaskModel_changePriority :: "world \<Rightarrow> absTask \<Rightarrow> tick \<Rightarrow> task_model \<Rightarrow> exc + task_model" where
  "TaskModel_changePriority w a p m = (case tm_kind m of
      EDFModel extP prio \<Rightarrow>
        Inr (m\<lparr>tm_kind := if p = absTask_getDeadline w a then EDFModel False prio
                         else EDFModel True (int32_of p)\<rparr>)
    | FIFOModel \<Rightarrow> Inr m
    | TrueFIFOModel \<Rightarrow> Inr m
    | FPModel prio \<Rightarrow> Inr (m\<lparr>tm_kind := FPModel p\<rparr>)
    | RMModel prio extP \<Rightarrow>
        Inr (m\<lparr>tm_kind := if p = absTask_getRelDline w a then RMModel prio False else RMModel p True\<rparr>)
    | RRModel slice \<Rightarrow> Inl (RRSchedExc ''Cannot change priority in RRSched!''))"

definition TaskModel_setInsertTime :: "tick \<Rightarrow> task_model \<Rightarrow> task_model" where
  "TaskModel_setInsertTime t m = m\<lparr>tm_insertTime := int32_of t\<rparr>"

definition TaskModel_setActive :: "task_model \<Rightarrow> task_model" where
  "TaskModel_setActive m = m\<lparr>tm_active := True\<rparr>"

definition TaskModel_setInactive :: "task_model \<Rightarrow> task_model" where
  "TaskModel_setInactive m = m\<lparr>tm_active := False\<rparr>"

definition TaskModelCmp :: "world \<Rightarrow> absTask \<times> task_model \<Rightarrow> absTask \<times> task_model \<Rightarrow> bool" where
  "TaskModelCmp w a b =
    ((TaskModel_getPriority w (fst a) (snd a), tm_insertTime (snd a), absTask_getTaskNumber w (fst a))
     < (TaskModel_getPriority w (fst b) (snd b), tm_insertTime (snd b), absTask_getTaskNumber w (fst b)))"

section \<open>Scheduler\<close>

definition Scheduler_find :: "nat \<Rightarrow> absTask \<Rightarrow> world \<Rightarrow> task_model option" where
  "Scheduler_find s a w = sch_tasks (scheds w s) a"

text \<open>The order of the ready queue.\<close>

definition sched_lt :: "world \<Rightarrow> nat \<Rightarrow> absTask \<Rightarrow> absTask \<Rightarrow> bool" where
  "sched_lt w s a b =
     TaskModelCmp w (a, the (Scheduler_find s a w)) (b, the (Scheduler_find s b w))"

definition Scheduler_enqueueModel :: "nat \<Rightarrow> absTask \<Rightarrow> task_model \<Rightarrow> world \<Rightarrow> exc + world" where
  "Scheduler_enqueueModel s a m w =
    (if Scheduler_find s a w \<noteq> None then Inl (RTSchedExc ''Element already present'')
     else Inr (upd_sched s (\<lambda>sc. sc\<lparr>sch_tasks := (sch_tasks sc)(a \<mapsto> m)\<rparr>) w))"

definition Scheduler_setKernel :: "nat \<Rightarrow> kernref \<Rightarrow> world \<Rightarrow> world" where
  "Scheduler_setKernel s k = upd_sched s (\<lambda>sc. sc\<lparr>sch_kernel := Some k\<rparr>)"

definition Scheduler_insert :: "nat \<Rightarrow> absTask \<Rightarrow> world \<Rightarrow> exc + world" where
  "Scheduler_insert s a w =
    (if Scheduler_find s a w = None then Inl (RTSchedExc ''AbsRTTaskNotFound'')
     else
       let w1 = upd_model s a (TaskModel_setInsertTime (globTime w)) w;
           w2 = upd_model s a TaskModel_setActive w1
       in Inr (upd_sched s (\<lambda>sc. sc\<lparr>sch_queue := fst (pl_insert (sched_lt w2 s) a (sch_queue sc))\<rparr>) w2))"

definition Scheduler_extract :: "nat \<Rightarrow> absTask \<Rightarrow> world \<Rightarrow> exc + world" where
  "Scheduler_extract s a w =
    (if Scheduler_find s a w = None then Inl (RTSchedExc ''AbsRTTask not found'')
     else
       let w1 = upd_sched s (\<lambda>sc. sc\<lparr>sch_queue := pl_erase (sched_lt w s) a (sch_queue sc)\<rparr>) w
       in Inr (upd_model s a TaskModel_setInactive w1))"

definition Scheduler_getPriority :: "nat \<Rightarrow> absTask \<Rightarrow> world \<Rightarrow> exc + int" where
  "Scheduler_getPriority s a w = (case Scheduler_find s a w of
      None \<Rightarrow> Inl (RTSchedExc ''AbsRTTask not found'')
    | Some m \<Rightarrow> Inr (int32_of (TaskModel_getPriority w a m)))"

definition Scheduler_discardTasks :: "nat \<Rightarrow> world \<Rightarrow> world" where
  "Scheduler_discardTasks s = upd_sched s (\<lambda>sc. sc\<lparr>sch_queue := [], sch_tasks := (\<lambda>_. None)\<rparr>)"

definition Scheduler_getTaskN :: "nat \<Rightarrow> nat \<Rightarrow> world \<Rightarrow> absTask option" where
  "Scheduler_getTaskN s n w =
    (if length (sch_queue (scheds w s)) \<le> n then None else Some (sch_queue (scheds w s) ! n))"

definition Scheduler_getFirst :: "nat \<Rightarrow> world \<Rightarrow> absTask option" where
  "Scheduler_getFirst s w = Scheduler_getTaskN s 0 w"

definition Scheduler_isFound :: "nat \<Rightarrow> absTask \<Rightarrow> world \<Rightarrow> bool" where
  "Scheduler_isFound s a w \<longleftrightarrow> Scheduler_find s a w \<noteq> None"

definition Scheduler_isInQueue :: "nat \<Rightarrow> absTask \<Rightarrow> world \<Rightarrow> bool" where
  "Scheduler_isInQueue s a w \<longleftrightarrow> List.find (\<lambda>b. b = a) (sch_queue (scheds w s)) \<noteq> None"

definition Scheduler_getSize :: "nat \<Rightarrow> world \<Rightarrow> nat" where
  "Scheduler_getSize s w = length (sch_queue (scheds w s))"

definition Scheduler_getTasks :: "nat \<Rightarrow> world \<Rightarrow> absTask list" where
  "Scheduler_getTasks s w = sch_queue (scheds w s)"

definition Scheduler_newRun :: "nat \<Rightarrow> world \<Rightarrow> world" where
  "Scheduler_newRun s = upd_sched s (\<lambda>sc. sc\<lparr>sch_queue := [],
     sch_tasks := (\<lambda>a. map_option TaskModel_setInactive (sch_tasks sc a))\<rparr>)"

section \<open>Policies\<close>

text \<open>
  \<open>addTask\<close> with its parameter string read as an \<open>int\<close> (\<open>None\<close>: not a number, for which the
  extraction of C++ stores zero).  The policies that ignore the string ignore it here.
\<close>

definition RRScheduler_addTask :: "nat \<Rightarrow> int \<Rightarrow> absTask \<Rightarrow> int \<Rightarrow> world \<Rightarrow> exc + world" where
  "RRScheduler_addTask s defaultSlice a slice w =
     bindE (Scheduler_enqueueModel s a (TaskModel_ctor (RRModel 1)) w) (\<lambda>w1.
       let slice' = (if slice < 1 then defaultSlice else slice)
       in Inr (upd_model s a (\<lambda>m. m\<lparr>tm_kind := RRModel slice'\<rparr>) w1))"

definition Scheduler_addTask :: "nat \<Rightarrow> absTask \<Rightarrow> int option \<Rightarrow> world \<Rightarrow> exc + world" where
  "Scheduler_addTask s a par w = (case sch_kind (scheds w s) of
      EDFScheduler \<Rightarrow> Scheduler_enqueueModel s a (TaskModel_ctor (EDFModel False 0)) w
    | FIFOScheduler \<Rightarrow> Scheduler_enqueueModel s a (TaskModel_ctor FIFOModel) w
    | TrueFIFOScheduler \<Rightarrow> Scheduler_enqueueModel s a (TaskModel_ctor TrueFIFOModel) w
    | FPScheduler \<Rightarrow> Scheduler_enqueueModel s a
        (TaskModel_ctor (FPModel (case par of None \<Rightarrow> 0 | Some prio \<Rightarrow> prio))) w
    | RMScheduler \<Rightarrow> Scheduler_enqueueModel s a (TaskModel_ctor (RMModel 0 False)) w
    | RRScheduler defaultSlice enabled \<Rightarrow>
        RRScheduler_addTask s defaultSlice a
          (case par of None \<Rightarrow> defaultSlice | Some slice \<Rightarrow> slice) w)"

definition rr_slice :: "task_model \<Rightarrow> tick" where
  "rr_slice m = (case tm_kind m of RRModel slice \<Rightarrow> slice | _ \<Rightarrow> 0)"

definition RRScheduler_setRRSlice :: "nat \<Rightarrow> absTask \<Rightarrow> tick \<Rightarrow> world \<Rightarrow> exc + world" where
  "RRScheduler_setRRSlice s a slice w =
    (if Scheduler_find s a w = None then Inl (RRSchedExc ''Cannot find task'')
     else Inr (upd_model s a (\<lambda>m. m\<lparr>tm_kind := RRModel slice\<rparr>) w))"

text \<open>\<open>RRModel::isRoundExpired\<close>: the assertion asks for a \<open>Task\<close>, not a server.\<close>

definition RRModel_isRoundExpired :: "absTask \<Rightarrow> task_model \<Rightarrow> world \<Rightarrow> exc + bool" where
  "RRModel_isRoundExpired a m w = (case a of
      ServerRef _ \<Rightarrow> Inl (AssertFailed ''t != NULL'')
    | TaskRef t \<Rightarrow>
        Inr (rr_slice m > 0 \<and> globTime w - lastSched (tasks w t) \<ge> rr_slice m))"

definition RRScheduler_isRoundExpired :: "nat \<Rightarrow> absTask \<Rightarrow> world \<Rightarrow> exc + bool" where
  "RRScheduler_isRoundExpired s a w = (case sch_kind (scheds w s) of
      RRScheduler _ True \<Rightarrow>
        (case Scheduler_find s a w of
           None \<Rightarrow> Inl (RRSchedExc ''Cannot find task'')
         | Some m \<Rightarrow> RRModel_isRoundExpired a m w)
    | _ \<Rightarrow> Inl (AssertFailed ''isEnabled()''))"

definition RRScheduler_notify :: "nat \<Rightarrow> absTask option \<Rightarrow> world \<Rightarrow> exc + world" where
  "RRScheduler_notify s a w =
    (let w1 = Event_drop (RREvt s) w in
     case a of
       None \<Rightarrow> Inr w1
     | Some t \<Rightarrow>
         (case Scheduler_find s t w1 of
            None \<Rightarrow> Inl (RRSchedExc ''Cannot find task'')
          | Some m \<Rightarrow>
              if rr_slice m > 0 then Event_post (RREvt s) (globTime w1 + rr_slice m) False w1
              else Inr w1))"

text \<open>The virtual \<open>notify\<close>.\<close>

definition Scheduler_notify :: "nat \<Rightarrow> absTask option \<Rightarrow> world \<Rightarrow> exc + world" where
  "Scheduler_notify s a w = (case sch_kind (scheds w s) of
      RRScheduler _ enabled \<Rightarrow> if enabled then RRScheduler_notify s a w else Inr w
    | _ \<Rightarrow> Inr (upd_sched s (\<lambda>sc. sc\<lparr>sch_currExe := a\<rparr>) w))"

text \<open>
  \<open>round\<close>, up to the call of the kernel (\<open>kdispatch\<close>, the virtual \<open>AbsKernel::dispatch\<close>).  The front
  of an empty queue is undefined in C++.
\<close>

definition RRScheduler_round ::
    "(kernref \<Rightarrow> world \<Rightarrow> exc + world) \<Rightarrow> nat \<Rightarrow> world \<Rightarrow> exc + world" where
  "RRScheduler_round kdispatch s w = (case sch_kind (scheds w s) of
      RRScheduler _ True \<Rightarrow>
        (case pl_front (sch_queue (scheds w s)) of
           None \<Rightarrow> Inl (NullPointer ''_queue.front()'')
         | Some a \<Rightarrow>
             let m = the (Scheduler_find s a w) in
             bindE (RRModel_isRoundExpired a m w) (\<lambda>expired.
             let w1 = (if expired
                  then upd_sched s (\<lambda>sc. sc\<lparr>sch_queue := pl_erase (sched_lt w s) a (sch_queue sc)\<rparr>) w
                  else w);
                 w2 = (if expired \<and> tm_active m
                  then let v = upd_model s a (TaskModel_setInsertTime (globTime w1)) w1
                       in upd_sched s (\<lambda>sc. sc\<lparr>sch_queue := fst (pl_insert (sched_lt v s) a (sch_queue sc))\<rparr>) v
                  else w1)
             in case pl_front (sch_queue (scheds w2 s)) of
                  None \<Rightarrow> Inl (NullPointer ''_queue.front()'')
                | Some b \<Rightarrow>
                    let mb = the (Scheduler_find s b w2); slice = rr_slice mb in
                    bindE (if slice = 0 then Inr (Event_drop (RREvt s) w2)
                           else bindE (if b \<noteq> a then Inr True else RRModel_isRoundExpired b mb w2) (\<lambda>c.
                             if c then Event_post (RREvt s) (globTime w2 + slice) False (Event_drop (RREvt s) w2)
                             else Inr w2)) (\<lambda>w3.
                    case sch_kernel (scheds w3 s) of
                      None \<Rightarrow> Inr w3
                    | Some k \<Rightarrow> kdispatch k w3)))
    | _ \<Rightarrow> Inr w)"

end
