(* ===== verification/RTScheduler_Laws.thy ===== *)
theory RTScheduler_Laws
  imports RTScheduler
begin

text \<open>
  What the ready queue guarantees: it is ordered by the policy's priority, then by insertion time,
  then by task number, every queued task has an active model, and \<open>getFirst\<close> is the least of them.
\<close>

section \<open>The comparison\<close>

definition sched_key :: "world \<Rightarrow> nat \<Rightarrow> absTask \<Rightarrow> tick \<times> int \<times> int" where
  "sched_key w s a = (let m = the (Scheduler_find s a w) in
     (TaskModel_getPriority w a m, tm_insertTime m, absTask_getTaskNumber w a))"

lemma sched_lt_key: "sched_lt w s a b \<longleftrightarrow> sched_key w s a < sched_key w s b"
  by (simp add: sched_lt_def TaskModelCmp_def sched_key_def Let_def)

interpretation rq: strict_weak_order "sched_lt w s" for w s
proof unfold_locales
  fix x y z :: absTask
  show "\<not> sched_lt w s x x" by (simp add: sched_lt_key)
  show "sched_lt w s x y \<Longrightarrow> sched_lt w s y z \<Longrightarrow> sched_lt w s x z"
    unfolding sched_lt_key by (rule less_trans)
  show "sched_lt w s x z \<Longrightarrow> sched_lt w s x y \<or> sched_lt w s y z"
    unfolding sched_lt_key by (meson leI le_less_trans)
qed

lemma equivalent_number:
  "equivalent_key (sched_lt w s) a b \<Longrightarrow> absTask_getTaskNumber w a = absTask_getTaskNumber w b"
  by (auto simp: equivalent_key_def sched_lt_key sched_key_def Let_def not_less)

section \<open>The invariant of the ready queue\<close>

definition has_active :: "world \<Rightarrow> nat \<Rightarrow> absTask \<Rightarrow> bool" where
  "has_active w s a = (case Scheduler_find s a w of None \<Rightarrow> False | Some m \<Rightarrow> tm_active m)"

definition rq_inv :: "nat \<Rightarrow> world \<Rightarrow> bool" where
  "rq_inv s w \<longleftrightarrow> sorted_wrt (sched_lt w s) (sch_queue (scheds w s))
     \<and> list_all (has_active w s) (sch_queue (scheds w s))"

definition ids_distinct :: "world \<Rightarrow> bool" where
  "ids_distinct w \<longleftrightarrow> (\<forall>a b. absTask_getTaskNumber w a = absTask_getTaskNumber w b \<longrightarrow> a = b)"

lemma rq_inv_sorted: "rq_inv s w \<Longrightarrow> sorted_wrt (sched_lt w s) (sch_queue (scheds w s))"
  by (simp add: rq_inv_def)

lemma rq_inv_active: "rq_inv s w \<Longrightarrow> a \<in> set (sch_queue (scheds w s)) \<Longrightarrow> has_active w s a"
  by (auto simp: rq_inv_def list_all_iff)

lemma find_upd_sched_queue [simp]:
  "Scheduler_find s a (upd_sched s' (\<lambda>sc. sc\<lparr>sch_queue := q sc\<rparr>) w) = Scheduler_find s a w"
  by (simp add: Scheduler_find_def upd_sched_def)

lemma find_upd_model [simp]:
  "Scheduler_find s b (upd_model s a f w) =
     (if b = a then map_option f (Scheduler_find s a w) else Scheduler_find s b w)"
  by (simp add: Scheduler_find_def upd_model_def upd_sched_def)

lemma absTask_upd_sched [simp]:
  "absTask_getDeadline (upd_sched s f w) = absTask_getDeadline w"
  "absTask_getRelDline (upd_sched s f w) = absTask_getRelDline w"
  "absTask_getArrival (upd_sched s f w) = absTask_getArrival w"
  "absTask_getTaskNumber (upd_sched s f w) = absTask_getTaskNumber w"
  by (simp_all add: fun_eq_iff absTask_getDeadline_def absTask_getRelDline_def absTask_getArrival_def
      absTask_getTaskNumber_def upd_sched_def split: absTask.split)

lemma absTask_upd_model [simp]:
  "absTask_getDeadline (upd_model s a f w) = absTask_getDeadline w"
  "absTask_getRelDline (upd_model s a f w) = absTask_getRelDline w"
  "absTask_getArrival (upd_model s a f w) = absTask_getArrival w"
  "absTask_getTaskNumber (upd_model s a f w) = absTask_getTaskNumber w"
  by (simp_all add: upd_model_def)

lemma getPriority_upd [simp]:
  "TaskModel_getPriority (upd_sched s f w) = TaskModel_getPriority w"
  "TaskModel_getPriority (upd_model s a g w) = TaskModel_getPriority w"
  by (simp_all add: fun_eq_iff TaskModel_getPriority_def split: model_kind.split)

lemma sched_key_upd_queue [simp]:
  "sched_key (upd_sched s' (\<lambda>sc. sc\<lparr>sch_queue := q sc\<rparr>) w) = sched_key w"
  by (simp add: fun_eq_iff sched_key_def Let_def)

lemma sched_lt_upd_queue [simp]:
  "sched_lt (upd_sched s' (\<lambda>sc. sc\<lparr>sch_queue := q sc\<rparr>) w) = sched_lt w"
  by (simp add: fun_eq_iff sched_lt_key)

lemma sched_key_upd_model: "b \<noteq> a \<Longrightarrow> sched_key (upd_model s a f w) s b = sched_key w s b"
  by (simp add: sched_key_def Let_def)

lemma queue_upd_model [simp]: "sch_queue (scheds (upd_model s a f w) s') = sch_queue (scheds w s')"
  by (simp add: upd_model_def upd_sched_def)

lemma rq_inv_upd_model_unqueued:
  assumes "a \<notin> set (sch_queue (scheds w s))"
  shows "rq_inv s (upd_model s a f w) = rq_inv s w"
proof -
  have key: "sched_key (upd_model s a f w) s x = sched_key w s x" if "x \<in> set (sch_queue (scheds w s))" for x
    using that assms by (intro sched_key_upd_model) auto
  have "sorted_wrt (sched_lt (upd_model s a f w) s) (sch_queue (scheds w s))
      \<longleftrightarrow> sorted_wrt (sched_lt w s) (sch_queue (scheds w s))"
    by (rule sorted_wrt_cong) (simp add: sched_lt_key key)
  moreover have "list_all (has_active (upd_model s a f w) s) (sch_queue (scheds w s))
      \<longleftrightarrow> list_all (has_active w s) (sch_queue (scheds w s))"
    by (rule list.pred_cong) (use assms in \<open>auto simp: has_active_def\<close>)
  ultimately show ?thesis by (simp add: rq_inv_def)
qed

section \<open>Insertion and extraction\<close>

lemma insert_accepted:
  assumes inv: "rq_inv s w" and ids: "ids_distinct w"
    and found: "Scheduler_find s a w = Some m" and new: "a \<notin> set (sch_queue (scheds w s))"
  shows "\<exists>w'. Scheduler_insert s a w = Inr w' \<and> rq_inv s w'
    \<and> set (sch_queue (scheds w' s)) = insert a (set (sch_queue (scheds w s)))
    \<and> Scheduler_find s a w' = Some (m\<lparr>tm_insertTime := int32_of (globTime w), tm_active := True\<rparr>)"
proof -
  let ?v = "upd_model s a TaskModel_setActive (upd_model s a (TaskModel_setInsertTime (globTime w)) w)"
  let ?q = "sch_queue (scheds w s)"
  have v: "rq_inv s ?v" using inv new by (simp add: rq_inv_upd_model_unqueued)
  have m: "Scheduler_find s a ?v = Some (m\<lparr>tm_insertTime := int32_of (globTime w), tm_active := True\<rparr>)"
    by (simp add: found TaskModel_setActive_def TaskModel_setInsertTime_def)
  have "\<not> equivalent_key (sched_lt ?v s) a b" if "b \<in> set ?q" for b
    using equivalent_number [of ?v s a b] ids that new by (auto simp: ids_distinct_def)
  then have ins: "snd (pl_insert (sched_lt ?v s) a ?q)"
    using rq_inv_sorted [OF v] by (simp add: rq.insert_accepts)
  let ?q' = "fst (pl_insert (sched_lt ?v s) a ?q)"
  let ?w' = "upd_sched s (\<lambda>sc. sc\<lparr>sch_queue := fst (pl_insert (sched_lt ?v s) a (sch_queue sc))\<rparr>) ?v"
  have q': "sch_queue (scheds ?w' s) = ?q'"
    by (simp add: upd_model_def upd_sched_def)
  have set': "set ?q' = insert a (set ?q)" using ins by (rule rq.insert_set_new)
  have "sorted_wrt (sched_lt ?v s) ?q'"
    using rq_inv_sorted [OF v] by (simp add: rq.insert_sorted)
  moreover have "has_active ?v s b" if "b \<in> set ?q'" for b
    using that set' rq_inv_active [OF v, of b] m by (cases "b = a") (auto simp: has_active_def)
  ultimately have "rq_inv s ?w'"
    by (simp add: rq_inv_def q' list_all_iff has_active_def)
  moreover have "Scheduler_insert s a w = Inr ?w'"
    by (simp add: Scheduler_insert_def found Let_def)
  moreover have "Scheduler_find s a ?w' = Some (m\<lparr>tm_insertTime := int32_of (globTime w), tm_active := True\<rparr>)"
    using m by simp
  ultimately show ?thesis using q' set' by auto
qed

lemma extract_result:
  assumes inv: "rq_inv s w" and found: "Scheduler_find s a w \<noteq> None" and ids: "ids_distinct w"
  shows "\<exists>w'. Scheduler_extract s a w = Inr w' \<and> rq_inv s w'
    \<and> sch_queue (scheds w' s) = remove1 a (sch_queue (scheds w s))"
proof -
  let ?q = "sch_queue (scheds w s)"
  let ?v = "upd_sched s (\<lambda>sc. sc\<lparr>sch_queue := pl_erase (sched_lt w s) a (sch_queue sc)\<rparr>) w"
  let ?w' = "upd_model s a TaskModel_setInactive ?v"
  have q: "sch_queue (scheds ?v s) = remove1 a ?q"
  proof (cases "a \<in> set ?q")
    case True
    then show ?thesis
      using rq.erase_removes1 [OF rq_inv_sorted [OF inv] True] by (simp add: upd_sched_def)
  next
    case False
    then have "pl_erase (sched_lt w s) a ?q = ?q"
      using equivalent_number [of w s a] ids by (intro rq.erase_absent) (auto simp: ids_distinct_def)
    with False show ?thesis by (simp add: upd_sched_def remove1_idem)
  qed
  have "rq_inv s ?v"
    unfolding rq_inv_def sched_lt_upd_queue q
    using rq_inv_sorted [OF inv] rq_inv_active [OF inv] set_remove1_subset [of a ?q]
      rq.sorted_distinct [OF rq_inv_sorted [OF inv]]
    by (auto simp: list_all_iff has_active_def distinct_remove1_removeAll removeAll_filter_not_eq
        intro: sorted_wrt_filter)
  moreover have "a \<notin> set (sch_queue (scheds ?v s))"
    using q rq.sorted_distinct [OF rq_inv_sorted [OF inv]] by simp
  ultimately have "rq_inv s ?w'"
    by (simp add: rq_inv_upd_model_unqueued)
  moreover have "Scheduler_extract s a w = Inr ?w'"
    using found by (simp add: Scheduler_extract_def Let_def)
  ultimately show ?thesis using q by auto
qed

lemma getFirst_least:
  assumes "rq_inv s w" and "Scheduler_getFirst s w = Some a" and "b \<in> set (sch_queue (scheds w s))"
  shows "sched_key w s a \<le> sched_key w s b"
proof -
  have "pl_front (sch_queue (scheds w s)) = Some a"
    using assms(2) by (cases "sch_queue (scheds w s)")
      (auto simp: Scheduler_getFirst_def Scheduler_getTaskN_def pl_front_def)
  from rq.front_least [OF rq_inv_sorted [OF assms(1)] this assms(3)] show ?thesis
    by (auto simp: sched_lt_key)
qed

section \<open>Policies\<close>

definition all_models :: "(model_kind \<Rightarrow> bool) \<Rightarrow> nat \<Rightarrow> world \<Rightarrow> bool" where
  "all_models p s w \<longleftrightarrow> list_all (\<lambda>a. p (tm_kind (the (Scheduler_find s a w)))) (sch_queue (scheds w s))"

lemma all_modelsD:
  "all_models p s w \<Longrightarrow> a \<in> set (sch_queue (scheds w s)) \<Longrightarrow> p (tm_kind (the (Scheduler_find s a w)))"
  by (auto simp: all_models_def list_all_iff)

lemma getFirst_queued: "Scheduler_getFirst s w = Some a \<Longrightarrow> a \<in> set (sch_queue (scheds w s))"
  by (auto simp: Scheduler_getFirst_def Scheduler_getTaskN_def split: if_splits)

definition insert_time :: "nat \<Rightarrow> world \<Rightarrow> absTask \<Rightarrow> int" where
  "insert_time s w a = tm_insertTime (the (Scheduler_find s a w))"

lemma sched_key_edf:
  "tm_kind (the (Scheduler_find s a w)) = EDFModel False p \<Longrightarrow>
   sched_key w s a = (absTask_getDeadline w a, insert_time s w a, absTask_getTaskNumber w a)"
  by (simp add: sched_key_def Let_def TaskModel_getPriority_def insert_time_def)

lemma sched_key_rm:
  "tm_kind (the (Scheduler_find s a w)) = RMModel p x \<Longrightarrow>
   sched_key w s a = (p, insert_time s w a, absTask_getTaskNumber w a)"
  by (simp add: sched_key_def Let_def TaskModel_getPriority_def insert_time_def)

lemma sched_key_fp:
  "tm_kind (the (Scheduler_find s a w)) = FPModel p \<Longrightarrow>
   sched_key w s a = (p, insert_time s w a, absTask_getTaskNumber w a)"
  by (simp add: sched_key_def Let_def TaskModel_getPriority_def insert_time_def)

lemma sched_key_truefifo:
  "tm_kind (the (Scheduler_find s a w)) = TrueFIFOModel \<Longrightarrow>
   sched_key w s a = (0, insert_time s w a, absTask_getTaskNumber w a)"
  by (simp add: sched_key_def Let_def TaskModel_getPriority_def insert_time_def)

lemma sched_key_rr:
  "tm_kind (the (Scheduler_find s a w)) = RRModel sl \<Longrightarrow>
   sched_key w s a = (1, insert_time s w a, absTask_getTaskNumber w a)"
  by (simp add: sched_key_def Let_def TaskModel_getPriority_def insert_time_def)

section \<open>Round robin\<close>

lemma pl_insert_last:
  "(\<And>y. y \<in> set ys \<Longrightarrow> \<not> lt x y \<and> lt y x) \<Longrightarrow> pl_insert lt x ys = (ys @ [x], True)"
  by (induction ys) auto

lemma int32_of_small: "0 \<le> t \<Longrightarrow> t < 2 ^ 31 \<Longrightarrow> int32_of t = t"
  by (simp add: int32_of_def signed_take_bit_int_eq_self)

lemma int32_of_wrapped: "2 ^ 31 \<le> t \<Longrightarrow> t < 2 ^ 32 \<Longrightarrow> int32_of t < 0"
proof -
  assume "2 ^ 31 \<le> t" and "t < 2 ^ 32"
  moreover have "(t + 2 ^ 31) mod 2 ^ 32 = (t - 2 ^ 31 + 1 * 2 ^ 32) mod 2 ^ 32"
    by (simp add: add.commute)
  moreover have "\<dots> = (t - 2 ^ 31) mod 2 ^ 32" by (rule mod_mult_self1)
  ultimately have "(t + 2 ^ 31) mod 2 ^ 32 = t - 2 ^ 31" by (simp add: mod_pos_pos_trivial)
  with \<open>t < 2 ^ 32\<close> show ?thesis
    by (simp add: int32_of_def signed_take_bit_eq_take_bit_shift take_bit_eq_mod)
qed


section \<open>Concrete schedulers\<close>

text \<open>
  Two tasks known to scheduler 0: task 0 with relative deadline 50, inserted at \<open>t0\<close>, and task 1 with
  relative deadline 10, inserted at \<open>t1\<close>.
\<close>

definition two_tasks_known :: "sched_kind \<Rightarrow> tick \<Rightarrow> tick \<Rightarrow> exc + world" where
  "two_tasks_known sk t0 t1 =
    (let w = empty_world\<lparr>tasks := (tasks empty_world)
           (0 := (tasks empty_world 0)\<lparr>rdl := 50, dl := t0 + 50\<rparr>,
            1 := (tasks empty_world 1)\<lparr>rdl := 10, dl := t1 + 10\<rparr>)\<rparr>
     in steps [pureE (upd_sched 0 (\<lambda>_. Scheduler_ctor sk)),
        Scheduler_addTask 0 (TaskRef 0) None, Scheduler_addTask 0 (TaskRef 1) None] w)"

definition two_tasks :: "sched_kind \<Rightarrow> tick \<Rightarrow> tick \<Rightarrow> exc + world" where
  "two_tasks sk t0 t1 = bindE (two_tasks_known sk t0 t1)
     (steps [pureE (Simulation_setTime t0), Scheduler_insert 0 (TaskRef 0),
        pureE (Simulation_setTime t1), Scheduler_insert 0 (TaskRef 1)])"

lemmas sched_eval = two_tasks_def two_tasks_known_def empty_world_def Let_def Scheduler_addTask_def
  Scheduler_ctor_def Scheduler_enqueueModel_def upd_sched_def Scheduler_find_def Scheduler_insert_def
  upd_model_def TaskModel_ctor_def Simulation_setTime_def sched_lt_def TaskModelCmp_def
  TaskModel_getPriority_def absTask_getDeadline_def TaskModel_setActive_def TaskModel_setInsertTime_def
  absTask_getTaskNumber_def absTask_getArrival_def Task_ctor_def int32_of_def Scheduler_getFirst_def
  Scheduler_getTaskN_def rq_inv_def has_active_def all_models_def insert_time_def

lemma ids_distinct_upd:
  assumes "\<And>t. t_id (tasks w' t) = t_id (tasks w t)" and "servers w' = servers w"
  shows "ids_distinct w' = ids_distinct w"
proof -
  have "absTask_getTaskNumber w' = absTask_getTaskNumber w"
    using assms by (auto simp: fun_eq_iff absTask_getTaskNumber_def split: absTask.split)
  then show ?thesis by (simp add: ids_distinct_def)
qed

lemma empty_ids: "ids_distinct empty_world"
  unfolding ids_distinct_def
  by (auto simp: empty_world_def absTask_getTaskNumber_def Task_ctor_def CBServer_ctor_def
      split: absTask.splits) presburger+

section \<open>Properties\<close>

text \<open>
  \<open>insert\<close> of a task the scheduler knows and that is not in the ready queue succeeds, adds exactly
  that task, marks its model active with the (32 bit) insertion time, and keeps the queue ordered by
  priority, insertion time and task number; \<open>insert\<close> of an unknown task fails.
\<close>

theorem insert_correct:
  assumes "rq_inv s w" and "ids_distinct w" and "a \<notin> set (sch_queue (scheds w s))"
  shows "case Scheduler_find s a w of
      None \<Rightarrow> Scheduler_insert s a w = Inl (RTSchedExc ''AbsRTTaskNotFound'')
    | Some m \<Rightarrow> \<exists>w'. Scheduler_insert s a w = Inr w' \<and> rq_inv s w'
        \<and> set (sch_queue (scheds w' s)) = insert a (set (sch_queue (scheds w s)))
        \<and> Scheduler_find s a w' = Some (m\<lparr>tm_insertTime := int32_of (globTime w), tm_active := True\<rparr>)"
  using insert_accepted [OF assms(1,2) _ assms(3)]
  by (auto simp: Scheduler_insert_def split: option.split)

lemma insert_correct_witness:
  "\<exists>w w'. two_tasks_known EDFScheduler 0 0 = Inr w \<and> Scheduler_insert 0 (TaskRef 1) w = Inr w'
     \<and> rq_inv 0 w' \<and> set (sch_queue (scheds w' 0)) = {TaskRef 1}"
proof -
  obtain w where w: "two_tasks_known EDFScheduler 0 0 = Inr w" and inv: "rq_inv 0 w"
    and q: "sch_queue (scheds w 0) = []" and found: "Scheduler_find 0 (TaskRef 1) w = Some (TaskModel_ctor (EDFModel False 0))"
    and "\<And>t. t_id (tasks w t) = t_id (tasks empty_world t)" and "servers w = servers empty_world"
    by (simp add: sched_eval)
  then have "ids_distinct w" using ids_distinct_upd [of w empty_world] empty_ids by simp
  with insert_correct [OF inv this, of "TaskRef 1"] w q found show ?thesis by auto
qed

text \<open>
  What may happen to a scheduler from the state \<open>w0\<close> on, with the tasks that have been inserted and not
  extracted since, each with the time of its insertion: tasks are made known to it, inserted and
  extracted, and in between anything that leaves its queue, its models and its policy alone and neither
  the deadline of a task that waits nor the number of any task.
\<close>

inductive sched_uses :: "nat \<Rightarrow> world \<Rightarrow> (absTask \<Rightarrow> tick option) \<Rightarrow> world \<Rightarrow> bool"
  for s :: nat and w0 :: world
where
  uses_start: "sched_uses s w0 (\<lambda>_. None) w0"
| uses_addTask: "sched_uses s w0 f w \<Longrightarrow> Scheduler_addTask s a par w = Inr w' \<Longrightarrow> sched_uses s w0 f w'"
| uses_insert: "sched_uses s w0 f w \<Longrightarrow> f a = None \<Longrightarrow> Scheduler_insert s a w = Inr w'
    \<Longrightarrow> sched_uses s w0 (f(a \<mapsto> globTime w)) w'"
| uses_extract: "sched_uses s w0 f w \<Longrightarrow> Scheduler_extract s a w = Inr w' \<Longrightarrow> sched_uses s w0 (f(a := None)) w'"
| uses_elsewhere: "sched_uses s w0 f w \<Longrightarrow> sch_queue (scheds w' s) = sch_queue (scheds w s)
    \<Longrightarrow> sch_tasks (scheds w' s) = sch_tasks (scheds w s) \<Longrightarrow> sch_kind (scheds w' s) = sch_kind (scheds w s)
    \<Longrightarrow> (\<And>a. f a \<noteq> None \<Longrightarrow> absTask_getDeadline w' a = absTask_getDeadline w a)
    \<Longrightarrow> absTask_getTaskNumber w' = absTask_getTaskNumber w \<Longrightarrow> sched_uses s w0 f w'"

definition edf_inv :: "nat \<Rightarrow> (absTask \<Rightarrow> tick option) \<Rightarrow> world \<Rightarrow> bool" where
  "edf_inv s f w \<longleftrightarrow> rq_inv s w \<and> ids_distinct w \<and> sch_kind (scheds w s) = EDFScheduler
     \<and> set (sch_queue (scheds w s)) = dom f
     \<and> (\<forall>a m. Scheduler_find s a w = Some m \<longrightarrow> tm_kind m = EDFModel False 0)
     \<and> (\<forall>a t. f a = Some t \<longrightarrow> insert_time s w a = int32_of t)"

lemma rq_inv_cong:
  assumes "sch_queue (scheds w' s) = sch_queue (scheds w s)"
    and "\<And>a. a \<in> set (sch_queue (scheds w s)) \<Longrightarrow> Scheduler_find s a w' = Scheduler_find s a w
           \<and> sched_key w' s a = sched_key w s a"
  shows "rq_inv s w' = rq_inv s w"
proof -
  have "sorted_wrt (sched_lt w' s) (sch_queue (scheds w s)) = sorted_wrt (sched_lt w s) (sch_queue (scheds w s))"
    by (rule sorted_wrt_cong) (simp add: sched_lt_key assms(2))
  moreover have "list_all (has_active w' s) (sch_queue (scheds w s)) = list_all (has_active w s) (sch_queue (scheds w s))"
    by (rule list.pred_cong) (use assms(2) in \<open>auto simp: has_active_def\<close>)
  ultimately show ?thesis by (simp add: rq_inv_def assms(1))
qed

lemma edf_addTask:
  assumes "edf_inv s f w" and "Scheduler_addTask s a par w = Inr w'"
  shows "edf_inv s f w'"
proof -
  have new: "Scheduler_find s a w = None"
    and w': "w' = upd_sched s (\<lambda>sc. sc\<lparr>sch_tasks := (sch_tasks sc)(a \<mapsto> TaskModel_ctor (EDFModel False 0))\<rparr>) w"
    using assms by (auto simp: edf_inv_def Scheduler_addTask_def Scheduler_enqueueModel_def split: if_splits)
  have known: "b \<noteq> a" if "b \<in> set (sch_queue (scheds w s))" for b
    using that new assms(1) rq_inv_active [of s w b] by (auto simp: edf_inv_def has_active_def)
  have find': "Scheduler_find s b w' = (if b = a then Some (TaskModel_ctor (EDFModel False 0)) else Scheduler_find s b w)" for b
    by (simp add: w' Scheduler_find_def upd_sched_def)
  have queue: "sch_queue (scheds w' s) = sch_queue (scheds w s)" "sch_kind (scheds w' s) = sch_kind (scheds w s)"
    by (simp_all add: w' upd_sched_def)
  have same: "absTask_getTaskNumber w' = absTask_getTaskNumber w" "TaskModel_getPriority w' = TaskModel_getPriority w"
    by (simp_all add: w')
  have "rq_inv s w' = rq_inv s w"
    by (rule rq_inv_cong) (use known in \<open>auto simp: queue find' sched_key_def same Let_def\<close>)
  moreover have "insert_time s w' b = insert_time s w b" if "f b = Some t" for b t
    using that assms(1) known [of b] by (auto simp: edf_inv_def insert_time_def find')
  ultimately show ?thesis
    using assms(1) by (auto simp: edf_inv_def queue ids_distinct_def same find' TaskModel_ctor_def split: if_splits)
qed

lemma edf_insert:
  assumes "edf_inv s f w" and "f a = None" and "Scheduler_insert s a w = Inr w'"
  shows "edf_inv s (f(a \<mapsto> globTime w)) w'"
proof -
  obtain m where m: "Scheduler_find s a w = Some m"
    using assms(3) by (auto simp: Scheduler_insert_def split: if_splits)
  have "a \<notin> set (sch_queue (scheds w s))" using assms(1,2) by (auto simp: edf_inv_def)
  with insert_accepted [OF _ _ m this] assms(1,3) have "rq_inv s w'"
    and q: "set (sch_queue (scheds w' s)) = insert a (set (sch_queue (scheds w s)))"
    and m': "Scheduler_find s a w' = Some (m\<lparr>tm_insertTime := int32_of (globTime w), tm_active := True\<rparr>)"
    by (auto simp: edf_inv_def)
  moreover have others: "Scheduler_find s b w' = Scheduler_find s b w" if "b \<noteq> a" for b
    using that assms(3) by (auto simp: Scheduler_insert_def Let_def split: if_splits)
  moreover have "absTask_getTaskNumber w' = absTask_getTaskNumber w"
    using assms(3) by (auto simp: Scheduler_insert_def Let_def split: if_splits)
  moreover have "sch_kind (scheds w' s) = sch_kind (scheds w s)"
    using assms(3) by (auto simp: Scheduler_insert_def Let_def upd_model_def upd_sched_def split: if_splits)
  moreover have "tm_kind k = EDFModel False 0" if "Scheduler_find s b w' = Some k" for b k
    using that m m' others [of b] assms(1) by (cases "b = a") (auto simp: edf_inv_def)
  ultimately show ?thesis
    using assms(1) by (auto simp: edf_inv_def ids_distinct_def insert_time_def)
qed

lemma edf_extract:
  assumes "edf_inv s f w" and "Scheduler_extract s a w = Inr w'"
  shows "edf_inv s (f(a := None)) w'"
proof -
  have found: "Scheduler_find s a w \<noteq> None"
    using assms(2) by (auto simp: Scheduler_extract_def split: if_splits)
  with extract_result [OF _ found] assms have "rq_inv s w'"
    and q: "sch_queue (scheds w' s) = remove1 a (sch_queue (scheds w s))"
    by (auto simp: edf_inv_def)
  moreover have "set (sch_queue (scheds w' s)) = dom f - {a}"
    using assms(1) rq.sorted_distinct [of w s "sch_queue (scheds w s)"] by (simp add: q edf_inv_def rq_inv_def)
  moreover have others: "Scheduler_find s b w' = (if b = a then map_option TaskModel_setInactive (Scheduler_find s a w)
      else Scheduler_find s b w)" for b
    using assms(2) by (auto simp: Scheduler_extract_def Let_def split: if_splits)
  moreover have "absTask_getTaskNumber w' = absTask_getTaskNumber w"
    using assms(2) by (auto simp: Scheduler_extract_def Let_def split: if_splits)
  moreover have "sch_kind (scheds w' s) = sch_kind (scheds w s)"
    using assms(2) by (auto simp: Scheduler_extract_def Let_def upd_model_def upd_sched_def split: if_splits)
  ultimately show ?thesis
    using assms(1) by (auto simp: edf_inv_def ids_distinct_def insert_time_def TaskModel_setInactive_def split: if_splits)
qed

lemma edf_elsewhere:
  assumes "edf_inv s f w" and "sch_queue (scheds w' s) = sch_queue (scheds w s)"
    and "sch_tasks (scheds w' s) = sch_tasks (scheds w s)" and "sch_kind (scheds w' s) = sch_kind (scheds w s)"
    and "\<And>a. f a \<noteq> None \<Longrightarrow> absTask_getDeadline w' a = absTask_getDeadline w a"
    and "absTask_getTaskNumber w' = absTask_getTaskNumber w"
  shows "edf_inv s f w'"
proof -
  have same: "Scheduler_find s a w' = Scheduler_find s a w" for a by (simp add: Scheduler_find_def assms(3))
  have "sched_key w' s a = sched_key w s a" if "a \<in> set (sch_queue (scheds w s))" for a
  proof -
    have "f a \<noteq> None" "tm_kind (the (Scheduler_find s a w)) = EDFModel False 0"
      using that assms(1) rq_inv_active [of s w a] by (auto simp: edf_inv_def has_active_def split: option.splits)
    with assms(5,6) same show ?thesis by (simp add: sched_key_edf insert_time_def)
  qed
  then have "rq_inv s w' = rq_inv s w" by (intro rq_inv_cong assms(2)) (simp add: same)
  with assms same show ?thesis by (simp add: edf_inv_def ids_distinct_def insert_time_def)
qed

text \<open>Task 0, of deadline 50, is inserted at time 0 and task 1, of deadline 15, at time 5.\<close>

lemma edf_example:
  "\<exists>w0 w. scheds w0 0 = Scheduler_ctor EDFScheduler \<and> ids_distinct w0
     \<and> sched_uses 0 w0 [TaskRef 0 \<mapsto> 0, TaskRef 1 \<mapsto> 5] w \<and> Scheduler_getFirst 0 w = Some (TaskRef 1)"
proof -
  let ?e = "empty_world\<lparr>tasks := (tasks empty_world)
           (0 := (tasks empty_world 0)\<lparr>rdl := 50, dl := 50\<rparr>,
            1 := (tasks empty_world 1)\<lparr>rdl := 10, dl := 15\<rparr>)\<rparr>"
  let ?w0 = "upd_sched 0 (\<lambda>_. Scheduler_ctor EDFScheduler) ?e"
  obtain w1 w2 w3 where w1: "Scheduler_addTask 0 (TaskRef 0) None ?w0 = Inr w1"
    and w2: "Scheduler_addTask 0 (TaskRef 1) None w1 = Inr w2" and w3: "Scheduler_insert 0 (TaskRef 0) w2 = Inr w3"
    and t: "globTime w2 = 0" "globTime w3 = 0"
    by (simp add: sched_eval)
  let ?w4 = "Simulation_setTime 5 w3"
  obtain w5 where w5: "Scheduler_insert 0 (TaskRef 1) ?w4 = Inr w5" and first: "Scheduler_getFirst 0 w5 = Some (TaskRef 1)"
    using w1 w2 w3 by (auto simp add: sched_eval)
  have "sched_uses 0 ?w0 [TaskRef 0 \<mapsto> 0] w3"
    using uses_insert [OF uses_addTask [OF uses_addTask [OF uses_start w1] w2] _ w3] t by simp
  then have "sched_uses 0 ?w0 [TaskRef 0 \<mapsto> 0] ?w4"
    by (rule uses_elsewhere)
      (simp_all add: Simulation_setTime_def absTask_getDeadline_def absTask_getTaskNumber_def fun_eq_iff split: absTask.split)
  from uses_insert [OF this _ w5] have uses: "sched_uses 0 ?w0 [TaskRef 0 \<mapsto> 0, TaskRef 1 \<mapsto> 5] w5"
    by (simp add: Simulation_setTime_def)
  moreover have "ids_distinct ?w0" "scheds ?w0 0 = Scheduler_ctor EDFScheduler"
    using ids_distinct_upd [of ?w0 empty_world] empty_ids by (simp_all add: upd_sched_def)
  ultimately show ?thesis using first by blast
qed

text \<open>
  C15. Earliest deadline first: after any such use of a new \<open>EDFScheduler\<close> its ready queue holds exactly
  the tasks that were inserted and not extracted, each once, and the first of them, if there is any, has
  the earliest deadline; among equal deadlines it is the one inserted first (by the 32 bits that are kept
  of that time), then the one with the least number.
\<close>

theorem edf_earliest_deadline_first:
  assumes "scheds w0 s = Scheduler_ctor EDFScheduler" and "ids_distinct w0" and "sched_uses s w0 f w"
  shows "set (Scheduler_getTasks s w) = dom f \<and> distinct (Scheduler_getTasks s w) \<and>
    (case Scheduler_getFirst s w of
       None \<Rightarrow> dom f = {}
     | Some a \<Rightarrow> a \<in> dom f \<and> (\<forall>b\<in>dom f.
         (absTask_getDeadline w a, int32_of (the (f a)), absTask_getTaskNumber w a)
           \<le> (absTask_getDeadline w b, int32_of (the (f b)), absTask_getTaskNumber w b)))"
proof -
  have "edf_inv s f w"
    using assms(3)
  proof induction
    case uses_start
    show ?case using assms(1,2) by (simp add: edf_inv_def rq_inv_def Scheduler_ctor_def Scheduler_find_def)
  qed (blast intro: edf_addTask edf_insert edf_extract edf_elsewhere)+
  then have inv: "rq_inv s w" and q: "set (sch_queue (scheds w s)) = dom f"
    by (simp_all add: edf_inv_def)
  have key: "sched_key w s a = (absTask_getDeadline w a, int32_of (the (f a)), absTask_getTaskNumber w a)"
    if "a \<in> dom f" for a
  proof -
    have "has_active w s a" using that q rq_inv_active [OF inv] by blast
    then have "tm_kind (the (Scheduler_find s a w)) = EDFModel False 0"
      using \<open>edf_inv s f w\<close> by (auto simp: edf_inv_def has_active_def split: option.splits)
    moreover have "insert_time s w a = int32_of (the (f a))"
      using that \<open>edf_inv s f w\<close> by (auto simp: edf_inv_def)
    ultimately show ?thesis by (simp add: sched_key_edf)
  qed
  have "Scheduler_getFirst s w = None \<Longrightarrow> dom f = {}"
    using q by (auto simp: Scheduler_getFirst_def Scheduler_getTaskN_def split: if_splits)
  moreover have "a \<in> dom f \<and> (\<forall>b\<in>dom f.
         (absTask_getDeadline w a, int32_of (the (f a)), absTask_getTaskNumber w a)
           \<le> (absTask_getDeadline w b, int32_of (the (f b)), absTask_getTaskNumber w b))"
    if "Scheduler_getFirst s w = Some a" for a
    using getFirst_queued [OF that] getFirst_least [OF inv that] q key by metis
  ultimately show ?thesis
    using rq.sorted_distinct [OF rq_inv_sorted [OF inv]]
    by (simp add: Scheduler_getTasks_def q split: option.split)
qed

theorem edf_earliest_deadline_first_witness:
  "\<exists>w. Scheduler_getFirst 0 w = Some (TaskRef 1) \<and> set (Scheduler_getTasks 0 w) = {TaskRef 0, TaskRef 1}
     \<and> absTask_getDeadline w (TaskRef 1) \<le> absTask_getDeadline w (TaskRef 0)"
proof -
  obtain w0 w where ex: "scheds w0 0 = Scheduler_ctor EDFScheduler" "ids_distinct w0"
      "sched_uses 0 w0 [TaskRef 0 \<mapsto> 0, TaskRef 1 \<mapsto> 5] w"
    and first: "Scheduler_getFirst 0 w = Some (TaskRef 1)"
    using edf_example by blast
  let ?f = "[TaskRef 0 \<mapsto> 0, TaskRef 1 \<mapsto> 5 :: tick]"
  note all = edf_earliest_deadline_first [OF ex, unfolded first option.case]
  have "dom ?f = {TaskRef 0, TaskRef 1}" by auto
  moreover from this all have "(absTask_getDeadline w (TaskRef 1), int32_of (the (?f (TaskRef 1))), absTask_getTaskNumber w (TaskRef 1))
      \<le> (absTask_getDeadline w (TaskRef 0), int32_of (the (?f (TaskRef 0))), absTask_getTaskNumber w (TaskRef 0))" by blast
  then have "absTask_getDeadline w (TaskRef 1) \<le> absTask_getDeadline w (TaskRef 0)"
    unfolding less_eq_prod_simp by (metis less_imp_le order_refl)
  ultimately show ?thesis using first all by (intro exI [of _ w]) simp
qed

text \<open>
  The rate monotonic scheduler does not order tasks by their relative deadlines: for the models
  \<open>RMScheduler::addTask\<close> creates, the front of the ready queue is the task inserted first, whatever
  the deadlines.
\<close>

theorem rm_first_inserted:
  assumes "rq_inv s w" and "all_models (\<lambda>k. k = RMModel 0 False) s w"
    and "Scheduler_getFirst s w = Some a" and "b \<in> set (sch_queue (scheds w s))"
  shows "(insert_time s w a, absTask_getTaskNumber w a) \<le> (insert_time s w b, absTask_getTaskNumber w b)"
proof -
  have "tm_kind (the (Scheduler_find s x w)) = RMModel 0 False" if "x \<in> {a, b}" for x
    using all_modelsD [OF assms(2)] getFirst_queued [OF assms(3)] assms(4) that by blast
  from sched_key_rm [OF this] have "sched_key w s x = (0, insert_time s w x, absTask_getTaskNumber w x)"
    if "x \<in> {a, b}" for x using that .
  with getFirst_least [OF assms(1,3,4)] show ?thesis by simp
qed

lemma rm_first_inserted_witness:
  "\<exists>w. two_tasks RMScheduler 0 5 = Inr w \<and> Scheduler_getFirst 0 w = Some (TaskRef 0)
     \<and> absTask_getRelDline w (TaskRef 1) < absTask_getRelDline w (TaskRef 0)
     \<and> insert_time 0 w (TaskRef 0) \<le> insert_time 0 w (TaskRef 1)"
proof -
  obtain w where w: "two_tasks RMScheduler 0 5 = Inr w" and "rq_inv 0 w"
    and "all_models (\<lambda>k. k = RMModel 0 False) 0 w" and "Scheduler_getFirst 0 w = Some (TaskRef 0)"
    and "TaskRef 1 \<in> set (sch_queue (scheds w 0))"
    and "absTask_getRelDline w (TaskRef 1) < absTask_getRelDline w (TaskRef 0)"
    by (simp add: sched_eval absTask_getRelDline_def)
  from rm_first_inserted [OF this(2-5)] this show ?thesis by auto
qed

text \<open>
  Insertion times are kept in 32 bits: a \<open>TrueFIFOScheduler\<close> task inserted from tick \<open>2 ^ 31\<close> on
  (and before \<open>2 ^ 32\<close>) is served before one that has been waiting since an earlier tick.
\<close>

theorem truefifo_insert_time_wraps:
  assumes "rq_inv s w" and "all_models (\<lambda>k. k = TrueFIFOModel) s w"
    and "a \<in> set (sch_queue (scheds w s))" and "b \<in> set (sch_queue (scheds w s))"
    and "insert_time s w a = int32_of ta" and "insert_time s w b = int32_of tb"
    and "0 \<le> ta" and "ta < 2 ^ 31" and "2 ^ 31 \<le> tb" and "tb < 2 ^ 32"
  shows "Scheduler_getFirst s w \<noteq> Some a"
proof
  assume "Scheduler_getFirst s w = Some a"
  then have "sched_key w s a \<le> sched_key w s b"
    by (rule getFirst_least [OF assms(1) _ assms(4)])
  then have "insert_time s w a \<le> insert_time s w b"
    using all_modelsD [OF assms(2)] assms(3,4) by (auto simp: sched_key_truefifo)
  with int32_of_small [OF assms(7,8)] int32_of_wrapped [OF assms(9,10)] assms(5-7) show False by simp
qed

lemma truefifo_insert_time_wraps_witness:
  "\<exists>w. two_tasks TrueFIFOScheduler (2 ^ 31 - 1) (2 ^ 31) = Inr w
     \<and> Scheduler_getFirst 0 w \<noteq> Some (TaskRef 0)"
proof -
  obtain w where w: "two_tasks TrueFIFOScheduler (2 ^ 31 - 1) (2 ^ 31) = Inr w" and "rq_inv 0 w"
    and "all_models (\<lambda>k. k = TrueFIFOModel) 0 w" and "TaskRef 0 \<in> set (sch_queue (scheds w 0))"
    and "TaskRef 1 \<in> set (sch_queue (scheds w 0))" and "insert_time 0 w (TaskRef 0) = int32_of (2 ^ 31 - 1)"
    and "insert_time 0 w (TaskRef 1) = int32_of (2 ^ 31)"
    by (simp add: sched_eval)
  from truefifo_insert_time_wraps [OF this(2-7)] this show ?thesis by simp
qed

end
