(* ===== verification/RTKernel.thy ===== *)
theory RTKernel
  imports RTScheduler_Laws
begin

text \<open>
  The single processor kernel \<open>RTKernel\<close> (\<open>kernel.cpp\<close>, \<open>kernevt.hpp\<close>), the multi processor kernel
  \<open>MRTKernel\<close> (\<open>mrtkernel.cpp\<close>), and the two methods of \<open>AbsTask\<close> they call: \<open>schedule\<close> and
  \<open>deschedule\<close> of \<open>Task\<close> and \<open>Server\<close>, which only post events.
\<close>

section \<open>AbsTask\<close>

definition Task_schedule :: "nat \<Rightarrow> world \<Rightarrow> exc + world" where
  "Task_schedule t w =
     Event_process (SchedEvt t) False (upd_task t (\<lambda>k. k\<lparr>lastSched := globTime w\<rparr>) w)"

definition Task_deschedule :: "nat \<Rightarrow> world \<Rightarrow> exc + world" where
  "Task_deschedule t w = Event_process (DeschedEvt t) False (Event_drop (SchedEvt t) w)"

definition Server_schedule :: "nat \<Rightarrow> world \<Rightarrow> exc + world" where
  "Server_schedule s = Event_process (SrvSchedEvt s) False"

definition Server_deschedule :: "nat \<Rightarrow> world \<Rightarrow> exc + world" where
  "Server_deschedule s = Event_process (SrvDeschedEvt s) False"

definition absTask_schedule :: "absTask \<Rightarrow> world \<Rightarrow> exc + world" where
  "absTask_schedule a = (case a of TaskRef t \<Rightarrow> Task_schedule t | ServerRef s \<Rightarrow> Server_schedule s)"

definition absTask_deschedule :: "absTask \<Rightarrow> world \<Rightarrow> exc + world" where
  "absTask_deschedule a = (case a of TaskRef t \<Rightarrow> Task_deschedule t | ServerRef s \<Rightarrow> Server_deschedule s)"

definition Task_setKernel :: "nat \<Rightarrow> kernref \<Rightarrow> world \<Rightarrow> exc + world" where
  "Task_setKernel t k w =
    (if tkernel (tasks w t) \<noteq> None then Inl KernAlreadySet
     else Inr (upd_task t (\<lambda>x. x\<lparr>tkernel := Some k\<rparr>) w))"

definition Server_setKernel :: "nat \<Rightarrow> rtkref \<Rightarrow> world \<Rightarrow> world" where
  "Server_setKernel s k = upd_server s (\<lambda>x. x\<lparr>srv_kernel := Some k\<rparr>)"

section \<open>RTKernel\<close>

definition RTKernel_addTask :: "nat \<Rightarrow> absTask \<Rightarrow> int option \<Rightarrow> world \<Rightarrow> exc + world" where
  "RTKernel_addTask k a par w =
     bindE (case a of TaskRef t \<Rightarrow> Task_setKernel t (KRoot (RTK k)) w
                    | ServerRef s \<Rightarrow> Inr (Server_setKernel s (RTK k) w)) (\<lambda>w1.
     Scheduler_addTask (rk_sched (rtks w1 k)) a par
       (upd_rtk k (\<lambda>x. x\<lparr>rk_handled := rk_handled x @ [a]\<rparr>) w1))"

definition RTKernel_getProcessor :: "nat \<Rightarrow> absTask \<Rightarrow> world \<Rightarrow> nat option" where
  "RTKernel_getProcessor k a w = rk_cpu (rtks w k)"

definition RTKernel_getOldProcessor :: "nat \<Rightarrow> absTask \<Rightarrow> world \<Rightarrow> nat option" where
  "RTKernel_getOldProcessor k a w = rk_cpu (rtks w k)"

definition RTKernel_activate :: "nat \<Rightarrow> absTask \<Rightarrow> world \<Rightarrow> exc + world" where
  "RTKernel_activate k a w = Scheduler_insert (rk_sched (rtks w k)) a w"

definition RTKernel_suspend :: "nat \<Rightarrow> absTask \<Rightarrow> world \<Rightarrow> exc + world" where
  "RTKernel_suspend k a w =
     bindE (Scheduler_extract (rk_sched (rtks w k)) a w) (\<lambda>w1.
     if rk_currExe (rtks w1 k) = Some a
     then bindE (absTask_deschedule a w1) (\<lambda>w2. Inr (upd_rtk k (\<lambda>x. x\<lparr>rk_currExe := None\<rparr>) w2))
     else Inr w1)"

definition RTKernel_discardTasks :: "nat \<Rightarrow> world \<Rightarrow> world" where
  "RTKernel_discardTasks k w =
     upd_rtk k (\<lambda>x. x\<lparr>rk_handled := []\<rparr>) (Scheduler_discardTasks (rk_sched (rtks w k)) w)"

definition RTKernel_dispatch :: "nat \<Rightarrow> world \<Rightarrow> exc + world" where
  "RTKernel_dispatch k w =
     Event_post (BeginDispatchEvt k) (globTime w) False (Event_drop (BeginDispatchEvt k) w)"

text \<open>Both branches of the test on \<open>_isContextSwitching\<close> call \<open>dispatch\<close>.\<close>

definition RTKernel_onArrival :: "nat \<Rightarrow> absTask \<Rightarrow> world \<Rightarrow> exc + world" where
  "RTKernel_onArrival k a w =
     bindE (Scheduler_insert (rk_sched (rtks w k)) a w) (\<lambda>w1.
     if \<not> rk_isContextSwitching (rtks w1 k) then RTKernel_dispatch k w1 else RTKernel_dispatch k w1)"

definition RTKernel_onEnd :: "nat \<Rightarrow> absTask \<Rightarrow> world \<Rightarrow> exc + world" where
  "RTKernel_onEnd k a w =
    (if RTKernel_getProcessor k a w = None
     then Inl (RTKernelExc ''Received a onEnd of a non executing task'')
     else
       bindE (Scheduler_extract (rk_sched (rtks w k)) a w) (\<lambda>w1.
       let w2 = (if rk_currExe (rtks w1 k) = Some a
                 then upd_rtk k (\<lambda>x. x\<lparr>rk_currExe := None\<rparr>) w1 else w1)
       in RTKernel_dispatch k w2))"

definition RTKernel_onBeginDispatch :: "nat \<Rightarrow> world \<Rightarrow> exc + world" where
  "RTKernel_onBeginDispatch k w =
    (let newExe = Scheduler_getFirst (rk_sched (rtks w k)) w;
         currExe = rk_currExe (rtks w k)
     in if currExe \<noteq> newExe then
          bindE (case currExe of None \<Rightarrow> Inr w | Some a \<Rightarrow> absTask_deschedule a w) (\<lambda>w1.
          case newExe of
            None \<Rightarrow> Inr w1
          | Some b \<Rightarrow>
              let w2 = upd_rtk k (\<lambda>x. x\<lparr>rk_isContextSwitching := True, rk_currExe := Some b\<rparr>) w1
              in Event_post (EndDispatchEvt k) (globTime w2 + rk_contextSwitchDelay (rtks w2 k)) False w2)
        else Scheduler_notify (rk_sched (rtks w k)) newExe w)"

definition RTKernel_onEndDispatch :: "nat \<Rightarrow> world \<Rightarrow> exc + world" where
  "RTKernel_onEndDispatch k w = (case rk_currExe (rtks w k) of
      None \<Rightarrow> Inl (NullPointer ''_currExe'')
    | Some a \<Rightarrow>
        bindE (absTask_schedule a w) (\<lambda>w1.
        let w2 = upd_rtk k (\<lambda>x. x\<lparr>rk_isContextSwitching := False\<rparr>) w1
        in Scheduler_notify (rk_sched (rtks w2 k)) (rk_currExe (rtks w2 k)) w2))"

definition RTKernel_newRun :: "nat \<Rightarrow> world \<Rightarrow> world" where
  "RTKernel_newRun k = upd_rtk k (\<lambda>x. x\<lparr>rk_currExe := None\<rparr>)"

definition RTKernel_endRun :: "nat \<Rightarrow> world \<Rightarrow> world" where
  "RTKernel_endRun k = upd_rtk k (\<lambda>x. x\<lparr>rk_currExe := None\<rparr>)"

definition RTKernel_getRunningTasks :: "nat \<Rightarrow> world \<Rightarrow> absTask list" where
  "RTKernel_getRunningTasks k w = (case rk_currExe (rtks w k) of None \<Rightarrow> [] | Some a \<Rightarrow> [a])"

section \<open>MRTKernel\<close>

definition MRTKernel_getFreeProcessor :: "nat \<Rightarrow> world \<Rightarrow> nat option" where
  "MRTKernel_getFreeProcessor k w =
     List.find (\<lambda>c. mk_currExe (mrtks w k) c = None) (mk_cpus (mrtks w k))"

text \<open>\<open>_m_dispatched\<close> has an entry for every handled task and for no other with a processor.\<close>

definition MRTKernel_isDispatched :: "nat \<Rightarrow> nat \<Rightarrow> world \<Rightarrow> bool" where
  "MRTKernel_isDispatched k p w \<longleftrightarrow>
     list_ex (\<lambda>a. mk_dispatched (mrtks w k) a = Some p) (mk_handled (mrtks w k))"

text \<open>The iterators are positions in \<open>mk_cpus\<close>: the rest of the list, empty at the end.\<close>

definition MRTKernel_getNextFreeProc :: "nat \<Rightarrow> nat list \<Rightarrow> world \<Rightarrow> nat list" where
  "MRTKernel_getNextFreeProc k rest w =
     dropWhile (\<lambda>c. \<not> (mk_currExe (mrtks w k) c = None \<and> \<not> MRTKernel_isDispatched k c w)) rest"

text \<open>\<open>getProcessor\<close> returns the last processor in the map that runs the task.\<close>

definition MRTKernel_getProcessor :: "nat \<Rightarrow> absTask \<Rightarrow> world \<Rightarrow> nat option" where
  "MRTKernel_getProcessor k a w =
     foldl (\<lambda>ret c. if mk_currExe (mrtks w k) c = Some a then Some c else ret) None (mk_cpus (mrtks w k))"

definition MRTKernel_getOldProcessor :: "nat \<Rightarrow> absTask \<Rightarrow> world \<Rightarrow> nat option" where
  "MRTKernel_getOldProcessor k a w = mk_oldExe (mrtks w k) a"

definition MRTKernel_addCPU :: "nat \<Rightarrow> nat \<Rightarrow> world \<Rightarrow> world" where
  "MRTKernel_addCPU k c =
     upd_mrtk k (\<lambda>x. x\<lparr>mk_cpus := insort c (remove1 c (mk_cpus x)), mk_currExe := (mk_currExe x)(c := None),
       mk_isContextSwitching := (mk_isContextSwitching x)(c := False), mk_endTask := (mk_endTask x)(c := None)\<rparr>)
     \<circ> upd_event (BeginDispatchMultiEvt k c) (\<lambda>_. Event_ctor (DEFAULT_PRIORITY + 10))
     \<circ> upd_event (EndDispatchMultiEvt k c) (\<lambda>_. Event_ctor (DEFAULT_PRIORITY + 10))"

text \<open>Every server is a \<open>CBServer\<close> here.\<close>

definition MRTKernel_addTask :: "nat \<Rightarrow> absTask \<Rightarrow> int option \<Rightarrow> world \<Rightarrow> exc + world" where
  "MRTKernel_addTask k a par w =
     bindE (case a of TaskRef t \<Rightarrow> Task_setKernel t (KRoot (MRTK k)) w
                    | ServerRef s \<Rightarrow> Inr (Server_setKernel s (MRTK k) w)) (\<lambda>w1.
     bindE (Scheduler_addTask (mk_sched (mrtks w1 k)) a par
              (upd_mrtk k (\<lambda>x. x\<lparr>mk_handled := mk_handled x @ [a]\<rparr>) w1)) (\<lambda>w2.
     Inr (upd_mrtk k (\<lambda>x. x\<lparr>mk_oldExe := (mk_oldExe x)(a := None),
            mk_dispatched := (mk_dispatched x)(a := None),
            mk_servers := (case a of TaskRef _ \<Rightarrow> mk_servers x | ServerRef s \<Rightarrow> mk_servers x @ [s])\<rparr>) w2)))"

definition MRTKernel_dispatch_cpu :: "nat \<Rightarrow> nat \<Rightarrow> world \<Rightarrow> exc + world" where
  "MRTKernel_dispatch_cpu k p w =
    (let w1 = Event_drop (BeginDispatchMultiEvt k p) w in
     if mk_isContextSwitching (mrtks w1 k) p then
       bindE (Event_post (BeginDispatchMultiEvt k p) (ev_time (evs w1 (EndDispatchMultiEvt k p))) False w1) (\<lambda>w2.
       let task = mk_endTask (mrtks w2 k) p;
           w3 = Event_drop (EndDispatchMultiEvt k p) w2
       in Inr (case task of
            None \<Rightarrow> w3
          | Some a \<Rightarrow> upd_mrtk k (\<lambda>x. x\<lparr>mk_endTask := (mk_endTask x)(p := None),
                        mk_dispatched := (mk_dispatched x)(a := None)\<rparr>) w3))
     else Event_post (BeginDispatchMultiEvt k p) (globTime w1) False w1)"

text \<open>The tasks among the first \<open>ncpu\<close> of the ready queue that are neither running nor dispatched.\<close>

definition MRTKernel_num_newtasks :: "nat \<Rightarrow> world \<Rightarrow> nat" where
  "MRTKernel_num_newtasks k w =
     length (filter (\<lambda>a. MRTKernel_getProcessor k a w = None \<and> mk_dispatched (mrtks w k) a = None)
       (take (length (mk_cpus (mrtks w k))) (sch_queue (scheds w (mk_sched (mrtks w k))))))"

text \<open>
  The inner loop: from position \<open>i\<close> of the ready queue (the rest \<open>q\<close>) on, the first task with a
  processor; \<open>None\<close> when the queue ends, else the processor and the rest after the task.
\<close>

fun MRTKernel_find_victim :: "(absTask \<Rightarrow> nat option) \<Rightarrow> absTask list \<Rightarrow> (nat \<times> absTask list) option" where
  "MRTKernel_find_victim dispatched [] = None"
| "MRTKernel_find_victim dispatched (a # q) = (case dispatched a of
      Some c \<Rightarrow> Some (c, q)
    | None \<Rightarrow> MRTKernel_find_victim dispatched q)"

text \<open>
  The outer loop, with \<open>n\<close> for \<open>num_newtasks\<close>, \<open>f\<close> for the iterator and \<open>q\<close> for the ready queue from
  position \<open>i\<close>.  Dispatching on a processor does not change the ready queue.
\<close>

fun MRTKernel_dispatch_loop :: "nat \<Rightarrow> nat \<Rightarrow> nat list \<Rightarrow> absTask list \<Rightarrow> world \<Rightarrow> exc + world" where
  "MRTKernel_dispatch_loop k 0 f q w = Inr w"
| "MRTKernel_dispatch_loop k (Suc n) f q w = (case MRTKernel_getNextFreeProc k f w of
      c # rest \<Rightarrow>
        bindE (MRTKernel_dispatch_cpu k c w) (\<lambda>w1. MRTKernel_dispatch_loop k n rest q w1)
    | [] \<Rightarrow>
        (case MRTKernel_find_victim (mk_dispatched (mrtks w k)) q of
           None \<Rightarrow> Inl (RTKernelExc ''Can't find enough tasks to deschedule!'')
         | Some (c, q') \<Rightarrow>
             bindE (MRTKernel_dispatch_cpu k c w) (\<lambda>w1. MRTKernel_dispatch_loop k n [] q' w1)))"

definition MRTKernel_dispatch :: "nat \<Rightarrow> world \<Rightarrow> exc + world" where
  "MRTKernel_dispatch k w =
    (let n = MRTKernel_num_newtasks k w in
     if n < 1 then Inr w
     else MRTKernel_dispatch_loop k n (mk_cpus (mrtks w k))
            (drop (length (mk_cpus (mrtks w k))) (sch_queue (scheds w (mk_sched (mrtks w k))))) w)"

definition MRTKernel_onArrival :: "nat \<Rightarrow> absTask \<Rightarrow> world \<Rightarrow> exc + world" where
  "MRTKernel_onArrival k a w =
     bindE (Scheduler_insert (mk_sched (mrtks w k)) a w) (MRTKernel_dispatch k)"

text \<open>\<open>activate\<close> is inherited from \<open>RTKernel\<close>.\<close>

definition MRTKernel_activate :: "nat \<Rightarrow> absTask \<Rightarrow> world \<Rightarrow> exc + world" where
  "MRTKernel_activate k a w = Scheduler_insert (mk_sched (mrtks w k)) a w"

definition MRTKernel_suspend :: "nat \<Rightarrow> absTask \<Rightarrow> world \<Rightarrow> exc + world" where
  "MRTKernel_suspend k a w =
     bindE (Scheduler_extract (mk_sched (mrtks w k)) a w) (\<lambda>w1.
     case MRTKernel_getProcessor k a w1 of
       None \<Rightarrow> Inr w1
     | Some p \<Rightarrow>
         bindE (absTask_deschedule a w1) (\<lambda>w2.
         MRTKernel_dispatch_cpu k p
           (upd_mrtk k (\<lambda>x. x\<lparr>mk_currExe := (mk_currExe x)(p := None), mk_oldExe := (mk_oldExe x)(a := Some p),
              mk_dispatched := (mk_dispatched x)(a := None)\<rparr>) w2)))"

definition MRTKernel_onEnd :: "nat \<Rightarrow> absTask \<Rightarrow> world \<Rightarrow> exc + world" where
  "MRTKernel_onEnd k a w = (case MRTKernel_getProcessor k a w of
      None \<Rightarrow> Inl (RTKernelExc ''Received a onEnd of a non executing task'')
    | Some p \<Rightarrow>
        bindE (Scheduler_extract (mk_sched (mrtks w k)) a w) (\<lambda>w1.
        MRTKernel_dispatch_cpu k p
          (upd_mrtk k (\<lambda>x. x\<lparr>mk_oldExe := (mk_oldExe x)(a := Some p), mk_currExe := (mk_currExe x)(p := None),
             mk_dispatched := (mk_dispatched x)(a := None)\<rparr>) w1)))"

text \<open>The scan of the ready queue for the first task that is not dispatched.\<close>

definition MRTKernel_select :: "nat \<Rightarrow> world \<Rightarrow> absTask option" where
  "MRTKernel_select k w =
     List.find (\<lambda>a. mk_dispatched (mrtks w k) a = None) (sch_queue (scheds w (mk_sched (mrtks w k))))"

definition MRTKernel_onBeginDispatchMulti :: "nat \<Rightarrow> nat \<Rightarrow> world \<Rightarrow> exc + world" where
  "MRTKernel_onBeginDispatchMulti k p w =
     bindE (case mk_currExe (mrtks w k) p of
              None \<Rightarrow> Inr w
            | Some dt \<Rightarrow> absTask_deschedule dt
                (upd_mrtk k (\<lambda>x. x\<lparr>mk_oldExe := (mk_oldExe x)(dt := Some p),
                   mk_currExe := (mk_currExe x)(p := None), mk_dispatched := (mk_dispatched x)(dt := None)\<rparr>) w))
     (\<lambda>w1.
       let st = MRTKernel_select k w1;
           w2 = upd_mrtk k (\<lambda>x. x\<lparr>mk_dispatched := (case st of None \<Rightarrow> mk_dispatched x
                                               | Some a \<Rightarrow> (mk_dispatched x)(a := Some p)),
                  mk_endTask := (mk_endTask x)(p := st),
                  mk_isContextSwitching := (mk_isContextSwitching x)(p := True)\<rparr>) w1;
           migrated = (case st of None \<Rightarrow> False
             | Some a \<Rightarrow> mk_oldExe (mrtks w2 k) a \<noteq> Some p \<and> mk_oldExe (mrtks w2 k) a \<noteq> None);
           overhead = mk_contextSwitchDelay (mrtks w2 k)
             + (if migrated then mk_migrationDelay (mrtks w2 k) else 0)
       in Event_post (EndDispatchMultiEvt k p) (globTime w2 + overhead) False w2)"

definition MRTKernel_onEndDispatchMulti :: "nat \<Rightarrow> nat \<Rightarrow> world \<Rightarrow> exc + world" where
  "MRTKernel_onEndDispatchMulti k p w =
    (let st = mk_endTask (mrtks w k) p;
         w1 = upd_mrtk k (\<lambda>x. x\<lparr>mk_currExe := (mk_currExe x)(p := st)\<rparr>) w
     in bindE (case st of None \<Rightarrow> Inr w1 | Some a \<Rightarrow> absTask_schedule a w1) (\<lambda>w2.
        Scheduler_notify (mk_sched (mrtks w2 k)) st
          (upd_mrtk k (\<lambda>x. x\<lparr>mk_isContextSwitching := (mk_isContextSwitching x)(p := False)\<rparr>) w2)))"

text \<open>The extraction of the tasks still on a processor, shared by \<open>newRun\<close> and \<open>endRun\<close>.\<close>

fun MRTKernel_clear_cpus :: "nat \<Rightarrow> nat list \<Rightarrow> world \<Rightarrow> exc + world" where
  "MRTKernel_clear_cpus k [] w = Inr w"
| "MRTKernel_clear_cpus k (c # cs) w =
     bindE (case mk_currExe (mrtks w k) c of
              None \<Rightarrow> Inr w
            | Some a \<Rightarrow> Scheduler_extract (mk_sched (mrtks w k)) a w) (\<lambda>w1.
     MRTKernel_clear_cpus k cs (upd_mrtk k (\<lambda>x. x\<lparr>mk_currExe := (mk_currExe x)(c := None)\<rparr>) w1))"

definition MRTKernel_newRun :: "nat \<Rightarrow> world \<Rightarrow> exc + world" where
  "MRTKernel_newRun k w =
     bindE (MRTKernel_clear_cpus k (mk_cpus (mrtks w k)) w) (\<lambda>w1.
     Inr (upd_mrtk k (\<lambda>x. x\<lparr>mk_dispatched := (\<lambda>_. None), mk_oldExe := (\<lambda>_. None)\<rparr>) w1))"

definition MRTKernel_endRun :: "nat \<Rightarrow> world \<Rightarrow> exc + world" where
  "MRTKernel_endRun k w = MRTKernel_clear_cpus k (mk_cpus (mrtks w k)) w"

definition MRTKernel_getTask :: "nat \<Rightarrow> nat \<Rightarrow> world \<Rightarrow> absTask option" where
  "MRTKernel_getTask k c w = mk_currExe (mrtks w k) c"

definition MRTKernel_getRunningTasks :: "nat \<Rightarrow> world \<Rightarrow> absTask list" where
  "MRTKernel_getRunningTasks k w =
     List.map_filter (\<lambda>c. mk_currExe (mrtks w k) c) (mk_cpus (mrtks w k))"

section \<open>The virtual methods of a root kernel\<close>

definition root_activate :: "rtkref \<Rightarrow> absTask \<Rightarrow> world \<Rightarrow> exc + world" where
  "root_activate r = (case r of RTK k \<Rightarrow> RTKernel_activate k | MRTK k \<Rightarrow> MRTKernel_activate k)"

definition root_suspend :: "rtkref \<Rightarrow> absTask \<Rightarrow> world \<Rightarrow> exc + world" where
  "root_suspend r = (case r of RTK k \<Rightarrow> RTKernel_suspend k | MRTK k \<Rightarrow> MRTKernel_suspend k)"

definition root_dispatch :: "rtkref \<Rightarrow> world \<Rightarrow> exc + world" where
  "root_dispatch r = (case r of RTK k \<Rightarrow> RTKernel_dispatch k | MRTK k \<Rightarrow> MRTKernel_dispatch k)"

definition root_onArrival :: "rtkref \<Rightarrow> absTask \<Rightarrow> world \<Rightarrow> exc + world" where
  "root_onArrival r = (case r of RTK k \<Rightarrow> RTKernel_onArrival k | MRTK k \<Rightarrow> MRTKernel_onArrival k)"

definition root_onEnd :: "rtkref \<Rightarrow> absTask \<Rightarrow> world \<Rightarrow> exc + world" where
  "root_onEnd r = (case r of RTK k \<Rightarrow> RTKernel_onEnd k | MRTK k \<Rightarrow> MRTKernel_onEnd k)"

definition root_getProcessor :: "rtkref \<Rightarrow> absTask \<Rightarrow> world \<Rightarrow> nat option" where
  "root_getProcessor r = (case r of RTK k \<Rightarrow> RTKernel_getProcessor k | MRTK k \<Rightarrow> MRTKernel_getProcessor k)"

definition root_getOldProcessor :: "rtkref \<Rightarrow> absTask \<Rightarrow> world \<Rightarrow> nat option" where
  "root_getOldProcessor r = (case r of
      RTK k \<Rightarrow> RTKernel_getOldProcessor k | MRTK k \<Rightarrow> MRTKernel_getOldProcessor k)"

end
