(* ===== verification/RTKernel_Laws.thy ===== *)
theory RTKernel_Laws
  imports RTKernel
begin

section \<open>What the engine operations leave alone\<close>

definition same_objects :: "world \<Rightarrow> world \<Rightarrow> bool" where
  "same_objects w w' \<longleftrightarrow> tasks w' = tasks w \<and> servers w' = servers w \<and> scheds w' = scheds w
     \<and> rtks w' = rtks w \<and> mrtks w' = mrtks w \<and> cpus w' = cpus w \<and> resmans w' = resmans w"

lemma drop_objects [simp]:
  "tasks (Event_drop e w) = tasks w" "servers (Event_drop e w) = servers w"
  "scheds (Event_drop e w) = scheds w" "rtks (Event_drop e w) = rtks w"
  "mrtks (Event_drop e w) = mrtks w" "cpus (Event_drop e w) = cpus w"
  "resmans (Event_drop e w) = resmans w"
  by (simp_all add: Event_drop_def upd_event_def)

lemma post_objects: "Event_post e t d w = Inr w' \<Longrightarrow> same_objects w w'"
  by (auto simp: Event_post_def Event_setTime_def Let_def same_objects_def upd_event_def
      split: if_splits prod.splits)

lemma post_effect:
  "Event_post e t d w = Inr w' \<Longrightarrow>
     ev_time (evs w' e) = t \<and> ev_isInQueue (evs w' e) \<and> globTime w' = globTime w \<and> mrtks w' = mrtks w"
  by (auto simp: Event_post_def Event_setTime_def Let_def upd_event_def split: if_splits prod.splits)

lemma process_clock: "Event_process e d (w :: world) = Inr w' \<Longrightarrow> globTime w' = globTime w"
  by (auto simp: Event_process_def Let_def Event_setPriority_def upd_event_def Event_drop_def
      dest!: post_effect)

lemma process_objects: "Event_process e d w = Inr w' \<Longrightarrow> same_objects w w'"
  by (auto simp: Event_process_def Let_def same_objects_def Event_setPriority_def upd_event_def
      dest!: post_objects)

section \<open>What the kernels can change\<close>

text \<open>
  The interface between the kernels and a property of the state.  A property that the changes of the
  schedulers and of the single processor kernel keep, and the events but the end of a switch of a
  multi processor kernel, the timers of a server and the arrivals of a task, is kept by every operation of \<open>RTKernel\<close>
  (\<open>sched_ops\<close>).  If it is kept by the operations of \<open>MRTKernel\<close> too, it is kept by those of any kernel
  (\<open>kernel_ops\<close>); that holds for a property that no change of an \<open>MRTKernel\<close> breaks (\<open>kernel_frame\<close>),
  and for the consistency of its own bookkeeping.
\<close>

definition ends_switch :: "evt \<Rightarrow> bool" where
  "ends_switch e = (case e of EndDispatchMultiEvt k p \<Rightarrow> True | _ \<Rightarrow> False)"

definition server_timer :: "evt \<Rightarrow> bool" where
  "server_timer e = (case e of BandExEvt s \<Rightarrow> True | RechargingEvt s \<Rightarrow> True | ReplEvt s \<Rightarrow> True
     | IdleEvt s \<Rightarrow> True | _ \<Rightarrow> False)"

definition arrives :: "evt \<Rightarrow> bool" where
  "arrives e = (case e of ArrEvt t \<Rightarrow> True | FakeArrEvt t \<Rightarrow> True | _ \<Rightarrow> False)"

definition plain :: "evt \<Rightarrow> bool" where
  "plain e \<longleftrightarrow> \<not> ends_switch e \<and> \<not> server_timer e \<and> \<not> arrives e"

lemma ends_switch [simp]: "ends_switch (EndDispatchMultiEvt k p)" "\<not> server_timer (EndDispatchMultiEvt k p)"
  by (simp_all add: ends_switch_def server_timer_def)

lemma server_timer [simp]: "server_timer (BandExEvt s)" "server_timer (RechargingEvt s)" "server_timer (ReplEvt s)"
  "server_timer (IdleEvt s)" "\<not> ends_switch (BandExEvt s)" "\<not> ends_switch (RechargingEvt s)"
  "\<not> ends_switch (ReplEvt s)" "\<not> ends_switch (IdleEvt s)"
  by (simp_all add: server_timer_def ends_switch_def)

lemma arrives [simp]: "arrives (ArrEvt t)" "arrives (FakeArrEvt t)" "\<not> server_timer (ArrEvt t)"
  "\<not> server_timer (FakeArrEvt t)" "\<not> ends_switch (ArrEvt t)" "\<not> ends_switch (FakeArrEvt t)"
  by (simp_all add: arrives_def server_timer_def ends_switch_def)

lemma arrives_cases: "arrives e \<Longrightarrow> \<not> server_timer e" "arrives e \<Longrightarrow> \<not> ends_switch e"
  by (auto simp: arrives_def split: evt.splits)

lemma plain [simp]:
  "plain (EndEvt t)" "plain (KillEvt t)" "plain (SchedEvt t)" "plain (DeschedEvt t)"
  "plain (DeadEvt t)" "plain (EndInstrEvt t i)" "plain (SuspEvt t i)" "plain (ResumeEvt t i)"
  "plain (BeginDispatchEvt k)" "plain (EndDispatchEvt k)" "plain (BeginDispatchMultiEvt k p)" "plain (RREvt s)"
  "plain (DlineMissEvt s)" "plain (SrvSchedEvt s)" "plain (SrvDeschedEvt s)" "plain (SrvDispatchEvt s)"
  by (simp_all add: plain_def ends_switch_def server_timer_def arrives_def)

lemma plain_cases: "plain e \<Longrightarrow> \<not> ends_switch e" "plain e \<Longrightarrow> \<not> server_timer e" "plain e \<Longrightarrow> \<not> arrives e"
  by (simp_all add: plain_def)

lemmas not_server_timer [simp] = plain [THEN plain_cases(2)]
  and not_ends_switch [simp] = plain [THEN plain_cases(1)]
  and not_arrives [simp] = plain [THEN plain_cases(3)]

text \<open>The events the code passes to \<open>process\<close>.\<close>

definition immediate :: "evt \<Rightarrow> bool" where
  "immediate e = (case e of SchedEvt t \<Rightarrow> True | DeschedEvt t \<Rightarrow> True | DeadEvt t \<Rightarrow> True
     | SuspEvt t i \<Rightarrow> True | SrvSchedEvt s \<Rightarrow> True | SrvDeschedEvt s \<Rightarrow> True | _ \<Rightarrow> False)"

lemma immediate [simp]: "immediate (SchedEvt t)" "immediate (DeschedEvt t)" "immediate (DeadEvt t)"
  "immediate (SuspEvt t i)" "immediate (SrvSchedEvt s)" "immediate (SrvDeschedEvt s)"
  by (simp_all add: immediate_def)

lemma immediate_plain: "immediate e \<Longrightarrow> plain e"
  by (cases e) (auto simp: immediate_def)

locale sched_ops =
  fixes P :: "world \<Rightarrow> bool"
  assumes post: "P w \<Longrightarrow> plain e \<Longrightarrow> okr P (Event_post e t d w)"
    and process: "P w \<Longrightarrow> immediate e \<Longrightarrow> okr P (Event_process e d w)"
    and drop: "P w \<Longrightarrow> \<not> server_timer e \<Longrightarrow> P (Event_drop e w)"
    and lastSched: "P w \<Longrightarrow> P (upd_task i (\<lambda>x. x\<lparr>lastSched := ls\<rparr>) w)"
    and sched: "P w \<Longrightarrow> P (upd_sched s fs w)"
    and rtk: "P w \<Longrightarrow> P (upd_rtk k fk w)"
begin

lemmas frame_rules = post process drop lastSched sched rtk plain immediate ends_switch(2) not_server_timer
  arrives(3,4)

lemma okr_case_absTask:
  "(\<And>t. a = TaskRef t \<Longrightarrow> okr P (f t w)) \<Longrightarrow> (\<And>s. a = ServerRef s \<Longrightarrow> okr P (g s w)) \<Longrightarrow>
   okr P ((case a of TaskRef t \<Rightarrow> f t | ServerRef s \<Rightarrow> g s) w)"
  by (cases a) auto

lemma okr_model: "P w \<Longrightarrow> P (upd_model s a f w)"
  by (simp add: upd_model_def frame_rules)

lemma okr_insert [pres]: "P w \<Longrightarrow> okr P (Scheduler_insert s a w)"
  by (simp add: Scheduler_insert_def Let_def okr_model frame_rules)

lemma okr_extract [pres]: "P w \<Longrightarrow> okr P (Scheduler_extract s a w)"
  by (simp add: Scheduler_extract_def Let_def okr_model frame_rules)

lemma okr_notify [pres]: "P w \<Longrightarrow> okr P (Scheduler_notify s a w)"
  by (auto simp: Scheduler_notify_def RRScheduler_notify_def Let_def
      split: sched_kind.split intro!: pres frame_rules)

lemma okr_absTask_schedule [pres]: "P w \<Longrightarrow> okr P (absTask_schedule a w)"
  unfolding absTask_schedule_def Task_schedule_def Server_schedule_def
  by (intro okr_case_absTask frame_rules)

lemma okr_absTask_deschedule [pres]: "P w \<Longrightarrow> okr P (absTask_deschedule a w)"
  unfolding absTask_deschedule_def Task_deschedule_def Server_deschedule_def
  by (intro okr_case_absTask frame_rules)

lemma okr_RTKernel_dispatch [pres]: "P w \<Longrightarrow> okr P (RTKernel_dispatch k w)"
  unfolding RTKernel_dispatch_def by (intro frame_rules)

lemma okr_RTKernel [pres]:
  assumes "P w"
  shows "okr P (RTKernel_activate k a w)" and "okr P (RTKernel_suspend k a w)"
    and "okr P (RTKernel_onArrival k a w)" and "okr P (RTKernel_onEnd k a w)"
    and "okr P (RTKernel_onBeginDispatch k w)" and "okr P (RTKernel_onEndDispatch k w)"
  using assms
  by (auto simp: RTKernel_activate_def RTKernel_suspend_def RTKernel_onArrival_def RTKernel_onEnd_def
      RTKernel_onBeginDispatch_def RTKernel_onEndDispatch_def Let_def
      split: option.split intro!: pres frame_rules)

end

locale kernel_ops = sched_ops +
  assumes mrt_suspend: "P w \<Longrightarrow> okr P (MRTKernel_suspend k a w)"
    and mrt_onArrival: "P w \<Longrightarrow> okr P (MRTKernel_onArrival k a w)"
    and mrt_onEnd: "P w \<Longrightarrow> okr P (MRTKernel_onEnd k a w)"
    and mrt_dispatch: "P w \<Longrightarrow> okr P (MRTKernel_dispatch k w)"
begin

lemma okr_root [pres]:
  assumes "P w"
  shows "okr P (root_activate r a w)" and "okr P (root_suspend r a w)"
    and "okr P (root_dispatch r w)" and "okr P (root_onArrival r a w)"
    and "okr P (root_onEnd r a w)"
  using assms mrt_suspend mrt_onArrival mrt_onEnd mrt_dispatch
  by (auto simp: root_activate_def root_suspend_def root_dispatch_def root_onArrival_def root_onEnd_def
      MRTKernel_activate_def split: rtkref.split intro!: pres)

end

text \<open>
  One \<open>MRTKernel\<close>: between the begin and the end of a dispatch its operations neither end a switch nor
  change which processors are switching.
\<close>

locale mrt_frame = sched_ops +
  fixes k :: nat
  assumes mrtk_quiet: "P w \<Longrightarrow> (\<And>x. mk_isContextSwitching (fm x) = mk_isContextSwitching x) \<Longrightarrow> P (upd_mrtk k fm w)"
begin

lemma okr_MRTKernel_dispatch_cpu [pres]: "P w \<Longrightarrow> okr P (MRTKernel_dispatch_cpu k p w)"
  by (auto simp: MRTKernel_dispatch_cpu_def Let_def split: option.split intro!: pres mrtk_quiet frame_rules)

lemma okr_MRTKernel_dispatch_loop [pres]: "P w \<Longrightarrow> okr P (MRTKernel_dispatch_loop k n f q w)"
proof (induction n arbitrary: f q w)
  case (Suc n)
  then show ?case by (auto split: list.split option.split intro!: pres)
qed simp

lemma okr_MRTKernel [pres]:
  assumes "P w"
  shows "okr P (MRTKernel_suspend k a w)" and "okr P (MRTKernel_onArrival k a w)"
    and "okr P (MRTKernel_onEnd k a w)" and "okr P (MRTKernel_dispatch k w)"
  using assms
  by (auto simp: MRTKernel_suspend_def MRTKernel_onArrival_def MRTKernel_onEnd_def MRTKernel_dispatch_def Let_def
      split: option.split intro!: pres mrtk_quiet frame_rules)

end

locale kernel_frame = sched_ops +
  assumes end_post: "P w \<Longrightarrow> okr P (Event_post (EndDispatchMultiEvt k p) t d w)"
    and mrtk: "P w \<Longrightarrow> P (upd_mrtk k fm w)"
begin

lemma okr_MRTKernel_multi [pres]:
  assumes "P w"
  shows "okr P (MRTKernel_onBeginDispatchMulti k p w)" and "okr P (MRTKernel_onEndDispatchMulti k p w)"
  using assms
  by (auto simp: MRTKernel_onBeginDispatchMulti_def MRTKernel_onEndDispatchMulti_def Let_def
      split: option.split intro!: pres end_post mrtk frame_rules)

end

sublocale kernel_frame \<subseteq> mrt: mrt_frame P k for k
  by unfold_locales (rule mrtk)

sublocale kernel_frame \<subseteq> kernel_ops
  by unfold_locales (rule mrt.okr_MRTKernel, assumption)+

text \<open>The event queue and the clock, and the servers, resources and processors.\<close>

interpretation kernel_at_time: kernel_frame "at_time T" for T
  by unfold_locales (auto intro: okr_post okr_process)

interpretation kernel_servers: kernel_frame "\<lambda>w. servers w = S" for S
  by unfold_locales (auto simp: upd_defs okr_def same_objects_def split: sum.split
      dest!: post_objects process_objects)

interpretation kernel_resources: kernel_frame "\<lambda>w. resmans w = R \<and> cpus w = C" for R C
  by unfold_locales (auto simp: upd_defs okr_def same_objects_def split: sum.split
      dest!: post_objects process_objects)

section \<open>Frames of the parts the kernels use\<close>

lemma absTask_schedule_kernels:
  "absTask_schedule a w = Inr w' \<Longrightarrow> scheds w' = scheds w \<and> rtks w' = rtks w \<and> mrtks w' = mrtks w"
  by (auto simp: absTask_schedule_def Task_schedule_def Server_schedule_def upd_task_def same_objects_def
      split: absTask.splits dest!: process_objects)

lemma absTask_deschedule_objects: "absTask_deschedule a w = Inr w' \<Longrightarrow> same_objects w w'"
  by (auto simp: absTask_deschedule_def Task_deschedule_def Server_deschedule_def same_objects_def
      split: absTask.splits dest!: process_objects)

lemma absTask_deschedule_clock: "absTask_deschedule a w = Inr w' \<Longrightarrow> globTime w' = globTime w"
  by (auto simp: absTask_deschedule_def Task_deschedule_def Server_deschedule_def
      split: absTask.splits dest!: process_clock)

lemma insert_mrtks: "Scheduler_insert s a w = Inr w' \<Longrightarrow> mrtks w' = mrtks w"
  by (auto simp: Scheduler_insert_def Let_def upd_defs split: if_splits)

lemma extract_mrtks: "Scheduler_extract s a w = Inr w' \<Longrightarrow> mrtks w' = mrtks w"
  by (auto simp: Scheduler_extract_def Let_def upd_defs split: if_splits)

lemma notify_kernels: "Scheduler_notify s a w = Inr w' \<Longrightarrow> mrtks w' = mrtks w \<and> rtks w' = rtks w"
  by (auto simp: Scheduler_notify_def RRScheduler_notify_def Let_def upd_sched_def same_objects_def
      split: sched_kind.splits option.splits if_splits dest!: post_objects)

section \<open>A task is dispatched to one processor\<close>

text \<open>
  The bookkeeping of \<open>MRTKernel\<close>: the task a processor runs is recorded in \<open>_m_dispatched\<close> as
  dispatched to that processor, which is not switching; the task a switching processor is about to
  run is recorded as dispatched to it.
\<close>

definition mrt_ok :: "mrtkernel \<Rightarrow> bool" where
  "mrt_ok x \<longleftrightarrow>
    (\<forall>p a. mk_currExe x p = Some a \<longrightarrow> mk_dispatched x a = Some p \<and> \<not> mk_isContextSwitching x p) \<and>
    (\<forall>p a. mk_isContextSwitching x p \<longrightarrow> mk_endTask x p = Some a \<longrightarrow> mk_dispatched x a = Some p)"

lemma mrt_okI:
  assumes "\<And>p a. mk_currExe x p = Some a \<Longrightarrow> mk_dispatched x a = Some p"
    and "\<And>p a. mk_currExe x p = Some a \<Longrightarrow> \<not> mk_isContextSwitching x p"
    and "\<And>p a. mk_isContextSwitching x p \<Longrightarrow> mk_endTask x p = Some a \<Longrightarrow> mk_dispatched x a = Some p"
  shows "mrt_ok x"
  using assms by (auto simp: mrt_ok_def)

lemma mrt_okD:
  assumes "mrt_ok x"
  shows "mk_currExe x p = Some a \<Longrightarrow> mk_dispatched x a = Some p"
    and "mk_currExe x p = Some a \<Longrightarrow> \<not> mk_isContextSwitching x p"
    and "mk_isContextSwitching x p \<Longrightarrow> mk_endTask x p = Some a \<Longrightarrow> mk_dispatched x a = Some p"
  using assms by (auto simp: mrt_ok_def)

lemma mrt_ok_one_cpu: "mrt_ok x \<Longrightarrow> mk_currExe x p = Some a \<Longrightarrow> mk_currExe x q = Some a \<Longrightarrow> p = q"
  by (metis mrt_ok_def option.inject)

lemma getProcessor_aux:
  "foldl (\<lambda>ret c. if f c = Some a then Some c else ret) r cs = Some p \<Longrightarrow> r = Some p \<or> f p = Some a"
  by (induction cs arbitrary: r) (auto split: if_splits dest: meta_spec)

lemma getProcessor_runs: "MRTKernel_getProcessor k a w = Some p \<Longrightarrow> mk_currExe (mrtks w k) p = Some a"
  unfolding MRTKernel_getProcessor_def by (drule getProcessor_aux) simp

lemma mrtks_upd_mrtk [simp]: "mrtks (upd_mrtk k f w) k = f (mrtks w k)"
  by (simp add: upd_mrtk_def)

lemma mrt_ok_release:
  assumes "mrt_ok x" and "mk_currExe x p = Some a"
    and "mk_currExe y = (mk_currExe x)(p := None)" and "mk_dispatched y = (mk_dispatched x)(a := None)"
    and "mk_isContextSwitching y = mk_isContextSwitching x" and "mk_endTask y = mk_endTask x"
  shows "mrt_ok y"
proof -
  note ok = mrt_okD [OF assms(1)]
  have other: "b \<noteq> a" if "mk_currExe x q = Some b" "q \<noteq> p" for q b
    using ok(1) [OF that(1)] ok(1) [OF assms(2)] that(2) by auto
  moreover have "b \<noteq> a" if "mk_isContextSwitching x q" "mk_endTask x q = Some b" for q b
    using ok(3) [OF that] ok(1,2) [OF assms(2)] that(1) by auto
  ultimately show ?thesis
    by (intro mrt_okI) (auto simp: assms(3-) split: if_splits dest: ok)
qed

lemma mrt_ok_cancel:
  assumes "mrt_ok x" and "mk_isContextSwitching x p" and "mk_endTask x p = Some a"
  shows "mrt_ok (x\<lparr>mk_endTask := (mk_endTask x)(p := None), mk_dispatched := (mk_dispatched x)(a := None)\<rparr>)"
proof -
  note ok = mrt_okD [OF assms(1)]
  have "b \<noteq> a" if "mk_currExe x q = Some b" for q b
    using ok(1,2) [OF that] ok(3) [OF assms(2,3)] assms(2) by auto
  moreover have "b \<noteq> a" if "mk_isContextSwitching x q" "mk_endTask x q = Some b" "q \<noteq> p" for q b
    using ok(3) [OF that(1,2)] ok(3) [OF assms(2,3)] that(3) by auto
  ultimately show ?thesis
    by (intro mrt_okI) (auto split: if_splits dest: ok)
qed

lemma mrt_ok_select:
  assumes "mrt_ok x" and "mk_currExe x p = None" and "\<And>a. st = Some a \<Longrightarrow> mk_dispatched x a = None"
  shows "mrt_ok (x\<lparr>mk_dispatched := (case st of None \<Rightarrow> mk_dispatched x | Some a \<Rightarrow> (mk_dispatched x)(a := Some p)),
                  mk_endTask := (mk_endTask x)(p := st),
                  mk_isContextSwitching := (mk_isContextSwitching x)(p := True)\<rparr>)"
  using assms by (cases st) (auto simp: mrt_ok_def)

lemma mrt_ok_complete:
  assumes "mrt_ok x" and "mk_isContextSwitching x p"
  shows "mrt_ok (x\<lparr>mk_currExe := (mk_currExe x)(p := mk_endTask x p),
                   mk_isContextSwitching := (mk_isContextSwitching x)(p := False)\<rparr>)"
  using assms by (auto simp: mrt_ok_def)

definition mrt_inv :: "nat \<Rightarrow> world \<Rightarrow> bool" where
  "mrt_inv k w \<longleftrightarrow> mrt_ok (mrtks w k)"

lemma dispatch_cpu_inv:
  assumes "mrt_inv k w" and "MRTKernel_dispatch_cpu k p w = Inr w'"
  shows "mrt_inv k w'"
proof (cases "mk_isContextSwitching (mrtks w k) p")
  case False
  then show ?thesis using assms
    by (auto simp: MRTKernel_dispatch_cpu_def Let_def mrt_inv_def same_objects_def dest!: post_objects)
next
  case True
  then obtain w2 where post: "Event_post (BeginDispatchMultiEvt k p) (ev_time (evs w (EndDispatchMultiEvt k p))) False
      (Event_drop (BeginDispatchMultiEvt k p) w) = Inr w2"
    using assms(2) by (auto simp: MRTKernel_dispatch_cpu_def Let_def bindE_eq_Inr)
  then have "mrtks w2 = mrtks w" by (auto simp: same_objects_def dest!: post_objects)
  with True post assms show ?thesis
    by (auto simp: MRTKernel_dispatch_cpu_def Let_def mrt_inv_def mrt_ok_cancel split: option.splits)
qed

lemma dispatch_loop_inv:
  "mrt_inv k w \<Longrightarrow> MRTKernel_dispatch_loop k n f q w = Inr w' \<Longrightarrow> mrt_inv k w'"
proof (induction k n f q w rule: MRTKernel_dispatch_loop.induct)
  case (1 k f q w)
  then show ?case by simp
next
  case (2 k n f q w)
  show ?case
  proof (cases "MRTKernel_getNextFreeProc k f w")
    case (Cons c rest)
    with 2 show ?thesis by (auto simp: bindE_eq_Inr intro: dispatch_cpu_inv)
  next
    case Nil
    with 2(4) obtain c q' w1 where "MRTKernel_find_victim (mk_dispatched (mrtks w k)) q = Some (c, q')"
      and "MRTKernel_dispatch_cpu k c w = Inr w1" and "MRTKernel_dispatch_loop k n [] q' w1 = Inr w'"
      by (auto simp: bindE_eq_Inr split: option.splits)
    with 2(1) [OF Nil this(1) refl this(2)] 2(3) show ?thesis by (auto intro: dispatch_cpu_inv)
  qed
qed

lemma mrt_inv_mrtks: "mrt_inv k w \<Longrightarrow> mrtks w' = mrtks w \<Longrightarrow> mrt_inv k w'"
  by (simp add: mrt_inv_def)

lemma MRTKernel_dispatch_inv:
  "mrt_inv k w \<Longrightarrow> MRTKernel_dispatch k w = Inr w' \<Longrightarrow> mrt_inv k w'"
  by (auto simp: MRTKernel_dispatch_def Let_def split: if_splits intro: dispatch_loop_inv)

lemma MRTKernel_onArrival_inv:
  assumes "mrt_inv k w" and "MRTKernel_onArrival k a w = Inr w'"
  shows "mrt_inv k w'"
proof -
  obtain w1 where "Scheduler_insert (mk_sched (mrtks w k)) a w = Inr w1" and "MRTKernel_dispatch k w1 = Inr w'"
    using assms(2) by (auto simp: MRTKernel_onArrival_def bindE_eq_Inr)
  with assms(1) show ?thesis by (metis insert_mrtks mrt_inv_mrtks MRTKernel_dispatch_inv)
qed

lemma MRTKernel_suspend_inv:
  assumes "mrt_inv k w" and "MRTKernel_suspend k a w = Inr w'"
  shows "mrt_inv k w'"
proof -
  obtain w1 where w1: "Scheduler_extract (mk_sched (mrtks w k)) a w = Inr w1"
    using assms(2) by (auto simp: MRTKernel_suspend_def bindE_eq_Inr)
  then have inv: "mrt_inv k w1" using assms(1) by (metis extract_mrtks mrt_inv_mrtks)
  show ?thesis
  proof (cases "MRTKernel_getProcessor k a w1")
    case None
    with w1 inv assms(2) show ?thesis by (simp add: MRTKernel_suspend_def)
  next
    case (Some p)
    with w1 assms(2) obtain w2 where w2: "absTask_deschedule a w1 = Inr w2"
      and disp: "MRTKernel_dispatch_cpu k p
           (upd_mrtk k (\<lambda>x. x\<lparr>mk_currExe := (mk_currExe x)(p := None), mk_oldExe := (mk_oldExe x)(a := Some p),
              mk_dispatched := (mk_dispatched x)(a := None)\<rparr>) w2) = Inr w'"
      by (auto simp: MRTKernel_suspend_def bindE_eq_Inr)
    have "mrtks w2 = mrtks w1"
      using absTask_deschedule_objects [OF w2] by (simp add: same_objects_def)
    with inv getProcessor_runs [OF Some] have ok: "mrt_ok (mrtks w2 k)" "mk_currExe (mrtks w2 k) p = Some a"
      by (simp_all add: mrt_inv_def)
    show ?thesis
      by (intro dispatch_cpu_inv [OF _ disp]) (simp add: mrt_inv_def mrt_ok_release [OF ok])
  qed
qed

lemma MRTKernel_onEnd_inv:
  assumes "mrt_inv k w" and "MRTKernel_onEnd k a w = Inr w'"
  shows "mrt_inv k w'"
proof -
  obtain p w1 where p: "MRTKernel_getProcessor k a w = Some p"
    and w1: "Scheduler_extract (mk_sched (mrtks w k)) a w = Inr w1"
    and disp: "MRTKernel_dispatch_cpu k p
          (upd_mrtk k (\<lambda>x. x\<lparr>mk_oldExe := (mk_oldExe x)(a := Some p), mk_currExe := (mk_currExe x)(p := None),
             mk_dispatched := (mk_dispatched x)(a := None)\<rparr>) w1) = Inr w'"
    using assms(2) by (auto simp: MRTKernel_onEnd_def bindE_eq_Inr split: option.splits)
  have "mrtks w1 = mrtks w" using w1 by (rule extract_mrtks)
  with assms(1) getProcessor_runs [OF p] have ok: "mrt_ok (mrtks w1 k)" "mk_currExe (mrtks w1 k) p = Some a"
    by (simp_all add: mrt_inv_def)
  show ?thesis
    by (intro dispatch_cpu_inv [OF _ disp]) (simp add: mrt_inv_def mrt_ok_release [OF ok])
qed

lemma MRTKernel_select_free: "MRTKernel_select k w = Some a \<Longrightarrow> mk_dispatched (mrtks w k) a = None"
  unfolding MRTKernel_select_def by (auto simp: find_Some_iff)

lemma MRTKernel_onBeginDispatchMulti_inv:
  assumes "mrt_inv k w" and "MRTKernel_onBeginDispatchMulti k p w = Inr w'"
  shows "mrt_inv k w'"
proof -
  let ?free = "\<lambda>dt x. x\<lparr>mk_oldExe := (mk_oldExe x)(dt := Some p),
                   mk_currExe := (mk_currExe x)(p := None), mk_dispatched := (mk_dispatched x)(dt := None)\<rparr>"
  obtain w1 where "(case mk_currExe (mrtks w k) p of None \<Rightarrow> Inr w
      | Some dt \<Rightarrow> absTask_deschedule dt (upd_mrtk k (?free dt) w)) = Inr w1"
    and post: "\<exists>t. Event_post (EndDispatchMultiEvt k p) t False
      (upd_mrtk k (\<lambda>x. x\<lparr>mk_dispatched := (case MRTKernel_select k w1 of None \<Rightarrow> mk_dispatched x
                                               | Some a \<Rightarrow> (mk_dispatched x)(a := Some p)),
                  mk_endTask := (mk_endTask x)(p := MRTKernel_select k w1),
                  mk_isContextSwitching := (mk_isContextSwitching x)(p := True)\<rparr>) w1) = Inr w'"
    using assms(2) by (auto simp: MRTKernel_onBeginDispatchMulti_def bindE_eq_Inr Let_def)
  then have "mrt_ok (mrtks w1 k) \<and> mk_currExe (mrtks w1 k) p = None"
    using assms(1)
    by (auto simp: mrt_inv_def same_objects_def split: option.splits dest!: absTask_deschedule_objects
        intro: mrt_ok_release)
  from mrt_ok_select [OF conjunct1 [OF this] conjunct2 [OF this] MRTKernel_select_free] post show ?thesis
    by (auto simp: mrt_inv_def same_objects_def dest!: post_objects)
qed

lemma MRTKernel_onEndDispatchMulti_inv:
  assumes "mrt_inv k w" and "mk_isContextSwitching (mrtks w k) p" and "MRTKernel_onEndDispatchMulti k p w = Inr w'"
  shows "mrt_inv k w'"
proof -
  let ?w1 = "upd_mrtk k (\<lambda>x. x\<lparr>mk_currExe := (mk_currExe x)(p := mk_endTask (mrtks w k) p)\<rparr>) w"
  obtain w2 where "(case mk_endTask (mrtks w k) p of None \<Rightarrow> Inr ?w1 | Some a \<Rightarrow> absTask_schedule a ?w1) = Inr w2"
    and last: "\<exists>s st. Scheduler_notify s st
        (upd_mrtk k (\<lambda>x. x\<lparr>mk_isContextSwitching := (mk_isContextSwitching x)(p := False)\<rparr>) w2) = Inr w'"
    using assms(3) by (auto simp: MRTKernel_onEndDispatchMulti_def bindE_eq_Inr Let_def)
  then have "mrtks w2 = mrtks ?w1"
    by (auto split: option.splits dest!: absTask_schedule_kernels)
  with mrt_ok_complete [of "mrtks w k" p] assms(1,2) last show ?thesis
    by (auto simp: mrt_inv_def dest!: notify_kernels)
qed

section \<open>Descheduling succeeds and is immediate\<close>

definition desched_event :: "absTask \<Rightarrow> evt" where
  "desched_event a = (case a of TaskRef t \<Rightarrow> DeschedEvt t | ServerRef s \<Rightarrow> SrvDeschedEvt s)"

lemma absTask_deschedule_accepted:
  assumes "evq_inv w"
  shows "\<exists>w'. absTask_deschedule a w = Inr w' \<and> evq_inv w' \<and> globTime w' = globTime w
    \<and> desched_event a \<in> set (eventQueue w') \<and> ev_time (evs w' (desched_event a)) = globTime w
    \<and> (\<forall>e. (\<forall>t. e \<noteq> SchedEvt t) \<longrightarrow> e \<noteq> desched_event a \<longrightarrow> evs w' e = evs w e)"
proof (cases a)
  case (TaskRef t)
  have "evq_inv (Event_drop (SchedEvt t) w)" using assms by (rule drop_evq_inv)
  from process_accepted [OF this, of "DeschedEvt t" False] TaskRef show ?thesis
    by (auto simp: absTask_deschedule_def Task_deschedule_def desched_event_def)
next
  case (ServerRef s)
  from process_accepted [OF assms, of "SrvDeschedEvt s" False] ServerRef show ?thesis
    by (auto simp: absTask_deschedule_def Server_deschedule_def desched_event_def)
qed

lemma evq_inv_upd_rtk [simp]: "evq_inv (upd_rtk k f w) = evq_inv w"
  by (rule evq_inv_cong) (simp_all add: upd_rtk_def)

lemma upd_rtk_queue [simp]: "eventQueue (upd_rtk k f w) = eventQueue w" "rtks (upd_rtk k f w) k = f (rtks w k)"
  by (simp_all add: upd_rtk_def)

section \<open>A new run\<close>

definition same_engine :: "world \<Rightarrow> world \<Rightarrow> bool" where
  "same_engine w w' \<longleftrightarrow> evs w' = evs w \<and> eventQueue w' = eventQueue w \<and> globTime w' = globTime w
     \<and> evCounter w' = evCounter w"

lemma same_engine_inv: "same_engine w w' \<Longrightarrow> evq_inv w' = evq_inv w"
  by (rule evq_inv_cong) (auto simp: same_engine_def)

lemma extract_engine: "Scheduler_extract s a w = Inr w' \<Longrightarrow> same_engine w w'"
  by (auto simp: Scheduler_extract_def Let_def upd_defs same_engine_def split: if_splits)

lemma clear_cpus_frame:
  "MRTKernel_clear_cpus k cs w = Inr w' \<Longrightarrow> same_engine w w' \<and>
   mk_isContextSwitching (mrtks w' k) = mk_isContextSwitching (mrtks w k)"
proof (induction cs arbitrary: w)
  case Nil
  then show ?case by (simp add: same_engine_def)
next
  case (Cons c cs)
  let ?f = "upd_mrtk k (\<lambda>x. x\<lparr>mk_currExe := (mk_currExe x)(c := None)\<rparr>)"
  obtain w1 where w1: "(case mk_currExe (mrtks w k) c of None \<Rightarrow> Inr w
            | Some a \<Rightarrow> Scheduler_extract (mk_sched (mrtks w k)) a w) = Inr w1"
    and rest: "MRTKernel_clear_cpus k cs (?f w1) = Inr w'"
    using Cons.prems by (auto simp: bindE_eq_Inr)
  have "same_engine w w1 \<and> mrtks w1 = mrtks w"
    using w1 extract_engine extract_mrtks by (fastforce simp: same_engine_def split: option.splits)
  moreover have "same_engine w1 (?f w1)"
    by (simp add: same_engine_def upd_mrtk_def)
  ultimately show ?case
    using Cons.IH [OF rest] by (auto simp: same_engine_def)
qed

lemma newRun_frame:
  assumes "MRTKernel_newRun k w = Inr w'"
  shows "same_engine w w' \<and> mk_isContextSwitching (mrtks w' k) = mk_isContextSwitching (mrtks w k)"
proof -
  obtain w1 where "MRTKernel_clear_cpus k (mk_cpus (mrtks w k)) w = Inr w1"
    and "w' = upd_mrtk k (\<lambda>x. x\<lparr>mk_dispatched := (\<lambda>_. None), mk_oldExe := (\<lambda>_. None)\<rparr>) w1"
    using assms by (auto simp: MRTKernel_newRun_def bindE_eq_Inr)
  with clear_cpus_frame [OF this(1)] show ?thesis by (auto simp: same_engine_def upd_mrtk_def)
qed

lemma drop_keeps:
  "b \<in> set (eventQueue w) \<Longrightarrow> ev_order (evs w b) \<noteq> ev_order (evs w e) \<Longrightarrow> b \<in> set (eventQueue (Event_drop e w))"
  using equivalent_order [of w e b] by (auto simp: drop_queue pl_erase_def)

section \<open>Concrete kernels\<close>

text \<open>
  Two tasks ready under EDF, task 1 first, on an \<open>RTKernel\<close> with processor 0 and a context switch of
  3 ticks that is in the middle of switching to task 0; and on an \<open>MRTKernel\<close> with processors 0 and 1.
\<close>

definition result_world :: "exc + world \<Rightarrow> world" where
  "result_world r = (case r of Inl _ \<Rightarrow> empty_world | Inr w \<Rightarrow> w)"

definition rtk_example :: world where
  "rtk_example = result_world (bindE (two_tasks EDFScheduler 0 5)
     (steps [pureE (upd_rtk 0 (\<lambda>_. (RTKernel_ctor 0 (Some 0))\<lparr>rk_contextSwitchDelay := 3, rk_currExe := Some (TaskRef 0),
               rk_isContextSwitching := True\<rparr>)),
        Event_post (EndDispatchEvt 0) 7 False]))"

definition mrtk_example :: world where
  "mrtk_example = upd_mrtk 0 (\<lambda>_. (MRTKernel_ctor 0 [0, 1])\<lparr>mk_handled := [TaskRef 0, TaskRef 1]\<rparr>)
     (result_world (two_tasks EDFScheduler 0 5))"

text \<open>The latter with a switch of 90 ticks started at 5 and cut by the end of the run.\<close>

definition mrtk_interrupted :: world where
  "mrtk_interrupted = Simulation_setTime 0 (Event_drop (EndDispatchMultiEvt 0 0)
     (result_world (MRTKernel_onBeginDispatchMulti 0 0
        (upd_mrtk 0 (\<lambda>x. x\<lparr>mk_contextSwitchDelay := 90\<rparr>) mrtk_example))))"

lemmas kernel_eval = sched_eval result_world_def rtk_example_def mrtk_example_def upd_rtk_def upd_mrtk_def RTKernel_ctor_def
  MRTKernel_ctor_def Event_post_def Event_setTime_def upd_event_def evt_ctor_def Event_ctor_def queue_lt_def
  Event_Cmp_def DEFAULT_PRIORITY_def evq_inv_def event_ok_def at_time_def

lemma find_first: "List.find P xs = Some a \<Longrightarrow> \<exists>us vs. xs = us @ a # vs \<and> P a \<and> (\<forall>u\<in>set us. \<not> P u)"
proof (induction xs)
  case (Cons x xs)
  show ?case
  proof (cases "P x")
    case True
    with Cons.prems show ?thesis by (intro exI [of _ "[]"] exI [of _ xs]) simp
  next
    case False
    with Cons obtain us vs where "xs = us @ a # vs \<and> P a \<and> (\<forall>u\<in>set us. \<not> P u)" by auto
    with False show ?thesis by (intro exI [of _ "x # us"] exI [of _ vs]) simp
  qed
qed simp

section \<open>Properties\<close>

text \<open>
  A task never runs on two processors: every operation of \<open>MRTKernel\<close> keeps its bookkeeping
  consistent (\<open>onEndDispatchMulti\<close> when a context switch is in progress on its processor, which is when
  its event is posted), and then the tasks in \<open>_m_currExe\<close> are distinct.
\<close>

theorem mrt_one_processor:
  assumes "mrt_inv k w" and "f w = Inr w'"
    and "f \<in> {MRTKernel_dispatch k, MRTKernel_onArrival k a, MRTKernel_suspend k a, MRTKernel_onEnd k a,
             MRTKernel_dispatch_cpu k p, MRTKernel_onBeginDispatchMulti k p}
       \<or> f = MRTKernel_onEndDispatchMulti k p \<and> mk_isContextSwitching (mrtks w k) p"
  shows "mrt_inv k w' \<and>
    (\<forall>b c d. mk_currExe (mrtks w' k) c = Some b \<longrightarrow> mk_currExe (mrtks w' k) d = Some b \<longrightarrow> c = d)"
proof -
  have "mrt_inv k w'"
    using assms(3)
  proof (elim disjE insertE emptyE conjE)
    assume "f = MRTKernel_onEndDispatchMulti k p" and "mk_isContextSwitching (mrtks w k) p"
    with assms(1,2) show ?thesis by (auto intro: MRTKernel_onEndDispatchMulti_inv)
  qed (use assms(1,2) in \<open>auto intro: MRTKernel_dispatch_inv MRTKernel_onArrival_inv MRTKernel_suspend_inv
       MRTKernel_onEnd_inv dispatch_cpu_inv MRTKernel_onBeginDispatchMulti_inv\<close>)
  then show ?thesis by (auto simp: mrt_inv_def dest: mrt_ok_one_cpu)
qed

text \<open>Who is dispatched where once the executing task has given up the processor, and who comes from another one.\<close>

definition freed_dispatch :: "nat \<Rightarrow> nat \<Rightarrow> world \<Rightarrow> absTask \<Rightarrow> nat option" where
  "freed_dispatch k p w = (case mk_currExe (mrtks w k) p of
      None \<Rightarrow> mk_dispatched (mrtks w k)
    | Some dt \<Rightarrow> (mk_dispatched (mrtks w k))(dt := None))"

definition comes_from_elsewhere :: "nat \<Rightarrow> nat \<Rightarrow> world \<Rightarrow> absTask \<Rightarrow> bool" where
  "comes_from_elsewhere k p w a \<longleftrightarrow> mk_currExe (mrtks w k) p \<noteq> Some a
     \<and> mk_oldExe (mrtks w k) a \<noteq> None \<and> mk_oldExe (mrtks w k) a \<noteq> Some p"

text \<open>
  C8. What \<open>onBeginDispatchMulti\<close> decides, in terms of the state before: the task that was executing on
  the processor gives it up (\<open>free\<close> is \<open>_m_dispatched\<close> with its entry cleared), and the context switch
  goes to the first task of the ready queue that is dispatched nowhere, which from then on is dispatched
  to this processor and is the only entry that changes; with no such task the context switch ends on an
  idle processor.  The end of the dispatch is posted after the delay of a context switch, and that of a
  migration when the task chosen last executed on another processor.
\<close>

theorem begin_dispatch_takes_first:
  assumes "MRTKernel_onBeginDispatchMulti k p w = Inr w'"
  shows "mk_isContextSwitching (mrtks w' k) p \<and> mk_currExe (mrtks w' k) p = None
    \<and> ev_isInQueue (evs w' (EndDispatchMultiEvt k p))
    \<and> (case mk_endTask (mrtks w' k) p of
       None \<Rightarrow> (\<forall>a\<in>set (sch_queue (scheds w (mk_sched (mrtks w k)))). freed_dispatch k p w a \<noteq> None)
         \<and> mk_dispatched (mrtks w' k) = freed_dispatch k p w
         \<and> ev_time (evs w' (EndDispatchMultiEvt k p)) = globTime w + mk_contextSwitchDelay (mrtks w k)
     | Some a \<Rightarrow> freed_dispatch k p w a = None
         \<and> mk_dispatched (mrtks w' k) = (freed_dispatch k p w)(a := Some p)
         \<and> (\<exists>us vs. sch_queue (scheds w (mk_sched (mrtks w k))) = us @ a # vs
              \<and> (\<forall>u\<in>set us. freed_dispatch k p w u \<noteq> None))
         \<and> ev_time (evs w' (EndDispatchMultiEvt k p)) = globTime w + mk_contextSwitchDelay (mrtks w k)
              + (if comes_from_elsewhere k p w a then mk_migrationDelay (mrtks w k) else 0))"
proof -
  let ?free = "\<lambda>dt x. x\<lparr>mk_oldExe := (mk_oldExe x)(dt := Some p),
                   mk_currExe := (mk_currExe x)(p := None), mk_dispatched := (mk_dispatched x)(dt := None)\<rparr>"
  obtain w1 where w1: "(case mk_currExe (mrtks w k) p of None \<Rightarrow> Inr w
      | Some dt \<Rightarrow> absTask_deschedule dt (upd_mrtk k (?free dt) w)) = Inr w1"
    and rest: "(let st = MRTKernel_select k w1;
           w2 = upd_mrtk k (\<lambda>x. x\<lparr>mk_dispatched := (case st of None \<Rightarrow> mk_dispatched x
                                               | Some a \<Rightarrow> (mk_dispatched x)(a := Some p)),
                  mk_endTask := (mk_endTask x)(p := st),
                  mk_isContextSwitching := (mk_isContextSwitching x)(p := True)\<rparr>) w1;
           migrated = (case st of None \<Rightarrow> False
             | Some a \<Rightarrow> mk_oldExe (mrtks w2 k) a \<noteq> Some p \<and> mk_oldExe (mrtks w2 k) a \<noteq> None);
           overhead = mk_contextSwitchDelay (mrtks w2 k)
             + (if migrated then mk_migrationDelay (mrtks w2 k) else 0)
       in Event_post (EndDispatchMultiEvt k p) (globTime w2 + overhead) False w2) = Inr w'"
    using assms by (auto simp: MRTKernel_onBeginDispatchMulti_def bindE_eq_Inr)
  have kept: "scheds w1 = scheds w \<and> globTime w1 = globTime w
      \<and> mk_sched (mrtks w1 k) = mk_sched (mrtks w k) \<and> mk_dispatched (mrtks w1 k) = freed_dispatch k p w
      \<and> mk_currExe (mrtks w1 k) p = None \<and> mk_contextSwitchDelay (mrtks w1 k) = mk_contextSwitchDelay (mrtks w k)
      \<and> mk_migrationDelay (mrtks w1 k) = mk_migrationDelay (mrtks w k)"
    using w1 by (cases "mk_currExe (mrtks w k) p")
      (auto simp: freed_dispatch_def same_objects_def upd_mrtk_def
        dest: absTask_deschedule_objects absTask_deschedule_clock)
  have old: "comes_from_elsewhere k p w a \<longleftrightarrow>
      mk_oldExe (mrtks w1 k) a \<noteq> Some p \<and> mk_oldExe (mrtks w1 k) a \<noteq> None" for a
    using w1 by (auto simp: comes_from_elsewhere_def same_objects_def upd_mrtk_def split: option.splits if_splits
        dest!: absTask_deschedule_objects)
  show ?thesis
  proof (cases "MRTKernel_select k w1")
    case None
    then have "\<forall>a\<in>set (sch_queue (scheds w (mk_sched (mrtks w k)))). freed_dispatch k p w a \<noteq> None"
      using kept by (simp add: MRTKernel_select_def find_None_iff)
    with None rest kept show ?thesis
      by (auto simp: Let_def upd_mrtk_def dest!: post_effect)
  next
    case (Some a)
    from find_first [OF this [unfolded MRTKernel_select_def]] find_Some_iff [THEN iffD1, OF this [unfolded MRTKernel_select_def]]
    obtain us vs where q: "sch_queue (scheds w (mk_sched (mrtks w k))) = us @ a # vs"
      and "\<forall>u\<in>set us. freed_dispatch k p w u \<noteq> None" and "freed_dispatch k p w a = None"
      using kept by auto
    moreover have "mk_isContextSwitching (mrtks w' k) p \<and> mk_endTask (mrtks w' k) p = Some a
        \<and> mk_currExe (mrtks w' k) p = None \<and> mk_dispatched (mrtks w' k) = (freed_dispatch k p w)(a := Some p)"
      using rest Some kept by (auto simp: same_objects_def Let_def upd_mrtk_def dest!: post_objects)
    moreover have "ev_isInQueue (evs w' (EndDispatchMultiEvt k p))
        \<and> ev_time (evs w' (EndDispatchMultiEvt k p)) = globTime w + mk_contextSwitchDelay (mrtks w k)
              + (if comes_from_elsewhere k p w a then mk_migrationDelay (mrtks w k) else 0)"
      using rest Some kept old by (auto simp: Let_def upd_mrtk_def dest!: post_effect split: if_splits)
    ultimately show ?thesis by auto
  qed
qed

theorem begin_dispatch_takes_first_witness:
  "\<exists>w'. MRTKernel_onBeginDispatchMulti 0 1 mrtk_example = Inr w'
     \<and> mk_endTask (mrtks w' 0) 1 = Some (TaskRef 1) \<and> mk_dispatched (mrtks w' 0) (TaskRef 1) = Some 1"
proof -
  obtain w' where run: "MRTKernel_onBeginDispatchMulti 0 1 mrtk_example = Inr w'"
    and "mk_endTask (mrtks w' 0) 1 = Some (TaskRef 1)"
    by (simp add: kernel_eval MRTKernel_onBeginDispatchMulti_def MRTKernel_select_def)
  with begin_dispatch_takes_first [OF run] show ?thesis by auto
qed

lemma mrt_one_processor_witness:
  "\<exists>w'. MRTKernel_dispatch 0 mrtk_example = Inr w' \<and> mrt_inv 0 w'"
proof -
  have inv: "mrt_inv 0 mrtk_example"
    by (simp add: kernel_eval mrt_inv_def mrt_ok_def)
  have "\<exists>w'. MRTKernel_dispatch 0 mrtk_example = Inr w'"
    by (simp add: kernel_eval MRTKernel_dispatch_def MRTKernel_num_newtasks_def
        MRTKernel_getProcessor_def MRTKernel_getNextFreeProc_def MRTKernel_isDispatched_def
        MRTKernel_dispatch_cpu_def Event_drop_def pl_erase_def numeral_2_eq_2)
  then obtain w' where run: "MRTKernel_dispatch 0 mrtk_example = Inr w'" ..
  from mrt_one_processor [where f = "MRTKernel_dispatch 0" and a = "TaskRef 0" and p = 0, OF inv run] run
  show ?thesis by auto
qed

text \<open>
  On a single processor the ready queue decides: when no context switch is in progress and some
  task is ready, \<open>onBeginDispatch\<close> succeeds and makes the first ready task the current one; if it was
  not, the context switch to it ends after the delay, and the task it replaces is told to stop at once.
\<close>

theorem rtk_begin_dispatch:
  assumes "evq_inv w" and "Scheduler_getFirst (rk_sched (rtks w k)) w = Some b"
    and "rk_currExe (rtks w k) \<noteq> Some b" and "0 \<le> rk_contextSwitchDelay (rtks w k)"
    and "\<not> ev_isInQueue (evs w (EndDispatchEvt k))"
  shows "\<exists>w'. RTKernel_onBeginDispatch k w = Inr w' \<and> evq_inv w' \<and> globTime w' = globTime w
    \<and> rk_currExe (rtks w' k) = Some b \<and> rk_isContextSwitching (rtks w' k)
    \<and> EndDispatchEvt k \<in> set (eventQueue w')
    \<and> ev_time (evs w' (EndDispatchEvt k)) = globTime w + rk_contextSwitchDelay (rtks w k)
    \<and> (\<forall>a. rk_currExe (rtks w k) = Some a \<longrightarrow> desched_event a \<in> set (eventQueue w')
         \<and> ev_time (evs w' (desched_event a)) = globTime w)"
proof -
  obtain w1 where w1: "(case rk_currExe (rtks w k) of None \<Rightarrow> Inr w | Some a \<Rightarrow> absTask_deschedule a w) = Inr w1"
    and inv: "evq_inv w1" and time: "globTime w1 = globTime w"
    and kernel: "rtks w1 = rtks w"
    and idle: "\<not> ev_isInQueue (evs w1 (EndDispatchEvt k))"
    and stop: "\<forall>a. rk_currExe (rtks w k) = Some a \<longrightarrow> desched_event a \<in> set (eventQueue w1)
       \<and> ev_time (evs w1 (desched_event a)) = globTime w"
  proof (cases "rk_currExe (rtks w k)")
    case None
    then show ?thesis using that [of w] assms by simp
  next
    case (Some a)
    obtain v where v: "absTask_deschedule a w = Inr v" "evq_inv v" "globTime v = globTime w"
      "desched_event a \<in> set (eventQueue v)" "ev_time (evs v (desched_event a)) = globTime w"
      "evs v (EndDispatchEvt k) = evs w (EndDispatchEvt k)"
      using absTask_deschedule_accepted [OF assms(1), of a]
      by (auto simp: desched_event_def split: absTask.splits)
    with absTask_deschedule_objects [OF v(1)] show ?thesis
      using that [of v] Some assms by (simp add: same_objects_def)
  qed
  let ?w2 = "upd_rtk k (\<lambda>x. x\<lparr>rk_isContextSwitching := True, rk_currExe := Some b\<rparr>) w1"
  obtain w' where post: "Event_post (EndDispatchEvt k) (globTime w + rk_contextSwitchDelay (rtks w k)) False ?w2 = Inr w'"
    and "evq_inv w'" "globTime w' = globTime w"
    and q: "set (eventQueue w') = insert (EndDispatchEvt k) (set (eventQueue w1))"
    and e: "evs w' = (evs w1)(EndDispatchEvt k := (evs w1 (EndDispatchEvt k))\<lparr>
       ev_time := globTime w + rk_contextSwitchDelay (rtks w k), ev_order := evCounter ?w2,
       ev_isInQueue := True, ev_disposable := False\<rparr>)"
    using post_accepted [of ?w2 "EndDispatchEvt k" "globTime w + rk_contextSwitchDelay (rtks w k)" False]
      inv time idle assms(4) by auto
  moreover have "RTKernel_onBeginDispatch k w = Inr w'"
    using assms(2,3) w1 post time kernel by (simp add: RTKernel_onBeginDispatch_def Let_def)
  moreover have "rtks w' = rtks ?w2"
    using post_objects [OF post] by (simp add: same_objects_def)
  moreover have "desched_event a \<noteq> EndDispatchEvt k" for a
    by (simp add: desched_event_def split: absTask.split)
  ultimately show ?thesis using stop by auto
qed

text \<open>
  But an arrival during a context switch breaks the kernel: the begin of dispatch it posts finds
  the end of the dispatch still in the queue, and when the first ready task has changed it fails with
  "already posted" although \<open>onArrival\<close> means to allow it.
\<close>

theorem rtk_dispatch_while_switching_fails:
  assumes "evq_inv w" and "Scheduler_getFirst (rk_sched (rtks w k)) w = Some b"
    and "rk_currExe (rtks w k) = Some a" and "a \<noteq> b" and "ev_isInQueue (evs w (EndDispatchEvt k))"
  shows "RTKernel_onBeginDispatch k w = Inl EventAlreadyPosted"
proof -
  obtain v where v: "absTask_deschedule a w = Inr v" "evs v (EndDispatchEvt k) = evs w (EndDispatchEvt k)"
    using absTask_deschedule_accepted [OF assms(1), of a]
    by (auto simp: desched_event_def split: absTask.splits)
  with assms show ?thesis
    by (simp add: RTKernel_onBeginDispatch_def Let_def Event_post_def)
qed

lemma rtk_dispatch_while_switching_fails_witness:
  "RTKernel_onBeginDispatch 0 rtk_example = Inl EventAlreadyPosted"
  by (rule rtk_dispatch_while_switching_fails [where a = "TaskRef 0" and b = "TaskRef 1"])
    (simp_all add: kernel_eval)

lemma rtk_begin_dispatch_witness:
  "\<exists>w'. RTKernel_onBeginDispatch 0 (Event_drop (EndDispatchEvt 0) rtk_example) = Inr w'
     \<and> rk_currExe (rtks w' 0) = Some (TaskRef 1) \<and> ev_time (evs w' (EndDispatchEvt 0)) = 8
     \<and> DeschedEvt 0 \<in> set (eventQueue w')"
proof -
  let ?w = "Event_drop (EndDispatchEvt 0) rtk_example"
  have "evq_inv ?w" "Scheduler_getFirst (rk_sched (rtks ?w 0)) ?w = Some (TaskRef 1)"
    "rk_currExe (rtks ?w 0) \<noteq> Some (TaskRef 1)" "0 \<le> rk_contextSwitchDelay (rtks ?w 0)"
    "\<not> ev_isInQueue (evs ?w (EndDispatchEvt 0))"
    and "globTime ?w = 5" "rk_contextSwitchDelay (rtks ?w 0) = 3" "rk_currExe (rtks ?w 0) = Some (TaskRef 0)"
    by (simp_all add: kernel_eval Event_drop_def pl_erase_def equivalent_key_def)
  with rtk_begin_dispatch [OF this(1-5)] show ?thesis
    by (auto simp: desched_event_def)
qed

text \<open>
  A new run does not reset \<open>_isContextSwitching\<close> of an \<open>MRTKernel\<close>: if a processor was switching
  when the previous run ended, the first dispatch on it in the new run is not made at once but at the
  time the old context switch would have ended.
\<close>

theorem mrt_newRun_keeps_switching:
  assumes "evq_inv w" and "mk_isContextSwitching (mrtks w k) p" and "MRTKernel_newRun k w = Inr w'"
    and "globTime w \<le> ev_time (evs w (EndDispatchMultiEvt k p))"
    and "ev_order (evs w (EndDispatchMultiEvt k p)) < evCounter w"
  shows "\<exists>v. MRTKernel_dispatch_cpu k p w' = Inr v \<and> BeginDispatchMultiEvt k p \<in> set (eventQueue v)
    \<and> ev_time (evs v (BeginDispatchMultiEvt k p)) = ev_time (evs w (EndDispatchMultiEvt k p))"
proof -
  let ?b = "BeginDispatchMultiEvt k p" and ?e = "EndDispatchMultiEvt k p"
  have frame: "evs w' = evs w" "globTime w' = globTime w" "evCounter w' = evCounter w"
    and switching: "mk_isContextSwitching (mrtks w' k) p" and inv: "evq_inv w'"
    using newRun_frame [OF assms(3)] assms(1,2) same_engine_inv [of w w'] by (auto simp: same_engine_def)
  from post_accepted [OF drop_evq_inv [OF inv], of ?b ?b "ev_time (evs w ?e)" False] frame assms(4)
  obtain v where post: "Event_post ?b (ev_time (evs w ?e)) False (Event_drop ?b w') = Inr v"
    and q: "?b \<in> set (eventQueue v)" and t: "ev_time (evs v ?b) = ev_time (evs w ?e)"
    and "ev_order (evs v ?b) = evCounter w" and "evs v ?e = evs w ?e"
    by auto
  then have kept: "?b \<in> set (eventQueue (Event_drop ?e v))"
    using drop_keeps [OF q, of ?e] assms(5) by simp
  have "mrtks v = mrtks w'" using post_objects [OF post] by (simp add: same_objects_def)
  let ?v = "case mk_endTask (mrtks v k) p of None \<Rightarrow> Event_drop ?e v
    | Some a \<Rightarrow> upd_mrtk k (\<lambda>x. x\<lparr>mk_endTask := (mk_endTask x)(p := None),
                        mk_dispatched := (mk_dispatched x)(a := None)\<rparr>) (Event_drop ?e v)"
  have "MRTKernel_dispatch_cpu k p w' = Inr ?v"
    using switching post frame(1) by (simp add: MRTKernel_dispatch_cpu_def Let_def)
  moreover have "eventQueue ?v = eventQueue (Event_drop ?e v)" "evs ?v ?b = evs v ?b"
    by (simp_all add: upd_mrtk_def split: option.split)
  ultimately show ?thesis using kept t by auto
qed

lemma mrt_newRun_keeps_switching_witness:
  "\<exists>w' v. MRTKernel_newRun 0 mrtk_interrupted = Inr w' \<and> MRTKernel_dispatch_cpu 0 0 w' = Inr v
     \<and> globTime mrtk_interrupted = 0 \<and> ev_time (evs v (BeginDispatchMultiEvt 0 0)) = 95"
proof -
  have ready: "evq_inv mrtk_interrupted" "mk_isContextSwitching (mrtks mrtk_interrupted 0) 0"
    "globTime mrtk_interrupted \<le> ev_time (evs mrtk_interrupted (EndDispatchMultiEvt 0 0))"
    "ev_order (evs mrtk_interrupted (EndDispatchMultiEvt 0 0)) < evCounter mrtk_interrupted"
    and time: "ev_time (evs mrtk_interrupted (EndDispatchMultiEvt 0 0)) = 95" "globTime mrtk_interrupted = 0"
    by (simp_all add: mrtk_interrupted_def kernel_eval MRTKernel_onBeginDispatchMulti_def MRTKernel_select_def
        Event_drop_def pl_erase_def equivalent_key_def)
  have "\<exists>w'. MRTKernel_newRun 0 mrtk_interrupted = Inr w'"
    by (simp add: mrtk_interrupted_def kernel_eval MRTKernel_onBeginDispatchMulti_def MRTKernel_select_def
        Event_drop_def pl_erase_def equivalent_key_def MRTKernel_newRun_def)
  then obtain w' where run: "MRTKernel_newRun 0 mrtk_interrupted = Inr w'" ..
  from mrt_newRun_keeps_switching [OF ready(1,2) run ready(3,4)] run time show ?thesis by auto
qed

end
