(* ===== verification/RTServer.thy ===== *)
theory RTServer
  imports RTKernel_Laws
begin

text \<open>
  Servers: \<open>capacitytimer.cpp\<close>, the abstract class \<open>Server\<close> (\<open>server.cpp\<close>) and the constant
  bandwidth server \<open>CBServer\<close> (\<open>cbserver.cpp\<close>), which is the server the model instantiates: the
  virtual methods of \<open>Server\<close> are resolved to those of \<open>CBServer\<close>.  At the end the methods of
  \<open>AbsKernel\<close>, resolved for a kernel or a server.
\<close>

section \<open>CapacityTimer\<close>

definition CapacityTimer_get_value :: "tick \<Rightarrow> capacity_timer \<Rightarrow> rat" where
  "CapacityTimer_get_value now c =
    (if ct_status c = RUNNING then ct_value c + of_int (now - ct_last_time c) * ct_der c else ct_value c)"

definition CapacityTimer_start :: "tick \<Rightarrow> rat \<Rightarrow> capacity_timer \<Rightarrow> exc + capacity_timer" where
  "CapacityTimer_start now speed c =
    (if ct_status c \<noteq> STOPPED then Inl (AssertFailed ''status == STOPPED'')
     else Inr (c\<lparr>ct_der := speed, ct_last_time := now, ct_status := RUNNING\<rparr>))"

definition CapacityTimer_stop :: "tick \<Rightarrow> capacity_timer \<Rightarrow> exc + capacity_timer" where
  "CapacityTimer_stop now c =
    (if ct_status c \<noteq> RUNNING then Inl (AssertFailed ''status == RUNNING'')
     else Inr (c\<lparr>ct_value := ct_value c + of_int (now - ct_last_time c) * ct_der c, ct_status := STOPPED\<rparr>))"

definition CapacityTimer_set_value :: "rat \<Rightarrow> capacity_timer \<Rightarrow> exc + capacity_timer" where
  "CapacityTimer_set_value v c =
    (if ct_status c \<noteq> STOPPED then Inl (AssertFailed ''status == STOPPED'')
     else Inr (c\<lparr>ct_value := v\<rparr>))"

definition CapacityTimer_get_intercept :: "tick \<Rightarrow> tick \<Rightarrow> capacity_timer \<Rightarrow> exc + tick" where
  "CapacityTimer_get_intercept now v c =
    (if \<not> (ct_status c = RUNNING \<and> ct_der c \<noteq> 0) then Inl (AssertFailed ''status == RUNNING && der != 0'')
     else Inr \<lfloor>(of_int v - CapacityTimer_get_value now c) / ct_der c\<rfloor>)"

definition CapacityTimer_newRun :: "capacity_timer \<Rightarrow> capacity_timer" where
  "CapacityTimer_newRun c = c\<lparr>ct_status := STOPPED, ct_value := 0, ct_der := 1\<rparr>"

text \<open>A method of the member \<open>vtime\<close>.\<close>

definition with_vtime ::
    "nat \<Rightarrow> (tick \<Rightarrow> capacity_timer \<Rightarrow> exc + capacity_timer) \<Rightarrow> world \<Rightarrow> exc + world" where
  "with_vtime s f w =
     bindE (f (globTime w) (cbs_vtime (servers w s))) (\<lambda>c. Inr (upd_server s (\<lambda>x. x\<lparr>cbs_vtime := c\<rparr>) w))"

section \<open>The state changes of a CBServer\<close>

definition Server_setAbsDead :: "nat \<Rightarrow> tick \<Rightarrow> world \<Rightarrow> world" where
  "Server_setAbsDead s d = upd_server s (\<lambda>x. x\<lparr>srv_abs_dline := d\<rparr>)"

definition set_status :: "nat \<Rightarrow> server_status \<Rightarrow> world \<Rightarrow> world" where
  "set_status s st = upd_server s (\<lambda>x. x\<lparr>srv_status := st\<rparr>)"

text \<open>The new budget and deadline of \<open>idle_ready\<close>.\<close>

definition CBServer_idle_cap :: "tick \<Rightarrow> server \<Rightarrow> tick" where
  "CBServer_idle_cap now x =
    (if cbs_idle_policy x = REUSE_DLINE \<and> now < srv_abs_dline x
     then \<lfloor>of_int (srv_abs_dline x - now) * of_int (cbs_Q x) / (of_int (cbs_P x) :: rat)\<rfloor> else 0)"

definition CBServer_idle_ready :: "nat \<Rightarrow> world \<Rightarrow> exc + world" where
  "CBServer_idle_ready s w =
    (if srv_status (servers w s) \<noteq> IDLE then Inl (AssertFailed ''status == IDLE'')
     else
       let now = globTime w;
           cap = CBServer_idle_cap now (servers w s);
           w1 = upd_server s (\<lambda>x. x\<lparr>srv_status := READY, cbs_cap := cap\<rparr>) w;
           w2 = (if cap = 0
                 then upd_server s (\<lambda>x. x\<lparr>cbs_cap := cbs_Q x, cbs_d := now + cbs_P x,
                                          srv_abs_dline := now + cbs_P x\<rparr>) w1
                 else w1)
       in with_vtime s (\<lambda>_. CapacityTimer_set_value (of_int now)) w2)"

definition CBServer_releasing_ready :: "nat \<Rightarrow> world \<Rightarrow> world" where
  "CBServer_releasing_ready s w = Event_drop (IdleEvt s) (set_status s READY w)"

definition CBServer_ready_executing :: "nat \<Rightarrow> world \<Rightarrow> exc + world" where
  "CBServer_ready_executing s w =
    (let now = globTime w;
         w1 = upd_server s (\<lambda>x. x\<lparr>srv_status := EXECUTING, cbs_last_time := now\<rparr>) w;
         x = servers w1 s
     in bindE (with_vtime s (\<lambda>t. CapacityTimer_start t (of_int (cbs_P x) / of_int (cbs_Q x))) w1)
          (Event_post (BandExEvt s) (now + cbs_cap x) False))"

definition CBServer_executing_ready :: "nat \<Rightarrow> world \<Rightarrow> exc + world" where
  "CBServer_executing_ready s w =
    (let now = globTime w;
         w1 = upd_server s (\<lambda>x. x\<lparr>srv_status := READY, cbs_cap := cbs_cap x - (now - cbs_last_time x)\<rparr>) w
     in bindE (with_vtime s CapacityTimer_stop w1) (\<lambda>w2. Inr (Event_drop (BandExEvt s) w2)))"

definition CBServer_executing_releasing :: "nat \<Rightarrow> world \<Rightarrow> exc + world" where
  "CBServer_executing_releasing s w =
     bindE (if srv_status (servers w s) = EXECUTING
            then bindE (with_vtime s CapacityTimer_stop
                    (upd_server s (\<lambda>x. x\<lparr>cbs_cap := cbs_cap x - (globTime w - cbs_last_time x)\<rparr>) w))
                   (\<lambda>w1. Inr (Event_drop (BandExEvt s) w1))
            else Inr w) (\<lambda>w2.
     let v = CapacityTimer_get_value (globTime w2) (cbs_vtime (servers w2 s)) in
     if v \<le> of_int (globTime w2) then Inr (set_status s IDLE w2)
     else bindE (Event_post (IdleEvt s) (Tick_of_double v) False w2) (\<lambda>w3. Inr (set_status s RELEASING w3)))"

definition CBServer_releasing_idle :: "nat \<Rightarrow> world \<Rightarrow> world" where
  "CBServer_releasing_idle s = set_status s IDLE"

definition CBServer_executing_recharging :: "nat \<Rightarrow> world \<Rightarrow> exc + world" where
  "CBServer_executing_recharging s w =
     bindE (with_vtime s CapacityTimer_stop (Event_drop (BandExEvt s) w)) (\<lambda>w1.
     if \<not> cbs_HR (servers w1 s) then
       Event_post (ReplEvt s) (globTime w1) False
         (upd_server s (\<lambda>x. x\<lparr>cbs_cap := cbs_Q x, cbs_d := cbs_d x + cbs_P x,
            srv_abs_dline := cbs_d x + cbs_P x, srv_status := READY\<rparr>) w1)
     else
       bindE (Event_post (ReplEvt s) (cbs_d (servers w1 s)) False
                (upd_server s (\<lambda>x. x\<lparr>cbs_cap := 0\<rparr>) w1)) (\<lambda>w2.
       Inr (upd_server s (\<lambda>x. x\<lparr>cbs_d := cbs_d x + cbs_P x, srv_abs_dline := cbs_d x + cbs_P x,
              srv_status := RECHARGING\<rparr>) w2)))"

definition CBServer_recharging_ready :: "nat \<Rightarrow> world \<Rightarrow> world" where
  "CBServer_recharging_ready s = set_status s READY"

definition CBServer_recharging_idle :: "nat \<Rightarrow> world \<Rightarrow> exc + world" where
  "CBServer_recharging_idle s w = Inl (AssertFailed ''false'')"

section \<open>Server\<close>

text \<open>A call through the pointer \<open>kernel\<close> of the server.\<close>

definition with_kernel :: "nat \<Rightarrow> (rtkref \<Rightarrow> world \<Rightarrow> exc + world) \<Rightarrow> world \<Rightarrow> exc + world" where
  "with_kernel s f w = (case srv_kernel (servers w s) of
      None \<Rightarrow> Inl (NullPointer ''kernel'') | Some r \<Rightarrow> f r w)"

definition Server_getProcessor :: "nat \<Rightarrow> world \<Rightarrow> exc + nat option" where
  "Server_getProcessor s w = (case srv_kernel (servers w s) of
      None \<Rightarrow> Inl (NullPointer ''kernel'') | Some r \<Rightarrow> Inr (root_getProcessor r (ServerRef s) w))"

definition Server_getOldProcessor :: "nat \<Rightarrow> world \<Rightarrow> exc + nat option" where
  "Server_getOldProcessor s w = (case srv_kernel (servers w s) of
      None \<Rightarrow> Inl (NullPointer ''kernel'') | Some r \<Rightarrow> Inr (root_getOldProcessor r (ServerRef s) w))"

definition set_currExe :: "nat \<Rightarrow> absTask option \<Rightarrow> world \<Rightarrow> world" where
  "set_currExe s a = upd_server s (\<lambda>x. x\<lparr>srv_currExe := a\<rparr>)"

definition Server_addTask :: "nat \<Rightarrow> nat \<Rightarrow> int option \<Rightarrow> world \<Rightarrow> exc + world" where
  "Server_addTask s t par w =
     bindE (Task_setKernel t (KServer s) w) (\<lambda>w1.
     Scheduler_addTask (srv_sched (servers w1 s)) (TaskRef t) par
       (upd_server s (\<lambda>x. x\<lparr>srv_tasks := srv_tasks x @ [TaskRef t]\<rparr>) w1))"

definition CBServer_addTask :: "nat \<Rightarrow> nat \<Rightarrow> int option \<Rightarrow> world \<Rightarrow> exc + world" where
  "CBServer_addTask s t par w =
     bindE (Server_addTask s t par w) (\<lambda>w1. Inr (upd_server s (\<lambda>x. x\<lparr>cbs_yielding := False\<rparr>) w1))"

definition Server_dispatch :: "nat \<Rightarrow> world \<Rightarrow> exc + world" where
  "Server_dispatch s w = Event_post (SrvDispatchEvt s) (globTime w) False (Event_drop (SrvDispatchEvt s) w)"

definition Server_activate :: "nat \<Rightarrow> absTask \<Rightarrow> world \<Rightarrow> exc + world" where
  "Server_activate s a w =
     bindE (Scheduler_insert (srv_sched (servers w s)) a w) (\<lambda>w1.
     case srv_status (servers w1 s) of
       EXECUTING \<Rightarrow> Server_dispatch s w1
     | IDLE \<Rightarrow> bindE (CBServer_idle_ready s w1) (with_kernel s (\<lambda>r. root_activate r (ServerRef s)))
     | RELEASING \<Rightarrow> with_kernel s (\<lambda>r. root_activate r (ServerRef s)) (CBServer_releasing_ready s w1)
     | _ \<Rightarrow> Inr w1)"

definition Server_suspend :: "nat \<Rightarrow> absTask \<Rightarrow> world \<Rightarrow> exc + world" where
  "Server_suspend s a w =
     bindE (Scheduler_extract (srv_sched (servers w s)) a w) (\<lambda>w1.
     if srv_status (servers w1 s) \<noteq> EXECUTING then Inl (AssertFailed ''status == EXECUTING'')
     else
       bindE (Server_getProcessor s w1) (\<lambda>p.
       bindE (if p \<noteq> None
              then bindE (absTask_deschedule a w1) (\<lambda>w2.
                     Scheduler_notify (srv_sched (servers w2 s)) None (set_currExe s None w2))
              else Inr w1) (Server_dispatch s)))"

definition Server_onArrival :: "nat \<Rightarrow> absTask \<Rightarrow> world \<Rightarrow> exc + world" where
  "Server_onArrival s a w =
     bindE (Scheduler_insert (srv_sched (servers w s)) a w) (\<lambda>w1.
     case srv_status (servers w1 s) of
       EXECUTING \<Rightarrow> Server_dispatch s w1
     | IDLE \<Rightarrow> bindE (CBServer_idle_ready s w1) (with_kernel s (\<lambda>r. root_onArrival r (ServerRef s)))
     | RELEASING \<Rightarrow> with_kernel s (\<lambda>r. root_onArrival r (ServerRef s)) (CBServer_releasing_ready s w1)
     | _ \<Rightarrow> Inr w1)"

definition Server_onEnd :: "nat \<Rightarrow> absTask \<Rightarrow> world \<Rightarrow> exc + world" where
  "Server_onEnd s a w =
    (if srv_status (servers w s) \<noteq> EXECUTING then Inl (AssertFailed ''status == EXECUTING'')
     else
       bindE (Scheduler_extract (srv_sched (servers w s)) a w) (\<lambda>w1.
       bindE (Scheduler_notify (srv_sched (servers w1 s)) None (set_currExe s None w1))
         (Server_dispatch s)))"

definition Server_onBudgetExhausted :: "nat \<Rightarrow> world \<Rightarrow> exc + world" where
  "Server_onBudgetExhausted s w =
    (if srv_status (servers w s) \<noteq> EXECUTING then Inl (AssertFailed ''status == EXECUTING'')
     else
       let w1 = Event_drop (SrvDispatchEvt s) w in
       bindE (case srv_currExe (servers w1 s) of
                None \<Rightarrow> Inr w1
              | Some a \<Rightarrow> bindE (absTask_deschedule a w1) (\<lambda>v. Inr (set_currExe s None v))) (\<lambda>w2.
       steps [with_kernel s (\<lambda>r. root_suspend r (ServerRef s)),
              (\<lambda>v. Scheduler_notify (srv_sched (servers v s)) None v),
              with_kernel s root_dispatch,
              CBServer_executing_recharging s,
              whenE (\<lambda>v. srv_status (servers v s) = READY)
                (with_kernel s (\<lambda>r. root_onArrival r (ServerRef s)))] w2))"

definition Server_onSched :: "nat \<Rightarrow> world \<Rightarrow> exc + world" where
  "Server_onSched s w =
    (if srv_status (servers w s) \<noteq> READY then Inl (AssertFailed ''status == READY'')
     else bindE (CBServer_ready_executing s w) (Server_dispatch s))"

definition Server_onDesched :: "nat \<Rightarrow> world \<Rightarrow> exc + world" where
  "Server_onDesched s w =
    (if srv_status (servers w s) = EXECUTING then
       bindE (CBServer_executing_ready s w) (\<lambda>w1.
       case srv_currExe (servers w1 s) of
         None \<Rightarrow> Inl (NullPointer ''currExe_'')
       | Some a \<Rightarrow> bindE (absTask_deschedule a w1) (\<lambda>w2.
           Scheduler_notify (srv_sched (servers w2 s)) None (set_currExe s None w2)))
     else Inr w)"

definition Server_onDlineMiss :: "nat \<Rightarrow> world \<Rightarrow> exc + world" where
  "Server_onDlineMiss s w = Inr w"

definition Server_onRecharging :: "nat \<Rightarrow> world \<Rightarrow> exc + world" where
  "Server_onRecharging s w =
    (if srv_status (servers w s) \<noteq> RECHARGING then Inl (AssertFailed ''status == RECHARGING'')
     else if Scheduler_getFirst (srv_sched (servers w s)) w \<noteq> None then
       with_kernel s (\<lambda>r. root_onArrival r (ServerRef s)) (CBServer_recharging_ready s w)
     else
       bindE (CBServer_recharging_idle s w) (\<lambda>w1.
       Scheduler_notify (srv_sched (servers w1 s)) None (set_currExe s None w1)))"

definition Server_newRun :: "nat \<Rightarrow> world \<Rightarrow> world" where
  "Server_newRun s w =
     set_currExe s None
      (Event_drop (SrvDispatchEvt s) (Event_drop (SrvDeschedEvt s) (Event_drop (SrvSchedEvt s)
        (Event_drop (RechargingEvt s) (Event_drop (DlineMissEvt s) (Event_drop (BandExEvt s)
          (upd_server s (\<lambda>x. x\<lparr>srv_arr := 0, srv_last_arr := 0, srv_status := IDLE, srv_dline := 0,
             srv_abs_dline := 0, srv_last_exec_time := 0\<rparr>) w)))))))"

definition Server_onDispatch :: "nat \<Rightarrow> world \<Rightarrow> exc + world" where
  "Server_onDispatch s w =
    (if srv_status (servers w s) \<noteq> EXECUTING then Inl (AssertFailed ''status == EXECUTING'')
     else
       let newExe = Scheduler_getFirst (srv_sched (servers w s)) w;
           currExe = srv_currExe (servers w s)
       in bindE (if newExe \<noteq> currExe then
                   bindE (case currExe of None \<Rightarrow> Inr w | Some a \<Rightarrow> absTask_deschedule a w) (\<lambda>w1.
                   let w2 = set_currExe s newExe w1 in
                   case newExe of None \<Rightarrow> Inr w2 | Some b \<Rightarrow> absTask_schedule b w2)
                 else Inr w) (\<lambda>w3.
          if srv_currExe (servers w3 s) = None then
            steps [(\<lambda>v. Scheduler_notify (srv_sched (servers v s)) None v),
                   CBServer_executing_releasing s,
                   with_kernel s (\<lambda>r. root_suspend r (ServerRef s)),
                   with_kernel s root_dispatch] w3
          else Inr w3))"

section \<open>CBServer\<close>

text \<open>\<open>newRun\<close> of \<open>CBServer\<close> does not call that of \<open>Server\<close>.\<close>

definition CBServer_newRun :: "nat \<Rightarrow> world \<Rightarrow> exc + world" where
  "CBServer_newRun s w =
    (let w1 = upd_server s (\<lambda>x. x\<lparr>cbs_cap := cbs_Q x, cbs_last_time := 0, srv_status := IDLE\<rparr>) w in
     bindE (if ct_status (cbs_vtime (servers w1 s)) = RUNNING then with_vtime s CapacityTimer_stop w1
            else Inr w1)
       (with_vtime s (\<lambda>_. CapacityTimer_set_value 0)))"

text \<open>
  \<open>changeBudget\<close>, with the time it returns.  The source stores the new budget before it computes the
  difference: \<open>Q = n; cap += n - Q;\<close>.
\<close>

definition CBServer_changeBudget :: "nat \<Rightarrow> tick \<Rightarrow> world \<Rightarrow> exc + tick \<times> world" where
  "CBServer_changeBudget s n w =
    (let now = globTime w in
     if n \<le> 0 then Inr (0, w)
     else if n = cbs_Q (servers w s) then Inr (now, w)
     else
       let w1 = upd_server s (\<lambda>x. x\<lparr>cbs_Q := n\<rparr>) w;
           w2 = upd_server s (\<lambda>x. x\<lparr>cbs_cap := cbs_cap x + (n - cbs_Q x)\<rparr>) w1
       in if srv_status (servers w2 s) = EXECUTING then
            let w3 = upd_server s (\<lambda>x. x\<lparr>cbs_cap := cbs_cap x - (now - cbs_last_time x),
                                         cbs_last_time := now\<rparr>) w2;
                x = servers w3 s
            in bindE (Event_post (BandExEvt s) (now + cbs_cap x) False (Event_drop (BandExEvt s) w3)) (\<lambda>w4.
               bindE (with_vtime s CapacityTimer_stop w4) (\<lambda>w5.
               bindE (with_vtime s (\<lambda>t. CapacityTimer_start t (of_int (cbs_P x) / of_int (cbs_Q x))) w5) (\<lambda>w6.
               Inr (now, w6))))
          else Inr (now, w2))"

definition CBServer_getVirtualTime :: "nat \<Rightarrow> world \<Rightarrow> rat" where
  "CBServer_getVirtualTime s w =
    (if srv_status (servers w s) = IDLE then of_int (globTime w)
     else CapacityTimer_get_value (globTime w) (cbs_vtime (servers w s)))"

text \<open>\<open>taskIsActive\<close> casts its argument to \<open>Task\<close>; a server in the queue is a null pointer there.\<close>

definition taskIsActive :: "world \<Rightarrow> absTask \<Rightarrow> exc + bool" where
  "taskIsActive w a = (case a of
      ServerRef s \<Rightarrow> Inl (NullPointer ''tt'')
    | TaskRef t \<Rightarrow>
        let now = globTime w; active = tstate (tasks w t) \<noteq> TSK_IDLE;
            arr = ev_time (evs w (ArrEvt t))
        in Inr (if ev_time (evs w (EndEvt t)) = now then False
                else if arr > now \<and> \<not> active then False
                else if t_nonperiodic (tasks w t) then
                  if \<not> active then False
                  else if arr + dl (tasks w t) \<le> now then False else True
                else True))"

fun Server_getTasks :: "world \<Rightarrow> absTask list \<Rightarrow> exc + absTask list" where
  "Server_getTasks w [] = Inr []"
| "Server_getTasks w (a # as) =
     bindE (taskIsActive w a) (\<lambda>b. bindE (Server_getTasks w as) (\<lambda>rest. Inr (if b then a # rest else rest)))"

definition CBServer_isEmpty :: "nat \<Rightarrow> world \<Rightarrow> exc + bool" where
  "CBServer_isEmpty s w =
     bindE (Server_getTasks w (Scheduler_getTasks (srv_sched (servers w s)) w)) (\<lambda>ts. Inr (ts = []))"

definition CBServer_isInServer :: "nat \<Rightarrow> absTask \<Rightarrow> world \<Rightarrow> bool" where
  "CBServer_isInServer s a w = (case a of
      ServerRef _ \<Rightarrow> False | TaskRef _ \<Rightarrow> Scheduler_isFound (srv_sched (servers w s)) a w)"

definition CBServer_yield :: "nat \<Rightarrow> world \<Rightarrow> world" where
  "CBServer_yield s = upd_server s (\<lambda>x. x\<lparr>cbs_yielding := True\<rparr>)"

definition CBServer_onReplenishment :: "nat \<Rightarrow> world \<Rightarrow> exc + world" where
  "CBServer_onReplenishment s w =
    (let w1 = Event_drop (ReplEvt s) w in
     case srv_status (servers w1 s) of
       READY \<Rightarrow> Inr w1
     | EXECUTING \<Rightarrow> Inr w1
     | st \<Rightarrow>
         let w2 = upd_server s (\<lambda>x. x\<lparr>cbs_cap := cbs_Q x\<rparr>) w1 in
         if Scheduler_getFirst (srv_sched (servers w2 s)) w2 \<noteq> None then
           with_kernel s (\<lambda>r. root_onArrival r (ServerRef s)) (CBServer_recharging_ready s w2)
         else if st \<noteq> IDLE then
           let v = CapacityTimer_get_value (globTime w2) (cbs_vtime (servers w2 s)) in
           bindE (if of_int (globTime w2) < v
                  then Event_post (IdleEvt s) (Tick_ceil v) False (set_status s RELEASING w2)
                  else Inr (set_status s IDLE w2)) (\<lambda>w3.
           Scheduler_notify (srv_sched (servers w3 s)) None (set_currExe s None w3))
         else Inr w2)"

definition CBServer_onIdle :: "nat \<Rightarrow> world \<Rightarrow> exc + world" where
  "CBServer_onIdle s w = Inr (CBServer_releasing_idle s w)"

definition CBServer_onArrival :: "nat \<Rightarrow> absTask \<Rightarrow> world \<Rightarrow> exc + world" where
  "CBServer_onArrival s a w = Server_onArrival s a (upd_server s (\<lambda>x. x\<lparr>cbs_yielding := False\<rparr>) w)"

definition CBServer_onEnd :: "nat \<Rightarrow> absTask \<Rightarrow> world \<Rightarrow> exc + world" where
  "CBServer_onEnd s a w =
     bindE (Server_onEnd s a w) (\<lambda>w1.
     bindE (CBServer_isEmpty s w1) (\<lambda>b. Inr (if b then CBServer_yield s w1 else w1)))"

definition CBServer_onDesched :: "nat \<Rightarrow> world \<Rightarrow> exc + world" where
  "CBServer_onDesched s w =
     bindE (CBServer_isEmpty s w) (\<lambda>b. if b then Inr (CBServer_yield s w) else Server_onDesched s w)"

section \<open>The virtual methods of AbsKernel\<close>

definition kern_activate :: "kernref \<Rightarrow> absTask \<Rightarrow> world \<Rightarrow> exc + world" where
  "kern_activate k = (case k of KRoot r \<Rightarrow> root_activate r | KServer s \<Rightarrow> Server_activate s)"

definition kern_suspend :: "kernref \<Rightarrow> absTask \<Rightarrow> world \<Rightarrow> exc + world" where
  "kern_suspend k = (case k of KRoot r \<Rightarrow> root_suspend r | KServer s \<Rightarrow> Server_suspend s)"

definition kern_dispatch :: "kernref \<Rightarrow> world \<Rightarrow> exc + world" where
  "kern_dispatch k = (case k of KRoot r \<Rightarrow> root_dispatch r | KServer s \<Rightarrow> Server_dispatch s)"

definition kern_onArrival :: "kernref \<Rightarrow> absTask \<Rightarrow> world \<Rightarrow> exc + world" where
  "kern_onArrival k = (case k of KRoot r \<Rightarrow> root_onArrival r | KServer s \<Rightarrow> CBServer_onArrival s)"

definition kern_onEnd :: "kernref \<Rightarrow> absTask \<Rightarrow> world \<Rightarrow> exc + world" where
  "kern_onEnd k = (case k of KRoot r \<Rightarrow> root_onEnd r | KServer s \<Rightarrow> CBServer_onEnd s)"

definition kern_getProcessor :: "kernref \<Rightarrow> absTask \<Rightarrow> world \<Rightarrow> exc + nat option" where
  "kern_getProcessor k a w = (case k of
      KRoot r \<Rightarrow> Inr (root_getProcessor r a w) | KServer s \<Rightarrow> Server_getProcessor s w)"

definition kern_getOldProcessor :: "kernref \<Rightarrow> absTask \<Rightarrow> world \<Rightarrow> exc + nat option" where
  "kern_getOldProcessor k a w = (case k of
      KRoot r \<Rightarrow> Inr (root_getOldProcessor r a w) | KServer s \<Rightarrow> Server_getOldProcessor s w)"

text \<open>\<open>findNonServerKernel\<close> and \<open>getResManager\<close>.\<close>

definition findNonServerKernel :: "kernref \<Rightarrow> world \<Rightarrow> rtkref option" where
  "findNonServerKernel k w = (case k of KRoot r \<Rightarrow> Some r | KServer s \<Rightarrow> srv_kernel (servers w s))"

definition kern_getResManager :: "kernref \<Rightarrow> world \<Rightarrow> exc + nat option" where
  "kern_getResManager k w = (case findNonServerKernel k w of
      None \<Rightarrow> Inl (NullPointer ''kernel'')
    | Some (RTK i) \<Rightarrow> Inr (rk_resMng (rtks w i))
    | Some (MRTK i) \<Rightarrow> Inr (mk_resMng (mrtks w i)))"

end
