(* ===== verification/RTServer_Laws.thy ===== *)
theory RTServer_Laws
  imports RTServer
begin

section \<open>What the servers can change\<close>

text \<open>
  The interface \<open>kernel_ops\<close> extended by what a kernel or a task can ask of a server (\<open>server_ops\<close>).  It
  holds for a property that no change of a server and of its timers breaks (\<open>server_frame\<close>), which every
  handler of a server keeps too.
\<close>

locale server_ops = kernel_ops +
  assumes srv_activate: "P w \<Longrightarrow> okr P (Server_activate s a w)"
    and srv_suspend: "P w \<Longrightarrow> okr P (Server_suspend s a w)"
    and srv_onArrival: "P w \<Longrightarrow> okr P (CBServer_onArrival s a w)"
    and srv_onEnd: "P w \<Longrightarrow> okr P (CBServer_onEnd s a w)"
begin

lemma okr_Server_dispatch [pres]: "P w \<Longrightarrow> okr P (Server_dispatch s w)"
  by (auto simp: Server_dispatch_def intro!: frame_rules)

lemma okr_kern [pres]:
  assumes "P w"
  shows "okr P (kern_activate k a w)" and "okr P (kern_suspend k a w)"
    and "okr P (kern_dispatch k w)" and "okr P (kern_onArrival k a w)"
    and "okr P (kern_onEnd k a w)"
  using assms
  by (auto simp: kern_activate_def kern_suspend_def kern_dispatch_def kern_onArrival_def kern_onEnd_def
      split: kernref.split intro!: pres srv_activate srv_suspend srv_onArrival srv_onEnd)

end

definition own_timer :: "nat \<Rightarrow> evt \<Rightarrow> bool" where
  "own_timer s e \<longleftrightarrow> e \<in> {BandExEvt s, RechargingEvt s, ReplEvt s, IdleEvt s}"

locale one_server_frame = kernel_ops +
  fixes s :: nat
  assumes server: "P w \<Longrightarrow> P (upd_server s f w)"
    and timer_post: "P w \<Longrightarrow> own_timer s e \<Longrightarrow> okr P (Event_post e t d w)"
    and timer_drop: "P w \<Longrightarrow> own_timer s e \<Longrightarrow> P (Event_drop e w)"
begin

lemma okr_with_vtime [pres]: "P w \<Longrightarrow> okr P (with_vtime s f w)"
  by (auto simp: with_vtime_def intro!: okr_read server)

lemma okr_with_kernel [pres]:
  "(\<And>r. srv_kernel (servers w s) = Some r \<Longrightarrow> okr P (f r w)) \<Longrightarrow> okr P (with_kernel s f w)"
  by (auto simp: with_kernel_def intro!: pres)

lemma set_fields: "P w \<Longrightarrow> P (set_status s st w)" "P w \<Longrightarrow> P (set_currExe s a w)"
  by (simp_all add: set_status_def set_currExe_def server)

lemma any_post: "P w \<Longrightarrow> plain e \<or> own_timer s e \<Longrightarrow> okr P (Event_post e t d w)"
  using post timer_post by blast

lemma any_drop: "P w \<Longrightarrow> plain e \<or> own_timer s e \<Longrightarrow> P (Event_drop e w)"
  using drop timer_drop by (auto simp: plain_def)

lemma own_events: "plain (SrvDispatchEvt s) \<or> own_timer s (SrvDispatchEvt s)" "plain (BandExEvt s) \<or> own_timer s (BandExEvt s)"
  "plain (RechargingEvt s) \<or> own_timer s (RechargingEvt s)" "plain (ReplEvt s) \<or> own_timer s (ReplEvt s)"
  "plain (IdleEvt s) \<or> own_timer s (IdleEvt s)"
  by (simp_all add: own_timer_def)

lemmas server_rules = server set_fields any_post any_drop own_events process lastSched sched rtk immediate

lemma okr_cbs [pres]:
  assumes "P w"
  shows "okr P (CBServer_idle_ready s w)" and "okr P (CBServer_ready_executing s w)"
    and "okr P (CBServer_executing_ready s w)" and "okr P (CBServer_executing_releasing s w)"
    and "okr P (CBServer_executing_recharging s w)" and "okr P (CBServer_recharging_idle s w)"
    and "P (CBServer_releasing_ready s w)" and "P (CBServer_releasing_idle s w)"
    and "P (CBServer_recharging_ready s w)" and "P (CBServer_yield s w)"
  using assms
  by (auto simp: CBServer_idle_ready_def CBServer_ready_executing_def CBServer_executing_ready_def
      CBServer_executing_releasing_def CBServer_executing_recharging_def CBServer_recharging_idle_def
      CBServer_releasing_ready_def CBServer_releasing_idle_def CBServer_recharging_ready_def
      CBServer_yield_def Let_def intro!: pres server_rules)

lemma okr_case_status:
  "okr P x1 \<Longrightarrow> okr P x2 \<Longrightarrow> okr P x3 \<Longrightarrow> okr P x4 \<Longrightarrow> okr P x5 \<Longrightarrow>
   okr P (case st of IDLE \<Rightarrow> x1 | READY \<Rightarrow> x2 | EXECUTING \<Rightarrow> x3 | RELEASING \<Rightarrow> x4 | RECHARGING \<Rightarrow> x5)"
  by (cases st) auto

lemma okr_dispatch [pres]: "P w \<Longrightarrow> okr P (Server_dispatch s w)"
  by (auto simp: Server_dispatch_def intro!: frame_rules)

lemma okr_Server [pres]:
  assumes "P w"
  shows "okr P (Server_activate s a w)" and "okr P (Server_suspend s a w)"
    and "okr P (Server_onArrival s a w)" and "okr P (Server_onEnd s a w)"
    and "okr P (Server_onSched s w)" and "okr P (Server_onDesched s w)"
    and "okr P (Server_onRecharging s w)"
  using assms
  by (auto simp: Server_activate_def Server_onArrival_def Server_suspend_def Server_onEnd_def
      Server_onSched_def Server_onDesched_def Server_onRecharging_def
      intro!: okr_case_status server_rules okr_read [of "Server_getProcessor s v" for v] pres)

lemma okr_Server_events [pres]:
  assumes "P w"
  shows "okr P (Server_onBudgetExhausted s w)" and "okr P (Server_onDispatch s w)"
  using assms
  by (auto simp: Server_onBudgetExhausted_def Server_onDispatch_def Let_def simp del: steps.simps
      intro!: pres server_rules)

lemma okr_CBServer [pres]:
  assumes "P w"
  shows "okr P (CBServer_onReplenishment s w)" and "okr P (CBServer_onIdle s w)"
    and "okr P (CBServer_onArrival s a w)" and "okr P (CBServer_onEnd s a w)"
    and "okr P (CBServer_onDesched s w)" and "okr P (CBServer_newRun s w)"
  using assms
  by (auto simp: CBServer_onReplenishment_def CBServer_onIdle_def CBServer_onArrival_def
      CBServer_onEnd_def CBServer_onDesched_def CBServer_newRun_def Let_def
      intro!: okr_case_status server_rules okr_read [of "CBServer_isEmpty s v" for v] pres)

end

locale server_frame = kernel_ops +
  assumes server: "P w \<Longrightarrow> P (upd_server s f w)"
    and timer_post: "P w \<Longrightarrow> server_timer e \<Longrightarrow> okr P (Event_post e t d w)"
    and timer_drop: "P w \<Longrightarrow> server_timer e \<Longrightarrow> P (Event_drop e w)"
begin

lemma post_timers: "P w \<Longrightarrow> \<not> ends_switch e \<Longrightarrow> \<not> arrives e \<Longrightarrow> okr P (Event_post e t d w)"
  using post timer_post unfolding plain_def by blast

lemma drop_timers: "P w \<Longrightarrow> P (Event_drop e w)"
  using drop timer_drop by blast

end

sublocale server_frame \<subseteq> one: one_server_frame P s for s
  by unfold_locales (auto simp: own_timer_def intro: server timer_post timer_drop)

sublocale server_frame \<subseteq> server_ops
  by unfold_locales (rule one.okr_Server one.okr_CBServer, assumption)+

interpretation server_at_time: server_frame "at_time T" for T
  by unfold_locales (auto intro: okr_post)

interpretation server_resources: server_frame "\<lambda>w. resmans w = R \<and> cpus w = C" for R C
  by unfold_locales (auto simp: upd_server_def okr_def same_objects_def split: sum.split dest!: post_objects)

section \<open>Budget and virtual time\<close>

text \<open>
  The invariant of the constant bandwidth server between two handlers: the virtual time lags behind
  the deadline by the time the remaining budget is worth at the bandwidth \<open>Q / P\<close>, the timer runs
  exactly while the server executes, and the budget of an executing server is not overrun.
\<close>

definition cbs_vdist :: "server \<Rightarrow> tick \<Rightarrow> rat" where
  "cbs_vdist x c = of_int c * (of_int (cbs_P x) / of_int (cbs_Q x))"

definition cbs_ok :: "tick \<Rightarrow> server \<Rightarrow> bool" where
  "cbs_ok T x \<longleftrightarrow> cbs_idle_policy x = ORIGINAL \<and> 0 < cbs_Q x \<and> 0 < cbs_P x \<and>
    (let v = ct_value (cbs_vtime x) in
     (ct_status (cbs_vtime x) = RUNNING \<longleftrightarrow> srv_status x = EXECUTING) \<and>
     (srv_status x \<noteq> IDLE \<longrightarrow> 0 \<le> cbs_cap x \<and> cbs_cap x \<le> cbs_Q x \<and> srv_abs_dline x = cbs_d x) \<and>
     (srv_status x \<in> {READY, EXECUTING, RELEASING} \<longrightarrow> v = of_int (cbs_d x) - cbs_vdist x (cbs_cap x)) \<and>
     (srv_status x = RECHARGING \<longrightarrow> cbs_cap x = 0 \<and> v = of_int (cbs_d x - cbs_P x)) \<and>
     (srv_status x = EXECUTING \<longrightarrow> ct_der (cbs_vtime x) = of_int (cbs_P x) / of_int (cbs_Q x) \<and>
        ct_last_time (cbs_vtime x) = cbs_last_time x \<and> cbs_last_time x \<le> T \<and>
        T \<le> cbs_last_time x + cbs_cap x))"

definition cbs_inv :: "nat set \<Rightarrow> tick \<Rightarrow> world \<Rightarrow> bool" where
  "cbs_inv S T w \<longleftrightarrow> at_time T w \<and> (\<forall>s\<in>S. cbs_ok T (servers w s))"

lemma cbs_invD: "cbs_inv S T w \<Longrightarrow> s \<in> S \<Longrightarrow> cbs_ok T (servers w s)"
  and cbs_inv_time: "cbs_inv S T w \<Longrightarrow> at_time T w"
  and cbs_inv_now: "cbs_inv S T w \<Longrightarrow> globTime w = T"
  by (auto simp: cbs_inv_def at_time_def)

lemma servers_upd_server [simp]: "servers (upd_server s f w) = (servers w)(s := f (servers w s))"
  by (simp add: upd_server_def)

lemma cbs_inv_upd:
  "cbs_inv S T w \<Longrightarrow> (s \<in> S \<Longrightarrow> cbs_ok T (servers w s) \<Longrightarrow> cbs_ok T (f (servers w s))) \<Longrightarrow>
   cbs_inv S T (upd_server s f w)"
  by (auto simp: cbs_inv_def)

lemma cbs_inv_server:
  assumes "cbs_inv S T w" and "at_time T w'" and "servers w' = (servers w)(s := x)"
    and "s \<in> S \<Longrightarrow> cbs_ok T (servers w s) \<Longrightarrow> cbs_ok T x"
  shows "cbs_inv S T w'"
  using assms by (auto simp: cbs_inv_def)

text \<open>The kernels keep it, with any fact \<open>G\<close> of one server.\<close>

definition cbs_with :: "nat set \<Rightarrow> tick \<Rightarrow> nat \<Rightarrow> (server \<Rightarrow> bool) \<Rightarrow> world \<Rightarrow> bool" where
  "cbs_with S T s G w \<longleftrightarrow> cbs_inv S T w \<and> G (servers w s)"

interpretation kernel_cbs: kernel_frame "cbs_with S T s G" for S T s G
  by unfold_locales (auto simp: cbs_with_def cbs_inv_def okr_def same_objects_def upd_defs split: sum.split
      dest: post_objects process_objects preservesD [OF post_at_time] preservesD [OF process_at_time]
      intro: at_time_cong [THEN iffD1, rotated -1])

text \<open>What each state change does to its server.\<close>

lemma timer_stop_iff: "ct_status v \<noteq> RUNNING \<longleftrightarrow> ct_status v = STOPPED"
  by (cases "ct_status v") auto

lemma with_vtime_servers:
  "with_vtime s f w = Inr w' \<Longrightarrow> \<exists>c. f (globTime w) (cbs_vtime (servers w s)) = Inr c \<and>
     w' = upd_server s (\<lambda>x. x\<lparr>cbs_vtime := c\<rparr>) w"
  by (auto simp: with_vtime_def bindE_eq_Inr)

lemma idle_ready_servers:
  "CBServer_idle_ready s w = Inr w' \<Longrightarrow> cbs_idle_policy (servers w s) = ORIGINAL \<Longrightarrow>
   srv_status (servers w s) = IDLE \<and> ct_status (cbs_vtime (servers w s)) = STOPPED \<and>
   servers w' = (servers w)(s := (servers w s)\<lparr>srv_status := READY, cbs_cap := cbs_Q (servers w s),
     cbs_d := globTime w + cbs_P (servers w s), srv_abs_dline := globTime w + cbs_P (servers w s),
     cbs_vtime := (cbs_vtime (servers w s))\<lparr>ct_value := of_int (globTime w)\<rparr>\<rparr>)"
  by (auto simp: CBServer_idle_ready_def CBServer_idle_cap_def Let_def CapacityTimer_set_value_def
      split: if_splits dest!: with_vtime_servers)

lemma releasing_ready_servers:
  "servers (CBServer_releasing_ready s w) = (servers w)(s := (servers w s)\<lparr>srv_status := READY\<rparr>)"
  by (simp add: CBServer_releasing_ready_def set_status_def)

lemma ready_executing_servers:
  "CBServer_ready_executing s w = Inr w' \<Longrightarrow>
   servers w' = (servers w)(s := (servers w s)\<lparr>srv_status := EXECUTING, cbs_last_time := globTime w,
     cbs_vtime := (cbs_vtime (servers w s))\<lparr>ct_der := of_int (cbs_P (servers w s)) / of_int (cbs_Q (servers w s)),
        ct_last_time := globTime w, ct_status := RUNNING\<rparr>\<rparr>)"
  by (auto simp: CBServer_ready_executing_def Let_def bindE_eq_Inr CapacityTimer_start_def same_objects_def
      split: if_splits dest!: with_vtime_servers post_objects)

text \<open>The server after it stopped executing: what was used is taken from the budget.\<close>

definition cbs_stopped :: "tick \<Rightarrow> server \<Rightarrow> server" where
  "cbs_stopped now x = x\<lparr>cbs_cap := cbs_cap x - (now - cbs_last_time x),
     cbs_vtime := (cbs_vtime x)\<lparr>ct_value := ct_value (cbs_vtime x)
         + of_int (now - ct_last_time (cbs_vtime x)) * ct_der (cbs_vtime x), ct_status := STOPPED\<rparr>\<rparr>"

lemma executing_ready_servers:
  "CBServer_executing_ready s w = Inr w' \<Longrightarrow>
   servers w' = (servers w)(s := (cbs_stopped (globTime w) (servers w s))\<lparr>srv_status := READY\<rparr>)"
  by (auto simp: CBServer_executing_ready_def Let_def bindE_eq_Inr CapacityTimer_stop_def cbs_stopped_def
      split: if_splits dest!: with_vtime_servers)

lemma stop_timer:
  assumes "ct_status (cbs_vtime (servers w s)) = RUNNING"
  shows "bindE (with_vtime s CapacityTimer_stop
      (upd_server s (\<lambda>x. x\<lparr>cbs_cap := cbs_cap x - (globTime w - cbs_last_time x)\<rparr>) w))
      (\<lambda>w1. Inr (Event_drop (BandExEvt s) w1))
    = (Inr (Event_drop (BandExEvt s) (upd_server s (cbs_stopped (globTime w)) w)) :: exc + world)"
  using assms by (simp add: with_vtime_def CapacityTimer_stop_def cbs_stopped_def upd_server_def)

lemma stop_timer_fails:
  assumes "ct_status (cbs_vtime (servers w s)) \<noteq> RUNNING"
  shows "with_vtime s CapacityTimer_stop (upd_server s (\<lambda>x. x\<lparr>cbs_cap := f x\<rparr>) w)
     = Inl (AssertFailed ''status == RUNNING'')"
  using assms by (simp add: with_vtime_def CapacityTimer_stop_def)

lemma executing_releasing_cases:
  assumes "srv_status (servers w s) = EXECUTING" and "ct_status (cbs_vtime (servers w s)) = RUNNING"
  defines "w2 \<equiv> Event_drop (BandExEvt s) (upd_server s (cbs_stopped (globTime w)) w)"
    and "v \<equiv> ct_value (cbs_vtime (cbs_stopped (globTime w) (servers w s)))"
  shows "CBServer_executing_releasing s w =
    (if v \<le> of_int (globTime w) then Inr (set_status s IDLE w2)
     else bindE (Event_post (IdleEvt s) (Tick_of_double v) False w2) (\<lambda>w3. Inr (set_status s RELEASING w3)))"
  using assms(1,2)
  by (simp add: CBServer_executing_releasing_def stop_timer CapacityTimer_get_value_def w2_def v_def Let_def
      cbs_stopped_def)

lemma executing_releasing_servers:
  assumes "CBServer_executing_releasing s w = Inr w'" and "srv_status (servers w s) = EXECUTING"
  shows "\<exists>st. servers w' = (servers w)(s := (cbs_stopped (globTime w) (servers w s))\<lparr>srv_status := st\<rparr>) \<and>
     st = (if ct_value (cbs_vtime (cbs_stopped (globTime w) (servers w s))) \<le> of_int (globTime w)
           then IDLE else RELEASING)"
proof (cases "ct_status (cbs_vtime (servers w s)) = RUNNING")
  case True
  from assms(1) [unfolded executing_releasing_cases [OF assms(2) True]] show ?thesis
    by (auto simp: bindE_eq_Inr set_status_def same_objects_def split: if_splits dest!: post_objects)
next
  case False
  with assms show ?thesis by (simp add: CBServer_executing_releasing_def stop_timer_fails)
qed

lemma executing_recharging_servers:
  assumes "CBServer_executing_recharging s w = Inr w'"
  shows "servers w' = (servers w)(s := let x = servers w s; d' = cbs_d x + cbs_P x in
     (cbs_stopped (globTime w) x)\<lparr>cbs_cap := if cbs_HR x then 0 else cbs_Q x, cbs_d := d', srv_abs_dline := d',
        srv_status := if cbs_HR x then RECHARGING else READY\<rparr>)"
  using assms
  by (auto simp: CBServer_executing_recharging_def Let_def bindE_eq_Inr CapacityTimer_stop_def cbs_stopped_def
      same_objects_def split: if_splits dest!: with_vtime_servers post_objects)

text \<open>The changes of the invariant.\<close>

lemma cbs_vdist_full: "0 < cbs_Q x \<Longrightarrow> cbs_vdist x (cbs_Q x) = of_int (cbs_P x)"
  by (simp add: cbs_vdist_def)

lemma cbs_vdist_diff: "cbs_vdist x (a - b) = cbs_vdist x a - cbs_vdist x b"
  by (simp add: cbs_vdist_def left_diff_distrib diff_divide_distrib)

lemma cbs_vdist_cong: "cbs_P y = cbs_P x \<Longrightarrow> cbs_Q y = cbs_Q x \<Longrightarrow> cbs_vdist y = cbs_vdist x"
  by (simp add: cbs_vdist_def fun_eq_iff)

lemma cbs_stopped_value:
  assumes "cbs_ok T x" and "srv_status x = EXECUTING"
  shows "ct_value (cbs_vtime (cbs_stopped T x)) = of_int (cbs_d x) - cbs_vdist x (cbs_cap (cbs_stopped T x))"
    and "0 \<le> cbs_cap (cbs_stopped T x)" and "cbs_cap (cbs_stopped T x) \<le> cbs_Q x"
    and "srv_abs_dline x = cbs_d x" and "0 < cbs_Q x" and "0 < cbs_P x" and "cbs_idle_policy x = ORIGINAL"
  using assms by (auto simp: cbs_ok_def Let_def cbs_stopped_def cbs_vdist_def left_diff_distrib
      diff_divide_distrib)

lemma cbs_stopped_fields [simp]:
  "cbs_Q (cbs_stopped T x) = cbs_Q x" "cbs_P (cbs_stopped T x) = cbs_P x" "cbs_d (cbs_stopped T x) = cbs_d x"
  "srv_abs_dline (cbs_stopped T x) = srv_abs_dline x" "cbs_idle_policy (cbs_stopped T x) = cbs_idle_policy x"
  "ct_status (cbs_vtime (cbs_stopped T x)) = STOPPED"
  by (simp_all add: cbs_stopped_def)

lemma cbs_ok_stopped:
  assumes "cbs_ok T x" and "srv_status x = EXECUTING" and "st \<in> {READY, RELEASING, IDLE}"
  shows "cbs_ok T ((cbs_stopped T x)\<lparr>srv_status := st\<rparr>)"
proof -
  have "cbs_vdist (cbs_stopped T x\<lparr>srv_status := st\<rparr>) = cbs_vdist x"
    by (rule cbs_vdist_cong) simp_all
  with cbs_stopped_value [OF assms(1,2)] assms(3) show ?thesis
    unfolding cbs_ok_def Let_def by (elim insertE emptyE) simp_all
qed

lemma cbs_ok_status:
  assumes "srv_status x \<in> {READY, RELEASING}" and "st \<in> {READY, RELEASING, IDLE}" and "cbs_ok T x"
  shows "cbs_ok T (x\<lparr>srv_status := st\<rparr>)"
proof -
  have "cbs_vdist (x\<lparr>srv_status := st\<rparr>) = cbs_vdist x"
    by (rule cbs_vdist_cong) simp_all
  with assms show ?thesis
    unfolding cbs_ok_def Let_def by (elim insertE emptyE) simp_all
qed

lemma cbs_ok_currExe [simp]: "cbs_ok T (x\<lparr>srv_currExe := a\<rparr>) = cbs_ok T x"
  "cbs_ok T (x\<lparr>cbs_yielding := b\<rparr>) = cbs_ok T x"
  by (simp_all add: cbs_ok_def cbs_vdist_def)

text \<open>A transition of one server.\<close>

lemma cbs_transition:
  assumes "cbs_inv S T w" and "okr (at_time T) r"
    and "\<And>w'. r = Inr w' \<Longrightarrow> s \<in> S \<Longrightarrow> cbs_ok T (servers w s) \<Longrightarrow> cbs_ok T (servers w' s)"
    and "\<And>w' t. r = Inr w' \<Longrightarrow> t \<noteq> s \<Longrightarrow> servers w' t = servers w t"
  shows "okr (cbs_inv S T) r"
proof (cases r)
  case (Inr w')
  have "cbs_ok T (servers w' t)" if "t \<in> S" for t
    using assms(3,4) [OF Inr] cbs_invD [OF assms(1) that] that by (cases "t = s") auto
  with Inr assms(2) show ?thesis by (simp add: cbs_inv_def)
qed simp

lemma idle_ready_inv:
  assumes "cbs_inv S T w"
  shows "okr (cbs_inv S T) (CBServer_idle_ready s w)"
proof (rule cbs_transition [OF assms, where s = s])
  fix w' assume run: "CBServer_idle_ready s w = Inr w'"
  show "cbs_ok T (servers w' s)" if "cbs_ok T (servers w s)"
    using idle_ready_servers [OF run] that cbs_inv_now [OF assms]
    by (auto simp: cbs_ok_def Let_def cbs_vdist_def)
  show "servers w' t = servers w t" if "t \<noteq> s" for t
    using run that by (auto simp: CBServer_idle_ready_def Let_def split: if_splits dest!: with_vtime_servers)
qed (rule server_at_time.one.okr_cbs [OF cbs_inv_time [OF assms]])

lemma releasing_ready_inv:
  "cbs_inv S T w \<Longrightarrow> srv_status (servers w s) = RELEASING \<Longrightarrow> cbs_inv S T (CBServer_releasing_ready s w)"
  by (rule cbs_inv_server [OF _ _ releasing_ready_servers])
    (auto intro: cbs_ok_status server_at_time.one.okr_cbs cbs_inv_time)

lemma ready_executing_inv:
  assumes "cbs_inv S T w" and "srv_status (servers w s) = READY"
  shows "okr (cbs_inv S T) (CBServer_ready_executing s w)"
proof (rule cbs_transition [OF assms(1), where s = s])
  fix w' assume run: "CBServer_ready_executing s w = Inr w'"
  show "cbs_ok T (servers w' s)" if "cbs_ok T (servers w s)"
    using ready_executing_servers [OF run] that assms(2) cbs_inv_now [OF assms(1)]
    by (auto simp: cbs_ok_def Let_def cbs_vdist_def)
qed (use ready_executing_servers server_at_time.one.okr_cbs [OF cbs_inv_time [OF assms(1)]] in auto)

lemma executing_ready_inv:
  assumes "cbs_inv S T w" and "srv_status (servers w s) = EXECUTING"
  shows "okr (cbs_inv S T) (CBServer_executing_ready s w)"
proof (rule cbs_transition [OF assms(1), where s = s])
  fix w' assume run: "CBServer_executing_ready s w = Inr w'"
  show "cbs_ok T (servers w' s)" if "cbs_ok T (servers w s)"
    using executing_ready_servers [OF run] that assms(2) cbs_inv_now [OF assms(1)]
    by (auto intro: cbs_ok_stopped)
qed (use executing_ready_servers server_at_time.one.okr_cbs [OF cbs_inv_time [OF assms(1)]] in auto)

lemma executing_releasing_inv:
  assumes "cbs_inv S T w" and "srv_status (servers w s) = EXECUTING"
  shows "okr (cbs_inv S T) (CBServer_executing_releasing s w)"
proof (rule cbs_transition [OF assms(1), where s = s])
  fix w' assume run: "CBServer_executing_releasing s w = Inr w'"
  obtain st where w': "servers w' = (servers w)(s := (cbs_stopped (globTime w) (servers w s))\<lparr>srv_status := st\<rparr>)"
    and st: "st \<in> {READY, RELEASING, IDLE}"
    using executing_releasing_servers [OF run assms(2)] by (auto split: if_splits)
  show "cbs_ok T (servers w' s)" if "cbs_ok T (servers w s)"
    using w' cbs_ok_stopped [OF that assms(2) st] cbs_inv_now [OF assms(1)] by simp
  show "servers w' t = servers w t" if "t \<noteq> s" for t using w' that by simp
qed (rule server_at_time.one.okr_cbs [OF cbs_inv_time [OF assms(1)]])

text \<open>When the budget is used up exactly.\<close>

lemma executing_recharging_inv:
  assumes "cbs_inv S T w" and "srv_status (servers w s) = EXECUTING"
    and "s \<in> S \<Longrightarrow> T = cbs_last_time (servers w s) + cbs_cap (servers w s)"
  shows "okr (cbs_inv S T) (CBServer_executing_recharging s w)"
proof (rule cbs_transition [OF assms(1), where s = s])
  fix w' assume run: "CBServer_executing_recharging s w = Inr w'"
  show "cbs_ok T (servers w' s)" if "cbs_ok T (servers w s)" and "s \<in> S"
    using cbs_stopped_value [OF that(1) assms(2)] assms(3) [OF that(2)] cbs_inv_now [OF assms(1)]
      executing_recharging_servers [OF run]
    by (auto simp: cbs_ok_def Let_def cbs_vdist_def cbs_stopped_def)
qed (use executing_recharging_servers server_at_time.one.okr_cbs [OF cbs_inv_time [OF assms(1)]] in auto)

section \<open>Every handler keeps the invariant\<close>

abbreviation cbs_any :: "server \<Rightarrow> bool" where
  "cbs_any \<equiv> \<lambda>_. True"

abbreviation in_status :: "server_status \<Rightarrow> server \<Rightarrow> bool" where
  "in_status st \<equiv> \<lambda>x. srv_status x = st"

lemma cbs_with_inv: "cbs_with S T s G w \<Longrightarrow> cbs_inv S T w"
  and cbs_with_fact: "cbs_with S T s G w \<Longrightarrow> G (servers w s)"
  by (auto simp: cbs_with_def)

lemma cbs_with_any: "cbs_with S T s cbs_any = cbs_inv S T"
  by (simp add: cbs_with_def fun_eq_iff)

lemmas kernel_inv = kernel_cbs.okr_root [where G = cbs_any, unfolded cbs_with_any]
  kernel_cbs.okr_notify [where G = cbs_any, unfolded cbs_with_any]
  kernel_cbs.okr_insert [where G = cbs_any, unfolded cbs_with_any]
  kernel_cbs.okr_extract [where G = cbs_any, unfolded cbs_with_any]
  kernel_cbs.okr_absTask_deschedule [where G = cbs_any, unfolded cbs_with_any]
  kernel_cbs.post [where G = cbs_any, unfolded cbs_with_any]
  kernel_cbs.process [where G = cbs_any, unfolded cbs_with_any]
  kernel_cbs.drop [where G = cbs_any, unfolded cbs_with_any] plain not_server_timer

lemma okr_with_kernel_any: "(\<And>r. okr P (f r w)) \<Longrightarrow> okr P (with_kernel s f w)"
  by (simp add: with_kernel_def split: option.split)

lemma cbs_inv_drop: "cbs_inv S T w \<Longrightarrow> cbs_inv S T (Event_drop e w)"
  by (auto simp: cbs_inv_def)

lemma cbs_inv_post: "cbs_inv S T w \<Longrightarrow> okr (cbs_inv S T) (Event_post e t d w)"
proof (cases "Event_post e t d w")
  case (Inr w')
  assume w: "cbs_inv S T w"
  from okr_post [OF cbs_inv_time [OF w], of e t d] post_objects [OF Inr] w Inr show ?thesis
    by (simp add: cbs_inv_def same_objects_def)
qed simp

lemma set_currExe_with:
  "cbs_with S T s G w \<Longrightarrow> (\<And>x. G (x\<lparr>srv_currExe := a\<rparr>) = G x) \<Longrightarrow> cbs_with S T s G (set_currExe s a w)"
  by (auto simp: cbs_with_def set_currExe_def intro!: cbs_inv_upd)

lemma Server_dispatch_inv: "cbs_inv S T w \<Longrightarrow> okr (cbs_inv S T) (Server_dispatch s w)"
  unfolding Server_dispatch_def by (intro kernel_inv)

lemma Server_activate_inv: "cbs_inv S T w \<Longrightarrow> okr (cbs_inv S T) (Server_activate s a w)"
  by (auto simp: Server_activate_def split: server_status.split
      intro!: pres kernel_inv Server_dispatch_inv idle_ready_inv okr_with_kernel_any releasing_ready_inv)

lemma Server_onArrival_inv: "cbs_inv S T w \<Longrightarrow> okr (cbs_inv S T) (Server_onArrival s a w)"
  by (auto simp: Server_onArrival_def split: server_status.split
      intro!: pres kernel_inv Server_dispatch_inv idle_ready_inv okr_with_kernel_any releasing_ready_inv)

lemma set_currExe_inv: "cbs_inv S T w \<Longrightarrow> cbs_inv S T (set_currExe s a w)"
  by (auto simp: set_currExe_def intro!: cbs_inv_upd)

lemma Server_suspend_inv: "cbs_inv S T w \<Longrightarrow> okr (cbs_inv S T) (Server_suspend s a w)"
  by (auto simp: Server_suspend_def
      intro!: okr_read [of "Server_getProcessor s v" for v] pres kernel_inv Server_dispatch_inv set_currExe_inv)

lemma Server_onEnd_inv: "cbs_inv S T w \<Longrightarrow> okr (cbs_inv S T) (Server_onEnd s a w)"
  by (auto simp: Server_onEnd_def intro!: pres kernel_inv Server_dispatch_inv set_currExe_inv)

lemma Server_onSched_inv: "cbs_inv S T w \<Longrightarrow> okr (cbs_inv S T) (Server_onSched s w)"
  by (auto simp: Server_onSched_def intro!: pres Server_dispatch_inv ready_executing_inv)

lemma Server_onDesched_inv: "cbs_inv S T w \<Longrightarrow> okr (cbs_inv S T) (Server_onDesched s w)"
  by (auto simp: Server_onDesched_def intro!: pres kernel_inv executing_ready_inv set_currExe_inv)

lemma yield_inv: "cbs_inv S T w \<Longrightarrow> cbs_inv S T (upd_server s (\<lambda>x. x\<lparr>cbs_yielding := b\<rparr>) w)"
  by (auto intro!: cbs_inv_upd)

lemma CBServer_handlers_inv:
  assumes "cbs_inv S T w"
  shows "okr (cbs_inv S T) (CBServer_onArrival s a w)" and "okr (cbs_inv S T) (CBServer_onEnd s a w)"
    and "okr (cbs_inv S T) (CBServer_onDesched s w)"
  using assms
  by (auto simp: CBServer_onArrival_def CBServer_onEnd_def CBServer_onDesched_def CBServer_yield_def
      intro!: okr_read [of "CBServer_isEmpty s v" for v] pres Server_onArrival_inv Server_onEnd_inv
        Server_onDesched_inv yield_inv)

lemma onIdle_inv:
  "cbs_inv S T w \<Longrightarrow> srv_status (servers w s) = RELEASING \<Longrightarrow> okr (cbs_inv S T) (CBServer_onIdle s w)"
  by (auto simp: CBServer_onIdle_def CBServer_releasing_idle_def set_status_def
      intro!: cbs_inv_upd intro: cbs_ok_status)

lemma Server_onDispatch_inv:
  assumes "cbs_inv S T w"
  shows "okr (cbs_inv S T) (Server_onDispatch s w)"
proof (cases "srv_status (servers w s) = EXECUTING")
  case True
  let ?X = "cbs_with S T s (in_status EXECUTING)"
  note X = kernel_cbs.okr_notify kernel_cbs.okr_absTask_deschedule kernel_cbs.okr_absTask_schedule
  have w: "?X w" using assms True by (simp add: cbs_with_def)
  show ?thesis
    unfolding Server_onDispatch_def Let_def if_not_P [OF not_not [THEN iffD2, OF True]]
  proof (rule okr_seq [where Q = ?X])
    show "okr ?X (if Scheduler_getFirst (srv_sched (servers w s)) w \<noteq> srv_currExe (servers w s)
      then bindE (case srv_currExe (servers w s) of None \<Rightarrow> Inr w | Some a \<Rightarrow> absTask_deschedule a w) (\<lambda>w1.
             case Scheduler_getFirst (srv_sched (servers w s)) w of
               None \<Rightarrow> Inr (set_currExe s (Scheduler_getFirst (srv_sched (servers w s)) w) w1)
             | Some b \<Rightarrow> absTask_schedule b (set_currExe s (Scheduler_getFirst (srv_sched (servers w s)) w) w1))
      else Inr w)"
      using w by (auto intro!: pres X set_currExe_with)
  next
    fix w3 assume w3: "?X w3"
    show "okr (cbs_inv S T) (if srv_currExe (servers w3 s) = None
      then steps [(\<lambda>v. Scheduler_notify (srv_sched (servers v s)) None v), CBServer_executing_releasing s,
             with_kernel s (\<lambda>r. root_suspend r (ServerRef s)), with_kernel s root_dispatch] w3
      else Inr w3)"
      using w3 unfolding steps.simps
      by (intro okr_if okr_seq [OF X(1) [OF w3]] okr_bindE executing_releasing_inv okr_with_kernel_any
          kernel_inv) (auto simp: cbs_with_def)
  qed
qed (simp add: Server_onDispatch_def)

text \<open>The budget exhaustion event fires when the budget is used up.\<close>

definition budget_used :: "tick \<Rightarrow> server \<Rightarrow> bool" where
  "budget_used T x \<longleftrightarrow> srv_status x = EXECUTING \<and> T = cbs_last_time x + cbs_cap x"

lemma Server_onBudgetExhausted_inv:
  assumes "cbs_inv S T w" and "T = cbs_last_time (servers w s) + cbs_cap (servers w s)"
  shows "okr (cbs_inv S T) (Server_onBudgetExhausted s w)"
proof (cases "srv_status (servers w s) = EXECUTING")
  case True
  let ?X = "cbs_with S T s (budget_used T)"
  note X = kernel_cbs.okr_notify kernel_cbs.okr_absTask_deschedule kernel_cbs.okr_root
  have w1: "?X (Event_drop (SrvDispatchEvt s) w)"
    using assms True by (intro kernel_cbs.drop) (simp_all add: cbs_with_def budget_used_def)
  have used: "budget_used T (x\<lparr>srv_currExe := a\<rparr>) = budget_used T x" for x a
    by (simp add: budget_used_def)
  show ?thesis
    unfolding Server_onBudgetExhausted_def Let_def if_not_P [OF not_not [THEN iffD2, OF True]]
  proof (rule okr_seq [where Q = ?X])
    show "okr ?X (case srv_currExe (servers (Event_drop (SrvDispatchEvt s) w) s) of
         None \<Rightarrow> Inr (Event_drop (SrvDispatchEvt s) w)
       | Some a \<Rightarrow> bindE (absTask_deschedule a (Event_drop (SrvDispatchEvt s) w))
                    (\<lambda>v. Inr (set_currExe s None v)))"
      using w1 by (intro okr_option okr_bindE X) (simp_all add: set_currExe_with used)
  next
    fix w2 assume "?X w2"
    then show "okr (cbs_inv S T) (steps [with_kernel s (\<lambda>r. root_suspend r (ServerRef s)),
              (\<lambda>v. Scheduler_notify (srv_sched (servers v s)) None v),
              with_kernel s root_dispatch, CBServer_executing_recharging s,
              whenE (\<lambda>v. srv_status (servers v s) = READY)
                (with_kernel s (\<lambda>r. root_onArrival r (ServerRef s)))] w2)"
      unfolding steps.simps
      by (intro okr_seq [where Q = ?X, OF okr_with_kernel_any] okr_seq [where Q = ?X, OF X(1)] X
          okr_bindE executing_recharging_inv okr_whenE okr_with_kernel_any kernel_inv)
        (auto simp: cbs_with_def budget_used_def)
  qed
qed (simp add: Server_onBudgetExhausted_def)

lemma onReplenishment_inv:
  assumes "cbs_inv S T w" and "srv_status (servers w s) \<notin> {RELEASING, IDLE}"
  shows "okr (cbs_inv S T) (CBServer_onReplenishment s w)"
proof (cases "srv_status (servers w s) = RECHARGING")
  case False
  then show ?thesis using assms
    by (cases "srv_status (servers w s)") (auto simp: CBServer_onReplenishment_def Let_def intro: cbs_inv_drop)
next
  case True
  let ?w2 = "upd_server s (\<lambda>x. x\<lparr>cbs_cap := cbs_Q x\<rparr>) (Event_drop (ReplEvt s) w)"
  have at: "at_time T (Event_drop (ReplEvt s) w)" using assms(1) by (auto dest: cbs_inv_time)
  have full: "cbs_inv S T (set_status s st ?w2)" if "st \<in> {READY, RELEASING, IDLE}" for st
    using that True
    by (intro cbs_inv_server [OF assms(1), where s = s])
      (auto simp: at set_status_def cbs_ok_def Let_def cbs_vdist_def)
  show ?thesis
    using True full
    by (auto simp: CBServer_onReplenishment_def CBServer_recharging_ready_def Let_def
        intro!: okr_bindE [where P = "cbs_inv S T"] okr_with_kernel_any cbs_inv_post kernel_inv set_currExe_inv)
qed

section \<open>Concrete servers\<close>

text \<open>
  Server 0 with a budget of 4 every 10 ticks on an \<open>MRTKernel\<close> with one processor, ready at time 5 to
  run task 0, then executing it; \<open>cbs_example hr q\<close> is the same at time \<open>5 + q\<close>, with hard reservation when \<open>hr\<close>.
\<close>

definition cbs_ready :: "bool \<Rightarrow> world" where
  "cbs_ready hr = result_world (steps
     [pureE (upd_mrtk 0 (\<lambda>_. MRTKernel_ctor 0 [0])),
      pureE (upd_sched 1 (\<lambda>_. Scheduler_ctor FIFOScheduler)),
      pureE (upd_server 0 (\<lambda>_. (CBServer_ctor 2 4 10 0 hr 1)\<lparr>srv_kernel := Some (MRTK 0)\<rparr>)),
      CBServer_addTask 0 0 None,
      pureE (Simulation_setTime 5),
      Scheduler_insert 1 (TaskRef 0),
      CBServer_idle_ready 0] empty_world)"

definition cbs_example :: "bool \<Rightarrow> tick \<Rightarrow> world" where
  "cbs_example hr q = Simulation_setTime (5 + q) (result_world (steps
     [CBServer_ready_executing 0, pureE (set_currExe 0 (Some (TaskRef 0)))] (cbs_ready hr)))"

lemmas cbs_eval = kernel_eval cbs_ready_def cbs_example_def CBServer_addTask_def Server_addTask_def Task_setKernel_def
  CBServer_idle_ready_def CBServer_idle_cap_def CBServer_ready_executing_def CBServer_ctor_def
  CapacityTimer_ctor_def CapacityTimer_start_def CapacityTimer_stop_def CapacityTimer_set_value_def
  with_vtime_def set_currExe_def upd_server_def upd_task_def Let_def

section \<open>Properties\<close>

lemma cbs_vtime_le_deadline:
  assumes "cbs_inv S T w" and "s \<in> S" and "srv_status (servers w s) \<noteq> IDLE"
  shows "CBServer_getVirtualTime s w \<le> of_int (cbs_d (servers w s))"
proof -
  let ?x = "servers w s"
  have ok: "cbs_ok T ?x" using assms(1,2) by (rule cbs_invD)
  have pos: "0 \<le> cbs_vdist ?x c" if "0 \<le> c" for c
    using ok that by (simp add: cbs_vdist_def cbs_ok_def)
  show ?thesis
  proof (cases "srv_status ?x = EXECUTING")
    case True
    then have "ct_status (cbs_vtime ?x) = RUNNING" using ok by (auto simp: cbs_ok_def Let_def)
    with True have "CBServer_getVirtualTime s w = ct_value (cbs_vtime (cbs_stopped T ?x))"
      using cbs_inv_now [OF assms(1)]
      by (simp add: CBServer_getVirtualTime_def CapacityTimer_get_value_def cbs_stopped_def)
    with cbs_stopped_value [OF ok True] pos show ?thesis by simp
  next
    case False
    then have "ct_status (cbs_vtime ?x) \<noteq> RUNNING" using ok by (auto simp: cbs_ok_def Let_def)
    with assms(3) False ok pos [of "cbs_cap ?x"] show ?thesis
      by (cases "srv_status ?x")
        (auto simp: CBServer_getVirtualTime_def CapacityTimer_get_value_def cbs_ok_def Let_def)
  qed
qed

text \<open>
  The budget of a constant bandwidth server is neither overrun nor overfilled, and its virtual time
  never passes its deadline: the handlers of the server keep the invariant that ties budget, deadline
  and virtual time together (the budget exhaustion when it comes as its event is posted, the
  replenishment of a server that is not idle, the idle event of a releasing server).
\<close>

lemma cbs_handlers_keep_budget:
  assumes "cbs_inv S T w" and "f w = Inr w'"
    and "f \<in> {Server_activate s a, Server_suspend s a, CBServer_onArrival s a, CBServer_onEnd s a,
             Server_onSched s, CBServer_onDesched s, Server_onDispatch s}
       \<or> f = Server_onBudgetExhausted s \<and> T = cbs_last_time (servers w s) + cbs_cap (servers w s)
       \<or> f = CBServer_onReplenishment s \<and> srv_status (servers w s) \<notin> {RELEASING, IDLE}
       \<or> f = CBServer_onIdle s \<and> srv_status (servers w s) = RELEASING"
  shows "cbs_inv S T w' \<and> (\<forall>t\<in>S. srv_status (servers w' t) \<noteq> IDLE \<longrightarrow>
    0 \<le> cbs_cap (servers w' t) \<and> cbs_cap (servers w' t) \<le> cbs_Q (servers w' t) \<and>
    CBServer_getVirtualTime t w' \<le> of_int (cbs_d (servers w' t)))"
proof -
  note handlers = Server_activate_inv Server_suspend_inv CBServer_handlers_inv Server_onSched_inv
    Server_onDispatch_inv
  have "okr (cbs_inv S T) (f w)"
    using assms(3)
  proof (elim disjE)
    assume "f \<in> {Server_activate s a, Server_suspend s a, CBServer_onArrival s a, CBServer_onEnd s a,
             Server_onSched s, CBServer_onDesched s, Server_onDispatch s}"
    with assms(1) show ?thesis by (auto intro: handlers)
  qed (use assms(1) in \<open>auto intro: Server_onBudgetExhausted_inv onReplenishment_inv onIdle_inv\<close>)
  then have inv: "cbs_inv S T w'" using assms(2) by simp
  then have "cbs_ok T (servers w' t)" if "t \<in> S" for t using that by (rule cbs_invD)
  with cbs_vtime_le_deadline [OF inv] inv show ?thesis by (auto simp: cbs_ok_def Let_def)
qed

lemma cbs_handlers_keep_budget_witness:
  "\<exists>w'. Server_onSched 0 (cbs_ready True) = Inr w' \<and> cbs_inv {0} 5 w'
     \<and> srv_status (servers w' 0) = EXECUTING"
proof -
  have inv: "cbs_inv {0} 5 (cbs_ready True)"
    by (simp add: cbs_inv_def cbs_eval cbs_ok_def cbs_vdist_def)
  have "\<exists>w'. Server_onSched 0 (cbs_ready True) = Inr w' \<and> srv_status (servers w' 0) = EXECUTING"
    by (simp add: cbs_eval Server_onSched_def Server_dispatch_def Event_drop_def pl_erase_def equivalent_key_def)
  with cbs_handlers_keep_budget [where f = "Server_onSched 0" and s = 0 and a = "TaskRef 0", OF inv] show ?thesis
    by blast
qed

text \<open>
  C18. A server that starts to execute is stopped in time: \<open>ready_executing\<close> succeeds and posts the
  budget exhaustion exactly when the remaining budget will have been used.
\<close>

theorem cbs_exhaustion_is_posted:
  assumes "cbs_inv S T w" and "s \<in> S" and "srv_status (servers w s) = READY"
    and "\<not> ev_isInQueue (evs w (BandExEvt s))"
  shows "\<exists>w'. CBServer_ready_executing s w = Inr w' \<and> cbs_inv S T w' \<and>
    srv_status (servers w' s) = EXECUTING \<and> cbs_cap (servers w' s) = cbs_cap (servers w s) \<and>
    BandExEvt s \<in> set (eventQueue w') \<and>
    ev_time (evs w' (BandExEvt s)) = cbs_last_time (servers w' s) + cbs_cap (servers w' s)"
proof -
  note inv = assms(1) and ok = cbs_invD [OF assms(1,2)]
  have now: "globTime w = T" and q: "evq_inv w" using cbs_inv_time [OF inv] by (auto simp: at_time_def)
  have stopped: "ct_status (cbs_vtime (servers w s)) = STOPPED" and cap: "0 \<le> cbs_cap (servers w s)"
    using ok assms(3) by (auto simp: cbs_ok_def Let_def timer_stop_iff)
  let ?x = "servers w s"
  let ?w2 = "upd_server s (\<lambda>x. x\<lparr>cbs_vtime := (cbs_vtime ?x)\<lparr>ct_der := of_int (cbs_P ?x) / of_int (cbs_Q ?x),
        ct_last_time := T, ct_status := RUNNING\<rparr>\<rparr>)
      (upd_server s (\<lambda>x. x\<lparr>srv_status := EXECUTING, cbs_last_time := T\<rparr>) w)"
  have "at_time T ?w2" using cbs_inv_time [OF inv] by simp
  then have "evq_inv ?w2" by (simp add: at_time_def)
  then obtain w' where post: "Event_post (BandExEvt s) (T + cbs_cap ?x) False ?w2 = Inr w'"
    and "BandExEvt s \<in> set (eventQueue w')" and "ev_time (evs w' (BandExEvt s)) = T + cbs_cap ?x"
    using post_accepted [of ?w2 "BandExEvt s" "T + cbs_cap ?x" False] assms(4) now cap by auto
  moreover have run: "CBServer_ready_executing s w = Inr w'"
    using post stopped now
    by (simp add: CBServer_ready_executing_def Let_def with_vtime_def CapacityTimer_start_def)
  moreover have "cbs_inv S T w'"
    using ready_executing_inv [OF inv assms(3)] run by simp
  ultimately show ?thesis using ready_executing_servers [OF run] now by auto
qed

theorem cbs_exhaustion_is_posted_witness:
  "\<exists>w'. CBServer_ready_executing 0 (cbs_ready True) = Inr w' \<and> ev_time (evs w' (BandExEvt 0)) = 9"
proof -
  have "\<exists>w'. CBServer_ready_executing 0 (cbs_ready True) = Inr w' \<and> cbs_last_time (servers w' 0) = 5"
    by (simp add: cbs_eval)
  moreover have "cbs_inv {0} 5 (cbs_ready True)" "srv_status (servers (cbs_ready True) 0) = READY"
    "\<not> ev_isInQueue (evs (cbs_ready True) (BandExEvt 0))" "cbs_cap (servers (cbs_ready True) 0) = 4"
    by (simp_all add: cbs_inv_def cbs_eval cbs_ok_def cbs_vdist_def)
  ultimately show ?thesis
    using cbs_exhaustion_is_posted [of "{0}" 5 "cbs_ready True" 0] by auto
qed

text \<open>
  A preempted server is charged exactly the time it executed: \<open>executing_ready\<close> succeeds, takes the
  elapsed time from the budget, which stays non negative, cancels the budget exhaustion, and leaves the
  virtual time where it was, at the deadline less the remaining budget over the bandwidth.
\<close>

theorem cbs_preempted_is_charged:
  assumes "cbs_inv S T w" and "s \<in> S" and "srv_status (servers w s) = EXECUTING"
  shows "\<exists>w'. CBServer_executing_ready s w = Inr w' \<and> srv_status (servers w' s) = READY \<and>
    cbs_cap (servers w' s) = cbs_cap (servers w s) - (T - cbs_last_time (servers w s)) \<and>
    0 \<le> cbs_cap (servers w' s) \<and> BandExEvt s \<notin> set (eventQueue w') \<and>
    CBServer_getVirtualTime s w' = CBServer_getVirtualTime s w \<and>
    CBServer_getVirtualTime s w' = of_int (cbs_d (servers w' s))
      - of_int (cbs_cap (servers w' s)) * of_int (cbs_P (servers w' s)) / of_int (cbs_Q (servers w' s))"
proof -
  let ?x = "servers w s" and ?x' = "cbs_stopped T ((servers w s)\<lparr>srv_status := READY\<rparr>)"
  have ok: "cbs_ok T ?x" and now: "globTime w = T" using assms(1,2) by (auto dest: cbs_invD cbs_inv_now)
  have running: "ct_status (cbs_vtime ?x) = RUNNING" using ok assms(3) by (auto simp: cbs_ok_def Let_def)
  let ?w' = "Event_drop (BandExEvt s) (upd_server s (\<lambda>_. ?x') w)"
  have run: "CBServer_executing_ready s w = Inr ?w'"
    using running now by (simp add: CBServer_executing_ready_def Let_def with_vtime_def CapacityTimer_stop_def
        cbs_stopped_def upd_server_def)
  have v: "CBServer_getVirtualTime s ?w' = ct_value (cbs_vtime (cbs_stopped T ?x))"
    by (simp add: CBServer_getVirtualTime_def CapacityTimer_get_value_def cbs_stopped_def)
  have "CBServer_getVirtualTime s w = ct_value (cbs_vtime (cbs_stopped T ?x))"
    using running now assms(3)
    by (simp add: CBServer_getVirtualTime_def CapacityTimer_get_value_def cbs_stopped_def)
  with run v cbs_stopped_value [OF ok assms(3)] show ?thesis
    by (intro exI [of _ ?w'] conjI) (simp_all add: cbs_vdist_def cbs_stopped_def)
qed

lemma cbs_preempted_is_charged_witness:
  "\<exists>w'. CBServer_executing_ready 0 (cbs_example True 3) = Inr w' \<and> cbs_cap (servers w' 0) = 1"
proof -
  have "cbs_inv {0} 8 (cbs_example True 3)" "srv_status (servers (cbs_example True 3) 0) = EXECUTING"
    "cbs_cap (servers (cbs_example True 3) 0) = 4" "cbs_last_time (servers (cbs_example True 3) 0) = 5"
    by (simp_all add: cbs_inv_def cbs_eval cbs_ok_def cbs_vdist_def)
  with cbs_preempted_is_charged [of "{0}" 8 "cbs_example True 3" 0] show ?thesis by auto
qed

lemma recharging_running:
  assumes "ct_status (cbs_vtime (servers w s)) = RUNNING"
  shows "with_vtime s CapacityTimer_stop (Event_drop (BandExEvt s) w) = Inr (upd_server s (\<lambda>x. x\<lparr>cbs_vtime :=
     (cbs_vtime x)\<lparr>ct_value := ct_value (cbs_vtime x)
        + of_int (globTime w - ct_last_time (cbs_vtime x)) * ct_der (cbs_vtime x), ct_status := STOPPED\<rparr>\<rparr>)
     (Event_drop (BandExEvt s) w))"
  using assms by (simp add: with_vtime_def CapacityTimer_stop_def upd_server_def)

text \<open>
  C19. When the budget is exhausted the deadline moves by one period.  A soft server is recharged and
  ready at once; a hard one has no budget until its replenishment, which is posted for the old deadline.
  If that deadline has passed already, the hard server cannot be recharged: the post throws.
\<close>

theorem cbs_recharge:
  assumes "cbs_inv S T w" and "s \<in> S" and "srv_status (servers w s) = EXECUTING"
    and "\<not> ev_isInQueue (evs w (ReplEvt s))"
  shows "if cbs_HR (servers w s) \<and> cbs_d (servers w s) < T
    then CBServer_executing_recharging s w = Inl EventPostedInPast
    else \<exists>w'. CBServer_executing_recharging s w = Inr w' \<and>
      cbs_d (servers w' s) = cbs_d (servers w s) + cbs_P (servers w s) \<and>
      srv_abs_dline (servers w' s) = cbs_d (servers w' s) \<and> ReplEvt s \<in> set (eventQueue w') \<and>
      (if cbs_HR (servers w s)
       then srv_status (servers w' s) = RECHARGING \<and> cbs_cap (servers w' s) = 0
         \<and> ev_time (evs w' (ReplEvt s)) = cbs_d (servers w s)
       else srv_status (servers w' s) = READY \<and> cbs_cap (servers w' s) = cbs_Q (servers w s)
         \<and> ev_time (evs w' (ReplEvt s)) = T)"
proof -
  let ?x = "servers w s"
  have ok: "cbs_ok T ?x" and now: "globTime w = T" and at: "at_time T w"
    using assms(1,2) by (auto dest: cbs_invD cbs_inv_now cbs_inv_time)
  have running: "ct_status (cbs_vtime ?x) = RUNNING" using ok assms(3) by (auto simp: cbs_ok_def Let_def)
  let ?w1 = "upd_server s (\<lambda>x. x\<lparr>cbs_vtime := (cbs_vtime x)\<lparr>ct_value := ct_value (cbs_vtime x)
        + of_int (globTime w - ct_last_time (cbs_vtime x)) * ct_der (cbs_vtime x), ct_status := STOPPED\<rparr>\<rparr>)
     (Event_drop (BandExEvt s) w)"
  have post: "\<exists>w'. Event_post (ReplEvt s) t False (upd_server s g ?w1) = Inr w' \<and>
     ReplEvt s \<in> set (eventQueue w') \<and> ev_time (evs w' (ReplEvt s)) = t" if "T \<le> t" for t g
  proof -
    have "at_time T (upd_server s g ?w1)" using at by simp
    then have "evq_inv (upd_server s g ?w1)" unfolding at_time_def by (rule conjunct1)
    from post_accepted [OF this, of "ReplEvt s" t False] assms(4) now that show ?thesis by auto
  qed
  show ?thesis
  proof (cases "cbs_HR ?x")
    case False
    obtain w' where w': "Event_post (ReplEvt s) T False (upd_server s (\<lambda>x. x\<lparr>cbs_cap := cbs_Q x,
        cbs_d := cbs_d x + cbs_P x, srv_abs_dline := cbs_d x + cbs_P x, srv_status := READY\<rparr>) ?w1) = Inr w'"
      and "ReplEvt s \<in> set (eventQueue w')" "ev_time (evs w' (ReplEvt s)) = T"
      using post [of T] by blast
    moreover have run: "CBServer_executing_recharging s w = Inr w'"
      using w' False now by (simp add: CBServer_executing_recharging_def recharging_running [OF running])
    ultimately show ?thesis
      using False by (simp add: executing_recharging_servers [OF run] Let_def)
  next
    case hard: True
    let ?w2 = "upd_server s (\<lambda>x. x\<lparr>cbs_cap := 0\<rparr>) ?w1"
    show ?thesis
    proof (cases "cbs_d ?x < T")
      case True
      then have "Event_post (ReplEvt s) (cbs_d ?x) False ?w2 = Inl EventPostedInPast"
        using assms(4) now by (simp add: Event_post_def)
      with hard True show ?thesis
        by (simp add: CBServer_executing_recharging_def recharging_running [OF running])
    next
      case False
      obtain w3 where w3: "Event_post (ReplEvt s) (cbs_d ?x) False ?w2 = Inr w3"
        and q: "ReplEvt s \<in> set (eventQueue w3)" "ev_time (evs w3 (ReplEvt s)) = cbs_d ?x"
        using post [of "cbs_d ?x" "\<lambda>x. x\<lparr>cbs_cap := 0\<rparr>"] False by auto
      let ?w' = "upd_server s (\<lambda>x. x\<lparr>cbs_d := cbs_d x + cbs_P x, srv_abs_dline := cbs_d x + cbs_P x,
              srv_status := RECHARGING\<rparr>) w3"
      have run: "CBServer_executing_recharging s w = Inr ?w'"
        using w3 hard by (simp add: CBServer_executing_recharging_def recharging_running [OF running])
      moreover have "eventQueue ?w' = eventQueue w3" by (simp add: upd_server_def)
      ultimately show ?thesis
        using hard False q executing_recharging_servers [OF run] by (auto simp: Let_def)
    qed
  qed
qed

theorem cbs_recharge_witness:
  "(\<exists>w'. CBServer_executing_recharging 0 (cbs_example True 4) = Inr w' \<and> cbs_d (servers w' 0) = 25
      \<and> ev_time (evs w' (ReplEvt 0)) = 15)"
proof -
  have "cbs_inv {0} 9 (cbs_example True 4)" "srv_status (servers (cbs_example True 4) 0) = EXECUTING"
    "\<not> ev_isInQueue (evs (cbs_example True 4) (ReplEvt 0))" "cbs_HR (servers (cbs_example True 4) 0)"
    "cbs_d (servers (cbs_example True 4) 0) = 15" "cbs_P (servers (cbs_example True 4) 0) = 10"
    by (simp_all add: cbs_inv_def cbs_eval cbs_ok_def cbs_vdist_def)
  with cbs_recharge [of "{0}" 9 "cbs_example True 4" 0] show ?thesis by auto
qed

text \<open>
  The release rule: a server that runs out of work is idle at once when its virtual time, the
  deadline less the remaining budget over the bandwidth, is not ahead of the clock; else it keeps its
  bandwidth until that time, rounded towards zero to a tick.
\<close>

lemma cbs_release_rule:
  assumes "cbs_inv S T w" and "s \<in> S" and "srv_status (servers w s) = EXECUTING"
    and "\<not> ev_isInQueue (evs w (IdleEvt s))"
  defines "v \<equiv> of_int (cbs_d (servers w s)) - of_int (cbs_cap (servers w s) - (T - cbs_last_time (servers w s)))
     * of_int (cbs_P (servers w s)) / of_int (cbs_Q (servers w s)) :: rat"
  shows "\<exists>w'. CBServer_executing_releasing s w = Inr w' \<and>
    (if v \<le> of_int T then srv_status (servers w' s) = IDLE
     else srv_status (servers w' s) = RELEASING \<and> CBServer_getVirtualTime s w' = v \<and>
       IdleEvt s \<in> set (eventQueue w') \<and> ev_time (evs w' (IdleEvt s)) = Tick_of_double v)"
proof -
  let ?x = "servers w s"
  let ?w2 = "Event_drop (BandExEvt s) (upd_server s (cbs_stopped T) w)"
  have ok: "cbs_ok T ?x" and now: "globTime w = T" and at: "at_time T w"
    using assms(1,2) by (auto dest: cbs_invD cbs_inv_now cbs_inv_time)
  have running: "ct_status (cbs_vtime ?x) = RUNNING" using ok assms(3) by (auto simp: cbs_ok_def Let_def)
  have v: "ct_value (cbs_vtime (cbs_stopped T ?x)) = v"
    using cbs_stopped_value(1) [OF ok assms(3)] by (simp add: v_def cbs_vdist_def cbs_stopped_def)
  note run = executing_releasing_cases [OF assms(3) running, unfolded now v]
  show ?thesis
  proof (cases "v \<le> of_int T")
    case True
    then show ?thesis by (simp add: run set_status_def)
  next
    case False
    then have future: "T \<le> Tick_of_double v"
      by (simp add: Tick_of_double_def le_ceiling_iff le_floor_iff)
    have "at_time T ?w2" using at by simp
    then have "evq_inv ?w2" unfolding at_time_def by (rule conjunct1)
    from post_accepted [OF this, of "IdleEvt s" "Tick_of_double v" False] assms(4) now future
    obtain w3 where w3: "Event_post (IdleEvt s) (Tick_of_double v) False ?w2 = Inr w3"
      and q: "IdleEvt s \<in> set (eventQueue w3)" "ev_time (evs w3 (IdleEvt s)) = Tick_of_double v"
      by auto
    have "CBServer_executing_releasing s w = Inr (set_status s RELEASING w3)"
      using False w3 by (simp add: run)
    moreover have "servers w3 = servers ?w2" using post_objects [OF w3] by (simp add: same_objects_def)
    ultimately show ?thesis
      using False q v
      by (simp add: set_status_def upd_server_def CBServer_getVirtualTime_def CapacityTimer_get_value_def)
  qed
qed

lemma cbs_release_rule_witness:
  "\<exists>w'. CBServer_executing_releasing 0 (cbs_example True 1) = Inr w' \<and>
     srv_status (servers w' 0) = RELEASING \<and> CBServer_getVirtualTime 0 w' = 15 / 2 \<and> ev_time (evs w' (IdleEvt 0)) = 7"
proof -
  have "cbs_inv {0} 6 (cbs_example True 1)" "srv_status (servers (cbs_example True 1) 0) = EXECUTING"
    "\<not> ev_isInQueue (evs (cbs_example True 1) (IdleEvt 0))" "cbs_cap (servers (cbs_example True 1) 0) = 4"
    "cbs_d (servers (cbs_example True 1) 0) = 15" "cbs_P (servers (cbs_example True 1) 0) = 10"
    "cbs_Q (servers (cbs_example True 1) 0) = 4" "cbs_last_time (servers (cbs_example True 1) 0) = 5"
    by (simp_all add: cbs_inv_def cbs_eval cbs_ok_def cbs_vdist_def)
  moreover have "Tick_of_double (15 / 2) = 7" by (simp add: Tick_of_double_def floor_eq_iff)
  ultimately show ?thesis
    using cbs_release_rule [of "{0}" 6 "cbs_example True 1" 0] by auto
qed

text \<open>
  \<open>changeBudget\<close> does not change the current budget: the new \<open>Q\<close> is stored before the difference
  to the old one is taken, so \<open>cap\<close> is increased by zero, whatever the new budget is.
\<close>

theorem changeBudget_keeps_cap:
  assumes "0 < n" and "n \<noteq> cbs_Q (servers w s)" and "srv_status (servers w s) \<noteq> EXECUTING"
  shows "\<exists>w'. CBServer_changeBudget s n w = Inr (globTime w, w') \<and> cbs_Q (servers w' s) = n
    \<and> cbs_cap (servers w' s) = cbs_cap (servers w s)"
  using assms by (simp add: CBServer_changeBudget_def Let_def)

lemma changeBudget_keeps_cap_witness:
  "\<exists>w'. CBServer_changeBudget 0 2 (cbs_ready True) = Inr (5, w') \<and> cbs_Q (servers w' 0) = 2
     \<and> cbs_cap (servers w' 0) = 4"
proof -
  have "(2 :: tick) \<noteq> cbs_Q (servers (cbs_ready True) 0)" "srv_status (servers (cbs_ready True) 0) \<noteq> EXECUTING"
    "globTime (cbs_ready True) = 5" "cbs_cap (servers (cbs_ready True) 0) = 4"
    by (simp_all add: cbs_eval)
  with changeBudget_keeps_cap [of 2 "cbs_ready True" 0] show ?thesis by auto
qed

text \<open>
  \<open>CBServer::newRun\<close> hides \<open>Server::newRun\<close> and does not clear \<open>currExe_\<close>: when the task that was
  executing at the end of the previous run is again the first of the server, \<open>onDispatch\<close> takes it for
  the current one and does nothing, so the task is never scheduled.
\<close>

theorem newRun_keeps_stale_task:
  assumes "srv_currExe (servers w s) = Some a" and "CBServer_newRun s w = Inr w1"
    and "srv_currExe (servers v s) = srv_currExe (servers w1 s)"
    and "srv_status (servers v s) = EXECUTING" and "Scheduler_getFirst (srv_sched (servers v s)) v = Some a"
  shows "Server_onDispatch s v = Inr v"
proof -
  have "srv_currExe (servers w1 s) = srv_currExe (servers w s)"
    using assms(2) by (auto simp: CBServer_newRun_def Let_def bindE_eq_Inr split: if_splits
        dest!: with_vtime_servers)
  with assms show ?thesis by (simp add: Server_onDispatch_def)
qed

lemma newRun_keeps_stale_task_witness:
  "\<exists>w1. CBServer_newRun 0 (cbs_example False 2) = Inr w1 \<and>
    Server_onDispatch 0 (cbs_example False 0) = Inr (cbs_example False 0)"
proof -
  have "\<exists>w1. CBServer_newRun 0 (cbs_example False 2) = Inr w1 \<and> srv_currExe (servers w1 0) = Some (TaskRef 0)"
    by (simp add: cbs_eval CBServer_newRun_def)
  then obtain w1 where w1: "CBServer_newRun 0 (cbs_example False 2) = Inr w1"
    and cur: "srv_currExe (servers w1 0) = Some (TaskRef 0)" by blast
  have "Server_onDispatch 0 (cbs_example False 0) = Inr (cbs_example False 0)"
    by (rule newRun_keeps_stale_task [OF _ w1, where a = "TaskRef 0"])
      (simp_all add: cur, simp_all add: cbs_eval)
  with w1 show ?thesis by blast
qed

end
