(* ===== verification/RTResource.thy ===== *)
theory RTResource
  imports RTServer_Laws
begin

text \<open>
  Shared resources: \<open>Resource\<close> (\<open>resource/resource.cpp\<close>), \<open>ResManager\<close> (\<open>resource/resmanager.cpp\<close>)
  with the first come first served policy of \<open>FCFSResManager\<close> (\<open>resource/fcfsresmanager.cpp\<close>), which
  is the manager the model instantiates, and \<open>requestResource\<close> and \<open>releaseResource\<close> of \<open>AbsKernel\<close>
  (\<open>kernel.cpp\<close>).
\<close>

section \<open>Resource\<close>

definition Resource_lock :: "absTask \<Rightarrow> int \<Rightarrow> resource \<Rightarrow> resource" where
  "Resource_lock a n r = r\<lparr>r_available := r_available r - n, r_owner := Some a\<rparr>"

definition Resource_unlock :: "int \<Rightarrow> resource \<Rightarrow> resource" where
  "Resource_unlock n r = r\<lparr>r_available := r_available r + n, r_owner := None\<rparr>"

definition Resource_isLocked :: "resource \<Rightarrow> bool" where
  "Resource_isLocked r \<longleftrightarrow> r_available r = 0"

definition Resource_newRun :: "resource \<Rightarrow> resource" where
  "Resource_newRun r = r\<lparr>r_available := r_available_initial r\<rparr>"

section \<open>ResManager\<close>

text \<open>\<open>std::map::insert\<close> keeps a resource that is already there.\<close>

definition ResManager_addResource :: "nat \<Rightarrow> string \<Rightarrow> int \<Rightarrow> int \<Rightarrow> world \<Rightarrow> world" where
  "ResManager_addResource m name nr nr_initial = upd_resman m (\<lambda>x.
     if rm_resources x name = None
     then x\<lparr>rm_resources := (rm_resources x)(name \<mapsto> Resource_ctor nr nr_initial)\<rparr> else x)"

definition ResManager_hasResource :: "nat \<Rightarrow> string \<Rightarrow> world \<Rightarrow> bool" where
  "ResManager_hasResource m name w \<longleftrightarrow> rm_resources (resmans w m) name \<noteq> None"

definition FCFSResManager_newRun :: "nat \<Rightarrow> world \<Rightarrow> world" where
  "FCFSResManager_newRun m = upd_resman m (\<lambda>x. x\<lparr>rm_blocked := (\<lambda>_. [])\<rparr>)"

definition upd_resource :: "nat \<Rightarrow> string \<Rightarrow> (resource \<Rightarrow> resource) \<Rightarrow> world \<Rightarrow> world" where
  "upd_resource m r f = upd_resman m (\<lambda>x.
     x\<lparr>rm_resources := (rm_resources x)(r := map_option f (rm_resources x r))\<rparr>)"

definition available :: "nat \<Rightarrow> string \<Rightarrow> world \<Rightarrow> int" where
  "available m r w = (case rm_resources (resmans w m) r of None \<Rightarrow> 0 | Some x \<Rightarrow> r_available x)"

definition blocked :: "nat \<Rightarrow> string \<Rightarrow> world \<Rightarrow> (absTask \<times> int) list" where
  "blocked m r w = rm_blocked (resmans w m) r"

definition set_blocked :: "nat \<Rightarrow> string \<Rightarrow> (absTask \<times> int) list \<Rightarrow> world \<Rightarrow> world" where
  "set_blocked m r q = upd_resman m (\<lambda>x. x\<lparr>rm_blocked := (rm_blocked x)(r := q)\<rparr>)"

text \<open>The kernel of a task, \<open>AbsRTTask::getKernel\<close>.\<close>

definition absTask_getKernel :: "world \<Rightarrow> absTask \<Rightarrow> kernref option" where
  "absTask_getKernel w a = (case a of
      TaskRef t \<Rightarrow> tkernel (tasks w t) | ServerRef s \<Rightarrow> map_option KRoot (srv_kernel (servers w s)))"

definition with_task_kernel :: "absTask \<Rightarrow> (kernref \<Rightarrow> world \<Rightarrow> exc + world) \<Rightarrow> world \<Rightarrow> exc + world" where
  "with_task_kernel a f w = (case absTask_getKernel w a of
      None \<Rightarrow> Inl (NullPointer ''kernel'') | Some k \<Rightarrow> f k w)"

text \<open>\<open>FCFSResManager::request\<close>, with its answer.\<close>

definition FCFS_request :: "nat \<Rightarrow> absTask \<Rightarrow> string \<Rightarrow> int \<Rightarrow> world \<Rightarrow> exc + bool \<times> world" where
  "FCFS_request m a r nr w =
    (if blocked m r w \<noteq> [] \<or> available m r w < nr then
       bindE (with_task_kernel a (\<lambda>k. kern_suspend k a) w) (\<lambda>w1.
       Inr (False, set_blocked m r (blocked m r w1 @ [(a, nr)]) w1))
     else Inr (True, upd_resource m r (Resource_lock a nr) w))"

text \<open>
  The loop of \<open>FCFSResManager::release\<close>.  A round that locks removes the front of the queue; a round
  that does not makes \<open>nr_available\<close> negative or zero and is the last.  So the rounds are at most as many as the
  queue has tasks, plus one: the parameter \<open>n\<close>, which \<open>FCFS_release\<close> starts at that number.
\<close>

fun FCFS_release_loop :: "nat \<Rightarrow> nat \<Rightarrow> string \<Rightarrow> int \<Rightarrow> world \<Rightarrow> exc + world" where
  "FCFS_release_loop 0 m r nr_available w = Inr w"
| "FCFS_release_loop (Suc n) m r nr_available w =
    (case blocked m r w of
       [] \<Rightarrow> Inr w
     | (task, nr_required) # rest \<Rightarrow>
         if nr_available > 0 then
           bindE (if nr_required \<le> nr_available then
                    let w1 = upd_resource m r (Resource_lock task nr_required) (set_blocked m r rest w) in
                    bindE (with_task_kernel task (\<lambda>k. kern_activate k task) w1) (\<lambda>w2.
                    case absTask_getKernel w2 task of
                      None \<Rightarrow> Inl (AssertFailed ''task != nullptr'')
                    | Some k \<Rightarrow>
                        (case findNonServerKernel k w2 of
                           None \<Rightarrow> Inl (AssertFailed ''task != nullptr'')
                         | Some rk \<Rightarrow> root_dispatch rk w2))
                  else Inr w)
             (FCFS_release_loop n m r (nr_available - nr_required))
         else Inr w)"

definition FCFS_release :: "nat \<Rightarrow> absTask \<Rightarrow> string \<Rightarrow> int \<Rightarrow> world \<Rightarrow> exc + world" where
  "FCFS_release m a r nr w =
    (let w1 = upd_resource m r (Resource_unlock nr) w
     in FCFS_release_loop (Suc (length (blocked m r w1))) m r (available m r w1) w1)"

definition ResManager_request :: "nat \<Rightarrow> absTask \<Rightarrow> string \<Rightarrow> int \<Rightarrow> world \<Rightarrow> exc + bool \<times> world" where
  "ResManager_request m a name nr w =
    (if rm_resources (resmans w m) name = None then Inl (BaseExc ''Cannot find requested resouce'')
     else FCFS_request m a name nr w)"

definition ResManager_release :: "nat \<Rightarrow> absTask \<Rightarrow> string \<Rightarrow> int \<Rightarrow> world \<Rightarrow> exc + world" where
  "ResManager_release m a name nr w =
    (if rm_resources (resmans w m) name = None then Inl (BaseExc ''Cannot find requested resouce'')
     else FCFS_release m a name nr w)"

section \<open>AbsKernel\<close>

definition requestResource :: "kernref \<Rightarrow> absTask \<Rightarrow> string \<Rightarrow> int \<Rightarrow> world \<Rightarrow> exc + bool \<times> world" where
  "requestResource k a r n w =
     bindE (kern_getResManager k w) (\<lambda>rm. case rm of
       None \<Rightarrow> Inl (BaseExc ''Resource Manager not set!'')
     | Some m \<Rightarrow>
         bindE (ResManager_request m a r n w) (\<lambda>(ret, w1).
         bindE (if \<not> ret then kern_dispatch k w1 else Inr w1) (\<lambda>w2. Inr (ret, w2))))"

definition releaseResource :: "kernref \<Rightarrow> absTask \<Rightarrow> string \<Rightarrow> int \<Rightarrow> world \<Rightarrow> exc + world" where
  "releaseResource k a r n w =
     bindE (kern_getResManager k w) (\<lambda>rm. case rm of
       None \<Rightarrow> Inl (BaseExc ''Resource Manager not set!'')
     | Some m \<Rightarrow> bindE (ResManager_release m a r n w) (kern_dispatch k))"

end
