(* ===== verification/RTResource_Laws.thy ===== *)
theory RTResource_Laws
  imports RTResource
begin

section \<open>What locking and waking change\<close>

lemma keeps_resources:
  assumes "\<And>R C. resmans w = R \<and> cpus w = C \<Longrightarrow> okr (\<lambda>v. resmans v = R \<and> cpus v = C) r" and "r = Inr w'"
  shows "resmans w' = resmans w"
  using assms(1) [of "resmans w" "cpus w"] assms(2) by simp

lemma kern_activate_resources: "kern_activate k a w = Inr w' \<Longrightarrow> resmans w' = resmans w"
  by (rule keeps_resources [OF server_resources.okr_kern(1)])

lemma kern_suspend_resources: "kern_suspend k a w = Inr w' \<Longrightarrow> resmans w' = resmans w"
  by (rule keeps_resources [OF server_resources.okr_kern(2)])

lemma root_dispatch_resources: "root_dispatch r w = Inr w' \<Longrightarrow> resmans w' = resmans w"
  by (rule keeps_resources [OF kernel_resources.okr_root(3)])

lemma blocked_upd [simp]:
  "blocked m r (upd_resource m r' f w) = blocked m r w"
  "blocked m r (set_blocked m r' q w) = (if r = r' then q else blocked m r w)"
  "blocked m r (upd_server s fs w) = blocked m r w"
  by (simp_all add: blocked_def upd_resource_def set_blocked_def upd_resman_def upd_server_def)

lemma available_upd [simp]:
  "available m r (set_blocked m r' q w) = available m r w"
  "rm_resources (resmans (set_blocked m r' q w) m) = rm_resources (resmans w m)"
  by (simp_all add: available_def set_blocked_def upd_resman_def)

lemma available_lock:
  "rm_resources (resmans w m) r \<noteq> None \<Longrightarrow>
   available m r (upd_resource m r (Resource_lock a n) w) = available m r w - n"
  "rm_resources (resmans w m) r \<noteq> None \<Longrightarrow>
   available m r (upd_resource m r (Resource_unlock n) w) = available m r w + n"
  by (auto simp: available_def upd_resource_def upd_resman_def Resource_lock_def Resource_unlock_def)

lemma resource_exists_upd [simp]:
  "rm_resources (resmans (upd_resource m r f w) m) r = None \<longleftrightarrow> rm_resources (resmans w m) r = None"
  by (simp add: upd_resource_def upd_resman_def)

lemma same_resmans:
  "resmans w' = resmans w \<Longrightarrow> blocked m r w' = blocked m r w \<and> available m r w' = available m r w"
  by (simp add: blocked_def available_def)

section \<open>The order of the grants\<close>

text \<open>
  What \<open>release\<close> promises, on the queue alone: from the front on, the tasks whose requests still fit
  into what is available are served, until one does not fit or nothing is left.
\<close>

fun fcfs_grants :: "int \<Rightarrow> ('a \<times> int) list \<Rightarrow> ('a \<times> int) list" where
  "fcfs_grants av [] = []"
| "fcfs_grants av ((a, n) # q) = (if av > 0 \<and> n \<le> av then (a, n) # fcfs_grants (av - n) q else [])"

abbreviation units :: "('a \<times> int) list \<Rightarrow> int" where
  "units g \<equiv> sum_list (map snd g)"

lemma fcfs_grants_prefix: "\<exists>rest. q = fcfs_grants av q @ rest \<and>
   (rest = [] \<or> av - units (fcfs_grants av q) \<le> 0 \<or> av - units (fcfs_grants av q) < snd (hd rest))"
proof (induction av q rule: fcfs_grants.induct)
  case (2 av a n q)
  show ?case
  proof (cases "av > 0 \<and> n \<le> av")
    case True
    with 2 obtain rest where "q = fcfs_grants (av - n) q @ rest"
      and "rest = [] \<or> av - n - units (fcfs_grants (av - n) q) \<le> 0
         \<or> av - n - units (fcfs_grants (av - n) q) < snd (hd rest)" by blast
    with True show ?thesis by (auto simp: algebra_simps)
  next
    case False
    then show ?thesis by auto
  qed
qed simp

lemma fcfs_grants_fit: "0 \<le> av \<Longrightarrow> units (fcfs_grants av q) \<le> av"
  by (induction av q rule: fcfs_grants.induct) auto

lemma release_loop_grants:
  assumes "FCFS_release_loop n m r (available m r w) w = Inr w'" and "length (blocked m r w) < n"
    and "rm_resources (resmans w m) r \<noteq> None"
  shows "blocked m r w = fcfs_grants (available m r w) (blocked m r w) @ blocked m r w' \<and>
    available m r w' = available m r w - units (fcfs_grants (available m r w) (blocked m r w))"
  using assms
proof (induction n arbitrary: w)
  case 0
  then show ?case by simp
next
  case (Suc n)
  show ?case
  proof (cases "blocked m r w")
    case Nil
    with Suc.prems show ?thesis by auto
  next
    case (Cons b rest)
    obtain task nr where b: "b = (task, nr)" by (cases b)
    show ?thesis
    proof (cases "available m r w > 0 \<and> nr \<le> available m r w")
      case True
      let ?w1 = "upd_resource m r (Resource_lock task nr) (set_blocked m r rest w)"
      obtain w2 k rk w3 where w2: "with_task_kernel task (\<lambda>k. kern_activate k task) ?w1 = Inr w2"
        and "absTask_getKernel w2 task = Some k" "findNonServerKernel k w2 = Some rk"
        and w3: "root_dispatch rk w2 = Inr w3"
        and rest: "FCFS_release_loop n m r (available m r w - nr) w3 = Inr w'"
        using Suc.prems(1) True Cons b by (auto simp: Let_def bindE_eq_Inr split: option.splits)
      have "resmans w2 = resmans ?w1"
        using w2 by (auto simp: with_task_kernel_def split: option.splits dest: kern_activate_resources)
      with root_dispatch_resources [OF w3] have res: "resmans w3 = resmans ?w1" by simp
      then have q: "blocked m r w3 = rest" "available m r w3 = available m r w - nr"
        and ex: "rm_resources (resmans w3 m) r \<noteq> None"
        using same_resmans [OF res, of m r] Suc.prems(3)
        by (simp_all add: available_lock del: not_None_eq)
      from Suc.IH [of w3] q ex rest Suc.prems(2) Cons b True show ?thesis by simp
    next
      case False
      from Suc.prems(1) Cons b have "w' = w"
      proof (cases "available m r w > 0")
        case True
        with False have "\<not> nr \<le> available m r w" by simp
        with Suc.prems(1) Cons b True show ?thesis
          by (cases n) auto
      qed auto
      with Cons b False show ?thesis by auto
    qed
  qed
qed

section \<open>A concrete resource manager\<close>

text \<open>
  Two tasks on an \<open>RTKernel\<close> wait at time 5 for one and for two units of \<open>''R''\<close>, of which there are
  three, all taken.
\<close>

definition resource_example :: world where
  "resource_example = result_world (steps
     [pureE (upd_rtk 0 (\<lambda>_. (RTKernel_ctor 0 (Some 0))\<lparr>rk_resMng := Some 0\<rparr>)),
      RTKernel_addTask 0 (TaskRef 0) None, RTKernel_addTask 0 (TaskRef 1) None,
      pureE (Simulation_setTime 5),
      pureE (ResManager_addResource 0 ''R'' 3 0),
      pureE (set_blocked 0 ''R'' [(TaskRef 0, 1), (TaskRef 1, 2)])] empty_world)"

lemmas resource_eval = cbs_eval resource_example_def ResManager_addResource_def Resource_ctor_def set_blocked_def
  RTKernel_addTask_def upd_resman_def blocked_def available_def upd_resource_def Resource_lock_def
  Resource_unlock_def kern_activate_def root_activate_def with_task_kernel_def absTask_getKernel_def
  findNonServerKernel_def root_dispatch_def RTKernel_activate_def RTKernel_dispatch_def
  Scheduler_extract_def RTKernel_suspend_def kern_suspend_def root_suspend_def TaskModel_setInactive_def

section \<open>Properties\<close>

text \<open>
  C17. Releasing units serves the waiting tasks in the order they came: those at the front of the queue
  whose requests fit are removed from it and their units taken, the units are conserved and never
  negative, and when \<open>release\<close> returns either nobody waits, nothing is left, or the request of the first
  waiting task does not fit.
\<close>

theorem release_serves_in_order:
  assumes "FCFS_release m a r nr w = Inr w'" and "rm_resources (resmans w m) r \<noteq> None"
    and "0 \<le> available m r w + nr"
  shows "\<exists>g. blocked m r w = g @ blocked m r w' \<and> available m r w' = available m r w + nr - units g \<and>
    0 \<le> available m r w' \<and>
    (blocked m r w' = [] \<or> available m r w' = 0 \<or> available m r w' < snd (hd (blocked m r w')))"
proof -
  let ?w1 = "upd_resource m r (Resource_unlock nr) w"
  let ?g = "fcfs_grants (available m r w + nr) (blocked m r w)"
  have av: "available m r ?w1 = available m r w + nr" using assms(2) by (rule available_lock)
  have run: "FCFS_release_loop (Suc (length (blocked m r ?w1))) m r (available m r ?w1) ?w1 = Inr w'"
    using assms(1) by (simp add: FCFS_release_def Let_def del: FCFS_release_loop.simps)
  have g: "blocked m r w = ?g @ blocked m r w'" "available m r w' = available m r w + nr - units ?g"
    using release_loop_grants [OF run] assms(2) by (simp_all add: av)
  obtain rest where rest: "blocked m r w = ?g @ rest"
    and stop: "rest = [] \<or> available m r w + nr - units ?g \<le> 0 \<or> available m r w + nr - units ?g < snd (hd rest)"
    using fcfs_grants_prefix by blast
  from g(1) rest have "rest = blocked m r w'" by (metis same_append_eq)
  moreover have "units ?g \<le> available m r w + nr" using assms(3) by (rule fcfs_grants_fit)
  ultimately show ?thesis using g stop by (intro exI [of _ ?g]) auto
qed

theorem release_serves_in_order_witness:
  "\<exists>w'. FCFS_release 0 (TaskRef 2) ''R'' 2 resource_example = Inr w' \<and> blocked 0 ''R'' w' = [(TaskRef 1, 2)]
     \<and> available 0 ''R'' w' = 1"
proof -
  have "\<exists>w'. FCFS_release 0 (TaskRef 2) ''R'' 2 resource_example = Inr w' \<and> length (blocked 0 ''R'' w') = 1"
    by (simp add: resource_eval FCFS_release_def Event_drop_def pl_erase_def equivalent_key_def)
  then obtain w' where run: "FCFS_release 0 (TaskRef 2) ''R'' 2 resource_example = Inr w'"
    and one: "length (blocked 0 ''R'' w') = 1" by blast
  have "rm_resources (resmans resource_example 0) ''R'' \<noteq> None" "0 \<le> available 0 ''R'' resource_example + 2"
    and b: "blocked 0 ''R'' resource_example = [(TaskRef 0, 1), (TaskRef 1, 2)]"
    and av: "available 0 ''R'' resource_example = 0"
    by (simp_all add: resource_eval)
  from release_serves_in_order [OF run this(1,2)] obtain g where
    g: "[(TaskRef 0, 1), (TaskRef 1, 2)] = g @ blocked 0 ''R'' w'" "available 0 ''R'' w' = 2 - units g"
    by (auto simp: b av)
  have "length g = 1" using arg_cong [OF g(1), of length] one by simp
  with g(1) have "g = [(TaskRef 0, 1)]" "blocked 0 ''R'' w' = [(TaskRef 1, 2)]"
    by (auto simp: length_Suc_conv)
  with run g(2) show ?thesis by auto
qed

text \<open>
  A request is granted exactly when nobody waits and enough units are there, and then the units are
  taken at once; otherwise the task is suspended and put at the end of the queue, even if its request
  could be served, and nothing is taken.
\<close>

lemma request_waits_its_turn:
  assumes "FCFS_request m a r nr w = Inr (ok, w')" and "rm_resources (resmans w m) r \<noteq> None"
  shows "(ok \<longleftrightarrow> blocked m r w = [] \<and> nr \<le> available m r w) \<and>
    (if ok then blocked m r w' = [] \<and> available m r w' = available m r w - nr
     else blocked m r w' = blocked m r w @ [(a, nr)] \<and> available m r w' = available m r w)"
proof (cases "blocked m r w \<noteq> [] \<or> available m r w < nr")
  case True
  then obtain w1 where susp: "with_task_kernel a (\<lambda>k. kern_suspend k a) w = Inr w1"
    and w': "ok = False" "w' = set_blocked m r (blocked m r w1 @ [(a, nr)]) w1"
    using assms(1) by (auto simp: FCFS_request_def bindE_eq_Inr)
  from susp have "resmans w1 = resmans w"
    by (auto simp: with_task_kernel_def split: option.splits dest: kern_suspend_resources)
  from same_resmans [OF this, of m r] True w' show ?thesis by auto
next
  case False
  with assms show ?thesis by (auto simp: FCFS_request_def available_lock)
qed

lemma request_waits_its_turn_witness:
  "\<exists>w'. FCFS_request 0 (TaskRef 0) ''R'' 1
      (upd_resource 0 ''R'' (Resource_unlock 2) (set_blocked 0 ''R'' [(TaskRef 1, 3)] resource_example)) = Inr (False, w')
     \<and> blocked 0 ''R'' w' = [(TaskRef 1, 3), (TaskRef 0, 1)]"
proof -
  let ?w = "upd_resource 0 ''R'' (Resource_unlock 2) (set_blocked 0 ''R'' [(TaskRef 1, 3)] resource_example)"
  have "\<exists>w'. FCFS_request 0 (TaskRef 0) ''R'' 1 ?w = Inr (False, w')"
    by (simp add: resource_eval FCFS_request_def pl_erase_def)
  then obtain w' where run: "FCFS_request 0 (TaskRef 0) ''R'' 1 ?w = Inr (False, w')" ..
  have "rm_resources (resmans ?w 0) ''R'' \<noteq> None" "blocked 0 ''R'' ?w = [(TaskRef 1, 3)]"
    by (simp_all add: resource_eval)
  with request_waits_its_turn [OF run] run show ?thesis by auto
qed

end
