(* ===== verification/RTTask.thy ===== *)
theory RTTask
  imports RTResource_Laws
begin

text \<open>
  Tasks and the instructions they execute: \<open>task.cpp\<close>, \<open>taskevt.cpp\<close>, \<open>exeinstr.cpp\<close>,
  \<open>waitinstr.cpp\<close>, \<open>suspend_instr.cpp\<close>, and the methods of \<open>CPU\<close> they call.
\<close>

section \<open>CPU\<close>

text \<open>
  \<open>cpu_speedOf\<close> is the speed of a workload at the operating point the processor is at, zero for a
  processor that is on no island; \<open>updateModel\<close> caches it for the current workload.
\<close>

definition CPU_getWorkload :: "cpu \<Rightarrow> string" where
  "CPU_getWorkload c = (if cpu_disabled c \<or> length (cpu_workload c) < 1 then ''idle'' else cpu_workload c)"

definition CPU_getSpeed :: "cpu \<Rightarrow> rat" where
  "CPU_getSpeed c = (if cpu_disabled c then 0 else cpu_speed c)"

definition CPU_updateModel :: "cpu \<Rightarrow> cpu" where
  "CPU_updateModel c = c\<lparr>cpu_speed := cpu_speedOf c (CPU_getWorkload c)\<rparr>"

definition CPU_setWorkload :: "nat \<Rightarrow> string \<Rightarrow> world \<Rightarrow> exc + world" where
  "CPU_setWorkload c wl w =
    (if cpu_disabled (cpus w c) then Inl (AssertFailed ''!disabled()'')
     else Inr (upd_cpu c (\<lambda>x. CPU_updateModel (x\<lparr>cpu_workload := wl\<rparr>)) w))"

section \<open>Task: the parts that change only the task\<close>

definition Task_isActive :: "task \<Rightarrow> bool" where
  "Task_isActive k \<longleftrightarrow> tstate k \<noteq> TSK_IDLE"

definition Task_isExecuting :: "task \<Rightarrow> bool" where
  "Task_isExecuting k \<longleftrightarrow> tstate k = TSK_EXEC"

definition Task_chkBuffArrival :: "task \<Rightarrow> bool" where
  "Task_chkBuffArrival k \<longleftrightarrow> arrQueue k \<noteq> []"

text \<open>The front of an empty \<open>deque\<close> is undefined in C++.\<close>

definition Task_getBuffArrival :: "nat \<Rightarrow> world \<Rightarrow> exc + tick \<times> world" where
  "Task_getBuffArrival t w = (case arrQueue (tasks w t) of
      [] \<Rightarrow> Inl (NullPointer ''arrQueue.front()'')
    | a # q \<Rightarrow> Inr (a, upd_task t (\<lambda>k. k\<lparr>arrQueue := q\<rparr>) w))"

definition Task_buffArrival :: "nat \<Rightarrow> world \<Rightarrow> world" where
  "Task_buffArrival t w =
     upd_task t (\<lambda>k. if int (length (arrQueue k)) \<le> arrQueueSize k
                     then k\<lparr>arrQueue := arrQueue k @ [globTime w]\<rparr> else k) w"

definition Task_unbuffArrival :: "task \<Rightarrow> task" where
  "Task_unbuffArrival k = (if arrQueue k \<noteq> [] then k\<lparr>arrQueue := butlast (arrQueue k)\<rparr> else k)"

definition Task_reactivate :: "nat \<Rightarrow> world \<Rightarrow> exc + world" where
  "Task_reactivate t w = (case int_time (tasks w t) of
      None \<Rightarrow> Inr w
    | Some rv \<Rightarrow>
        let (x, rv') = RandomVar_get rv;
            w1 = upd_task t (\<lambda>k. k\<lparr>int_time := Some rv'\<rparr>) w;
            v = Tick_of_double x
        in if v > 0 then Event_post (ArrEvt t) (globTime w1 + v) False w1 else Inr w1)"

definition Task_with_kernel :: "nat \<Rightarrow> (kernref \<Rightarrow> world \<Rightarrow> exc + world) \<Rightarrow> world \<Rightarrow> exc + world" where
  "Task_with_kernel t f w = (case tkernel (tasks w t) of
      None \<Rightarrow> Inl (NullPointer ''_kernel'') | Some k \<Rightarrow> f k w)"

definition Task_getCPU :: "nat \<Rightarrow> world \<Rightarrow> exc + nat option" where
  "Task_getCPU t w = (case tkernel (tasks w t) of
      None \<Rightarrow> Inl (NullPointer ''_kernel'') | Some k \<Rightarrow> kern_getProcessor k (TaskRef t) w)"

definition Task_getOldCPU :: "nat \<Rightarrow> world \<Rightarrow> exc + nat option" where
  "Task_getOldCPU t w = (case tkernel (tasks w t) of
      None \<Rightarrow> Inl (NullPointer ''_kernel'') | Some k \<Rightarrow> kern_getOldProcessor k (TaskRef t) w)"

text \<open>\<open>getCPU()->getIndex()\<close>.\<close>

definition index_of :: "(nat \<Rightarrow> world \<Rightarrow> exc + nat option) \<Rightarrow> nat \<Rightarrow> world \<Rightarrow> exc + int" where
  "index_of get t w = bindE (get t w) (\<lambda>c. case c of
      None \<Rightarrow> Inl (NullPointer ''getCPU()'') | Some p \<Rightarrow> Inr (cpu_index (cpus w p)))"

section \<open>Instructions\<close>

definition upd_instr :: "nat \<Rightarrow> nat \<Rightarrow> (instr \<Rightarrow> instr) \<Rightarrow> world \<Rightarrow> world" where
  "upd_instr t i f = upd_task t (\<lambda>k. k\<lparr>instrQueue := (instrQueue k)[i := f (instrQueue k ! i)]\<rparr>)"

definition upd_exec :: "nat \<Rightarrow> nat \<Rightarrow> (exec_instr \<Rightarrow> exec_instr) \<Rightarrow> world \<Rightarrow> world" where
  "upd_exec t i f = upd_instr t i (\<lambda>ins. case ins of ExecInstr e \<Rightarrow> ExecInstr (f e) | _ \<Rightarrow> ins)"

definition ExecInstr_getExecTime :: "tick \<Rightarrow> exec_instr \<Rightarrow> tick" where
  "ExecInstr_getExecTime now e = (if executing e then ei_execdTime e + now - ei_lastTime e else ei_execdTime e)"

definition Instr_getExecTime :: "tick \<Rightarrow> instr \<Rightarrow> tick" where
  "Instr_getExecTime now ins = (case ins of ExecInstr e \<Rightarrow> ExecInstr_getExecTime now e | _ \<Rightarrow> 0)"

definition Instr_getActCycles :: "instr \<Rightarrow> rat" where
  "Instr_getActCycles ins = (case ins of ExecInstr e \<Rightarrow> actCycles e | _ \<Rightarrow> 0)"

definition ExecInstr_newRun :: "exec_instr \<Rightarrow> exec_instr" where
  "ExecInstr_newRun e = e\<lparr>actCycles := 0, ei_lastTime := 0, isBegOfInstr := True, ei_execdTime := 0,
     executing := False\<rparr>"

definition Instr_newRun :: "instr \<Rightarrow> instr" where
  "Instr_newRun ins = (case ins of
      ExecInstr e \<Rightarrow> ExecInstr (ExecInstr_newRun e)
    | WaitInstr r n waiting \<Rightarrow> WaitInstr r n False
    | _ \<Rightarrow> ins)"

definition Instr_endRun :: "nat \<Rightarrow> nat \<Rightarrow> world \<Rightarrow> world" where
  "Instr_endRun t i w = (case instrQueue (tasks w t) ! i of
      ExecInstr e \<Rightarrow> Event_drop (EndInstrEvt t i) w
    | SuspendInstr d \<Rightarrow> Event_drop (ResumeEvt t i) (Event_drop (SuspEvt t i) w)
    | _ \<Rightarrow> w)"

definition ExecInstr_reset :: "nat \<Rightarrow> nat \<Rightarrow> world \<Rightarrow> world" where
  "ExecInstr_reset t i w = Event_drop (EndInstrEvt t i) (upd_exec t i (\<lambda>e.
     e\<lparr>actCycles := 0, ei_lastTime := 0, isBegOfInstr := True, ei_execdTime := 0\<rparr>) w)"

definition Instr_reset :: "nat \<Rightarrow> nat \<Rightarrow> world \<Rightarrow> world" where
  "Instr_reset t i w = (case instrQueue (tasks w t) ! i of ExecInstr e \<Rightarrow> ExecInstr_reset t i w | _ \<Rightarrow> w)"

text \<open>The maximum of the cost; drawing from a uniform cost consumes a value.\<close>

definition ExecInstr_getWCET :: "exec_instr \<Rightarrow> tick" where
  "ExecInstr_getWCET e = Tick_of_double
     (if rv_uniform (cost e) then fst (RandomVar_get (cost e)) else RandomVar_getMaximum (cost e))"

definition Instr_getWCET :: "instr \<Rightarrow> tick" where
  "Instr_getWCET ins = (case ins of ExecInstr e \<Rightarrow> ExecInstr_getWCET e | _ \<Rightarrow> 0)"

definition Task_getWCET :: "task \<Rightarrow> tick" where
  "Task_getWCET k = (if maxC k = 0 then sum_list (map Instr_getWCET (instrQueue k)) else maxC k)"

definition Task_getExecTime :: "tick \<Rightarrow> task \<Rightarrow> tick" where
  "Task_getExecTime now k =
    (if Task_isActive k then execdTime k + Instr_getExecTime now (instrQueue k ! actInstr k) else execdTime k)"

definition Task_getRemainingWCET :: "tick \<Rightarrow> rat \<Rightarrow> task \<Rightarrow> rat" where
  "Task_getRemainingWCET now capacity k =
     of_int (Task_getWCET k - Tick_of_double (of_int (Task_getExecTime now k) * capacity)) / capacity"

text \<open>
  The time \<open>ExecInstr::schedule\<close> waits for the end of the instruction.  At speed zero the quotient is
  infinite and its conversion to \<open>Tick\<close> undefined; on the usual machines it is the least integer, for
  which the assertion on \<open>tmp\<close> fails.
\<close>

definition ExecInstr_remaining :: "rat \<Rightarrow> exec_instr \<Rightarrow> exc + tick" where
  "ExecInstr_remaining currentSpeed e =
    (if of_int (currentCost e) > actCycles e * currentSpeed then
       if currentSpeed = 0 then Inl (AssertFailed ''tmp >= 0'')
       else let tmp = \<lceil>(of_int (currentCost e) - actCycles e * currentSpeed) / currentSpeed\<rceil>
            in if tmp \<ge> 0 then Inr tmp else Inl (AssertFailed ''tmp >= 0'')
     else Inr 0)"

definition ExecInstr_begin :: "exec_instr \<Rightarrow> exec_instr" where
  "ExecInstr_begin e =
    (if isBegOfInstr e
     then let (x, c) = RandomVar_get (cost e)
          in e\<lparr>ei_execdTime := 0, actCycles := 0, isBegOfInstr := False, currentCost := Tick_of_double x, cost := c\<rparr>
     else e)"

definition get_exec :: "world \<Rightarrow> nat \<Rightarrow> nat \<Rightarrow> exec_instr option" where
  "get_exec w t i = (case instrQueue (tasks w t) ! i of ExecInstr e \<Rightarrow> Some e | _ \<Rightarrow> None)"

definition ExecInstr_schedule :: "nat \<Rightarrow> nat \<Rightarrow> world \<Rightarrow> exc + world" where
  "ExecInstr_schedule t i w =
    (let now = globTime w;
         w1 = upd_exec t i (\<lambda>e. ExecInstr_begin (e\<lparr>ei_lastTime := now, executing := True\<rparr>)) w
     in bindE (Task_getCPU t w1) (\<lambda>p. case p of
          None \<Rightarrow> Inl (InstrExc ''No CPU!'')
        | Some c \<Rightarrow>
            (case get_exec w1 t i of
               None \<Rightarrow> Inl (NullPointer ''workload'')
             | Some e \<Rightarrow>
                 bindE (CPU_setWorkload c (ei_workload e) w1) (\<lambda>w2.
                 bindE (ExecInstr_remaining (CPU_getSpeed (cpus w2 c)) e) (\<lambda>tmp.
                 Event_post (EndInstrEvt t i) (now + tmp) False w2)))))"

definition ExecInstr_deschedule :: "nat \<Rightarrow> nat \<Rightarrow> world \<Rightarrow> exc + world" where
  "ExecInstr_deschedule t i w =
    (let now = globTime w; w1 = Event_drop (EndInstrEvt t i) w in
     case get_exec w1 t i of
       None \<Rightarrow> Inl (NullPointer ''executing'')
     | Some e \<Rightarrow>
         bindE (if executing e then
                  bindE (Task_getOldCPU t w1) (\<lambda>p. case p of
                    None \<Rightarrow> Inl (InstrExc ''No CPU!'')
                  | Some c \<Rightarrow>
                      bindE (CPU_setWorkload c ''idle'' w1) (\<lambda>w2.
                      let currentSpeed = CPU_getSpeed (cpus w2 c) in
                      Inr (upd_exec t i (\<lambda>e. e\<lparr>actCycles := actCycles e + of_int (now - ei_lastTime e) * currentSpeed,
                        ei_execdTime := ei_execdTime e + (now - ei_lastTime e), ei_lastTime := now\<rparr>) w2)))
                else Inr w1)
           (\<lambda>w3. Inr (upd_exec t i (\<lambda>e. e\<lparr>executing := False\<rparr>) w3)))"

text \<open>
  \<open>refreshExec\<close> computes the remaining time, and posts the end after the whole cost instead.  At speed
  zero its quotients are not numbers a \<open>Tick\<close> can hold, as in \<open>schedule\<close>.
\<close>

definition ExecInstr_refreshExec :: "nat \<Rightarrow> nat \<Rightarrow> rat \<Rightarrow> rat \<Rightarrow> world \<Rightarrow> exc + world" where
  "ExecInstr_refreshExec t i oldSpeed newSpeed w =
    (let now = globTime w;
         w1 = upd_exec t i (\<lambda>e. e\<lparr>actCycles := actCycles e + of_int (now - ei_lastTime e) * oldSpeed,
                ei_execdTime := ei_execdTime e + (now - ei_lastTime e), ei_lastTime := now\<rparr>)
                (Event_drop (EndInstrEvt t i) w)
     in case get_exec w1 t i of
          None \<Rightarrow> Inr w
        | Some e \<Rightarrow>
            if newSpeed = 0 then Inl (AssertFailed ''tmp >= 0'')
            else if of_int (currentCost e) > actCycles e
               \<and> \<lceil>(of_int (currentCost e) - actCycles e) / newSpeed\<rceil> < 0 then Inl (AssertFailed ''tmp >= 0'')
            else Event_post (EndInstrEvt t i) (now + Tick_of_double (of_int (currentCost e) / newSpeed)) False w1)"

text \<open>\<open>actInstr\<close> past the end must not be dereferenced.\<close>

definition Instr_deschedule :: "nat \<Rightarrow> nat \<Rightarrow> world \<Rightarrow> exc + world" where
  "Instr_deschedule t i w =
    (if length (instrQueue (tasks w t)) \<le> i then Inl (NullPointer ''*actInstr'')
     else case instrQueue (tasks w t) ! i of
       ExecInstr e \<Rightarrow> ExecInstr_deschedule t i w | _ \<Rightarrow> Inr w)"

section \<open>The instruction list\<close>

text \<open>
  \<open>Task::onInstrEnd\<close>; \<open>next\<close> is the call \<open>(*actInstr)->schedule()\<close> of the instruction that follows.
\<close>

definition Task_onInstrEnd_with :: "(world \<Rightarrow> exc + world) \<Rightarrow> nat \<Rightarrow> world \<Rightarrow> exc + world" where
  "Task_onInstrEnd_with next_schedule t w =
    (if \<not> Task_isActive (tasks w t) then Inl (TaskNotActive ''onInstrEnd() on a non-active task'')
     else bindE (Task_getCPU t w) (\<lambda>p. case p of
       None \<Rightarrow> Inl (InstrExc ''No CPU!'')
     | Some c \<Rightarrow>
         bindE (CPU_setWorkload c ''idle'' w) (\<lambda>w1.
         if length (instrQueue (tasks w1 t)) \<le> actInstr (tasks w1 t) then Inl (NullPointer ''*actInstr'')
         else
         let now = globTime w1;
             w2 = upd_task t (\<lambda>k. k\<lparr>execdTime := execdTime k + Instr_getExecTime now (instrQueue k ! actInstr k),
                                      actInstr := actInstr k + 1\<rparr>) w1
         in if actInstr (tasks w2 t) = length (instrQueue (tasks w2 t)) then Event_post (EndEvt t) now False w2
            else if Task_isExecuting (tasks w2 t) then next_schedule w2
            else Inr w2)))"

text \<open>
  \<open>Instr::schedule\<close> of the current instruction.  An instruction that completes at once goes on with
  the next one, so the recursion is on the instructions from the current one on; there is none when
  \<open>actInstr\<close> is past the end, which C++ must not dereference.
\<close>

fun Instr_schedule :: "nat \<Rightarrow> nat \<Rightarrow> world \<Rightarrow> exc + world" where
  "Instr_schedule 0 t w = Inl (NullPointer ''*actInstr'')"
| "Instr_schedule (Suc n) t w =
    (let i = actInstr (tasks w t) in
     case instrQueue (tasks w t) ! i of
       ExecInstr e \<Rightarrow> ExecInstr_schedule t i w
     | SuspendInstr d \<Rightarrow> Event_process (SuspEvt t i) False w
     | WaitInstr r nr waiting \<Rightarrow>
         (case tkernel (tasks w t) of
            None \<Rightarrow> Inl (BaseExc ''WaitInstr: Kernel not found!'')
          | Some k \<Rightarrow>
              if findNonServerKernel k w = None then Inl (BaseExc ''WaitInstr: Kernel not found!'')
              else if \<not> waiting then
                bindE (requestResource k (TaskRef t) r nr w) (\<lambda>(acquired, w1).
                if acquired then Task_onInstrEnd_with (Instr_schedule n t) t w1
                else Inr (upd_instr t i (\<lambda>_. WaitInstr r nr True) w1))
              else Task_onInstrEnd_with (Instr_schedule n t) t (upd_instr t i (\<lambda>_. WaitInstr r nr False) w))
     | SignalInstr r nr \<Rightarrow>
         (case tkernel (tasks w t) of
            None \<Rightarrow> Inl (BaseExc ''SignalInstr: Kernel not found!'')
          | Some k \<Rightarrow>
              if findNonServerKernel k w = None then Inl (BaseExc ''SignalInstr: Kernel not found!'')
              else bindE (releaseResource k (TaskRef t) r nr w) (Task_onInstrEnd_with (Instr_schedule n t) t)))"

definition remaining_instrs :: "task \<Rightarrow> nat" where
  "remaining_instrs k = length (instrQueue k) - actInstr k"

definition Task_schedule_instr :: "nat \<Rightarrow> world \<Rightarrow> exc + world" where
  "Task_schedule_instr t w = Instr_schedule (remaining_instrs (tasks w t)) t w"

definition Task_onInstrEnd :: "nat \<Rightarrow> world \<Rightarrow> exc + world" where
  "Task_onInstrEnd t w = Task_onInstrEnd_with (Instr_schedule (remaining_instrs (tasks w t) - 1) t) t w"

definition ExecInstr_onEnd :: "nat \<Rightarrow> nat \<Rightarrow> world \<Rightarrow> exc + world" where
  "ExecInstr_onEnd t i w = Task_onInstrEnd t (Event_drop (EndInstrEvt t i) (upd_exec t i (\<lambda>e.
     e\<lparr>ei_execdTime := ei_execdTime e + (globTime w - ei_lastTime e), isBegOfInstr := True, executing := False,
       ei_lastTime := globTime w, actCycles := 0\<rparr>) w))"

definition instr_delay :: "instr \<Rightarrow> tick" where
  "instr_delay ins = (case ins of SuspendInstr d \<Rightarrow> d | _ \<Rightarrow> 0)"

definition SuspendInstr_onSuspend :: "nat \<Rightarrow> nat \<Rightarrow> world \<Rightarrow> exc + world" where
  "SuspendInstr_onSuspend t i w =
     bindE (Task_with_kernel t (\<lambda>k. kern_suspend k (TaskRef t)) w) (\<lambda>w1.
     Event_post (ResumeEvt t i) (globTime w1 + instr_delay (instrQueue (tasks w1 t) ! i)) False w1)"

definition SuspendInstr_onEnd :: "nat \<Rightarrow> world \<Rightarrow> exc + world" where
  "SuspendInstr_onEnd t w =
     bindE (Task_onInstrEnd t w) (Task_with_kernel t (\<lambda>k. kern_onArrival k (TaskRef t)))"

section \<open>Handlers of the task events\<close>

definition Task_handleArrival :: "nat \<Rightarrow> tick \<Rightarrow> world \<Rightarrow> exc + world" where
  "Task_handleArrival t arr w =
    (if Task_isActive (tasks w t) then Inl TaskAlreadyActive
     else
       let w1 = upd_task t (\<lambda>k. k\<lparr>arrival := arr, execdTime := 0, actInstr := 0\<rparr>) w;
           w2 = fold (Instr_reset t) [0..<length (instrQueue (tasks w1 t))] w1;
           w3 = upd_task t (\<lambda>k. k\<lparr>tstate := TSK_READY, dl := arrival k + rdl k\<rparr>) w2
       in if globTime w3 \<le> dl (tasks w3 t) then Event_post (DeadEvt t) (dl (tasks w3 t)) False w3 else Inr w3)"

definition Task_onArrival :: "nat \<Rightarrow> world \<Rightarrow> exc + world" where
  "Task_onArrival t w =
     bindE (if \<not> Task_isActive (tasks w t) then
              bindE (Task_handleArrival t (globTime w) w) (Task_with_kernel t (\<lambda>k. kern_onArrival k (TaskRef t)))
            else bindE (Event_process (DeadEvt t) False w) (\<lambda>w1. Inr (Task_buffArrival t w1)))
       (Task_reactivate t)"

text \<open>What \<open>onEndInstance\<close> and \<open>onKill\<close> have in common.\<close>

definition Task_finish :: "nat \<Rightarrow> world \<Rightarrow> exc + world" where
  "Task_finish t w =
     bindE (index_of Task_getCPU t w) (\<lambda>c.
     bindE (Task_with_kernel t (\<lambda>k. kern_onEnd k (TaskRef t)) (upd_task t (\<lambda>k. k\<lparr>endEvt_cpu := c\<rparr>) w)) (\<lambda>w1.
     let w2 = upd_task t (\<lambda>k. k\<lparr>tstate := TSK_IDLE\<rparr>) w1;
         w3 = upd_task t (\<lambda>k. k\<lparr>feedback := map_option (\<lambda>xs. xs @ [Task_getExecTime (globTime w2) k]) (feedback k)\<rparr>) w2
     in if Task_chkBuffArrival (tasks w3 t) then Event_process (FakeArrEvt t) False w3 else Inr w3))"

definition Task_onEndInstance :: "nat \<Rightarrow> world \<Rightarrow> exc + world" where
  "Task_onEndInstance t w =
    (let w1 = Event_drop (DeadEvt t) w in
     if \<not> Task_isActive (tasks w1 t) then Inl (TaskNotActive ''OnEnd() on a non-active task'')
     else if \<not> Task_isExecuting (tasks w1 t) then Inl (TaskNotExecuting ''OnEnd() on a non-executing task'')
     else Task_finish t (upd_task t (\<lambda>k. k\<lparr>actInstr := 0, lastArrival := arrival k\<rparr>) w1))"

definition Task_killInstance :: "nat \<Rightarrow> world \<Rightarrow> exc + world" where
  "Task_killInstance t =
     steps [whenE (\<lambda>w. Task_chkBuffArrival (tasks w t)) (\<lambda>w. Event_post (FakeArrEvt t) (globTime w) False w),
            whenE (\<lambda>w. Task_isExecuting (tasks w t)) (Task_deschedule t),
            (\<lambda>w. Event_post (KillEvt t) (globTime w) False w)]"

definition Task_endRun :: "nat \<Rightarrow> world \<Rightarrow> world" where
  "Task_endRun t w =
     Event_drop (KillEvt t) (Event_drop (DeadEvt t) (Event_drop (FakeArrEvt t) (Event_drop (DeschedEvt t)
       (Event_drop (SchedEvt t) (Event_drop (EndEvt t) (Event_drop (ArrEvt t)
         (upd_task t (\<lambda>k. k\<lparr>arrQueue := []\<rparr>) w)))))))"

definition Task_onKill :: "nat \<Rightarrow> world \<Rightarrow> exc + world" where
  "Task_onKill t w =
     bindE (Task_finish t (upd_task t (\<lambda>k. k\<lparr>lastArrival := arrival k\<rparr>)
              (Event_drop (KillEvt t) (Event_drop (DeadEvt t) w)))) (\<lambda>w1. Inr (Task_endRun t w1))"

text \<open>\<open>Utils::getTaskWorkload\<close> of a task.\<close>

definition getTaskWorkload :: "task \<Rightarrow> string" where
  "getTaskWorkload k = (case List.find (\<lambda>ins. case ins of ExecInstr e \<Rightarrow> True | _ \<Rightarrow> False) (instrQueue k) of
      Some (ExecInstr e) \<Rightarrow> ei_workload e
    | _ \<Rightarrow> ''busy'')"

definition Task_onSched :: "nat \<Rightarrow> world \<Rightarrow> exc + world" where
  "Task_onSched t w =
     bindE (index_of Task_getCPU t w) (\<lambda>c.
     if \<not> Task_isActive (tasks w t) then Inl (TaskNotActive ''OnSched on a non-active task'')
     else if Task_isExecuting (tasks w t) then Inl TaskAlreadyExecuting
     else
       let w1 = upd_task t (\<lambda>k. k\<lparr>tstate := TSK_EXEC\<rparr>)
                 (Event_drop (DeschedEvt t) (upd_task t (\<lambda>k. k\<lparr>schedEvt_cpu := c\<rparr>) w))
       in bindE (bindE (Task_getCPU t w1) (\<lambda>p. case p of
                   None \<Rightarrow> Inr w1
                 | Some cpu \<Rightarrow> CPU_setWorkload cpu (getTaskWorkload (tasks w1 t)) w1)) (\<lambda>w2.
          bindE (Task_schedule_instr t w2) (\<lambda>w3.
          Inr (upd_task t (\<lambda>k. k\<lparr>deadEvt_cpu := c\<rparr>) w3))))"

definition Task_onDesched :: "nat \<Rightarrow> world \<Rightarrow> exc + world" where
  "Task_onDesched t w =
     bindE (index_of Task_getOldCPU t w) (\<lambda>c.
     if \<not> Task_isActive (tasks w t) then Inl (TaskNotActive ''OnDesched on a non-active task'')
     else if \<not> Task_isExecuting (tasks w t) then Inl (TaskNotExecuting ''OnDesched() on a non-executing task'')
     else
       let w1 = Event_drop (EndEvt t) (upd_task t (\<lambda>k. k\<lparr>deschedEvt_cpu := c\<rparr>) w);
           i = actInstr (tasks w1 t)
       in bindE (Instr_deschedule t i w1) (\<lambda>w2.
          Inr (upd_task t (\<lambda>k. k\<lparr>execdTime := execdTime k + Instr_getExecTime (globTime w2) (instrQueue k ! i),
                                   tstate := TSK_READY\<rparr>) w2)))"

definition Task_onFakeArrival :: "nat \<Rightarrow> world \<Rightarrow> exc + world" where
  "Task_onFakeArrival t w =
     bindE (Task_getBuffArrival t w) (\<lambda>(a, w1).
     bindE (Task_handleArrival t a w1) (Task_with_kernel t (\<lambda>k. kern_onArrival k (TaskRef t))))"

definition Task_onDead :: "nat \<Rightarrow> world \<Rightarrow> exc + world" where
  "Task_onDead t w =
    (if dead_abort (tasks w t) then Inl ProcessExit
     else if dead_kill (tasks w t) \<and> Task_isActive (tasks w t) then Task_killInstance t w
     else Inr w)"

section \<open>Other operations of a task\<close>

definition Task_activate :: "nat \<Rightarrow> tick \<Rightarrow> world \<Rightarrow> exc + world" where
  "Task_activate t time w = Event_post (ArrEvt t) time False (Event_drop (ArrEvt t) w)"

definition Task_block :: "nat \<Rightarrow> world \<Rightarrow> exc + world" where
  "Task_block t w =
    (if tstate (tasks w t) = TSK_IDLE \<or> tstate (tasks w t) = TSK_BLOCKED then Inl TaskCannotBlock
     else bindE (Task_with_kernel t (\<lambda>k. kern_suspend k (TaskRef t)) w) (\<lambda>w1.
       Task_with_kernel t kern_dispatch (upd_task t (\<lambda>k. k\<lparr>tstate := TSK_BLOCKED\<rparr>) w1)))"

definition Task_unblock :: "nat \<Rightarrow> world \<Rightarrow> exc + world" where
  "Task_unblock t w =
     Task_with_kernel t (\<lambda>k. kern_onArrival k (TaskRef t)) (upd_task t (\<lambda>k. k\<lparr>tstate := TSK_READY\<rparr>) w)"

definition Task_newRun :: "nat \<Rightarrow> world \<Rightarrow> exc + world" where
  "Task_newRun t w =
    (if instrQueue (tasks w t) = [] then Inl EmptyTask
     else
       let w1 = upd_task t (\<lambda>k. k\<lparr>actInstr := 0, tstate := TSK_IDLE, arrQueue := [], lastArrival := phase k,
                  arrival := phase k\<rparr>) w
       in bindE (if int_time (tasks w1 t) \<noteq> None
                 then Event_post (ArrEvt t) (arrival (tasks w1 t)) False w1 else Inr w1)
            (\<lambda>w2. Inr (upd_task t (\<lambda>k. k\<lparr>dl := 0\<rparr>) w2)))"

definition Task_addInstr :: "instr \<Rightarrow> task \<Rightarrow> task" where
  "Task_addInstr ins k = k\<lparr>instrQueue := instrQueue k @ [ins]\<rparr>"

definition Task_discardInstrs :: "task \<Rightarrow> task" where
  "Task_discardInstrs k = k\<lparr>instrQueue := []\<rparr>"

definition Task_resetInstrQueue :: "task \<Rightarrow> task" where
  "Task_resetInstrQueue k = k\<lparr>actInstr := 0\<rparr>"

definition Task_changeIAT :: "randvar option \<Rightarrow> task \<Rightarrow> randvar option \<times> task" where
  "Task_changeIAT iat k = (int_time k, k\<lparr>int_time := iat\<rparr>)"

definition Task_killOnMiss :: "bool \<Rightarrow> task \<Rightarrow> task" where
  "Task_killOnMiss kill k = k\<lparr>dead_kill := kill\<rparr>"

definition Task_refreshExec :: "nat \<Rightarrow> rat \<Rightarrow> rat \<Rightarrow> world \<Rightarrow> exc + world" where
  "Task_refreshExec t oldSpeed newSpeed w = ExecInstr_refreshExec t (actInstr (tasks w t)) oldSpeed newSpeed w"

section \<open>Killing the task of a server\<close>

text \<open>\<open>CBServer::killInstance\<close>: the assertions come after the first uses of the pointers.\<close>

definition CBServer_killInstance :: "nat \<Rightarrow> world \<Rightarrow> exc + world" where
  "CBServer_killInstance s w = (case Scheduler_getFirst (srv_sched (servers w s)) w of
      Some (TaskRef t) \<Rightarrow>
        bindE (Task_getCPU t w) (\<lambda>c. if c = None then Inl (AssertFailed ''cpu != NULL'')
        else bindE (CBServer_executing_releasing s w) (\<lambda>w1.
          let w2 = CBServer_yield s (set_status s EXECUTING w1);
              w3 = upd_server s (\<lambda>x. x\<lparr>cbs_killed := True\<rparr>)
                    (Event_drop (RechargingEvt s) (Event_drop (ReplEvt s) (Event_drop (BandExEvt s) w2)))
          in bindE (Task_killInstance t w3) (\<lambda>w4.
             bindE (Task_onKill t w4) (\<lambda>w5.
             Inr (Event_drop (SrvDispatchEvt s) (set_status s RELEASING w5))))))
    | _ \<Rightarrow> Inl (NullPointer ''t''))"

end
