(* ===== verification/Processors_World.thy ===== *)
theory Processors_World
  imports Processors_Laws RTTask
begin

text \<open>
  The processor of the simulation (\<open>cpu\<close> in \<open>World\<close>), which knows the speed of every workload, is the processor of a
  platform seen at the current operating point: \<open>setWorkload\<close>, the call the instructions make, does the same to both.
\<close>

definition point_speed :: "platform \<Rightarrow> pcpu \<Rightarrow> string \<Rightarrow> rat" where
  "point_speed pl x workload =
    (case pc_island x of None \<Rightarrow> 0
     | Some i \<Rightarrow> (case pl_islands pl i of None \<Rightarrow> 0
        | Some s \<Rightarrow> (case island_speed s (is_current_opp s) workload of Inl e \<Rightarrow> 0 | Inr v \<Rightarrow> v)))"

definition as_world_cpu :: "platform \<Rightarrow> pcpu \<Rightarrow> cpu" where
  "as_world_cpu pl x = \<lparr>cpu_index = pc_index x, cpu_workload = pc_workload x, cpu_disabled = pc_disabled x,
     cpu_speedOf = point_speed pl x, cpu_speed = pc_speed x\<rparr>"

lemma cached_point_speed: "cached pl x \<Longrightarrow> pc_speed x = point_speed pl x (PCPU_getWorkload x)"
  by (auto simp: cached_def point_speed_def split: option.splits)

lemma point_speed_cong:
  "pc_island y = pc_island x \<Longrightarrow> pl_islands pl' = pl_islands pl \<Longrightarrow> point_speed pl' y = point_speed pl x"
  by (rule ext) (cases "pc_island x"; simp add: point_speed_def)

text \<open>
  A call of \<open>setWorkload\<close> on the processor of a platform is the call on the processor of the simulation: the same
  workload and the same speed after it, and nothing changes for the other processors.
\<close>

lemma setWorkload_refines_world:
  assumes "pl_cpus pl c = Some x" and "cpus w n = as_world_cpu pl x" and "PCPU_setWorkload wl c pl = Inr pl'"
  shows "\<exists>w' x'. CPU_setWorkload n wl w = Inr w' \<and> pl_cpus pl' c = Some x' \<and> cpus w' n = as_world_cpu pl' x' \<and>
    (\<forall>d y. d \<noteq> c \<longrightarrow> pl_cpus pl d = Some y \<longrightarrow> pl_cpus pl' d = Some y \<and> as_world_cpu pl' y = as_world_cpu pl y)"
proof -
  let ?x = "x\<lparr>pc_workload := wl\<rparr>"
  have en: "\<not> pc_disabled x" and up: "PCPU_updateModel c (put_cpu c ?x pl) = Inr pl'"
    using assms(1,3) by (auto simp: PCPU_setWorkload_def at_Some split: if_splits)
  from up obtain z pw sp where z: "pl_cpus (put_cpu c ?x pl) c = Some z"
    "pl' = put_cpu c (z\<lparr>pc_power := pw, pc_speed := sp\<rparr>) (put_cpu c ?x pl)"
    "cached (put_cpu c ?x pl) (z\<lparr>pc_power := pw, pc_speed := sp\<rparr>)" by (rule updateModel_cases)
  let ?x' = "?x\<lparr>pc_power := pw, pc_speed := sp\<rparr>"
  have zx: "z = ?x" using z(1) by simp
  have isl: "pl_islands pl' = pl_islands pl" using z(2) by simp
  have speeds: "point_speed pl' ?x' = point_speed pl x" by (rule point_speed_cong) (simp_all add: isl)
  have "sp = point_speed pl ?x' (PCPU_getWorkload ?x')" using cached_point_speed [of pl ?x'] z(3) unfolding zx by simp
  also have "point_speed pl ?x' = point_speed pl x" by (rule point_speed_cong) simp_all
  finally have sp: "sp = point_speed pl x (PCPU_getWorkload ?x)" by simp
  have "as_world_cpu pl' ?x' = CPU_updateModel ((as_world_cpu pl x)\<lparr>cpu_workload := wl\<rparr>)"
    using speeds sp by (simp add: as_world_cpu_def CPU_updateModel_def CPU_getWorkload_def PCPU_getWorkload_def)
  moreover have "CPU_setWorkload n wl w = Inr (upd_cpu n (\<lambda>x. CPU_updateModel (x\<lparr>cpu_workload := wl\<rparr>)) w)"
    using en assms(2) by (simp add: CPU_setWorkload_def as_world_cpu_def)
  moreover have "pl_cpus pl' c = Some ?x'" using z(2) zx by simp
  moreover have "pl_cpus pl' d = Some y \<and> as_world_cpu pl' y = as_world_cpu pl y" if "d \<noteq> c" "pl_cpus pl d = Some y" for d y
    using that z(2) isl point_speed_cong [of y y pl' pl] by (simp add: as_world_cpu_def)
  ultimately show ?thesis using assms(2) by (auto simp: upd_cpu_def)
qed

lemma setWorkload_refines_world_witness:
  "\<exists>pl pl' x x' w' w. PCPU_setWorkload ''busy'' 0 pl = Inr pl' \<and> pl_cpus pl 0 = Some x \<and> cpus w 0 = as_world_cpu pl x \<and>
    CPU_setWorkload 0 ''busy'' w = Inr w' \<and> pl_cpus pl' 0 = Some x' \<and> cpus w' 0 = as_world_cpu pl' x'"
proof -
  obtain pl x where x: "pl_cpus pl 0 = Some x" "run_plat id power_calls no_platform = Inr pl"
    using power_state by (auto split: sum.splits)
  have "(case run_plat id power_calls no_platform of Inl e \<Rightarrow> True | Inr pl \<Rightarrow>
      (case PCPU_setWorkload ''busy'' 0 pl of Inl e \<Rightarrow> True | Inr pl1 \<Rightarrow> False)) = False"
    by (simp add: power_calls_def plat_eval cong: bindE_weak)
  then obtain pl' where pl': "PCPU_setWorkload ''busy'' 0 pl = Inr pl'" using x(2) by (auto split: sum.splits)
  define w where "w = empty_world\<lparr>cpus := (\<lambda>_. as_world_cpu pl x)\<rparr>"
  have w: "cpus w 0 = as_world_cpu pl x" by (simp add: w_def)
  show ?thesis using setWorkload_refines_world [OF x(1) w pl'] x pl' w by blast
qed

end
