(* ===== verification/SystemFile.thy ===== *)
theory SystemFile
  imports Csv Processors_World RTKernel
begin

text \<open>
  \<open>powermodel_params.cpp\<close>, \<open>system_descriptor.cpp\<close> and \<open>system.cpp\<close>: from the text of a configuration to its
  description, and from that to the processors, islands, schedulers and kernels of a system.  The files are an argument
  (\<open>file_env\<close>), with the paths the library makes of names.  An object that is read from nothing but blanks is left
  as it was, which for the variables of the code is undefined.
\<close>

section \<open>Values\<close>

definition blank :: "string \<Rightarrow> bool" where
  "blank s \<longleftrightarrow> (\<forall>c\<in>set s. is_space c)"

definition from_str_double :: "string \<Rightarrow> exc + rat" where
  "from_str_double s = (if blank s then Inl (UndefinedBehaviour ''num'') else Inr (atof s))"

text \<open>An unsigned number of \<open>w\<close> bits: too large is the largest, a negative one wraps.\<close>

definition from_str_unsigned :: "nat \<Rightarrow> string \<Rightarrow> exc + nat" where
  "from_str_unsigned w s =
    (if blank s then Inl (UndefinedBehaviour ''num'')
     else let (neg, t) = read_sign (dropWhile is_space s); v = digits_value (takeWhile is_digit t)
          in Inr (if 2 ^ w \<le> v then 2 ^ w - 1 else if neg then (2 ^ w - v) mod 2 ^ w else v))"

definition from_str_freq :: "string \<Rightarrow> exc + freq" where
  "from_str_freq s = bindE (from_str_unsigned 32 s) (\<lambda>v. Inr (of_nat v))"

definition from_str_size :: "string \<Rightarrow> exc + nat" where
  "from_str_size s = from_str_unsigned 64 s"

text \<open>\<open>ptr->get(key)\<close>, \<open>ptr->get(key)->get()\<close> and \<open>ptr->get(i)->get()\<close>.\<close>

definition attr_obj :: "string \<Rightarrow> yobj \<Rightarrow> yobj" where
  "attr_obj k o1 = fst (get_attr k o1)"

definition attr_str :: "string \<Rightarrow> yobj \<Rightarrow> string" where
  "attr_str k o1 = y_scalar (attr_obj k o1)"

definition item_str :: "nat \<Rightarrow> yobj \<Rightarrow> exc + string" where
  "item_str i o1 = bindE (get_index i o1) (\<lambda>x. Inr (y_scalar x))"

section \<open>Parameters of models\<close>

definition BP_from_yaml :: "yobj \<Rightarrow> exc + cpum_params" where
  "BP_from_yaml ptr =
    (let num = (\<lambda>o1 i. bindE (item_str i o1) from_str_double);
         pp = attr_obj ''power_params'' ptr; sp = attr_obj ''speed_params'' ptr in
     bindE (num pp 0) (\<lambda>pd. bindE (num pp 1) (\<lambda>pe. bindE (num pp 2) (\<lambda>pg. bindE (num pp 3) (\<lambda>pk.
     bindE (num sp 0) (\<lambda>sa. bindE (num sp 1) (\<lambda>sb. bindE (num sp 2) (\<lambda>sc. bindE (num sp 3) (\<lambda>sd.
       Inr (BPParams (attr_str ''workload'' ptr) \<lparr>bp_d = pd, bp_e = pe, bp_g = pg, bp_k = pk\<rparr>
         \<lparr>sp_a = sa, sp_b = sb, sp_c = sc, sp_d = sd\<rparr>))))))))))"

definition BP_from_csv :: "csv_doc \<Rightarrow> nat \<Rightarrow> exc + cpum_params" where
  "BP_from_csv doc rix =
    (let num = (\<lambda>col. bindE (csv_at col rix doc) from_str_double) in
     bindE (csv_at ''workload'' rix doc) (\<lambda>workload.
     bindE (num ''power_d'') (\<lambda>pd. bindE (num ''power_e'') (\<lambda>pe. bindE (num ''power_g'') (\<lambda>pg. bindE (num ''power_k'') (\<lambda>pk.
     bindE (num ''speed_a'') (\<lambda>sa. bindE (num ''speed_b'') (\<lambda>sb. bindE (num ''speed_c'') (\<lambda>sc. bindE (num ''speed_d'') (\<lambda>sd.
       Inr (BPParams workload \<lparr>bp_d = pd, bp_e = pe, bp_g = pg, bp_k = pk\<rparr>
         \<lparr>sp_a = sa, sp_b = sb, sp_c = sc, sp_d = sd\<rparr>)))))))))))"

definition TB_from_csv :: "csv_doc \<Rightarrow> nat \<Rightarrow> exc + tb_params" where
  "TB_from_csv doc rix =
    (let num = (\<lambda>col. bindE (csv_at col rix doc) from_str_double) in
     bindE (csv_at ''workload'' rix doc) (\<lambda>workload.
     bindE (bindE (csv_at ''freq'' rix doc) from_str_freq) (\<lambda>f.
     bindE (num ''voltage'') (\<lambda>v. bindE (num ''power'') (\<lambda>pw. bindE (num ''speed'') (\<lambda>sp.
       Inr \<lparr>tb_workload = workload, tb_freq = f, tb_volt = v, tb_power = pw, tb_speed = sp\<rparr>))))))"

definition createCPUModelParams_csv :: "string \<Rightarrow> csv_doc \<Rightarrow> nat \<Rightarrow> exc + cpum_params" where
  "createCPUModelParams_csv k doc rix =
    (if k = minimal_key then Inr MinimalParams
     else if k = bp_key then BP_from_csv doc rix
     else if k = tb_key then bindE (TB_from_csv doc rix) (\<lambda>p. Inr (TBParams p))
     else if k = tb_approx_key then bindE (TB_from_csv doc rix) (\<lambda>p. Inr (TBApproxParams p))
     else Inl (BaseExc ''The CPU Model does not support being instantiated from a CSV document!''))"

definition createCPUModelParams_yaml :: "string \<Rightarrow> yobj \<Rightarrow> exc + cpum_params" where
  "createCPUModelParams_yaml k ptr =
    (if k = minimal_key then Inr MinimalParams
     else if k = bp_key then BP_from_yaml ptr
     else Inl (BaseExc ''The CPU Model does not support being instantiated from inline YAML parameters!''))"

section \<open>Descriptions\<close>

record kernel_descriptor =
  kd_name :: string
  kd_scheduler :: string
  kd_placement :: string

record island_descriptor =
  id_name :: string
  id_numcpus :: nat
  id_kernel :: kernel_descriptor
  id_volts :: "rat list"
  id_freqs :: "freq list"
  id_base_freq :: freq
  id_power_model :: string
  id_speed_model :: string

record system_descriptor =
  sd_power_models :: "string \<Rightarrow> cpum_descriptor option"
  sd_islands :: "island_descriptor list"

text \<open>The contents of files by path, and the path of a file that is named in the file at a path.\<close>

record file_env =
  fe_text :: "string \<Rightarrow> string option"
  fe_path :: "string \<Rightarrow> string \<Rightarrow> string"

definition KernelDescriptor_from :: "yobj \<Rightarrow> kernel_descriptor" where
  "KernelDescriptor_from ptr = \<lparr>kd_name = attr_str ''name'' ptr, kd_scheduler = attr_str ''scheduler'' ptr,
     kd_placement = attr_str ''task_placement'' ptr\<rparr>"

text \<open>The rows of the table whose model is the one described.\<close>

fun params_of_rows :: "string \<Rightarrow> string \<Rightarrow> csv_doc \<Rightarrow> nat list \<Rightarrow> exc + cpum_params list" where
  "params_of_rows name type doc [] = Inr []"
| "params_of_rows name type doc (rix # rixs) =
    bindE (csv_at ''model'' rix doc) (\<lambda>m.
      if m = name then bindE (createCPUModelParams_csv type doc rix) (\<lambda>p.
        bindE (params_of_rows name type doc rixs) (\<lambda>ps. Inr (p # ps)))
      else params_of_rows name type doc rixs)"

definition CPUMDescriptor_from :: "file_env \<Rightarrow> string \<Rightarrow> yobj \<Rightarrow> exc + cpum_descriptor" where
  "CPUMDescriptor_from fe path ptr =
    (let name = attr_str ''name'' ptr; type = attr_str ''type'' ptr; fname = attr_str ''filename'' ptr in
     bindE (if 0 < length fname then
              bindE (CSVDocument_ctor (fe_text fe) (fe_path fe path fname)) (\<lambda>doc.
                params_of_rows name type doc [0..<csv_rows doc])
            else mapE (createCPUModelParams_yaml type) (y_list (attr_obj ''params'' ptr))) (\<lambda>params.
       Inr \<lparr>cd_name = name, cd_type = type, cd_params = params\<rparr>))"

definition IslandDescriptor_from :: "yobj \<Rightarrow> exc + island_descriptor" where
  "IslandDescriptor_from ptr =
     bindE (from_str_size (attr_str ''numcpus'' ptr)) (\<lambda>numcpus.
     bindE (mapE (\<lambda>v. from_str_double (y_scalar v)) (y_list (attr_obj ''volts'' ptr))) (\<lambda>volts.
     bindE (mapE (\<lambda>f. from_str_freq (y_scalar f)) (y_list (attr_obj ''freqs'' ptr))) (\<lambda>freqs.
     bindE (from_str_freq (attr_str ''base_freq'' ptr)) (\<lambda>base_freq.
       Inr \<lparr>id_name = attr_str ''name'' ptr, id_numcpus = numcpus, id_kernel = KernelDescriptor_from (attr_obj ''kernel'' ptr),
         id_volts = sort volts, id_freqs = sort freqs, id_base_freq = base_freq,
         id_power_model = attr_str ''power_model'' ptr, id_speed_model = attr_str ''speed_model'' ptr\<rparr>))))"

text \<open>\<open>emplace\<close> keeps the model that is there.\<close>

fun emplace_models :: "cpum_descriptor list \<Rightarrow> (string \<Rightarrow> cpum_descriptor option) \<Rightarrow> (string \<Rightarrow> cpum_descriptor option)" where
  "emplace_models [] m = m"
| "emplace_models (d # ds) m = emplace_models ds (if m (cd_name d) = None then m(cd_name d := Some d) else m)"

definition parse_file :: "file_env \<Rightarrow> string \<Rightarrow> (exc + yobj) option" where
  "parse_file fe fname =
    (case fe_text fe fname of None \<Rightarrow> Some (Inl (ParseExc ''could not be opened'')) | Some t \<Rightarrow> yaml_parse t)"

definition SystemDescriptor_ctor :: "file_env \<Rightarrow> string \<Rightarrow> (exc + system_descriptor) option" where
  "SystemDescriptor_ctor fe fname = bindN (parse_file fe fname) (\<lambda>obj.
     Some (bindE (mapE IslandDescriptor_from (y_list (attr_obj ''cpu_islands'' obj))) (\<lambda>islands.
           bindE (mapE (CPUMDescriptor_from fe fname) (y_list (attr_obj ''power_models'' obj))) (\<lambda>models.
             Inr \<lparr>sd_power_models = emplace_models models (\<lambda>_. None), sd_islands = islands\<rparr>))))"

end
