(* ===== verification/Entities.thy ===== *)
theory Entities
  imports StrToken
begin

text \<open>
  \<open>libmetasim/entity.cpp\<close>: the registry of all the objects of a simulation, by number (\<open>_globMap\<close>) and by name
  (\<open>_index\<close>).  An object is its pointer, of any type; \<open>ent_ID\<close> and \<open>ent_name\<close> are its members \<open>_ID\<close> and
  \<open>_name\<close>.
\<close>

record 'p registry =
  globMap :: "int \<Rightarrow> 'p option"
  index :: "string \<Rightarrow> 'p option"
  IDcount :: int
  ent_ID :: "'p \<Rightarrow> int"
  ent_name :: "'p \<Rightarrow> string"

definition empty_registry :: "'p registry" where
  "empty_registry = \<lparr>globMap = (\<lambda>_. None), index = (\<lambda>_. None), IDcount = 0, ent_ID = (\<lambda>_. 0), ent_name = (\<lambda>_. [])\<rparr>"

text \<open>
  While the base class \<open>Entity\<close> is constructed the object is not yet of its own class, so an object without a
  name is called after \<open>MetaSim::Entity\<close>, whatever it will be.
\<close>

definition entity_type_name :: string where
  "entity_type_name = ''MetaSim::Entity''"

definition Entity_init :: "'p \<Rightarrow> string \<Rightarrow> 'p registry \<Rightarrow> exc + 'p registry" where
  "Entity_init p n r =
    (let name = (if n = [] then entity_type_name @ decimal_int (IDcount r + 1) else n) in
     if index r name \<noteq> None then Inl EntitySameName
     else let k = IDcount r + 1 in
       Inr (r\<lparr>IDcount := k, ent_ID := (ent_ID r)(p := k), ent_name := (ent_name r)(p := name),
              globMap := (globMap r)(k := Some p), index := (index r)(name := Some p)\<rparr>))"

definition Entity_ctor :: "'p \<Rightarrow> string \<Rightarrow> 'p registry \<Rightarrow> exc + 'p registry" where
  "Entity_ctor p n r = Entity_init p n r"

definition Entity_copy :: "'p \<Rightarrow> 'p \<Rightarrow> 'p registry \<Rightarrow> exc + 'p registry" where
  "Entity_copy p obj r = Entity_init p (ent_name r obj @ ''_copy_'' @ decimal_int (IDcount r + 1)) r"

definition Entity_dtor :: "'p \<Rightarrow> 'p registry \<Rightarrow> 'p registry" where
  "Entity_dtor p r = r\<lparr>globMap := (globMap r)(ent_ID r p := None), index := (index r)(ent_name r p := None)\<rparr>"

definition Entity_getPointer :: "int \<Rightarrow> 'p registry \<Rightarrow> 'p option" where
  "Entity_getPointer i r = globMap r i"

definition Entity_find :: "string \<Rightarrow> 'p registry \<Rightarrow> 'p option" where
  "Entity_find n r = index r n"

definition Entity_setName :: "'p \<Rightarrow> string \<Rightarrow> 'p registry \<Rightarrow> 'p registry" where
  "Entity_setName p n r = r\<lparr>ent_name := (ent_name r)(p := n)\<rparr>"

text \<open>The order in which \<open>callNewRun\<close> and \<open>callEndRun\<close> visit the objects: that of the keys of the map.\<close>

fun lookups :: "('k \<Rightarrow> 'p option) \<Rightarrow> 'k list \<Rightarrow> 'p list" where
  "lookups m [] = []"
| "lookups m (k # ks) = (case m k of None \<Rightarrow> lookups m ks | Some p \<Rightarrow> p # lookups m ks)"

definition Entity_order :: "'p registry \<Rightarrow> 'p list" where
  "Entity_order r = lookups (globMap r) [1..IDcount r]"

end
