(* ===== verification/RandomVars.thy ===== *)
theory RandomVars
  imports StrToken "HOL-Library.Signed_Division"
begin

text \<open>
  \<open>libmetasim/randomvar.cpp\<close>, \<open>genericvar.cpp\<close>, \<open>regvar.cpp\<close>: the generator of random numbers, the
  distributions, and the factory that makes a random variable from its text.  The functions of \<open>cmath\<close> are
  arguments (\<open>libm\<close>), and so are the contents of files, by name; doubles are rational numbers.
\<close>

section \<open>The generator\<close>

record random_gen =
  rg_seed :: int
  rg_xn :: int

definition gen_A :: int where "gen_A = 16807"
definition gen_M :: int where "gen_M = 2147483647"
definition gen_Q :: int where "gen_Q = 127773"
definition gen_R :: int where "gen_R = 2836"

definition RandomGen_ctor :: "int \<Rightarrow> random_gen" where
  "RandomGen_ctor s = \<lparr>rg_seed = s, rg_xn = s\<rparr>"

definition RandomGen_init :: "int \<Rightarrow> random_gen \<Rightarrow> random_gen" where
  "RandomGen_init s g = g\<lparr>rg_xn := s, rg_seed := s\<rparr>"

text \<open>Division and remainder of C++ round towards zero.\<close>

definition RandomGen_sample :: "random_gen \<Rightarrow> int \<times> random_gen" where
  "RandomGen_sample g =
    (let xq = rg_xn g sdiv gen_Q;
         xr = rg_xn g smod gen_Q;
         xn = gen_A * xr - gen_R * xq;
         xn1 = (if xn < 0 then xn + gen_M else xn)
     in (xn1, g\<lparr>rg_xn := xn1\<rparr>))"

section \<open>Variables\<close>

text \<open>Every distribution but two is a \<open>UniformVar\<close> from 0 to 1 whose value is transformed.\<close>

record uniform_var =
  uv_min :: rat
  uv_max :: rat
  generatedValue :: rat

datatype rvar =
    DeltaV rat
  | UniformV uniform_var
  | ExponentialV uniform_var rat        \<comment> \<open>\<open>_lambda\<close>\<close>
  | WeibullV uniform_var rat rat        \<comment> \<open>\<open>_l\<close>, \<open>_k\<close>\<close>
  | ParetoV uniform_var rat rat         \<comment> \<open>\<open>_mu\<close>, \<open>_order\<close>\<close>
  | NormalV uniform_var rat rat         \<comment> \<open>\<open>_mu\<close>, \<open>_sigma\<close>\<close>
  | PoissonV uniform_var rat            \<comment> \<open>\<open>_lambda\<close>\<close>
  | DetV "rat list" nat                 \<comment> \<open>\<open>_array\<close>, \<open>_count\<close>\<close>
  | GenericV uniform_var "(int \<times> rat) list"

definition UniformVar_ctor :: "rat \<Rightarrow> rat \<Rightarrow> uniform_var" where
  "UniformVar_ctor a b = \<lparr>uv_min = a, uv_max = b, generatedValue = 0\<rparr>"

definition unit_uniform :: uniform_var where
  "unit_uniform = UniformVar_ctor 0 1"

definition UniformVar_get :: "uniform_var \<Rightarrow> random_gen \<Rightarrow> rat \<times> uniform_var \<times> random_gen" where
  "UniformVar_get v g =
    (if generatedValue v = 0 then
       let (x, g1) = RandomGen_sample g;
           tmp = of_int x * (uv_max v - uv_min v) / of_int gen_M + uv_min v
       in (tmp, v\<lparr>generatedValue := tmp\<rparr>, g1)
     else (generatedValue v, v, g))"

text \<open>The functions of \<open>cmath\<close>.\<close>

record libm =
  m_log :: "rat \<Rightarrow> rat"
  m_exp :: "rat \<Rightarrow> rat"
  m_pow :: "rat \<Rightarrow> rat \<Rightarrow> rat"
  m_sqrt :: "rat \<Rightarrow> rat"
  m_cos :: "rat \<Rightarrow> rat"
  m_sin :: "rat \<Rightarrow> rat"

definition CUTOFF :: nat where "CUTOFF = 10000"

fun poisson_loop :: "rat \<Rightarrow> rat \<Rightarrow> nat \<Rightarrow> nat \<Rightarrow> rat \<Rightarrow> rat \<Rightarrow> nat" where
  "poisson_loop lambda u 0 i F S = CUTOFF"
| "poisson_loop lambda u (Suc left) i F S =
    (if u < S then i - 1
     else let F1 = F * lambda / of_nat i in poisson_loop lambda u left (i + 1) F1 (S + F1))"

text \<open>The smallest positive normal number of type \<open>double\<close>, and the constant of the code.\<close>

definition double_min :: rat where "double_min = 1 / 2 ^ 1022"
definition two_pi :: rat where "two_pi = 2 * (314159265358979323846 / 10 ^ 20)"

text \<open>The loop of \<open>NormalVar::get\<close> repeats while the first value is too small: it may not end.\<close>

partial_function (option) normal_loop ::
    "uniform_var \<Rightarrow> random_gen \<Rightarrow> (rat \<times> rat \<times> uniform_var \<times> random_gen) option" where
  [code]: "normal_loop v g =
    (let (u1, v1, g1) = UniformVar_get v g;
         (u2, v2, g2) = UniformVar_get v1 g1
     in if u1 \<le> double_min then normal_loop v2 g2 else Some (u1, u2, v2, g2))"

text \<open>
  What the calls of \<open>get\<close> share: the generator, and the two static variables of \<open>NormalVar::get\<close>, which all
  the normal variables of the program use.
\<close>

record rand_state =
  rs_gen :: random_gen
  rs_generate :: bool
  rs_z1 :: rat

fun generic_find :: "rat \<Rightarrow> rat \<Rightarrow> (int \<times> rat) list \<Rightarrow> rat option" where
  "generic_find v CDF [] = None"
| "generic_find v CDF ((n, p) # pdf) = (if v < CDF + p then Some (of_int n) else generic_find v (CDF + p) pdf)"

definition with_uniform ::
    "uniform_var \<Rightarrow> (rat \<Rightarrow> exc + rat) \<Rightarrow> (uniform_var \<Rightarrow> rvar) \<Rightarrow> rand_state \<Rightarrow> exc + rat \<times> rvar \<times> rand_state" where
  "with_uniform v f mk s =
    (let (u, v1, g1) = UniformVar_get v (rs_gen s)
     in bindE (f u) (\<lambda>x. Inr (x, mk v1, s\<lparr>rs_gen := g1\<rparr>)))"

definition NormalVar_get ::
    "libm \<Rightarrow> uniform_var \<Rightarrow> rat \<Rightarrow> rat \<Rightarrow> rand_state \<Rightarrow> (exc + rat \<times> rvar \<times> rand_state) option" where
  "NormalVar_get m v mu sigma s =
    (let s1 = s\<lparr>rs_generate := \<not> rs_generate s\<rparr> in
     if \<not> rs_generate s1 then Some (Inr (rs_z1 s1 * sigma + mu, NormalV v mu sigma, s1))
     else case normal_loop v (rs_gen s1) of
         None \<Rightarrow> None
       | Some (u1, u2, v1, g1) \<Rightarrow>
           let r = m_sqrt m (- 2 * m_log m u1);
               z0 = r * m_cos m (two_pi * u2);
               z1 = r * m_sin m (two_pi * u2)
           in Some (Inr (z0 * sigma + mu, NormalV v1 mu sigma, s1\<lparr>rs_gen := g1, rs_z1 := z1\<rparr>)))"

definition ExponentialVar_get :: "libm \<Rightarrow> uniform_var \<Rightarrow> rat \<Rightarrow> rand_state \<Rightarrow> exc + rat \<times> rvar \<times> rand_state" where
  "ExponentialVar_get m v l = with_uniform v (\<lambda>u. Inr (- m_log m u / l)) (\<lambda>v. ExponentialV v l)"

definition WeibullVar_get ::
    "libm \<Rightarrow> uniform_var \<Rightarrow> rat \<Rightarrow> rat \<Rightarrow> rand_state \<Rightarrow> exc + rat \<times> rvar \<times> rand_state" where
  "WeibullVar_get m v l k = with_uniform v (\<lambda>u. Inr (l * m_pow m (- m_log m u) (1 / k))) (\<lambda>v. WeibullV v l k)"

definition ParetoVar_get ::
    "libm \<Rightarrow> uniform_var \<Rightarrow> rat \<Rightarrow> rat \<Rightarrow> rand_state \<Rightarrow> exc + rat \<times> rvar \<times> rand_state" where
  "ParetoVar_get m v mu k = with_uniform v (\<lambda>u. Inr (mu * m_pow m u (- 1 / k))) (\<lambda>v. ParetoV v mu k)"

definition PoissonVar_get :: "libm \<Rightarrow> uniform_var \<Rightarrow> rat \<Rightarrow> rand_state \<Rightarrow> exc + rat \<times> rvar \<times> rand_state" where
  "PoissonVar_get m v l = with_uniform v
     (\<lambda>u. let F = m_exp m (- l) in Inr (of_nat (poisson_loop l u (CUTOFF - 1) 1 F F))) (\<lambda>v. PoissonV v l)"

text \<open>An empty vector is read out of its bounds.\<close>

definition DetVar_get :: "rat list \<Rightarrow> nat \<Rightarrow> rand_state \<Rightarrow> exc + rat \<times> rvar \<times> rand_state" where
  "DetVar_get xs n s =
    (let n1 = (if length xs \<le> n then 0 else n)
     in if xs = [] then Inl (NullPointer ''_array'') else Inr (xs ! n1, DetV xs (n1 + 1), s))"

definition GenericVar_get :: "uniform_var \<Rightarrow> (int \<times> rat) list \<Rightarrow> rand_state \<Rightarrow> exc + rat \<times> rvar \<times> rand_state" where
  "GenericVar_get v pdf = with_uniform v
     (\<lambda>u. case generic_find u 0 pdf of None \<Rightarrow> Inl (RandomVarExc ''Panic'') | Some y \<Rightarrow> Inr y) (\<lambda>v. GenericV v pdf)"

text \<open>The virtual call.\<close>

definition RVar_get :: "libm \<Rightarrow> rvar \<Rightarrow> rand_state \<Rightarrow> (exc + rat \<times> rvar \<times> rand_state) option" where
  "RVar_get m x s = (case x of
      DeltaV a \<Rightarrow> Some (Inr (a, x, s))
    | UniformV v \<Rightarrow> Some (with_uniform v Inr UniformV s)
    | ExponentialV v l \<Rightarrow> Some (ExponentialVar_get m v l s)
    | WeibullV v l k \<Rightarrow> Some (WeibullVar_get m v l k s)
    | ParetoV v mu k \<Rightarrow> Some (ParetoVar_get m v mu k s)
    | NormalV v mu sigma \<Rightarrow> NormalVar_get m v mu sigma s
    | PoissonV v l \<Rightarrow> Some (PoissonVar_get m v l s)
    | DetV xs n \<Rightarrow> Some (DetVar_get xs n s)
    | GenericV v pdf \<Rightarrow> Some (GenericVar_get v pdf s))"

definition no_maximum :: "string \<Rightarrow> exc + rat" where
  "no_maximum c = Inl (RandomVarExc (''Maximum value cannot be computed for this variable type: '' @ c))"

definition DetVar_getMaximum :: "rat list \<Rightarrow> rat" where
  "DetVar_getMaximum xs = (if xs = [] then 0 else foldl (\<lambda>a b. if a < b then b else a) (hd xs) (tl xs))"

definition DetVar_getMinimum :: "rat list \<Rightarrow> rat" where
  "DetVar_getMinimum xs = (if xs = [] then 0 else foldl (\<lambda>a b. if b < a then b else a) (hd xs) (tl xs))"

definition RVar_getMaximum :: "rvar \<Rightarrow> exc + rat" where
  "RVar_getMaximum x = (case x of
      DeltaV a \<Rightarrow> Inr a
    | UniformV v \<Rightarrow> Inr (uv_max v)
    | ExponentialV v l \<Rightarrow> no_maximum ''ExponentialVar''
    | WeibullV v l k \<Rightarrow> no_maximum ''WeibullVar''
    | ParetoV v mu k \<Rightarrow> no_maximum ''ExponentialVar''
    | NormalV v mu sigma \<Rightarrow> no_maximum ''NormalVar''
    | PoissonV v l \<Rightarrow> no_maximum ''PoissonVar''
    | DetV xs n \<Rightarrow> Inr (DetVar_getMaximum xs)
    | GenericV v pdf \<Rightarrow> Inr (uv_max v))"

definition RVar_getMinimum :: "rvar \<Rightarrow> exc + rat" where
  "RVar_getMinimum x = (case x of
      DeltaV a \<Rightarrow> Inr a
    | UniformV v \<Rightarrow> Inr (uv_min v)
    | ExponentialV v l \<Rightarrow> Inr 0
    | WeibullV v l k \<Rightarrow> Inr 0
    | ParetoV v mu k \<Rightarrow> no_maximum ''ExponentialVar''
    | NormalV v mu sigma \<Rightarrow> no_maximum ''NormalVar''
    | PoissonV v l \<Rightarrow> no_maximum ''PoissonVar''
    | DetV xs n \<Rightarrow> Inr (DetVar_getMinimum xs)
    | GenericV v pdf \<Rightarrow> Inr (uv_min v))"

definition RVar_setMaximum :: "rat \<Rightarrow> rvar \<Rightarrow> rvar" where
  "RVar_setMaximum m x = (case x of DeltaV a \<Rightarrow> DeltaV m | _ \<Rightarrow> x)"

section \<open>Files\<close>

text \<open>
  A file of numbers is their list, and whether white space follows the last.  The loop of \<open>DetVar\<close> reads once
  more when it does: that read fails and leaves \<open>v\<close> as it was; \<open>v0\<close> is what \<open>v\<close> held before the
  first read.
\<close>

definition DetVar_read :: "rat \<Rightarrow> rat list \<times> bool \<Rightarrow> rat list" where
  "DetVar_read v0 c = (case c of (xs, ws) \<Rightarrow> if xs = [] then [v0] else if ws then xs @ [last xs] else xs)"

fun pdf_get :: "(int \<times> rat) list \<Rightarrow> int \<Rightarrow> rat" where
  "pdf_get [] n = 0"
| "pdf_get ((k, p) # pdf) n = (if k = n then p else pdf_get pdf n)"

fun pdf_set :: "int \<Rightarrow> rat \<Rightarrow> (int \<times> rat) list \<Rightarrow> (int \<times> rat) list" where
  "pdf_set n p [] = [(n, p)]"
| "pdf_set n p ((k, q) # pdf) =
    (if n < k then (n, p) # (k, q) # pdf else if n = k then (n, p) # pdf else (k, q) # pdf_set n p pdf)"

definition PDF_ERR :: rat where "PDF_ERR = 1 / 10 ^ 11"

definition wrong_pdf :: exc where
  "wrong_pdf = RandomVarExc ''Malformed PDF''"

fun readPDF_loop :: "(int \<times> rat) list \<Rightarrow> rat \<Rightarrow> (int \<times> rat) list \<Rightarrow> exc + rat \<times> (int \<times> rat) list" where
  "readPDF_loop [] acc pdf = Inr (acc, pdf)"
| "readPDF_loop ((n, p) # rest) acc pdf =
    (if pdf_get pdf n \<noteq> 0 then Inl wrong_pdf else readPDF_loop rest (acc + p) (pdf_set n p pdf))"

text \<open>
  The last pair counts only when white space follows it: without, the stream is at its end after the pair.
  What is missing of the sum goes to the value \<open>n\<close> read last (\<open>n0\<close> if none was); the mode is 0.
\<close>

definition readPDF :: "int \<Rightarrow> (int \<times> rat) list \<times> bool \<Rightarrow> exc + (int \<times> rat) list" where
  "readPDF n0 c = (case c of (ps, ws) \<Rightarrow>
     bindE (readPDF_loop (if ws then ps else butlast ps) 0 []) (\<lambda>(acc, pdf).
     if 1 < acc then Inl wrong_pdf
     else let n = (if ps = [] then n0 else fst (last ps)) in
       Inr (if acc < 1 - PDF_ERR then pdf_set n (pdf_get pdf n + (1 - acc)) pdf else pdf)))"

record files =
  f_numbers :: "string \<Rightarrow> (rat list \<times> bool) option"
  f_pdf :: "string \<Rightarrow> ((int \<times> rat) list \<times> bool) option"
  f_junk :: "rat \<times> int"          \<comment> \<open>\<open>v\<close> and \<open>n\<close> before they are read\<close>

definition no_file :: "string \<Rightarrow> exc" where
  "no_file name = RandomVarExc (''Unable to open RandFile'' @ name)"

definition DetVar_open :: "files \<Rightarrow> string \<Rightarrow> exc + rvar" where
  "DetVar_open fs name = (case f_numbers fs name of
      None \<Rightarrow> Inl (no_file name)
    | Some c \<Rightarrow> Inr (DetV (DetVar_read (fst (f_junk fs)) c) 0))"

definition GenericVar_open :: "files \<Rightarrow> string \<Rightarrow> exc + rvar" where
  "GenericVar_open fs name = (case f_pdf fs name of
      None \<Rightarrow> Inl (no_file name)
    | Some c \<Rightarrow> bindE (readPDF (snd (f_junk fs)) c) (\<lambda>pdf. Inr (GenericV unit_uniform pdf)))"

section \<open>Variables from text\<close>

definition one_param :: "string \<Rightarrow> string list \<Rightarrow> (string \<Rightarrow> exc + rvar) \<Rightarrow> exc + rvar" where
  "one_param c par f = (case par of [a] \<Rightarrow> f a | _ \<Rightarrow> Inl (ParseExc (''Wrong number of parameters'' @ c)))"

definition two_params :: "string \<Rightarrow> string list \<Rightarrow> (string \<Rightarrow> string \<Rightarrow> exc + rvar) \<Rightarrow> exc + rvar" where
  "two_params c par f = (case par of [a, b] \<Rightarrow> f a b | _ \<Rightarrow> Inl (ParseExc (''Wrong number of parameters'' @ c)))"

definition DeltaVar_createInstance :: "string list \<Rightarrow> exc + rvar" where
  "DeltaVar_createInstance par = one_param ''DeltaVar'' par (\<lambda>a. Inr (DeltaV (atof a)))"

definition UniformVar_createInstance :: "string list \<Rightarrow> exc + rvar" where
  "UniformVar_createInstance par =
     two_params ''UniformVar'' par (\<lambda>a b. Inr (UniformV (UniformVar_ctor (atof a) (atof b))))"

definition ExponentialVar_createInstance :: "string list \<Rightarrow> exc + rvar" where
  "ExponentialVar_createInstance par = one_param ''ExponentialVar'' par (\<lambda>a. Inr (ExponentialV unit_uniform (atof a)))"

definition WeibullVar_createInstance :: "string list \<Rightarrow> exc + rvar" where
  "WeibullVar_createInstance par =
     two_params ''WeibullVar'' par (\<lambda>a b. Inr (WeibullV unit_uniform (atof a) (atof b)))"

definition ParetoVar_createInstance :: "string list \<Rightarrow> exc + rvar" where
  "ParetoVar_createInstance par =
     two_params ''ParetoVar'' par (\<lambda>a b. Inr (ParetoV unit_uniform (atof a) (atof b)))"

definition NormalVar_createInstance :: "string list \<Rightarrow> exc + rvar" where
  "NormalVar_createInstance par =
     two_params ''NormalVar'' par (\<lambda>a b. Inr (NormalV unit_uniform (atof a) (atof b)))"

definition PoissonVar_createInstance :: "string list \<Rightarrow> exc + rvar" where
  "PoissonVar_createInstance par = one_param ''PoissonVar'' par (\<lambda>a. Inr (PoissonV unit_uniform (atof a)))"

definition DetVar_createInstance :: "files \<Rightarrow> string list \<Rightarrow> exc + rvar" where
  "DetVar_createInstance fs par = one_param ''DetVar'' par (DetVar_open fs)"

definition GenericVar_createInstance :: "files \<Rightarrow> string list \<Rightarrow> exc + rvar" where
  "GenericVar_createInstance fs par = one_param ''GenericVar'' par (GenericVar_open fs)"

text \<open>The factory: the functions registered in \<open>regvar.cpp\<close>, by name; none is registered for \<open>WeibullVar\<close>.\<close>

definition RandomVar_factory :: "files \<Rightarrow> (string \<times> (string list \<Rightarrow> exc + rvar)) list" where
  "RandomVar_factory fs =
    [(''delta'', DeltaVar_createInstance), (''unif'', UniformVar_createInstance),
     (''uniform'', UniformVar_createInstance), (''normal'', NormalVar_createInstance),
     (''gauss'', NormalVar_createInstance), (''exp'', ExponentialVar_createInstance),
     (''exponential'', ExponentialVar_createInstance), (''pareto'', ParetoVar_createInstance),
     (''poisson'', PoissonVar_createInstance), (''trace'', DetVar_createInstance fs),
     (''PDF'', GenericVar_createInstance fs)]"

definition var_of_text :: "files \<Rightarrow> string \<Rightarrow> string \<Rightarrow> (exc + rvar) option" where
  "var_of_text fs who str =
     bindN (token_params str) (\<lambda>(token, parms).
     bindN (Some (factory_create (RandomVar_factory fs) token parms)) (\<lambda>var.
     Some (case var of None \<Rightarrow> Inl (ParseExc (who @ str)) | Some v \<Rightarrow> Inr v)))"

definition RandomVar_parsevar :: "files \<Rightarrow> string \<Rightarrow> (exc + rvar) option" where
  "RandomVar_parsevar fs str = var_of_text fs ''parsevar'' str"

end
