(* ===== verification/TaskText.thy ===== *)
theory TaskText
  imports Entities RandomVars World
begin

text \<open>
  Times, tasks and their instructions from text: \<open>Tick(const string &)\<close>, \<open>Task::insertCode\<close> and the
  \<open>createInstance\<close> functions of the instructions and the tasks (\<open>tick.cpp\<close>, \<open>task.cpp\<close>, \<open>exeinstr.cpp\<close>,
  \<open>waitinstr.cpp\<close>, \<open>suspend_instr.cpp\<close>, \<open>rttask.cpp\<close>, \<open>reginstr.cpp\<close>).
\<close>

section \<open>Times\<close>

record tick_units =
  resolution :: int
  default_unit :: int

definition initial_units :: tick_units where
  "initial_units = \<lparr>resolution = 1, default_unit = 1\<rparr>"

definition unit_factor :: "string \<Rightarrow> int option" where
  "unit_factor u = map_of [(''s'', 1000000000), (''ms'', 1000000), (''us'', 1000), (''ns'', 1)] u"

definition Tick_set_default_unit :: "int \<Rightarrow> tick_units \<Rightarrow> tick_units" where
  "Tick_set_default_unit d u = u\<lparr>default_unit := d\<rparr>"

definition Tick_set_resolution :: "string \<Rightarrow> tick_units \<Rightarrow> exc + tick_units" where
  "Tick_set_resolution s u =
     bindE (parse_double s) (\<lambda>(num, unit). case unit_factor unit of
       None \<Rightarrow> Inl (ParseExc unit)
     | Some f \<Rightarrow> Inr (u\<lparr>resolution := Tick_of_double (num * of_int f)\<rparr>))"

text \<open>A resolution of 0 makes the double infinite, and its conversion to an integer undefined.\<close>

definition Tick_of_string :: "tick_units \<Rightarrow> string \<Rightarrow> exc + tick" where
  "Tick_of_string u s =
     bindE (parse_double s) (\<lambda>(num, unit).
     case (if unit = [] then Some (default_unit u) else unit_factor unit) of
       None \<Rightarrow> Inl (ParseExc unit)
     | Some f \<Rightarrow> if resolution u = 0 then Inl (AssertFailed ''resolution'')
                else Inr (Tick_of_double (num * of_int f / of_int (resolution u))))"

section \<open>Instructions\<close>

text \<open>
  What the code refers to outside the task: the registry of entities, the files, and the values a variable
  will return.
\<close>

datatype object = TaskObj nat | InstrObj nat nat | OtherObj nat

record parse_env =
  pe_files :: files
  pe_draws :: "rvar \<Rightarrow> randvar"

text \<open>A parsed instruction with its \<open>_father\<close>, null when the name is not that of a task.\<close>

type_synonym parsed = "nat option \<times> instr"

definition find_task :: "object registry \<Rightarrow> string \<Rightarrow> nat option" where
  "find_task r n = (case Entity_find n r of Some (TaskObj t) \<Rightarrow> Some t | _ \<Rightarrow> None)"

text \<open>\<open>par[i]\<close>, undefined when there is no such element.\<close>

definition par_at :: "string list \<Rightarrow> nat \<Rightarrow> exc + string" where
  "par_at par i = (if i < length par then Inr (par ! i) else Inl (NullPointer ''par''))"

definition ExecInstr_createInstance :: "parse_env \<Rightarrow> object registry \<Rightarrow> string list \<Rightarrow> (exc + parsed) option" where
  "ExecInstr_createInstance pe r par =
     bindN (Some (par_at par 0)) (\<lambda>p0.
     let task = find_task r (last par) in
     if p0 \<noteq> [] \<and> is_digit (hd p0) then
       Some (Inr (task, ExecInstr (FixedInstr_ctor (atoi p0) [])))
     else bindN (var_of_text (pe_files pe) ''ExecInstr'' p0) (\<lambda>v.
       Some (Inr (task, ExecInstr (ExecInstr_ctor (pe_draws pe v) [])))))"

definition FixedInstr_createInstance :: "object registry \<Rightarrow> string list \<Rightarrow> exc + parsed" where
  "FixedInstr_createInstance r par =
     bindE (par_at par 0) (\<lambda>p0.
     bindE (if length par \<le> 2 then Inr [] else par_at par 1) (\<lambda>workload.
     bindE (stoi p0) (\<lambda>d.
     Inr (find_task r (last par), ExecInstr (FixedInstr_ctor d workload)))))"

definition WaitInstr_createInstance :: "object registry \<Rightarrow> string list \<Rightarrow> exc + parsed" where
  "WaitInstr_createInstance r par =
     bindE (par_at par 1) (\<lambda>n. bindE (par_at par 0) (\<lambda>res. Inr (find_task r n, WaitInstr res 1 False)))"

definition SignalInstr_createInstance :: "object registry \<Rightarrow> string list \<Rightarrow> exc + parsed" where
  "SignalInstr_createInstance r par =
     bindE (par_at par 1) (\<lambda>n. bindE (par_at par 0) (\<lambda>res. Inr (find_task r n, SignalInstr res 1)))"

definition SuspendInstr_createInstance :: "object registry \<Rightarrow> string list \<Rightarrow> exc + parsed" where
  "SuspendInstr_createInstance r par =
    (if length par \<noteq> 2 then Inl (ParseExc ''Wrong number of arguments'')
     else bindE (stoi (par ! 0)) (\<lambda>d. Inr (find_task r (par ! 1), SuspendInstr d)))"

text \<open>The factory of \<open>reginstr.cpp\<close>.\<close>

definition Instr_factory ::
    "parse_env \<Rightarrow> object registry \<Rightarrow> (string \<times> (string list \<Rightarrow> (exc + parsed) option)) list" where
  "Instr_factory pe r =
    [(''delay'', ExecInstr_createInstance pe r), (''fixed'', Some \<circ> FixedInstr_createInstance r),
     (''wait'', Some \<circ> WaitInstr_createInstance r), (''lock'', Some \<circ> WaitInstr_createInstance r),
     (''signal'', Some \<circ> SignalInstr_createInstance r), (''unlock'', Some \<circ> SignalInstr_createInstance r),
     (''suspend'', Some \<circ> SuspendInstr_createInstance r)]"

definition Instr_create :: "parse_env \<Rightarrow> object registry \<Rightarrow> string \<Rightarrow> string list \<Rightarrow> (exc + parsed option) option" where
  "Instr_create pe r k par = (case map_of (Instr_factory pe r) k of
      None \<Rightarrow> Some (Inr None)
    | Some create \<Rightarrow> bindN (create par) (\<lambda>x. Some (Inr (Some x))))"

text \<open>
  \<open>insertCode\<close> of task \<open>t\<close>: the queue of instructions and the registry after it.  An exception ends it in the
  middle; the instructions before are in the queue then.
\<close>

type_synonym code_state = "parsed list \<times> object registry"

definition insert_one :: "parse_env \<Rightarrow> nat \<Rightarrow> string \<Rightarrow> code_state \<Rightarrow> (exc + code_state) option" where
  "insert_one pe t ins st = (case st of (q, r) \<Rightarrow>
     bindN (token_params ins) (\<lambda>(token, par_list).
     bindN (Instr_create pe r token (par_list @ [ent_name r (TaskObj t)])) (\<lambda>curr.
     case curr of
       None \<Rightarrow> Some (Inl (ParseExc (''insertCode'' @ token)))
     | Some i \<Rightarrow> bindN (Some (Entity_ctor (InstrObj t (length q)) [] r)) (\<lambda>r1. Some (Inr (q @ [i], r1))))))"

fun insert_all :: "parse_env \<Rightarrow> nat \<Rightarrow> string list \<Rightarrow> code_state \<Rightarrow> (exc + code_state) option" where
  "insert_all pe t [] st = Some (Inr st)"
| "insert_all pe t (i # is) st = bindN (insert_one pe t i st) (insert_all pe t is)"

definition Task_insertCode :: "parse_env \<Rightarrow> nat \<Rightarrow> string \<Rightarrow> code_state \<Rightarrow> (exc + code_state) option" where
  "Task_insertCode pe t code st = bindN (Some (split_instr code)) (\<lambda>is. insert_all pe t is st)"

section \<open>Tasks\<close>

text \<open>
  What \<open>createInstance\<close> passes to the constructor of \<open>Task\<close>: the inter-arrival time, relative deadline, phase,
  name, size of the queue and the maximal computation time, for which \<open>Task::createInstance\<close> passes its flag
  \<open>a\<close>.  A vector of three elements is read at index 3.
\<close>

record task_args =
  ta_iat :: "rvar option"
  ta_rdl :: tick
  ta_phase :: tick
  ta_name :: string
  ta_qs :: int
  ta_maxC :: tick

definition Task_createInstance :: "tick_units \<Rightarrow> files \<Rightarrow> string list \<Rightarrow> (exc + task_args) option" where
  "Task_createInstance u fs par =
     bindN (Some (par_at par 0)) (\<lambda>p0.
     bindN (if p0 \<noteq> ''0'' then bindN (RandomVar_parsevar fs p0) (\<lambda>v. Some (Inr (Some v))) else Some (Inr None)) (\<lambda>i.
     bindN (Some (bindE (par_at par 1) (Tick_of_string u))) (\<lambda>d.
     bindN (Some (bindE (par_at par 2) (Tick_of_string u))) (\<lambda>p.
     bindN (Some (if length par > 2 then par_at par 3 else Inr [])) (\<lambda>n.
     let a = \<not> (length par > 5 \<and> par ! 5 \<noteq> ''false'') in
     Some (Inr \<lparr>ta_iat = i, ta_rdl = d, ta_phase = p, ta_name = n, ta_qs = 1000, ta_maxC = (if a then 1 else 0)\<rparr>))))))"

definition PeriodicTask_createInstance :: "tick_units \<Rightarrow> string list \<Rightarrow> exc + task_args" where
  "PeriodicTask_createInstance u par =
     bindE (bindE (par_at par 0) (Tick_of_string u)) (\<lambda>i.
     bindE (bindE (par_at par 1) (Tick_of_string u)) (\<lambda>d.
     bindE (bindE (par_at par 2) (Tick_of_string u)) (\<lambda>p.
     bindE (if length par > 2 then par_at par 3 else Inr []) (\<lambda>n.
     bindE (if length par > 4 then stoi (par ! 4) else Inr 100) (\<lambda>q.
     Inr \<lparr>ta_iat = Some (DeltaV (of_int i)), ta_rdl = d, ta_phase = p, ta_name = n, ta_qs = q, ta_maxC = 0\<rparr>)))))"

text \<open>The functions registered in \<open>regtask.cpp\<close>.\<close>

definition Task_factory ::
    "tick_units \<Rightarrow> files \<Rightarrow> (string \<times> (string list \<Rightarrow> (exc + task_args) option)) list" where
  "Task_factory u fs = [(''Task'', Task_createInstance u fs), (''PeriodicTask'', Some \<circ> PeriodicTask_createInstance u)]"

end
