(* ===== verification/RTTask_Laws.thy ===== *)
theory RTTask_Laws
  imports RTTask
begin

section \<open>What the tasks can change\<close>

text \<open>
  The interface of the servers extended by the changes of a resource manager, and that by the changes of
  a processor and of what the instructions of a task change, which is neither its arrival nor the arrivals
  it has in store (\<open>instr_frame\<close>); then every change of one task and its own arrivals (\<open>one_task_frame\<close>), and
  those of all tasks (\<open>task_frame\<close>).
\<close>

locale resource_frame = server_ops +
  assumes resman: "P w \<Longrightarrow> P (upd_resman m fr w)"
begin

lemma res_fields: "P w \<Longrightarrow> P (upd_resource m r f w)" "P w \<Longrightarrow> P (set_blocked m r q w)"
  by (simp_all add: upd_resource_def set_blocked_def resman)

lemma okr_kernel_calls:
  assumes "P w"
  shows "okr P (with_task_kernel a (\<lambda>k. kern_suspend k a) w)"
    and "okr P (with_task_kernel a (\<lambda>k. kern_activate k a) w)"
    and "okr P (Task_with_kernel t (\<lambda>k. kern_suspend k b) w)"
    and "okr P (Task_with_kernel t (\<lambda>k. kern_onArrival k b) w)"
    and "okr P (Task_with_kernel t (\<lambda>k. kern_onEnd k b) w)"
    and "okr P (Task_with_kernel t kern_dispatch w)"
  using assms by (auto simp: with_task_kernel_def Task_with_kernel_def intro!: pres)

lemma okr_release_loop: "P w \<Longrightarrow> okr P (FCFS_release_loop n m r av w)"
proof (induction n arbitrary: av w)
  case (Suc n)
  then show ?case
    by (auto simp: Let_def split: list.split intro!: okr_bindE okr_if okr_option okr_root okr_kernel_calls res_fields frame_rules)
qed simp

lemma okr_releaseResource: "P w \<Longrightarrow> okr P (releaseResource k a r n w)"
  by (auto simp: releaseResource_def ResManager_release_def FCFS_release_def Let_def
      simp del: FCFS_release_loop.simps
      intro!: okr_read [of "kern_getResManager k v" for v] okr_bindE okr_if okr_option okr_kern okr_release_loop res_fields frame_rules)

lemma FCFS_request_keeps: "P w \<Longrightarrow> FCFS_request m a r n w = Inr (b, w') \<Longrightarrow> P w'"
  using okr_kernel_calls(1) [of w a]
  by (auto simp: FCFS_request_def bindE_eq_Inr split: if_splits intro: res_fields frame_rules)

lemma requestResource_keeps: "P w \<Longrightarrow> requestResource k a r n w = Inr (b, w') \<Longrightarrow> P w'"
proof -
  assume "P w" and "requestResource k a r n w = Inr (b, w')"
  then obtain m c w1 where "FCFS_request m a r n w = Inr (c, w1)"
    and d: "(if \<not> c then kern_dispatch k w1 else Inr w1) = Inr w'"
    by (auto simp: requestResource_def ResManager_request_def bindE_eq_Inr split: option.splits if_splits)
  with \<open>P w\<close> have "P w1" by (blast intro: FCFS_request_keeps)
  with d okr_kern(3) [of w1 k] show "P w'" by (auto split: if_splits)
qed

lemma okr_requestResource:
  "P w \<Longrightarrow> (\<And>b v. P v \<Longrightarrow> okr P (f b v)) \<Longrightarrow> okr P (bindE (requestResource k a r n w) (\<lambda>(b, v). f b v))"
  by (auto intro!: okr_read dest: requestResource_keeps)

end

locale instr_frame = resource_frame +
  assumes quiet_task: "P w \<Longrightarrow> (\<And>x. arrQueue (ft x) = arrQueue x \<and> arrival (ft x) = arrival x) \<Longrightarrow> P (upd_task t ft w)"
    and cpu: "P w \<Longrightarrow> P (upd_cpu c fc w)"
begin

lemma instr: "P w \<Longrightarrow> P (upd_instr t i f w)" "P w \<Longrightarrow> P (upd_exec t i g w)"
  by (simp_all add: upd_instr_def upd_exec_def quiet_task)

lemmas instr_rules = quiet_task cpu instr res_fields frame_rules

lemma okr_setWorkload: "P w \<Longrightarrow> okr P (CPU_setWorkload c wl w)"
  by (simp add: CPU_setWorkload_def instr_rules)

lemma okr_ExecInstr:
  assumes "P w"
  shows "okr P (ExecInstr_schedule t i w)" and "okr P (ExecInstr_deschedule t i w)"
    and "okr P (Instr_deschedule t i w)" and "P (ExecInstr_reset t i w)" and "P (Instr_reset t i w)"
    and "okr P (ExecInstr_refreshExec t i s1 s2 w)"
proof -
  show sched: "okr P (ExecInstr_schedule t i w)"
    using assms by (auto simp: ExecInstr_schedule_def Let_def
        intro!: okr_read [of "Task_getCPU t v" for v] okr_read [of "ExecInstr_remaining a b" for a b]
          okr_bindE okr_option okr_setWorkload instr_rules)
  show desched: "okr P (ExecInstr_deschedule t i w)"
    using assms by (auto simp: ExecInstr_deschedule_def Let_def
        intro!: okr_read [of "Task_getOldCPU t v" for v] okr_bindE okr_option okr_if okr_setWorkload instr_rules)
  show "okr P (Instr_deschedule t i w)"
    using assms desched by (auto simp: Instr_deschedule_def split: instr.split)
  show reset: "P (ExecInstr_reset t i w)"
    using assms by (simp add: ExecInstr_reset_def instr_rules)
  show "P (Instr_reset t i w)"
    using assms reset by (simp add: Instr_reset_def split: instr.split)
  show "okr P (ExecInstr_refreshExec t i s1 s2 w)"
    using assms by (auto simp: ExecInstr_refreshExec_def Let_def intro!: okr_option okr_if instr_rules)
qed

lemma okr_onInstrEnd_with:
  assumes "P w" and nxt: "\<And>v. P v \<Longrightarrow> okr P (nxt v)"
  shows "okr P (Task_onInstrEnd_with nxt t w)"
  using assms(1) by (auto simp: Task_onInstrEnd_with_def Let_def
      intro!: okr_read [of "Task_getCPU t v" for v] okr_bindE okr_option okr_if okr_setWorkload nxt instr_rules)

lemma okr_Instr_schedule: "P w \<Longrightarrow> okr P (Instr_schedule n t w)"
proof (induction n arbitrary: w)
  case (Suc n)
  then show ?case
    by (auto simp: Let_def split: instr.split intro!: okr_option okr_if okr_requestResource okr_onInstrEnd_with
        okr_bindE okr_releaseResource okr_ExecInstr(1) instr_rules)
qed simp

lemma okr_onInstrEnd: "P w \<Longrightarrow> okr P (Task_onInstrEnd t w)"
  unfolding Task_onInstrEnd_def by (intro okr_onInstrEnd_with okr_Instr_schedule)

lemma okr_instr_events:
  assumes "P w"
  shows "okr P (ExecInstr_onEnd t i w)" and "okr P (SuspendInstr_onSuspend t i w)"
    and "okr P (SuspendInstr_onEnd t w)" and "okr P (Task_schedule_instr t w)"
  using assms by (auto simp: ExecInstr_onEnd_def SuspendInstr_onSuspend_def SuspendInstr_onEnd_def
      Task_schedule_instr_def intro!: okr_onInstrEnd okr_bindE okr_kernel_calls okr_Instr_schedule instr_rules)

lemma fold_reset: "P w \<Longrightarrow> P (fold (Instr_reset t) js w)"
  by (induction js arbitrary: w) (auto intro: okr_ExecInstr)

lemma okr_Task_deschedule: "P w \<Longrightarrow> okr P (Task_deschedule t w)"
  by (auto simp: Task_deschedule_def intro!: instr_rules)

lemma okr_sched_events:
  assumes "P w"
  shows "okr P (Task_onSched t w)" and "okr P (Task_onDesched t w)"
proof -
  show "okr P (Task_onSched t w)"
    using assms unfolding Task_onSched_def Let_def
    by (intro okr_read [of "index_of Task_getCPU t w"] okr_if okr_bindE
        okr_read [of "Task_getCPU t v" for v] okr_option okr_setWorkload okr_instr_events)
      (simp_all add: instr_rules)
  show "okr P (Task_onDesched t w)"
    using assms unfolding Task_onDesched_def Let_def
    by (intro okr_read [of "index_of Task_getOldCPU t w"] okr_if okr_bindE okr_ExecInstr)
      (simp_all add: instr_rules)
qed

lemma okr_finish_without:
  assumes "P w" and "\<And>v. P v \<Longrightarrow> \<not> Task_chkBuffArrival (tasks v t)"
  shows "okr P (Task_finish t w)"
proof -
  have if_not: "okr P (if c then x else y)" if "\<not> c" "okr P y" for c x and y :: "exc + world" using that by simp
  show ?thesis
    unfolding Task_finish_def Let_def using assms(1)
    by (auto intro!: okr_read [of "index_of g t v" for g v] okr_bindE if_not assms(2) okr_kernel_calls instr_rules
        simp del: if_split)
qed

end

locale one_task_frame = instr_frame +
  fixes t :: nat
  assumes task: "P w \<Longrightarrow> P (upd_task t ft w)"
    and arr_post: "P w \<Longrightarrow> okr P (Event_post (ArrEvt t) time d w)" "P w \<Longrightarrow> okr P (Event_post (FakeArrEvt t) time d w)"
    and arr_process: "P w \<Longrightarrow> okr P (Event_process (FakeArrEvt t) d w)"
begin

lemmas task_rules = task arr_post arr_process instr_rules

lemma okr_handleArrival: "P w \<Longrightarrow> okr P (Task_handleArrival t a w)"
  by (auto simp: Task_handleArrival_def Let_def intro!: okr_if fold_reset task_rules)

lemma okr_reactivate: "P w \<Longrightarrow> okr P (Task_reactivate t w)"
  by (auto simp: Task_reactivate_def Let_def split: prod.split intro!: okr_option okr_if task_rules)

lemma okr_finish: "P w \<Longrightarrow> okr P (Task_finish t w)"
  by (auto simp: Task_finish_def Let_def
      intro!: okr_read [of "index_of g t v" for g v] okr_bindE okr_if okr_kernel_calls task_rules)

lemma okr_killInstance: "P w \<Longrightarrow> okr P (Task_killInstance t w)"
  by (auto simp: Task_killInstance_def intro!: okr_bindE okr_whenE okr_Task_deschedule task_rules)

lemma Task_endRun: "P w \<Longrightarrow> P (Task_endRun t w)"
  by (simp add: Task_endRun_def task_rules)

lemma okr_getBuffArrival:
  "P w \<Longrightarrow> (\<And>a v. P v \<Longrightarrow> okr P (f a v)) \<Longrightarrow> okr P (bindE (Task_getBuffArrival t w) (\<lambda>(a, v). f a v))"
  by (auto simp: Task_getBuffArrival_def split: list.split intro: task_rules)

lemma okr_task_events:
  assumes "P w"
  shows "okr P (Task_onArrival t w)" and "okr P (Task_onEndInstance t w)" and "okr P (Task_onKill t w)"
    and "okr P (Task_onFakeArrival t w)" and "okr P (Task_onDead t w)"
proof -
  show "okr P (Task_onArrival t w)"
    using assms by (auto simp: Task_onArrival_def Task_buffArrival_def
        intro!: okr_bindE okr_if okr_handleArrival okr_reactivate okr_kernel_calls task_rules)
  show "okr P (Task_onEndInstance t w)" and "okr P (Task_onKill t w)"
    using assms by (auto simp: Task_onEndInstance_def Task_onKill_def Let_def
        intro!: okr_bindE okr_if okr_finish Task_endRun task_rules)
  show "okr P (Task_onFakeArrival t w)"
    using assms unfolding Task_onFakeArrival_def
    by (intro okr_getBuffArrival okr_bindE okr_handleArrival okr_kernel_calls)
  show "okr P (Task_onDead t w)"
    using assms by (auto simp: Task_onDead_def intro!: okr_if okr_killInstance)
qed

lemma okr_task_calls:
  assumes "P w"
  shows "okr P (Task_activate t time w)" and "okr P (Task_block t w)" and "okr P (Task_unblock t w)"
    and "okr P (Task_newRun t w)"
  using assms by (auto simp: Task_activate_def Task_block_def Task_unblock_def Task_newRun_def Let_def
      intro!: okr_bindE okr_if okr_kernel_calls task_rules)

end

locale task_frame = resource_frame +
  assumes any_task: "P w \<Longrightarrow> P (upd_task t ft w)"
    and any_cpu: "P w \<Longrightarrow> P (upd_cpu c fc w)"
    and any_arrival: "P w \<Longrightarrow> arrives e \<Longrightarrow> okr P (Event_post e time d w)"
    and fake_arrival: "P w \<Longrightarrow> okr P (Event_process (FakeArrEvt t) d w)"
begin

end

sublocale task_frame \<subseteq> instr_frame
  by unfold_locales (auto intro: any_task any_cpu)

sublocale task_frame \<subseteq> job: one_task_frame P t for t
  by unfold_locales (auto intro: any_task any_arrival fake_arrival)

interpretation task_at_time: task_frame "at_time T" for T
  by unfold_locales (auto intro: okr_post okr_process)

text \<open>The kernels, servers and resource managers change no field of a task but \<open>lastSched\<close>.\<close>

definition task_core :: "task \<Rightarrow> task" where
  "task_core k = k\<lparr>lastSched := 0\<rparr>"

interpretation kernel_tasks: kernel_frame "\<lambda>w. (\<lambda>t. task_core (tasks w t)) = K" for K
  by unfold_locales (auto simp: upd_defs okr_def same_objects_def task_core_def split: sum.split
      dest!: post_objects process_objects)

interpretation server_tasks: server_frame "\<lambda>w. (\<lambda>t. task_core (tasks w t)) = K" for K
  by unfold_locales (auto simp: upd_server_def okr_def same_objects_def split: sum.split dest!: post_objects)

interpretation resource_tasks: resource_frame "\<lambda>w. (\<lambda>t. task_core (tasks w t)) = K" for K
  by unfold_locales (simp_all add: upd_resman_def)

lemma task_core_fields:
  assumes "task_core k = task_core k'"
  shows "instrQueue k = instrQueue k'" and "actInstr k = actInstr k'" and "tstate k = tstate k'"
    and "tkernel k = tkernel k'" and "execdTime k = execdTime k'" and "arrQueue k = arrQueue k'"
    and "remaining_instrs k = remaining_instrs k'"
  using assms by (cases k; cases k'; simp add: task_core_def remaining_instrs_def)+

lemma keeps_tasks:
  assumes "\<And>K. (\<lambda>t. task_core (tasks w t)) = K \<Longrightarrow> okr (\<lambda>v. (\<lambda>t. task_core (tasks v t)) = K) r" and "r = Inr w'"
  shows "task_core (tasks w' t) = task_core (tasks w t)"
  using assms(1) [OF refl] assms(2) by (simp add: fun_eq_iff)

lemma request_tasks:
  "requestResource k a r n w = Inr (b, w') \<Longrightarrow> task_core (tasks w' t) = task_core (tasks w t)"
  using resource_tasks.requestResource_keeps [OF refl] by (simp add: fun_eq_iff)

lemma release_tasks:
  "releaseResource k a r n w = Inr w' \<Longrightarrow> task_core (tasks w' t) = task_core (tasks w t)"
  by (rule keeps_tasks [OF resource_tasks.okr_releaseResource])

lemma suspend_tasks: "kern_suspend k a w = Inr w' \<Longrightarrow> task_core (tasks w' t) = task_core (tasks w t)"
  by (rule keeps_tasks [OF server_tasks.okr_kern(2)])

lemma onArrival_tasks: "kern_onArrival k a w = Inr w' \<Longrightarrow> task_core (tasks w' t) = task_core (tasks w t)"
  by (rule keeps_tasks [OF server_tasks.okr_kern(4)])

lemma onEnd_tasks: "kern_onEnd k a w = Inr w' \<Longrightarrow> task_core (tasks w' t) = task_core (tasks w t)"
  by (rule keeps_tasks [OF server_tasks.okr_kern(5)])

section \<open>Concrete tasks\<close>

text \<open>
  At time 5 task 0, of relative deadline 20, executes since time 0 an instruction of cost 10 on the
  processor 0 of an \<open>RTKernel\<close>, whose speed is one half for every workload.
\<close>

definition exec_example :: exec_instr where
  "exec_example = (FixedInstr_ctor 10 ''bzip2'')\<lparr>currentCost := 10, executing := True\<rparr>"

definition task_example :: world where
  "task_example = Simulation_setTime 5 (result_world (steps
     [pureE (upd_rtk 0 (\<lambda>_. RTKernel_ctor 0 (Some 0))),
      pureE (upd_cpu 0 (\<lambda>_. CPU_ctor 0 (\<lambda>_. 1 / 2))),
      pureE (upd_task 0 (\<lambda>k. k\<lparr>instrQueue := [ExecInstr exec_example], tstate := TSK_EXEC, rdl := 20\<rparr>)),
      RTKernel_addTask 0 (TaskRef 0) None] empty_world))"

lemmas task_eval = resource_eval task_example_def exec_example_def FixedInstr_ctor_def ExecInstr_ctor_def
  DeltaVar_def CPU_ctor_def upd_cpu_def upd_instr_def upd_exec_def get_exec_def

section \<open>Properties\<close>

text \<open>
  The recursion of the model on the number of instructions left is the one of the code: scheduling
  the current instruction of a task that has one runs it, and when it completes at once goes on with
  \<open>Task::onInstrEnd\<close>, whatever the resource managers and kernels did in between; it never runs out.
\<close>

theorem instr_schedule_is_recursive:
  assumes "actInstr (tasks w t) < length (instrQueue (tasks w t))"
  shows "Task_schedule_instr t w =
    (let i = actInstr (tasks w t) in
     case instrQueue (tasks w t) ! i of
       ExecInstr e \<Rightarrow> ExecInstr_schedule t i w
     | SuspendInstr d \<Rightarrow> Event_process (SuspEvt t i) False w
     | WaitInstr r nr waiting \<Rightarrow>
         (case tkernel (tasks w t) of
            None \<Rightarrow> Inl (BaseExc ''WaitInstr: Kernel not found!'')
          | Some k \<Rightarrow>
              if findNonServerKernel k w = None then Inl (BaseExc ''WaitInstr: Kernel not found!'')
              else if \<not> waiting then
                bindE (requestResource k (TaskRef t) r nr w) (\<lambda>(acquired, w1).
                if acquired then Task_onInstrEnd t w1 else Inr (upd_instr t i (\<lambda>_. WaitInstr r nr True) w1))
              else Task_onInstrEnd t (upd_instr t i (\<lambda>_. WaitInstr r nr False) w))
     | SignalInstr r nr \<Rightarrow>
         (case tkernel (tasks w t) of
            None \<Rightarrow> Inl (BaseExc ''SignalInstr: Kernel not found!'')
          | Some k \<Rightarrow>
              if findNonServerKernel k w = None then Inl (BaseExc ''SignalInstr: Kernel not found!'')
              else bindE (releaseResource k (TaskRef t) r nr w) (Task_onInstrEnd t)))"
proof -
  obtain n where n: "remaining_instrs (tasks w t) = Suc n"
    using assms by (metis remaining_instrs_def Suc_diff_Suc)
  have same: "Task_onInstrEnd_with (Instr_schedule n t) t v = Task_onInstrEnd t v"
    if "task_core (tasks v t) = task_core (tasks w t)" for v
    using n task_core_fields(7) [OF that] by (simp add: Task_onInstrEnd_def)
  have instr: "Task_onInstrEnd_with (Instr_schedule n t) t (upd_instr t i f w) = Task_onInstrEnd t (upd_instr t i f w)" for i f
    using n by (simp add: Task_onInstrEnd_def remaining_instrs_def upd_instr_def upd_task_def)
  have req: "bindE (requestResource k a r nr w) (\<lambda>(b, v). if b then Task_onInstrEnd_with (Instr_schedule n t) t v else g v)
      = bindE (requestResource k a r nr w) (\<lambda>(b, v). if b then Task_onInstrEnd t v else g v)" for k a r nr g
    by (rule bindE_cong) (auto simp: same request_tasks)
  have rel: "bindE (releaseResource k a r nr w) (Task_onInstrEnd_with (Instr_schedule n t) t)
      = bindE (releaseResource k a r nr w) (Task_onInstrEnd t)" for k a r nr
    by (rule bindE_cong) (auto simp: same release_tasks)
  show ?thesis
    by (simp add: Task_schedule_instr_def n Let_def req rel instr cong: instr.case_cong option.case_cong if_cong)
qed

lemma instr_schedule_is_recursive_witness:
  "let w = upd_task 0 (\<lambda>k. k\<lparr>instrQueue := [SuspendInstr 3]\<rparr>) empty_world
   in Task_schedule_instr 0 w = Event_process (SuspEvt 0 0) False w"
proof -
  let ?w = "upd_task 0 (\<lambda>k. k\<lparr>instrQueue := [SuspendInstr 3]\<rparr>) empty_world"
  have "actInstr (tasks ?w 0) = 0" "instrQueue (tasks ?w 0) = [SuspendInstr 3]"
    by (simp_all add: upd_task_def empty_world_def Task_ctor_def)
  with instr_schedule_is_recursive [of ?w 0] show ?thesis by (simp add: Let_def)
qed

lemma get_exec_upd:
  "i < length (instrQueue (tasks w t)) \<Longrightarrow> get_exec (upd_exec t i f w) t i = map_option f (get_exec w t i)"
  by (auto simp: get_exec_def upd_exec_def upd_instr_def upd_task_def split: instr.split)

lemma get_exec_frames [simp]:
  "get_exec (Event_drop e w) t i = get_exec w t i" "get_exec (upd_cpu c f w) t i = get_exec w t i"
  "instrQueue (tasks (upd_cpu c f w) t) = instrQueue (tasks w t)"
  by (simp_all add: get_exec_def upd_cpu_def)

lemma upd_exec_instrs [simp]: "length (instrQueue (tasks (upd_exec t i f w) t)) = length (instrQueue (tasks w t))"
  by (simp add: upd_exec_def upd_instr_def upd_task_def)

lemma getOldCPU_drop [simp]: "Task_getOldCPU t (Event_drop e w) = Task_getOldCPU t w"
  by (simp add: Task_getOldCPU_def kern_getOldProcessor_def root_getOldProcessor_def Server_getOldProcessor_def
      RTKernel_getOldProcessor_def MRTKernel_getOldProcessor_def split: option.split kernref.split rtkref.split)

text \<open>
  C16. What a preemption costs an \<open>ExecInstr\<close>.  An instruction of cost \<open>C\<close> on a processor of speed \<open>s\<close> that
  is descheduled after \<open>d\<close> ticks and scheduled again ends after \<open>C / s + d * (1 - idle)\<close> ticks in all, rounded
  up, where \<open>idle\<close> is the speed of the workload \<open>"idle"\<close>: \<open>deschedule\<close> reads the speed after it has set
  that workload.  So the execution time is the \<open>C / s\<close> it should be when \<open>idle\<close> is one, and not else.
\<close>

theorem exec_instr_preempted:
  assumes "get_exec w t i = Some e" and "i < length (instrQueue (tasks w t))" and "executing e"
    and "Task_getOldCPU t w = Inr (Some c)" and "\<not> cpu_disabled (cpus w c)"
    and "actCycles e = 0" and "0 < s"
  defines "d \<equiv> globTime w - ei_lastTime e" and "idle \<equiv> cpu_speedOf (cpus w c) ''idle''"
  assumes "of_int d * idle * s < of_int (currentCost e)"
  shows "\<exists>w' e'. ExecInstr_deschedule t i w = Inr w' \<and> get_exec w' t i = Some e' \<and> \<not> executing e' \<and>
    ei_execdTime e' = ei_execdTime e + d \<and>
    (\<exists>rest. ExecInstr_remaining s e' = Inr rest \<and> d + rest = \<lceil>of_int (currentCost e) / s + of_int d * (1 - idle)\<rceil>)"
proof -
  let ?w1 = "Event_drop (EndInstrEvt t i) w"
  let ?w2 = "upd_cpu c (\<lambda>x. CPU_updateModel (x\<lparr>cpu_workload := ''idle''\<rparr>)) ?w1"
  let ?f = "\<lambda>e. e\<lparr>actCycles := actCycles e + of_int (globTime w - ei_lastTime e) * idle,
                 ei_execdTime := ei_execdTime e + (globTime w - ei_lastTime e), ei_lastTime := globTime w\<rparr>"
  let ?w3 = "upd_exec t i ?f ?w2" and ?w' = "upd_exec t i (\<lambda>e. e\<lparr>executing := False\<rparr>) (upd_exec t i ?f ?w2)"
  let ?e' = "(?f e)\<lparr>executing := False\<rparr>"
  have speed: "CPU_getSpeed (cpus ?w2 c) = idle"
    using assms(5) by (simp add: upd_cpu_def CPU_getSpeed_def CPU_updateModel_def CPU_getWorkload_def idle_def)
  have run: "ExecInstr_deschedule t i w = Inr ?w'"
    using assms(1,3-5) speed
    by (simp add: ExecInstr_deschedule_def CPU_setWorkload_def Let_def)
  have e': "get_exec ?w' t i = Some ?e'"
    using assms(1,2) by (simp add: get_exec_upd)
  have act: "actCycles ?e' = of_int d * idle" "currentCost ?e' = currentCost e"
    using assms(6) by (simp_all add: d_def)
  have "of_int (currentCost e) - of_int d * idle * s > 0" using assms(10) by simp
  then have pos: "0 \<le> \<lceil>(of_int (currentCost e) - of_int d * idle * s) / s\<rceil>"
    using assms(7) by (simp add: zero_le_ceiling order_less_trans [OF _ divide_pos_pos])
  then have rest: "ExecInstr_remaining s ?e' = Inr \<lceil>(of_int (currentCost e) - of_int d * idle * s) / s\<rceil>"
    unfolding ExecInstr_remaining_def act using assms(7,10) by simp
  have "(of_int (currentCost e) - of_int d * idle * s) / s = of_int (currentCost e) / s + of_int d * (1 - idle) - of_int d"
    using assms(7) by (simp add: field_simps)
  then have "d + \<lceil>(of_int (currentCost e) - of_int d * idle * s) / s\<rceil>
      = \<lceil>of_int (currentCost e) / s + of_int d * (1 - idle)\<rceil>"
    by (simp only: ceiling_diff_of_int)
  with rest have "\<exists>rest. ExecInstr_remaining s ?e' = Inr rest \<and> d + rest = \<lceil>of_int (currentCost e) / s + of_int d * (1 - idle)\<rceil>"
    by blast
  moreover have "\<not> executing ?e'" "ei_execdTime ?e' = ei_execdTime e + d" by (simp_all add: d_def)
  ultimately show ?thesis using run e' by blast
qed

theorem exec_instr_preempted_witness:
  "\<exists>w' e' rest. ExecInstr_deschedule 0 0 task_example = Inr w' \<and> get_exec w' 0 0 = Some e' \<and>
     ExecInstr_remaining (1 / 2) e' = Inr rest \<and> 5 + rest = 23"
proof -
  have "get_exec task_example 0 0 = Some exec_example" "0 < length (instrQueue (tasks task_example 0))"
    "executing exec_example" "Task_getOldCPU 0 task_example = Inr (Some 0)"
    "\<not> cpu_disabled (cpus task_example 0)" "actCycles exec_example = 0" "(0::rat) < 1 / 2"
    "of_int (globTime task_example - ei_lastTime exec_example) * cpu_speedOf (cpus task_example 0) ''idle'' * (1 / 2 :: rat)
       < of_int (currentCost exec_example)"
    and now: "globTime task_example - ei_lastTime exec_example = 5" "currentCost exec_example = 10"
      "cpu_speedOf (cpus task_example 0) ''idle'' = 1 / 2"
    by (simp_all add: task_eval Task_getOldCPU_def kern_getOldProcessor_def root_getOldProcessor_def
        RTKernel_getOldProcessor_def)
  moreover have "\<lceil>45 / 2 :: rat\<rceil> = 23" by (simp add: ceiling_eq_iff)
  ultimately show ?thesis
    using exec_instr_preempted [of task_example 0 0 exec_example 0 "1 / 2"] by (auto simp: now)
qed

lemma reset_frame:
  "globTime (Instr_reset t i w) = globTime w \<and> evs (Instr_reset t i w) (DeadEvt u) = evs w (DeadEvt u) \<and>
   (\<exists>q. tasks (Instr_reset t i w) t = (tasks w t)\<lparr>instrQueue := q\<rparr>)"
proof (cases "instrQueue (tasks w t) ! i")
  case (ExecInstr e)
  then show ?thesis
    by (auto simp: Instr_reset_def ExecInstr_reset_def upd_exec_def upd_instr_def upd_task_def intro: exI [of _ "instrQueue (tasks w t)"])
next
  case WaitInstr
  then show ?thesis by (auto simp: Instr_reset_def intro: exI [of _ "instrQueue (tasks w t)"])
next
  case SignalInstr
  then show ?thesis by (auto simp: Instr_reset_def intro: exI [of _ "instrQueue (tasks w t)"])
next
  case SuspendInstr
  then show ?thesis by (auto simp: Instr_reset_def intro: exI [of _ "instrQueue (tasks w t)"])
qed

lemma fold_reset_frame:
  "globTime (fold (Instr_reset t) js w) = globTime w \<and> evs (fold (Instr_reset t) js w) (DeadEvt u) = evs w (DeadEvt u) \<and>
   (\<exists>q. tasks (fold (Instr_reset t) js w) t = (tasks w t)\<lparr>instrQueue := q\<rparr>)"
proof (induction js arbitrary: w)
  case Nil
  show ?case by (auto intro: exI [of _ "instrQueue (tasks w t)"])
next
  case (Cons i js)
  from Cons [of "Instr_reset t i w"] reset_frame [of t i w u] show ?case by auto
qed

text \<open>What the reset of an instruction leaves of it, and the reset of all of them one after the other.\<close>

definition instr_afresh :: "instr \<Rightarrow> instr" where
  "instr_afresh ins = (case ins of
      ExecInstr e \<Rightarrow> ExecInstr (e\<lparr>actCycles := 0, ei_lastTime := 0, isBegOfInstr := True, ei_execdTime := 0\<rparr>)
    | _ \<Rightarrow> ins)"

definition is_exec :: "instr \<Rightarrow> bool" where
  "is_exec ins = (case ins of ExecInstr _ \<Rightarrow> True | _ \<Rightarrow> False)"

lemma list_update_id': "xs ! i = x \<Longrightarrow> xs[i := x] = xs"
  by (metis list_update_id)

lemma reset_effect:
  assumes "i < length (instrQueue (tasks w t))"
  shows "instrQueue (tasks (Instr_reset t i w) t) = (instrQueue (tasks w t))[i := instr_afresh (instrQueue (tasks w t) ! i)]
     \<and> (\<forall>j. ev_isInQueue (evs (Instr_reset t i w) (EndInstrEvt t j))
          \<longleftrightarrow> ev_isInQueue (evs w (EndInstrEvt t j)) \<and> \<not> (j = i \<and> is_exec (instrQueue (tasks w t) ! i)))"
  using assms by (cases "instrQueue (tasks w t) ! i")
    (auto simp: Instr_reset_def ExecInstr_reset_def upd_exec_def upd_instr_def upd_task_def instr_afresh_def
       is_exec_def Event_drop_def upd_event_def list_update_id')

lemma fold_reset_effect:
  "n \<le> length (instrQueue (tasks w t)) \<Longrightarrow>
     instrQueue (tasks (fold (Instr_reset t) [0..<n] w) t)
       = map instr_afresh (take n (instrQueue (tasks w t))) @ drop n (instrQueue (tasks w t))
   \<and> (\<forall>j<n. is_exec (instrQueue (tasks w t) ! j)
         \<longrightarrow> \<not> ev_isInQueue (evs (fold (Instr_reset t) [0..<n] w) (EndInstrEvt t j)))"
proof (induction n)
  case (Suc n)
  let ?q = "instrQueue (tasks w t)" and ?w = "fold (Instr_reset t) [0..<n] w"
  have n: "n < length ?q" using Suc.prems by simp
  have q: "instrQueue (tasks ?w t) = map instr_afresh (take n ?q) @ drop n ?q"
    and dropped: "\<forall>j<n. is_exec (?q ! j) \<longrightarrow> \<not> ev_isInQueue (evs ?w (EndInstrEvt t j))"
    using Suc by simp_all
  have at: "instrQueue (tasks ?w t) ! n = ?q ! n" and len: "length (instrQueue (tasks ?w t)) = length ?q"
    using n by (simp_all add: q nth_append)
  have "(map instr_afresh (take n ?q) @ drop n ?q)[n := instr_afresh (?q ! n)]
      = map instr_afresh (take (Suc n) ?q) @ drop (Suc n) ?q"
    using n by (simp add: list_update_append take_Suc_conv_app_nth Cons_nth_drop_Suc [symmetric])
  with reset_effect [of n ?w t] n at len q dropped show ?case by (auto simp: less_Suc_eq)
qed simp



lemma pl_insert_mem: "pl_insert lt x xs = (q, True) \<Longrightarrow> x \<in> set q"
proof -
  have "snd (pl_insert lt x xs) \<Longrightarrow> x \<in> set (fst (pl_insert lt x xs))"
    by (induction xs) auto
  then show "pl_insert lt x xs = (q, True) \<Longrightarrow> x \<in> set q" by simp
qed

lemma post_queued: "Event_post e t d w = Inr w' \<Longrightarrow> e \<in> set (eventQueue w')"
  by (auto simp: Event_post_def Event_setTime_def Let_def bindE_eq_Inr upd_event_def split: if_splits prod.splits
      dest: pl_insert_mem)

lemma getProcessor_None_aux:
  "foldl (\<lambda>ret c. if f c = Some a then Some c else ret) r cs = None \<longleftrightarrow> r = None \<and> (\<forall>c\<in>set cs. f c \<noteq> Some a)"
  by (induction cs arbitrary: r) auto

lemma getProcessor_None:
  "MRTKernel_getProcessor k a w = None \<longleftrightarrow> (\<forall>c\<in>set (mk_cpus (mrtks w k)). mk_currExe (mrtks w k) c \<noteq> Some a)"
  by (simp add: MRTKernel_getProcessor_def getProcessor_None_aux)

lemma dispatch_cpu_currExe:
  "MRTKernel_dispatch_cpu k p w = Inr w' \<Longrightarrow>
   mk_currExe (mrtks w' k) = mk_currExe (mrtks w k) \<and> mk_cpus (mrtks w' k) = mk_cpus (mrtks w k)"
  by (auto simp: MRTKernel_dispatch_cpu_def Let_def bindE_eq_Inr same_objects_def split: if_splits option.splits
      dest!: post_objects)

lemma mrt_suspend_not_running:
  assumes "mrt_inv k w" and "MRTKernel_suspend k a w = Inr w'"
  shows "MRTKernel_getProcessor k a w' = None"
proof -
  obtain w1 where w1: "Scheduler_extract (mk_sched (mrtks w k)) a w = Inr w1"
    using assms(2) by (auto simp: MRTKernel_suspend_def bindE_eq_Inr)
  then have ok: "mrt_ok (mrtks w1 k)" using assms(1) by (metis extract_mrtks mrt_inv_def)
  show ?thesis
  proof (cases "MRTKernel_getProcessor k a w1")
    case None
    with w1 assms(2) show ?thesis by (simp add: MRTKernel_suspend_def)
  next
    case (Some p)
    with w1 assms(2) obtain w2 where w2: "absTask_deschedule a w1 = Inr w2"
      and disp: "MRTKernel_dispatch_cpu k p
           (upd_mrtk k (\<lambda>x. x\<lparr>mk_currExe := (mk_currExe x)(p := None), mk_oldExe := (mk_oldExe x)(a := Some p),
              mk_dispatched := (mk_dispatched x)(a := None)\<rparr>) w2) = Inr w'"
      by (auto simp: MRTKernel_suspend_def bindE_eq_Inr)
    have "mrtks w2 = mrtks w1" using absTask_deschedule_objects [OF w2] by (simp add: same_objects_def)
    with dispatch_cpu_currExe [OF disp] mrt_ok_one_cpu [OF ok getProcessor_runs [OF Some]]
    show ?thesis by (auto simp: getProcessor_None)
  qed
qed

text \<open>
  A \<open>SuspendInstr\<close> cannot end on an \<open>MRTKernel\<close>: suspending the task takes it off its processor, and
  \<open>onEnd\<close> calls \<open>Task::onInstrEnd\<close>, which throws when the task is on none, before it makes the task ready again.
\<close>

theorem suspended_task_cannot_resume:
  assumes "mrt_inv k w" and "tkernel (tasks w t) = Some (KRoot (MRTK k))" and "tstate (tasks w t) \<noteq> TSK_IDLE"
    and "SuspendInstr_onSuspend t i w = Inr w'"
  shows "MRTKernel_getProcessor k (TaskRef t) w' = None \<and> ResumeEvt t i \<in> set (eventQueue w') \<and>
    SuspendInstr_onEnd t w' = Inl (InstrExc ''No CPU!'')"
proof -
  obtain w1 time where susp: "kern_suspend (KRoot (MRTK k)) (TaskRef t) w = Inr w1"
    and post: "Event_post (ResumeEvt t i) time False w1 = Inr w'"
    using assms(2,4) by (auto simp: SuspendInstr_onSuspend_def Task_with_kernel_def bindE_eq_Inr)
  have same: "tasks w' = tasks w1" "mrtks w' = mrtks w1"
    using post_objects [OF post] by (auto simp: same_objects_def)
  have "MRTKernel_getProcessor k (TaskRef t) w1 = None"
    using mrt_suspend_not_running [OF assms(1)] susp by (simp add: kern_suspend_def root_suspend_def)
  then have off: "MRTKernel_getProcessor k (TaskRef t) w' = None"
    by (simp add: getProcessor_None same)
  have core: "task_core (tasks w' t) = task_core (tasks w t)"
    using suspend_tasks [OF susp] same by simp
  have active: "Task_isActive (tasks w' t)" and kern: "tkernel (tasks w' t) = Some (KRoot (MRTK k))"
    using task_core_fields [OF core] assms(2,3) by (simp_all add: Task_isActive_def)
  then have "Task_getCPU t w' = Inr None"
    using off by (simp add: Task_getCPU_def kern_getProcessor_def root_getProcessor_def)
  with active have "SuspendInstr_onEnd t w' = Inl (InstrExc ''No CPU!'')"
    by (simp add: SuspendInstr_onEnd_def Task_onInstrEnd_def Task_onInstrEnd_with_def)
  moreover have "ResumeEvt t i \<in> set (eventQueue w')"
    using post by (rule post_queued)
  ultimately show ?thesis using off by blast
qed

text \<open>
  A kill ends with \<open>endRun\<close>, which drops the arrival event that carries the next period, the buffered
  arrivals and the fake arrival posted for them.
\<close>

lemma kill_drops_arrivals:
  assumes "Task_onKill t w = Inr w'"
  shows "ArrEvt t \<notin> set (eventQueue w') \<and> FakeArrEvt t \<notin> set (eventQueue w') \<and>
    arrQueue (tasks w' t) = [] \<and> tstate (tasks w' t) = TSK_IDLE"
proof -
  obtain w1 v where fin: "Task_finish t v = Inr w1" and w': "w' = Task_endRun t w1"
    using assms by (auto simp: Task_onKill_def bindE_eq_Inr)
  from fin have "tstate (tasks w1 t) = TSK_IDLE"
    by (auto simp: Task_finish_def bindE_eq_Inr Let_def upd_task_def same_objects_def split: if_splits
        dest!: process_objects)
  then have "tstate (tasks w' t) = TSK_IDLE" "arrQueue (tasks w' t) = []"
    by (simp_all add: w' Task_endRun_def upd_task_def)
  moreover have "ArrEvt t \<notin> set (eventQueue w')" "FakeArrEvt t \<notin> set (eventQueue w')"
    unfolding w' Task_endRun_def by (metis drop_not_in_queue drop_subset subsetD)+
  ultimately show ?thesis by blast
qed

lemma buffArrival_tasks:
  "arrQueue (tasks (Task_buffArrival t (Simulation_setTime T w)) t) =
    (if int (length (arrQueue (tasks w t))) \<le> arrQueueSize (tasks w t)
     then arrQueue (tasks w t) @ [T] else arrQueue (tasks w t))"
  "arrQueueSize (tasks (Task_buffArrival t (Simulation_setTime T w)) t) = arrQueueSize (tasks w t)"
  by (simp_all add: Task_buffArrival_def upd_task_def Simulation_setTime_def)

lemma buffArrival_fold:
  "length (arrQueue (tasks w t)) \<le> nat (arrQueueSize (tasks w t) + 1) \<Longrightarrow>
   arrQueue (tasks (fold (\<lambda>T v. Task_buffArrival t (Simulation_setTime T v)) ts w) t)
     = take (nat (arrQueueSize (tasks w t) + 1)) (arrQueue (tasks w t) @ ts)"
proof (induction ts arbitrary: w)
  case (Cons T ts)
  let ?v = "Task_buffArrival t (Simulation_setTime T w)"
  have "length (arrQueue (tasks ?v t)) \<le> nat (arrQueueSize (tasks ?v t) + 1)"
    using Cons.prems by (auto simp: buffArrival_tasks)
  moreover have "nat (arrQueueSize (tasks w t) + 1) - length (arrQueue (tasks w t))
      = Suc (nat (arrQueueSize (tasks w t) + 1) - Suc (length (arrQueue (tasks w t))))"
    if "int (length (arrQueue (tasks w t))) \<le> arrQueueSize (tasks w t)"
    using that by linarith
  ultimately show ?case
    using Cons.IH [of ?v] Cons.prems by (auto simp: buffArrival_tasks)
qed simp

text \<open>
  The buffer of arrivals holds one more than \<open>arrQueueSize\<close>: of the arrivals at the times \<open>ts\<close> of a task
  that stays active it keeps the first \<open>arrQueueSize + 1\<close> in their order, and loses the others.
\<close>

theorem buffer_holds_one_more:
  assumes "arrQueue (tasks w t) = []"
  shows "arrQueue (tasks (fold (\<lambda>T v. Task_buffArrival t (Simulation_setTime T v)) ts w) t)
     = take (nat (arrQueueSize (tasks w t) + 1)) ts"
  using buffArrival_fold [of w t ts] assms by simp

lemma buffer_holds_one_more_witness:
  "arrQueue (tasks (fold (\<lambda>T v. Task_buffArrival 0 (Simulation_setTime T v)) [6, 7, 8, 9]
     (upd_task 0 (\<lambda>k. k\<lparr>arrQueueSize := 1\<rparr>) task_example)) 0) = [6, 7]"
proof -
  let ?w = "upd_task 0 (\<lambda>k. k\<lparr>arrQueueSize := 1\<rparr>) task_example"
  have "arrQueue (tasks ?w 0) = []" "arrQueueSize (tasks ?w 0) = 1" by (simp_all add: task_eval)
  with buffer_holds_one_more [of ?w 0 "[6, 7, 8, 9]"] show ?thesis by (simp add: numeral_2_eq_2)
qed

lemma ExecInstr_deschedule_effect:
  assumes "ExecInstr_deschedule t i w = Inr w'" and "get_exec w t i = Some e" and "executing e"
    and "i < length (instrQueue (tasks w t))"
  shows "\<exists>e'. tasks w' t = (tasks w t)\<lparr>instrQueue := (instrQueue (tasks w t))[i := ExecInstr e']\<rparr> \<and>
    \<not> executing e' \<and> ei_execdTime e' = ei_execdTime e + (globTime w - ei_lastTime e) \<and> globTime w' = globTime w"
proof -
  have ins: "instrQueue (tasks w t) ! i = ExecInstr e"
    using assms(2) by (simp add: get_exec_def split: instr.splits)
  obtain c g where w': "w' = upd_exec t i (\<lambda>e. e\<lparr>executing := False\<rparr>) (upd_exec t i (\<lambda>e. e\<lparr>actCycles := actCycles e + g e,
       ei_execdTime := ei_execdTime e + (globTime w - ei_lastTime e), ei_lastTime := globTime w\<rparr>)
       (upd_cpu c (\<lambda>x. CPU_updateModel (x\<lparr>cpu_workload := ''idle''\<rparr>)) (Event_drop (EndInstrEvt t i) w)))"
    using assms(1-3) by (auto simp: ExecInstr_deschedule_def bindE_eq_Inr Let_def CPU_setWorkload_def
        split: option.splits if_splits)
  show ?thesis
    using assms(4) ins
    by (intro exI [of _ "e\<lparr>actCycles := actCycles e + g e, ei_execdTime := ei_execdTime e + (globTime w - ei_lastTime e),
         ei_lastTime := globTime w, executing := False\<rparr>"])
      (simp add: w' upd_exec_def upd_instr_def upd_task_def upd_cpu_def)
qed

text \<open>
  A preemption is counted twice in the execution time of a task: when an \<open>ExecInstr\<close> is descheduled
  all it has executed is added to \<open>execdTime\<close>, and when it ends later all it has executed is added again.
\<close>

theorem execdTime_counts_twice:
  assumes "Task_onDesched t w = Inr w'" and "get_exec w t (actInstr (tasks w t)) = Some e" and "executing e"
    and "actInstr (tasks w t) < length (instrQueue (tasks w t))"
  shows "\<exists>e'. get_exec w' t (actInstr (tasks w t)) = Some e' \<and> actInstr (tasks w' t) = actInstr (tasks w t) \<and>
    execdTime (tasks w' t) = execdTime (tasks w t) + ei_execdTime e' \<and>
    ei_execdTime e' = ei_execdTime e + (globTime w - ei_lastTime e) \<and>
    Task_getExecTime (globTime w') (tasks w' t) = execdTime (tasks w t) + 2 * ei_execdTime e'"
proof -
  let ?i = "actInstr (tasks w t)"
  obtain c w2 where desched: "Instr_deschedule t ?i (Event_drop (EndEvt t) (upd_task t (\<lambda>k. k\<lparr>deschedEvt_cpu := c\<rparr>) w)) = Inr w2"
    and w': "w' = upd_task t (\<lambda>k. k\<lparr>execdTime := execdTime k + Instr_getExecTime (globTime w2) (instrQueue k ! ?i),
                                   tstate := TSK_READY\<rparr>) w2"
    using assms(1) by (auto simp: Task_onDesched_def bindE_eq_Inr Let_def upd_task_def split: if_splits)
  let ?w1 = "Event_drop (EndEvt t) (upd_task t (\<lambda>k. k\<lparr>deschedEvt_cpu := c\<rparr>) w)"
  have w1: "tasks ?w1 t = (tasks w t)\<lparr>deschedEvt_cpu := c\<rparr>" "globTime ?w1 = globTime w" by (simp_all add: upd_task_def)
  have "instrQueue (tasks w t) ! ?i = ExecInstr e"
    using assms(2) by (simp add: get_exec_def split: instr.splits)
  then have e: "get_exec ?w1 t ?i = Some e" and run: "ExecInstr_deschedule t ?i ?w1 = Inr w2"
    using desched assms(4) by (simp_all add: get_exec_def Instr_deschedule_def w1 del: drop_objects)
  from ExecInstr_deschedule_effect [OF run e assms(3)] assms(4) obtain e' where
    w2: "tasks w2 t = (tasks w t)\<lparr>deschedEvt_cpu := c, instrQueue := (instrQueue (tasks w t))[?i := ExecInstr e']\<rparr>"
    and e': "\<not> executing e'" "ei_execdTime e' = ei_execdTime e + (globTime w - ei_lastTime e)"
    and "globTime w2 = globTime w"
    by (auto simp: w1 simp del: drop_objects)
  with assms(4) show ?thesis
    by (simp add: w' upd_task_def get_exec_def Instr_getExecTime_def ExecInstr_getExecTime_def
        Task_getExecTime_def Task_isActive_def)
qed

lemma execdTime_counts_twice_witness:
  "\<exists>w'. Task_onDesched 0 task_example = Inr w' \<and> Task_getExecTime (globTime w') (tasks w' 0) = 10"
proof -
  have "\<exists>w'. Task_onDesched 0 task_example = Inr w'"
    by (simp add: task_eval Task_onDesched_def index_of_def Task_getOldCPU_def kern_getOldProcessor_def
        root_getOldProcessor_def RTKernel_getOldProcessor_def Instr_deschedule_def ExecInstr_deschedule_def
        Event_drop_def pl_erase_def CPU_setWorkload_def Task_isActive_def Task_isExecuting_def)
  then obtain w' where run: "Task_onDesched 0 task_example = Inr w'" ..
  have "get_exec task_example 0 (actInstr (tasks task_example 0)) = Some exec_example" "executing exec_example"
    "actInstr (tasks task_example 0) < length (instrQueue (tasks task_example 0))"
    "execdTime (tasks task_example 0) = 0" "ei_execdTime exec_example = 0" "ei_lastTime exec_example = 0"
    "globTime task_example = 5"
    by (simp_all add: task_eval)
  with execdTime_counts_twice [OF run] run show ?thesis by auto
qed

text \<open>Task 0 of the example moved to an \<open>MRTKernel\<close> with one processor, at a \<open>SuspendInstr\<close> of 3 ticks.\<close>

definition suspend_example :: world where
  "suspend_example = result_world (steps
     [pureE (upd_mrtk 0 (\<lambda>_. (MRTKernel_ctor 0 [0])\<lparr>mk_handled := [TaskRef 0], mk_currExe := (\<lambda>_. None)(0 := Some (TaskRef 0)),
         mk_dispatched := (\<lambda>_. None)(TaskRef 0 := Some 0)\<rparr>)),
      pureE (upd_task 0 (\<lambda>k. k\<lparr>instrQueue := [SuspendInstr 3], tkernel := Some (KRoot (MRTK 0))\<rparr>))] task_example)"

lemma suspended_task_cannot_resume_witness:
  "\<exists>w'. SuspendInstr_onSuspend 0 0 suspend_example = Inr w' \<and> SuspendInstr_onEnd 0 w' = Inl (InstrExc ''No CPU!'')"
proof -
  have "mrt_inv 0 suspend_example"
    by (simp add: suspend_example_def task_eval mrt_inv_def mrt_ok_def)
  moreover have "tkernel (tasks suspend_example 0) = Some (KRoot (MRTK 0))" "tstate (tasks suspend_example 0) \<noteq> TSK_IDLE"
    by (simp_all add: suspend_example_def task_eval)
  moreover have "\<exists>w'. SuspendInstr_onSuspend 0 0 suspend_example = Inr w'"
    by (simp add: suspend_example_def task_eval SuspendInstr_onSuspend_def Task_with_kernel_def MRTKernel_suspend_def
        MRTKernel_getProcessor_def absTask_deschedule_def Task_deschedule_def Event_process_def Event_drop_def
        pl_erase_def MRTKernel_dispatch_cpu_def instr_delay_def Event_setPriority_def)
  ultimately show ?thesis using suspended_task_cannot_resume [of 0 suspend_example 0 0] by blast
qed

end
