(* ===== verification/Program.thy ===== *)
theory Program
  imports RTTask_Laws
begin

text \<open>
  The simulator put together: \<open>doit\<close> of every event calls the handler it was constructed with, and
  \<open>callNewRun\<close> and \<open>callEndRun\<close> of \<open>Entity\<close> call the methods of the entities in the order of their
  identifiers.  The engine of \<open>Engine\<close> runs on these.
\<close>

section \<open>Events\<close>

definition doit :: "evt \<Rightarrow> world \<Rightarrow> exc + world" where
  "doit e = (case e of
      ArrEvt t \<Rightarrow> Task_onArrival t
    | EndEvt t \<Rightarrow> Task_onEndInstance t
    | KillEvt t \<Rightarrow> Task_onKill t
    | SchedEvt t \<Rightarrow> Task_onSched t
    | DeschedEvt t \<Rightarrow> Task_onDesched t
    | FakeArrEvt t \<Rightarrow> Task_onFakeArrival t
    | DeadEvt t \<Rightarrow> Task_onDead t
    | EndInstrEvt t i \<Rightarrow> ExecInstr_onEnd t i
    | SuspEvt t i \<Rightarrow> SuspendInstr_onSuspend t i
    | ResumeEvt t i \<Rightarrow> SuspendInstr_onEnd t
    | BeginDispatchEvt k \<Rightarrow> RTKernel_onBeginDispatch k
    | EndDispatchEvt k \<Rightarrow> RTKernel_onEndDispatch k
    | BeginDispatchMultiEvt k c \<Rightarrow> MRTKernel_onBeginDispatchMulti k c
    | EndDispatchMultiEvt k c \<Rightarrow> MRTKernel_onEndDispatchMulti k c
    | RREvt s \<Rightarrow> RRScheduler_round kern_dispatch s
    | BandExEvt s \<Rightarrow> Server_onBudgetExhausted s
    | DlineMissEvt s \<Rightarrow> Server_onDlineMiss s
    | RechargingEvt s \<Rightarrow> Server_onRecharging s
    | SrvSchedEvt s \<Rightarrow> Server_onSched s
    | SrvDeschedEvt s \<Rightarrow> CBServer_onDesched s
    | SrvDispatchEvt s \<Rightarrow> Server_onDispatch s
    | ReplEvt s \<Rightarrow> CBServer_onReplenishment s
    | IdleEvt s \<Rightarrow> CBServer_onIdle s)"

section \<open>Entities\<close>

datatype entity = TaskEnt nat | InstrEnt nat nat | RTKernelEnt nat | MRTKernelEnt nat | SchedulerEnt nat
  | CBServerEnt nat | CapacityTimerEnt nat | ResourceEnt nat string | ResManEnt nat | CPUEnt nat

definition entity_newRun :: "entity \<Rightarrow> world \<Rightarrow> exc + world" where
  "entity_newRun x = (case x of
      TaskEnt t \<Rightarrow> Task_newRun t
    | InstrEnt t i \<Rightarrow> pureE (upd_instr t i Instr_newRun)
    | RTKernelEnt k \<Rightarrow> pureE (RTKernel_newRun k)
    | MRTKernelEnt k \<Rightarrow> MRTKernel_newRun k
    | SchedulerEnt s \<Rightarrow> pureE (Scheduler_newRun s)
    | CBServerEnt s \<Rightarrow> CBServer_newRun s
    | CapacityTimerEnt s \<Rightarrow> pureE (upd_server s (\<lambda>x. x\<lparr>cbs_vtime := CapacityTimer_newRun (cbs_vtime x)\<rparr>))
    | ResourceEnt m r \<Rightarrow> pureE (upd_resource m r Resource_newRun)
    | ResManEnt m \<Rightarrow> pureE (FCFSResManager_newRun m)
    | CPUEnt c \<Rightarrow> CPU_setWorkload c ''idle'')"

definition entity_endRun :: "entity \<Rightarrow> world \<Rightarrow> exc + world" where
  "entity_endRun x = (case x of
      TaskEnt t \<Rightarrow> pureE (Task_endRun t)
    | InstrEnt t i \<Rightarrow> pureE (Instr_endRun t i)
    | RTKernelEnt k \<Rightarrow> pureE (RTKernel_endRun k)
    | MRTKernelEnt k \<Rightarrow> MRTKernel_endRun k
    | _ \<Rightarrow> Inr)"

definition callNewRun :: "entity list \<Rightarrow> world \<Rightarrow> exc + world" where
  "callNewRun es = steps (map entity_newRun es)"

definition callEndRun :: "entity list \<Rightarrow> world \<Rightarrow> exc + world" where
  "callEndRun es = steps (map entity_endRun es)"

text \<open>The hooks of \<open>run\<close> for a simulation with the entities \<open>es\<close> and no statistics.\<close>

definition entity_hooks :: "entity list \<Rightarrow> world run_hooks" where
  "entity_hooks es = \<lparr>hook_callNewRun = callNewRun es, hook_callEndRun = callEndRun es, hook_statInit = (\<lambda>_. Inr),
     hook_statNewRun = Inr, hook_statEndRun = Inr, hook_statEndSim = Inr\<rparr>"

end
