(* ===== verification/SystemBuild.thy ===== *)
theory SystemBuild
  imports SystemFile TaskText Program
begin

text \<open>
  \<open>librtsim/system.cpp\<close> with the scheduler factory of \<open>scheduler/regsched.cpp\<close>: the system a description stands for.
  A processor, an island, a scheduler and a kernel is numbered by how many of them
  were made before it.  Every object
  is registered as an entity; \<open>sys_others\<close> says which of the registered objects take part in a run (an island does, but
  only counts its switches of frequency anew).
\<close>

section \<open>The factory of schedulers\<close>

text \<open>An \<open>int\<close> read from a stream; when there is nothing to read the variable stays without a value.\<close>

definition extract_int :: "string \<Rightarrow> exc + int" where
  "extract_int s = (if blank s then Inl (UndefinedBehaviour ''slice'') else Inr (max (- (2 ^ 31)) (min (2 ^ 31 - 1) (atoi s))))"

definition RRScheduler_createInstance :: "string list \<Rightarrow> exc + sched_kind" where
  "RRScheduler_createInstance par =
    bindE (par_at par 0) (\<lambda>p. bindE (extract_int p) (\<lambda>slice. Inr (RRScheduler slice True)))"

definition Scheduler_factory :: "(string \<times> (string list \<Rightarrow> exc + sched_kind)) list" where
  "Scheduler_factory =
    [(''edf'', \<lambda>par. Inr EDFScheduler), (''fifo'', \<lambda>par. Inr FIFOScheduler), (''fp'', \<lambda>par. Inr FPScheduler),
     (''rm'', \<lambda>par. Inr RMScheduler), (''rr'', RRScheduler_createInstance), (''truefifo'', \<lambda>par. Inr TrueFIFOScheduler)]"

definition Scheduler_create :: "string \<Rightarrow> string list \<Rightarrow> exc + sched_kind option" where
  "Scheduler_create name par = (case map_of Scheduler_factory name of
     None \<Rightarrow> Inr None | Some create \<Rightarrow> bindE (create par) (\<lambda>k. Inr (Some k)))"

section \<open>The system\<close>

record system =
  sys_islands :: nat
  sys_cpus :: nat
  sys_schedulers :: nat
  sys_kernels :: "rtkref list"
  sys_platform :: platform
  sys_world :: world
  sys_names :: "object registry"
  sys_others :: "nat \<Rightarrow> entity option"

definition no_system :: system where
  "no_system = \<lparr>sys_islands = 0, sys_cpus = 0, sys_schedulers = 0, sys_kernels = [], sys_platform = no_platform,
     sys_world = empty_world, sys_names = empty_registry, sys_others = (\<lambda>_. None)\<rparr>"

definition on_world :: "(world \<Rightarrow> world) \<Rightarrow> 'a system_scheme \<Rightarrow> 'a system_scheme" where
  "on_world f s = s\<lparr>sys_world := f (sys_world s)\<rparr>"

definition on_platform :: "(platform \<Rightarrow> exc + platform) \<Rightarrow> 'a system_scheme \<Rightarrow> exc + 'a system_scheme" where
  "on_platform f s = bindE (f (sys_platform s)) (\<lambda>pl. Inr (s\<lparr>sys_platform := pl\<rparr>))"

text \<open>The base class \<open>Entity\<close> of an object that is neither a task nor an instruction.\<close>

definition new_other :: "string \<Rightarrow> entity option \<Rightarrow> 'a system_scheme \<Rightarrow> exc + 'a system_scheme" where
  "new_other name e s = (let n = nat (IDcount (sys_names s)) in
     bindE (Entity_ctor (OtherObj n) name (sys_names s)) (\<lambda>r.
       Inr (s\<lparr>sys_names := r, sys_others := (sys_others s)(n := e)\<rparr>)))"

text \<open>The entities of a run, in the order of their numbers.\<close>

definition entity_of :: "'a system_scheme \<Rightarrow> object \<Rightarrow> entity option" where
  "entity_of s x = (case x of TaskObj t \<Rightarrow> Some (TaskEnt t) | InstrObj t i \<Rightarrow> Some (InstrEnt t i) | OtherObj n \<Rightarrow> sys_others s n)"

definition system_entities :: "'a system_scheme \<Rightarrow> entity list" where
  "system_entities s = List.map_filter (entity_of s) (Entity_order (sys_names s))"

section \<open>Its parts\<close>

text \<open>A scheduler is an entity without a name.\<close>

definition new_scheduler :: "sched_kind \<Rightarrow> 'a system_scheme \<Rightarrow> exc + nat \<times> 'a system_scheme" where
  "new_scheduler kind s = (let n = sys_schedulers s in
    bindE (new_other [] (Some (SchedulerEnt n)) s) (\<lambda>s1.
      Inr (n, on_world (upd_sched n (\<lambda>_. Scheduler_ctor kind)) (s1\<lparr>sys_schedulers := Suc n\<rparr>))))"

definition make_scheduler :: "string \<Rightarrow> system \<Rightarrow> exc + nat \<times> system" where
  "make_scheduler name s =
    bindE (Scheduler_create name []) (\<lambda>k. case k of
      None \<Rightarrow> Inl (BaseExc (''Unsupported scheduler class: '' @ name)) | Some kind \<Rightarrow> new_scheduler kind s)"

definition make_model :: "(rat \<Rightarrow> rat) \<Rightarrow> (string \<Rightarrow> cpum_descriptor option) \<Rightarrow> opp list \<Rightarrow> string \<Rightarrow> string \<Rightarrow> exc + cpu_model" where
  "make_model ex models opps name_power name_speed = (case models name_power of
     None \<Rightarrow> Inl (BaseExc (''Could not find model: '' @ name_power))
   | Some model_power \<Rightarrow> (case models name_speed of
       None \<Rightarrow> Inl (BaseExc (''Could not find model: '' @ name_speed))
     | Some model_speed \<Rightarrow> CPUModel_create ex model_power model_speed (last opps) (opp_frequency (last opps))))"

definition make_island :: "(rat \<Rightarrow> rat) \<Rightarrow> string \<Rightarrow> opp list \<Rightarrow> cpu_model \<Rightarrow> system \<Rightarrow> exc + nat \<times> system" where
  "make_island ex name opps model s =
    bindE (Type_toString GENERIC) (\<lambda>type.
    bindE (new_other (type @ ''_'' @ name) None s) (\<lambda>s1.
    bindE (on_platform (CPUIsland_ctor_num ex (sys_islands s) [] GENERIC opps (Some model)) s1) (\<lambda>s2.
      Inr (sys_islands s, s2\<lparr>sys_islands := Suc (sys_islands s2)\<rparr>))))"

definition make_cpu :: "string \<Rightarrow> system \<Rightarrow> exc + nat \<times> system" where
  "make_cpu name s = (let c = sys_cpus s in
    bindE (new_other name (Some (CPUEnt c)) s) (\<lambda>s1.
      Inr (c, s1\<lparr>sys_platform := PCPU_ctor c (sys_platform s1), sys_cpus := Suc c\<rparr>)))"

definition make_kernel_global :: "nat \<Rightarrow> string \<Rightarrow> system \<Rightarrow> exc + nat \<times> system" where
  "make_kernel_global sc name s = (let k = length (sys_kernels s) in
    bindE (new_other name (Some (MRTKernelEnt k)) s) (\<lambda>s1.
      Inr (k, on_world (\<lambda>w. Scheduler_setKernel sc (KRoot (MRTK k)) (upd_mrtk k (\<lambda>_. MRTKernel_ctor sc []) w))
        (s1\<lparr>sys_kernels := sys_kernels s1 @ [MRTK k]\<rparr>))))"

definition make_kernel_partitioned :: "nat \<Rightarrow> string \<Rightarrow> nat \<Rightarrow> system \<Rightarrow> exc + system" where
  "make_kernel_partitioned sc name c s = (let k = length (sys_kernels s) in
    bindE (new_other name (Some (RTKernelEnt k)) s) (\<lambda>s1.
    bindE (on_platform (PCPU_setKernel (Some k) c) s1) (\<lambda>s2.
      Inr (on_world (\<lambda>w. Scheduler_setKernel sc (KRoot (RTK k)) (upd_rtk k (\<lambda>_. RTKernel_ctor sc (Some c)) w))
        (s2\<lparr>sys_kernels := sys_kernels s2 @ [RTK k]\<rparr>)))))"

definition system_addCPU :: "nat \<Rightarrow> nat \<Rightarrow> system \<Rightarrow> exc + system" where
  "system_addCPU k c s = on_platform (PCPU_setKernel (Some k) c) (on_world (MRTKernel_addCPU k c) s)"

text \<open>
  A processor of an island; \<open>cnt_cpus\<close> is the number of those made so far, \<open>global\<close> the kernel of a global placement.
  Without one the pointer whose \<open>addCPU\<close> is called is null.
\<close>

definition make_kernel_of_cpu :: "island_descriptor \<Rightarrow> nat option \<Rightarrow> string \<Rightarrow> nat \<Rightarrow> system \<Rightarrow> exc + system" where
  "make_kernel_of_cpu des global cnt_cpus c s =
    (if kd_placement (id_kernel des) = ''partitioned'' then
       bindE (make_scheduler (kd_scheduler (id_kernel des)) s) (\<lambda>(sc, s1).
         make_kernel_partitioned sc (id_name des @ ''-kernel'' @ cnt_cpus) c s1)
     else case global of None \<Rightarrow> Inl (NullPointer ''kernel'') | Some k \<Rightarrow> system_addCPU k c s)"

definition make_island_cpu :: "island_descriptor \<Rightarrow> nat \<Rightarrow> nat option \<Rightarrow> system \<Rightarrow> exc + system" where
  "make_island_cpu des island global s =
    (let cnt_cpus = decimal_int (int (sys_cpus s)) in
     bindE (make_cpu (id_name des @ ''-'' @ cnt_cpus) s) (\<lambda>(c, s1).
     bindE (on_platform (\<lambda>pl. drop_flag (setIsland c (Some island) pl)) s1) (\<lambda>s2.
     bindE (on_platform (PCPU_setWorkload ''idle'' c) s2) (make_kernel_of_cpu des global cnt_cpus c))))"

text \<open>The loop, with the number of processors that are left.\<close>

fun make_island_cpus :: "island_descriptor \<Rightarrow> nat \<Rightarrow> nat option \<Rightarrow> nat \<Rightarrow> system \<Rightarrow> exc + system" where
  "make_island_cpus des island global 0 s = Inr s"
| "make_island_cpus des island global (Suc n) s =
    bindE (make_island_cpu des island global s) (make_island_cpus des island global n)"

text \<open>The kernel of a global placement.\<close>

definition make_kernel_of_island :: "island_descriptor \<Rightarrow> system \<Rightarrow> exc + nat option \<times> system" where
  "make_kernel_of_island des s =
    (if kd_placement (id_kernel des) = ''global'' then
       bindE (make_scheduler (kd_scheduler (id_kernel des)) s) (\<lambda>(sc, s1).
       bindE (make_kernel_global sc (id_name des @ ''-kernel'') s1) (\<lambda>(k, s2). Inr (Some k, s2)))
     else Inr (None, s))"

text \<open>The operating point of an island: that of the base frequency, or the last.\<close>

definition select_base_opp :: "freq \<Rightarrow> nat \<Rightarrow> nat \<Rightarrow> system \<Rightarrow> exc + system" where
  "select_base_opp base_freq num_opps island s =
    bindE (if 0 < base_freq then bindE (island_at island (sys_platform s)) (getOPPIndexByFrequency base_freq) else Inr (2 ^ 64 - 1))
      (\<lambda>idx. on_platform (Island_setOPP (if num_opps \<le> idx then num_opps - 1 else idx) island) s)"

definition make_system_island :: "(rat \<Rightarrow> rat) \<Rightarrow> (string \<Rightarrow> cpum_descriptor option) \<Rightarrow> island_descriptor \<Rightarrow> system \<Rightarrow> exc + system" where
  "make_system_island ex models des s =
    bindE (OPP_fromVectors (id_volts des) (id_freqs des)) (\<lambda>opps.
    if length opps < 1 then Inl (BaseExc (''The specified island '' @ id_name des @ '' has no OPPs!''))
    else bindE (make_model ex models opps (id_power_model des) (id_speed_model des)) (\<lambda>model.
    bindE (make_island ex (id_name des) opps model s) (\<lambda>(island, s1).
    bindE (make_kernel_of_island des s1) (\<lambda>(global, s2).
    bindE (make_island_cpus des island global (id_numcpus des) s2)
      (select_base_opp (id_base_freq des) (length opps) island)))))"

fun make_system_islands :: "(rat \<Rightarrow> rat) \<Rightarrow> (string \<Rightarrow> cpum_descriptor option) \<Rightarrow> island_descriptor list \<Rightarrow> system \<Rightarrow> exc + system" where
  "make_system_islands ex models [] s = Inr s"
| "make_system_islands ex models (d # ds) s =
    bindE (make_system_island ex models d s) (make_system_islands ex models ds)"

text \<open>The processors as the simulation sees them.\<close>

definition system_cpus :: "platform \<Rightarrow> world \<Rightarrow> world" where
  "system_cpus pl w = w\<lparr>cpus := (\<lambda>c. case pl_cpus pl c of Some x \<Rightarrow> as_world_cpu pl x | None \<Rightarrow> cpus w c)\<rparr>"

definition System_make :: "(rat \<Rightarrow> rat) \<Rightarrow> system_descriptor \<Rightarrow> exc + system" where
  "System_make ex des = bindE (make_system_islands ex (sd_power_models des) (sd_islands des) no_system) (\<lambda>s.
     Inr (on_world (system_cpus (sys_platform s)) s))"

definition System_ctor :: "(rat \<Rightarrow> rat) \<Rightarrow> file_env \<Rightarrow> string \<Rightarrow> (exc + system) option" where
  "System_ctor ex fe fname = bindN (SystemDescriptor_ctor fe fname) (\<lambda>des. Some (System_make ex des))"

end
