(* ===== verification/MainProgram.thy ===== *)
theory MainProgram
  imports SystemBuild RTResource
begin

text \<open>
  \<open>rtsim/main.cpp\<close>: the tasks, servers and resources of a description, their placement on the processors of a system, and
  the run.  What only writes is left out: the traces (but for the test of their names) and the debug stream.  The
  command line is read by a library that is not part of the sources; its options are arguments here.
\<close>

section \<open>Arguments\<close>

text \<open>\<open>args.hpp\<close>.  The position of a suffix that is longer than the text is beyond its end, which \<open>substr\<close> refuses.\<close>

definition string_endswith :: "string \<Rightarrow> string \<Rightarrow> exc + bool" where
  "string_endswith s end =
    (if length s < length end then Inl OutOfRange else Inr (drop (length s - length end) s = end))"

definition list_append :: "string \<Rightarrow> string \<Rightarrow> string" where
  "list_append dest src = dest @ src @ [CHR 0x0A]"

definition list_append_txt_json :: "string \<Rightarrow> string \<Rightarrow> exc + int \<times> string" where
  "list_append_txt_json dest src =
    bindE (string_endswith src ''.txt'') (\<lambda>txt.
    if txt then Inr (0, list_append dest src)
    else bindE (string_endswith src ''.json'') (\<lambda>json. if json then Inr (0, list_append dest src) else Inr (1, dest)))"

text \<open>The lines that are not empty.\<close>

function split_lines :: "istream \<Rightarrow> string list" where
  "split_lines iss = (let (str, iss1) = getline_to newline iss in
     if is_failed iss1 then [] else if 0 < length str then str # split_lines iss1 else split_lines iss1)"
  by pat_completeness auto

termination split_lines
  by (relation "measure (\<lambda>i. length (is_rest i))")
    (auto simp: getline_to_def getline_shorter [simplified] split: if_splits)

declare split_lines.simps [simp del]

definition list_split :: "string \<Rightarrow> string list" where
  "list_split src = split_lines \<lparr>is_rest = src, is_failed = False\<rparr>"

datatype tracer = TTrace string | JTrace string

definition Tracer_ctor :: "string \<Rightarrow> exc + tracer" where
  "Tracer_ctor fname =
    bindE (string_endswith fname ''.txt'') (\<lambda>txt. if txt then Inr (TTrace fname)
    else bindE (string_endswith fname ''.json'') (\<lambda>json. if json then Inr (JTrace fname)
    else Inl (StdExc (''Unrecognized tracer type: '' @ fname @ ''!''))))"

section \<open>Tasks\<close>

text \<open>\<open>stol\<close> ignores what follows the number, and throws when there is none or it does not fit in 64 bits.\<close>

definition stol :: "string \<Rightarrow> exc + int" where
  "stol s =
    (let (neg, t) = read_sign (dropWhile is_space s)
     in if takeWhile is_digit t = [] then Inl InvalidArgument
        else if atoi s < - (2 ^ 63) \<or> 2 ^ 63 \<le> atoi s then Inl OutOfRange else Inr (atoi s))"

definition number_or :: "(string \<Rightarrow> exc + int) \<Rightarrow> int \<Rightarrow> string \<Rightarrow> exc + int" where
  "number_or read d s = (if 0 < length s then read s else Inr d)"

definition attr_or_zero :: "string \<Rightarrow> yobj \<Rightarrow> string" where
  "attr_or_zero k o1 = (if has k o1 then attr_str k o1 else ''0'')"

record task_spec =
  ts_name :: string
  ts_startcpu :: int
  ts_iat :: tick
  ts_deadline :: tick
  ts_cbs_runtime :: tick
  ts_cbs_period :: tick
  ts_cbs_deadline :: tick
  ts_ph :: tick
  ts_qs :: int
  ts_code :: "string list"

text \<open>An instruction that is empty is skipped, one without the closing semicolon gets it.\<close>

definition instr_texts :: "string list \<Rightarrow> string list" where
  "instr_texts is = map (\<lambda>i. if last i \<noteq> CHR '';'' then i @ '';'' else i) (filter (\<lambda>i. \<not> length i < 1) is)"

definition read_task :: "yobj \<Rightarrow> exc + task_spec" where
  "read_task o1 =
    bindE (number_or stoi 0 (attr_str ''startcpu'' o1)) (\<lambda>startcpu.
    bindE (number_or stol 0 (attr_str ''iat'' o1)) (\<lambda>iat.
    bindE (number_or stol iat (attr_str ''deadline'' o1)) (\<lambda>deadline.
    bindE (number_or stol 0 (attr_or_zero ''cbs_runtime'' o1)) (\<lambda>cbs_runtime.
    bindE (number_or stol iat (attr_or_zero ''cbs_period'' o1)) (\<lambda>cbs_period.
    bindE (number_or stol cbs_period (attr_or_zero ''cbs_deadline'' o1)) (\<lambda>cbs_deadline.
    bindE (number_or stol 0 (attr_str ''ph'' o1)) (\<lambda>ph.
    bindE (number_or stol 100 (attr_str ''qs'' o1)) (\<lambda>qs.
      Inr \<lparr>ts_name = attr_str ''name'' o1, ts_startcpu = startcpu, ts_iat = iat, ts_deadline = deadline,
        ts_cbs_runtime = cbs_runtime, ts_cbs_period = cbs_period, ts_cbs_deadline = cbs_deadline, ts_ph = ph, ts_qs = qs,
        ts_code = instr_texts (map y_scalar (y_list (attr_obj ''code'' o1)))\<rparr>))))))))"

text \<open>The whole program; tasks and servers are numbered like the rest, the resource manager is number 0.\<close>

record rtprogram = system +
  prog_tasks :: nat
  prog_servers :: nat

text \<open>A task is made with its instructions.\<close>

fun insert_codes :: "parse_env \<Rightarrow> nat \<Rightarrow> string list \<Rightarrow> code_state \<Rightarrow> (exc + code_state) option" where
  "insert_codes pe t [] st = Some (Inr st)"
| "insert_codes pe t (c # cs) st = bindN (Task_insertCode pe t c st) (insert_codes pe t cs)"

definition make_task :: "parse_env \<Rightarrow> task_spec \<Rightarrow> rtprogram \<Rightarrow> (exc + nat \<times> rtprogram) option" where
  "make_task pe ts p = (let t = prog_tasks p in
     bindN (Some (Entity_ctor (TaskObj t) (ts_name ts) (sys_names p))) (\<lambda>r.
     bindN (insert_codes pe t (ts_code ts) ([], r)) (\<lambda>(q, r1).
       Some (Inr (t, on_world (upd_task t (\<lambda>_. (Task_ctor (ent_ID r (TaskObj t)) (Some (DeltaVar (ts_iat ts))) (ts_deadline ts)
           (ts_ph ts) (ts_qs ts) 0)\<lparr>instrQueue := map snd q\<rparr>))
         (p\<lparr>sys_names := r1, prog_tasks := Suc t\<rparr>))))))"

text \<open>A hard server with its scheduler, of class \<open>fifo\<close>, and the timer of its virtual time.\<close>

definition make_server :: "task_spec \<Rightarrow> rtprogram \<Rightarrow> exc + nat \<times> rtprogram" where
  "make_server ts p = (let s = prog_servers p in
     bindE (new_other (''cbserver_'' @ ts_name ts) (Some (CBServerEnt s)) p) (\<lambda>p1.
     bindE (Scheduler_create ''fifo'' []) (\<lambda>k. case k of None \<Rightarrow> Inl (ParseExc ''fifo'')
     | Some kind \<Rightarrow> bindE (new_scheduler kind p1) (\<lambda>(sc, p2).
         bindE (new_other [] (Some (CapacityTimerEnt s)) p2) (\<lambda>p3.
           Inr (s, on_world (\<lambda>w. Scheduler_setKernel sc (KServer s) (upd_server s (\<lambda>_. CBServer_ctor (IDcount (sys_names p1))
               (ts_cbs_runtime ts) (ts_cbs_period ts) (ts_cbs_deadline ts) True sc) w))
             (p3\<lparr>prog_servers := Suc s\<rparr>)))))))"

text \<open>What a task set keeps of a task: what is put on a kernel, and the processor.\<close>

type_synonym placement = "absTask \<times> int"

definition add_to_server :: "nat \<Rightarrow> nat \<Rightarrow> rtprogram \<Rightarrow> exc + rtprogram" where
  "add_to_server s t p = bindE (CBServer_addTask s t None (sys_world p)) (\<lambda>w. Inr (p\<lparr>sys_world := w\<rparr>))"

definition make_placement :: "parse_env \<Rightarrow> yobj \<Rightarrow> rtprogram \<Rightarrow> (exc + placement \<times> rtprogram) option" where
  "make_placement pe o1 p =
     bindN (Some (read_task o1)) (\<lambda>ts.
     bindN (make_task pe ts p) (\<lambda>(t, p1).
       if 0 < ts_cbs_period ts then
         Some (bindE (make_server ts p1) (\<lambda>(s, p2).
           bindE (add_to_server s t p2) (\<lambda>p3. Inr ((ServerRef s, ts_startcpu ts), p3))))
       else Some (Inr ((TaskRef t, ts_startcpu ts), p1))))"

fun make_placements :: "parse_env \<Rightarrow> yobj list \<Rightarrow> rtprogram \<Rightarrow> (exc + placement list \<times> rtprogram) option" where
  "make_placements pe [] p = Some (Inr ([], p))"
| "make_placements pe (o1 # os) p =
     bindN (make_placement pe o1 p) (\<lambda>(x, p1).
     bindN (make_placements pe os p1) (\<lambda>(xs, p2). Some (Inr (x # xs, p2))))"

definition read_taskset :: "parse_env \<Rightarrow> file_env \<Rightarrow> string \<Rightarrow> rtprogram \<Rightarrow> (exc + placement list \<times> rtprogram) option" where
  "read_taskset pe fe tset_file p =
     bindN (parse_file fe tset_file) (\<lambda>o1. make_placements pe (y_list (attr_obj ''taskset'' o1)) p)"

section \<open>Resources\<close>

definition make_resource :: "yobj \<Rightarrow> rtprogram \<Rightarrow> exc + rtprogram" where
  "make_resource o1 p =
    (let name = attr_str ''name'' o1; n_initial = (if attr_str ''initial_state'' o1 = ''locked'' then 0 else 1) in
     if \<not> ResManager_hasResource 0 name (sys_world p) then
       bindE (new_other name (Some (ResourceEnt 0 name)) p) (\<lambda>p1.
         Inr (on_world (ResManager_addResource 0 name 1 n_initial) p1))
     else Inl (StdExc ''Cannot specify resource twice''))"

fun make_resources :: "yobj list \<Rightarrow> rtprogram \<Rightarrow> exc + rtprogram" where
  "make_resources [] p = Inr p"
| "make_resources (o1 # os) p = bindE (make_resource o1 p) (make_resources os)"

definition read_resources :: "file_env \<Rightarrow> string \<Rightarrow> rtprogram \<Rightarrow> (exc + rtprogram) option" where
  "read_resources fe tset_file p =
     bindN (parse_file fe tset_file) (\<lambda>o1.
       Some (bindE (new_other [] (Some (ResManEnt 0)) p) (make_resources (y_list (attr_obj ''resources'' o1)))))"

section \<open>The program\<close>

definition kernel_setResManager :: "rtkref \<Rightarrow> world \<Rightarrow> world" where
  "kernel_setResManager r = (case r of RTK k \<Rightarrow> upd_rtk k (\<lambda>x. x\<lparr>rk_resMng := Some 0\<rparr>)
     | MRTK k \<Rightarrow> upd_mrtk k (\<lambda>x. x\<lparr>mk_resMng := Some 0\<rparr>))"

definition rtkref_sched :: "rtkref \<Rightarrow> world \<Rightarrow> nat" where
  "rtkref_sched r w = (case r of RTK k \<Rightarrow> rk_sched (rtks w k) | MRTK k \<Rightarrow> mk_sched (mrtks w k))"

text \<open>
  \<open>addTask\<close> of a kernel without parameters.  The extraction from the empty string leaves the priority of
  \<open>FPScheduler::addTask\<close> without a value.
\<close>

definition kernel_addTask :: "rtkref \<Rightarrow> absTask \<Rightarrow> world \<Rightarrow> exc + world" where
  "kernel_addTask r a w =
    (if sch_kind (scheds w (rtkref_sched r w)) = FPScheduler then Inl (UndefinedBehaviour ''prio'')
     else case r of RTK k \<Rightarrow> RTKernel_addTask k a None w | MRTK k \<Rightarrow> MRTKernel_addTask k a None w)"

text \<open>\<open>sys.cpus[cpu]->getKernel()\<close>; the index is not checked.\<close>

definition cpu_kernel :: "int \<Rightarrow> 'a system_scheme \<Rightarrow> exc + rtkref" where
  "cpu_kernel c s =
    (if c < 0 \<or> int (sys_cpus s) \<le> c then Inl (UndefinedBehaviour ''sys.cpus'')
     else bindE (cpu_at (nat c) (sys_platform s)) (\<lambda>x. case pc_kernel x of None \<Rightarrow> Inl (NullPointer ''kernel'')
       | Some k \<Rightarrow> Inr (sys_kernels s ! k)))"

fun place_all :: "placement list \<Rightarrow> rtprogram \<Rightarrow> exc + rtprogram" where
  "place_all [] p = Inr p"
| "place_all ((a, c) # xs) p =
     bindE (cpu_kernel c p) (\<lambda>r. bindE (kernel_addTask r a (sys_world p)) (\<lambda>w. place_all xs (p\<lparr>sys_world := w\<rparr>)))"

record options =
  opt_system :: string
  opt_taskset :: string
  opt_duration :: string
  opt_trace :: string

definition with_program :: "system \<Rightarrow> rtprogram" where
  "with_program s = system.extend s \<lparr>prog_tasks = 0, prog_servers = 0\<rparr>"

definition main_setup :: "(rat \<Rightarrow> rat) \<Rightarrow> parse_env \<Rightarrow> file_env \<Rightarrow> options \<Rightarrow> (exc + rtprogram) option" where
  "main_setup ex pe fe opts =
     bindN (Some (mapE Tracer_ctor (list_split (opt_trace opts)))) (\<lambda>tracers.
     bindN (System_ctor ex fe (opt_system opts)) (\<lambda>sys.
     bindN (read_resources fe (opt_taskset opts) (with_program sys)) (\<lambda>p1.
     bindN (read_taskset pe fe (opt_taskset opts) (on_world (\<lambda>w. fold kernel_setResManager (sys_kernels p1) w) p1)) (\<lambda>(xs, p2).
       Some (place_all xs p2)))))"

text \<open>
  The run.  Exceptions that derive from \<open>std::exception\<close> end the program with a failure; the others, among them the string
  that \<open>Task::block\<close> throws, are the end of the process.
\<close>

datatype exit_status = EXIT_SUCCESS | EXIT_FAILURE

definition is_std_exception :: "exc \<Rightarrow> bool" where
  "is_std_exception e = (case e of TaskCannotBlock \<Rightarrow> False | AssertFailed _ \<Rightarrow> False | NullPointer _ \<Rightarrow> False | UndefinedBehaviour _ \<Rightarrow> False
     | DivisionByZero \<Rightarrow> False | ProcessExit \<Rightarrow> False | _ \<Rightarrow> True)"

definition exit_of :: "exc + world \<Rightarrow> exc + exit_status \<times> world option" where
  "exit_of r = (case r of Inr w \<Rightarrow> Inr (EXIT_SUCCESS, Some w)
     | Inl e \<Rightarrow> if is_std_exception e then Inr (EXIT_FAILURE, None) else Inl e)"

definition main_run :: "options \<Rightarrow> rtprogram \<Rightarrow> (exc + exit_status \<times> world option) option" where
  "main_run opts p = (case stoi (opt_duration opts) of
     Inl e \<Rightarrow> Some (exit_of (Inl e))
   | Inr duration \<Rightarrow> map_option exit_of (Simulation_run (entity_hooks (system_entities p)) doit duration 1 (sys_world p)))"

definition rtsim_main :: "(rat \<Rightarrow> rat) \<Rightarrow> parse_env \<Rightarrow> file_env \<Rightarrow> options \<Rightarrow> (exc + exit_status \<times> world option) option" where
  "rtsim_main ex pe fe opts = bindN (main_setup ex pe fe opts) (main_run opts)"

end
