(* ===== verification/SystemBuild_Laws.thy ===== *)
theory SystemBuild_Laws
  imports SystemBuild
begin

text \<open>
  What is made of a description: every processor has a kernel, every kernel its scheduler, which knows the kernel, and
  nothing has run yet (\<open>fresh\<close>).  \<open>wired_but A s\<close> says this of all but the parts in \<open>A\<close>, which are being made.
\<close>

section \<open>The kernels of the processors\<close>

definition kern_of :: "platform \<Rightarrow> nat \<Rightarrow> nat option option" where
  "kern_of pl c = map_option pc_kernel (pl_cpus pl c)"

lemma kern_of_put [simp]:
  "kern_of (put_cpu c x pl) = (kern_of pl)(c \<mapsto> pc_kernel x)" "kern_of (put_island i s pl) = kern_of pl"
  by (auto simp: kern_of_def fun_eq_iff)

lemma kern_of_same: "pl_cpus pl c = Some x \<Longrightarrow> (kern_of pl)(c \<mapsto> pc_kernel x) = kern_of pl"
  by (simp add: kern_of_def fun_upd_idem_iff)

text \<open>What the operations on processors leave as it was: the kernels and which islands there are.\<close>

definition same_parts :: "platform \<Rightarrow> platform \<Rightarrow> bool" where
  "same_parts pl pl' \<longleftrightarrow> kern_of pl' = kern_of pl \<and> dom (pl_islands pl') = dom (pl_islands pl)"

lemma same_parts_trans: "same_parts pl pl1 \<Longrightarrow> same_parts pl1 pl2 \<Longrightarrow> same_parts pl pl2"
  by (simp add: same_parts_def)

lemma same_parts_refl [simp]: "same_parts pl pl"
  by (simp add: same_parts_def)

lemma same_parts_put [simp]:
  "pl_cpus pl c = Some x \<Longrightarrow> pc_kernel y = pc_kernel x \<Longrightarrow> same_parts pl (put_cpu c y pl)"
  "pl_islands pl i = Some s \<Longrightarrow> same_parts pl (put_island i s' pl)"
  using kern_of_same [of pl c x] by (auto simp: same_parts_def)

lemma parts_updateModel: "PCPU_updateModel c pl = Inr pl' \<Longrightarrow> same_parts pl pl'"
  by (erule updateModel_cases) simp

lemma parts_for_updateModel: "for_cpus PCPU_updateModel cs pl = Inr pl' \<Longrightarrow> same_parts pl pl'"
proof (induction cs arbitrary: pl)
  case Nil
  then show ?case by simp
next
  case (Cons c cs)
  then show ?case by (auto simp: bindE_eq_Inr dest!: parts_updateModel intro: same_parts_trans)
qed

lemma parts_setIsland:
  assumes "setIsland c (Some i) pl = Inr r"
  shows "same_parts pl (snd r)"
proof -
  obtain x where x: "pl_cpus pl c = Some x" using assms by (subst (asm) setIsland.simps) (auto simp: bindE_eq_Inr)
  show ?thesis
  proof (cases "pc_island x = Some i")
    case True
    then show ?thesis using assms setIsland_same [OF x] by auto
  next
    case False
    then obtain s where s: "pl_islands pl i = Some s"
      using assms x by (subst (asm) setIsland.simps) (auto simp: bindE_eq_Inr at_Some addCPU.simps)
    have "same_parts pl (put_island i s' pl)" for s' using s by simp
    moreover have "same_parts (put_island i s' pl) (put_cpu c (x\<lparr>pc_island := j\<rparr>) (put_island i s' pl))" for s' j
      using x by simp
    ultimately have "same_parts pl (join c x i s pl)" unfolding join_def by (blast intro: same_parts_trans)
    then show ?thesis using assms False x s
      by (auto simp: setIsland_some bindE_eq_Inr dest!: parts_updateModel intro: same_parts_trans)
  qed
qed

lemma parts_setWorkload:
  assumes "PCPU_setWorkload wl c pl = Inr pl'"
  shows "same_parts pl pl'"
proof -
  obtain x where x: "pl_cpus pl c = Some x" and up: "PCPU_updateModel c (put_cpu c (x\<lparr>pc_workload := wl\<rparr>) pl) = Inr pl'"
    using assms by (auto simp: PCPU_setWorkload_def bindE_eq_Inr split: if_splits)
  have "same_parts pl (put_cpu c (x\<lparr>pc_workload := wl\<rparr>) pl)" using x by simp
  with parts_updateModel [OF up] show ?thesis by (blast intro: same_parts_trans)
qed

lemma parts_setOPP:
  assumes "Island_setOPP k i pl = Inr pl'"
  shows "same_parts pl pl'"
proof (cases "pl' = pl")
  case False
  then obtain s s1 where s: "pl_islands pl i = Some s" and up: "updateModels i (put_island i s1 pl) = Inr pl'"
    using assms by (auto simp: Island_setOPP_def bindE_eq_Inr split: if_splits)
  have 1: "same_parts pl (put_island i s1 pl)" using s by simp
  have "same_parts (put_island i s1 pl) pl'"
    using up by (auto simp: updateModels_def bindE_eq_Inr split: if_splits dest: parts_for_updateModel)
  with 1 show ?thesis by (rule same_parts_trans)
qed simp

lemma kern_setKernel: "PCPU_setKernel k c pl = Inr pl' \<Longrightarrow> kern_of pl' = (kern_of pl)(c \<mapsto> k) \<and> pl_islands pl' = pl_islands pl"
  by (auto simp: PCPU_setKernel_def bindE_eq_Inr)

lemma kern_ctor [simp]: "kern_of (PCPU_ctor c pl) = (kern_of pl)(c \<mapsto> None)" "pl_islands (PCPU_ctor c pl) = pl_islands pl"
  by (simp_all add: PCPU_ctor_def)

lemma island_ctor_num:
  "CPUIsland_ctor_num ex i [] ty opps (Some m) pl = Inr pl' \<Longrightarrow> \<exists>s. pl' = put_island i s pl \<and> is_cpus s = []"
  by (auto simp: CPUIsland_ctor_num_def CPUIsland_ctor_def bindE_eq_Inr)

section \<open>The parts refer to each other\<close>

definition fresh_mrt :: "mrtkernel \<Rightarrow> bool" where
  "fresh_mrt x \<longleftrightarrow> mk_currExe x = (\<lambda>_. None) \<and> mk_dispatched x = (\<lambda>_. None) \<and> mk_isContextSwitching x = (\<lambda>_. False)"

definition fresh_server :: "server \<Rightarrow> bool" where
  "fresh_server x \<longleftrightarrow> srv_status x = IDLE \<and> cbs_vtime x = CapacityTimer_ctor \<and> cbs_idle_policy x = ORIGINAL"

text \<open>Nothing has run yet.\<close>

definition fresh :: "world \<Rightarrow> bool" where
  "fresh w \<longleftrightarrow> eventQueue w = [] \<and> globTime w = 0 \<and> evs w = evt_ctor \<and> evCounter w = 0 \<and> (\<forall>k. fresh_mrt (mrtks w k)) \<and>
     (\<forall>n. sch_queue (scheds w n) = []) \<and> (\<forall>i. fresh_server (servers w i))"

definition of_kernel :: "rtkref \<Rightarrow> world \<Rightarrow> nat set" where
  "of_kernel r w = (case r of RTK k \<Rightarrow> set_option (rk_cpu (rtks w k)) | MRTK k \<Rightarrow> set (mk_cpus (mrtks w k)))"

definition sched_of :: "rtkref \<Rightarrow> world \<Rightarrow> nat" where
  "sched_of r w = (case r of RTK k \<Rightarrow> rk_sched (rtks w k) | MRTK k \<Rightarrow> mk_sched (mrtks w k))"

definition kernel_wired :: "'a system_scheme \<Rightarrow> nat \<Rightarrow> bool" where
  "kernel_wired s k \<longleftrightarrow> (sys_kernels s ! k = RTK k \<or> sys_kernels s ! k = MRTK k) \<and>
     sched_of (sys_kernels s ! k) (sys_world s) < sys_schedulers s \<and>
     sch_kernel (scheds (sys_world s) (sched_of (sys_kernels s ! k) (sys_world s))) = Some (KRoot (sys_kernels s ! k))"

definition cpu_wired :: "'a system_scheme \<Rightarrow> nat \<Rightarrow> bool" where
  "cpu_wired s c \<longleftrightarrow> (\<exists>k<length (sys_kernels s). kern_of (sys_platform s) c = Some (Some k) \<and>
     c \<in> of_kernel (sys_kernels s ! k) (sys_world s))"

definition wired_but :: "nat set \<Rightarrow> 'a system_scheme \<Rightarrow> bool" where
  "wired_but D s \<longleftrightarrow> (\<forall>k<length (sys_kernels s). kernel_wired s k) \<and> (\<forall>c < sys_cpus s. c \<notin> D \<longrightarrow> cpu_wired s c) \<and>
     good {} (sys_platform s) \<and> dom (pl_islands (sys_platform s)) = {i. i < sys_islands s} \<and> fresh (sys_world s)"

lemma wiredI:
  assumes "\<And>k. k < length (sys_kernels s) \<Longrightarrow> kernel_wired s k" and "\<And>c. c < sys_cpus s \<Longrightarrow> c \<notin> D \<Longrightarrow> cpu_wired s c"
    and "good {} (sys_platform s)" and "dom (pl_islands (sys_platform s)) = {i. i < sys_islands s}" and "fresh (sys_world s)"
  shows "wired_but D s"
  using assms by (simp add: wired_but_def)

lemma fresh_empty: "fresh empty_world"
  by (simp add: fresh_def fresh_mrt_def fresh_server_def empty_world_def MRTKernel_ctor_def Scheduler_ctor_def CBServer_ctor_def)

lemma wired_no_system: "wired_but {} no_system"
  by (rule wiredI) (simp_all add: no_system_def fresh_empty good_def links_ok_def speed_ok_def no_platform_def)

section \<open>Making the parts\<close>

lemma wired_on_platform:
  assumes "wired_but D s" and "on_platform f s = Inr s'"
    and "\<And>pl. f (sys_platform s) = Inr pl \<Longrightarrow> good {} (sys_platform s) \<Longrightarrow> same_parts (sys_platform s) pl \<and> good {} pl"
  shows "wired_but D s'"
proof -
  obtain pl where pl: "f (sys_platform s) = Inr pl" and s': "s' = s\<lparr>sys_platform := pl\<rparr>"
    using assms(2) by (auto simp: on_platform_def bindE_eq_Inr)
  have "same_parts (sys_platform s) pl" "good {} pl" using assms(1,3) pl by (auto simp: wired_but_def)
  with assms(1) show ?thesis
    by (auto simp: s' wired_but_def kernel_wired_def cpu_wired_def same_parts_def)
qed

lemma new_other_cases:
  assumes "new_other name e s = Inr s'"
  obtains r o1 where "s' = s\<lparr>sys_names := r, sys_others := o1\<rparr>"
  using assms by (auto simp: new_other_def Let_def bindE_eq_Inr)

lemma wired_names [simp]: "wired_but D (s\<lparr>sys_names := r, sys_others := o1\<rparr>) = wired_but D s"
  by (simp add: wired_but_def kernel_wired_def cpu_wired_def)

definition free_sched :: "nat \<Rightarrow> 'a system_scheme \<Rightarrow> bool" where
  "free_sched n s \<longleftrightarrow> n < sys_schedulers s \<and> (\<forall>k<length (sys_kernels s). sched_of (sys_kernels s ! k) (sys_world s) \<noteq> n)"

lemma fresh_upd_sched: "fresh w \<Longrightarrow> (sch_queue (scheds w n) = [] \<Longrightarrow> sch_queue (f (scheds w n)) = []) \<Longrightarrow> fresh (upd_sched n f w)"
  by (simp add: fresh_def upd_sched_def)

lemma scheds_upd [simp]:
  "scheds (upd_sched n f w) n = f (scheds w n)" "m \<noteq> n \<Longrightarrow> scheds (upd_sched n f w) m = scheds w m"
  by (simp_all add: upd_sched_def)

lemma of_upd_sched [simp]: "of_kernel r (upd_sched n f w) = of_kernel r w" "sched_of r (upd_sched n f w) = sched_of r w"
  by (simp_all add: of_kernel_def sched_of_def upd_sched_def split: rtkref.split)

lemma new_scheduler_wired:
  assumes "wired_but D s" and "new_scheduler kind s = Inr (n, s')"
  shows "wired_but D s'" and "free_sched n s'" and "sys_kernels s' = sys_kernels s" "sys_cpus s' = sys_cpus s"
    "sys_islands s' = sys_islands s" "sys_platform s' = sys_platform s"
proof -
  obtain r o1 where s': "s' = on_world (upd_sched n (\<lambda>_. Scheduler_ctor kind)) (s\<lparr>sys_names := r, sys_others := o1, sys_schedulers := Suc n\<rparr>)"
    and n: "n = sys_schedulers s"
    using assms(2) by (auto simp: new_scheduler_def Let_def bindE_eq_Inr elim!: new_other_cases)
  have old: "sched_of (sys_kernels s ! k) (sys_world s) < n" if "k < length (sys_kernels s)" for k
    using assms(1) that n by (auto simp: wired_but_def kernel_wired_def)
  have fr: "fresh (upd_sched n (\<lambda>_. Scheduler_ctor kind) (sys_world s))"
    using assms(1) by (auto simp: wired_but_def Scheduler_ctor_def intro: fresh_upd_sched)
  show "wired_but D s'"
  proof (rule wiredI)
    show "kernel_wired s' k" if "k < length (sys_kernels s')" for k
      using assms(1) old [of k] that n by (auto simp: s' on_world_def wired_but_def kernel_wired_def)
  qed (use assms(1) fr in \<open>auto simp: s' on_world_def wired_but_def cpu_wired_def\<close>)
  show "free_sched n s'" using old n by (fastforce simp: free_sched_def s' on_world_def)
qed (use assms(2) in \<open>auto simp: new_scheduler_def Let_def bindE_eq_Inr on_world_def elim!: new_other_cases\<close>)

lemma make_cpu_wired:
  assumes "wired_but {} s" and "make_cpu name s = Inr (c, s')"
  shows "wired_but {c} s'" "c = sys_cpus s" "sys_cpus s' = Suc c" "sys_kernels s' = sys_kernels s" "sys_islands s' = sys_islands s"
proof -
  obtain r o1 where s': "s' = s\<lparr>sys_names := r, sys_others := o1, sys_platform := PCPU_ctor c (sys_platform s), sys_cpus := Suc c\<rparr>"
    and c: "c = sys_cpus s"
    using assms(2) by (auto simp: make_cpu_def Let_def bindE_eq_Inr elim!: new_other_cases)
  show "wired_but {c} s'"
    using assms(1) by (intro wiredI) (auto simp: s' c wired_but_def kernel_wired_def cpu_wired_def ctor_good less_Suc_eq)
  show "c = sys_cpus s" "sys_cpus s' = Suc c" "sys_kernels s' = sys_kernels s" "sys_islands s' = sys_islands s"
    by (simp_all add: s' c)
qed

text \<open>A new kernel with a scheduler of its own.\<close>

lemma kernel_added:
  assumes w: "wired_but D s" and sc: "free_sched sc s"
    and names: "sys_kernels s' = sys_kernels s @ [r]" "sys_schedulers s' = sys_schedulers s"
    and r: "r = RTK (length (sys_kernels s)) \<or> r = MRTK (length (sys_kernels s))"
    and world: "sys_world s' = Scheduler_setKernel sc (KRoot r) v"
    and v: "scheds v = scheds (sys_world s)" "sched_of r v = sc"
      "\<And>k. k < length (sys_kernels s) \<Longrightarrow> sched_of (sys_kernels s ! k) v = sched_of (sys_kernels s ! k) (sys_world s)"
    and k: "k < length (sys_kernels s')"
  shows "kernel_wired s' k"
proof (cases "k = length (sys_kernels s)")
  case True
  then show ?thesis using sc r by (auto simp: kernel_wired_def names world Scheduler_setKernel_def v free_sched_def)
next
  case False
  then have k: "k < length (sys_kernels s)" using k names by simp
  then have "sched_of (sys_kernels s ! k) (sys_world s) \<noteq> sc" using sc by (simp add: free_sched_def)
  then show ?thesis using w k by (auto simp: wired_but_def kernel_wired_def names world Scheduler_setKernel_def v nth_append)
qed

lemma old_kernel: "wired_but D s \<Longrightarrow> k < length (sys_kernels s) \<Longrightarrow> sys_kernels s ! k = RTK k \<or> sys_kernels s ! k = MRTK k"
  by (simp add: wired_but_def kernel_wired_def)

lemma fresh_setKernel: "fresh w \<Longrightarrow> fresh (Scheduler_setKernel sc r w)"
  by (simp add: Scheduler_setKernel_def fresh_upd_sched)

lemma make_kernel_global_wired:
  assumes "wired_but D s" and "free_sched sc s" and "make_kernel_global sc name s = Inr (k, s')"
  shows "wired_but D s'" "k < length (sys_kernels s')" "sys_kernels s' ! k = MRTK k" "sys_islands s' = sys_islands s"
proof -
  let ?k = "length (sys_kernels s)"
  let ?v = "upd_mrtk ?k (\<lambda>_. MRTKernel_ctor sc []) (sys_world s)"
  obtain r o1 where s': "s' = on_world (\<lambda>w. Scheduler_setKernel sc (KRoot (MRTK ?k)) (upd_mrtk ?k (\<lambda>_. MRTKernel_ctor sc []) w))
      (s\<lparr>sys_names := r, sys_others := o1, sys_kernels := sys_kernels s @ [MRTK ?k]\<rparr>)" and k: "k = ?k"
    using assms(3) by (auto simp: make_kernel_global_def Let_def bindE_eq_Inr elim!: new_other_cases)
  have same: "sched_of (sys_kernels s ! j) ?v = sched_of (sys_kernels s ! j) (sys_world s)"
    "of_kernel (sys_kernels s ! j) ?v = of_kernel (sys_kernels s ! j) (sys_world s)" if "j < ?k" for j
    using old_kernel [OF assms(1) that] that by (auto simp: sched_of_def of_kernel_def upd_mrtk_def)
  have fr: "fresh ?v" using assms(1) by (simp add: wired_but_def fresh_def fresh_mrt_def upd_mrtk_def MRTKernel_ctor_def)
  show "wired_but D s'"
  proof (rule wiredI)
    show "kernel_wired s' j" if "j < length (sys_kernels s')" for j
      by (rule kernel_added [OF assms(1,2) _ _ _ _ _ _ same(1) that, of "MRTK ?k"])
        (simp_all add: s' on_world_def sched_of_def MRTKernel_ctor_def, simp add: upd_mrtk_def)
    show "cpu_wired s' c" if "c < sys_cpus s'" "c \<notin> D" for c
    proof -
      have "cpu_wired s c" using assms(1) that by (simp add: wired_but_def s' on_world_def)
      then obtain j where "j < ?k" "kern_of (sys_platform s) c = Some (Some j)" "c \<in> of_kernel (sys_kernels s ! j) (sys_world s)"
        by (auto simp: cpu_wired_def)
      with same(2) show ?thesis
        by (auto simp: cpu_wired_def s' on_world_def Scheduler_setKernel_def nth_append intro!: exI [of _ j])
    qed
  qed (use assms(1) fr in \<open>auto simp: s' on_world_def wired_but_def intro: fresh_setKernel\<close>)
  show "k < length (sys_kernels s')" "sys_kernels s' ! k = MRTK k" "sys_islands s' = sys_islands s"
    by (simp_all add: s' k on_world_def)
qed

lemma make_kernel_partitioned_wired:
  assumes "wired_but {c} s" and "free_sched sc s" and "make_kernel_partitioned sc name c s = Inr s'"
  shows "wired_but {} s'" and "sys_islands s' = sys_islands s" "sys_cpus s' = sys_cpus s"
proof -
  let ?k = "length (sys_kernels s)"
  let ?v = "upd_rtk ?k (\<lambda>_. RTKernel_ctor sc (Some c)) (sys_world s)"
  obtain r o1 pl where pl: "PCPU_setKernel (Some ?k) c (sys_platform s) = Inr pl"
    and s': "s' = on_world (\<lambda>w. Scheduler_setKernel sc (KRoot (RTK ?k)) (upd_rtk ?k (\<lambda>_. RTKernel_ctor sc (Some c)) w))
      (s\<lparr>sys_names := r, sys_others := o1, sys_platform := pl, sys_kernels := sys_kernels s @ [RTK ?k]\<rparr>)"
    using assms(3) by (auto simp: make_kernel_partitioned_def on_platform_def Let_def bindE_eq_Inr elim!: new_other_cases)
  have same: "sched_of (sys_kernels s ! j) ?v = sched_of (sys_kernels s ! j) (sys_world s)"
    "of_kernel (sys_kernels s ! j) ?v = of_kernel (sys_kernels s ! j) (sys_world s)" if "j < ?k" for j
    using old_kernel [OF assms(1) that] that by (auto simp: sched_of_def of_kernel_def upd_rtk_def)
  have fr: "fresh ?v" using assms(1) by (simp add: wired_but_def fresh_def upd_rtk_def)
  note kern = kern_setKernel [OF pl]
  show "wired_but {} s'"
  proof (rule wiredI)
    show "kernel_wired s' j" if "j < length (sys_kernels s')" for j
      by (rule kernel_added [OF assms(1,2) _ _ _ _ _ _ same(1) that, of "RTK ?k"])
        (simp_all add: s' on_world_def sched_of_def RTKernel_ctor_def, simp add: upd_rtk_def)
    show "cpu_wired s' d" if "d < sys_cpus s'" for d
    proof (cases "d = c")
      case True
      then show ?thesis using kern
        by (auto simp: cpu_wired_def s' on_world_def Scheduler_setKernel_def of_kernel_def upd_rtk_def upd_sched_def RTKernel_ctor_def)
    next
      case False
      then have "cpu_wired s d" using assms(1) that by (simp add: wired_but_def s' on_world_def)
      then obtain j where "j < ?k" "kern_of (sys_platform s) d = Some (Some j)" "d \<in> of_kernel (sys_kernels s ! j) (sys_world s)"
        by (auto simp: cpu_wired_def)
      with same(2) kern False show ?thesis
        by (auto simp: cpu_wired_def s' on_world_def Scheduler_setKernel_def nth_append intro!: exI [of _ j])
    qed
  qed (use assms(1) fr kern setters_good(2) [OF _ pl] in \<open>auto simp: s' on_world_def wired_but_def intro: fresh_setKernel\<close>)
  show "sys_islands s' = sys_islands s" "sys_cpus s' = sys_cpus s" by (simp_all add: s' on_world_def)
qed

lemma insort_remove1: "set (insort c (remove1 c xs)) = insert c (set xs)"
  using set_remove1_subset [of c xs] by (auto simp: set_insort_key; metis in_set_remove1)

lemma addCPU_world:
  "sched_of r (MRTKernel_addCPU k c w) = sched_of r w"
  "of_kernel r (MRTKernel_addCPU k c w) = (if r = MRTK k then insert c (of_kernel r w) else of_kernel r w)"
  "scheds (MRTKernel_addCPU k c w) = scheds w" "fresh w \<Longrightarrow> fresh (MRTKernel_addCPU k c w)"
  by (auto simp: MRTKernel_addCPU_def evt_ctor_def sched_of_def of_kernel_def upd_mrtk_def upd_event_def insort_remove1 fresh_def fresh_mrt_def
      fun_eq_iff split: rtkref.split)

lemma system_addCPU_wired:
  assumes "wired_but {c} s" and "k < length (sys_kernels s)" and "sys_kernels s ! k = MRTK k" and "system_addCPU k c s = Inr s'"
  shows "wired_but {} s'" and "sys_islands s' = sys_islands s" "sys_cpus s' = sys_cpus s" "sys_kernels s' = sys_kernels s"
proof -
  obtain pl where pl: "PCPU_setKernel (Some k) c (sys_platform s) = Inr pl"
    and s': "s' = s\<lparr>sys_world := MRTKernel_addCPU k c (sys_world s), sys_platform := pl\<rparr>"
    using assms(4) by (auto simp: system_addCPU_def on_world_def on_platform_def bindE_eq_Inr)
  note kern = kern_setKernel [OF pl]
  show "wired_but {} s'"
  proof (rule wiredI)
    show "cpu_wired s' d" if "d < sys_cpus s'" for d
    proof (cases "d = c")
      case True
      then show ?thesis using kern assms(2,3) by (auto simp: cpu_wired_def s' addCPU_world intro!: exI [of _ k])
    next
      case False
      then have "cpu_wired s d" using assms(1) that by (simp add: wired_but_def s')
      then show ?thesis using kern False by (auto simp: cpu_wired_def s' addCPU_world)
    qed
  qed (use assms(1) kern setters_good(2) [OF _ pl] in \<open>auto simp: s' wired_but_def kernel_wired_def addCPU_world\<close>)
qed (use assms(4) in \<open>auto simp: system_addCPU_def on_world_def on_platform_def bindE_eq_Inr\<close>)

section \<open>The whole system\<close>

lemma on_platform_rest:
  "on_platform f s = Inr s' \<Longrightarrow> sys_kernels s' = sys_kernels s \<and> sys_cpus s' = sys_cpus s \<and> sys_islands s' = sys_islands s
     \<and> sys_schedulers s' = sys_schedulers s \<and> sys_world s' = sys_world s"
  by (auto simp: on_platform_def bindE_eq_Inr)

definition global_ok :: "nat option \<Rightarrow> system \<Rightarrow> bool" where
  "global_ok g s \<longleftrightarrow> (case g of None \<Rightarrow> True | Some k \<Rightarrow> k < length (sys_kernels s) \<and> sys_kernels s ! k = MRTK k)"

text \<open>One processor of an island, and the loop.\<close>

lemma island_setup_wired:
  assumes "wired_but {} s" and "make_cpu name s = Inr (c, s1)"
    and "on_platform (\<lambda>pl. drop_flag (setIsland c (Some i) pl)) s1 = Inr s2"
    and "on_platform (PCPU_setWorkload ''idle'' c) s2 = Inr s3"
  shows "wired_but {c} s3" and "sys_kernels s3 = sys_kernels s" "sys_islands s3 = sys_islands s" "sys_cpus s3 = Suc (sys_cpus s)"
proof -
  note mk = make_cpu_wired [OF assms(1,2)]
  have "wired_but {c} s2"
    by (rule wired_on_platform [OF mk(1) assms(3)]) (auto simp: drop_flag_def bindE_eq_Inr dest: parts_setIsland setIsland_good)
  then show "wired_but {c} s3"
    by (rule wired_on_platform [OF _ assms(4)]) (blast intro: parts_setWorkload setWorkload_good)
  show "sys_kernels s3 = sys_kernels s" "sys_islands s3 = sys_islands s" "sys_cpus s3 = Suc (sys_cpus s)"
    using mk on_platform_rest [OF assms(3)] on_platform_rest [OF assms(4)] by simp_all
qed

lemma make_kernel_of_cpu_wired:
  assumes "wired_but {c} s" and "global_ok g s" and "make_kernel_of_cpu des g cnt c s = Inr s'"
  shows "wired_but {} s'" and "global_ok g s'" and "sys_islands s' = sys_islands s" "sys_cpus s' = sys_cpus s"
proof -
  have "wired_but {} s' \<and> global_ok g s' \<and> sys_islands s' = sys_islands s \<and> sys_cpus s' = sys_cpus s"
  proof (cases "kd_placement (id_kernel des) = ''partitioned''")
    case True
    with assms(3) obtain sc s5 kind where sched: "new_scheduler kind s = Inr (sc, s5)"
      and made: "make_kernel_partitioned sc (id_name des @ ''-kernel'' @ cnt) c s5 = Inr s'"
      by (auto simp: make_kernel_of_cpu_def make_scheduler_def bindE_eq_Inr split: option.splits)
    note sw = new_scheduler_wired [OF assms(1) sched]
    note pw = make_kernel_partitioned_wired [OF sw(1,2) made]
    have "\<exists>r. sys_kernels s' = sys_kernels s5 @ r"
      using made by (auto simp: make_kernel_partitioned_def on_platform_def on_world_def Let_def bindE_eq_Inr elim!: new_other_cases)
    then have "global_ok g s'" using assms(2) sw(3) by (auto simp: global_ok_def nth_append split: option.splits)
    with pw sw show ?thesis by simp
  next
    case False
    with assms(3) obtain k where k: "g = Some k" "system_addCPU k c s = Inr s'" by (auto simp: make_kernel_of_cpu_def split: option.splits)
    then have g: "k < length (sys_kernels s)" "sys_kernels s ! k = MRTK k" using assms(2) by (simp_all add: global_ok_def)
    from system_addCPU_wired [OF assms(1) g k(2)] show ?thesis using assms(2) k(1) by (simp add: global_ok_def)
  qed
  then show "wired_but {} s'" "global_ok g s'" "sys_islands s' = sys_islands s" "sys_cpus s' = sys_cpus s" by simp_all
qed

lemma make_island_cpu_wired:
  assumes "wired_but {} s" and "global_ok g s" and "make_island_cpu des i g s = Inr s'"
  shows "wired_but {} s'" and "global_ok g s'" and "sys_islands s' = sys_islands s" "sys_cpus s' = Suc (sys_cpus s)"
proof -
  let ?cnt = "decimal_int (int (sys_cpus s))"
  obtain p where p: "make_cpu (id_name des @ ''-'' @ ?cnt) s = Inr p" using assms(3)
    by (cases "make_cpu (id_name des @ ''-'' @ ?cnt) s") (simp_all add: make_island_cpu_def Let_def)
  obtain c s1 where "p = (c, s1)" by (cases p)
  with p assms(3) obtain s2 s3 where run: "make_cpu (id_name des @ ''-'' @ ?cnt) s = Inr (c, s1)"
      "on_platform (\<lambda>pl. drop_flag (setIsland c (Some i) pl)) s1 = Inr s2"
      "on_platform (PCPU_setWorkload ''idle'' c) s2 = Inr s3"
    and kern: "make_kernel_of_cpu des g ?cnt c s3 = Inr s'"
    by (auto simp: make_island_cpu_def Let_def bindE_eq_Inr)
  note three = island_setup_wired [OF assms(1) run]
  have g: "global_ok g s3" using assms(2) three(2) by (cases g) (simp_all add: global_ok_def)
  show "wired_but {} s'" "global_ok g s'" "sys_islands s' = sys_islands s" "sys_cpus s' = Suc (sys_cpus s)"
    using make_kernel_of_cpu_wired [OF three(1) g kern] three by simp_all
qed

lemma make_island_cpus_wired:
  "make_island_cpus des i g n s = Inr s' \<Longrightarrow> wired_but {} s \<Longrightarrow> global_ok g s \<Longrightarrow>
   wired_but {} s' \<and> sys_islands s' = sys_islands s \<and> sys_cpus s' = sys_cpus s + n"
proof (induction n arbitrary: s)
  case (Suc n)
  then obtain s1 where one: "make_island_cpu des i g s = Inr s1" and rest: "make_island_cpus des i g n s1 = Inr s'"
    by (auto simp: bindE_eq_Inr)
  note w = make_island_cpu_wired [OF Suc.prems(2,3) one]
  from Suc.IH [OF rest w(1,2)] w show ?case by simp
qed simp

lemma make_island_wired:
  assumes "wired_but {} s" and "make_island ex name opps m s = Inr (i, s')"
  shows "wired_but {} s'" and "i < sys_islands s'" "sys_cpus s' = sys_cpus s"
proof -
  obtain r o1 pl where pl: "CPUIsland_ctor_num ex i [] GENERIC opps (Some m) (sys_platform s) = Inr pl" and i: "i = sys_islands s"
    and s': "s' = s\<lparr>sys_names := r, sys_others := o1, sys_platform := pl, sys_islands := Suc i\<rparr>"
    using assms(2) by (auto simp: make_island_def on_platform_def Type_toString_def bindE_eq_Inr elim!: new_other_cases)
  obtain sl where sl: "pl = put_island i sl (sys_platform s)" using island_ctor_num [OF pl] by blast
  have none: "pl_islands (sys_platform s) i = None" using assms(1) i by (auto simp: wired_but_def)
  have "good {} pl"
  proof -
    have "CPUIsland_ctor ex i [] GENERIC opps (Some m) (sys_platform s) = Inr pl"
      using pl by (auto simp: CPUIsland_ctor_num_def bindE_eq_Inr)
    with assms(1) none show ?thesis by (auto simp: wired_but_def intro: island_ctor_good)
  qed
  then show "wired_but {} s'" using assms(1) sl
    by (intro wiredI) (auto simp: s' i wired_but_def kernel_wired_def cpu_wired_def less_Suc_eq)
  show "i < sys_islands s'" "sys_cpus s' = sys_cpus s" by (simp_all add: s')
qed

lemma make_kernel_of_island_wired:
  assumes "wired_but {} s" and "make_kernel_of_island des s = Inr (g, s')"
  shows "wired_but {} s'" "global_ok g s'" "sys_cpus s' = sys_cpus s" "sys_islands s' = sys_islands s"
proof -
  have "wired_but {} s' \<and> global_ok g s' \<and> sys_cpus s' = sys_cpus s \<and> sys_islands s' = sys_islands s"
  proof (cases "kd_placement (id_kernel des) = ''global''")
    case True
    with assms(2) obtain kind sc s2 k where sched: "new_scheduler kind s = Inr (sc, s2)"
      and made: "make_kernel_global sc (id_name des @ ''-kernel'') s2 = Inr (k, s')" and g: "g = Some k"
      by (auto simp: make_kernel_of_island_def make_scheduler_def bindE_eq_Inr split: option.splits)
    note sw = new_scheduler_wired [OF assms(1) sched]
    have "sys_cpus s' = sys_cpus s2"
      using made by (auto simp: make_kernel_global_def on_world_def Let_def bindE_eq_Inr elim!: new_other_cases)
    with make_kernel_global_wired [OF sw(1,2) made] g sw(4,5) show ?thesis by (simp add: global_ok_def)
  next
    case False
    then show ?thesis using assms by (auto simp: make_kernel_of_island_def global_ok_def)
  qed
  then show "wired_but {} s'" "global_ok g s'" "sys_cpus s' = sys_cpus s" "sys_islands s' = sys_islands s" by simp_all
qed

lemma select_base_opp_wired:
  assumes "wired_but D s" and "select_base_opp f n i s = Inr s'"
  shows "wired_but D s'" "sys_cpus s' = sys_cpus s"
proof -
  obtain idx where opp: "on_platform (Island_setOPP idx i) s = Inr s'"
    using assms(2) unfolding select_base_opp_def bindE_eq_Inr by blast
  show "wired_but D s'" by (rule wired_on_platform [OF assms(1) opp]) (blast intro: parts_setOPP setOPP_good)
  show "sys_cpus s' = sys_cpus s" using on_platform_rest [OF opp] by simp
qed

lemma make_system_island_wired:
  assumes "wired_but {} s" and "make_system_island ex models des s = Inr s'"
  shows "wired_but {} s'" and "sys_cpus s' = sys_cpus s + id_numcpus des"
proof -
  obtain opps m p where p: "make_island ex (id_name des) opps m s = Inr p"
    and rest: "(case p of (island, s1) \<Rightarrow> bindE (make_kernel_of_island des s1) (\<lambda>(global, s2).
      bindE (make_island_cpus des island global (id_numcpus des) s2)
        (select_base_opp (id_base_freq des) (length opps) island))) = Inr s'"
    using assms(2) by (auto simp: make_system_island_def bindE_eq_Inr simp del: split_paired_Ex split: if_splits)
  obtain i s1 where is1: "p = (i, s1)" by (cases p)
  obtain q where q: "make_kernel_of_island des s1 = Inr q" using rest by (auto simp: is1 bindE_eq_Inr)
  obtain g s2 where gs2: "q = (g, s2)" by (cases q)
  obtain s3 where cpus: "make_island_cpus des i g (id_numcpus des) s2 = Inr s3"
    and opp: "select_base_opp (id_base_freq des) (length opps) i s3 = Inr s'"
    using rest q by (auto simp: is1 gs2 bindE_eq_Inr)
  note iw = make_island_wired [OF assms(1) p [unfolded is1]]
  note kw = make_kernel_of_island_wired [OF iw(1) q [unfolded gs2]]
  note cw = make_island_cpus_wired [OF cpus kw(1,2)]
  show "wired_but {} s'" "sys_cpus s' = sys_cpus s + id_numcpus des"
    using select_base_opp_wired [OF _ opp] cw kw iw by auto
qed

lemma make_system_islands_wired:
  "make_system_islands ex models ds s = Inr s' \<Longrightarrow> wired_but {} s \<Longrightarrow>
   wired_but {} s' \<and> sys_cpus s' = sys_cpus s + sum_list (map id_numcpus ds)"
proof (induction ds arbitrary: s)
  case (Cons d ds)
  then obtain s1 where one: "make_system_island ex models d s = Inr s1" and rest: "make_system_islands ex models ds s1 = Inr s'"
    by (auto simp: bindE_eq_Inr)
  note w = make_system_island_wired [OF Cons.prems(2) one]
  from Cons.IH [OF rest w(1)] w show ?case by simp
qed simp

lemma system_cpus_simps [simp]:
  "sched_of r (system_cpus pl w) = sched_of r w" "of_kernel r (system_cpus pl w) = of_kernel r w"
  "scheds (system_cpus pl w) = scheds w" "fresh (system_cpus pl w) = fresh w"
  by (simp_all add: system_cpus_def sched_of_def of_kernel_def fresh_def split: rtkref.split)

lemma System_make_wired:
  assumes "System_make ex des = Inr s"
  shows "wired_but {} s" and "sys_cpus s = sum_list (map id_numcpus (sd_islands des))"
    and "\<And>c x. pl_cpus (sys_platform s) c = Some x \<Longrightarrow> cpus (sys_world s) c = as_world_cpu (sys_platform s) x"
proof -
  obtain s1 where s1: "make_system_islands ex (sd_power_models des) (sd_islands des) no_system = Inr s1"
    and s: "s = on_world (system_cpus (sys_platform s1)) s1"
    using assms by (auto simp: System_make_def bindE_eq_Inr)
  have "wired_but {} s1 \<and> sys_cpus s1 = sys_cpus no_system + sum_list (map id_numcpus (sd_islands des))"
    using make_system_islands_wired [OF s1 wired_no_system] .
  then show "wired_but {} s" "sys_cpus s = sum_list (map id_numcpus (sd_islands des))"
    by (simp_all add: s on_world_def wired_but_def kernel_wired_def cpu_wired_def no_system_def)
  show "pl_cpus (sys_platform s) c = Some x \<Longrightarrow> cpus (sys_world s) c = as_world_cpu (sys_platform s) x" for c x
    by (simp add: s on_world_def system_cpus_def)
qed

end
