(* ===== verification/MainProgram_Laws.thy ===== *)
theory MainProgram_Laws
  imports MainProgram SystemBuild_Laws
begin

text \<open>
  The set-up of a program keeps the wiring of its system, and puts every task and server that is read on a kernel whose
  scheduler knows it.  \<open>setup_ok A p\<close> says this of all but those in \<open>A\<close>, which are made and not placed yet.
\<close>

section \<open>Changes of the world that leave the wiring\<close>

definition wire_same :: "world \<Rightarrow> world \<Rightarrow> bool" where
  "wire_same w w' \<longleftrightarrow> (\<forall>r. sched_of r w' = sched_of r w \<and> of_kernel r w' = of_kernel r w) \<and>
     (\<forall>n. sch_kernel (scheds w' n) = sch_kernel (scheds w n)) \<and> (fresh w \<longrightarrow> fresh w')"

lemma wire_same_trans: "wire_same w w1 \<Longrightarrow> wire_same w1 w2 \<Longrightarrow> wire_same w w2"
  by (simp add: wire_same_def)

lemma wire_same_upd [simp]: "wire_same w (upd_task t ft w)" "wire_same w (upd_resman m fm w)"
  by (simp_all add: wire_same_def sched_of_def of_kernel_def fresh_def upd_defs split: rtkref.split)

lemma wire_same_server: "(\<And>x. fresh_server x \<Longrightarrow> fresh_server (f x)) \<Longrightarrow> wire_same w (upd_server i f w)"
  by (simp add: wire_same_def sched_of_def of_kernel_def fresh_def upd_server_def split: rtkref.split)

lemma wire_same_sched:
  "(\<And>x. sch_kernel (f x) = sch_kernel x \<and> sch_queue (f x) = sch_queue x) \<Longrightarrow> wire_same w (upd_sched n f w)"
  by (simp add: wire_same_def fresh_def) (simp add: upd_sched_def)

lemma wire_same_mrtk:
  "(\<And>x. mk_sched (f x) = mk_sched x \<and> mk_cpus (f x) = mk_cpus x \<and> (fresh_mrt x \<longrightarrow> fresh_mrt (f x))) \<Longrightarrow> wire_same w (upd_mrtk k f w)"
  by (simp add: wire_same_def sched_of_def of_kernel_def fresh_def upd_mrtk_def split: rtkref.split)

lemma wire_same_rtk:
  "(\<And>x. rk_sched (f x) = rk_sched x \<and> rk_cpu (f x) = rk_cpu x) \<Longrightarrow> wire_same w (upd_rtk k f w)"
  by (simp add: wire_same_def sched_of_def of_kernel_def fresh_def upd_rtk_def split: rtkref.split)

lemma wired_world:
  assumes "wired_but D s" and "wire_same (sys_world s) w"
  shows "wired_but D (s\<lparr>sys_world := w\<rparr>)"
  using assms by (simp add: wired_but_def kernel_wired_def cpu_wired_def wire_same_def)

section \<open>Registration of a task with a scheduler\<close>

definition know :: "nat \<Rightarrow> absTask \<Rightarrow> task_model \<Rightarrow> world \<Rightarrow> world" where
  "know n a m = upd_sched n (\<lambda>x. x\<lparr>sch_tasks := (sch_tasks x)(a \<mapsto> m)\<rparr>)"

lemma know_same [simp]: "wire_same w (know n a m w)"
  unfolding know_def by (rule wire_same_sched) simp

lemma know_world [simp]: "tasks (know n a m w) = tasks w" "servers (know n a m w) = servers w" "rtks (know n a m w) = rtks w"
  "mrtks (know n a m w) = mrtks w"
  by (simp_all add: know_def upd_sched_def)

lemma addTask_knows:
  assumes "Scheduler_addTask n a par w = Inr w'"
  obtains m where "w' = know n a m w"
proof -
  have "\<exists>m. w' = know n a m w"
    using assms
    by (auto simp: Scheduler_addTask_def Scheduler_enqueueModel_def RRScheduler_addTask_def know_def upd_model_def upd_sched_def
        bindE_eq_Inr Let_def fun_upd_twist split: sched_kind.splits if_splits)
  with that show thesis by blast
qed

section \<open>Tasks and servers find their kernel\<close>

text \<open>The scheduler \<open>n\<close> was made and knows \<open>a\<close>.\<close>

definition known :: "rtprogram \<Rightarrow> nat \<Rightarrow> absTask \<Rightarrow> bool" where
  "known p n a \<longleftrightarrow> n < sys_schedulers p \<and> sch_tasks (scheds (sys_world p) n) a \<noteq> None"

text \<open>The kernel \<open>r\<close> handles \<open>a\<close>; a kernel of many processors also counts its servers.\<close>

definition handled_by :: "rtkref \<Rightarrow> world \<Rightarrow> absTask \<Rightarrow> bool" where
  "handled_by r w a \<longleftrightarrow> (case r of RTK k \<Rightarrow> a \<in> set (rk_handled (rtks w k))
     | MRTK k \<Rightarrow> a \<in> set (mk_handled (mrtks w k)) \<and> (\<forall>i. a = ServerRef i \<longrightarrow> i \<in> set (mk_servers (mrtks w k))))"

definition on_kernel :: "rtprogram \<Rightarrow> rtkref \<Rightarrow> absTask \<Rightarrow> bool" where
  "on_kernel p r a \<longleftrightarrow> r \<in> set (sys_kernels p) \<and> known p (sched_of r (sys_world p)) a \<and> handled_by r (sys_world p) a"

definition task_placed :: "rtprogram \<Rightarrow> nat \<Rightarrow> bool" where
  "task_placed p t \<longleftrightarrow> (case tkernel (tasks (sys_world p) t) of
     None \<Rightarrow> False
   | Some (KRoot r) \<Rightarrow> on_kernel p r (TaskRef t)
   | Some (KServer s) \<Rightarrow> s < prog_servers p \<and> known p (srv_sched (servers (sys_world p) s)) (TaskRef t)
       \<and> TaskRef t \<in> set (srv_tasks (servers (sys_world p) s)))"

definition server_placed :: "rtprogram \<Rightarrow> nat \<Rightarrow> bool" where
  "server_placed p s \<longleftrightarrow> (case srv_kernel (servers (sys_world p) s) of
     None \<Rightarrow> False | Some r \<Rightarrow> on_kernel p r (ServerRef s))"

text \<open>The scheduler of a server was made, and has the server as its kernel.\<close>

definition server_scheduled :: "rtprogram \<Rightarrow> nat \<Rightarrow> bool" where
  "server_scheduled p i \<longleftrightarrow> srv_sched (servers (sys_world p) i) < sys_schedulers p \<and>
     sch_kernel (scheds (sys_world p) (srv_sched (servers (sys_world p) i))) = Some (KServer i)"

definition pending :: "absTask set \<Rightarrow> rtprogram \<Rightarrow> bool" where
  "pending A p \<longleftrightarrow>
     (\<forall>t<prog_tasks p. (task_placed p t \<or> TaskRef t \<in> A) \<and> int_time (tasks (sys_world p) t) \<noteq> None) \<and>
     (\<forall>i<prog_servers p. (server_placed p i \<or> ServerRef i \<in> A) \<and> server_scheduled p i)"

text \<open>The state of the program while it is set up.\<close>

definition setup_ok :: "absTask set \<Rightarrow> rtprogram \<Rightarrow> bool" where
  "setup_ok A p \<longleftrightarrow> wired_but {} p \<and> pending A p"

text \<open>What keeps the placements.\<close>

definition place_same :: "rtprogram \<Rightarrow> rtprogram \<Rightarrow> bool" where
  "place_same p p' \<longleftrightarrow> sys_kernels p' = sys_kernels p \<and> sys_schedulers p \<le> sys_schedulers p' \<and> prog_servers p \<le> prog_servers p' \<and>
     (\<forall>n < sys_schedulers p. \<forall>a. sch_tasks (scheds (sys_world p) n) a \<noteq> None \<longrightarrow> sch_tasks (scheds (sys_world p') n) a \<noteq> None) \<and>
     (\<forall>n < sys_schedulers p. sch_kernel (scheds (sys_world p') n) = sch_kernel (scheds (sys_world p) n)) \<and>
     (\<forall>r. sched_of r (sys_world p') = sched_of r (sys_world p)) \<and>
     (\<forall>r a. handled_by r (sys_world p) a \<longrightarrow> handled_by r (sys_world p') a) \<and>
     (\<forall>i<prog_servers p. srv_sched (servers (sys_world p') i) = srv_sched (servers (sys_world p) i) \<and>
        set (srv_tasks (servers (sys_world p) i)) \<subseteq> set (srv_tasks (servers (sys_world p') i)))"

lemma known_same: "place_same p p' \<Longrightarrow> known p n a \<Longrightarrow> known p' n a"
  by (simp add: known_def place_same_def)

lemma on_kernel_same: "place_same p p' \<Longrightarrow> on_kernel p r a \<Longrightarrow> on_kernel p' r a"
  using known_same [of p p' "sched_of r (sys_world p)" a] by (simp add: on_kernel_def place_same_def)

lemma task_placed_same:
  assumes "place_same p p'" and "tkernel (tasks (sys_world p') t) = tkernel (tasks (sys_world p) t)" and "task_placed p t"
  shows "task_placed p' t"
  using assms known_same [OF assms(1)] on_kernel_same [OF assms(1)]
  by (auto simp: task_placed_def place_same_def split: option.splits kernref.splits)

lemma server_placed_same:
  assumes "place_same p p'" and "srv_kernel (servers (sys_world p') i) = srv_kernel (servers (sys_world p) i)" and "server_placed p i"
  shows "server_placed p' i"
  using assms on_kernel_same [OF assms(1)] by (auto simp: server_placed_def split: option.splits)

lemma server_scheduled_same:
  "place_same p p' \<Longrightarrow> i < prog_servers p \<Longrightarrow> server_scheduled p i \<Longrightarrow> server_scheduled p' i"
  by (auto simp: server_scheduled_def place_same_def)

lemma pending_same:
  assumes "place_same p p'" and "pending A p" and "A \<subseteq> B"
    and "\<And>t. t < prog_tasks p \<Longrightarrow> tkernel (tasks (sys_world p') t) = tkernel (tasks (sys_world p) t)"
      "\<And>t. t < prog_tasks p \<Longrightarrow> int_time (tasks (sys_world p') t) = int_time (tasks (sys_world p) t)"
    and "\<And>i. i < prog_servers p \<Longrightarrow> srv_kernel (servers (sys_world p') i) = srv_kernel (servers (sys_world p) i)"
    and "\<And>t. prog_tasks p \<le> t \<Longrightarrow> t < prog_tasks p' \<Longrightarrow> TaskRef t \<in> B \<and> int_time (tasks (sys_world p') t) \<noteq> None"
    and "\<And>i. prog_servers p \<le> i \<Longrightarrow> i < prog_servers p' \<Longrightarrow> ServerRef i \<in> B \<and> server_scheduled p' i"
  shows "pending B p'"
proof -
  have "(task_placed p' t \<or> TaskRef t \<in> B) \<and> int_time (tasks (sys_world p') t) \<noteq> None" if "t < prog_tasks p'" for t
  proof (cases "t < prog_tasks p")
    case True
    then show ?thesis using assms(2,3) task_placed_same [OF assms(1) assms(4) [OF True]] assms(5) [OF True] by (auto simp: pending_def)
  next
    case False
    then show ?thesis using assms(7) that by simp
  qed
  moreover have "(server_placed p' i \<or> ServerRef i \<in> B) \<and> server_scheduled p' i"
    if "i < prog_servers p'" for i
  proof (cases "i < prog_servers p")
    case True
    then show ?thesis using assms(2,3) server_placed_same [OF assms(1) assms(6) [OF True]] server_scheduled_same [OF assms(1) True]
      by (auto simp: pending_def)
  next
    case False
    then show ?thesis using assms(8) that by simp
  qed
  ultimately show ?thesis by (simp add: pending_def)
qed

section \<open>Making tasks, servers and resources\<close>

lemma new_other_setup:
  assumes "setup_ok A p" and "new_other name e p = Inr p'"
  shows "setup_ok A p'" "prog_tasks p' = prog_tasks p" "prog_servers p' = prog_servers p" "sys_world p' = sys_world p"
    "sys_kernels p' = sys_kernels p" "sys_schedulers p' = sys_schedulers p"
proof -
  obtain r o1 where p': "p' = p\<lparr>sys_names := r, sys_others := o1\<rparr>" using assms(2) by (rule new_other_cases)
  have "pending A p'" using assms(1)
    by (intro pending_same [of p p' A A]) (auto simp: p' place_same_def setup_ok_def)
  then show "setup_ok A p'" using assms(1) by (simp add: setup_ok_def p')
qed (use assms(2) in \<open>auto elim!: new_other_cases\<close>)

lemma world_setup:
  assumes "setup_ok A p" and "wire_same (sys_world p) w" and "scheds w = scheds (sys_world p)"
    and "tasks w = tasks (sys_world p)" and "servers w = servers (sys_world p)"
    and "\<And>r a. handled_by r (sys_world p) a \<Longrightarrow> handled_by r w a"
  shows "setup_ok A (p\<lparr>sys_world := w\<rparr>)"
proof -
  have "place_same p (p\<lparr>sys_world := w\<rparr>)" using assms(2,3,5,6) by (simp add: place_same_def wire_same_def)
  then have "pending A (p\<lparr>sys_world := w\<rparr>)"
    by (rule pending_same) (use assms(1,4,5) in \<open>auto simp: setup_ok_def fun_eq_iff\<close>)
  with wired_world [of "{}" p w] assms(1,2) show ?thesis by (simp add: setup_ok_def)
qed

lemma make_resource_setup:
  assumes "setup_ok A p" and "make_resource o1 p = Inr p'"
  shows "setup_ok A p'"
proof -
  obtain name p1 n where p1: "new_other name (Some (ResourceEnt 0 name)) p = Inr p1"
    and p': "p' = p1\<lparr>sys_world := ResManager_addResource 0 name 1 n (sys_world p1)\<rparr>"
    using assms(2) by (auto simp: make_resource_def Let_def bindE_eq_Inr on_world_def split: if_splits)
  show ?thesis unfolding p'
    by (rule world_setup [OF new_other_setup(1) [OF assms(1) p1]])
      (simp_all add: ResManager_addResource_def, simp_all add: upd_resman_def handled_by_def split: rtkref.splits)
qed

lemma make_resources_setup: "make_resources os p = Inr p' \<Longrightarrow> setup_ok A p \<Longrightarrow> setup_ok A p'"
  by (induction os arbitrary: p) (auto simp: bindE_eq_Inr dest: make_resource_setup)

lemma upd_rest [simp]:
  "scheds (upd_rtk k fk w) = scheds w" "tasks (upd_rtk k fk w) = tasks w" "servers (upd_rtk k fk w) = servers w"
  "scheds (upd_mrtk k fm w) = scheds w" "tasks (upd_mrtk k fm w) = tasks w" "servers (upd_mrtk k fm w) = servers w"
  "scheds (upd_task t ft w) = scheds w" "servers (upd_task t ft w) = servers w"
  "scheds (upd_server i fs w) = scheds w" "tasks (upd_server i fs w) = tasks w"
  "tasks (upd_sched n fc w) = tasks w" "servers (upd_sched n fc w) = servers w"
  by (simp_all add: upd_defs)

lemma upd_here [simp]:
  "tasks (upd_task t ft w) t = ft (tasks w t)" "u \<noteq> t \<Longrightarrow> tasks (upd_task t ft w) u = tasks w u"
  "servers (upd_server i fs w) i = fs (servers w i)" "j \<noteq> i \<Longrightarrow> servers (upd_server i fs w) j = servers w j"
  by (simp_all add: upd_defs)

lemma sched_of_upd [simp]:
  "sched_of r (upd_task t ft w) = sched_of r w" "sched_of r (upd_server i fs w) = sched_of r w"
  by (simp_all add: sched_of_def upd_defs split: rtkref.split)

lemma handled_by_upd [simp]:
  "handled_by r (upd_task t ft w) = handled_by r w" "handled_by r (upd_server i fs w) = handled_by r w"
  "handled_by r (upd_sched n fc w) = handled_by r w" "handled_by r (upd_resman m fm w) = handled_by r w"
  by (simp_all add: fun_eq_iff handled_by_def upd_defs split: rtkref.split)

lemma scheds_upd_if: "scheds (upd_sched n f w) m = (if m = n then f (scheds w n) else scheds w m)"
  by simp

lemma setResManager_setup:
  "setup_ok A p \<Longrightarrow> setup_ok A (on_world (\<lambda>w. fold kernel_setResManager ks w) p)"
proof (induction ks arbitrary: p)
  case (Cons k ks)
  have "setup_ok A (p\<lparr>sys_world := kernel_setResManager k (sys_world p)\<rparr>)"
    by (rule world_setup [OF Cons.prems])
      (auto simp: kernel_setResManager_def fresh_mrt_def split: rtkref.split intro!: wire_same_rtk wire_same_mrtk,
       auto simp: handled_by_def upd_rtk_def upd_mrtk_def split: rtkref.splits if_splits)
  then show ?case using Cons.IH [of "p\<lparr>sys_world := kernel_setResManager k (sys_world p)\<rparr>"] by (simp add: on_world_def)
qed (simp add: on_world_def)

lemma make_task_setup:
  assumes "setup_ok A p" and "make_task pe ts p = Some (Inr (t, p'))"
  shows "setup_ok (insert (TaskRef t) A) p'" and "t < prog_tasks p'"
proof -
  obtain r1 f where p': "p' = p\<lparr>sys_names := r1, prog_tasks := Suc t, sys_world := upd_task t f (sys_world p)\<rparr>" and t: "t = prog_tasks p"
    and f: "\<And>x. int_time (f x) \<noteq> None"
    using assms(2) by (auto simp: make_task_def Let_def bindN_def on_world_def Task_ctor_def split: option.splits sum.splits)
  have w: "wired_but {} p'" using wired_world [of "{}" p "upd_task t f (sys_world p)"] assms(1)
    by (simp add: p' setup_ok_def wired_but_def kernel_wired_def cpu_wired_def)
  have same: "place_same p p'"
    by (simp add: p' place_same_def)
  have "pending (insert (TaskRef t) A) p'"
    by (rule pending_same [OF same]) (use assms(1) t f in \<open>auto simp: setup_ok_def p' less_Suc_eq\<close>)
  with w show "setup_ok (insert (TaskRef t) A) p'" by (simp add: setup_ok_def)
  show "t < prog_tasks p'" by (simp add: p')
qed

lemma new_scheduler_setup:
  assumes "setup_ok A p" and "new_scheduler kind p = Inr (n, p')"
  shows "setup_ok A p'" "free_sched n p'" "prog_tasks p' = prog_tasks p" "prog_servers p' = prog_servers p"
    "n = sys_schedulers p" "sys_schedulers p' = Suc n"
proof -
  obtain r o1 where p': "p' = p\<lparr>sys_names := r, sys_others := o1, sys_schedulers := Suc n,
      sys_world := upd_sched n (\<lambda>_. Scheduler_ctor kind) (sys_world p)\<rparr>" and n: "n = sys_schedulers p"
    using assms(2) by (auto simp: new_scheduler_def Let_def bindE_eq_Inr on_world_def elim!: new_other_cases)
  note sw = new_scheduler_wired [of "{}" p, OF _ assms(2)]
  have same: "place_same p p'" by (simp add: p' place_same_def n)
  have "pending A p'" by (rule pending_same [OF same]) (use assms(1) in \<open>auto simp: setup_ok_def p'\<close>)
  then show "setup_ok A p'" "free_sched n p'" using sw assms(1) by (simp_all add: setup_ok_def)
  show "prog_tasks p' = prog_tasks p" "prog_servers p' = prog_servers p" "n = sys_schedulers p" "sys_schedulers p' = Suc n"
    by (simp_all add: p' n)
qed

text \<open>The scheduler of a server is the server's alone.\<close>

lemma setKernel_free:
  assumes "wired_but D p" and "free_sched n p"
  shows "wired_but D (p\<lparr>sys_world := Scheduler_setKernel n r (sys_world p)\<rparr>)"
proof (rule wiredI)
  show "kernel_wired (p\<lparr>sys_world := Scheduler_setKernel n r (sys_world p)\<rparr>) k" if "k < length (sys_kernels (p\<lparr>sys_world := Scheduler_setKernel n r (sys_world p)\<rparr>))" for k
    using assms that by (auto simp: wired_but_def kernel_wired_def free_sched_def Scheduler_setKernel_def)
qed (use assms in \<open>auto simp: wired_but_def cpu_wired_def Scheduler_setKernel_def intro: fresh_setKernel [unfolded Scheduler_setKernel_def]\<close>)

lemma sched_of_sched: "sched_of r (upd_sched n f w) = sched_of r w"
  by (simp add: sched_of_def upd_sched_def split: rtkref.split)

lemma make_server_setup:
  assumes "setup_ok A p" and "make_server ts p = Inr (i, p')"
  shows "setup_ok (insert (ServerRef i) A) p'" and "i < prog_servers p'" and "prog_tasks p' = prog_tasks p"
proof -
  obtain p1 kind n p2 p3 where p1: "new_other (''cbserver_'' @ ts_name ts) (Some (CBServerEnt i)) p = Inr p1"
    and p2: "new_scheduler kind p1 = Inr (n, p2)" and p3: "new_other [] (Some (CapacityTimerEnt i)) p2 = Inr p3"
    and i: "i = prog_servers p"
    and p': "p' = on_world (\<lambda>w. Scheduler_setKernel n (KServer i) (upd_server i (\<lambda>_. CBServer_ctor (IDcount (sys_names p1))
               (ts_cbs_runtime ts) (ts_cbs_period ts) (ts_cbs_deadline ts) True n) w)) (p3\<lparr>prog_servers := Suc i\<rparr>)"
    using assms(2) unfolding make_server_def Let_def by (auto simp: bindE_eq_Inr simp del: split_paired_Ex split: option.splits)
  note o1 = new_other_setup [OF assms(1) p1] and sc = new_scheduler_setup [OF new_other_setup(1) [OF assms(1) p1] p2]
  note o2 = new_other_setup [OF sc(1) p3]
  let ?f = "\<lambda>_. CBServer_ctor (IDcount (sys_names p1)) (ts_cbs_runtime ts) (ts_cbs_period ts) (ts_cbs_deadline ts) True n"
  let ?q = "p3\<lparr>sys_world := upd_server i ?f (sys_world p3)\<rparr>"
  have "free_sched n p3" using sc(2) o2 by (simp add: free_sched_def)
  then have free: "free_sched n ?q" by (simp add: free_sched_def)
  have "wired_but {} ?q" using wired_world [of "{}" p3] o2(1)
    by (simp add: setup_ok_def wire_same_server fresh_server_def CBServer_ctor_def)
  from setKernel_free [OF this free, of "KServer i"] have w: "wired_but {} p'"
    by (simp add: p' on_world_def wired_but_def kernel_wired_def cpu_wired_def)
  have world: "sys_world p2 = upd_sched n (\<lambda>_. Scheduler_ctor kind) (sys_world p1)" "sys_kernels p2 = sys_kernels p1"
    using p2 by (auto simp: new_scheduler_def Let_def bindE_eq_Inr on_world_def elim!: new_other_cases)
  have same: "place_same p1 p'"
    using o1 sc o2 i world by (simp add: p' on_world_def place_same_def Scheduler_setKernel_def scheds_upd_if sched_of_sched)
  have "pending (insert (ServerRef i) A) p'"
    by (rule pending_same [OF same]) (use o1 sc o2 i world in \<open>auto simp: setup_ok_def p' on_world_def Scheduler_setKernel_def
        CBServer_ctor_def server_scheduled_def less_Suc_eq\<close>)
  with w show "setup_ok (insert (ServerRef i) A) p'" by (simp add: setup_ok_def)
  show "i < prog_servers p'" "prog_tasks p' = prog_tasks p" using o1 sc o2 by (simp_all add: p' on_world_def)
qed

section \<open>Placing tasks and servers\<close>

lemma know_sched [simp]:
  "sch_tasks (scheds (know n a m w) n') b = (if n' = n \<and> b = a then Some m else sch_tasks (scheds w n') b)"
  by (simp add: know_def scheds_upd_if)

lemma sched_of_know [simp]: "sched_of r (know n a m w) = sched_of r w" "handled_by r (know n a m w) = handled_by r w"
  by (simp_all add: know_def)

text \<open>A task or server gets its kernel and is told to the scheduler of the kernel.\<close>

lemma placed_setup:
  assumes "setup_ok A p" and w: "wire_same (sys_world p) w" "\<And>n b. sch_tasks (scheds (sys_world p) n) b \<noteq> None \<Longrightarrow> sch_tasks (scheds w n) b \<noteq> None"
    "\<And>i. srv_sched (servers w i) = srv_sched (servers (sys_world p) i)
       \<and> set (srv_tasks (servers (sys_world p) i)) \<subseteq> set (srv_tasks (servers w i))"
    "\<And>r b. handled_by r (sys_world p) b \<Longrightarrow> handled_by r w b"
    and int: "\<And>t. int_time (tasks w t) = int_time (tasks (sys_world p) t)"
    and others: "\<And>t. TaskRef t \<noteq> a \<Longrightarrow> tkernel (tasks w t) = tkernel (tasks (sys_world p) t)"
      "\<And>i. ServerRef i \<noteq> a \<Longrightarrow> srv_kernel (servers w i) = srv_kernel (servers (sys_world p) i)"
    and a: "\<And>t. a = TaskRef t \<Longrightarrow> task_placed (p\<lparr>sys_world := w\<rparr>) t" "\<And>i. a = ServerRef i \<Longrightarrow> server_placed (p\<lparr>sys_world := w\<rparr>) i"
  shows "setup_ok (A - {a}) (p\<lparr>sys_world := w\<rparr>)"
proof -
  let ?p = "p\<lparr>sys_world := w\<rparr>"
  have same: "place_same p ?p" using w by (simp add: place_same_def wire_same_def)
  have "task_placed ?p t \<or> TaskRef t \<in> A - {a}" if "t < prog_tasks p" for t
    using that assms(1) task_placed_same [OF same, of t] others(1) [of t] a(1) [of t] by (auto simp: setup_ok_def pending_def)
  moreover have "server_placed ?p i \<or> ServerRef i \<in> A - {a}" if "i < prog_servers p" for i
    using that assms(1) server_placed_same [OF same, of i] others(2) [of i] a(2) [of i] by (auto simp: setup_ok_def pending_def)
  moreover have "server_scheduled ?p i" if "i < prog_servers p" for i
    using that assms(1) server_scheduled_same [OF same that] by (simp add: setup_ok_def pending_def)
  ultimately have "pending (A - {a}) ?p" using assms(1) int by (simp add: pending_def setup_ok_def)
  with wired_world [of "{}" p w] assms(1) w(1) show ?thesis by (simp add: setup_ok_def)
qed

lemma wire_same_know: "wire_same w w' \<Longrightarrow> wire_same w (know n a m w')"
  by (rule wire_same_trans [OF _ know_same])

lemma wire_same_upd_server:
  "wire_same w w' \<Longrightarrow> (\<And>x. fresh_server x \<Longrightarrow> fresh_server (f x)) \<Longrightarrow> wire_same w (upd_server i f w')"
  by (rule wire_same_trans [OF _ wire_same_server])

lemma servers_upd_if: "servers (upd_server i f w) j = (if j = i then f (servers w i) else servers w j)"
  "tasks (upd_task i g w) j = (if j = i then g (tasks w i) else tasks w j)"
  by simp_all

lemma add_to_server_setup:
  assumes "setup_ok A p" and "i < prog_servers p" and "add_to_server i t p = Inr p'"
  shows "setup_ok (A - {TaskRef t}) p'" and "prog_tasks p' = prog_tasks p" "prog_servers p' = prog_servers p"
proof -
  let ?w = "sys_world p"
  obtain m where p': "p' = p\<lparr>sys_world := upd_server i (\<lambda>x. x\<lparr>cbs_yielding := False\<rparr>) (know (srv_sched (servers ?w i)) (TaskRef t) m
      (upd_server i (\<lambda>x. x\<lparr>srv_tasks := srv_tasks x @ [TaskRef t]\<rparr>) (upd_task t (\<lambda>x. x\<lparr>tkernel := Some (KServer i)\<rparr>) ?w)))\<rparr>"
    using assms(3) by (auto simp: add_to_server_def CBServer_addTask_def Server_addTask_def Task_setKernel_def bindE_eq_Inr
        split: if_splits elim!: addTask_knows)
  have n: "srv_sched (servers ?w i) < sys_schedulers p" using assms(1,2) by (simp add: setup_ok_def pending_def server_scheduled_def)
  show "setup_ok (A - {TaskRef t}) p'" unfolding p'
    by (rule placed_setup [OF assms(1)])
      (use assms(2) n in \<open>auto simp: servers_upd_if task_placed_def known_def fresh_server_def intro!: wire_same_upd_server wire_same_know\<close>)
  show "prog_tasks p' = prog_tasks p" "prog_servers p' = prog_servers p" by (simp_all add: p')
qed

text \<open>The kernel is told to the task, or to the server.\<close>

definition told :: "rtkref \<Rightarrow> absTask \<Rightarrow> world \<Rightarrow> world" where
  "told r a w = (case a of TaskRef t \<Rightarrow> upd_task t (\<lambda>x. x\<lparr>tkernel := Some (KRoot r)\<rparr>) w
     | ServerRef i \<Rightarrow> upd_server i (\<lambda>x. x\<lparr>srv_kernel := Some r\<rparr>) w)"

lemma told_same [simp]: "wire_same w (told r a w)"
  by (auto simp: told_def fresh_server_def split: absTask.split intro: wire_same_server)

lemma told_simps [simp]:
  "scheds (told r a w) = scheds w" "rtks (told r a w) = rtks w" "mrtks (told r a w) = mrtks w"
  "tkernel (tasks (told r a w) t) = (if a = TaskRef t then Some (KRoot r) else tkernel (tasks w t))"
  "srv_kernel (servers (told r a w) i) = (if a = ServerRef i then Some r else srv_kernel (servers w i))"
  "srv_sched (servers (told r a w) i) = srv_sched (servers w i)" "srv_tasks (servers (told r a w) i) = srv_tasks (servers w i)"
  "handled_by r' (told r a w) = handled_by r' w" "int_time (tasks (told r a w) t) = int_time (tasks w t)"
  by (auto simp: told_def handled_by_def fun_eq_iff upd_defs split: absTask.splits rtkref.splits)

text \<open>What \<open>kernel_addTask\<close> does: \<open>f\<close> and \<open>g\<close> change the kernel.\<close>

lemma kernel_addTask_cases:
  assumes "kernel_addTask r a w = Inr w'"
  obtains f g m where "w' = g (know (sched_of r w) a m (f (told r a w)))"
    "\<And>v. wire_same v (f v) \<and> tasks (f v) = tasks v \<and> servers (f v) = servers v \<and> scheds (f v) = scheds v"
    "\<And>v. wire_same v (g v) \<and> tasks (g v) = tasks v \<and> servers (g v) = servers v \<and> scheds (g v) = scheds v"
    "\<And>v r' b. handled_by r' v b \<Longrightarrow> handled_by r' (f v) b" "\<And>v r' b. handled_by r' v b \<Longrightarrow> handled_by r' (g v) b"
    "handled_by r w' a"
proof (cases r)
  case (RTK k)
  let ?f = "upd_rtk k (\<lambda>x. x\<lparr>rk_handled := rk_handled x @ [a]\<rparr>)"
  from assms RTK obtain m where w': "w' = know (sched_of r w) a m (?f (told r a w))"
    by (auto simp: kernel_addTask_def RTKernel_addTask_def told_def Task_setKernel_def Server_setKernel_def sched_of_def bindE_eq_Inr upd_task_def upd_server_def
        split: if_splits absTask.splits elim!: addTask_knows)
  show ?thesis by (rule that [of "\<lambda>v. v" m ?f]) (auto simp: wire_same_def [of v v for v] RTK intro!: wire_same_rtk,
      auto simp: w' RTK handled_by_def know_def upd_rtk_def upd_sched_def split: rtkref.splits)
next
  case (MRTK k)
  let ?f = "upd_mrtk k (\<lambda>x. x\<lparr>mk_handled := mk_handled x @ [a]\<rparr>)"
  let ?g = "upd_mrtk k (\<lambda>x. x\<lparr>mk_oldExe := (mk_oldExe x)(a := None), mk_dispatched := (mk_dispatched x)(a := None),
            mk_servers := (case a of TaskRef _ \<Rightarrow> mk_servers x | ServerRef s \<Rightarrow> mk_servers x @ [s])\<rparr>)"
  from assms MRTK obtain m where w': "w' = ?g (know (sched_of r w) a m (?f (told r a w)))"
    by (auto simp: kernel_addTask_def MRTKernel_addTask_def told_def Task_setKernel_def Server_setKernel_def sched_of_def bindE_eq_Inr upd_task_def upd_server_def
        split: if_splits absTask.splits elim!: addTask_knows)
  show ?thesis by (rule that [of ?g m ?f]) (auto simp: fresh_mrt_def fun_eq_iff MRTK intro!: wire_same_mrtk,
      auto simp: w' MRTK handled_by_def know_def upd_mrtk_def upd_sched_def split: rtkref.splits absTask.splits)
qed

lemma kernel_addTask_setup:
  assumes "setup_ok A p" and r: "r \<in> set (sys_kernels p)" and "kernel_addTask r a (sys_world p) = Inr w"
  shows "setup_ok (A - {a}) (p\<lparr>sys_world := w\<rparr>)"
proof -
  obtain k where k: "k < length (sys_kernels p)" "r = sys_kernels p ! k" using r by (auto simp: in_set_conv_nth)
  then have n: "sched_of r (sys_world p) < sys_schedulers p" using assms(1) by (simp add: setup_ok_def wired_but_def kernel_wired_def)
  obtain f g m where w: "w = g (know (sched_of r (sys_world p)) a m (f (told r a (sys_world p))))"
    and f: "\<And>v. wire_same v (f v) \<and> tasks (f v) = tasks v \<and> servers (f v) = servers v \<and> scheds (f v) = scheds v"
    and g: "\<And>v. wire_same v (g v) \<and> tasks (g v) = tasks v \<and> servers (g v) = servers v \<and> scheds (g v) = scheds v"
    and keep: "\<And>v r' b. handled_by r' v b \<Longrightarrow> handled_by r' (f v) b" "\<And>v r' b. handled_by r' v b \<Longrightarrow> handled_by r' (g v) b"
    and here: "handled_by r w a"
    using kernel_addTask_cases [OF assms(3)] by blast
  have same: "wire_same (sys_world p) w" unfolding w
    by (rule wire_same_trans [OF _ conjunct1 [OF g]], rule wire_same_know, rule wire_same_trans [OF _ conjunct1 [OF f]]) simp
  have at: "sched_of r w = sched_of r (sys_world p)" using same by (simp add: wire_same_def)
  show ?thesis
    by (rule placed_setup [OF assms(1) same])
      (use r n at here in \<open>auto simp: w f g task_placed_def server_placed_def on_kernel_def known_def intro!: keep\<close>)
qed

lemma cpu_kernel_mem:
  assumes "wired_but {} p" and "cpu_kernel c p = Inr r"
  shows "r \<in> set (sys_kernels p)"
proof -
  obtain x k where x: "pl_cpus (sys_platform p) (nat c) = Some x" "pc_kernel x = Some k" "r = sys_kernels p ! k" and c: "nat c < sys_cpus p"
    using assms(2) by (auto simp: cpu_kernel_def bindE_eq_Inr split: if_splits option.splits)
  then have "k < length (sys_kernels p)" using assms(1) by (auto simp: wired_but_def cpu_wired_def kern_of_def)
  with x show ?thesis by simp
qed

lemma place_all_setup: "place_all xs p = Inr p' \<Longrightarrow> setup_ok A p \<Longrightarrow> setup_ok (A - fst ` set xs) p'"
proof (induction xs arbitrary: A p)
  case (Cons x xs)
  obtain a c where x: "x = (a, c)" by (cases x)
  with Cons.prems(1) obtain r w where r: "cpu_kernel c p = Inr r" and w: "kernel_addTask r a (sys_world p) = Inr w"
    and rest: "place_all xs (p\<lparr>sys_world := w\<rparr>) = Inr p'" by (auto simp: bindE_eq_Inr)
  have "r \<in> set (sys_kernels p)" using cpu_kernel_mem [OF _ r] Cons.prems(2) by (simp add: setup_ok_def)
  from Cons.IH [OF rest kernel_addTask_setup [OF Cons.prems(2) this w]] have "setup_ok (A - {a} - fst ` set xs) p'" .
  moreover have "A - {a} - fst ` set xs = A - fst ` set (x # xs)" using x by auto
  ultimately show ?case by simp
qed simp

lemma setup_ok_mono: "setup_ok A p \<Longrightarrow> A \<subseteq> B \<Longrightarrow> setup_ok B p"
  by (auto simp: setup_ok_def pending_def)

lemma make_placement_setup:
  assumes "setup_ok A p" and "make_placement pe o1 p = Some (Inr (x, p'))"
  shows "setup_ok (insert (fst x) A) p'"
proof -
  obtain ts t p1 where t: "make_task pe ts p = Some (Inr (t, p1))"
    and rest: "(if 0 < ts_cbs_period ts then Some (bindE (make_server ts p1) (\<lambda>(s, p2).
           bindE (add_to_server s t p2) (\<lambda>p3. Inr ((ServerRef s, ts_startcpu ts), p3))))
       else Some (Inr ((TaskRef t, ts_startcpu ts), p1))) = Some (Inr (x, p'))"
    using assms(2) unfolding make_placement_def bindN_def by (auto split: option.splits sum.splits prod.splits)
  note tk = make_task_setup [OF assms(1) t]
  show ?thesis
  proof (cases "0 < ts_cbs_period ts")
    case True
    then obtain q where "make_server ts p1 = Inr q" using rest by (auto simp: bindE_eq_Inr)
    then obtain i p2 where i: "make_server ts p1 = Inr (i, p2)" by (cases q) auto
    with True rest obtain p3 where p3: "add_to_server i t p2 = Inr p3" and x: "x = (ServerRef i, ts_startcpu ts)" "p' = p3"
      by (auto simp: bindE_eq_Inr)
    note sv = make_server_setup [OF tk(1) i]
    show ?thesis unfolding x by (rule setup_ok_mono [OF add_to_server_setup(1) [OF sv(1,2) p3]]) auto
  next
    case False
    with rest tk show ?thesis by auto
  qed
qed

lemma make_placements_setup:
  "make_placements pe os p = Some (Inr (xs, p')) \<Longrightarrow> setup_ok A p \<Longrightarrow> setup_ok (fst ` set xs \<union> A) p'"
proof (induction os arbitrary: p xs A)
  case (Cons o1 os)
  then obtain x p1 ys where x: "make_placement pe o1 p = Some (Inr (x, p1))"
    and ys: "make_placements pe os p1 = Some (Inr (ys, p'))" and xs: "xs = x # ys"
    by (auto simp: bindN_def split: option.splits sum.splits prod.splits)
  from Cons.IH [OF ys make_placement_setup [OF Cons.prems(2) x]] show ?case by (simp add: xs)
qed simp

lemma with_program_setup: "wired_but {} s \<Longrightarrow> setup_ok {} (with_program s)"
  by (simp add: setup_ok_def pending_def with_program_def wired_but_def kernel_wired_def cpu_wired_def system.defs)

lemma main_setup_ok:
  assumes "main_setup ex pe fe opts = Some (Inr p)"
  shows "setup_ok {} p"
proof -
  obtain sys p1 p2 xs where sys: "System_ctor ex fe (opt_system opts) = Some (Inr sys)"
    and p1: "read_resources fe (opt_taskset opts) (with_program sys) = Some (Inr p1)"
    and p2: "read_taskset pe fe (opt_taskset opts) (on_world (\<lambda>w. fold kernel_setResManager (sys_kernels p1) w) p1) = Some (Inr (xs, p2))"
    and p: "place_all xs p2 = Inr p"
    using assms by (auto simp: main_setup_def bindN_def split: option.splits sum.splits prod.splits)
  obtain des where "System_make ex des = Inr sys" using sys by (auto simp: System_ctor_def bindN_def split: option.splits sum.splits)
  then have "setup_ok {} (with_program sys)" by (rule with_program_setup [OF System_make_wired(1)])
  then have "setup_ok {} p1" using p1
    by (auto simp: read_resources_def bindN_def bindE_eq_Inr split: option.splits sum.splits dest: new_other_setup(1) make_resources_setup)
  then have "setup_ok {} (on_world (\<lambda>w. fold kernel_setResManager (sys_kernels p1) w) p1)" by (rule setResManager_setup)
  moreover obtain os where "make_placements pe os (on_world (\<lambda>w. fold kernel_setResManager (sys_kernels p1) w) p1) = Some (Inr (xs, p2))"
    using p2 by (auto simp: read_taskset_def bindN_def split: option.splits sum.splits)
  ultimately have "setup_ok (fst ` set xs) p2" using make_placements_setup by fastforce
  from place_all_setup [OF p this] show ?thesis by simp
qed

end
