(* ===== verification/Entities_Laws.thy ===== *)
theory Entities_Laws
  imports Entities
begin

text \<open>
  The registry of entities is a bijection between the live objects, their numbers and their names.
\<close>

definition live :: "'p registry \<Rightarrow> 'p set" where
  "live r = ran (globMap r)"

definition reg_inv :: "'p registry \<Rightarrow> bool" where
  "reg_inv r \<longleftrightarrow> 0 \<le> IDcount r \<and> (\<forall>k p. globMap r k = Some p \<longrightarrow> ent_ID r p = k \<and> 1 \<le> k \<and> k \<le> IDcount r) \<and>
     (\<forall>n p. index r n = Some p \<longleftrightarrow> p \<in> live r \<and> ent_name r p = n)"

lemma live_ID: "reg_inv r \<Longrightarrow> p \<in> live r \<Longrightarrow> globMap r (ent_ID r p) = Some p"
  by (auto simp: reg_inv_def live_def ran_def)

lemma index_live: "reg_inv r \<Longrightarrow> index r n = Some p \<longleftrightarrow> p \<in> live r \<and> ent_name r p = n"
  by (simp add: reg_inv_def)

lemma globMap_bound: "reg_inv r \<Longrightarrow> globMap r k = Some p \<Longrightarrow> ent_ID r p = k \<and> 1 \<le> k \<and> k \<le> IDcount r"
  by (simp add: reg_inv_def)

lemma new_number: "reg_inv r \<Longrightarrow> IDcount r < k \<Longrightarrow> globMap r k = None"
  using globMap_bound [of r k] by (cases "globMap r k") force+

lemma empty_registry_inv: "reg_inv empty_registry"
  by (simp add: reg_inv_def empty_registry_def live_def)

lemma Entity_init_live:
  assumes "reg_inv r" and "Entity_init p n r = Inr r'"
  shows "live r' = insert p (live r)"
proof -
  have "globMap r' = (globMap r)(IDcount r + 1 := Some p)"
    using assms(2) by (auto simp: Entity_init_def Let_def split: if_splits)
  then show ?thesis using new_number [OF assms(1), of "IDcount r + 1"] by (simp add: live_def ran_map_upd)
qed

lemma Entity_init_inv:
  assumes "reg_inv r" and "p \<notin> live r" and "Entity_init p n r = Inr r'"
  shows "reg_inv r'"
proof -
  obtain N where free: "index r N = None" and r': "r' = r\<lparr>IDcount := IDcount r + 1,
      ent_ID := (ent_ID r)(p := IDcount r + 1), ent_name := (ent_name r)(p := N),
      globMap := (globMap r)(IDcount r + 1 := Some p), index := (index r)(N := Some p)\<rparr>"
    using assms(3) unfolding Entity_init_def Let_def by (metis Inl_Inr_False Inr_inject)
  have other: "q \<noteq> p" if "q \<in> live r" for q using that assms(2) by blast
  show ?thesis
    unfolding reg_inv_def
  proof (intro conjI allI impI)
    show "0 \<le> IDcount r'" using assms(1) by (simp add: r' reg_inv_def)
    fix k q
    assume "globMap r' k = Some q"
    then have "k = IDcount r + 1 \<and> q = p \<or> globMap r k = Some q \<and> q \<noteq> p"
      using other by (auto simp: r' live_def ranI split: if_splits)
    then show "ent_ID r' q = k" "1 \<le> k" "k \<le> IDcount r'"
      using globMap_bound [OF assms(1), of k q] assms(1) by (auto simp: r') (auto simp: reg_inv_def)
  next
    fix m q
    show "index r' m = Some q \<longleftrightarrow> q \<in> live r' \<and> ent_name r' q = m"
    proof (cases "q = p")
      case True
      have "index r m \<noteq> Some p" using index_live [OF assms(1), of m p] assms(2) by simp
      then show ?thesis using True by (simp add: Entity_init_live [OF assms(1,3)]) (auto simp: r')
    next
      case False
      have "m \<noteq> N" if "index r m = Some q" using that free by auto
      then show ?thesis
        using False index_live [OF assms(1), of m q] by (simp add: Entity_init_live [OF assms(1,3)]) (auto simp: r')
    qed
  qed
qed

lemma dtor_globMap:
  assumes "reg_inv r" and "p \<in> live r"
  shows "globMap (Entity_dtor p r) k = Some q \<longleftrightarrow> globMap r k = Some q \<and> q \<noteq> p"
  using live_ID [OF assms] globMap_bound [OF assms(1), of k q] by (auto simp: Entity_dtor_def)

lemma Entity_dtor_inv:
  assumes "reg_inv r" and "p \<in> live r"
  shows "reg_inv (Entity_dtor p r)" and "live (Entity_dtor p r) = live r - {p}"
proof -
  let ?r = "Entity_dtor p r"
  note gm = dtor_globMap [OF assms]
  have "q \<in> live ?r \<longleftrightarrow> q \<in> live r \<and> q \<noteq> p" for q
    unfolding live_def ran_def using gm by blast
  then show live: "live ?r = live r - {p}" by blast
  have same: "ent_ID ?r = ent_ID r" "ent_name ?r = ent_name r" "IDcount ?r = IDcount r"
    by (simp_all add: Entity_dtor_def)
  have "index ?r n = Some q \<longleftrightarrow> q \<in> live ?r \<and> ent_name ?r q = n" for n q
    using index_live [OF assms(1), of n q] index_live [OF assms(1), of n p] assms(2)
    by (auto simp: live same) (auto simp: Entity_dtor_def split: if_splits)
  then show "reg_inv ?r" using assms(1) gm by (simp add: reg_inv_def same)
qed

section \<open>The order of the entities\<close>

lemma set_lookups: "set (lookups m ks) = {p. \<exists>k\<in>set ks. m k = Some p}"
  by (induction ks) (auto split: option.split)

lemma lookups_append: "lookups m (ks @ ls) = lookups m ks @ lookups m ls"
  by (induction ks) (auto split: option.split)

lemma lookups_upd: "k \<notin> set ks \<Longrightarrow> lookups (m(k := v)) ks = lookups m ks"
  by (induction ks) (auto split: option.split)

lemma lookups_remove:
  assumes "\<And>k q. m' k = Some q \<longleftrightarrow> m k = Some q \<and> q \<noteq> p"
  shows "lookups m' ks = filter (\<lambda>q. q \<noteq> p) (lookups m ks)"
proof (induction ks)
  case (Cons k ks)
  have "m' k = (case m k of None \<Rightarrow> None | Some q \<Rightarrow> if q = p then None else Some q)"
  proof (cases "m' k")
    case None
    then show ?thesis using assms [of k] by (cases "m k") force+
  next
    case (Some q)
    then show ?thesis using assms [of k q] by simp
  qed
  then show ?case using Cons by (cases "m k") simp_all
qed simp

lemma distinct_lookups: "(\<And>k l p. m k = Some p \<Longrightarrow> m l = Some p \<Longrightarrow> k = l) \<Longrightarrow> distinct ks \<Longrightarrow> distinct (lookups m ks)"
proof (induction ks)
  case (Cons k ks)
  have "p \<notin> set (lookups m ks)" if "m k = Some p" for p
    using Cons.prems(1) [OF that] Cons.prems(2) by (auto simp: set_lookups)
  with Cons show ?case by (simp split: option.split)
qed simp

lemma order_set: "reg_inv r \<Longrightarrow> set (Entity_order r) = live r"
proof -
  assume inv: "reg_inv r"
  have "k \<in> set [1..IDcount r]" if "globMap r k = Some p" for k p using globMap_bound [OF inv that] by simp
  then show "set (Entity_order r) = live r" unfolding Entity_order_def set_lookups live_def ran_def by blast
qed

lemma order_init:
  assumes "reg_inv r" and "Entity_init p n r = Inr r'"
  shows "Entity_order r' = Entity_order r @ [p]"
proof -
  have r': "globMap r' = (globMap r)(IDcount r + 1 := Some p)" "IDcount r' = IDcount r + 1"
    using assms(2) by (auto simp: Entity_init_def Let_def split: if_splits)
  have "[1..IDcount r + 1] = [1..IDcount r] @ [IDcount r + 1]" using assms(1) by (simp add: upto_rec2 reg_inv_def)
  then show ?thesis by (simp add: Entity_order_def r' lookups_append lookups_upd)
qed

lemma order_dtor:
  assumes "reg_inv r" and "p \<in> live r"
  shows "Entity_order (Entity_dtor p r) = filter (\<lambda>q. q \<noteq> p) (Entity_order r)"
proof -
  have "IDcount (Entity_dtor p r) = IDcount r" by (simp add: Entity_dtor_def)
  then show ?thesis
    using lookups_remove [of "globMap (Entity_dtor p r)" "globMap r" p] dtor_globMap [OF assms]
    by (simp add: Entity_order_def)
qed

lemma order_distinct: "reg_inv r \<Longrightarrow> distinct (Entity_order r)"
  unfolding Entity_order_def
proof (rule distinct_lookups)
  fix k l p
  assume "reg_inv r" "globMap r k = Some p" "globMap r l = Some p"
  then show "k = l" using globMap_bound [of r k p] globMap_bound [of r l p] by simp
qed simp

section \<open>Properties\<close>

text \<open>
  C26. The registry never loses or confuses an object.  Each live object has one number and one name, by which it
  and no other is found; the construction of an object fails exactly when a live object has its name and else makes
  it the last that \<open>callNewRun\<close> visits; its destruction removes it and leaves the others in their order.
\<close>

theorem registry_correct:
  assumes "reg_inv r" and "p \<notin> live r" and "q \<in> live r"
  shows "(case Entity_ctor p n r of
      Inl e \<Rightarrow> e = EntitySameName \<and>
        (\<exists>x\<in>live r. ent_name r x = (if n = [] then entity_type_name @ decimal_int (IDcount r + 1) else n))
    | Inr r' \<Rightarrow> reg_inv r' \<and> live r' = insert p (live r) \<and> Entity_find (ent_name r' p) r' = Some p \<and>
        (n \<noteq> [] \<longrightarrow> ent_name r' p = n) \<and> Entity_order r' = Entity_order r @ [p]) \<and>
    reg_inv (Entity_dtor q r) \<and> live (Entity_dtor q r) = live r - {q} \<and>
    Entity_find (ent_name r q) (Entity_dtor q r) = None \<and>
    Entity_order (Entity_dtor q r) = filter (\<lambda>x. x \<noteq> q) (Entity_order r) \<and>
    distinct (Entity_order r) \<and> set (Entity_order r) = live r"
proof (intro conjI)
  show "case Entity_ctor p n r of
      Inl e \<Rightarrow> e = EntitySameName \<and>
        (\<exists>x\<in>live r. ent_name r x = (if n = [] then entity_type_name @ decimal_int (IDcount r + 1) else n))
    | Inr r' \<Rightarrow> reg_inv r' \<and> live r' = insert p (live r) \<and> Entity_find (ent_name r' p) r' = Some p \<and>
        (n \<noteq> [] \<longrightarrow> ent_name r' p = n) \<and> Entity_order r' = Entity_order r @ [p]"
  proof (cases "Entity_ctor p n r")
    case (Inl e)
    then show ?thesis using index_live [OF assms(1)]
      by (auto simp: Entity_ctor_def Entity_init_def Let_def split: if_splits)
  next
    case (Inr r')
    then have run: "Entity_init p n r = Inr r'" by (simp add: Entity_ctor_def)
    have "Entity_find (ent_name r' p) r' = Some p" "n \<noteq> [] \<longrightarrow> ent_name r' p = n"
      using run by (auto simp: Entity_init_def Let_def Entity_find_def split: if_splits)
    with Entity_init_inv [OF assms(1,2) run] Entity_init_live [OF assms(1) run] order_init [OF assms(1) run] Inr
    show ?thesis by simp
  qed
qed (use assms in \<open>simp_all add: Entity_dtor_inv order_dtor order_distinct order_set\<close>,
     simp add: Entity_find_def Entity_dtor_def)

definition two_entities :: "nat registry" where
  "two_entities = (case bindE (Entity_ctor 0 ''cpu'' empty_registry) (Entity_ctor 1 []) of
     Inl e \<Rightarrow> empty_registry | Inr r \<Rightarrow> r)"

theorem registry_correct_witness:
  "Entity_ctor 2 ''cpu'' two_entities = Inl EntitySameName \<and> Entity_order two_entities = [0, 1] \<and>
   Entity_order (Entity_dtor 0 two_entities) = [1]"
proof -
  obtain r1 where r1: "Entity_ctor (0 :: nat) ''cpu'' empty_registry = Inr r1" by (simp add: Entity_ctor_def Entity_init_def empty_registry_def Let_def)
  obtain r2 where r2: "Entity_ctor 1 [] r1 = Inr r2" "two_entities = r2"
    using r1 by (auto simp: two_entities_def Entity_ctor_def Entity_init_def empty_registry_def Let_def entity_type_name_def)
  have none: "live (empty_registry :: nat registry) = {}" by (simp add: live_def empty_registry_def)
  note init1 = r1 [unfolded Entity_ctor_def]
  have "reg_inv r1" using Entity_init_inv [OF empty_registry_inv _ init1] none by simp
  moreover have "live r1 = {0}" using Entity_init_live [OF empty_registry_inv init1] none by simp
  ultimately have "reg_inv r1" "live r1 = {0}" by simp_all
  then have inv: "reg_inv two_entities" "live two_entities = {0, 1}"
    using r2 Entity_init_inv [of r1 1 "[]" r2] Entity_init_live [of r1 1 "[]" r2] by (auto simp: Entity_ctor_def)
  have order: "Entity_order two_entities = [0, 1]" and "index two_entities ''cpu'' \<noteq> None"
    by (simp_all add: two_entities_def Entity_ctor_def Entity_init_def empty_registry_def Let_def entity_type_name_def
        Entity_order_def upto_rec1)
  then have "Entity_ctor 2 ''cpu'' two_entities = Inl EntitySameName" by (simp add: Entity_ctor_def Entity_init_def)
  moreover have "Entity_order (Entity_dtor 0 two_entities) = [1]"
    using registry_correct [OF inv(1), of 2 0 "''cpu''"] inv(2) order by simp
  ultimately show ?thesis using order by simp
qed

text \<open>
  \<open>setName\<close> does not tell the registry: an object that was renamed and then destroyed is still found by the name
  it was constructed with.
\<close>

lemma setName_leaves_name:
  assumes "reg_inv r" and "p \<in> live r" and "n \<noteq> ent_name r p"
  shows "Entity_find (ent_name r p) (Entity_dtor p (Entity_setName p n r)) = Some p"
  using assms index_live [OF assms(1), of "ent_name r p" p]
  by (simp add: Entity_find_def Entity_dtor_def Entity_setName_def)

end
