(* ===== verification/ProgramNames.thy ===== *)
theory ProgramNames
  imports MainProgram_Laws Entities_Laws
begin

text \<open>
  The entities of a program: every object that is made is registered once, so \<open>callNewRun\<close> starts every task, server,
  kernel and resource of the program once.
\<close>

section \<open>The registry of a system\<close>

definition others :: "'a system_scheme \<Rightarrow> entity set" where
  "others s = {e. \<exists>n. OtherObj n \<in> live (sys_names s) \<and> sys_others s n = Some e}"

definition reg_ok :: "'a system_scheme \<Rightarrow> bool" where
  "reg_ok s \<longleftrightarrow> reg_inv (sys_names s) \<and> (\<forall>n. OtherObj n \<in> live (sys_names s) \<longrightarrow> int n < IDcount (sys_names s)) \<and>
     (\<forall>n m e. OtherObj n \<in> live (sys_names s) \<longrightarrow> OtherObj m \<in> live (sys_names s) \<longrightarrow> sys_others s n = Some e \<longrightarrow>
        sys_others s m = Some e \<longrightarrow> n = m)"

lemma new_other_entity:
  assumes "reg_ok s" and "new_other name e s = Inr s'" and "\<And>x. e = Some x \<Longrightarrow> x \<notin> others s"
  shows "reg_ok s'" and "others s' = others s \<union> set_option e"
    and "TaskObj t \<in> live (sys_names s') \<longleftrightarrow> TaskObj t \<in> live (sys_names s)"
    and "InstrObj t i \<in> live (sys_names s') \<longleftrightarrow> InstrObj t i \<in> live (sys_names s)"
    and "\<exists>r o1. s' = s\<lparr>sys_names := r, sys_others := o1\<rparr>"
proof -
  let ?n = "nat (IDcount (sys_names s))"
  obtain r where r: "Entity_init (OtherObj ?n) name (sys_names s) = Inr r"
    and s': "s' = s\<lparr>sys_names := r, sys_others := (sys_others s)(?n := e)\<rparr>"
    using assms(2) by (auto simp: new_other_def Let_def Entity_ctor_def bindE_eq_Inr)
  have inv: "reg_inv (sys_names s)" and below: "\<And>n. OtherObj n \<in> live (sys_names s) \<Longrightarrow> int n < IDcount (sys_names s)"
    using assms(1) by (simp_all add: reg_ok_def)
  have new: "OtherObj ?n \<notin> live (sys_names s)" using below [of ?n] inv by (auto simp: reg_inv_def)
  have live: "live r = insert (OtherObj ?n) (live (sys_names s))" by (rule Entity_init_live [OF inv r])
  have count: "IDcount r = IDcount (sys_names s) + 1" using r by (auto simp: Entity_init_def Let_def split: if_splits)
  have "0 \<le> IDcount (sys_names s)" using inv by (simp add: reg_inv_def)
  moreover have "n = ?n \<or> n \<noteq> ?n \<and> int n < IDcount (sys_names s)" if "OtherObj n \<in> live r" for n
    using that below new unfolding live by auto
  moreover have "n = m" if "OtherObj n \<in> live r" "OtherObj m \<in> live r"
    "((sys_others s)(?n := e)) n = Some x" "((sys_others s)(?n := e)) m = Some x" for n m x
    using that assms(1) assms(3) [of x] new unfolding live by (auto simp: reg_ok_def others_def split: if_splits)
  ultimately show "reg_ok s'" using Entity_init_inv [OF inv new r] unfolding reg_ok_def s' by (force simp: count)
  show "others s' = others s \<union> set_option e"
  proof (rule set_eqI)
    fix x
    have "x \<in> others s' \<longleftrightarrow> (\<exists>n. (n = ?n \<or> OtherObj n \<in> live (sys_names s)) \<and> ((sys_others s)(?n := e)) n = Some x)"
      by (simp add: others_def s' live)
    also have "\<dots> \<longleftrightarrow> e = Some x \<or> x \<in> others s" using new unfolding others_def by (auto simp: others_def split: if_splits) metis
    finally show "x \<in> others s' \<longleftrightarrow> x \<in> others s \<union> set_option e" by (auto simp: elem_set)
  qed
  show "TaskObj t \<in> live (sys_names s') \<longleftrightarrow> TaskObj t \<in> live (sys_names s)"
    "InstrObj t i \<in> live (sys_names s') \<longleftrightarrow> InstrObj t i \<in> live (sys_names s)" by (simp_all add: s' live)
  show "\<exists>r o1. s' = s\<lparr>sys_names := r, sys_others := o1\<rparr>" by (auto simp: s')
qed

text \<open>The entities that a system may have, by its numbers.\<close>

definition made :: "'a system_scheme \<Rightarrow> entity \<Rightarrow> bool" where
  "made s e \<longleftrightarrow> (case e of SchedulerEnt n \<Rightarrow> n < sys_schedulers s | CPUEnt c \<Rightarrow> c < sys_cpus s
     | RTKernelEnt k \<Rightarrow> k < length (sys_kernels s) | MRTKernelEnt k \<Rightarrow> k < length (sys_kernels s) | _ \<Rightarrow> False)"

definition names_ok :: "'a system_scheme \<Rightarrow> bool" where
  "names_ok s \<longleftrightarrow> reg_ok s \<and> (\<forall>e\<in>others s. made s e) \<and> (\<forall>t. TaskObj t \<notin> live (sys_names s)) \<and>
     (\<forall>t i. InstrObj t i \<notin> live (sys_names s))"

lemma live_empty: "live empty_registry = {}"
  by (simp add: live_def empty_registry_def)

lemma names_no_system: "names_ok no_system"
  by (simp add: names_ok_def reg_ok_def no_system_def empty_registry_inv others_def live_empty)

lemma made_same:
  "sys_schedulers s' = sys_schedulers s \<Longrightarrow> sys_kernels s' = sys_kernels s \<Longrightarrow> sys_cpus s' = sys_cpus s \<Longrightarrow> made s' x = made s x"
  by (simp add: made_def split: entity.split)

lemma names_upd [simp]:
  "names_ok (s\<lparr>sys_platform := pl\<rparr>) = names_ok s" "names_ok (s\<lparr>sys_world := w\<rparr>) = names_ok s"
  "names_ok (s\<lparr>sys_islands := i\<rparr>) = names_ok s"
proof -
  have "made (s\<lparr>sys_platform := pl\<rparr>) = made s" "made (s\<lparr>sys_world := w\<rparr>) = made s" "made (s\<lparr>sys_islands := i\<rparr>) = made s"
    by (rule ext, rule made_same; simp)+
  then show "names_ok (s\<lparr>sys_platform := pl\<rparr>) = names_ok s" "names_ok (s\<lparr>sys_world := w\<rparr>) = names_ok s"
    "names_ok (s\<lparr>sys_islands := i\<rparr>) = names_ok s" by (simp_all add: names_ok_def reg_ok_def others_def)
qed

lemma names_new_other:
  assumes "names_ok s" and "new_other name e s = Inr s1" and "\<And>x. e = Some x \<Longrightarrow> \<not> made s x"
    and "sys_names s' = sys_names s1" "sys_others s' = sys_others s1" and "\<And>x. made s x \<Longrightarrow> made s' x"
    and "\<And>x. e = Some x \<Longrightarrow> made s' x"
  shows "names_ok s'"
proof -
  have new: "x \<notin> others s" if "e = Some x" for x using assms(1,3) that by (auto simp: names_ok_def)
  have "reg_ok s" using assms(1) by (simp add: names_ok_def)
  note one = new_other_entity [OF this assms(2) new]
  have same: "others s' = others s1" "reg_ok s' = reg_ok s1" using assms(4,5) by (simp_all add: others_def reg_ok_def)
  show ?thesis using assms(1,4,6,7) one by (auto simp: names_ok_def same)
qed

lemma names_on_platform: "on_platform f s = Inr s' \<Longrightarrow> names_ok s \<Longrightarrow> names_ok s'"
  by (auto simp: on_platform_def bindE_eq_Inr)

lemma new_other_same: "new_other name e s = Inr s' \<Longrightarrow> sys_schedulers s' = sys_schedulers s \<and> sys_kernels s' = sys_kernels s \<and> sys_cpus s' = sys_cpus s"
  by (auto simp: new_other_def Let_def bindE_eq_Inr)

lemma names_new_scheduler:
  assumes "new_scheduler kind s = Inr (n, s')" and "names_ok s"
  shows "names_ok s'"
proof -
  obtain s1 where s1: "new_other [] (Some (SchedulerEnt (sys_schedulers s))) s = Inr s1"
    and s': "s' = on_world (upd_sched n (\<lambda>_. Scheduler_ctor kind)) (s1\<lparr>sys_schedulers := Suc n\<rparr>)" and n: "n = sys_schedulers s"
    using assms(1) by (auto simp: new_scheduler_def Let_def bindE_eq_Inr)
  show ?thesis using new_other_same [OF s1]
    by (intro names_new_other [OF assms(2) s1]) (auto simp: s' n on_world_def made_def split: entity.splits)
qed

lemma names_make_scheduler: "make_scheduler name s = Inr (n, s') \<Longrightarrow> names_ok s \<Longrightarrow> names_ok s'"
  by (auto simp: make_scheduler_def bindE_eq_Inr split: option.splits intro: names_new_scheduler)

lemma names_make_cpu:
  assumes "make_cpu name s = Inr (c, s')" and "names_ok s"
  shows "names_ok s'"
proof -
  obtain s1 where s1: "new_other name (Some (CPUEnt (sys_cpus s))) s = Inr s1"
    and s': "s' = s1\<lparr>sys_platform := PCPU_ctor c (sys_platform s1), sys_cpus := Suc c\<rparr>" and c: "c = sys_cpus s"
    using assms(1) by (auto simp: make_cpu_def Let_def bindE_eq_Inr)
  show ?thesis using new_other_same [OF s1]
    by (intro names_new_other [OF assms(2) s1]) (auto simp: s' c made_def split: entity.splits)
qed

lemma names_make_kernel_global:
  assumes "make_kernel_global sc name s = Inr (k, s')" and "names_ok s"
  shows "names_ok s'"
proof -
  obtain s1 where s1: "new_other name (Some (MRTKernelEnt (length (sys_kernels s)))) s = Inr s1"
    and s': "s' = on_world (\<lambda>w. Scheduler_setKernel sc (KRoot (MRTK k)) (upd_mrtk k (\<lambda>_. MRTKernel_ctor sc []) w))
        (s1\<lparr>sys_kernels := sys_kernels s1 @ [MRTK k]\<rparr>)"
    using assms(1) by (auto simp: make_kernel_global_def Let_def bindE_eq_Inr)
  show ?thesis using new_other_same [OF s1]
    by (intro names_new_other [OF assms(2) s1]) (auto simp: s' on_world_def made_def split: entity.splits)
qed

lemma names_make_kernel_partitioned:
  assumes "make_kernel_partitioned sc name c s = Inr s'" and "names_ok s"
  shows "names_ok s'"
proof -
  obtain s1 s2 where s1: "new_other name (Some (RTKernelEnt (length (sys_kernels s)))) s = Inr s1"
    and s2: "on_platform (PCPU_setKernel (Some (length (sys_kernels s))) c) s1 = Inr s2"
    and s': "s' = on_world (\<lambda>w. Scheduler_setKernel sc (KRoot (RTK (length (sys_kernels s)))) (upd_rtk (length (sys_kernels s)) (\<lambda>_. RTKernel_ctor sc (Some c)) w))
        (s2\<lparr>sys_kernels := sys_kernels s2 @ [RTK (length (sys_kernels s))]\<rparr>)"
    using assms(1) by (auto simp: make_kernel_partitioned_def Let_def bindE_eq_Inr)
  have "sys_names s2 = sys_names s1 \<and> sys_others s2 = sys_others s1 \<and> sys_kernels s2 = sys_kernels s1 \<and> sys_schedulers s2 = sys_schedulers s1 \<and> sys_cpus s2 = sys_cpus s1"
    using s2 by (auto simp: on_platform_def bindE_eq_Inr)
  then show ?thesis using new_other_same [OF s1]
    by (intro names_new_other [OF assms(2) s1]) (auto simp: s' on_world_def made_def split: entity.splits)
qed

lemma names_addCPU: "system_addCPU k c s = Inr s' \<Longrightarrow> names_ok s \<Longrightarrow> names_ok s'"
  unfolding system_addCPU_def by (rule names_on_platform, assumption) (simp add: on_world_def)

lemma names_make_island:
  assumes "make_island ex name opps m s = Inr (i, s')" and "names_ok s"
  shows "names_ok s'"
proof -
  obtain nm s1 s2 where s1: "new_other nm None s = Inr s1"
    and s2: "on_platform (CPUIsland_ctor_num ex (sys_islands s) [] GENERIC opps (Some m)) s1 = Inr s2"
    and s': "s' = s2\<lparr>sys_islands := Suc (sys_islands s2)\<rparr>"
    using assms(1) by (auto simp: make_island_def bindE_eq_Inr)
  have "names_ok s1"
    by (rule names_new_other [OF assms(2) s1]) (use new_other_same [OF s1] in \<open>simp_all add: made_same [of s1 s]\<close>)
  from names_on_platform [OF s2 this] show ?thesis by (simp add: s')
qed

lemma names_make_kernel_of_cpu: "make_kernel_of_cpu des g cnt c s = Inr s' \<Longrightarrow> names_ok s \<Longrightarrow> names_ok s'"
  by (auto simp: make_kernel_of_cpu_def bindE_eq_Inr split: if_splits option.splits
      intro: names_make_scheduler names_make_kernel_partitioned names_addCPU)

lemma names_make_island_cpu:
  assumes "make_island_cpu des i g s = Inr s'" and "names_ok s"
  shows "names_ok s'"
proof -
  obtain q where q: "make_cpu (id_name des @ ''-'' @ decimal_int (int (sys_cpus s))) s = Inr q"
    and rest: "(case q of (c, s1) \<Rightarrow> bindE (on_platform (\<lambda>pl. drop_flag (setIsland c (Some i) pl)) s1) (\<lambda>s2.
     bindE (on_platform (PCPU_setWorkload ''idle'' c) s2) (make_kernel_of_cpu des g (decimal_int (int (sys_cpus s))) c))) = Inr s'"
    using assms(1) by (cases "make_cpu (id_name des @ ''-'' @ decimal_int (int (sys_cpus s))) s") (simp_all add: make_island_cpu_def Let_def)
  obtain c s1 where c: "q = (c, s1)" by (cases q)
  have "names_ok s1" by (rule names_make_cpu [OF q [unfolded c] assms(2)])
  with rest show ?thesis by (auto simp: c bindE_eq_Inr dest: names_on_platform names_make_kernel_of_cpu)
qed

lemma names_make_island_cpus: "make_island_cpus des i g n s = Inr s' \<Longrightarrow> names_ok s \<Longrightarrow> names_ok s'"
  by (induction n arbitrary: s) (auto simp: bindE_eq_Inr dest: names_make_island_cpu)

lemma names_make_kernel_of_island: "make_kernel_of_island des s = Inr (g, s') \<Longrightarrow> names_ok s \<Longrightarrow> names_ok s'"
  by (auto simp: make_kernel_of_island_def bindE_eq_Inr split: if_splits dest: names_make_scheduler names_make_kernel_global)

lemma names_select_base_opp: "select_base_opp f n i s = Inr s' \<Longrightarrow> names_ok s \<Longrightarrow> names_ok s'"
  unfolding select_base_opp_def bindE_eq_Inr by (blast intro: names_on_platform)

lemma names_make_system_island:
  assumes "make_system_island ex models des s = Inr s'" and "names_ok s"
  shows "names_ok s'"
proof -
  obtain opps m p where p: "make_island ex (id_name des) opps m s = Inr p"
    and rest: "(case p of (island, s1) \<Rightarrow> bindE (make_kernel_of_island des s1) (\<lambda>(global, s2).
      bindE (make_island_cpus des island global (id_numcpus des) s2)
        (select_base_opp (id_base_freq des) (length opps) island))) = Inr s'"
    using assms(1) by (auto simp: make_system_island_def bindE_eq_Inr simp del: split_paired_Ex split: if_splits)
  obtain i s1 where is1: "p = (i, s1)" by (cases p)
  have "names_ok s1" by (rule names_make_island [OF p [unfolded is1] assms(2)])
  with rest show ?thesis
    by (auto simp: is1 bindE_eq_Inr dest!: names_make_kernel_of_island names_make_island_cpus names_select_base_opp)
qed

lemma names_System_make:
  assumes "System_make ex des = Inr s"
  shows "names_ok s"
proof -
  have "make_system_islands ex models ds s0 = Inr s1 \<Longrightarrow> names_ok s0 \<Longrightarrow> names_ok s1" for models ds s0 s1
    by (induction ds arbitrary: s0) (auto simp: bindE_eq_Inr dest: names_make_system_island)
  with names_no_system assms show ?thesis by (auto simp: System_make_def on_world_def bindE_eq_Inr)
qed

section \<open>The registry of a program\<close>

definition prog_made :: "rtprogram \<Rightarrow> entity \<Rightarrow> bool" where
  "prog_made p e \<longleftrightarrow> (case e of CBServerEnt i \<Rightarrow> i < prog_servers p | CapacityTimerEnt i \<Rightarrow> i < prog_servers p
     | ResManEnt m \<Rightarrow> True | ResourceEnt m r \<Rightarrow> True | _ \<Rightarrow> made p e)"

definition prog_names :: "rtprogram \<Rightarrow> bool" where
  "prog_names p \<longleftrightarrow> reg_ok p \<and> (\<forall>e\<in>others p. prog_made p e) \<and> (\<forall>t. TaskObj t \<in> live (sys_names p) \<longleftrightarrow> t < prog_tasks p) \<and>
     (\<forall>t i. InstrObj t i \<in> live (sys_names p) \<longrightarrow> t < prog_tasks p) \<and> (\<forall>i<prog_servers p. CBServerEnt i \<in> others p)"

lemma made_prog_made: "made p e \<Longrightarrow> prog_made p e"
  by (auto simp: made_def prog_made_def split: entity.splits)

lemma prog_made_simps [simp]:
  "prog_made p (CBServerEnt i) = (i < prog_servers p)" "prog_made p (CapacityTimerEnt i) = (i < prog_servers p)"
  "prog_made p (ResManEnt m)" "prog_made p (ResourceEnt m r)" "prog_made p (SchedulerEnt n) = (n < sys_schedulers p)"
  by (simp_all add: prog_made_def made_def)

lemma prog_made_mono:
  "prog_made p x \<Longrightarrow> sys_schedulers p \<le> sys_schedulers p' \<Longrightarrow> sys_kernels p' = sys_kernels p \<Longrightarrow> sys_cpus p' = sys_cpus p \<Longrightarrow>
   prog_servers p \<le> prog_servers p' \<Longrightarrow> prog_made p' x"
  by (cases x) (simp_all add: prog_made_def made_def)

text \<open>A change that makes nothing.\<close>

lemma prog_names_same:
  assumes "prog_names p" and "sys_names p' = sys_names p" "sys_others p' = sys_others p" "sys_schedulers p' = sys_schedulers p"
    "sys_kernels p' = sys_kernels p" "sys_cpus p' = sys_cpus p" "prog_tasks p' = prog_tasks p" "prog_servers p' = prog_servers p"
  shows "prog_names p'"
proof -
  have "made p' e = made p e" for e by (rule made_same) (simp_all add: assms)
  then have "prog_made p' e = prog_made p e" for e by (simp add: prog_made_def assms split: entity.split)
  then show ?thesis using assms(1) by (simp add: prog_names_def reg_ok_def others_def assms)
qed

text \<open>One object that is neither a task nor an instruction, with a change of the counters.\<close>

lemma prog_new_other:
  assumes "prog_names p" and "new_other name e p = Inr p1" and "\<And>x. e = Some x \<Longrightarrow> x \<notin> others p"
    and "sys_names p' = sys_names p1" "sys_others p' = sys_others p1" "prog_tasks p' = prog_tasks p"
    and "\<And>x. prog_made p x \<Longrightarrow> prog_made p' x" and "\<And>x. e = Some x \<Longrightarrow> prog_made p' x"
    and "\<And>i. i < prog_servers p' \<Longrightarrow> i < prog_servers p \<or> e = Some (CBServerEnt i)"
  shows "prog_names p'" and "others p' = others p \<union> set_option e"
proof -
  have "reg_ok p" using assms(1) by (simp add: prog_names_def)
  note one = new_other_entity [OF this assms(2,3)]
  have same: "others p' = others p1" "reg_ok p' = reg_ok p1" using assms(4,5) by (simp_all add: others_def reg_ok_def)
  show others: "others p' = others p \<union> set_option e" using one(2) by (simp add: same)
  have "CBServerEnt i \<in> others p'" if "i < prog_servers p'" for i
    using assms(1) assms(9) [OF that] by (auto simp: others prog_names_def)
  then show "prog_names p'" using assms(1,4,6-8) one by (auto simp: prog_names_def same)
qed

lemma prog_new_scheduler:
  assumes "prog_names p" and "new_scheduler kind p = Inr (n, p')"
  shows "prog_names p'" and "prog_servers p' = prog_servers p" "prog_tasks p' = prog_tasks p"
    and "others p' = insert (SchedulerEnt n) (others p)"
proof -
  obtain p1 where p1: "new_other [] (Some (SchedulerEnt (sys_schedulers p))) p = Inr p1"
    and p': "p' = on_world (upd_sched n (\<lambda>_. Scheduler_ctor kind)) (p1\<lparr>sys_schedulers := Suc n\<rparr>)" and n: "n = sys_schedulers p"
    using assms(2) by (auto simp: new_scheduler_def Let_def bindE_eq_Inr)
  have same: "prog_servers p1 = prog_servers p" "prog_tasks p1 = prog_tasks p" using p1 by (auto simp: new_other_def Let_def bindE_eq_Inr)
  then show "prog_servers p' = prog_servers p" "prog_tasks p' = prog_tasks p" by (simp_all add: p' on_world_def)
  have "SchedulerEnt n \<notin> others p" using assms(1) by (auto simp: prog_names_def prog_made_def made_def n)
  then have "prog_names p' \<and> others p' = others p \<union> set_option (Some (SchedulerEnt (sys_schedulers p)))"
    using new_other_same [OF p1] same
    by (intro conjI prog_new_other [OF assms(1) p1]) (auto simp: p' n on_world_def prog_made_def made_def split: entity.splits)
  then show "prog_names p'" "others p' = insert (SchedulerEnt n) (others p)" by (auto simp: n)
qed

lemma prog_make_server:
  assumes "prog_names p" and "make_server ts p = Inr (i, p')"
  shows "prog_names p'"
proof -
  obtain p1 kind n p2 p3 f where p1: "new_other (''cbserver_'' @ ts_name ts) (Some (CBServerEnt i)) p = Inr p1"
    and p2: "new_scheduler kind p1 = Inr (n, p2)" and p3: "new_other [] (Some (CapacityTimerEnt i)) p2 = Inr p3"
    and i: "i = prog_servers p" and p': "p' = on_world f (p3\<lparr>prog_servers := Suc i\<rparr>)"
    using assms(2) unfolding make_server_def Let_def by (auto simp: bindE_eq_Inr simp del: split_paired_Ex split: option.splits)
  have none: "CBServerEnt i \<notin> others p" "CapacityTimerEnt i \<notin> others p" using assms(1) by (auto simp: prog_names_def prog_made_def i)
  have s1: "prog_servers p1 = i" "prog_tasks p1 = prog_tasks p" using p1 i by (auto simp: new_other_def Let_def bindE_eq_Inr)
  let ?q1 = "p1\<lparr>prog_servers := Suc i\<rparr>"
  have "prog_made ?q1 x" if "prog_made p x" for x
    by (rule prog_made_mono [OF that]) (use new_other_same [OF p1] s1 i in simp_all)
  then have "prog_names ?q1 \<and> others ?q1 = others p \<union> set_option (Some (CBServerEnt i))"
    using none s1 i by (intro conjI prog_new_other [OF assms(1) p1]) (auto simp: less_Suc_eq)
  then have q1: "prog_names ?q1" "others ?q1 = others p \<union> {CBServerEnt i}" by simp_all
  have "new_scheduler kind ?q1 = Inr (n, p2\<lparr>prog_servers := Suc i\<rparr>)"
    using p2 by (auto simp: new_scheduler_def new_other_def Let_def bindE_eq_Inr on_world_def)
  note q2 = prog_new_scheduler [OF q1(1) this]
  have p3': "new_other [] (Some (CapacityTimerEnt i)) (p2\<lparr>prog_servers := Suc i\<rparr>) = Inr (p3\<lparr>prog_servers := Suc i\<rparr>)"
    using p3 by (auto simp: new_other_def Let_def bindE_eq_Inr)
  have "prog_made p' x" if "prog_made (p2\<lparr>prog_servers := Suc i\<rparr>) x" for x
    by (rule prog_made_mono [OF that]) (use new_other_same [OF p3] in \<open>simp_all add: p' on_world_def\<close>)
  moreover have "prog_tasks p3 = prog_tasks p2" using p3 by (auto simp: new_other_def Let_def bindE_eq_Inr)
  ultimately show ?thesis
    using none q1(2) q2 p3' by (intro prog_new_other(1) [OF q2(1) p3']) (auto simp: p' on_world_def)
qed

text \<open>A task with its instructions.\<close>

definition code_names :: "nat \<Rightarrow> object registry \<Rightarrow> parsed list \<Rightarrow> object registry \<Rightarrow> bool" where
  "code_names t r0 q r \<longleftrightarrow> reg_inv r \<and> IDcount r0 \<le> IDcount r \<and> live r0 \<subseteq> live r \<and>
     (\<forall>x\<in>live r. x \<in> live r0 \<or> (\<exists>j<length q. x = InstrObj t j))"

lemma names_insert_one:
  assumes "insert_one pe t ins (q, r) = Some (Inr (q', r'))" and "code_names t r0 q r" and "\<And>j. InstrObj t j \<notin> live r0"
  shows "code_names t r0 q' r'"
proof -
  obtain i where q': "q' = q @ [i]" and r': "Entity_init (InstrObj t (length q)) [] r = Inr r'"
    using assms(1) by (auto simp: insert_one_def bindN_def Entity_ctor_def split: option.splits sum.splits prod.splits)
  have inv: "reg_inv r" using assms(2) by (simp add: code_names_def)
  have new: "InstrObj t (length q) \<notin> live r" using assms(2,3) by (auto simp: code_names_def)
  have "IDcount r' = IDcount r + 1" using r' by (auto simp: Entity_init_def Let_def split: if_splits)
  with assms(2) Entity_init_inv [OF inv new r'] Entity_init_live [OF inv r'] show ?thesis
    by (auto simp: code_names_def q' less_Suc_eq)
qed

lemma names_insert_all:
  "insert_all pe t is (q, r) = Some (Inr (q', r')) \<Longrightarrow> code_names t r0 q r \<Longrightarrow> (\<And>j. InstrObj t j \<notin> live r0) \<Longrightarrow> code_names t r0 q' r'"
proof (induction "is" arbitrary: q r)
  case (Cons i "is")
  then obtain st where one: "insert_one pe t i (q, r) = Some (Inr st)" and rest: "insert_all pe t is st = Some (Inr (q', r'))"
    by (auto simp: bindN_def split: option.splits sum.splits)
  obtain q1 r1 where st: "st = (q1, r1)" by (cases st)
  from names_insert_one [OF one [unfolded st] Cons.prems(2,3)] show ?case
    using Cons.IH rest st Cons.prems(3) by blast
qed simp

lemma names_insert_codes:
  "insert_codes pe t cs (q, r) = Some (Inr (q', r')) \<Longrightarrow> code_names t r0 q r \<Longrightarrow> (\<And>j. InstrObj t j \<notin> live r0) \<Longrightarrow> code_names t r0 q' r'"
proof (induction cs arbitrary: q r)
  case (Cons c cs)
  then obtain st where one: "Task_insertCode pe t c (q, r) = Some (Inr st)" and rest: "insert_codes pe t cs st = Some (Inr (q', r'))"
    by (auto simp: bindN_def split: option.splits sum.splits)
  obtain q1 r1 where st: "st = (q1, r1)" by (cases st)
  obtain "is" where "insert_all pe t is (q, r) = Some (Inr (q1, r1))"
    using one by (auto simp: st Task_insertCode_def bindN_def split: option.splits sum.splits)
  from names_insert_all [OF this Cons.prems(2,3)] show ?case using Cons.IH rest st Cons.prems(3) by blast
qed simp

lemma prog_make_task:
  assumes "prog_names p" and "make_task pe ts p = Some (Inr (t, p'))"
  shows "prog_names p'"
proof -
  obtain r q r1 f where r: "Entity_init (TaskObj t) (ts_name ts) (sys_names p) = Inr r"
    and code: "insert_codes pe t (ts_code ts) ([], r) = Some (Inr (q, r1))" and t: "t = prog_tasks p"
    and p': "p' = on_world f (p\<lparr>sys_names := r1, prog_tasks := Suc t\<rparr>)"
    using assms(2) by (auto simp: make_task_def Let_def bindN_def Entity_ctor_def split: option.splits sum.splits)
  have inv: "reg_inv (sys_names p)" using assms(1) by (simp add: prog_names_def reg_ok_def)
  have new: "TaskObj t \<notin> live (sys_names p)" using assms(1) by (simp add: prog_names_def t)
  note live = Entity_init_live [OF inv r]
  have count: "IDcount r = IDcount (sys_names p) + 1" using r by (auto simp: Entity_init_def Let_def split: if_splits)
  have none: "InstrObj t j \<notin> live r" for j using assms(1) by (auto simp: prog_names_def t live)
  have "code_names t r [] r" using Entity_init_inv [OF inv new r] by (simp add: code_names_def)
  from names_insert_codes [OF code this none] have c: "code_names t r q r1" .
  have other: "OtherObj n \<in> live r1 \<longleftrightarrow> OtherObj n \<in> live (sys_names p)" for n using c live by (auto simp: code_names_def)
  have same: "others p' = others p" by (simp add: others_def p' on_world_def other)
  have "reg_ok p'" using assms(1) c count
    by (fastforce simp: reg_ok_def p' on_world_def other code_names_def prog_names_def)
  moreover have "prog_made p' e = prog_made p e" for e
    by (cases e) (simp_all add: prog_made_def made_def p' on_world_def)
  moreover have "TaskObj u \<in> live r1 \<longleftrightarrow> u = t \<or> TaskObj u \<in> live (sys_names p)" for u using c live by (auto simp: code_names_def)
  moreover have "u < Suc (prog_tasks p)" if "InstrObj u i \<in> live r1" for u i
  proof -
    have "InstrObj u i \<in> live r \<or> u = t" using that c by (auto simp: code_names_def)
    then have "InstrObj u i \<in> live (sys_names p) \<or> u = t" by (simp add: live)
    then show ?thesis using assms(1) by (auto simp: prog_names_def t less_Suc_eq)
  qed
  moreover have "sys_names p' = r1" "prog_tasks p' = Suc (prog_tasks p)" "prog_servers p' = prog_servers p" by (simp_all add: p' t on_world_def)
  ultimately show ?thesis using assms(1) unfolding prog_names_def same by (auto simp: t)
qed

section \<open>The registry of the whole set up\<close>

lemma prog_add_to_server: "add_to_server i t p = Inr p' \<Longrightarrow> prog_names p \<Longrightarrow> prog_names p'"
  by (auto simp: add_to_server_def bindE_eq_Inr intro: prog_names_same)

lemma prog_make_placement:
  assumes "prog_names p" and "make_placement pe o1 p = Some (Inr (x, p'))"
  shows "prog_names p'"
proof -
  obtain ts t p1 where t: "make_task pe ts p = Some (Inr (t, p1))"
    and rest: "(if 0 < ts_cbs_period ts then Some (bindE (make_server ts p1) (\<lambda>(s, p2).
           bindE (add_to_server s t p2) (\<lambda>p3. Inr ((ServerRef s, ts_startcpu ts), p3))))
       else Some (Inr ((TaskRef t, ts_startcpu ts), p1))) = Some (Inr (x, p'))"
    using assms(2) unfolding make_placement_def bindN_def by (auto split: option.splits sum.splits prod.splits)
  have "prog_names p1" by (rule prog_make_task [OF assms(1) t])
  with rest show ?thesis by (auto simp: bindE_eq_Inr split: if_splits dest: prog_make_server prog_add_to_server)
qed

lemma prog_make_placements: "make_placements pe os p = Some (Inr (xs, p')) \<Longrightarrow> prog_names p \<Longrightarrow> prog_names p'"
proof (induction os arbitrary: p xs)
  case (Cons o1 os)
  then obtain x p1 ys where x: "make_placement pe o1 p = Some (Inr (x, p1))" and ys: "make_placements pe os p1 = Some (Inr (ys, p'))"
    by (auto simp: bindN_def split: option.splits sum.splits prod.splits)
  from Cons.IH [OF ys prog_make_placement [OF Cons.prems(2) x]] show ?case .
qed simp

lemma prog_place_all: "place_all xs p = Inr p' \<Longrightarrow> prog_names p \<Longrightarrow> prog_names p'"
proof (induction xs arbitrary: p)
  case (Cons x xs)
  then obtain w where "place_all xs (p\<lparr>sys_world := w\<rparr>) = Inr p'" by (cases x) (auto simp: bindE_eq_Inr)
  then show ?case by (rule Cons.IH) (rule prog_names_same [OF Cons.prems(2)]; simp)
qed simp

text \<open>Resources have their own registration, by name.\<close>

definition res_names :: "rtprogram \<Rightarrow> bool" where
  "res_names p \<longleftrightarrow> prog_names p \<and> (\<forall>r. ResourceEnt 0 r \<in> others p \<longrightarrow> ResManager_hasResource 0 r (sys_world p))"

lemma res_make_resource:
  assumes "make_resource o1 p = Inr p'" and "res_names p"
  shows "res_names p'"
proof -
  obtain name n p1 where p1: "new_other name (Some (ResourceEnt 0 name)) p = Inr p1"
    and p': "p' = on_world (ResManager_addResource 0 name 1 n) p1" and free: "\<not> ResManager_hasResource 0 name (sys_world p)"
    using assms(1) by (auto simp: make_resource_def Let_def bindE_eq_Inr split: if_splits)
  have same: "sys_world p1 = sys_world p" "prog_tasks p1 = prog_tasks p" "prog_servers p1 = prog_servers p"
    using p1 by (auto simp: new_other_def Let_def bindE_eq_Inr)
  have none: "ResourceEnt 0 name \<notin> others p" and names: "prog_names p" using assms(2) free by (auto simp: res_names_def)
  have "prog_made p' x" if "prog_made p x" for x
    by (rule prog_made_mono [OF that]) (use new_other_same [OF p1] same in \<open>simp_all add: p' on_world_def\<close>)
  then have "prog_names p' \<and> others p' = others p \<union> set_option (Some (ResourceEnt 0 name))"
    using none same by (intro conjI prog_new_other [OF names p1]) (auto simp: p' on_world_def)
  moreover have "ResManager_hasResource 0 r (sys_world p') \<longleftrightarrow> r = name \<or> ResManager_hasResource 0 r (sys_world p)" for r
    using free by (auto simp: p' on_world_def same ResManager_hasResource_def ResManager_addResource_def upd_resman_def)
  ultimately show ?thesis using assms(2) by (auto simp: res_names_def)
qed

lemma res_make_resources: "make_resources os p = Inr p' \<Longrightarrow> res_names p \<Longrightarrow> res_names p'"
  by (induction os arbitrary: p) (auto simp: bindE_eq_Inr dest: res_make_resource)

lemma with_program_names:
  assumes "names_ok s"
  shows "prog_names (with_program s)" and "\<And>e. e \<in> others (with_program s) \<Longrightarrow> made s e"
proof -
  let ?p = "with_program s"
  have same: "sys_names ?p = sys_names s" "sys_others ?p = sys_others s" "prog_tasks ?p = 0" "prog_servers ?p = 0"
    "sys_schedulers ?p = sys_schedulers s" "sys_kernels ?p = sys_kernels s" "sys_cpus ?p = sys_cpus s"
    by (simp_all add: with_program_def system.defs)
  have others: "others ?p = others s" by (simp add: others_def same)
  then show made: "\<And>e. e \<in> others ?p \<Longrightarrow> made s e" using assms by (simp add: names_ok_def)
  have "made ?p e = made s e" for e by (cases e) (simp_all add: made_def same)
  then have "\<forall>e\<in>others ?p. prog_made ?p e" using made made_prog_made [of ?p] by blast
  then show "prog_names ?p" using assms by (simp add: prog_names_def names_ok_def reg_ok_def same)
qed

lemma read_resources_names:
  assumes "read_resources fe f (with_program s) = Some (Inr p)" and "names_ok s"
  shows "prog_names p"
proof -
  let ?p = "with_program s"
  obtain os p1 where p1: "new_other [] (Some (ResManEnt 0)) ?p = Inr p1" and p: "make_resources os p1 = Inr p"
    using assms(1) by (auto simp: read_resources_def bindN_def bindE_eq_Inr split: option.splits sum.splits)
  note names = with_program_names [OF assms(2)]
  have none: "ResManEnt 0 \<notin> others ?p" "\<And>r. ResourceEnt 0 r \<notin> others ?p" using names(2) [of "ResManEnt 0"] names(2) [of "ResourceEnt 0 r" for r] by (auto simp: made_def)
  have same: "prog_tasks p1 = prog_tasks ?p" "prog_servers p1 = prog_servers ?p" using p1 by (auto simp: new_other_def Let_def bindE_eq_Inr)
  have "prog_made p1 x" if "prog_made ?p x" for x
    by (rule prog_made_mono [OF that]) (use new_other_same [OF p1] same in simp_all)
  then have "prog_names p1 \<and> others p1 = others ?p \<union> set_option (Some (ResManEnt 0))"
    using none same by (intro conjI prog_new_other [OF names(1) p1]) auto
  with none have "res_names p1" by (auto simp: res_names_def)
  from res_make_resources [OF p this] show ?thesis by (simp add: res_names_def)
qed

lemma main_setup_names:
  assumes "main_setup ex pe fe opts = Some (Inr p)"
  shows "prog_names p"
proof -
  obtain sys p1 p2 xs where sys: "System_ctor ex fe (opt_system opts) = Some (Inr sys)"
    and p1: "read_resources fe (opt_taskset opts) (with_program sys) = Some (Inr p1)"
    and p2: "read_taskset pe fe (opt_taskset opts) (on_world (\<lambda>w. fold kernel_setResManager (sys_kernels p1) w) p1) = Some (Inr (xs, p2))"
    and p: "place_all xs p2 = Inr p"
    using assms by (auto simp: main_setup_def bindN_def split: option.splits sum.splits prod.splits)
  obtain des where "System_make ex des = Inr sys" using sys by (auto simp: System_ctor_def bindN_def split: option.splits sum.splits)
  then have "prog_names p1" using read_resources_names [OF p1 names_System_make] by simp
  then have "prog_names (on_world (\<lambda>w. fold kernel_setResManager (sys_kernels p1) w) p1)"
    by (rule prog_names_same) (simp_all add: on_world_def)
  moreover obtain os where "make_placements pe os (on_world (\<lambda>w. fold kernel_setResManager (sys_kernels p1) w) p1) = Some (Inr (xs, p2))"
    using p2 by (auto simp: read_taskset_def bindN_def split: option.splits sum.splits)
  ultimately show ?thesis using p prog_make_placements prog_place_all by blast
qed

section \<open>The entities of a run\<close>

lemma set_map_filter: "set (List.map_filter f xs) = {e. \<exists>x\<in>set xs. f x = Some e}"
  by (induction xs) (auto simp: List.map_filter_simps split: option.split)

lemma distinct_map_filter:
  "distinct xs \<Longrightarrow> (\<And>x y z. x \<in> set xs \<Longrightarrow> y \<in> set xs \<Longrightarrow> f x = Some z \<Longrightarrow> f y = Some z \<Longrightarrow> x = y) \<Longrightarrow> distinct (List.map_filter f xs)"
proof (induction xs)
  case (Cons x xs)
  have "z \<notin> set (List.map_filter f xs)" if "f x = Some z" for z
    using Cons.prems that by (auto simp: set_map_filter)
  with Cons show ?case by (auto simp: List.map_filter_simps split: option.split)
qed (simp add: List.map_filter_simps)

lemma program_entities:
  assumes "prog_names p"
  shows "distinct (system_entities p)" and "t < prog_tasks p \<Longrightarrow> TaskEnt t \<in> set (system_entities p)"
    and "i < prog_servers p \<Longrightarrow> CBServerEnt i \<in> set (system_entities p)"
    and "TaskEnt t \<in> set (system_entities p) \<Longrightarrow> t < prog_tasks p"
proof -
  have inv: "reg_inv (sys_names p)" using assms by (simp add: prog_names_def reg_ok_def)
  note ord = order_set [OF inv] order_distinct [OF inv]
  have made: "prog_made p e" if "OtherObj n \<in> live (sys_names p)" "sys_others p n = Some e" for n e
    using assms that by (auto simp: prog_names_def others_def)
  have plain: "\<not> prog_made p (TaskEnt t)" "\<not> prog_made p (InstrEnt t j)" for t j by (simp_all add: prog_made_def made_def)
  show "distinct (system_entities p)" unfolding system_entities_def
  proof (rule distinct_map_filter [OF ord(2)])
    fix x y z
    assume "x \<in> set (Entity_order (sys_names p))" "y \<in> set (Entity_order (sys_names p))" "entity_of p x = Some z" "entity_of p y = Some z"
    then show "x = y" using assms made plain unfolding ord(1)
      by (cases x; cases y) (fastforce simp: entity_of_def prog_names_def reg_ok_def)+
  qed
  have ents: "set (system_entities p) = {e. \<exists>x\<in>live (sys_names p). entity_of p x = Some e}"
    by (simp add: system_entities_def set_map_filter ord(1))
  show "TaskEnt t \<in> set (system_entities p)" if "t < prog_tasks p"
    using assms that by (auto simp: ents prog_names_def entity_of_def intro!: bexI [of _ "TaskObj t"])
  show "CBServerEnt i \<in> set (system_entities p)" if "i < prog_servers p"
    using assms that by (auto simp: ents prog_names_def others_def entity_of_def) (metis object.simps)
  show "t < prog_tasks p" if "TaskEnt t \<in> set (system_entities p)"
  proof -
    from that obtain x where x: "x \<in> live (sys_names p)" "entity_of p x = Some (TaskEnt t)" by (auto simp: ents)
    show ?thesis using x assms made plain by (cases x) (fastforce simp: entity_of_def prog_names_def)+
  qed
qed

end
