(* ===== verification/Program_Laws.thy ===== *)
theory Program_Laws
  imports Program
begin

section \<open>Every event keeps a property of the state\<close>

text \<open>
  Every event but those of the servers, the end of a dispatch of a multi processor kernel and those that may
  make a task arrive keeps what \<open>instr_frame\<close> and the begin of a dispatch keep (\<open>quiet_event_frame\<close>); the
  latter keep what \<open>task_frame\<close> keeps (\<open>event_frame\<close>); if no change of a server breaks it, those of the
  servers keep it too (\<open>program_frame\<close>).
\<close>

definition server_event :: "evt \<Rightarrow> bool" where
  "server_event e = (case e of SrvSchedEvt s \<Rightarrow> True | SrvDeschedEvt s \<Rightarrow> True | SrvDispatchEvt s \<Rightarrow> True
     | _ \<Rightarrow> server_timer e)"

definition task_event :: "evt \<Rightarrow> bool" where
  "task_event e = (case e of ArrEvt t \<Rightarrow> True | EndEvt t \<Rightarrow> True | KillEvt t \<Rightarrow> True | FakeArrEvt t \<Rightarrow> True
     | DeadEvt t \<Rightarrow> True | _ \<Rightarrow> False)"

locale quiet_event_frame = instr_frame +
  assumes begin_multi: "P w \<Longrightarrow> okr P (MRTKernel_onBeginDispatchMulti k p w)"
begin

lemma okr_Let: "(\<And>x. x = v \<Longrightarrow> okr P (f x)) \<Longrightarrow> okr P (Let v f)"
  by (simp add: Let_def)

lemma okr_round:
  assumes "P w"
  shows "okr P (RRScheduler_round kern_dispatch s w)"
proof -
  have if_P: "P (if b then x else y)" if "P x" "P y" for b x y using that by simp
  have let_P: "P (Let x f)" if "P (f x)" for x :: "'a" and f using that by simp
  note P = instr_rules okr_model
  show ?thesis
    unfolding RRScheduler_round_def
    by (auto split: sched_kind.split bool.split simp del: if_split
        intro!: okr_option okr_Let okr_if okr_bindE okr_read [of "RRModel_isRoundExpired a m v" for a m v]
          okr_read [of "if b \<noteq> a then Inr True else RRModel_isRoundExpired b m v" for a b m v] okr_kern if_P let_P
          P assms)
qed

lemma okr_doit_quiet:
  "P w \<Longrightarrow> \<not> ends_switch e \<Longrightarrow> \<not> server_event e \<Longrightarrow> \<not> task_event e \<Longrightarrow> okr P (doit e w)"
  by (cases e) (auto simp: doit_def server_event_def task_event_def Server_onDlineMiss_def
      intro!: okr_sched_events okr_instr_events okr_RTKernel begin_multi okr_round)

end

locale event_frame = task_frame +
  assumes any_begin_multi: "P w \<Longrightarrow> okr P (MRTKernel_onBeginDispatchMulti k p w)"
begin

end

sublocale event_frame \<subseteq> quiet_event_frame
  by unfold_locales (rule any_begin_multi)

context event_frame
begin

lemma okr_doit_event: "P w \<Longrightarrow> \<not> ends_switch e \<Longrightarrow> \<not> server_event e \<Longrightarrow> okr P (doit e w)"
proof (cases "task_event e")
  case True
  then show "P w \<Longrightarrow> okr P (doit e w)"
    by (cases e) (auto simp: doit_def task_event_def intro!: job.okr_task_events)
qed (rule okr_doit_quiet)

end

locale program_frame = event_frame + server_frame
begin

lemma okr_doit: "P w \<Longrightarrow> \<not> ends_switch e \<Longrightarrow> okr P (doit e w)"
proof (cases "server_event e")
  case True
  then show "P w \<Longrightarrow> okr P (doit e w)"
    by (cases e) (auto simp: doit_def server_event_def intro!: one.okr_Server_events one.okr_Server one.okr_CBServer)
qed (rule okr_doit_event)

lemma okr_CBServer_killInstance: "P w \<Longrightarrow> okr P (CBServer_killInstance s w)"
proof -
  have onKill: "okr P (Task_onKill t v)" if "P v" for t v using that by (rule job.okr_task_events)
  show "P w \<Longrightarrow> okr P (CBServer_killInstance s w)"
    by (auto simp: CBServer_killInstance_def Let_def split: absTask.split
        intro!: okr_read [of "Task_getCPU t v" for t v] okr_option okr_if okr_bindE one.okr_cbs job.okr_killInstance
          onKill server one.set_fields post_timers drop_timers)
qed

end

interpretation program_at_time: program_frame "at_time T" for T
  by unfold_locales (rule kernel_at_time.okr_MRTKernel_multi)

lemma doit_keeps_time: "preserves (at_time T) (doit e)"
proof (cases "ends_switch e")
  case True
  then obtain k p where "e = EndDispatchMultiEvt k p" by (auto simp: ends_switch_def split: evt.splits)
  then show ?thesis by (simp add: preserves_okr doit_def kernel_at_time.okr_MRTKernel_multi)
next
  case False
  then show ?thesis by (simp add: preserves_okr program_at_time.okr_doit)
qed

interpretation simulator: event_handler doit
  by unfold_locales (rule doit_keeps_time)

section \<open>The bookkeeping of the multi processor kernels\<close>

text \<open>
  \<open>mrt_sys k\<close>: the bookkeeping of the kernel \<open>k\<close> is consistent, and an end of dispatch that is posted
  finds its processor switching.
\<close>

definition mrt_sys :: "nat \<Rightarrow> world \<Rightarrow> bool" where
  "mrt_sys k w \<longleftrightarrow> mrt_inv k w \<and>
     (\<forall>p. EndDispatchMultiEvt k p \<in> set (eventQueue w) \<longrightarrow> mk_isContextSwitching (mrtks w k) p)"

lemma pl_insert_subset: "pl_insert lt e xs = (q, b) \<Longrightarrow> x \<in> set q \<Longrightarrow> x = e \<or> x \<in> set xs"
proof -
  have "set (fst (pl_insert lt e xs)) \<subseteq> insert e (set xs)" by (induction xs) auto
  then show "pl_insert lt e xs = (q, b) \<Longrightarrow> x \<in> set q \<Longrightarrow> x = e \<or> x \<in> set xs" by auto
qed

lemma post_queue_subset: "Event_post e t d w = Inr w' \<Longrightarrow> set (eventQueue w') \<subseteq> insert e (set (eventQueue w))"
  by (auto simp: Event_post_def Event_setTime_def Let_def bindE_eq_Inr upd_event_def split: if_splits prod.splits
      dest: pl_insert_subset)

lemma process_queue_subset:
  assumes "Event_process e d w = Inr w'"
  shows "set (eventQueue w') \<subseteq> insert e (set (eventQueue w))"
proof -
  let ?w1 = "Event_setPriority e IMMEDIATE_PRIORITY (Event_drop e w)"
  have "set (eventQueue w') \<subseteq> insert e (set (eventQueue ?w1))"
    using assms by (auto simp: Event_process_def Let_def dest!: post_queue_subset)
  also have "eventQueue ?w1 = eventQueue (Event_drop e w)" by (simp add: Event_setPriority_def upd_event_def)
  finally show ?thesis using drop_subset [of e w] by auto
qed

text \<open>The ends of dispatch that are posted for \<open>k\<close>, and what else \<open>mrt_sys k\<close> looks at.\<close>

definition end_events :: "nat \<Rightarrow> world \<Rightarrow> nat set" where
  "end_events k w = {p. EndDispatchMultiEvt k p \<in> set (eventQueue w)}"

lemma mrt_sys_end: "mrt_sys k w \<longleftrightarrow> mrt_inv k w \<and> end_events k w \<subseteq> {p. mk_isContextSwitching (mrtks w k) p}"
  by (auto simp: mrt_sys_def end_events_def)

lemma end_events_upd [simp]:
  "end_events k (upd_task t ft w) = end_events k w" "end_events k (upd_server s fs w) = end_events k w"
  "end_events k (upd_sched s fc w) = end_events k w" "end_events k (upd_rtk i fk w) = end_events k w"
  "end_events k (upd_mrtk i fm w) = end_events k w" "end_events k (upd_cpu c fp w) = end_events k w"
  "end_events k (upd_resman m fr w) = end_events k w"
  by (simp_all add: end_events_def upd_defs)

lemma mrtks_upd [simp]:
  "mrtks (upd_task t ft w) = mrtks w" "mrtks (upd_server s fs w) = mrtks w"
  "mrtks (upd_sched s fc w) = mrtks w" "mrtks (upd_rtk i fk w) = mrtks w"
  "mrtks (upd_cpu c fp w) = mrtks w" "mrtks (upd_resman m fr w) = mrtks w"
  "i \<noteq> k \<Longrightarrow> mrtks (upd_mrtk i fm w) k = mrtks w k"
  by (simp_all add: upd_defs)

lemma post_end_events:
  "Event_post e t d w = Inr w' \<Longrightarrow> \<not> ends_switch e \<Longrightarrow> mrtks w' = mrtks w \<and> end_events k w' \<subseteq> end_events k w"
  using post_queue_subset [of e t d w w'] post_objects [of e t d w w']
  by (auto simp: end_events_def same_objects_def)

lemma process_end_events:
  "Event_process e d w = Inr w' \<Longrightarrow> \<not> ends_switch e \<Longrightarrow> mrtks w' = mrtks w \<and> end_events k w' \<subseteq> end_events k w"
  using process_queue_subset [of e d w w'] process_objects [of e d w w']
  by (auto simp: end_events_def same_objects_def)

lemma drop_end_events: "end_events k (Event_drop e w) \<subseteq> end_events k w"
  using drop_subset [of e w] by (auto simp: end_events_def)

lemma mrt_sys_mono:
  "mrt_sys k w \<Longrightarrow> mrtks w' k = mrtks w k \<Longrightarrow> end_events k w' \<subseteq> end_events k w \<Longrightarrow> mrt_sys k w'"
  by (auto simp: mrt_sys_end mrt_inv_def)

lemma mrt_sys_post: "mrt_sys k w \<Longrightarrow> \<not> ends_switch e \<Longrightarrow> okr (mrt_sys k) (Event_post e t d w)"
  using post_end_events [of e t d w _ k] mrt_sys_mono [of k w] by (auto simp: okr_def split: sum.split)

lemma mrt_sys_drop: "mrt_sys k w \<Longrightarrow> mrt_sys k (Event_drop e w)"
  by (erule mrt_sys_mono) (simp, rule drop_end_events)

interpretation sys_sched: sched_ops "mrt_sys k" for k
proof unfold_locales
  fix w e t d i ls s fs j fk
  assume w: "mrt_sys k w"
  show "okr (mrt_sys k) (Event_post e t d w)" if "plain e"
    using mrt_sys_post [OF w] that by (simp add: plain_def)
  show "okr (mrt_sys k) (Event_process e d w)" if "immediate e"
    using process_end_events [OF _ plain_cases(1) [OF immediate_plain [OF that]], of d w _ k] mrt_sys_mono [OF w]
    by (auto simp: okr_def split: sum.split)
  show "mrt_sys k (Event_drop e w)" by (rule mrt_sys_drop [OF w])
qed (rule mrt_sys_mono, assumption, simp_all)+

text \<open>The operations of the kernel itself, between the begin and the end of a dispatch.\<close>

interpretation quiet: mrt_frame "\<lambda>w. mk_isContextSwitching (mrtks w k) = C \<and> end_events k w \<subseteq> E" k for k C E
proof unfold_locales
  fix w e t d
  assume w: "mk_isContextSwitching (mrtks w k) = C \<and> end_events k w \<subseteq> E"
  show "okr (\<lambda>w. mk_isContextSwitching (mrtks w k) = C \<and> end_events k w \<subseteq> E) (Event_post e t d w)" if "plain e"
    using w post_end_events [OF _ plain_cases(1) [OF that], of t d w _ k] by (cases "Event_post e t d w") auto
  show "okr (\<lambda>w. mk_isContextSwitching (mrtks w k) = C \<and> end_events k w \<subseteq> E) (Event_process e d w)" if "immediate e"
    using w process_end_events [OF _ plain_cases(1) [OF immediate_plain [OF that]], of d w _ k] by (cases "Event_process e d w") auto
qed (use drop_end_events in \<open>auto simp: subset_iff\<close>)

lemma quiet_keeps:
  assumes "mrt_sys k w" and "\<And>C E. mk_isContextSwitching (mrtks w k) = C \<and> end_events k w \<subseteq> E \<Longrightarrow>
      okr (\<lambda>w. mk_isContextSwitching (mrtks w k) = C \<and> end_events k w \<subseteq> E) r"
    and "\<And>w'. r = Inr w' \<Longrightarrow> mrt_inv k w'"
  shows "okr (mrt_sys k) r"
proof (cases r)
  case (Inr w')
  from assms(2) [of "mk_isContextSwitching (mrtks w k)" "end_events k w"] assms(1,3) Inr show ?thesis
    by (auto simp: mrt_sys_end)
qed simp

lemma other_kernel: "i \<noteq> k \<Longrightarrow> mrt_frame (mrt_sys k) i"
  by (intro mrt_frame.intro mrt_frame_axioms.intro sys_sched.sched_ops_axioms) (auto intro: mrt_sys_mono)

interpretation sys_kernels: kernel_ops "mrt_sys k" for k
proof unfold_locales
  fix w i a
  assume w: "mrt_sys k w"
  then have inv: "mrt_inv k w" by (simp add: mrt_sys_def)
  note here = quiet_keeps [OF w quiet.okr_MRTKernel(1)] quiet_keeps [OF w quiet.okr_MRTKernel(2)]
    quiet_keeps [OF w quiet.okr_MRTKernel(3)] quiet_keeps [OF w quiet.okr_MRTKernel(4)]
  note there = mrt_frame.okr_MRTKernel [OF other_kernel w]
  show "okr (mrt_sys k) (MRTKernel_suspend i a w)"
    using here(1) there(1) MRTKernel_suspend_inv [OF inv] by (cases "i = k") auto
  show "okr (mrt_sys k) (MRTKernel_onArrival i a w)"
    using here(2) there(2) MRTKernel_onArrival_inv [OF inv] by (cases "i = k") auto
  show "okr (mrt_sys k) (MRTKernel_onEnd i a w)"
    using here(3) there(3) MRTKernel_onEnd_inv [OF inv] by (cases "i = k") auto
  show "okr (mrt_sys k) (MRTKernel_dispatch i w)"
    using here(4) there(4) MRTKernel_dispatch_inv [OF inv] by (cases "i = k") auto
qed

lemma schedule_end_events:
  assumes "absTask_schedule a w = Inr w'"
  shows "mrtks w' = mrtks w \<and> end_events k w' \<subseteq> end_events k w"
proof (cases a)
  case (TaskRef t)
  with assms process_end_events [of "SchedEvt t" False "upd_task t (\<lambda>k. k\<lparr>lastSched := globTime w\<rparr>) w" w' k]
  show ?thesis by (simp add: absTask_schedule_def Task_schedule_def)
next
  case (ServerRef s)
  with assms process_end_events [of "SrvSchedEvt s" False w w' k] show ?thesis
    by (simp add: absTask_schedule_def Server_schedule_def)
qed

lemma begin_multi_end_events:
  assumes "MRTKernel_onBeginDispatchMulti i p w = Inr w'"
  shows "end_events k w' \<subseteq> (if i = k then insert p (end_events k w) else end_events k w) \<and>
    (\<forall>q. mk_isContextSwitching (mrtks w' i) q \<longleftrightarrow> mk_isContextSwitching (mrtks w i) q \<or> q = p) \<and>
    (i \<noteq> k \<longrightarrow> mrtks w' k = mrtks w k)"
proof -
  let ?free = "\<lambda>dt x. x\<lparr>mk_oldExe := (mk_oldExe x)(dt := Some p),
                   mk_currExe := (mk_currExe x)(p := None), mk_dispatched := (mk_dispatched x)(dt := None)\<rparr>"
  obtain w1 t where w1: "(case mk_currExe (mrtks w i) p of None \<Rightarrow> Inr w
      | Some dt \<Rightarrow> absTask_deschedule dt (upd_mrtk i (?free dt) w)) = Inr w1"
    and post: "Event_post (EndDispatchMultiEvt i p) t False
      (upd_mrtk i (\<lambda>x. x\<lparr>mk_dispatched := (case MRTKernel_select i w1 of None \<Rightarrow> mk_dispatched x
                                               | Some a \<Rightarrow> (mk_dispatched x)(a := Some p)),
                  mk_endTask := (mk_endTask x)(p := MRTKernel_select i w1),
                  mk_isContextSwitching := (mk_isContextSwitching x)(p := True)\<rparr>) w1) = Inr w'"
    using assms by (auto simp: MRTKernel_onBeginDispatchMulti_def bindE_eq_Inr Let_def)
  have before: "mk_isContextSwitching (mrtks w1 i) = mk_isContextSwitching (mrtks w i) \<and> end_events k w1 \<subseteq> end_events k w
      \<and> (i \<noteq> k \<longrightarrow> mrtks w1 k = mrtks w k)"
  proof (cases "mk_currExe (mrtks w i) p")
    case None
    with w1 show ?thesis by simp
  next
    case (Some dt)
    let ?w0 = "upd_mrtk i (?free dt) w"
    have desched: "absTask_deschedule dt ?w0 = Inr w1" using w1 Some by simp
    have "mrtks w1 = mrtks ?w0" using absTask_deschedule_objects [OF desched] by (simp add: same_objects_def)
    moreover have "end_events k w1 \<subseteq> end_events k ?w0"
      using desched process_end_events [of _ False _ w1 k] drop_end_events
      by (fastforce simp: absTask_deschedule_def Task_deschedule_def Server_deschedule_def split: absTask.splits)
    ultimately show ?thesis by simp
  qed
  have kernels: "mrtks w' = mrtks (upd_mrtk i (\<lambda>x. x\<lparr>mk_dispatched := (case MRTKernel_select i w1 of None \<Rightarrow> mk_dispatched x
                                               | Some a \<Rightarrow> (mk_dispatched x)(a := Some p)),
                  mk_endTask := (mk_endTask x)(p := MRTKernel_select i w1),
                  mk_isContextSwitching := (mk_isContextSwitching x)(p := True)\<rparr>) w1)"
    using post_objects [OF post] by (simp add: same_objects_def)
  have "end_events k w' \<subseteq> (if i = k then insert p (end_events k w1) else end_events k w1)"
    using post_queue_subset [OF post] by (auto simp: end_events_def upd_mrtk_def)
  then have "end_events k w' \<subseteq> (if i = k then insert p (end_events k w) else end_events k w)"
    using before by (cases "i = k") (simp, blast)+
  with before kernels show ?thesis by simp
qed

interpretation sys_servers: server_frame "mrt_sys k" for k
  by unfold_locales (auto intro: mrt_sys_mono mrt_sys_post mrt_sys_drop simp: server_timer_def ends_switch_def split: evt.splits)

interpretation sys_program: program_frame "mrt_sys k" for k
proof unfold_locales
  show "mrt_sys k w \<Longrightarrow> okr (mrt_sys k) (MRTKernel_onBeginDispatchMulti i p w)" for w i p
  proof (cases "MRTKernel_onBeginDispatchMulti i p w")
    case (Inr w')
    assume w: "mrt_sys k w"
    show ?thesis
    proof (cases "i = k")
      case True
      with MRTKernel_onBeginDispatchMulti_inv [of k w p w'] begin_multi_end_events [OF Inr, of k] w Inr show ?thesis
        by (auto simp: mrt_sys_end)
    next
      case False
      with begin_multi_end_events [OF Inr, of k] w Inr show ?thesis by (auto intro: mrt_sys_mono)
    qed
  qed simp
  show "okr (mrt_sys k) (Event_process (FakeArrEvt t) d w)" if "mrt_sys k w" for w t d
    using process_end_events [of "FakeArrEvt t" d w _ k] mrt_sys_mono [OF that] by (auto simp: okr_def split: sum.split)
  show "okr (mrt_sys k) (Event_post e time d w)" if "mrt_sys k w" and "arrives e" for w e time d
    using mrt_sys_post [OF that(1) arrives_cases(2) [OF that(2)]] .
qed (auto intro: mrt_sys_mono)

text \<open>The end of a dispatch, whose event has been taken from the queue.\<close>

lemma end_multi_sys:
  assumes "mrt_sys k w" and "i = k \<Longrightarrow> mk_isContextSwitching (mrtks w k) p" and "EndDispatchMultiEvt i p \<notin> set (eventQueue w)"
  shows "okr (mrt_sys k) (MRTKernel_onEndDispatchMulti i p w)"
proof (cases "MRTKernel_onEndDispatchMulti i p w")
  case (Inr w')
  let ?st = "mk_endTask (mrtks w i) p"
  let ?w1 = "upd_mrtk i (\<lambda>x. x\<lparr>mk_currExe := (mk_currExe x)(p := ?st)\<rparr>) w"
  obtain w2 where w2: "(case ?st of None \<Rightarrow> Inr ?w1 | Some a \<Rightarrow> absTask_schedule a ?w1) = Inr w2"
    and notify: "Scheduler_notify (mk_sched (mrtks w2 i)) ?st
        (upd_mrtk i (\<lambda>x. x\<lparr>mk_isContextSwitching := (mk_isContextSwitching x)(p := False)\<rparr>) w2) = Inr w'"
    using Inr by (auto simp: MRTKernel_onEndDispatchMulti_def bindE_eq_Inr Let_def)
  have 2: "mrtks w2 = mrtks ?w1 \<and> end_events k w2 \<subseteq> end_events k w"
  proof (cases ?st)
    case None
    with w2 show ?thesis by auto
  next
    case (Some a)
    then have "absTask_schedule a ?w1 = Inr w2" using w2 by simp
    then show ?thesis using schedule_end_events [of a ?w1 w2 k] by simp
  qed
  let ?w3 = "upd_mrtk i (\<lambda>x. x\<lparr>mk_isContextSwitching := (mk_isContextSwitching x)(p := False)\<rparr>) w2"
  have 3: "mrtks w' = mrtks ?w3" using notify by (simp add: notify_kernels)
  have "end_events k w' \<subseteq> end_events k ?w3"
    using notify post_end_events [of _ _ False _ w' k] drop_end_events
    by (fastforce simp: Scheduler_notify_def RRScheduler_notify_def Let_def split: sched_kind.splits option.splits if_splits)
  with 2 have ends: "end_events k w' \<subseteq> end_events k w" by auto
  show ?thesis
  proof (cases "i = k")
    case True
    then have "mrt_inv k w'"
      using MRTKernel_onEndDispatchMulti_inv [of k w p w'] assms(1,2) Inr by (auto simp: mrt_sys_def)
    moreover have "p \<notin> end_events k w" using assms(3) True by (simp add: end_events_def)
    ultimately show ?thesis using assms(1) ends 2 3 True Inr by (auto simp: mrt_sys_end)
  next
    case False
    with assms(1) ends 2 3 Inr show ?thesis by (auto intro: mrt_sys_mono)
  qed
qed simp

section \<open>Reachable states\<close>

inductive sim_reach :: "world \<Rightarrow> world \<Rightarrow> bool" for w0 where
  reach_start: "sim_reach w0 w0"
| reach_step: "sim_reach w0 v \<Longrightarrow> Simulation_sim_step doit v = Inr (t, v') \<Longrightarrow> sim_reach w0 (Simulation_setTime t v')"

inductive_cases sim_reachE: "sim_reach w0 v"

lemma mrt_sys_engine:
  "mrtks w' = mrtks w \<Longrightarrow> eventQueue w' = eventQueue w \<Longrightarrow> mrt_sys k w' = mrt_sys k w"
  by (simp add: mrt_sys_def mrt_inv_def)

lemma sim_step_sys:
  assumes "mrt_sys k w" and "Simulation_sim_step doit w = Inr (t, w')"
  shows "mrt_sys k w'"
proof -
  obtain e where e: "Event_getFirst w = Some e" using assms(2)
    by (auto simp: Simulation_sim_step_def split: option.splits)
  then have mem: "e \<in> set (eventQueue w)"
    by (auto simp: Event_getFirst_def pl_front_def split: list.splits)
  let ?w1 = "Event_drop e w"
  let ?w2 = "Event_restorePriority e (upd_event e (\<lambda>ev. ev\<lparr>ev_lastTime := ev_time ev\<rparr>)
     (Simulation_setTime (Event_getTime e ?w1) ?w1))"
  obtain w3 where run: "doit e ?w2 = Inr w3"
    and w': "w' = (if ev_disposable (evs w3 e) then Event_dtor e w3 else w3)"
    using assms(2) e by (auto simp: Simulation_sim_step_def Event_action_def Let_def split: sum.splits)
  have q: "mrtks ?w2 = mrtks w" "eventQueue ?w2 = eventQueue ?w1"
    by (simp_all add: Event_restorePriority_def upd_event_def Simulation_setTime_def)
  have sys: "mrt_sys k ?w2"
    using mrt_sys_drop [OF assms(1), of e] mrt_sys_engine [of ?w2 ?w1 k] q by simp
  have "okr (mrt_sys k) (doit e ?w2)"
  proof (cases "ends_switch e")
    case True
    then obtain i p where i: "e = EndDispatchMultiEvt i p" by (auto simp: ends_switch_def split: evt.splits)
    have "mk_isContextSwitching (mrtks ?w2 k) p" if "i = k"
      using assms(1) mem i that q(1) by (auto simp: mrt_sys_def)
    moreover have "EndDispatchMultiEvt i p \<notin> set (eventQueue ?w2)" using q(2) i by simp
    ultimately show ?thesis using end_multi_sys [OF sys] i by (simp add: doit_def)
  next
    case False
    with sys show ?thesis by (rule sys_program.okr_doit)
  qed
  then have "mrt_sys k w3" using run by simp
  then show ?thesis using mrt_sys_drop by (simp add: w' Event_dtor_def)
qed

lemma sim_reach_sys: "sim_reach w0 w \<Longrightarrow> mrt_sys k w0 \<Longrightarrow> mrt_sys k w"
proof (induction rule: sim_reach.induct)
  case (reach_step v t v')
  then have "mrt_sys k v'" by (blast intro: sim_step_sys)
  then show ?case using mrt_sys_engine [of "Simulation_setTime t v'" v' k] by (simp add: Simulation_setTime_def)
qed

lemma main_cycle_reach:
  assumes "Simulation_main_cycle doit endTick w = Some (Inr w')"
  shows "sim_reach w w'"
proof -
  have "Simulation_main_cycle h endTick v = Some r \<Longrightarrow> h = doit \<Longrightarrow> sim_reach w v \<Longrightarrow> r = Inr w' \<Longrightarrow> sim_reach w w'"
    for h v r
  proof (induction h endTick v r rule: Simulation_main_cycle.raw_induct [rotated, consumes 1, case_names step])
    case (step F h endTick v r)
    show ?case
    proof (cases "globTime v < endTick")
      case False
      with step show ?thesis by auto
    next
      case True
      show ?thesis
      proof (cases "Simulation_sim_step doit v")
        case (Inl e)
        with step True show ?thesis by (cases e) auto
      next
        case (Inr p)
        obtain t v' where p: "p = (t, v')" by (cases p)
        with Inr have "sim_reach w (Simulation_setTime t v')"
          using step.prems(2) step.prems(1) step.hyps step by (blast intro: reach_step)
        with step True Inr p show ?thesis by auto
      qed
    qed
  qed
  with assms reach_start show ?thesis by blast
qed

section \<open>A task without arrivals\<close>

text \<open>
  The task \<open>t\<close>, whose last job arrived at \<open>a\<close>, has no arrival to come: neither the event of the next
  period nor the fake one of a buffered arrival is posted, and none is buffered.
\<close>

definition no_arrival :: "nat \<Rightarrow> tick \<Rightarrow> world \<Rightarrow> bool" where
  "no_arrival t a w \<longleftrightarrow> ArrEvt t \<notin> set (eventQueue w) \<and> FakeArrEvt t \<notin> set (eventQueue w)
     \<and> arrQueue (tasks w t) = [] \<and> arrival (tasks w t) = a"

lemma no_arrival_drop: "no_arrival t a w \<Longrightarrow> no_arrival t a (Event_drop e w)"
  unfolding no_arrival_def drop_objects using drop_subset [of e w] by blast

lemma no_arrival_post:
  "no_arrival t a w \<Longrightarrow> e \<noteq> ArrEvt t \<Longrightarrow> e \<noteq> FakeArrEvt t \<Longrightarrow> okr (no_arrival t a) (Event_post e time d w)"
  using post_queue_subset [of e time d w] post_objects [of e time d w]
  by (fastforce simp: no_arrival_def okr_def same_objects_def split: sum.split)

lemma no_arrival_process:
  "no_arrival t a w \<Longrightarrow> e \<noteq> ArrEvt t \<Longrightarrow> e \<noteq> FakeArrEvt t \<Longrightarrow> okr (no_arrival t a) (Event_process e d w)"
  using process_queue_subset [of e d w] process_objects [of e d w]
  by (fastforce simp: no_arrival_def okr_def same_objects_def split: sum.split)

lemma plain_no_arrival:
  "\<not> arrives e \<Longrightarrow> e \<noteq> ArrEvt t \<and> e \<noteq> FakeArrEvt t"
  by auto

lemma no_arrival_upd [simp]:
  "no_arrival t a (upd_server s fs w) = no_arrival t a w" "no_arrival t a (upd_sched s fc w) = no_arrival t a w"
  "no_arrival t a (upd_rtk k fk w) = no_arrival t a w" "no_arrival t a (upd_mrtk k fm w) = no_arrival t a w"
  "no_arrival t a (upd_cpu c fp w) = no_arrival t a w" "no_arrival t a (upd_resman m fr w) = no_arrival t a w"
  "u \<noteq> t \<Longrightarrow> no_arrival t a (upd_task u ft w) = no_arrival t a w"
  by (simp_all add: no_arrival_def upd_defs)

lemma no_arrival_task:
  "no_arrival t a w \<Longrightarrow> (\<And>x. arrQueue (ft x) = arrQueue x \<and> arrival (ft x) = arrival x) \<Longrightarrow> no_arrival t a (upd_task u ft w)"
  by (cases "u = t") (auto simp: no_arrival_def upd_task_def)

interpretation never_kernel: kernel_frame "no_arrival t a" for t a
  by unfold_locales (auto intro!: no_arrival_post no_arrival_process no_arrival_drop no_arrival_task
      simp: plain_def immediate_def)

interpretation never_server: server_frame "no_arrival t a" for t a
  by unfold_locales (auto intro!: no_arrival_post no_arrival_drop simp: server_timer_def)

interpretation never: quiet_event_frame "no_arrival t a" for t a
  by unfold_locales (auto intro!: never_kernel.okr_MRTKernel_multi no_arrival_task)

lemma never_other: "u \<noteq> t \<Longrightarrow> one_task_frame (no_arrival t a) u"
  by (intro one_task_frame.intro one_task_frame_axioms.intro never.instr_frame_axioms no_arrival_post no_arrival_process)
    auto

lemma never_finish: "no_arrival t a w \<Longrightarrow> okr (no_arrival t a) (Task_finish t w)"
  by (rule never.okr_finish_without) (simp_all add: no_arrival_def Task_chkBuffArrival_def)

lemma never_task_event:
  assumes "no_arrival t a w" and "task_event e" and "e \<noteq> ArrEvt t" and "e \<noteq> FakeArrEvt t"
  shows "okr (no_arrival t a) (doit e w)"
proof -
  note other = one_task_frame.okr_task_events [OF never_other, rotated, OF assms(1)]
  have killed: "\<not> Task_chkBuffArrival (tasks v t)" if "no_arrival t a v" for v
    using that by (simp add: no_arrival_def Task_chkBuffArrival_def)
  have ended: "no_arrival t a (Task_endRun t v)" if "no_arrival t a v" for v
    unfolding Task_endRun_def using that by (intro no_arrival_drop) (simp add: no_arrival_def upd_task_def)
  have "okr (no_arrival t a) (Task_onEndInstance t w)"
    using assms(1) by (auto simp: Task_onEndInstance_def Let_def intro!: okr_if okr_bindE never_finish no_arrival_drop no_arrival_task)
  moreover have "okr (no_arrival t a) (Task_onKill t w)"
    unfolding Task_onKill_def
    by (rule okr_bindE, intro never_finish no_arrival_task no_arrival_drop assms(1), simp, simp add: ended)
  moreover have dead: "okr (no_arrival t a) (Task_onDead t w)"
    using assms(1) killed by (auto simp: Task_onDead_def Task_killInstance_def
        intro!: okr_if okr_bindE okr_whenE never.okr_Task_deschedule no_arrival_post no_arrival_drop)
  ultimately show ?thesis
    using other assms(2-4) by (cases e) (force simp: doit_def task_event_def)+
qed

lemma no_arrival_engine:
  "tasks w' = tasks w \<Longrightarrow> eventQueue w' = eventQueue w \<Longrightarrow> no_arrival t a w' = no_arrival t a w"
  by (simp add: no_arrival_def)

lemma sim_step_no_arrival:
  assumes "no_arrival t a w" and "Simulation_sim_step doit w = Inr (T, w')"
  shows "no_arrival t a w'"
proof -
  obtain e w2 where e: "Event_getFirst w = Some e"
    and act: "Event_action doit e (Simulation_setTime T (Event_drop e w)) = Inr w2"
    and w': "w' = (if ev_disposable (evs w2 e) then Event_dtor e w2 else w2)"
    using simulator.sim_step_first [OF assms(2)] by metis
  have mem: "e \<noteq> ArrEvt t \<and> e \<noteq> FakeArrEvt t"
    using first_in_queue [OF e] assms(1) by (auto simp: no_arrival_def)
  define v where "v = Event_restorePriority e (upd_event e (\<lambda>ev. ev\<lparr>ev_lastTime := ev_time ev\<rparr>)
     (Simulation_setTime T (Event_drop e w)))"
  have "no_arrival t a v"
    using no_arrival_drop [OF assms(1), of e] no_arrival_engine [of v "Event_drop e w" t a]
    by (simp add: v_def Event_restorePriority_def upd_event_def Simulation_setTime_def)
  then have "okr (no_arrival t a) (doit e v)"
  proof -
    assume v: "no_arrival t a v"
    consider "ends_switch e" | "server_event e" | "task_event e" | "\<not> ends_switch e" "\<not> server_event e" "\<not> task_event e"
      by blast
    then show ?thesis
    proof cases
      case 1
      then obtain k p where "e = EndDispatchMultiEvt k p" by (auto simp: ends_switch_def split: evt.splits)
      then show ?thesis using never_kernel.okr_MRTKernel_multi(2) [OF v] by (simp add: doit_def)
    next
      case 2
      then show ?thesis using v by (cases e) (auto simp: doit_def server_event_def
          intro!: never_server.one.okr_Server_events never_server.one.okr_Server never_server.one.okr_CBServer)
    next
      case 3
      then show ?thesis using mem v by (blast intro: never_task_event)
    next
      case 4
      then show ?thesis using v by (blast intro: never.okr_doit_quiet)
    qed
  qed
  then have "no_arrival t a w2" using act by (simp add: Event_action_def v_def)
  then show ?thesis using no_arrival_drop by (simp add: w' Event_dtor_def)
qed

text \<open>
  C23. A task that is killed, as a task with \<open>killOnMiss\<close> is at a missed deadline, never arrives again: in
  every state that a simulation reaches from the one in which \<open>onKill\<close> returned, neither its arrival nor
  the fake arrival of a buffered one is posted, so that no step can run them, none is buffered, and the
  arrival of its last job is still that of the job that was killed.
\<close>

theorem killed_task_never_arrives:
  assumes "Task_onKill t w0 = Inr w1" and "sim_reach w1 w"
  shows "ArrEvt t \<notin> set (eventQueue w) \<and> FakeArrEvt t \<notin> set (eventQueue w) \<and> arrQueue (tasks w t) = []
    \<and> Event_getFirst w \<notin> {Some (ArrEvt t), Some (FakeArrEvt t)} \<and> arrival (tasks w t) = arrival (tasks w1 t)"
proof -
  have "no_arrival t (arrival (tasks w1 t)) w"
    using assms(2)
  proof induction
    case reach_start
    then show ?case using kill_drops_arrivals [OF assms(1)] by (simp add: no_arrival_def)
  next
    case (reach_step v T v')
    then have "no_arrival t (arrival (tasks w1 t)) v'" by (blast intro: sim_step_no_arrival)
    then show ?case
      using no_arrival_engine [of "Simulation_setTime T v'" v' t] by (simp add: Simulation_setTime_def)
  qed
  then show ?thesis using first_in_queue [of w "ArrEvt t"] first_in_queue [of w "FakeArrEvt t"]
    by (auto simp: no_arrival_def)
qed

text \<open>
  Task 0 of \<open>task_example\<close>, which executes, is killed at time 5; the step is the dispatch that follows.
\<close>

definition killed_example :: world where
  "killed_example = upd_rtk 0 (\<lambda>x. x\<lparr>rk_currExe := Some (TaskRef 0)\<rparr>) task_example"

lemma drop_keys: "ev_time (evs (Event_drop e w) x) = ev_time (evs w x)"
  by (simp add: Event_drop_def upd_event_def)

lemma drop_single:
  "eventQueue w = [f] \<Longrightarrow> ev_time (evs w e) \<noteq> ev_time (evs w f) \<Longrightarrow> eventQueue (Event_drop e w) = [f]"
  by (auto simp: drop_queue pl_erase_def equivalent_key_def queue_lt_def Event_Cmp_lex)

lemma endRun_single:
  assumes "eventQueue w = [f]" and "ev_time (evs w f) \<noteq> MAXTICK"
    and "\<forall>e\<in>{ArrEvt t, EndEvt t, SchedEvt t, DeschedEvt t, FakeArrEvt t, DeadEvt t, KillEvt t}. ev_time (evs w e) = MAXTICK"
  shows "eventQueue (Task_endRun t w) = [f]"
proof -
  let ?w = "upd_task t (\<lambda>k. k\<lparr>arrQueue := []\<rparr>) w"
  have w: "eventQueue ?w = [f]" "evs ?w = evs w" using assms(1) by (simp_all add: upd_task_def)
  show ?thesis
    unfolding Task_endRun_def by (intro drop_single w) (use assms(2,3) in \<open>simp_all only: drop_keys w, auto\<close>)
qed

lemma killed_example_kill:
  "\<exists>w1. Task_onKill 0 killed_example = Inr w1 \<and> eventQueue w1 = [BeginDispatchEvt 0] \<and> rk_currExe (rtks w1 0) = None
     \<and> sch_queue (scheds w1 (rk_sched (rtks w1 0))) = [] \<and> sch_kind (scheds w1 (rk_sched (rtks w1 0))) = FIFOScheduler"
proof -
  obtain v where fin: "Task_finish 0 (upd_task 0 (\<lambda>k. k\<lparr>lastArrival := arrival k\<rparr>)
        (Event_drop (KillEvt 0) (Event_drop (DeadEvt 0) killed_example))) = Inr v"
    and q: "eventQueue v = [BeginDispatchEvt 0]" and t: "ev_time (evs v (BeginDispatchEvt 0)) \<noteq> MAXTICK"
      "\<forall>e\<in>{ArrEvt 0, EndEvt 0, SchedEvt 0, DeschedEvt 0, FakeArrEvt 0, DeadEvt 0, KillEvt 0}. ev_time (evs v e) = MAXTICK"
    and idle: "rk_currExe (rtks v 0) = None" "sch_queue (scheds v (rk_sched (rtks v 0))) = []"
      "sch_kind (scheds v (rk_sched (rtks v 0))) = FIFOScheduler"
    by (simp add: killed_example_def task_eval Task_finish_def index_of_def Task_getCPU_def kern_getProcessor_def
        root_getProcessor_def RTKernel_getProcessor_def Task_with_kernel_def kern_onEnd_def root_onEnd_def
        RTKernel_onEnd_def Event_drop_def pl_erase_def Task_chkBuffArrival_def RTKernel_dispatch_def MAXTICK_def)
  then have "Task_onKill 0 killed_example = Inr (Task_endRun 0 v)" by (simp add: Task_onKill_def)
  moreover have "eventQueue (Task_endRun 0 v) = [BeginDispatchEvt 0]" by (rule endRun_single [OF q t])
  moreover have "rtks (Task_endRun 0 v) = rtks v" "scheds (Task_endRun 0 v) = scheds v"
    by (simp_all add: Task_endRun_def upd_task_def)
  ultimately show ?thesis using idle by simp
qed

theorem killed_task_never_arrives_witness:
  "\<exists>w1 t w. Task_onKill 0 killed_example = Inr w1 \<and> Simulation_sim_step doit w1 = Inr (t, w)
      \<and> ArrEvt 0 \<notin> set (eventQueue (Simulation_setTime t w))"
proof -
  obtain w1 where kill: "Task_onKill 0 killed_example = Inr w1" and "eventQueue w1 = [BeginDispatchEvt 0]"
    and "rk_currExe (rtks w1 0) = None" and "sch_queue (scheds w1 (rk_sched (rtks w1 0))) = []"
    and "sch_kind (scheds w1 (rk_sched (rtks w1 0))) = FIFOScheduler"
    using killed_example_kill by blast
  then have "\<exists>t w. Simulation_sim_step doit w1 = Inr (t, w)"
    by (simp add: Simulation_sim_step_def Event_getFirst_def pl_front_def Event_action_def doit_def Let_def
        RTKernel_onBeginDispatch_def Scheduler_notify_def Event_restorePriority_def upd_event_def Simulation_setTime_def
        Scheduler_getFirst_def Scheduler_getTaskN_def)
  then obtain t w where step: "Simulation_sim_step doit w1 = Inr (t, w)" by blast
  from killed_task_never_arrives [OF kill reach_step [OF reach_start step]] kill step show ?thesis by blast
qed

section \<open>The start of a run\<close>

definition started :: "nat \<Rightarrow> world \<Rightarrow> bool" where
  "started t w \<longleftrightarrow> tstate (tasks w t) = TSK_IDLE \<and> arrQueue (tasks w t) = [] \<and>
    (int_time (tasks w t) \<noteq> None \<longrightarrow>
       ArrEvt t \<in> set (eventQueue w) \<and> ev_time (evs w (ArrEvt t)) = phase (tasks w t))"

lemma pl_insert_keeps: "pl_insert lt e xs = (q, b) \<Longrightarrow> x \<in> set xs \<Longrightarrow> x \<in> set q"
proof -
  have "set xs \<subseteq> set (fst (pl_insert lt e xs))" by (induction xs) auto
  then show "pl_insert lt e xs = (q, b) \<Longrightarrow> x \<in> set xs \<Longrightarrow> x \<in> set q" by auto
qed

lemma post_others:
  assumes "Event_post e t d w = Inr w'"
  shows "set (eventQueue w) \<subseteq> set (eventQueue w')" and "x \<noteq> e \<Longrightarrow> evs w' x = evs w x" and "ev_time (evs w' e) = t"
  using assms by (auto simp: Event_post_def Event_setTime_def Let_def bindE_eq_Inr upd_event_def
      split: if_splits prod.splits dest: pl_insert_keeps)

lemma post_done: "Event_post e t d w = Inr w' \<Longrightarrow> e \<in> set (eventQueue w') \<and> ev_time (evs w' e) = t"
  by (simp add: post_queued post_others(3))

lemma Task_newRun_started:
  assumes "Task_newRun t w = Inr w'"
  shows "started t w'"
proof -
  let ?w1 = "upd_task t (\<lambda>k. k\<lparr>actInstr := 0, tstate := TSK_IDLE, arrQueue := [], lastArrival := phase k,
                  arrival := phase k\<rparr>) w"
  obtain w2 where w2: "(if int_time (tasks ?w1 t) \<noteq> None
       then Event_post (ArrEvt t) (arrival (tasks ?w1 t)) False ?w1 else Inr ?w1) = Inr w2"
    and w': "w' = upd_task t (\<lambda>k. k\<lparr>dl := 0\<rparr>) w2"
    using assms by (auto simp: Task_newRun_def Let_def bindE_eq_Inr split: if_splits)
  have "tasks w2 = tasks ?w1" using w2 by (auto simp: same_objects_def split: if_splits dest: post_objects)
  with w2 show ?thesis
    by (auto simp: w' started_def upd_task_def dest!: post_done split: if_splits)
qed

lemma started_mono:
  assumes "started t w" and "ArrEvt t \<in> set (eventQueue w) \<Longrightarrow> ArrEvt t \<in> set (eventQueue w')"
    and "evs w' (ArrEvt t) = evs w (ArrEvt t)"
    and "\<exists>q. tasks w' t = (tasks w t)\<lparr>instrQueue := q\<rparr>"
  shows "started t w'"
  using assms by (auto simp: started_def)

lemma same_task: "tasks w' t = tasks w t \<Longrightarrow> \<exists>q. tasks w' t = (tasks w t)\<lparr>instrQueue := q\<rparr>"
  by (auto intro: exI [of _ "instrQueue (tasks w t)"])

lemma clear_cpus_tasks: "MRTKernel_clear_cpus k cs w = Inr w' \<Longrightarrow> tasks w' = tasks w"
proof (induction cs arbitrary: w)
  case (Cons c cs)
  obtain w1 where w1: "(case mk_currExe (mrtks w k) c of None \<Rightarrow> Inr w
      | Some a \<Rightarrow> Scheduler_extract (mk_sched (mrtks w k)) a w) = Inr w1"
    and rest: "MRTKernel_clear_cpus k cs (upd_mrtk k (\<lambda>x. x\<lparr>mk_currExe := (mk_currExe x)(c := None)\<rparr>) w1) = Inr w'"
    using Cons.prems by (auto simp: bindE_eq_Inr)
  from w1 have "tasks w1 = tasks w"
    by (auto simp: Scheduler_extract_def Let_def upd_defs split: option.splits if_splits)
  with Cons.IH [OF rest] show ?case by (simp add: upd_mrtk_def)
qed simp

lemma entity_newRun_started:
  assumes "entity_newRun x w = Inr w'" and "x \<noteq> TaskEnt t" and "started t w"
  shows "started t w'"
proof (cases x)
  case (TaskEnt u)
  then have u: "u \<noteq> t" and run: "Task_newRun u w = Inr w'" using assms(1,2) by (auto simp: entity_newRun_def)
  let ?w1 = "upd_task u (\<lambda>k. k\<lparr>actInstr := 0, tstate := TSK_IDLE, arrQueue := [], lastArrival := phase k,
                  arrival := phase k\<rparr>) w"
  obtain w2 where w2: "(if int_time (tasks ?w1 u) \<noteq> None
       then Event_post (ArrEvt u) (arrival (tasks ?w1 u)) False ?w1 else Inr ?w1) = Inr w2"
    and w': "w' = upd_task u (\<lambda>k. k\<lparr>dl := 0\<rparr>) w2"
    using run by (auto simp: Task_newRun_def Let_def bindE_eq_Inr split: if_splits)
  have "tasks w2 = tasks ?w1" "set (eventQueue ?w1) \<subseteq> set (eventQueue w2)" "evs w2 (ArrEvt t) = evs ?w1 (ArrEvt t)"
    using w2 u post_others [of "ArrEvt u" _ False ?w1 w2]
    by (auto simp: same_objects_def split: if_splits dest: post_objects)
  with u show ?thesis
    by (intro started_mono [OF assms(3)] same_task) (auto simp: w' upd_task_def)
next
  case (InstrEnt u i)
  with assms(1) have w': "w' = upd_instr u i Instr_newRun w" by (simp add: entity_newRun_def)
  have "\<exists>q. tasks w' t = (tasks w t)\<lparr>instrQueue := q\<rparr>"
    by (cases "u = t") (auto simp: w' upd_instr_def upd_task_def intro: same_task)
  then show ?thesis
    by (intro started_mono [OF assms(3)]) (simp_all add: w' upd_instr_def upd_task_def)
next
  case (MRTKernelEnt k)
  then obtain w1 where w1: "MRTKernel_clear_cpus k (mk_cpus (mrtks w k)) w = Inr w1"
    and w': "w' = upd_mrtk k (\<lambda>x. x\<lparr>mk_dispatched := (\<lambda>_. None), mk_oldExe := (\<lambda>_. None)\<rparr>) w1"
    using assms(1) by (auto simp: entity_newRun_def MRTKernel_newRun_def bindE_eq_Inr)
  from clear_cpus_tasks [OF w1] clear_cpus_frame [OF w1] show ?thesis
    by (intro started_mono [OF assms(3)] same_task) (auto simp: w' same_engine_def upd_mrtk_def)
next
  case (CBServerEnt s)
  with assms(1) show ?thesis
    by (intro started_mono [OF assms(3)] same_task)
      (auto simp: entity_newRun_def CBServer_newRun_def Let_def bindE_eq_Inr upd_server_def
        split: if_splits dest!: with_vtime_servers)
qed (use assms in \<open>auto simp: entity_newRun_def CPU_setWorkload_def RTKernel_newRun_def Scheduler_newRun_def
    FCFSResManager_newRun_def upd_resource_def upd_defs split: if_splits intro!: started_mono [OF assms(3)] same_task\<close>)

lemma callNewRun_started:
  "callNewRun es w = Inr w' \<Longrightarrow> started t w \<and> TaskEnt t \<notin> set es \<or> TaskEnt t \<in> set es \<and> distinct es \<Longrightarrow> started t w'"
proof (induction es arbitrary: w)
  case Nil
  then show ?case by (simp add: callNewRun_def)
next
  case (Cons x es)
  then obtain v where v: "entity_newRun x w = Inr v" and rest: "callNewRun es v = Inr w'"
    by (auto simp: callNewRun_def bindE_eq_Inr)
  show ?case
  proof (cases "x = TaskEnt t")
    case True
    then have "started t v" using v Task_newRun_started by (simp add: entity_newRun_def)
    with Cons.IH [OF rest] Cons.prems(2) True show ?thesis by auto
  next
    case False
    with Cons.IH [OF rest] Cons.prems(2) entity_newRun_started [OF v False] show ?thesis by auto
  qed
qed

text \<open>A task dispatched to processor 1 of the kernel of \<open>mrtk_example\<close>, and the step that begins it.\<close>

definition program_example :: world where
  "program_example = result_world (MRTKernel_dispatch_cpu 0 1 mrtk_example)"

lemma program_step:
  "\<exists>t w'. Simulation_sim_step doit program_example = Inr (t, w') \<and> mk_isContextSwitching (mrtks w' 0) 1"
  by (simp add: program_example_def kernel_eval MRTKernel_dispatch_cpu_def Event_drop_def pl_erase_def
      equivalent_key_def Simulation_sim_step_def Event_getFirst_def pl_front_def Event_action_def
      Event_getTime_def doit_def Event_restorePriority_def MRTKernel_onBeginDispatchMulti_def MRTKernel_select_def)

section \<open>Properties\<close>

text \<open>
  C1. No task ever runs on two processors of a multi processor kernel: from a state in which the
  bookkeeping of the kernel is consistent, this holds in every state the simulation reaches, whatever
  events are executed, and in particular when the main cycle of \<open>run\<close> returns.
\<close>

theorem reachable_one_processor:
  assumes "mrt_sys k w0" and "sim_reach w0 w \<or> Simulation_main_cycle doit endTick w0 = Some (Inr w)"
  shows "mrt_sys k w \<and> (\<forall>a c d. MRTKernel_getTask k c w = Some a \<longrightarrow> MRTKernel_getTask k d w = Some a \<longrightarrow> c = d)"
proof -
  have "sim_reach w0 w" using assms(2) main_cycle_reach by blast
  then have sys: "mrt_sys k w" using assms(1) by (rule sim_reach_sys)
  then have "mrt_ok (mrtks w k)" by (simp add: mrt_sys_def mrt_inv_def)
  then have "c = d" if "MRTKernel_getTask k c w = Some a" "MRTKernel_getTask k d w = Some a" for a c d
    using that mrt_ok_one_cpu by (simp add: MRTKernel_getTask_def)
  with sys show ?thesis by blast
qed

theorem reachable_one_processor_witness:
  "\<exists>t w'. Simulation_sim_step doit program_example = Inr (t, w') \<and> mrt_sys 0 (Simulation_setTime t w')
     \<and> mk_isContextSwitching (mrtks w' 0) 1"
proof -
  have sys: "mrt_sys 0 program_example"
    by (simp add: program_example_def kernel_eval MRTKernel_dispatch_cpu_def Event_drop_def pl_erase_def
        mrt_sys_def mrt_inv_def mrt_ok_def)
  obtain t w' where step: "Simulation_sim_step doit program_example = Inr (t, w')"
    and switching: "mk_isContextSwitching (mrtks w' 0) 1" using program_step by blast
  have "sim_reach program_example (Simulation_setTime t w')"
    using reach_start step by (rule reach_step)
  with reachable_one_processor [OF sys] step switching show ?thesis by blast
qed

text \<open>
  C5. The clock of the simulator never goes back and no event is ever late: the event queue stays well
  formed in every state the simulation reaches, and every event in it is at or after the current time.
\<close>

theorem reachable_in_time_order:
  assumes "evq_inv w0" and "sim_reach w0 w"
  shows "evq_inv w \<and> globTime w0 \<le> globTime w \<and> (\<forall>e\<in>set (eventQueue w). globTime w \<le> ev_time (evs w e))"
proof -
  have "evq_inv w \<and> globTime w0 \<le> globTime w"
    using assms(2)
  proof induction
    case (reach_step v t v')
    then show ?case
      using simulator.sim_step_evq_inv [of v t v'] simulator.sim_step_at_time(2) [of v t v'] by auto
  qed (simp add: assms(1))
  then show ?thesis by (auto dest: evq_inv_event simp: event_ok_def)
qed

theorem reachable_in_time_order_witness:
  "\<exists>w'. sim_reach program_example w' \<and> w' \<noteq> program_example \<and> evq_inv w' \<and> 5 \<le> globTime w'"
proof -
  have inv: "evq_inv program_example" and now: "globTime program_example = 5"
    and idle: "\<not> mk_isContextSwitching (mrtks program_example 0) 1"
    by (simp_all add: program_example_def kernel_eval MRTKernel_dispatch_cpu_def Event_drop_def pl_erase_def)
  obtain t w' where step: "Simulation_sim_step doit program_example = Inr (t, w')"
    and "mk_isContextSwitching (mrtks w' 0) 1" using program_step by blast
  then have "mk_isContextSwitching (mrtks (Simulation_setTime t w') 0) 1" by (simp add: Simulation_setTime_def)
  then have "Simulation_setTime t w' \<noteq> program_example" using idle by metis
  moreover have reach: "sim_reach program_example (Simulation_setTime t w')"
    using reach_start step by (rule reach_step)
  ultimately show ?thesis
    using reachable_in_time_order [OF inv reach] now by (intro exI [of _ "Simulation_setTime t w'"]) simp
qed

text \<open>
  A run starts afresh for every task: when \<open>callNewRun\<close> returns, every task of the simulation is idle with no
  arrival buffered, and the first arrival of a task with an inter-arrival time is posted at its phase,
  whatever the order of the entities and the state the previous run left.
\<close>

theorem run_starts_tasks:
  assumes "callNewRun es w = Inr w'" and "distinct es" and "TaskEnt t \<in> set es"
  shows "tstate (tasks w' t) = TSK_IDLE \<and> arrQueue (tasks w' t) = [] \<and>
    (int_time (tasks w' t) \<noteq> None \<longrightarrow>
       ArrEvt t \<in> set (eventQueue w') \<and> ev_time (evs w' (ArrEvt t)) = phase (tasks w' t))"
  using callNewRun_started [OF assms(1), of t] assms(2,3) by (simp add: started_def)

lemma run_starts_tasks_witness:
  "\<exists>w'. callNewRun [TaskEnt 0, RTKernelEnt 0]
      (upd_task 0 (\<lambda>k. k\<lparr>int_time := Some (DeltaVar 20), phase := 8\<rparr>) task_example) = Inr w' \<and>
     tstate (tasks w' 0) = TSK_IDLE \<and> ArrEvt 0 \<in> set (eventQueue w')"
proof -
  let ?w = "upd_task 0 (\<lambda>k. k\<lparr>int_time := Some (DeltaVar 20), phase := 8\<rparr>) task_example"
  have "\<exists>w'. callNewRun [TaskEnt 0, RTKernelEnt 0] ?w = Inr w' \<and> int_time (tasks w' 0) \<noteq> None"
    by (simp add: task_eval callNewRun_def entity_newRun_def Task_newRun_def RTKernel_newRun_def)
  then obtain w' where run: "callNewRun [TaskEnt 0, RTKernelEnt 0] ?w = Inr w'"
    and "int_time (tasks w' 0) \<noteq> None" by blast
  with run_starts_tasks [OF run, of 0] show ?thesis by auto
qed

end
