(* ===== verification/CBS_Spec.thy ===== *)
theory CBS_Spec
  imports World
begin

text \<open>
  What a constant bandwidth server with budget \<open>Q\<close>, period \<open>P\<close> and, when \<open>HR\<close> holds, hard reservation
  promises: a state machine over the clock, the budget, the deadline, the virtual time and the times at
  which its three timers are posted.  \<open>Program_Servers\<close> shows that the server of the code is one.
\<close>

record cbs_state =
  a_now :: tick
  a_status :: server_status
  a_cap :: tick
  a_d :: tick
  a_last :: tick
  a_vt :: rat
  a_exhaust :: "tick option"
  a_idle :: "tick option"
  a_repl :: "tick option"

section \<open>The machine\<close>

text \<open>How fast the virtual time of an executing server runs.\<close>

definition cbs_rate :: "tick \<Rightarrow> tick \<Rightarrow> rat" where
  "cbs_rate Q P = of_int P / of_int Q"

text \<open>The time used since the server started to execute is taken from the budget.\<close>

definition cbs_charge :: "tick \<Rightarrow> tick \<Rightarrow> cbs_state \<Rightarrow> cbs_state" where
  "cbs_charge Q P v = v\<lparr>a_cap := a_cap v - (a_now v - a_last v),
     a_vt := a_vt v + of_int (a_now v - a_last v) * cbs_rate Q P, a_exhaust := None\<rparr>"

definition no_timer_before :: "tick \<Rightarrow> cbs_state \<Rightarrow> bool" where
  "no_timer_before t v \<longleftrightarrow> (\<forall>u. a_exhaust v = Some u \<or> a_idle v = Some u \<or> a_repl v = Some u \<longrightarrow> t \<le> u)"

inductive cbs_step :: "tick \<Rightarrow> tick \<Rightarrow> bool \<Rightarrow> cbs_state \<Rightarrow> cbs_state \<Rightarrow> bool" for Q P HR where
  pass: "a_now v \<le> t \<Longrightarrow> no_timer_before t v \<Longrightarrow> cbs_step Q P HR v (v\<lparr>a_now := t\<rparr>)"
| activate: "a_status v = IDLE \<Longrightarrow>
    cbs_step Q P HR v (v\<lparr>a_status := READY, a_cap := Q, a_d := a_now v + P, a_vt := of_int (a_now v)\<rparr>)"
| resume: "a_status v = RELEASING \<Longrightarrow> cbs_step Q P HR v (v\<lparr>a_status := READY, a_idle := None\<rparr>)"
| start: "a_status v = READY \<Longrightarrow>
    cbs_step Q P HR v (v\<lparr>a_status := EXECUTING, a_last := a_now v, a_exhaust := Some (a_now v + a_cap v)\<rparr>)"
| preempt: "a_status v = EXECUTING \<Longrightarrow> cbs_step Q P HR v ((cbs_charge Q P v)\<lparr>a_status := READY\<rparr>)"
| exhaust_soft: "a_status v = EXECUTING \<Longrightarrow> a_exhaust v = Some (a_now v) \<Longrightarrow> \<not> HR \<Longrightarrow>
    cbs_step Q P HR v ((cbs_charge Q P v)\<lparr>a_status := READY, a_cap := Q, a_d := a_d v + P,
      a_repl := Some (a_now v)\<rparr>)"
| exhaust_hard: "a_status v = EXECUTING \<Longrightarrow> a_exhaust v = Some (a_now v) \<Longrightarrow> HR \<Longrightarrow>
    cbs_step Q P HR v ((cbs_charge Q P v)\<lparr>a_status := RECHARGING, a_cap := 0, a_d := a_d v + P,
      a_repl := Some (a_d v)\<rparr>)"
| release_idle: "a_status v = EXECUTING \<Longrightarrow> a_repl v = None \<Longrightarrow> a_vt (cbs_charge Q P v) \<le> of_int (a_now v) \<Longrightarrow>
    cbs_step Q P HR v ((cbs_charge Q P v)\<lparr>a_status := IDLE\<rparr>)"
| release: "a_status v = EXECUTING \<Longrightarrow> a_repl v = None \<Longrightarrow> of_int (a_now v) < a_vt (cbs_charge Q P v) \<Longrightarrow>
    cbs_step Q P HR v ((cbs_charge Q P v)\<lparr>a_status := RELEASING,
      a_idle := Some (Tick_of_double (a_vt (cbs_charge Q P v)))\<rparr>)"
| replenish_late: "a_status v \<in> {READY, EXECUTING} \<Longrightarrow> a_repl v = Some (a_now v) \<Longrightarrow>
    cbs_step Q P HR v (v\<lparr>a_repl := None\<rparr>)"
| replenish_ready: "a_status v = RECHARGING \<Longrightarrow> a_repl v = Some (a_now v) \<Longrightarrow>
    cbs_step Q P HR v (v\<lparr>a_repl := None, a_cap := Q, a_status := READY\<rparr>)"
| replenish_releasing: "a_status v = RECHARGING \<Longrightarrow> a_repl v = Some (a_now v) \<Longrightarrow> of_int (a_now v) < a_vt v \<Longrightarrow>
    cbs_step Q P HR v (v\<lparr>a_repl := None, a_cap := Q, a_status := RELEASING, a_idle := Some (Tick_ceil (a_vt v))\<rparr>)"
| replenish_idle: "a_status v = RECHARGING \<Longrightarrow> a_repl v = Some (a_now v) \<Longrightarrow> a_vt v \<le> of_int (a_now v) \<Longrightarrow>
    cbs_step Q P HR v (v\<lparr>a_repl := None, a_cap := Q, a_status := IDLE\<rparr>)"
| become_idle: "a_status v = RELEASING \<Longrightarrow> a_idle v = Some (a_now v) \<Longrightarrow>
    cbs_step Q P HR v (v\<lparr>a_status := IDLE, a_idle := None\<rparr>)"

abbreviation cbs_steps :: "tick \<Rightarrow> tick \<Rightarrow> bool \<Rightarrow> cbs_state \<Rightarrow> cbs_state \<Rightarrow> bool" where
  "cbs_steps Q P HR \<equiv> (cbs_step Q P HR)\<^sup>*\<^sup>*"

section \<open>Its invariant\<close>

text \<open>
  The budget is between zero and \<open>Q\<close> and is never overrun; the virtual time lags behind the deadline by
  what the remaining budget is worth at the bandwidth \<open>Q / P\<close>; a timer is posted only in the states that
  need it, the exhaustion of an executing server for the moment its budget is used up; the deadline of
  a hard server is at most one period away, two while it waits for its replenishment.
\<close>

definition cbs_good :: "tick \<Rightarrow> tick \<Rightarrow> bool \<Rightarrow> cbs_state \<Rightarrow> bool" where
  "cbs_good Q P HR v \<longleftrightarrow>
    (a_status v \<noteq> IDLE \<longrightarrow> 0 \<le> a_cap v \<and> a_cap v \<le> Q) \<and>
    (a_status v \<in> {READY, EXECUTING, RELEASING} \<longrightarrow>
       a_vt v = of_int (a_d v) - of_int (a_cap v) * cbs_rate Q P) \<and>
    (a_status v = RECHARGING \<longrightarrow> HR \<and> a_vt v = of_int (a_d v - P) \<and> a_cap v = 0 \<and> a_repl v = Some (a_d v - P)) \<and>
    (a_status v = EXECUTING \<longrightarrow> a_last v \<le> a_now v \<and> a_now v \<le> a_last v + a_cap v) \<and>
    a_exhaust v = (if a_status v = EXECUTING then Some (a_last v + a_cap v) else None) \<and>
    (a_idle v \<noteq> None \<longrightarrow> a_status v = RELEASING) \<and>
    (a_repl v \<noteq> None \<longrightarrow> a_status v = RECHARGING
       \<or> a_status v \<in> {READY, EXECUTING} \<and> a_repl v = Some (a_now v)) \<and>
    (HR \<longrightarrow> a_status v \<in> {READY, EXECUTING, RELEASING} \<longrightarrow> a_d v \<le> a_now v + P) \<and>
    (a_status v = RECHARGING \<longrightarrow> a_d v \<le> a_now v + 2 * P)"

lemma cbs_rate_full [simp]: "0 < Q \<Longrightarrow> of_int Q * cbs_rate Q P = of_int P" "0 < Q \<Longrightarrow> cbs_rate Q P * of_int Q = of_int P"
  by (simp_all add: cbs_rate_def)

lemma cbs_rate_pos: "0 < Q \<Longrightarrow> 0 < P \<Longrightarrow> 0 < cbs_rate Q P"
  by (simp add: cbs_rate_def)

lemma cbs_good_step:
  assumes "cbs_step Q P HR v v'" and "cbs_good Q P HR v" and "0 < Q" and "0 < P"
  shows "cbs_good Q P HR v'"
  using assms(1)
proof cases
  case (pass t)
  with assms(2) show ?thesis
    by (cases "a_status v") (auto simp: cbs_good_def no_timer_before_def)
qed (use assms(2-4) in \<open>auto simp: cbs_good_def cbs_charge_def algebra_simps\<close>)

lemma cbs_good_steps: "cbs_steps Q P HR v v' \<Longrightarrow> cbs_good Q P HR v \<Longrightarrow> 0 < Q \<Longrightarrow> 0 < P \<Longrightarrow> cbs_good Q P HR v'"
  by (induction rule: rtranclp_induct) (auto intro: cbs_good_step)

section \<open>What the invariant gives\<close>

text \<open>The virtual time at the present moment, of a server that may be executing.\<close>

definition cbs_vtime_now :: "tick \<Rightarrow> tick \<Rightarrow> cbs_state \<Rightarrow> rat" where
  "cbs_vtime_now Q P v =
    (if a_status v = EXECUTING then a_vt v + of_int (a_now v - a_last v) * cbs_rate Q P else a_vt v)"

definition cbs_left :: "cbs_state \<Rightarrow> tick" where
  "cbs_left v = (if a_status v = EXECUTING then a_cap v - (a_now v - a_last v) else a_cap v)"

lemma cbs_left_bounds:
  "cbs_good Q P HR v \<Longrightarrow> a_status v \<noteq> IDLE \<Longrightarrow> 0 \<le> cbs_left v \<and> cbs_left v \<le> Q"
  by (auto simp: cbs_good_def cbs_left_def)

lemma cbs_vtime_left:
  "cbs_good Q P HR v \<Longrightarrow> a_status v \<in> {READY, EXECUTING, RELEASING} \<Longrightarrow>
   cbs_vtime_now Q P v = of_int (a_d v) - of_int (cbs_left v) * cbs_rate Q P"
  by (auto simp: cbs_good_def cbs_left_def cbs_vtime_now_def algebra_simps)

lemma cbs_vtime_bounds:
  assumes "cbs_good Q P HR v" and "a_status v \<noteq> IDLE" and "0 < Q" and "0 < P"
  shows "cbs_vtime_now Q P v \<le> of_int (a_d v)" and "HR \<Longrightarrow> cbs_vtime_now Q P v \<le> of_int (a_now v + P)"
proof -
  have left: "0 \<le> of_int (cbs_left v) * cbs_rate Q P"
    using cbs_left_bounds [OF assms(1,2)] cbs_rate_pos [OF assms(3,4)] by simp
  show "cbs_vtime_now Q P v \<le> of_int (a_d v)"
    using assms cbs_vtime_left [OF assms(1)] left
    by (cases "a_status v") (auto simp: cbs_good_def cbs_vtime_now_def)
  show "cbs_vtime_now Q P v \<le> of_int (a_now v + P)" if HR
  proof (cases "a_status v = RECHARGING")
    case True
    with assms(1) have "a_vt v = of_int (a_d v - P)" "a_d v - P \<le> a_now v + P" by (auto simp: cbs_good_def)
    with True show ?thesis by (simp add: cbs_vtime_now_def)
  next
    case False
    with assms(1,2) that have "a_d v \<le> a_now v + P" by (cases "a_status v") (auto simp: cbs_good_def)
    then have "(of_int (a_d v) :: rat) \<le> of_int (a_now v + P)" by (simp only: of_int_le_iff)
    moreover have "cbs_vtime_now Q P v \<le> of_int (a_d v)"
      using assms(2) False cbs_vtime_left [OF assms(1)] left by (cases "a_status v") auto
    ultimately show ?thesis by simp
  qed
qed

end
