(* ===== verification/EventOrder.thy ===== *)
theory EventOrder
  imports Engine_Laws
begin

text \<open>
  The place of an event in the queue: when an event is posted or dropped, no other event is.
\<close>

section \<open>The place of an event in the queue\<close>

text \<open>
  \<open>posted_at e w\<close> is the time \<open>e\<close> is posted for, if it is; \<open>ordered\<close>: the posting numbers of all the
  events are below the counter, and no event is equivalent to another in the queue, so that to drop an
  event removes no other.  An event that was never posted has the number and the time it was constructed
  with, 0 and \<open>MAXTICK\<close>; the first event ever posted has the number 0 too.
\<close>

definition apart :: "event \<Rightarrow> event \<Rightarrow> bool" where
  "apart x y \<longleftrightarrow> ev_order x \<noteq> ev_order y \<or> ev_time x = MAXTICK \<and> ev_time y \<noteq> MAXTICK"

definition posted_at :: "'e \<Rightarrow> ('e, 'z) sim_scheme \<Rightarrow> tick option" where
  "posted_at e w = (if e \<in> set (eventQueue w) then Some (ev_time (evs w e)) else None)"

definition priorities :: "'e \<Rightarrow> ('e, 'z) sim_scheme \<Rightarrow> int \<times> int" where
  "priorities e w = (ev_priority (evs w e), ev_std_priority (evs w e))"

definition lasting :: "'e \<Rightarrow> ('e, 'z) sim_scheme \<Rightarrow> bool" where
  "lasting e w \<longleftrightarrow> \<not> ev_disposable (evs w e)"

definition ordered :: "tick \<Rightarrow> ('e, 'z) sim_scheme \<Rightarrow> bool" where
  "ordered T w \<longleftrightarrow> at_time T w \<and> (\<forall>e. ev_order (evs w e) < evCounter w) \<and>
     (\<forall>b\<in>set (eventQueue w). \<forall>e. e \<noteq> b \<longrightarrow> apart (evs w e) (evs w b))"

lemma ordered_time: "ordered T w \<Longrightarrow> at_time T w" and ordered_now: "ordered T w \<Longrightarrow> globTime w = T"
  and ordered_evq: "ordered T w \<Longrightarrow> evq_inv w"
  by (auto simp: ordered_def at_time_def)

lemma ordered_cong:
  assumes "eventQueue w' = eventQueue w" and "globTime w' = globTime w" and "evCounter w' = evCounter w"
    and "evs w' = evs w"
  shows "ordered T w' \<longleftrightarrow> ordered T w"
  using at_time_cong [of w' w T] assms by (simp add: ordered_def)

lemma post_ordered:
  assumes "ordered T w" and "Event_post e t d w = Inr w'"
  shows "ordered T w'" and "T \<le> t" and "posted_at e w = None" and "posted_at e w' = Some t"
    and "\<And>b. b \<noteq> e \<Longrightarrow> posted_at b w' = posted_at b w" and "\<And>b. priorities b w' = priorities b w"
    and "\<And>b. lasting b w' \<longleftrightarrow> (if b = e then \<not> d else lasting b w)"
proof -
  have free: "\<not> ev_isInQueue (evs w e)" and "T \<le> t"
    using assms by (auto simp: Event_post_def ordered_def at_time_def split: if_splits)
  then have out: "e \<notin> set (eventQueue w)" using assms(1) by (auto simp: ordered_def at_time_def not_queued)
  have "globTime w \<le> t" using \<open>T \<le> t\<close> ordered_now [OF assms(1)] by simp
  from post_accepted [OF ordered_evq [OF assms(1)] free this, of d] assms(2)
  have new: "set (eventQueue w') = insert e (set (eventQueue w))" "evCounter w' = evCounter w + 1"
    "evs w' = (evs w)(e := (evs w e)\<lparr>ev_time := t, ev_order := evCounter w, ev_isInQueue := True, ev_disposable := d\<rparr>)"
    by auto
  have "at_time T w'" using preservesD [OF post_at_time assms(2) ordered_time [OF assms(1)]] .
  moreover have "ev_order (evs w x) < evCounter w" "ev_order (evs w x) \<noteq> evCounter w" for x
    using assms(1) by (simp_all add: ordered_def less_imp_neq)
  ultimately show "ordered T w'" using assms(1) out
    unfolding ordered_def by (auto simp: new less_Suc_eq apart_def)
  show "T \<le> t" by fact
  show "posted_at e w = None" using out by (simp add: posted_at_def)
  show "posted_at e w' = Some t" by (simp add: posted_at_def new)
  show "posted_at b w' = posted_at b w" if "b \<noteq> e" for b using that by (simp add: posted_at_def new)
  show "priorities b w' = priorities b w" for b by (simp add: priorities_def new)
  show "lasting b w' \<longleftrightarrow> (if b = e then \<not> d else lasting b w)" for b by (simp add: lasting_def new)
qed

lemma drop_keeps_apart:
  assumes "b \<in> set (eventQueue w)" and "apart (evs w e) (evs w b)"
  shows "b \<in> set (eventQueue (Event_drop e w))"
  using assms unfolding drop_queue pl_erase_def
  by (auto simp: apart_def equivalent_key_def queue_lt_def Event_Cmp_def Let_def)

lemma drop_ordered:
  assumes "ordered T w"
  shows "ordered T (Event_drop e w)" and "posted_at e (Event_drop e w) = None"
    and "\<And>b. b \<noteq> e \<Longrightarrow> posted_at b (Event_drop e w) = posted_at b w"
    and "\<And>b. priorities b (Event_drop e w) = priorities b w" and "\<And>b. lasting b (Event_drop e w) = lasting b w"
proof -
  have evs: "evs (Event_drop e w) b = (if b = e then (evs w e)\<lparr>ev_isInQueue := False\<rparr> else evs w b)" for b
    by (simp add: Event_drop_def upd_event_def)
  have counter: "evCounter (Event_drop e w) = evCounter w" by (simp add: Event_drop_def upd_event_def)
  have apart: "apart (evs (Event_drop e w) x) (evs (Event_drop e w) y) = apart (evs w x) (evs w y)" for x y
    by (simp add: evs apart_def)
  show "ordered T (Event_drop e w)"
    unfolding ordered_def
  proof (intro conjI allI ballI impI)
    show "at_time T (Event_drop e w)" by (rule drop_at_time [OF ordered_time [OF assms]])
    show "ev_order (evs (Event_drop e w) x) < evCounter (Event_drop e w)" for x
      using assms by (simp add: ordered_def evs counter)
    show "apart (evs (Event_drop e w) x) (evs (Event_drop e w) b)"
      if "b \<in> set (eventQueue (Event_drop e w))" "x \<noteq> b" for b x
      using that assms drop_subset [of e w] unfolding apart by (auto simp: ordered_def)
  qed
  show "posted_at e (Event_drop e w) = None" by (simp add: posted_at_def)
  show "posted_at b (Event_drop e w) = posted_at b w" if "b \<noteq> e" for b
  proof (cases "b \<in> set (eventQueue w)")
    case True
    then have "apart (evs w e) (evs w b)" using assms that by (metis ordered_def)
    with True have "b \<in> set (eventQueue (Event_drop e w))" by (rule drop_keeps_apart)
    with True that show ?thesis by (auto simp: posted_at_def evs)
  next
    case False
    then show ?thesis using drop_subset [of e w] by (auto simp: posted_at_def)
  qed
  show "priorities b (Event_drop e w) = priorities b w" for b by (simp add: priorities_def evs)
  show "lasting b (Event_drop e w) = lasting b w" for b by (simp add: lasting_def evs)
qed

lemma setPriority_ordered:
  assumes "ordered T w" and "e \<notin> set (eventQueue w)"
  shows "ordered T (Event_setPriority e p w)" and "\<And>b. posted_at b (Event_setPriority e p w) = posted_at b w"
    and "\<And>b. b \<noteq> e \<Longrightarrow> priorities b (Event_setPriority e p w) = priorities b w"
    and "\<And>b. lasting b (Event_setPriority e p w) = lasting b w"
proof -
  have "at_time T (Event_setPriority e p w)"
    using assms by (simp add: ordered_def at_time_def Event_setPriority_def evq_inv_upd_unqueued)
  then show "ordered T (Event_setPriority e p w)"
    using assms by (auto simp: ordered_def Event_setPriority_def upd_event_def apart_def)
qed (auto simp: Event_setPriority_def upd_event_def posted_at_def priorities_def lasting_def)

lemma process_ordered:
  assumes "ordered T w" and "Event_process e d w = Inr w'"
  shows "ordered T w'" and "posted_at e w' = Some T" and "\<And>b. b \<noteq> e \<Longrightarrow> posted_at b w' = posted_at b w"
    and "\<And>b. b \<noteq> e \<Longrightarrow> priorities b w' = priorities b w" and "\<And>b. b \<noteq> e \<Longrightarrow> lasting b w' = lasting b w"
proof -
  let ?w1 = "Event_setPriority e IMMEDIATE_PRIORITY (Event_drop e w)"
  note drop = drop_ordered [OF assms(1), where e = e]
  note set_prio = setPriority_ordered [OF drop(1) drop_not_in_queue]
  have post: "Event_post e T d ?w1 = Inr w'"
    using assms(2) ordered_now [OF assms(1)]
    by (simp add: Event_process_def Let_def Event_setPriority_def upd_event_def)
  note fin = post_ordered [OF set_prio(1) post]
  show "ordered T w'" "posted_at e w' = Some T" by (fact fin)+
  show "posted_at b w' = posted_at b w" if "b \<noteq> e" for b
    using fin(5) [OF that] set_prio(2) drop(3) [OF that] by simp
  show "priorities b w' = priorities b w" if "b \<noteq> e" for b
    using fin(6) set_prio(3) [OF that] drop(4) by simp
  show "lasting b w' = lasting b w" if "b \<noteq> e" for b
    using fin(7) set_prio(4) that drop(5) by simp
qed

section \<open>The timers of a component\<close>

text \<open>
  \<open>sound T w\<close>: the queue is ordered and an event is marked only when it is in the queue.  Posting and dropping then
  change the function \<open>posted_at\<close> at one event.
\<close>

definition sound :: "tick \<Rightarrow> ('e, 'z) sim_scheme \<Rightarrow> bool" where
  "sound T w \<longleftrightarrow> ordered T w \<and> (\<forall>e. ev_isInQueue (evs w e) \<longrightarrow> e \<in> set (eventQueue w))"

lemma sound_ordered: "sound T w \<Longrightarrow> ordered T w" and sound_now: "sound T w \<Longrightarrow> globTime w = T"
  by (auto simp: sound_def dest: ordered_now)

lemma sound_cong:
  assumes "eventQueue w' = eventQueue w" and "globTime w' = globTime w" and "evCounter w' = evCounter w"
    and "evs w' = evs w"
  shows "sound T w' \<longleftrightarrow> sound T w" and "posted_at e w' = posted_at e w"
  using ordered_cong [OF assms] assms by (simp_all add: sound_def posted_at_def)

lemma drop_sound:
  assumes "sound T w"
  shows "sound T (Event_drop e w)" and "posted_at b (Event_drop e w) = (if b = e then None else posted_at b w)"
proof -
  note drop = drop_ordered [OF sound_ordered [OF assms], where e = e]
  show timers: "posted_at b (Event_drop e w) = (if b = e then None else posted_at b w)" for b
    using drop(2,3) by simp
  have "x \<in> set (eventQueue (Event_drop e w))" if "ev_isInQueue (evs (Event_drop e w) x)" for x
  proof -
    have x: "x \<noteq> e" "ev_isInQueue (evs w x)" using that by (auto split: if_splits)
    then have "posted_at x w \<noteq> None" using assms by (simp add: sound_def posted_at_def)
    then show ?thesis using timers [of x] x by (auto simp: posted_at_def split: if_splits)
  qed
  then show "sound T (Event_drop e w)" using drop(1) by (simp add: sound_def)
qed

lemma post_sound:
  assumes "sound T w" and "Event_post e t d w = Inr w'"
  shows "sound T w'" and "posted_at b w' = (if b = e then Some t else posted_at b w)"
proof -
  note post = post_ordered [OF sound_ordered [OF assms(1)] assms(2)]
  show timers: "posted_at b w' = (if b = e then Some t else posted_at b w)" for b using post(4,5) by simp
  have "x \<in> set (eventQueue w')" if "ev_isInQueue (evs w' x)" for x
  proof (cases "x = e")
    case False
    have "evs w' x = evs w x"
      using assms(2) False by (auto simp: Event_post_def Event_setTime_def Let_def bindE_eq_Inr upd_event_def
          split: if_splits prod.splits)
    then have "posted_at x w \<noteq> None" using that assms(1) by (simp add: sound_def posted_at_def)
    then show ?thesis using timers [of x] False by (auto simp: posted_at_def split: if_splits)
  next
    case True
    then show ?thesis using post(4) by (auto simp: posted_at_def split: if_splits)
  qed
  then show "sound T w'" using post(1) by (simp add: sound_def)
qed

lemma post_possible:
  assumes "sound T w" and "posted_at e w = None" and "T \<le> t"
  shows "\<exists>w'. Event_post e t d w = Inr w'"
proof -
  have "\<not> ev_isInQueue (evs w e)" using assms(1,2) by (auto simp: sound_def posted_at_def split: if_splits)
  then show ?thesis
    using post_accepted [OF ordered_evq [OF sound_ordered [OF assms(1)]], of e t d] sound_now [OF assms(1)] assms(3) by auto
qed

text \<open>The clock may advance to the first event.\<close>

lemma advance_sound:
  assumes "sound T w" and "T \<le> t" and "\<And>e u. posted_at e w = Some u \<Longrightarrow> t \<le> u"
  shows "sound t (Simulation_setTime t w)" and "posted_at b (Simulation_setTime t w) = posted_at b w"
proof -
  let ?w = "Simulation_setTime t w"
  have same: "evs ?w = evs w" "eventQueue ?w = eventQueue w" "evCounter ?w = evCounter w" "globTime ?w = t"
    by (simp_all add: Simulation_setTime_def)
  then have lt: "queue_lt ?w = queue_lt w" by (simp add: queue_lt_def fun_eq_iff)
  have "event_ok ?w e" if "e \<in> set (eventQueue w)" for e
    using evq_inv_event [OF ordered_evq [OF sound_ordered [OF assms(1)]] that] assms(3) [of e] that
    by (simp add: event_ok_def same posted_at_def)
  then have "evq_inv ?w"
    using ordered_evq [OF sound_ordered [OF assms(1)]] by (simp add: evq_inv_def same lt list_all_iff)
  then show "sound t ?w" using assms(1) by (simp add: sound_def ordered_def at_time_def same)
  show "posted_at b ?w = posted_at b w" by (simp add: posted_at_def same)
qed

end
