(* ===== verification/Server_Refinement.thy ===== *)
theory Server_Refinement
  imports Program_Laws CBS_Spec EventOrder
begin

text \<open>
  The view the abstract machine of \<open>CBS_Spec\<close> has of a server of the code, and that every transition of the
  server and every handler of its timers is a step of the machine.  The frames of the kernels, tasks and resources
  are used again: they keep \<open>cbs_sys\<close>, that the servers of a set have come from given states by steps.
\<close>

section \<open>The view of a server\<close>

text \<open>The timers of a server: exhaustion, idle, replenishment and recharging.\<close>

type_synonym timers = "tick option \<times> tick option \<times> tick option \<times> tick option"

definition timers :: "nat \<Rightarrow> world \<Rightarrow> timers" where
  "timers s w = (posted_at (BandExEvt s) w, posted_at (IdleEvt s) w, posted_at (ReplEvt s) w,
     posted_at (RechargingEvt s) w)"

text \<open>The priorities of the replenishment and the dispatch, and that the timers are not deleted after their action.\<close>

type_synonym marks = "(int \<times> int) \<times> (int \<times> int) \<times> bool"

definition prios :: "nat \<Rightarrow> world \<Rightarrow> marks" where
  "prios s w = (priorities (ReplEvt s) w, priorities (SrvDispatchEvt s) w,
     lasting (BandExEvt s) w \<and> lasting (IdleEvt s) w \<and> lasting (ReplEvt s) w)"

definition static_prios :: "marks \<Rightarrow> bool" where
  "static_prios pr \<longleftrightarrow> pr = ((evt_priority (ReplEvt 0), evt_priority (ReplEvt 0)),
     (evt_priority (SrvDispatchEvt 0), evt_priority (SrvDispatchEvt 0)), True)"

definition view_of :: "tick \<Rightarrow> server \<Rightarrow> timers \<Rightarrow> cbs_state" where
  "view_of T x tm = \<lparr>a_now = T, a_status = srv_status x, a_cap = cbs_cap x, a_d = cbs_d x, a_last = cbs_last_time x,
     a_vt = ct_value (cbs_vtime x), a_exhaust = fst tm, a_idle = fst (snd tm), a_repl = fst (snd (snd tm))\<rparr>"

definition cbs_view :: "nat \<Rightarrow> world \<Rightarrow> cbs_state" where
  "cbs_view s w = view_of (globTime w) (servers w s) (timers s w)"

definition view_inv :: "tick \<Rightarrow> ((nat \<Rightarrow> server) \<Rightarrow> (nat \<Rightarrow> timers) \<Rightarrow> (nat \<Rightarrow> marks) \<Rightarrow> bool) \<Rightarrow>
    world \<Rightarrow> bool" where
  "view_inv T F w \<longleftrightarrow> ordered T w \<and> F (servers w) (\<lambda>s. timers s w) (\<lambda>s. prios s w)"

lemma engine_cong:
  assumes "eventQueue w' = eventQueue w" and "evs w' = evs w"
  shows "timers s w' = timers s w" and "prios s w' = prios s w"
  using assms by (simp_all add: timers_def prios_def posted_at_def priorities_def lasting_def)

lemma view_upd [simp]:
  "ordered T (upd_task t ft w) = ordered T w" "ordered T (upd_server i fs w) = ordered T w"
  "ordered T (upd_sched c fc w) = ordered T w" "ordered T (upd_rtk k fk w) = ordered T w"
  "ordered T (upd_mrtk k fm w) = ordered T w" "ordered T (upd_cpu p fp w) = ordered T w"
  "ordered T (upd_resman m fr w) = ordered T w"
  "timers s (upd_task t ft w) = timers s w" "timers s (upd_server i fs w) = timers s w"
  "timers s (upd_sched c fc w) = timers s w" "timers s (upd_rtk k fk w) = timers s w"
  "timers s (upd_mrtk k fm w) = timers s w" "timers s (upd_cpu p fp w) = timers s w"
  "timers s (upd_resman m fr w) = timers s w"
  "prios s (upd_task t ft w) = prios s w" "prios s (upd_server i fs w) = prios s w"
  "prios s (upd_sched c fc w) = prios s w" "prios s (upd_rtk k fk w) = prios s w"
  "prios s (upd_mrtk k fm w) = prios s w" "prios s (upd_cpu p fp w) = prios s w"
  "prios s (upd_resman m fr w) = prios s w"
  by (rule ordered_cong engine_cong; simp add: upd_defs)+

lemma timer_neq: "\<not> server_timer e \<Longrightarrow> BandExEvt s \<noteq> e \<and> IdleEvt s \<noteq> e \<and> ReplEvt s \<noteq> e \<and> RechargingEvt s \<noteq> e"
  by auto

lemma immediate_neq: "immediate e \<or> e = FakeArrEvt t \<Longrightarrow> BandExEvt s \<noteq> e \<and> IdleEvt s \<noteq> e \<and> ReplEvt s \<noteq> e \<and> RechargingEvt s \<noteq> e
   \<and> SrvDispatchEvt s \<noteq> e"
  by (auto simp: immediate_def)

lemma view_inv_upd:
  "view_inv T F w \<Longrightarrow> view_inv T F (upd_task t ft w)" "view_inv T F w \<Longrightarrow> view_inv T F (upd_sched c fc w)"
  "view_inv T F w \<Longrightarrow> view_inv T F (upd_rtk k fk w)" "view_inv T F w \<Longrightarrow> view_inv T F (upd_mrtk k fm w)"
  "view_inv T F w \<Longrightarrow> view_inv T F (upd_cpu p fp w)" "view_inv T F w \<Longrightarrow> view_inv T F (upd_resman m fr w)"
  by (simp_all add: view_inv_def) (simp_all add: upd_defs)

lemma view_inv_same:
  assumes "view_inv T F w" and "ordered T w'" and "same_objects w w'"
    and "\<And>s. timers s w' = timers s w" and "\<And>s. prios s w' = prios s w"
  shows "view_inv T F w'"
  using assms by (simp add: view_inv_def same_objects_def)

lemma view_inv_drop: "view_inv T F w \<Longrightarrow> \<not> server_timer e \<Longrightarrow> view_inv T F (Event_drop e w)"
proof -
  assume w: "view_inv T F w" and e: "\<not> server_timer e"
  then have "ordered T w" by (simp add: view_inv_def)
  with timer_neq [OF e] show ?thesis
    by (intro view_inv_same [OF w]) (auto simp: same_objects_def timers_def prios_def drop_ordered)
qed

lemma view_inv_post:
  assumes "view_inv T F w" and "\<not> server_timer e"
  shows "okr (view_inv T F) (Event_post e t d w)"
proof (cases "Event_post e t d w")
  case (Inr w')
  have "ordered T w" using assms(1) by (simp add: view_inv_def)
  note post = post_ordered [OF this Inr]
  have "timers s w' = timers s w" "prios s w' = prios s w" for s
    using post(5,6,7) timer_neq [OF assms(2)] by (simp_all add: timers_def prios_def)
  with view_inv_same [OF assms(1) post(1) post_objects [OF Inr]] Inr show ?thesis by simp
qed simp

lemma view_inv_process:
  assumes "view_inv T F w" and "immediate e \<or> e = FakeArrEvt t"
  shows "okr (view_inv T F) (Event_process e d w)"
proof (cases "Event_process e d w")
  case (Inr w')
  have "ordered T w" using assms(1) by (simp add: view_inv_def)
  note process = process_ordered [OF this Inr]
  have "timers s w' = timers s w" "prios s w' = prios s w" for s
    using process(3,4,5) immediate_neq [OF assms(2)] by (simp_all add: timers_def prios_def)
  with view_inv_same [OF assms(1) process(1) process_objects [OF Inr]] Inr show ?thesis by simp
qed simp

interpretation kernel_view: kernel_frame "view_inv T F" for T F
  by unfold_locales (auto intro: view_inv_upd view_inv_drop view_inv_post view_inv_process simp: plain_def)

section \<open>What the transitions do to the timers\<close>

definition timer_step :: "nat \<Rightarrow> tick \<Rightarrow> world \<Rightarrow> world \<Rightarrow> timers \<Rightarrow> bool" where
  "timer_step s T w w' tm \<longleftrightarrow> ordered T w' \<and> timers s w' = tm \<and> (\<forall>t. t \<noteq> s \<longrightarrow> timers t w' = timers t w) \<and>
     (\<forall>t. t \<noteq> s \<longrightarrow> prios t w' = prios t w) \<and> (static_prios (prios s w) \<longrightarrow> static_prios (prios s w'))"

lemma timer_step_refl: "ordered T w \<Longrightarrow> timer_step s T w w (timers s w)"
  by (simp add: timer_step_def)

lemma timer_step_upd [simp]:
  "timer_step s T (upd_server t f w) w' tm = timer_step s T w w' tm"
  "timer_step s T w (upd_server t f w') tm = timer_step s T w w' tm"
  "timer_step s T w (set_status t st w') tm = timer_step s T w w' tm"
  by (simp_all add: timer_step_def set_status_def)

lemma timer_step_trans: "timer_step s T w v tm \<Longrightarrow> timer_step s T v w' tm' \<Longrightarrow> timer_step s T w w' tm'"
  by (simp add: timer_step_def)

lemma timer_drop:
  assumes "ordered T w"
  shows "timer_step s T w (Event_drop (BandExEvt s) w) (None, snd (timers s w))"
    and "timer_step s T w (Event_drop (IdleEvt s) w) (fst (timers s w), None, snd (snd (timers s w)))"
    and "timer_step s T w (Event_drop (ReplEvt s) w)
      (fst (timers s w), fst (snd (timers s w)), None, snd (snd (snd (timers s w))))"
  using assms by (auto simp: timer_step_def timers_def prios_def drop_ordered)

lemma timer_post:
  assumes "ordered T w"
  shows "Event_post (BandExEvt s) u False w = Inr w' \<Longrightarrow> timer_step s T w w' (Some u, snd (timers s w))"
    and "Event_post (IdleEvt s) u False w = Inr w' \<Longrightarrow>
      timer_step s T w w' (fst (timers s w), Some u, snd (snd (timers s w)))"
    and "Event_post (ReplEvt s) u False w = Inr w' \<Longrightarrow> timer_step s T w w'
      (fst (timers s w), fst (snd (timers s w)), Some u, snd (snd (snd (timers s w))))"
  using post_ordered [OF assms] by (auto simp: timer_step_def timers_def prios_def static_prios_def)

lemma idle_ready_timers:
  "CBServer_idle_ready s w = Inr w' \<Longrightarrow> ordered T w \<Longrightarrow> timer_step s T w w' (timers s w)"
  by (auto simp: CBServer_idle_ready_def Let_def timer_step_refl split: if_splits dest!: with_vtime_servers)

lemma releasing_ready_timers:
  "ordered T w \<Longrightarrow> timer_step s T w (CBServer_releasing_ready s w)
     (fst (timers s w), None, snd (snd (timers s w)))"
  using timer_drop(2) [of T "set_status s READY w" s]
  by (simp add: CBServer_releasing_ready_def timer_step_def set_status_def)

lemma ready_executing_timers:
  assumes "CBServer_ready_executing s w = Inr w'" and "ordered T w"
  shows "timer_step s T w w' (Some (T + cbs_cap (servers w s)), snd (timers s w))"
proof -
  obtain f g where post: "Event_post (BandExEvt s) (T + cbs_cap (servers w s)) False (upd_server s f (upd_server s g w)) = Inr w'"
    using assms(1) ordered_now [OF assms(2)]
    by (auto simp: CBServer_ready_executing_def Let_def bindE_eq_Inr dest!: with_vtime_servers)
  from timer_post(1) [OF _ post, of T] assms(2) show ?thesis by simp
qed

lemma executing_ready_timers:
  assumes "CBServer_executing_ready s w = Inr w'" and "ordered T w"
  shows "timer_step s T w w' (None, snd (timers s w))"
proof -
  obtain f g where "w' = Event_drop (BandExEvt s) (upd_server s f (upd_server s g w))"
    using assms(1) by (auto simp: CBServer_executing_ready_def Let_def bindE_eq_Inr dest!: with_vtime_servers)
  with timer_drop(1) [of T "upd_server s f (upd_server s g w)" s] assms(2) show ?thesis by simp
qed

lemma executing_releasing_timers:
  assumes "CBServer_executing_releasing s w = Inr w'" and "ordered T w" and "srv_status (servers w s) = EXECUTING"
  defines "v \<equiv> ct_value (cbs_vtime (cbs_stopped T (servers w s)))"
  shows "timer_step s T w w' (None, (if v \<le> of_int T then fst (snd (timers s w)) else Some (Tick_of_double v)),
    snd (snd (timers s w)))"
proof -
  have running: "ct_status (cbs_vtime (servers w s)) = RUNNING"
    using assms(1,3) by (cases "ct_status (cbs_vtime (servers w s)) = RUNNING")
      (auto simp: CBServer_executing_releasing_def stop_timer_fails)
  let ?w2 = "Event_drop (BandExEvt s) (upd_server s (cbs_stopped T) w)"
  have drop: "timer_step s T w ?w2 (None, snd (timers s w))"
    using timer_drop(1) [of T "upd_server s (cbs_stopped T) w" s] assms(2) by simp
  then have 2: "ordered T ?w2" "timers s ?w2 = (None, snd (timers s w))" by (simp_all add: timer_step_def)
  note run = assms(1) [unfolded executing_releasing_cases [OF assms(3) running] ordered_now [OF assms(2)]]
  show ?thesis
  proof (cases "v \<le> of_int T")
    case True
    with run drop show ?thesis by (auto simp: v_def)
  next
    case False
    with run obtain w3 where post: "Event_post (IdleEvt s) (Tick_of_double v) False ?w2 = Inr w3"
      and w': "w' = set_status s RELEASING w3" by (auto simp: v_def bindE_eq_Inr)
    from timer_step_trans [OF drop timer_post(2) [OF 2(1) post]] False 2(2) w' show ?thesis by simp
  qed
qed

lemma executing_recharging_timers:
  assumes "CBServer_executing_recharging s w = Inr w'" and "ordered T w"
  shows "timer_step s T w w' (None, fst (snd (timers s w)),
    Some (if cbs_HR (servers w s) then cbs_d (servers w s) else T), snd (snd (snd (timers s w))))"
proof -
  let ?w1 = "Event_drop (BandExEvt s) w"
  note drop = timer_drop(1) [OF assms(2), of s]
  then have 1: "ordered T ?w1" "timers s ?w1 = (None, snd (timers s w))" by (simp_all add: timer_step_def)
  obtain f g h where post: "Event_post (ReplEvt s) (if cbs_HR (servers w s) then cbs_d (servers w s) else T) False
      (upd_server s f (upd_server s g ?w1)) = Inr h" and w': "w' = h \<or> (\<exists>k. w' = upd_server s k h)"
    using assms(1) ordered_now [OF assms(2)]
    by (cases "cbs_HR (servers w s)")
      (fastforce simp: CBServer_executing_recharging_def Let_def bindE_eq_Inr dest!: with_vtime_servers)+
  from timer_post(3) [OF _ post, of T] 1 have "timer_step s T ?w1 h (None, fst (snd (timers s w)),
      Some (if cbs_HR (servers w s) then cbs_d (servers w s) else T), snd (snd (snd (timers s w))))" by simp
  from timer_step_trans [OF drop this] w' show ?thesis by auto
qed

section \<open>Every transition is one of the machine\<close>

text \<open>The timer of the virtual time runs while the server executes, at the rate of the machine.\<close>

definition coupled :: "server \<Rightarrow> bool" where
  "coupled x \<longleftrightarrow> cbs_idle_policy x = ORIGINAL \<and> 0 < cbs_Q x \<and> 0 < cbs_P x \<and>
    (ct_status (cbs_vtime x) = RUNNING \<longleftrightarrow> srv_status x = EXECUTING) \<and>
    (srv_status x = EXECUTING \<longrightarrow> ct_der (cbs_vtime x) = cbs_rate (cbs_Q x) (cbs_P x) \<and>
       ct_last_time (cbs_vtime x) = cbs_last_time x)"

definition srv_params :: "server \<Rightarrow> tick \<times> tick \<times> bool" where
  "srv_params x = (cbs_Q x, cbs_P x, cbs_HR x)"

abbreviation srv_steps :: "server \<Rightarrow> cbs_state \<Rightarrow> cbs_state \<Rightarrow> bool" where
  "srv_steps x \<equiv> cbs_steps (cbs_Q x) (cbs_P x) (cbs_HR x)"

definition refines :: "tick \<Rightarrow> server \<Rightarrow> timers \<Rightarrow> server \<Rightarrow> timers \<Rightarrow> bool" where
  "refines T x tm x' tm' \<longleftrightarrow> srv_steps x (view_of T x tm) (view_of T x' tm') \<and> coupled x' \<and> srv_params x' = srv_params x"

lemma refinesI:
  assumes "cbs_step (cbs_Q x) (cbs_P x) (cbs_HR x) (view_of T x tm) v" and "view_of T x' tm' = v"
    and "coupled x'" and "srv_params x' = srv_params x"
  shows "refines T x tm x' tm'"
  using assms by (auto simp: refines_def)

lemma view_of_fields [simp]:
  "a_now (view_of T x tm) = T" "a_status (view_of T x tm) = srv_status x" "a_cap (view_of T x tm) = cbs_cap x"
  "a_d (view_of T x tm) = cbs_d x" "a_last (view_of T x tm) = cbs_last_time x"
  "a_vt (view_of T x tm) = ct_value (cbs_vtime x)" "a_exhaust (view_of T x tm) = fst tm"
  "a_idle (view_of T x tm) = fst (snd tm)" "a_repl (view_of T x tm) = fst (snd (snd tm))"
  by (simp_all add: view_of_def)

lemma idle_ready_refines:
  assumes "CBServer_idle_ready s w = Inr w'" and "ordered T w" and "coupled (servers w s)"
  shows "refines T (servers w s) (timers s w) (servers w' s) (timers s w)"
proof (rule refinesI)
  let ?x = "servers w s"
  note x' = idle_ready_servers [OF assms(1)] ordered_now [OF assms(2)]
  show "cbs_step (cbs_Q ?x) (cbs_P ?x) (cbs_HR ?x) (view_of T ?x (timers s w))
      ((view_of T ?x (timers s w))\<lparr>a_status := READY, a_cap := cbs_Q ?x, a_d := T + cbs_P ?x, a_vt := of_int T\<rparr>)"
    using activate [of "view_of T ?x (timers s w)"] x' assms(3) by (simp add: coupled_def)
qed (use idle_ready_servers [OF assms(1)] ordered_now [OF assms(2)] assms(3) in
    \<open>auto simp: coupled_def srv_params_def view_of_def\<close>)

lemma releasing_ready_refines:
  assumes "srv_status (servers w s) = RELEASING" and "coupled (servers w s)"
  shows "refines T (servers w s) tm (servers (CBServer_releasing_ready s w) s) (fst tm, None, snd (snd tm))"
  using resume [of "view_of T (servers w s) tm"] assms
  by (intro refinesI) (auto simp: releasing_ready_servers coupled_def srv_params_def view_of_def)

lemma ready_executing_refines:
  assumes "CBServer_ready_executing s w = Inr w'" and "ordered T w" and "coupled (servers w s)"
    and "srv_status (servers w s) = READY"
  shows "refines T (servers w s) tm (servers w' s) (Some (T + cbs_cap (servers w s)), snd tm)"
  using start [of "view_of T (servers w s) tm"] assms(3,4) ready_executing_servers [OF assms(1)] ordered_now [OF assms(2)]
  by (intro refinesI) (auto simp: coupled_def srv_params_def view_of_def cbs_rate_def)

lemma charge_view:
  assumes "coupled x" and "srv_status x = EXECUTING"
  shows "view_of T (cbs_stopped T x) (None, snd tm) = cbs_charge (cbs_Q x) (cbs_P x) (view_of T x tm)"
    and "ct_value (cbs_vtime (cbs_stopped T x)) = a_vt (cbs_charge (cbs_Q x) (cbs_P x) (view_of T x tm))"
  using assms by (auto simp: coupled_def cbs_stopped_def cbs_charge_def view_of_def)

lemma view_of_status: "view_of T (x\<lparr>srv_status := st\<rparr>) tm = (view_of T x tm)\<lparr>a_status := st\<rparr>"
  by (simp add: view_of_def)

lemma view_of_released:
  "view_of T (x\<lparr>srv_status := st\<rparr>) (a, i, snd (snd tm)) = (view_of T x (a, snd tm))\<lparr>a_status := st, a_idle := i\<rparr>"
  by (simp add: view_of_def)

lemma coupled_stopped:
  "coupled x \<Longrightarrow> st \<noteq> EXECUTING \<Longrightarrow> coupled ((cbs_stopped T x)\<lparr>srv_status := st\<rparr>)"
  "srv_params ((cbs_stopped T x)\<lparr>srv_status := st\<rparr>) = srv_params x"
  by (auto simp: coupled_def cbs_stopped_def srv_params_def)

lemma executing_ready_refines:
  assumes "CBServer_executing_ready s w = Inr w'" and "ordered T w" and "coupled (servers w s)"
    and "srv_status (servers w s) = EXECUTING"
  shows "refines T (servers w s) tm (servers w' s) (None, snd tm)"
proof (rule refinesI)
  let ?x = "servers w s"
  have x': "servers w' s = (cbs_stopped T ?x)\<lparr>srv_status := READY\<rparr>"
    using executing_ready_servers [OF assms(1)] ordered_now [OF assms(2)] by simp
  show "cbs_step (cbs_Q ?x) (cbs_P ?x) (cbs_HR ?x) (view_of T ?x tm)
      ((cbs_charge (cbs_Q ?x) (cbs_P ?x) (view_of T ?x tm))\<lparr>a_status := READY\<rparr>)"
    using assms(4) by (intro preempt) simp
  show "view_of T (servers w' s) (None, snd tm) = (cbs_charge (cbs_Q ?x) (cbs_P ?x) (view_of T ?x tm))\<lparr>a_status := READY\<rparr>"
    by (simp add: x' view_of_status charge_view(1) [OF assms(3,4)])
qed (use executing_ready_servers [OF assms(1)] assms(3) in \<open>auto simp: coupled_stopped\<close>)

lemma executing_releasing_refines:
  assumes "CBServer_executing_releasing s w = Inr w'" and "ordered T w" and "coupled (servers w s)"
    and "srv_status (servers w s) = EXECUTING" and "fst (snd (snd tm)) = None"
  defines "v \<equiv> ct_value (cbs_vtime (cbs_stopped T (servers w s)))"
  shows "refines T (servers w s) tm (servers w' s)
    (None, (if v \<le> of_int T then fst (snd tm) else Some (Tick_of_double v)), snd (snd tm))"
proof -
  let ?x = "servers w s" and ?c = "cbs_charge (cbs_Q (servers w s)) (cbs_P (servers w s)) (view_of T (servers w s) tm)"
  have v: "a_vt ?c = v" using charge_view(2) [OF assms(3,4)] by (simp add: v_def)
  have c: "view_of T (cbs_stopped T ?x) (None, snd tm) = ?c" by (rule charge_view(1) [OF assms(3,4)])
  have x': "servers w' s = (cbs_stopped T ?x)\<lparr>srv_status := (if v \<le> of_int T then IDLE else RELEASING)\<rparr>"
    using executing_releasing_servers [OF assms(1,4)] ordered_now [OF assms(2)] by (auto simp: v_def)
  show ?thesis
  proof (cases "v \<le> of_int T")
    case True
    then have "cbs_step (cbs_Q ?x) (cbs_P ?x) (cbs_HR ?x) (view_of T ?x tm) (?c\<lparr>a_status := IDLE\<rparr>)"
      using v assms(4,5) by (intro release_idle) simp_all
    with True c show ?thesis
      by (auto simp: x' view_of_status coupled_stopped assms(3) intro!: refinesI)
  next
    case False
    then have "cbs_step (cbs_Q ?x) (cbs_P ?x) (cbs_HR ?x) (view_of T ?x tm)
        (?c\<lparr>a_status := RELEASING, a_idle := Some (Tick_of_double (a_vt ?c))\<rparr>)"
      using v assms(4,5) by (intro release) simp_all
    moreover have "view_of T (servers w' s) (None, Some (Tick_of_double v), snd (snd tm))
        = ?c\<lparr>a_status := RELEASING, a_idle := Some (Tick_of_double (a_vt ?c))\<rparr>"
      using False v by (simp add: x' view_of_released c)
    ultimately show ?thesis
      using False by (auto simp: x' coupled_stopped assms(3) intro!: refinesI)
  qed
qed

text \<open>The exhaustion, whose event has been taken from the queue.\<close>

lemma executing_recharging_refines:
  assumes "CBServer_executing_recharging s w = Inr w'" and "ordered T w" and "coupled (servers w s)"
    and "srv_status (servers w s) = EXECUTING" and "fst tm = Some T"
  shows "refines T (servers w s) tm (servers w' s)
    (None, fst (snd tm), Some (if cbs_HR (servers w s) then cbs_d (servers w s) else T), snd (snd (snd tm)))"
proof -
  let ?x = "servers w s" and ?c = "cbs_charge (cbs_Q (servers w s)) (cbs_P (servers w s)) (view_of T (servers w s) tm)"
  let ?st = "if cbs_HR ?x then RECHARGING else READY"
  let ?cap = "if cbs_HR ?x then 0 else cbs_Q ?x" and ?d = "cbs_d ?x + cbs_P ?x"
  let ?r = "if cbs_HR ?x then cbs_d ?x else T"
  have x': "servers w' s = (cbs_stopped T ?x)\<lparr>cbs_cap := ?cap, cbs_d := ?d, srv_abs_dline := ?d, srv_status := ?st\<rparr>"
    using executing_recharging_servers [OF assms(1)] ordered_now [OF assms(2)] by (simp add: Let_def)
  have view: "view_of T (servers w' s) (None, fst (snd tm), Some ?r, snd (snd (snd tm)))
      = (view_of T (cbs_stopped T ?x) (None, snd tm))\<lparr>a_status := ?st, a_cap := ?cap, a_d := ?d, a_repl := Some ?r\<rparr>"
    by (simp add: x' view_of_def)
  have "cbs_step (cbs_Q ?x) (cbs_P ?x) (cbs_HR ?x) (view_of T ?x tm)
      (?c\<lparr>a_status := ?st, a_cap := ?cap, a_d := ?d, a_repl := Some ?r\<rparr>)"
    using exhaust_hard [of "view_of T ?x tm" True] exhaust_soft [of "view_of T ?x tm" False] assms(4,5)
    by (cases "cbs_HR ?x") simp_all
  with view show ?thesis
    using assms(3) unfolding charge_view(1) [OF assms(3,4)]
    by (intro refinesI) (auto simp: x' coupled_def srv_params_def cbs_stopped_def)
qed

section \<open>The servers of a simulation\<close>

text \<open>A server with the parameters \<open>par\<close> has come from the state \<open>V\<close> of the machine to its own.\<close>

definition srv_ok :: "tick \<Rightarrow> tick \<times> tick \<times> bool \<Rightarrow> cbs_state \<Rightarrow> server \<Rightarrow> timers \<Rightarrow> marks \<Rightarrow> bool" where
  "srv_ok T par V x tm pr \<longleftrightarrow> coupled x \<and> srv_params x = par \<and> srv_steps x V (view_of T x tm) \<and>
     snd (snd (snd tm)) = None \<and> static_prios pr"

definition cbs_sys :: "nat set \<Rightarrow> tick \<Rightarrow> (nat \<Rightarrow> tick \<times> tick \<times> bool) \<Rightarrow> (nat \<Rightarrow> cbs_state) \<Rightarrow> world \<Rightarrow> bool" where
  "cbs_sys S T par V = view_inv T (\<lambda>x tm pr. \<forall>s\<in>S. srv_ok T (par s) (V s) (x s) (tm s) (pr s))"

lemma cbs_sys_def': "cbs_sys S T par V w \<longleftrightarrow> ordered T w \<and>
    (\<forall>s\<in>S. srv_ok T (par s) (V s) (servers w s) (timers s w) (prios s w))"
  by (simp add: cbs_sys_def view_inv_def)

lemma srv_ok_refines:
  "srv_ok T par V x tm pr \<Longrightarrow> refines T x tm x' tm' \<Longrightarrow> snd (snd (snd tm')) = None \<Longrightarrow> srv_ok T par V x' tm' pr"
  by (auto simp: srv_ok_def refines_def srv_params_def)

text \<open>The server \<open>s\<close> with the timers \<open>tm\<close> in place of its own: an event of it has been taken from the queue.\<close>

definition cbs_popped :: "nat set \<Rightarrow> tick \<Rightarrow> (nat \<Rightarrow> tick \<times> tick \<times> bool) \<Rightarrow> (nat \<Rightarrow> cbs_state) \<Rightarrow> nat \<Rightarrow> timers \<Rightarrow>
    (server \<Rightarrow> timers \<Rightarrow> bool) \<Rightarrow> world \<Rightarrow> bool" where
  "cbs_popped S T par V s tm0 G = view_inv T (\<lambda>x tm pr. (\<forall>t\<in>S - {s}. srv_ok T (par t) (V t) (x t) (tm t) (pr t)) \<and>
     (s \<in> S \<longrightarrow> srv_ok T (par s) (V s) (x s) tm0 (pr s)) \<and> G (x s) (tm s))"

lemma cbs_popped_def': "cbs_popped S T par V s tm0 G w \<longleftrightarrow> ordered T w \<and>
    (\<forall>t\<in>S - {s}. srv_ok T (par t) (V t) (servers w t) (timers t w) (prios t w)) \<and>
    (s \<in> S \<longrightarrow> srv_ok T (par s) (V s) (servers w s) tm0 (prios s w)) \<and> G (servers w s) (timers s w)"
  by (simp add: cbs_popped_def view_inv_def)

lemma popped_step:
  assumes "cbs_popped S T par V s tm0 G w" and "timer_step s T w w' tm'"
    and "\<And>t. t \<noteq> s \<Longrightarrow> servers w' t = servers w t"
    and "coupled (servers w s) \<Longrightarrow> refines T (servers w s) tm0 (servers w' s) tm'"
    and "snd (snd (snd tm')) = snd (snd (snd tm0))"
  shows "cbs_sys S T par V w'"
  unfolding cbs_sys_def'
proof (intro conjI ballI)
  show "ordered T w'" using assms(2) by (simp add: timer_step_def)
  fix t assume t: "t \<in> S"
  show "srv_ok T (par t) (V t) (servers w' t) (timers t w') (prios t w')"
  proof (cases "t = s")
    case True
    then have ok: "srv_ok T (par s) (V s) (servers w s) tm0 (prios s w)" using assms(1) t by (simp add: cbs_popped_def')
    moreover from ok have "coupled (servers w s)" "snd (snd (snd tm')) = None"
      using assms(5) by (simp_all add: srv_ok_def)
    ultimately have "srv_ok T (par s) (V s) (servers w' s) tm' (prios s w)"
      using assms(4) by (blast intro: srv_ok_refines)
    with assms(2) True show ?thesis by (simp add: timer_step_def srv_ok_def)
  next
    case False
    with assms(1-3) t show ?thesis by (auto simp: cbs_popped_def' timer_step_def)
  qed
qed

lemma cbs_sys_popped:
  "cbs_sys S T par V w \<Longrightarrow> G (servers w s) (timers s w) \<Longrightarrow> cbs_popped S T par V s (timers s w) G w"
  by (simp add: cbs_sys_def' cbs_popped_def')

lemma sys_step:
  assumes "cbs_sys S T par V w" and "timer_step s T w w' tm'"
    and "\<And>t. t \<noteq> s \<Longrightarrow> servers w' t = servers w t"
    and "coupled (servers w s) \<Longrightarrow> refines T (servers w s) (timers s w) (servers w' s) tm'"
    and "snd (snd (snd tm')) = snd (snd (snd (timers s w)))"
  shows "cbs_sys S T par V w'"
  using cbs_sys_popped [OF assms(1), of "\<lambda>_ _. True" s] assms(2-) by (rule popped_step) simp

text \<open>The operations a kernel or a task asks of a server.\<close>

interpretation sys_kernel: kernel_frame "cbs_sys S T par V" for S T par V
  unfolding cbs_sys_def by (rule kernel_view.kernel_frame_axioms)

lemma srv_ok_fields [simp]:
  "srv_ok T par V (x\<lparr>srv_currExe := a\<rparr>) tm pr = srv_ok T par V x tm pr"
  "srv_ok T par V (x\<lparr>cbs_yielding := b\<rparr>) tm pr = srv_ok T par V x tm pr"
  by (simp_all add: srv_ok_def coupled_def srv_params_def view_of_def)

lemma sys_fields:
  "cbs_sys S T par V w \<Longrightarrow> cbs_sys S T par V (set_currExe s a w)"
  "cbs_sys S T par V w \<Longrightarrow> cbs_sys S T par V (upd_server s (\<lambda>x. x\<lparr>cbs_yielding := b\<rparr>) w)"
  by (auto simp: cbs_sys_def' set_currExe_def)

lemma sys_transitions:
  assumes w: "cbs_sys S T par V w"
  shows "okr (cbs_sys S T par V) (CBServer_idle_ready s w)"
    and "srv_status (servers w s) = RELEASING \<Longrightarrow> cbs_sys S T par V (CBServer_releasing_ready s w)"
    and "srv_status (servers w s) = READY \<Longrightarrow> okr (cbs_sys S T par V) (CBServer_ready_executing s w)"
    and "srv_status (servers w s) = EXECUTING \<Longrightarrow> okr (cbs_sys S T par V) (CBServer_executing_ready s w)"
proof -
  have ord: "ordered T w" using w by (simp add: cbs_sys_def')
  show "okr (cbs_sys S T par V) (CBServer_idle_ready s w)"
  proof (cases "CBServer_idle_ready s w")
    case (Inr w')
    have "servers w' t = servers w t" if "t \<noteq> s" for t
      using Inr that by (auto simp: CBServer_idle_ready_def Let_def split: if_splits dest!: with_vtime_servers)
    with sys_step [OF w idle_ready_timers [OF Inr ord]] idle_ready_refines [OF Inr ord] Inr show ?thesis by simp
  qed simp
  show "cbs_sys S T par V (CBServer_releasing_ready s w)" if "srv_status (servers w s) = RELEASING"
    using sys_step [OF w releasing_ready_timers [OF ord]] releasing_ready_refines [OF that]
    by (simp add: releasing_ready_servers)
  show "okr (cbs_sys S T par V) (CBServer_ready_executing s w)" if "srv_status (servers w s) = READY"
  proof (cases "CBServer_ready_executing s w")
    case (Inr w')
    with sys_step [OF w ready_executing_timers [OF Inr ord]] ready_executing_refines [OF Inr ord _ that]
    show ?thesis by (simp add: ready_executing_servers [OF Inr])
  qed simp
  show "okr (cbs_sys S T par V) (CBServer_executing_ready s w)" if "srv_status (servers w s) = EXECUTING"
  proof (cases "CBServer_executing_ready s w")
    case (Inr w')
    with sys_step [OF w executing_ready_timers [OF Inr ord]] executing_ready_refines [OF Inr ord _ that]
    show ?thesis by (simp add: executing_ready_servers [OF Inr])
  qed simp
qed

lemmas sys_rules = sys_kernel.okr_root sys_kernel.okr_notify sys_kernel.okr_insert sys_kernel.okr_extract
  sys_kernel.okr_absTask_deschedule sys_kernel.okr_absTask_schedule sys_kernel.frame_rules

lemma sys_dispatch: "cbs_sys S T par V w \<Longrightarrow> okr (cbs_sys S T par V) (Server_dispatch s w)"
  unfolding Server_dispatch_def by (intro sys_rules) simp_all

lemma sys_calls:
  assumes "cbs_sys S T par V w"
  shows "okr (cbs_sys S T par V) (Server_activate s a w)" and "okr (cbs_sys S T par V) (Server_suspend s a w)"
    and "okr (cbs_sys S T par V) (CBServer_onArrival s a w)" and "okr (cbs_sys S T par V) (CBServer_onEnd s a w)"
    and "okr (cbs_sys S T par V) (Server_onSched s w)" and "okr (cbs_sys S T par V) (CBServer_onDesched s w)"
proof -
  note rules = pres sys_rules sys_dispatch sys_transitions sys_fields okr_with_kernel_any
  show "okr (cbs_sys S T par V) (Server_activate s a w)"
    using assms by (auto simp: Server_activate_def split: server_status.split intro!: rules)
  show "okr (cbs_sys S T par V) (Server_suspend s a w)"
    using assms by (auto simp: Server_suspend_def intro!: okr_read [of "Server_getProcessor s v" for v] rules)
  show "okr (cbs_sys S T par V) (CBServer_onArrival s a w)"
    using assms by (auto simp: CBServer_onArrival_def Server_onArrival_def split: server_status.split intro!: rules)
  show "okr (cbs_sys S T par V) (CBServer_onEnd s a w)"
    using assms by (auto simp: CBServer_onEnd_def Server_onEnd_def CBServer_yield_def
        intro!: okr_read [of "CBServer_isEmpty s v" for v] rules)
  show "okr (cbs_sys S T par V) (Server_onSched s w)"
    using assms by (auto simp: Server_onSched_def intro!: rules)
  show "okr (cbs_sys S T par V) (CBServer_onDesched s w)"
    using assms by (auto simp: CBServer_onDesched_def Server_onDesched_def CBServer_yield_def
        intro!: okr_read [of "CBServer_isEmpty s v" for v] rules)
qed

section \<open>The events of a server\<close>

lemma popped_fields:
  "cbs_popped S T par V s tm0 G w \<Longrightarrow> (\<And>x tm. G (x\<lparr>srv_currExe := a\<rparr>) tm = G x tm) \<Longrightarrow>
   cbs_popped S T par V s tm0 G (set_currExe s a w)"
  by (auto simp: cbs_popped_def' set_currExe_def)

interpretation popped: kernel_frame "cbs_popped S T par V s tm0 G" for S T par V s tm0 G
  unfolding cbs_popped_def by (rule kernel_view.kernel_frame_axioms)

lemma popped_sys: "cbs_popped S T par V s tm G w \<Longrightarrow> tm = timers s w \<Longrightarrow> cbs_sys S T par V w"
  unfolding cbs_popped_def' cbs_sys_def' by (metis DiffI singletonD)

text \<open>The dispatch, when no replenishment is posted.\<close>

lemma releasing_sys:
  assumes "cbs_sys S T par V w" and "fst (snd (snd (timers s w))) = None" and "srv_status (servers w s) = EXECUTING"
  shows "okr (cbs_sys S T par V) (CBServer_executing_releasing s w)"
proof (cases "CBServer_executing_releasing s w")
  case (Inr w')
  have ord: "ordered T w" using assms(1) by (simp add: cbs_sys_def')
  have "servers w' t = servers w t" if "t \<noteq> s" for t
    using executing_releasing_servers [OF Inr assms(3)] that by auto
  with sys_step [OF assms(1) executing_releasing_timers [OF Inr ord assms(3)]]
    executing_releasing_refines [OF Inr ord _ assms(3,2)] Inr show ?thesis by simp
qed simp

lemma Server_onDispatch_sys:
  assumes "cbs_sys S T par V w" and "srv_status (servers w s) = EXECUTING \<Longrightarrow> fst (snd (snd (timers s w))) = None"
  shows "okr (cbs_sys S T par V) (Server_onDispatch s w)"
proof (cases "srv_status (servers w s) = EXECUTING")
  case True
  let ?X = "cbs_popped S T par V s (timers s w) (\<lambda>x tm. srv_status x = EXECUTING \<and> fst (snd (snd tm)) = None \<and> tm = timers s w)"
  note X = popped.okr_notify popped.okr_absTask_deschedule popped.okr_absTask_schedule
  have w: "?X w" using assms True by (intro cbs_sys_popped) auto
  have out: "cbs_sys S T par V v \<and> fst (snd (snd (timers s v))) = None \<and> srv_status (servers v s) = EXECUTING"
    if "?X v" for v
  proof -
    from that have "timers s v = timers s w" "srv_status (servers v s) = EXECUTING" "fst (snd (snd (timers s v))) = None"
      by (auto simp: cbs_popped_def')
    with popped_sys [OF that] show ?thesis by simp
  qed
  show ?thesis
    unfolding Server_onDispatch_def Let_def if_not_P [OF not_not [THEN iffD2, OF True]]
  proof (rule okr_seq [where Q = ?X])
    show "okr ?X (if Scheduler_getFirst (srv_sched (servers w s)) w \<noteq> srv_currExe (servers w s)
      then bindE (case srv_currExe (servers w s) of None \<Rightarrow> Inr w | Some a \<Rightarrow> absTask_deschedule a w) (\<lambda>w1.
             case Scheduler_getFirst (srv_sched (servers w s)) w of
               None \<Rightarrow> Inr (set_currExe s (Scheduler_getFirst (srv_sched (servers w s)) w) w1)
             | Some b \<Rightarrow> absTask_schedule b (set_currExe s (Scheduler_getFirst (srv_sched (servers w s)) w) w1))
      else Inr w)"
      using w by (auto intro!: pres X popped_fields)
  next
    fix w3 assume w3: "?X w3"
    show "okr (cbs_sys S T par V) (if srv_currExe (servers w3 s) = None
      then steps [(\<lambda>v. Scheduler_notify (srv_sched (servers v s)) None v), CBServer_executing_releasing s,
             with_kernel s (\<lambda>r. root_suspend r (ServerRef s)), with_kernel s root_dispatch] w3
      else Inr w3)"
      using w3 unfolding steps.simps
      by (intro okr_if okr_seq [OF X(1) [OF w3]] okr_bindE releasing_sys okr_with_kernel_any sys_rules)
        (auto dest: out)
  qed
qed (simp add: Server_onDispatch_def)

text \<open>The exhaustion of the budget.\<close>

lemma recharging_sys:
  assumes "cbs_popped S T par V s tm0 G w" and "srv_status (servers w s) = EXECUTING" and "fst tm0 = Some T"
    and "snd (timers s w) = snd tm0"
  shows "okr (cbs_sys S T par V) (CBServer_executing_recharging s w)"
proof (cases "CBServer_executing_recharging s w")
  case (Inr w')
  have ord: "ordered T w" using assms(1) by (simp add: cbs_popped_def')
  have "servers w' t = servers w t" if "t \<noteq> s" for t
    using executing_recharging_servers [OF Inr] that by auto
  with popped_step [OF assms(1) executing_recharging_timers [OF Inr ord]]
    executing_recharging_refines [OF Inr ord _ assms(2,3)] Inr assms(4) show ?thesis by simp
qed simp

lemma Server_onBudgetExhausted_sys:
  assumes "cbs_popped S T par V s (Some T, tm) (\<lambda>x t. t = (None, tm)) w"
  shows "okr (cbs_sys S T par V) (Server_onBudgetExhausted s w)"
proof (cases "srv_status (servers w s) = EXECUTING")
  case True
  let ?X = "cbs_popped S T par V s (Some T, tm) (\<lambda>x t. srv_status x = EXECUTING \<and> t = (None, tm))"
  note X = popped.okr_notify popped.okr_absTask_deschedule popped.okr_root
  have w1: "?X (Event_drop (SrvDispatchEvt s) w)"
    using assms True by (intro popped.drop) (simp_all add: cbs_popped_def')
  show ?thesis
    unfolding Server_onBudgetExhausted_def Let_def if_not_P [OF not_not [THEN iffD2, OF True]]
  proof (rule okr_seq [where Q = ?X])
    show "okr ?X (case srv_currExe (servers (Event_drop (SrvDispatchEvt s) w) s) of
         None \<Rightarrow> Inr (Event_drop (SrvDispatchEvt s) w)
       | Some a \<Rightarrow> bindE (absTask_deschedule a (Event_drop (SrvDispatchEvt s) w))
                    (\<lambda>v. Inr (set_currExe s None v)))"
      using w1 by (intro okr_option okr_bindE X) (simp_all add: popped_fields)
  next
    fix w2 assume "?X w2"
    then show "okr (cbs_sys S T par V) (steps [with_kernel s (\<lambda>r. root_suspend r (ServerRef s)),
              (\<lambda>v. Scheduler_notify (srv_sched (servers v s)) None v),
              with_kernel s root_dispatch, CBServer_executing_recharging s,
              whenE (\<lambda>v. srv_status (servers v s) = READY)
                (with_kernel s (\<lambda>r. root_onArrival r (ServerRef s)))] w2)"
      unfolding steps.simps
      by (intro okr_seq [where Q = ?X, OF okr_with_kernel_any] okr_seq [where Q = ?X, OF X(1)] X
          okr_bindE recharging_sys okr_whenE okr_with_kernel_any sys_rules)
        (auto simp: cbs_popped_def')
  qed
qed (simp add: Server_onBudgetExhausted_def)

text \<open>The replenishment.\<close>

lemma replenish_refines:
  assumes "coupled x" and "srv_status x = RECHARGING"
  defines "y \<equiv> x\<lparr>cbs_cap := cbs_Q x\<rparr>"
  shows "refines T x (a, b, Some T, r) (y\<lparr>srv_status := READY\<rparr>) (a, b, None, r)"
    and "ct_value (cbs_vtime x) \<le> of_int T \<Longrightarrow>
      refines T x (a, b, Some T, r) (y\<lparr>srv_status := IDLE\<rparr>) (a, b, None, r)"
    and "of_int T < ct_value (cbs_vtime x) \<Longrightarrow>
      refines T x (a, b, Some T, r) (y\<lparr>srv_status := RELEASING\<rparr>) (a, Some (Tick_ceil (ct_value (cbs_vtime x))), None, r)"
  using replenish_ready [of "view_of T x (a, b, Some T, r)"] replenish_idle [of "view_of T x (a, b, Some T, r)"]
    replenish_releasing [of "view_of T x (a, b, Some T, r)"] assms(1,2)
  by (auto intro!: refinesI simp: view_of_def coupled_def srv_params_def y_def)

lemma onReplenishment_sys:
  assumes pop: "cbs_popped S T par V s (a, b, Some T, r) (\<lambda>x t. t = (a, b, None, r)) w"
    and st: "srv_status (servers w s) \<in> {READY, EXECUTING, RECHARGING}"
  shows "okr (cbs_sys S T par V) (CBServer_onReplenishment s w)"
proof -
  let ?w1 = "Event_drop (ReplEvt s) w" and ?x = "servers w s"
  have ord: "ordered T w" and tm: "timers s w = (a, b, None, r)" using pop by (simp_all add: cbs_popped_def')
  have drop: "timer_step s T w ?w1 (a, b, None, r)" using timer_drop(3) [OF ord, of s] tm by simp
  show ?thesis
  proof (cases "srv_status ?x = RECHARGING")
    case False
    then have st': "srv_status ?x \<in> {READY, EXECUTING}" using st by auto
    have "cbs_sys S T par V ?w1"
    proof (rule popped_step [OF pop drop])
      show "refines T ?x (a, b, Some T, r) (servers ?w1 s) (a, b, None, r)" if "coupled ?x"
        using replenish_late [of "view_of T ?x (a, b, Some T, r)"] st' that
        by (intro refinesI) (auto simp: view_of_def)
    qed simp_all
    with st' show ?thesis by (auto simp: CBServer_onReplenishment_def Let_def)
  next
    case True
    let ?w2 = "upd_server s (\<lambda>x. x\<lparr>cbs_cap := cbs_Q x\<rparr>) ?w1"
    let ?v = "CapacityTimer_get_value T (cbs_vtime ?x)"
    have v: "?v = ct_value (cbs_vtime ?x)" if "coupled ?x"
      using that True by (auto simp: CapacityTimer_get_value_def coupled_def)
    have sys: "cbs_sys S T par V u"
      if "timer_step s T w u tm'" "servers u = servers (set_status s st ?w2)" "snd (snd (snd tm')) = r"
        "coupled ?x \<Longrightarrow> refines T ?x (a, b, Some T, r) (?x\<lparr>cbs_cap := cbs_Q ?x, srv_status := st\<rparr>) tm'" for st u tm'
      using that by (intro popped_step [OF pop]) (auto simp: set_status_def)
    have two: "timer_step s T w (set_status s st ?w2) (a, b, None, r)" for st using drop by simp
    have ready: "cbs_sys S T par V (CBServer_recharging_ready s ?w2)"
      unfolding CBServer_recharging_ready_def by (rule sys [OF two]) (use replenish_refines True in auto)
    have idle: "cbs_sys S T par V (set_status s IDLE ?w2)" if "?v \<le> of_int T"
      by (rule sys [OF two]) (use replenish_refines True that v in auto)
    have releasing: "okr (cbs_sys S T par V) (Event_post (IdleEvt s) (Tick_ceil ?v) False (set_status s RELEASING ?w2))"
      if "of_int T < ?v"
    proof (cases "Event_post (IdleEvt s) (Tick_ceil ?v) False (set_status s RELEASING ?w2)")
      case (Inr w3)
      let ?w = "set_status s RELEASING ?w2"
      have "ordered T ?w" "timers s ?w = (a, b, None, r)" using two by (auto simp: timer_step_def)
      from timer_step_trans [OF two timer_post(2) [OF this(1) Inr]] this(2)
      have "timer_step s T w w3 (a, Some (Tick_ceil ?v), None, r)" by simp
      then have "cbs_sys S T par V w3"
        by (rule sys) (use post_objects [OF Inr] replenish_refines True that v in \<open>auto simp: same_objects_def\<close>)
      with Inr show ?thesis by simp
    qed simp
    have now: "globTime w = T" by (rule ordered_now [OF ord])
    show ?thesis
      using True ready idle releasing
      by (auto simp: CBServer_onReplenishment_def Let_def now
          intro!: okr_bindE [where P = "cbs_sys S T par V"] okr_with_kernel_any sys_kernel.okr_root
            sys_kernel.okr_notify sys_fields)
  qed
qed

lemma onIdle_sys:
  assumes pop: "cbs_popped S T par V s (a, Some T, r) (\<lambda>x t. t = (a, None, r)) w"
    and st: "srv_status (servers w s) = RELEASING"
  shows "cbs_sys S T par V (set_status s IDLE w)"
proof (rule popped_step [OF pop])
  have "ordered T w" "timers s w = (a, None, r)" using pop by (simp_all add: cbs_popped_def')
  then show "timer_step s T w (set_status s IDLE w) (a, None, r)" using timer_step_refl [of T w s] by simp
  show "refines T (servers w s) (a, Some T, r) (servers (set_status s IDLE w) s) (a, None, r)" if "coupled (servers w s)"
    using become_idle [of "view_of T (servers w s) (a, Some T, r)"] that st
    by (intro refinesI) (auto simp: view_of_def coupled_def srv_params_def set_status_def)
qed (simp_all add: set_status_def)

section \<open>A step of the simulation\<close>

interpretation sys_ops: server_ops "cbs_sys S T par V" for S T par V
  by unfold_locales (rule sys_calls, assumption)+

interpretation sys_events: event_frame "cbs_sys S T par V" for S T par V
proof unfold_locales
  fix w m fr t ft c fc
  assume w: "cbs_sys S T par V w"
  then show "cbs_sys S T par V (upd_resman m fr w)" "cbs_sys S T par V (upd_task t ft w)" "cbs_sys S T par V (upd_cpu c fc w)"
    unfolding cbs_sys_def by (rule view_inv_upd)+
next
  fix w e time d t
  assume w: "cbs_sys S T par V w"
  show "okr (cbs_sys S T par V) (Event_post e time d w)" if "arrives e"
    using w arrives_cases(1) [OF that] unfolding cbs_sys_def by (rule view_inv_post)
  show "okr (cbs_sys S T par V) (Event_process (FakeArrEvt t) d w)"
    using w unfolding cbs_sys_def by (rule view_inv_process) blast
qed (rule sys_kernel.okr_MRTKernel_multi)

end
