(* ===== verification/Program_Servers.thy ===== *)
theory Program_Servers
  imports Server_Refinement
begin

text \<open>
  A step of the simulation is a sequence of steps of the abstract machine for each of its servers, so all
  reachable states refine it: what \<open>CBS_Spec\<close> proves of the machine holds of the servers of the code.
\<close>

section \<open>The event that is executed\<close>

text \<open>The clock moves to the first event, which is taken from the queue.\<close>

definition popped :: "tick \<Rightarrow> evt \<Rightarrow> world \<Rightarrow> world" where
  "popped t e w = Event_restorePriority e (upd_event e (\<lambda>ev. ev\<lparr>ev_lastTime := ev_time ev\<rparr>)
     (Simulation_setTime t (Event_drop e w)))"

lemma popped_engine:
  assumes "ordered T w" and "Event_getFirst w = Some e"
  defines "t \<equiv> ev_time (evs w e)"
  shows "ordered t (popped t e w)" and "T \<le> t" and "posted_at e w = Some t" and "posted_at e (popped t e w) = None"
    and "\<And>b. b \<noteq> e \<Longrightarrow> posted_at b (popped t e w) = posted_at b w"
    and "\<And>b u. posted_at b w = Some u \<Longrightarrow> t \<le> u"
    and "\<And>b. priorities b (popped t e w) = (if b = e then snd (priorities e w) else fst (priorities b w), snd (priorities b w))"
    and "servers (popped t e w) = servers w" and "\<And>b. lasting b (popped t e w) = lasting b w"
proof -
  let ?v = "Event_drop e w"
  have evq: "evq_inv w" by (rule ordered_evq [OF assms(1)])
  have mem: "e \<in> set (eventQueue w)" by (rule first_in_queue [OF assms(2)])
  note drop = drop_ordered [OF assms(1), where e = e]
  have fields: "eventQueue (popped t e w) = eventQueue ?v" "evCounter (popped t e w) = evCounter ?v"
    "evs (popped t e w) b = (if b = e then (evs ?v e)\<lparr>ev_lastTime := ev_time (evs ?v e), ev_priority := ev_std_priority (evs ?v e)\<rparr> else evs ?v b)" for b
    by (simp_all add: popped_def Event_restorePriority_def upd_event_def Simulation_setTime_def)
  have out: "e \<notin> set (eventQueue ?v)" by simp
  have "at_time t (popped t e w)"
    unfolding popped_def Event_restorePriority_def t_def
    using popped_at_time [OF evq assms(2)] out
    by (simp add: upd_unqueued_at_time Simulation_setTime_def)
  moreover have "ev_order (evs (popped t e w) b) = ev_order (evs ?v b)" "ev_time (evs (popped t e w) b) = ev_time (evs ?v b)" for b
    unfolding fields by simp_all
  ultimately show "ordered t (popped t e w)"
    using drop(1) unfolding ordered_def apart_def fields(1,2) by simp
  show "T \<le> t" using evq_inv_event [OF evq mem] ordered_now [OF assms(1)] by (simp add: t_def event_ok_def)
  show "posted_at e w = Some t" using mem by (simp add: posted_at_def t_def)
  show "posted_at e (popped t e w) = None" by (simp add: posted_at_def fields)
  show "posted_at b (popped t e w) = posted_at b w" if "b \<noteq> e" for b
    using drop(3) [OF that] that by (auto simp: posted_at_def fields split: if_splits)
  show "t \<le> u" if "posted_at b w = Some u" for b u
    using that first_least [OF evq assms(2), of b] by (auto simp: posted_at_def t_def dest: Event_Cmp_time split: if_splits)
  show "priorities b (popped t e w) = (if b = e then snd (priorities e w) else fst (priorities b w), snd (priorities b w))" for b
    using drop(4) by (auto simp: priorities_def fields Event_drop_def upd_event_def)
  show "servers (popped t e w) = servers w"
    by (simp add: popped_def Event_restorePriority_def upd_event_def Simulation_setTime_def Event_drop_def)
  show "lasting b (popped t e w) = lasting b w" for b
    using drop(5) by (auto simp: lasting_def fields)
qed

lemma pass_ok:
  assumes "srv_ok T par V x tm pr" and "T \<le> t" and "\<And>u. u \<in> {fst tm, fst (snd tm), fst (snd (snd tm))} \<Longrightarrow> \<forall>v. u = Some v \<longrightarrow> t \<le> v"
  shows "srv_ok t par V x tm pr"
proof -
  have "cbs_step (cbs_Q x) (cbs_P x) (cbs_HR x) (view_of T x tm) ((view_of T x tm)\<lparr>a_now := t\<rparr>)"
    using assms by (intro pass) (auto simp: no_timer_before_def)
  moreover have "(view_of T x tm)\<lparr>a_now := t\<rparr> = view_of t x tm" by (simp add: view_of_def)
  ultimately show ?thesis using assms(1) by (auto simp: srv_ok_def)
qed

text \<open>What an event leaves of the timers: its own is gone.\<close>

definition without :: "evt \<Rightarrow> nat \<Rightarrow> timers \<Rightarrow> timers" where
  "without e s tm = (if e = BandExEvt s then None else fst tm, if e = IdleEvt s then None else fst (snd tm),
     if e = ReplEvt s then None else fst (snd (snd tm)), if e = RechargingEvt s then None else snd (snd (snd tm)))"

lemma pop_sys:
  assumes "cbs_sys S T par V w" and "Event_getFirst w = Some e"
  defines "t \<equiv> ev_time (evs w e)"
  shows "\<And>s. s \<in> S \<Longrightarrow> srv_ok t (par s) (V s) (servers (popped t e w) s) (timers s w) (prios s (popped t e w))"
    and "\<And>s. timers s (popped t e w) = without e s (timers s w)"
proof -
  have ord: "ordered T w" using assms(1) by (simp add: cbs_sys_def')
  note pop = popped_engine [OF ord assms(2), folded t_def]
  show "timers s (popped t e w) = without e s (timers s w)" for s
    using pop(4,5) by (auto simp: timers_def without_def)
  fix s assume s: "s \<in> S"
  then have ok: "srv_ok T (par s) (V s) (servers w s) (timers s w) (prios s w)" using assms(1) by (simp add: cbs_sys_def')
  have "srv_ok t (par s) (V s) (servers w s) (timers s w) (prios s w)"
    by (rule pass_ok [OF ok pop(2)]) (auto simp: timers_def dest: pop(6) [OF sym])
  moreover have "static_prios (prios s (popped t e w))" if "static_prios (prios s w)"
    using that by (auto simp: static_prios_def prios_def pop(7,9))
  ultimately show "srv_ok t (par s) (V s) (servers (popped t e w) s) (timers s w) (prios s (popped t e w))"
    by (simp add: srv_ok_def pop(8))
qed

section \<open>Its handler\<close>

lemma pop_other:
  assumes "cbs_sys S T par V w" and "Event_getFirst w = Some e" and "\<And>s. s \<in> S \<Longrightarrow> \<not> own_timer s e"
  shows "cbs_sys S (ev_time (evs w e)) par V (popped (ev_time (evs w e)) e w)"
proof -
  let ?t = "ev_time (evs w e)"
  have ord: "ordered T w" using assms(1) by (simp add: cbs_sys_def')
  have "timers s (popped ?t e w) = timers s w" if "s \<in> S" for s
    using pop_sys(2) [OF assms(1,2)] assms(3) [OF that] by (auto simp: without_def own_timer_def)
  with pop_sys(1) [OF assms(1,2)] popped_engine(1) [OF ord assms(2)] show ?thesis by (simp add: cbs_sys_def')
qed

lemma pop_own:
  assumes "cbs_sys S T par V w" and "Event_getFirst w = Some e" and "own_timer s e"
  defines "t \<equiv> ev_time (evs w e)"
  shows "cbs_popped S t par V s (timers s w) (\<lambda>x tm. tm = without e s (timers s w)) (popped t e w)"
proof -
  have ord: "ordered T w" using assms(1) by (simp add: cbs_sys_def')
  have "timers r (popped t e w) = timers r w" if "r \<noteq> s" for r
    using pop_sys(2) [OF assms(1,2)] assms(3) that by (auto simp: without_def own_timer_def t_def)
  with pop_sys [OF assms(1,2)] popped_engine(1) [OF ord assms(2)] show ?thesis
    by (auto simp: cbs_popped_def' t_def)
qed

definition all_good :: "nat set \<Rightarrow> (nat \<Rightarrow> tick \<times> tick \<times> bool) \<Rightarrow> (nat \<Rightarrow> cbs_state) \<Rightarrow> bool" where
  "all_good S par V \<longleftrightarrow> (\<forall>s\<in>S. case par s of (Q, P, HR) \<Rightarrow> cbs_good Q P HR (V s))"

lemma srv_ok_good:
  assumes "srv_ok T (par s) (V s) x tm pr" and "all_good S par V" and "s \<in> S"
  shows "cbs_good (cbs_Q x) (cbs_P x) (cbs_HR x) (view_of T x tm)"
proof (rule cbs_good_steps)
  show "srv_steps x (V s) (view_of T x tm)" "0 < cbs_Q x" "0 < cbs_P x" using assms(1) by (auto simp: srv_ok_def coupled_def)
  show "cbs_good (cbs_Q x) (cbs_P x) (cbs_HR x) (V s)"
    using assms by (auto simp: srv_ok_def srv_params_def all_good_def)
qed

text \<open>The servers outside \<open>S\<close> do as they please.\<close>

lemma outside:
  assumes "s \<notin> S"
  shows "one_server_frame (cbs_sys S T par V) s"
proof (unfold_locales)
  fix w f e t d
  assume w: "cbs_sys S T par V w"
  then have ord: "ordered T w" by (simp add: cbs_sys_def')
  show "cbs_sys S T par V (upd_server s f w)" using w assms by (auto simp: cbs_sys_def')
  assume e: "own_timer s e"
  then have neq: "r \<in> S \<Longrightarrow> BandExEvt r \<noteq> e \<and> IdleEvt r \<noteq> e \<and> ReplEvt r \<noteq> e \<and> RechargingEvt r \<noteq> e" for r
    using assms by (auto simp: own_timer_def)
  have same: "cbs_sys S T par V v"
    if "ordered T v" "servers v = servers w" "\<And>b. b \<noteq> e \<Longrightarrow> posted_at b v = posted_at b w"
      "\<And>b. priorities b v = priorities b w"
      "\<And>b. b \<noteq> e \<Longrightarrow> lasting b v = lasting b w" for v
  proof -
    have "timers r v = timers r w" "prios r v = prios r w" if "r \<in> S" for r
      using \<open>\<And>b. b \<noteq> e \<Longrightarrow> posted_at b v = posted_at b w\<close> \<open>\<And>b. priorities b v = priorities b w\<close>
        \<open>\<And>b. b \<noteq> e \<Longrightarrow> lasting b v = lasting b w\<close> neq [OF that]
      by (auto simp: timers_def prios_def)
    with w that(1,2) show ?thesis by (simp add: cbs_sys_def')
  qed
  show "cbs_sys S T par V (Event_drop e w)"
    using drop_ordered [OF ord] by (intro same) (simp_all add: same_objects_def)
  show "okr (cbs_sys S T par V) (Event_post e t d w)"
  proof (cases "Event_post e t d w")
    case (Inr v)
    with post_ordered [OF ord Inr] post_objects [OF Inr] show ?thesis by (auto simp: same_objects_def intro: same)
  qed simp
qed

text \<open>When a dispatch is due no replenishment is: that would have come first.\<close>

lemma no_replenishment_at_dispatch:
  assumes "cbs_sys S T par V w" and "Event_getFirst w = Some (SrvDispatchEvt s)" and "all_good S par V" and "s \<in> S"
    and "srv_status (servers w s) = EXECUTING"
  shows "fst (snd (snd (timers s w))) = None"
proof (rule ccontr)
  let ?t = "ev_time (evs w (SrvDispatchEvt s))"
  have ord: "ordered T w" using assms(1) by (simp add: cbs_sys_def')
  note pop = popped_engine [OF ord assms(2)]
  have ok: "srv_ok ?t (par s) (V s) (servers w s) (timers s w) (prios s (popped ?t (SrvDispatchEvt s) w))"
    using pop_sys(1) [OF assms(1,2,4)] pop(8) by simp
  assume "fst (snd (snd (timers s w))) \<noteq> None"
  with srv_ok_good [OF ok assms(3,4)] assms(5) have "posted_at (ReplEvt s) w = Some ?t"
    by (auto simp: cbs_good_def timers_def)
  then have repl: "ReplEvt s \<in> set (eventQueue w)" "ev_time (evs w (ReplEvt s)) = ?t"
    by (auto simp: posted_at_def split: if_splits)
  have "Event_Cmp (evs w (SrvDispatchEvt s)) (evs w (ReplEvt s))"
    using first_least [OF ordered_evq [OF ord] assms(2) repl(1)] by simp
  moreover have "static_prios (prios s w)" using assms(1,4) by (auto simp: cbs_sys_def' srv_ok_def)
  ultimately show False using repl(2)
    by (auto simp: Event_Cmp_def Let_def static_prios_def prios_def priorities_def split: if_splits)
qed

lemma handled_sys:
  assumes "cbs_sys S T par V w" and "Event_getFirst w = Some e" and "all_good S par V"
  defines "t \<equiv> ev_time (evs w e)"
  shows "okr (cbs_sys S t par V) (doit e (popped t e w))"
proof -
  let ?w2 = "popped t e w"
  have ord: "ordered T w" using assms(1) by (simp add: cbs_sys_def')
  note pop = popped_engine [OF ord assms(2), folded t_def]
  have own: "cbs_popped S t par V s (timers s w) (\<lambda>x tm. tm = without e s (timers s w)) ?w2" if "own_timer s e" for s
    using pop_own [OF assms(1,2) that] by (simp add: t_def)
  have other: "cbs_sys S t par V ?w2" if "\<And>s. s \<in> S \<Longrightarrow> \<not> own_timer s e"
    using pop_other [OF assms(1,2)] that by (simp add: t_def)
  have good: "cbs_good (cbs_Q (servers ?w2 s)) (cbs_P (servers ?w2 s)) (cbs_HR (servers ?w2 s)) (view_of t (servers ?w2 s) (timers s w))"
    if "s \<in> S" for s
    using srv_ok_good [OF pop_sys(1) [OF assms(1,2) that] assms(3) that] by (simp add: t_def)
  show ?thesis
  proof (cases "\<exists>s. own_timer s e \<or> e = SrvDispatchEvt s")
    case True
    then obtain s where s: "own_timer s e \<or> e = SrvDispatchEvt s" by blast
    show ?thesis
    proof (cases "s \<in> S")
      case False
      have "cbs_sys S t par V ?w2" using s False by (intro other) (auto simp: own_timer_def)
      with s show ?thesis
        by (auto simp: own_timer_def doit_def intro: one_server_frame.okr_Server [OF outside [OF False]]
            one_server_frame.okr_Server_events [OF outside [OF False]] one_server_frame.okr_CBServer [OF outside [OF False]])
    next
      case inside: True
      note good = good [OF inside]
      from s consider "e = BandExEvt s" | "e = IdleEvt s" | "e = ReplEvt s" | "e = RechargingEvt s" | "e = SrvDispatchEvt s"
        by (auto simp: own_timer_def)
      then show ?thesis
      proof cases
        case 1
        with pop(3) have "timers s w = (Some t, snd (timers s w))" by (simp add: timers_def)
        with own [of s] 1 have "cbs_popped S t par V s (Some t, snd (timers s w)) (\<lambda>x tm. tm = (None, snd (timers s w))) ?w2"
          by (simp add: own_timer_def without_def)
        from Server_onBudgetExhausted_sys [OF this] 1 show ?thesis by (simp add: doit_def)
      next
        case 2
        with pop(3) have tm: "timers s w = (fst (timers s w), Some t, snd (snd (timers s w)))" by (simp add: timers_def)
        with own [of s] 2 have "cbs_popped S t par V s (fst (timers s w), Some t, snd (snd (timers s w)))
            (\<lambda>x tm. tm = (fst (timers s w), None, snd (snd (timers s w)))) ?w2"
          by (simp add: own_timer_def without_def)
        moreover have "srv_status (servers ?w2 s) = RELEASING" using good 2 pop(3) by (auto simp: cbs_good_def timers_def)
        ultimately show ?thesis
          using onIdle_sys 2 by (simp add: doit_def CBServer_onIdle_def CBServer_releasing_idle_def)
      next
        case 3
        let ?tm = "timers s w"
        from 3 pop(3) have tm: "?tm = (fst ?tm, fst (snd ?tm), Some t, snd (snd (snd ?tm)))" by (simp add: timers_def)
        with own [of s] 3 have "cbs_popped S t par V s (fst ?tm, fst (snd ?tm), Some t, snd (snd (snd ?tm)))
            (\<lambda>x tm. tm = (fst ?tm, fst (snd ?tm), None, snd (snd (snd ?tm)))) ?w2"
          by (simp add: own_timer_def without_def)
        moreover have "srv_status (servers ?w2 s) \<in> {READY, EXECUTING, RECHARGING}" using good 3 pop(3) by (auto simp: cbs_good_def timers_def)
        ultimately show ?thesis using onReplenishment_sys 3 by (simp add: doit_def)
      next
        case 4
        with pop(3) inside assms(1) show ?thesis by (auto simp: cbs_sys_def' srv_ok_def timers_def)
      next
        case 5
        have w2: "cbs_sys S t par V ?w2" using 5 by (intro other) (auto simp: own_timer_def)
        have "timers s ?w2 = timers s w" using pop_sys(2) [OF assms(1,2), of s] 5 by (simp add: without_def t_def)
        then have "fst (snd (snd (timers s ?w2))) = None" if "srv_status (servers ?w2 s) = EXECUTING"
          using no_replenishment_at_dispatch [OF assms(1) _ assms(3) inside] assms(2) 5 that pop(8) by simp
        with Server_onDispatch_sys [OF w2] 5 show ?thesis by (simp add: doit_def)
      qed
    qed
  next
    case False
    then have w2: "cbs_sys S t par V ?w2" by (intro other) blast
    show ?thesis
    proof (cases "ends_switch e \<or> server_event e")
      case True
      with False w2 show ?thesis
        by (cases e) (auto simp: ends_switch_def server_event_def doit_def own_timer_def
            intro: sys_kernel.okr_MRTKernel_multi sys_calls)
    next
      case False
      with w2 show ?thesis by (intro sys_events.okr_doit_event) auto
    qed
  qed
qed


section \<open>Reachable states\<close>

lemma sim_step_servers:
  assumes "cbs_sys S T par V w" and "all_good S par V" and "Simulation_sim_step doit w = Inr (t, w')"
  shows "cbs_sys S t par V w'"
proof -
  obtain e w2 where e: "Event_getFirst w = Some e" and t: "t = ev_time (evs w e)"
    and act: "Event_action doit e (Simulation_setTime t (Event_drop e w)) = Inr w2"
    and w': "w' = (if ev_disposable (evs w2 e) then Event_dtor e w2 else w2)"
    using simulator.sim_step_first [OF assms(3)] .
  have "doit e (popped t e w) = Inr w2" using act by (simp add: Event_action_def popped_def)
  with handled_sys [OF assms(1) e assms(2)] t have w2: "cbs_sys S t par V w2" by simp
  have "cbs_sys S t par V (Event_drop e w2)" if "\<not> lasting e w2"
  proof (cases "\<exists>s. own_timer s e")
    case True
    then obtain s where s: "own_timer s e" by blast
    show ?thesis
    proof (cases "s \<in> S")
      case False
      then show ?thesis using w2 one_server_frame.any_drop [OF outside] s by blast
    next
      case True
      with w2 have ok: "srv_ok t (par s) (V s) (servers w2 s) (timers s w2) (prios s w2)" and ord: "ordered t w2"
        by (simp_all add: cbs_sys_def')
      then have e: "e = RechargingEvt s" "posted_at e w2 = None"
        using that s by (auto simp: own_timer_def srv_ok_def static_prios_def prios_def timers_def)
      have "posted_at b (Event_drop e w2) = posted_at b w2" for b using drop_ordered(2,3) [OF ord] e by (cases "b = e") auto
      then have "timers r (Event_drop e w2) = timers r w2" "prios r (Event_drop e w2) = prios r w2" for r
        using drop_ordered(4,5) [OF ord] by (simp_all add: timers_def prios_def)
      with w2 drop_ordered(1) [OF ord] show ?thesis by (simp add: cbs_sys_def' Event_drop_def upd_event_def)
    qed
  next
    case False
    then have "\<not> server_timer e" by (auto simp: own_timer_def server_timer_def split: evt.splits)
    then show ?thesis using w2 sys_kernel.drop by blast
  qed
  then show ?thesis using w2 by (auto simp: w' Event_dtor_def lasting_def)
qed

text \<open>
  The state a simulation starts from: the queue is well formed, and the server is a machine that keeps its
  invariant, with the priorities of its constructor and no \<open>rechargingEvt\<close>, which the code never posts for it.
\<close>

definition cbs_ready_at :: "nat \<Rightarrow> world \<Rightarrow> bool" where
  "cbs_ready_at s w \<longleftrightarrow> coupled (servers w s) \<and>
     cbs_good (cbs_Q (servers w s)) (cbs_P (servers w s)) (cbs_HR (servers w s)) (cbs_view s w) \<and>
     posted_at (RechargingEvt s) w = None \<and> static_prios (prios s w)"

definition cbs_start :: "nat set \<Rightarrow> world \<Rightarrow> bool" where
  "cbs_start S w \<longleftrightarrow> ordered (globTime w) w \<and> (\<forall>s\<in>S. cbs_ready_at s w)"

lemma cbs_start_sys:
  "cbs_start S w \<Longrightarrow> cbs_sys S (globTime w) (\<lambda>s. srv_params (servers w s)) (\<lambda>s. cbs_view s w) w
     \<and> all_good S (\<lambda>s. srv_params (servers w s)) (\<lambda>s. cbs_view s w)"
  by (auto simp: cbs_start_def cbs_ready_at_def cbs_sys_def' srv_ok_def all_good_def srv_params_def cbs_view_def timers_def)

lemma sim_reach_servers:
  assumes "sim_reach w0 w" and "cbs_sys S (globTime w0) par V w0" and "all_good S par V"
  shows "cbs_sys S (globTime w) par V w"
  using assms(1)
proof induction
  case (reach_step v t v')
  from sim_step_servers [OF reach_step.IH assms(3) reach_step.hyps(2)] have v': "cbs_sys S t par V v'" .
  then have "globTime v' = t" by (simp add: cbs_sys_def' ordered_now)
  with v' setTime_same [of v' t] show ?case by simp
qed (rule assms(2))

lemma reachable_start:
  assumes "cbs_start S w0" and "sim_reach w0 w" and "s \<in> S"
  shows "srv_steps (servers w0 s) (cbs_view s w0) (cbs_view s w)" and "cbs_ready_at s w"
    and "srv_params (servers w s) = srv_params (servers w0 s)"
proof -
  note start = cbs_start_sys [OF assms(1)]
  have "cbs_sys S (globTime w) (\<lambda>s. srv_params (servers w0 s)) (\<lambda>s. cbs_view s w0) w"
    using sim_reach_servers [OF assms(2)] start by blast
  with assms(3) have ok: "srv_ok (globTime w) (srv_params (servers w0 s)) (cbs_view s w0) (servers w s) (timers s w) (prios s w)"
    by (simp add: cbs_sys_def')
  then show par: "srv_params (servers w s) = srv_params (servers w0 s)" by (simp add: srv_ok_def)
  with ok show "srv_steps (servers w0 s) (cbs_view s w0) (cbs_view s w)"
    by (auto simp: srv_ok_def cbs_view_def srv_params_def)
  have "cbs_good (cbs_Q (servers w s)) (cbs_P (servers w s)) (cbs_HR (servers w s)) (cbs_view s w)"
    using srv_ok_good [where par = "\<lambda>s. srv_params (servers w0 s)" and V = "\<lambda>s. cbs_view s w0", OF ok _ assms(3)] start
    by (simp add: cbs_view_def)
  with ok show "cbs_ready_at s w" by (simp add: cbs_ready_at_def srv_ok_def timers_def)
qed


lemma coupled_vtime:
  assumes "cbs_ready_at s w" and "srv_status (servers w s) \<noteq> IDLE"
  shows "CBServer_getVirtualTime s w = cbs_vtime_now (cbs_Q (servers w s)) (cbs_P (servers w s)) (cbs_view s w)"
  using assms by (auto simp: CBServer_getVirtualTime_def CapacityTimer_get_value_def cbs_vtime_now_def cbs_ready_at_def
      coupled_def cbs_view_def)

section \<open>A concrete simulation\<close>

lemma evt_ctor_fields: "ev_order (evt_ctor e) = 0" "ev_time (evt_ctor e) = MAXTICK"
  by (cases e; simp add: evt_ctor_def Event_ctor_def)+

text \<open>
  A soft server with budget 4 and period 10 that executes from time 5 on, exhausts its budget at time 9, is
  recharged and executes again; its replenishment is still posted.
\<close>

definition server_example :: world where
  "server_example = result_world (steps
     [pureE (upd_mrtk 0 (\<lambda>_. MRTKernel_ctor 0 [0])),
      pureE (upd_server 0 (\<lambda>_. (CBServer_ctor 2 4 10 0 False 1)\<lparr>srv_kernel := Some (MRTK 0)\<rparr>)),
      pureE (Simulation_setTime 5), CBServer_idle_ready 0, CBServer_ready_executing 0,
      pureE (Simulation_setTime 9), CBServer_executing_recharging 0, CBServer_ready_executing 0] empty_world)"

lemmas server_eval = cbs_eval server_example_def CBServer_executing_recharging_def Event_drop_def pl_erase_def
  equivalent_key_def

lemma server_example_engine:
  "evs server_example = evt_ctor(BandExEvt 0 := (evt_ctor (BandExEvt 0))\<lparr>ev_time := 13, ev_order := 2, ev_isInQueue := True\<rparr>,
     ReplEvt 0 := (evt_ctor (ReplEvt 0))\<lparr>ev_time := 9, ev_order := 1, ev_isInQueue := True\<rparr>)"
  "eventQueue server_example = [ReplEvt 0, BandExEvt 0]" "evCounter server_example = 3" "globTime server_example = 9"
  by (simp_all add: server_eval fun_upd_twist numeral_2_eq_2 numeral_3_eq_3)

lemma server_example_start: "cbs_start {0} server_example"
proof -
  have "at_time 9 server_example" by (simp add: server_eval)
  then have "ordered 9 server_example"
    by (simp add: ordered_def server_example_engine apart_def evt_ctor_fields MAXTICK_def)
  moreover have "cbs_ready_at 0 server_example"
    by (simp add: cbs_ready_at_def server_eval coupled_def cbs_good_def cbs_view_def view_of_def timers_def posted_at_def
        static_prios_def prios_def priorities_def lasting_def cbs_rate_def)
  ultimately show ?thesis by (simp add: cbs_start_def server_example_engine)
qed

lemma server_example_step:
  "\<exists>w'. Simulation_sim_step doit server_example = Inr (9, w') \<and> srv_status (servers w' 0) = EXECUTING \<and>
     globTime w' = 9 \<and> cbs_d (servers w' 0) = 25 \<and> eventQueue w' = [BandExEvt 0] \<and> \<not> cbs_HR (servers w' 0)"
  by (simp add: server_eval Simulation_sim_step_def Event_getFirst_def pl_front_def Event_action_def
      Event_getTime_def doit_def Event_restorePriority_def CBServer_onReplenishment_def)

lemma server_example_reach:
  obtains w where "sim_reach server_example w" and "srv_status (servers w 0) = EXECUTING" and "globTime w = 9"
    and "cbs_d (servers w 0) = 25" and "eventQueue w = [BandExEvt 0]" and "\<not> cbs_HR (servers w 0)"
proof -
  obtain w' where step: "Simulation_sim_step doit server_example = Inr (9, w')" and w': "srv_status (servers w' 0) = EXECUTING"
    "globTime w' = 9" "cbs_d (servers w' 0) = 25" "eventQueue w' = [BandExEvt 0]" "\<not> cbs_HR (servers w' 0)" using server_example_step by blast
  have "sim_reach server_example (Simulation_setTime 9 w')" by (rule reach_step [OF reach_start step])
  then show thesis using that w' by (auto simp: Simulation_setTime_def)
qed

section \<open>Properties\<close>

text \<open>
  C2. Every server of a simulation is a constant bandwidth server: from a state in which the server is ready to
  run, whatever tasks, kernels, resources and other servers do and in whatever order the events are executed, each
  of its states is reached from the first by steps of the abstract machine of \<open>CBS_Spec\<close>, with the
  budget, period and reservation it was constructed with.
\<close>

theorem simulation_refines_cbs:
  assumes "cbs_start S w0" and "s \<in> S"
    and "sim_reach w0 w \<or> Simulation_main_cycle doit endTick w0 = Some (Inr w)"
  shows "cbs_steps (cbs_Q (servers w0 s)) (cbs_P (servers w0 s)) (cbs_HR (servers w0 s)) (cbs_view s w0) (cbs_view s w)"
  using assms(3)
proof (elim disjE)
  assume "Simulation_main_cycle doit endTick w0 = Some (Inr w)"
  from main_cycle_reach [OF this] show ?thesis by (rule reachable_start(1) [OF assms(1) _ assms(2)])
qed (rule reachable_start(1) [OF assms(1) _ assms(2)])

theorem simulation_refines_cbs_witness:
  "\<exists>w. cbs_steps 4 10 False (cbs_view 0 server_example) (cbs_view 0 w) \<and> cbs_view 0 server_example \<noteq> cbs_view 0 w"
proof -
  obtain w where reach: "sim_reach server_example w" and q: "eventQueue w = [BandExEvt 0]"
    by (rule server_example_reach)
  have "cbs_Q (servers server_example 0) = 4" "cbs_P (servers server_example 0) = 10" "\<not> cbs_HR (servers server_example 0)"
    by (simp_all add: server_eval)
  with simulation_refines_cbs [OF server_example_start, of 0 w] reach
  have "cbs_steps 4 10 False (cbs_view 0 server_example) (cbs_view 0 w)" by simp
  moreover have "a_repl (cbs_view 0 server_example) = Some 9" "a_repl (cbs_view 0 w) = None"
    using q by (simp_all add: cbs_view_def timers_def posted_at_def server_example_engine)
  ultimately show ?thesis by (intro exI [of _ w]) auto
qed

text \<open>
  C4. In every reachable state the budget a server has left, less what it has used since it started to execute, is
  between zero and \<open>Q\<close>, its virtual time is not after its deadline, and a hard server is at most one
  period ahead of the clock.
\<close>

theorem reachable_cbs_budget:
  assumes "cbs_start S w0" and "s \<in> S" and "sim_reach w0 w" and "srv_status (servers w s) \<noteq> IDLE"
  shows "(if srv_status (servers w s) = EXECUTING
      then globTime w - cbs_last_time (servers w s) \<in> {0 .. cbs_cap (servers w s)} \<and> cbs_cap (servers w s) \<le> cbs_Q (servers w s)
      else cbs_cap (servers w s) \<in> {0 .. cbs_Q (servers w s)}) \<and>
    CBServer_getVirtualTime s w \<le> of_int (if cbs_HR (servers w s)
      then min (cbs_d (servers w s)) (globTime w + cbs_P (servers w s)) else cbs_d (servers w s))"
    (is "?budget \<and> _")
proof
  let ?x = "servers w s"
  have ready: "cbs_ready_at s w" by (rule reachable_start(2) [OF assms(1,3,2)])
  then have good: "cbs_good (cbs_Q ?x) (cbs_P ?x) (cbs_HR ?x) (cbs_view s w)" and pos: "0 < cbs_Q ?x" "0 < cbs_P ?x"
    by (auto simp: cbs_ready_at_def coupled_def)
  have view: "a_status (cbs_view s w) \<noteq> IDLE" using assms(4) by (simp add: cbs_view_def)
  from good show ?budget using assms(4) by (auto simp: cbs_good_def cbs_view_def)
  show "CBServer_getVirtualTime s w \<le> of_int (if cbs_HR ?x then min (cbs_d ?x) (globTime w + cbs_P ?x) else cbs_d ?x)"
    using cbs_vtime_bounds [OF good view pos] coupled_vtime [OF ready assms(4)]
    by (auto simp: cbs_view_def min_def)
qed

theorem reachable_cbs_budget_witness:
  "\<exists>w. sim_reach server_example w \<and> srv_status (servers w 0) = EXECUTING \<and> CBServer_getVirtualTime 0 w \<le> 25"
proof -
  obtain w where "sim_reach server_example w" "srv_status (servers w 0) = EXECUTING" "cbs_d (servers w 0) = 25" "\<not> cbs_HR (servers w 0)"
    by (rule server_example_reach)
  with reachable_cbs_budget [OF server_example_start, of 0 w] show ?thesis by (intro exI [of _ w]) simp
qed

end
