(* ===== verification/ProgramStart.thy ===== *)
theory ProgramStart
  imports MainProgram_Laws ProgramNames Program_Servers
begin

text \<open>
  What the run of a program starts from: \<open>program_start\<close> is the state after \<open>callNewRun\<close>.  It satisfies what the
  properties of the kernels, the tasks and the servers assume.
\<close>

definition program_start :: "rtprogram \<Rightarrow> exc + world" where
  "program_start p = Simulation_initSingleRun (entity_hooks (system_entities p))
     ((Simulation_initRuns ((sys_world p)\<lparr>numRuns := 1\<rparr>))\<lparr>actRuns := 0\<rparr>)"

lemma main_run_start:
  "main_run opts p = (case stoi (opt_duration opts) of
     Inl e \<Rightarrow> Some (exit_of (Inl e))
   | Inr duration \<Rightarrow> (case program_start p of Inl e \<Rightarrow> Some (exit_of (Inl e))
     | Inr w \<Rightarrow> map_option (\<lambda>r. exit_of (bindE r (\<lambda>w1. bindE (Simulation_endSingleRun (entity_hooks (system_entities p)) w1)
         (\<lambda>w2. Inr (w2\<lparr>actRuns := actRuns w2 + 1, sim_end := True\<rparr>))))) (Simulation_main_cycle doit duration w)))"
  by (auto simp: main_run_def Simulation_run_def run_parameters_def program_start_def entity_hooks_def pureE_def Simulation_initRuns_def
      numeral_eq_Suc split: sum.split option.split)

section \<open>Only arrivals are posted\<close>

definition arrivals_only :: "world \<Rightarrow> bool" where
  "arrivals_only w \<longleftrightarrow> at_time 0 w \<and> (\<forall>e\<in>set (eventQueue w). (\<exists>t. e = ArrEvt t) \<and> ev_time (evs w e) \<noteq> MAXTICK) \<and>
     (\<forall>e. e \<notin> set (eventQueue w) \<longrightarrow> evs w e = evt_ctor e) \<and>
     (\<forall>a\<in>set (eventQueue w). \<forall>b\<in>set (eventQueue w). a \<noteq> b \<longrightarrow> ev_order (evs w a) \<noteq> ev_order (evs w b))"

lemma post_order: "Event_post e t d w = Inr w' \<Longrightarrow> ev_order (evs w' e) = evCounter w"
  by (auto simp: Event_post_def Event_setTime_def Let_def bindE_eq_Inr split: if_splits prod.splits)

lemma arrivals_post:
  assumes "arrivals_only w" and "Event_post (ArrEvt t) x d w = Inr w'" and "x \<noteq> MAXTICK"
  shows "arrivals_only w'"
proof -
  let ?e = "ArrEvt t"
  have q: "set (eventQueue w') = insert ?e (set (eventQueue w))"
    using post_queue_subset [OF assms(2)] post_others(1) [OF assms(2)] post_done [OF assms(2)] by blast
  have "okr (at_time 0) (Event_post ?e x d w)" by (rule okr_post) (use assms(1) in \<open>simp add: arrivals_only_def\<close>)
  then have at: "at_time 0 w'" using assms(2) by simp
  note same = post_others(2) [OF assms(2)] and here = post_others(3) [OF assms(2)] post_order [OF assms(2)]
  have "at_time 0 w" using assms(1) by (simp add: arrivals_only_def)
  then have old: "ev_order (evs w a) < evCounter w" if "a \<in> set (eventQueue w)" for a
    using that by (auto simp: at_time_def event_ok_def dest: evq_inv_event)
  have notin: "?e \<notin> set (eventQueue w)"
    using assms(1,2) by (auto simp: arrivals_only_def at_time_def event_ok_def Event_post_def dest: evq_inv_event split: if_splits)
  have orders: "ev_order (evs w' a) \<noteq> ev_order (evs w' b)" if ab: "a \<in> set (eventQueue w')" "b \<in> set (eventQueue w')" "a \<noteq> b" for a b
  proof -
    consider "a = ?e" "b \<in> set (eventQueue w)" | "b = ?e" "a \<in> set (eventQueue w)" | "a \<in> set (eventQueue w)" "b \<in> set (eventQueue w)"
      using ab q by auto
    then show ?thesis
    proof cases
      case 1
      then show ?thesis using here(2) same [of b] old [of b] ab(3) by auto
    next
      case 2
      then show ?thesis using here(2) same [of a] old [of a] ab(3) by auto
    next
      case 3
      then have "a \<noteq> ?e" "b \<noteq> ?e" using notin by auto
      then show ?thesis using assms(1) 3 ab(3) same by (auto simp: arrivals_only_def)
    qed
  qed
  have times: "(\<exists>t. a = ArrEvt t) \<and> ev_time (evs w' a) \<noteq> MAXTICK" if "a \<in> set (eventQueue w')" for a
    using that assms(1,3) here(1) same [of a] by (cases "a = ?e") (auto simp: q arrivals_only_def)
  have "evs w' a = evt_ctor a" if "a \<notin> set (eventQueue w')" for a
    using that assms(1) same [of a] by (auto simp: q arrivals_only_def)
  with at times orders show ?thesis by (auto simp: arrivals_only_def)
qed

lemma arrivals_cong:
  "arrivals_only w \<Longrightarrow> eventQueue w' = eventQueue w \<Longrightarrow> globTime w' = globTime w \<Longrightarrow> evCounter w' = evCounter w \<Longrightarrow> evs w' = evs w \<Longrightarrow>
   arrivals_only w'"
  using at_time_cong [of w' w 0] by (simp add: arrivals_only_def)

lemma arrivals_ordered:
  assumes "arrivals_only w" and "eventQueue w \<noteq> []"
  shows "ordered 0 w"
proof -
  have at: "at_time 0 w" using assms(1) by (simp add: arrivals_only_def)
  have old: "ev_order (evs w a) < evCounter w" if "a \<in> set (eventQueue w)" for a
    using that at by (auto simp: at_time_def event_ok_def dest: evq_inv_event)
  have "hd (eventQueue w) \<in> set (eventQueue w)" using assms(2) by simp
  from old [OF this] have pos: "0 < evCounter w" by simp
  have out: "ev_order (evs w e) = 0 \<and> ev_time (evs w e) = MAXTICK" if "e \<notin> set (eventQueue w)" for e
    using assms(1) that by (simp add: arrivals_only_def evt_ctor_fields)
  have "ev_order (evs w e) < evCounter w" for e using old out pos by (cases "e \<in> set (eventQueue w)") auto
  moreover have "apart (evs w e) (evs w b)" if "b \<in> set (eventQueue w)" "e \<noteq> b" for e b
    using assms(1) that out [of e] by (cases "e \<in> set (eventQueue w)") (auto simp: apart_def arrivals_only_def)
  ultimately show ?thesis using at by (simp add: ordered_def)
qed

section \<open>The start of every entity\<close>

text \<open>While \<open>callNewRun\<close> visits the entities; \<open>ph\<close> are the phases of the tasks, \<open>par\<close> the parameters of the servers.\<close>

definition tk_params :: "task \<Rightarrow> tick \<times> randvar option" where "tk_params k = (phase k, int_time k)"

definition starting :: "(nat \<Rightarrow> tick \<times> randvar option) \<Rightarrow> (nat \<Rightarrow> tick \<times> tick \<times> bool) \<Rightarrow> world \<Rightarrow> bool" where
  "starting ph par w \<longleftrightarrow> arrivals_only w \<and> (\<forall>k. fresh_mrt (mrtks w k)) \<and> (\<forall>i. fresh_server (servers w i)) \<and>
     (\<forall>t. tk_params (tasks w t) = ph t) \<and> (\<forall>i. srv_params (servers w i) = par i)"

lemma starting_upd [simp]:
  "(\<And>x. tk_params (f x) = tk_params x) \<Longrightarrow> starting ph par w \<Longrightarrow> starting ph par (upd_task t f w)"
  "starting ph par w \<Longrightarrow> starting ph par (upd_rtk k fk w)" "starting ph par w \<Longrightarrow> starting ph par (upd_sched n fc w)"
  "starting ph par w \<Longrightarrow> starting ph par (upd_resman m fm w)" "starting ph par w \<Longrightarrow> starting ph par (upd_cpu c fp w)"
  "(\<And>x. fresh_server x \<Longrightarrow> fresh_server (fs x) \<and> srv_params (fs x) = srv_params x) \<Longrightarrow> starting ph par w \<Longrightarrow>
     starting ph par (upd_server i fs w)"
  "(\<And>x. fresh_mrt x \<Longrightarrow> fresh_mrt (fx x)) \<Longrightarrow> starting ph par w \<Longrightarrow> starting ph par (upd_mrtk k fx w)"
  by (auto simp: starting_def upd_defs intro: arrivals_cong)

lemma starting_clear_cpus: "MRTKernel_clear_cpus k cs w = Inr w' \<Longrightarrow> starting ph par w \<Longrightarrow> starting ph par w'"
proof (induction cs arbitrary: w)
  case (Cons c cs)
  have none: "mk_currExe (mrtks w k) c = None" using Cons.prems(2) by (simp add: starting_def fresh_mrt_def)
  have "starting ph par (upd_mrtk k (\<lambda>x. x\<lparr>mk_currExe := (mk_currExe x)(c := None)\<rparr>) w)"
    by (rule starting_upd(7) [OF _ Cons.prems(2)]) (auto simp: fresh_mrt_def)
  then show ?case using Cons.IH Cons.prems(1) none by (simp add: fun_upd_def)
qed simp

lemma starting_post:
  assumes "starting ph par w" and "Event_post (ArrEvt t) x d w = Inr w'" and "x \<noteq> MAXTICK"
  shows "starting ph par w'"
proof -
  have "tasks w' = tasks w" "mrtks w' = mrtks w" "servers w' = servers w"
    using post_objects [OF assms(2)] by (simp_all add: same_objects_def)
  with assms(1) arrivals_post [OF _ assms(2,3)] show ?thesis by (simp add: starting_def)
qed

lemma starting_Task_newRun:
  assumes "Task_newRun t w = Inr w'" and "starting ph par w" and "fst (ph t) \<noteq> MAXTICK"
  shows "starting ph par w'"
proof -
  let ?w1 = "upd_task t (\<lambda>k. k\<lparr>actInstr := 0, tstate := TSK_IDLE, arrQueue := [], lastArrival := phase k, arrival := phase k\<rparr>) w"
  have w1: "starting ph par ?w1" using assms(2) by (simp add: tk_params_def)
  obtain w2 where w2: "(if int_time (tasks ?w1 t) \<noteq> None then Event_post (ArrEvt t) (arrival (tasks ?w1 t)) False ?w1 else Inr ?w1) = Inr w2"
    and w': "w' = upd_task t (\<lambda>k. k\<lparr>dl := 0\<rparr>) w2"
    using assms(1) by (auto simp: Task_newRun_def Let_def bindE_eq_Inr split: if_splits)
  have "fst (tk_params (tasks w t)) \<noteq> MAXTICK" using assms(2,3) by (simp add: starting_def)
  then have "arrival (tasks ?w1 t) \<noteq> MAXTICK" by (simp add: tk_params_def)
  then have "starting ph par w2" using w2 w1 starting_post by (auto split: if_splits)
  then show ?thesis by (simp add: w' tk_params_def)
qed

lemma starting_entity:
  assumes "entity_newRun x w = Inr w'" and "starting ph par w" and "\<And>t. fst (ph t) \<noteq> MAXTICK \<or> x \<noteq> TaskEnt t"
  shows "starting ph par w'"
proof (cases x)
  case (TaskEnt t)
  then show ?thesis using assms(1,2) assms(3) [of t] starting_Task_newRun by (simp add: entity_newRun_def)
next
  case (MRTKernelEnt k)
  have clear: "starting ph par (upd_mrtk k (\<lambda>x. x\<lparr>mk_dispatched := \<lambda>_. None, mk_oldExe := \<lambda>_. None\<rparr>) v)" if "starting ph par v" for v
    by (rule starting_upd(7) [OF _ that]) (simp add: fresh_mrt_def)
  show ?thesis using assms(1,2) MRTKernelEnt
    by (auto simp: entity_newRun_def MRTKernel_newRun_def bindE_eq_Inr intro!: clear dest!: starting_clear_cpus)
next
  case (CBServerEnt i)
  have st: "ct_status (cbs_vtime (servers w i)) = STOPPED" "cbs_vtime (servers w i) = CapacityTimer_ctor"
    using assms(2) by (auto simp: starting_def fresh_server_def CapacityTimer_ctor_def)
  let ?w1 = "upd_server i (\<lambda>x. x\<lparr>cbs_cap := cbs_Q x, cbs_last_time := 0, srv_status := IDLE\<rparr>) w"
  have "starting ph par ?w1" by (rule starting_upd(6) [OF _ assms(2)]) (simp add: fresh_server_def srv_params_def)
  then have "starting ph par (upd_server i (\<lambda>x. x\<lparr>cbs_vtime := CapacityTimer_ctor\<rparr>) ?w1)"
    by (rule starting_upd(6) [rotated]) (simp add: fresh_server_def srv_params_def)
  then show ?thesis using assms(1) st CBServerEnt
    by (simp add: entity_newRun_def CBServer_newRun_def with_vtime_def CapacityTimer_set_value_def CapacityTimer_ctor_def upd_server_def)
next
  case (CapacityTimerEnt i)
  have "starting ph par (upd_server i (\<lambda>x. x\<lparr>cbs_vtime := cbs_vtime x\<lparr>ct_status := STOPPED, ct_value := 0, ct_der := 1\<rparr>\<rparr>) w)"
    by (rule starting_upd(6) [OF _ assms(2)]) (simp add: fresh_server_def srv_params_def CapacityTimer_ctor_def)
  then show ?thesis using assms(1) CapacityTimerEnt by (auto simp: entity_newRun_def CapacityTimer_newRun_def)
qed (use assms(1,2) in \<open>auto simp: entity_newRun_def upd_instr_def RTKernel_newRun_def Scheduler_newRun_def FCFSResManager_newRun_def
      upd_resource_def CPU_setWorkload_def fresh_server_def srv_params_def CapacityTimer_newRun_def CapacityTimer_ctor_def tk_params_def split: if_splits\<close>)

lemma starting_callNewRun:
  "callNewRun es w = Inr w' \<Longrightarrow> starting ph par w \<Longrightarrow> (\<And>t. TaskEnt t \<in> set es \<Longrightarrow> fst (ph t) \<noteq> MAXTICK) \<Longrightarrow> starting ph par w'"
proof (induction es arbitrary: w)
  case (Cons x es)
  then obtain v where v: "entity_newRun x w = Inr v" and rest: "callNewRun es v = Inr w'"
    by (auto simp: callNewRun_def bindE_eq_Inr)
  have "fst (ph t) \<noteq> MAXTICK \<or> x \<noteq> TaskEnt t" for t using Cons.prems(3) [of t] by auto
  from starting_entity [OF v Cons.prems(2) this] show ?case using Cons.IH [OF rest] Cons.prems(3) by simp
qed (simp add: callNewRun_def)

section \<open>The start of a run\<close>

lemma fresh_starting:
  assumes "fresh w"
  shows "starting (\<lambda>t. tk_params (tasks w t)) (\<lambda>i. srv_params (servers w i)) w"
  using assms by (simp add: starting_def fresh_def arrivals_only_def at_time_def evq_inv_def)

lemma program_start_starting:
  assumes "setup_ok {} p" and "prog_names p" and "program_start p = Inr w"
    and "\<And>t. t < prog_tasks p \<Longrightarrow> phase (tasks (sys_world p) t) \<noteq> MAXTICK"
  shows "starting (\<lambda>t. tk_params (tasks (sys_world p) t)) (\<lambda>i. srv_params (servers (sys_world p) i)) w"
    and "callNewRun (system_entities p) ((sys_world p)\<lparr>numRuns := 1, sim_end := False, actRuns := 0, globTime := 0\<rparr>) = Inr w"
proof -
  let ?w0 = "(sys_world p)\<lparr>numRuns := 1, sim_end := False, actRuns := 0, globTime := 0\<rparr>"
  show run: "callNewRun (system_entities p) ?w0 = Inr w"
    using assms(3) by (simp add: program_start_def Simulation_initSingleRun_def Simulation_initRuns_def Simulation_setTime_def entity_hooks_def
        pureE_def bindE_eq_Inr)
  have "fresh ?w0" using assms(1) by (simp add: setup_ok_def wired_but_def fresh_def)
  from starting_callNewRun [OF run fresh_starting [OF this]] assms(4) program_entities(4) [OF assms(2)]
  show "starting (\<lambda>t. tk_params (tasks (sys_world p) t)) (\<lambda>i. srv_params (servers (sys_world p) i)) w" by (simp add: tk_params_def)
qed

lemma starting_mrt_sys: "starting ph par w \<Longrightarrow> mrt_sys k w"
  by (auto simp: starting_def arrivals_only_def mrt_sys_def mrt_inv_def mrt_ok_def fresh_mrt_def)

lemma starting_ready_at:
  assumes "starting ph par w" and "0 < cbs_Q (servers w i)" and "0 < cbs_P (servers w i)"
  shows "cbs_ready_at i w"
proof -
  have none: "e \<notin> set (eventQueue w)" if "\<And>t. e \<noteq> ArrEvt t" for e using assms(1) that by (fastforce simp: starting_def arrivals_only_def)
  have same: "evs w e = evt_ctor e" if "\<And>t. e \<noteq> ArrEvt t" for e using assms(1) none [OF that] by (simp add: starting_def arrivals_only_def)
  have "fresh_server (servers w i)" using assms(1) by (simp add: starting_def)
  then show ?thesis using assms(2,3)
    by (simp add: cbs_ready_at_def coupled_def fresh_server_def CapacityTimer_ctor_def cbs_good_def cbs_view_def view_of_def timers_def
        posted_at_def none static_prios_def prios_def priorities_def lasting_def same evt_ctor_def Event_ctor_def)
qed

text \<open>The start of a run of a program that was set up.\<close>

lemma start_ready:
  assumes "main_setup ex pe fe opts = Some (Inr p)" and "program_start p = Inr w"
    and "0 < prog_tasks p" and "\<And>t. t < prog_tasks p \<Longrightarrow> phase (tasks (sys_world p) t) \<noteq> MAXTICK"
  shows start_kernels: "mrt_sys k w"
    and start_tasks: "\<forall>t<prog_tasks p. started t w \<and> ArrEvt t \<in> set (eventQueue w)"
    and start_servers: "cbs_start {i. i < prog_servers p \<and> 0 < cbs_Q (servers w i) \<and> 0 < cbs_P (servers w i)} w"
    and start_params: "srv_params (servers w i) = srv_params (servers (sys_world p) i)"
proof -
  note ok = main_setup_ok [OF assms(1)] and names = main_setup_names [OF assms(1)]
  note start = program_start_starting [OF ok names assms(2,4)]
  show "srv_params (servers w i) = srv_params (servers (sys_world p) i)" using start(1) by (simp add: starting_def)
  show "mrt_sys k w" by (rule starting_mrt_sys [OF start(1)])
  have started: "started t w" if "t < prog_tasks p" for t
    using callNewRun_started [OF start(2), of t] program_entities(1,2) [OF names] that by blast
  have int: "int_time (tasks w t) \<noteq> None" if "t < prog_tasks p" for t
    using start(1) ok that by (auto simp: starting_def tk_params_def setup_ok_def pending_def)
  have arr: "ArrEvt t \<in> set (eventQueue w)" if "t < prog_tasks p" for t
    using started [OF that] int [OF that] by (simp add: started_def)
  with started show "\<forall>t<prog_tasks p. started t w \<and> ArrEvt t \<in> set (eventQueue w)" by blast
  have only: "arrivals_only w" using start(1) by (simp add: starting_def)
  have "eventQueue w \<noteq> []" using arr [OF assms(3)] by auto
  from arrivals_ordered [OF only this] have "ordered (globTime w) w"
    using ordered_now by fastforce
  then show "cbs_start {i. i < prog_servers p \<and> 0 < cbs_Q (servers w i) \<and> 0 < cbs_P (servers w i)} w"
    using starting_ready_at [OF start(1)] by (simp add: cbs_start_def)
qed

end
