(* ===== verification/Yaml_Laws.thy ===== *)
theory Yaml_Laws
  imports Yaml
begin

text \<open>
  Documents as the configurations of the repository are written, their lines, and the round trip: the parser returns the
  object of every document it is given the text of.
\<close>

section \<open>Documents\<close>

datatype ydoc = YScalar string | YFlow "string list" | YSeq "ydoc list" | YMap "(string \<times> ydoc) list"

fun obj_of :: "ydoc \<Rightarrow> yobj" where
  "obj_of (YScalar s) = YObj Scalar s [] (\<lambda>_. None)"
| "obj_of (YFlow ss) = YObj Sequence [] (map (\<lambda>s. YObj Scalar s [] (\<lambda>_. None)) ss) (\<lambda>_. None)"
| "obj_of (YSeq xs) = YObj Sequence [] (map obj_of xs) (\<lambda>_. None)"
| "obj_of (YMap kvs) = YObj Attributes [] [] (map_of (map (\<lambda>(k, v). (k, obj_of v)) kvs))"

text \<open>An element of a sequence begins on the line of its dash; an attribute with a simple value is one line.\<close>

definition item :: "nat \<Rightarrow> string list \<Rightarrow> string list" where
  "item n ls = (spaces n @ ''- '' @ drop (n + 2) (hd ls)) # tl ls"

definition entry :: "nat \<Rightarrow> string \<Rightarrow> bool \<Rightarrow> string list \<Rightarrow> string list" where
  "entry n k inline ls =
    (if inline then (spaces n @ k @ '': '' @ drop (n + 2) (hd ls)) # tl ls else (spaces n @ k @ '':'') # ls)"

fun simple :: "ydoc \<Rightarrow> bool" where
  "simple (YScalar s) = True" | "simple (YFlow ss) = True" | "simple _ = False"

fun flow_text :: "string list \<Rightarrow> string" where
  "flow_text [] = '']''"
| "flow_text (s # ss) = '', '' @ s @ flow_text ss"

fun ylines :: "nat \<Rightarrow> ydoc \<Rightarrow> string list" where
  "ylines n (YScalar s) = [spaces n @ s]"
| "ylines n (YFlow ss) = [spaces n @ CHR ''['' # hd ss @ flow_text (tl ss)]"
| "ylines n (YSeq xs) = concat (map (\<lambda>x. item n (ylines (n + 2) x)) xs)"
| "ylines n (YMap kvs) = concat (map (\<lambda>(k, v). entry n k (simple v) (ylines (n + 2) v)) kvs)"

definition ytext :: "string list \<Rightarrow> string" where
  "ytext ls = concat (map (\<lambda>l. l @ [newline]) ls)"

text \<open>The scalars and the names of attributes that can be written.\<close>

definition plain_char :: "char \<Rightarrow> bool" where
  "plain_char c \<longleftrightarrow> c \<notin> {newline, CHR 0x09, CHR ''#''}"

definition word :: "string \<Rightarrow> bool" where
  "word s \<longleftrightarrow> s \<noteq> [] \<and> (\<forall>c\<in>set s. plain_char c \<and> c \<noteq> CHR '':'') \<and> nonblank (hd s) \<and> nonblank (last s) \<and>
     hd s \<noteq> CHR ''-'' \<and> hd s \<noteq> CHR ''[''"

definition flow_word :: "string \<Rightarrow> bool" where
  "flow_word s \<longleftrightarrow> word s \<and> CHR '','' \<notin> set s \<and> CHR '']'' \<notin> set s"

fun writable :: "ydoc \<Rightarrow> bool" where
  "writable (YScalar s) = word s"
| "writable (YFlow ss) = (ss \<noteq> [] \<and> (\<forall>s\<in>set ss. flow_word s))"
| "writable (YSeq xs) = (xs \<noteq> [] \<and> (\<forall>x\<in>set xs. writable x))"
| "writable (YMap kvs) = (kvs \<noteq> [] \<and> distinct (map fst kvs) \<and> (\<forall>(k, v)\<in>set kvs. word k \<and> writable v))"

section \<open>Lines\<close>

definition clean :: "string \<Rightarrow> bool" where
  "clean l \<longleftrightarrow> (\<forall>c\<in>set l. plain_char c)"

text \<open>A line with content at the indentation \<open>n\<close>.\<close>

definition line_at :: "nat \<Rightarrow> string \<Rightarrow> bool" where
  "line_at n l \<longleftrightarrow> clean l \<and> (\<exists>c cs. l = spaces n @ c # cs \<and> nonblank c \<and> nonblank (last (c # cs)))"

definition stream :: "string list \<Rightarrow> istream" where
  "stream ls = \<lparr>is_rest = ytext ls, is_failed = False\<rparr>"

lemma clean_simps [simp]:
  "clean (a @ b) \<longleftrightarrow> clean a \<and> clean b" "clean (c # a) \<longleftrightarrow> plain_char c \<and> clean a" "clean []" "clean (spaces n)"
  by (auto simp: clean_def spaces_def plain_char_def newline_def)

lemma takeWhile_all: "\<forall>c\<in>set a. P c \<Longrightarrow> takeWhile P (a @ b) = a @ takeWhile P b"
  by (rule takeWhile_append2) simp

lemma getline_stream:
  assumes "clean l"
  shows "std_getline (stream (l # ls)) = (l, stream ls)"
proof -
  have "\<forall>c\<in>set l. c \<noteq> newline" using assms by (auto simp: clean_def plain_char_def)
  then have "takeWhile (\<lambda>c. c \<noteq> newline) (l @ newline # ytext ls) = l"
    "dropWhile (\<lambda>c. c \<noteq> newline) (l @ newline # ytext ls) = newline # ytext ls"
    by (simp_all add: takeWhile_append2 dropWhile_append2)
  then show ?thesis by (simp add: std_getline_def stream_def ytext_def)
qed

lemma getline_end: "std_getline (stream []) = ([], \<lparr>is_rest = [], is_failed = True\<rparr>)"
  and getline_failed: "std_getline \<lparr>is_rest = [], is_failed = True\<rparr> = ([], \<lparr>is_rest = [], is_failed = True\<rparr>)"
  by (simp_all add: std_getline_def stream_def ytext_def)

lemma clean_line:
  assumes "clean l"
  shows "contains_forbidden_characters l = False" and "uncomment l = l"
  using assms by (auto simp: contains_forbidden_characters_def uncomment_def clean_def plain_char_def takeWhile_eq_all_conv)

lemma blank_spaces: "\<forall>c\<in>set (spaces n). \<not> nonblank c"
  by (simp add: spaces_def nonblank_def)

lemma first_nonblank: "nonblank c \<Longrightarrow> first_non_whitespace (spaces n @ c # cs) = Some n"
  using blank_spaces [of n]
  by (simp add: first_non_whitespace_def find_first_def Let_def takeWhile_append2) (simp add: spaces_def)

lemma first_nonblank_spaces: "first_non_whitespace (spaces n) = None"
proof -
  have all: "takeWhile (\<lambda>c. \<not> nonblank c) (spaces n) = spaces n" using blank_spaces by (simp add: takeWhile_eq_all_conv)
  show ?thesis unfolding first_non_whitespace_def find_first_def Let_def all by simp
qed

lemma ytrim_line:
  assumes "nonblank c" and "nonblank (last (c # cs))"
  shows "ytrim (spaces n @ c # cs) = c # cs"
proof -
  have "dropWhile (\<lambda>c. \<not> nonblank c) (spaces n @ c # cs) = c # cs"
    using blank_spaces [of n] assms(1) by (simp add: dropWhile_append2)
  moreover have "dropWhile (\<lambda>c. \<not> nonblank c) (rev (c # cs)) = rev (c # cs)"
  proof -
    have "hd (rev (c # cs)) = last (c # cs)" "rev (c # cs) \<noteq> []" by (simp_all only: hd_rev) simp
    with assms(2) show ?thesis by (metis dropWhile.simps(2) list.collapse)
  qed
  ultimately show ?thesis by (simp add: ytrim_def)
qed

lemma ytrim_word: "word s \<Longrightarrow> ytrim s = s"
  using ytrim_line [of "hd s" "tl s" 0] by (simp add: word_def spaces_def)

lemma spaces_add: "spaces n @ CHR '' '' # s = spaces (n + 1) @ s"
  by (simp add: spaces_def replicate_append_same flip: replicate_app_Cons_same)

section \<open>One step of the parser\<close>

text \<open>The line left over and the stream after an object whose text was followed by the lines \<open>R\<close>.\<close>

definition resumes :: "string \<Rightarrow> istream \<Rightarrow> string list \<Rightarrow> bool" where
  "resumes line i R \<longleftrightarrow> (\<exists>n. line = spaces (Suc n) \<and> i = stream R) \<or> (\<exists>R'. R = line # R' \<and> line \<noteq> [] \<and> i = stream R') \<or>
     (line = [] \<and> R = [] \<and> i = \<lparr>is_rest = [], is_failed = True\<rparr>)"

lemma not_failed [simp]: "is_failed (stream R) = False"
  by (simp add: stream_def)

lemma line_irrelevant: "parse_loop b inc True trad root l i = parse_loop b inc True trad root l' i"
  by (subst (1 2) parse_loop.simps) (simp add: Parser_getline_def)

lemma blank_line: "parse_loop b inc False trad root (spaces n) (stream R) = parse_loop b inc True trad root l (stream R)"
proof -
  have "parse_loop b inc False trad root (spaces n) (stream R) = parse_loop b inc True trad root (spaces n) (stream R)"
    by (subst parse_loop.simps) (simp add: Parser_getline_def clean_line first_nonblank_spaces)
  then show ?thesis by (simp only: line_irrelevant)
qed

lemma line_left: "clean r \<Longrightarrow> parse_loop b inc False trad root r (stream R) = parse_loop b inc True trad root l (stream (r # R))"
  by (subst (1 2) parse_loop.simps) (simp add: Parser_getline_def getline_stream)

lemma resumes_loop:
  assumes "resumes line i R" and "list_all clean R"
  shows "parse_loop b inc (line = []) trad root (if line = [] then l else line) i = parse_loop b inc True trad root l' (stream R)"
proof -
  consider n where "line = spaces (Suc n)" "i = stream R" | R' where "R = line # R'" "line \<noteq> []" "i = stream R'"
    | "line = []" "R = []" "i = \<lparr>is_rest = [], is_failed = True\<rparr>"
    using assms(1) by (auto simp: resumes_def)
  then show ?thesis
  proof cases
    case 1
    then have "line \<noteq> []" by (simp add: spaces_def)
    then show ?thesis using 1 blank_line by simp
  next
    case 2
    then show ?thesis using line_left assms(2) by simp
  next
    case 3
    then show ?thesis by (subst (1 2) parse_loop.simps) (simp add: Parser_getline_def getline_end getline_failed)
  qed
qed

section \<open>Sequences in brackets\<close>

lemma cut_scalar_word:
  assumes "flow_word s" and "c = CHR '']'' \<or> c = CHR '',''"
  shows "cut_scalar (s @ c # rest) n = (s, length s)"
proof -
  have none: "\<forall>d\<in>set s. \<not> (d = CHR '']'' \<or> d = CHR '','')" using assms(1) by (auto simp: flow_word_def)
  have "find_first (\<lambda>c. c = CHR '']'' \<or> c = CHR '','') (s @ c # rest) = Some (length s)"
    using none assms(2) by (auto simp: find_first_def Let_def takeWhile_append2)
  moreover have "find_first (\<lambda>c. c = CHR '']'' \<or> c = CHR '','') s = None"
    using none by (auto simp: find_first_def Let_def takeWhile_eq_all_conv [THEN iffD2])
  moreover have "ytrim s = s" using assms(1) by (simp add: flow_word_def ytrim_word)
  ultimately show ?thesis by (subst cut_scalar.simps, simp, subst cut_scalar.simps, simp)
qed

lemma word_end: "word s \<Longrightarrow> nonblank (last s)" and word_hd: "word s \<Longrightarrow> nonblank (hd s) \<and> hd s \<noteq> CHR ''-'' \<and> hd s \<noteq> CHR ''[''"
  and word_ne: "word s \<Longrightarrow> s \<noteq> []" and word_clean: "word s \<Longrightarrow> clean s"
  and word_no_colon: "word s \<Longrightarrow> CHR '':'' \<notin> set s"
  by (auto simp: word_def clean_def)

text \<open>A scalar inside brackets: what follows it is left over.\<close>

lemma flow_scalar:
  assumes "flow_word s" and "c = CHR '']'' \<or> c = CHR '',''" and "clean rest" and "nonblank (last (c # rest))"
    and "CHR '':'' \<notin> set (c # rest)"
  shows "parse_loop b False False True Object (spaces k @ s @ c # rest) (stream R) =
    Some (Inr (YObj Scalar s [] (\<lambda>_. None), spaces (b + 1) @ c # rest, stream R))"
proof -
  have w: "word s" using assms(1) by (simp add: flow_word_def)
  obtain d ds where s: "s = d # ds" using word_ne [OF w] by (cases s) auto
  have d: "nonblank d" "d \<noteq> CHR ''-''" "d \<noteq> CHR ''[''" using word_hd [OF w] s by simp_all
  have clean: "clean (spaces k @ s @ c # rest)" using word_clean [OF w] assms(2,3) by (auto simp: plain_char_def newline_def)
  note l = clean_line [OF clean] 
  have f: "first_non_whitespace (spaces k @ s @ c # rest) = Some k" using first_nonblank [OF d(1)] s by simp
  have t: "ytrim (spaces k @ s @ c # rest) = s @ c # rest"
    using ytrim_line [OF d(1), of "ds @ c # rest" k] assms(4) s by simp
  have "CHR '':'' \<notin> set (s @ c # rest)" using word_no_colon [OF w] assms(5) by auto
  then have "begin_object (s @ c # rest) True Object = Inr (Object_of_type Scalar, True)"
    using d s by (simp add: begin_object_def defined_def Object_def setType_def Object_of_type_def)
  then show ?thesis
    using cut_scalar_word [OF assms(1,2)]
    by (subst parse_loop.simps) (simp add: Parser_getline_def l f t Object_of_type_def assign_scalar_def)
qed

lemma flow_text_facts:
  assumes "\<forall>s\<in>set ss. flow_word s"
  obtains c rest where "flow_text ss = c # rest" and "c = CHR '']'' \<or> c = CHR '',''" and "clean rest"
    and "last (c # rest) = CHR '']''" and "CHR '':'' \<notin> set (c # rest)"
proof -
  have "clean (flow_text ss) \<and> last (flow_text ss) = CHR '']'' \<and> CHR '':'' \<notin> set (flow_text ss) \<and> flow_text ss \<noteq> []"
    using assms by (induction ss) (auto simp: plain_char_def newline_def flow_word_def word_clean word_no_colon)
  moreover obtain c rest where "flow_text ss = c # rest" by (cases ss) auto
  moreover from this have "c = CHR '']'' \<or> c = CHR '',''" by (cases ss) auto
  ultimately show ?thesis using that by auto
qed

lemma flow_rest:
  assumes "\<forall>s\<in>set ss. flow_word s"
  shows "parse_loop m inc False True (YObj Sequence [] acc (\<lambda>_. None)) (spaces k @ flow_text ss) (stream R) =
    Some (Inr (YObj Sequence [] (acc @ map (\<lambda>s. YObj Scalar s [] (\<lambda>_. None)) ss) (\<lambda>_. None), spaces (m + 1), stream R))"
  using assms
proof (induction ss arbitrary: acc k)
  case Nil
  have br: "nonblank (CHR '']'')" "clean '']''" by (simp_all add: nonblank_def plain_char_def newline_def)
  note l = clean_line [of "spaces k @ '']''"]
  have "first_non_whitespace (spaces k @ '']'') = Some k" "ytrim (spaces k @ '']'') = '']''"
    using first_nonblank [OF br(1), of k "[]"] ytrim_line [OF br(1), of "[]" k] br by simp_all
  then show ?case
    using l br by (subst parse_loop.simps) (simp add: Parser_getline_def begin_object_def defined_def)
next
  case (Cons s ss)
  have fl: "flow_word s" "\<forall>s\<in>set ss. flow_word s" using Cons.prems by simp_all
  then have w: "word s" by (simp add: flow_word_def)
  obtain c rest where c: "flow_text ss = c # rest" "c = CHR '']'' \<or> c = CHR '',''" "clean rest"
    "last (c # rest) = CHR '']''" "CHR '':'' \<notin> set (c # rest)"
    using flow_text_facts [OF fl(2)] .
  have co: "nonblank (CHR '','')" "nonblank (last (CHR '','' # CHR '' '' # s @ c # rest))" "nonblank (last (c # rest))"
    using c(4) by (simp_all add: nonblank_def)
  have clean: "clean (spaces k @ '', '' @ s @ c # rest)"
    using word_clean [OF w] c(2,3) by (auto simp: plain_char_def newline_def)
  note l = clean_line [OF clean]
  have f: "first_non_whitespace (spaces k @ '', '' @ s @ c # rest) = Some k"
    "ytrim (spaces k @ '', '' @ s @ c # rest) = '', '' @ s @ c # rest"
    using first_nonblank [OF co(1), of k] ytrim_line [OF co(1,2), of k] by simp_all
  have sub: "parse_loop (m + 1) False False True Object (spaces (m + 1) @ CHR '' '' # s @ c # rest) (stream R) =
      Some (Inr (YObj Scalar s [] (\<lambda>_. None), spaces (m + 2) @ c # rest, stream R))"
    unfolding spaces_add using flow_scalar [OF fl(1) c(2,3) co(3) c(5), of "m + 1" "m + 2" R] by simp
  have "parse_loop m inc False True (YObj Sequence [] acc (\<lambda>_. None)) (spaces k @ '', '' @ s @ c # rest) (stream R) =
      parse_loop m inc False True (YObj Sequence [] (acc @ [YObj Scalar s [] (\<lambda>_. None)]) (\<lambda>_. None))
        (spaces (m + 2) @ c # rest) (stream R)"
    using sub l f
    by (subst parse_loop.simps) (simp add: Parser_getline_def begin_object_def defined_def push_back_def setType_def)
  also have "\<dots> = Some (Inr (YObj Sequence [] ((acc @ [YObj Scalar s [] (\<lambda>_. None)]) @
      map (\<lambda>s. YObj Scalar s [] (\<lambda>_. None)) ss) (\<lambda>_. None), spaces (m + 1), stream R))"
    using Cons.IH [OF fl(2), of _ "m + 2"] by (simp only: c(1))
  finally show ?case by (simp add: c(1))
qed

text \<open>A whole sequence in brackets.\<close>

lemma flow_line:
  assumes "writable (YFlow ss)" and "b = m \<or> b < m \<and> \<not> inc"
  shows "parse_loop b inc True False Object l (stream ((spaces m @ CHR ''['' # hd ss @ flow_text (tl ss)) # R)) =
    Some (Inr (obj_of (YFlow ss), spaces (m + 1), stream R))"
proof -
  obtain s rs where ss: "ss = s # rs" "flow_word s" "\<forall>s\<in>set rs. flow_word s" using assms(1) by (cases ss) auto
  then have w: "word s" by (simp add: flow_word_def)
  obtain c rest where c: "flow_text rs = c # rest" "c = CHR '']'' \<or> c = CHR '',''" "clean rest"
    "last (c # rest) = CHR '']''" "CHR '':'' \<notin> set (c # rest)"
    using flow_text_facts [OF ss(3)] .
  let ?t = "CHR ''['' # s @ c # rest"
  have br: "nonblank (CHR ''['')" "nonblank (last ?t)" "nonblank (last (c # rest))" using c(4) by (simp_all add: nonblank_def)
  have clean: "clean (spaces m @ ?t)" using word_clean [OF w] c(2,3) by (auto simp: plain_char_def newline_def)
  note lf = clean_line [OF clean] getline_stream [OF clean, of R] first_nonblank [OF br(1), of m "s @ c # rest"]
    ytrim_line [OF br(1,2), of m]
  have sub: "parse_loop (m + 1) False False True Object (spaces (m + 1) @ s @ c # rest) (stream R) =
      Some (Inr (YObj Scalar s [] (\<lambda>_. None), spaces (m + 2) @ c # rest, stream R))"
    using flow_scalar [OF ss(2) c(2,3) br(3) c(5), of "m + 1" "m + 1" R] by simp
  have "parse_loop b inc True False Object l (stream ((spaces m @ ?t) # R)) =
      parse_loop m (inc \<or> b < m) False True (YObj Sequence [] [YObj Scalar s [] (\<lambda>_. None)] (\<lambda>_. None))
        (spaces (m + 2) @ c # rest) (stream R)"
    using sub lf assms(2)
    by (subst parse_loop.simps)
      (auto simp: Parser_getline_def begin_object_def defined_def push_back_def setType_def Object_def)
  also have "\<dots> = Some (Inr (YObj Sequence [] ([YObj Scalar s [] (\<lambda>_. None)] @
      map (\<lambda>s. YObj Scalar s [] (\<lambda>_. None)) rs) (\<lambda>_. None), spaces (m + 1), stream R))"
    using flow_rest [OF ss(3), of m _ _ "m + 2"] by (simp only: c(1))
  finally show ?thesis by (simp add: ss(1) c(1))
qed

section \<open>Documents in blocks\<close>

text \<open>The lines after an object at the indentation \<open>n\<close>: none, or the first of them is less indented.\<close>

definition followed :: "nat \<Rightarrow> string list \<Rightarrow> bool" where
  "followed n R \<longleftrightarrow> list_all clean R \<and> (R = [] \<or> (\<exists>k<n. line_at k (hd R)))"

text \<open>The loop for the object \<open>x\<close>, whose lines \<open>ls\<close> are at the indentation \<open>n\<close>, whatever follows.\<close>

definition reads :: "nat \<Rightarrow> string list \<Rightarrow> yobj \<Rightarrow> bool" where
  "reads n ls x \<longleftrightarrow> ls \<noteq> [] \<and> list_all clean ls \<and> line_at n (hd ls) \<and>
     (\<forall>b inc l R. (b = n \<or> b < n \<and> \<not> inc) \<longrightarrow> followed n R \<longrightarrow>
        (\<exists>left i. resumes left i R \<and> parse_loop b inc True False Object l (stream (ls @ R)) = Some (Inr (x, left, i))))"

lemma word_line_at: "word s \<Longrightarrow> line_at n (spaces n @ s)"
  using word_clean word_hd word_end word_ne unfolding line_at_def by (metis clean_simps(1,4) list.collapse)

lemma reads_scalar:
  assumes "word s"
  shows "reads n [spaces n @ s] (YObj Scalar s [] (\<lambda>_. None))"
proof -
  obtain c cs where s: "s = c # cs" using word_ne [OF assms] by (cases s) auto
  have c: "nonblank c" "c \<noteq> CHR ''-''" "c \<noteq> CHR ''[''" "nonblank (last (c # cs))"
    using word_hd [OF assms] word_end [OF assms] s by simp_all
  have "CHR '':'' \<notin> set s" using word_no_colon [OF assms] .
  then have kind: "begin_object s False Object = Inr (Object_of_type Scalar, False)"
    using c s by (simp add: begin_object_def defined_def Object_def setType_def Object_of_type_def)
  have clean: "clean (spaces n @ s)" using word_clean [OF assms] by simp
  have "parse_loop b inc True False Object l (stream ((spaces n @ s) # R)) =
      Some (Inr (YObj Scalar s [] (\<lambda>_. None), spaces (n + 1), stream R))"
    if "b = n \<or> b < n \<and> \<not> inc" for b inc l R
    using that kind clean_line [OF clean] getline_stream [OF clean, of R] first_nonblank [OF c(1), of n cs] ytrim_line [OF c(1,4), of n] s
    by (subst parse_loop.simps) (auto simp: Parser_getline_def Object_of_type_def assign_scalar_def)
  moreover have "resumes (spaces (n + 1)) (stream R) R" for R unfolding resumes_def by auto
  ultimately show ?thesis
    using word_line_at [OF assms] clean unfolding reads_def by fastforce
qed

lemma reads_flow:
  assumes "writable (YFlow ss)"
  shows "reads n (ylines n (YFlow ss)) (obj_of (YFlow ss))"
proof -
  let ?t = "CHR ''['' # hd ss @ flow_text (tl ss)"
  obtain s rs where ss: "ss = s # rs" "word s" "\<forall>s\<in>set rs. flow_word s" using assms by (cases ss) (auto simp: flow_word_def)
  obtain c rest where c: "flow_text rs = c # rest" "c = CHR '']'' \<or> c = CHR '',''" "clean rest"
    "last (c # rest) = CHR '']''" "CHR '':'' \<notin> set (c # rest)"
    using flow_text_facts [OF ss(3)] .
  have br: "nonblank (CHR ''['')" "nonblank (last ?t)" using ss(1) c(1,4) by (simp_all add: nonblank_def)
  have clean: "clean (spaces n @ ?t)" using ss(1) word_clean [OF ss(2)] c(1-3) by (auto simp: plain_char_def newline_def)
  then have "line_at n (spaces n @ ?t)" using br unfolding line_at_def by blast
  moreover have "resumes (spaces (n + 1)) (stream R) R" for R unfolding resumes_def by auto
  ultimately show ?thesis using clean flow_line [OF assms] unfolding reads_def by fastforce
qed

text \<open>The object that follows a dash or a colon on the same line.\<close>

lemma reads_inline:
  assumes "reads (n + 2) ls x" and "followed (n + 2) R"
  shows "\<exists>left i. resumes left i R \<and>
    parse_loop (n + 1) False False False Object (spaces (n + 1) @ CHR '' '' # drop (n + 2) (hd ls)) (stream (tl ls @ R)) =
      Some (Inr (x, left, i))"
proof -
  have first: "spaces (n + 1) @ CHR '' '' # drop (n + 2) (hd ls) = hd ls" and c: "clean (hd ls)" and ls: "hd ls # tl ls @ R = ls @ R"
    using assms(1) unfolding reads_def spaces_add by (auto simp: line_at_def spaces_def)
  show ?thesis
    unfolding first line_left [OF c, where l = "[]"] ls using assms unfolding reads_def by auto
qed

text \<open>The end of a block: the text ends or a line is less indented.\<close>

lemma line_facts:
  assumes "line_at k r"
  shows "clean r" and "first_non_whitespace r = Some k" and "r \<noteq> []"
  using assms first_nonblank unfolding line_at_def by auto

lemma block_end:
  assumes "followed n R"
  shows "\<exists>left i. resumes left i R \<and> parse_loop n inc True False root l (stream R) = Some (Inr (root, left, i))"
proof (cases R)
  case Nil
  have "parse_loop n inc True False root l (stream []) = Some (Inr (root, [], \<lparr>is_rest = [], is_failed = True\<rparr>))"
    by (subst parse_loop.simps) (simp add: Parser_getline_def getline_end)
  then show ?thesis using Nil by (auto simp: resumes_def)
next
  case (Cons r R')
  then obtain k where "k < n" "line_at k r" using assms by (auto simp: followed_def)
  then have "parse_loop n inc True False root l (stream (r # R')) = Some (Inr (root, r, stream R'))"
    using line_facts [of k r] clean_line [of r] getline_stream [of r R']
    by (subst parse_loop.simps) (simp add: Parser_getline_def)
  moreover have "resumes r (stream R') R" using line_facts(3) [OF \<open>line_at k r\<close>] Cons by (simp add: resumes_def)
  ultimately show ?thesis using Cons by blast
qed

lemma item_line:
  assumes "reads (n + 2) ls x"
  obtains c cs where "item n ls = (spaces n @ CHR ''-'' # CHR '' '' # c # cs) # tl ls" and "nonblank (last (c # cs))"
    and "drop (n + 2) (hd ls) = c # cs" and "list_all clean (item n ls)" and "line_at n (hd (item n ls))"
proof -
  obtain c cs where c: "hd ls = spaces (n + 2) @ c # cs" "nonblank (last (c # cs))" "clean (hd ls)"
    using assms unfolding reads_def line_at_def by blast
  have d: "drop (n + 2) (hd ls) = c # cs" using c(1) by (simp add: spaces_def)
  have i: "item n ls = (spaces n @ CHR ''-'' # CHR '' '' # c # cs) # tl ls" unfolding item_def d by simp
  have cl: "clean (spaces n @ CHR ''-'' # CHR '' '' # c # cs)" using c(1,3) by (simp add: plain_char_def newline_def)
  have "list_all clean (tl ls)" using assms unfolding reads_def by (cases ls) simp_all
  then have "list_all clean (item n ls)" using i cl by simp
  moreover have "line_at n (hd (item n ls))"
    unfolding i line_at_def using cl c(2) by (auto simp: nonblank_def)
  ultimately show ?thesis using that i c(2) d by blast
qed

lemma seq_step:
  assumes "reads (n + 2) ls x" and "followed (n + 2) R"
    and "root = Object \<and> acc = [] \<and> (b = n \<or> b < n \<and> \<not> inc) \<or> root = YObj Sequence [] acc (\<lambda>_. None) \<and> b = n"
  shows "parse_loop b inc True False root l (stream (item n ls @ R)) =
    parse_loop n (inc \<or> b < n) True False (YObj Sequence [] (acc @ [x]) (\<lambda>_. None)) l' (stream R)"
proof -
  obtain c cs where i: "item n ls = (spaces n @ CHR ''-'' # CHR '' '' # c # cs) # tl ls" "nonblank (last (c # cs))"
    "drop (n + 2) (hd ls) = c # cs" "list_all clean (item n ls)"
    using item_line [OF assms(1)] .
  let ?t = "CHR ''-'' # CHR '' '' # c # cs"
  have cl: "clean (spaces n @ ?t)" and d: "nonblank (CHR ''-'')" "nonblank (last ?t)"
    using i(1,2,4) by (auto simp: nonblank_def)
  note lf = clean_line [OF cl] getline_stream [OF cl, of "tl ls @ R"] first_nonblank [OF d(1), of n "CHR '' '' # c # cs"]
    ytrim_line [OF d, of n]
  obtain left st where sub: "resumes left st R"
    "parse_loop (Suc n) False False False Object (spaces (Suc n) @ CHR '' '' # c # cs) (stream (tl ls @ R)) = Some (Inr (x, left, st))"
    using reads_inline [OF assms(1,2)] i(3) by auto
  have kind: "begin_object ?t False root = Inr (YObj Sequence [] acc (\<lambda>_. None), False)"
    using assms(3) by (auto simp: begin_object_def defined_def Object_def setType_def)
  have "parse_loop b inc True False root l (stream (item n ls @ R)) =
      parse_loop n (inc \<or> b < n) (left = []) False (YObj Sequence [] (acc @ [x]) (\<lambda>_. None))
        (if left = [] then spaces n @ ?t else left) st"
    unfolding i(1) append_Cons using assms(3) lf sub(2) kind
    by (subst parse_loop.simps) (auto simp: Parser_getline_def push_back_def setType_def)
  also have "\<dots> = parse_loop n (inc \<or> b < n) True False (YObj Sequence [] (acc @ [x]) (\<lambda>_. None)) l' (stream R)"
    using assms(2) by (intro resumes_loop [OF sub(1)]) (simp add: followed_def)
  finally show ?thesis .
qed

lemma entry_line:
  assumes "reads (n + 2) ls x" and "word k"
  obtains t where "entry n k inline ls = (spaces n @ k @ CHR '':'' # t) # (if inline then tl ls else ls)"
    and "t = (if inline then CHR '' '' # drop (n + 2) (hd ls) else [])" and "nonblank (last (k @ CHR '':'' # t))"
    and "list_all clean (entry n k inline ls)" and "line_at n (hd (entry n k inline ls))"
proof -
  obtain c cs where c: "hd ls = spaces (n + 2) @ c # cs" "nonblank (last (c # cs))" "clean (hd ls)"
    using assms(1) unfolding reads_def line_at_def by blast
  define t where "t = (if inline then CHR '' '' # drop (n + 2) (hd ls) else [])"
  have d: "drop (n + 2) (hd ls) = c # cs" using c(1) by (simp add: spaces_def)
  then have t: "t = (if inline then CHR '' '' # c # cs else [])" unfolding t_def d by simp
  have e: "entry n k inline ls = (spaces n @ k @ CHR '':'' # t) # (if inline then tl ls else ls)"
    by (simp add: entry_def t_def)
  have cl: "clean (spaces n @ k @ CHR '':'' # t)"
    using word_clean [OF assms(2)] c(1,3) by (auto simp: t plain_char_def newline_def)
  have "list_all clean (tl ls)" "list_all clean ls" using assms(1) unfolding reads_def by (cases ls, simp_all)+
  then have ca: "list_all clean (entry n k inline ls)" using e cl by simp
  have la: "nonblank (last (k @ CHR '':'' # t))" using c(2) by (auto simp: t nonblank_def)
  obtain q qs where q: "k = q # qs" using word_ne [OF assms(2)] by (cases k) auto
  have "nonblank q" using word_hd [OF assms(2)] q by simp
  then have "line_at n (hd (entry n k inline ls))"
    unfolding e line_at_def list.sel using cl la q by (intro conjI) auto
  then show ?thesis using that e t_def la ca by blast
qed

lemma map_step:
  assumes "reads (n + 2) ls x" and "word k" and "followed (n + 2) R"
    and "root = Object \<and> a = (\<lambda>_. None) \<and> (b = n \<or> b < n \<and> \<not> inc) \<or> root = YObj Attributes [] [] a \<and> b = n"
  shows "parse_loop b inc True False root l (stream (entry n k inline ls @ R)) =
    parse_loop n (inc \<or> b < n) True False (YObj Attributes [] [] (a(k := Some x))) l' (stream R)"
proof -
  obtain t where e: "entry n k inline ls = (spaces n @ k @ CHR '':'' # t) # (if inline then tl ls else ls)"
    "t = (if inline then CHR '' '' # drop (n + 2) (hd ls) else [])" "nonblank (last (k @ CHR '':'' # t))"
    "list_all clean (entry n k inline ls)"
    using entry_line [OF assms(1,2)] .
  let ?u = "k @ CHR '':'' # t" and ?rest = "(if inline then tl ls else ls) @ R"
  obtain q qs where q: "k = q # qs" using word_ne [OF assms(2)] by (cases k) auto
  have w: "nonblank q" "q \<noteq> CHR ''-''" "q \<noteq> CHR ''[''" using word_hd [OF assms(2)] q by simp_all
  have cl: "clean (spaces n @ ?u)" using e(1,4) by simp
  note lf = clean_line [OF cl] getline_stream [OF cl, of ?rest]
  have f: "first_non_whitespace (spaces n @ ?u) = Some n" "ytrim (spaces n @ ?u) = ?u"
    using first_nonblank [OF w(1), of n] ytrim_line [OF w(1), of "qs @ CHR '':'' # t" n] e(3) q by simp_all
  have colon: "find_first (\<lambda>c. c = CHR '':'') ?u = Some (length k)"
  proof -
    have "takeWhile (\<lambda>c. \<not> c = CHR '':'') ?u = k"
      using word_no_colon [OF assms(2)] by (subst takeWhile_append2) auto
    then show ?thesis by (simp add: find_first_def)
  qed
  have kind: "begin_object ?u False root = Inr (YObj Attributes [] [] a, False)"
    using assms(4) w q by (auto simp: begin_object_def defined_def Object_def setType_def)
  obtain left st where sub: "resumes left st R"
    "parse_loop (Suc n) False False False Object (spaces (Suc n) @ t) (stream ?rest) = Some (Inr (x, left, st))"
  proof (cases inline)
    case True
    then show ?thesis using that reads_inline [OF assms(1,3)] e(2) by auto
  next
    case False
    then have "parse_loop (Suc n) False False False Object (spaces (Suc n) @ t) (stream ?rest) =
        parse_loop (Suc n) False True False Object [] (stream (ls @ R))"
      using e(2) blank_line [of "Suc n" False False Object "Suc n" "ls @ R" "[]"] by simp
    moreover obtain left st where "resumes left st R"
      "parse_loop (Suc n) False True False Object [] (stream (ls @ R)) = Some (Inr (x, left, st))"
      using assms(1,3) unfolding reads_def by (metis Suc_lessD add_2_eq_Suc' lessI)
    ultimately show ?thesis using that by simp
  qed
  have "parse_loop b inc True False root l (stream (entry n k inline ls @ R)) =
      parse_loop n (inc \<or> b < n) (left = []) False (YObj Attributes [] [] (a(k := Some x)))
        (if left = [] then spaces n @ ?u else left) st"
    unfolding e(1) append_Cons using assms(4) lf f sub(2) kind colon ytrim_word [OF assms(2)] word_ne [OF assms(2)]
    by (subst parse_loop.simps) (auto simp: Parser_getline_def assign_attr_def)
  also have "\<dots> = parse_loop n (inc \<or> b < n) True False (YObj Attributes [] [] (a(k := Some x))) l' (stream R)"
    using assms(3) by (intro resumes_loop [OF sub(1)]) (simp add: followed_def)
  finally show ?thesis .
qed

lemma followed_mono: "followed n R \<Longrightarrow> n \<le> m \<Longrightarrow> followed m R"
  unfolding followed_def using less_le_trans by blast

lemma all_lines: "(\<And>x. x \<in> set xs \<Longrightarrow> list_all P (f x)) \<Longrightarrow> list_all P (concat (map f xs))"
  by (induction xs) simp_all

text \<open>The lines of the elements or attributes that follow are indented like those before them.\<close>

lemma block_followed:
  assumes "\<And>p. p \<in> set ps \<Longrightarrow> list_all clean (f p) \<and> f p \<noteq> [] \<and> line_at n (hd (f p))" and "followed n R"
  shows "followed (n + 2) (concat (map f ps) @ R)"
proof (cases ps)
  case Nil
  then show ?thesis using followed_mono [OF assms(2), of "n + 2"] by simp
next
  case (Cons q qs)
  have "list_all clean (concat (map f ps) @ R)" using assms all_lines [of ps clean f] by (simp add: followed_def)
  moreover have "line_at n (hd (concat (map f ps) @ R))" using assms(1) [of q] Cons by simp
  ultimately show ?thesis unfolding followed_def by (intro conjI disjI2 exI [of _ n]) simp_all
qed

lemma item_block: "reads (n + 2) ls x \<Longrightarrow> list_all clean (item n ls) \<and> item n ls \<noteq> [] \<and> line_at n (hd (item n ls))"
  using item_line by (metis item_def list.discI)

lemma entry_block:
  "reads (n + 2) ls x \<Longrightarrow> word k \<Longrightarrow>
    list_all clean (entry n k inl ls) \<and> entry n k inl ls \<noteq> [] \<and> line_at n (hd (entry n k inl ls))"
  using entry_line by (metis entry_def list.discI)

lemma seq_block:
  assumes "\<forall>p\<in>set its. reads (n + 2) (fst p) (snd p)" and "followed n R"
    and "root = Object \<and> acc = [] \<and> its \<noteq> [] \<and> (b = n \<or> b < n \<and> \<not> inc) \<or> root = YObj Sequence [] acc (\<lambda>_. None) \<and> b = n"
  shows "\<exists>left i. resumes left i R \<and>
    parse_loop b inc True False root l (stream (concat (map (\<lambda>p. item n (fst p)) its) @ R)) =
      Some (Inr (YObj Sequence [] (acc @ map snd its) (\<lambda>_. None), left, i))"
  using assms
proof (induction its arbitrary: root acc b inc l)
  case Nil
  then show ?case using block_end by simp
next
  case (Cons p its)
  let ?R = "concat (map (\<lambda>p. item n (fst p)) its) @ R"
  have foll: "followed (n + 2) ?R" using Cons.prems(1,2) item_block by (intro block_followed) auto
  have rp: "reads (n + 2) (fst p) (snd p)" using Cons.prems(1) by simp
  from seq_step [OF rp foll, of root acc b inc l "[]"] Cons.prems(3)
  have "parse_loop b inc True False root l (stream (item n (fst p) @ ?R)) =
      parse_loop n (inc \<or> b < n) True False (YObj Sequence [] (acc @ [snd p]) (\<lambda>_. None)) [] (stream ?R)" by blast
  then show ?case
    using Cons.IH [of "YObj Sequence [] (acc @ [snd p]) (\<lambda>_. None)" "acc @ [snd p]" n "inc \<or> b < n" "[]"] Cons.prems(1,2) by simp
qed

text \<open>The attributes of a map: name, whether on one line, lines and value.\<close>

type_synonym attr_lines = "string \<times> bool \<times> string list \<times> yobj"

fun add_entry :: "(string \<Rightarrow> yobj option) \<Rightarrow> attr_lines \<Rightarrow> (string \<Rightarrow> yobj option)" where
  "add_entry a (k, inl, ls, x) = a(k := Some x)"

lemma map_block:
  assumes "\<forall>(k, inl, ls, x)\<in>set es. reads (n + 2) ls x \<and> word k" and "followed n R"
    and "root = Object \<and> a = (\<lambda>_. None) \<and> es \<noteq> [] \<and> (b = n \<or> b < n \<and> \<not> inc) \<or> root = YObj Attributes [] [] a \<and> b = n"
  shows "\<exists>left i. resumes left i R \<and>
    parse_loop b inc True False root l (stream (concat (map (\<lambda>(k, inl, ls, x). entry n k inl ls) es) @ R)) =
      Some (Inr (YObj Attributes [] [] (foldl add_entry a es), left, i))"
  using assms
proof (induction es arbitrary: root a b inc l)
  case Nil
  then show ?case using block_end by simp
next
  case (Cons e es)
  obtain k inl ls x where e: "e = (k, inl, ls, x)" by (cases e) auto
  let ?R = "concat (map (\<lambda>(k, inl, ls, x). entry n k inl ls) es) @ R"
  have foll: "followed (n + 2) ?R" using Cons.prems(1,2) entry_block by (intro block_followed) fastforce+
  have rk: "reads (n + 2) ls x" "word k" using Cons.prems(1) e by simp_all
  from map_step [OF rk foll, of root a b inc l inl "[]"] Cons.prems(3)
  have "parse_loop b inc True False root l (stream (entry n k inl ls @ ?R)) =
      parse_loop n (inc \<or> b < n) True False (YObj Attributes [] [] (a(k := Some x))) [] (stream ?R)" by blast
  moreover have "\<exists>left i. resumes left i R \<and>
    parse_loop n (inc \<or> b < n) True False (YObj Attributes [] [] (a(k := Some x))) [] (stream ?R) =
      Some (Inr (YObj Attributes [] [] (foldl add_entry (a(k := Some x)) es), left, i))"
    by (rule Cons.IH [OF _ Cons.prems(2) disjI2]) (use Cons.prems(1) in auto)
  ultimately show ?case by (simp add: e)
qed

lemma foldl_attrs:
  "distinct (map fst kvs) \<Longrightarrow>
    foldl add_entry a (map (\<lambda>(k, v). (k, g v, h v, f v)) kvs) =
      a ++ map_of (map (\<lambda>(k, v). (k, f v)) kvs)"
proof (induction kvs arbitrary: a)
  case (Cons kv kvs)
  have "fst kv \<notin> dom (map_of (map (\<lambda>(k, v). (k, f v)) kvs))"
    using Cons.prems by (auto simp: dom_map_of_conv_image_fst image_image case_prod_unfold)
  then show ?case using Cons by (auto simp: case_prod_unfold map_add_upd_left fun_upd_def map_add_def split: option.splits)
qed simp

section \<open>The round trip\<close>

lemma reads_doc: "writable d \<Longrightarrow> reads n (ylines n d) (obj_of d)"
proof (induction d arbitrary: n)
  case (YScalar s)
  then show ?case using reads_scalar by simp
next
  case (YFlow ss)
  then show ?case by (rule reads_flow)
next
  case (YSeq xs)
  let ?its = "map (\<lambda>x. (ylines (n + 2) x, obj_of x)) xs"
  have its: "\<forall>p\<in>set ?its. reads (n + 2) (fst p) (snd p)" "?its \<noteq> []" using YSeq by auto
  have ls: "ylines n (YSeq xs) = concat (map (\<lambda>p. item n (fst p)) ?its)" by (simp add: comp_def)
  have ob: "obj_of (YSeq xs) = YObj Sequence [] ([] @ map snd ?its) (\<lambda>_. None)" by (simp add: comp_def)
  have block: "list_all clean (item n (fst p)) \<and> item n (fst p) \<noteq> [] \<and> line_at n (hd (item n (fst p)))" if "p \<in> set ?its" for p
    using item_block its(1) that by blast
  then have "list_all clean (concat (map (\<lambda>p. item n (fst p)) ?its))" by (intro all_lines) blast
  moreover have "concat (map (\<lambda>p. item n (fst p)) ?its) \<noteq> [] \<and> line_at n (hd (concat (map (\<lambda>p. item n (fst p)) ?its)))"
    using block [of "hd ?its"] its(2) by (cases ?its) auto
  ultimately show ?case
    unfolding reads_def ls ob using seq_block [OF its(1)] its(2) by blast
next
  case (YMap kvs)
  let ?es = "map (\<lambda>(k, v). (k, simple v, ylines (n + 2) v, obj_of v)) kvs"
  let ?f = "\<lambda>(k, inl, ls, x). entry n k inl ls"
  have es: "\<forall>(k, inl, ls, x)\<in>set ?es. reads (n + 2) ls x \<and> word k" "?es \<noteq> []" using YMap by fastforce+
  have ls: "ylines n (YMap kvs) = concat (map ?f ?es)" by (simp add: comp_def case_prod_unfold)
  have "distinct (map fst kvs)" using YMap(2) by simp
  then have ob: "obj_of (YMap kvs) = YObj Attributes [] [] (foldl add_entry (\<lambda>_. None) ?es)"
    using foldl_attrs [of kvs "\<lambda>_. None" simple "ylines (n + 2)" obj_of] by simp
  have block: "list_all clean (?f p) \<and> ?f p \<noteq> [] \<and> line_at n (hd (?f p))" if "p \<in> set ?es" for p
    using entry_block es(1) that by fastforce
  then have "list_all clean (concat (map ?f ?es))" by (intro all_lines) blast
  moreover have "concat (map ?f ?es) \<noteq> [] \<and> line_at n (hd (concat (map ?f ?es)))"
    using block [of "hd ?es"] es(2) by (cases ?es) auto
  ultimately show ?case
    unfolding reads_def ls ob using map_block [OF es(1)] es(2) by blast
qed

lemma yaml_parse_doc:
  assumes "writable d"
  shows "yaml_parse (ytext (ylines 0 d)) = Some (Inr (obj_of d))"
proof -
  have "followed 0 []" by (simp add: followed_def)
  then obtain left i where "parse_loop 0 False True False Object [] (stream (ylines 0 d @ [])) = Some (Inr (obj_of d, left, i))"
    using reads_doc [OF assms, of 0] unfolding reads_def by blast
  moreover have "parse_loop 0 False False False Object [] (stream (ylines 0 d)) =
      parse_loop 0 False True False Object [] (stream (ylines 0 d))"
    using blank_line [of 0 False False Object 0 "ylines 0 d" "[]"] by (simp add: spaces_def)
  ultimately show ?thesis by (simp add: yaml_parse_def stream_def [symmetric])
qed

text \<open>
  C28. The configurations: the parser reads the text of every writable document, in blocks with sequences in brackets,
  as the object the document stands for.
\<close>

theorem yaml_reads_document:
  assumes "writable d"
  shows "yaml_parse (ytext (ylines 0 d)) = Some (Inr (obj_of d))"
  by (rule yaml_parse_doc [OF assms])

definition processor_doc :: ydoc where
  "processor_doc = YMap [(''cpu_islands'', YSeq [YMap [(''name'', YScalar ''LITTLE''), (''numcpus'', YScalar ''4''),
     (''freqs'', YFlow [''200'', ''300''])]]), (''resources'', YSeq [YScalar ''R1'', YScalar ''R2''])]"

lemma yaml_reads_document_witness:
  "writable processor_doc \<and> yaml_parse (ytext (ylines 0 processor_doc)) = Some (Inr (obj_of processor_doc))"
proof -
  have w: "writable processor_doc"
    by (simp add: processor_doc_def word_def flow_word_def plain_char_def nonblank_def newline_def)
  show ?thesis using w yaml_reads_document [OF w] by simp
qed

text \<open>What the texts outside of these documents are read as: a negative number is a sequence, a colon makes a map.\<close>

definition attr_read :: "string \<Rightarrow> string \<Rightarrow> (obj_type \<times> string \<times> string list) option" where
  "attr_read t k = (case yaml_parse t of Some (Inr o1) \<Rightarrow>
     map_option (\<lambda>v. (y_type v, y_scalar v, map y_scalar (y_list v))) (y_attrs o1 k) | _ \<Rightarrow> None)"

definition rejected :: "string \<Rightarrow> bool" where
  "rejected t = (case yaml_parse t of Some (Inl e) \<Rightarrow> True | _ \<Rightarrow> False)"

lemma negative_number_is_sequence: "attr_read ''offset: -5'' ''offset'' = Some (Sequence, [], [''5''])"
  by code_simp

lemma empty_brackets_have_an_element: "attr_read ''freqs: []'' ''freqs'' = Some (Sequence, [], [[]])"
  by code_simp

lemma colon_in_scalar_is_map: "attr_read ''file: C:x'' ''file'' = Some (Attributes, [], [])"
  by code_simp

lemma sequence_at_indentation_of_key_rejected:
  "rejected (''a:'' @ newline # ''- b'')"
  by code_simp

end
