(* ===== verification/StrToken_Laws.thy ===== *)
theory StrToken_Laws
  imports StrToken
begin

text \<open>
  What the functions of \<open>StrToken\<close> do to text that is well formed, for strings shorter than the largest position.
\<close>

section \<open>Finding\<close>

lemma find_from_hit:
  assumes "\<forall>c\<in>set a. \<not> P c" and "P c"
  shows "find_from P (d @ a @ c # b) (length d) = length d + length a"
  using assms by (simp add: find_from_def takeWhile_append2)

lemma find_from_miss: "\<forall>c\<in>set a. \<not> P c \<Longrightarrow> find_from P (d @ a) (length d) = npos"
  by (simp add: find_from_def takeWhile_eq_all_conv [THEN iffD2])

lemma find_last_hit:
  assumes "\<forall>c\<in>set b. \<not> P c" and "P c"
  shows "find_last P (a @ c # b) = length a"
proof -
  have "takeWhile (\<lambda>c. \<not> P c) (rev b @ c # rev a) = rev b" using assms by (subst takeWhile_append2) auto
  then show ?thesis by (simp add: find_last_def)
qed

lemma find_last_miss: "\<forall>c\<in>set s. \<not> P c \<Longrightarrow> find_last P s = npos"
  by (simp add: find_last_def takeWhile_eq_all_conv [THEN iffD2])

lemma find_string_hit:
  assumes "c \<notin> set a"
  shows "find_string [c] (a @ c # b) 0 = length a"
proof -
  let ?Q = "\<lambda>i. i + length [c] \<le> length (a @ c # b) \<and> take (length [c]) (drop i (a @ c # b)) = [c]"
  have no: "\<not> ?Q i" if "i < length a" for i
    using that assms by (auto simp: take_Suc hd_drop_conv_nth nth_append dest: nth_mem)
  have "List.find ?Q [0..<length (a @ c # b) + 1] = Some (length a)"
    unfolding find_Some_iff
    using no by (intro exI [of _ "length a"]) (auto simp: nth_append simp del: upt_Suc)
  then show ?thesis by (simp only: find_string_def option.case)
qed

section \<open>Blanks around a token\<close>

definition blank :: "char \<Rightarrow> bool" where
  "blank c \<longleftrightarrow> c = CHR '' ''"

definition trim :: "string \<Rightarrow> string" where
  "trim s = rev (dropWhile blank (rev (dropWhile blank s)))"

lemma not_blank: "(\<lambda>c. \<not> c \<noteq> CHR '' '') = blank"
  by (auto simp: blank_def)

lemma dropWhile_id: "s = [] \<or> \<not> P (hd s) \<Longrightarrow> dropWhile P s = s"
  by (cases s) auto

lemma trim_id: "s = [] \<or> \<not> blank (hd s) \<and> \<not> blank (last s) \<Longrightarrow> trim s = s"
  using dropWhile_id [of s blank] dropWhile_id [of "rev s" blank] by (auto simp: trim_def hd_rev)

lemma erase_front:
  assumes "length s < npos"
  shows "str_erase 0 (find_from (\<lambda>c. c \<noteq> CHR '' '') s 0) s = Inr (dropWhile blank s)"
proof (cases "dropWhile blank s")
  case Nil
  then have "\<forall>c\<in>set s. \<not> c \<noteq> CHR '' ''" by (auto simp: dropWhile_eq_Nil_conv blank_def)
  from find_from_miss [OF this, of "[]"] assms show ?thesis unfolding Nil by (simp add: str_erase_def)
next
  case (Cons c r)
  then have c: "c \<noteq> CHR '' ''" using hd_dropWhile [of blank s] by (simp add: blank_def)
  have s: "s = takeWhile blank s @ c # r" using takeWhile_dropWhile_id [of blank s] Cons by simp
  have "\<forall>x\<in>set (takeWhile blank s). \<not> x \<noteq> CHR '' ''" by (auto simp: blank_def dest: set_takeWhileD)
  from find_from_hit [OF this c, of "[]" r] s have "find_from (\<lambda>c. c \<noteq> CHR '' '') s 0 = length (takeWhile blank s)" by simp
  then show ?thesis by (simp add: str_erase_def dropWhile_eq_drop)
qed

lemma erase_back:
  assumes "length s < npos"
  shows "(let pos = find_last (\<lambda>c. c \<noteq> CHR '' '') s in str_erase (sz_inc pos) (sz_sub (sz_sub (length s) pos) 1) s)
     = Inr (rev (dropWhile blank (rev s)))"
proof (cases "dropWhile blank (rev s) = []")
  case True
  then have all: "\<forall>c\<in>set s. \<not> c \<noteq> CHR '' ''" by (auto simp: dropWhile_eq_Nil_conv blank_def)
  have "sz_sub (sz_sub (length s) npos) 1 = length s"
    using assms by (auto simp: sz_sub_def npos_def)
  with True show ?thesis by (simp add: find_last_miss [OF all] str_erase_def sz_inc_def)
next
  case False
  let ?t = "takeWhile blank (rev s)" and ?d = "dropWhile blank (rev s)"
  obtain c r where d: "?d = c # r" and c: "\<not> blank c" using False hd_dropWhile [of blank "rev s"] by (cases ?d) auto
  have "rev s = ?t @ c # r" using takeWhile_dropWhile_id [of blank "rev s"] d by simp
  then have "rev (rev s) = rev (?t @ c # r)" by (rule arg_cong)
  then have s: "s = rev r @ c # rev ?t" by simp
  have "find_last (\<lambda>c. c \<noteq> CHR '' '') (rev r @ c # rev ?t) = length r"
    using c by (subst find_last_hit) (auto simp: blank_def dest: set_takeWhileD)
  then have f: "find_last (\<lambda>c. c \<noteq> CHR '' '') s = length r" using s by simp
  have "length r < length s" by (subst s) simp
  then have "sz_inc (length r) = length r + 1" "sz_sub (sz_sub (length s) (length r)) 1 = length s - length r - 1"
    "length r + 1 \<le> length s"
    using assms by (auto simp: sz_inc_def sz_sub_def)
  moreover have "take (length r + 1) s = rev r @ [c]" by (subst s) simp
  ultimately show ?thesis using d by (simp add: f str_erase_def)
qed

lemma remove_spaces_trim: "length s < npos \<Longrightarrow> remove_spaces s = Inr (trim s)"
proof -
  assume len: "length s < npos"
  then have "length (dropWhile blank s) < npos" using length_dropWhile_le [of blank s] by linarith
  from erase_back [OF this] erase_front [OF len] show ?thesis
    by (auto simp: remove_spaces_def trim_def)
qed

lemma piece_middle: "length a < npos \<Longrightarrow> piece (d @ a @ b) (length d) (length a) = Inr (trim a)"
  by (simp add: piece_def str_substr_def remove_spaces_trim)


lemma piece_back: "length a < npos \<Longrightarrow> piece (d @ a) (length d) (length (d @ a) - length d) = Inr (trim a)"
  using piece_middle [of a d "[]"] by simp

section \<open>Instructions of a text\<close>

lemma find_from_hit_lt:
  assumes "\<forall>c\<in>set a. \<not> P c" and "P c" and "length (d @ a @ c # b) < npos"
  shows "find_from P (d @ a @ c # b) (length d) = length d + length a" and "find_from P (d @ a @ c # b) (length d) \<noteq> npos"
    and "sz_sub (find_from P (d @ a @ c # b) (length d)) (length d) = length a"
  using find_from_hit [OF assms(1,2), of d b] assms(3) by (auto simp: sz_sub_def)

lemma split_instr_loop_pieces:
  assumes "\<forall>p\<in>set ps. CHR '';'' \<notin> set p" and "CHR '';'' \<notin> set rest"
    and "length (d @ concat (map (\<lambda>p. p @ '';'') ps) @ rest) < npos"
  shows "split_instr_loop (d @ concat (map (\<lambda>p. p @ '';'') ps) @ rest) (length d) temp = Inr (temp @ map trim ps)"
  using assms
proof (induction ps arbitrary: d temp)
  case Nil
  then have "find_from ((=) CHR '';'') (d @ rest) (length d) = npos" by (intro find_from_miss) auto
  then show ?case by (simp add: split_instr_loop.simps [of "d @ rest"])
next
  case (Cons p ps)
  let ?b = "concat (map (\<lambda>p. p @ '';'') ps) @ rest"
  have p: "\<forall>c\<in>set p. \<not> CHR '';'' = c" "length (d @ p @ CHR '';'' # ?b) < npos" "length p < npos"
    using Cons.prems by auto
  note find = find_from_hit_lt [OF p(1) refl p(2)]
  have "split_instr_loop ((d @ p @ '';'') @ ?b) (length (d @ p @ '';'')) (temp @ [trim p])
      = Inr ((temp @ [trim p]) @ map trim ps)"
    using Cons.prems by (intro Cons.IH) auto
  then show ?case
    using find p(3) by (simp add: split_instr_loop.simps [of "d @ p @ CHR '';'' # ?b"] piece_middle)
qed

lemma split_instr_pieces:
  assumes "\<forall>p\<in>set ps. CHR '';'' \<notin> set p" and "CHR '';'' \<notin> set rest"
    and "length (concat (map (\<lambda>p. p @ '';'') ps) @ rest) < npos"
  shows "split_instr (concat (map (\<lambda>p. p @ '';'') ps) @ rest) = Inr (map trim ps)"
  using split_instr_loop_pieces [of ps rest "[]" "[]"] assms by (simp add: split_instr_def)

section \<open>The token and its parameters\<close>

lemma get_token_name:
  assumes "CHR ''('' \<notin> set tok" and "tok \<noteq> []" and "hd tok \<notin> {CHR '' '', CHR 0x0A}"
    and "length (tok @ CHR ''('' # rest) < npos"
  shows "get_token (tok @ CHR ''('' # rest) = Inr tok"
proof -
  have "takeWhile (\<lambda>c. \<not> c \<notin> {CHR '' '', CHR 0x0A}) (tok @ CHR ''('' # rest) = []"
    using assms(2,3) by (cases tok) auto
  then have "find_from (\<lambda>c. c \<notin> {CHR '' '', CHR 0x0A}) (tok @ CHR ''('' # rest) 0 = 0"
    using assms(2) by (simp add: find_from_def del: insert_iff)
  then show ?thesis
    using assms(4) by (simp add: get_token_def find_string_hit [OF assms(1)] str_substr_def sz_sub_def)
qed

lemma get_param_args:
  assumes "CHR ''('' \<notin> set tok" and "length (tok @ CHR ''('' # args @ '')'') < npos"
  shows "get_param (tok @ CHR ''('' # args @ '')'') = Inr args"
proof -
  have "find_last ((=) CHR '')'') ((tok @ CHR ''('' # args) @ CHR '')'' # []) = length (tok @ CHR ''('' # args)"
    by (rule find_last_hit) simp_all
  then show ?thesis
    using assms(2) by (simp add: get_param_def find_string_hit [OF assms(1)] str_substr_def sz_sub_def)
qed

text \<open>
  A parameter is a word, without separators and parentheses, or a name with parameters of its own, in which
  parentheses are not nested.
\<close>

definition word_param :: "string \<Rightarrow> bool" where
  "word_param p \<longleftrightarrow> set p \<inter> {CHR '','', CHR ''(''} = {}"

definition call_param :: "string \<Rightarrow> bool" where
  "call_param p \<longleftrightarrow> (\<exists>f a. p = f @ CHR ''('' # a @ '')'' \<and> word_param f \<and> CHR '')'' \<notin> set a)"

definition good_param :: "string \<Rightarrow> bool" where
  "good_param p \<longleftrightarrow> p \<noteq> [] \<and> \<not> blank (hd p) \<and> \<not> blank (last p) \<and> (word_param p \<or> call_param p)"

fun commas :: "string list \<Rightarrow> string" where
  "commas [] = []"
| "commas [p] = p"
| "commas (p # q # ps) = p @ CHR '','' # commas (q # ps)"

text \<open>The end of \<open>split_param\<close>, after its loop.\<close>

definition last_param :: "string \<Rightarrow> exc + nat \<times> nat \<times> string list \<Rightarrow> exc + string list" where
  "last_param p r = bindE r (\<lambda>(pos, old_pos, temp).
     if pos \<noteq> old_pos then
       bindE (piece p old_pos (length p - old_pos)) (\<lambda>t. Inr (if t \<noteq> [] then temp @ [t] else temp))
     else Inr temp)"

lemma split_param_loop_end: "split_param p sep oc cc = map_option (last_param p) (split_param_loop p sep oc cc 0 0 [])"
  by (auto simp: split_param_def last_param_def split: option.split)

abbreviation param_loop :: "string \<Rightarrow> nat \<Rightarrow> string list \<Rightarrow> (exc + nat \<times> nat \<times> string list) option" where
  "param_loop p pos temp \<equiv> split_param_loop p '','' CHR ''('' CHR '')'' pos pos temp"

lemma word_step:
  assumes "word_param a" and "good_param a" and "length (d @ a @ CHR '','' # b) < npos"
  shows "param_loop (d @ a @ CHR '','' # b) (length d) temp
    = param_loop (d @ a @ CHR '','' # b) (length (d @ a @ '','')) (temp @ [a])"
proof -
  have a: "\<forall>c\<in>set a. \<not> c \<in> set ('','' @ [CHR ''(''])" "length a < npos" "trim a = a"
    using assms by (auto simp: word_param_def good_param_def trim_id)
  note find = find_from_hit_lt [OF a(1) _ assms(3)]
  show ?thesis
    using find assms(3) a(2,3)
    by (subst split_param_loop.simps) (simp add: Let_def nth_append piece_middle sz_inc_def)
qed

lemma word_last:
  assumes "word_param a" and "good_param a" and "length (d @ a) < npos"
  shows "map_option (last_param (d @ a)) (param_loop (d @ a) (length d) temp) = Some (Inr (temp @ [a]))"
proof -
  have a: "\<forall>c\<in>set a. \<not> c \<in> set ('','' @ [CHR ''(''])" "length a < npos" "trim a = a" "a \<noteq> []"
    using assms by (auto simp: word_param_def good_param_def trim_id)
  have "param_loop (d @ a) (length d) temp = split_param_loop (d @ a) '','' CHR ''('' CHR '')'' npos (length d) temp"
    using find_from_miss [OF a(1), of d] by (subst split_param_loop.simps) (simp add: Let_def)
  also have "\<dots> = Some (Inr (npos, length d, temp))"
    using assms(3) by (subst split_param_loop.simps) simp
  finally show ?thesis using assms(3) a piece_back [OF a(2), of d] by (simp add: last_param_def)
qed

text \<open>After a call, the separator that follows is skipped with the end of the piece.\<close>

lemma call_step:
  assumes "call_param a" and "good_param a" and "length (d @ a @ b) < npos"
  shows "param_loop (d @ a @ b) (length d) temp = param_loop (d @ a @ b) (length (d @ a) + 1) (temp @ [a])"
proof -
  obtain f x where a: "a = f @ CHR ''('' # x @ '')''" and f: "word_param f" and x: "CHR '')'' \<notin> set x"
    using assms(1) by (auto simp: call_param_def)
  have ok: "\<forall>c\<in>set f. \<not> c \<in> set ('','' @ [CHR ''(''])" "length a < npos" "trim a = a"
    using assms f by (auto simp: word_param_def good_param_def trim_id)
  have p: "d @ a @ b = d @ f @ CHR ''('' # x @ '')'' @ b" "d @ a @ b = (d @ f) @ (CHR ''('' # x) @ CHR '')'' # b" by (simp_all add: a)
  have "find_from (\<lambda>c. c \<in> set ('','' @ [CHR ''(''])) (d @ a @ b) (length d) = length d + length f"
    unfolding p(1) by (rule find_from_hit [OF ok(1)]) simp
  moreover have "find_from ((=) CHR '')'') (d @ a @ b) (length (d @ f)) = length (d @ f) + length (CHR ''('' # x)"
    unfolding p(2) by (rule find_from_hit) (use x in auto)
  moreover have "(d @ a @ b) ! (length d + length f) = CHR ''(''" by (simp add: a nth_append)
  ultimately show ?thesis
    using assms(3) ok(2,3) piece_middle [OF ok(2), of d b]
    by (subst split_param_loop.simps) (simp add: Let_def sz_inc_def sz_sub_def a nth_append add.assoc)
qed


lemma call_last:
  assumes "call_param a" and "good_param a" and "length (d @ a) < npos"
  shows "map_option (last_param (d @ a)) (param_loop (d @ a) (length d) temp) = Some (Inr (temp @ [a]))"
proof -
  have "param_loop (d @ a) (length d) temp = param_loop (d @ a) (length (d @ a) + 1) (temp @ [a])"
    using call_step [OF assms(1,2), of d "[]"] assms(3) by simp
  also have "\<dots> = Some (Inr (length (d @ a) + 1, length (d @ a) + 1, temp @ [a]))"
    by (subst split_param_loop.simps) simp
  finally show ?thesis by (simp add: last_param_def)
qed

lemma params_loop:
  assumes "ps \<noteq> []" and "\<forall>p\<in>set ps. good_param p" and "length (d @ commas ps) < npos"
  shows "map_option (last_param (d @ commas ps)) (param_loop (d @ commas ps) (length d) temp) = Some (Inr (temp @ ps))"
  using assms
proof (induction ps arbitrary: d temp rule: commas.induct)
  case (2 p)
  then show ?case using word_last [of p d temp] call_last [of p d temp] by (auto simp: good_param_def)
next
  case (3 p q ps)
  let ?r = "commas (q # ps)"
  have go_on: "param_loop (d @ p @ CHR '','' # ?r) (length d) temp
      = param_loop (d @ p @ CHR '','' # ?r) (length (d @ p @ '','')) (temp @ [p])"
    using 3 word_step [of p d ?r temp] call_step [of p d "CHR '','' # ?r" temp] by (auto simp: good_param_def)
  have "map_option (last_param ((d @ p @ '','') @ ?r)) (param_loop ((d @ p @ '','') @ ?r) (length (d @ p @ '',''))
      (temp @ [p])) = Some (Inr ((temp @ [p]) @ q # ps))"
    using "3.prems" by (intro "3.IH") auto
  with go_on show ?case by simp
qed simp

lemma split_params_commas:
  assumes "ps \<noteq> []" and "\<forall>p\<in>set ps. good_param p" and "length (commas ps) < npos"
  shows "split_params (commas ps) = Some (Inr ps)"
  using params_loop [OF assms(1,2), of "[]" "[]"] assms(3) by (simp add: split_param_loop_end)

lemma token_params_text:
  assumes "CHR ''('' \<notin> set tok" and "tok \<noteq> []" and "hd tok \<notin> {CHR '' '', CHR 0x0A}"
    and "ps \<noteq> []" and "\<forall>p\<in>set ps. good_param p" and "length (tok @ CHR ''('' # commas ps @ '')'') < npos"
  shows "token_params (tok @ CHR ''('' # commas ps @ '')'') = Some (Inr (tok, ps))"
proof -
  have "split_params (commas ps) = Some (Inr ps)" using assms(6) by (intro split_params_commas assms) simp
  with get_token_name [OF assms(1-3,6)] get_param_args [OF assms(1,6)] show ?thesis
    by (simp add: token_params_def bindN_def)
qed

section \<open>A parameter that is not closed\<close>

lemma find_from_first:
  assumes "i \<le> k" and "k < length s" and "P (s ! k)"
  shows "i \<le> find_from P s i \<and> find_from P s i \<le> k \<and> P (s ! find_from P s i)"
proof -
  let ?n = "length (takeWhile (\<lambda>c. \<not> P c) (drop i s))"
  have "\<not> k - i < ?n"
  proof
    assume "k - i < ?n"
    from takeWhile_nth [OF this] nth_mem [OF this] have "\<not> P (drop i s ! (k - i))" by (metis set_takeWhileD)
    with assms show False by simp
  qed
  then have n: "i + ?n \<le> k" using assms(1) by simp
  then have "P (drop i s ! ?n)" using nth_length_takeWhile [of "\<lambda>c. \<not> P c" "drop i s"] assms by auto
  with n assms show ?thesis by (simp add: find_from_def)
qed

text \<open>
  An opening parenthesis after the first character that is never closed: the piece from there to the end is added
  again and again, for the search of the closing one sets the position back to the start.
\<close>

lemma split_param_unclosed_loop:
  assumes "split_param_loop p sep oc cc pos old_pos temp = Some r" and "p ! k = oc" and "1 \<le> k" and "k < length p"
    and "cc \<notin> set p" and "oc \<notin> set sep" and "length p < npos" and "old_pos \<le> pos" and "pos \<le> k"
  shows False
proof -
  have "split_param_loop p' sep' oc' cc' pos' old temp' = Some r' \<Longrightarrow>
    \<not> (p' = p \<and> sep' = sep \<and> oc' = oc \<and> cc' = cc \<and> old \<le> pos' \<and> pos' \<le> k)" for p' sep' oc' cc' pos' old temp' r'
  proof (induction p' sep' oc' cc' pos' old temp' r' rule: split_param_loop.raw_induct [rotated, consumes 1, case_names step])
    case (step loop p' sep' oc' cc' pos' old temp' r')
    show ?case
    proof
      assume eq: "p' = p \<and> sep' = sep \<and> oc' = oc \<and> cc' = cc \<and> old \<le> pos' \<and> pos' \<le> k"
      let ?P = "\<lambda>c. c \<in> set (sep @ [oc])"
      let ?i = "find_from ?P p pos'"
      obtain i where i: "?i = i" "pos' \<le> i" "i \<le> k" "?P (p ! i)" using find_from_first [of pos' k p ?P] assms eq by auto
      have close: "find_from ((=) cc) p i = npos" using find_from_miss [of "drop i p" "(=) cc" "take i p"] assms(4,5) i
        by (auto dest: in_set_dropD)
      have old: "\<exists>t. piece p old n = Inr t" for n
        using eq assms(4,7) remove_spaces_trim [of "take n (drop old p)"] by (auto simp: piece_def str_substr_def)
      have bounds: "i \<noteq> npos" "pos' \<le> length p" "length p \<noteq> npos" using assms(4,7) i eq by auto
      show False
      proof (cases "p ! i = oc")
        case True
        obtain t where "piece p old (sz_sub 0 old) = Inr t" using old by blast
        then have "loop p sep oc cc (sz_inc 0) (sz_inc 0) (temp' @ [t]) = Some r'"
          using step.hyps eq True i(1) close bounds by (simp add: sz_inc_def npos_def)
        from step.IH [OF this] assms(3) show False by (simp add: sz_inc_def npos_def)
      next
        case False
        obtain t where "piece p old (sz_sub i old) = Inr t" using old by blast
        then have "loop p sep oc cc (sz_inc i) (sz_inc i) (temp' @ [t]) = Some r'"
          using step.hyps eq False i(1) bounds by simp
        moreover have "i \<noteq> k" using False assms(2) by auto
        ultimately show False using step.IH i(3) bounds by (fastforce simp: sz_inc_def)
      qed
    qed
  qed
  then show False using assms by blast
qed

lemma split_params_unclosed:
  assumes "p ! k = CHR ''(''" and "1 \<le> k" and "k < length p" and "CHR '')'' \<notin> set p" and "length p < npos"
  shows "split_params p = None"
proof (cases "split_param_loop p '','' CHR ''('' CHR '')'' 0 0 []")
  case (Some r)
  from split_param_unclosed_loop [OF Some assms(1-4) _ assms(5)] show ?thesis by simp
qed (simp add: split_param_def)

section \<open>Numbers\<close>

lemma digit_char_digit: "n < 10 \<Longrightarrow> is_digit (digit_char n) \<and> digit_value (digit_char n) = n"
proof -
  assume "n < 10"
  then have "n \<in> set [0..<10]" by simp
  moreover have "\<forall>n\<in>set [0..<10]. is_digit (digit_char n) \<and> digit_value (digit_char n) = n"
    by (simp add: upt_rec is_digit_def digit_char_def digit_value_def)
  ultimately show ?thesis by blast
qed

lemma decimal_digits: "\<forall>c\<in>set (decimal n). is_digit c"
proof (induction n rule: decimal.induct)
  case (1 n)
  then show ?case by (cases "n < 10") (simp_all add: decimal.simps [of n] digit_char_digit)
qed

lemma digits_value_append: "digits_value (xs @ [c]) = 10 * digits_value xs + digit_value c"
  by (simp add: digits_value_def)

lemma digits_value_decimal: "digits_value (decimal n) = n"
proof (induction n rule: decimal.induct)
  case (1 n)
  then show ?case
    by (cases "n < 10") (simp_all add: decimal.simps [of n] digits_value_append digit_char_digit digits_value_def)
qed

lemma decimal_nonempty: "decimal n \<noteq> []"
  by (simp add: decimal.simps)


lemma takeWhile_digits: "\<forall>c\<in>set b. \<not> is_digit c \<Longrightarrow> takeWhile is_digit (decimal n @ b) = decimal n"
  "\<forall>c\<in>set b. \<not> is_digit c \<Longrightarrow> dropWhile is_digit (decimal n @ b) = b"
  using decimal_digits [of n] by (cases b; auto simp: takeWhile_append2 dropWhile_append2)+

lemma decimal_head: "\<exists>c cs. decimal n = c # cs \<and> is_digit c"
  using decimal_digits [of n] decimal_nonempty [of n] by (cases "decimal n") auto

lemma digit_not_other: "is_digit c \<Longrightarrow> \<not> is_space c \<and> c \<noteq> CHR ''-'' \<and> c \<noteq> CHR ''+'' \<and> \<not> blank c
   \<and> c \<notin> set '',();smnu.'' \<and> c \<noteq> CHR 0x0A"
  by (auto simp: is_digit_def is_space_def blank_def)

lemma decimal_start:
  "dropWhile is_space (decimal n @ b) = decimal n @ b" "read_sign (decimal n @ b) = (False, decimal n @ b)"
  using decimal_head [of n] by (auto simp: read_sign_def dest: digit_not_other)

lemma decimal_whole:
  "takeWhile is_digit (decimal n) = decimal n" "dropWhile is_digit (decimal n) = []"
  "dropWhile is_space (decimal n) = decimal n" "read_sign (decimal n) = (False, decimal n)"
  using takeWhile_digits [of "[]" n] decimal_start [of n "[]"] unfolding append_Nil2 by (simp_all only: list.set ball_empty simp_thms)

lemma atoi_decimal: "atoi (decimal n) = int n"
  by (simp add: atoi_def signed_def digits_value_decimal decimal_whole)

lemma stoi_decimal: "n < 2 ^ 31 \<Longrightarrow> stoi (decimal n) = Inr (int n)"
  by (simp add: stoi_def atoi_decimal decimal_nonempty decimal_whole)

lemma atof_decimal: "atof (decimal n) = of_nat n"
proof -
  have "digits_value [] = 0" by (simp add: digits_value_def)
  then show ?thesis
    by (simp add: atof_def Let_def signed_def digits_value_decimal read_exponent_def power_of_ten_def decimal_nonempty
        decimal_whole)
qed

lemma decimal_word: "word_param (decimal n)" "good_param (decimal n)"
proof -
  have digit: "is_digit c \<Longrightarrow> c \<noteq> CHR '','' \<and> c \<noteq> CHR ''(''" for c by (drule digit_not_other) simp
  then show word: "word_param (decimal n)" using decimal_digits [of n] by (auto simp: word_param_def)
  have "is_digit (hd (decimal n))" "is_digit (last (decimal n))" using decimal_digits [of n] decimal_nonempty [of n] by simp_all
  then show "good_param (decimal n)" using word decimal_nonempty [of n] digit_not_other by (simp add: good_param_def)
qed

end
