(* ===== verification/TaskSetFile.thy ===== *)
theory TaskSetFile
  imports MainProgram_Laws Yaml_Laws StrToken_Laws
begin

text \<open>
  The files of tasks: the text of a list of tasks, written as a document, and the round trip.  What is read of the text
  are these tasks and no others, made and put in servers as they are described.
\<close>

section \<open>The text of a set of tasks\<close>

definition task_doc :: "task_spec \<Rightarrow> ydoc" where
  "task_doc ts = YMap ((''name'', YScalar (ts_name ts)) # (''code'', YSeq (map YScalar (ts_code ts))) #
     map (\<lambda>(k, v). (k, YScalar (decimal_int v)))
       [(''startcpu'', ts_startcpu ts), (''iat'', ts_iat ts), (''deadline'', ts_deadline ts), (''cbs_runtime'', ts_cbs_runtime ts),
        (''cbs_period'', ts_cbs_period ts), (''cbs_deadline'', ts_cbs_deadline ts), (''ph'', ts_ph ts), (''qs'', ts_qs ts)])"

definition taskset_doc :: "task_spec list \<Rightarrow> ydoc" where
  "taskset_doc tss = YMap [(''taskset'', YSeq (map task_doc tss))]"

text \<open>Tasks that can be written: numbers that are not negative and fit, and code that ends every instruction.\<close>

definition fits :: "nat \<Rightarrow> int \<Rightarrow> bool" where
  "fits w i \<longleftrightarrow> 0 \<le> i \<and> i < 2 ^ w"

definition spec_ok :: "task_spec \<Rightarrow> bool" where
  "spec_ok ts \<longleftrightarrow> word (ts_name ts) \<and> fits 31 (ts_startcpu ts) \<and> ts_code ts \<noteq> [] \<and>
     (\<forall>c\<in>set (ts_code ts). word c \<and> last c = CHR '';'') \<and>
     (\<forall>i\<in>{ts_iat ts, ts_deadline ts, ts_cbs_runtime ts, ts_cbs_period ts, ts_cbs_deadline ts, ts_ph ts, ts_qs ts}. fits 63 i)"

lemma decimal_fits: "fits w i \<Longrightarrow> decimal_int i = decimal (nat i)"
  by (simp add: fits_def decimal_int_def)

lemma digit_plain: "is_digit c \<Longrightarrow> plain_char c \<and> c \<noteq> CHR '':'' \<and> nonblank c \<and> c \<noteq> CHR ''-'' \<and> c \<noteq> CHR ''[''"
  by (auto simp: plain_char_def nonblank_def newline_def is_digit_def)

lemma word_number: "fits w i \<Longrightarrow> word (decimal_int i)"
  using decimal_digits [of "nat i"] decimal_nonempty [of "nat i"]
  by (auto simp: decimal_fits word_def digit_plain)

lemma number_nonempty: "fits w i \<Longrightarrow> 0 < length (decimal_int i)"
  by (simp add: decimal_fits decimal_nonempty)

lemma stol_number: "fits 63 i \<Longrightarrow> stol (decimal_int i) = Inr i"
  by (simp add: decimal_fits stol_def atoi_decimal decimal_nonempty decimal_whole) (simp add: fits_def)

lemma stoi_number: "fits 31 i \<Longrightarrow> stoi (decimal_int i) = Inr i"
  using stoi_decimal [of "nat i"] by (simp add: decimal_fits) (simp add: fits_def nat_less_iff)

lemma number_read: "fits 63 i \<Longrightarrow> number_or stol d (decimal_int i) = Inr i" "fits 31 i \<Longrightarrow> number_or stoi d (decimal_int i) = Inr i"
  using number_nonempty by (simp_all add: number_or_def stol_number stoi_number)

lemma key_words: "word ''name''" "word ''code''" "word ''startcpu''" "word ''iat''" "word ''deadline''" "word ''cbs_runtime''"
  "word ''cbs_period''" "word ''cbs_deadline''" "word ''ph''" "word ''qs''" "word ''taskset''"
  by (simp_all add: word_def plain_char_def nonblank_def newline_def)

lemma task_doc_writable:
  assumes "spec_ok ts"
  shows "writable (task_doc ts)"
proof -
  have num: "fits 31 (ts_startcpu ts)" "fits 63 (ts_iat ts)" "fits 63 (ts_deadline ts)" "fits 63 (ts_cbs_runtime ts)" "fits 63 (ts_cbs_period ts)"
    "fits 63 (ts_cbs_deadline ts)" "fits 63 (ts_ph ts)" "fits 63 (ts_qs ts)"
    and code: "word (ts_name ts)" "ts_code ts \<noteq> []" "\<forall>c\<in>set (ts_code ts). word c"
    using assms by (simp_all add: spec_ok_def)
  show ?thesis using code by (simp add: task_doc_def key_words num [THEN word_number])
qed

lemma taskset_writable: "tss \<noteq> [] \<Longrightarrow> \<forall>ts\<in>set tss. spec_ok ts \<Longrightarrow> writable (taskset_doc tss)"
  by (simp add: taskset_doc_def key_words task_doc_writable)

lemma instr_texts_same: "\<forall>c\<in>set cs. word c \<and> last c = CHR '';'' \<Longrightarrow> instr_texts (map (y_scalar \<circ> (obj_of \<circ> YScalar)) cs) = cs"
proof -
  assume cs: "\<forall>c\<in>set cs. word c \<and> last c = CHR '';''"
  then have "c \<noteq> []" if "c \<in> set cs" for c using that by (simp add: word_def)
  then have "filter (\<lambda>i. \<not> length i < 1) cs = cs" by (simp add: filter_id_conv less_Suc_eq_0_disj)
  moreover have "map (\<lambda>i. if last i \<noteq> CHR '';'' then i @ '';'' else i) cs = cs" using cs by (intro map_idI) simp
  ultimately show ?thesis by (simp add: instr_texts_def comp_def)
qed

lemma task_attrs:
  "attr_str ''name'' (obj_of (task_doc ts)) = ts_name ts" "attr_str ''startcpu'' (obj_of (task_doc ts)) = decimal_int (ts_startcpu ts)"
  "attr_str ''iat'' (obj_of (task_doc ts)) = decimal_int (ts_iat ts)" "attr_str ''deadline'' (obj_of (task_doc ts)) = decimal_int (ts_deadline ts)"
  "attr_str ''ph'' (obj_of (task_doc ts)) = decimal_int (ts_ph ts)" "attr_str ''qs'' (obj_of (task_doc ts)) = decimal_int (ts_qs ts)"
  "attr_or_zero ''cbs_runtime'' (obj_of (task_doc ts)) = decimal_int (ts_cbs_runtime ts)"
  "attr_or_zero ''cbs_period'' (obj_of (task_doc ts)) = decimal_int (ts_cbs_period ts)"
  "attr_or_zero ''cbs_deadline'' (obj_of (task_doc ts)) = decimal_int (ts_cbs_deadline ts)"
  "map y_scalar (y_list (attr_obj ''code'' (obj_of (task_doc ts)))) = map (y_scalar \<circ> (obj_of \<circ> YScalar)) (ts_code ts)"
  by (simp_all add: task_doc_def attr_str_def attr_obj_def get_attr_def attr_or_zero_def has_def)

lemma read_task_doc:
  assumes "spec_ok ts"
  shows "read_task (obj_of (task_doc ts)) = Inr ts"
proof -
  have "fits 31 (ts_startcpu ts)" "fits 63 (ts_iat ts)" "fits 63 (ts_deadline ts)" "fits 63 (ts_cbs_runtime ts)" "fits 63 (ts_cbs_period ts)"
    "fits 63 (ts_cbs_deadline ts)" "fits 63 (ts_ph ts)" "fits 63 (ts_qs ts)" "\<forall>c\<in>set (ts_code ts). word c \<and> last c = CHR '';''"
    using assms by (simp_all add: spec_ok_def)
  then show ?thesis by (simp only: read_task_def task_attrs number_read instr_texts_same bindE.simps) simp
qed

section \<open>What is made of it\<close>

definition task_as :: "task_spec \<Rightarrow> task \<Rightarrow> bool" where
  "task_as ts k \<longleftrightarrow> int_time k = Some (DeltaVar (ts_iat ts)) \<and> rdl k = ts_deadline ts \<and> phase k = ts_ph ts \<and> arrQueueSize k = ts_qs ts"

definition server_as :: "task_spec \<Rightarrow> nat \<Rightarrow> server \<Rightarrow> bool" where
  "server_as ts t x \<longleftrightarrow> cbs_Q x = ts_cbs_runtime ts \<and> cbs_P x = ts_cbs_period ts \<and> cbs_d x = ts_cbs_deadline ts \<and>
     cbs_HR x \<and> srv_tasks x = [TaskRef t]"

definition made_as :: "task_spec \<Rightarrow> nat \<Rightarrow> placement \<Rightarrow> rtprogram \<Rightarrow> bool" where
  "made_as ts t x p \<longleftrightarrow> t < prog_tasks p \<and> task_as ts (tasks (sys_world p) t) \<and> snd x = ts_startcpu ts \<and>
     (if 0 < ts_cbs_period ts
      then \<exists>s<prog_servers p. fst x = ServerRef s \<and> server_as ts t (servers (sys_world p) s) \<and> tkernel (tasks (sys_world p) t) = Some (KServer s)
      else fst x = TaskRef t \<and> tkernel (tasks (sys_world p) t) = None)"

text \<open>What is made later leaves it as it is.\<close>

definition grows :: "rtprogram \<Rightarrow> rtprogram \<Rightarrow> bool" where
  "grows p p' \<longleftrightarrow> prog_tasks p \<le> prog_tasks p' \<and> prog_servers p \<le> prog_servers p' \<and>
     (\<forall>t<prog_tasks p. tasks (sys_world p') t = tasks (sys_world p) t) \<and>
     (\<forall>s<prog_servers p. servers (sys_world p') s = servers (sys_world p) s)"

lemma grows_trans: "grows p q \<Longrightarrow> grows q r \<Longrightarrow> grows p r"
  by (simp add: grows_def)

lemma made_grows: "grows p p' \<Longrightarrow> made_as ts t x p \<Longrightarrow> made_as ts t x p'"
  unfolding made_as_def grows_def by (auto split: if_splits intro: less_le_trans)

lemma new_other_world:
  "new_other n e p = Inr p' \<Longrightarrow> sys_world p' = sys_world p \<and> prog_tasks p' = prog_tasks p \<and> prog_servers p' = prog_servers p"
  by (auto elim!: new_other_cases)

lemma make_task_made:
  assumes "make_task pe ts p = Some (Inr (t, p'))"
  shows "t = prog_tasks p" "prog_tasks p' = Suc t" "prog_servers p' = prog_servers p" "servers (sys_world p') = servers (sys_world p)"
    and "\<And>u. u < t \<Longrightarrow> tasks (sys_world p') u = tasks (sys_world p) u"
    and "task_as ts (tasks (sys_world p') t)" "tkernel (tasks (sys_world p') t) = None"
  using assms by (auto simp: make_task_def Let_def bindN_def on_world_def task_as_def Task_ctor_def split: option.splits sum.splits)

lemma make_server_made:
  assumes "make_server ts p = Inr (i, p')"
  shows "i = prog_servers p" "prog_servers p' = Suc i" "prog_tasks p' = prog_tasks p" "tasks (sys_world p') = tasks (sys_world p)"
    and "\<And>j. j < i \<Longrightarrow> servers (sys_world p') j = servers (sys_world p) j"
    and "\<exists>n m. servers (sys_world p') i = CBServer_ctor m (ts_cbs_runtime ts) (ts_cbs_period ts) (ts_cbs_deadline ts) True n"
proof -
  obtain p1 kind n p2 p3 where p1: "new_other (''cbserver_'' @ ts_name ts) (Some (CBServerEnt i)) p = Inr p1"
    and p2: "new_scheduler kind p1 = Inr (n, p2)" and p3: "new_other [] (Some (CapacityTimerEnt i)) p2 = Inr p3"
    and i: "i = prog_servers p"
    and p': "p' = on_world (\<lambda>w. Scheduler_setKernel n (KServer i) (upd_server i (\<lambda>_. CBServer_ctor (IDcount (sys_names p1))
               (ts_cbs_runtime ts) (ts_cbs_period ts) (ts_cbs_deadline ts) True n) w)) (p3\<lparr>prog_servers := Suc i\<rparr>)"
    using assms unfolding make_server_def Let_def by (auto simp: bindE_eq_Inr simp del: split_paired_Ex split: option.splits)
  have p2': "prog_tasks p2 = prog_tasks p1" "prog_servers p2 = prog_servers p1" "tasks (sys_world p2) = tasks (sys_world p1)"
      "servers (sys_world p2) = servers (sys_world p1)"
    using p2 by (auto simp: new_scheduler_def Let_def bindE_eq_Inr on_world_def dest!: new_other_world)
  note same = new_other_world [OF p1] new_other_world [OF p3] p2'
  show "i = prog_servers p" by (rule i)
  show "prog_servers p' = Suc i" "prog_tasks p' = prog_tasks p" "tasks (sys_world p') = tasks (sys_world p)"
    "\<And>j. j < i \<Longrightarrow> servers (sys_world p') j = servers (sys_world p) j"
    "\<exists>n m. servers (sys_world p') i = CBServer_ctor m (ts_cbs_runtime ts) (ts_cbs_period ts) (ts_cbs_deadline ts) True n"
    using same by (auto simp: p' on_world_def Scheduler_setKernel_def)
qed

lemma add_to_server_made:
  assumes "add_to_server i t p = Inr p'"
  shows "prog_servers p' = prog_servers p" "prog_tasks p' = prog_tasks p"
    and "tasks (sys_world p') = (tasks (sys_world p))(t := (tasks (sys_world p) t)\<lparr>tkernel := Some (KServer i)\<rparr>)"
    and "servers (sys_world p') = (servers (sys_world p))(i := (servers (sys_world p) i)\<lparr>srv_tasks := srv_tasks (servers (sys_world p) i) @ [TaskRef t],
       cbs_yielding := False\<rparr>)"
  using assms by (auto simp: add_to_server_def CBServer_addTask_def Server_addTask_def Task_setKernel_def bindE_eq_Inr know_def upd_defs
      split: if_splits elim!: addTask_knows)

lemma make_placement_made:
  assumes "make_placement pe o1 p = Some (Inr (x, p'))" and "read_task o1 = Inr ts"
  shows "grows p p'" and "prog_tasks p' = Suc (prog_tasks p)" and "made_as ts (prog_tasks p) x p'"
proof -
  obtain t p1 where t: "make_task pe ts p = Some (Inr (t, p1))"
    and rest: "(if 0 < ts_cbs_period ts then Some (bindE (make_server ts p1) (\<lambda>(s, p2).
           bindE (add_to_server s t p2) (\<lambda>p3. Inr ((ServerRef s, ts_startcpu ts), p3))))
       else Some (Inr ((TaskRef t, ts_startcpu ts), p1))) = Some (Inr (x, p'))"
    using assms unfolding make_placement_def bindN_def by (auto split: option.splits sum.splits prod.splits)
  note tk = make_task_made [OF t]
  have "grows p p' \<and> prog_tasks p' = Suc (prog_tasks p) \<and> made_as ts (prog_tasks p) x p'"
  proof (cases "0 < ts_cbs_period ts")
    case True
    then obtain q where "make_server ts p1 = Inr q" using rest by (auto simp: bindE_eq_Inr)
    then obtain i p2 where i: "make_server ts p1 = Inr (i, p2)" by (cases q) auto
    with True rest obtain p3 where p3: "add_to_server i t p2 = Inr p3" and x: "x = (ServerRef i, ts_startcpu ts)" "p' = p3"
      by (auto simp: bindE_eq_Inr)
    note sv = make_server_made [OF i] and ad = add_to_server_made [OF p3]
    from sv(6) obtain n m where "servers (sys_world p2) i = CBServer_ctor m (ts_cbs_runtime ts) (ts_cbs_period ts) (ts_cbs_deadline ts) True n" by blast
    then have "server_as ts t (servers (sys_world p') i)" by (simp add: x(2) ad server_as_def CBServer_ctor_def)
    moreover have "task_as ts (tasks (sys_world p') t)" using tk(6) by (simp add: x(2) ad sv task_as_def)
    ultimately show ?thesis using True tk sv by (simp add: x ad grows_def made_as_def)
  next
    case False
    with rest tk show ?thesis by (auto simp: grows_def made_as_def)
  qed
  then show "grows p p'" and "prog_tasks p' = Suc (prog_tasks p)" and "made_as ts (prog_tasks p) x p'" by auto
qed

lemma make_placements_made:
  assumes "make_placements pe os p = Some (Inr (xs, p'))" and "map read_task os = map Inr tss"
  shows "grows p p' \<and> prog_tasks p' = prog_tasks p + length tss \<and> length xs = length tss \<and>
    (\<forall>i<length tss. made_as (tss ! i) (prog_tasks p + i) (xs ! i) p')"
  using assms
proof (induction os arbitrary: p xs tss)
  case Nil
  then show ?case by (simp add: grows_def)
next
  case (Cons o1 os)
  then obtain x p1 ys where x: "make_placement pe o1 p = Some (Inr (x, p1))"
    and ys: "make_placements pe os p1 = Some (Inr (ys, p'))" and xs: "xs = x # ys"
    by (auto simp: bindN_def split: option.splits sum.splits prod.splits)
  from Cons.prems(2) obtain ts us where ts: "read_task o1 = Inr ts" "tss = ts # us" and us: "map read_task os = map Inr us"
    by (cases tss) auto
  note one = make_placement_made [OF x ts(1)] and rest = Cons.IH [OF ys us]
  have "made_as (tss ! i) (prog_tasks p + i) (xs ! i) p'" if "i < length tss" for i
    using that rest one made_grows [of p1 p'] by (cases i) (auto simp: ts(2) xs)
  with rest one show ?case by (auto simp: ts(2) xs intro: grows_trans)
qed

lemma taskset_objs:
  assumes "fe_text fe f = Some (ytext (ylines 0 (taskset_doc tss)))" and "tss \<noteq> []" and "\<forall>ts\<in>set tss. spec_ok ts"
  shows "parse_file fe f = Some (Inr (obj_of (taskset_doc tss)))"
    and "map read_task (y_list (attr_obj ''taskset'' (obj_of (taskset_doc tss)))) = map Inr tss"
proof -
  show "parse_file fe f = Some (Inr (obj_of (taskset_doc tss)))"
    using assms(1) yaml_parse_doc [OF taskset_writable [OF assms(2,3)]] by (simp add: parse_file_def)
  show "map read_task (y_list (attr_obj ''taskset'' (obj_of (taskset_doc tss)))) = map Inr tss"
    using assms(3) by (simp add: taskset_doc_def attr_obj_def get_attr_def read_task_doc)
qed

section \<open>Where it is placed\<close>

definition told_kernel :: "rtkref \<Rightarrow> absTask \<Rightarrow> world \<Rightarrow> bool" where
  "told_kernel r a w \<longleftrightarrow> (case a of TaskRef t \<Rightarrow> tkernel (tasks w t) = Some (KRoot r) | ServerRef i \<Rightarrow> srv_kernel (servers w i) = Some r)"

lemma kernel_addTask_told: "kernel_addTask r a w = Inr w' \<Longrightarrow> tasks w' = tasks (told r a w) \<and> servers w' = servers (told r a w)"
  by (erule kernel_addTask_cases) simp

text \<open>Placing only says to the tasks and servers on which kernel they are.\<close>

definition but_kernels :: "world \<Rightarrow> world \<Rightarrow> bool" where
  "but_kernels w w' \<longleftrightarrow> (\<forall>t. (tasks w' t)\<lparr>tkernel := None\<rparr> = (tasks w t)\<lparr>tkernel := None\<rparr>) \<and>
     (\<forall>i. (servers w' i)\<lparr>srv_kernel := None\<rparr> = (servers w i)\<lparr>srv_kernel := None\<rparr>)"

lemma but_kernels_told:
  assumes "tasks w' = tasks (told r a w)" and "servers w' = servers (told r a w)"
  shows "but_kernels w w'"
  using assms by (cases a) (auto simp: but_kernels_def told_def upd_defs)

lemma but_kernels_as:
  assumes "but_kernels w w'"
  shows "task_as ts (tasks w' t) = task_as ts (tasks w t)" and "server_as ts u (servers w' i) = server_as ts u (servers w i)"
proof -
  have "task_as ts k = task_as ts (k\<lparr>tkernel := None\<rparr>)" for k by (simp add: task_as_def)
  then show "task_as ts (tasks w' t) = task_as ts (tasks w t)" using assms by (metis but_kernels_def)
  have "server_as ts u x = server_as ts u (x\<lparr>srv_kernel := None\<rparr>)" for x by (simp add: server_as_def)
  then show "server_as ts u (servers w' i) = server_as ts u (servers w i)" using assms by (metis but_kernels_def)
qed

definition same_system :: "rtprogram \<Rightarrow> rtprogram \<Rightarrow> bool" where
  "same_system p p' \<longleftrightarrow> sys_cpus p' = sys_cpus p \<and> sys_platform p' = sys_platform p \<and> sys_kernels p' = sys_kernels p \<and>
     prog_tasks p' = prog_tasks p \<and> prog_servers p' = prog_servers p"

lemma same_system_kernel: "same_system p p' \<Longrightarrow> cpu_kernel c p' = cpu_kernel c p"
  by (simp add: same_system_def cpu_kernel_def cong: option.case_cong)

lemma told_keeps:
  assumes "tasks w' = tasks (told r a w)" and "servers w' = servers (told r a w)" and "b \<noteq> a"
  shows "told_kernel r' b w' = told_kernel r' b w"
  using assms by (auto simp: told_kernel_def split: absTask.split)

lemma place_all_told:
  assumes "place_all xs p = Inr p'" and "distinct (map fst xs)"
  shows "same_system p p' \<and> but_kernels (sys_world p) (sys_world p') \<and>
    (\<forall>(a, c)\<in>set xs. \<exists>r. cpu_kernel c p = Inr r \<and> told_kernel r a (sys_world p')) \<and>
    (\<forall>b. b \<notin> fst ` set xs \<longrightarrow> (\<forall>r. told_kernel r b (sys_world p') = told_kernel r b (sys_world p)))"
  using assms
proof (induction xs arbitrary: p)
  case Nil
  then show ?case by (simp add: same_system_def but_kernels_def)
next
  case (Cons x xs)
  obtain a c where x: "x = (a, c)" by (cases x)
  with Cons.prems(1) obtain r w where r: "cpu_kernel c p = Inr r" and w: "kernel_addTask r a (sys_world p) = Inr w"
    and rest: "place_all xs (p\<lparr>sys_world := w\<rparr>) = Inr p'" by (auto simp: bindE_eq_Inr)
  note told = kernel_addTask_told [OF w]
  have a: "a \<notin> fst ` set xs" and d: "distinct (map fst xs)" using Cons.prems(2) by (auto simp: x)
  have same: "same_system p (p\<lparr>sys_world := w\<rparr>)" by (simp add: same_system_def)
  note ih = Cons.IH [OF rest d]
  have "told_kernel r a w" using told by (auto simp: told_kernel_def split: absTask.split)
  then have "told_kernel r a (sys_world p')" using ih a by simp
  moreover have "but_kernels (sys_world p) (sys_world p')"
    using ih but_kernels_told [OF conjunct1 [OF told] conjunct2 [OF told]] by (simp add: but_kernels_def)
  moreover have "same_system p p'" using same ih by (simp add: same_system_def)
  moreover have "\<exists>r. cpu_kernel c' p = Inr r \<and> told_kernel r b (sys_world p')" if "(b, c') \<in> set xs" for b c'
    using ih that same_system_kernel [OF same] by fastforce
  moreover have "told_kernel r' b (sys_world p') = told_kernel r' b (sys_world p)" if "b \<noteq> a" "b \<notin> fst ` set xs" for b r'
    using ih that told_keeps [OF conjunct1 [OF told] conjunct2 [OF told] that(1)] by simp
  ultimately show ?case using r by (auto simp: x)
qed

lemma make_resources_tasks: "make_resources os p = Inr p' \<Longrightarrow> prog_tasks p' = prog_tasks p"
  by (induction os arbitrary: p) (auto simp: make_resource_def Let_def bindE_eq_Inr on_world_def dest!: new_other_world split: if_splits)

text \<open>What a program that was set up has of a task that is written.\<close>

definition served_as :: "task_spec \<Rightarrow> nat \<Rightarrow> nat \<Rightarrow> rtprogram \<Rightarrow> bool" where
  "served_as ts t s p \<longleftrightarrow> s < prog_servers p \<and> server_as ts t (servers (sys_world p) s) \<and>
     (\<exists>r. cpu_kernel (ts_startcpu ts) p = Inr r \<and> srv_kernel (servers (sys_world p) s) = Some r)"

definition set_up_as :: "task_spec \<Rightarrow> nat \<Rightarrow> rtprogram \<Rightarrow> bool" where
  "set_up_as ts t p \<longleftrightarrow> t < prog_tasks p \<and> task_as ts (tasks (sys_world p) t) \<and>
     (if 0 < ts_cbs_period ts then \<exists>s. served_as ts t s p
      else \<exists>r. cpu_kernel (ts_startcpu ts) p = Inr r \<and> tkernel (tasks (sys_world p) t) = Some (KRoot r))"

lemma made_distinct:
  assumes "\<forall>i<length tss. made_as (tss ! i) i (xs ! i) p" and "length xs = length tss"
  shows "distinct (map fst xs)"
  unfolding distinct_conv_nth
proof (intro allI impI)
  fix i j assume ij: "i < length (map fst xs)" "j < length (map fst xs)" "i \<noteq> j"
  then have "made_as (tss ! i) i (xs ! i) p" "made_as (tss ! j) j (xs ! j) p" using assms by simp_all
  then show "map fst xs ! i \<noteq> map fst xs ! j" using ij by (auto simp: made_as_def server_as_def split: if_splits)
qed

lemma main_setup_made:
  assumes "main_setup ex pe fe opts = Some (Inr p)" and "fe_text fe (opt_taskset opts) = Some (ytext (ylines 0 (taskset_doc tss)))"
    and "tss \<noteq> []" and "\<forall>ts\<in>set tss. spec_ok ts"
  shows "prog_tasks p = length tss \<and> (\<forall>i<length tss. set_up_as (tss ! i) i p)"
proof -
  note objs = taskset_objs [OF assms(2-4)]
  obtain sys p1 p2 xs where p1: "read_resources fe (opt_taskset opts) (with_program sys) = Some (Inr p1)"
    and p2: "read_taskset pe fe (opt_taskset opts) (on_world (\<lambda>w. fold kernel_setResManager (sys_kernels p1) w) p1) = Some (Inr (xs, p2))"
    and p: "place_all xs p2 = Inr p"
    using assms(1) by (auto simp: main_setup_def bindN_def split: option.splits sum.splits prod.splits)
  obtain os q where "new_other [] (Some (ResManEnt 0)) (with_program sys) = Inr q" "make_resources os q = Inr p1"
    using p1 by (auto simp: read_resources_def bindN_def bindE_eq_Inr split: option.splits sum.splits)
  then have "prog_tasks p1 = 0" using new_other_world make_resources_tasks by (fastforce simp: with_program_def system.defs)
  then have n: "prog_tasks (on_world (\<lambda>w. fold kernel_setResManager (sys_kernels p1) w) p1) = 0" by (simp add: on_world_def)
  have "make_placements pe (y_list (attr_obj ''taskset'' (obj_of (taskset_doc tss)))) (on_world (\<lambda>w. fold kernel_setResManager (sys_kernels p1) w) p1) = Some (Inr (xs, p2))"
    using p2 objs(1) by (simp add: read_taskset_def bindN_def)
  from make_placements_made [OF this objs(2)] have made: "\<forall>i<length tss. made_as (tss ! i) i (xs ! i) p2"
    and len: "prog_tasks p2 = length tss" "length xs = length tss" by (simp_all add: n)
  note placed = place_all_told [OF p made_distinct [OF made len(2)]]
  have same: "same_system p2 p" and but: "but_kernels (sys_world p2) (sys_world p)" using placed by simp_all
  have "set_up_as (tss ! i) i p" if i: "i < length tss" for i
  proof -
    let ?ts = "tss ! i"
    have m: "made_as ?ts i (xs ! i) p2" and x: "xs ! i \<in> set xs" using made i len(2) by simp_all
    then obtain r where r: "cpu_kernel (ts_startcpu ?ts) p = Inr r" "told_kernel r (fst (xs ! i)) (sys_world p)"
      using placed same_system_kernel [OF same] by (fastforce simp: made_as_def)
    have "task_as ?ts (tasks (sys_world p) i)" "i < prog_tasks p" using m same but_kernels_as [OF but] by (simp_all add: made_as_def same_system_def)
    moreover have "served_as ?ts i s p" if s: "s < prog_servers p2" "fst (xs ! i) = ServerRef s" "server_as ?ts i (servers (sys_world p2) s)" for s
      using s r same but_kernels_as [OF but] by (simp add: served_as_def told_kernel_def same_system_def)
    ultimately show ?thesis using m r by (auto simp: set_up_as_def made_as_def told_kernel_def split: if_splits)
  qed
  with len(1) same show ?thesis by (simp add: same_system_def)
qed

end
