(* ===== verification/TaskText_Laws.thy ===== *)
theory TaskText_Laws
  imports TaskText StrToken_Laws
begin

text \<open>
  The language of \<open>insertCode\<close> as it is documented in \<open>task.hpp\<close>, with its printer, and that the parser of the
  code reads what is printed; the same for times.
\<close>

section \<open>Times\<close>

lemma find_from_unit:
  assumes "\<forall>c\<in>set a. \<not> P c" and "u = [] \<or> P (hd u)"
  shows "find_from P (a @ u) 0 = (if u = [] then npos else length a)"
  using assms find_from_hit [of a P "hd u" "[]" "tl u"] find_from_miss [of a P "[]"] by (cases u) auto

lemma parse_double_decimal:
  assumes "u \<in> {[], ''s'', ''ms'', ''us'', ''ns''}" and "length (decimal n @ u) < npos"
  shows "parse_double (decimal n @ u) = Inr (of_nat n, u)"
proof -
  let ?P = "\<lambda>c. c \<in> set ''smnu''"
  have no: "\<forall>c\<in>set (decimal n). \<not> ?P c" using decimal_digits [of n] digit_not_other by auto
  have "u = [] \<or> ?P (hd u)" using assms(1) by auto
  note pos = find_from_unit [OF no this]
  have "\<not> blank (hd (decimal n @ u))" "\<not> blank (last (decimal n @ u))"
    using decimal_head [of n] decimal_word(2) [of n] assms(1)
    by (auto simp: good_param_def blank_def dest: digit_not_other)
  then have "trim (decimal n @ u) = decimal n @ u" by (intro trim_id) simp
  then have sp: "remove_spaces (decimal n @ u) = Inr (decimal n @ u)"
    using remove_spaces_trim [OF assms(2)] by simp
  have "length (decimal n) \<le> npos" using assms(2) by simp
  then show ?thesis
    using pos assms(2) by (auto simp: parse_double_def sp Let_def str_substr_def sz_sub_def atof_decimal)
qed

section \<open>The language of instructions\<close>

datatype code_var = DeltaC nat | UnifC nat nat | NormalC nat nat | ExpC nat | ParetoC nat nat | PoissonC nat

datatype code_instr = FixedC nat | WorkC nat string | DelayC code_var | WaitC string | SignalC string | SuspendC nat

definition call_text :: "string \<Rightarrow> string list \<Rightarrow> string" where
  "call_text tok ps = tok @ CHR ''('' # commas ps @ '')''"

fun var_call :: "code_var \<Rightarrow> string \<times> string list" where
  "var_call (DeltaC a) = (''delta'', [decimal a])"
| "var_call (UnifC a b) = (''unif'', [decimal a, decimal b])"
| "var_call (NormalC a b) = (''normal'', [decimal a, decimal b])"
| "var_call (ExpC a) = (''exp'', [decimal a])"
| "var_call (ParetoC a b) = (''pareto'', [decimal a, decimal b])"
| "var_call (PoissonC a) = (''poisson'', [decimal a])"

fun var_of :: "code_var \<Rightarrow> rvar" where
  "var_of (DeltaC a) = DeltaV (of_nat a)"
| "var_of (UnifC a b) = UniformV (UniformVar_ctor (of_nat a) (of_nat b))"
| "var_of (NormalC a b) = NormalV unit_uniform (of_nat a) (of_nat b)"
| "var_of (ExpC a) = ExponentialV unit_uniform (of_nat a)"
| "var_of (ParetoC a b) = ParetoV unit_uniform (of_nat a) (of_nat b)"
| "var_of (PoissonC a) = PoissonV unit_uniform (of_nat a)"

definition var_text :: "code_var \<Rightarrow> string" where
  "var_text v = call_text (fst (var_call v)) (snd (var_call v))"

fun instr_call :: "code_instr \<Rightarrow> string \<times> string list" where
  "instr_call (FixedC n) = (''fixed'', [decimal n])"
| "instr_call (WorkC n w) = (''fixed'', [decimal n, w])"
| "instr_call (DelayC v) = (''delay'', [var_text v])"
| "instr_call (WaitC r) = (''wait'', [r])"
| "instr_call (SignalC r) = (''signal'', [r])"
| "instr_call (SuspendC n) = (''suspend'', [decimal n])"

fun instr_of :: "parse_env \<Rightarrow> code_instr \<Rightarrow> instr" where
  "instr_of pe (FixedC n) = ExecInstr (FixedInstr_ctor (int n) [])"
| "instr_of pe (WorkC n w) = ExecInstr (FixedInstr_ctor (int n) w)"
| "instr_of pe (DelayC v) = ExecInstr (ExecInstr_ctor (pe_draws pe (var_of v)) [])"
| "instr_of pe (WaitC r) = WaitInstr r 1 False"
| "instr_of pe (SignalC r) = SignalInstr r 1"
| "instr_of pe (SuspendC n) = SuspendInstr (int n)"

definition instr_text :: "code_instr \<Rightarrow> string" where
  "instr_text i = call_text (fst (instr_call i)) (snd (instr_call i))"

definition code_text :: "code_instr list \<Rightarrow> string" where
  "code_text is = concat (map (\<lambda>i. instr_text i @ '';'') is)"

text \<open>The names of resources and workloads that can be written, and the numbers that \<open>stoi\<close> can read.\<close>

definition name_ok :: "string \<Rightarrow> bool" where
  "name_ok n \<longleftrightarrow> n \<noteq> [] \<and> \<not> blank (hd n) \<and> \<not> blank (last n) \<and> set n \<inter> set '',();'' = {}"

fun instr_ok :: "code_instr \<Rightarrow> bool" where
  "instr_ok (FixedC n) = (n < 2 ^ 31)"
| "instr_ok (WorkC n w) = (n < 2 ^ 31 \<and> name_ok w)"
| "instr_ok (DelayC v) = True"
| "instr_ok (WaitC r) = name_ok r"
| "instr_ok (SignalC r) = name_ok r"
| "instr_ok (SuspendC n) = (n < 2 ^ 31)"

section \<open>Reading what is printed\<close>

lemma var_params_good: "snd (var_call v) \<noteq> [] \<and> (\<forall>p\<in>set (snd (var_call v)). good_param p)"
  by (cases v) (simp_all add: decimal_word)

lemma var_token: "CHR ''('' \<notin> set (fst (var_call v)) \<and> fst (var_call v) \<noteq> [] \<and>
    hd (fst (var_call v)) \<notin> {CHR '' '', CHR 0x0A} \<and> \<not> is_digit (hd (fst (var_call v))) \<and> CHR '','' \<notin> set (fst (var_call v))"
  by (cases v) (simp_all add: is_digit_def)

lemma var_of_text_reads:
  assumes "length (var_text v) < npos"
  shows "var_of_text fs who (var_text v) = Some (Inr (var_of v))"
proof -
  have "token_params (var_text v) = Some (Inr (var_call v))"
    unfolding var_text_def call_text_def
    using var_params_good [of v] var_token [of v] assms
    by (subst token_params_text) (auto simp: var_text_def call_text_def)
  moreover have "factory_create (RandomVar_factory fs) (fst (var_call v)) (snd (var_call v)) = Inr (Some (var_of v))"
    by (cases v) (simp_all add: factory_create_def RandomVar_factory_def one_param_def two_params_def atof_decimal
      DeltaVar_createInstance_def UniformVar_createInstance_def NormalVar_createInstance_def
      ExponentialVar_createInstance_def ParetoVar_createInstance_def PoissonVar_createInstance_def)
  ultimately show ?thesis by (cases "var_call v") (simp add: var_of_text_def bindN_def)
qed

lemma decimal_chars: "c \<in> set (decimal n) \<Longrightarrow> c \<notin> set '',();'' \<and> \<not> blank c"
  using decimal_digits [of n] digit_not_other by fastforce

lemma commas_chars: "c \<in> set (commas ps) \<Longrightarrow> c = CHR '','' \<or> (\<exists>p\<in>set ps. c \<in> set p)"
  by (induction ps rule: commas.induct) auto

lemma var_args_chars: "c \<in> set (commas (snd (var_call v))) \<Longrightarrow> c \<notin> set '')(;''"
proof -
  have "\<forall>p\<in>set (snd (var_call v)). \<exists>n. p = decimal n" by (cases v) auto
  then show "c \<in> set (commas (snd (var_call v))) \<Longrightarrow> ?thesis"
    by (auto dest!: commas_chars) (auto dest!: decimal_chars)
qed

lemma var_text_call: "call_param (var_text v)"
  unfolding call_param_def var_text_def call_text_def word_param_def
  using var_token [of v] var_args_chars [of _ v]
  by (intro exI [of _ "fst (var_call v)"] exI [of _ "commas (snd (var_call v))"]) auto

lemma var_text_good: "good_param (var_text v)"
proof -
  have "\<not> blank (hd (var_text v))" by (cases v) (simp_all add: var_text_def call_text_def blank_def)
  moreover have "\<not> blank (last (var_text v))" by (simp add: var_text_def call_text_def blank_def)
  ultimately show ?thesis using var_text_call [of v] by (simp add: good_param_def var_text_def call_text_def)
qed

lemma name_good: "name_ok n \<Longrightarrow> good_param n"
  by (auto simp: name_ok_def good_param_def word_param_def)

lemma instr_params_good: "instr_ok i \<Longrightarrow> snd (instr_call i) \<noteq> [] \<and> (\<forall>p\<in>set (snd (instr_call i)). good_param p)"
  by (cases i) (simp_all add: decimal_word var_text_good name_good)

lemma instr_token: "CHR ''('' \<notin> set (fst (instr_call i)) \<and> fst (instr_call i) \<noteq> [] \<and>
    hd (fst (instr_call i)) \<notin> {CHR '' '', CHR 0x0A}"
  by (cases i) simp_all

lemma instr_text_ok: "instr_ok i \<Longrightarrow> CHR '';'' \<notin> set (instr_text i) \<and> trim (instr_text i) = instr_text i"
proof (intro conjI)
  assume ok: "instr_ok i"
  have var: "CHR '';'' \<notin> set (var_text v)" for v
    using var_args_chars [of "CHR '';''" v] by (cases v) (auto simp: var_text_def call_text_def)
  show "CHR '';'' \<notin> set (instr_text i)"
    using ok var decimal_chars [of "CHR '';''"] by (cases i) (auto simp: instr_text_def call_text_def name_ok_def)
  show "trim (instr_text i) = instr_text i"
    by (rule trim_id) (cases i; simp add: instr_text_def call_text_def blank_def)
qed


section \<open>The registry while instructions are added\<close>

text \<open>No object is called as an object without a name would be next.\<close>

definition fresh_names :: "'p registry \<Rightarrow> bool" where
  "fresh_names r \<longleftrightarrow> 0 \<le> IDcount r \<and> (\<forall>k>IDcount r. index r (entity_type_name @ decimal_int k) = None)"

text \<open>Objects without names are added: what has a name keeps it, and no other name is taken.\<close>

definition user_name :: "string \<Rightarrow> bool" where
  "user_name n \<longleftrightarrow> n \<noteq> [] \<and> take (length entity_type_name) n \<noteq> entity_type_name"

definition adds_unnamed :: "'p registry \<Rightarrow> 'p registry \<Rightarrow> bool" where
  "adds_unnamed r r' \<longleftrightarrow> fresh_names r' \<and> IDcount r \<le> IDcount r'
     \<and> (\<forall>n. index r n \<noteq> None \<or> user_name n \<longrightarrow> index r' n = index r n)"

lemma adds_unnamed_trans: "adds_unnamed r r1 \<Longrightarrow> adds_unnamed r1 r2 \<Longrightarrow> adds_unnamed r r2"
  unfolding adds_unnamed_def by (metis order_trans)

lemma adds_unnamed_refl: "fresh_names r \<Longrightarrow> adds_unnamed r r"
  by (simp add: adds_unnamed_def)

lemma decimal_inj: "0 \<le> i \<Longrightarrow> 0 \<le> j \<Longrightarrow> decimal_int i = decimal_int j \<Longrightarrow> i = j"
proof -
  assume pos: "0 \<le> i" "0 \<le> j" and "decimal_int i = decimal_int j"
  then have "digits_value (decimal (nat i)) = digits_value (decimal (nat j))" by (simp only: decimal_int_def not_less if_not_P)
  then show "i = j" using pos unfolding digits_value_decimal by simp
qed

lemma unnamed_ctor:
  assumes "fresh_names r"
  shows "\<exists>r'. Entity_ctor p [] r = Inr r' \<and> adds_unnamed r r' \<and> (\<forall>x. x \<noteq> p \<longrightarrow> ent_name r' x = ent_name r x)"
proof -
  let ?n = "entity_type_name @ decimal_int (IDcount r + 1)"
  let ?r = "r\<lparr>IDcount := IDcount r + 1, ent_ID := (ent_ID r)(p := IDcount r + 1), ent_name := (ent_name r)(p := ?n),
     globMap := (globMap r)(IDcount r + 1 := Some p), index := (index r)(?n := Some p)\<rparr>"
  have free: "index r ?n = None" and pos: "0 \<le> IDcount r" using assms by (auto simp: fresh_names_def)
  have "index ?r (entity_type_name @ decimal_int k) = None" if "IDcount r + 1 < k" for k
    using that assms pos decimal_inj [of k "IDcount r + 1"] by (auto simp: fresh_names_def)
  then have fresh: "fresh_names ?r" using pos by (simp add: fresh_names_def)
  have run: "Entity_ctor p [] r = Inr ?r" using free by (simp add: Entity_ctor_def Entity_init_def Let_def)
  have "adds_unnamed r ?r \<and> (\<forall>x. x \<noteq> p \<longrightarrow> ent_name ?r x = ent_name r x)"
    using free fresh by (auto simp: adds_unnamed_def user_name_def)
  with run show ?thesis by blast
qed

lemma find_task_same: "index r n \<noteq> None \<Longrightarrow> index r' n = index r n \<Longrightarrow> find_task r' n = find_task r n"
  by (simp add: find_task_def Entity_find_def)

lemma insert_one_reads:
  assumes "instr_ok i" and "length (instr_text i) < npos" and "fresh_names r"
    and "find_task r (ent_name r (TaskObj t)) = Some t"
  obtains r' where "insert_one pe t (instr_text i) (q, r) = Some (Inr (q @ [(Some t, instr_of pe i)], r'))"
    and "adds_unnamed r r'" and "find_task r' (ent_name r' (TaskObj t)) = Some t"
    and "\<And>u. ent_name r' (TaskObj u) = ent_name r (TaskObj u)"
proof -
  have tok: "token_params (instr_text i) = Some (Inr (instr_call i))"
    unfolding instr_text_def call_text_def
    using instr_params_good [OF assms(1)] instr_token [of i] assms(2)
    by (subst token_params_text) (auto simp: instr_text_def call_text_def)
  have len: "length (var_text v) < npos" if "i = DelayC v" for v
    using assms(2) that by (simp add: instr_text_def call_text_def)
  have digit: "\<not> is_digit (hd (var_text v))" "var_text v \<noteq> []" for v
    using var_token [of v] by (auto simp: var_text_def call_text_def hd_append)
  have create: "Instr_create pe r (fst (instr_call i)) (snd (instr_call i) @ [ent_name r (TaskObj t)])
      = Some (Inr (Some (Some t, instr_of pe i)))"
  proof (cases i)
    case (DelayC v)
    with var_of_text_reads [OF len [OF DelayC]] digit [of v] assms(4) show ?thesis
      by (simp add: Instr_create_def Instr_factory_def bindN_def ExecInstr_createInstance_def par_at_def)
  qed (use assms(1,4) in \<open>simp_all add: Instr_create_def Instr_factory_def bindN_def par_at_def stoi_decimal
        FixedInstr_createInstance_def WaitInstr_createInstance_def SignalInstr_createInstance_def
        SuspendInstr_createInstance_def\<close>)
  obtain r' where r': "Entity_ctor (InstrObj t (length q)) [] r = Inr r'" "adds_unnamed r r'"
      "\<And>x. x \<noteq> InstrObj t (length q) \<Longrightarrow> ent_name r' x = ent_name r x"
    using unnamed_ctor [OF assms(3), of "InstrObj t (length q)"] by blast
  have "index r (ent_name r (TaskObj t)) \<noteq> None" using assms(4) by (cases "index r (ent_name r (TaskObj t))") (auto simp: find_task_def Entity_find_def)
  then have "find_task r' (ent_name r (TaskObj t)) = Some t"
    using find_task_same [of r "ent_name r (TaskObj t)" r'] r'(2) assms(4) by (metis adds_unnamed_def)
  moreover have names: "ent_name r' (TaskObj u) = ent_name r (TaskObj u)" for u by (rule r'(3)) simp
  ultimately have "find_task r' (ent_name r' (TaskObj t)) = Some t" by simp
  moreover have "insert_one pe t (instr_text i) (q, r) = Some (Inr (q @ [(Some t, instr_of pe i)], r'))"
    using tok create r'(1) by (cases "instr_call i") (simp add: insert_one_def bindN_def)
  ultimately show thesis using that [OF _ r'(2)] names by blast
qed

lemma insert_all_reads:
  assumes "\<forall>i\<in>set is. instr_ok i \<and> length (instr_text i) < npos" and "fresh_names r"
    and "find_task r (ent_name r (TaskObj t)) = Some t"
  shows "\<exists>r'. insert_all pe t (map instr_text is) (q, r) = Some (Inr (q @ map (\<lambda>i. (Some t, instr_of pe i)) is, r'))
    \<and> adds_unnamed r r' \<and> (\<forall>u. ent_name r' (TaskObj u) = ent_name r (TaskObj u))
    \<and> find_task r' (ent_name r' (TaskObj t)) = Some t"
  using assms
proof (induction "is" arbitrary: q r)
  case (Cons i "is")
  then have "instr_ok i" "length (instr_text i) < npos" "fresh_names r" "find_task r (ent_name r (TaskObj t)) = Some t" by simp_all
  then obtain r1 where one: "insert_one pe t (instr_text i) (q, r) = Some (Inr (q @ [(Some t, instr_of pe i)], r1))"
    "adds_unnamed r r1" "find_task r1 (ent_name r1 (TaskObj t)) = Some t" "\<And>u. ent_name r1 (TaskObj u) = ent_name r (TaskObj u)"
    by (rule insert_one_reads [of i r t pe q]) blast
  moreover from one(2) have "fresh_names r1" by (simp add: adds_unnamed_def)
  with Cons.IH [OF _ this one(3), of "q @ [(Some t, instr_of pe i)]"] Cons.prems(1) obtain r' where "insert_all pe t (map instr_text is) (q @ [(Some t, instr_of pe i)], r1)
      = Some (Inr ((q @ [(Some t, instr_of pe i)]) @ map (\<lambda>i. (Some t, instr_of pe i)) is, r'))"
    "adds_unnamed r1 r'" "\<forall>u. ent_name r' (TaskObj u) = ent_name r1 (TaskObj u)" "find_task r' (ent_name r' (TaskObj t)) = Some t"
    by auto
  ultimately show ?case using adds_unnamed_trans [of r r1 r'] by (simp add: bindN_def)
qed (simp add: adds_unnamed_refl)

lemma insertCode_adds:
  assumes "\<forall>i\<in>set is. instr_ok i" and "length (code_text is) < npos" and "fresh_names r"
    and "find_task r (ent_name r (TaskObj t)) = Some t"
  shows "\<exists>r'. Task_insertCode pe t (code_text is) (q, r) = Some (Inr (q @ map (\<lambda>i. (Some t, instr_of pe i)) is, r'))
    \<and> adds_unnamed r r' \<and> (\<forall>u. ent_name r' (TaskObj u) = ent_name r (TaskObj u))
    \<and> find_task r' (ent_name r' (TaskObj t)) = Some t"
proof -
  have code: "code_text is = concat (map (\<lambda>p. p @ '';'') (map instr_text is))" by (simp add: code_text_def comp_def)
  have "length (instr_text i) < npos" if "i \<in> set is" for i
  proof -
    have "length (instr_text i @ '';'') \<le> length (code_text is)"
      unfolding code_text_def length_concat map_map
      using that by (intro member_le_sum_list) (auto simp: image_iff)
    then show ?thesis using assms(2) by simp
  qed
  with insert_all_reads [of "is" r t pe q] assms obtain r' where
    "insert_all pe t (map instr_text is) (q, r) = Some (Inr (q @ map (\<lambda>i. (Some t, instr_of pe i)) is, r'))"
    and r': "adds_unnamed r r'" "\<forall>u. ent_name r' (TaskObj u) = ent_name r (TaskObj u)" "find_task r' (ent_name r' (TaskObj t)) = Some t"
    by auto
  moreover have "split_instr (code_text is) = Inr (map trim (map instr_text is))"
    using split_instr_pieces [of "map instr_text is" "[]"] assms(1,2) instr_text_ok unfolding code by auto
  moreover have "map trim (map instr_text is) = map instr_text is"
    using assms(1) instr_text_ok by (simp add: comp_def)
  ultimately have "Task_insertCode pe t (code_text is) (q, r) = Some (Inr (q @ map (\<lambda>i. (Some t, instr_of pe i)) is, r'))"
    by (simp only: Task_insertCode_def bindN_def option.case sum.case)
  with r' show ?thesis by blast
qed

section \<open>Tasks from text\<close>

text \<open>
  The last argument of the constructor of \<open>Task\<close> is the maximal computation time; \<open>createInstance\<close> passes its
  flag: a task with the default flag has a worst case execution time of one tick, whatever its instructions are.
\<close>

lemma createInstance_maxC:
  assumes "Task_createInstance u fs par = Some (Inr ta)" and "length par \<le> 5"
  shows "ta_maxC ta = 1"
  using assms by (auto simp: Task_createInstance_def bindN_def split: option.splits sum.splits if_splits)

section \<open>Properties\<close>

text \<open>
  C25. What is written in the language of instructions that the documentation of \<open>insertCode\<close> gives is what the task
  will execute: the text of a list of instructions, each with its semicolon, adds exactly these instructions, in
  their order and with the task as their father, to the queue, whatever it held.
\<close>

theorem insertCode_reads_code:
  assumes "\<forall>i\<in>set is. instr_ok i" and "length (code_text is) < npos" and "fresh_names r"
    and "find_task r (ent_name r (TaskObj t)) = Some t"
  shows "\<exists>r'. Task_insertCode pe t (code_text is) (q, r) = Some (Inr (q @ map (\<lambda>i. (Some t, instr_of pe i)) is, r'))"
  using insertCode_adds [OF assms] by blast

text \<open>The example of the documentation, in a registry that holds the task alone.\<close>

definition doc_code :: "code_instr list" where
  "doc_code = [FixedC 4, WaitC ''Res1'', DelayC (UnifC 4 10), SignalC ''Res1'', DelayC (UnifC 10 20)]"

definition task_registry :: "object registry" where
  "task_registry = (case Entity_ctor (TaskObj 0) ''t1'' empty_registry of Inl e \<Rightarrow> empty_registry | Inr r \<Rightarrow> r)"

lemma task_registry_fields:
  "index task_registry = Map.empty(''t1'' \<mapsto> TaskObj 0)" "IDcount task_registry = 1" "ent_name task_registry (TaskObj 0) = ''t1''"
  by (simp_all add: task_registry_def Entity_ctor_def Entity_init_def empty_registry_def Let_def)

lemma doc_code_text: "code_text doc_code
    = ''fixed(4);wait(Res1);delay(unif(4,10));signal(Res1);delay(unif(10,20));''"
  by (simp add: doc_code_def code_text_def instr_text_def call_text_def var_text_def decimal.simps digit_char_def)

theorem insertCode_reads_code_witness:
  "\<forall>pe. \<exists>r'. Task_insertCode pe 0 ''fixed(4);wait(Res1);delay(unif(4,10));signal(Res1);delay(unif(10,20));'' ([], task_registry)
     = Some (Inr (map (\<lambda>i. (Some 0, instr_of pe i)) doc_code, r'))"
proof
  fix pe :: parse_env
  have "\<forall>i\<in>set doc_code. instr_ok i" by (simp add: doc_code_def name_ok_def blank_def)
  moreover have "length (code_text doc_code) < npos" unfolding doc_code_text by (simp add: npos_def)
  moreover have "fresh_names task_registry"
    by (auto simp: fresh_names_def task_registry_fields entity_type_name_def)
  moreover have "find_task task_registry (ent_name task_registry (TaskObj 0)) = Some 0"
    by (simp add: find_task_def Entity_find_def task_registry_fields)
  ultimately show "\<exists>r'. Task_insertCode pe 0 ''fixed(4);wait(Res1);delay(unif(4,10));signal(Res1);delay(unif(10,20));'' ([], task_registry)
     = Some (Inr (map (\<lambda>i. (Some 0, instr_of pe i)) doc_code, r'))"
    using insertCode_reads_code [of doc_code task_registry 0 pe "[]"] unfolding doc_code_text by simp
qed

text \<open>
  A time that is printed with its unit is read back: the number times the length of the unit in nanoseconds, over the
  resolution, rounded down to a tick; without a unit the default unit counts.
\<close>

lemma tick_text_roundtrip:
  assumes "u = [] \<and> f = default_unit c \<or> unit_factor u = Some f" and "0 < resolution c" and "0 \<le> f"
    and "length (decimal n @ u) < npos"
  shows "Tick_of_string c (decimal n @ u) = Inr (int n * f div resolution c)"
proof -
  have "u \<in> {[], ''s'', ''ms'', ''us'', ''ns''}" using assms(1) by (auto simp: unit_factor_def split: if_splits)
  note parse = parse_double_decimal [OF this assms(4)]
  have sel: "(if u = [] then Some (default_unit c) else unit_factor u) = Some f"
    using assms(1) by (auto simp: unit_factor_def)
  have "Tick_of_double (rat_of_nat n * rat_of_int f / rat_of_int (resolution c)) = int n * f div resolution c"
  proof -
    have "rat_of_nat n * rat_of_int f / rat_of_int (resolution c) = rat_of_int (int n * f) / rat_of_int (resolution c)" by simp
    moreover have "0 \<le> rat_of_int (int n * f) / rat_of_int (resolution c)" using assms(2,3) by simp
    ultimately show ?thesis by (simp only: Tick_of_double_def leD if_False floor_divide_of_int_eq)
  qed
  then show ?thesis using assms(2) by (simp add: Tick_of_string_def parse sel)
qed

lemma tick_text_roundtrip_witness: "Tick_of_string (initial_units\<lparr>resolution := 1000\<rparr>) ''12ms'' = Inr 12000"
  using tick_text_roundtrip [of "''ms''" 1000000 "initial_units\<lparr>resolution := 1000\<rparr>" 12]
  by (simp add: unit_factor_def decimal.simps digit_char_def npos_def)

end
