(* ===== verification/TaskSetCode.thy ===== *)
theory TaskSetCode
  imports TaskSetFile TaskText_Laws
begin

text \<open>
  A set of tasks whose code is written in the language of instructions is read: every name is free, so nothing that is made
  is refused, and every task gets the instructions and the name that are written.
\<close>

section \<open>Names that are taken\<close>

definition adds_names :: "string set \<Rightarrow> 'p registry \<Rightarrow> 'p registry \<Rightarrow> bool" where
  "adds_names N r r' \<longleftrightarrow> fresh_names r' \<and> (\<forall>n. index r n \<noteq> None \<or> user_name n \<and> n \<notin> N \<longrightarrow> index r' n = index r n)"

lemma adds_names_trans: "adds_names N r r1 \<Longrightarrow> adds_names M r1 r2 \<Longrightarrow> adds_names (N \<union> M) r r2"
  unfolding adds_names_def by (metis UnI1 UnI2)

lemma adds_names_sub: "adds_names N r r' \<Longrightarrow> N \<subseteq> M \<Longrightarrow> adds_names M r r'"
  unfolding adds_names_def by blast

lemma adds_unnamed_names: "adds_unnamed r r' \<Longrightarrow> adds_names {} r r'"
  by (simp add: adds_unnamed_def adds_names_def)

lemma adds_names_free: "adds_names N r r' \<Longrightarrow> user_name n \<Longrightarrow> n \<notin> N \<Longrightarrow> index r n = None \<Longrightarrow> index r' n = None"
  by (simp add: adds_names_def)

lemma adds_names_find: "adds_names N r r' \<Longrightarrow> find_task r n = Some t \<Longrightarrow> find_task r' n = Some t"
  using find_task_same [of r n r'] by (cases "index r n") (auto simp: adds_names_def find_task_def Entity_find_def)

lemma type_name_not_user: "\<not> user_name (entity_type_name @ x)"
  by (simp add: user_name_def)

lemma named_ctor:
  assumes "fresh_names r" and "user_name n" and "index r n = None"
  shows "\<exists>r'. Entity_ctor p n r = Inr r' \<and> adds_names {n} r r' \<and> index r' n = Some p \<and> ent_name r' p = n \<and>
    (\<forall>x. x \<noteq> p \<longrightarrow> ent_name r' x = ent_name r x)"
proof -
  have "entity_type_name @ decimal_int k \<noteq> n" for k using assms(2) type_name_not_user by metis
  then show ?thesis using assms(1,3) assms(2)
    by (auto simp: Entity_ctor_def Entity_init_def Let_def adds_names_def fresh_names_def user_name_def)
qed

lemma new_other_named:
  assumes "fresh_names (sys_names s)" and "n = [] \<or> user_name n \<and> index (sys_names s) n = None"
  shows "\<exists>r o1. new_other n e s = Inr (s\<lparr>sys_names := r, sys_others := o1\<rparr>) \<and> adds_names (if n = [] then {} else {n}) (sys_names s) r \<and>
    (\<forall>u. ent_name r (TaskObj u) = ent_name (sys_names s) (TaskObj u))"
proof -
  let ?x = "OtherObj (nat (IDcount (sys_names s)))"
  have "\<exists>r. Entity_ctor ?x n (sys_names s) = Inr r \<and> adds_names (if n = [] then {} else {n}) (sys_names s) r \<and>
      (\<forall>y. y \<noteq> ?x \<longrightarrow> ent_name r y = ent_name (sys_names s) y)"
    using assms unnamed_ctor [OF assms(1), of ?x] named_ctor [OF assms(1), of n ?x] adds_unnamed_names by (cases "n = []") auto
  then obtain r where "Entity_ctor ?x n (sys_names s) = Inr r" "adds_names (if n = [] then {} else {n}) (sys_names s) r"
    "\<forall>y. y \<noteq> ?x \<longrightarrow> ent_name r y = ent_name (sys_names s) y" by blast
  then show ?thesis by (auto simp: new_other_def Let_def)
qed

lemma new_other_unnamed:
  assumes "fresh_names (sys_names s)"
  obtains r o1 where "new_other [] e s = Inr (s\<lparr>sys_names := r, sys_others := o1\<rparr>)" "adds_names {} (sys_names s) r"
    "\<forall>u. ent_name r (TaskObj u) = ent_name (sys_names s) (TaskObj u)"
  using new_other_named [OF assms, of "[]" e] by auto

section \<open>The code of a task\<close>

definition coded :: "code_instr list list \<Rightarrow> task_spec \<Rightarrow> bool" where
  "coded iss ts \<longleftrightarrow> ts_code ts = map code_text iss \<and> (\<forall>is\<in>set iss. (\<forall>i\<in>set is. instr_ok i) \<and> length (code_text is) < npos)"

lemma insert_codes_reads:
  assumes "\<forall>is\<in>set iss. (\<forall>i\<in>set is. instr_ok i) \<and> length (code_text is) < npos" and "fresh_names r"
    and "find_task r (ent_name r (TaskObj t)) = Some t"
  shows "\<exists>r'. insert_codes pe t (map code_text iss) (q, r) = Some (Inr (q @ map (\<lambda>i. (Some t, instr_of pe i)) (concat iss), r')) \<and>
    adds_unnamed r r' \<and> (\<forall>u. ent_name r' (TaskObj u) = ent_name r (TaskObj u))"
  using assms
proof (induction iss arbitrary: q r)
  case (Cons i1 iss)
  then obtain r1 where one: "Task_insertCode pe t (code_text i1) (q, r) = Some (Inr (q @ map (\<lambda>i. (Some t, instr_of pe i)) i1, r1))"
    "adds_unnamed r r1" "\<forall>u. ent_name r1 (TaskObj u) = ent_name r (TaskObj u)" "find_task r1 (ent_name r1 (TaskObj t)) = Some t"
    using insertCode_adds [of i1 r t pe q] by auto
  have "fresh_names r1" using one(2) by (simp add: adds_unnamed_def)
  from Cons.IH [OF _ this one(4), of "q @ map (\<lambda>i. (Some t, instr_of pe i)) i1"] Cons.prems(1) obtain r' where
    "insert_codes pe t (map code_text iss) (q @ map (\<lambda>i. (Some t, instr_of pe i)) i1, r1) =
       Some (Inr ((q @ map (\<lambda>i. (Some t, instr_of pe i)) i1) @ map (\<lambda>i. (Some t, instr_of pe i)) (concat iss), r'))"
    "adds_unnamed r1 r'" "\<forall>u. ent_name r' (TaskObj u) = ent_name r1 (TaskObj u)" by auto
  with one adds_unnamed_trans [of r r1 r'] show ?case by (simp add: bindN_def)
qed (simp add: adds_unnamed_refl)

text \<open>The task has the instructions and the name that are written, and is found by its name.\<close>

definition written_as :: "parse_env \<Rightarrow> code_instr list list \<Rightarrow> task_spec \<Rightarrow> nat \<Rightarrow> rtprogram \<Rightarrow> bool" where
  "written_as pe iss ts t p \<longleftrightarrow> instrQueue (tasks (sys_world p) t) = map (instr_of pe) (concat iss) \<and>
     ent_name (sys_names p) (TaskObj t) = ts_name ts \<and> find_task (sys_names p) (ts_name ts) = Some t"

lemma make_task_reads:
  assumes "coded iss ts" and "fresh_names (sys_names p)" and "user_name (ts_name ts)" and "index (sys_names p) (ts_name ts) = None"
  shows "\<exists>p'. make_task pe ts p = Some (Inr (prog_tasks p, p')) \<and> adds_names {ts_name ts} (sys_names p) (sys_names p') \<and>
    written_as pe iss ts (prog_tasks p) p' \<and>
    (\<forall>u. u \<noteq> prog_tasks p \<longrightarrow> ent_name (sys_names p') (TaskObj u) = ent_name (sys_names p) (TaskObj u))"
proof -
  let ?t = "prog_tasks p"
  obtain r where r: "Entity_ctor (TaskObj ?t) (ts_name ts) (sys_names p) = Inr r" "adds_names {ts_name ts} (sys_names p) r"
    "index r (ts_name ts) = Some (TaskObj ?t)" "ent_name r (TaskObj ?t) = ts_name ts"
    "\<forall>x. x \<noteq> TaskObj ?t \<longrightarrow> ent_name r x = ent_name (sys_names p) x"
    using named_ctor [OF assms(2-4)] by blast
  have code: "ts_code ts = map code_text iss" "\<forall>is\<in>set iss. (\<forall>i\<in>set is. instr_ok i) \<and> length (code_text is) < npos"
    using assms(1) by (simp_all add: coded_def)
  have fr: "fresh_names r" using r(2) by (simp add: adds_names_def)
  have found: "find_task r (ent_name r (TaskObj ?t)) = Some ?t" using r(3,4) by (simp add: find_task_def Entity_find_def)
  obtain r1 where r1: "insert_codes pe ?t (ts_code ts) ([], r) = Some (Inr (map (\<lambda>i. (Some ?t, instr_of pe i)) (concat iss), r1))"
    "adds_unnamed r r1" "\<forall>u. ent_name r1 (TaskObj u) = ent_name r (TaskObj u)"
    using insert_codes_reads [OF code(2) fr found, of pe "[]"] code(1) by auto
  have names: "adds_names {ts_name ts} (sys_names p) r1" using adds_names_trans [OF r(2) adds_unnamed_names [OF r1(2)]] by simp
  have "find_task r1 (ts_name ts) = Some ?t" using adds_names_find [OF adds_unnamed_names [OF r1(2)]] found r(4) by simp
  with r r1 names show ?thesis by (auto simp: make_task_def Let_def bindN_def on_world_def written_as_def comp_def)
qed

section \<open>A server is made\<close>

lemma make_server_reads:
  assumes "fresh_names (sys_names p)" and "user_name (''cbserver_'' @ ts_name ts)" and "index (sys_names p) (''cbserver_'' @ ts_name ts) = None"
  shows "\<exists>p'. make_server ts p = Inr (prog_servers p, p') \<and> adds_names {''cbserver_'' @ ts_name ts} (sys_names p) (sys_names p') \<and>
    (\<forall>u. ent_name (sys_names p') (TaskObj u) = ent_name (sys_names p) (TaskObj u)) \<and>
    scheds (sys_world p') (srv_sched (servers (sys_world p') (prog_servers p))) = (Scheduler_ctor FIFOScheduler)\<lparr>sch_kernel := Some (KServer (prog_servers p))\<rparr>"
proof -
  let ?n = "''cbserver_'' @ ts_name ts"
  obtain r1 o1 where one: "new_other ?n (Some (CBServerEnt (prog_servers p))) p = Inr (p\<lparr>sys_names := r1, sys_others := o1\<rparr>)"
    and r1: "adds_names {?n} (sys_names p) r1" "\<forall>u. ent_name r1 (TaskObj u) = ent_name (sys_names p) (TaskObj u)"
    using new_other_named [OF assms(1), of ?n "Some (CBServerEnt (prog_servers p))"] assms(2,3) by auto
  let ?p1 = "p\<lparr>sys_names := r1, sys_others := o1\<rparr>"
  have fresh1: "fresh_names r1" using r1(1) by (simp add: adds_names_def)
  obtain r2 o2 where two: "new_other [] (Some (SchedulerEnt (sys_schedulers ?p1))) ?p1 = Inr (?p1\<lparr>sys_names := r2, sys_others := o2\<rparr>)"
    and r2: "adds_names {} r1 r2" "\<forall>u. ent_name r2 (TaskObj u) = ent_name r1 (TaskObj u)"
    by (rule new_other_unnamed [of ?p1 "Some (SchedulerEnt (sys_schedulers ?p1))"]) (simp_all add: fresh1)
  let ?p2 = "on_world (upd_sched (sys_schedulers p) (\<lambda>_. Scheduler_ctor FIFOScheduler)) (?p1\<lparr>sys_names := r2, sys_others := o2, sys_schedulers := Suc (sys_schedulers p)\<rparr>)"
  have sc: "new_scheduler FIFOScheduler ?p1 = Inr (sys_schedulers p, ?p2)" using two by (simp add: new_scheduler_def Let_def)
  have n2: "sys_names ?p2 = r2" by (simp add: on_world_def)
  obtain r3 o3 where three: "new_other [] (Some (CapacityTimerEnt (prog_servers p))) ?p2 = Inr (?p2\<lparr>sys_names := r3, sys_others := o3\<rparr>)"
    and r3: "adds_names {} r2 r3" "\<forall>u. ent_name r3 (TaskObj u) = ent_name r2 (TaskObj u)"
    by (rule new_other_unnamed [of ?p2 "Some (CapacityTimerEnt (prog_servers p))", unfolded n2]) (use r2(1) in \<open>simp_all add: adds_names_def\<close>)
  have "adds_names {?n} (sys_names p) r3" using adds_names_trans [OF adds_names_trans [OF r1(1) r2(1)] r3(1)] by simp
  with one sc three r1(2) r2(2) r3(2) show ?thesis
    by (simp add: make_server_def Let_def Scheduler_create_def Scheduler_factory_def on_world_def CBServer_ctor_def Scheduler_setKernel_def)
qed

lemma add_to_server_reads:
  assumes "tkernel (tasks (sys_world p) t) = None"
    and "scheds (sys_world p) (srv_sched (servers (sys_world p) i)) = (Scheduler_ctor FIFOScheduler)\<lparr>sch_kernel := Some (KServer i)\<rparr>"
  shows "\<exists>w. add_to_server i t p = Inr (p\<lparr>sys_world := w\<rparr>)"
  using assms by (simp add: add_to_server_def CBServer_addTask_def Server_addTask_def Task_setKernel_def Scheduler_addTask_def
      Scheduler_enqueueModel_def Scheduler_find_def Scheduler_ctor_def) blast

section \<open>A whole set of tasks\<close>

text \<open>The names that are taken for a task.\<close>

definition names_of :: "task_spec \<Rightarrow> string list" where
  "names_of ts = ts_name ts # (if 0 < ts_cbs_period ts then [''cbserver_'' @ ts_name ts] else [])"

definition names_free :: "string list \<Rightarrow> 'p registry \<Rightarrow> bool" where
  "names_free ns r \<longleftrightarrow> fresh_names r \<and> distinct ns \<and> (\<forall>n\<in>set ns. user_name n \<and> index r n = None)"

lemma names_free_rest: "names_free (ms @ ns) r \<Longrightarrow> adds_names (set ms) r r' \<Longrightarrow> names_free ns r'"
  by (auto simp: names_free_def adds_names_def)

text \<open>The names of what was made before stay.\<close>

definition names_stay :: "rtprogram \<Rightarrow> rtprogram \<Rightarrow> bool" where
  "names_stay p p' \<longleftrightarrow> prog_tasks p \<le> prog_tasks p' \<and> (\<forall>t<prog_tasks p. tasks (sys_world p') t = tasks (sys_world p) t \<and>
     ent_name (sys_names p') (TaskObj t) = ent_name (sys_names p) (TaskObj t)) \<and>
     (\<forall>n t. find_task (sys_names p) n = Some t \<longrightarrow> find_task (sys_names p') n = Some t)"

lemma written_stays: "names_stay p p' \<Longrightarrow> t < prog_tasks p \<Longrightarrow> written_as pe iss ts t p \<Longrightarrow> written_as pe iss ts t p'"
  by (simp add: names_stay_def written_as_def)

lemma make_placement_reads:
  assumes "read_task o1 = Inr ts" and "coded iss ts" and "names_free (names_of ts) (sys_names p)"
  shows "\<exists>x p'. make_placement pe o1 p = Some (Inr (x, p')) \<and> adds_names (set (names_of ts)) (sys_names p) (sys_names p') \<and>
    names_stay p p' \<and> written_as pe iss ts (prog_tasks p) p'"
proof -
  let ?t = "prog_tasks p" and ?n = "''cbserver_'' @ ts_name ts"
  have free: "fresh_names (sys_names p)" "user_name (ts_name ts)" "index (sys_names p) (ts_name ts) = None"
    and srv: "0 < ts_cbs_period ts \<Longrightarrow> user_name ?n \<and> index (sys_names p) ?n = None"
    using assms(3) by (auto simp: names_free_def names_of_def)
  obtain p1 where p1: "make_task pe ts p = Some (Inr (?t, p1))" "adds_names {ts_name ts} (sys_names p) (sys_names p1)"
    "written_as pe iss ts ?t p1" "\<forall>u. u \<noteq> ?t \<longrightarrow> ent_name (sys_names p1) (TaskObj u) = ent_name (sys_names p) (TaskObj u)"
    using make_task_reads [OF assms(2) free, of pe] by blast
  note tk = make_task_made [OF p1(1)]
  have stay1: "names_stay p p1" using tk p1(4) adds_names_find [OF p1(2)] by (auto simp: names_stay_def)
  show ?thesis
  proof (cases "0 < ts_cbs_period ts")
    case True
    have "fresh_names (sys_names p1)" "index (sys_names p1) ?n = None"
      using p1(2) srv [OF True] adds_names_free [OF p1(2), of ?n] by (auto simp: adds_names_def)
    then obtain p2 where p2: "make_server ts p1 = Inr (prog_servers p1, p2)" "adds_names {?n} (sys_names p1) (sys_names p2)"
      "\<forall>u. ent_name (sys_names p2) (TaskObj u) = ent_name (sys_names p1) (TaskObj u)"
      "scheds (sys_world p2) (srv_sched (servers (sys_world p2) (prog_servers p1))) = (Scheduler_ctor FIFOScheduler)\<lparr>sch_kernel := Some (KServer (prog_servers p1))\<rparr>"
      using make_server_reads [of p1 ts] srv [OF True] by blast
    note sv = make_server_made [OF p2(1)]
    have "tkernel (tasks (sys_world p2) ?t) = None" using tk(7) sv(4) by simp
    from add_to_server_reads [OF this p2(4)] obtain w where w: "add_to_server (prog_servers p1) ?t p2 = Inr (p2\<lparr>sys_world := w\<rparr>)" by blast
    note ad = add_to_server_made [OF w]
    have "adds_names (set (names_of ts)) (sys_names p) (sys_names p2)"
      using adds_names_trans [OF p1(2) p2(2)] True by (simp add: names_of_def insert_commute)
    moreover have "names_stay p (p2\<lparr>sys_world := w\<rparr>)"
      using stay1 ad(3) sv(3,4) tk(2) p2(3) adds_names_find [OF p2(2)] by (auto simp: names_stay_def)
    moreover have "written_as pe iss ts ?t (p2\<lparr>sys_world := w\<rparr>)"
      using p1(3) ad(3) sv(4) p2(3) adds_names_find [OF p2(2)] by (simp add: written_as_def)
    ultimately show ?thesis using True assms(1) p1(1) p2(1) w by (simp add: make_placement_def bindN_def)
  next
    case False
    then show ?thesis using assms(1) p1 stay1 by (simp add: make_placement_def bindN_def names_of_def)
  qed
qed

lemma make_placements_reads:
  assumes "map read_task os = map Inr tss" and "list_all2 coded isss tss" and "names_free (concat (map names_of tss)) (sys_names p)"
  shows "\<exists>xs p'. make_placements pe os p = Some (Inr (xs, p')) \<and> names_stay p p' \<and>
    (\<forall>i<length tss. written_as pe (isss ! i) (tss ! i) (prog_tasks p + i) p')"
  using assms
proof (induction os arbitrary: p isss tss)
  case Nil
  then show ?case by (simp add: names_stay_def)
next
  case (Cons o1 os)
  from Cons.prems(1) obtain ts us where ts: "read_task o1 = Inr ts" "tss = ts # us" and us: "map read_task os = map Inr us"
    by (cases tss) auto
  from Cons.prems(2) obtain iss js where iss: "isss = iss # js" "coded iss ts" "list_all2 coded js us" by (auto simp: ts(2) list_all2_Cons2)
  have "names_free (names_of ts) (sys_names p)" using Cons.prems(3) by (auto simp: ts(2) names_free_def)
  from make_placement_reads [OF ts(1) iss(2) this, of pe] obtain x p1 where one: "make_placement pe o1 p = Some (Inr (x, p1))"
    "adds_names (set (names_of ts)) (sys_names p) (sys_names p1)" "names_stay p p1" "written_as pe iss ts (prog_tasks p) p1" by blast
  have n1: "prog_tasks p1 = Suc (prog_tasks p)" by (rule make_placement_made(2) [OF one(1) ts(1)])
  have "names_free (concat (map names_of us)) (sys_names p1)" using names_free_rest [OF _ one(2)] Cons.prems(3) by (simp add: ts(2))
  from Cons.IH [OF us iss(3) this] obtain ys p' where rest: "make_placements pe os p1 = Some (Inr (ys, p'))" "names_stay p1 p'"
    "\<forall>i<length us. written_as pe (js ! i) (us ! i) (prog_tasks p1 + i) p'" by blast
  have "written_as pe (isss ! i) (tss ! i) (prog_tasks p + i) p'" if "i < length tss" for i
    using that rest(3) n1 written_stays [OF rest(2) _ one(4)] by (cases i) (auto simp: ts(2) iss(1))
  moreover have "names_stay p p'" using one(3) rest(2) n1 by (auto simp: names_stay_def)
  ultimately show ?case using one(1) rest(1) by (simp add: bindN_def)
qed

end
