(* ===== verification/ProgramRuns.thy ===== *)
theory ProgramRuns
  imports ProgramStart TaskSetCode
begin

text \<open>
  What holds of every program that is read from a description of a system and a set of tasks: how it is wired, what its
  run starts from, and what holds while it runs.  The example is a system of two processors and a task with a server,
  from the text of its two files to the start of its run.
\<close>

section \<open>An example\<close>

definition example_system_doc :: ydoc where
  "example_system_doc = YMap
     [(''cpu_islands'', YSeq [YMap [(''name'', YScalar ''big''), (''numcpus'', YScalar ''2''),
        (''kernel'', YMap [(''scheduler'', YScalar ''edf''), (''task_placement'', YScalar ''global'')]),
        (''volts'', YFlow [''1'']), (''freqs'', YFlow [''1000'']), (''base_freq'', YScalar ''1000''),
        (''power_model'', YScalar ''m''), (''speed_model'', YScalar ''m'')]]),
      (''power_models'', YSeq [YMap [(''name'', YScalar ''m''), (''type'', YScalar ''minimal'')]])]"

definition example_spec :: task_spec where
  "example_spec = \<lparr>ts_name = ''T'', ts_startcpu = 0, ts_iat = 10, ts_deadline = 10, ts_cbs_runtime = 4, ts_cbs_period = 8,
     ts_cbs_deadline = 8, ts_ph = 0, ts_qs = 100, ts_code = [''fixed(4,bzip2);'']\<rparr>"

lemma example_fields: "ts_name example_spec = ''T''" "ts_startcpu example_spec = 0" "ts_iat example_spec = 10" "ts_deadline example_spec = 10"
  "ts_cbs_runtime example_spec = 4" "ts_cbs_period example_spec = 8" "ts_cbs_deadline example_spec = 8" "ts_ph example_spec = 0"
  "ts_qs example_spec = 100" "ts_code example_spec = [''fixed(4,bzip2);'']"
  by (simp_all add: example_spec_def)

definition example_files :: file_env where
  "example_files = \<lparr>fe_text = [''sys.yml'' \<mapsto> ytext (ylines 0 example_system_doc), ''set.yml'' \<mapsto> ytext (ylines 0 (taskset_doc [example_spec]))],
     fe_path = (\<lambda>d f. f)\<rparr>"

definition example_env :: parse_env where
  "example_env = \<lparr>pe_files = \<lparr>f_numbers = (\<lambda>_. None), f_pdf = (\<lambda>_. None), f_junk = (0, 0)\<rparr>, pe_draws = (\<lambda>_. DeltaVar 1)\<rparr>"

definition example_options :: options where
  "example_options = \<lparr>opt_system = ''sys.yml'', opt_taskset = ''set.yml'', opt_duration = ''100'', opt_trace = []\<rparr>"

lemmas doc_eval = word_def flow_word_def plain_char_def nonblank_def newline_def

lemma parse_writable:
  "fe_text fe f = Some (ytext (ylines 0 d)) \<Longrightarrow> writable d \<Longrightarrow> parse_file fe f = Some (Inr (obj_of d))"
  by (simp add: parse_file_def yaml_parse_doc)

lemma example_system_writable: "writable example_system_doc"
  by (simp add: example_system_doc_def doc_eval)

lemma example_spec_ok: "spec_ok example_spec"
  by (simp add: spec_ok_def example_spec_def fits_def doc_eval)

definition example_descriptor :: system_descriptor where
  "example_descriptor = \<lparr>sd_power_models = [''m'' \<mapsto> \<lparr>cd_name = ''m'', cd_type = ''minimal'', cd_params = []\<rparr>],
     sd_islands = [\<lparr>id_name = ''big'', id_numcpus = 2,
       id_kernel = \<lparr>kd_name = [], kd_scheduler = ''edf'', kd_placement = ''global''\<rparr>, id_volts = [1], id_freqs = [1000],
       id_base_freq = 1000, id_power_model = ''m'', id_speed_model = ''m''\<rparr>]\<rparr>"

lemma make_scheduler_edf: "make_scheduler ''edf'' s = new_scheduler EDFScheduler s"
  by (simp add: make_scheduler_def Scheduler_create_def Scheduler_factory_def)

lemma cpus_2: "make_island_cpus des i g 2 s = bindE (make_island_cpu des i g s) (make_island_cpu des i g)"
proof (cases "make_island_cpu des i g s")
  case (Inr b)
  then show ?thesis by (cases "make_island_cpu des i g b") (simp_all add: numeral_2_eq_2)
qed (simp add: numeral_2_eq_2)

lemma decimals: "decimal 0 = ''0''" "decimal (Suc 0) = ''1''" "decimal 2 = ''2''" "decimal 3 = ''3''" "decimal 4 = ''4''" "decimal 5 = ''5''"
  "decimal 6 = ''6''" "decimal 7 = ''7''" "decimal 8 = ''8''" "decimal 9 = ''9''"
  "decimal 10 = ''10''" "decimal 11 = ''11''" "decimal 12 = ''12''"
  by (simp_all add: decimal.simps digit_char_def)

lemmas setup_eval = System_make_def make_system_islands.simps make_system_island_def OPP_fromVectors_def make_model_def make_island_def new_other_def
  Entity_ctor_def Entity_init_def no_system_def empty_registry_def on_platform_def on_world_def make_kernel_of_island_def make_scheduler_edf
  new_scheduler_def make_kernel_global_def make_island_cpus.simps make_island_cpu_def make_cpu_def make_kernel_of_cpu_def system_addCPU_def
  select_base_opp_def cpus_2 decimals entity_type_name_def decimal_int_def MRTKernel_addCPU_def PCPU_setKernel_def island_at_def
  getOPPIndexByFrequency_def


lemma example_descriptor_read: "SystemDescriptor_ctor example_files ''sys.yml'' = Some (Inr example_descriptor)"
proof -
  have "parse_file example_files ''sys.yml'' = Some (Inr (obj_of example_system_doc))"
    by (rule parse_writable [OF _ example_system_writable]) (simp add: example_files_def)
  moreover have "bindE (mapE IslandDescriptor_from (y_list (attr_obj ''cpu_islands'' (obj_of example_system_doc)))) (\<lambda>islands.
      bindE (mapE (CPUMDescriptor_from example_files ''sys.yml'') (y_list (attr_obj ''power_models'' (obj_of example_system_doc)))) (\<lambda>models.
        Inr (map cd_name models, map cd_type models, map (\<lambda>d. length (cd_params d)) models, islands))) =
      Inr ([''m''], [''minimal''], [0], sd_islands example_descriptor)" by code_simp
  ultimately show ?thesis by (auto simp: SystemDescriptor_ctor_def bindE_eq_Inr bindN_def example_descriptor_def fun_eq_iff intro!: cpum_descriptor.equality)
qed

lemma example_taskset_read:
  "read_taskset pe example_files ''set.yml'' p = make_placements pe [obj_of (task_doc example_spec)] p"
  "read_task (obj_of (task_doc example_spec)) = Inr example_spec"
  "read_resources example_files ''set.yml'' p = Some (new_other [] (Some (ResManEnt 0)) p)"
proof -
  have f: "fe_text example_files ''set.yml'' = Some (ytext (ylines 0 (taskset_doc [example_spec])))" by (simp add: example_files_def)
  note parsed = taskset_objs(1) [OF f] example_spec_ok
  show "read_task (obj_of (task_doc example_spec)) = Inr example_spec" by (rule read_task_doc [OF example_spec_ok])
  show "read_taskset pe example_files ''set.yml'' p = make_placements pe [obj_of (task_doc example_spec)] p"
    using parsed by (simp add: read_taskset_def bindN_def taskset_doc_def attr_obj_def get_attr_def)
  show "read_resources example_files ''set.yml'' p = Some (new_other [] (Some (ResManEnt 0)) p)"
    using parsed by (cases "new_other [] (Some (ResManEnt 0)) p")
      (simp_all add: read_resources_def bindN_def taskset_doc_def attr_obj_def get_attr_def Object_def)
qed

lemma ex_split: "split_instr ''fixed(4,bzip2);'' = Inr [''fixed(4,bzip2)'']" by code_simp
lemma ex_token: "token_params ''fixed(4,bzip2)'' = Some (Inr (''fixed'', [''4'', ''bzip2'']))" by code_simp


lemma ex_num: "stoi ''4'' = Inr 4" by code_simp

lemma ex_trace: "list_split [] = []" by code_simp

lemma decimal_int_nat: "decimal_int (int n) = decimal n" "decimal_int 6 = ''6''" "decimal_int 7 = ''7''" "decimal_int 8 = ''8''" "decimal_int 9 = ''9''"
  by (simp_all add: decimal_int_def decimals)

lemmas program_eval = main_setup_def System_ctor_def make_placements.simps make_placement_def
  make_task_def make_server_def add_to_server_def insert_codes.simps with_program_def place_all.simps ex_trace bindN_def
  example_descriptor_read example_options_def  Scheduler_create_def Scheduler_factory_def cpu_kernel_def kernel_addTask_def
  Task_insertCode_def ex_split ex_token insert_one_def insert_all.simps Instr_create_def Instr_factory_def FixedInstr_createInstance_def
  make_resources.simps kernel_setResManager_def rtkref_sched_def system.defs ex_num par_at_def find_task_def Entity_find_def
  mapE.simps example_taskset_read example_fields CBServer_addTask_def Server_addTask_def Task_setKernel_def Scheduler_addTask_def Scheduler_enqueueModel_def
  Scheduler_find_def MRTKernel_addTask_def Server_setKernel_def Scheduler_setKernel_def

lemma ex_ids: "[1..11::int] = [1, 2, 3, 4, 5, 6, 7, 8, 9, 10, 11]" by code_simp

lemmas start_eval = program_start_def Simulation_initRuns_def Simulation_initSingleRun_def entity_hooks_def system_entities_def entity_of_def
  Entity_order_def ex_ids List.map_filter_simps lookups.simps callNewRun_def entity_newRun_def upd_instr_def Scheduler_newRun_def
  FCFSResManager_newRun_def MRTKernel_newRun_def MRTKernel_clear_cpus.simps CPU_setWorkload_def CBServer_newRun_def CapacityTimer_newRun_def
  Task_newRun_def pureE_def Simulation_setTime_def upd_resman_def upd_cpu_def

lemma as_world_enabled: "cpu_disabled (as_world_cpu pl x) = pc_disabled x"
  by (simp add: as_world_cpu_def)

text \<open>What the first step of the example reads of the state in which the run starts.\<close>

definition example_started :: "world \<Rightarrow> bool" where
  "example_started w \<longleftrightarrow> globTime w = 0 \<and> eventQueue w = [ArrEvt 0] \<and> evCounter w = 1 \<and>
     tkernel (tasks w 0) = Some (KServer 0) \<and> tstate (tasks w 0) = TSK_IDLE \<and> int_time (tasks w 0) = Some (DeltaVar 10) \<and>
     rdl (tasks w 0) = 10 \<and> instrQueue (tasks w 0) = [Instr_newRun (ExecInstr (FixedInstr_ctor 4 ''bzip2''))] \<and>
     srv_status (servers w 0) = IDLE \<and> srv_sched (servers w 0) = 1 \<and> srv_kernel (servers w 0) = Some (MRTK 0) \<and>
     cbs_Q (servers w 0) = 4 \<and> cbs_P (servers w 0) = 8 \<and> cbs_idle_policy (servers w 0) = ORIGINAL \<and>
     cbs_vtime (servers w 0) = CapacityTimer_ctor \<and> mk_sched (mrtks w 0) = 0 \<and> mk_cpus (mrtks w 0) = [0, 1] \<and>
     mk_handled (mrtks w 0) = [ServerRef 0] \<and> mk_currExe (mrtks w 0) = (\<lambda>_. None) \<and> mk_dispatched (mrtks w 0) = (\<lambda>_. None) \<and>
     mk_isContextSwitching (mrtks w 0) = (\<lambda>_. False) \<and> sch_queue (scheds w 0) = [] \<and> sch_queue (scheds w 1) = [] \<and>
     sch_tasks (scheds w 0) (ServerRef 0) = Some (TaskModel_ctor (EDFModel False 0)) \<and>
     sch_tasks (scheds w 1) (TaskRef 0) = Some (TaskModel_ctor FIFOModel) \<and>
     ev_time (evs w (ArrEvt 0)) = 0 \<and> \<not> ev_disposable (evs w (ArrEvt 0)) \<and>
     (\<forall>e\<in>{EndInstrEvt 0 0, DeadEvt 0, BeginDispatchMultiEvt 0 0}. evs w e = evt_ctor e)"

lemmas step_eval = Simulation_sim_step_def Event_getFirst_def pl_front_def Event_action_def doit_def Let_def Simulation_setTime_def
  Event_drop_def pl_erase_def upd_event_def Event_restorePriority_def Task_onArrival_def Task_handleArrival_def Task_with_kernel_def
  kern_onArrival_def CBServer_onArrival_def Server_onArrival_def Task_isActive_def Scheduler_insert_def Scheduler_find_def upd_defs upd_model_def
  CBServer_idle_ready_def with_kernel_def Event_getTime_def queue_lt_def equivalent_key_def Event_Cmp_def CBServer_idle_cap_def
  CapacityTimer_set_value_def MRTKernel_onArrival_def MRTKernel_dispatch_def MRTKernel_num_newtasks_def MRTKernel_getNextFreeProc_def
  MRTKernel_getProcessor_def MRTKernel_getTask_def MRTKernel_dispatch_cpu_def MRTKernel_isDispatched_def Event_post_def Event_setTime_def
  Task_reactivate_def root_onArrival_def evt_ctor_def Event_ctor_def with_vtime_def CapacityTimer_ctor_def DeltaVar_def Tick_of_double_def
  Instr_reset_def Instr_newRun_def ExecInstr_reset_def upd_exec_def upd_instr_def FixedInstr_ctor_def ExecInstr_ctor_def
  ExecInstr_newRun_def RandomVar_get_def MAXTICK_def TaskModel_setInsertTime_def TaskModel_setActive_def TaskModel_ctor_def
  DEFAULT_PRIORITY_def numeral_2_eq_2

lemma example_step:
  "example_started w \<Longrightarrow> \<exists>w1. Simulation_sim_step doit w = Inr (0, w1) \<and> srv_status (servers w1 0) = READY \<and> cbs_cap (servers w1 0) = 4"
  unfolding example_started_def by (elim conjE) (simp add: step_eval)

lemma example_program:
  obtains p w where "main_setup id pe example_files example_options = Some (Inr p)" and "program_start p = Inr w"
    and "prog_tasks p = 1" "prog_servers p = 1" "sys_cpus p = 2" and "phase (tasks (sys_world p) 0) = 0"
    and "cbs_Q (servers (sys_world p) 0) = 4" "cbs_P (servers (sys_world p) 0) = 8" "cbs_Q (servers w 0) = 4" "cbs_P (servers w 0) = 8"
    and "example_started w"
proof -
  have "(case main_setup id pe example_files example_options of Some (Inr p) \<Rightarrow>
      prog_tasks p = 1 \<and> prog_servers p = 1 \<and> sys_cpus p = 2 \<and> phase (tasks (sys_world p) 0) = 0 \<and>
      cbs_Q (servers (sys_world p) 0) = 4 \<and> cbs_P (servers (sys_world p) 0) = 8 \<and>
      (case program_start p of Inr w \<Rightarrow> cbs_Q (servers w 0) = 4 \<and> cbs_P (servers w 0) = 8 \<and> example_started w | _ \<Rightarrow> False) | _ \<Rightarrow> False)"
    by (simp add: start_eval example_descriptor_def cbs_eval system_cpus_def as_world_enabled program_eval setup_eval plat_eval
        put_cpu_def put_island_def example_started_def evt_ctor_def TaskModel_setInactive_def fun_eq_iff cong: bindE_weak)
  then show thesis using that by (auto split: option.splits sum.splits)
qed

section \<open>Properties\<close>

text \<open>
  C6. Whatever system and task set are read, the program is wired.  Every processor has a kernel that has it among its own;
  every kernel has a scheduler that was made and has it as its kernel.  Every task knows the kernel or the server it is on:
  the kernel handles it, or the server has it among its tasks, and the scheduler of either knows the task.  Every server knows a
  kernel that handles it, among its servers when it is a kernel of several processors, and has a scheduler that was made and has the server as its
  kernel.  Every task has a time between its arrivals, and the processors and islands are associated as they should be.
\<close>

theorem program_is_wired:
  assumes "main_setup ex pe fe opts = Some (Inr p)"
  shows "(\<forall>k < length (sys_kernels p). kernel_wired p k) \<and> (\<forall>c < sys_cpus p. cpu_wired p c) \<and>
    (\<forall>t < prog_tasks p. task_placed p t \<and> int_time (tasks (sys_world p) t) \<noteq> None) \<and>
    (\<forall>i < prog_servers p. server_placed p i \<and> server_scheduled p i) \<and> good {} (sys_platform p)"
  using main_setup_ok [OF assms] by (auto simp: setup_ok_def wired_but_def pending_def)

theorem program_is_wired_witness:
  "\<exists>p. main_setup id example_env example_files example_options = Some (Inr p) \<and> cpu_wired p 0 \<and> cpu_wired p 1 \<and> server_placed p 0 \<and> server_scheduled p 0"
proof -
  obtain p w where run: "main_setup id example_env example_files example_options = Some (Inr p)" and n: "prog_servers p = 1" "sys_cpus p = 2"
    by (rule example_program)
  from program_is_wired [OF run] n show ?thesis using run by auto
qed

text \<open>
  C7. Whatever system and task set are read, the state in which the run of the program starts is one that the properties
  of the simulation assume: the bookkeeping of every multiprocessor kernel is consistent, every task is idle with its
  first arrival posted, and every server with a budget and a period is ready to go through the steps of a constant
  bandwidth server.  The program has a task, and none arrives first at the largest time.
\<close>

theorem program_starts_ready:
  assumes "main_setup ex pe fe opts = Some (Inr p)" and "program_start p = Inr w"
    and "0 < prog_tasks p" and "\<And>t. t < prog_tasks p \<Longrightarrow> phase (tasks (sys_world p) t) \<noteq> MAXTICK"
  shows "(\<forall>k. mrt_sys k w) \<and> (\<forall>t<prog_tasks p. started t w \<and> ArrEvt t \<in> set (eventQueue w)) \<and>
    cbs_start {i. i < prog_servers p \<and> 0 < cbs_Q (servers w i) \<and> 0 < cbs_P (servers w i)} w"
  using start_kernels [OF assms] start_tasks [OF assms] start_servers [OF assms] by blast

theorem program_starts_ready_witness:
  "\<exists>p w. main_setup id example_env example_files example_options = Some (Inr p) \<and> program_start p = Inr w \<and>
     ArrEvt 0 \<in> set (eventQueue w) \<and> cbs_start {0} w"
proof -
  obtain p w where run: "main_setup id example_env example_files example_options = Some (Inr p)" "program_start p = Inr w"
    and n: "prog_tasks p = 1" "prog_servers p = 1" and ph: "phase (tasks (sys_world p) 0) = 0" and q: "cbs_Q (servers w 0) = 4" "cbs_P (servers w 0) = 8"
    by (rule example_program)
  have "phase (tasks (sys_world p) t) \<noteq> MAXTICK" if "t < prog_tasks p" for t using that n ph by (simp add: MAXTICK_def)
  from program_starts_ready [OF run _ this] n
  have "ArrEvt 0 \<in> set (eventQueue w)" "cbs_start {i. i < 1 \<and> 0 < cbs_Q (servers w i) \<and> 0 < cbs_P (servers w i)} w" by auto
  moreover have "{i. i < 1 \<and> 0 < cbs_Q (servers w i) \<and> 0 < cbs_P (servers w i)} = {0}" using q by auto
  ultimately show ?thesis using run by auto
qed

text \<open>
  C3. From the files to every state of the run: no task or server is on two processors of a kernel; and the server that is
  made of a task that is written with a budget and a period is on the kernel of the processor that is written, has that task
  and no other, and goes through steps of a hard constant bandwidth server of the budget and the period that are written only.
\<close>

theorem program_runs_right:
  assumes "main_setup ex pe fe opts = Some (Inr p)" and "program_start p = Inr w0"
    and "fe_text fe (opt_taskset opts) = Some (ytext (ylines 0 (taskset_doc tss)))" and "tss \<noteq> []"
    and "\<forall>ts\<in>set tss. spec_ok ts \<and> ts_ph ts \<noteq> MAXTICK"
    and "sim_reach w0 w \<or> Simulation_main_cycle doit endTick w0 = Some (Inr w)"
  shows "(\<forall>k a c d. MRTKernel_getTask k c w = Some a \<longrightarrow> MRTKernel_getTask k d w = Some a \<longrightarrow> c = d) \<and>
    (\<forall>i < length tss. 0 < ts_cbs_runtime (tss ! i) \<longrightarrow> 0 < ts_cbs_period (tss ! i) \<longrightarrow>
       (\<exists>s. served_as (tss ! i) i s p \<and>
          cbs_steps (ts_cbs_runtime (tss ! i)) (ts_cbs_period (tss ! i)) True (cbs_view s w0) (cbs_view s w)))"
proof -
  have ok: "\<forall>ts\<in>set tss. spec_ok ts" using assms(5) by blast
  note made = main_setup_made [OF assms(1,3,4) ok]
  have n: "0 < prog_tasks p" using made assms(4) by simp
  have ph: "phase (tasks (sys_world p) t) \<noteq> MAXTICK" if "t < prog_tasks p" for t
    using made that assms(5) by (auto simp: set_up_as_def task_as_def)
  note start = assms(1,2) n ph
  have reach: "sim_reach w0 w" using assms(6) main_cycle_reach by blast
  have "c = d" if "MRTKernel_getTask k c w = Some a" "MRTKernel_getTask k d w = Some a" for k a c d
    using sim_reach_sys [OF reach start_kernels [OF start], of k] that mrt_ok_one_cpu [of "mrtks w k" c a d]
    by (simp add: mrt_sys_def mrt_inv_def MRTKernel_getTask_def)
  moreover have "\<exists>s. served_as (tss ! i) i s p \<and> cbs_steps (ts_cbs_runtime (tss ! i)) (ts_cbs_period (tss ! i)) True (cbs_view s w0) (cbs_view s w)"
    if i: "i < length tss" and pos: "0 < ts_cbs_runtime (tss ! i)" "0 < ts_cbs_period (tss ! i)" for i
  proof -
    have "set_up_as (tss ! i) i p" using made i by blast
    then obtain s where s: "served_as (tss ! i) i s p" using pos(2) by (auto simp: set_up_as_def)
    then have "cbs_Q (servers w0 s) = ts_cbs_runtime (tss ! i)" "cbs_P (servers w0 s) = ts_cbs_period (tss ! i)" "cbs_HR (servers w0 s)"
      using start_params [OF start, of s] by (simp_all add: served_as_def server_as_def srv_params_def)
    with reachable_start(1) [OF start_servers [OF start] reach, of s] s pos show ?thesis by (auto simp: served_as_def)
  qed
  ultimately show ?thesis by blast
qed

theorem program_runs_right_witness:
  "\<exists>p w w1. main_setup id example_env example_files example_options = Some (Inr p) \<and> program_start p = Inr w \<and>
     Simulation_sim_step doit w = Inr (0, w1) \<and> a_status (cbs_view 0 w) = IDLE \<and> a_status (cbs_view 0 (Simulation_setTime 0 w1)) = READY \<and>
     cbs_steps 4 8 True (cbs_view 0 w) (cbs_view 0 (Simulation_setTime 0 w1))"
proof -
  obtain p w where run: "main_setup id example_env example_files example_options = Some (Inr p)" "program_start p = Inr w"
    and n: "prog_servers p = 1" and st: "example_started w"
    by (rule example_program)
  obtain w1 where w1: "Simulation_sim_step doit w = Inr (0, w1)" "srv_status (servers w1 0) = READY" using example_step [OF st] by blast
  have f: "fe_text example_files (opt_taskset example_options) = Some (ytext (ylines 0 (taskset_doc [example_spec])))"
    by (simp add: example_files_def example_options_def)
  have ok: "\<forall>ts\<in>set [example_spec]. spec_ok ts \<and> ts_ph ts \<noteq> MAXTICK" using example_spec_ok by (simp add: example_fields MAXTICK_def)
  note reach = reach_step [OF reach_start w1(1)]
  from program_runs_right [OF run f _ ok disjI1 [OF reach]] obtain s where "served_as example_spec 0 s p"
    "cbs_steps 4 8 True (cbs_view s w) (cbs_view s (Simulation_setTime 0 w1))" by (auto simp: example_fields)
  moreover from this(1) n have "s = 0" by (simp add: served_as_def)
  moreover have "srv_status (servers w 0) = IDLE" using st by (simp add: example_started_def)
  ultimately show ?thesis using run w1 by (auto simp: cbs_view_def view_of_def Simulation_setTime_def)
qed

text \<open>
  C24. The text of a set of tasks is read, and as that set: as many tasks are made as are written, in their order, each with
  the name, the instructions, the time between arrivals, the deadline, the phase and the queue that are written, placed on
  the processor that is written, in a hard server of the budget, period and deadline that are written when there is a
  period, and in none otherwise.  The names have to be free, and the code to be written in the language of instructions.
\<close>

theorem taskset_roundtrip:
  assumes "fe_text fe f = Some (ytext (ylines 0 (taskset_doc tss)))" and "tss \<noteq> []" and "\<forall>ts\<in>set tss. spec_ok ts"
    and "list_all2 coded isss tss" and "names_free (concat (map names_of tss)) (sys_names p)"
  shows "\<exists>xs p'. read_taskset pe fe f p = Some (Inr (xs, p')) \<and> prog_tasks p' = prog_tasks p + length tss \<and> length xs = length tss \<and>
    (\<forall>i<length tss. made_as (tss ! i) (prog_tasks p + i) (xs ! i) p' \<and> written_as pe (isss ! i) (tss ! i) (prog_tasks p + i) p')"
proof -
  note objs = taskset_objs [OF assms(1-3)]
  from make_placements_reads [OF objs(2) assms(4,5), of pe] obtain xs p' where
    run: "make_placements pe (y_list (attr_obj ''taskset'' (obj_of (taskset_doc tss)))) p = Some (Inr (xs, p'))"
    and written: "\<forall>i<length tss. written_as pe (isss ! i) (tss ! i) (prog_tasks p + i) p'" by blast
  have "read_taskset pe fe f p = Some (Inr (xs, p'))" using run objs(1) by (simp add: read_taskset_def bindN_def)
  with written make_placements_made [OF run objs(2)] show ?thesis by blast
qed

lemma example_coded: "coded [[WorkC 4 ''bzip2'']] example_spec"
  by (simp add: coded_def example_fields code_text_def instr_text_def call_text_def decimals name_ok_def blank_def npos_def)

lemma example_free: "names_free (names_of example_spec) empty_registry"
  by (simp add: names_free_def names_of_def example_fields fresh_names_def user_name_def entity_type_name_def empty_registry_def)

theorem taskset_roundtrip_witness:
  "\<exists>xs p. read_taskset example_env example_files ''set.yml'' (with_program no_system) = Some (Inr (xs, p)) \<and> prog_tasks p = 1 \<and>
     made_as example_spec 0 (xs ! 0) p \<and> instrQueue (tasks (sys_world p) 0) = [ExecInstr (FixedInstr_ctor 4 ''bzip2'')]"
proof -
  have f: "fe_text example_files ''set.yml'' = Some (ytext (ylines 0 (taskset_doc [example_spec])))" by (simp add: example_files_def)
  have "names_free (concat (map names_of [example_spec])) (sys_names (with_program no_system))"
    using example_free by (simp add: with_program_def system.defs no_system_def)
  from taskset_roundtrip [OF f _ _ _ this, of "[[[WorkC 4 ''bzip2'']]]" example_env] example_spec_ok example_coded obtain xs p
    where "read_taskset example_env example_files ''set.yml'' (with_program no_system) = Some (Inr (xs, p))" "prog_tasks p = 1"
      "made_as example_spec 0 (xs ! 0) p" "written_as example_env [[WorkC 4 ''bzip2'']] example_spec 0 p"
    by (auto simp: with_program_def system.defs)
  then show ?thesis by (auto simp: written_as_def)
qed

end
