(* ===== verification/RandomVars_Laws.thy ===== *)
theory RandomVars_Laws
  imports RandomVars
begin

text \<open>
  The generator computes a multiplicative congruence without the product that would overflow (Schrage's method),
  and the distributions stay in their ranges.
\<close>

section \<open>The generator\<close>

definition gen_ok :: "random_gen \<Rightarrow> bool" where
  "gen_ok g \<longleftrightarrow> 0 < rg_xn g \<and> rg_xn g < gen_M"

lemmas gen_constants = gen_A_def gen_M_def gen_Q_def gen_R_def

lemma gen_M_split: "gen_M = gen_A * gen_Q + gen_R"
  by (simp add: gen_constants)

lemma coprime_A_M: "coprime gen_A gen_M"
proof (rule coprimeI)
  fix d :: int
  assume "d dvd gen_A" "d dvd gen_M"
  then have "d dvd gen_A * 1407677000 - gen_M * 11017" by simp
  then show "is_unit d" by (simp add: gen_constants)
qed

lemma sdiv_smod_pos: "0 \<le> x \<Longrightarrow> 0 < q \<Longrightarrow> x sdiv q = x div q \<and> x smod q = x mod (q :: int)"
  by (simp add: signed_divide_int_def signed_modulo_int_def minus_mult_div_eq_mod sgn_if)

text \<open>The difference that replaces the product is in the range of an \<open>int\<close> of 32 bits, and congruent to it.\<close>

lemma schrage:
  assumes "gen_ok g"
  defines "d \<equiv> gen_A * (rg_xn g smod gen_Q) - gen_R * (rg_xn g sdiv gen_Q)"
  shows "- gen_M < d" and "d < gen_M" and "d mod gen_M = gen_A * rg_xn g mod gen_M"
proof -
  let ?x = "rg_xn g"
  have x: "0 < ?x" "?x < 2147483647" using assms(1) by (simp_all add: gen_ok_def gen_constants)
  have d: "d = 16807 * (?x mod 127773) - 2836 * (?x div 127773)"
    using x sdiv_smod_pos [of ?x gen_Q] by (simp add: d_def gen_constants)
  have euclid: "?x = 127773 * (?x div 127773) + ?x mod 127773" by simp
  have "0 \<le> ?x mod 127773" "?x mod 127773 < 127773" by simp_all
  with x euclid show "- gen_M < d" "d < gen_M" unfolding d gen_M_def by linarith+
  note euclid
  then have "gen_A * ?x = d + gen_M * (?x div 127773)"
    unfolding d gen_constants by linarith
  then show "d mod gen_M = gen_A * ?x mod gen_M" by simp
qed

lemma sample_step:
  assumes "gen_ok g"
  shows "fst (RandomGen_sample g) = gen_A * rg_xn g mod gen_M"
    and "rg_xn (snd (RandomGen_sample g)) = gen_A * rg_xn g mod gen_M" and "gen_ok (snd (RandomGen_sample g))"
proof -
  let ?d = "gen_A * (rg_xn g smod gen_Q) - gen_R * (rg_xn g sdiv gen_Q)" and ?p = "gen_A * rg_xn g mod gen_M"
  note d = schrage [OF assms]
  have M: "0 < gen_M" by (simp add: gen_M_def)
  have "\<not> gen_M dvd gen_A * rg_xn g"
    using assms coprime_A_M coprime_dvd_mult_right_iff [of gen_M gen_A "rg_xn g"] zdvd_imp_le [of gen_M "rg_xn g"]
    by (auto simp: gen_ok_def coprime_commute)
  then have "?p \<noteq> 0" by (simp add: dvd_eq_mod_eq_0)
  then have p: "0 < ?p" "?p < gen_M" using M pos_mod_sign [OF M, of "gen_A * rg_xn g"] pos_mod_bound [OF M, of "gen_A * rg_xn g"] by linarith+
  have "(if ?d < 0 then ?d + gen_M else ?d) = ?p"
  proof (cases "?d < 0")
    case True
    then have "?d + gen_M = (?d + gen_M) mod gen_M" using d(1) by (intro mod_pos_pos_trivial [symmetric]) linarith+
    then show ?thesis using True d(3) by simp
  next
    case False
    then show ?thesis using d(2,3) by (simp add: mod_pos_pos_trivial)
  qed
  then show "fst (RandomGen_sample g) = ?p" "rg_xn (snd (RandomGen_sample g)) = ?p"
    by (simp_all add: RandomGen_sample_def Let_def)
  with p show "gen_ok (snd (RandomGen_sample g))" by (simp add: gen_ok_def)
qed

text \<open>The state after some draws.\<close>

definition after_draws :: "nat \<Rightarrow> random_gen \<Rightarrow> random_gen" where
  "after_draws n = ((\<lambda>g. snd (RandomGen_sample g)) ^^ n)"

lemma after_draws_Suc: "after_draws (Suc n) g = snd (RandomGen_sample (after_draws n g))"
  by (simp add: after_draws_def)

lemma after_draws_ok: "gen_ok g \<Longrightarrow> gen_ok (after_draws n g)"
  by (induction n) (simp_all add: after_draws_Suc sample_step(3), simp add: after_draws_def)

section \<open>Uniform variables\<close>

lemma uniform_range:
  assumes "gen_ok g" and "uv_min v < uv_max v" and "generatedValue v = 0" and "UniformVar_get v g = (x, v', g')"
  shows "uv_min v < x" and "x < uv_max v" and "generatedValue v' = x" and "gen_ok g'"
proof -
  let ?s = "RandomGen_sample g"
  have x: "x = of_int (fst ?s) * (uv_max v - uv_min v) / of_int gen_M + uv_min v" and g': "g' = snd ?s"
    and "generatedValue v' = x"
    using assms(3,4) by (auto simp: UniformVar_get_def Let_def split: prod.splits)
  note step = sample_step [OF assms(1)]
  have "0 < fst ?s" "fst ?s < gen_M" using step by (auto simp: gen_ok_def)
  then have frac: "0 < rat_of_int (fst ?s) / rat_of_int gen_M" "rat_of_int (fst ?s) / rat_of_int gen_M < 1"
    by (simp_all add: divide_less_eq_1)
  have x': "x = uv_min v + (uv_max v - uv_min v) * (rat_of_int (fst ?s) / rat_of_int gen_M)" by (simp add: x)
  have "0 < (uv_max v - uv_min v) * (rat_of_int (fst ?s) / rat_of_int gen_M)"
    using frac(1) assms(2) by (intro mult_pos_pos) simp_all
  then show "uv_min v < x" unfolding x' by simp
  have "(uv_max v - uv_min v) * (rat_of_int (fst ?s) / rat_of_int gen_M) < (uv_max v - uv_min v) * 1"
    using frac(2) assms(2) by (intro mult_strict_left_mono) simp_all
  then show "x < uv_max v" unfolding x' by simp
  show "generatedValue v' = x" by fact
  show "gen_ok g'" using step(3) g' by simp
qed

text \<open>
  The value that was drawn first is kept: a variable gives the same value for ever, unless it is zero, and does not
  ask the generator again.
\<close>

lemma uniform_draws_once:
  assumes "UniformVar_get v g = (x, v', g')" and "x \<noteq> 0"
  shows "UniformVar_get v' h = (x, v', h)"
  using assms by (auto simp: UniformVar_get_def Let_def split: if_splits prod.splits)

text \<open>Hence with \<open>NormalVar\<close> both the values of a pair come from one number.\<close>

lemma normal_one_number:
  assumes "normal_loop v g = Some (u1, u2, v', g')"
  shows "u1 = u2 \<and> double_min < u1"
proof -
  have "normal_loop v1 g1 = Some r \<Longrightarrow> fst r = fst (snd r) \<and> double_min < fst r" for v1 g1 r
  proof (induction v1 g1 r rule: normal_loop.raw_induct [rotated, consumes 1, case_names step])
    case (step loop v1 g1 r)
    obtain a v2 g2 where a: "UniformVar_get v1 g1 = (a, v2, g2)" by (cases "UniformVar_get v1 g1")
    obtain b v3 g3 where b: "UniformVar_get v2 g2 = (b, v3, g3)" by (cases "UniformVar_get v2 g2")
    show ?case
    proof (cases "a \<le> double_min")
      case True
      with step.hyps a b have "loop v3 g3 = Some r" by simp
      from step.IH [OF this] show ?thesis .
    next
      case False
      then have "a \<noteq> 0" by (auto simp: double_min_def)
      with uniform_draws_once [OF a] b have "b = a" by simp
      with False step.hyps a b show ?thesis by auto
    qed
  qed
  with assms show ?thesis by fastforce
qed

section \<open>Properties\<close>

text \<open>
  C27. The generator of random numbers is the multiplicative congruential generator with multiplier 16807 and modulus
  2147483647: after \<open>n\<close> draws from a seed between them its state is the seed times the n-th power of the
  multiplier, never 0, so it never gets stuck; and what \<open>sample\<close> computes instead of the product is never outside
  32 bits.
\<close>

theorem generator_is_lehmer:
  fixes n :: nat
  assumes "0 < s" and "s < gen_M"
  defines "g \<equiv> after_draws n (RandomGen_ctor s)"
  shows "rg_xn g = 16807 ^ n * s mod gen_M \<and> 0 < rg_xn g \<and> rg_xn g < gen_M \<and>
    \<bar>gen_A * (rg_xn g smod gen_Q) - gen_R * (rg_xn g sdiv gen_Q)\<bar> < 2 ^ 31"
proof -
  have start: "gen_ok (RandomGen_ctor s)" using assms(1,2) by (simp add: gen_ok_def RandomGen_ctor_def)
  have ok: "gen_ok g" unfolding g_def using start by (rule after_draws_ok)
  have "rg_xn (after_draws m (RandomGen_ctor s)) = 16807 ^ m * s mod gen_M" for m
  proof (induction m)
    case 0
    then show ?case using assms(1,2) by (simp add: after_draws_def RandomGen_ctor_def mod_pos_pos_trivial)
  next
    case (Suc m)
    have "rg_xn (after_draws (Suc m) (RandomGen_ctor s)) = 16807 * (16807 ^ m * s mod gen_M) mod gen_M"
      using sample_step(2) [OF after_draws_ok [OF start], of m] Suc by (simp add: after_draws_Suc gen_A_def)
    then show ?case by (simp add: mod_mult_right_eq mult.assoc)
  qed
  moreover have "\<bar>gen_A * (rg_xn g smod gen_Q) - gen_R * (rg_xn g sdiv gen_Q)\<bar> < 2 ^ 31"
    using schrage(1,2) [OF ok] by (simp add: gen_M_def)
  ultimately show ?thesis using ok by (simp add: g_def gen_ok_def)
qed

theorem generator_is_lehmer_witness: "rg_xn (after_draws 3 (RandomGen_ctor 1)) = 16807 ^ 3 mod gen_M"
  using generator_is_lehmer [of 1 3] by (simp add: gen_M_def)

end
