(* ===== verification/RTAnalysis.thy ===== *)
theory RTAnalysis
  imports RTServer "HOL-Library.Signed_Division"
begin

text \<open>
  The supervisors, which decide on line whether the budget of a server may grow: \<open>SchedRTA\<close>
  (\<open>schedrta.cpp\<close>), by response times, \<open>SchedPoint\<close> (\<open>schedpoints.cpp\<close>), by scheduling points, and
  \<open>SuperCBS\<close> (\<open>supercbs.cpp\<close>), by the total utilization.

  A supervisor knows its servers through the virtual methods of \<open>Server\<close>: \<open>server_vt\<close> is the table of
  these, for servers named by numbers in a state of any type.
\<close>

record 's server_vt =
  vt_now :: "'s \<Rightarrow> tick"
  vt_getBudget :: "nat \<Rightarrow> 's \<Rightarrow> tick"
  vt_getPeriod :: "nat \<Rightarrow> 's \<Rightarrow> tick"
  vt_changeBudget :: "nat \<Rightarrow> tick \<Rightarrow> 's \<Rightarrow> exc + tick \<times> 's"

definition CBServer_vt :: "world server_vt" where
  "CBServer_vt = \<lparr>vt_now = globTime, vt_getBudget = (\<lambda>s w. cbs_Q (servers w s)),
     vt_getPeriod = (\<lambda>s w. cbs_P (servers w s)), vt_changeBudget = CBServer_changeBudget\<rparr>"

text \<open>An element of a vector; what lies outside is undefined.\<close>

definition at_index :: "'a list \<Rightarrow> nat \<Rightarrow> exc + 'a" where
  "at_index xs i = (if i < length xs then Inr (xs ! i) else Inl OutOfRange)"

text \<open>A quotient of doubles.\<close>

definition fdiv :: "rat \<Rightarrow> rat \<Rightarrow> exc + rat" where
  "fdiv a b = (if b = 0 then Inl DivisionByZero else Inr (a / b))"

section \<open>SchedRTA\<close>

record server_info =
  si_server :: nat
  si_Q :: tick
  si_P :: tick
  si_R :: tick

record sched_rta =
  rta_servers :: "server_info list"
  rta_period :: "tick list"
  rta_wcet :: "tick list"
  rta_U :: "rat list"

definition SchedRTA_ctor :: sched_rta where
  "SchedRTA_ctor = \<lparr>rta_servers = [], rta_period = [], rta_wcet = [], rta_U = []\<rparr>"

definition ServerInfo_ctor :: "'s server_vt \<Rightarrow> nat \<Rightarrow> 's \<Rightarrow> server_info" where
  "ServerInfo_ctor vt s st = \<lparr>si_server = s, si_Q = vt_getBudget vt s st, si_P = vt_getPeriod vt s st, si_R = 0\<rparr>"

text \<open>
  \<open>std::sort\<close> leaves open how elements with equal keys are ordered: \<open>srt\<close> is any function that sorts by the
  current period of the server.
\<close>

definition SchedRTA_addServer ::
    "'s server_vt \<Rightarrow> ((server_info \<Rightarrow> tick) \<Rightarrow> server_info list \<Rightarrow> server_info list) \<Rightarrow> nat \<Rightarrow> 's \<Rightarrow>
     sched_rta \<Rightarrow> exc + sched_rta" where
  "SchedRTA_addServer vt srt s st r =
    (let cc = vt_getBudget vt s st; pp = vt_getPeriod vt s st in
     bindE (fdiv (of_int cc) (of_int pp)) (\<lambda>u.
     Inr \<lparr>rta_servers = srt (\<lambda>si. vt_getPeriod vt (si_server si) st) (rta_servers r @ [ServerInfo_ctor vt s st]),
          rta_period = rta_period r @ [pp], rta_wcet = rta_wcet r @ [cc], rta_U = rta_U r @ [u]\<rparr>))"

text \<open>One round of the loop of \<open>computeResponseTime\<close>, over the servers before \<open>i\<close>.\<close>

fun interference :: "tick \<Rightarrow> server_info list \<Rightarrow> tick \<Rightarrow> exc + tick" where
  "interference r_cur [] r_new = Inr r_new"
| "interference r_cur (sj # ss) r_new =
    (if int32_of (si_P sj) = 0 then Inl DivisionByZero
     else interference r_cur ss (r_new + (r_cur + si_P sj - 1) sdiv int32_of (si_P sj) * si_Q sj))"

function response_loop :: "server_info list \<Rightarrow> server_info \<Rightarrow> tick \<Rightarrow> exc + tick" where
  "response_loop hp si r_cur =
     bindE (interference r_cur hp (si_Q si)) (\<lambda>r_new.
     if r_cur < r_new \<and> r_new \<le> si_P si then response_loop hp si r_new else Inr r_new)"
  by pat_completeness auto
termination by (relation "measure (\<lambda>(hp, si, r). nat (si_P si - r))") auto

declare response_loop.simps [simp del]

definition computeResponseTime :: "server_info list \<Rightarrow> nat \<Rightarrow> exc + tick" where
  "computeResponseTime ss i = bindE (at_index ss i) (\<lambda>si. response_loop (take i ss) si (si_Q si))"

fun updateResponseTimes_from :: "server_info list \<Rightarrow> nat list \<Rightarrow> exc + server_info list" where
  "updateResponseTimes_from ss [] = Inr ss"
| "updateResponseTimes_from ss (i # is) =
     bindE (computeResponseTime ss i) (\<lambda>r. updateResponseTimes_from (ss[i := (ss ! i)\<lparr>si_R := r\<rparr>]) is)"

definition updateResponseTimes :: "sched_rta \<Rightarrow> exc + sched_rta" where
  "updateResponseTimes r =
     bindE (updateResponseTimes_from (rta_servers r) [0..<length (rta_servers r)]) (\<lambda>ss. Inr (r\<lparr>rta_servers := ss\<rparr>))"

text \<open>\<open>schedules && ...\<close>: the loop of \<open>tryBudget\<close> stops at the first server that misses its period.\<close>

fun all_schedulable :: "server_info list \<Rightarrow> nat list \<Rightarrow> exc + bool" where
  "all_schedulable ss [] = Inr True"
| "all_schedulable ss (j # js) =
     bindE (computeResponseTime ss j) (\<lambda>r. if r \<le> si_P (ss ! j) then all_schedulable ss js else Inr False)"

text \<open>\<open>tryBudget\<close> restores the budget before it returns.\<close>

definition tryBudget :: "server_info list \<Rightarrow> nat \<Rightarrow> tick \<Rightarrow> exc + bool" where
  "tryBudget ss i b =
     bindE (at_index ss i) (\<lambda>si. all_schedulable (ss[i := si\<lparr>si_Q := b\<rparr>]) [i..<length ss])"

text \<open>The recursion does not end when \<open>b1 > b2\<close> and the budgets below \<open>b1\<close> are rejected.\<close>

partial_function (option) searchBudget_between ::
    "server_info list \<Rightarrow> nat \<Rightarrow> tick \<Rightarrow> tick \<Rightarrow> (exc + tick) option" where
  [code]: "searchBudget_between ss i b1 b2 =
    (if b1 = b2 then Some (Inr b1)
     else if b2 = b1 + 1 then
       (case tryBudget ss i b2 of Inl e \<Rightarrow> Some (Inl e) | Inr ok \<Rightarrow> Some (Inr (if ok then b2 else b1)))
     else
       (case tryBudget ss i ((b1 + b2) sdiv 2) of
          Inl e \<Rightarrow> Some (Inl e)
        | Inr ok \<Rightarrow> if ok then searchBudget_between ss i ((b1 + b2) sdiv 2) b2
                   else searchBudget_between ss i b1 ((b1 + b2) sdiv 2)))"

definition searchBudget :: "server_info list \<Rightarrow> nat \<Rightarrow> (exc + tick) option" where
  "searchBudget ss i = (case at_index ss i of Inl e \<Rightarrow> Some (Inl e) | Inr si \<Rightarrow> searchBudget_between ss i (si_Q si) (si_P si))"

fun index_of :: "('a \<Rightarrow> bool) \<Rightarrow> 'a list \<Rightarrow> nat" where
  "index_of p [] = 0"
| "index_of p (x # xs) = (if p x then 0 else Suc (index_of p xs))"

definition SchedRTA_changeBudget ::
    "'s server_vt \<Rightarrow> nat \<Rightarrow> tick \<Rightarrow> sched_rta \<Rightarrow> 's \<Rightarrow> (exc + tick \<times> sched_rta \<times> 's) option" where
  "SchedRTA_changeBudget vt s db r st =
    (let ss = rta_servers r; i = index_of (\<lambda>si. si_server si = s) ss in
     if \<not> i < length ss then Some (Inl (AssertFailed ''i < servers.size()''))
     else case searchBudget ss i of
       None \<Rightarrow> None
     | Some (Inl e) \<Rightarrow> Some (Inl e)
     | Some (Inr max_b) \<Rightarrow>
         let cur_b = si_Q (ss ! i); new_b = min (cur_b + db) max_b in
         Some (bindE (vt_changeBudget vt s new_b st) (\<lambda>(_, st1).
           Inr (new_b - cur_b, r\<lparr>rta_servers := ss[i := (ss ! i)\<lparr>si_Q := new_b\<rparr>]\<rparr>, st1))))"

text \<open>
  \<open>updateU\<close> writes to \<open>wcet\<close> and \<open>U\<close>, which are in the order of \<open>addServer\<close>, and to \<open>servers\<close>, which are
  sorted, at the same index.
\<close>

definition SchedRTA_updateU :: "nat \<Rightarrow> tick \<Rightarrow> sched_rta \<Rightarrow> exc + sched_rta" where
  "SchedRTA_updateU task req r =
     bindE (at_index (rta_period r) task) (\<lambda>pp.
     bindE (fdiv (of_int req) (of_int pp)) (\<lambda>u.
     bindE (at_index (rta_servers r) task) (\<lambda>si.
     Inr (r\<lparr>rta_wcet := (rta_wcet r)[task := req], rta_U := (rta_U r)[task := u],
            rta_servers := (rta_servers r)[task := si\<lparr>si_Q := req\<rparr>]\<rparr>))))"

section \<open>SchedPoint\<close>

record sched_point =
  sp_counter :: nat
  sp_last_change_time :: tick
  sp_servers :: "nat \<Rightarrow> nat option"
  sp_period :: "tick list"
  sp_wcet :: "tick list"
  sp_U :: "rat list"
  sp_exactConstraints :: "rat list list list"

definition SchedPoint_ctor :: sched_point where
  "SchedPoint_ctor = \<lparr>sp_counter = 0, sp_last_change_time = 0, sp_servers = (\<lambda>_. None), sp_period = [],
     sp_wcet = [], sp_U = [], sp_exactConstraints = []\<rparr>"

definition SchedPoint_addServer :: "'s server_vt \<Rightarrow> nat \<Rightarrow> 's \<Rightarrow> sched_point \<Rightarrow> exc + sched_point" where
  "SchedPoint_addServer vt s st p =
    (let cc = vt_getBudget vt s st; pp = vt_getPeriod vt s st in
     bindE (fdiv (of_int cc) (of_int pp)) (\<lambda>u.
     Inr (p\<lparr>sp_servers := (sp_servers p)(s := Some (sp_counter p)), sp_counter := sp_counter p + 1,
            sp_period := sp_period p @ [pp], sp_wcet := sp_wcet p @ [cc], sp_U := sp_U p @ [u]\<rparr>)))"

text \<open>The scheduling points: one round of the outer loop of \<open>SetP\<close>, for one period, and all the rounds.\<close>

definition SetP_round :: "tick \<Rightarrow> tick list \<Rightarrow> tick list" where
  "SetP_round T schp =
     schp @ filter (\<lambda>p. 0 < p) (map (\<lambda>t. Tick_floor (of_int \<lfloor>of_int t / of_int T :: rat\<rfloor> * of_int T)) schp)"

definition SetP :: "tick \<Rightarrow> tick list \<Rightarrow> nat \<Rightarrow> exc + tick list" where
  "SetP D periods task =
    (if 0 \<in> set (take task periods) then Inl DivisionByZero
     else Inr (remdups_adj (sort (fold SetP_round (rev (take task periods)) [D]))))"

text \<open>
  The constraint of the task \<open>cur\<close> at the point \<open>t\<close>: the coefficients before and after the normalization.
\<close>

definition point_coefs :: "tick list \<Rightarrow> nat \<Rightarrow> tick \<Rightarrow> rat list" where
  "point_coefs periods cur t =
     map (\<lambda>j. of_int \<lceil>of_int t / of_int (periods ! j) :: rat\<rceil>) [0..<cur] @ [1] @ replicate (length periods - cur - 1) 0"

definition normalized_coefs :: "tick list \<Rightarrow> nat \<Rightarrow> tick \<Rightarrow> exc + rat list" where
  "normalized_coefs periods cur t =
    (if t = 0 then Inl DivisionByZero
     else Inr (map2 (\<lambda>c p. c * of_int p / of_int t) (point_coefs periods cur t) periods))"

text \<open>The period is passed to \<open>SetP\<close> as an \<open>int\<close>.\<close>

definition task_constraints :: "tick list \<Rightarrow> nat \<Rightarrow> exc + rat list list" where
  "task_constraints periods cur =
     bindE (SetP (int32_of (periods ! cur)) periods cur) (mapE (normalized_coefs periods cur))"

definition buildconstraints :: "sched_point \<Rightarrow> exc + sched_point" where
  "buildconstraints p =
     bindE (mapE (task_constraints (sp_period p)) [0..<length (sp_period p)]) (\<lambda>c. Inr (p\<lparr>sp_exactConstraints := c\<rparr>))"

text \<open>
  What the inner loops of \<open>sensitivity\<close> compute for one row of a constraint: how much the utilization of the task
  may grow until the row is violated, 100000000 when the task does not occur in the row.
\<close>

definition row_slack :: "rat list \<Rightarrow> nat \<Rightarrow> rat list \<Rightarrow> exc + rat" where
  "row_slack U task row =
    (if length row < length U \<or> length row \<le> task then Inl OutOfRange
     else let product = 1 - sum_list (map2 (*) row U) in
       Inr (if row ! task = 0 then 100000000 else product / row ! task))"

definition task_lambda :: "rat list \<Rightarrow> nat \<Rightarrow> rat list list \<Rightarrow> exc + rat" where
  "task_lambda U task rows = bindE (mapE (row_slack U task) rows) (\<lambda>ps. Inr (foldl max 0 ps))"

definition SchedPoint_sensitivity :: "sched_point \<Rightarrow> nat \<Rightarrow> exc + rat" where
  "SchedPoint_sensitivity p task =
    (if length (sp_exactConstraints p) < length (sp_U p) then Inl OutOfRange
     else bindE (mapE (task_lambda (sp_U p) task) (take (length (sp_U p)) (sp_exactConstraints p))) (\<lambda>lambdaVec.
       if lambdaVec = [] then Inl OutOfRange else Inr (foldl min (hd lambdaVec) lambdaVec)))"

definition SchedPoint_updateU :: "nat \<Rightarrow> tick \<Rightarrow> sched_point \<Rightarrow> exc + sched_point" where
  "SchedPoint_updateU task req p =
     bindE (at_index (sp_period p) task) (\<lambda>pp.
     bindE (fdiv (of_int req) (of_int pp)) (\<lambda>u.
     Inr (p\<lparr>sp_wcet := (sp_wcet p)[task := req], sp_U := (sp_U p)[task := u]\<rparr>)))"

definition SchedPoint_newRun :: "sched_point \<Rightarrow> sched_point" where
  "SchedPoint_newRun p = p\<lparr>sp_last_change_time := 0\<rparr>"

text \<open>
  \<open>changeBudget\<close>, which \<open>SchedPoint\<close> and \<open>SuperCBS\<close> share but for \<open>sensitivity\<close>.  Its result is the increment that
  is granted, the supervisor, the state of the servers, and the \<open>ChangeBudgetEvt\<close> it posts: its time, server and
  budget.  \<open>servers[s]\<close> inserts the index 0 for a server that was not added.
\<close>

type_synonym 's change_result = "tick \<times> sched_point \<times> 's \<times> (tick \<times> nat \<times> tick) option"

definition granted_delta :: "tick \<Rightarrow> tick \<Rightarrow> rat \<Rightarrow> exc + tick" where
  "granted_delta db pp lambda =
     bindE (fdiv (of_int db) (of_int pp)) (\<lambda>q. Inr (if q \<le> lambda then db else Tick_floor (lambda * of_int pp)))"

definition apply_change :: "'s server_vt \<Rightarrow> nat \<Rightarrow> tick \<Rightarrow> sched_point \<Rightarrow> 's \<Rightarrow> exc + 's change_result" where
  "apply_change vt s delta p st =
    (let n = delta + vt_getBudget vt s st in
     if sp_last_change_time p \<le> vt_now vt st then
       bindE (vt_changeBudget vt s n st) (\<lambda>(t, st1). Inr (delta, p\<lparr>sp_last_change_time := t\<rparr>, st1, None))
     else if delta < 0 then
       bindE (vt_changeBudget vt s n st) (\<lambda>(t, st1).
       Inr (delta, p\<lparr>sp_last_change_time := max (sp_last_change_time p) t\<rparr>, st1, None))
     else if 0 < delta then Inr (delta, p, st, Some (sp_last_change_time p, s, n))
     else Inr (delta, p, st, None))"

definition change_with ::
    "(sched_point \<Rightarrow> nat \<Rightarrow> exc + rat) \<Rightarrow> 's server_vt \<Rightarrow> nat \<Rightarrow> tick \<Rightarrow> sched_point \<Rightarrow> 's \<Rightarrow> exc + 's change_result" where
  "change_with sensitivity vt s db p st =
    (let index = (case sp_servers p s of None \<Rightarrow> 0 | Some i \<Rightarrow> i);
         p1 = p\<lparr>sp_servers := (sp_servers p)(s := Some index)\<rparr> in
     bindE (at_index (sp_period p1) index) (\<lambda>pp.
     bindE (if 0 < db then bindE (sensitivity p1 index) (granted_delta db pp) else Inr db) (\<lambda>delta.
     let w = max 1 (sp_wcet p1 ! index + delta) in
     bindE (fdiv (of_int w) (of_int pp)) (\<lambda>u.
     apply_change vt s delta
       (p1\<lparr>sp_wcet := (sp_wcet p1)[index := w], sp_U := (sp_U p1)[index := u]\<rparr>) st))))"

definition SchedPoint_changeBudget :: "'s server_vt \<Rightarrow> nat \<Rightarrow> tick \<Rightarrow> sched_point \<Rightarrow> 's \<Rightarrow> exc + 's change_result" where
  "SchedPoint_changeBudget = change_with SchedPoint_sensitivity"

definition SchedPoint_onChangeBudget :: "'s server_vt \<Rightarrow> nat \<Rightarrow> tick \<Rightarrow> 's \<Rightarrow> exc + 's" where
  "SchedPoint_onChangeBudget vt s budget st = bindE (vt_changeBudget vt s budget st) (\<lambda>(_, st1). Inr st1)"

section \<open>SuperCBS\<close>

text \<open>\<open>SuperCBS\<close> has the members of \<open>SchedPoint\<close> without the constraints.\<close>

definition SuperCBS_addServer :: "'s server_vt \<Rightarrow> nat \<Rightarrow> 's \<Rightarrow> sched_point \<Rightarrow> exc + sched_point" where
  "SuperCBS_addServer = SchedPoint_addServer"

definition SuperCBS_sensitivity :: "sched_point \<Rightarrow> nat \<Rightarrow> exc + rat" where
  "SuperCBS_sensitivity p task = Inr (1 - sum_list (sp_U p))"

definition SuperCBS_changeBudget :: "'s server_vt \<Rightarrow> nat \<Rightarrow> tick \<Rightarrow> sched_point \<Rightarrow> 's \<Rightarrow> exc + 's change_result" where
  "SuperCBS_changeBudget = change_with SuperCBS_sensitivity"

definition SuperCBS_onChangeBudget :: "'s server_vt \<Rightarrow> nat \<Rightarrow> tick \<Rightarrow> 's \<Rightarrow> exc + 's" where
  "SuperCBS_onChangeBudget = SchedPoint_onChangeBudget"

end
