(* ===== verification/RTAnalysis_Laws.thy ===== *)
theory RTAnalysis_Laws
  imports RTAnalysis
begin

text \<open>
  The three tests of the supervisors decide what they should: the response time is the least time by which the
  server and those before it are served, the scheduling points of a period decide whether there is such a time
  (so that \<open>SchedPoint\<close> accepts what \<open>SchedRTA\<close> accepts), the binary search finds the largest budget, and
  \<open>sensitivity\<close> the largest growth of a utilization.
\<close>

section \<open>The demand of a server and those before it\<close>

type_synonym load = "(int \<times> int) list"   \<comment> \<open>periods and budgets\<close>

definition demand :: "load \<Rightarrow> int \<Rightarrow> int" where
  "demand hs t = (\<Sum>(T, C)\<leftarrow>hs. \<lceil>of_int t / of_int T :: rat\<rceil> * C)"

definition load_ok :: "load \<Rightarrow> bool" where
  "load_ok hs \<longleftrightarrow> (\<forall>(T, C)\<in>set hs. 0 < T \<and> 0 \<le> C)"

lemma demand_Nil [simp]: "demand [] t = 0"
  and demand_Cons [simp]: "demand ((T, C) # hs) t = \<lceil>of_int t / of_int T :: rat\<rceil> * C + demand hs t"
  and demand_append [simp]: "demand (gs @ hs) t = demand gs t + demand hs t"
  by (simp_all add: demand_def)

lemma load_ok_simps [simp]:
  "load_ok []" "load_ok ((T, C) # hs) \<longleftrightarrow> 0 < T \<and> 0 \<le> C \<and> load_ok hs" "load_ok (gs @ hs) \<longleftrightarrow> load_ok gs \<and> load_ok hs"
  by (auto simp: load_ok_def)

lemma load_ok_take: "load_ok hs \<Longrightarrow> load_ok (take k hs)"
  by (auto simp: load_ok_def dest: in_set_takeD)

lemma ceiling_quotient_mono: "s \<le> t \<Longrightarrow> 0 < T \<Longrightarrow> \<lceil>of_int s / of_int T :: rat\<rceil> \<le> \<lceil>of_int t / of_int T :: rat\<rceil>"
  by (intro ceiling_mono divide_right_mono) simp_all

lemma ceiling_quotient_add:
  "0 < T \<Longrightarrow> \<lceil>of_int (s + t) / of_int T :: rat\<rceil> \<le> \<lceil>of_int s / of_int T :: rat\<rceil> + \<lceil>of_int t / of_int T :: rat\<rceil>"
  by (simp add: add_divide_distrib ceiling_add_le)

lemma ceiling_quotient_div: "0 < T \<Longrightarrow> \<lceil>of_int t / of_int T :: rat\<rceil> = (t + T - 1) div T"
proof -
  assume T: "0 < T"
  have "(t + T - 1) div T = - ((- t) div T)"
  proof -
    have "t + T - 1 = T * (- ((- t) div T)) + (T - 1 - (- t) mod T)"
      using mult_div_mod_eq [of T "- t"] by (simp add: algebra_simps)
    moreover have "0 \<le> T - 1 - (- t) mod T" "T - 1 - (- t) mod T < T"
      using pos_mod_bound [OF T, of "- t"] pos_mod_sign [OF T, of "- t"] by simp_all
    ultimately show ?thesis using T by (metis add.commute div_mult_self2 div_pos_pos_trivial add.left_neutral less_irrefl)
  qed
  then show ?thesis by (simp add: ceiling_divide_eq_div)
qed

lemma demand_mono: "load_ok hs \<Longrightarrow> s \<le> t \<Longrightarrow> demand hs s \<le> demand hs t"
  by (induction hs) (auto intro!: add_mono mult_right_mono ceiling_quotient_mono)

lemma demand_add: "load_ok hs \<Longrightarrow> demand hs (s + t) \<le> demand hs s + demand hs t"
proof (induction hs)
  case (Cons h hs)
  obtain T C where h: "h = (T, C)" by force
  have "\<lceil>of_int (s + t) / of_int T :: rat\<rceil> * C
      \<le> (\<lceil>of_int s / of_int T :: rat\<rceil> + \<lceil>of_int t / of_int T :: rat\<rceil>) * C"
    using Cons.prems h by (intro mult_right_mono ceiling_quotient_add) auto
  with Cons h show ?case by (simp add: algebra_simps)
qed simp

lemma demand_nonneg: "load_ok hs \<Longrightarrow> 0 \<le> t \<Longrightarrow> 0 \<le> demand hs t"
proof (induction hs)
  case (Cons h hs)
  obtain T C where h: "h = (T, C)" by force
  have "0 \<le> \<lceil>of_int t / of_int T :: rat\<rceil>"
    using Cons.prems h by (simp add: ceiling_quotient_div pos_imp_zdiv_nonneg_iff)
  with Cons h show ?case by simp
qed simp

section \<open>Response times\<close>

definition load_of :: "server_info list \<Rightarrow> load" where
  "load_of ss = map (\<lambda>s. (si_P s, si_Q s)) ss"

definition server_ok :: "server_info \<Rightarrow> bool" where
  "server_ok s \<longleftrightarrow> 0 < si_Q s \<and> 0 < si_P s \<and> si_P s < 2 ^ 31"

lemma load_of_simps [simp]:
  "load_of [] = []" "load_of (s # ss) = (si_P s, si_Q s) # load_of ss" "load_of (take k ss) = take k (load_of ss)"
  "length (load_of ss) = length ss"
  by (simp_all add: load_of_def take_map)

lemma load_of_ok: "\<forall>s\<in>set ss. server_ok s \<Longrightarrow> load_ok (load_of ss)"
  by (auto simp: load_ok_def load_of_def server_ok_def)

lemma sdiv_nonneg: "0 \<le> x \<Longrightarrow> 0 < q \<Longrightarrow> x sdiv q = x div (q :: int)"
  by (cases "x = 0") (simp_all add: signed_divide_int_def)

lemma interference_demand:
  "\<forall>s\<in>set hp. server_ok s \<Longrightarrow> 0 \<le> r \<Longrightarrow> interference r hp n = Inr (n + demand (load_of hp) r)"
proof (induction hp arbitrary: n)
  case (Cons s hp)
  then have s: "0 < si_P s" "int32_of (si_P s) = si_P s" by (simp_all add: server_ok_def int32_of_small)
  have "(r + si_P s - 1) sdiv si_P s = \<lceil>of_int r / of_int (si_P s) :: rat\<rceil>"
    using s Cons.prems(2) by (simp add: sdiv_nonneg ceiling_quotient_div)
  with Cons s show ?case by simp
qed simp

text \<open>A time by which the server \<open>si\<close> and those in \<open>hp\<close> have got what they ask for until then.\<close>

definition served_at :: "load \<Rightarrow> int \<Rightarrow> int \<Rightarrow> bool" where
  "served_at hs K t \<longleftrightarrow> 0 < t \<and> K + demand hs t \<le> t"

lemma response_loop_least:
  assumes "\<forall>s\<in>set hp. server_ok s" and "0 \<le> r" and "r \<le> si_Q si + demand (load_of hp) r"
    and "\<And>t. served_at (load_of hp) (si_Q si) t \<Longrightarrow> r \<le> t"
  shows "\<exists>R. response_loop hp si r = Inr R \<and> r \<le> R \<and> (R \<le> si_P si \<longrightarrow> si_Q si + demand (load_of hp) R = R) \<and>
    (\<forall>t. served_at (load_of hp) (si_Q si) t \<longrightarrow> R \<le> t)"
  using assms
proof (induction hp si r rule: response_loop.induct)
  case (1 hp si r)
  let ?W = "\<lambda>t. si_Q si + demand (load_of hp) t"
  note ok = load_of_ok [OF "1.prems"(1)]
  have run: "interference r hp (si_Q si) = Inr (?W r)" using "1.prems"(1,2) by (rule interference_demand)
  have below: "?W r \<le> t" if t: "served_at (load_of hp) (si_Q si) t" for t
  proof -
    have "demand (load_of hp) r \<le> demand (load_of hp) t" using "1.prems"(4) [OF t] by (rule demand_mono [OF ok])
    with t show ?thesis by (simp add: served_at_def)
  qed
  show ?case
  proof (cases "r < ?W r \<and> ?W r \<le> si_P si")
    case True
    have "?W r \<le> ?W (?W r)" using demand_mono [OF ok "1.prems"(3)] by simp
    then have "\<exists>R. response_loop hp si (?W r) = Inr R \<and> ?W r \<le> R \<and> (R \<le> si_P si \<longrightarrow> ?W R = R) \<and>
        (\<forall>t. served_at (load_of hp) (si_Q si) t \<longrightarrow> R \<le> t)"
      using "1.IH" [OF run] True "1.prems" below by auto
    with True run "1.prems"(3) show ?thesis by (subst response_loop.simps) (auto intro: order_trans)
  next
    case False
    then have "response_loop hp si r = Inr (?W r)" by (subst response_loop.simps) (auto simp: run)
    moreover have "?W (?W r) = ?W r" if "?W r \<le> si_P si" using False that "1.prems"(3) by (metis order_antisym not_le)
    ultimately show ?thesis using "1.prems"(3) below by blast
  qed
qed

definition rta_feasible :: "server_info list \<Rightarrow> nat \<Rightarrow> bool" where
  "rta_feasible ss i \<longleftrightarrow> (\<exists>t. t \<le> si_P (ss ! i) \<and> served_at (load_of (take i ss)) (si_Q (ss ! i)) t)"

lemma computeResponseTime_least:
  assumes "\<forall>s\<in>set ss. server_ok s" and "i < length ss"
  shows "\<exists>R. computeResponseTime ss i = Inr R \<and> (R \<le> si_P (ss ! i) \<longleftrightarrow> rta_feasible ss i) \<and>
    (R \<le> si_P (ss ! i) \<longrightarrow> served_at (load_of (take i ss)) (si_Q (ss ! i)) R) \<and>
    (\<forall>t. served_at (load_of (take i ss)) (si_Q (ss ! i)) t \<longrightarrow> R \<le> t)"
proof -
  let ?si = "ss ! i" and ?hp = "take i ss"
  have ok: "\<forall>s\<in>set ?hp. server_ok s" "0 < si_Q ?si"
    using assms by (auto simp: server_ok_def dest: in_set_takeD)
  have low: "si_Q ?si \<le> t" if "served_at (load_of ?hp) (si_Q ?si) t" for t
    using that demand_nonneg [OF load_of_ok [OF ok(1)], of t] by (simp add: served_at_def)
  have "si_Q ?si \<le> si_Q ?si + demand (load_of ?hp) (si_Q ?si)"
    using demand_nonneg [OF load_of_ok [OF ok(1)], of "si_Q ?si"] ok(2) by simp
  from response_loop_least [OF ok(1) _ this low] ok(2)
  obtain R where R: "response_loop ?hp ?si (si_Q ?si) = Inr R" "si_Q ?si \<le> R"
      "R \<le> si_P ?si \<longrightarrow> si_Q ?si + demand (load_of ?hp) R = R"
      "\<forall>t. served_at (load_of ?hp) (si_Q ?si) t \<longrightarrow> R \<le> t" by auto
  have served: "served_at (load_of ?hp) (si_Q ?si) R" if "R \<le> si_P ?si"
    using that R(2,3) ok(2) by (simp add: served_at_def)
  have "computeResponseTime ss i = Inr R" using assms(2) R(1) by (simp add: computeResponseTime_def at_index_def)
  moreover have "R \<le> si_P ?si \<longleftrightarrow> rta_feasible ss i"
    using served R(4) unfolding rta_feasible_def by (metis order_trans)
  ultimately show ?thesis using served R(4) by blast
qed

section \<open>Scheduling points\<close>

definition points :: "int list \<Rightarrow> int list \<Rightarrow> int list" where
  "points Ts S = fold SetP_round (rev Ts) S"

lemma points_Nil [simp]: "points [] S = S"
  and points_snoc [simp]: "points (Ts @ [T]) S = points Ts (SetP_round T S)"
  by (simp_all add: points_def)

lemma floor_quotient: "\<lfloor>of_int t / of_int T :: rat\<rfloor> = t div T"
  by (rule floor_divide_of_int_eq)

lemma set_SetP_round: "set (SetP_round T S) = set S \<union> {p. 0 < p \<and> (\<exists>t\<in>set S. p = t div T * T)}"
proof -
  have "Tick_floor (of_int \<lfloor>of_int t / of_int T :: rat\<rfloor> * of_int T) = t div T * T" for t
    unfolding Tick_floor_def floor_quotient by (metis floor_of_int of_int_mult)
  then show ?thesis unfolding SetP_round_def by auto
qed

lemma points_mono: "set S \<subseteq> set S' \<Longrightarrow> set (points Ts S) \<subseteq> set (points Ts S')"
proof (induction Ts arbitrary: S S' rule: rev_induct)
  case (snoc T Ts)
  have "set (SetP_round T S) \<subseteq> set (SetP_round T S')" unfolding set_SetP_round using snoc.prems by blast
  then show ?case using snoc.IH by simp
qed simp

lemma points_bound:
  assumes "\<forall>T\<in>set Ts. 0 < T" and "\<forall>s\<in>set S. 0 < s \<and> s \<le> b" and "t \<in> set (points Ts S)"
  shows "0 < t \<and> t \<le> b"
  using assms
proof (induction Ts arbitrary: S rule: rev_induct)
  case (snoc T Ts)
  have "p \<le> b" if "p = s div T * T" "s \<in> set S" for p s
  proof -
    have "s div T * T \<le> s" using snoc.prems(1) by (simp add: minus_mod_eq_div_mult [symmetric])
    with that snoc.prems(2) show ?thesis by (auto intro: order_trans)
  qed
  then have "\<forall>s\<in>set (SetP_round T S). 0 < s \<and> s \<le> b" unfolding set_SetP_round using snoc.prems(2) by blast
  then show ?case using snoc by simp
qed auto

lemma points_start: "s \<in> set S \<Longrightarrow> s \<in> set (points Ts S)"
proof (induction Ts arbitrary: S rule: rev_induct)
  case (snoc T Ts)
  then have "s \<in> set (SetP_round T S)" by (simp add: set_SetP_round)
  then show ?case using snoc.IH by simp
qed simp

text \<open>
  The first \<open>k\<close> tasks are schedulable.  A time at which all is served can then be moved into the last period of the
  task \<open>k\<close> before any multiple of it, which is why no other multiples are needed.
\<close>

definition prefixes_served :: "load \<Rightarrow> bool" where
  "prefixes_served hs \<longleftrightarrow> (\<forall>k<length hs. \<exists>r. 0 < r \<and> r \<le> fst (hs ! k) \<and> demand (take (Suc k) hs) r \<le> r)"

lemma prefixes_served_snoc:
  "prefixes_served (hs @ [(T, C)]) \<longleftrightarrow>
     prefixes_served hs \<and> (\<exists>r. 0 < r \<and> r \<le> T \<and> demand (hs @ [(T, C)]) r \<le> r)"
  unfolding prefixes_served_def by (auto simp: less_Suc_eq nth_append)

lemma served_in_last_period:
  assumes "load_ok (hs @ [(T, C)])" and "0 < r" and "r \<le> T" and "demand (hs @ [(T, C)]) r \<le> r"
    and "served_at (hs @ [(T, C)]) K t" and "t \<le> f"
  shows "\<exists>t'. served_at (hs @ [(T, C)]) K t' \<and> f - T < t' \<and> t' \<le> f"
  using assms(5,6)
proof (induction "nat (f - t)" arbitrary: t rule: less_induct)
  case less
  show ?case
  proof (cases "f - T < t")
    case False
    have "demand (hs @ [(T, C)]) (t + r) \<le> demand (hs @ [(T, C)]) t + demand (hs @ [(T, C)]) r"
      by (rule demand_add [OF assms(1)])
    then have "served_at (hs @ [(T, C)]) K (t + r)" using less.prems(1) assms(2,4) by (simp add: served_at_def)
    then show ?thesis using less.hyps [of "t + r"] False less.prems assms(2,3) by simp
  qed (use less.prems in blast)
qed

lemma points_suffice:
  assumes "load_ok hs" and "prefixes_served hs" and "0 < b" and "served_at hs K t" and "t \<le> b"
  shows "\<exists>s\<in>set (points (map fst hs) [b]). served_at hs K s"
  using assms
proof (induction hs arbitrary: b K t rule: rev_induct)
  case Nil
  then show ?case by (simp add: served_at_def)
next
  case (snoc h hs)
  obtain T C where h: "h = (T, C)" by force
  note ok = snoc.prems(1) [unfolded h]
  then have T: "0 < T" "0 \<le> C" "load_ok hs" by simp_all
  from snoc.prems(2) obtain r where pre: "prefixes_served hs"
    and r: "0 < r" "r \<le> T" "demand (hs @ [(T, C)]) r \<le> r"
    unfolding h prefixes_served_snoc by blast
  text \<open>At the points of \<open>hs\<close> up to a bound, where the last task asks for no more than it asks for at the bound.\<close>
  have step: "\<exists>s\<in>set (points (map fst (hs @ [h])) [b]). served_at (hs @ [h]) K s"
    if b': "b' \<in> set (SetP_round T [b])" "0 < b'" and t': "served_at (hs @ [h]) K t'" "t' \<le> b'"
      and same: "\<lceil>of_int t' / of_int T :: rat\<rceil> = \<lceil>of_int b' / of_int T :: rat\<rceil>" for b' t'
  proof -
    let ?K = "K + \<lceil>of_int b' / of_int T :: rat\<rceil> * C"
    have "served_at hs ?K t'" using t'(1) same by (simp add: served_at_def h)
    from snoc.IH [OF T(3) pre b'(2) this t'(2)] obtain s
      where s: "s \<in> set (points (map fst hs) [b'])" "served_at hs ?K s" by blast
    have "\<forall>T\<in>set (map fst hs). 0 < T" using T(3) by (auto simp: load_ok_def)
    then have "s \<le> b'" using points_bound [OF _ _ s(1), of b'] b'(2) by simp
    then have "\<lceil>of_int s / of_int T :: rat\<rceil> * C \<le> \<lceil>of_int b' / of_int T :: rat\<rceil> * C"
      using T by (intro mult_right_mono ceiling_quotient_mono) auto
    then have "served_at (hs @ [h]) K s" using s(2) by (simp add: served_at_def h)
    moreover have "s \<in> set (points (map fst (hs @ [h])) [b])"
      using s(1) points_mono [of "[b']" "SetP_round T [b]" "map fst hs"] b'(1) by (auto simp: h)
    ultimately show ?thesis by blast
  qed
  define f where "f = b div T * T"
  have fb: "f \<le> b" "b < f + T"
    using T(1) pos_mod_bound [OF T(1), of b] pos_mod_sign [OF T(1), of b]
    by (simp_all add: f_def minus_mod_eq_div_mult [symmetric])
  have mult: "\<lceil>of_int x / of_int T :: rat\<rceil> = q + 1" if "q * T < x" "x \<le> (q + 1) * T" for x q
  proof -
    have "(x + T - 1) div T = q + 1"
      by (rule int_div_pos_eq [where r = "x - q * T - 1"]) (use that T(1) in \<open>simp_all add: algebra_simps\<close>)
    with T(1) show ?thesis by (simp add: ceiling_quotient_div)
  qed
  show ?case
  proof (cases "f < t")
    case True
    then have "\<lceil>of_int t / of_int T :: rat\<rceil> = b div T + 1" "\<lceil>of_int b / of_int T :: rat\<rceil> = b div T + 1"
      using mult [of "b div T"] fb snoc.prems(5) by (simp_all add: f_def algebra_simps)
    then show ?thesis using step [of b t] snoc.prems by (simp add: set_SetP_round)
  next
    case False
    then obtain t' where t': "served_at (hs @ [(T, C)]) K t'" "f - T < t'" "t' \<le> f"
      using served_in_last_period [OF ok r, of K t f] snoc.prems(4) h by auto
    then have f: "0 < f" "f \<in> set (SetP_round T [b])" by (auto simp: served_at_def set_SetP_round f_def)
    have "\<lceil>of_int t' / of_int T :: rat\<rceil> = b div T" "\<lceil>of_int f / of_int T :: rat\<rceil> = b div T"
      using mult [of "b div T - 1"] t'(2,3) T(1) by (simp_all add: f_def algebra_simps)
    then show ?thesis using step [OF f(2,1), of t'] t' h by simp
  qed
qed

section \<open>The constraints of SchedPoint\<close>

lemma mapE_Inr: "mapE f xs = Inr ys \<longleftrightarrow> list_all2 (\<lambda>x y. f x = Inr y) xs ys"
  by (induction xs arbitrary: ys) (auto simp: bindE_eq_Inr list_all2_Cons1)

lemma mapE_map: "(\<And>x. x \<in> set xs \<Longrightarrow> f x = Inr (g x)) \<Longrightarrow> mapE f xs = Inr (map g xs)"
  by (simp add: mapE_Inr list_all2_map2 list_all2_same)

definition utilization :: "rat list \<Rightarrow> rat list \<Rightarrow> rat" where
  "utilization row U = sum_list (map2 (*) row U)"

lemma utilization_nth: "length row = length U \<Longrightarrow> utilization row U = (\<Sum>j<length U. row ! j * U ! j)"
  by (simp add: utilization_def sum_list_sum_nth atLeast0LessThan)

definition row_at :: "tick list \<Rightarrow> nat \<Rightarrow> tick \<Rightarrow> rat list" where
  "row_at Ts cur t = map2 (\<lambda>c p. c * of_int p / of_int t) (point_coefs Ts cur t) Ts"

lemma length_row_at: "cur < length Ts \<Longrightarrow> length (row_at Ts cur t) = length Ts"
  by (simp add: row_at_def point_coefs_def)

lemma row_at_nth:
  "cur < length Ts \<Longrightarrow> j < length Ts \<Longrightarrow> row_at Ts cur t ! j =
     (if j < cur then of_int \<lceil>of_int t / of_int (Ts ! j) :: rat\<rceil> else if j = cur then 1 else 0) * of_int (Ts ! j) / of_int t"
  by (auto simp: row_at_def point_coefs_def nth_append)

definition rates :: "server_info list \<Rightarrow> rat list" where
  "rates ss = map (\<lambda>s. of_int (si_Q s) / of_int (si_P s)) ss"

lemma length_rates [simp]: "length (rates ss) = length ss"
  by (simp add: rates_def)

lemma row_served:
  assumes "\<forall>s\<in>set ss. server_ok s" and "i < length ss" and "0 < t"
  shows "utilization (row_at (map si_P ss) i t) (rates ss) \<le> 1 \<longleftrightarrow> served_at (load_of (take i ss)) (si_Q (ss ! i)) t"
proof -
  let ?n = "length ss"
  let ?c = "\<lambda>j. if j < i then of_int \<lceil>of_int t / of_int (si_P (ss ! j)) :: rat\<rceil> else if j = i then 1 else (0 :: rat)"
  have P: "0 < si_P (ss ! j)" if "j < ?n" for j using assms(1) that by (simp add: server_ok_def)
  have "utilization (row_at (map si_P ss) i t) (rates ss)
      = (\<Sum>j<?n. row_at (map si_P ss) i t ! j * rates ss ! j)"
    using assms(2) by (subst utilization_nth) (simp_all add: length_row_at)
  also have "\<dots> = (\<Sum>j<?n. ?c j * of_int (si_Q (ss ! j)) / of_int t)"
  proof (intro sum.cong refl)
    fix j
    assume "j \<in> {..<?n}"
    then show "row_at (map si_P ss) i t ! j * rates ss ! j = ?c j * of_int (si_Q (ss ! j)) / of_int t"
      using assms(2) P [of j] by (simp add: row_at_nth rates_def)
  qed
  also have "\<dots> = (\<Sum>j<Suc i. ?c j * of_int (si_Q (ss ! j)) / of_int t)"
    using assms(2) by (intro sum.mono_neutral_right) auto
  also have "\<dots> = (of_int (demand (load_of (take i ss)) t) + of_int (si_Q (ss ! i))) / of_int t"
  proof -
    have "demand (load_of (take i ss)) t = (\<Sum>j<i. \<lceil>of_int t / of_int (si_P (ss ! j)) :: rat\<rceil> * si_Q (ss ! j))"
      using assms(2) by (simp add: demand_def load_of_def sum_list_sum_nth atLeast0LessThan min_absorb2)
    then show ?thesis by (simp add: sum_divide_distrib add_divide_distrib)
  qed
  finally have "utilization (row_at (map si_P ss) i t) (rates ss)
      = of_int (si_Q (ss ! i) + demand (load_of (take i ss)) t) / of_int t" by (simp add: add.commute)
  then show ?thesis using assms(3) by (simp add: served_at_def del: of_int_add)
qed

definition rows_of :: "server_info list \<Rightarrow> nat \<Rightarrow> rat list list" where
  "rows_of ss i = map (row_at (map si_P ss) i) (remdups_adj (sort (points (take i (map si_P ss)) [si_P (ss ! i)])))"

lemma prefix_periods: "\<forall>s\<in>set ss. server_ok s \<Longrightarrow> \<forall>T\<in>set (take i (map si_P ss)). 0 < T"
  by (auto simp: server_ok_def take_map dest: in_set_takeD)

lemma task_constraints_rows:
  assumes "\<forall>s\<in>set ss. server_ok s" and "i < length ss"
  shows "task_constraints (map si_P ss) i = Inr (rows_of ss i)"
proof -
  let ?Ts = "map si_P ss"
  have Ti: "0 < si_P (ss ! i)" "si_P (ss ! i) < 2 ^ 31" using assms by (simp_all add: server_ok_def)
  note pos = prefix_periods [OF assms(1), of i]
  then have "SetP (int32_of (?Ts ! i)) ?Ts i = Inr (remdups_adj (sort (points (take i ?Ts) [si_P (ss ! i)])))"
    using Ti assms(2) by (auto simp: SetP_def points_def int32_of_small)
  moreover have "normalized_coefs ?Ts i t = Inr (row_at ?Ts i t)"
    if "t \<in> set (remdups_adj (sort (points (take i ?Ts) [si_P (ss ! i)])))" for t
    using points_bound [OF pos, of "[si_P (ss ! i)]" "si_P (ss ! i)" t] that Ti
    by (simp add: normalized_coefs_def row_at_def)
  ultimately show ?thesis
    unfolding task_constraints_def rows_of_def by (simp only: bindE.simps) (rule mapE_map, blast)
qed

lemma buildconstraints_rows:
  assumes "\<forall>s\<in>set ss. server_ok s" and "sp_period p = map si_P ss"
  shows "buildconstraints p = Inr (p\<lparr>sp_exactConstraints := map (rows_of ss) [0..<length ss]\<rparr>)"
  using assms mapE_map [of "[0..<length ss]" "task_constraints (map si_P ss)" "rows_of ss"]
  by (simp add: buildconstraints_def task_constraints_rows)

lemma rows_of_cong: "map si_P ss = map si_P ss' \<Longrightarrow> i < length ss \<Longrightarrow> rows_of ss i = rows_of ss' i"
  by (metis rows_of_def nth_map length_map)

lemma rta_feasible_prefix:
  assumes "\<forall>s\<in>set ss. server_ok s" and "i \<le> length ss" and "\<forall>j<i. rta_feasible ss j"
  shows "prefixes_served (load_of (take i ss))"
  unfolding prefixes_served_def
proof (intro allI impI)
  fix k
  assume "k < length (load_of (take i ss))"
  then have k: "k < i" "k < length ss" using assms(2) by auto
  from k(1) assms(3) obtain t where t: "t \<le> si_P (ss ! k)" "served_at (load_of (take k ss)) (si_Q (ss ! k)) t"
    unfolding rta_feasible_def by blast
  have one: "\<lceil>of_int t / of_int (si_P (ss ! k)) :: rat\<rceil> = 1"
    using t by (intro ceiling_unique) (simp_all add: served_at_def)
  have "take (Suc k) (load_of (take i ss)) = load_of (take k ss) @ [(si_P (ss ! k), si_Q (ss ! k))]"
    using k by (simp add: take_Suc_conv_app_nth load_of_def min_absorb1 take_map)
  moreover have "fst (load_of (take i ss) ! k) = si_P (ss ! k)" using k by (simp add: load_of_def)
  ultimately show "\<exists>r. 0 < r \<and> r \<le> fst (load_of (take i ss) ! k) \<and> demand (take (Suc k) (load_of (take i ss))) r \<le> r"
    using t one by (intro exI [of _ t]) (simp add: served_at_def)
qed

lemma rows_of_feasible:
  assumes "\<forall>s\<in>set ss. server_ok s" and "i < length ss" and "\<forall>j<i. rta_feasible ss j"
  shows "(\<exists>row\<in>set (rows_of ss i). utilization row (rates ss) \<le> 1) \<longleftrightarrow> rta_feasible ss i"
proof -
  let ?pts = "points (take i (map si_P ss)) [si_P (ss ! i)]"
  have Ti: "0 < si_P (ss ! i)" using assms(1,2) by (simp add: server_ok_def)
  note pos = prefix_periods [OF assms(1), of i]
  have bound: "0 < t \<and> t \<le> si_P (ss ! i)" if "t \<in> set ?pts" for t
    using points_bound [OF pos _ that, of "si_P (ss ! i)"] Ti by simp
  have "(\<exists>row\<in>set (rows_of ss i). utilization row (rates ss) \<le> 1)
      \<longleftrightarrow> (\<exists>t\<in>set ?pts. served_at (load_of (take i ss)) (si_Q (ss ! i)) t)"
    using row_served [OF assms(1,2)] bound by (auto simp: rows_of_def)
  also have "\<dots> \<longleftrightarrow> rta_feasible ss i"
  proof
    assume "rta_feasible ss i"
    then obtain t where t: "t \<le> si_P (ss ! i)" "served_at (load_of (take i ss)) (si_Q (ss ! i)) t"
      unfolding rta_feasible_def by blast
    have "map fst (load_of (take i ss)) = take i (map si_P ss)" by (simp add: load_of_def take_map comp_def)
    moreover have "load_ok (load_of (take i ss))" using assms(1) by (intro load_of_ok) (auto dest: in_set_takeD)
    moreover have "prefixes_served (load_of (take i ss))" using assms by (intro rta_feasible_prefix) auto
    ultimately show "\<exists>t\<in>set ?pts. served_at (load_of (take i ss)) (si_Q (ss ! i)) t"
      using points_suffice [OF _ _ Ti t(2,1)] by metis
  qed (auto simp: rta_feasible_def dest: bound)
  finally show ?thesis .
qed

lemma all_rows_feasible:
  assumes "\<forall>s\<in>set ss. server_ok s"
  shows "(\<forall>i<length ss. \<exists>row\<in>set (rows_of ss i). utilization row (rates ss) \<le> 1) \<longleftrightarrow> (\<forall>i<length ss. rta_feasible ss i)"
proof -
  have "rta_feasible ss i"
    if rows: "\<forall>i<length ss. \<exists>row\<in>set (rows_of ss i). utilization row (rates ss) \<le> 1" and "i < length ss" for i
    using that(2)
  proof (induction i rule: less_induct)
    case (less i)
    then show ?case using rows rows_of_feasible [OF assms less.prems] by auto
  qed
  then show ?thesis using rows_of_feasible [OF assms] by (metis order.strict_trans)
qed

section \<open>The budget of one server\<close>

definition with_budget :: "server_info list \<Rightarrow> nat \<Rightarrow> tick \<Rightarrow> server_info list" where
  "with_budget ss i b = ss[i := (ss ! i)\<lparr>si_Q := b\<rparr>]"

lemma with_budget_simps [simp]:
  "length (with_budget ss i b) = length ss"
  "map si_P (with_budget ss i b) = map si_P ss"
  "with_budget ss i (si_Q (ss ! i)) = ss"
  "j < length ss \<Longrightarrow> si_P (with_budget ss i b ! j) = si_P (ss ! j)"
  "j < length ss \<Longrightarrow> si_Q (with_budget ss i b ! j) = (if j = i then b else si_Q (ss ! j))"
  by (cases "i < length ss"; auto simp: with_budget_def nth_list_update list_update_beyond intro: nth_equalityI)+

lemma load_before: "j \<le> i \<Longrightarrow> load_of (take j (with_budget ss i b)) = load_of (take j ss)"
  by (simp add: with_budget_def del: load_of_simps(3))

lemma with_budget_ok:
  assumes "\<forall>s\<in>set ss. server_ok s" and "i < length ss" and "0 < b"
  shows "\<forall>s\<in>set (with_budget ss i b). server_ok s"
proof
  fix s
  assume "s \<in> set (with_budget ss i b)"
  then have "s = (ss ! i)\<lparr>si_Q := b\<rparr> \<or> s \<in> set ss" unfolding with_budget_def by (metis insert_iff set_update_subset_insert subsetD)
  then show "server_ok s" using assms by (auto simp: server_ok_def)
qed

lemma demand_le:
  "list_all2 (\<lambda>(T, C) (T', C'). T = T' \<and> C \<le> C') hs hs' \<Longrightarrow> load_ok hs \<Longrightarrow> 0 \<le> t \<Longrightarrow> demand hs t \<le> demand hs' t"
proof (induction rule: list_all2_induct)
  case (Cons h hs h' hs')
  obtain T C C' where h: "h = (T, C)" "h' = (T, C')" "C \<le> C'" using Cons(1) by (cases h; cases h') auto
  have "0 \<le> \<lceil>of_int t / of_int T :: rat\<rceil>"
    using Cons.prems h by (simp add: ceiling_quotient_div pos_imp_zdiv_nonneg_iff)
  with Cons h show ?case by (auto intro!: add_mono mult_left_mono)
qed simp

lemma rta_feasible_antimono:
  assumes "\<forall>s\<in>set ss. server_ok s" and "i < length ss" and "j < length ss" and "0 < b" and "b \<le> b'"
    and "rta_feasible (with_budget ss i b') j"
  shows "rta_feasible (with_budget ss i b) j"
proof -
  let ?l = "\<lambda>b. load_of (take j (with_budget ss i b))"
  from assms(6) obtain t where t: "t \<le> si_P (ss ! j)" "served_at (?l b') (si_Q (with_budget ss i b' ! j)) t"
    using assms(3) unfolding rta_feasible_def by auto
  have "list_all2 (\<lambda>(T, C) (T', C'). T = T' \<and> C \<le> C') (?l b) (?l b')"
    using assms(2,3,5) by (auto simp: list_all2_conv_all_nth load_of_def)
  moreover have "load_ok (?l b)"
    using with_budget_ok [OF assms(1,2,4)] by (intro load_of_ok) (auto dest: in_set_takeD)
  ultimately have "demand (?l b) t \<le> demand (?l b') t" using t(2) by (intro demand_le) (auto simp: served_at_def)
  moreover have "si_Q (with_budget ss i b ! j) \<le> si_Q (with_budget ss i b' ! j)" using assms(2,3,5) by simp
  ultimately have "served_at (?l b) (si_Q (with_budget ss i b ! j)) t" using t(2) unfolding served_at_def by linarith
  with t(1) assms(3) show ?thesis unfolding rta_feasible_def by auto
qed

lemma rta_feasible_before: "j < i \<Longrightarrow> i < length ss \<Longrightarrow> rta_feasible (with_budget ss i b) j \<longleftrightarrow> rta_feasible ss j"
  by (simp add: rta_feasible_def with_budget_def)

lemma all_schedulable_feasible:
  assumes "\<forall>s\<in>set ss. server_ok s"
  shows "\<forall>j\<in>set js. j < length ss \<Longrightarrow> all_schedulable ss js = Inr (\<forall>j\<in>set js. rta_feasible ss j)"
proof (induction js)
  case (Cons j js)
  then have "j < length ss" by simp
  from computeResponseTime_least [OF assms this] Cons show ?case by auto
qed simp

definition fits :: "server_info list \<Rightarrow> nat \<Rightarrow> tick \<Rightarrow> bool" where
  "fits ss i b \<longleftrightarrow> (\<forall>j<length ss. rta_feasible (with_budget ss i b) j)"

lemma tryBudget_fits:
  assumes "\<forall>s\<in>set ss. server_ok s" and "i < length ss" and "0 < b" and "\<forall>j<i. rta_feasible ss j"
  shows "tryBudget ss i b = Inr (fits ss i b)"
proof -
  have "tryBudget ss i b = Inr (\<forall>j\<in>set [i..<length ss]. rta_feasible (with_budget ss i b) j)"
    using all_schedulable_feasible [OF with_budget_ok [OF assms(1-3)], of "[i..<length ss]"] assms(2)
    by (simp add: tryBudget_def at_index_def with_budget_def)
  moreover have "rta_feasible (with_budget ss i b) j" if "j < i" for j
    using rta_feasible_before [OF that assms(2)] assms(4) that by simp
  ultimately show ?thesis unfolding fits_def by (auto simp: not_le [symmetric])
qed

lemma fits_antimono: "\<forall>s\<in>set ss. server_ok s \<Longrightarrow> i < length ss \<Longrightarrow> 0 < b \<Longrightarrow> b \<le> b' \<Longrightarrow> fits ss i b' \<Longrightarrow> fits ss i b"
  unfolding fits_def using rta_feasible_antimono by blast

lemma searchBudget_between_largest:
  assumes "\<And>b. b1 < b \<Longrightarrow> b \<le> b2 \<Longrightarrow> tryBudget ss i b = Inr (ok b)" and "\<And>b b'. b1 < b \<Longrightarrow> b \<le> b' \<Longrightarrow> ok b' \<Longrightarrow> ok b"
    and "0 < b1" and "b1 \<le> b2"
  shows "\<exists>b. searchBudget_between ss i b1 b2 = Some (Inr b) \<and> b1 \<le> b \<and> b \<le> b2 \<and> (b = b1 \<or> ok b) \<and>
    (\<forall>b'. b < b' \<longrightarrow> b' \<le> b2 \<longrightarrow> \<not> ok b')"
  using assms
proof (induction "nat (b2 - b1)" arbitrary: b1 b2 rule: less_induct)
  case less
  let ?m = "(b1 + b2) sdiv 2"
  have m: "?m = (b1 + b2) div 2" using less.prems by (simp add: sdiv_nonneg)
  consider "b1 = b2" | "b2 = b1 + 1" | "b1 < ?m" "?m < b2" using less.prems(4) unfolding m by linarith
  then show ?case
  proof cases
    case 1
    then show ?thesis by (subst searchBudget_between.simps) auto
  next
    case 2
    then have "tryBudget ss i b2 = Inr (ok b2)" using less.prems(1) by simp
    with 2 have run: "searchBudget_between ss i b1 b2 = Some (Inr (if ok b2 then b2 else b1))"
      by (subst searchBudget_between.simps) simp
    have only: "b' = b2" if "b1 < b'" "b' \<le> b2" for b' using 2 that by simp
    show ?thesis
    proof (cases "ok b2")
      case False
      then have "\<forall>b'. b1 < b' \<longrightarrow> b' \<le> b2 \<longrightarrow> \<not> ok b'" using only by blast
      with False run 2 show ?thesis by simp
    qed (use run 2 in simp)
  next
    case 3
    have mid: "tryBudget ss i ?m = Inr (ok ?m)" using less.prems(1) [of ?m] 3 by simp
    show ?thesis
    proof (cases "ok ?m")
      case True
      have "\<exists>b. searchBudget_between ss i ?m b2 = Some (Inr b) \<and> ?m \<le> b \<and> b \<le> b2 \<and> (b = ?m \<or> ok b) \<and>
          (\<forall>b'. b < b' \<longrightarrow> b' \<le> b2 \<longrightarrow> \<not> ok b')"
        by (rule less.hyps) (use 3 less.prems in auto)
      with 3 mid True show ?thesis by (subst searchBudget_between.simps) auto
    next
      case False
      have "\<exists>b. searchBudget_between ss i b1 ?m = Some (Inr b) \<and> b1 \<le> b \<and> b \<le> ?m \<and> (b = b1 \<or> ok b) \<and>
          (\<forall>b'. b < b' \<longrightarrow> b' \<le> ?m \<longrightarrow> \<not> ok b')"
        by (rule less.hyps) (use 3 less.prems in auto)
      then obtain b where b: "searchBudget_between ss i b1 ?m = Some (Inr b)" "b1 \<le> b" "b \<le> ?m" "b = b1 \<or> ok b"
        "\<forall>b'. b < b' \<longrightarrow> b' \<le> ?m \<longrightarrow> \<not> ok b'" by blast
      have "\<not> ok b'" if "b < b'" for b'
      proof (cases "b' \<le> ?m")
        case False
        with less.prems(2) [of ?m b'] 3 \<open>\<not> ok ?m\<close> show ?thesis by auto
      qed (use b(5) that in blast)
      with b 3 mid False show ?thesis by (subst searchBudget_between.simps) auto
    qed
  qed
qed

lemma searchBudget_largest:
  assumes "\<forall>s\<in>set ss. server_ok s" and "i < length ss" and "\<forall>j<length ss. rta_feasible ss j"
  shows "\<exists>b. searchBudget ss i = Some (Inr b) \<and> si_Q (ss ! i) \<le> b \<and> fits ss i b \<and> (\<forall>b'>b. \<not> fits ss i b')"
proof -
  let ?Q = "si_Q (ss ! i)" and ?P = "si_P (ss ! i)"
  have Q: "0 < ?Q" using assms(1,2) by (simp add: server_ok_def)
  have top: "b \<le> ?P" if "fits ss i b" for b
  proof -
    from that assms(2) have "rta_feasible (with_budget ss i b) i" by (simp add: fits_def)
    then obtain t where t: "t \<le> ?P" "served_at (load_of (take i ss)) b t"
      unfolding rta_feasible_def load_before [OF order_refl] using assms(2) by auto
    moreover have "0 \<le> demand (load_of (take i ss)) t"
      using t(2) assms(1) by (intro demand_nonneg load_of_ok) (auto simp: served_at_def dest: in_set_takeD)
    ultimately show ?thesis by (simp add: served_at_def)
  qed
  have now: "fits ss i ?Q" using assms(3) by (simp add: fits_def)
  have "\<exists>b. searchBudget_between ss i ?Q ?P = Some (Inr b) \<and> ?Q \<le> b \<and> b \<le> ?P \<and> (b = ?Q \<or> fits ss i b) \<and>
      (\<forall>b'. b < b' \<longrightarrow> b' \<le> ?P \<longrightarrow> \<not> fits ss i b')"
    by (rule searchBudget_between_largest)
       (use Q assms top [OF now] in \<open>auto intro!: tryBudget_fits elim: fits_antimono [OF assms(1,2), rotated 2]\<close>)
  then show ?thesis using now top assms(2) by (auto simp: searchBudget_def at_index_def)
qed

section \<open>Sensitivity\<close>

lemma le_foldl_max: "a \<le> foldl max b xs \<longleftrightarrow> a \<le> b \<or> (\<exists>x\<in>set xs. a \<le> x)" for a :: rat
  by (induction xs arbitrary: b) (auto simp: le_max_iff_disj)

lemma foldl_max_le: "foldl max b xs \<le> a \<longleftrightarrow> b \<le> a \<and> (\<forall>x\<in>set xs. x \<le> a)" for a :: rat
  by (induction xs arbitrary: b) auto

lemma le_foldl_min: "a \<le> foldl min b xs \<longleftrightarrow> a \<le> b \<and> (\<forall>x\<in>set xs. a \<le> x)" for a :: rat
  by (induction xs arbitrary: b) auto

definition slack :: "rat list \<Rightarrow> nat \<Rightarrow> rat list \<Rightarrow> rat" where
  "slack U i row = (if row ! i = 0 then 100000000 else (1 - utilization row U) / row ! i)"

lemma utilization_update:
  assumes "length row = length U" and "i < length U"
  shows "utilization row (U[i := U ! i + x]) = utilization row U + row ! i * x"
proof -
  have "utilization row (U[i := U ! i + x]) = (\<Sum>j<length U. row ! j * U ! j + (if j = i then row ! i * x else 0))"
    using assms by (subst utilization_nth) (auto simp: nth_list_update algebra_simps intro!: sum.cong)
  also have "\<dots> = utilization row U + row ! i * x"
    using assms by (simp add: sum.distrib utilization_nth)
  finally show ?thesis .
qed

lemma within_slack:
  assumes "length row = length U" and "i < length U" and "0 < row ! i"
  shows "utilization row (U[i := U ! i + x]) \<le> 1 \<longleftrightarrow> x \<le> slack U i row"
  using assms(3) utilization_update [OF assms(1,2), of x] by (auto simp: slack_def pos_le_divide_eq algebra_simps)

lemma rates_with_budget:
  assumes "\<forall>s\<in>set ss. server_ok s" and "i < length ss"
  shows "rates (with_budget ss i (si_Q (ss ! i) + d)) = (rates ss)[i := rates ss ! i + of_int d / of_int (si_P (ss ! i))]"
  using assms by (intro nth_equalityI) (auto simp: rates_def nth_list_update add_divide_distrib)

lemma row_coefficient:
  assumes "\<forall>s\<in>set ss. server_ok s" and "i < length ss" and "j < length ss" and "row \<in> set (rows_of ss j)"
  shows "length row = length ss" and "i \<le> j \<Longrightarrow> 0 < row ! i" and "j < i \<Longrightarrow> row ! i = 0" and "i = j \<Longrightarrow> 1 \<le> row ! i"
proof -
  from assms(4) obtain t where row: "row = row_at (map si_P ss) j t"
    and t: "t \<in> set (points (take j (map si_P ss)) [si_P (ss ! j)])" by (auto simp: rows_of_def)
  have P: "0 < si_P (ss ! i)" "0 < si_P (ss ! j)" using assms(1-3) by (simp_all add: server_ok_def)
  have tb: "0 < t" "t \<le> si_P (ss ! j)"
    using points_bound [OF prefix_periods [OF assms(1)] _ t, of "si_P (ss ! j)"] P(2) by simp_all
  show "length row = length ss" using assms(3) by (simp add: row length_row_at)
  show "row ! i = 0" if "j < i" using that assms(2,3) by (simp add: row row_at_nth)
  show "0 < row ! i" if "i \<le> j"
    using that assms(2,3) P(1) tb(1) by (cases "i = j") (simp_all add: row row_at_nth)
  show "1 \<le> row ! i" if "i = j" using that assms(2,3) tb by (simp add: row row_at_nth)
qed

definition lambda_of :: "server_info list \<Rightarrow> nat \<Rightarrow> nat \<Rightarrow> rat" where
  "lambda_of ss i j = foldl max 0 (map (slack (rates ss) i) (rows_of ss j))"

lemma sensitivity_lambdas:
  assumes "\<forall>s\<in>set ss. server_ok s" and "i < length ss" and "sp_U p = rates ss"
    and "sp_exactConstraints p = map (rows_of ss) [0..<length ss]"
  shows "SchedPoint_sensitivity p i
    = Inr (foldl min (lambda_of ss i 0) (map (lambda_of ss i) [0..<length ss]))"
proof -
  have "task_lambda (rates ss) i (rows_of ss j) = Inr (lambda_of ss i j)" if "j < length ss" for j
  proof -
    have "row_slack (rates ss) i row = Inr (slack (rates ss) i row)" if "row \<in> set (rows_of ss j)" for row
      using row_coefficient(1) [OF assms(1,2) \<open>j < length ss\<close> that] assms(2)
      by (simp add: row_slack_def slack_def utilization_def)
    then show ?thesis by (simp add: task_lambda_def lambda_of_def mapE_map)
  qed
  then have "mapE (task_lambda (rates ss) i) (map (rows_of ss) [0..<length ss])
      = Inr (map (lambda_of ss i) [0..<length ss])"
    by (simp add: mapE_Inr list_all2_map1 list_all2_map2 list_all2_same)
  moreover have "ss \<noteq> []" using assms(2) by auto
  moreover from this have "hd (map (lambda_of ss i) [0..<length ss]) = lambda_of ss i 0"
    by (simp add: hd_map hd_upt)
  ultimately show ?thesis by (simp add: SchedPoint_sensitivity_def assms(3,4))
qed

lemma within_lambda:
  assumes "\<forall>s\<in>set ss. server_ok s" and "i < length ss" and "\<forall>j<length ss. rta_feasible ss j" and "0 \<le> d"
    and "i \<le> j" and "j < length ss"
  shows "of_int d / of_int (si_P (ss ! i)) \<le> lambda_of ss i j \<longleftrightarrow>
    (\<exists>row\<in>set (rows_of ss j). utilization row (rates (with_budget ss i (si_Q (ss ! i) + d))) \<le> 1)"
proof -
  let ?x = "of_int d / of_int (si_P (ss ! i)) :: rat"
  have "of_int d / of_int (si_P (ss ! i)) \<le> lambda_of ss i j \<longleftrightarrow> ?x \<le> 0 \<or> (\<exists>row\<in>set (rows_of ss j). ?x \<le> slack (rates ss) i row)"
    by (simp add: lambda_of_def le_foldl_max)
  also have "(\<exists>row\<in>set (rows_of ss j). ?x \<le> slack (rates ss) i row)
      \<longleftrightarrow> (\<exists>row\<in>set (rows_of ss j). utilization row ((rates ss)[i := rates ss ! i + ?x]) \<le> 1)"
    using row_coefficient(1,2) [OF assms(1,2,6)] assms(2,5) within_slack by (intro bex_cong refl) auto
  also have "?x \<le> 0 \<or> (\<exists>row\<in>set (rows_of ss j). utilization row ((rates ss)[i := rates ss ! i + ?x]) \<le> 1)
      \<longleftrightarrow> (\<exists>row\<in>set (rows_of ss j). utilization row ((rates ss)[i := rates ss ! i + ?x]) \<le> 1)"
  proof -
    have "?x = 0" if "?x \<le> 0"
    proof -
      have "0 < si_P (ss ! i)" using assms(1,2) by (simp add: server_ok_def)
      then show ?thesis using that assms(4) by (simp add: divide_le_0_iff)
    qed
    moreover have "\<exists>row\<in>set (rows_of ss j). utilization row (rates ss) \<le> 1"
      using rows_of_feasible [OF assms(1,6)] assms(3,6) by simp
    ultimately show ?thesis using assms(2) by force
  qed
  finally show ?thesis by (simp add: rates_with_budget [OF assms(1,2)])
qed

lemma within_sensitivity:
  assumes "\<forall>s\<in>set ss. server_ok s" and "i < length ss" and "\<forall>j<length ss. rta_feasible ss j" and "0 \<le> d"
    and "SchedPoint_sensitivity p i = Inr l" and "sp_U p = rates ss"
    and "sp_exactConstraints p = map (rows_of ss) [0..<length ss]"
  shows "of_int d / of_int (si_P (ss ! i)) \<le> l \<longleftrightarrow> fits ss i (si_Q (ss ! i) + d)"
proof -
  let ?x = "of_int d / of_int (si_P (ss ! i)) :: rat" and ?b = "si_Q (ss ! i) + d"
  let ?row_ok = "\<lambda>j. \<exists>row\<in>set (rows_of ss j). utilization row (rates (with_budget ss i ?b)) \<le> 1"
  have b: "0 < ?b" using assms(1,2,4) by (simp add: server_ok_def add_pos_nonneg)
  have l: "l = foldl min (lambda_of ss i 0) (map (lambda_of ss i) [0..<length ss])"
    using sensitivity_lambdas [OF assms(1,2,6,7)] assms(5) by simp
  have own: "lambda_of ss i i \<le> 1"
  proof -
    have "slack (rates ss) i row \<le> 1" if row: "row \<in> set (rows_of ss i)" for row
    proof -
      have c: "1 \<le> row ! i" "length row = length ss"
        using row_coefficient(1,4) [OF assms(1,2,2) row] by simp_all
      have "0 \<le> row ! j * rates ss ! j" if "j < length ss" for j
      proof -
        have "0 \<le> row ! j" using row_coefficient(2,3) [OF assms(1) that assms(2) row] by (metis linear nle_le not_less order.strict_implies_order)
        moreover have "0 \<le> rates ss ! j" using assms(1) that by (simp add: rates_def server_ok_def less_imp_le)
        ultimately show ?thesis by simp
      qed
      then have "0 \<le> utilization row (rates ss)"
        using c(2) by (subst utilization_nth) (auto intro!: sum_nonneg)
      then show ?thesis using c(1) by (simp add: slack_def divide_le_eq)
    qed
    then show ?thesis by (simp add: lambda_of_def foldl_max_le)
  qed
  have before: "?x \<le> lambda_of ss i j \<longleftrightarrow> ?x \<le> 100000000" if "j < i" for j
  proof -
    have ne: "rows_of ss j \<noteq> []"
      using rows_of_feasible [OF assms(1), of j] assms(2,3) that by auto
    have "slack (rates ss) i row = 100000000" if "row \<in> set (rows_of ss j)" for row
      using row_coefficient(3) [OF assms(1,2) _ that] \<open>j < i\<close> assms(2) by (simp add: slack_def)
    then show ?thesis using ne assms(4) by (auto simp: lambda_of_def le_foldl_max neq_Nil_conv)
  qed
  have "0 < length ss" using assms(2) by linarith
  then have "?x \<le> l \<longleftrightarrow> (\<forall>j<length ss. ?x \<le> lambda_of ss i j)" by (auto simp: l le_foldl_min)
  also have "\<dots> \<longleftrightarrow> (\<forall>j<length ss. i \<le> j \<longrightarrow> ?row_ok j)"
  proof
    assume right: "\<forall>j<length ss. i \<le> j \<longrightarrow> ?row_ok j"
    then have "?x \<le> lambda_of ss i i" using within_lambda [OF assms(1-4) order_refl assms(2)] assms(2) by blast
    with own have "?x \<le> 100000000" by linarith
    then show "\<forall>j<length ss. ?x \<le> lambda_of ss i j"
      using right within_lambda [OF assms(1-4)] before by (metis not_le)
  qed (use within_lambda [OF assms(1-4)] in blast)
  also have "\<dots> \<longleftrightarrow> (\<forall>j<length (with_budget ss i ?b). ?row_ok j)"
  proof -
    have "?row_ok j" if "j < i" for j
    proof -
      have "utilization row (rates (with_budget ss i ?b)) = utilization row (rates ss)" if "row \<in> set (rows_of ss j)" for row
        using row_coefficient(1,3) [OF assms(1,2) _ that] \<open>j < i\<close> assms(2)
        by (simp add: rates_with_budget [OF assms(1,2)] utilization_update)
      then show ?thesis using rows_of_feasible [OF assms(1), of j] assms(2,3) that by auto
    qed
    then show ?thesis by (auto simp: not_le [symmetric])
  qed
  also have "\<dots> \<longleftrightarrow> fits ss i ?b"
    using all_rows_feasible [OF with_budget_ok [OF assms(1,2) b]] unfolding fits_def
    by (simp add: rows_of_cong [OF with_budget_simps(2)])
  finally show ?thesis .
qed

text \<open>The increment that the sensitivity grants is the largest that fits.\<close>

lemma granted_delta_largest:
  assumes "0 < P" and "0 \<le> d" and "0 < db" and "d \<le> db"
    and sens: "\<And>k. 0 \<le> k \<Longrightarrow> of_int k / of_int P \<le> l \<longleftrightarrow> ok (Q + k)"
    and "ok (Q + d)" and "\<forall>d'. d < d' \<and> d' \<le> db \<longrightarrow> \<not> ok (Q + d')"
  shows "granted_delta db P l = Inr d"
proof (cases "of_int db / of_int P \<le> l")
  case True
  then have "d = db" using sens [of db] assms(3,4,7) by force
  with True assms(1) show ?thesis by (simp add: granted_delta_def fdiv_def)
next
  case False
  have "\<lfloor>l * of_int P\<rfloor> = d"
  proof (rule floor_unique)
    show "of_int d \<le> l * of_int P" using sens [OF assms(2)] assms(1,6) by (simp add: pos_divide_le_eq)
    show "l * of_int P < of_int d + 1"
    proof (rule ccontr)
      assume "\<not> l * of_int P < of_int d + 1"
      then have "ok (Q + (d + 1))" using sens [of "d + 1"] assms(1,2) by (simp add: pos_divide_le_eq)
      moreover have "d \<noteq> db" using False sens [of db] assms(3,6) by auto
      ultimately show False using assms(4,7) by simp
    qed
  qed
  with False assms(1) show ?thesis by (simp add: granted_delta_def fdiv_def Tick_floor_def)
qed

section \<open>Properties\<close>

text \<open>
  C10. \<open>computeResponseTime\<close> always returns.  What it returns is a lower bound of the times by which the server and
  those before it are served after all of them were released together; it is such a time when it is within the
  period, and it is within the period exactly when there is such a time.
\<close>

theorem response_time_is_least:
  assumes "\<forall>s\<in>set ss. server_ok s" and "i < length ss"
  shows "\<exists>R. computeResponseTime ss i = Inr R \<and>
    (R \<le> si_P (ss ! i) \<longleftrightarrow> (\<exists>t. t \<le> si_P (ss ! i) \<and> served_at (load_of (take i ss)) (si_Q (ss ! i)) t)) \<and>
    (R \<le> si_P (ss ! i) \<longrightarrow> served_at (load_of (take i ss)) (si_Q (ss ! i)) R) \<and>
    (\<forall>t. served_at (load_of (take i ss)) (si_Q (ss ! i)) t \<longrightarrow> R \<le> t)"
  using computeResponseTime_least [OF assms] unfolding rta_feasible_def by blast

definition three_servers :: "server_info list" where
  "three_servers = map (\<lambda>(s, Q, P). \<lparr>si_server = s, si_Q = Q, si_P = P, si_R = 0\<rparr>) [(0, 1, 4), (1, 2, 6), (2, 3, 12)]"

lemma three_servers_ok: "\<forall>s\<in>set three_servers. server_ok s"
  by (simp add: three_servers_def server_ok_def)

lemma three_servers_ceilings: "\<lceil>5 / 2 :: rat\<rceil> = 3" "\<lceil>5 / 3 :: rat\<rceil> = 2"
  by (rule ceiling_unique; simp)+

lemma three_servers_feasible: "\<forall>j<length three_servers. rta_feasible three_servers j"
proof -
  have "rta_feasible three_servers 0" "rta_feasible three_servers 1" "rta_feasible three_servers 2"
    unfolding rta_feasible_def by (rule exI [of _ 1], simp add: three_servers_def served_at_def,
      rule exI [of _ 3], simp add: three_servers_def served_at_def,
      rule exI [of _ 10], simp add: three_servers_def served_at_def three_servers_ceilings)
  moreover have "j = 0 \<or> j = 1 \<or> j = 2" if "j < length three_servers" for j
    using that by (auto simp: three_servers_def)
  ultimately show ?thesis by blast
qed

theorem response_time_is_least_witness:
  "\<exists>R. computeResponseTime three_servers 2 = Inr R \<and> R \<le> 10"
proof -
  have "served_at (load_of (take 2 three_servers)) (si_Q (three_servers ! 2)) 10"
    by (simp add: three_servers_def served_at_def three_servers_ceilings)
  then show ?thesis using response_time_is_least [OF three_servers_ok, of 2] by (auto simp: three_servers_def)
qed

text \<open>
  C9. \<open>changeBudget\<close> of \<open>SchedRTA\<close> always returns when all servers meet their periods.  It grants the whole change,
  or the largest part of it with which all servers still do.
\<close>

theorem schedrta_grants_largest:
  assumes "\<forall>x\<in>set (rta_servers r). server_ok x" and "i < length (rta_servers r)"
    and "\<forall>j<length (rta_servers r). rta_feasible (rta_servers r) j"
    and "si_server (rta_servers r ! i) = s" and "\<forall>j<i. si_server (rta_servers r ! j) \<noteq> s"
    and "\<And>n. \<exists>t st1. vt_changeBudget vt s n st = Inr (t, st1)"
    and "0 < si_Q (rta_servers r ! i) + db"
  shows "\<exists>d r' st'. SchedRTA_changeBudget vt s db r st = Some (Inr (d, r', st')) \<and> d \<le> db \<and> (db \<le> 0 \<longrightarrow> d = db) \<and>
    rta_servers r' = with_budget (rta_servers r) i (si_Q (rta_servers r ! i) + d) \<and>
    (\<forall>j<length (rta_servers r'). rta_feasible (rta_servers r') j) \<and>
    (\<forall>d'. d < d' \<and> d' \<le> db \<longrightarrow> \<not> (\<forall>j<length (rta_servers r).
       rta_feasible (with_budget (rta_servers r) i (si_Q (rta_servers r ! i) + d')) j))"
proof -
  let ?ss = "rta_servers r"
  let ?Q = "si_Q (?ss ! i)"
  have idx: "index_of (\<lambda>si. si_server si = s) xs = k"
    if "k < length xs" "si_server (xs ! k) = s" "\<forall>j<k. si_server (xs ! j) \<noteq> s" for xs :: "server_info list" and k
    using that
  proof (induction xs arbitrary: k)
    case (Cons x xs)
    then show ?case by (cases k) force+
  qed simp
  obtain b where b: "searchBudget ?ss i = Some (Inr b)" "?Q \<le> b" "fits ?ss i b" "\<forall>b'>b. \<not> fits ?ss i b'"
    using searchBudget_largest [OF assms(1-3)] by blast
  let ?new = "min (?Q + db) b"
  obtain t st1 where vt: "vt_changeBudget vt s ?new st = Inr (t, st1)" using assms(6) by blast
  have "0 < ?Q" using assms(1,2) by (simp add: server_ok_def)
  then have "0 < ?new" using assms(7) b(2) by simp
  then have fit: "fits ?ss i ?new" using fits_antimono [OF assms(1,2) _ _ b(3), of ?new] by simp
  have "SchedRTA_changeBudget vt s db r st
      = Some (Inr (?new - ?Q, r\<lparr>rta_servers := with_budget ?ss i ?new\<rparr>, st1))"
    using assms(2) idx [OF assms(2,4,5)] b(1) vt by (simp add: SchedRTA_changeBudget_def Let_def with_budget_def)
  moreover have "\<not> fits ?ss i (?Q + d')" if "?new - ?Q < d'" "d' \<le> db" for d'
    using b(4) that by (auto simp: min_def split: if_splits)
  ultimately show ?thesis using fit b(2) unfolding fits_def
    by (intro exI [of _ "?new - ?Q"] exI [of _ "r\<lparr>rta_servers := with_budget ?ss i ?new\<rparr>"] exI [of _ st1]) auto
qed

definition three_rta :: sched_rta where
  "three_rta = \<lparr>rta_servers = three_servers, rta_period = [4, 6, 12], rta_wcet = [1, 2, 3], rta_U = [1/4, 1/3, 1/4]\<rparr>"

lemma idle_server_changes: "\<exists>t w. vt_changeBudget CBServer_vt s n empty_world = Inr (t, w)"
  by (simp add: CBServer_vt_def CBServer_changeBudget_def empty_world_def CBServer_ctor_def upd_server_def Let_def)

theorem schedrta_grants_largest_witness:
  "\<exists>d r' w. SchedRTA_changeBudget CBServer_vt 2 (-1) three_rta empty_world = Some (Inr (d, r', w)) \<and> d = -1 \<and>
    (\<forall>j<3. rta_feasible (rta_servers r') j)"
proof -
  have r: "rta_servers three_rta = three_servers" by (simp add: three_rta_def)
  have "si_server (three_servers ! 2) = 2" "\<forall>j<2. si_server (three_servers ! j) \<noteq> 2" "2 < length three_servers"
      "0 < si_Q (three_servers ! 2) + -1"
    by (auto simp: three_servers_def less_2_cases_iff)
  then show ?thesis
    using schedrta_grants_largest [of three_rta 2 2 CBServer_vt empty_world "-1", unfolded r,
        OF three_servers_ok _ three_servers_feasible _ _ idle_server_changes]
    by (auto simp: three_servers_def)
qed

text \<open>
  The two supervisors decide alike in exact arithmetic: on the same servers, with the constraints built and all servers
  meeting their periods, an increment of a budget is granted by \<open>SchedPoint\<close>, which computes the sensitivity at the
  scheduling points, to the same amount as by \<open>SchedRTA\<close>, which searches with response times.  The code computes the
  sensitivity with doubles and rounds it down, and so may grant one tick less.
\<close>

lemma supervisors_agree:
  assumes "\<forall>x\<in>set (rta_servers r). server_ok x" and "i < length (rta_servers r)"
    and "\<forall>j<length (rta_servers r). rta_feasible (rta_servers r) j"
    and "si_server (rta_servers r ! i) = s" and "\<forall>j<i. si_server (rta_servers r ! j) \<noteq> s"
    and "\<And>n. \<exists>t st1. vt_changeBudget vt s n st = Inr (t, st1)" and "0 < db"
    and "sp_servers q s = Some i" and "sp_period q = map si_P (rta_servers r)"
    and "sp_wcet q = map si_Q (rta_servers r)" and "sp_U q = rates (rta_servers r)"
    and "buildconstraints q = Inr p"
  shows "\<exists>d r' st1 p' st2 ev. SchedRTA_changeBudget vt s db r st = Some (Inr (d, r', st1)) \<and>
    SchedPoint_changeBudget vt s db p st = Inr (d, p', st2, ev) \<and>
    sp_wcet p' = map si_Q (rta_servers r') \<and> sp_U p' = rates (rta_servers r')"
proof -
  let ?ss = "rta_servers r"
  let ?Q = "si_Q (?ss ! i)" and ?P = "si_P (?ss ! i)"
  have QP: "0 < ?Q" "0 < ?P" using assms(1,2) by (simp_all add: server_ok_def)
  have p: "p = q\<lparr>sp_exactConstraints := map (rows_of ?ss) [0..<length ?ss]\<rparr>"
    using assms(12) buildconstraints_rows [OF assms(1,9)] by simp
  let ?p1 = "p\<lparr>sp_servers := (sp_servers p)(s := Some i)\<rparr>"
  from schedrta_grants_largest [OF assms(1-6), of db] assms(7) QP obtain d r' st1
    where rta: "SchedRTA_changeBudget vt s db r st = Some (Inr (d, r', st1))" "d \<le> db"
      "rta_servers r' = with_budget ?ss i (?Q + d)" "fits ?ss i (?Q + d)"
      "\<forall>d'. d < d' \<and> d' \<le> db \<longrightarrow> \<not> fits ?ss i (?Q + d')"
    unfolding fits_def by (auto simp: add_pos_pos)
  have d: "0 \<le> d"
  proof (rule ccontr)
    assume "\<not> 0 \<le> d"
    then have "\<not> fits ?ss i (?Q + 0)" using rta(5) [rule_format, of 0] assms(7) by simp
    then show False using assms(3) by (simp add: fits_def)
  qed
  obtain l where l: "SchedPoint_sensitivity ?p1 i = Inr l"
    using sensitivity_lambdas [OF assms(1,2), of ?p1] assms(11) by (simp add: p)
  have sens: "of_int k / of_int ?P \<le> l \<longleftrightarrow> fits ?ss i (?Q + k)" if "0 \<le> k" for k
    by (rule within_sensitivity [OF assms(1-3) that l]) (simp_all add: p assms(11))
  note granted = granted_delta_largest [OF QP(2) d assms(7) rta(2) sens rta(4,5)]
  let ?p2 = "?p1\<lparr>sp_wcet := (sp_wcet p)[i := ?Q + d], sp_U := (sp_U p)[i := of_int (?Q + d) / of_int ?P]\<rparr>"
  have run: "SchedPoint_changeBudget vt s db p st = apply_change vt s d ?p2 st"
    using assms(2,7,8,9,10) l granted QP d
    by (simp add: SchedPoint_changeBudget_def change_with_def p at_index_def fdiv_def Let_def max_def)
  have "\<exists>p' st2 ev. apply_change vt s d ?p2 st = Inr (d, p', st2, ev) \<and> sp_wcet p' = sp_wcet ?p2 \<and> sp_U p' = sp_U ?p2"
  proof -
    obtain t st2 where "vt_changeBudget vt s (d + vt_getBudget vt s st) st = Inr (t, st2)" using assms(6) by blast
    then show ?thesis by (auto simp: apply_change_def Let_def)
  qed
  then obtain p' st2 ev where sp: "SchedPoint_changeBudget vt s db p st = Inr (d, p', st2, ev)"
    "sp_wcet p' = sp_wcet ?p2" "sp_U p' = sp_U ?p2" using run by metis
  have "sp_wcet ?p2 = map si_Q (rta_servers r')" "sp_U ?p2 = rates (rta_servers r')"
    using assms(2) by (auto simp: p assms(10,11) rta(3) rates_def with_budget_def map_update)
  with rta(1) sp show ?thesis by metis
qed

definition three_points :: sched_point where
  "three_points = \<lparr>sp_counter = 3, sp_last_change_time = 0, sp_servers = [0 \<mapsto> 0, 1 \<mapsto> 1, 2 \<mapsto> 2], sp_period = [4, 6, 12],
     sp_wcet = [1, 2, 3], sp_U = [1/4, 1/3, 1/4], sp_exactConstraints = []\<rparr>"

lemma supervisors_agree_witness:
  "\<exists>p. buildconstraints three_points = Inr p \<and> (\<exists>d r' w1 p' w2 ev.
     SchedRTA_changeBudget CBServer_vt 1 1 three_rta empty_world = Some (Inr (d, r', w1)) \<and>
     SchedPoint_changeBudget CBServer_vt 1 1 p empty_world = Inr (d, p', w2, ev))"
proof -
  have r: "rta_servers three_rta = three_servers" by (simp add: three_rta_def)
  have "sp_period three_points = map si_P three_servers" by (simp add: three_points_def three_servers_def)
  from buildconstraints_rows [OF three_servers_ok this] obtain p where p: "buildconstraints three_points = Inr p" by blast
  have "si_server (three_servers ! 1) = 1" "\<forall>j<1. si_server (three_servers ! j) \<noteq> 1" "1 < length three_servers"
    by (simp_all add: three_servers_def)
  then have "\<exists>d r' w1 p' w2 ev. SchedRTA_changeBudget CBServer_vt 1 1 three_rta empty_world = Some (Inr (d, r', w1)) \<and>
      SchedPoint_changeBudget CBServer_vt 1 1 p empty_world = Inr (d, p', w2, ev) \<and>
      sp_wcet p' = map si_Q (rta_servers r') \<and> sp_U p' = rates (rta_servers r')"
    by (intro supervisors_agree [where q = three_points and r = three_rta, unfolded r, OF three_servers_ok _ three_servers_feasible _ _
          idle_server_changes _ _ _ _ _ p]) (simp_all add: three_points_def three_servers_def rates_def)
  with p show ?thesis by blast
qed

section \<open>SuperCBS\<close>

text \<open>A supervisor of constant bandwidth servers keeps the total utilization of its servers at most 1.\<close>

lemma sum_list_update_rat: "i < length xs \<Longrightarrow> sum_list (xs[i := x]) = sum_list xs - xs ! i + x" for xs :: "rat list"
  by (induction xs arbitrary: i) (auto split: nat.split)

lemma supercbs_keeps_bandwidth:
  assumes "length (sp_U p) = length (sp_period p)" and "length (sp_wcet p) = length (sp_period p)"
    and "\<forall>j<length (sp_period p). 0 < sp_period p ! j \<and> sp_U p ! j = of_int (sp_wcet p ! j) / of_int (sp_period p ! j)"
    and "sum_list (sp_U p) \<le> 1" and "sp_servers p s = Some i" and "0 < sp_wcet p ! i" and "0 < db"
    and "SuperCBS_changeBudget vt s db p st = Inr (d, p', st1, ev)"
  shows "sum_list (sp_U p') \<le> 1 \<and> 0 \<le> d \<and> d \<le> db"
proof -
  let ?P = "sp_period p ! i" and ?C = "sp_wcet p ! i" and ?l = "1 - sum_list (sp_U p)"
  have i: "i < length (sp_period p)" and P: "0 < ?P"
    using assms(3,5,7,8)
    by (auto simp: SuperCBS_changeBudget_def change_with_def at_index_def Let_def split: if_splits)
  have U: "sp_U p ! i = of_int ?C / of_int ?P" using assms(3) i by simp
  obtain d' where d': "granted_delta db ?P ?l = Inr d'" by (simp add: granted_delta_def fdiv_def) (use P in auto)
  have le: "of_int d' / of_int ?P \<le> ?l" "0 \<le> d'" "d' \<le> db"
  proof -
    have "(if of_int db / of_int ?P \<le> ?l then db else \<lfloor>?l * of_int ?P\<rfloor>) = d'"
      using d' P by (auto simp: granted_delta_def fdiv_def Tick_floor_def split: if_splits)
    moreover have "of_int \<lfloor>?l * of_int ?P\<rfloor> / of_int ?P \<le> ?l" using P by (simp add: pos_divide_le_eq)
    moreover have "0 \<le> \<lfloor>?l * of_int ?P\<rfloor>" using assms(4) P by simp
    moreover have "\<lfloor>?l * of_int ?P\<rfloor> \<le> db" if "\<not> of_int db / of_int ?P \<le> ?l"
      using that P by (simp add: floor_le_iff pos_divide_le_eq)
    ultimately show "of_int d' / of_int ?P \<le> ?l" "0 \<le> d'" "d' \<le> db" using assms(7) by (auto split: if_splits)
  qed
  have "d = d' \<and> sp_U p' = (sp_U p)[i := of_int (?C + d') / of_int ?P]"
    using assms(5,6,7,8) d' i P le(2)
    by (auto simp: SuperCBS_changeBudget_def SuperCBS_sensitivity_def change_with_def apply_change_def at_index_def fdiv_def
        Let_def max_def bindE_eq_Inr split: if_splits)
  then show ?thesis using le U i assms(1) by (simp add: sum_list_update_rat add_divide_distrib)
qed

end
