(* ===== verification/ServerTimers.thy ===== *)
theory ServerTimers
  imports RTServer EventOrder
begin

text \<open>
  The events of the servers other than \<open>CBServer\<close>: those of the class \<open>Server\<close> and those the server classes add, for
  servers named by numbers; when the events of one server are posted for, and what happens to that when one is posted
  or dropped.
\<close>

datatype timer_kind = BandEx | DlineMiss | Recharging | GoingIdle | Replenishing

type_synonym timer = "timer_kind \<times> nat"

definition due :: "timer \<Rightarrow> (timer, 'z) sim_scheme \<Rightarrow> bool" where
  "due e w \<longleftrightarrow> e \<in> set (eventQueue w) \<and> ev_time (evs w e) = globTime w"

text \<open>
  What the class \<open>Server\<close> (\<open>server.cpp\<close>), the kernel and the events ask of a server: an arrival or activation, the begin
  and end of its execution, the exhaustion of its budget, a dispatch that finds no task, the event that recharges it
  (with tasks to serve, or none), the event that it becomes idle, another budget.  \<open>Pass\<close> is the time between events.

  Of a method of \<open>Server\<close> only what it asks of the class of the server is a call here.  \<open>onBudgetExhausted\<close> also tells the kernel
  to suspend the server, which does not call \<open>onDesched\<close> but posts its event (\<open>Event::process\<close>): \<open>executing_recharging\<close>
  comes first, and when the event is handled, a call \<open>Deschedule\<close>, the server is no longer executing and nothing is done.
\<close>

datatype server_call = Arrive nat | Schedule nat | Deschedule nat | Exhaust nat | NoWork nat | Recharge nat bool
  | GoIdle nat | Budget nat tick | Pass tick

section \<open>The events of one server\<close>

type_synonym timer_map = "timer_kind \<Rightarrow> tick option"

definition timers_of :: "nat \<Rightarrow> (timer, 'z) sim_scheme \<Rightarrow> timer_map" where
  "timers_of g w = (\<lambda>k. posted_at (k, g) w)"

lemma timers_drop:
  "sound T w \<Longrightarrow> timers_of g (Event_drop (k, h) w) = (if g = h then (timers_of g w)(k := None) else timers_of g w)"
  by (auto simp: timers_of_def drop_sound(2) fun_eq_iff)

lemma timers_post:
  "sound T w \<Longrightarrow> Event_post (k, h) t d w = Inr w' \<Longrightarrow>
    timers_of g w' = (if g = h then (timers_of g w)(k := Some t) else timers_of g w)"
  by (auto simp: timers_of_def post_sound(2) fun_eq_iff)

lemma sound_posted_later:
  assumes "sound T w" and "posted_at e w = Some t"
  shows "T \<le> t"
  using evq_inv_event [OF ordered_evq [OF sound_ordered [OF assms(1)]], of e] assms(2) sound_now [OF assms(1)]
  by (auto simp: posted_at_def event_ok_def split: if_splits)

lemma due_timer: "due (k, g) w \<longleftrightarrow> timers_of g w k = Some (globTime w)"
  by (simp add: due_def timers_of_def posted_at_def)

lemma timer_later: "sound T w \<Longrightarrow> timers_of g w k = Some t \<Longrightarrow> T \<le> t"
  by (simp add: timers_of_def sound_posted_later)

lemma timer_in_queue: "sound T w \<Longrightarrow> Event_isInQueue (k, g) w \<longleftrightarrow> timers_of g w k \<noteq> None"
  using evq_inv_event [OF ordered_evq [OF sound_ordered], of T w "(k, g)"]
  by (auto simp: sound_def Event_isInQueue_def timers_of_def posted_at_def event_ok_def)

lemma timer_post_possible:
  assumes "sound T w" and "timers_of g w k = None" and "T \<le> t"
  obtains w' where "Event_post (k, g) t d w = Inr w'"
  using post_possible [OF assms(1) _ assms(3), of "(k, g)" d] assms(2) by (auto simp: timers_of_def)

text \<open>The time passes up to the first event.\<close>

lemma pass_sound:
  assumes "sound T w" and "T \<le> t" and "\<forall>e\<in>set (eventQueue w). t \<le> ev_time (evs w e)"
  shows "sound t (Simulation_setTime t w)" and "timers_of g (Simulation_setTime t w) = timers_of g w"
proof -
  have later: "t \<le> u" if "posted_at e w = Some u" for e u
    using assms(3) that by (auto simp: posted_at_def split: if_splits)
  show "sound t (Simulation_setTime t w)" by (rule advance_sound(1) [OF assms(1,2)]) (rule later)
  have "posted_at e (Simulation_setTime t w) = posted_at e w" for e
    by (rule advance_sound(2) [OF assms(1,2)]) (rule later)
  then show "timers_of g (Simulation_setTime t w) = timers_of g w" by (simp add: timers_of_def)
qed

text \<open>What an operation on the queue of events leaves of the rest of the state.\<close>

lemma post_more: "Event_post e t d w = Inr w' \<Longrightarrow> sim.more w' = sim.more w \<and> globTime w' = globTime w"
  by (auto simp: Event_post_def Event_setTime_def Let_def bindE_eq_Inr upd_event_def split: if_splits prod.splits)

lemma drop_more [simp]: "sim.more (Event_drop e w) = sim.more w" "globTime (Event_drop e w) = globTime w"
  by (simp_all add: Event_drop_def upd_event_def)

end
