(* ===== verification/Grub.thy ===== *)
theory Grub
  imports ServerTimers
begin

text \<open>
  Greedy reclamation of unused bandwidth: \<open>Grub\<close> and \<open>GrubSupervisor\<close> (\<open>grubserver.cpp\<close>).  The state is that of
  the engine with the timers of the servers, the servers, by number, and one supervisor.  A server whose budget and
  virtual time depend on the servers that are active is stopped and started again at each change of these.
\<close>

record grub =
  g_status :: server_status
  g_abs_dline :: tick
  g_Q :: tick
  g_P :: tick
  g_d :: tick
  g_util :: rat
  g_recharging_time :: tick
  g_cap :: capacity_timer
  g_vtime :: capacity_timer
  g_supervised :: bool      \<comment> \<open>\<open>supervisor\<close> is not null\<close>

record grub_world = "timer sim" +
  grubs :: "nat \<Rightarrow> grub"
  gs_servers :: "nat list"
  gs_total_u :: rat
  gs_residual_capacity :: tick
  gs_active_u :: rat

definition Grub_ctor :: "tick \<Rightarrow> tick \<Rightarrow> grub" where
  "Grub_ctor q p = \<lparr>g_status = IDLE, g_abs_dline = 0, g_Q = q, g_P = p, g_d = 0, g_util = of_int q / of_int p,
     g_recharging_time = 0, g_cap = CapacityTimer_ctor, g_vtime = CapacityTimer_ctor, g_supervised = False\<rparr>"

definition upd_grub :: "nat \<Rightarrow> (grub \<Rightarrow> grub) \<Rightarrow> grub_world \<Rightarrow> grub_world" where
  "upd_grub g f w = w\<lparr>grubs := (grubs w)(g := f (grubs w g))\<rparr>"

text \<open>A method of the members \<open>cap\<close> and \<open>vtime\<close>.\<close>

definition with_cap :: "nat \<Rightarrow> (tick \<Rightarrow> capacity_timer \<Rightarrow> exc + capacity_timer) \<Rightarrow> grub_world \<Rightarrow> exc + grub_world" where
  "with_cap g f w = bindE (f (globTime w) (g_cap (grubs w g))) (\<lambda>c. Inr (upd_grub g (\<lambda>x. x\<lparr>g_cap := c\<rparr>) w))"

definition with_gvtime :: "nat \<Rightarrow> (tick \<Rightarrow> capacity_timer \<Rightarrow> exc + capacity_timer) \<Rightarrow> grub_world \<Rightarrow> exc + grub_world" where
  "with_gvtime g f w = bindE (f (globTime w) (g_vtime (grubs w g))) (\<lambda>c. Inr (upd_grub g (\<lambda>x. x\<lparr>g_vtime := c\<rparr>) w))"

section \<open>Accounting\<close>

definition Grub_updateBudget :: "nat \<Rightarrow> grub_world \<Rightarrow> exc + grub_world" where
  "Grub_updateBudget g w =
    (if g_status (grubs w g) = EXECUTING
     then steps [with_gvtime g CapacityTimer_stop, with_cap g CapacityTimer_stop,
                 pureE (Event_drop (BandEx, g))] w
     else Inr w)"

definition Grub_startAccounting :: "nat \<Rightarrow> grub_world \<Rightarrow> exc + grub_world" where
  "Grub_startAccounting g w =
    (if g_status (grubs w g) \<noteq> EXECUTING then Inr w
     else if \<not> g_supervised (grubs w g) then Inl (NullPointer ''supervisor'')
     else if g_util (grubs w g) = 0 then Inl DivisionByZero
     else
       let u = gs_active_u w in
       bindE (with_gvtime g (\<lambda>t. CapacityTimer_start t (u / g_util (grubs w g))) w) (\<lambda>w1.
       bindE (with_cap g (\<lambda>t. CapacityTimer_start t (- u)) w1) (\<lambda>w2.
       bindE (CapacityTimer_get_intercept (globTime w2) 0 (g_cap (grubs w2 g))) (\<lambda>delta.
       if delta < 0 then Inl (AssertFailed ''0'')
       else Event_post (BandEx, g) (globTime w2 + delta) False w2))))"

section \<open>GrubSupervisor\<close>

definition GrubSupervisor_addGrub :: "nat \<Rightarrow> grub_world \<Rightarrow> bool \<times> grub_world" where
  "GrubSupervisor_addGrub g w =
    (if gs_total_u w + g_util (grubs w g) > 1 then (False, w)
     else (True, upd_grub g (\<lambda>x. x\<lparr>g_supervised := True\<rparr>)
       (w\<lparr>gs_servers := gs_servers w @ [g], gs_total_u := gs_total_u w + g_util (grubs w g)\<rparr>)))"

definition for_servers :: "(nat \<Rightarrow> grub_world \<Rightarrow> exc + grub_world) \<Rightarrow> grub_world \<Rightarrow> exc + grub_world" where
  "for_servers f w = steps (map f (gs_servers w)) w"

definition GrubSupervisor_set_active :: "nat \<Rightarrow> grub_world \<Rightarrow> exc + grub_world" where
  "GrubSupervisor_set_active g w =
     steps [for_servers Grub_updateBudget,
            pureE (\<lambda>v. v\<lparr>gs_active_u := gs_active_u v + g_util (grubs v g)\<rparr>),
            for_servers Grub_startAccounting] w"

definition GrubSupervisor_set_idle :: "nat \<Rightarrow> grub_world \<Rightarrow> exc + grub_world" where
  "GrubSupervisor_set_idle g w =
     steps [for_servers Grub_updateBudget,
            pureE (\<lambda>v. v\<lparr>gs_active_u := gs_active_u v - g_util (grubs v g)\<rparr>),
            for_servers Grub_startAccounting] w"

definition GrubSupervisor_set_capacity :: "tick \<Rightarrow> grub_world \<Rightarrow> grub_world" where
  "GrubSupervisor_set_capacity c w = w\<lparr>gs_residual_capacity := c\<rparr>"

definition GrubSupervisor_get_capacity :: "grub_world \<Rightarrow> tick \<times> grub_world" where
  "GrubSupervisor_get_capacity w = (gs_residual_capacity w, w\<lparr>gs_residual_capacity := 0\<rparr>)"

definition GrubSupervisor_newRun :: "grub_world \<Rightarrow> grub_world" where
  "GrubSupervisor_newRun w = w\<lparr>gs_active_u := 0, gs_residual_capacity := 0\<rparr>"

text \<open>A call through the pointer \<open>supervisor\<close>.\<close>

definition with_supervisor :: "nat \<Rightarrow> (grub_world \<Rightarrow> exc + grub_world) \<Rightarrow> grub_world \<Rightarrow> exc + grub_world" where
  "with_supervisor g f w = (if g_supervised (grubs w g) then f w else Inl (NullPointer ''supervisor''))"

section \<open>The state changes of a Grub\<close>

definition set_gstatus :: "nat \<Rightarrow> server_status \<Rightarrow> grub_world \<Rightarrow> grub_world" where
  "set_gstatus g st = upd_grub g (\<lambda>x. x\<lparr>g_status := st\<rparr>)"

text \<open>A full budget and a deadline a period from now.\<close>

definition Grub_renew :: "nat \<Rightarrow> grub_world \<Rightarrow> exc + grub_world" where
  "Grub_renew g w =
     bindE (with_cap g (\<lambda>_. CapacityTimer_set_value (of_int (g_Q (grubs w g)))) w) (\<lambda>w1.
     let d = globTime w1 + g_P (grubs w1 g) in
     with_gvtime g (\<lambda>t. CapacityTimer_set_value (of_int t)) (upd_grub g (\<lambda>x. x\<lparr>g_d := d, g_abs_dline := d\<rparr>) w1))"

definition Grub_idle_ready :: "nat \<Rightarrow> grub_world \<Rightarrow> exc + grub_world" where
  "Grub_idle_ready g w =
    (if g_status (grubs w g) \<noteq> IDLE then Inl (AssertFailed ''status == IDLE'')
     else bindE (Grub_renew g (set_gstatus g READY w)) (with_supervisor g (GrubSupervisor_set_active g)))"

definition Grub_releasing_ready :: "nat \<Rightarrow> grub_world \<Rightarrow> grub_world" where
  "Grub_releasing_ready g w = Event_drop (GoingIdle, g) (set_gstatus g READY w)"

definition Grub_ready_executing :: "nat \<Rightarrow> grub_world \<Rightarrow> exc + grub_world" where
  "Grub_ready_executing g w =
     with_supervisor g (\<lambda>w1.
       let (extra, w2) = GrubSupervisor_get_capacity w1 in
       bindE (with_cap g (\<lambda>t c. CapacityTimer_set_value (CapacityTimer_get_value t c + of_int extra) c) w2)
         (Grub_startAccounting g)) (set_gstatus g EXECUTING w)"

definition Grub_executing_ready :: "nat \<Rightarrow> grub_world \<Rightarrow> exc + grub_world" where
  "Grub_executing_ready g w = bindE (Grub_updateBudget g w) (\<lambda>w1. Inr (set_gstatus g READY w1))"

definition Grub_vtime :: "nat \<Rightarrow> grub_world \<Rightarrow> rat" where
  "Grub_vtime g w = CapacityTimer_get_value (globTime w) (g_vtime (grubs w g))"

definition Grub_executing_releasing :: "nat \<Rightarrow> grub_world \<Rightarrow> exc + grub_world" where
  "Grub_executing_releasing g w =
     bindE (Grub_updateBudget g w) (\<lambda>w1.
     let w2 = set_gstatus g RELEASING w1; v = Tick_of_double (Grub_vtime g w2) in
     Event_post (GoingIdle, g) (if globTime w2 < v then v else globTime w2) False w2)"

definition Grub_releasing_idle :: "nat \<Rightarrow> grub_world \<Rightarrow> exc + grub_world" where
  "Grub_releasing_idle g w =
     bindE (if Grub_vtime g w < of_int (globTime w)
            then with_supervisor g (pureE (GrubSupervisor_set_capacity
                   (Tick_of_double (g_util (grubs w g) * (of_int (globTime w) - Grub_vtime g w))))) w
            else Inr w) (\<lambda>w1.
     with_supervisor g (GrubSupervisor_set_idle g) (set_gstatus g IDLE w1))"

definition Grub_executing_recharging :: "nat \<Rightarrow> grub_world \<Rightarrow> exc + grub_world" where
  "Grub_executing_recharging g w =
     bindE (Grub_updateBudget g w) (\<lambda>w1.
     let w2 = set_gstatus g RECHARGING w1; dl = g_abs_dline (grubs w2 g) in
     Event_post (Recharging, g) (if dl < globTime w2 then globTime w2 else dl) False w2)"

definition Grub_recharging_ready :: "nat \<Rightarrow> grub_world \<Rightarrow> exc + grub_world" where
  "Grub_recharging_ready g w = bindE (Grub_renew g w) (\<lambda>w1. Inr (set_gstatus g READY w1))"

definition Grub_recharging_idle :: "nat \<Rightarrow> grub_world \<Rightarrow> exc + grub_world" where
  "Grub_recharging_idle = Grub_releasing_idle"

definition Grub_onIdle :: "nat \<Rightarrow> grub_world \<Rightarrow> exc + grub_world" where
  "Grub_onIdle g w =
    (if g_status (grubs w g) \<noteq> RELEASING then Inl (AssertFailed ''status == RELEASING'') else Grub_releasing_idle g w)"

definition Grub_changeBudget :: "nat \<Rightarrow> tick \<Rightarrow> grub_world \<Rightarrow> exc + tick \<times> grub_world" where
  "Grub_changeBudget g n w = Inl (AssertFailed ''0'')"

text \<open>\<open>newRun\<close>, with that of \<open>Server\<close>; the timers \<open>cap\<close> and \<open>vtime\<close> are entities with a \<open>newRun\<close> of their own.\<close>

definition Grub_newRun :: "nat \<Rightarrow> grub_world \<Rightarrow> grub_world" where
  "Grub_newRun g w =
     upd_grub g (\<lambda>x. x\<lparr>g_d := 0, g_recharging_time := 0\<rparr>)
      (Event_drop (Recharging, g) (Event_drop (DlineMiss, g) (Event_drop (BandEx, g)
        (upd_grub g (\<lambda>x. x\<lparr>g_status := IDLE, g_abs_dline := 0\<rparr>) w))))"

section \<open>What the class Server asks of a Grub\<close>

text \<open>
  The methods of \<open>server.cpp\<close> call the state changes under these conditions: an arrival or activation, the begin and
  end of the execution, the exhaustion of the budget, a dispatch that finds no task, the recharging event and the
  event that the server becomes idle.  The events of the timers happen when they are due; \<open>Pass\<close> is the time between
  events.
\<close>

fun grub_call :: "server_call \<Rightarrow> grub_world \<Rightarrow> exc + grub_world" where
  "grub_call (Arrive g) w =
    (case g_status (grubs w g) of
       IDLE \<Rightarrow> Grub_idle_ready g w | RELEASING \<Rightarrow> Inr (Grub_releasing_ready g w) | _ \<Rightarrow> Inr w)"
| "grub_call (Schedule g) w = Grub_ready_executing g w"
| "grub_call (Deschedule g) w =
    (if g_status (grubs w g) = EXECUTING then Grub_executing_ready g w else Inr w)"
| "grub_call (Exhaust g) w = Grub_executing_recharging g (Event_drop (BandEx, g) w)"
| "grub_call (NoWork g) w = Grub_executing_releasing g w"
| "grub_call (Recharge g work) w =
    (if work then Grub_recharging_ready g (Event_drop (Recharging, g) w)
     else Grub_recharging_idle g (Event_drop (Recharging, g) w))"
| "grub_call (GoIdle g) w = Grub_onIdle g (Event_drop (GoingIdle, g) w)"
| "grub_call (Budget g n) w = bindE (Grub_changeBudget g n w) (\<lambda>(_, v). Inr v)"
| "grub_call (Pass t) w = Inr (Simulation_setTime t w)"

text \<open>
  What the assertions of \<open>server.cpp\<close> and the queue of events guarantee when a call is made.  The budget cannot be
  changed: \<open>changeBudget\<close> is \<open>assert(0)\<close>.
\<close>

fun call_ok :: "server_call \<Rightarrow> grub_world \<Rightarrow> bool" where
  "call_ok (Arrive g) w = (g \<in> set (gs_servers w))"
| "call_ok (Schedule g) w = (g \<in> set (gs_servers w) \<and> g_status (grubs w g) = READY)"
| "call_ok (Deschedule g) w = (g \<in> set (gs_servers w))"
| "call_ok (Exhaust g) w = (g \<in> set (gs_servers w) \<and> g_status (grubs w g) = EXECUTING \<and> due (BandEx, g) w)"
| "call_ok (NoWork g) w = (g \<in> set (gs_servers w) \<and> g_status (grubs w g) = EXECUTING)"
| "call_ok (Recharge g work) w = (g \<in> set (gs_servers w) \<and> g_status (grubs w g) = RECHARGING \<and> due (Recharging, g) w)"
| "call_ok (GoIdle g) w = (g \<in> set (gs_servers w) \<and> due (GoingIdle, g) w)"
| "call_ok (Budget g n) w = False"
| "call_ok (Pass t) w = (globTime w \<le> t \<and> (\<forall>e\<in>set (eventQueue w). t \<le> ev_time (evs w e)))"

end
