(* ===== verification/Grub_Laws.thy ===== *)
theory Grub_Laws
  imports Grub
begin

text \<open>
  The supervisor of the servers that reclaim bandwidth keeps account: the active utilization is that of the servers
  which are not idle, the timers of a server run exactly while it executes, at the rates of the active utilization,
  and no assertion of the accounting fails.
\<close>

section \<open>Fields\<close>

lemma post_grub:
  assumes "Event_post e t d w = Inr w'"
  shows "grubs w' = grubs w" "gs_servers w' = gs_servers w" "gs_total_u w' = gs_total_u w"
    "gs_residual_capacity w' = gs_residual_capacity w" "gs_active_u w' = gs_active_u w" "globTime w' = globTime w"
  using assms by (auto simp: Event_post_def Event_setTime_def Let_def bindE_eq_Inr upd_event_def
      split: if_splits prod.splits)

lemma drop_grub [simp]:
  "grubs (Event_drop e w) = grubs w" "gs_servers (Event_drop e w) = gs_servers w"
  "gs_total_u (Event_drop e w) = gs_total_u w" "gs_residual_capacity (Event_drop e w) = gs_residual_capacity w"
  "gs_active_u (Event_drop e w) = gs_active_u w"
  by (simp_all add: Event_drop_def upd_event_def)

lemma upd_grub_simps [simp]:
  "grubs (upd_grub g f w) = (grubs w)(g := f (grubs w g))" "gs_servers (upd_grub g f w) = gs_servers w"
  "gs_total_u (upd_grub g f w) = gs_total_u w" "gs_residual_capacity (upd_grub g f w) = gs_residual_capacity w"
  "gs_active_u (upd_grub g f w) = gs_active_u w" "globTime (upd_grub g f w) = globTime w"
  "evs (upd_grub g f w) = evs w" "eventQueue (upd_grub g f w) = eventQueue w" "evCounter (upd_grub g f w) = evCounter w"
  by (simp_all add: upd_grub_def)

lemma upd_grub_sound [simp]:
  "sound T (upd_grub g f w) = sound T w" "posted_at e (upd_grub g f w) = posted_at e w"
  "sound T (w\<lparr>gs_active_u := u\<rparr>) = sound T w" "posted_at e (w\<lparr>gs_active_u := u\<rparr>) = posted_at e w"
  "sound T (w\<lparr>gs_residual_capacity := c\<rparr>) = sound T w" "posted_at e (w\<lparr>gs_residual_capacity := c\<rparr>) = posted_at e w"
  "sound T (w\<lparr>gs_servers := ss, gs_total_u := u\<rparr>) = sound T w"
  "posted_at e (w\<lparr>gs_servers := ss, gs_total_u := u\<rparr>) = posted_at e w"
  by (rule sound_cong; simp add: upd_grub_def)+

section \<open>The invariant of one server\<close>

definition value_at :: "tick \<Rightarrow> capacity_timer \<Rightarrow> rat" where
  "value_at T c = ct_value c + of_int (T - ct_last_time c) * ct_der c"

text \<open>\<open>run\<close>: the accounting of the server is on, when it executes.\<close>

definition grub_ok :: "bool \<Rightarrow> rat \<Rightarrow> grub \<Rightarrow> timer_map \<Rightarrow> bool" where
  "grub_ok run u x tm \<longleftrightarrow> g_supervised x \<and> 0 < g_Q x \<and> 0 < g_P x \<and> g_util x = of_int (g_Q x) / of_int (g_P x) \<and>
     (if run \<and> g_status x = EXECUTING
      then ct_status (g_cap x) = RUNNING \<and> ct_status (g_vtime x) = RUNNING \<and> ct_der (g_cap x) = - u \<and>
        ct_der (g_vtime x) = u / g_util x \<and> (\<exists>b. tm BandEx = Some b \<and> 0 \<le> value_at b (g_cap x))
      else ct_status (g_cap x) = STOPPED \<and> ct_status (g_vtime x) = STOPPED \<and> tm BandEx = None \<and> 0 \<le> ct_value (g_cap x)) \<and>
     (tm Recharging \<noteq> None \<longleftrightarrow> g_status x = RECHARGING) \<and> (tm GoingIdle \<noteq> None \<longleftrightarrow> g_status x = RELEASING)"

lemma util_pos: "grub_ok run u x tm \<Longrightarrow> 0 < g_util x"
  by (simp add: grub_ok_def)

text \<open>A server that was constructed and not yet added.\<close>

definition fresh_grub :: "grub \<Rightarrow> timer_map \<Rightarrow> bool" where
  "fresh_grub x tm \<longleftrightarrow> (\<exists>q p. 0 < q \<and> 0 < p \<and> x = Grub_ctor q p) \<and> (\<forall>k. tm k = None)"

text \<open>The accounting is on for the servers in \<open>R\<close>.\<close>

definition phase :: "nat set \<Rightarrow> grub_world \<Rightarrow> bool" where
  "phase R w \<longleftrightarrow> sound (globTime w) w \<and> distinct (gs_servers w) \<and> 0 \<le> gs_active_u w \<and> 0 \<le> gs_residual_capacity w \<and>
     (\<forall>g\<in>set (gs_servers w). grub_ok (g \<in> R) (gs_active_u w) (grubs w g) (timers_of g w)) \<and>
     (\<forall>g. g \<notin> set (gs_servers w) \<longrightarrow> fresh_grub (grubs w g) (timers_of g w))"

lemma phase_sound: "phase R w \<Longrightarrow> sound (globTime w) w"
  and phase_server: "phase R w \<Longrightarrow> g \<in> set (gs_servers w) \<Longrightarrow>
    grub_ok (g \<in> R) (gs_active_u w) (grubs w g) (timers_of g w)"
  by (simp_all add: phase_def)

text \<open>A change of one server.\<close>

lemma phase_upd:
  assumes "phase R w" and "g \<in> set (gs_servers w)" and "sound (globTime w) w'" and "globTime w' = globTime w"
    and "gs_servers w' = gs_servers w" and "gs_active_u w' = gs_active_u w" and "0 \<le> gs_residual_capacity w'"
    and "\<And>h. h \<noteq> g \<Longrightarrow> grubs w' h = grubs w h" and "\<And>h. h \<noteq> g \<Longrightarrow> timers_of h w' = timers_of h w"
    and "\<And>h. h \<noteq> g \<Longrightarrow> h \<in> R' \<longleftrightarrow> h \<in> R"
    and "grub_ok (g \<in> R') (gs_active_u w) (grubs w' g) (timers_of g w')"
  shows "phase R' w'"
  unfolding phase_def
proof (intro conjI ballI allI impI)
  fix h
  assume "h \<in> set (gs_servers w')"
  then show "grub_ok (h \<in> R') (gs_active_u w') (grubs w' h) (timers_of h w')"
    using assms by (cases "h = g") (auto simp: phase_def)
next
  fix h
  assume "h \<notin> set (gs_servers w')"
  then show "fresh_grub (grubs w' h) (timers_of h w')" using assms by (cases "h = g") (auto simp: phase_def)
qed (use assms in \<open>auto simp: phase_def\<close>)

lemma timers_upd [simp]:
  "timers_of h (upd_grub g f w) = timers_of h w" "timers_of h (w\<lparr>gs_active_u := u\<rparr>) = timers_of h w"
  "timers_of h (w\<lparr>gs_residual_capacity := c\<rparr>) = timers_of h w"
  "timers_of h (w\<lparr>gs_servers := ss, gs_total_u := u\<rparr>) = timers_of h w"
  by (simp_all add: timers_of_def)

section \<open>Accounting off and on\<close>

definition stopped :: "tick \<Rightarrow> grub \<Rightarrow> grub" where
  "stopped T x = x\<lparr>g_vtime := (g_vtime x)\<lparr>ct_value := value_at T (g_vtime x), ct_status := STOPPED\<rparr>,
     g_cap := (g_cap x)\<lparr>ct_value := value_at T (g_cap x), ct_status := STOPPED\<rparr>\<rparr>"

lemma updateBudget_executing:
  assumes "g_status (grubs w g) = EXECUTING" and "ct_status (g_cap (grubs w g)) = RUNNING"
    and "ct_status (g_vtime (grubs w g)) = RUNNING"
  shows "Grub_updateBudget g w = Inr (Event_drop (BandEx, g) (upd_grub g (stopped (globTime w)) w))"
  using assms
  by (simp add: Grub_updateBudget_def with_cap_def with_gvtime_def CapacityTimer_stop_def pureE_def upd_grub_def
      stopped_def value_at_def)

text \<open>A server that is not yet exhausted has capacity left.\<close>

lemma capacity_left:
  assumes "grub_ok True u x tm" and "g_status x = EXECUTING" and "0 \<le> u" and "\<And>b. tm BandEx = Some b \<Longrightarrow> T \<le> b"
  shows "0 \<le> value_at T (g_cap x)"
proof -
  from assms(1,2) obtain b where b: "tm BandEx = Some b" "0 \<le> value_at b (g_cap x)" "ct_der (g_cap x) = - u"
    by (auto simp: grub_ok_def)
  have "of_int (T - ct_last_time (g_cap x)) * u \<le> of_int (b - ct_last_time (g_cap x)) * u"
    using assms(3) assms(4) [OF b(1)] by (intro mult_right_mono) simp_all
  with b show ?thesis by (simp add: value_at_def)
qed

text \<open>What the accounting leaves as it is.\<close>

definition frame :: "grub_world \<Rightarrow> grub_world \<Rightarrow> bool" where
  "frame w w' \<longleftrightarrow> globTime w' = globTime w \<and> gs_servers w' = gs_servers w \<and> gs_total_u w' = gs_total_u w \<and>
     gs_residual_capacity w' = gs_residual_capacity w \<and>
     (\<forall>h. g_status (grubs w' h) = g_status (grubs w h) \<and> g_util (grubs w' h) = g_util (grubs w h))"

lemma frame_refl: "frame w w"
  and frame_trans: "frame w v \<Longrightarrow> frame v z \<Longrightarrow> frame w z"
  by (simp_all add: frame_def)

lemma updateBudget_phase:
  assumes "phase R w" and "g \<in> set (gs_servers w)" and "g \<in> R"
  shows "\<exists>w'. Grub_updateBudget g w = Inr w' \<and> phase (R - {g}) w' \<and> gs_active_u w' = gs_active_u w \<and> frame w w'"
proof -
  let ?x = "grubs w g" and ?T = "globTime w"
  note ok = phase_server [OF assms(1,2)] and snd = phase_sound [OF assms(1)]
  show ?thesis
  proof (cases "g_status ?x = EXECUTING")
    case False
    then have "Grub_updateBudget g w = Inr w" by (simp add: Grub_updateBudget_def)
    moreover have "phase (R - {g}) w"
      by (rule phase_upd [OF assms(1,2) snd]) (use assms(1) ok False in \<open>auto simp: phase_def grub_ok_def\<close>)
    ultimately show ?thesis using frame_refl by blast
  next
    case True
    let ?w = "Event_drop (BandEx, g) (upd_grub g (stopped ?T) w)"
    have "0 \<le> value_at ?T (g_cap ?x)"
      using ok assms(1,3) True sound_posted_later [OF snd] by (intro capacity_left) (auto simp: timers_of_def phase_def)
    then have "grub_ok False (gs_active_u w) (stopped ?T ?x) ((timers_of g w)(BandEx := None))"
      using ok True by (simp add: grub_ok_def stopped_def)
    then have "phase (R - {g}) ?w"
      using assms(1,2) snd
      by (intro phase_upd [OF assms(1,2)]) (auto simp: phase_def drop_sound(1) timers_drop [where T = ?T])
    moreover have "Grub_updateBudget g w = Inr ?w"
      using ok assms(3) True by (intro updateBudget_executing) (simp_all add: grub_ok_def)
    ultimately show ?thesis by (simp add: stopped_def frame_def)
  qed
qed

lemma intercept_zero:
  assumes "ct_status c = RUNNING" and "ct_der c = - u" and "0 < u" and "ct_last_time c = T" and "0 \<le> ct_value c"
  shows "CapacityTimer_get_intercept T 0 c = Inr \<lfloor>ct_value c / u\<rfloor>" and "0 \<le> \<lfloor>ct_value c / u\<rfloor>"
    and "0 \<le> value_at (T + \<lfloor>ct_value c / u\<rfloor>) c"
proof -
  show "CapacityTimer_get_intercept T 0 c = Inr \<lfloor>ct_value c / u\<rfloor>"
    using assms by (simp add: CapacityTimer_get_intercept_def CapacityTimer_get_value_def)
  show "0 \<le> \<lfloor>ct_value c / u\<rfloor>" using assms by simp
  have "of_int \<lfloor>ct_value c / u\<rfloor> * u \<le> ct_value c" using assms(3) by (simp flip: pos_le_divide_eq)
  then show "0 \<le> value_at (T + \<lfloor>ct_value c / u\<rfloor>) c" using assms by (simp add: value_at_def)
qed

lemma startAccounting_phase:
  assumes "phase R w" and "g \<in> set (gs_servers w)" and "g \<notin> R" and "g_status (grubs w g) = EXECUTING \<longrightarrow> 0 < gs_active_u w"
  shows "\<exists>w'. Grub_startAccounting g w = Inr w' \<and> phase (insert g R) w' \<and> gs_active_u w' = gs_active_u w \<and> frame w w'"
proof -
  let ?x = "grubs w g" and ?T = "globTime w" and ?u = "gs_active_u w"
  note ok = phase_server [OF assms(1,2)] and snd = phase_sound [OF assms(1)]
  show ?thesis
  proof (cases "g_status ?x = EXECUTING")
    case False
    then have "Grub_startAccounting g w = Inr w" by (simp add: Grub_startAccounting_def)
    moreover have "phase (insert g R) w"
      by (rule phase_upd [OF assms(1,2) snd]) (use assms(1,3) ok False in \<open>auto simp: phase_def grub_ok_def\<close>)
    ultimately show ?thesis using frame_refl by blast
  next
    case True
    define c where "c = (g_cap ?x)\<lparr>ct_der := - ?u, ct_last_time := ?T, ct_status := RUNNING\<rparr>"
    define v where "v = (g_vtime ?x)\<lparr>ct_der := ?u / g_util ?x, ct_last_time := ?T, ct_status := RUNNING\<rparr>"
    define w2 where "w2 = upd_grub g (\<lambda>x. x\<lparr>g_cap := c\<rparr>) (upd_grub g (\<lambda>x. x\<lparr>g_vtime := v\<rparr>) w)"
    have c: "ct_status c = RUNNING" "ct_der c = - ?u" "0 < ?u" "ct_last_time c = ?T" "0 \<le> ct_value c"
      using ok assms(3,4) True by (simp_all add: c_def grub_ok_def)
    note icpt = intercept_zero [OF c]
    have "posted_at (BandEx, g) w2 = None" "sound ?T w2" "globTime w2 = ?T"
      using ok assms(3) snd by (simp_all add: w2_def grub_ok_def timers_of_def)
    then obtain w' where w': "Event_post (BandEx, g) (?T + \<lfloor>ct_value c / ?u\<rfloor>) False w2 = Inr w'"
      using post_possible [of ?T w2 "(BandEx, g)" "?T + \<lfloor>ct_value c / ?u\<rfloor>" False] icpt(2) by auto
    have st: "ct_status (g_cap ?x) = STOPPED" "ct_status (g_vtime ?x) = STOPPED" "g_util ?x \<noteq> 0" "g_supervised ?x"
      using ok assms(3) util_pos [OF ok] by (simp_all add: grub_ok_def)
    have "Grub_startAccounting g w = Inr w'"
      using True st icpt w'
      by (simp add: Grub_startAccounting_def with_cap_def with_gvtime_def CapacityTimer_start_def Let_def w2_def c_def v_def)
    moreover have "grub_ok True ?u (grubs w2 g) ((timers_of g w)(BandEx := Some (?T + \<lfloor>ct_value c / ?u\<rfloor>)))"
      using ok True c icpt(3) by (simp add: grub_ok_def w2_def v_def)
    then have "phase (insert g R) w'"
      using assms(1) post_grub [OF w'] post_sound(1) [OF _ w'] snd timers_post [OF _ w']
      by (intro phase_upd [OF assms(1,2)]) (auto simp: w2_def phase_def)
    ultimately show ?thesis using post_grub [OF w'] by (simp add: w2_def frame_def)
  qed
qed

lemma updateBudget_all:
  assumes "phase R w" and "set gs \<subseteq> set (gs_servers w)" and "set gs \<subseteq> R" and "distinct gs"
  shows "\<exists>w'. steps (map Grub_updateBudget gs) w = Inr w' \<and> phase (R - set gs) w' \<and> gs_active_u w' = gs_active_u w \<and> frame w w'"
  using assms
proof (induction gs arbitrary: R w)
  case (Cons g gs)
  obtain v where v: "Grub_updateBudget g w = Inr v" "phase (R - {g}) v" "gs_active_u v = gs_active_u w" "frame w v"
    using updateBudget_phase [of R w g] Cons.prems by auto
  have "\<exists>w'. steps (map Grub_updateBudget gs) v = Inr w' \<and> phase (R - {g} - set gs) w' \<and> gs_active_u w' = gs_active_u v \<and> frame v w'"
    using Cons.prems v(4) by (intro Cons.IH [OF v(2)]) (auto simp: frame_def)
  then obtain z where z: "steps (map Grub_updateBudget gs) v = Inr z" "phase (R - {g} - set gs) z"
    "gs_active_u z = gs_active_u v" "frame v z" by blast
  have "R - set (g # gs) = R - {g} - set gs" by auto
  then show ?case using v z frame_trans [OF v(4) z(4)] by simp
qed (auto simp: frame_refl)

lemma startAccounting_all:
  assumes "phase R w" and "set gs \<subseteq> set (gs_servers w)" and "set gs \<inter> R = {}" and "distinct gs"
    and "\<forall>g\<in>set gs. g_status (grubs w g) = EXECUTING \<longrightarrow> 0 < gs_active_u w"
  shows "\<exists>w'. steps (map Grub_startAccounting gs) w = Inr w' \<and> phase (R \<union> set gs) w' \<and> gs_active_u w' = gs_active_u w \<and> frame w w'"
  using assms
proof (induction gs arbitrary: R w)
  case (Cons g gs)
  obtain v where v: "Grub_startAccounting g w = Inr v" "phase (insert g R) v" "gs_active_u v = gs_active_u w" "frame w v"
    using startAccounting_phase [of R w g] Cons.prems by auto
  have "\<exists>w'. steps (map Grub_startAccounting gs) v = Inr w' \<and> phase (insert g R \<union> set gs) w' \<and> gs_active_u w' = gs_active_u v \<and> frame v w'"
    using Cons.prems v(3,4) by (intro Cons.IH [OF v(2)]) (auto simp: frame_def)
  then obtain z where z: "steps (map Grub_startAccounting gs) v = Inr z" "phase (insert g R \<union> set gs) z"
    "gs_active_u z = gs_active_u v" "frame v z" by blast
  have "R \<union> set (g # gs) = insert g R \<union> set gs" by auto
  then show ?case using v z frame_trans [OF v(4) z(4)] by simp
qed (auto simp: frame_refl)

text \<open>The active utilization is set to \<open>u\<close> while no accounting is on.\<close>

lemma change_active:
  assumes "phase (set (gs_servers w)) w" and "\<And>v. frame w v \<Longrightarrow> gs_active_u v = gs_active_u w \<Longrightarrow> f v = v\<lparr>gs_active_u := u\<rparr>"
    and "0 \<le> u" and "\<forall>g\<in>set (gs_servers w). g_status (grubs w g) = EXECUTING \<longrightarrow> 0 < u"
  shows "\<exists>w'. steps [for_servers Grub_updateBudget, pureE f, for_servers Grub_startAccounting] w = Inr w' \<and>
    phase (set (gs_servers w)) w' \<and> gs_active_u w' = u \<and> frame w w'"
proof -
  let ?S = "gs_servers w"
  have d: "distinct ?S" using assms(1) by (simp add: phase_def)
  obtain v where v: "steps (map Grub_updateBudget ?S) w = Inr v" "phase {} v" "gs_active_u v = gs_active_u w" "frame w v"
    using updateBudget_all [OF assms(1) order_refl order_refl d] by (simp only: Diff_cancel) blast
  let ?v = "v\<lparr>gs_active_u := u\<rparr>"
  have same: "gs_servers ?v = ?S" "frame w ?v" using v(4) by (simp_all add: frame_def)
  have "phase {} ?v" using v(2) assms(3) by (simp add: phase_def grub_ok_def)
  moreover have "\<forall>g\<in>set ?S. g_status (grubs ?v g) = EXECUTING \<longrightarrow> 0 < gs_active_u ?v"
    using assms(4) v(4) by (simp add: frame_def)
  ultimately have "\<exists>z. steps (map Grub_startAccounting ?S) ?v = Inr z \<and> phase ({} \<union> set ?S) z \<and>
      gs_active_u z = gs_active_u ?v \<and> frame ?v z"
    using same d by (intro startAccounting_all) simp_all
  then obtain z where "steps (map Grub_startAccounting ?S) ?v = Inr z" "phase (set ?S) z" "gs_active_u z = u" "frame ?v z"
    by auto
  note z = this
  have "steps [for_servers Grub_updateBudget, pureE f, for_servers Grub_startAccounting] w = Inr z"
    using v(1) z(1) assms(2) [OF v(4,3)] same(1) by (simp add: for_servers_def)
  then show ?thesis using z(2,3) frame_trans [OF same(2) z(4)] by blast
qed

section \<open>The invariant\<close>

definition share :: "grub \<Rightarrow> rat" where
  "share x = (if g_status x = IDLE then 0 else g_util x)"

definition active_sum :: "grub_world \<Rightarrow> rat" where
  "active_sum w = (\<Sum>g\<leftarrow>gs_servers w. share (grubs w g))"

definition grub_inv :: "grub_world \<Rightarrow> bool" where
  "grub_inv w \<longleftrightarrow> phase (set (gs_servers w)) w \<and> gs_active_u w = active_sum w \<and>
     gs_total_u w = (\<Sum>g\<leftarrow>gs_servers w. g_util (grubs w g)) \<and> gs_total_u w \<le> 1"

lemma active_sum_split:
  "g \<in> set (gs_servers w) \<Longrightarrow>
    active_sum w = share (grubs w g) + (\<Sum>h\<leftarrow>remove1 g (gs_servers w). share (grubs w h))"
  unfolding active_sum_def by (rule sum_list_map_remove1)

lemma active_sum_change:
  assumes "distinct (gs_servers w)" and "g \<in> set (gs_servers w)" and "gs_servers w' = gs_servers w"
    and "\<And>h. h \<noteq> g \<Longrightarrow> grubs w' h = grubs w h"
  shows "active_sum w' = active_sum w + share (grubs w' g) - share (grubs w g)"
proof -
  have "map (\<lambda>h. share (grubs w' h)) (remove1 g (gs_servers w)) = map (\<lambda>h. share (grubs w h)) (remove1 g (gs_servers w))"
    using assms(1,4) by (intro map_cong refl) force
  then show ?thesis
    using active_sum_split [OF assms(2)] active_sum_split [of g w'] assms(2,3) by (simp only:)
qed

lemma frame_sums: "frame w w' \<Longrightarrow> active_sum w' = active_sum w"
proof -
  assume f: "frame w w'"
  then have "(\<lambda>g. share (grubs w' g)) = (\<lambda>g. share (grubs w g))" by (auto simp: frame_def share_def)
  with f show ?thesis by (simp add: active_sum_def frame_def)
qed

lemma share_nonneg: "phase R w \<Longrightarrow> g \<in> set (gs_servers w) \<Longrightarrow> 0 \<le> share (grubs w g)"
  using util_pos [OF phase_server] by (simp add: share_def less_imp_le)

lemma active_at_least:
  assumes "phase R w" and "g \<in> set (gs_servers w)"
  shows "share (grubs w g) \<le> active_sum w"
proof -
  have "0 \<le> (\<Sum>h\<leftarrow>remove1 g (gs_servers w). share (grubs w h))"
    using share_nonneg [OF assms(1)] by (intro sum_list_nonneg) (auto dest: notin_set_remove1)
  then show ?thesis using active_sum_split [OF assms(2)] by simp
qed

lemma inv_active: "grub_inv w \<Longrightarrow> 0 \<le> gs_active_u w \<and> gs_active_u w \<le> 1"
proof -
  assume inv: "grub_inv w"
  have "active_sum w \<le> (\<Sum>g\<leftarrow>gs_servers w. g_util (grubs w g))"
    unfolding active_sum_def
  proof (rule sum_list_mono)
    fix g
    assume "g \<in> set (gs_servers w)"
    then have "0 < g_util (grubs w g)" using inv util_pos [OF phase_server [of "set (gs_servers w)" w g]] by (simp add: grub_inv_def)
    then show "share (grubs w g) \<le> g_util (grubs w g)" by (simp add: share_def)
  qed
  with inv show ?thesis by (auto simp: grub_inv_def phase_def)
qed

text \<open>A change of one server that is not the begin or end of its being idle.\<close>

lemma inv_upd:
  assumes "grub_inv w" and "g \<in> set (gs_servers w)" and "phase (set (gs_servers w)) w'" and "gs_servers w' = gs_servers w"
    and "gs_active_u w' = gs_active_u w" and "gs_total_u w' = gs_total_u w"
    and "\<And>h. h \<noteq> g \<Longrightarrow> grubs w' h = grubs w h" and "g_util (grubs w' g) = g_util (grubs w g)"
    and "g_status (grubs w' g) = IDLE \<longleftrightarrow> g_status (grubs w g) = IDLE"
  shows "grub_inv w'"
proof -
  have "distinct (gs_servers w)" using assms(1) by (simp add: grub_inv_def phase_def)
  then have "active_sum w' = active_sum w"
    using active_sum_change [OF _ assms(2,4,7)] assms(8,9) by (simp add: share_def)
  moreover have "g_util (grubs w' h) = g_util (grubs w h)" for h using assms(7,8) by (cases "h = g") simp_all
  ultimately show ?thesis using assms by (simp add: grub_inv_def)
qed

text \<open>The begin and the end of the being idle of a server.\<close>

lemma inv_change:
  assumes "grub_inv w" and "g \<in> set (gs_servers w)" and "phase (set (gs_servers w)) v" and "gs_servers v = gs_servers w"
    and "gs_active_u v = gs_active_u w" and "gs_total_u v = gs_total_u w"
    and "\<And>h. h \<noteq> g \<Longrightarrow> grubs v h = grubs w h" and "g_util (grubs v g) = g_util (grubs w g)"
    and "\<And>z. frame v z \<Longrightarrow> gs_active_u z = gs_active_u v \<Longrightarrow>
      f z = z\<lparr>gs_active_u := gs_active_u v + share (grubs v g) - share (grubs w g)\<rparr>"
  shows "\<exists>w'. steps [for_servers Grub_updateBudget, pureE f, for_servers Grub_startAccounting] v = Inr w' \<and> grub_inv w' \<and>
    frame v w'"
proof -
  let ?u = "gs_active_u v + share (grubs v g) - share (grubs w g)"
  have "distinct (gs_servers w)" using assms(1) by (simp add: grub_inv_def phase_def)
  then have u: "?u = active_sum v"
    using active_sum_change [OF _ assms(2,4,7)] assms(1,5) by (simp add: grub_inv_def)
  have "0 < ?u" if "h \<in> set (gs_servers v)" "g_status (grubs v h) = EXECUTING" for h
    using active_at_least [OF assms(3), of h] util_pos [OF phase_server [OF assms(3)], of h] that assms(4) u
    by (simp add: share_def)
  moreover have "0 \<le> ?u"
    unfolding u active_sum_def using share_nonneg [OF assms(3)] assms(4) by (intro sum_list_nonneg) auto
  ultimately obtain w' where w': "steps [for_servers Grub_updateBudget, pureE f, for_servers Grub_startAccounting] v = Inr w'"
    "phase (set (gs_servers v)) w'" "gs_active_u w' = ?u" "frame v w'"
    using change_active [of v f ?u] assms(3,4,9) by auto
  have "g_util (grubs w' h) = g_util (grubs w h)" for h
    using w'(4) assms(7,8) by (cases "h = g") (simp_all add: frame_def)
  then have "grub_inv w'"
    using w' u frame_sums [OF w'(4)] assms(1,4,6) by (simp add: grub_inv_def frame_def)
  with w'(1,4) show ?thesis by blast
qed

section \<open>The calls\<close>

definition renewed :: "tick \<Rightarrow> grub \<Rightarrow> grub" where
  "renewed T x = x\<lparr>g_cap := (g_cap x)\<lparr>ct_value := of_int (g_Q x)\<rparr>, g_d := T + g_P x, g_abs_dline := T + g_P x,
     g_vtime := (g_vtime x)\<lparr>ct_value := of_int T\<rparr>\<rparr>"

lemma renew_stopped:
  assumes "ct_status (g_cap (grubs w g)) = STOPPED" and "ct_status (g_vtime (grubs w g)) = STOPPED"
  shows "Grub_renew g w = Inr (upd_grub g (renewed (globTime w)) w)"
  using assms
  by (simp add: Grub_renew_def with_cap_def with_gvtime_def CapacityTimer_set_value_def Let_def upd_grub_def renewed_def)

lemma inv_phase: "grub_inv w \<Longrightarrow> phase (set (gs_servers w)) w"
  and inv_sound: "grub_inv w \<Longrightarrow> sound (globTime w) w"
  and inv_ok: "grub_inv w \<Longrightarrow> g \<in> set (gs_servers w) \<Longrightarrow> grub_ok True (gs_active_u w) (grubs w g) (timers_of g w)"
  using phase_server by (fastforce simp: grub_inv_def phase_def)+

lemma grub_idle_ready_inv:
  assumes "grub_inv w" and "g \<in> set (gs_servers w)" and "g_status (grubs w g) = IDLE"
  shows "\<exists>w'. Grub_idle_ready g w = Inr w' \<and> grub_inv w'"
proof -
  note ok = inv_ok [OF assms(1,2)]
  let ?v = "upd_grub g (renewed (globTime w)) (set_gstatus g READY w)"
  have stop: "ct_status (g_cap (grubs w g)) = STOPPED" "ct_status (g_vtime (grubs w g)) = STOPPED"
    using ok assms(3) by (simp_all add: grub_ok_def)
  have "phase (set (gs_servers w)) ?v"
    using assms inv_sound [OF assms(1)] ok
    by (intro phase_upd [OF inv_phase [OF assms(1)] assms(2)])
      (auto simp: set_gstatus_def grub_ok_def renewed_def grub_inv_def phase_def)
  then have "\<exists>w'. GrubSupervisor_set_active g ?v = Inr w' \<and> grub_inv w' \<and> frame ?v w'"
    unfolding GrubSupervisor_set_active_def
    by (intro inv_change [OF assms(1,2)]) (use assms(3) in \<open>auto simp: set_gstatus_def renewed_def share_def frame_def\<close>)
  moreover have "Grub_renew g (set_gstatus g READY w) = Inr ?v"
    using renew_stopped [of "set_gstatus g READY w" g] stop by (simp add: set_gstatus_def)
  moreover have "g_supervised (grubs ?v g)" using ok by (simp add: set_gstatus_def renewed_def grub_ok_def)
  ultimately show ?thesis using assms(3) by (auto simp: Grub_idle_ready_def with_supervisor_def)
qed

lemma grub_releasing_ready_inv:
  assumes "grub_inv w" and "g \<in> set (gs_servers w)" and "g_status (grubs w g) = RELEASING"
  shows "grub_inv (Grub_releasing_ready g w)"
proof -
  note ok = inv_ok [OF assms(1,2)] and snd = inv_sound [OF assms(1)]
  have "phase (set (gs_servers w)) (Grub_releasing_ready g w)"
    using assms snd ok
    by (intro phase_upd [OF inv_phase [OF assms(1)] assms(2)])
      (auto simp: Grub_releasing_ready_def set_gstatus_def drop_sound(1) timers_drop [where T = "globTime w"] grub_ok_def
        grub_inv_def phase_def)
  then show ?thesis
    by (intro inv_upd [OF assms(1,2)]) (use assms(3) in \<open>auto simp: Grub_releasing_ready_def set_gstatus_def\<close>)
qed

text \<open>A server that stops to execute.\<close>

lemma leave_executing:
  assumes "grub_inv w" and "g \<in> set (gs_servers w)"
  shows "\<exists>w'. Grub_updateBudget g w = Inr w' \<and> phase (set (gs_servers w) - {g}) w' \<and> gs_active_u w' = gs_active_u w \<and>
    frame w w' \<and> (\<forall>h. h \<noteq> g \<longrightarrow> grubs w' h = grubs w h)"
proof -
  have "grubs w' h = grubs w h" if "Grub_updateBudget g w = Inr w'" "h \<noteq> g" for w' h
    using that by (auto simp: Grub_updateBudget_def with_cap_def with_gvtime_def pureE_def bindE_eq_Inr split: if_splits)
  then show ?thesis using updateBudget_phase [OF inv_phase [OF assms(1)] assms(2,2)] by blast
qed

lemma leave_to:
  assumes "grub_inv w" and "g \<in> set (gs_servers w)" and "g_status (grubs w g) = EXECUTING"
    and "Grub_updateBudget g w = Inr v" and "frame w v" and "gs_active_u v = gs_active_u w"
    and "\<forall>h. h \<noteq> g \<longrightarrow> grubs v h = grubs w h"
    and "phase (set (gs_servers w)) w'" and "grubs w' = (grubs v)(g := (grubs v g)\<lparr>g_status := st\<rparr>)" and "st \<noteq> IDLE"
    and "gs_servers w' = gs_servers v" and "gs_total_u w' = gs_total_u v" and "gs_active_u w' = gs_active_u v"
  shows "grub_inv w'"
  using assms by (intro inv_upd [OF assms(1,2)]) (auto simp: frame_def)

lemma grub_executing_ready_inv:
  assumes "grub_inv w" and "g \<in> set (gs_servers w)" and "g_status (grubs w g) = EXECUTING"
  shows "\<exists>w'. Grub_executing_ready g w = Inr w' \<and> grub_inv w'"
proof -
  obtain v where v: "Grub_updateBudget g w = Inr v" "phase (set (gs_servers w) - {g}) v" "gs_active_u v = gs_active_u w"
    "frame w v" "\<forall>h. h \<noteq> g \<longrightarrow> grubs v h = grubs w h"
    using leave_executing [OF assms(1,2)] by blast
  have S: "gs_servers v = gs_servers w" "g_status (grubs v g) = EXECUTING" using v(4) assms(3) by (simp_all add: frame_def)
  let ?w = "set_gstatus g READY v"
  have "grub_ok False (gs_active_u v) (grubs v g) (timers_of g v)" using phase_server [OF v(2), of g] assms(2) S by simp
  then have "phase (set (gs_servers w)) ?w"
    using v(2) S assms(2) phase_sound [OF v(2)]
    by (intro phase_upd [OF v(2)]) (auto simp: set_gstatus_def grub_ok_def phase_def)
  then have "grub_inv ?w" by (intro leave_to [OF assms v(1,4,3,5), where st = READY]) (auto simp: set_gstatus_def)
  then show ?thesis using v(1) by (simp add: Grub_executing_ready_def)
qed

text \<open>\<open>executing_releasing\<close> and \<open>executing_recharging\<close>: an event for the end of the new state.\<close>

lemma leave_and_post:
  assumes "grub_inv w" and "g \<in> set (gs_servers w)" and "g_status (grubs w g) = EXECUTING"
    and "Grub_updateBudget g w = Inr v" and "(st, k) = (RELEASING, GoingIdle) \<or> (st, k) = (RECHARGING, Recharging)"
    and "globTime v \<le> t"
  shows "\<exists>w'. Event_post (k, g) t False (set_gstatus g st v) = Inr w' \<and> grub_inv w'"
proof -
  obtain v where v: "Grub_updateBudget g w = Inr v" "phase (set (gs_servers w) - {g}) v" "gs_active_u v = gs_active_u w"
    "frame w v" "\<forall>h. h \<noteq> g \<longrightarrow> grubs v h = grubs w h" and now: "globTime v \<le> t"
    and goal: "(\<exists>w'. Event_post (k, g) t False (set_gstatus g st v) = Inr w' \<and> grub_inv w') \<Longrightarrow> ?thesis"
    using leave_executing [OF assms(1,2)] assms(4,6) by auto
  have S: "gs_servers v = gs_servers w" "g_status (grubs v g) = EXECUTING" using v(4) assms(3) by (simp_all add: frame_def)
  note snd = phase_sound [OF v(2)]
  have ok: "grub_ok False (gs_active_u v) (grubs v g) (timers_of g v)" using phase_server [OF v(2), of g] assms(2) S by simp
  then have "posted_at (k, g) (set_gstatus g st v) = None"
    using S(2) assms(5) by (auto simp: set_gstatus_def grub_ok_def timers_of_def)
  then obtain w' where w': "Event_post (k, g) t False (set_gstatus g st v) = Inr w'"
    using post_possible [of "globTime v" "set_gstatus g st v" "(k, g)" t False] snd now by (auto simp: set_gstatus_def)
  note post = post_grub [OF w']
  have sv: "sound (globTime v) (set_gstatus g st v)" using snd by (simp add: set_gstatus_def)
  have tm: "timers_of h w' = (if h = g then (timers_of h v)(k := Some t) else timers_of h v)" for h
    using timers_post [OF sv w', of h] by (simp add: set_gstatus_def)
  have "phase (set (gs_servers w)) w'"
    using v(2) S assms(2,5) post_sound(1) [OF sv w'] post ok tm
    by (intro phase_upd [OF v(2)]) (auto simp: set_gstatus_def grub_ok_def phase_def)
  then have "grub_inv w'"
    using assms(5) post by (intro leave_to [OF assms(1-3) v(1,4,3,5), where st = st]) (auto simp: set_gstatus_def)
  with w' show ?thesis by (intro goal) blast
qed

lemma grub_executing_releasing_inv:
  assumes "grub_inv w" and "g \<in> set (gs_servers w)" and "g_status (grubs w g) = EXECUTING"
  shows "\<exists>w'. Grub_executing_releasing g w = Inr w' \<and> grub_inv w'"
proof -
  obtain v where v: "Grub_updateBudget g w = Inr v" using leave_executing [OF assms(1,2)] by blast
  then show ?thesis
    using leave_and_post [OF assms v, of RELEASING GoingIdle]
    by (auto simp: Grub_executing_releasing_def Let_def set_gstatus_def)
qed

lemma grub_executing_recharging_inv:
  assumes "grub_inv w" and "g \<in> set (gs_servers w)" and "g_status (grubs w g) = EXECUTING"
  shows "\<exists>w'. Grub_executing_recharging g w = Inr w' \<and> grub_inv w'"
proof -
  obtain v where v: "Grub_updateBudget g w = Inr v" using leave_executing [OF assms(1,2)] by blast
  then show ?thesis
    using leave_and_post [OF assms v, of RECHARGING Recharging]
    by (auto simp: Grub_executing_recharging_def Let_def set_gstatus_def)
qed

text \<open>The event of the exhaustion itself is no longer in the queue when it is handled.\<close>

lemma exhaust_inv:
  assumes "grub_inv w" and "g \<in> set (gs_servers w)" and "g_status (grubs w g) = EXECUTING"
  shows "\<exists>w'. Grub_executing_recharging g (Event_drop (BandEx, g) w) = Inr w' \<and> grub_inv w'"
proof -
  have same: "Event_Cmp (x\<lparr>ev_isInQueue := False\<rparr>) y = Event_Cmp x y" "Event_Cmp y (x\<lparr>ev_isInQueue := False\<rparr>) = Event_Cmp y x" for x y
    by (simp_all add: Event_Cmp_def)
  have lt: "queue_lt (upd_event e (\<lambda>x. x\<lparr>ev_isInQueue := False\<rparr>) v) = queue_lt v" for e :: timer and v :: grub_world
    by (intro ext) (simp add: queue_lt_def upd_event_def same)
  have lt2: "queue_lt (v\<lparr>eventQueue := q\<rparr>) = queue_lt v" for q and v :: grub_world by (intro ext) (simp add: queue_lt_def)
  have again: "Event_drop e (Event_drop e v) = Event_drop e v" for e :: timer and v :: grub_world
    by (simp only: Event_drop_def lt lt2) (simp add: pl_erase_def upd_event_def)
  have lt3: "queue_lt (upd_grub g f w) = queue_lt w" for f by (intro ext) (simp add: queue_lt_def)
  have commute: "upd_grub g f (Event_drop e w) = Event_drop e (upd_grub g f w)" for e f
    by (simp only: Event_drop_def lt3) (simp add: upd_event_def upd_grub_def)
  have "ct_status (g_cap (grubs w g)) = RUNNING" "ct_status (g_vtime (grubs w g)) = RUNNING"
    using inv_ok [OF assms(1,2)] assms(3) by (simp_all add: grub_ok_def)
  then have "Grub_updateBudget g (Event_drop (BandEx, g) w) = Grub_updateBudget g w"
    using assms(3) by (simp add: updateBudget_executing commute again)
  then show ?thesis using grub_executing_recharging_inv [OF assms] by (simp add: Grub_executing_recharging_def)
qed

lemma grub_ready_executing_inv:
  assumes "grub_inv w" and "g \<in> set (gs_servers w)" and "g_status (grubs w g) = READY"
  shows "\<exists>w'. Grub_ready_executing g w = Inr w' \<and> grub_inv w'"
proof -
  let ?S = "set (gs_servers w)" and ?x = "grubs w g"
  let ?c = "(g_cap ?x)\<lparr>ct_value := ct_value (g_cap ?x) + of_int (gs_residual_capacity w)\<rparr>"
  define v where "v = upd_grub g (\<lambda>x. x\<lparr>g_cap := ?c\<rparr>) ((set_gstatus g EXECUTING w)\<lparr>gs_residual_capacity := 0\<rparr>)"
  note ok = inv_ok [OF assms(1,2)] and ph = inv_phase [OF assms(1)]
  have stop: "ct_status (g_cap ?x) = STOPPED" "g_supervised ?x" using ok assms(3) by (simp_all add: grub_ok_def)
  have "phase (?S - {g}) v"
    using ph ok assms(2,3) inv_sound [OF assms(1)]
    by (intro phase_upd [OF ph]) (auto simp: v_def set_gstatus_def grub_ok_def phase_def)
  moreover have "0 < gs_active_u v"
    using active_at_least [OF ph assms(2)] util_pos [OF ok] assms(1,3) by (simp add: v_def set_gstatus_def share_def grub_inv_def)
  moreover have sv: "gs_servers v = gs_servers w" "gs_total_u v = gs_total_u w" "gs_active_u v = gs_active_u w"
    by (simp_all add: v_def set_gstatus_def)
  ultimately obtain w' where w': "Grub_startAccounting g v = Inr w'" "phase (insert g (?S - {g})) w'"
    "gs_active_u w' = gs_active_u v" "frame v w'"
    using startAccounting_phase [of "?S - {g}" v g] assms(2) by auto
  have "Grub_ready_executing g w = Inr w'"
    using stop w'(1)
    by (simp add: Grub_ready_executing_def with_supervisor_def set_gstatus_def GrubSupervisor_get_capacity_def with_cap_def
        CapacityTimer_get_value_def CapacityTimer_set_value_def v_def)
  moreover have "grubs w' h = grubs w h" if "h \<noteq> g" for h
  proof -
    have "grubs w' h = grubs v h"
      using w'(1) that by (auto simp: Grub_startAccounting_def with_cap_def with_gvtime_def Let_def bindE_eq_Inr post_grub split: if_splits)
    with that show ?thesis by (simp add: v_def set_gstatus_def)
  qed
  then have "grub_inv w'"
    using w'(2-4) sv assms(2,3)
    by (intro inv_upd [OF assms(1,2)]) (auto simp: insert_absorb frame_def v_def set_gstatus_def)
  ultimately show ?thesis by blast
qed

lemma grub_recharging_ready_inv:
  assumes "grub_inv w" and "g \<in> set (gs_servers w)" and "g_status (grubs w g) = RECHARGING"
  shows "\<exists>w'. Grub_recharging_ready g (Event_drop (Recharging, g) w) = Inr w' \<and> grub_inv w'"
proof -
  let ?v = "set_gstatus g READY (upd_grub g (renewed (globTime w)) (Event_drop (Recharging, g) w))"
  note ok = inv_ok [OF assms(1,2)] and snd = inv_sound [OF assms(1)]
  have stop: "ct_status (g_cap (grubs w g)) = STOPPED" "ct_status (g_vtime (grubs w g)) = STOPPED"
    using ok assms(3) by (simp_all add: grub_ok_def)
  have "phase (set (gs_servers w)) ?v"
    using assms snd ok
    by (intro phase_upd [OF inv_phase [OF assms(1)] assms(2)])
      (auto simp: set_gstatus_def renewed_def drop_sound(1) timers_drop [where T = "globTime w"] grub_ok_def grub_inv_def phase_def)
  then have "grub_inv ?v"
    by (intro inv_upd [OF assms(1,2)]) (use assms(3) in \<open>auto simp: set_gstatus_def renewed_def\<close>)
  moreover have "Grub_recharging_ready g (Event_drop (Recharging, g) w) = Inr ?v"
    using renew_stopped [of "Event_drop (Recharging, g) w" g] stop by (simp add: Grub_recharging_ready_def)
  ultimately show ?thesis by blast
qed

lemma becomes_idle:
  assumes "grub_inv w" and "g \<in> set (gs_servers w)"
    and "(g_status (grubs w g), k) = (RELEASING, GoingIdle) \<or> (g_status (grubs w g), k) = (RECHARGING, Recharging)"
  shows "\<exists>w'. Grub_releasing_idle g (Event_drop (k, g) w) = Inr w' \<and> grub_inv w'"
proof -
  let ?d = "Event_drop (k, g) w"
  let ?v = "\<lambda>c. set_gstatus g IDLE (?d\<lparr>gs_residual_capacity := c\<rparr>)"
  note ok = inv_ok [OF assms(1,2)] and snd = inv_sound [OF assms(1)]
  have sup: "g_supervised (grubs w g)" using ok by (simp add: grub_ok_def)
  have ends: "\<exists>w'. GrubSupervisor_set_idle g (?v c) = Inr w' \<and> grub_inv w' \<and> frame (?v c) w'" if c: "0 \<le> c" for c
  proof -
    have "phase (set (gs_servers w)) (?v c)"
      using assms snd ok c
      by (intro phase_upd [OF inv_phase [OF assms(1)] assms(2)])
        (auto simp: set_gstatus_def drop_sound(1) timers_drop [where T = "globTime w"] grub_ok_def grub_inv_def phase_def)
    then show ?thesis
      unfolding GrubSupervisor_set_idle_def
      by (intro inv_change [OF assms(1,2)]) (use assms(3) in \<open>auto simp: set_gstatus_def share_def frame_def\<close>)
  qed
  let ?v0 = "Grub_vtime g ?d" and ?T = "globTime w"
  show ?thesis
  proof (cases "?v0 < of_int ?T")
    case True
    have "0 \<le> Tick_of_double (g_util (grubs w g) * (of_int ?T - ?v0))"
      using True util_pos [OF ok] by (simp add: Tick_of_double_def mult_less_0_iff)
    from ends [OF this] show ?thesis
      using True sup
      by (auto simp: Grub_releasing_idle_def with_supervisor_def pureE_def GrubSupervisor_set_capacity_def set_gstatus_def)
  next
    case False
    have same: "?d\<lparr>gs_residual_capacity := gs_residual_capacity w\<rparr> = ?d" by (simp add: Event_drop_def upd_event_def)
    have "0 \<le> gs_residual_capacity w" using assms(1) by (simp add: grub_inv_def phase_def)
    from ends [OF this] show ?thesis
      using False sup unfolding same by (auto simp: Grub_releasing_idle_def with_supervisor_def set_gstatus_def)
  qed
qed

lemma pass_inv:
  assumes "grub_inv w" and "globTime w \<le> t" and "\<forall>e\<in>set (eventQueue w). t \<le> ev_time (evs w e)"
  shows "grub_inv (Simulation_setTime t w)"
proof -
  have same: "grubs (Simulation_setTime t w) = grubs w" "gs_servers (Simulation_setTime t w) = gs_servers w"
    "gs_total_u (Simulation_setTime t w) = gs_total_u w" "gs_active_u (Simulation_setTime t w) = gs_active_u w"
    "gs_residual_capacity (Simulation_setTime t w) = gs_residual_capacity w" "globTime (Simulation_setTime t w) = t"
    by (simp_all add: Simulation_setTime_def)
  note pass_sound [OF inv_sound [OF assms(1)] assms(2,3)]
  then have "phase (set (gs_servers w)) (Simulation_setTime t w)"
    using inv_phase [OF assms(1)] by (simp add: phase_def same)
  moreover have "active_sum (Simulation_setTime t w) = active_sum w" by (simp add: active_sum_def same)
  ultimately show ?thesis using assms(1) by (simp add: grub_inv_def same)
qed

text \<open>Every call that is made when it may be made returns, and keeps the account.\<close>

lemma call_inv:
  assumes "grub_inv w" and "call_ok c w"
  shows "\<exists>w'. grub_call c w = Inr w' \<and> grub_inv w'"
proof (cases c)
  case (Arrive g)
  then show ?thesis
    using grub_idle_ready_inv [OF assms(1), of g] grub_releasing_ready_inv [OF assms(1), of g] assms
    by (cases "g_status (grubs w g)") simp_all
next
  case (GoIdle g)
  have "g_status (grubs w g) = RELEASING"
    using inv_ok [OF assms(1), of g] assms(2) GoIdle by (auto simp: grub_ok_def timers_of_def posted_at_def due_def)
  then show ?thesis using becomes_idle [OF assms(1), of g GoingIdle] assms(2) GoIdle by (simp add: Grub_onIdle_def)
next
  case (Recharge g work)
  then show ?thesis
    using grub_recharging_ready_inv [OF assms(1), of g] becomes_idle [OF assms(1), of g Recharging] assms(2)
    by (simp add: Grub_recharging_idle_def)
qed (use assms grub_ready_executing_inv grub_executing_ready_inv exhaust_inv grub_executing_releasing_inv pass_inv in auto)

section \<open>Reachable states\<close>

text \<open>
  Servers are constructed, with a positive budget and period, and added to the supervisor; then the calls of the class
  \<open>Server\<close> and the events happen in any order.
\<close>

definition grub_start :: "grub_world \<Rightarrow> bool" where
  "grub_start w \<longleftrightarrow> sound (globTime w) w \<and> eventQueue w = [] \<and> gs_servers w = [] \<and> gs_total_u w = 0 \<and>
     gs_residual_capacity w = 0 \<and> gs_active_u w = 0 \<and> (\<forall>g. \<exists>q p. 0 < q \<and> 0 < p \<and> grubs w g = Grub_ctor q p)"

inductive grub_reach :: "grub_world \<Rightarrow> bool" where
  start: "grub_start w \<Longrightarrow> grub_reach w"
| add: "grub_reach w \<Longrightarrow> g \<notin> set (gs_servers w) \<Longrightarrow> grub_reach (snd (GrubSupervisor_addGrub g w))"
| call: "grub_reach w \<Longrightarrow> call_ok c w \<Longrightarrow> grub_call c w = Inr w' \<Longrightarrow> grub_reach w'"

lemma add_inv:
  assumes "grub_inv w" and "g \<notin> set (gs_servers w)"
  shows "grub_inv (snd (GrubSupervisor_addGrub g w))"
proof (cases "gs_total_u w + g_util (grubs w g) > 1")
  case False
  let ?w = "upd_grub g (\<lambda>x. x\<lparr>g_supervised := True\<rparr>)
       (w\<lparr>gs_servers := gs_servers w @ [g], gs_total_u := gs_total_u w + g_util (grubs w g)\<rparr>)"
  have fresh: "fresh_grub (grubs w g) (timers_of g w)" using assms by (simp add: grub_inv_def phase_def)
  have "phase (set (gs_servers ?w)) ?w"
    using assms fresh
    by (auto simp: phase_def grub_inv_def fresh_grub_def grub_ok_def Grub_ctor_def CapacityTimer_ctor_def)
  moreover have "active_sum ?w = active_sum w"
  proof -
    have "(\<lambda>h. share (grubs ?w h)) = (\<lambda>h. share (grubs w h))" by (simp add: share_def fun_eq_iff)
    moreover have "share (grubs w g) = 0" using fresh by (auto simp: fresh_grub_def share_def Grub_ctor_def)
    ultimately show ?thesis by (simp add: active_sum_def)
  qed
  moreover have "(\<Sum>h\<leftarrow>gs_servers ?w. g_util (grubs ?w h)) = (\<Sum>h\<leftarrow>gs_servers w. g_util (grubs w h)) + g_util (grubs w g)"
  proof -
    have "(\<lambda>h. g_util (grubs ?w h)) = (\<lambda>h. g_util (grubs w h))" by (simp add: fun_eq_iff)
    then show ?thesis by simp
  qed
  ultimately have "grub_inv ?w" using assms(1) False by (simp add: grub_inv_def)
  then show ?thesis using False by (simp add: GrubSupervisor_addGrub_def)
qed (use assms in \<open>simp add: GrubSupervisor_addGrub_def\<close>)

lemma reach_inv: "grub_reach w \<Longrightarrow> grub_inv w"
proof (induction rule: grub_reach.induct)
  case (start w)
  then show ?case
    by (auto simp: grub_start_def grub_inv_def phase_def active_sum_def fresh_grub_def timers_of_def posted_at_def)
next
  case (add w g)
  then show ?case by (intro add_inv)
next
  case (call w c w')
  then show ?case using call_inv by fastforce
qed

lemma reach_facts:
  assumes "grub_reach w"
  shows "gs_active_u w = (\<Sum>g\<leftarrow>gs_servers w. if g_status (grubs w g) = IDLE then 0 else g_util (grubs w g))"
    and "0 \<le> gs_active_u w" and "gs_active_u w \<le> 1"
    and "\<forall>g\<in>set (gs_servers w). 0 \<le> CapacityTimer_get_value (globTime w) (g_cap (grubs w g))"
    and "\<forall>g\<in>set (gs_servers w). g_status (grubs w g) = EXECUTING \<longrightarrow>
      ct_der (g_cap (grubs w g)) = - gs_active_u w \<and> ct_der (g_vtime (grubs w g)) = gs_active_u w / g_util (grubs w g)"
proof -
  note inv = reach_inv [OF assms]
  show "gs_active_u w = (\<Sum>g\<leftarrow>gs_servers w. if g_status (grubs w g) = IDLE then 0 else g_util (grubs w g))"
    using inv by (simp add: grub_inv_def active_sum_def share_def)
  show "0 \<le> gs_active_u w" "gs_active_u w \<le> 1" using inv_active [OF inv] by simp_all
  show "\<forall>g\<in>set (gs_servers w). 0 \<le> CapacityTimer_get_value (globTime w) (g_cap (grubs w g))"
  proof
    fix g
    assume "g \<in> set (gs_servers w)"
    note ok = inv_ok [OF inv this]
    show "0 \<le> CapacityTimer_get_value (globTime w) (g_cap (grubs w g))"
    proof (cases "g_status (grubs w g) = EXECUTING")
      case True
      have "0 \<le> value_at (globTime w) (g_cap (grubs w g))"
        using capacity_left [OF ok True] inv_active [OF inv] sound_posted_later [OF inv_sound [OF inv]]
        by (auto simp: timers_of_def)
      then show ?thesis using ok True by (simp add: CapacityTimer_get_value_def value_at_def grub_ok_def)
    qed (use ok in \<open>simp add: CapacityTimer_get_value_def grub_ok_def\<close>)
  qed
  show "\<forall>g\<in>set (gs_servers w). g_status (grubs w g) = EXECUTING \<longrightarrow>
      ct_der (g_cap (grubs w g)) = - gs_active_u w \<and> ct_der (g_vtime (grubs w g)) = gs_active_u w / g_util (grubs w g)"
    using inv_ok [OF inv] by (auto simp: grub_ok_def)
qed

text \<open>
  C11. The account of the supervisor, in exact arithmetic: whatever the order of arrivals, dispatches, exhaustions, recharging
  events and idle times, the active utilization is that of the servers that are not idle and at most one; the budget of
  a server that executes is charged at that rate, and its virtual time advances at that rate over its own utilization.
\<close>

theorem grub_reclaims:
  assumes "grub_reach w"
  shows "gs_active_u w = (\<Sum>g\<leftarrow>gs_servers w. if g_status (grubs w g) = IDLE then 0 else g_util (grubs w g)) \<and>
    0 \<le> gs_active_u w \<and> gs_active_u w \<le> 1 \<and>
    (\<forall>g\<in>set (gs_servers w). g_status (grubs w g) = EXECUTING \<longrightarrow> ct_der (g_cap (grubs w g)) = - gs_active_u w \<and>
       ct_der (g_vtime (grubs w g)) = gs_active_u w / g_util (grubs w g))"
  using reach_facts [OF assms] by blast

text \<open>
  In exact arithmetic no assertion of the accounting fails: in every reachable state each method of the class \<open>Grub\<close> returns
  that the class \<open>Server\<close> or the queue of events may call.  The code computes with doubles: what is left of a budget when it is exhausted
  may be a little below zero, and then the assertion of \<open>startAccounting\<close> on it fails.
\<close>

lemma grub_never_asserts: "grub_reach w \<Longrightarrow> call_ok c w \<Longrightarrow> \<exists>w'. grub_call c w = Inr w'"
  using call_inv [OF reach_inv] by blast

section \<open>A run\<close>

definition sample_added :: grub_world where
  "sample_added = snd (GrubSupervisor_addGrub 0
     \<lparr>globTime = 0, evs = (\<lambda>_. Event_ctor DEFAULT_PRIORITY), eventQueue = [], evCounter = 1, numRuns = 1, actRuns = 0,
      sim_end = False, grubs = (\<lambda>_. Grub_ctor 2 5), gs_servers = [], gs_total_u = 0, gs_residual_capacity = 0,
      gs_active_u = 0\<rparr>)"

text \<open>The server after it was activated, and after it was dispatched.\<close>

definition sample_ready :: grub_world where
  "sample_ready = projr (grub_call (Arrive 0) sample_added)"

definition sample_running :: grub_world where
  "sample_running = projr (grub_call (Schedule 0) sample_ready)"

lemma sample_added_reach: "grub_reach sample_added"
  unfolding sample_added_def
proof (rule grub_reach.add [OF grub_reach.start])
  have "\<exists>q p. 0 < q \<and> 0 < p \<and> Grub_ctor 2 5 = Grub_ctor q p" by (intro exI [of _ "2::tick"] exI [of _ "5::tick"]) simp
  then show "grub_start \<lparr>globTime = 0, evs = (\<lambda>_. Event_ctor DEFAULT_PRIORITY), eventQueue = [], evCounter = 1, numRuns = 1,
      actRuns = 0, sim_end = False, grubs = (\<lambda>_. Grub_ctor 2 5), gs_servers = [], gs_total_u = 0,
      gs_residual_capacity = 0, gs_active_u = 0\<rparr>"
    by (simp add: grub_start_def sound_def ordered_def at_time_def evq_inv_def Event_ctor_def)
qed simp

lemma sample_calls:
  "\<not> isl (grub_call (Arrive 0) sample_added)" "\<not> isl (grub_call (Schedule 0) sample_ready)"
  "call_ok (Arrive 0) sample_added" "call_ok (Schedule 0) sample_ready"
  by code_simp+

lemma sample_running_reach: "grub_reach sample_running"
proof -
  have step: "grub_reach w \<Longrightarrow> call_ok c w \<Longrightarrow> \<not> isl (grub_call c w) \<Longrightarrow> grub_reach (projr (grub_call c w))" for c w
    using grub_reach.call [of w c] by (cases "grub_call c w") simp_all
  show ?thesis
    using step [OF _ sample_calls(4,2)] step [OF sample_added_reach sample_calls(3,1)] by (simp add: sample_ready_def sample_running_def)
qed

theorem grub_reclaims_witness:
  "g_status (grubs sample_running 0) = EXECUTING \<and> gs_active_u sample_running = 2 / 5 \<and>
   ct_der (g_cap (grubs sample_running 0)) = - (2 / 5)"
proof -
  have "g_status (grubs sample_running 0) = EXECUTING" "gs_servers sample_running = [0]" "g_util (grubs sample_running 0) = 2 / 5"
    by code_simp+
  then show ?thesis using grub_reclaims [OF sample_running_reach] by simp
qed

lemma grub_never_asserts_witness: "\<exists>w'. grub_call (NoWork 0) sample_running = Inr w'"
proof -
  have "call_ok (NoWork 0) sample_running" by code_simp
  then show ?thesis by (rule grub_never_asserts [OF sample_running_reach])
qed

end
