(* ===== verification/Sporadic.thy ===== *)
theory Sporadic
  imports ServerTimers
begin

text \<open>
  The sporadic server (\<open>sporadicserver.cpp\<close>): the budget used in one burst comes back, all of it, a period after the
  burst began.  \<open>s_repl_queue\<close> holds the replenishments to come, the last of them that of the current burst while the
  server is active, and \<open>s_capacity_queue\<close> those that came while it was.  What a handler asks of the kernel and of the
  scheduler of the tasks, always as its last action, is a value of type \<open>request\<close>.
\<close>

type_synonym repl_t = "tick \<times> tick"     \<comment> \<open>when, and how much\<close>

record sporadic =
  s_status :: server_status
  s_dline :: tick
  s_Q :: tick
  s_P :: tick
  s_cap :: tick
  s_last_time :: tick
  s_recharging_time :: tick
  s_repl_queue :: "repl_t list"
  s_capacity_queue :: "repl_t list"
  s_vtime :: capacity_timer
  s_currExe :: "nat option"

record sporadic_world = "timer sim" +
  sporadics :: "nat \<Rightarrow> sporadic"

definition SporadicServer_ctor :: "tick \<Rightarrow> tick \<Rightarrow> sporadic" where
  "SporadicServer_ctor q p = \<lparr>s_status = IDLE, s_dline = p, s_Q = q, s_P = p, s_cap = 0, s_last_time = 0,
     s_recharging_time = 0, s_repl_queue = [], s_capacity_queue = [], s_vtime = CapacityTimer_ctor, s_currExe = None\<rparr>"

definition upd_sp :: "nat \<Rightarrow> (sporadic \<Rightarrow> sporadic) \<Rightarrow> sporadic_world \<Rightarrow> sporadic_world" where
  "upd_sp s f w = w\<lparr>sporadics := (sporadics w)(s := f (sporadics w s))\<rparr>"

definition with_svtime :: "nat \<Rightarrow> (tick \<Rightarrow> capacity_timer \<Rightarrow> exc + capacity_timer) \<Rightarrow> sporadic_world \<Rightarrow> exc + sporadic_world" where
  "with_svtime s f w =
     bindE (f (globTime w) (s_vtime (sporadics w s))) (\<lambda>c. Inr (upd_sp s (\<lambda>x. x\<lparr>s_vtime := c\<rparr>) w))"

definition SporadicServer_newRun :: "nat \<Rightarrow> sporadic_world \<Rightarrow> exc + sporadic_world" where
  "SporadicServer_newRun s w =
     (let w1 = upd_sp s (\<lambda>x. x\<lparr>s_cap := s_Q x, s_last_time := 0, s_recharging_time := 0, s_status := IDLE,
                 s_repl_queue := [], s_capacity_queue := []\<rparr>) w in
      steps [if ct_status (s_vtime (sporadics w1 s)) = RUNNING then with_svtime s CapacityTimer_stop else Inr,
             with_svtime s (\<lambda>_. CapacityTimer_set_value 0)] w1)"

definition SporadicServer_getVirtualTime :: "nat \<Rightarrow> sporadic_world \<Rightarrow> rat" where
  "SporadicServer_getVirtualTime s w =
    (if s_status (sporadics w s) = IDLE then of_int (globTime w)
     else CapacityTimer_get_value (globTime w) (s_vtime (sporadics w s)))"

section \<open>The queues\<close>

text \<open>\<open>back()\<close> and \<open>front()\<close> of an empty list are undefined in C++: \<open>NullPointer\<close>.\<close>

fun add_to_back :: "tick \<Rightarrow> repl_t list \<Rightarrow> exc + repl_t list" where
  "add_to_back u [] = Inl (NullPointer ''repl_queue.back()'')"
| "add_to_back u [(t, b)] = Inr [(t, b + u)]"
| "add_to_back u (r # q) = bindE (add_to_back u q) (\<lambda>q'. Inr (r # q'))"

definition prepare_replenishment :: "tick \<Rightarrow> nat \<Rightarrow> sporadic_world \<Rightarrow> sporadic_world" where
  "prepare_replenishment t s = upd_sp s (\<lambda>x. x\<lparr>s_repl_queue := s_repl_queue x @ [(t + s_P x, 0)]\<rparr>)"

definition check_repl :: "nat \<Rightarrow> sporadic_world \<Rightarrow> exc + sporadic_world" where
  "check_repl s w =
    (if Event_isInQueue (Replenishing, s) w then Inr w
     else case s_repl_queue (sporadics w s) of [] \<Rightarrow> Inr w | r # _ \<Rightarrow> Event_post (Replenishing, s) (fst r) False w)"

text \<open>What was executed since \<open>last_time\<close>.\<close>

definition executed :: "sporadic \<Rightarrow> tick \<Rightarrow> tick" where
  "executed x now = now - s_last_time x"

definition take_executed :: "nat \<Rightarrow> sporadic_world \<Rightarrow> sporadic_world" where
  "take_executed s w = upd_sp s (\<lambda>x. x\<lparr>s_cap := s_cap x - executed x (globTime w)\<rparr>) w"

definition note_executed :: "nat \<Rightarrow> sporadic_world \<Rightarrow> exc + sporadic_world" where
  "note_executed s w =
     bindE (add_to_back (executed (sporadics w s) (globTime w)) (s_repl_queue (sporadics w s)))
       (\<lambda>q. Inr (upd_sp s (\<lambda>x. x\<lparr>s_repl_queue := q\<rparr>) w))"

definition set_sstatus :: "nat \<Rightarrow> server_status \<Rightarrow> sporadic_world \<Rightarrow> sporadic_world" where
  "set_sstatus s st = upd_sp s (\<lambda>x. x\<lparr>s_status := st\<rparr>)"

section \<open>The state changes\<close>

definition SS_idle_ready :: "nat \<Rightarrow> sporadic_world \<Rightarrow> exc + sporadic_world" where
  "SS_idle_ready s w =
    (if s_status (sporadics w s) \<noteq> IDLE then Inl (AssertFailed ''status == IDLE'')
     else bindE (with_svtime s (\<lambda>t. CapacityTimer_set_value (of_int t))
                  (upd_sp s (\<lambda>x. x\<lparr>s_status := READY, s_cap := s_Q x\<rparr>) w))
            (\<lambda>w1. Inr (prepare_replenishment (globTime w1) s w1)))"

definition SS_releasing_ready :: "nat \<Rightarrow> sporadic_world \<Rightarrow> sporadic_world" where
  "SS_releasing_ready s w =
     (let w1 = set_sstatus s READY w in Event_drop (GoingIdle, s) (prepare_replenishment (globTime w1) s w1))"

definition SS_ready_executing :: "nat \<Rightarrow> sporadic_world \<Rightarrow> exc + sporadic_world" where
  "SS_ready_executing s w =
     (let w1 = upd_sp s (\<lambda>x. x\<lparr>s_status := EXECUTING, s_last_time := globTime w\<rparr>) w; x = sporadics w1 s in
      if s_Q x = 0 then Inl DivisionByZero
      else bindE (with_svtime s (\<lambda>t. CapacityTimer_start t (of_int (s_P x) / of_int (s_Q x))) w1)
             (Event_post (BandEx, s) (s_last_time x + s_cap x) False))"

definition SS_executing_ready :: "nat \<Rightarrow> sporadic_world \<Rightarrow> exc + sporadic_world" where
  "SS_executing_ready s w =
     steps [pureE (\<lambda>w1. Event_drop (BandEx, s) (take_executed s (set_sstatus s READY w1))),
            with_svtime s CapacityTimer_stop, note_executed s] w"

definition SS_executing_releasing :: "nat \<Rightarrow> sporadic_world \<Rightarrow> exc + sporadic_world" where
  "SS_executing_releasing s w =
     bindE (if s_status (sporadics w s) = EXECUTING
            then steps [pureE (\<lambda>w1. Event_drop (BandEx, s) (take_executed s w1)), note_executed s, check_repl s,
                        with_svtime s CapacityTimer_stop] w
            else Inr w) (\<lambda>w1.
     let v = CapacityTimer_get_value (globTime w1) (s_vtime (sporadics w1 s)) in
     if v \<le> of_int (globTime w1) then Inr (set_sstatus s IDLE w1)
     else bindE (Event_post (GoingIdle, s) (Tick_ceil v) False w1) (\<lambda>w2. Inr (set_sstatus s RELEASING w2)))"

definition SS_releasing_idle :: "nat \<Rightarrow> sporadic_world \<Rightarrow> sporadic_world" where
  "SS_releasing_idle s = set_sstatus s IDLE"

definition SS_executing_recharging :: "nat \<Rightarrow> sporadic_world \<Rightarrow> exc + sporadic_world" where
  "SS_executing_recharging s w =
     bindE (steps [pureE (\<lambda>w1. take_executed s (Event_drop (BandEx, s) w1)), note_executed s, check_repl s,
                   with_svtime s CapacityTimer_stop] w) (\<lambda>w1.
     case s_capacity_queue (sporadics w1 s) of
       r # q \<Rightarrow> Inr (upd_sp s (\<lambda>x. x\<lparr>s_last_time := globTime w1, s_status := READY\<rparr>)
                 (prepare_replenishment (fst r) s
                   (upd_sp s (\<lambda>x. x\<lparr>s_capacity_queue := q, s_cap := s_cap x + snd r\<rparr>) w1)))
     | [] \<Rightarrow> Inr (set_sstatus s RECHARGING w1))"

definition SS_recharging_ready :: "nat \<Rightarrow> sporadic_world \<Rightarrow> sporadic_world" where
  "SS_recharging_ready s w = (let w1 = set_sstatus s READY w in prepare_replenishment (globTime w1) s w1)"

definition SS_recharging_idle :: "nat \<Rightarrow> sporadic_world \<Rightarrow> exc + sporadic_world" where
  "SS_recharging_idle s w = Inl (AssertFailed ''false'')"

definition SS_onIdle :: "nat \<Rightarrow> sporadic_world \<Rightarrow> sporadic_world" where
  "SS_onIdle = SS_releasing_idle"

datatype request = Kernel_onArrival nat | Sched_notify_null | Nothing

text \<open>\<open>first\<close>: the scheduler of the tasks of the server has a first task.\<close>

definition SS_onReplenishment :: "nat \<Rightarrow> bool \<Rightarrow> sporadic_world \<Rightarrow> exc + request \<times> sporadic_world" where
  "SS_onReplenishment s first w =
     (let w1 = Event_drop (Replenishing, s) w; x = sporadics w1 s; st = s_status x in
      if st = RECHARGING \<or> st = RELEASING \<or> st = IDLE then
        (case s_repl_queue x of
           [] \<Rightarrow> Inl (NullPointer ''repl_queue.front()'')
         | r # q \<Rightarrow>
             bindE (check_repl s (upd_sp s (\<lambda>x. x\<lparr>s_cap := s_cap x + snd r, s_repl_queue := q\<rparr>) w1)) (\<lambda>w2.
             if first then Inr (Kernel_onArrival s, SS_recharging_ready s w2)
             else if s_status (sporadics w2 s) \<noteq> IDLE
             then Inr (Sched_notify_null, upd_sp s (\<lambda>x. x\<lparr>s_status := RELEASING, s_currExe := None\<rparr>) w2)
             else Inr (Nothing, w2)))
      else
        (case s_repl_queue x of
           [] \<Rightarrow> Inl (NullPointer ''repl_queue.front()'')
         | r # q \<Rightarrow>
             let w2 = upd_sp s (\<lambda>x. x\<lparr>s_repl_queue := q, s_capacity_queue := s_capacity_queue x @ [r]\<rparr>) w1 in
             bindE (if length q > 1 then check_repl s w2 else Inr w2) (\<lambda>w3. Inr (Nothing, w3))))"

section \<open>changeBudget\<close>

text \<open>The loops that take a decrement \<open>delta\<close> from the elements of a queue.\<close>

fun reduce_queue :: "tick \<Rightarrow> repl_t list \<Rightarrow> tick \<times> repl_t list" where
  "reduce_queue delta [] = (delta, [])"
| "reduce_queue delta ((t, b) # q) =
    (if delta > 0
     then let x = min delta b; (d, q') = reduce_queue (delta - x) q in (d, (t, b - x) # q')
     else (delta, (t, b) # q))"

text \<open>\<open>last_repl_time\<close>: the time of the last element the loop reduces, else that of the first element.\<close>

fun last_reduced :: "tick \<Rightarrow> tick \<Rightarrow> repl_t list \<Rightarrow> tick" where
  "last_reduced delta t0 [] = t0"
| "last_reduced delta t0 ((t, b) # q) = (if delta > 0 then last_reduced (delta - min delta b) t q else t0)"

text \<open>Does the loop stop before the end of the queue?\<close>

fun stops_inside :: "tick \<Rightarrow> repl_t list \<Rightarrow> bool" where
  "stops_inside delta [] = False"
| "stops_inside delta ((t, b) # q) = (if delta > 0 then stops_inside (delta - min delta b) q else True)"

text \<open>The loop that removes the empty replenishments in front.\<close>

fun pop_empty :: "nat \<Rightarrow> repl_t list \<Rightarrow> sporadic_world \<Rightarrow> exc + sporadic_world" where
  "pop_empty s [] w = Inr (upd_sp s (\<lambda>x. x\<lparr>s_repl_queue := []\<rparr>) w)"
| "pop_empty s ((t, b) # q) w =
    (if b = 0 then
       bindE (if Event_isInQueue (Replenishing, s) w then
                (case q of [] \<Rightarrow> Inl (NullPointer ''repl_queue.front()'')
                 | r # _ \<Rightarrow> Event_post (Replenishing, s) (fst r) False (Event_drop (Replenishing, s) w))
              else Inr w) (pop_empty s q)
     else Inr (upd_sp s (\<lambda>x. x\<lparr>s_repl_queue := (t, b) # q\<rparr>) w))"

definition SS_increase :: "nat \<Rightarrow> tick \<Rightarrow> sporadic_world \<Rightarrow> exc + sporadic_world" where
  "SS_increase s n w =
     bindE ((\<lambda>w1. if s_status (sporadics w1 s) = EXECUTING then
              steps [pureE (take_executed s), note_executed s, pureE (Event_drop (BandEx, s)),
                     with_svtime s CapacityTimer_stop,
                     pureE (\<lambda>v. upd_sp s (\<lambda>x. x\<lparr>s_last_time := globTime v\<rparr>) v),
                     (\<lambda>v. Event_post (BandEx, s) (s_last_time (sporadics v s) + s_cap (sporadics v s)) False v),
                     (\<lambda>v. with_svtime s (\<lambda>t. CapacityTimer_start t (of_int (s_P (sporadics v s)) / of_int n)) v)] w1
            else Inr w1)
       (upd_sp s (\<lambda>x. x\<lparr>s_cap := s_cap x + (n - s_Q x)\<rparr>) w)) (\<lambda>w2. Inr (upd_sp s (\<lambda>x. x\<lparr>s_Q := n\<rparr>) w2))"

text \<open>The decrement of the budget, the capacity queue and the replenishments, up to the assertion.\<close>

definition SS_reduce :: "nat \<Rightarrow> tick \<Rightarrow> sporadic_world \<Rightarrow> exc + tick \<times> sporadic_world" where
  "SS_reduce s n w =
     (let x = sporadics w s; delta = s_Q x - n; y = min delta (s_cap x);
          (d1, cq) = reduce_queue (delta - y) (s_capacity_queue x) in
      case s_repl_queue x of
        [] \<Rightarrow> Inl (NullPointer ''repl_queue.begin()'')
      | r # _ \<Rightarrow>
         (let (d2, rq) = reduce_queue d1 (s_repl_queue x) in
          if \<not> (d2 = 0 \<or> stops_inside d1 (s_repl_queue x))
          then Inl (AssertFailed ''(delta == 0) || (i != repl_queue.end())'')
          else Inr (last_reduced d1 (fst r) (s_repl_queue x),
                 upd_sp s (\<lambda>x. x\<lparr>s_cap := s_cap x - y, s_capacity_queue := cq, s_repl_queue := rq, s_Q := n\<rparr>) w)))"

definition SS_decrease :: "nat \<Rightarrow> tick \<Rightarrow> sporadic_world \<Rightarrow> exc + tick \<times> sporadic_world" where
  "SS_decrease s n w =
     bindE (if s_status (sporadics w s) = EXECUTING then
              steps [pureE (take_executed s), note_executed s,
                     pureE (\<lambda>v. Event_drop (BandEx, s) (upd_sp s (\<lambda>x. x\<lparr>s_last_time := globTime v\<rparr>) v)),
                     with_svtime s CapacityTimer_stop] w
            else Inr w) (\<lambda>w1.
     bindE (SS_reduce s n w1) (\<lambda>(ret, w2).
     let w3 = upd_sp s (\<lambda>x. x\<lparr>s_capacity_queue := dropWhile (\<lambda>r. snd r = 0) (s_capacity_queue x)\<rparr>) w2 in
     bindE (pop_empty s (s_repl_queue (sporadics w3 s)) w3) (\<lambda>w4.
     bindE (if s_status (sporadics w4 s) = EXECUTING then
              steps [(\<lambda>v. with_svtime s (\<lambda>t. CapacityTimer_start t
                        (of_int (s_P (sporadics v s)) / of_int (s_Q (sporadics v s)))) v),
                     (\<lambda>v. let x = sporadics v s in
                        if s_cap x = 0 then Event_post (BandEx, s) (globTime v) False (Event_drop (BandEx, s) v)
                        else Event_post (BandEx, s) (s_last_time x + s_cap x) False v)] w4
            else Inr w4) (\<lambda>w5. Inr (ret, w5)))))"

definition SS_changeBudget :: "nat \<Rightarrow> tick \<Rightarrow> sporadic_world \<Rightarrow> exc + tick \<times> sporadic_world" where
  "SS_changeBudget s n w =
    (if n > s_Q (sporadics w s) then bindE (SS_increase s n w) (\<lambda>w1. Inr (globTime w1, w1))
     else if n = s_Q (sporadics w s) then Inr (globTime w, w)
     else if n > 0 then SS_decrease s n w
     else Inr (0, w))"

definition SS_changeQ :: "nat \<Rightarrow> tick \<Rightarrow> sporadic_world \<Rightarrow> tick \<times> sporadic_world" where
  "SS_changeQ s n w = (0, upd_sp s (\<lambda>x. x\<lparr>s_Q := n\<rparr>) w)"

end
