(* ===== verification/Sporadic_Laws.thy ===== *)
theory Sporadic_Laws
  imports Sporadic
begin

text \<open>
  The account of a sporadic server: its capacity and all the replenishments, those to come and those that came while it
  was active, sum up to the budget, and every state change keeps the sum but one, the activation of an idle server,
  which fills the capacity with replenishments still to come.
\<close>

section \<open>The calls\<close>

fun sporadic_call :: "server_call \<Rightarrow> sporadic_world \<Rightarrow> exc + sporadic_world" where
  "sporadic_call (Arrive s) w =
    (case s_status (sporadics w s) of
       IDLE \<Rightarrow> SS_idle_ready s w | RELEASING \<Rightarrow> Inr (SS_releasing_ready s w) | _ \<Rightarrow> Inr w)"
| "sporadic_call (Schedule s) w = SS_ready_executing s w"
| "sporadic_call (Deschedule s) w =
    (if s_status (sporadics w s) = EXECUTING then SS_executing_ready s w else Inr w)"
| "sporadic_call (Exhaust s) w = SS_executing_recharging s (Event_drop (BandEx, s) w)"
| "sporadic_call (NoWork s) w = SS_executing_releasing s w"
| "sporadic_call (Recharge s work) w = bindE (SS_onReplenishment s work w) (\<lambda>(_, v). Inr v)"
| "sporadic_call (GoIdle s) w = Inr (SS_onIdle s (Event_drop (GoingIdle, s) w))"
| "sporadic_call (Budget s n) w = bindE (SS_changeBudget s n w) (\<lambda>(_, v). Inr v)"
| "sporadic_call (Pass t) w = Inr (Simulation_setTime t w)"

text \<open>
  A server that is idle or releasing has no task to serve, since the arrival of one makes it ready.
\<close>

fun sporadic_call_ok :: "server_call \<Rightarrow> sporadic_world \<Rightarrow> bool" where
  "sporadic_call_ok (Arrive s) w = True"
| "sporadic_call_ok (Schedule s) w = (s_status (sporadics w s) = READY)"
| "sporadic_call_ok (Deschedule s) w = True"
| "sporadic_call_ok (Exhaust s) w = (s_status (sporadics w s) = EXECUTING \<and> due (BandEx, s) w)"
| "sporadic_call_ok (NoWork s) w = (s_status (sporadics w s) = EXECUTING)"
| "sporadic_call_ok (Recharge s work) w =
    (due (Replenishing, s) w \<and> (work \<longrightarrow> s_status (sporadics w s) \<notin> {IDLE, RELEASING}))"
| "sporadic_call_ok (GoIdle s) w = due (GoingIdle, s) w"
| "sporadic_call_ok (Budget s n) w = True"
| "sporadic_call_ok (Pass t) w = (globTime w \<le> t \<and> (\<forall>e\<in>set (eventQueue w). t \<le> ev_time (evs w e)))"

section \<open>The part of the state that is one server\<close>

text \<open>
  \<open>w\<close> is \<open>w0\<close> but for the server \<open>s\<close>, which is \<open>x\<close> and whose events, but for the replenishment, are posted for \<open>b\<close>.
\<close>

definition one :: "nat \<Rightarrow> sporadic_world \<Rightarrow> sporadic_world \<Rightarrow> sporadic \<Rightarrow> timer_map \<Rightarrow> bool" where
  "one s w0 w x b \<longleftrightarrow> sound (globTime w0) w \<and> globTime w = globTime w0 \<and> sporadics w = (sporadics w0)(s := x) \<and>
     (\<forall>h k. k \<noteq> Replenishing \<longrightarrow> timers_of h w k = (if h = s then b k else timers_of h w0 k))"

lemma one_refl: "sound (globTime w) w \<Longrightarrow> one s w w (sporadics w s) (timers_of s w)"
  by (simp add: one_def)

lemma one_server [simp]: "one s w0 w x b \<Longrightarrow> sporadics w s = x"
  and one_time: "one s w0 w x b \<Longrightarrow> globTime w = globTime w0"
  by (simp_all add: one_def)

lemma one_upd:
  assumes "one s w0 w x b"
  shows "one s w0 (upd_sp s f w) (f x) b"
proof -
  have "sound T (upd_sp s f w) = sound T w" "posted_at e (upd_sp s f w) = posted_at e w" for T e
    by (rule sound_cong; simp add: upd_sp_def)+
  with assms show ?thesis by (simp add: one_def upd_sp_def timers_of_def)
qed

lemma one_drop:
  assumes "one s w0 w x b"
  shows "one s w0 (Event_drop (k, s) w) x (b(k := None))"
proof -
  have "sporadics (Event_drop (k, s) w) = sporadics w" by (simp add: Event_drop_def upd_event_def)
  with assms show ?thesis by (auto simp: one_def drop_sound(1) timers_drop [where T = "globTime w0"])
qed

lemma one_post:
  assumes "one s w0 w x b" and "Event_post (k, s) t d w = Inr w'"
  shows "one s w0 w' x (b(k := Some t))"
proof -
  have "sporadics w' = sporadics w" "globTime w' = globTime w"
    using assms(2) by (auto simp: Event_post_def Event_setTime_def Let_def bindE_eq_Inr upd_event_def split: if_splits prod.splits)
  moreover have "sound (globTime w0) w" using assms(1) by (simp add: one_def)
  note post_sound(1) [OF this assms(2)] timers_post [OF this assms(2)]
  ultimately show ?thesis using assms(1) by (simp add: one_def)
qed

lemma one_vtime:
  assumes "one s w0 w x b" and "with_svtime s f w = Inr w'"
  obtains c where "f (globTime w0) (s_vtime x) = Inr c" and "one s w0 w' (x\<lparr>s_vtime := c\<rparr>) b"
  using assms one_upd [OF assms(1)] by (auto simp: with_svtime_def bindE_eq_Inr one_time)

lemma one_note:
  assumes "one s w0 w x b" and "note_executed s w = Inr w'"
  obtains q where "add_to_back (executed x (globTime w0)) (s_repl_queue x) = Inr q"
    and "one s w0 w' (x\<lparr>s_repl_queue := q\<rparr>) b"
  using assms one_upd [OF assms(1)] by (auto simp: note_executed_def bindE_eq_Inr one_time)

lemma one_repl [simp]: "one s w0 w x (b(Replenishing := t)) \<longleftrightarrow> one s w0 w x b"
  by (simp add: one_def)

lemma one_check: "one s w0 w x b \<Longrightarrow> check_repl s w = Inr w' \<Longrightarrow> one s w0 w' x b"
  using one_post [of s w0 w x b Replenishing] by (auto simp: check_repl_def split: if_splits list.splits)

lemma one_take:
  assumes "one s w0 w x b"
  shows "one s w0 (take_executed s w) (x\<lparr>s_cap := s_cap x - executed x (globTime w0)\<rparr>) b"
  using one_upd [OF assms] by (simp add: take_executed_def one_time [OF assms])

lemma one_status: "one s w0 w x b \<Longrightarrow> one s w0 (set_sstatus s st w) (x\<lparr>s_status := st\<rparr>) b"
  unfolding set_sstatus_def by (rule one_upd)

lemma one_prepare:
  "one s w0 w x b \<Longrightarrow> one s w0 (prepare_replenishment t s w) (x\<lparr>s_repl_queue := s_repl_queue x @ [(t + s_P x, 0)]\<rparr>) b"
  unfolding prepare_replenishment_def by (rule one_upd)

section \<open>The account\<close>

definition amount :: "repl_t list \<Rightarrow> tick" where
  "amount q = sum_list (map snd q)"

definition pending :: "sporadic \<Rightarrow> tick" where
  "pending x = amount (s_repl_queue x) + amount (s_capacity_queue x)"

definition sporadic_total :: "sporadic \<Rightarrow> tick" where
  "sporadic_total x = s_cap x + pending x"

definition nonneg :: "repl_t list \<Rightarrow> bool" where
  "nonneg q \<longleftrightarrow> list_all (\<lambda>r. 0 \<le> snd r) q"

lemma amount_simps [simp]:
  "amount [] = 0" "amount (r # q) = snd r + amount q" "amount (q @ q') = amount q + amount q'"
  and nonneg_simps [simp]:
  "nonneg []" "nonneg (r # q) \<longleftrightarrow> 0 \<le> snd r \<and> nonneg q" "nonneg (q @ q') \<longleftrightarrow> nonneg q \<and> nonneg q'"
  by (simp_all add: amount_def nonneg_def)

lemma amount_nonneg: "nonneg q \<Longrightarrow> 0 \<le> amount q"
  by (induction q) auto

definition sp_ok :: "tick \<Rightarrow> sporadic \<Rightarrow> timer_map \<Rightarrow> bool" where
  "sp_ok T x b \<longleftrightarrow> 0 < s_Q x \<and> 0 \<le> s_cap x \<and> nonneg (s_repl_queue x) \<and> nonneg (s_capacity_queue x) \<and>
     s_Q x \<le> sporadic_total x \<and>
     (if s_status x = EXECUTING then s_last_time x \<le> T \<and> T \<le> s_last_time x + s_cap x \<and> b BandEx = Some (s_last_time x + s_cap x)
      else b BandEx = None) \<and> (b GoingIdle \<noteq> None \<longrightarrow> s_status x = RELEASING)"

lemma add_to_back_amount: "add_to_back u q = Inr q' \<Longrightarrow> amount q' = amount q + u"
  and add_to_back_nonneg: "add_to_back u q = Inr q' \<Longrightarrow> 0 \<le> u \<Longrightarrow> nonneg q \<Longrightarrow> nonneg q'"
  by (induction u q arbitrary: q' rule: add_to_back.induct) (auto simp: bindE_eq_Inr)

text \<open>The server \<open>s\<close> of \<open>w'\<close> is in order and has the total \<open>a\<close>; the others are as in \<open>w\<close>.\<close>

definition account :: "nat \<Rightarrow> sporadic_world \<Rightarrow> sporadic_world \<Rightarrow> tick \<Rightarrow> bool" where
  "account s w w' a \<longleftrightarrow> (\<exists>x b. one s w w' x b \<and> sp_ok (globTime w) x b \<and> sporadic_total x = a)"

lemma accountI: "one s w w' x b \<Longrightarrow> sp_ok (globTime w) x b \<Longrightarrow> sporadic_total x = a \<Longrightarrow> account s w w' a"
  unfolding account_def by blast

text \<open>The executed time moves from the capacity to the last replenishment, and the virtual time stops.\<close>

definition spent :: "tick \<Rightarrow> repl_t list \<Rightarrow> capacity_timer \<Rightarrow> sporadic \<Rightarrow> sporadic" where
  "spent T q c x = x\<lparr>s_cap := s_cap x - executed x T, s_repl_queue := q, s_vtime := c\<rparr>"

definition spends :: "tick \<Rightarrow> sporadic \<Rightarrow> repl_t list \<Rightarrow> bool" where
  "spends T x q \<longleftrightarrow> add_to_back (executed x T) (s_repl_queue x) = Inr q"

lemma spends_facts:
  assumes "sp_ok T x b" and "s_status x = EXECUTING" and "spends T x q"
  shows "nonneg q" and "amount q = amount (s_repl_queue x) + executed x T" and "executed x T \<le> s_cap x"
proof -
  have "0 \<le> executed x T" "nonneg (s_repl_queue x)" using assms(1,2) by (simp_all add: sp_ok_def executed_def)
  then show "nonneg q" "amount q = amount (s_repl_queue x) + executed x T"
    using assms(3) add_to_back_amount add_to_back_nonneg by (auto simp: spends_def)
  show "executed x T \<le> s_cap x" using assms(1,2) by (simp add: sp_ok_def executed_def)
qed

lemma spent_total: "sp_ok T x b \<Longrightarrow> s_status x = EXECUTING \<Longrightarrow> spends T x q \<Longrightarrow>
    sporadic_total (spent T q c x) = sporadic_total x"
  by (simp add: sporadic_total_def spent_def pending_def spends_facts(2))

section \<open>The state changes\<close>

lemma executing_ready_account:
  assumes "sound (globTime w) w" and "sp_ok (globTime w) (sporadics w s) (timers_of s w)"
    and "s_status (sporadics w s) = EXECUTING" and "SS_executing_ready s w = Inr w'"
  shows "account s w w' (sporadic_total (sporadics w s))"
proof -
  let ?x = "sporadics w s" and ?u = "executed (sporadics w s) (globTime w)"
  let ?w1 = "Event_drop (BandEx, s) (take_executed s (set_sstatus s READY w))"
  obtain w2 where w2: "with_svtime s CapacityTimer_stop ?w1 = Inr w2" and w': "note_executed s w2 = Inr w'"
    using assms(4) by (auto simp: SS_executing_ready_def pureE_def bindE_eq_Inr)
  have one: "one s w ?w1 (?x\<lparr>s_status := READY, s_cap := s_cap ?x - ?u\<rparr>) ((timers_of s w)(BandEx := None))"
    using one_drop [OF one_take [OF one_status [OF one_refl [OF assms(1)]]], where k = BandEx] by (simp add: executed_def)
  obtain c where c: "one s w w2 (?x\<lparr>s_status := READY, s_cap := s_cap ?x - ?u, s_vtime := c\<rparr>) ((timers_of s w)(BandEx := None))"
    using one_vtime [OF one w2] by auto
  obtain q where q: "spends (globTime w) ?x q"
    "one s w w' (?x\<lparr>s_status := READY, s_cap := s_cap ?x - ?u, s_vtime := c, s_repl_queue := q\<rparr>) ((timers_of s w)(BandEx := None))"
    using one_note [OF c w'] by (auto simp: executed_def spends_def)
  show ?thesis
    using assms(2,3) spends_facts [OF assms(2,3) q(1)]
    by (intro accountI [OF q(2)]) (auto simp: sp_ok_def sporadic_total_def pending_def)
qed

text \<open>The statements \<open>executing_releasing\<close> and \<open>executing_recharging\<close> have in common.\<close>

lemma burst_ends:
  assumes "one s w0 w (x\<lparr>s_cap := s_cap x - executed x (globTime w0)\<rparr>) b"
    and "steps [note_executed s, check_repl s, with_svtime s CapacityTimer_stop] w = Inr w'"
  obtains q c where "spends (globTime w0) x q" and "one s w0 w' (spent (globTime w0) q c x) b"
proof -
  obtain w1 w2 where w1: "note_executed s w = Inr w1" "check_repl s w1 = Inr w2" "with_svtime s CapacityTimer_stop w2 = Inr w'"
    using assms(2) by (auto simp: bindE_eq_Inr)
  obtain q where q: "spends (globTime w0) x q"
    "one s w0 w1 (x\<lparr>s_cap := s_cap x - executed x (globTime w0), s_repl_queue := q\<rparr>) b"
    using one_note [OF assms(1) w1(1)] by (auto simp: executed_def spends_def)
  then show ?thesis using one_vtime [OF one_check [OF q(2) w1(2)] w1(3)] that by (auto simp: spent_def)
qed

lemma executing_releasing_account:
  assumes "sound (globTime w) w" and "sp_ok (globTime w) (sporadics w s) (timers_of s w)"
    and "s_status (sporadics w s) = EXECUTING" and "SS_executing_releasing s w = Inr w'"
  shows "account s w w' (sporadic_total (sporadics w s))"
proof -
  let ?x = "sporadics w s" and ?w1 = "Event_drop (BandEx, s) (take_executed s w)"
  obtain w2 where w2: "steps [note_executed s, check_repl s, with_svtime s CapacityTimer_stop] ?w1 = Inr w2"
    and w': "w' = set_sstatus s IDLE w2 \<or> (\<exists>v w3. Event_post (GoingIdle, s) v False w2 = Inr w3 \<and> w' = set_sstatus s RELEASING w3)"
    using assms(3,4) by (auto simp: SS_executing_releasing_def pureE_def bindE_eq_Inr Let_def split: if_splits)
  have "one s w ?w1 (?x\<lparr>s_cap := s_cap ?x - executed ?x (globTime w)\<rparr>) ((timers_of s w)(BandEx := None))"
    using one_drop [OF one_take [OF one_refl [OF assms(1)]], where k = BandEx] by simp
  from burst_ends [OF this w2] obtain q c where q: "spends (globTime w) ?x q" "one s w w2 (spent (globTime w) q c ?x) ((timers_of s w)(BandEx := None))" .
  have "timers_of s w GoingIdle = None" using assms(2,3) by (auto simp: sp_ok_def)
  then obtain st b where st: "st \<in> {IDLE, RELEASING}" "one s w w' ((spent (globTime w) q c ?x)\<lparr>s_status := st\<rparr>) b"
      "b BandEx = None" "b GoingIdle \<noteq> None \<longrightarrow> st = RELEASING"
    using w' one_status [OF q(2), of IDLE] one_status [OF one_post [OF q(2), of GoingIdle], of _ _ _ RELEASING] by force
  show ?thesis
    using assms(2,3) spends_facts [OF assms(2,3) q(1)] st(1,3,4)
    by (intro accountI [OF st(2)]) (auto simp: sp_ok_def sporadic_total_def pending_def spent_def)
qed

lemma executing_recharging_account:
  assumes "sound (globTime w) w" and "sp_ok (globTime w) (sporadics w s) (timers_of s w)"
    and "s_status (sporadics w s) = EXECUTING" and "SS_executing_recharging s (Event_drop (BandEx, s) w) = Inr w'"
  shows "account s w w' (sporadic_total (sporadics w s))"
proof -
  let ?x = "sporadics w s" and ?T = "globTime w"
  let ?w1 = "take_executed s (Event_drop (BandEx, s) (Event_drop (BandEx, s) w))"
  obtain w2 where "steps [pureE (\<lambda>w1. take_executed s (Event_drop (BandEx, s) w1)), note_executed s, check_repl s,
        with_svtime s CapacityTimer_stop] (Event_drop (BandEx, s) w) = Inr w2"
    and w': "(case s_capacity_queue (sporadics w2 s) of
       r # q \<Rightarrow> Inr (upd_sp s (\<lambda>x. x\<lparr>s_last_time := globTime w2, s_status := READY\<rparr>)
                 (prepare_replenishment (fst r) s
                   (upd_sp s (\<lambda>x. x\<lparr>s_capacity_queue := q, s_cap := s_cap x + snd r\<rparr>) w2)))
     | [] \<Rightarrow> Inr (set_sstatus s RECHARGING w2)) = (Inr w' :: exc + sporadic_world)"
    using assms(4) unfolding SS_executing_recharging_def bindE_eq_Inr by (elim exE conjE) (rule that)
  then have w2: "steps [note_executed s, check_repl s, with_svtime s CapacityTimer_stop] ?w1 = Inr w2" by (simp add: pureE_def)
  have "one s w ?w1 (?x\<lparr>s_cap := s_cap ?x - executed ?x ?T\<rparr>) ((timers_of s w)(BandEx := None))"
    using one_take [OF one_drop [OF one_drop [OF one_refl [OF assms(1)], where k = BandEx], where k = BandEx]] by simp
  from burst_ends [OF this w2] obtain q c where q: "spends ?T ?x q" "one s w w2 (spent ?T q c ?x) ((timers_of s w)(BandEx := None))" .
  note facts = spends_facts [OF assms(2,3) q(1)]
  have x2: "sporadics w2 s = spent ?T q c ?x" "globTime w2 = ?T" using q(2) by (simp_all add: one_def)
  show ?thesis
  proof (cases "s_capacity_queue ?x")
    case Nil
    then have h: "one s w w' ((spent ?T q c ?x)\<lparr>s_status := RECHARGING\<rparr>) ((timers_of s w)(BandEx := None))"
      using w' x2 one_status [OF q(2), of RECHARGING] by (auto simp: spent_def)
    show ?thesis
      using assms(2,3) facts Nil by (intro accountI [OF h]) (auto simp: sp_ok_def sporadic_total_def pending_def spent_def)
  next
    case (Cons r cq)
    let ?y = "(spent ?T q c ?x)\<lparr>s_capacity_queue := cq, s_cap := s_cap ?x - executed ?x ?T + snd r\<rparr>"
    have h: "one s w w' (?y\<lparr>s_repl_queue := q @ [(fst r + s_P ?x, 0)], s_last_time := ?T, s_status := READY\<rparr>) ((timers_of s w)(BandEx := None))"
      using w' x2 Cons one_upd [OF one_prepare [OF one_upd [OF q(2)]], of "\<lambda>x. x\<lparr>s_last_time := ?T, s_status := READY\<rparr>" "fst r"
          "\<lambda>x. x\<lparr>s_capacity_queue := cq, s_cap := s_cap x + snd r\<rparr>"]
      by (auto simp: spent_def fun_upd_def)
    show ?thesis
      using assms(2,3) facts Cons by (intro accountI [OF h]) (auto simp: sp_ok_def sporadic_total_def pending_def spent_def)
  qed
qed

text \<open>An idle server is filled up.\<close>

lemma idle_ready_account:
  assumes "sound (globTime w) w" and "sp_ok (globTime w) (sporadics w s) (timers_of s w)"
    and "SS_idle_ready s w = Inr w'"
  shows "account s w w' (s_Q (sporadics w s) + pending (sporadics w s))"
proof -
  let ?x = "sporadics w s" and ?w1 = "upd_sp s (\<lambda>x. x\<lparr>s_status := READY, s_cap := s_Q x\<rparr>) w"
  obtain w2 where w2: "with_svtime s (\<lambda>t. CapacityTimer_set_value (of_int t)) ?w1 = Inr w2"
    and w': "w' = prepare_replenishment (globTime w2) s w2" and idle: "s_status ?x = IDLE"
    using assms(3) by (auto simp: SS_idle_ready_def bindE_eq_Inr split: if_splits)
  obtain c where "one s w w2 (?x\<lparr>s_status := READY, s_cap := s_Q ?x, s_vtime := c\<rparr>) (timers_of s w)"
    using one_vtime [OF one_upd [OF one_refl [OF assms(1)]] w2] by auto
  note h = one_prepare [OF this, of "globTime w2"]
  show ?thesis
    unfolding w' using idle assms(2)
    by (intro accountI [OF h]) (auto simp: sp_ok_def sporadic_total_def pending_def amount_nonneg)
qed

lemma releasing_ready_account:
  assumes "sound (globTime w) w" and "sp_ok (globTime w) (sporadics w s) (timers_of s w)"
    and "s_status (sporadics w s) \<noteq> EXECUTING"
  shows "account s w (SS_releasing_ready s w) (sporadic_total (sporadics w s))"
  unfolding SS_releasing_ready_def Let_def
  by (rule accountI [OF one_drop [OF one_prepare [OF one_status [OF one_refl [OF assms(1)]]]]])
    (use assms(2,3) in \<open>auto simp: sp_ok_def sporadic_total_def pending_def\<close>)

lemma ready_executing_account:
  assumes "sound (globTime w) w" and "sp_ok (globTime w) (sporadics w s) (timers_of s w)"
    and "s_status (sporadics w s) = READY" and "SS_ready_executing s w = Inr w'"
  shows "account s w w' (sporadic_total (sporadics w s))"
proof -
  let ?x = "sporadics w s" and ?w1 = "upd_sp s (\<lambda>x. x\<lparr>s_status := EXECUTING, s_last_time := globTime w\<rparr>) w"
  obtain w2 k where w2: "with_svtime s k ?w1 = Inr w2"
    and w': "Event_post (BandEx, s) (globTime w + s_cap ?x) False w2 = Inr w'"
    using assms(4) by (auto simp: SS_ready_executing_def Let_def bindE_eq_Inr upd_sp_def split: if_splits)
  obtain c where "one s w w2 (?x\<lparr>s_status := EXECUTING, s_last_time := globTime w, s_vtime := c\<rparr>) (timers_of s w)"
    using one_vtime [OF one_upd [OF one_refl [OF assms(1)]] w2] by auto
  from one_post [OF this w'] assms(2,3) show ?thesis
    by (elim accountI) (auto simp: sp_ok_def sporadic_total_def pending_def)
qed

lemma replenishment_account:
  assumes "first \<longrightarrow> s_status (sporadics w s) \<notin> {IDLE, RELEASING}" and "sound (globTime w) w" and "sp_ok (globTime w) (sporadics w s) (timers_of s w)"
    and "SS_onReplenishment s first w = Inr (a, w')"
  shows "account s w w' (sporadic_total (sporadics w s))"
proof -
  let ?x = "sporadics w s" and ?b = "timers_of s w"
  let ?w1 = "Event_drop (Replenishing, s) w"
  have one: "one s w ?w1 ?x ?b" using one_drop [OF one_refl [OF assms(2)], where k = Replenishing] by simp
  have x1: "sporadics ?w1 s = ?x" using one by simp
  obtain r q where rq: "s_repl_queue ?x = r # q"
    using assms(4) x1 by (cases "s_repl_queue ?x") (auto simp: SS_onReplenishment_def Let_def split: if_splits)
  show ?thesis
  proof (cases "s_status ?x = READY \<or> s_status ?x = EXECUTING")
    case True
    let ?w2 = "upd_sp s (\<lambda>x. x\<lparr>s_repl_queue := q, s_capacity_queue := s_capacity_queue ?x @ [r]\<rparr>) ?w1"
    have "w' = ?w2 \<or> check_repl s ?w2 = Inr w'"
      using assms(4) True rq x1
      by (auto simp: SS_onReplenishment_def Let_def bindE_eq_Inr upd_sp_def split: if_splits)
    then have h: "one s w w' (?x\<lparr>s_repl_queue := q, s_capacity_queue := s_capacity_queue ?x @ [r]\<rparr>) ?b"
      using one_upd [OF one] one_check [OF one_upd [OF one]] by auto
    show ?thesis
      using assms(3) rq by (intro accountI [OF h]) (auto simp: sp_ok_def sporadic_total_def pending_def)
  next
    case False
    let ?y = "?x\<lparr>s_cap := s_cap ?x + snd r, s_repl_queue := q\<rparr>"
    obtain w2 where w2: "check_repl s (upd_sp s (\<lambda>x. x\<lparr>s_cap := s_cap x + snd r, s_repl_queue := q\<rparr>) ?w1) = Inr w2"
      and w': "w' = SS_recharging_ready s w2 \<and> first \<or> w' \<in> {upd_sp s (\<lambda>x. x\<lparr>s_status := RELEASING, s_currExe := None\<rparr>) w2, w2}"
      using assms(4) False rq x1
      by (cases "s_status ?x") (auto simp: SS_onReplenishment_def Let_def bindE_eq_Inr split: if_splits)
    have h: "one s w w2 ?y ?b" using one_check [OF one_upd [OF one] w2] by simp
    have k: "one s w (SS_recharging_ready s w2)
        (?y\<lparr>s_status := READY, s_repl_queue := q @ [(globTime (set_sstatus s READY w2) + s_P ?x, 0)]\<rparr>) ?b"
      using one_prepare [OF one_status [OF h]] by (simp add: SS_recharging_ready_def Let_def)
    have r: "one s w (upd_sp s (\<lambda>x. x\<lparr>s_status := RELEASING, s_currExe := None\<rparr>) w2)
        (?y\<lparr>s_status := RELEASING, s_currExe := None\<rparr>) ?b"
      using one_upd [OF h, of "\<lambda>x. x\<lparr>s_status := RELEASING, s_currExe := None\<rparr>"] by simp
    show ?thesis
      using w' assms(1,3) False rq accountI [OF h] accountI [OF k] accountI [OF r]
      by (auto simp: sp_ok_def sporadic_total_def pending_def add.assoc)
  qed
qed

lemma onIdle_account:
  assumes "sound (globTime w) w" and "sp_ok (globTime w) (sporadics w s) (timers_of s w)"
    and "s_status (sporadics w s) = RELEASING"
  shows "account s w (SS_onIdle s (Event_drop (GoingIdle, s) w)) (sporadic_total (sporadics w s))"
  unfolding SS_onIdle_def SS_releasing_idle_def
  by (rule accountI [OF one_status [OF one_drop [OF one_refl [OF assms(1)]]]])
    (use assms(2,3) in \<open>auto simp: sp_ok_def sporadic_total_def pending_def\<close>)

section \<open>changeBudget\<close>

lemma reduce_queue_facts:
  assumes "reduce_queue d q = (d', q')" and "0 \<le> d" and "nonneg q"
  shows "0 \<le> d' \<and> nonneg q' \<and> amount q' = amount q - (d - d') \<and> (d' = 0 \<or> amount q' = 0) \<and> (stops_inside d q \<longrightarrow> d' = 0)"
  using assms
proof (induction d q arbitrary: d' q' rule: reduce_queue.induct)
  case (2 d t b q)
  show ?case
  proof (cases "d > 0")
    case True
    obtain e p where r: "reduce_queue (d - min d b) q = (e, p)" by fastforce
    have "0 \<le> e \<and> nonneg p \<and> amount p = amount q - (d - min d b - e) \<and> (e = 0 \<or> amount p = 0) \<and>
        (stops_inside (d - min d b) q \<longrightarrow> e = 0)"
      using 2(1) [OF True refl r] 2(3,4) by auto
    moreover have "amount q = 0 \<Longrightarrow> e \<noteq> 0 \<Longrightarrow> b \<le> d" using calculation 2(4) amount_nonneg [of p] by (auto simp: min_def split: if_splits)
    ultimately show ?thesis using True r 2(2-4) amount_nonneg [of p] amount_nonneg [of q] by (auto simp: min_def split: if_splits)
  qed (use 2(2-4) in simp)
qed simp

lemma pop_empty_account:
  assumes "one s w0 w x b" and "pop_empty s q w = Inr w'"
  shows "\<exists>p. one s w0 w' (x\<lparr>s_repl_queue := p\<rparr>) b \<and> amount p = amount q \<and> (nonneg q \<longrightarrow> nonneg p)"
  using assms
proof (induction s q w rule: pop_empty.induct)
  case (1 s w)
  then show ?case using one_upd [OF 1(1), of "\<lambda>x. x\<lparr>s_repl_queue := []\<rparr>"] by (intro exI [of _ "[]"]) auto
next
  case (2 s t c q w)
  show ?case
  proof (cases "c = 0")
    case False
    then show ?thesis
      using 2(3) one_upd [OF 2(2), of "\<lambda>x. x\<lparr>s_repl_queue := (t, c) # q\<rparr>"] by (intro exI [of _ "(t, c) # q"]) auto
  next
    case True
    let ?f = "if Event_isInQueue (Replenishing, s) w then
        (case q of [] \<Rightarrow> Inl (NullPointer ''repl_queue.front()'')
         | r # _ \<Rightarrow> Event_post (Replenishing, s) (fst r) False (Event_drop (Replenishing, s) w)) else Inr w"
    obtain v where v: "?f = Inr v" "pop_empty s q v = Inr w'"
      using 2(3) True by (simp add: bindE_eq_Inr) blast
    have "one s w0 v x b"
      using v(1) 2(2) one_post [OF one_drop [OF 2(2), of Replenishing], of Replenishing] by (auto split: if_splits list.splits)
    from 2(1) [OF True v(1) this v(2)] show ?thesis using True by simp
  qed
qed

text \<open>\<open>SS_reduce\<close> takes away exactly the difference, and its assertion does not fail.\<close>

lemma reduce_account:
  assumes "one s w0 w x b" and "SS_reduce s n w = Inr (ret, w')" and "0 < n" and "n < s_Q x"
    and "0 \<le> s_cap x" and "nonneg (s_repl_queue x)" and "nonneg (s_capacity_queue x)"
  shows "\<exists>c cq rq. one s w0 w' (x\<lparr>s_cap := c, s_capacity_queue := cq, s_repl_queue := rq, s_Q := n\<rparr>) b \<and>
    0 \<le> c \<and> c \<le> s_cap x \<and> nonneg cq \<and> nonneg rq \<and> c + amount cq + amount rq = sporadic_total x - (s_Q x - n)"
proof -
  let ?y = "min (s_Q x - n) (s_cap x)"
  obtain d1 cq where cq: "reduce_queue (s_Q x - n - ?y) (s_capacity_queue x) = (d1, cq)" by fastforce
  obtain d2 rq where rq: "reduce_queue d1 (s_repl_queue x) = (d2, rq)" by fastforce
  note f1 = reduce_queue_facts [OF cq _ assms(7)]
  have f1': "0 \<le> d1 \<and> nonneg cq \<and> amount cq = amount (s_capacity_queue x) - (s_Q x - n - ?y - d1)" using f1 assms(4) by simp
  then have f2: "nonneg rq \<and> amount rq = amount (s_repl_queue x) - (d1 - d2) \<and> (stops_inside d1 (s_repl_queue x) \<longrightarrow> d2 = 0)"
    using reduce_queue_facts [OF rq _ assms(6)] by simp
  have x: "sporadics w s = x" using assms(1) by simp
  have r: "w' = upd_sp s (\<lambda>x. x\<lparr>s_cap := s_cap x - ?y, s_capacity_queue := cq, s_repl_queue := rq, s_Q := n\<rparr>) w"
    "d2 = 0 \<or> stops_inside d1 (s_repl_queue x)"
    using assms(2) cq rq by (auto simp: SS_reduce_def x Let_def upd_sp_def split: list.splits if_splits)
  then have d2: "d2 = 0" using f2 by blast
  have "one s w0 w' (x\<lparr>s_cap := s_cap x - ?y, s_capacity_queue := cq, s_repl_queue := rq, s_Q := n\<rparr>) b"
    using one_upd [OF assms(1), where f = "\<lambda>x. x\<lparr>s_cap := s_cap x - ?y, s_capacity_queue := cq, s_repl_queue := rq, s_Q := n\<rparr>"] r(1)
    by simp
  moreover have "0 \<le> s_cap x - ?y" "s_cap x - ?y \<le> s_cap x" using assms(4,5) by simp_all
  moreover have "s_cap x - ?y + amount cq + amount rq = sporadic_total x - (s_Q x - n)"
    using f1' f2 d2 by (simp add: sporadic_total_def pending_def)
  ultimately show ?thesis using f1' f2 by blast
qed

lemma reduce_asserts_not:
  assumes "sporadics w s = x" and "s_repl_queue x \<noteq> []" and "0 < n" and "n < s_Q x" and "s_Q x \<le> sporadic_total x"
    and "0 \<le> s_cap x" and "nonneg (s_repl_queue x)" and "nonneg (s_capacity_queue x)"
  shows "\<exists>ret w'. SS_reduce s n w = Inr (ret, w')"
proof -
  let ?y = "min (s_Q x - n) (s_cap x)"
  obtain d1 cq where cq: "reduce_queue (s_Q x - n - ?y) (s_capacity_queue x) = (d1, cq)" by fastforce
  obtain d2 rq where rq: "reduce_queue d1 (s_repl_queue x) = (d2, rq)" by fastforce
  have f1: "0 \<le> d1 \<and> (d1 = 0 \<or> d1 = s_Q x - n - ?y - amount (s_capacity_queue x))"
    using reduce_queue_facts [OF cq _ assms(8)] assms(4) by auto
  then have "d2 = 0 \<or> d2 = d1 - amount (s_repl_queue x)" using reduce_queue_facts [OF rq _ assms(7)] by auto
  moreover have "0 \<le> d2" using reduce_queue_facts [OF rq _ assms(7)] f1 by auto
  ultimately have "d2 = 0"
    using f1 assms(3,5) amount_nonneg [OF assms(7)] amount_nonneg [OF assms(8)]
    by (auto simp: sporadic_total_def pending_def min_def split: if_splits)
  then show ?thesis using assms(1,2) cq rq by (cases "s_repl_queue x") (simp_all add: SS_reduce_def Let_def)
qed

lemma increase_account:
  assumes "sound (globTime w) w" and "sp_ok (globTime w) (sporadics w s) (timers_of s w)"
    and "s_Q (sporadics w s) < n" and "SS_increase s n w = Inr w'"
  shows "account s w w' (sporadic_total (sporadics w s) + (n - s_Q (sporadics w s)))" and "s_Q (sporadics w' s) = n"
proof -
  let ?x = "sporadics w s" and ?T = "globTime w"
  let ?y = "?x\<lparr>s_cap := s_cap ?x + (n - s_Q ?x)\<rparr>" and ?v = "upd_sp s (\<lambda>x. x\<lparr>s_cap := s_cap x + (n - s_Q x)\<rparr>) w"
  have one: "one s w ?v ?y (timers_of s w)" using one_upd [OF one_refl [OF assms(1)], where f = "\<lambda>x. x\<lparr>s_cap := s_cap x + (n - s_Q x)\<rparr>"] by simp
  have "account s w w' (sporadic_total ?x + (n - s_Q ?x)) \<and> s_Q (sporadics w' s) = n"
  proof (cases "s_status ?x = EXECUTING")
    case False
    then have w': "w' = upd_sp s (\<lambda>x. x\<lparr>s_Q := n\<rparr>) ?v" using assms(4) by (auto simp: SS_increase_def upd_sp_def)
    have h: "one s w w' (?y\<lparr>s_Q := n\<rparr>) (timers_of s w)" unfolding w' by (rule one_upd [OF one])
    have "account s w w' (sporadic_total ?x + (n - s_Q ?x))"
      using False assms(2,3) by (intro accountI [OF h]) (auto simp: sp_ok_def sporadic_total_def pending_def)
    then show ?thesis using h by simp
  next
    case True
    obtain w1 w2 w3 w4 k where w1: "note_executed s (take_executed s ?v) = Inr w1"
      and w2: "with_svtime s CapacityTimer_stop (Event_drop (BandEx, s) w1) = Inr w2"
      and w3: "Event_post (BandEx, s) (globTime w2 + s_cap (sporadics w2 s)) False (upd_sp s (\<lambda>x. x\<lparr>s_last_time := globTime w2\<rparr>) w2) = Inr w3"
      and w4: "with_svtime s k w3 = Inr w4" and w': "w' = upd_sp s (\<lambda>x. x\<lparr>s_Q := n\<rparr>) w4"
      using assms(4) True by (auto simp: SS_increase_def upd_sp_def pureE_def bindE_eq_Inr)
    have y: "executed ?y ?T = executed ?x ?T" "s_repl_queue ?y = s_repl_queue ?x" by (simp_all add: executed_def)
    obtain q where q: "spends ?T ?x q"
      and o1: "one s w w1 (?y\<lparr>s_cap := s_cap ?x + (n - s_Q ?x) - executed ?x ?T, s_repl_queue := q\<rparr>) (timers_of s w)"
      using one_note [OF one_take [OF one] w1] by (auto simp: executed_def spends_def)
    obtain c where o2: "one s w w2 (?y\<lparr>s_cap := s_cap ?x + (n - s_Q ?x) - executed ?x ?T, s_repl_queue := q, s_vtime := c\<rparr>) ((timers_of s w)(BandEx := None))"
      using one_vtime [OF one_drop [OF o1, where k = BandEx] w2] by auto
    have x2: "globTime w2 = ?T" "s_cap (sporadics w2 s) = s_cap ?x + (n - s_Q ?x) - executed ?x ?T" using o2 by (simp_all add: one_def)
    obtain d where o4: "one s w w4 (?y\<lparr>s_cap := s_cap ?x + (n - s_Q ?x) - executed ?x ?T, s_repl_queue := q, s_last_time := ?T, s_vtime := d\<rparr>)
        ((timers_of s w)(BandEx := Some (?T + (s_cap ?x + (n - s_Q ?x) - executed ?x ?T))))"
      using one_vtime [OF one_post [OF one_upd [OF o2] w3] w4] x2 by auto
    have h: "one s w w' (?y\<lparr>s_cap := s_cap ?x + (n - s_Q ?x) - executed ?x ?T, s_repl_queue := q, s_last_time := ?T, s_vtime := d, s_Q := n\<rparr>)
        ((timers_of s w)(BandEx := Some (?T + (s_cap ?x + (n - s_Q ?x) - executed ?x ?T))))"
      unfolding w' using one_upd [OF o4, of "\<lambda>x. x\<lparr>s_Q := n\<rparr>"] by simp
    have "account s w w' (sporadic_total ?x + (n - s_Q ?x))"
      using True assms(2,3) spends_facts [OF assms(2) True q]
      by (intro accountI [OF h]) (auto simp: sp_ok_def sporadic_total_def pending_def)
    then show ?thesis using h by simp
  qed
  then show "account s w w' (sporadic_total ?x + (n - s_Q ?x))" "s_Q (sporadics w' s) = n" by simp_all
qed

lemma drop_empty: "amount (dropWhile (\<lambda>r. snd r = 0) q) = amount q" "nonneg q \<Longrightarrow> nonneg (dropWhile (\<lambda>r. snd r = 0) q)"
  by (induction q) auto

text \<open>The state when the decrement begins: what a running server executed is accounted for.\<close>

lemma decrease_begins:
  assumes "sound (globTime w) w" and "sp_ok (globTime w) (sporadics w s) (timers_of s w)"
    and "(if s_status (sporadics w s) = EXECUTING then
           steps [pureE (take_executed s), note_executed s,
                  pureE (\<lambda>v. Event_drop (BandEx, s) (upd_sp s (\<lambda>x. x\<lparr>s_last_time := globTime v\<rparr>) v)),
                  with_svtime s CapacityTimer_stop] w
          else Inr w) = Inr w1"
  obtains x where "one s w w1 x ((timers_of s w)(BandEx := None))" and "s_status x = s_status (sporadics w s)" and "s_Q x = s_Q (sporadics w s)"
    and "sporadic_total x = sporadic_total (sporadics w s)" and "0 \<le> s_cap x" and "nonneg (s_repl_queue x)"
    and "nonneg (s_capacity_queue x)" and "s_status x = EXECUTING \<longrightarrow> s_last_time x = globTime w"
proof (cases "s_status (sporadics w s) = EXECUTING")
  case False
  then have same: "w1 = w" "(timers_of s w)(BandEx := None) = timers_of s w" using assms(2,3) by (simp_all add: sp_ok_def fun_upd_idem)
  have h: "one s w w1 (sporadics w s) ((timers_of s w)(BandEx := None))" unfolding same by (rule one_refl [OF assms(1)])
  have "0 \<le> s_cap (sporadics w s)" "nonneg (s_repl_queue (sporadics w s))" "nonneg (s_capacity_queue (sporadics w s))"
    using assms(2) by (simp_all add: sp_ok_def)
  then show ?thesis using False by (intro that [OF h refl refl refl]) simp_all
next
  case True
  let ?x = "sporadics w s" and ?T = "globTime w"
  obtain w2 where w2: "note_executed s (take_executed s w) = Inr w2"
    and w1: "with_svtime s CapacityTimer_stop (Event_drop (BandEx, s) (upd_sp s (\<lambda>x. x\<lparr>s_last_time := globTime w2\<rparr>) w2)) = Inr w1"
    using assms(3) True by (auto simp: pureE_def bindE_eq_Inr)
  obtain q where q: "spends ?T ?x q" and o2: "one s w w2 (?x\<lparr>s_cap := s_cap ?x - executed ?x ?T, s_repl_queue := q\<rparr>) (timers_of s w)"
    using one_note [OF one_take [OF one_refl [OF assms(1)]] w2] by (auto simp: executed_def spends_def)
  obtain c where o1: "one s w w1 (?x\<lparr>s_cap := s_cap ?x - executed ?x ?T, s_repl_queue := q, s_last_time := ?T, s_vtime := c\<rparr>) ((timers_of s w)(BandEx := None))"
    using one_vtime [OF one_drop [OF one_upd [OF o2], where k = BandEx] w1] o2 by (auto simp: one_time)
  show ?thesis
    using True assms(2) spends_facts [OF assms(2) True q]
    by (intro that [OF o1]) (auto simp: sp_ok_def sporadic_total_def pending_def)
qed

lemma decrease_account:
  assumes "sound (globTime w) w" and "sp_ok (globTime w) (sporadics w s) (timers_of s w)"
    and "0 < n" and "n < s_Q (sporadics w s)" and "SS_decrease s n w = Inr (ret, w')"
  shows "account s w w' (sporadic_total (sporadics w s) + (n - s_Q (sporadics w s)))" and "s_Q (sporadics w' s) = n"
proof -
  let ?x = "sporadics w s" and ?T = "globTime w"
  obtain w1 w2 w4 where w1: "(if s_status ?x = EXECUTING then
           steps [pureE (take_executed s), note_executed s,
                  pureE (\<lambda>v. Event_drop (BandEx, s) (upd_sp s (\<lambda>x. x\<lparr>s_last_time := globTime v\<rparr>) v)),
                  with_svtime s CapacityTimer_stop] w
          else Inr w) = Inr w1"
    and w2: "SS_reduce s n w1 = Inr (ret, w2)"
    and w4: "pop_empty s (s_repl_queue (sporadics w2 s))
       (upd_sp s (\<lambda>x. x\<lparr>s_capacity_queue := dropWhile (\<lambda>r. snd r = 0) (s_capacity_queue x)\<rparr>) w2) = Inr w4"
    and w': "(if s_status (sporadics w4 s) = EXECUTING then
              steps [(\<lambda>v. with_svtime s (\<lambda>t. CapacityTimer_start t
                        (of_int (s_P (sporadics v s)) / of_int (s_Q (sporadics v s)))) v),
                     (\<lambda>v. let x = sporadics v s in
                        if s_cap x = 0 then Event_post (BandEx, s) (globTime v) False (Event_drop (BandEx, s) v)
                        else Event_post (BandEx, s) (s_last_time x + s_cap x) False v)] w4
            else Inr w4) = Inr w'"
    using assms(5) unfolding SS_decrease_def bindE_eq_Inr Let_def
    by (fastforce simp: bindE_eq_Inr upd_sp_def simp del: steps.simps)
  obtain x where x: "one s w w1 x ((timers_of s w)(BandEx := None))" "s_status x = s_status ?x" "s_Q x = s_Q ?x" "sporadic_total x = sporadic_total ?x"
    "0 \<le> s_cap x" "nonneg (s_repl_queue x)" "nonneg (s_capacity_queue x)" "s_status x = EXECUTING \<longrightarrow> s_last_time x = ?T"
    using decrease_begins [OF assms(1,2) w1] .
  obtain c cq rq where y: "one s w w2 (x\<lparr>s_cap := c, s_capacity_queue := cq, s_repl_queue := rq, s_Q := n\<rparr>) ((timers_of s w)(BandEx := None))"
    "0 \<le> c" "nonneg cq" "nonneg rq" "c + amount cq + amount rq = sporadic_total ?x - (s_Q ?x - n)"
    using reduce_account [OF x(1) w2 assms(3)] assms(4) x by auto
  let ?y = "x\<lparr>s_cap := c, s_repl_queue := rq, s_Q := n, s_capacity_queue := dropWhile (\<lambda>r. snd r = 0) cq\<rparr>"
  have "one s w (upd_sp s (\<lambda>x. x\<lparr>s_capacity_queue := dropWhile (\<lambda>r. snd r = 0) (s_capacity_queue x)\<rparr>) w2) ?y ((timers_of s w)(BandEx := None))"
    using one_upd [OF y(1), where f = "\<lambda>x. x\<lparr>s_capacity_queue := dropWhile (\<lambda>r. snd r = 0) (s_capacity_queue x)\<rparr>"] by simp
  then obtain p where p: "one s w w4 (?y\<lparr>s_repl_queue := p\<rparr>) ((timers_of s w)(BandEx := None))" "amount p = amount rq" "nonneg p"
    using pop_empty_account [OF _ w4] y(1,4) by fastforce
  have good: "sp_ok ?T (?y\<lparr>s_repl_queue := p, s_vtime := v\<rparr>) ((timers_of s w)(BandEx := if s_status ?x = EXECUTING then Some (?T + c) else None))"
    "sporadic_total (?y\<lparr>s_repl_queue := p, s_vtime := v\<rparr>) = sporadic_total ?x + (n - s_Q ?x)" for v
    using assms(2,3) x(2,8) y p drop_empty [of cq] by (auto simp: sp_ok_def sporadic_total_def pending_def)
  have "\<exists>v. one s w w' (?y\<lparr>s_repl_queue := p, s_vtime := v\<rparr>) ((timers_of s w)(BandEx := if s_status ?x = EXECUTING then Some (?T + c) else None))"
  proof (cases "s_status ?x = EXECUTING")
    case False
    then have "w' = w4" using w' p(1) x(2) by simp
    then show ?thesis using p(1) False by (intro exI [of _ "s_vtime x"]) simp
  next
    case True
    obtain w5 k where w5: "with_svtime s k w4 = Inr w5"
      and w6: "(let x = sporadics w5 s in
                if s_cap x = 0 then Event_post (BandEx, s) (globTime w5) False (Event_drop (BandEx, s) w5)
                else Event_post (BandEx, s) (s_last_time x + s_cap x) False w5) = Inr w'"
      using w' True p(1) x(2) by (auto simp: bindE_eq_Inr)
    obtain v where v: "one s w w5 (?y\<lparr>s_repl_queue := p, s_vtime := v\<rparr>) ((timers_of s w)(BandEx := None))" using one_vtime [OF p(1) w5] by auto
    then have "sporadics w5 s = ?y\<lparr>s_repl_queue := p, s_vtime := v\<rparr>" "globTime w5 = ?T" by (simp_all add: one_def)
    then show ?thesis
      using w6 True x(2,8) one_post [OF v, of BandEx] one_post [OF one_drop [OF v, where k = BandEx], of BandEx]
      by (intro exI [of _ v]) (auto simp: Let_def split: if_splits)
  qed
  then obtain v where v: "one s w w' (?y\<lparr>s_repl_queue := p, s_vtime := v\<rparr>) ((timers_of s w)(BandEx := if s_status ?x = EXECUTING then Some (?T + c) else None))"
    by blast
  show "account s w w' (sporadic_total ?x + (n - s_Q ?x))" by (rule accountI [OF v good])
  show "s_Q (sporadics w' s) = n" using v by simp
qed

lemma changeBudget_account:
  assumes "sound (globTime w) w" and "sp_ok (globTime w) (sporadics w s) (timers_of s w)"
    and "0 < n" and "SS_changeBudget s n w = Inr (ret, w')"
  shows "account s w w' (sporadic_total (sporadics w s) + (n - s_Q (sporadics w s)))" and "s_Q (sporadics w' s) = n"
proof -
  consider "s_Q (sporadics w s) < n" "SS_increase s n w = Inr w'" | "s_Q (sporadics w s) = n" "w' = w"
    | "n < s_Q (sporadics w s)" "SS_decrease s n w = Inr (ret, w')"
    using assms(3,4) by (auto simp: SS_changeBudget_def bindE_eq_Inr split: if_splits)
  then have "account s w w' (sporadic_total (sporadics w s) + (n - s_Q (sporadics w s))) \<and> s_Q (sporadics w' s) = n"
  proof cases
    case 1
    then show ?thesis using increase_account [OF assms(1,2)] by blast
  next
    case 2
    then show ?thesis using accountI [OF one_refl [OF assms(1)] assms(2) refl] by simp
  next
    case 3
    then show ?thesis using decrease_account [OF assms(1,2,3)] by blast
  qed
  then show "account s w w' (sporadic_total (sporadics w s) + (n - s_Q (sporadics w s)))" "s_Q (sporadics w' s) = n" by simp_all
qed

section \<open>Reachable states\<close>

definition sporadic_inv :: "sporadic_world \<Rightarrow> bool" where
  "sporadic_inv w \<longleftrightarrow> sound (globTime w) w \<and> (\<forall>s. sp_ok (globTime w) (sporadics w s) (timers_of s w))"

lemma inv_account:
  assumes "sporadic_inv w" and "account s w w' a"
  shows "sporadic_inv w'" and "sporadic_total (sporadics w' s) = a" and "\<And>h. h \<noteq> s \<Longrightarrow> sporadics w' h = sporadics w h"
proof -
  obtain x b where x: "one s w w' x b" "sp_ok (globTime w) x b" "sporadic_total x = a" using assms(2) by (auto simp: account_def)
  have "sp_ok (globTime w) (sporadics w' h) (timers_of h w')" for h
  proof -
    have "sp_ok (globTime w) (sporadics w h) (timers_of h w)" using assms(1) by (simp add: sporadic_inv_def)
    then show ?thesis using x by (cases "h = s") (simp_all add: one_def sp_ok_def)
  qed
  then show "sporadic_inv w'" using x(1) by (simp add: sporadic_inv_def one_def)
  show "sporadic_total (sporadics w' s) = a" "\<And>h. h \<noteq> s \<Longrightarrow> sporadics w' h = sporadics w h"
    using x by (simp_all add: one_def)
qed

text \<open>The servers are constructed, with a positive budget, and begin a run.\<close>

definition sporadic_start :: "sporadic_world \<Rightarrow> bool" where
  "sporadic_start w \<longleftrightarrow> sound (globTime w) w \<and> eventQueue w = [] \<and>
     (\<forall>s. \<exists>q p. 0 < q \<and> 0 < p \<and> sporadics w s = (SporadicServer_ctor q p)\<lparr>s_cap := q\<rparr>)"

inductive sporadic_reach :: "sporadic_world \<Rightarrow> bool" where
  start: "sporadic_start w \<Longrightarrow> sporadic_reach w"
| call: "sporadic_reach w \<Longrightarrow> sporadic_call_ok c w \<Longrightarrow> sporadic_call c w = Inr w' \<Longrightarrow> sporadic_reach w'"

text \<open>What a call does to the total of a server.\<close>

fun new_total :: "server_call \<Rightarrow> nat \<Rightarrow> sporadic_world \<Rightarrow> tick" where
  "new_total (Arrive s) h w =
    (if h = s \<and> s_status (sporadics w h) = IDLE then s_Q (sporadics w h) + pending (sporadics w h)
     else sporadic_total (sporadics w h))"
| "new_total (Budget s n) h w =
    (if h = s \<and> n > 0 then sporadic_total (sporadics w h) + (n - s_Q (sporadics w h)) else sporadic_total (sporadics w h))"
| "new_total _ h w = sporadic_total (sporadics w h)"

lemma sporadic_call_inv:
  assumes "sporadic_inv w" and "sporadic_call_ok c w" and "sporadic_call c w = Inr w'"
  shows "sporadic_inv w' \<and> (\<forall>h. sporadic_total (sporadics w' h) = new_total c h w)"
proof -
  have snd: "sound (globTime w) w" and ok: "\<And>s. sp_ok (globTime w) (sporadics w s) (timers_of s w)"
    using assms(1) by (simp_all add: sporadic_inv_def)
  have same: "sporadic_inv w \<and> (\<forall>h. sporadic_total (sporadics w h) = sporadic_total (sporadics w h))" using assms(1) by simp
  have acc: ?thesis if "account s w w' (new_total c s w)" "\<And>h. h \<noteq> s \<Longrightarrow> new_total c h w = sporadic_total (sporadics w h)" for s
    using inv_account [OF assms(1) that(1)] that(2) by metis
  show ?thesis
  proof (cases c)
    case (Arrive s)
    show ?thesis
    proof (cases "s_status (sporadics w s)")
      case IDLE
      then show ?thesis using idle_ready_account [OF snd ok, of s w'] assms(3) Arrive by (intro acc [of s]) simp_all
    next
      case RELEASING
      then show ?thesis using releasing_ready_account [OF snd ok, of s] assms(3) Arrive by (intro acc [of s]) auto
    qed (use same assms(3) Arrive in auto)
  next
    case (Schedule s)
    then show ?thesis using ready_executing_account [OF snd ok, of s w'] assms by (intro acc [of s]) simp_all
  next
    case (Deschedule s)
    show ?thesis
    proof (cases "s_status (sporadics w s) = EXECUTING")
      case True
      then show ?thesis using executing_ready_account [OF snd ok, of s w'] assms(3) Deschedule by (intro acc [of s]) simp_all
    qed (use same assms(3) Deschedule in auto)
  next
    case (Exhaust s)
    then show ?thesis using executing_recharging_account [OF snd ok, of s w'] assms by (intro acc [of s]) simp_all
  next
    case (NoWork s)
    then show ?thesis using executing_releasing_account [OF snd ok, of s w'] assms by (intro acc [of s]) simp_all
  next
    case (Recharge s work)
    then show ?thesis using replenishment_account [OF _ snd ok, of work s] assms(2,3) by (intro acc [of s]) (auto simp: bindE_eq_Inr)
  next
    case (GoIdle s)
    have "s_status (sporadics w s) = RELEASING" using ok [of s] assms(2) GoIdle by (auto simp: sp_ok_def due_timer)
    then show ?thesis using onIdle_account [OF snd ok, of s] assms(3) GoIdle by (intro acc [of s]) auto
  next
    case (Budget s n)
    show ?thesis
    proof (cases "0 < n")
      case True
      then show ?thesis using changeBudget_account [OF snd ok True, of s] assms(3) Budget
        by (intro acc [of s]) (auto simp: bindE_eq_Inr)
    next
      case False
      then have "w' = w" using assms(3) Budget ok [of s] by (auto simp: bindE_eq_Inr SS_changeBudget_def sp_ok_def split: if_splits)
      then show ?thesis using False Budget assms(1) by simp
    qed
  next
    case (Pass t)
    have w': "w' = Simulation_setTime t w" and t: "globTime w \<le> t" "\<forall>e\<in>set (eventQueue w). t \<le> ev_time (evs w e)"
      using assms(2,3) Pass by simp_all
    note adv = pass_sound [OF snd t]
    have "sp_ok t (sporadics w s) (timers_of s w)" for s
    proof -
      have "t \<le> b" if "timers_of s w BandEx = Some b" for b
        using t(2) that by (auto simp: timers_of_def posted_at_def split: if_splits)
      then show ?thesis using ok [of s] t(1) by (auto simp: sp_ok_def split: if_splits)
    qed
    moreover have same: "sporadics w' = sporadics w" "globTime w' = t" by (simp_all add: w' Simulation_setTime_def)
    ultimately have "sporadic_inv w'" using adv by (simp add: sporadic_inv_def w')
    then show ?thesis using same Pass by simp
  qed
qed

lemma sporadic_reach_inv: "sporadic_reach w \<Longrightarrow> sporadic_inv w"
proof (induction rule: sporadic_reach.induct)
  case (start w)
  then have "sp_ok (globTime w) (sporadics w s) (timers_of s w)" for s
    by (auto simp: sporadic_start_def sp_ok_def SporadicServer_ctor_def sporadic_total_def pending_def timers_of_def
        posted_at_def dest!: spec [of _ s])
  then show ?case using start by (simp add: sporadic_inv_def sporadic_start_def)
qed (use sporadic_call_inv in blast)

text \<open>
  C12. The account of a sporadic server.  In every reachable state no capacity is below zero and a server owns at least
  its budget; every call that returns keeps the sum of the capacity and of all replenishments, but for two: a change of
  the budget changes the sum by exactly that much, and the activation of an idle server makes the capacity the whole
  budget although replenishments may still be to come.
\<close>

theorem sporadic_account:
  assumes "sporadic_reach w" and "sporadic_call_ok c w" and "sporadic_call c w = Inr w'"
  shows "sporadic_total (sporadics w' s) = new_total c s w \<and> s_Q (sporadics w' s) \<le> sporadic_total (sporadics w' s) \<and>
    0 \<le> s_cap (sporadics w' s)"
proof -
  have "sporadic_inv w' \<and> (\<forall>h. sporadic_total (sporadics w' h) = new_total c h w)"
    by (rule sporadic_call_inv [OF sporadic_reach_inv [OF assms(1)] assms(2,3)])
  then show ?thesis unfolding sporadic_inv_def sp_ok_def by blast
qed

section \<open>Runs\<close>

fun run_sporadic :: "server_call list \<Rightarrow> sporadic_world \<Rightarrow> sporadic_world option" where
  "run_sporadic [] w = Some w"
| "run_sporadic (c # cs) w =
    (if sporadic_call_ok c w then case sporadic_call c w of Inr w' \<Rightarrow> run_sporadic cs w' | Inl _ \<Rightarrow> None else None)"

lemma run_sporadic_reach: "run_sporadic cs w = Some w' \<Longrightarrow> sporadic_reach w \<Longrightarrow> sporadic_reach w'"
  by (induction cs w rule: run_sporadic.induct) (auto split: if_splits sum.splits intro: sporadic_reach.call)

definition sporadic_sample :: sporadic_world where
  "sporadic_sample = \<lparr>globTime = 0, evs = (\<lambda>_. Event_ctor DEFAULT_PRIORITY), eventQueue = [], evCounter = 1,
     numRuns = 1, actRuns = 0, sim_end = False, sporadics = (\<lambda>_. (SporadicServer_ctor 2 10)\<lparr>s_cap := 2\<rparr>)\<rparr>"

lemmas sporadic_run_defs = sporadic_sample_def SporadicServer_ctor_def CapacityTimer_ctor_def SS_idle_ready_def
  SS_releasing_ready_def SS_ready_executing_def SS_executing_ready_def SS_executing_releasing_def
  SS_executing_recharging_def SS_onReplenishment_def SS_onIdle_def SS_releasing_idle_def SS_recharging_ready_def
  SS_changeBudget_def SS_decrease_def SS_reduce_def upd_sp_def with_svtime_def prepare_replenishment_def check_repl_def
  executed_def take_executed_def note_executed_def set_sstatus_def CapacityTimer_set_value_def CapacityTimer_start_def
  CapacityTimer_stop_def CapacityTimer_get_value_def Event_post_def Event_drop_def Event_setTime_def upd_event_def
  queue_lt_def Event_Cmp_def pl_erase_def equivalent_key_def Event_isInQueue_def Event_ctor_def Simulation_setTime_def
  due_def pureE_def Let_def Tick_ceil_def

lemma sporadic_sample_reach: "sporadic_reach sporadic_sample"
proof (rule sporadic_reach.start)
  have "\<exists>q p. 0 < q \<and> 0 < p \<and> sporadics sporadic_sample s = (SporadicServer_ctor q p)\<lparr>s_cap := q\<rparr>" for s
    by (rule exI [of _ 2], rule exI [of _ 10]) (simp add: sporadic_sample_def)
  then show "sporadic_start sporadic_sample"
    by (simp add: sporadic_start_def sporadic_sample_def sound_def ordered_def at_time_def evq_inv_def Event_ctor_def)
qed

lemma run_the:
  assumes "run_sporadic cs w \<noteq> None"
  shows "run_sporadic cs w = Some (the (run_sporadic cs w))"
  using assms by simp

text \<open>A burst of one tick, and a whole budget a tick after the server became idle.\<close>

definition two_bursts :: "server_call list" where
  "two_bursts = [Arrive 0, Schedule 0, Pass 1, NoWork 0, Pass 5, GoIdle 0, Pass 6, Arrive 0, Schedule 0, Pass 8]"

lemma two_bursts_run:
  obtains w where "run_sporadic two_bursts sporadic_sample = Some w" and "sporadic_reach w"
    and "due (BandEx, 0) w" and "s_status (sporadics w 0) = EXECUTING" and "s_Q (sporadics w 0) = 2"
    and "s_cap (sporadics w 0) = 2" and "s_repl_queue (sporadics w 0) = [(10, 1), (16, 0)]"
    and "s_capacity_queue (sporadics w 0) = []" and "isl (sporadic_call (Exhaust 0) w) = False"
proof -
  have "case run_sporadic two_bursts sporadic_sample of None \<Rightarrow> False
    | Some w \<Rightarrow> due (BandEx, 0) w \<and> s_status (sporadics w 0) = EXECUTING \<and> s_Q (sporadics w 0) = 2 \<and>
        s_cap (sporadics w 0) = 2 \<and> s_repl_queue (sporadics w 0) = [(10, 1), (16, 0)] \<and>
        s_capacity_queue (sporadics w 0) = [] \<and> isl (sporadic_call (Exhaust 0) w) = False"
    by (simp add: two_bursts_def sporadic_run_defs)
  then show ?thesis using that run_sporadic_reach [OF _ sporadic_sample_reach] by (auto split: option.splits)
qed

theorem sporadic_account_witness:
  "\<exists>w w'. sporadic_call (Exhaust 0) w = Inr w' \<and> sporadic_total (sporadics w' 0) = 3 \<and> s_Q (sporadics w 0) = 2"
proof -
  obtain w where w: "sporadic_reach w" "due (BandEx, 0) w" "s_status (sporadics w 0) = EXECUTING" "s_Q (sporadics w 0) = 2"
    "s_cap (sporadics w 0) = 2" "s_repl_queue (sporadics w 0) = [(10, 1), (16, 0)]"
    "s_capacity_queue (sporadics w 0) = []" "isl (sporadic_call (Exhaust 0) w) = False"
    using two_bursts_run by metis
  then obtain w' where w': "sporadic_call (Exhaust 0) w = Inr w'" by (cases "sporadic_call (Exhaust 0) w") auto
  have "sporadic_total (sporadics w' 0) = 3"
    using sporadic_account [OF w(1) _ w', of 0] w(2-7) by (simp add: sporadic_total_def pending_def)
  with w(4) w' show ?thesis by blast
qed

text \<open>
  The server owns more than its budget when it is activated again before the replenishment of the burst before: it may
  execute three ticks of ten with a budget of two.
\<close>

lemma sporadic_overfilled: "\<exists>w. sporadic_reach w \<and> s_Q (sporadics w 0) < sporadic_total (sporadics w 0)"
  using two_bursts_run by (metis sporadic_total_def pending_def amount_simps(1,2) snd_conv add_0_right
      less_add_one one_add_one numeral_plus_one)

text \<open>
  A budget that is lowered before the first burst begins removes the replenishment of that burst, as its amount is still
  zero; the end of the burst then takes the last element of an empty list.
\<close>

lemma lowered_budget_loses_burst:
  "bindE (SS_idle_ready 0 sporadic_sample) (\<lambda>w. bindE (SS_changeBudget 0 1 w) (\<lambda>(_, w). bindE (SS_ready_executing 0 w)
     (SS_executing_ready 0))) = Inl (NullPointer ''repl_queue.back()'')"
  by (simp add: sporadic_run_defs)

end
