(* ===== verification/Polling.thy ===== *)
theory Polling
  imports ServerTimers
begin

text \<open>
  The polling server (\<open>pollingserver.cpp\<close>): its budget comes back at fixed times, and what is left of it when there is
  no task to serve is lost.  The laws say which calls of the class \<open>Server\<close> return: all but the recharging event of a
  server that is not recharging, on which \<open>Server::onRecharging\<close> asserts.
\<close>

record polling =
  p_status :: server_status
  p_dline :: tick
  p_Q :: tick
  p_P :: tick
  p_cap :: tick
  p_last_time :: tick
  p_recharging_time :: tick

record polling_world = "timer sim" +
  pollings :: "nat \<Rightarrow> polling"

definition PollingServer_ctor :: "tick \<Rightarrow> tick \<Rightarrow> polling" where
  "PollingServer_ctor q p = \<lparr>p_status = IDLE, p_dline = p, p_Q = q, p_P = p, p_cap = 0, p_last_time = 0,
     p_recharging_time = 0\<rparr>"

definition upd_poll :: "nat \<Rightarrow> (polling \<Rightarrow> polling) \<Rightarrow> polling_world \<Rightarrow> polling_world" where
  "upd_poll s f w = w\<lparr>pollings := (pollings w)(s := f (pollings w s))\<rparr>"

definition PollingServer_newRun :: "nat \<Rightarrow> polling_world \<Rightarrow> polling_world" where
  "PollingServer_newRun s = upd_poll s (\<lambda>x. x\<lparr>p_cap := 0, p_last_time := 0, p_recharging_time := 0, p_status := IDLE\<rparr>)"

section \<open>The state changes\<close>

definition PS_idle_ready :: "nat \<Rightarrow> polling_world \<Rightarrow> exc + polling_world" where
  "PS_idle_ready s w =
    (if p_status (pollings w s) \<noteq> IDLE then Inl (AssertFailed ''status == IDLE'')
     else
       let w1 = upd_poll s (\<lambda>x. x\<lparr>p_status := READY, p_cap := p_Q x, p_recharging_time := globTime w + p_P x\<rparr>) w;
           t = p_recharging_time (pollings w1 s) in
       bindE (Event_post (Recharging, s) t False w1) (\<lambda>w2.
       Event_post (DlineMiss, s) t False (Event_setPriority (DlineMiss, s) (DEFAULT_PRIORITY + 2) w2)))"

definition PS_releasing_ready :: "nat \<Rightarrow> polling_world \<Rightarrow> exc + polling_world" where
  "PS_releasing_ready s w = Inl (AssertFailed ''false'')"

definition PS_ready_executing :: "nat \<Rightarrow> polling_world \<Rightarrow> exc + polling_world" where
  "PS_ready_executing s w =
     (let w1 = upd_poll s (\<lambda>x. x\<lparr>p_status := EXECUTING, p_last_time := globTime w\<rparr>) w; x = pollings w1 s in
      Event_post (BandEx, s) (p_last_time x + p_cap x) False w1)"

definition PS_executing_ready :: "nat \<Rightarrow> polling_world \<Rightarrow> polling_world" where
  "PS_executing_ready s w =
     Event_drop (BandEx, s)
       (upd_poll s (\<lambda>x. x\<lparr>p_status := READY, p_cap := p_cap x - (globTime w - p_last_time x)\<rparr>) w)"

definition PS_executing_releasing :: "nat \<Rightarrow> polling_world \<Rightarrow> polling_world" where
  "PS_executing_releasing s w = Event_drop (BandEx, s) (upd_poll s (\<lambda>x. x\<lparr>p_status := RECHARGING, p_cap := 0\<rparr>) w)"

definition PS_releasing_idle :: "nat \<Rightarrow> polling_world \<Rightarrow> exc + polling_world" where
  "PS_releasing_idle s w = Inl (AssertFailed ''false'')"

definition PS_executing_recharging :: "nat \<Rightarrow> polling_world \<Rightarrow> polling_world" where
  "PS_executing_recharging s w = Event_drop (BandEx, s) (upd_poll s (\<lambda>x. x\<lparr>p_status := RECHARGING, p_cap := 0\<rparr>) w)"

definition PS_recharging_ready :: "nat \<Rightarrow> polling_world \<Rightarrow> exc + polling_world" where
  "PS_recharging_ready s w =
     (let w1 = upd_poll s (\<lambda>x. x\<lparr>p_status := READY, p_cap := p_Q x, p_recharging_time := globTime w + p_P x\<rparr>) w;
          t = p_recharging_time (pollings w1 s) in
      bindE (Event_post (Recharging, s) t False w1) (\<lambda>w2.
      Event_post (DlineMiss, s) t False (Event_drop (DlineMiss, s) w2)))"

definition PS_recharging_idle :: "nat \<Rightarrow> polling_world \<Rightarrow> polling_world" where
  "PS_recharging_idle s w = Event_drop (DlineMiss, s) (upd_poll s (\<lambda>x. x\<lparr>p_status := IDLE\<rparr>) w)"

text \<open>\<open>Server::onRecharging\<close> of a polling server; \<open>first\<close>: there is a task to serve.\<close>

definition PS_onRecharging :: "nat \<Rightarrow> bool \<Rightarrow> polling_world \<Rightarrow> exc + polling_world" where
  "PS_onRecharging s first w =
    (if p_status (pollings w s) \<noteq> RECHARGING then Inl (AssertFailed ''status == RECHARGING'')
     else if first then PS_recharging_ready s w
     else Inr (PS_recharging_idle s w))"

text \<open>A budget that is not positive leaves \<open>ret\<close> as it was constructed, zero.\<close>

definition PS_changeBudget :: "nat \<Rightarrow> tick \<Rightarrow> polling_world \<Rightarrow> tick \<times> polling_world" where
  "PS_changeBudget s n w =
    (if p_Q (pollings w s) \<le> n then (globTime w, upd_poll s (\<lambda>x. x\<lparr>p_Q := n\<rparr>) w)
     else if 0 < n then (p_recharging_time (pollings w s), upd_poll s (\<lambda>x. x\<lparr>p_Q := n\<rparr>) w)
     else (0, w))"

section \<open>The calls\<close>

fun polling_call :: "server_call \<Rightarrow> polling_world \<Rightarrow> exc + polling_world" where
  "polling_call (Arrive s) w =
    (case p_status (pollings w s) of
       IDLE \<Rightarrow> PS_idle_ready s w | RELEASING \<Rightarrow> PS_releasing_ready s w | _ \<Rightarrow> Inr w)"
| "polling_call (Schedule s) w = PS_ready_executing s w"
| "polling_call (Deschedule s) w =
    (if p_status (pollings w s) = EXECUTING then Inr (PS_executing_ready s w) else Inr w)"
| "polling_call (Exhaust s) w = Inr (PS_executing_recharging s (Event_drop (BandEx, s) w))"
| "polling_call (NoWork s) w = Inr (PS_executing_releasing s w)"
| "polling_call (Recharge s work) w = PS_onRecharging s work (Event_drop (Recharging, s) w)"
| "polling_call (GoIdle s) w = PS_releasing_idle s w"
| "polling_call (Budget s n) w = Inr (snd (PS_changeBudget s n w))"
| "polling_call (Pass t) w = Inr (Simulation_setTime t w)"

fun polling_call_ok :: "server_call \<Rightarrow> polling_world \<Rightarrow> bool" where
  "polling_call_ok (Arrive s) w = True"
| "polling_call_ok (Schedule s) w = (p_status (pollings w s) = READY)"
| "polling_call_ok (Deschedule s) w = True"
| "polling_call_ok (Exhaust s) w = (p_status (pollings w s) = EXECUTING \<and> due (BandEx, s) w)"
| "polling_call_ok (NoWork s) w = (p_status (pollings w s) = EXECUTING)"
| "polling_call_ok (Recharge s work) w = due (Recharging, s) w"
| "polling_call_ok (GoIdle s) w = due (GoingIdle, s) w"
| "polling_call_ok (Budget s n) w = True"
| "polling_call_ok (Pass t) w = (globTime w \<le> t \<and> (\<forall>e\<in>set (eventQueue w). t \<le> ev_time (evs w e)))"

section \<open>One server\<close>

definition polled :: "nat \<Rightarrow> polling_world \<Rightarrow> polling_world \<Rightarrow> polling \<Rightarrow> timer_map \<Rightarrow> bool" where
  "polled s w0 w x b \<longleftrightarrow> sound (globTime w0) w \<and> globTime w = globTime w0 \<and> pollings w = (pollings w0)(s := x) \<and>
     (\<forall>h. timers_of h w = (if h = s then b else timers_of h w0))"

lemma polled_refl: "sound (globTime w) w \<Longrightarrow> polled s w w (pollings w s) (timers_of s w)"
  by (simp add: polled_def)

lemma polled_upd:
  assumes "polled s w0 w x b"
  shows "polled s w0 (upd_poll s f w) (f x) b"
proof -
  have "sound T (upd_poll s f w) = sound T w" "posted_at e (upd_poll s f w) = posted_at e w" for T e
    by (rule sound_cong; simp add: upd_poll_def)+
  with assms show ?thesis by (simp add: polled_def upd_poll_def timers_of_def)
qed

lemma polled_drop:
  assumes "polled s w0 w x b"
  shows "polled s w0 (Event_drop (k, s) w) x (b(k := None))"
proof -
  have "pollings (Event_drop (k, s) w) = pollings w" by (simp add: Event_drop_def upd_event_def)
  with assms show ?thesis by (auto simp: polled_def drop_sound(1) timers_drop [where T = "globTime w0"])
qed

lemma polled_post:
  assumes "polled s w0 w x b" and "b k = None" and "globTime w0 \<le> t"
  obtains w' where "Event_post (k, s) t d w = Inr w'" and "polled s w0 w' x (b(k := Some t))"
proof -
  have snd: "sound (globTime w0) w" and tm: "timers_of s w k = None" using assms(1,2) by (simp_all add: polled_def)
  obtain w' where w': "Event_post (k, s) t d w = Inr w'" using timer_post_possible [OF snd tm assms(3)] .
  have "pollings w' = pollings w" "globTime w' = globTime w"
    using w' by (auto simp: Event_post_def Event_setTime_def Let_def bindE_eq_Inr upd_event_def split: if_splits prod.splits)
  then have "polled s w0 w' x (b(k := Some t))"
    using assms(1) post_sound(1) [OF snd w'] timers_post [OF snd w'] by (simp add: polled_def)
  with w' show ?thesis by (rule that)
qed

lemma polled_priority:
  assumes "polled s w0 w x b" and "b k = None"
  shows "polled s w0 (Event_setPriority (k, s) p w) x b"
proof -
  have snd: "sound (globTime w0) w" and "(k, s) \<notin> set (eventQueue w)"
    using assms by (auto simp: polled_def timers_of_def posted_at_def split: if_splits)
  note pri = setPriority_ordered [OF sound_ordered [OF snd] this(2), where p = p]
  have "ev_isInQueue (evs (Event_setPriority (k, s) p w) e) = ev_isInQueue (evs w e)" for e
    by (simp add: Event_setPriority_def upd_event_def)
  moreover have "eventQueue (Event_setPriority (k, s) p w) = eventQueue w" "globTime (Event_setPriority (k, s) p w) = globTime w"
    "pollings (Event_setPriority (k, s) p w) = pollings w"
    by (simp_all add: Event_setPriority_def upd_event_def)
  ultimately show ?thesis using assms(1) pri(1,2) snd by (simp add: polled_def sound_def timers_of_def)
qed

definition polling_ok :: "tick \<Rightarrow> polling \<Rightarrow> timer_map \<Rightarrow> bool" where
  "polling_ok T x b \<longleftrightarrow> 0 \<le> p_Q x \<and> 0 < p_P x \<and> 0 \<le> p_cap x \<and> p_status x \<noteq> RELEASING \<and> b GoingIdle = None \<and>
     b Recharging = (if p_status x = IDLE then None else Some (p_recharging_time x)) \<and> b DlineMiss = b Recharging \<and>
     b BandEx = (if p_status x = EXECUTING then Some (p_last_time x + p_cap x) else None) \<and>
     (p_status x = EXECUTING \<longrightarrow> T \<le> p_last_time x + p_cap x)"

definition polling_inv :: "polling_world \<Rightarrow> bool" where
  "polling_inv w \<longleftrightarrow> sound (globTime w) w \<and> (\<forall>s. polling_ok (globTime w) (pollings w s) (timers_of s w))"

lemma polled_inv:
  assumes "polling_inv w" and "polled s w w' x b" and "polling_ok (globTime w) x b"
  shows "polling_inv w'"
  using assms by (simp add: polling_inv_def polled_def)

lemma polling_inv_ok: "polling_inv w \<Longrightarrow> polling_ok (globTime w) (pollings w s) (timers_of s w)"
  and polling_inv_refl: "polling_inv w \<Longrightarrow> polled s w w (pollings w s) (timers_of s w)"
  by (simp_all add: polling_inv_def polled_refl)

section \<open>Each call\<close>

text \<open>A new period begins: the two events at its end are posted.\<close>

lemma period_begins:
  assumes "polled s w0 w x b" and "b Recharging = None" and "b DlineMiss = None" and "globTime w0 \<le> t"
  obtains w1 w2 where "Event_post (Recharging, s) t False w = Inr w1"
    and "Event_post (DlineMiss, s) t False (Event_setPriority (DlineMiss, s) p w1) = Inr w2"
    and "polled s w0 w2 x (b(Recharging := Some t, DlineMiss := Some t))"
proof -
  obtain w1 where w1: "Event_post (Recharging, s) t False w = Inr w1" "polled s w0 w1 x (b(Recharging := Some t))"
    using polled_post [OF assms(1,2,4)] .
  have free: "(b(Recharging := Some t)) DlineMiss = None" using assms(3) by simp
  obtain w2 where "Event_post (DlineMiss, s) t False (Event_setPriority (DlineMiss, s) p w1) = Inr w2"
    "polled s w0 w2 x (b(Recharging := Some t, DlineMiss := Some t))"
    using polled_post [OF polled_priority [OF w1(2) free] free assms(4)] .
  with w1(1) show ?thesis by (rule that)
qed

lemma PS_idle_ready_returns:
  assumes "polling_inv w" and "p_status (pollings w s) = IDLE"
  shows "\<exists>w'. PS_idle_ready s w = Inr w' \<and> polling_inv w'"
proof -
  let ?x = "pollings w s" and ?t = "globTime w + p_P (pollings w s)"
  let ?f = "\<lambda>x. x\<lparr>p_status := READY, p_cap := p_Q x, p_recharging_time := globTime w + p_P x\<rparr>"
  note ok = polling_inv_ok [OF assms(1), of s]
  have free: "timers_of s w Recharging = None" "timers_of s w DlineMiss = None" "globTime w \<le> ?t"
    using ok assms(2) by (simp_all add: polling_ok_def)
  obtain w1 w2 where w: "Event_post (Recharging, s) ?t False (upd_poll s ?f w) = Inr w1"
    "Event_post (DlineMiss, s) ?t False (Event_setPriority (DlineMiss, s) (DEFAULT_PRIORITY + 2) w1) = Inr w2"
    "polled s w w2 (?f ?x) ((timers_of s w)(Recharging := Some ?t, DlineMiss := Some ?t))"
    using period_begins [OF polled_upd [OF polling_inv_refl [OF assms(1)]] free] .
  have "PS_idle_ready s w = Inr w2" using w(1,2) assms(2) by (simp add: PS_idle_ready_def Let_def upd_poll_def)
  moreover have "polling_inv w2" using ok assms(2) by (intro polled_inv [OF assms(1) w(3)]) (simp add: polling_ok_def)
  ultimately show ?thesis by blast
qed

lemma PS_ready_executing_returns:
  assumes "polling_inv w" and "p_status (pollings w s) = READY"
  shows "\<exists>w'. PS_ready_executing s w = Inr w' \<and> polling_inv w'"
proof -
  let ?x = "pollings w s" and ?t = "globTime w + p_cap (pollings w s)"
  let ?f = "\<lambda>x. x\<lparr>p_status := EXECUTING, p_last_time := globTime w\<rparr>"
  note ok = polling_inv_ok [OF assms(1), of s]
  have free: "timers_of s w BandEx = None" "globTime w \<le> ?t" using ok assms(2) by (simp_all add: polling_ok_def)
  obtain w1 where w: "Event_post (BandEx, s) ?t False (upd_poll s ?f w) = Inr w1"
    "polled s w w1 (?f ?x) ((timers_of s w)(BandEx := Some ?t))"
    using polled_post [OF polled_upd [OF polling_inv_refl [OF assms(1)]] free] .
  have "PS_ready_executing s w = Inr w1" using w(1) by (simp add: PS_ready_executing_def Let_def upd_poll_def)
  moreover have "polling_inv w1" using ok assms(2) by (intro polled_inv [OF assms(1) w(2)]) (simp add: polling_ok_def)
  ultimately show ?thesis by blast
qed

lemma PS_leaves_executing:
  assumes "polling_inv w" and "p_status (pollings w s) = EXECUTING" and "st \<in> {READY, RECHARGING}"
    and "0 \<le> p_cap (pollings w s) - (globTime w - p_last_time (pollings w s)) \<Longrightarrow> 0 \<le> c"
  shows "polling_inv (Event_drop (BandEx, s) (upd_poll s (\<lambda>x. x\<lparr>p_status := st, p_cap := c\<rparr>) w))"
  using polling_inv_ok [OF assms(1), of s] assms(2-4)
  by (intro polled_inv [OF assms(1) polled_drop [OF polled_upd [OF polling_inv_refl [OF assms(1)]]]])
    (auto simp: polling_ok_def)

text \<open>The event of a call is no longer in the queue.\<close>

lemma PS_exhausted:
  assumes "polling_inv w" and "p_status (pollings w s) = EXECUTING"
  shows "polling_inv (PS_executing_recharging s (Event_drop (BandEx, s) w))"
  unfolding PS_executing_recharging_def
  using polling_inv_ok [OF assms(1), of s] assms(2)
  by (intro polled_inv [OF assms(1) polled_drop [OF polled_upd [OF polled_drop [OF polling_inv_refl [OF assms(1)]]]]])
    (auto simp: polling_ok_def)

lemma PS_recharged:
  assumes "polling_inv w" and "p_status (pollings w s) = RECHARGING"
  shows "\<exists>w'. PS_onRecharging s first (Event_drop (Recharging, s) w) = Inr w' \<and> polling_inv w'"
proof -
  let ?x = "pollings w s" and ?t = "globTime w + p_P (pollings w s)" and ?d = "Event_drop (Recharging, s) w"
  let ?f = "\<lambda>x. x\<lparr>p_status := READY, p_cap := p_Q x, p_recharging_time := globTime w + p_P x\<rparr>"
  note ok = polling_inv_ok [OF assms(1), of s] and drop = polled_drop [OF polling_inv_refl [OF assms(1)], where s = s and k = Recharging]
  have same: "pollings ?d = pollings w" "globTime ?d = globTime w" by (simp_all add: Event_drop_def upd_event_def)
  have late: "globTime w \<le> ?t" using ok by (simp add: polling_ok_def)
  let ?b = "(timers_of s w)(Recharging := None, Recharging := Some ?t)"
  have free: "((timers_of s w)(Recharging := None)) Recharging = None" "(?b(DlineMiss := None)) DlineMiss = None" by simp_all
  obtain w1 where w1: "Event_post (Recharging, s) ?t False (upd_poll s ?f ?d) = Inr w1" "polled s w w1 (?f ?x) ?b"
    using polled_post [OF polled_upd [OF drop] free(1) late] .
  obtain w2 where w2: "Event_post (DlineMiss, s) ?t False (Event_drop (DlineMiss, s) w1) = Inr w2"
    "polled s w w2 (?f ?x) (?b(DlineMiss := None, DlineMiss := Some ?t))"
    using polled_post [OF polled_drop [OF w1(2)] free(2) late] .
  have "PS_recharging_ready s ?d = Inr w2"
    using w1(1) w2(1) same by (simp add: PS_recharging_ready_def Let_def upd_poll_def)
  moreover have "polling_inv w2" using ok assms(2) by (intro polled_inv [OF assms(1) w2(2)]) (simp add: polling_ok_def)
  moreover have "polling_inv (PS_recharging_idle s ?d)"
    unfolding PS_recharging_idle_def using ok assms(2)
    by (intro polled_inv [OF assms(1) polled_drop [OF polled_upd [OF drop]]]) (auto simp: polling_ok_def)
  ultimately show ?thesis using assms(2) same by (cases first) (simp_all add: PS_onRecharging_def)
qed

lemma PS_budget:
  assumes "polling_inv w"
  shows "polling_inv (snd (PS_changeBudget s n w))"
proof -
  have "polling_inv (upd_poll s (\<lambda>x. x\<lparr>p_Q := n\<rparr>) w)" if "0 \<le> n"
    using polling_inv_ok [OF assms, of s] that
    by (intro polled_inv [OF assms polled_upd [OF polling_inv_refl [OF assms]]]) (auto simp: polling_ok_def)
  then show ?thesis using assms polling_inv_ok [OF assms, of s] by (auto simp: PS_changeBudget_def polling_ok_def)
qed

lemma PS_pass:
  assumes "polling_inv w" and "globTime w \<le> t" and "\<forall>e\<in>set (eventQueue w). t \<le> ev_time (evs w e)"
  shows "polling_inv (Simulation_setTime t w)"
proof -
  have snd: "sound (globTime w) w" using assms(1) by (simp add: polling_inv_def)
  have "polling_ok t (pollings w s) (timers_of s w)" for s
  proof -
    have "t \<le> b" if "timers_of s w BandEx = Some b" for b
      using assms(3) that by (auto simp: timers_of_def posted_at_def split: if_splits)
    then show ?thesis using polling_inv_ok [OF assms(1), of s] by (auto simp: polling_ok_def)
  qed
  then show ?thesis using pass_sound [OF snd assms(2,3)] by (simp add: polling_inv_def) (simp add: Simulation_setTime_def)
qed

section \<open>Reachable states\<close>

definition polling_start :: "polling_world \<Rightarrow> bool" where
  "polling_start w \<longleftrightarrow> sound (globTime w) w \<and> eventQueue w = [] \<and>
     (\<forall>s. \<exists>q p. 0 \<le> q \<and> 0 < p \<and> pollings w s = PollingServer_ctor q p)"

inductive polling_reach :: "polling_world \<Rightarrow> bool" where
  start: "polling_start w \<Longrightarrow> polling_reach w"
| call: "polling_reach w \<Longrightarrow> polling_call_ok c w \<Longrightarrow> polling_call c w = Inr w' \<Longrightarrow> polling_reach w'"

text \<open>The one call that fails.\<close>

fun unexpected_recharge :: "server_call \<Rightarrow> polling_world \<Rightarrow> bool" where
  "unexpected_recharge (Recharge s work) w = (p_status (pollings w s) \<noteq> RECHARGING)"
| "unexpected_recharge _ w = False"

lemma polling_call_returns:
  assumes "polling_inv w" and "polling_call_ok c w"
  shows "if unexpected_recharge c w then polling_call c w = Inl (AssertFailed ''status == RECHARGING'')
    else \<exists>w'. polling_call c w = Inr w' \<and> polling_inv w'"
proof (cases c)
  case (Arrive s)
  have "p_status (pollings w s) \<noteq> RELEASING" using polling_inv_ok [OF assms(1), of s] by (simp add: polling_ok_def)
  then show ?thesis using PS_idle_ready_returns [OF assms(1), of s] assms(1) Arrive by (cases "p_status (pollings w s)") simp_all
next
  case (Recharge s work)
  have "p_status (pollings (Event_drop (Recharging, s) w) s) = p_status (pollings w s)"
    by (simp add: Event_drop_def upd_event_def)
  then show ?thesis using PS_recharged [OF assms(1), of s work] Recharge by (auto simp: PS_onRecharging_def)
next
  case (GoIdle s)
  then show ?thesis using polling_inv_ok [OF assms(1), of s] assms(2) by (simp add: polling_ok_def due_timer)
next
  case (Deschedule s)
  then show ?thesis
    using PS_leaves_executing [OF assms(1), of s READY "p_cap (pollings w s) - (globTime w - p_last_time (pollings w s))"] assms(1)
    by (auto simp: PS_executing_ready_def upd_poll_def)
next
  case (NoWork s)
  then show ?thesis using PS_leaves_executing [OF assms(1), of s RECHARGING 0] assms(2) by (simp add: PS_executing_releasing_def)
qed (use assms PS_ready_executing_returns PS_exhausted PS_budget PS_pass in auto)

lemma polling_reach_inv: "polling_reach w \<Longrightarrow> polling_inv w"
proof (induction rule: polling_reach.induct)
  case (start w)
  then have "polling_ok (globTime w) (pollings w s) (timers_of s w)" for s
    by (auto simp: polling_start_def polling_ok_def PollingServer_ctor_def timers_of_def posted_at_def dest!: spec [of _ s])
  then show ?case using start by (simp add: polling_inv_def polling_start_def)
next
  case (call w c w')
  then show ?case using polling_call_returns [OF call(4,2)] by (auto split: if_splits)
qed

text \<open>
  C13. A polling server in every reachable state: each method of the class that \<open>Server\<close> or a due event may call returns, but
  the recharging event of a server whose status is not \<open>RECHARGING\<close> - it is ready or executing still, or again - which fails
  the assertion of \<open>Server::onRecharging\<close>.
\<close>

theorem polling_recharging_fails:
  assumes "polling_reach w" and "polling_call_ok c w"
  shows "if \<exists>s work. c = Recharge s work \<and> p_status (pollings w s) \<noteq> RECHARGING
    then polling_call c w = Inl (AssertFailed ''status == RECHARGING'') else \<exists>w'. polling_call c w = Inr w'"
  using polling_call_returns [OF polling_reach_inv [OF assms(1)] assms(2)] by (cases c) (auto split: if_splits)

section \<open>A run that fails\<close>

fun run_polling :: "server_call list \<Rightarrow> polling_world \<Rightarrow> polling_world option" where
  "run_polling [] w = Some w"
| "run_polling (c # cs) w =
    (if polling_call_ok c w then case polling_call c w of Inr w' \<Rightarrow> run_polling cs w' | Inl _ \<Rightarrow> None else None)"

lemma run_polling_reach: "run_polling cs w = Some w' \<Longrightarrow> polling_reach w \<Longrightarrow> polling_reach w'"
  by (induction cs w rule: run_polling.induct) (auto split: if_splits sum.splits intro: polling_reach.call)

definition polling_sample :: polling_world where
  "polling_sample = \<lparr>globTime = 0, evs = (\<lambda>_. Event_ctor DEFAULT_PRIORITY), eventQueue = [], evCounter = 1,
     numRuns = 1, actRuns = 0, sim_end = False, pollings = (\<lambda>_. PollingServer_ctor 2 5)\<rparr>"

lemma polling_sample_reach: "polling_reach polling_sample"
proof (rule polling_reach.start)
  have "\<exists>q p. 0 \<le> q \<and> 0 < p \<and> pollings polling_sample s = PollingServer_ctor q p" for s
    by (rule exI [of _ 2], rule exI [of _ 5]) (simp add: polling_sample_def)
  then show "polling_start polling_sample"
    by (simp add: polling_start_def polling_sample_def sound_def ordered_def at_time_def evq_inv_def Event_ctor_def)
qed

lemmas polling_run_defs = polling_sample_def PollingServer_ctor_def PS_idle_ready_def PS_ready_executing_def upd_poll_def
  Event_post_def Event_setTime_def Event_setPriority_def upd_event_def queue_lt_def Event_Cmp_def equivalent_key_def
  Event_isInQueue_def Event_ctor_def Simulation_setTime_def due_def Let_def DEFAULT_PRIORITY_def

text \<open>A server that is dispatched one tick before the end of its period.\<close>

theorem polling_recharging_fails_witness:
  "\<exists>w. polling_reach w \<and> polling_call (Recharge 0 True) w = Inl (AssertFailed ''status == RECHARGING'')"
proof -
  have "case run_polling [Arrive 0, Pass 4, Schedule 0, Pass 5] polling_sample of None \<Rightarrow> False
    | Some w \<Rightarrow> polling_call_ok (Recharge 0 True) w \<and> p_status (pollings w 0) = EXECUTING"
    by (simp add: polling_run_defs)
  then obtain w where w: "polling_reach w" "polling_call_ok (Recharge 0 True) w" "p_status (pollings w 0) = EXECUTING"
    using run_polling_reach [OF _ polling_sample_reach] by (auto simp del: run_polling.simps split: option.splits)
  then have "\<exists>s work. Recharge 0 True = Recharge s work \<and> p_status (pollings w s) \<noteq> RECHARGING" by auto
  then have "polling_call (Recharge 0 True) w = Inl (AssertFailed ''status == RECHARGING'')"
    using polling_recharging_fails [OF w(1,2)] by (simp only: if_True)
  with w(1) show ?thesis by blast
qed

end
