(* ===== verification/Csv_Laws.thy ===== *)
theory Csv_Laws
  imports Csv
begin

text \<open>Tables as text, and the round trip: a table is read with the cells it was written with.\<close>

section \<open>Lines of cells\<close>

fun csv_line :: "string list \<Rightarrow> string" where
  "csv_line [] = []"
| "csv_line [c] = c"
| "csv_line (c # d # cs) = c @ CHR '','' # csv_line (d # cs)"

definition csv_text :: "string list \<Rightarrow> string list list \<Rightarrow> string" where
  "csv_text hs rs = concat (map (\<lambda>l. csv_line l @ [newline]) (hs # rs))"

definition cell_ok :: "string \<Rightarrow> bool" where
  "cell_ok c \<longleftrightarrow> CHR '','' \<notin> set c \<and> newline \<notin> set c \<and> (c \<noteq> [] \<longrightarrow> \<not> is_space (hd c) \<and> \<not> is_space (last c))"

lemma trim_ok: "cell_ok c \<Longrightarrow> csv_trim c = c"
proof (cases "c = []")
  case False
  assume "cell_ok c"
  with False have "dropWhile is_space c = c" "dropWhile is_space (rev c) = rev c"
    by (auto simp: cell_ok_def dropWhile_eq_self_iff hd_rev)
  then show ?thesis by (simp add: csv_trim_def ltrim_def rtrim_def)
qed (simp add: csv_trim_def ltrim_def rtrim_def)

lemma takeWhile_to: "delim \<notin> set a \<Longrightarrow> takeWhile (\<lambda>c. c \<noteq> delim) (a @ delim # b) = a"
  and dropWhile_to: "delim \<notin> set a \<Longrightarrow> dropWhile (\<lambda>c. c \<noteq> delim) (a @ delim # b) = delim # b"
  and takeWhile_no: "delim \<notin> set a \<Longrightarrow> takeWhile (\<lambda>c. c \<noteq> delim) a = a"
  and dropWhile_no: "delim \<notin> set a \<Longrightarrow> dropWhile (\<lambda>c. c \<noteq> delim) a = []"
  by (induction a) auto

lemma getline_to_found:
  "delim \<notin> set a \<Longrightarrow> getline_to delim \<lparr>is_rest = a @ delim # b, is_failed = False\<rparr> = (a, \<lparr>is_rest = b, is_failed = False\<rparr>)"
  by (simp add: getline_to_def takeWhile_to dropWhile_to)

lemma getline_to_last:
  "delim \<notin> set a \<Longrightarrow> a \<noteq> [] \<Longrightarrow>
    getline_to delim \<lparr>is_rest = a, is_failed = False\<rparr> = (a, \<lparr>is_rest = [], is_failed = False\<rparr>)"
  by (simp add: getline_to_def takeWhile_no dropWhile_no)

lemma getline_to_end: "getline_to delim \<lparr>is_rest = [], is_failed = False\<rparr> = ([], \<lparr>is_rest = [], is_failed = True\<rparr>)"
  by (simp add: getline_to_def)

text \<open>A last cell that is empty leaves no trace in the line.\<close>

definition kept :: "string list \<Rightarrow> string list" where
  "kept cs = (if cs \<noteq> [] \<and> last cs = [] then butlast cs else cs)"

lemma line_cells_line: "\<forall>c\<in>set cs. cell_ok c \<Longrightarrow> line_cells (csv_line cs) = kept cs"
proof (induction cs rule: csv_line.induct)
  case 1
  show ?case by (simp add: line_cells_def kept_def csv_cells.simps [of "\<lparr>is_rest = [], is_failed = False\<rparr>"] getline_to_end)
next
  case (2 c)
  then have c: "CHR '','' \<notin> set c" "csv_trim c = c" by (auto simp: cell_ok_def trim_ok)
  have e: "csv_cells \<lparr>is_rest = [], is_failed = False\<rparr> = []" by (simp add: csv_cells.simps getline_to_end)
  show ?case
  proof (cases "c = []")
    case True
    then show ?thesis using e by (simp add: line_cells_def kept_def)
  next
    case False
    then show ?thesis using c e by (simp add: line_cells_def kept_def csv_cells.simps [of "\<lparr>is_rest = c, is_failed = False\<rparr>"] getline_to_last)
  qed
next
  case (3 c d cs)
  then have c: "CHR '','' \<notin> set c" "csv_trim c = c" by (auto simp: cell_ok_def trim_ok)
  have "line_cells (csv_line (c # d # cs)) = c # line_cells (csv_line (d # cs))"
    using c by (simp add: line_cells_def csv_cells.simps [of "\<lparr>is_rest = c @ _, is_failed = False\<rparr>"] getline_to_found)
  then show ?case using 3 by (simp add: kept_def)
qed

section \<open>Rows\<close>

definition column :: "csv_doc \<Rightarrow> string \<Rightarrow> string list" where
  "column d k = (case csv_table d k of None \<Rightarrow> [] | Some col \<Rightarrow> col)"

lemma push_cell_header [simp]: "csv_header (push_cell k c d) = csv_header d"
  by (simp add: push_cell_def)

lemma push_cell_table: "csv_table (push_cell k c d) = (csv_table d)(k \<mapsto> column d k @ [c])"
  by (simp add: push_cell_def column_def)

definition push_all :: "(string \<times> string) list \<Rightarrow> csv_doc \<Rightarrow> csv_doc" where
  "push_all = fold (\<lambda>(k, c). push_cell k c)"

lemma push_all_header [simp]: "csv_header (push_all ps d) = csv_header d"
  by (induction ps arbitrary: d) (auto simp: push_all_def)

lemma fill_cells: "fold (\<lambda>key. push_cell key []) ks d = push_all (zip ks (replicate (length ks) [])) d"
  by (induction ks arbitrary: d) (simp_all add: push_all_def)

lemma read_cells_push:
  "i + length cells \<le> length (csv_header d) \<Longrightarrow> read_cells cells i d =
    Inr (push_all (zip (drop i (csv_header d)) (cells @ replicate (length (csv_header d) - i - length cells) [])) d)"
proof (induction cells arbitrary: i d)
  case Nil
  then show ?case by (simp add: fill_cells)
next
  case (Cons cell cells)
  then have i: "i < length (csv_header d)" by simp
  show ?case using Cons.prems Cons.IH [of "Suc i" "push_cell (csv_header d ! i) cell d"]
    by (simp add: i Cons_nth_drop_Suc [OF i, symmetric] push_all_def)
qed

lemma push_all_table:
  "distinct (map fst ps) \<Longrightarrow> csv_table (push_all ps d) k =
    (case map_of ps k of None \<Rightarrow> csv_table d k | Some c \<Rightarrow> Some (column d k @ [c]))"
proof (induction ps arbitrary: d)
  case (Cons p ps)
  obtain k' c where p: "p = (k', c)" by (cases p)
  then have "k' \<notin> fst ` set ps" using Cons.prems by auto
  then have "map_of ps k' = None" by (simp add: map_of_eq_None_iff)
  then show ?case using Cons p by (auto simp: push_all_def push_cell_table column_def split: option.splits)
qed (simp add: push_all_def)

text \<open>The document after some rows.\<close>

definition holds_rows :: "string list \<Rightarrow> string list list \<Rightarrow> csv_doc \<Rightarrow> bool" where
  "holds_rows hs rs d \<longleftrightarrow> csv_header d = hs \<and> (\<forall>j<length hs. csv_table d (hs ! j) = Some (map (\<lambda>r. r ! j) rs))"

lemma row_read:
  assumes "holds_rows hs rs d" and "distinct hs" and "length r = length hs" and "\<forall>c\<in>set r. cell_ok c"
  obtains d' where "read_cells (line_cells (csv_line r)) 0 d = Inr d'" and "holds_rows hs (rs @ [r]) d'"
proof -
  have hd: "csv_header d = hs" using assms(1) by (simp add: holds_rows_def)
  have pad: "kept r @ replicate (length hs - length (kept r)) [] = r"
  proof (cases "r \<noteq> [] \<and> last r = []")
    case True
    then have "length hs - (length hs - 1) = 1" using assms(3) by (cases r) auto
    then show ?thesis using True assms(3) append_butlast_last_id [of r] by (simp add: kept_def)
  next
    case False
    then show ?thesis using assms(3) by (auto simp: kept_def)
  qed
  have "length (kept r) \<le> length hs" using assms(3) by (simp add: kept_def)
  then have "read_cells (line_cells (csv_line r)) 0 d = Inr (push_all (zip hs r) d)"
    using read_cells_push [of 0 "kept r" d] line_cells_line [OF assms(4)] hd pad by simp
  moreover have "holds_rows hs (rs @ [r]) (push_all (zip hs r) d)"
  proof -
    have "csv_table (push_all (zip hs r) d) (hs ! j) = Some (map (\<lambda>r. r ! j) rs @ [r ! j])" if j: "j < length hs" for j
    proof -
      have "map_of (zip hs r) (hs ! j) = Some (r ! j)" using assms(2,3) j by (simp add: map_of_zip_nth)
      then show ?thesis
        using assms(1-3) j by (subst push_all_table) (simp_all add: holds_rows_def column_def)
    qed
    then show ?thesis using hd by (simp add: holds_rows_def)
  qed
  ultimately show ?thesis using that by blast
qed

lemma newline_cell: "cell_ok c \<Longrightarrow> newline \<notin> set c"
  by (simp add: cell_ok_def)

lemma newline_line: "\<forall>c\<in>set cs. cell_ok c \<Longrightarrow> newline \<notin> set (csv_line cs)"
  by (induction cs rule: csv_line.induct) (auto simp: newline_cell newline_def dest: newline_cell [unfolded newline_def])

lemma rows_read:
  assumes "holds_rows hs done d" and "distinct hs" and "\<forall>r\<in>set rs. length r = length hs \<and> (\<forall>c\<in>set r. cell_ok c)"
  shows "\<exists>d'. read_rows \<lparr>is_rest = concat (map (\<lambda>l. csv_line l @ [newline]) rs), is_failed = False\<rparr> d = Inr d' \<and>
    holds_rows hs (done @ rs) d'"
  using assms(1,3)
proof (induction rs arbitrary: "done" d)
  case Nil
  then show ?case by (simp add: read_rows.simps getline_to_end)
next
  case (Cons r rs)
  then have r: "length r = length hs" "\<forall>c\<in>set r. cell_ok c" by simp_all
  from row_read [OF Cons.prems(1) assms(2) r] obtain d1 where d1: "read_cells (line_cells (csv_line r)) 0 d = Inr d1"
    "holds_rows hs (done @ [r]) d1" .
  have "getline_to newline \<lparr>is_rest = csv_line r @ newline # concat (map (\<lambda>l. csv_line l @ [newline]) rs), is_failed = False\<rparr> =
      (csv_line r, \<lparr>is_rest = concat (map (\<lambda>l. csv_line l @ [newline]) rs), is_failed = False\<rparr>)"
    by (rule getline_to_found [OF newline_line [OF r(2)]])
  then show ?case
    using Cons.IH [OF d1(2)] Cons.prems(2) d1(1) by (subst read_rows.simps) simp
qed

lemma read_header_names:
  "csv_header (read_header cells d) = csv_header d @ cells"
  "csv_table (read_header cells d) k = (if k \<in> set cells then Some [] else csv_table d k)"
  by (induction cells arbitrary: d) auto

lemma least_name_mem: "ns \<noteq> [] \<Longrightarrow> least_name ns \<in> set ns"
  by (induction ns rule: least_name.induct) (auto simp: Let_def)

lemma getcells_row:
  "\<forall>j<length hs. csv_at (hs ! j) i d = Inr (r ! j) \<Longrightarrow> length r = length hs \<Longrightarrow> csv_getcells hs i d = Inr r"
proof (induction hs arbitrary: r)
  case (Cons h hs)
  obtain x xs where r: "r = x # xs" using Cons.prems(2) by (cases r) auto
  have "csv_at h i d = Inr x" using Cons.prems(1) r by auto
  moreover have "csv_getcells hs i d = Inr xs"
    using Cons.prems r by (intro Cons.IH) auto
  ultimately show ?case using r by simp
qed simp

text \<open>
  C31. Tables: the text of a table with distinct names and trimmed cells without commas is read with the same rows, also
  when the last cells of a row are empty.
\<close>

theorem csv_reads_table:
  assumes "hs \<noteq> []" and "distinct hs" and "last hs \<noteq> []" and "\<forall>c\<in>set hs. cell_ok c"
    and "\<forall>r\<in>set rs. length r = length hs \<and> (\<forall>c\<in>set r. cell_ok c)" and "path \<noteq> []" and "fs path = Some (csv_text hs rs)"
  shows "\<exists>d. CSVDocument_ctor fs path = Inr d \<and> csv_header d = hs \<and> csv_rows d = length rs \<and>
    (\<forall>i<length rs. csv_getrow i d = Inr (rs ! i))"
proof -
  let ?d0 = "read_header hs csv_empty"
  have "line_cells (csv_line hs) = hs" using line_cells_line [OF assms(4)] assms(3) by (simp add: kept_def)
  moreover have "getline_to newline \<lparr>is_rest = csv_text hs rs, is_failed = False\<rparr> =
      (csv_line hs, \<lparr>is_rest = concat (map (\<lambda>l. csv_line l @ [newline]) rs), is_failed = False\<rparr>)"
    using getline_to_found [OF newline_line [OF assms(4)]] by (simp add: csv_text_def)
  ultimately have start: "CSVDocument_ctor fs path =
      read_rows \<lparr>is_rest = concat (map (\<lambda>l. csv_line l @ [newline]) rs), is_failed = False\<rparr> ?d0"
    using assms(6,7) by (simp add: CSVDocument_ctor_def csv_readFile_def csv_readStream_def)
  have "holds_rows hs [] ?d0" by (simp add: holds_rows_def read_header_names csv_empty_def)
  from rows_read [OF this assms(2,5)] obtain d where d: "CSVDocument_ctor fs path = Inr d" "holds_rows hs rs d"
    using start by auto
  have at: "csv_at (hs ! j) i d = Inr (rs ! i ! j)" if "j < length hs" "i < length rs" for i j
    using d(2) that by (simp add: csv_at_def holds_rows_def)
  have "csv_getrow i d = Inr (rs ! i)" if "i < length rs" for i
    using d(2) at that assms(5) nth_mem [OF that] unfolding csv_getrow_def holds_rows_def by (intro getcells_row) simp_all
  moreover obtain j where "j < length hs" "hs ! j = least_name hs"
    using least_name_mem [OF assms(1)] by (auto simp: in_set_conv_nth)
  then have "csv_rows d = length rs" using d(2) assms(1) by (auto simp: csv_rows_def holds_rows_def)
  ultimately show ?thesis using d by (auto simp: holds_rows_def)
qed

lemma csv_reads_table_witness:
  "\<exists>d. CSVDocument_ctor (\<lambda>p. Some (csv_text [''model'', ''freq''] [[''a'', ''200''], [''b'', []]])) ''t.csv'' = Inr d \<and>
    csv_header d = [''model'', ''freq''] \<and> csv_rows d = 2 \<and> csv_getrow 1 d = Inr [''b'', []]"
  using csv_reads_table [of "[''model'', ''freq'']" "[[''a'', ''200''], [''b'', []]]" "''t.csv''"
    "\<lambda>p. Some (csv_text [''model'', ''freq''] [[''a'', ''200''], [''b'', []]])"]
  by (fastforce simp: cell_ok_def newline_def is_space_def)

end
