(* ===== verification/LoadGen.thy ===== *)
theory LoadGen
  imports RandomVars PowerModels TaskText
begin

text \<open>
  \<open>librtsim/load.cpp\<close> and \<open>load.hpp\<close>: sets of random tasks of a given load.  A factory draws the share of every task in
  the load, and its generators draw the times between arrivals, the computation times, the deadlines and the offsets.
  The classes of generators are the constructors of a kind, since they differ in a few methods only.  A null pointer to
  a variable is \<open>None\<close>.  What is printed is left out, and a division of doubles by zero, whose result is not a number, is
  an error (\<open>divE\<close>).
\<close>

section \<open>Generators\<close>

definition Tick_round :: "rat \<Rightarrow> tick" where
  "Tick_round x = (if x < 0 then - \<lfloor>1 / 2 - x\<rfloor> else \<lfloor>x + 1 / 2\<rfloor>)"

datatype iat_kind = ConstIAT | UniformIAT rat | MaxIAT rat | MinIAT rat
datatype ct_kind = ConstCT | UniformCT rat | MaxCT rat | MinCT rat
datatype dt_kind = DlineEquPeriodDT | SporadicDT tick rat | RandomDT rat rat

text \<open>\<open>taskSet\<close> of a generator says whether it was bound to a set before.\<close>

record iat_gen =
  ia_taskSet :: bool
  ia_kind :: iat_kind
  ia_va :: "rvar option list"
  ia_avg :: "tick list"
  ia_tMin :: tick
  ia_tMax :: tick
  ia_tGCD :: tick
  ia_minT :: tick

record ct_gen =
  cg_taskSet :: bool
  cg_kind :: ct_kind
  cg_va :: "rvar option list"
  cg_minC :: tick

record dt_gen =
  dt_taskSet :: bool
  dt_kind :: dt_kind
  dt_va :: "tick list"

record off_gen =
  of_taskSet :: bool
  of_va :: "tick list"
  of_step :: int
  of_limit :: int
  of_islimit :: bool

record factory =
  tf_count :: nat
  tf_size :: nat
  tf_u :: rat
  tf_minU :: rat
  tf_preciseU :: bool
  tf_tasks :: "task list"
  tf_load :: "rat list"
  tf_iat :: iat_gen
  tf_ct :: ct_gen
  tf_dt :: dt_gen
  tf_off :: "off_gen option"
  tf_gen :: random_gen

definition GENERATE_LIMIT :: nat where "GENERATE_LIMIT = 100"
definition NEWTON_PREC :: rat where "NEWTON_PREC = 1 / 1000"
definition UMIN_DEF :: rat where "UMIN_DEF = 1 / 1000"
definition GCD_DEF :: tick where "GCD_DEF = 1"
definition TMIN_DEF :: tick where "TMIN_DEF = 1"
definition CMIN_DEF :: tick where "CMIN_DEF = 1"
definition DELTA_DEF :: rat where "DELTA_DEF = 1 / 10"

definition IATGen_ctor :: "iat_kind \<Rightarrow> tick \<Rightarrow> tick \<Rightarrow> tick \<Rightarrow> tick \<Rightarrow> iat_gen" where
  "IATGen_ctor kind t1 t2 m g = \<lparr>ia_taskSet = False, ia_kind = kind, ia_va = [], ia_avg = [], ia_tMin = max t1 m, ia_tMax = t2, ia_tGCD = g, ia_minT = m\<rparr>"

definition CTGen_ctor :: "ct_kind \<Rightarrow> tick \<Rightarrow> ct_gen" where
  "CTGen_ctor kind c = \<lparr>cg_taskSet = False, cg_kind = kind, cg_va = [], cg_minC = c\<rparr>"

definition DTGen_ctor :: "dt_kind \<Rightarrow> dt_gen" where
  "DTGen_ctor kind = \<lparr>dt_taskSet = False, dt_kind = kind, dt_va = []\<rparr>"

definition RandomOffsetGen_ctor :: "int \<Rightarrow> bool \<Rightarrow> int \<Rightarrow> off_gen" where
  "RandomOffsetGen_ctor step islimit limit = \<lparr>of_taskSet = False, of_va = [], of_step = step, of_limit = limit, of_islimit = islimit\<rparr>"

section \<open>Times between arrivals\<close>

definition IATGen_getAvg :: "nat \<Rightarrow> iat_gen \<Rightarrow> tick" where
  "IATGen_getAvg i g = ia_avg g ! i"

definition IATGen_getMin :: "nat \<Rightarrow> iat_gen \<Rightarrow> tick" where
  "IATGen_getMin i g = (case ia_kind g of
      ConstIAT \<Rightarrow> IATGen_getAvg i g
    | UniformIAT delta \<Rightarrow> Tick_floor (of_int (IATGen_getAvg i g) * (1 - delta))
    | MaxIAT delta \<Rightarrow> Tick_floor (of_int (IATGen_getAvg i g) * (1 - delta))
    | MinIAT delta \<Rightarrow> IATGen_getAvg i g)"

definition IATGen_getMax :: "nat \<Rightarrow> iat_gen \<Rightarrow> tick" where
  "IATGen_getMax i g = (case ia_kind g of
      ConstIAT \<Rightarrow> IATGen_getAvg i g
    | UniformIAT delta \<Rightarrow> Tick_ceil (of_int (IATGen_getAvg i g) * (1 + delta))
    | MaxIAT delta \<Rightarrow> IATGen_getAvg i g
    | MinIAT delta \<Rightarrow> Tick_ceil (of_int (IATGen_getAvg i g) * (1 + delta)))"

text \<open>The first step of \<open>generate\<close>; the loop has the number of tasks that are left.\<close>

fun IATGen_avg_loop :: "uniform_var \<Rightarrow> nat \<Rightarrow> nat \<Rightarrow> iat_gen \<Rightarrow> random_gen \<Rightarrow> bool \<times> iat_gen \<times> random_gen" where
  "IATGen_avg_loop r 0 i g rg = (True, g, rg)"
| "IATGen_avg_loop r (Suc n) i g rg =
    (let (x, r1, rg1) = UniformVar_get r rg; g1 = g\<lparr>ia_avg := (ia_avg g)[i := Tick_round x * ia_tGCD g]\<rparr>
     in if IATGen_getMin i g1 < ia_minT g1 then (False, g1, rg1) else IATGen_avg_loop r1 n (Suc i) g1 rg1)"

definition IATGen_generate_avg :: "nat \<Rightarrow> iat_gen \<Rightarrow> random_gen \<Rightarrow> bool \<times> iat_gen \<times> random_gen" where
  "IATGen_generate_avg sz g rg = IATGen_avg_loop (UniformVar_ctor (of_int (ia_tMin g)) (of_int (ia_tMax g))) sz 0 g rg"

text \<open>The second step, of the subclasses.\<close>

definition IATGen_var :: "nat \<Rightarrow> iat_gen \<Rightarrow> rvar" where
  "IATGen_var i g = (case ia_kind g of ConstIAT \<Rightarrow> DeltaV (of_int (IATGen_getAvg i g))
     | _ \<Rightarrow> UniformV (UniformVar_ctor (of_int (IATGen_getMin i g)) (of_int (IATGen_getMax i g))))"

definition IATGen_generate :: "nat \<Rightarrow> iat_gen \<Rightarrow> random_gen \<Rightarrow> bool \<times> iat_gen \<times> random_gen" where
  "IATGen_generate sz g rg =
    (let (ok, g1, rg1) = IATGen_generate_avg sz g rg
     in if ok then (True, g1\<lparr>ia_va := map (\<lambda>i. Some (IATGen_var i g1)) [0..<sz]\<rparr>, rg1) else (False, g1, rg1))"

text \<open>The vectors of a generator that was not bound are empty; one that was bound keeps its set.\<close>

definition IATGen_bind :: "nat \<Rightarrow> iat_gen \<Rightarrow> iat_gen" where
  "IATGen_bind sz g = (if \<not> ia_taskSet g then g\<lparr>ia_taskSet := True, ia_va := replicate sz None, ia_avg := replicate sz 0\<rparr> else g)"

section \<open>Computation times\<close>

definition factory_getLoad :: "nat \<Rightarrow> factory \<Rightarrow> rat" where
  "factory_getLoad i F = tf_load F ! i"

definition CTGen_getAvg :: "nat \<Rightarrow> factory \<Rightarrow> tick" where
  "CTGen_getAvg i F = Tick_round (of_int (IATGen_getAvg i (tf_iat F)) * factory_getLoad i F)"

definition CTGen_getMin :: "nat \<Rightarrow> factory \<Rightarrow> tick" where
  "CTGen_getMin i F = (case cg_kind (tf_ct F) of
      ConstCT \<Rightarrow> CTGen_getAvg i F
    | UniformCT delta \<Rightarrow> Tick_floor (of_int (CTGen_getAvg i F) * (1 - delta))
    | MaxCT delta \<Rightarrow> Tick_floor (of_int (CTGen_getAvg i F) * (1 - delta))
    | MinCT delta \<Rightarrow> CTGen_getAvg i F)"

definition CTGen_getMax :: "nat \<Rightarrow> factory \<Rightarrow> tick" where
  "CTGen_getMax i F = (case cg_kind (tf_ct F) of
      ConstCT \<Rightarrow> CTGen_getAvg i F
    | UniformCT delta \<Rightarrow> Tick_ceil (of_int (CTGen_getAvg i F) * (1 + delta))
    | MaxCT delta \<Rightarrow> CTGen_getAvg i F
    | MinCT delta \<Rightarrow> Tick_ceil (of_int (CTGen_getAvg i F) * (1 + delta)))"

definition CTGen_var :: "nat \<Rightarrow> factory \<Rightarrow> rvar" where
  "CTGen_var i F = (case cg_kind (tf_ct F) of ConstCT \<Rightarrow> DeltaV (of_int (CTGen_getAvg i F))
     | _ \<Rightarrow> UniformV (UniformVar_ctor (of_int (CTGen_getMin i F)) (of_int (CTGen_getMax i F))))"

definition set_ct_var :: "nat \<Rightarrow> factory \<Rightarrow> factory" where
  "set_ct_var i F = F\<lparr>tf_ct := (tf_ct F)\<lparr>cg_va := (cg_va (tf_ct F))[i := Some (CTGen_var i F)]\<rparr>\<rparr>"

text \<open>\<open>ConstCTGen\<close> makes the variables up to the first that is too small, the others make all or none.\<close>

fun ConstCTGen_loop :: "nat \<Rightarrow> nat \<Rightarrow> factory \<Rightarrow> bool \<times> factory" where
  "ConstCTGen_loop 0 i F = (True, F)"
| "ConstCTGen_loop (Suc n) i F =
    (if CTGen_getAvg i F < cg_minC (tf_ct F) then (False, F) else ConstCTGen_loop n (Suc i) (set_ct_var i F))"

definition UniformCTGen_generate :: "factory \<Rightarrow> bool \<times> factory" where
  "UniformCTGen_generate F =
    (if \<exists>i<tf_size F. CTGen_getMin i F < cg_minC (tf_ct F) then (False, F) else (True, fold set_ct_var [0..<tf_size F] F))"

definition CTGen_generate :: "factory \<Rightarrow> bool \<times> factory" where
  "CTGen_generate F = (case cg_kind (tf_ct F) of ConstCT \<Rightarrow> ConstCTGen_loop (tf_size F) 0 F | _ \<Rightarrow> UniformCTGen_generate F)"

definition CTGen_bind :: "nat \<Rightarrow> ct_gen \<Rightarrow> ct_gen" where
  "CTGen_bind sz g = (let g1 = (if \<not> cg_taskSet g then g\<lparr>cg_taskSet := True, cg_va := replicate sz None\<rparr> else g)
     in g1\<lparr>cg_va := map (\<lambda>_. None) (cg_va g1)\<rparr>)"

section \<open>Deadlines and offsets\<close>

definition DTGen_getAvg :: "nat \<Rightarrow> dt_gen \<Rightarrow> tick" where
  "DTGen_getAvg i g = dt_va g ! i"

definition DTGen_bind :: "nat \<Rightarrow> dt_gen \<Rightarrow> dt_gen" where
  "DTGen_bind sz g = (if \<not> dt_taskSet g then g\<lparr>dt_taskSet := True, dt_va := replicate sz 0\<rparr> else g)"

definition set_deadline :: "nat \<Rightarrow> tick \<Rightarrow> factory \<Rightarrow> factory" where
  "set_deadline i t F = F\<lparr>tf_dt := (tf_dt F)\<lparr>dt_va := (dt_va (tf_dt F))[i := t]\<rparr>\<rparr>"

definition draw :: "uniform_var \<Rightarrow> factory \<Rightarrow> rat \<times> factory" where
  "draw r F = (let (x, r1, rg1) = UniformVar_get r (tf_gen F) in (x, F\<lparr>tf_gen := rg1\<rparr>))"

definition DTGen_deadline :: "nat \<Rightarrow> factory \<Rightarrow> factory" where
  "DTGen_deadline i F = (case dt_kind (tf_dt F) of
      DlineEquPeriodDT \<Rightarrow> set_deadline i (IATGen_getAvg i (tf_iat F)) F
    | SporadicDT d _ \<Rightarrow> set_deadline i (IATGen_getMin i (tf_iat F)) F
    | RandomDT lo hi \<Rightarrow>
        (let (x, F1) = draw (UniformVar_ctor lo hi) F; t = Tick_round (x * of_int (IATGen_getMin i (tf_iat F)))
         in set_deadline i (max (CTGen_getMax i F1) t) F1))"

definition DTGen_generate :: "factory \<Rightarrow> factory" where
  "DTGen_generate F = fold DTGen_deadline [0..<tf_size F] F"

definition OffsetGen_getAvg :: "nat \<Rightarrow> off_gen \<Rightarrow> tick" where
  "OffsetGen_getAvg i g = of_va g ! i"

definition OffsetGen_bind :: "nat \<Rightarrow> off_gen \<Rightarrow> off_gen" where
  "OffsetGen_bind sz g = (if \<not> of_taskSet g then g\<lparr>of_taskSet := True, of_va := replicate sz 0\<rparr> else g)"

text \<open>The division of a tick by the step is one of integers, and an \<open>int\<close> has 32 bits.\<close>

definition RandomOffsetGen_limit :: "off_gen \<Rightarrow> tick \<Rightarrow> exc + int" where
  "RandomOffsetGen_limit g t =
    (if of_step g = 0 then Inl DivisionByZero
     else let m = signed_take_bit 31 (t sdiv of_step g)
          in Inr (if of_islimit g then min m (of_limit g sdiv of_step g) else m))"

definition RandomOffsetGen_offset :: "off_gen \<Rightarrow> nat \<Rightarrow> factory \<Rightarrow> exc + factory" where
  "RandomOffsetGen_offset g i F = bindE (RandomOffsetGen_limit g (IATGen_getMin i (tf_iat F))) (\<lambda>mylimit.
     let (x, F1) = draw (UniformVar_ctor 0 (of_int mylimit)) F
     in Inr (F1\<lparr>tf_off := map_option (\<lambda>h. h\<lparr>of_va := (of_va h)[i := Tick_round x * of_step h]\<rparr>) (tf_off F1)\<rparr>))"

definition OffsetGen_generate :: "factory \<Rightarrow> exc + factory" where
  "OffsetGen_generate F = (case tf_off F of None \<Rightarrow> Inr F
     | Some g \<Rightarrow> steps (map (RandomOffsetGen_offset g) [0..<tf_size F]) F)"

section \<open>The load\<close>

text \<open>The loop of Newton's method, whose steps get small or not.\<close>

partial_function (option) newton_loop :: "nat \<Rightarrow> nat \<Rightarrow> rat \<Rightarrow> rat \<Rightarrow> (exc + rat) option" where
  [code]: "newton_loop sz i l x =
    (let p = (1 - x) ^ (sz - i - 1) in
     case divE (1 - p * (1 - x) - l) (of_nat (sz - i) * p) of Inl e \<Rightarrow> Some (Inl e)
     | Inr d \<Rightarrow> let x1 = x - d in if NEWTON_PREC / of_nat sz < x1 - x then newton_loop sz i l x1 else Some (Inr x1))"

definition newton :: "nat \<Rightarrow> nat \<Rightarrow> rat \<Rightarrow> (exc + rat) option" where
  "newton sz i l = newton_loop sz i l 0"

fun draw_loads :: "nat \<Rightarrow> uniform_var \<Rightarrow> random_gen \<Rightarrow> rat list \<times> random_gen" where
  "draw_loads 0 r rg = ([], rg)"
| "draw_loads (Suc n) r rg =
    (let (l, r1, rg1) = UniformVar_get r rg; (ls, rg2) = draw_loads n r1 rg1 in (l # ls, rg2))"

text \<open>The loads are scaled up to the first that is too small.\<close>

fun scale_loads :: "rat \<Rightarrow> rat \<Rightarrow> rat \<Rightarrow> rat list \<Rightarrow> exc + bool \<times> rat list" where
  "scale_loads tot u minU [] = Inr (True, [])"
| "scale_loads tot u minU (l # ls) = bindE (divE l tot) (\<lambda>q. let l' = q * u in
     if l' < minU then Inr (False, l' # ls)
     else bindE (scale_loads tot u minU ls) (\<lambda>(ok, ls'). Inr (ok, l' # ls')))"

fun newton_loads :: "nat \<Rightarrow> nat \<Rightarrow> nat \<Rightarrow> uniform_var \<Rightarrow> random_gen \<Rightarrow> (exc + rat list \<times> random_gen) option" where
  "newton_loads sz 0 i r rg = Some (Inr ([], rg))"
| "newton_loads sz (Suc n) i r rg =
    (let (l, r1, rg1) = UniformVar_get r rg in
     bindN (newton sz (i + 1) l) (\<lambda>x. bindN (newton_loads sz n (i + 1) r1 rg1) (\<lambda>(xs, rg2). Some (Inr (x # xs, rg2)))))"

fun precise_loads :: "rat \<Rightarrow> rat \<Rightarrow> rat \<Rightarrow> rat list \<Rightarrow> bool \<times> rat list" where
  "precise_loads tot u minU [] =
    (if (1 - tot) * u < minU then (False, []) else (True, [(1 - tot) * u]))"
| "precise_loads tot u minU (l # ls) =
    (let l1 = l * (1 - tot); tot1 = tot + l1; l2 = l1 * u in
     if l2 < minU then (False, l2 # ls) else let (ok, ls') = precise_loads tot1 u minU ls in (ok, l2 # ls'))"

definition draw_shares :: "factory \<Rightarrow> (exc + bool \<times> factory) option" where
  "draw_shares F =
    (let r = UniformVar_ctor 0 1 in
     if \<not> tf_preciseU F then
       let (ls, rg) = draw_loads (tf_size F) r (tf_gen F)
       in Some (bindE (scale_loads (sum_list ls) (tf_u F) (tf_minU F) ls) (\<lambda>(ok, ls'). Inr (ok, F\<lparr>tf_load := ls', tf_gen := rg\<rparr>)))
     else bindN (newton_loads (tf_size F) (tf_size F - 1) 0 r (tf_gen F)) (\<lambda>(ls, rg). case ls of
         [] \<Rightarrow> Some (Inl (UndefinedBehaviour ''load[0]''))
       | l # ls1 \<Rightarrow> let (ok, ls2) = precise_loads l (tf_u F) (tf_minU F) ls1
                    in Some (Inr (ok, F\<lparr>tf_load := l * tf_u F # ls2, tf_gen := rg\<rparr>))))"

definition factory_generateLoad :: "factory \<Rightarrow> (exc + bool \<times> factory) option" where
  "factory_generateLoad F = bindN (draw_shares F) (\<lambda>(ok, F1).
     if \<not> ok then Some (Inr (False, F1))
     else Some (bindE (OffsetGen_generate (DTGen_generate F1)) (\<lambda>F2. Inr (True, F2))))"

section \<open>The set of tasks\<close>

definition generate_times :: "factory \<Rightarrow> bool \<times> factory" where
  "generate_times F =
    (let (ok, g, rg) = IATGen_generate (tf_size F) (tf_iat F) (tf_gen F); F1 = F\<lparr>tf_iat := g, tf_gen := rg\<rparr>
     in if ok then CTGen_generate F1 else (False, F1\<lparr>tf_count := tf_count F1 + 1\<rparr>))"

definition factory_trial :: "factory \<Rightarrow> (exc + bool \<times> factory) option" where
  "factory_trial F = bindN (factory_generateLoad F) (\<lambda>(ok, F1).
     Some (Inr (if ok then generate_times F1 else (False, F1\<lparr>tf_count := tf_count F1 + 1\<rparr>))))"

text \<open>A trial whose computation times are too small is not counted: the loop may not end.\<close>

partial_function (option) factory_generate :: "factory \<Rightarrow> (exc + bool \<times> factory) option" where
  [code]: "factory_generate F = (case factory_trial F of None \<Rightarrow> None | Some (Inl e) \<Rightarrow> Some (Inl e)
     | Some (Inr (ok, F1)) \<Rightarrow> if \<not> ok \<and> tf_count F1 \<le> GENERATE_LIMIT then factory_generate F1 else Some (Inr (ok, F1)))"

text \<open>\<open>sinthesize\<close>: \<open>draws\<close> says what values a variable will return, \<open>ids\<close> the numbers of the new entities.\<close>

definition CTGen_sinthesize :: "(rvar \<Rightarrow> randvar) \<Rightarrow> nat \<Rightarrow> factory \<Rightarrow> task \<Rightarrow> task" where
  "CTGen_sinthesize draws i F t = (case cg_va (tf_ct F) ! i of None \<Rightarrow> t
     | Some v \<Rightarrow> t\<lparr>instrQueue := instrQueue t @ [ExecInstr (ExecInstr_ctor (draws v) [])]\<rparr>)"

definition factory_sinthesize_task :: "(rvar \<Rightarrow> randvar) \<Rightarrow> (nat \<Rightarrow> int) \<Rightarrow> factory \<Rightarrow> nat \<Rightarrow> task" where
  "factory_sinthesize_task draws ids F i =
    CTGen_sinthesize draws i F ((Task_ctor (ids i) (map_option draws (ia_va (tf_iat F) ! i)) (DTGen_getAvg i (tf_dt F))
      (case tf_off F of None \<Rightarrow> 0 | Some g \<Rightarrow> OffsetGen_getAvg i g) 1000 0)\<lparr>dead_abort := False\<rparr>)"

definition factory_sinthesize :: "(rvar \<Rightarrow> randvar) \<Rightarrow> (nat \<Rightarrow> int) \<Rightarrow> factory \<Rightarrow> factory" where
  "factory_sinthesize draws ids F = F\<lparr>tf_tasks := tf_tasks F @ map (factory_sinthesize_task draws ids F) [0..<tf_size F]\<rparr>"

definition factory_init :: "int \<Rightarrow> rat \<Rightarrow> iat_gen \<Rightarrow> ct_gen \<Rightarrow> dt_gen \<Rightarrow> off_gen option \<Rightarrow> rat \<Rightarrow> bool \<Rightarrow> random_gen \<Rightarrow> factory" where
  "factory_init n u g1 g2 g3 g4 minU preciseU rg = (let sz = nat n in
     \<lparr>tf_count = 0, tf_size = sz, tf_u = u, tf_minU = minU, tf_preciseU = preciseU, tf_tasks = [], tf_load = [],
       tf_iat = IATGen_bind sz g1, tf_ct = CTGen_bind sz g2, tf_dt = DTGen_bind sz g3,
       tf_off = map_option (OffsetGen_bind sz) g4, tf_gen = rg\<rparr>)"

definition SET_GEN :: exc where
  "SET_GEN = BaseExc ''The set was already generated.''"

text \<open>
  A generator that was bound to another set still refers to that set, to its loads and its size, and to the generators of
  it, whether they exist or not: a set that is made with such a generator is not defined.
\<close>

definition already_bound :: "iat_gen \<Rightarrow> ct_gen \<Rightarrow> dt_gen \<Rightarrow> off_gen option \<Rightarrow> bool" where
  "already_bound g1 g2 g3 g4 \<longleftrightarrow> ia_taskSet g1 \<or> cg_taskSet g2 \<or> dt_taskSet g3 \<or> (case g4 of None \<Rightarrow> False | Some g \<Rightarrow> of_taskSet g)"

definition RandomTaskSetFactory_ctor ::
    "(rvar \<Rightarrow> randvar) \<Rightarrow> (nat \<Rightarrow> int) \<Rightarrow> int \<Rightarrow> rat \<Rightarrow> iat_gen \<Rightarrow> ct_gen \<Rightarrow> dt_gen \<Rightarrow> off_gen option \<Rightarrow> rat \<Rightarrow> bool \<Rightarrow>
     random_gen \<Rightarrow> (exc + factory) option" where
  "RandomTaskSetFactory_ctor draws ids n u g1 g2 g3 g4 minU preciseU rg =
    (if n < 0 then Some (Inl (StdExc ''std::length_error''))
     else if already_bound g1 g2 g3 g4 then Some (Inl (UndefinedBehaviour ''taskSet''))
     else bindN (factory_generate (factory_init n u g1 g2 g3 g4 minU preciseU rg)) (\<lambda>(ok, F).
       Some (if ok then Inr (factory_sinthesize draws ids F) else Inl SET_GEN)))"

section \<open>Reading a set\<close>

text \<open>\<open>chk\<close> lets the index of the size pass.\<close>

definition factory_chk :: "int \<Rightarrow> factory \<Rightarrow> exc + unit" where
  "factory_chk i F = (if i < 0 \<or> int (tf_size F) < i then Inl (BaseExc ''Index out of range'') else Inr ())"

definition factory_read :: "(nat \<Rightarrow> 'a) \<Rightarrow> int \<Rightarrow> factory \<Rightarrow> exc + 'a" where
  "factory_read f i F = bindE (factory_chk i F) (\<lambda>_.
     if nat i < tf_size F then Inr (f (nat i)) else Inl (UndefinedBehaviour ''index''))"

definition factory_getMaxCT :: "int \<Rightarrow> factory \<Rightarrow> exc + tick" where
  "factory_getMaxCT i F = factory_read (\<lambda>k. CTGen_getMax k F) i F"

definition factory_getAvgCT :: "int \<Rightarrow> factory \<Rightarrow> exc + tick" where
  "factory_getAvgCT i F = factory_read (\<lambda>k. CTGen_getAvg k F) i F"

definition factory_getMinCT :: "int \<Rightarrow> factory \<Rightarrow> exc + tick" where
  "factory_getMinCT i F = factory_read (\<lambda>k. CTGen_getMin k F) i F"

definition factory_getMaxIAT :: "int \<Rightarrow> factory \<Rightarrow> exc + tick" where
  "factory_getMaxIAT i F = factory_read (\<lambda>k. IATGen_getMax k (tf_iat F)) i F"

definition factory_getAvgIAT :: "int \<Rightarrow> factory \<Rightarrow> exc + tick" where
  "factory_getAvgIAT i F = factory_read (\<lambda>k. IATGen_getAvg k (tf_iat F)) i F"

definition factory_getMinIAT :: "int \<Rightarrow> factory \<Rightarrow> exc + tick" where
  "factory_getMinIAT i F = factory_read (\<lambda>k. IATGen_getMin k (tf_iat F)) i F"

definition factory_getOffset :: "int \<Rightarrow> factory \<Rightarrow> exc + tick" where
  "factory_getOffset i F = (case tf_off F of None \<Rightarrow> bindE (factory_chk i F) (\<lambda>_. Inr 0)
     | Some g \<Rightarrow> factory_read (\<lambda>k. OffsetGen_getAvg k g) i F)"

definition factory_getDeadline :: "int \<Rightarrow> factory \<Rightarrow> exc + tick" where
  "factory_getDeadline i F = factory_read (\<lambda>k. DTGen_getAvg k (tf_dt F)) i F"

definition factory_getTask :: "int \<Rightarrow> factory \<Rightarrow> exc + task" where
  "factory_getTask i F = factory_read (\<lambda>k. tf_tasks F ! k) i F"

text \<open>The quotients of times, and their sums.\<close>

definition factory_quotient :: "(int \<Rightarrow> factory \<Rightarrow> exc + tick) \<Rightarrow> (int \<Rightarrow> factory \<Rightarrow> exc + tick) \<Rightarrow> int \<Rightarrow> factory \<Rightarrow> exc + rat" where
  "factory_quotient ct iat i F = bindE (ct i F) (\<lambda>c. bindE (iat i F) (\<lambda>t. divE (of_int c) (of_int t)))"

definition factory_getAvgLoad :: "int \<Rightarrow> factory \<Rightarrow> exc + rat" where
  "factory_getAvgLoad = factory_quotient factory_getAvgCT factory_getAvgIAT"

definition factory_getMaxLoad :: "int \<Rightarrow> factory \<Rightarrow> exc + rat" where
  "factory_getMaxLoad = factory_quotient factory_getMaxCT factory_getMinIAT"

definition factory_getMinLoad :: "int \<Rightarrow> factory \<Rightarrow> exc + rat" where
  "factory_getMinLoad = factory_quotient factory_getMinCT factory_getMaxIAT"

fun factory_sum :: "(int \<Rightarrow> factory \<Rightarrow> exc + rat) \<Rightarrow> nat \<Rightarrow> factory \<Rightarrow> exc + rat" where
  "factory_sum f 0 F = Inr 0"
| "factory_sum f (Suc n) F = bindE (factory_sum f n F) (\<lambda>r. bindE (f (int n) F) (\<lambda>x. Inr (r + x)))"

definition factory_totalAvgLoad :: "factory \<Rightarrow> exc + rat" where
  "factory_totalAvgLoad F = factory_sum factory_getAvgLoad (tf_size F) F"

definition factory_totalMaxLoad :: "factory \<Rightarrow> exc + rat" where
  "factory_totalMaxLoad F = factory_sum factory_getMaxLoad (tf_size F) F"

definition factory_totalMinLoad :: "factory \<Rightarrow> exc + rat" where
  "factory_totalMinLoad F = factory_sum factory_getMinLoad (tf_size F) F"

text \<open>
  \<open>cleanVector\<close> of the variables of a generator deletes them; those that were given to the tasks are deleted with the
  tasks already, or will be.  So a set that has tasks cannot be renormalized or destroyed.  \<open>rebuild\<close> leaves
  the vector of the variables empty, and \<open>generate\<close> writes into it.
\<close>

definition cleanVector :: "rvar option list \<Rightarrow> exc + rvar option list" where
  "cleanVector va = (if \<exists>v\<in>set va. v \<noteq> None then Inl (UndefinedBehaviour ''delete'') else Inr [])"

definition factory_renormalize :: "(rvar \<Rightarrow> randvar) \<Rightarrow> rat \<Rightarrow> factory \<Rightarrow> exc + factory" where
  "factory_renormalize draws newload F =
    (let F1 = F\<lparr>tf_tasks := map (\<lambda>t. t\<lparr>instrQueue := []\<rparr>) (tf_tasks F)\<rparr> in
     bindE (mapE (\<lambda>l. bindE (divE l (tf_u F1)) (\<lambda>q. Inr (q * newload))) (tf_load F1)) (\<lambda>ls.
     let F2 = F1\<lparr>tf_load := ls, tf_u := newload\<rparr> in
     bindE (cleanVector (cg_va (tf_ct F2))) (\<lambda>va.
     if 0 < tf_size F2 then Inl (UndefinedBehaviour ''va[i]'') else
     let (ok, F3) = CTGen_generate (F2\<lparr>tf_ct := (tf_ct F2)\<lparr>cg_va := va\<rparr>\<rparr>) in
     if ok then Inr (F3\<lparr>tf_tasks := map (\<lambda>i. CTGen_sinthesize draws i F3 (tf_tasks F3 ! i)) [0..<tf_size F3]\<rparr>)
     else Inl ProcessExit)))"

definition RandomTaskSetFactory_dtor :: "factory \<Rightarrow> exc + unit" where
  "RandomTaskSetFactory_dtor F = bindE (cleanVector (ia_va (tf_iat F))) (\<lambda>_. Inr ())"

end
