(* ===== verification/LoadGen_Laws.thy ===== *)
theory LoadGen_Laws
  imports LoadGen RandomVars_Laws
begin

text \<open>
  What a set of random tasks looks like: its loads add up, but they are all the same when they are not drawn precisely, and
  so are the periods; the deadlines come from the periods of the trial before; and a load that is too small for
  the computation times is tried for ever.
\<close>

section \<open>What a trial leaves\<close>

lemma set_ct_var_same [simp]:
  "tf_load (set_ct_var i F) = tf_load F" "tf_u (set_ct_var i F) = tf_u F" "tf_size (set_ct_var i F) = tf_size F"
  "tf_minU (set_ct_var i F) = tf_minU F" "tf_preciseU (set_ct_var i F) = tf_preciseU F" "tf_iat (set_ct_var i F) = tf_iat F"
  "tf_dt (set_ct_var i F) = tf_dt F" "tf_off (set_ct_var i F) = tf_off F" "tf_count (set_ct_var i F) = tf_count F"
  "tf_gen (set_ct_var i F) = tf_gen F" "tf_tasks (set_ct_var i F) = tf_tasks F" "cg_kind (tf_ct (set_ct_var i F)) = cg_kind (tf_ct F)"
  "cg_minC (tf_ct (set_ct_var i F)) = cg_minC (tf_ct F)"
  by (simp_all add: set_ct_var_def)

text \<open>All that computation times do not change.\<close>

definition ct_same :: "factory \<Rightarrow> factory \<Rightarrow> bool" where
  "ct_same F F' \<longleftrightarrow> (\<exists>va. F' = F\<lparr>tf_ct := (tf_ct F)\<lparr>cg_va := va\<rparr>\<rparr>)"

lemma ct_same_refl [simp]: "ct_same F F"
  unfolding ct_same_def by (rule exI [of _ "cg_va (tf_ct F)"]) simp

lemma ct_same_set: "ct_same F F' \<Longrightarrow> ct_same F (set_ct_var i F')"
  by (auto simp: ct_same_def set_ct_var_def)

lemma ct_same_fold: "ct_same F F' \<Longrightarrow> ct_same F (fold set_ct_var is F')"
  by (induction "is" arbitrary: F') (auto intro: ct_same_set)

lemma ct_same_loop: "ct_same F F' \<Longrightarrow> ct_same F (snd (ConstCTGen_loop n i F'))"
  by (induction n arbitrary: i F') (auto intro: ct_same_set)

lemma ct_same_generate: "ct_same F (snd (CTGen_generate F))"
  by (auto simp: CTGen_generate_def UniformCTGen_generate_def ct_same_loop ct_same_fold split: ct_kind.split)

lemma ct_sameD:
  assumes "ct_same F F'"
  shows "tf_load F' = tf_load F" "tf_u F' = tf_u F" "tf_size F' = tf_size F" "tf_minU F' = tf_minU F" "tf_preciseU F' = tf_preciseU F"
    "tf_iat F' = tf_iat F" "tf_dt F' = tf_dt F" "tf_off F' = tf_off F" "tf_count F' = tf_count F" "tf_gen F' = tf_gen F" "tf_tasks F' = tf_tasks F"
    "cg_kind (tf_ct F') = cg_kind (tf_ct F)" "cg_minC (tf_ct F') = cg_minC (tf_ct F)"
proof -
  obtain va where "F' = F\<lparr>tf_ct := (tf_ct F)\<lparr>cg_va := va\<rparr>\<rparr>" using assms unfolding ct_same_def by blast
  then show "tf_load F' = tf_load F" "tf_u F' = tf_u F" "tf_size F' = tf_size F" "tf_minU F' = tf_minU F" "tf_preciseU F' = tf_preciseU F"
    "tf_iat F' = tf_iat F" "tf_dt F' = tf_dt F" "tf_off F' = tf_off F" "tf_count F' = tf_count F" "tf_gen F' = tf_gen F" "tf_tasks F' = tf_tasks F"
    "cg_kind (tf_ct F') = cg_kind (tf_ct F)" "cg_minC (tf_ct F') = cg_minC (tf_ct F)" by simp_all
qed

text \<open>What deadlines and offsets leave: the set, its loads and its periods.\<close>

definition set_same :: "factory \<Rightarrow> factory \<Rightarrow> bool" where
  "set_same F F' \<longleftrightarrow> tf_load F' = tf_load F \<and> tf_u F' = tf_u F \<and> tf_size F' = tf_size F \<and> tf_minU F' = tf_minU F \<and>
     tf_preciseU F' = tf_preciseU F \<and> tf_iat F' = tf_iat F \<and> tf_ct F' = tf_ct F \<and> tf_count F' = tf_count F \<and> tf_tasks F' = tf_tasks F"

lemma set_same_refl [simp]: "set_same F F" by (simp add: set_same_def)
lemma set_same_trans: "set_same F G \<Longrightarrow> set_same G H \<Longrightarrow> set_same F H" by (simp add: set_same_def)

lemma draw_same: "draw r F = (x, F1) \<Longrightarrow> set_same F F1 \<and> tf_dt F1 = tf_dt F \<and> tf_off F1 = tf_off F"
  by (auto simp: draw_def set_same_def split: prod.splits)

lemma deadline_same: "set_same F (DTGen_deadline i F)"
  by (auto simp: DTGen_deadline_def set_deadline_def Let_def set_same_def draw_def split: dt_kind.splits prod.splits)

lemma deadlines_same: "set_same F F' \<Longrightarrow> set_same F (fold DTGen_deadline is F')"
  by (induction "is" arbitrary: F') (auto intro: set_same_trans [OF _ deadline_same])

lemma offset_same: "RandomOffsetGen_offset g i F = Inr F' \<Longrightarrow> set_same F F' \<and> tf_dt F' = tf_dt F"
  by (auto simp: RandomOffsetGen_offset_def bindE_eq_Inr set_same_def draw_def Let_def split: prod.splits)

lemma offsets_same: "steps (map (RandomOffsetGen_offset g) is) F = Inr F' \<Longrightarrow> set_same F F' \<and> tf_dt F' = tf_dt F"
proof (induction "is" arbitrary: F)
  case (Cons i "is")
  then obtain G where G: "RandomOffsetGen_offset g i F = Inr G" "steps (map (RandomOffsetGen_offset g) is) G = Inr F'"
    by (auto simp: bindE_eq_Inr)
  from offset_same [OF G(1)] Cons.IH [OF G(2)] show ?case by (auto intro: set_same_trans)
qed simp

lemma generateLoad_cases:
  assumes "factory_generateLoad F = Some (Inr (ok, F2))"
  obtains F1 where "draw_shares F = Some (Inr (ok, F1))" and "set_same F1 F2" and "ok \<Longrightarrow> tf_dt F2 = tf_dt (DTGen_generate F1)"
proof -
  obtain F1 where F1: "draw_shares F = Some (Inr (ok, F1))"
    and rest: "if ok then OffsetGen_generate (DTGen_generate F1) = Inr F2 else F2 = F1"
    using assms by (auto simp: factory_generateLoad_def bindN_def bindE_eq_Inr split: option.splits sum.splits if_splits)
  have "set_same F1 F2 \<and> (ok \<longrightarrow> tf_dt F2 = tf_dt (DTGen_generate F1))"
  proof (cases ok)
    case True
    have "set_same F1 (DTGen_generate F1)" unfolding DTGen_generate_def by (rule deadlines_same) simp
    moreover have "set_same (DTGen_generate F1) F2 \<and> tf_dt F2 = tf_dt (DTGen_generate F1)"
      using rest True offsets_same by (auto simp: OffsetGen_generate_def split: option.splits)
    ultimately show ?thesis by (auto intro: set_same_trans)
  qed (use rest in auto)
  with F1 show thesis using that by blast
qed

lemma draw_shares_same:
  assumes "draw_shares F = Some (Inr (ok, F1))"
  shows "F1 = F\<lparr>tf_load := tf_load F1, tf_gen := tf_gen F1\<rparr>"
  using assms
  by (auto simp: draw_shares_def Let_def bindN_def bindE_eq_Inr split: if_splits option.splits sum.splits prod.splits list.splits)

lemma draw_shares_sameD:
  assumes "draw_shares F = Some (Inr (ok, F1))"
  shows "tf_size F1 = tf_size F" "tf_iat F1 = tf_iat F" "tf_ct F1 = tf_ct F" "tf_dt F1 = tf_dt F" "tf_off F1 = tf_off F"
    "tf_count F1 = tf_count F" "tf_tasks F1 = tf_tasks F"
  by (subst draw_shares_same [OF assms], simp)+

section \<open>The loads\<close>

lemma scale_loads_ok:
  "scale_loads tot u minU ls = Inr (True, ls') \<Longrightarrow> ls' = map (\<lambda>l. l / tot * u) ls \<and> (\<forall>l\<in>set ls'. minU \<le> l) \<and> (ls \<noteq> [] \<longrightarrow> tot \<noteq> 0)"
proof (induction ls arbitrary: ls')
  case (Cons l ls)
  then have tot: "tot \<noteq> 0" and big: "minU \<le> l / tot * u"
    by (auto simp: divE_def Let_def bindE_eq_Inr split: if_splits)
  with Cons.prems obtain ls1 where "scale_loads tot u minU ls = Inr (True, ls1)" "ls' = (l / tot * u) # ls1"
    by (auto simp: divE_def Let_def bindE_eq_Inr split: if_splits)
  with Cons.IH tot big show ?case by auto
qed simp

lemma sum_scaled: "sum_list (map (\<lambda>l. l / tot * u) ls) = sum_list ls / tot * (u :: rat)"
  by (induction ls) (simp_all add: add_divide_distrib distrib_right)

lemma sum_scaled': "(\<Sum>l\<leftarrow>ls. l * u / tot) = sum_list ls * u / (tot :: rat)"
  by (induction ls) (simp_all add: add_divide_distrib distrib_right)

lemma precise_loads_ok:
  "precise_loads tot u minU ls = (True, ls') \<Longrightarrow> sum_list ls' = (1 - tot) * u \<and> length ls' = Suc (length ls) \<and> (\<forall>l\<in>set ls'. minU \<le> l)"
proof (induction ls arbitrary: tot ls')
  case (Cons l ls)
  let ?l1 = "l * (1 - tot)"
  obtain ls1 where ls1: "precise_loads (tot + ?l1) u minU ls = (True, ls1)" and ls': "ls' = ?l1 * u # ls1" and big: "minU \<le> ?l1 * u"
    using Cons.prems by (auto simp: Let_def split: if_splits prod.splits)
  have "?l1 * u + (1 - (tot + ?l1)) * u = (1 - tot) * u" by (simp add: algebra_simps)
  with Cons.IH [OF ls1] ls' big show ?case by simp
qed (auto split: if_splits)

lemma draw_loads_length: "draw_loads n r g = (ls, g') \<Longrightarrow> length ls = n"
  by (induction n arbitrary: r g ls g') (auto simp: Let_def split: prod.splits)

lemma newton_loads_length: "newton_loads sz n i r g = Some (Inr (ls, g')) \<Longrightarrow> length ls = n"
  by (induction n arbitrary: i r g ls g') (auto simp: Let_def bindN_def split: prod.splits option.splits sum.splits)

text \<open>The first load of a precise set is not compared with the minimum.\<close>

lemma draw_shares_ok:
  assumes "draw_shares F = Some (Inr (True, F1))" and "0 < tf_size F"
  shows "length (tf_load F1) = tf_size F" and "sum_list (tf_load F1) = tf_u F"
    and "\<forall>l\<in>set (if tf_preciseU F then tl (tf_load F1) else tf_load F1). tf_minU F \<le> l"
proof -
  let ?r = "UniformVar_ctor 0 1"
  have "length (tf_load F1) = tf_size F \<and> sum_list (tf_load F1) = tf_u F \<and>
    (\<forall>l\<in>set (if tf_preciseU F then tl (tf_load F1) else tf_load F1). tf_minU F \<le> l)"
  proof (cases "tf_preciseU F")
    case False
    obtain ls g where ls: "draw_loads (tf_size F) ?r (tf_gen F) = (ls, g)" by (cases "draw_loads (tf_size F) ?r (tf_gen F)")
    then have sc: "scale_loads (sum_list ls) (tf_u F) (tf_minU F) ls = Inr (True, tf_load F1)"
      using assms(1) False by (auto simp: draw_shares_def bindE_eq_Inr)
    have len: "length ls = tf_size F" by (rule draw_loads_length [OF ls])
    with scale_loads_ok [OF sc] assms(2) show ?thesis using False by (auto simp: sum_scaled')
  next
    case True
    then obtain ls g where ls: "newton_loads (tf_size F) (tf_size F - 1) 0 ?r (tf_gen F) = Some (Inr (ls, g))"
      using assms(1) by (auto simp: draw_shares_def bindN_def split: option.splits sum.splits)
    with True assms(1) obtain l ls1 ls2 where l: "ls = l # ls1" "precise_loads l (tf_u F) (tf_minU F) ls1 = (True, ls2)"
      and F1: "tf_load F1 = l * tf_u F # ls2"
      by (auto simp: draw_shares_def bindN_def split: list.splits prod.splits)
    have "length ls = tf_size F - 1" by (rule newton_loads_length [OF ls])
    with precise_loads_ok [OF l(2)] True assms(2) l(1) F1 show ?thesis by (auto simp: algebra_simps)
  qed
  then show "length (tf_load F1) = tf_size F" and "sum_list (tf_load F1) = tf_u F"
    and "\<forall>l\<in>set (if tf_preciseU F then tl (tf_load F1) else tf_load F1). tf_minU F \<le> l" by auto
qed

section \<open>Trials\<close>

lemma avg_loop_same:
  "IATGen_avg_loop r n i g rg = (ok, g', rg') \<Longrightarrow> \<exists>avg. length avg = length (ia_avg g) \<and> g' = g\<lparr>ia_avg := avg\<rparr>"
proof (induction n arbitrary: r i g rg)
  case 0
  then show ?case by (intro exI [of _ "ia_avg g"]) simp
next
  case (Suc n)
  obtain x r1 rg1 where x: "UniformVar_get r rg = (x, r1, rg1)" by (cases "UniformVar_get r rg")
  let ?g = "g\<lparr>ia_avg := (ia_avg g)[i := Tick_round x * ia_tGCD g]\<rparr>"
  show ?case
  proof (cases "IATGen_getMin i ?g < ia_minT ?g")
    case True
    with Suc.prems x show ?thesis by (intro exI [of _ "ia_avg ?g"]) (auto simp: Let_def)
  next
    case False
    then have "IATGen_avg_loop r1 n (Suc i) ?g rg1 = (ok, g', rg')" using Suc.prems x by (simp add: Let_def)
    from Suc.IH [OF this] show ?thesis by auto
  qed
qed

text \<open>What the constructor sets and no trial changes.\<close>

definition set_up where
  "set_up F = (tf_size F, tf_u F, tf_minU F, tf_preciseU F, (tf_iat F)\<lparr>ia_va := [], ia_avg := replicate (length (ia_avg (tf_iat F))) 0\<rparr>,
     cg_kind (tf_ct F), cg_minC (tf_ct F))"

lemma ct_same_set_up: "ct_same F F' \<Longrightarrow> set_up F' = set_up F"
  by (simp add: set_up_def ct_sameD)

lemma set_same_set_up: "set_same F F' \<Longrightarrow> set_up F' = set_up F"
  by (simp add: set_up_def set_same_def)

lemma draw_shares_set_up: "draw_shares F = Some (Inr (ok, F1)) \<Longrightarrow> set_up F1 = set_up F"
  by (drule draw_shares_same) (erule ssubst, simp add: set_up_def)

lemma generate_times_cases:
  assumes "generate_times F = (ok, F')"
  obtains ok1 g rg where "IATGen_generate (tf_size F) (tf_iat F) (tf_gen F) = (ok1, g, rg)"
    and "ok1 \<Longrightarrow> CTGen_generate (F\<lparr>tf_iat := g, tf_gen := rg\<rparr>) = (ok, F')"
    and "\<not> ok1 \<Longrightarrow> \<not> ok \<and> F' = F\<lparr>tf_iat := g, tf_gen := rg, tf_count := tf_count F + 1\<rparr>"
proof (rule that)
  show "IATGen_generate (tf_size F) (tf_iat F) (tf_gen F) =
     (fst (IATGen_generate (tf_size F) (tf_iat F) (tf_gen F)), fst (snd (IATGen_generate (tf_size F) (tf_iat F) (tf_gen F))),
      snd (snd (IATGen_generate (tf_size F) (tf_iat F) (tf_gen F))))" by simp
qed (use assms in \<open>auto simp: generate_times_def Let_def split: prod.splits\<close>)

lemma IATGen_generate_length: "IATGen_generate n g rg = (ok, g', rg') \<Longrightarrow> length (ia_avg g') = length (ia_avg g) \<and>
    g'\<lparr>ia_va := [], ia_avg := a\<rparr> = g\<lparr>ia_va := [], ia_avg := a\<rparr>"
  by (auto simp: IATGen_generate_def IATGen_generate_avg_def Let_def split: prod.splits if_splits dest!: avg_loop_same)

lemma generate_times_same:
  assumes "generate_times F = (ok, F')"
  shows "set_up F' = set_up F" and "tf_load F' = tf_load F" and "tf_dt F' = tf_dt F"
proof -
  have "set_up F' = set_up F \<and> tf_load F' = tf_load F \<and> tf_dt F' = tf_dt F"
    using assms
  proof (cases rule: generate_times_cases)
    case (1 ok1 g rg)
    note len = IATGen_generate_length [OF 1(1)]
    show ?thesis
    proof (cases ok1)
      case True
      have "ct_same (F\<lparr>tf_iat := g, tf_gen := rg\<rparr>) F'"
        using ct_same_generate [of "F\<lparr>tf_iat := g, tf_gen := rg\<rparr>"] 1(2) [OF True] by simp
      from ct_sameD [OF this] show ?thesis by (simp add: set_up_def len)
    qed (use 1(3) len in \<open>auto simp: set_up_def\<close>)
  qed
  then show "set_up F' = set_up F" and "tf_load F' = tf_load F" and "tf_dt F' = tf_dt F" by auto
qed

lemma trial_cases:
  assumes "factory_trial F = Some (Inr (ok, F'))"
  obtains ok1 F1 F2 where "draw_shares F = Some (Inr (ok1, F1))" and "set_same F1 F2"
    and "ok1 \<Longrightarrow> factory_generateLoad F = Some (Inr (True, F2)) \<and> generate_times F2 = (ok, F') \<and> tf_dt F2 = tf_dt (DTGen_generate F1)"
    and "\<not> ok1 \<Longrightarrow> \<not> ok \<and> F' = F2\<lparr>tf_count := tf_count F2 + 1\<rparr>"
proof -
  obtain ok1 F2 where gl: "factory_generateLoad F = Some (Inr (ok1, F2))"
    and rest: "(ok, F') = (if ok1 then generate_times F2 else (False, F2\<lparr>tf_count := tf_count F2 + 1\<rparr>))"
    using assms by (auto simp: factory_trial_def bindN_def split: option.splits sum.splits)
  obtain F1 where F1: "draw_shares F = Some (Inr (ok1, F1))" "set_same F1 F2" "ok1 \<Longrightarrow> tf_dt F2 = tf_dt (DTGen_generate F1)"
    using generateLoad_cases [OF gl] by metis
  show thesis by (rule that [OF F1(1,2)]) (use gl rest F1(3) in \<open>auto split: if_splits\<close>)
qed

lemma trial_set_up:
  assumes "factory_trial F = Some (Inr (ok, F'))"
  shows "set_up F' = set_up F"
  using assms
proof (cases rule: trial_cases)
  case (1 ok1 F1 F2)
  have "set_up F2 = set_up F" using draw_shares_set_up [OF 1(1)] set_same_set_up [OF 1(2)] by simp
  moreover have "set_up F' = set_up F2"
    using 1(3,4) generate_times_same(1) by (cases ok1) (auto simp: set_up_def)
  ultimately show ?thesis by simp
qed

section \<open>The generator stays in its range\<close>

definition gen_kept :: "factory \<Rightarrow> factory \<Rightarrow> bool" where
  "gen_kept F F' \<longleftrightarrow> (gen_ok (tf_gen F) \<longrightarrow> gen_ok (tf_gen F'))"

lemma gen_kept_refl [simp]: "gen_kept F F" by (simp add: gen_kept_def)
lemma gen_kept_trans: "gen_kept F G \<Longrightarrow> gen_kept G H \<Longrightarrow> gen_kept F H" by (simp add: gen_kept_def)

lemma get_gen_ok: "UniformVar_get v g = (x, v', g') \<Longrightarrow> gen_ok g \<Longrightarrow> gen_ok g'"
  using sample_step(3) [of g] by (auto simp: UniformVar_get_def Let_def split: if_splits prod.splits)

lemma draw_kept: "draw r F = (x, F1) \<Longrightarrow> gen_kept F F1"
  by (auto simp: draw_def gen_kept_def split: prod.splits dest: get_gen_ok)

lemma set_deadline_gen [simp]: "tf_gen (set_deadline i t F) = tf_gen F"
  by (simp add: set_deadline_def)

lemma deadline_kept: "gen_kept F (DTGen_deadline i F)"
  by (auto simp: DTGen_deadline_def gen_kept_def Let_def split: dt_kind.splits prod.splits dest!: draw_kept)

lemma deadlines_kept: "gen_kept F (fold DTGen_deadline is F)"
  by (induction "is" arbitrary: F) (auto intro: gen_kept_trans [OF deadline_kept])

lemma offset_kept: "RandomOffsetGen_offset g i F = Inr F' \<Longrightarrow> gen_kept F F'"
  using draw_kept [OF prod.collapse [symmetric]] by (auto simp: RandomOffsetGen_offset_def bindE_eq_Inr gen_kept_def Let_def case_prod_unfold)

lemma offsets_kept: "steps (map (RandomOffsetGen_offset g) is) F = Inr F' \<Longrightarrow> gen_kept F F'"
  by (induction "is" arbitrary: F) (auto simp: bindE_eq_Inr intro: gen_kept_trans [OF offset_kept])

lemma draw_loads_kept_gen: "draw_loads n r g = (ls, g') \<Longrightarrow> gen_ok g \<Longrightarrow> gen_ok g'"
  by (induction n arbitrary: r g ls g') (auto simp: Let_def split: prod.splits dest: get_gen_ok)

lemma newton_loads_kept_gen: "newton_loads sz n i r g = Some (Inr (ls, g')) \<Longrightarrow> gen_ok g \<Longrightarrow> gen_ok g'"
  by (induction n arbitrary: i r g ls g') (auto simp: Let_def bindN_def split: prod.splits option.splits sum.splits dest: get_gen_ok)

lemma draw_shares_kept: "draw_shares F = Some (Inr (ok, F1)) \<Longrightarrow> gen_kept F F1"
  by (auto simp: draw_shares_def gen_kept_def Let_def bindN_def bindE_eq_Inr
      split: if_splits option.splits sum.splits prod.splits list.splits dest: draw_loads_kept_gen newton_loads_kept_gen)

lemma generateLoad_kept:
  assumes "factory_generateLoad F = Some (Inr (ok, F2))"
  shows "gen_kept F F2"
proof -
  obtain F1 where F1: "draw_shares F = Some (Inr (ok, F1))"
    and rest: "if ok then OffsetGen_generate (DTGen_generate F1) = Inr F2 else F2 = F1"
    using assms by (auto simp: factory_generateLoad_def bindN_def bindE_eq_Inr split: option.splits sum.splits if_splits)
  have "gen_kept F1 F2"
  proof (cases ok)
    case True
    then have "gen_kept (DTGen_generate F1) F2"
      using rest offsets_kept by (auto simp: OffsetGen_generate_def split: option.splits)
    with deadlines_kept show ?thesis unfolding DTGen_generate_def by (rule gen_kept_trans)
  qed (use rest in simp)
  with draw_shares_kept [OF F1] show ?thesis by (rule gen_kept_trans)
qed

lemma avg_loop_kept_gen: "IATGen_avg_loop r n i g rg = (ok, g', rg') \<Longrightarrow> gen_ok rg \<Longrightarrow> gen_ok rg'"
  by (induction n arbitrary: r i g rg) (auto simp: Let_def split: prod.splits if_splits dest: get_gen_ok)

lemma IATGen_generate_kept_gen: "IATGen_generate n g rg = (ok, g', rg') \<Longrightarrow> gen_ok rg \<Longrightarrow> gen_ok rg'"
  by (auto simp: IATGen_generate_def IATGen_generate_avg_def Let_def split: prod.splits if_splits dest: avg_loop_kept_gen)

lemma generate_times_kept:
  assumes "generate_times F = (ok, F')"
  shows "gen_kept F F'"
  using assms
proof (cases rule: generate_times_cases)
  case (1 ok1 g rg)
  have "tf_gen F' = rg"
  proof (cases ok1)
    case True
    show ?thesis using ct_sameD(10) [OF ct_same_generate [of "F\<lparr>tf_iat := g, tf_gen := rg\<rparr>"]] 1(2) [OF True] by simp
  qed (use 1(3) in simp)
  with IATGen_generate_kept_gen [OF 1(1)] show ?thesis by (simp add: gen_kept_def)
qed

lemma trial_kept:
  assumes "factory_trial F = Some (Inr (ok, F'))"
  shows "gen_kept F F'"
proof -
  obtain ok1 F2 where gl: "factory_generateLoad F = Some (Inr (ok1, F2))"
    and rest: "(ok, F') = (if ok1 then generate_times F2 else (False, F2\<lparr>tf_count := tf_count F2 + 1\<rparr>))"
    using assms by (auto simp: factory_trial_def bindN_def split: option.splits sum.splits)
  have "gen_kept F2 F'" using rest generate_times_kept [of F2 ok F'] by (cases ok1) (auto simp: gen_kept_def)
  with generateLoad_kept [OF gl] show ?thesis by (rule gen_kept_trans)
qed

text \<open>A rule for the loop: what holds after every trial that succeeds holds for the set that is made.\<close>

lemma generate_last_trial:
  assumes "factory_generate F = Some (Inr (True, F'))"
  shows "\<exists>F0. set_up F0 = set_up F \<and> gen_kept F F0 \<and> factory_trial F0 = Some (Inr (True, F'))"
proof -
  have "factory_generate G = Some r \<Longrightarrow> r = Inr (True, F') \<longrightarrow>
      (\<exists>F0. set_up F0 = set_up G \<and> gen_kept G F0 \<and> factory_trial F0 = Some (Inr (True, F')))" for G r
  proof (induction G r rule: factory_generate.raw_induct [rotated, consumes 1, case_names step])
    case (step loop G r)
    show ?case
    proof (intro impI)
      assume r: "r = Inr (True, F')"
      with step.hyps obtain ok G1 where t: "factory_trial G = Some (Inr (ok, G1))"
        by (auto split: option.splits sum.splits)
      show "\<exists>F0. set_up F0 = set_up G \<and> gen_kept G F0 \<and> factory_trial F0 = Some (Inr (True, F'))"
      proof (cases "\<not> ok \<and> tf_count G1 \<le> GENERATE_LIMIT")
        case True
        then have "loop G1 = Some r" using step.hyps t by simp
        from step.IH [OF this] r trial_set_up [OF t] trial_kept [OF t] show ?thesis by (auto intro: gen_kept_trans)
      next
        case False
        with step.hyps t r show ?thesis by (intro exI [of _ G]) auto
      qed
    qed
  qed
  with assms show ?thesis by blast
qed

text \<open>The loads of the set.\<close>

lemma generated_loads_hold:
  assumes "factory_generate F = Some (Inr (True, F'))" and "0 < tf_size F"
  shows "length (tf_load F') = tf_size F \<and> sum_list (tf_load F') = tf_u F \<and>
    (\<forall>l\<in>set (if tf_preciseU F then tl (tf_load F') else tf_load F'). tf_minU F \<le> l)"
proof -
  obtain F0 where su: "set_up F0 = set_up F" and t: "factory_trial F0 = Some (Inr (True, F'))"
    using generate_last_trial [OF assms(1)] by blast
  from t show ?thesis
  proof (cases rule: trial_cases)
    case (1 ok1 F1 F2)
    have ok1: "ok1" using 1(4) by blast
    have size: "0 < tf_size F0" using su assms(2) by (simp add: set_up_def)
    note loads = draw_shares_ok [OF 1(1) [unfolded eqTrueI [OF ok1]] size]
    have "tf_load F' = tf_load F1" using generate_times_same(2) 1(2,3) ok1 by (auto simp: set_same_def)
    with loads su show ?thesis by (simp add: set_up_def)
  qed
qed

section \<open>Everything is the same\<close>

text \<open>A variable that has given a value other than zero gives it for ever.\<close>

definition kept :: "uniform_var \<Rightarrow> bool" where "kept r \<longleftrightarrow> generatedValue r \<noteq> 0"

lemma kept_get: "kept r \<Longrightarrow> UniformVar_get r g = (generatedValue r, r, g)"
  by (simp add: kept_def UniformVar_get_def)

lemma first_get:
  assumes "gen_ok g" and "0 \<le> a" and "a < b"
  obtains x r g' where "UniformVar_get (UniformVar_ctor a b) g = (x, r, g')" and "a < x" and "x < b" and "kept r"
    and "generatedValue r = x" and "gen_ok g'"
proof -
  obtain x r g' where get: "UniformVar_get (UniformVar_ctor a b) g = (x, r, g')" by (cases "UniformVar_get (UniformVar_ctor a b) g")
  have "uv_min (UniformVar_ctor a b) < uv_max (UniformVar_ctor a b)" "generatedValue (UniformVar_ctor a b) = 0"
    using assms(3) by (simp_all add: UniformVar_ctor_def)
  from uniform_range [OF assms(1) this get] assms(2) show thesis
    by (intro that [OF get]) (auto simp: UniformVar_ctor_def kept_def)
qed

lemma draw_loads_kept: "kept r \<Longrightarrow> draw_loads n r g = (replicate n (generatedValue r), g)"
  by (induction n) (simp_all add: kept_get)

lemma draw_loads_equal:
  assumes "gen_ok g" and "draw_loads n (UniformVar_ctor 0 1) g = (ls, g')"
  shows "gen_ok g' \<and> (\<exists>x>0. ls = replicate n x)"
proof (cases n)
  case 0
  with assms show ?thesis by (auto intro: exI [of _ 1])
next
  case (Suc m)
  obtain x r g1 where "UniformVar_get (UniformVar_ctor 0 1) g = (x, r, g1)" "0 < x" "kept r" "generatedValue r = x" "gen_ok g1"
    by (rule first_get [OF assms(1), of 0 1]) auto
  with assms(2) Suc show ?thesis by (auto simp: draw_loads_kept)
qed

lemma scale_loads_equal:
  assumes "x > (0 :: rat)" and "scale_loads (sum_list (replicate n x)) u minU (replicate n x) = Inr (True, ls)"
  shows "ls = replicate n (u / of_nat n)"
  using scale_loads_ok [OF assms(2)] assms(1) by (auto simp: sum_list_replicate)

lemma draw_shares_equal:
  assumes "draw_shares F = Some (Inr (ok, F1))" and "\<not> tf_preciseU F" and "gen_ok (tf_gen F)"
  shows "gen_ok (tf_gen F1) \<and> (ok \<longrightarrow> tf_load F1 = replicate (tf_size F) (tf_u F / of_nat (tf_size F)))"
proof -
  obtain ls g where ls: "draw_loads (tf_size F) (UniformVar_ctor 0 1) (tf_gen F) = (ls, g)"
    by (cases "draw_loads (tf_size F) (UniformVar_ctor 0 1) (tf_gen F)")
  from draw_loads_equal [OF assms(3) ls] obtain x where g: "gen_ok g" and x: "x > 0" "ls = replicate (tf_size F) x" by blast
  have "tf_gen F1 = g" and "scale_loads (sum_list ls) (tf_u F) (tf_minU F) ls = Inr (ok, tf_load F1)"
    using assms(1,2) ls by (auto simp: draw_shares_def Let_def bindE_eq_Inr)
  with g x scale_loads_equal [OF x(1)] show ?thesis by auto
qed

lemma avg_loop_kept:
  assumes "kept r" and "IATGen_avg_loop r n i g rg = (True, g', rg')" and "i + n \<le> length (ia_avg g)"
  shows "rg' = rg \<and> (\<forall>k. i \<le> k \<and> k < i + n \<longrightarrow> ia_avg g' ! k = Tick_round (generatedValue r) * ia_tGCD g) \<and>
    (\<forall>k<i. ia_avg g' ! k = ia_avg g ! k)"
  using assms(2,3)
proof (induction n arbitrary: i g)
  case (Suc n)
  let ?g = "g\<lparr>ia_avg := (ia_avg g)[i := Tick_round (generatedValue r) * ia_tGCD g]\<rparr>"
  have "IATGen_avg_loop r n (Suc i) ?g rg = (True, g', rg')" using Suc.prems(1) by (auto simp: kept_get [OF assms(1)] Let_def split: if_splits)
  moreover have "Suc i + n \<le> length (ia_avg ?g)" using Suc.prems(2) by simp
  ultimately have IH: "rg' = rg" "\<forall>k. Suc i \<le> k \<and> k < Suc i + n \<longrightarrow> ia_avg g' ! k = Tick_round (generatedValue r) * ia_tGCD g"
    "\<forall>k<Suc i. ia_avg g' ! k = ia_avg ?g ! k"
    using Suc.IH [of "Suc i" ?g] by auto
  have "ia_avg g' ! k = Tick_round (generatedValue r) * ia_tGCD g" if "i \<le> k" "k < i + Suc n" for k
    using that IH(2,3) Suc.prems(2) by (cases "k = i") auto
  moreover have "ia_avg g' ! k = ia_avg g ! k" if "k < i" for k using that IH(3) by auto
  ultimately show ?case using IH(1) by blast
qed simp

lemma avg_loop_Suc_kept:
  assumes "UniformVar_get r rg = (x, r1, rg1)" and "kept r1" and "generatedValue r1 = x"
  shows "IATGen_avg_loop r n i g rg = (if n = 0 then (True, g, rg) else IATGen_avg_loop r1 n i g rg1)"
  using assms by (cases n) (simp_all add: kept_get)

lemma IATGen_generate_equal:
  assumes "gen_ok rg" and "0 \<le> ia_tMin g" and "ia_tMin g < ia_tMax g" and "length (ia_avg g) = n" and "IATGen_generate n g rg = (True, g', rg')"
  shows "\<exists>x. of_int (ia_tMin g) < x \<and> x < of_int (ia_tMax g) \<and> ia_avg g' = replicate n (Tick_round x * ia_tGCD g)"
proof -
  obtain x r rg1 where get: "UniformVar_get (UniformVar_ctor (of_int (ia_tMin g)) (of_int (ia_tMax g))) rg = (x, r, rg1)"
    and x: "of_int (ia_tMin g) < x" "x < of_int (ia_tMax g)" and r: "kept r" "generatedValue r = x"
    by (rule first_get [OF assms(1), of "of_int (ia_tMin g)" "of_int (ia_tMax g)"]) (use assms(2,3) in auto)
  obtain g1 where g1: "IATGen_generate_avg n g rg = (True, g1, rg')" "ia_avg g' = ia_avg g1"
    using assms(5) by (auto simp: IATGen_generate_def Let_def split: prod.splits if_splits)
  have len: "length (ia_avg g1) = n" using g1(1) assms(4) by (auto simp: IATGen_generate_avg_def dest!: avg_loop_same)
  have "\<forall>k<n. ia_avg g1 ! k = Tick_round x * ia_tGCD g"
    using g1(1) avg_loop_kept [OF r(1), of n 0 g] assms(4)
    by (auto simp: IATGen_generate_avg_def avg_loop_Suc_kept [OF get r] r(2) split: if_splits)
  with len have "ia_avg g1 = replicate n (Tick_round x * ia_tGCD g)" by (simp add: list_eq_iff_nth_eq)
  with x g1(2) show ?thesis by auto
qed

lemma Tick_round_mono:
  assumes "x \<le> y"
  shows "Tick_round x \<le> Tick_round y"
proof (cases "x < 0 \<and> 0 \<le> y")
  case True
  then have "0 \<le> \<lfloor>1 / 2 - x\<rfloor>" and "0 \<le> \<lfloor>y + 1 / 2\<rfloor>" by simp_all
  moreover have "Tick_round x = - \<lfloor>1 / 2 - x\<rfloor>" and "Tick_round y = \<lfloor>y + 1 / 2\<rfloor>" using True by (simp_all add: Tick_round_def)
  ultimately show ?thesis by linarith
next
  case False
  have "\<lfloor>x + 1 / 2\<rfloor> \<le> \<lfloor>y + 1 / 2\<rfloor>" and "\<lfloor>1 / 2 - y\<rfloor> \<le> \<lfloor>1 / 2 - x\<rfloor>" using assms by (auto intro: floor_mono)
  with False assms show ?thesis by (auto simp: Tick_round_def)
qed

lemma Tick_round_int [simp]: "Tick_round (of_int k) = k"
proof -
  have "\<lfloor>of_int k + (1 :: rat) / 2\<rfloor> = k" and "\<lfloor>(1 :: rat) / 2 - of_int k\<rfloor> = - k" by (rule floor_unique; simp)+
  then show ?thesis by (simp add: Tick_round_def)
qed

lemma generated_equal:
  assumes "factory_generate F = Some (Inr (True, F'))" and "gen_ok (tf_gen F)" and "\<not> tf_preciseU F"
    and "0 \<le> ia_tMin (tf_iat F)" and "ia_tMin (tf_iat F) < ia_tMax (tf_iat F)" and "length (ia_avg (tf_iat F)) = tf_size F"
  shows "tf_load F' = replicate (tf_size F) (tf_u F / of_nat (tf_size F)) \<and> (\<exists>p. ia_avg (tf_iat F') = replicate (tf_size F) p)"
proof -
  obtain F0 where su: "set_up F0 = set_up F" and "gen_kept F F0" and t: "factory_trial F0 = Some (Inr (True, F'))"
    using generate_last_trial [OF assms(1)] by blast
  with assms(2) have ok0: "gen_ok (tf_gen F0)" by (simp add: gen_kept_def)
  from arg_cong [OF su, of "\<lambda>(_, _, _, _, g, _). (ia_tMin g, ia_tMax g, length (ia_avg g))"] su
  have su: "tf_size F0 = tf_size F" "tf_u F0 = tf_u F" "\<not> tf_preciseU F0" "ia_tMin (tf_iat F0) = ia_tMin (tf_iat F)"
    "ia_tMax (tf_iat F0) = ia_tMax (tf_iat F)" "length (ia_avg (tf_iat F0)) = tf_size F"
    using assms(3,6) by (auto simp: set_up_def)
  from t show ?thesis
  proof (cases rule: trial_cases)
    case (1 ok1 F1 F2)
    have ok1 using 1(4) by blast
    with 1(3) have gl: "factory_generateLoad F0 = Some (Inr (True, F2))" and gt: "generate_times F2 = (True, F')" by auto
    have F1: "tf_load F1 = replicate (tf_size F) (tf_u F / of_nat (tf_size F))"
      using draw_shares_equal [OF 1(1) su(3) ok0] \<open>ok1\<close> su by simp
    have F2: "tf_load F2 = tf_load F1" "tf_iat F2 = tf_iat F0" "tf_size F2 = tf_size F"
      using draw_shares_sameD [OF 1(1)] 1(2) su(1) by (simp_all add: set_same_def)
    have "gen_ok (tf_gen F2)" using generateLoad_kept [OF gl] ok0 by (simp add: gen_kept_def)
    from gt show ?thesis
    proof (cases rule: generate_times_cases)
      case (1 ok2 g rg)
      have ok2 using 1(3) by blast
      then have "ct_same (F2\<lparr>tf_iat := g, tf_gen := rg\<rparr>) F'"
        using ct_same_generate [of "F2\<lparr>tf_iat := g, tf_gen := rg\<rparr>"] 1(2) by simp
      then have "tf_iat F' = g" by (simp add: ct_sameD)
      moreover have "tf_load F' = tf_load F2" using generate_times_same(2) [OF gt] .
      moreover have "\<exists>x. ia_avg g = replicate (tf_size F2) x"
        using IATGen_generate_equal [OF \<open>gen_ok (tf_gen F2)\<close> _ _ _ 1(1) [unfolded eqTrueI [OF \<open>ok2\<close>]]] assms(4,5) F2 su by auto
      ultimately show ?thesis using F1 F2 by simp
    qed
  qed
qed

section \<open>Deadlines\<close>

text \<open>The deadlines of a trial are the periods of the trial before.\<close>

lemma deadlines_from_avg:
  "dt_kind (tf_dt F) = DlineEquPeriodDT \<Longrightarrow> m \<le> length (dt_va (tf_dt F)) \<Longrightarrow>
    (let F' = fold DTGen_deadline [0..<m] F in dt_kind (tf_dt F') = DlineEquPeriodDT \<and> tf_iat F' = tf_iat F \<and>
      dt_va (tf_dt F') = map (\<lambda>i. IATGen_getAvg i (tf_iat F)) [0..<m] @ drop m (dt_va (tf_dt F)))"
  by (induction m) (auto simp: Let_def DTGen_deadline_def set_deadline_def list_update_append Cons_nth_drop_Suc [symmetric])

lemma trial_deadlines:
  assumes "factory_trial F = Some (Inr (True, F'))" and "dt_kind (tf_dt F) = DlineEquPeriodDT"
    and "length (dt_va (tf_dt F)) = tf_size F"
  shows "dt_va (tf_dt F') = map (\<lambda>i. IATGen_getAvg i (tf_iat F)) [0..<tf_size F]"
  using assms(1)
proof (cases rule: trial_cases)
  case (1 ok1 F1 F2)
  have ok1 using 1(4) by blast
  with 1(3) have "generate_times F2 = (True, F')" and dt: "tf_dt F2 = tf_dt (DTGen_generate F1)" by auto
  then have "tf_dt F' = tf_dt (DTGen_generate F1)" using generate_times_same(3) by simp
  with deadlines_from_avg [of F1 "tf_size F1"] draw_shares_sameD [OF 1(1)] assms(2,3)
  show ?thesis by (simp add: DTGen_generate_def Let_def)
qed

section \<open>Trials without end\<close>

lemma scale_loads_forth:
  "(0 :: rat) < x \<Longrightarrow> 0 < tot \<Longrightarrow> minU \<le> x / tot * u \<Longrightarrow> scale_loads tot u minU (replicate n x) = Inr (True, replicate n (x / tot * u))"
  by (induction n) (simp_all add: divE_def Let_def)

lemma draw_shares_forth:
  assumes "\<not> tf_preciseU F" and "gen_ok (tf_gen F)" and "0 < tf_size F" and "tf_minU F \<le> tf_u F / of_nat (tf_size F)"
  shows "\<exists>F1. draw_shares F = Some (Inr (True, F1))"
proof -
  obtain ls g where ls: "draw_loads (tf_size F) (UniformVar_ctor 0 1) (tf_gen F) = (ls, g)"
    by (cases "draw_loads (tf_size F) (UniformVar_ctor 0 1) (tf_gen F)")
  from draw_loads_equal [OF assms(2) ls] obtain x where x: "x > 0" "ls = replicate (tf_size F) x" by blast
  have "scale_loads (sum_list ls) (tf_u F) (tf_minU F) ls = Inr (True, replicate (tf_size F) (x / sum_list ls * tf_u F))"
    unfolding x(2) using x(1) assms(3,4) by (intro scale_loads_forth) (simp_all add: sum_list_replicate)
  with ls assms(1) show ?thesis by (simp add: draw_shares_def)
qed

lemma avg_loop_forth:
  assumes "kept r" and "ia_kind g = ConstIAT" and "i + n \<le> length (ia_avg g)" and "ia_minT g \<le> Tick_round (generatedValue r) * ia_tGCD g"
  shows "fst (IATGen_avg_loop r n i g rg)"
  using assms(2-4)
  by (induction n arbitrary: i g) (auto simp: kept_get [OF assms(1)] Let_def IATGen_getMin_def IATGen_getAvg_def)

lemma IATGen_generate_forth:
  assumes "gen_ok rg" and "0 \<le> ia_tMin g" and "ia_tMin g < ia_tMax g" and "length (ia_avg g) = n"
    and "ia_kind g = ConstIAT" and "ia_minT g \<le> ia_tMin g" and "1 \<le> ia_tGCD g"
  shows "\<exists>g' rg'. IATGen_generate n g rg = (True, g', rg')"
proof (cases "n = 0")
  case False
  obtain x r rg1 where get: "UniformVar_get (UniformVar_ctor (of_int (ia_tMin g)) (of_int (ia_tMax g))) rg = (x, r, rg1)"
    and x: "of_int (ia_tMin g) < x" "x < of_int (ia_tMax g)" and r: "kept r" "generatedValue r = x"
    by (rule first_get [OF assms(1), of "of_int (ia_tMin g)" "of_int (ia_tMax g)"]) (use assms(2,3) in auto)
  have "ia_tMin g \<le> Tick_round x" using Tick_round_mono [of "of_int (ia_tMin g)" x] x(1) by simp
  then have "ia_tMin g * 1 \<le> Tick_round x * ia_tGCD g" using assms(2,7) by (intro mult_mono) auto
  with assms(6) r have "ia_minT g \<le> Tick_round (generatedValue r) * ia_tGCD g" by simp
  from avg_loop_forth [OF r(1) assms(5) _ this, of 0 n rg1] assms(4)
  have "fst (IATGen_generate_avg n g rg)" by (simp add: IATGen_generate_avg_def avg_loop_Suc_kept [OF get r] False)
  then show ?thesis by (auto simp: IATGen_generate_def Let_def split: prod.splits)
qed (simp add: IATGen_generate_def IATGen_generate_avg_def Let_def)

text \<open>The sets whose computation times are all below the minimum.\<close>

definition too_small where
  "too_small F \<longleftrightarrow> \<not> tf_preciseU F \<and> 0 < tf_size F \<and> tf_minU F \<le> tf_u F / of_nat (tf_size F) \<and> 0 \<le> tf_u F \<and>
     0 \<le> ia_tMin (tf_iat F) \<and> ia_tMin (tf_iat F) < ia_tMax (tf_iat F) \<and> length (ia_avg (tf_iat F)) = tf_size F \<and>
     ia_kind (tf_iat F) = ConstIAT \<and> ia_minT (tf_iat F) \<le> ia_tMin (tf_iat F) \<and> 1 \<le> ia_tGCD (tf_iat F) \<and>
     cg_kind (tf_ct F) = ConstCT \<and>
     Tick_round (of_int (ia_tMax (tf_iat F) * ia_tGCD (tf_iat F)) * (tf_u F / of_nat (tf_size F))) < cg_minC (tf_ct F)"

lemma too_small_set_up:
  assumes "set_up F' = set_up F"
  shows "too_small F' = too_small F"
proof -
  have "ia_tMin (tf_iat F') = ia_tMin (tf_iat F) \<and> ia_tMax (tf_iat F') = ia_tMax (tf_iat F) \<and> ia_tGCD (tf_iat F') = ia_tGCD (tf_iat F) \<and>
    ia_minT (tf_iat F') = ia_minT (tf_iat F) \<and> ia_kind (tf_iat F') = ia_kind (tf_iat F) \<and> length (ia_avg (tf_iat F')) = length (ia_avg (tf_iat F))"
    using arg_cong [OF assms, of "\<lambda>(_, _, _, _, g, _). (ia_tMin g, ia_tMax g, ia_tGCD g, ia_minT g, ia_kind g, length (ia_avg g))"]
    by (simp add: set_up_def)
  with assms show ?thesis by (simp add: too_small_def set_up_def)
qed

lemma deadlines_off: "tf_off (fold DTGen_deadline is F) = tf_off F"
  by (induction "is" arbitrary: F)
    (auto simp: DTGen_deadline_def set_deadline_def draw_def Let_def split: dt_kind.split prod.split)

lemma const_ct_fails:
  assumes "tf_size F = Suc m" and "cg_kind (tf_ct F) = ConstCT" and "CTGen_getAvg 0 F < cg_minC (tf_ct F)"
  shows "CTGen_generate F = (False, F)"
  using assms by (simp add: CTGen_generate_def)

lemma trial_too_small:
  assumes "too_small F" and "gen_ok (tf_gen F)" and "tf_off F = None"
  shows "\<exists>F'. factory_trial F = Some (Inr (False, F')) \<and> tf_count F' = tf_count F \<and> tf_off F' = None"
proof -
  obtain F1 where F1: "draw_shares F = Some (Inr (True, F1))"
    using draw_shares_forth [of F] assms(1,2) by (auto simp: too_small_def)
  define F2 where "F2 = DTGen_generate F1"
  have same: "set_same F1 F2" unfolding F2_def DTGen_generate_def by (rule deadlines_same) simp
  have off: "tf_off F2 = None" using draw_shares_sameD [OF F1] assms(3) by (simp add: F2_def DTGen_generate_def deadlines_off)
  have gl: "factory_generateLoad F = Some (Inr (True, F2))"
    using off by (simp add: factory_generateLoad_def F1 F2_def bindN_def OffsetGen_generate_def)
  have "set_up F2 = set_up F" using draw_shares_set_up [OF F1] set_same_set_up [OF same] by simp
  from too_small_set_up [OF this] assms(1) have ts: "too_small F2" by simp
  have gen: "gen_ok (tf_gen F2)" using generateLoad_kept [OF gl] assms(2) by (simp add: gen_kept_def)
  obtain g rg where gen_iat: "IATGen_generate (tf_size F2) (tf_iat F2) (tf_gen F2) = (True, g, rg)"
    using IATGen_generate_forth [OF gen, of "tf_iat F2" "tf_size F2"] ts by (auto simp: too_small_def)
  obtain x where x: "x < of_int (ia_tMax (tf_iat F2))" and avg: "ia_avg g = replicate (tf_size F2) (Tick_round x * ia_tGCD (tf_iat F2))"
    using IATGen_generate_equal [OF gen _ _ _ gen_iat] ts by (auto simp: too_small_def)
  let ?F3 = "F2\<lparr>tf_iat := g, tf_gen := rg\<rparr>"
  have load: "tf_load F2 = replicate (tf_size F2) (tf_u F2 / of_nat (tf_size F2))"
    using draw_shares_equal [OF F1 _ assms(2)] assms(1) same draw_shares_sameD [OF F1] ts draw_shares_set_up [OF F1]
    by (auto simp: set_same_def too_small_def set_up_def)
  have "Tick_round x \<le> ia_tMax (tf_iat F2)" using Tick_round_mono [of x "of_int (ia_tMax (tf_iat F2))"] x by simp
  then have "Tick_round x * ia_tGCD (tf_iat F2) \<le> ia_tMax (tf_iat F2) * ia_tGCD (tf_iat F2)"
    using ts by (intro mult_right_mono) (auto simp: too_small_def)
  then have "of_int (Tick_round x * ia_tGCD (tf_iat F2)) * (tf_u F2 / of_nat (tf_size F2)) \<le>
      of_int (ia_tMax (tf_iat F2) * ia_tGCD (tf_iat F2)) * (tf_u F2 / of_nat (tf_size F2))"
    using ts by (intro mult_right_mono) (simp_all add: too_small_def del: of_int_mult)
  from Tick_round_mono [OF this] ts have "CTGen_getAvg 0 ?F3 < cg_minC (tf_ct ?F3)"
    by (simp add: CTGen_getAvg_def IATGen_getAvg_def factory_getLoad_def avg load too_small_def)
  moreover obtain m where "tf_size ?F3 = Suc m" using ts by (auto simp: too_small_def gr0_conv_Suc)
  ultimately have "CTGen_generate ?F3 = (False, ?F3)" using ts by (intro const_ct_fails) (auto simp: too_small_def)
  then have "factory_trial F = Some (Inr (False, ?F3))"
    by (simp add: factory_trial_def gl bindN_def generate_times_def gen_iat)
  moreover have "tf_count ?F3 = tf_count F" using draw_shares_sameD [OF F1] same by (simp add: set_same_def)
  ultimately show ?thesis using off by (intro exI [of _ ?F3]) simp
qed

lemma too_small_for_ever:
  assumes "too_small F" and "gen_ok (tf_gen F)" and "tf_off F = None" and "tf_count F \<le> GENERATE_LIMIT"
  shows "factory_generate F = None"
proof -
  have "factory_generate G = Some r \<Longrightarrow> too_small G \<Longrightarrow> gen_ok (tf_gen G) \<Longrightarrow> tf_off G = None \<Longrightarrow> tf_count G \<le> GENERATE_LIMIT \<Longrightarrow> False" for G r
  proof (induction G r rule: factory_generate.raw_induct [rotated, consumes 1, case_names step])
    case (step loop G r)
    obtain G1 where t: "factory_trial G = Some (Inr (False, G1))" and G1: "tf_count G1 = tf_count G" "tf_off G1 = None"
      using trial_too_small step.prems by blast
    then have "loop G1 = Some r" using step.hyps step.prems by simp
    moreover have "too_small G1" "gen_ok (tf_gen G1)"
      using step.prems too_small_set_up [OF trial_set_up [OF t]] trial_kept [OF t] by (simp_all add: gen_kept_def)
    ultimately show False using step.IH [of G1 r] G1 step.prems by simp
  qed
  with assms show ?thesis by (cases "factory_generate F") auto
qed

section \<open>Properties\<close>

lemma init_simps [simp]:
  "tf_size (factory_init n u g1 g2 g3 g4 minU b rg) = nat n" "tf_u (factory_init n u g1 g2 g3 g4 minU b rg) = u"
  "tf_minU (factory_init n u g1 g2 g3 g4 minU b rg) = minU" "tf_preciseU (factory_init n u g1 g2 g3 g4 minU b rg) = b"
  "tf_iat (factory_init n u g1 g2 g3 g4 minU b rg) = IATGen_bind (nat n) g1" "tf_gen (factory_init n u g1 g2 g3 g4 minU b rg) = rg"
  "tf_dt (factory_init n u g1 g2 g3 g4 minU b rg) = DTGen_bind (nat n) g3" "tf_ct (factory_init n u g1 g2 g3 g4 minU b rg) = CTGen_bind (nat n) g2"
  "tf_off (factory_init n u g1 g2 g3 g4 minU b rg) = map_option (OffsetGen_bind (nat n)) g4"
  "tf_count (factory_init n u g1 g2 g3 g4 minU b rg) = 0"
  by (simp_all add: factory_init_def Let_def)

lemma bind_simps [simp]:
  "\<not> ia_taskSet g \<Longrightarrow> length (ia_avg (IATGen_bind n g)) = n" "ia_tMin (IATGen_bind n g) = ia_tMin g" "ia_tMax (IATGen_bind n g) = ia_tMax g"
  "ia_kind (IATGen_bind n g) = ia_kind g" "ia_minT (IATGen_bind n g) = ia_minT g" "ia_tGCD (IATGen_bind n g) = ia_tGCD g"
  "\<not> ia_taskSet g \<Longrightarrow> i < n \<Longrightarrow> ia_avg (IATGen_bind n g) ! i = 0" "\<not> dt_taskSet d \<Longrightarrow> length (dt_va (DTGen_bind n d)) = n" "dt_kind (DTGen_bind n d) = dt_kind d"
  "cg_kind (CTGen_bind n c) = cg_kind c" "cg_minC (CTGen_bind n c) = cg_minC c"
  by (simp_all add: IATGen_bind_def DTGen_bind_def CTGen_bind_def Let_def)

lemma ctor_cases:
  assumes "RandomTaskSetFactory_ctor draws ids n u g1 g2 g3 g4 minU b rg = Some (Inr F')"
  obtains F where "factory_generate (factory_init n u g1 g2 g3 g4 minU b rg) = Some (Inr (True, F))" and "F' = factory_sinthesize draws ids F"
    and "0 \<le> n" and "\<not> already_bound g1 g2 g3 g4"
  using assms by (auto simp: RandomTaskSetFactory_ctor_def bindN_def split: if_splits option.splits sum.splits)

section \<open>A set of two tasks\<close>

definition example_times :: iat_gen where "example_times = IATGen_ctor ConstIAT 10 20 TMIN_DEF GCD_DEF"

definition example_set :: factory where
  "example_set = factory_init 2 (1 / 2) example_times (CTGen_ctor ConstCT CMIN_DEF) (DTGen_ctor DlineEquPeriodDT) None UMIN_DEF False (RandomGen_ctor 1)"

lemma example_trial: "case factory_trial example_set of Some (Inr (ok, F)) \<Rightarrow> ok | _ \<Rightarrow> False"
  by code_simp

lemma example_trial_ok: "\<exists>F. factory_trial example_set = Some (Inr (True, F))"
  using example_trial by (auto split: option.splits sum.splits)

definition example_draws :: "rvar \<Rightarrow> randvar" where
  "example_draws v = \<lparr>rv_draws = (\<lambda>i. 1), rv_pos = 0, rv_max = 1, rv_uniform = False\<rparr>"

definition example_factory :: "(exc + factory) option" where
  "example_factory = RandomTaskSetFactory_ctor example_draws int 2 (1 / 2) example_times (CTGen_ctor ConstCT CMIN_DEF)
     (DTGen_ctor DlineEquPeriodDT) None UMIN_DEF False (RandomGen_ctor 1)"

lemma example_made: "\<exists>F. example_factory = Some (Inr F)"
proof -
  obtain F where "factory_trial example_set = Some (Inr (True, F))" using example_trial_ok ..
  then have "factory_generate example_set = Some (Inr (True, F))" by (subst factory_generate.simps) simp
  then show ?thesis by (simp add: example_factory_def RandomTaskSetFactory_ctor_def example_set_def bindN_def already_bound_def example_times_def
      IATGen_ctor_def CTGen_ctor_def DTGen_ctor_def)
qed

lemma example_gen: "gen_ok (RandomGen_ctor 1)" by code_simp

text \<open>
  C32. A set of random tasks that is made has one load for every task, the loads add up to the utilization that was asked
  for, and none is below the minimum, but perhaps the first of a precise set, which is not compared with it.
\<close>

theorem generated_loads:
  assumes "RandomTaskSetFactory_ctor draws ids n u g1 g2 g3 g4 minU preciseU rg = Some (Inr F)" and "0 < n"
  shows "length (tf_load F) = nat n \<and> sum_list (tf_load F) = u \<and>
    (\<forall>l\<in>set (if preciseU then tl (tf_load F) else tf_load F). minU \<le> l)"
proof -
  obtain G where "factory_generate (factory_init n u g1 g2 g3 g4 minU preciseU rg) = Some (Inr (True, G))"
    and "F = factory_sinthesize draws ids G"
    using assms(1) by (rule ctor_cases)
  from generated_loads_hold [OF this(1)] this(2) assms(2) show ?thesis by (simp add: factory_sinthesize_def)
qed

theorem generated_loads_witness:
  "\<exists>F. example_factory = Some (Inr F) \<and> length (tf_load F) = 2 \<and> sum_list (tf_load F) = 1 / 2 \<and> (\<forall>l\<in>set (tf_load F). UMIN_DEF \<le> l)"
proof -
  obtain F where F: "example_factory = Some (Inr F)" using example_made ..
  with generated_loads [OF F [unfolded example_factory_def]] show ?thesis by (intro exI [of _ F]) simp
qed

text \<open>
  C33. Unless the load is generated precisely, all the tasks of a set have the same load and the same period, since a
  uniform variable keeps the first value it gives: no set of different tasks can be made.
\<close>

theorem generated_tasks_equal:
  assumes "RandomTaskSetFactory_ctor draws ids n u g1 g2 g3 g4 minU False rg = Some (Inr F)"
    and "gen_ok rg" and "0 \<le> ia_tMin g1" and "ia_tMin g1 < ia_tMax g1"
  shows "\<exists>p. \<forall>i<nat n. tf_load F ! i = u / of_int n \<and> factory_getAvgIAT (int i) F = Inr p"
proof -
  let ?F0 = "factory_init n u g1 g2 g3 g4 minU False rg"
  obtain G where G: "factory_generate ?F0 = Some (Inr (True, G))" "F = factory_sinthesize draws ids G" and n: "0 \<le> n" and fresh: "\<not> ia_taskSet g1"
    using assms(1) by (rule ctor_cases) (simp add: already_bound_def)
  obtain p where "tf_load G = replicate (nat n) (u / of_nat (nat n))" "ia_avg (tf_iat G) = replicate (nat n) p"
    using generated_equal [OF G(1)] assms(2-4) fresh by auto
  moreover obtain F1 where "set_up F1 = set_up ?F0" "factory_trial F1 = Some (Inr (True, G))" using generate_last_trial [OF G(1)] by blast
  then have "tf_size G = nat n" using trial_set_up by (fastforce simp: set_up_def)
  ultimately show ?thesis using n
    by (intro exI [of _ p]) (auto simp: G(2) factory_sinthesize_def factory_getAvgIAT_def factory_read_def factory_chk_def IATGen_getAvg_def)
qed

theorem generated_tasks_equal_witness:
  "\<exists>F p. example_factory = Some (Inr F) \<and> (\<forall>i<2. tf_load F ! i = 1 / 4 \<and> factory_getAvgIAT (int i) F = Inr p)"
proof -
  obtain F where F: "example_factory = Some (Inr F)" using example_made ..
  have "0 \<le> ia_tMin example_times" "ia_tMin example_times < ia_tMax example_times" by code_simp+
  from generated_tasks_equal [OF F [unfolded example_factory_def] example_gen this] F show ?thesis by (intro exI [of _ F]) simp
qed

text \<open>
  C35. A set whose first trial succeeds has no deadlines, when the deadlines are to be the periods: every relative deadline
  is zero, since the deadlines of a trial are taken from the periods of the trial before.
\<close>

theorem first_trial_without_deadlines:
  assumes "factory_trial (factory_init n u g1 g2 g3 g4 minU preciseU rg) = Some (Inr (True, F))"
    and "dt_kind g3 = DlineEquPeriodDT" and "0 \<le> n" and "\<not> already_bound g1 g2 g3 g4"
  shows "\<exists>F'. RandomTaskSetFactory_ctor draws ids n u g1 g2 g3 g4 minU preciseU rg = Some (Inr F') \<and>
    (\<forall>i<nat n. factory_getDeadline (int i) F' = Inr 0)"
proof -
  let ?F0 = "factory_init n u g1 g2 g3 g4 minU preciseU rg"
  have "factory_generate ?F0 = Some (Inr (True, F))" by (subst factory_generate.simps) (simp add: assms(1))
  moreover have "dt_va (tf_dt F) = map (\<lambda>i. IATGen_getAvg i (tf_iat ?F0)) [0..<nat n]"
    using trial_deadlines [OF assms(1)] assms(2,4) by (simp add: already_bound_def)
  moreover have "tf_size F = nat n" using trial_set_up [OF assms(1)] by (simp add: set_up_def)
  moreover have "\<not> ia_taskSet g1" using assms(4) by (simp add: already_bound_def)
  ultimately show ?thesis using assms(3,4)
    by (simp add: RandomTaskSetFactory_ctor_def bindN_def factory_sinthesize_def factory_getDeadline_def factory_read_def
        factory_chk_def DTGen_getAvg_def IATGen_getAvg_def)
qed

theorem first_trial_without_deadlines_witness:
  "\<exists>F. example_factory = Some (Inr F) \<and> (\<forall>i<2. factory_getDeadline (int i) F = Inr 0)"
proof -
  obtain F where F: "factory_trial example_set = Some (Inr (True, F))" using example_trial_ok ..
  have "dt_kind (DTGen_ctor DlineEquPeriodDT) = DlineEquPeriodDT" by (simp add: DTGen_ctor_def)
  moreover have "\<not> already_bound example_times (CTGen_ctor ConstCT CMIN_DEF) (DTGen_ctor DlineEquPeriodDT) None"
    by (simp add: already_bound_def example_times_def IATGen_ctor_def CTGen_ctor_def DTGen_ctor_def)
  ultimately show ?thesis using first_trial_without_deadlines [OF F [unfolded example_set_def], of example_draws int]
    by (simp add: example_factory_def)
qed

text \<open>
  C34. A trial whose computation times are too small is not counted, so a set for which every trial fails in this way is tried
  for ever and the constructor does not return.  For a set that is not precise, with constant times between arrivals and
  constant computation times (and any deadlines, without offsets), made with new generators, this is so when the load of a
  task, no less than the minimum load, times the largest period is below the least computation time.
\<close>

theorem too_small_never_returns:
  assumes "0 < n" and "gen_ok rg" and "0 \<le> u" and "minU \<le> u / of_int n"
    and "ia_kind g1 = ConstIAT" and "0 \<le> ia_tMin g1" and "ia_minT g1 \<le> ia_tMin g1" and "ia_tMin g1 < ia_tMax g1" and "1 \<le> ia_tGCD g1"
    and "cg_kind g2 = ConstCT" and "Tick_round (of_int (ia_tMax g1 * ia_tGCD g1) * (u / of_int n)) < cg_minC g2"
    and "\<not> already_bound g1 g2 g3 None"
  shows "RandomTaskSetFactory_ctor draws ids n u g1 g2 g3 None minU False rg = None"
proof -
  have "\<not> ia_taskSet g1" using assms(12) by (simp add: already_bound_def)
  then have "factory_generate (factory_init n u g1 g2 g3 None minU False rg) = None"
    using assms by (intro too_small_for_ever) (simp_all add: too_small_def)
  with assms(1,12) show ?thesis by (simp add: RandomTaskSetFactory_ctor_def bindN_def)
qed

theorem too_small_never_returns_witness:
  "RandomTaskSetFactory_ctor example_draws int 1 UMIN_DEF example_times (CTGen_ctor ConstCT CMIN_DEF) (DTGen_ctor DlineEquPeriodDT) None
     UMIN_DEF False (RandomGen_ctor 1) = None"
proof (rule too_small_never_returns [OF _ example_gen])
  show "Tick_round (of_int (ia_tMax example_times * ia_tGCD example_times) * (UMIN_DEF / of_int 1)) < cg_minC (CTGen_ctor ConstCT CMIN_DEF)"
    by code_simp
qed (simp_all add: UMIN_DEF_def already_bound_def DTGen_ctor_def example_times_def IATGen_ctor_def CTGen_ctor_def TMIN_DEF_def GCD_DEF_def)

end
