(* ===== verification/Stats.thy ===== *)
theory Stats
  imports Engine PowerModels RandomVars
begin

text \<open>
  \<open>libmetasim/basestat.cpp\<close>, \<open>basestat.hpp\<close> and \<open>history.hpp\<close>: statistics over the runs of a simulation.  A
  statistic is an object of a class that says how a value is recorded (\<open>stat_kind\<close>, with the members of the class); the
  static members of \<open>BaseStat\<close> are a record.  An object is named by its address.  Doubles are rational numbers and
  the square root is a parameter.  What is written to a file or to the screen is the value of the function that writes.
\<close>

section \<open>Statistics\<close>

definition double_max :: rat where "double_max = (2 - 1 / 2 ^ 52) * 2 ^ 1023"

datatype stat_kind =
    StatMax rat             \<comment> \<open>\<open>_ini\<close>\<close>
  | StatMin rat
  | StatMean rat rat        \<comment> \<open>\<open>_ini\<close>, \<open>_count\<close>\<close>
  | StatCount rat
  | StatPercent rat rat rat \<comment> \<open>\<open>_ini\<close>, \<open>_num\<close>, \<open>_den\<close>\<close>

record basestat =
  sb_name :: string
  sb_val :: rat
  sb_exper :: "rat list"
  sb_kind :: stat_kind

record stats =
  st_list :: "nat list"
  st_obj :: "nat \<Rightarrow> basestat"
  st_totalNumOfExp :: nat
  st_expNum :: nat
  st_endOfSim :: bool
  st_initFlag :: bool
  st_transitory :: tick

definition StatMax_ctor :: "rat \<Rightarrow> stat_kind" where "StatMax_ctor i = StatMax i"
definition StatMin_ctor :: "rat \<Rightarrow> stat_kind" where "StatMin_ctor i = StatMin i"
definition StatMean_ctor :: "rat \<Rightarrow> stat_kind" where "StatMean_ctor i = StatMean i 0"
definition StatCount_ctor :: "rat \<Rightarrow> stat_kind" where "StatCount_ctor i = StatCount i"
definition StatPercent_ctor :: "rat \<Rightarrow> stat_kind" where "StatPercent_ctor i = StatPercent i i (max 1 i)"

text \<open>Without an argument the maximum starts with the least positive double.\<close>

definition StatMax_default :: stat_kind where "StatMax_default = StatMax_ctor double_min"
definition StatMin_default :: stat_kind where "StatMin_default = StatMin_ctor double_max"

text \<open>\<open>initValue\<close> and \<open>record\<close>, of the class of the object.\<close>

definition initValue :: "basestat \<Rightarrow> basestat" where
  "initValue s = (case sb_kind s of
      StatMax ini \<Rightarrow> s\<lparr>sb_val := ini\<rparr>
    | StatMin ini \<Rightarrow> s\<lparr>sb_val := ini\<rparr>
    | StatMean ini k \<Rightarrow> s\<lparr>sb_val := ini, sb_kind := StatMean ini 0\<rparr>
    | StatCount ini \<Rightarrow> s\<lparr>sb_val := ini\<rparr>
    | StatPercent ini num den \<Rightarrow> s\<lparr>sb_val := ini, sb_kind := StatPercent ini ini (max 1 ini)\<rparr>)"

definition record_value :: "rat \<Rightarrow> basestat \<Rightarrow> basestat" where
  "record_value a s = (case sb_kind s of
      StatMax ini \<Rightarrow> s\<lparr>sb_val := max (sb_val s) a\<rparr>
    | StatMin ini \<Rightarrow> s\<lparr>sb_val := min (sb_val s) a\<rparr>
    | StatMean ini k \<Rightarrow> s\<lparr>sb_val := (sb_val s * k + a) / (k + 1), sb_kind := StatMean ini (k + 1)\<rparr>
    | StatCount ini \<Rightarrow> s\<lparr>sb_val := sb_val s + a\<rparr>
    | StatPercent ini num den \<Rightarrow>
        (let den1 = den + 1; num1 = (if 0 < a then num + 1 else num)
         in s\<lparr>sb_val := num1 / den1, sb_kind := StatPercent ini num1 den1\<rparr>))"

definition chkTransitory :: "tick \<Rightarrow> stats \<Rightarrow> bool" where
  "chkTransitory now S \<longleftrightarrow> now < st_transitory S"

definition Stat_record :: "tick \<Rightarrow> stats \<Rightarrow> rat \<Rightarrow> basestat \<Rightarrow> basestat" where
  "Stat_record now S a s = (if chkTransitory now S then s else record_value a s)"

definition put_stat :: "nat \<Rightarrow> basestat \<Rightarrow> stats \<Rightarrow> stats" where
  "put_stat p s S = S\<lparr>st_obj := (st_obj S)(p := s)\<rparr>"

text \<open>A call \<open>record(a)\<close> of the object \<open>p\<close> at a time.\<close>

definition stat_record :: "tick \<Rightarrow> rat \<Rightarrow> nat \<Rightarrow> stats \<Rightarrow> stats" where
  "stat_record now a p S = put_stat p (Stat_record now S a (st_obj S p)) S"

text \<open>
  The constructor does not set the value; \<open>v\<close> is what is in the memory.  The constructors of the classes set their
  members, and the object enters the list.
\<close>

definition BaseStat_ctor :: "nat \<Rightarrow> string \<Rightarrow> stat_kind \<Rightarrow> rat \<Rightarrow> stats \<Rightarrow> stats" where
  "BaseStat_ctor p name kind v S =
    put_stat p \<lparr>sb_name = name, sb_val = v, sb_exper = [], sb_kind = kind\<rparr> (S\<lparr>st_list := st_list S @ [p]\<rparr>)"

definition BaseStat_dtor :: "nat \<Rightarrow> stats \<Rightarrow> stats" where
  "BaseStat_dtor p S = S\<lparr>st_list := removeAll p (st_list S)\<rparr>"

definition for_stats :: "(basestat \<Rightarrow> basestat) \<Rightarrow> stats \<Rightarrow> stats" where
  "for_stats f S = fold (\<lambda>p S. put_stat p (f (st_obj S p)) S) (st_list S) S"

definition collect :: "nat \<Rightarrow> basestat \<Rightarrow> basestat" where
  "collect n s =
    (if length (sb_exper s) \<le> n then s\<lparr>sb_exper := sb_exper s @ [sb_val s]\<rparr> else s\<lparr>sb_exper := (sb_exper s)[n := sb_val s]\<rparr>)"

definition stat_init1 :: "nat \<Rightarrow> stats \<Rightarrow> stats" where
  "stat_init1 p S = (put_stat p ((st_obj S p)\<lparr>sb_exper := []\<rparr>) S)\<lparr>st_expNum := 0\<rparr>"

definition BaseStat_init :: "nat \<Rightarrow> stats \<Rightarrow> stats" where
  "BaseStat_init n S = fold stat_init1 (st_list S) (S\<lparr>st_totalNumOfExp := n, st_endOfSim := False, st_initFlag := True\<rparr>)"

definition setTransitory :: "tick \<Rightarrow> stats \<Rightarrow> stats" where
  "setTransitory t S = S\<lparr>st_transitory := t\<rparr>"

definition MAX_RUN :: nat where "MAX_RUN = 100000"

definition TOO_MUCH_RUNS :: exc where "TOO_MUCH_RUNS = StatExc ''Too many runs! ''"
definition GET :: exc where "GET = StatExc ''Can't get statistics before end of simulation''"
definition NO_INIT :: exc where "NO_INIT = StatExc ''Statistics not initialized''"
definition NEED_3 :: exc where "NEED_3 = StatExc ''Need at least 3 run to evaluate statistic''"

definition BaseStat_newRun :: "stats \<Rightarrow> stats" where
  "BaseStat_newRun S = for_stats initValue S"

definition BaseStat_endRun :: "stats \<Rightarrow> exc + stats" where
  "BaseStat_endRun S = (let S1 = for_stats (collect (st_expNum S)) S; S2 = S1\<lparr>st_expNum := st_expNum S1 + 1\<rparr>
     in if MAX_RUN \<le> st_expNum S2 then Inl TOO_MUCH_RUNS else Inr S2)"

definition BaseStat_endSim :: "stats \<Rightarrow> stats" where
  "BaseStat_endSim S = S\<lparr>st_endOfSim := True\<rparr>"

definition getValue :: "basestat \<Rightarrow> rat" where "getValue s = sb_val s"

definition getLastValue :: "nat \<Rightarrow> stats \<Rightarrow> exc + rat" where
  "getLastValue p S =
    (if 0 < st_expNum S then
       if st_expNum S - 1 < length (sb_exper (st_obj S p)) then Inr (sb_exper (st_obj S p) ! (st_expNum S - 1))
       else Inl (UndefinedBehaviour ''_exper'')
     else Inr 0)"

section \<open>Results\<close>

text \<open>A mean over no runs is the quotient of zero by zero.\<close>

definition getMean :: "nat \<Rightarrow> stats \<Rightarrow> exc + rat" where
  "getMean p S =
    (if \<not> st_endOfSim S then Inl GET else if \<not> st_initFlag S then Inl NO_INIT
     else divE (foldl (+) 0 (sb_exper (st_obj S p))) (of_nat (st_expNum S)))"

definition V :: "rat \<Rightarrow> rat \<Rightarrow> rat \<Rightarrow> rat" where
  "V mu result v = result + (v - mu) * (v - mu)"

definition getVariance :: "(rat \<Rightarrow> rat) \<Rightarrow> nat \<Rightarrow> stats \<Rightarrow> exc + rat" where
  "getVariance sq p S =
    (if \<not> st_endOfSim S then Inl GET else if \<not> st_initFlag S then Inl NO_INIT else if st_expNum S < 3 then Inl NEED_3
     else bindE (getMean p S) (\<lambda>mu.
       bindE (divE (foldl (V mu) 0 (sb_exper (st_obj S p))) (of_nat ((st_expNum S - 1) * st_expNum S))) (\<lambda>q. Inr (sq q))))"

definition t1_table :: "(rat \<times> rat) list" where
  "t1_table = map (\<lambda>(a, b). (a / 1000, b / 1000))
    [(6314, 12706), (2920, 4303), (2353, 3182), (2132, 2776), (2015, 2571), (1943, 2447), (1895, 2365), (1860, 2306),
     (1833, 2262), (1812, 2228), (1796, 2201), (1782, 2179), (1771, 2160), (1768, 2145), (1753, 2131), (1746, 2120),
     (1740, 2110), (1734, 2101), (1729, 2093), (1725, 2086), (1721, 2080), (1717, 2074), (1714, 2069), (1711, 2064),
     (1708, 2060), (1706, 2056), (1703, 2052), (1701, 2048), (1699, 2045), (1697, 2042)]"

definition t_student :: "int \<Rightarrow> int \<Rightarrow> rat" where
  "t_student alfa dol =
    (if dol < 1 \<or> 30 < dol then - 1
     else if alfa = 90 then fst (t1_table ! nat (dol - 1)) else if alfa = 95 then snd (t1_table ! nat (dol - 1)) else - 1)"

datatype conf = C90 | C95

definition conf_value :: "conf \<Rightarrow> int" where
  "conf_value c = (case c of C90 \<Rightarrow> 90 | C95 \<Rightarrow> 95)"

definition getConfInterval :: "(rat \<Rightarrow> rat) \<Rightarrow> conf \<Rightarrow> nat \<Rightarrow> stats \<Rightarrow> exc + rat" where
  "getConfInterval sq c p S =
    (if \<not> st_endOfSim S then Inl GET else if \<not> st_initFlag S then Inl NO_INIT else if st_expNum S < 3 then Inl NEED_3
     else bindE (getMean p S) (\<lambda>mu. bindE (getVariance sq p S) (\<lambda>s. Inr (t_student (conf_value c) (int (st_expNum S) - 1) * s))))"

section \<open>Output\<close>

text \<open>A line has a name, a mean and an interval.\<close>

definition stat_row :: "(rat \<Rightarrow> rat) \<Rightarrow> stats \<Rightarrow> nat \<Rightarrow> exc + string \<times> rat \<times> rat" where
  "stat_row sq S p = bindE (getMean p S) (\<lambda>m. bindE (getConfInterval sq C95 p S) (\<lambda>c. Inr (sb_name (st_obj S p), m, c)))"

definition printAll :: "(rat \<Rightarrow> rat) \<Rightarrow> stats \<Rightarrow> exc + (string \<times> rat \<times> rat) list" where
  "printAll sq S = mapE (stat_row sq S) (st_list S)"

text \<open>The files of gnuplot: a title and a line for every simulation; a file is opened if that can be done.\<close>

datatype plot_line = PlotTitle string | PlotRow string rat rat

type_synonym plots = "string \<Rightarrow> plot_line list"

definition cannot_open :: "string \<Rightarrow> exc" where
  "cannot_open name = BaseExc (''Cannot open file '' @ name)"

fun GnuPlotOutput_init :: "(string \<Rightarrow> bool) \<Rightarrow> string list \<Rightarrow> plots \<Rightarrow> exc + plots" where
  "GnuPlotOutput_init opens [] F = Inr F"
| "GnuPlotOutput_init opens (name # names) F =
    (if name = [] then GnuPlotOutput_init opens names F
     else if \<not> opens name then Inl (cannot_open name)
     else GnuPlotOutput_init opens names (F(name := [PlotTitle name])))"

fun GnuPlotOutput_write :: "(rat \<Rightarrow> rat) \<Rightarrow> (string \<Rightarrow> bool) \<Rightarrow> string \<Rightarrow> stats \<Rightarrow> nat list \<Rightarrow> plots \<Rightarrow> exc + plots" where
  "GnuPlotOutput_write sq opens t S [] F = Inr F"
| "GnuPlotOutput_write sq opens t S (p # ps) F =
    (let name = sb_name (st_obj S p) in
     if name = [] then GnuPlotOutput_write sq opens t S ps F
     else if \<not> opens name then Inl (cannot_open name)
     else bindE (stat_row sq S p) (\<lambda>(_, m, c). GnuPlotOutput_write sq opens t S ps (F(name := F name @ [PlotRow t m c]))))"

text \<open>A table is opened once; its loop waits for a null pointer and reads past the end of the list.\<close>

record table_output =
  to_created :: bool
  to_fname :: string

definition TableOutput_init :: "string \<Rightarrow> table_output \<Rightarrow> table_output" where
  "TableOutput_init filename T = (if to_created T then T else T\<lparr>to_fname := filename\<rparr>)\<lparr>to_created := True\<rparr>"

definition TableOutput_write :: "(rat \<Rightarrow> rat) \<Rightarrow> stats \<Rightarrow> table_output \<Rightarrow> exc + (string \<times> rat \<times> rat) list" where
  "TableOutput_write sq S T =
    (if \<not> to_created T then Inl (BaseExc ''Init function not called'')
     else bindE (mapE (stat_row sq S) (st_list S)) (\<lambda>_. Inl (UndefinedBehaviour ''*_statList.end()'')))"

section \<open>The statistics of a simulation\<close>

text \<open>The state of a simulation with statistics, and the calls that \<open>run\<close> makes.\<close>

record 'e stat_sim = "'e sim" +
  sim_stats :: stats

definition stat_hooks ::
    "('e stat_sim \<Rightarrow> exc + 'e stat_sim) \<Rightarrow> ('e stat_sim \<Rightarrow> exc + 'e stat_sim) \<Rightarrow> 'e stat_sim run_hooks" where
  "stat_hooks callNewRun callEndRun =
    \<lparr>hook_callNewRun = callNewRun, hook_callEndRun = callEndRun,
     hook_statInit = (\<lambda>n w. Inr (w\<lparr>sim_stats := BaseStat_init n (sim_stats w)\<rparr>)),
     hook_statNewRun = (\<lambda>w. Inr (w\<lparr>sim_stats := BaseStat_newRun (sim_stats w)\<rparr>)),
     hook_statEndRun = (\<lambda>w. bindE (BaseStat_endRun (sim_stats w)) (\<lambda>S. Inr (w\<lparr>sim_stats := S\<rparr>))),
     hook_statEndSim = (\<lambda>w. Inr (w\<lparr>sim_stats := BaseStat_endSim (sim_stats w)\<rparr>))\<rparr>"

section \<open>History\<close>

record 'a history =
  h_c :: "'a list"
  h_size :: nat
  h_curr_pos :: int

definition history_ctor :: "nat \<Rightarrow> 'a \<Rightarrow> 'a history" where
  "history_ctor s v = \<lparr>h_c = replicate s v, h_size = s, h_curr_pos = 0\<rparr>"

definition history_of_range :: "'a list \<Rightarrow> 'a history" where
  "history_of_range xs = \<lparr>h_c = xs, h_size = length xs, h_curr_pos = 0\<rparr>"

definition history_size :: "'a history \<Rightarrow> nat" where "history_size h = h_size h"

definition history_push :: "'a \<Rightarrow> 'a history \<Rightarrow> exc + 'a history" where
  "history_push v h =
    (if nat (h_curr_pos h) < length (h_c h) then
       Inr (h\<lparr>h_c := (h_c h)[nat (h_curr_pos h) := v], h_curr_pos := (h_curr_pos h + 1) mod int (h_size h)\<rparr>)
     else Inl (UndefinedBehaviour ''history''))"

definition history_nth :: "'a history \<Rightarrow> int \<Rightarrow> exc + 'a" where
  "history_nth h i =
    (let pos = h_curr_pos h - 1 - i; pos1 = (if pos < 0 then pos + int (h_size h) else pos)
     in if 0 \<le> pos1 \<and> pos1 < int (length (h_c h)) then Inr (h_c h ! nat pos1) else Inl (UndefinedBehaviour ''history''))"

end
