(* ===== verification/Stats_Laws.thy ===== *)
theory Stats_Laws
  imports Stats Engine_Laws "HOL-Library.Sublist"
begin

text \<open>
  What the statistics stand for: the value of a run is the maximum, the minimum, the mean, the sum or the ratio of what
  was recorded after the transitory; a simulation of some runs leaves one value per run in every statistic, and
  the mean and the interval are computed over these; a history holds the last values.
\<close>

section \<open>All the statistics of the list\<close>

lemma st_obj_put [simp]: "st_obj (put_stat p s S) q = (if q = p then s else st_obj S q)" "st_list (put_stat p s S) = st_list S"
  "st_expNum (put_stat p s S) = st_expNum S" "st_transitory (put_stat p s S) = st_transitory S" "st_endOfSim (put_stat p s S) = st_endOfSim S"
  "st_initFlag (put_stat p s S) = st_initFlag S" "st_totalNumOfExp (put_stat p s S) = st_totalNumOfExp S"
  by (simp_all add: put_stat_def)

lemma fold_put_other: "p \<notin> set ps \<Longrightarrow> st_obj (fold (\<lambda>p S. put_stat p (f (st_obj S p)) S) ps S) p = st_obj S p"
  by (induction ps arbitrary: S) auto

lemma fold_put_in:
  "distinct ps \<Longrightarrow> p \<in> set ps \<Longrightarrow> st_obj (fold (\<lambda>p S. put_stat p (f (st_obj S p)) S) ps S) p = f (st_obj S p)"
  by (induction ps arbitrary: S) (auto simp: fold_put_other)

lemma for_stats_obj: "distinct (st_list S) \<Longrightarrow> st_obj (for_stats f S) p = (if p \<in> set (st_list S) then f (st_obj S p) else st_obj S p)"
  by (simp add: for_stats_def fold_put_in fold_put_other)

lemma fold_put_same: "\<exists>g. fold (\<lambda>p S. put_stat p (f (st_obj S p)) S) ps S = S\<lparr>st_obj := g\<rparr>"
proof (induction ps arbitrary: S)
  case Nil
  then show ?case by (intro exI [of _ "st_obj S"]) simp
next
  case (Cons p ps)
  from Cons [of "put_stat p (f (st_obj S p)) S"] show ?case by (auto simp: put_stat_def)
qed

lemma for_stats_same [simp]:
  "st_list (for_stats f S) = st_list S" "st_expNum (for_stats f S) = st_expNum S" "st_endOfSim (for_stats f S) = st_endOfSim S"
  "st_initFlag (for_stats f S) = st_initFlag S" "st_transitory (for_stats f S) = st_transitory S"
  "st_totalNumOfExp (for_stats f S) = st_totalNumOfExp S"
  using fold_put_same [of f "st_list S" S] by (auto simp: for_stats_def)

section \<open>The value of a run\<close>

text \<open>What the value should be after some records.\<close>

definition stat_spec :: "stat_kind \<Rightarrow> rat list \<Rightarrow> rat" where
  "stat_spec k as = (case k of
      StatMax ini \<Rightarrow> Max (insert ini (set as))
    | StatMin ini \<Rightarrow> Min (insert ini (set as))
    | StatMean ini _ \<Rightarrow> if as = [] then ini else sum_list as / of_nat (length as)
    | StatCount ini \<Rightarrow> ini + sum_list as
    | StatPercent ini _ _ \<Rightarrow> if as = [] then ini
        else (ini + of_nat (length (filter (\<lambda>a. 0 < a) as))) / (max 1 ini + of_nat (length as)))"

text \<open>The members after some records.\<close>

definition stat_state :: "stat_kind \<Rightarrow> rat list \<Rightarrow> stat_kind" where
  "stat_state k as = (case k of
      StatMean ini _ \<Rightarrow> StatMean ini (of_nat (length as))
    | StatPercent ini _ _ \<Rightarrow> StatPercent ini (ini + of_nat (length (filter (\<lambda>a. 0 < a) as))) (max 1 ini + of_nat (length as))
    | _ \<Rightarrow> k)"

lemma initValue_spec: "sb_val (initValue s) = stat_spec (sb_kind s) []" "sb_kind (initValue s) = stat_state (sb_kind s) []"
  "sb_exper (initValue s) = sb_exper s" "sb_name (initValue s) = sb_name s"
  by (simp_all add: initValue_def stat_spec_def stat_state_def split: stat_kind.split)

lemma record_value_spec:
  assumes "sb_val s = stat_spec k as" and "sb_kind s = stat_state k as"
  shows "sb_val (record_value a s) = stat_spec k (as @ [a])" and "sb_kind (record_value a s) = stat_state k (as @ [a])"
proof -
  have "sb_val (record_value a s) = stat_spec k (as @ [a]) \<and> sb_kind (record_value a s) = stat_state k (as @ [a])"
  proof (cases k)
    case (StatMean ini k0)
    have "(sum_list as / of_nat (length as) * of_nat (length as) + a) / (of_nat (length as) + 1) =
        (sum_list as + a) / (of_nat (length as) + 1)" if "as \<noteq> []"
      using that by simp
    with StatMean assms show ?thesis by (auto simp: record_value_def stat_spec_def stat_state_def)
  next
    case (StatMax ini)
    with assms show ?thesis by (simp add: record_value_def stat_spec_def stat_state_def Max_insert2 max.commute insert_commute)
  next
    case (StatMin ini)
    with assms show ?thesis by (simp add: record_value_def stat_spec_def stat_state_def min.commute insert_commute)
  next
    case (StatPercent ini num den)
    with assms show ?thesis by (simp add: record_value_def stat_spec_def stat_state_def Let_def ac_simps)
  qed (use assms in \<open>simp add: record_value_def stat_spec_def stat_state_def\<close>)
  then show "sb_val (record_value a s) = stat_spec k (as @ [a])" and "sb_kind (record_value a s) = stat_state k (as @ [a])" by auto
qed

text \<open>The records of a statistic during a run, each at a time.\<close>

definition records :: "nat \<Rightarrow> (tick \<times> rat) list \<Rightarrow> stats \<Rightarrow> stats" where
  "records p = fold (\<lambda>(now, a). stat_record now a p)"

definition counted :: "tick \<Rightarrow> (tick \<times> rat) list \<Rightarrow> rat list" where
  "counted t rs = map snd (filter (\<lambda>(now, a). t \<le> now) rs)"

lemma records_spec:
  assumes "sb_val (st_obj S p) = stat_spec k as" and "sb_kind (st_obj S p) = stat_state k as"
  shows "sb_val (st_obj (records p rs S) p) = stat_spec k (as @ counted (st_transitory S) rs)"
  using assms
proof (induction rs arbitrary: S as)
  case Nil
  then show ?case by (simp add: records_def counted_def)
next
  case (Cons r rs)
  obtain now a where r: "r = (now, a)" by (cases r)
  let ?S = "stat_record now a p S"
  have tr: "st_transitory ?S = st_transitory S" by (simp add: stat_record_def put_stat_def)
  show ?case
  proof (cases "st_transitory S \<le> now")
    case True
    then have obj: "st_obj ?S p = record_value a (st_obj S p)"
      by (simp add: stat_record_def put_stat_def Stat_record_def chkTransitory_def)
    from record_value_spec [OF Cons.prems] have "sb_val (st_obj ?S p) = stat_spec k (as @ [a])" "sb_kind (st_obj ?S p) = stat_state k (as @ [a])"
      by (simp_all add: obj)
    from Cons.IH [OF this] show ?thesis using True by (simp add: records_def r counted_def tr)
  next
    case False
    then have "st_obj ?S p = st_obj S p" by (simp add: stat_record_def put_stat_def Stat_record_def chkTransitory_def)
    with Cons.IH [of ?S as] Cons.prems show ?thesis using False by (simp add: records_def r counted_def tr)
  qed
qed

text \<open>
  C37. The value of a statistic in a run, after any records, counts those at or after the transitory: the maximum or minimum of them
  and the initial value, their mean, their sum, or the number of positive ones over one more than their number and that
  of the initial value - which is not the share that the comment of the class gives.
\<close>

theorem statistic_of_a_run:
  assumes "distinct (st_list S)" and "p \<in> set (st_list S)"
  shows "getValue (st_obj (records p rs (BaseStat_newRun S)) p) = stat_spec (sb_kind (st_obj S p)) (counted (st_transitory S) rs)"
proof -
  let ?S = "BaseStat_newRun S"
  have obj: "st_obj ?S p = initValue (st_obj S p)" using assms by (simp add: BaseStat_newRun_def for_stats_obj)
  have "sb_val (st_obj ?S p) = stat_spec (sb_kind (st_obj S p)) []" "sb_kind (st_obj ?S p) = stat_state (sb_kind (st_obj S p)) []"
    by (simp_all add: obj initValue_spec)
  from records_spec [OF this, of rs] show ?thesis by (simp add: getValue_def BaseStat_newRun_def)
qed

definition example_stats :: stats where
  "example_stats = BaseStat_ctor 0 ''misses'' (StatPercent_ctor 0) 0
     \<lparr>st_list = [], st_obj = (\<lambda>p. \<lparr>sb_name = [], sb_val = 0, sb_exper = [], sb_kind = StatMax 0\<rparr>), st_totalNumOfExp = 0, st_expNum = 0,
      st_endOfSim = False, st_initFlag = False, st_transitory = 10\<rparr>"

text \<open>The comment of the class says two thirds for one, one and zero.\<close>

theorem statistic_of_a_run_witness:
  "getValue (st_obj (records 0 [(5, 1), (10, 1), (12, 1), (13, 0)] (BaseStat_newRun example_stats)) 0) = 1 / 2"
proof -
  have "distinct (st_list example_stats)" "0 \<in> set (st_list example_stats)" by (simp_all add: example_stats_def BaseStat_ctor_def put_stat_def)
  from statistic_of_a_run [OF this] show ?thesis
    by (simp add: stat_spec_def counted_def example_stats_def BaseStat_ctor_def put_stat_def StatPercent_ctor_def)
qed

text \<open>A maximum that starts with the default value never sees a number that is not positive.\<close>

lemma double_min_pos: "0 < double_min"
  by (simp add: double_min_def)

lemma default_maximum_not_negative:
  assumes "\<And>a. a \<in> set as \<Longrightarrow> a \<le> 0"
  shows "stat_spec StatMax_default as = double_min"
proof -
  have "Max (insert double_min (set as)) = double_min"
    using assms double_min_pos by (intro Max_eqI) (auto intro: order_trans [OF _ less_imp_le])
  then show ?thesis by (simp add: stat_spec_def StatMax_default_def StatMax_ctor_def)
qed

section \<open>The values of the runs\<close>

text \<open>What a model may do to the statistics during a run: it records values.\<close>

definition only_records :: "stats \<Rightarrow> stats \<Rightarrow> bool" where
  "only_records S S' \<longleftrightarrow> st_list S' = st_list S \<and> st_totalNumOfExp S' = st_totalNumOfExp S \<and> st_expNum S' = st_expNum S \<and>
     st_endOfSim S' = st_endOfSim S \<and> st_initFlag S' = st_initFlag S \<and> st_transitory S' = st_transitory S \<and>
     (\<forall>p. sb_exper (st_obj S' p) = sb_exper (st_obj S p) \<and> sb_name (st_obj S' p) = sb_name (st_obj S p))"

lemma only_records_refl [simp]: "only_records S S" by (simp add: only_records_def)
lemma only_records_trans: "only_records S T \<Longrightarrow> only_records T U \<Longrightarrow> only_records S U" by (simp add: only_records_def)

lemma stat_record_only: "only_records S (stat_record now a p S)"
  by (auto simp: only_records_def stat_record_def Stat_record_def record_value_def Let_def split: stat_kind.split)

lemma newRun_only: "distinct (st_list S) \<Longrightarrow> only_records S (BaseStat_newRun S)"
  by (simp add: only_records_def BaseStat_newRun_def for_stats_obj initValue_spec)

text \<open>Every statistic of the list has a value for every run that ended.\<close>

definition stats_ok :: "nat \<Rightarrow> stats \<Rightarrow> bool" where
  "stats_ok n S \<longleftrightarrow> distinct (st_list S) \<and> st_expNum S = n \<and> (\<forall>p\<in>set (st_list S). length (sb_exper (st_obj S p)) = n)"

lemma only_records_ok: "only_records S S' \<Longrightarrow> stats_ok n S \<Longrightarrow> stats_ok n S'"
  by (simp add: only_records_def stats_ok_def)

lemma init_fold:
  "st_list (fold stat_init1 ps S) = st_list S \<and> (st_expNum S = 0 \<longrightarrow> st_expNum (fold stat_init1 ps S) = 0) \<and>
   st_initFlag (fold stat_init1 ps S) = st_initFlag S \<and>
   (\<forall>p. sb_exper (st_obj (fold stat_init1 ps S) p) = (if p \<in> set ps then [] else sb_exper (st_obj S p)))"
  by (induction ps arbitrary: S) (auto simp: stat_init1_def)

lemma init_expNum: "ps \<noteq> [] \<Longrightarrow> st_expNum (fold stat_init1 ps S) = 0"
  by (cases ps) (use init_fold in \<open>auto simp: stat_init1_def\<close>)

lemma init_ok:
  assumes "distinct (st_list S)" and "st_list S \<noteq> []"
  shows "stats_ok 0 (BaseStat_init n S)" and "st_initFlag (BaseStat_init n S)" and "st_list (BaseStat_init n S) = st_list S"
  using assms init_fold [of "st_list S" "S\<lparr>st_totalNumOfExp := n, st_endOfSim := False, st_initFlag := True\<rparr>"] init_expNum
  by (auto simp: stats_ok_def BaseStat_init_def)

lemma endRun_ok:
  assumes "stats_ok n S" and "BaseStat_endRun S = Inr S'"
  shows "stats_ok (Suc n) S'" and "Suc n < MAX_RUN" and "st_list S' = st_list S" and "st_initFlag S' = st_initFlag S"
    and "p \<in> set (st_list S) \<Longrightarrow> sb_exper (st_obj S' p) = sb_exper (st_obj S p) @ [getValue (st_obj S p)]"
proof -
  have S': "S' = (for_stats (collect n) S)\<lparr>st_expNum := Suc n\<rparr>" and "Suc n < MAX_RUN"
    using assms by (auto simp: BaseStat_endRun_def stats_ok_def Let_def split: if_splits)
  then show "Suc n < MAX_RUN" "st_list S' = st_list S" "st_initFlag S' = st_initFlag S" by simp_all
  show exper: "sb_exper (st_obj S' p) = sb_exper (st_obj S p) @ [getValue (st_obj S p)]" if "p \<in> set (st_list S)" for p
    using that assms(1) by (simp add: S' for_stats_obj stats_ok_def collect_def getValue_def)
  show "stats_ok (Suc n) S'" using assms(1) exper by (simp add: stats_ok_def S')
qed

text \<open>The engine does not touch the statistics.\<close>

lemma engine_keeps_stats [simp]:
  "sim_stats (Event_drop e w) = sim_stats w" "sim_stats (Event_dtor e w) = sim_stats w" "sim_stats (Simulation_setTime t w) = sim_stats w"
  "sim_stats (upd_event e f w) = sim_stats w" "sim_stats (Event_restorePriority e w) = sim_stats w"
  by (simp_all add: Event_drop_def Event_dtor_def Simulation_setTime_def upd_event_def Event_restorePriority_def)

lemma clearLoop_keeps_stats [simp]: "sim_stats (Simulation_clearLoop (w :: 'e stat_sim)) = sim_stats w"
proof (induction w rule: Simulation_clearLoop.induct)
  case (1 w)
  then show ?case by (subst Simulation_clearLoop.simps) (auto split: option.split simp: Let_def)
qed

text \<open>Handlers that only record.\<close>

definition recording :: "('e stat_sim \<Rightarrow> exc + 'e stat_sim) \<Rightarrow> bool" where
  "recording f \<longleftrightarrow> (\<forall>w w'. f w = Inr w' \<longrightarrow> only_records (sim_stats w) (sim_stats w'))"

lemma recordingD: "recording f \<Longrightarrow> f w = Inr w' \<Longrightarrow> only_records (sim_stats w) (sim_stats w')"
  by (simp add: recording_def)

lemma sim_step_records:
  assumes "\<And>e. recording (doit e)" and "Simulation_sim_step doit w = Inr (t, w')"
  shows "only_records (sim_stats w) (sim_stats (w' :: 'e stat_sim))"
proof -
  obtain e where e: "Event_getFirst w = Some e" using assms(2) by (auto simp: Simulation_sim_step_def split: option.splits)
  let ?v = "Event_restorePriority e (upd_event e (\<lambda>ev. ev\<lparr>ev_lastTime := ev_time ev\<rparr>)
     (Simulation_setTime (Event_getTime e (Event_drop e w)) (Event_drop e w)))"
  obtain w2 where "doit e ?v = Inr w2" and "sim_stats w' = sim_stats w2"
    using assms(2) e by (auto simp: Simulation_sim_step_def Event_action_def Let_def split: sum.splits if_splits)
  with recordingD [OF assms(1) this(1)] show ?thesis by simp
qed

lemma main_cycle_records:
  assumes "\<And>e. recording (doit e)" and "Simulation_main_cycle doit endTick w = Some (Inr w')"
  shows "only_records (sim_stats w) (sim_stats (w' :: 'e stat_sim))"
proof -
  have "Simulation_main_cycle doit' endTick w = Some r \<Longrightarrow> doit' = doit \<Longrightarrow> r = Inr w' \<Longrightarrow> only_records (sim_stats w) (sim_stats w')"
    for doit' and w :: "'e stat_sim" and r
  proof (induction doit' endTick w r rule: Simulation_main_cycle.raw_induct [rotated, consumes 1, case_names step])
    case (step cycle doit' endTick w r)
    show ?case
    proof (cases "globTime w < endTick \<and> Simulation_sim_step doit w \<noteq> Inl NoMoreEventsInQueue")
      case False
      with step.hyps step.prems show ?thesis by (auto split: if_splits)
    next
      case True
      with step.hyps step.prems obtain t v where v: "Simulation_sim_step doit w = Inr (t, v)"
        by (cases "Simulation_sim_step doit w") (auto split: sum.splits sim_exc.splits)
      with True step.hyps step.prems have "cycle doit endTick (Simulation_setTime t v) = Some r" by simp
      from step.IH [OF this] step.prems have "only_records (sim_stats v) (sim_stats w')" by simp
      with sim_step_records [OF assms(1) v] show ?thesis by (rule only_records_trans)
    qed
  qed
  with assms(2) show ?thesis by blast
qed

text \<open>
  The runs of a simulation one after the other: each starts from the state that the one before it left, and ends, before the
  statistics collect, in the state of the list.
\<close>

inductive run_sequence ::
    "'e stat_sim run_hooks \<Rightarrow> ('e \<Rightarrow> 'e stat_sim \<Rightarrow> exc + 'e stat_sim) \<Rightarrow> tick \<Rightarrow> 'e stat_sim \<Rightarrow> 'e stat_sim list \<Rightarrow> 'e stat_sim \<Rightarrow> bool"
  for h doit endTick where
  no_run: "run_sequence h doit endTick w [] w"
| one_run: "run_sequence h doit endTick w (v # vs) w'"
    if "Simulation_initSingleRun h w = Inr w1" "Simulation_main_cycle doit endTick w1 = Some (Inr w2)"
      "hook_callEndRun h w2 = Inr v" "Simulation_endSingleRun h w2 = Inr w3"
      "run_sequence h doit endTick (w3\<lparr>actRuns := actRuns w3 + 1\<rparr>) vs w'"

definition values_of :: "nat \<Rightarrow> 'e stat_sim list \<Rightarrow> rat list" where
  "values_of p vs = map (\<lambda>v. getValue (st_obj (sim_stats v) p)) vs"

lemma single_run:
  assumes "\<And>e. recording (doit e)" and "recording cN" and "recording cE" and "h = stat_hooks cN cE"
    and "stats_ok n (sim_stats w)" and "Simulation_initSingleRun h w = Inr w1" and "Simulation_main_cycle doit endTick w1 = Some (Inr w2)"
    and "Simulation_endSingleRun h w2 = Inr w3"
  shows "\<exists>v. hook_callEndRun h w2 = Inr v \<and> stats_ok (Suc n) (sim_stats w3) \<and> st_list (sim_stats w3) = st_list (sim_stats w) \<and>
    st_initFlag (sim_stats w3) = st_initFlag (sim_stats w) \<and>
    (\<forall>p\<in>set (st_list (sim_stats w)). sb_exper (st_obj (sim_stats w3) p) = sb_exper (st_obj (sim_stats w) p) @ [getValue (st_obj (sim_stats v) p)])"
proof -
  obtain w0 where "cN (Simulation_setTime 0 w) = Inr w0" and w1: "w1 = w0\<lparr>sim_stats := BaseStat_newRun (sim_stats w0)\<rparr>"
    using assms(6) by (auto simp: Simulation_initSingleRun_def assms(4) stat_hooks_def bindE_eq_Inr)
  from recordingD [OF assms(2) this(1)] have r0: "only_records (sim_stats w) (sim_stats w0)" by simp
  then have "distinct (st_list (sim_stats w0))" using assms(5) by (simp add: only_records_def stats_ok_def)
  from only_records_trans [OF r0 newRun_only [OF this]] have "only_records (sim_stats w) (sim_stats w1)" by (simp add: w1)
  from only_records_trans [OF this main_cycle_records [OF assms(1,7)]] have r2: "only_records (sim_stats w) (sim_stats w2)" .
  obtain v S where v: "cE w2 = Inr v" and S: "BaseStat_endRun (sim_stats v) = Inr S" and w3: "sim_stats w3 = S"
    using assms(8) by (auto simp: Simulation_endSingleRun_def assms(4) stat_hooks_def bindE_eq_Inr Simulation_clearEventQueue_def)
  from only_records_trans [OF r2 recordingD [OF assms(3) v]] have r: "only_records (sim_stats w) (sim_stats v)" .
  have "hook_callEndRun h w2 = Inr v" using v by (simp add: assms(4) stat_hooks_def)
  moreover note endRun_ok [OF only_records_ok [OF r assms(5)] S]
  ultimately show ?thesis using r unfolding w3 by (intro exI [of _ v]) (simp add: only_records_def)
qed

lemma runs_collect:
  assumes "\<And>e. recording (doit e)" and "recording cN" and "recording cE" and "h = stat_hooks cN cE"
  shows "Simulation_runs h doit endTick k w = Some (Inr w') \<Longrightarrow> stats_ok n (sim_stats w) \<Longrightarrow>
    \<exists>vs. length vs = k \<and> run_sequence h doit endTick w vs w' \<and> stats_ok (n + k) (sim_stats w') \<and>
      st_list (sim_stats w') = st_list (sim_stats w) \<and> st_initFlag (sim_stats w') = st_initFlag (sim_stats w) \<and>
      (\<forall>p\<in>set (st_list (sim_stats w)). sb_exper (st_obj (sim_stats w') p) = sb_exper (st_obj (sim_stats w) p) @ values_of p vs)"
proof (induction k arbitrary: n w)
  case 0
  then show ?case by (auto simp: values_of_def intro: exI [of _ "[]"] no_run)
next
  case (Suc k)
  obtain w1 w2 w3 where init: "Simulation_initSingleRun h w = Inr w1" and cycle: "Simulation_main_cycle doit endTick w1 = Some (Inr w2)"
    and fin: "Simulation_endSingleRun h w2 = Inr w3" and rest: "Simulation_runs h doit endTick k (w3\<lparr>actRuns := actRuns w3 + 1\<rparr>) = Some (Inr w')"
    using Suc.prems(1) by (auto split: sum.splits option.splits)
  obtain v where v: "hook_callEndRun h w2 = Inr v" "stats_ok (Suc n) (sim_stats w3)" "st_list (sim_stats w3) = st_list (sim_stats w)"
      "st_initFlag (sim_stats w3) = st_initFlag (sim_stats w)"
      "\<forall>p\<in>set (st_list (sim_stats w)). sb_exper (st_obj (sim_stats w3) p) = sb_exper (st_obj (sim_stats w) p) @ [getValue (st_obj (sim_stats v) p)]"
    using single_run [OF assms Suc.prems(2) init cycle fin] by blast
  from Suc.IH [OF rest, of "Suc n"] v(2) obtain vs where "length vs = k" "run_sequence h doit endTick (w3\<lparr>actRuns := actRuns w3 + 1\<rparr>) vs w'"
    "stats_ok (Suc n + k) (sim_stats w')" "st_list (sim_stats w') = st_list (sim_stats w3)" "st_initFlag (sim_stats w') = st_initFlag (sim_stats w3)"
    "\<forall>p\<in>set (st_list (sim_stats w3)). sb_exper (st_obj (sim_stats w') p) = sb_exper (st_obj (sim_stats w3) p) @ values_of p vs"
    by auto
  with v one_run [OF init cycle v(1) fin] show ?case by (intro exI [of _ "v # vs"]) (simp add: values_of_def)
qed

lemma mean_of_values:
  assumes "st_endOfSim S" and "st_initFlag S" and "0 < st_expNum S"
  shows "getMean p S = Inr (sum_list (sb_exper (st_obj S p)) / of_nat (st_expNum S))"
proof -
  have "foldl (+) a xs = a + sum_list xs" for a and xs :: "rat list" by (induction xs arbitrary: a) (simp_all add: add.assoc)
  with assms show ?thesis by (simp add: getMean_def divE_def)
qed

text \<open>
  C36. When a simulation of some runs returns, it has gone through its runs one after the other, each from the state that the
  one before it left, and every statistic has one value for each run, in the order of the runs: that which it had when the
  run ended.  Its mean is the mean of these values.  Two runs are made three.
\<close>

theorem run_collects_statistics:
  assumes "Simulation_run (stat_hooks cN cE) doit endTick nRuns w = Some (Inr w')" and "1 \<le> nRuns"
    and "distinct (st_list (sim_stats w))" and "\<And>e. recording (doit e)" and "recording cN" and "recording cE"
    and "k = (if nRuns = 2 then 3 else nat nRuns)"
  shows "\<exists>vs w2. length vs = k \<and>
    run_sequence (stat_hooks cN cE) doit endTick
      ((Simulation_initRuns (w\<lparr>numRuns := k, sim_stats := BaseStat_init k (sim_stats w)\<rparr>))\<lparr>actRuns := 0\<rparr>) vs w2 \<and>
    (\<forall>p\<in>set (st_list (sim_stats w)). sb_exper (st_obj (sim_stats w') p) = values_of p vs \<and>
      getMean p (sim_stats w') = Inr (sum_list (values_of p vs) / of_nat k))"
proof -
  let ?h = "stat_hooks cN cE" and ?k = k and ?S = "BaseStat_init k (sim_stats w)"
  have par: "run_parameters nRuns = (True, True, ?k)" using assms(2,7) by (auto simp: run_parameters_def Let_def)
  let ?w1 = "(Simulation_initRuns (w\<lparr>numRuns := ?k, sim_stats := ?S\<rparr>))\<lparr>actRuns := 0\<rparr>"
  have "\<exists>w2. Simulation_runs ?h doit endTick ?k ?w1 = Some (Inr w2) \<and> hook_statEndSim ?h (w2\<lparr>sim_end := True\<rparr>) = Inr w'"
    using assms(1) unfolding Simulation_run_def par
    by (auto simp: stat_hooks_def bindE_eq_Inr split: option.splits)
  then obtain w2 where runs: "Simulation_runs ?h doit endTick ?k ?w1 = Some (Inr w2)" and w': "sim_stats w' = BaseStat_endSim (sim_stats w2)"
    by (auto simp: stat_hooks_def)
  have S: "sim_stats ?w1 = ?S" by (simp add: Simulation_initRuns_def)
  have list: "st_list ?S = st_list (sim_stats w)" and flag: "st_initFlag ?S"
    using init_fold [of "st_list (sim_stats w)" "(sim_stats w)\<lparr>st_totalNumOfExp := ?k, st_endOfSim := False, st_initFlag := True\<rparr>"]
    by (simp_all add: BaseStat_init_def)
  have exper: "sb_exper (st_obj ?S p) = []" if "p \<in> set (st_list (sim_stats w))" for p
    using that init_fold [of "st_list (sim_stats w)" "(sim_stats w)\<lparr>st_totalNumOfExp := ?k, st_endOfSim := False, st_initFlag := True\<rparr>"]
    by (simp add: BaseStat_init_def)
  have num: "st_list (sim_stats w) \<noteq> [] \<Longrightarrow> st_expNum ?S = 0" by (simp add: BaseStat_init_def init_expNum)
  have "stats_ok (st_expNum ?S) (sim_stats ?w1)"
    using assms(3) exper num unfolding S by (cases "st_list (sim_stats w) = []") (auto simp: stats_ok_def list)
  from runs_collect [OF assms(4-6) refl runs this] obtain vs where vs: "length vs = ?k" "run_sequence ?h doit endTick ?w1 vs w2"
    and ok: "stats_ok (st_expNum ?S + ?k) (sim_stats w2)" "st_initFlag (sim_stats w2)"
    and val: "\<forall>p\<in>set (st_list (sim_stats w)). sb_exper (st_obj (sim_stats w2) p) = values_of p vs"
    unfolding S list by (auto simp: flag exper)
  have "getMean p (sim_stats w') = Inr (sum_list (values_of p vs) / of_nat k)" if p: "p \<in> set (st_list (sim_stats w))" for p
  proof -
    have "st_list (sim_stats w) \<noteq> []" using p by auto
    note num [OF this]
    with ok vs(1) assms(2,7) have "st_expNum (sim_stats w') = length vs" "0 < length vs" "st_endOfSim (sim_stats w')" "st_initFlag (sim_stats w')"
      by (auto simp: w' BaseStat_endSim_def stats_ok_def)
    with mean_of_values [of "sim_stats w'" p] val p vs(1) show ?thesis by (simp add: w' BaseStat_endSim_def)
  qed
  with vs val show ?thesis by (intro exI [of _ vs] exI [of _ w2]) (simp add: w' BaseStat_endSim_def)
qed

definition example_sim :: "nat stat_sim" where
  "example_sim = \<lparr>globTime = 0, evs = (\<lambda>e. Event_ctor 0), eventQueue = [], evCounter = 0, numRuns = 0, actRuns = 0, sim_end = False,
     sim_stats = example_stats\<rparr>"

definition record_at_end :: "nat stat_sim \<Rightarrow> exc + nat stat_sim" where
  "record_at_end w = Inr (w\<lparr>sim_stats := stat_record 20 1 0 (sim_stats w)\<rparr>)"

lemma record_at_end_recording: "recording record_at_end"
  by (auto simp: recording_def record_at_end_def stat_record_only)

lemma example_stat_run: "\<exists>w'. Simulation_run (stat_hooks Inr record_at_end) (\<lambda>e. Inr) 100 1 example_sim = Some (Inr w')"
proof -
  have cycle: "eventQueue w = [] \<Longrightarrow> Simulation_main_cycle (\<lambda>e. Inr) 100 w = Some (Inr w)" for w :: "nat stat_sim"
    by (subst Simulation_main_cycle.simps) (simp add: Simulation_sim_step_def Event_getFirst_def pl_front_def)
  show ?thesis
    by (simp add: Simulation_run_def run_parameters_def stat_hooks_def Simulation_initSingleRun_def Simulation_setTime_def cycle
        Simulation_initRuns_def example_sim_def Simulation_endSingleRun_def record_at_end_def BaseStat_endRun_def MAX_RUN_def
        stat_record_def BaseStat_newRun_def BaseStat_init_def example_stats_def BaseStat_ctor_def stat_init1_def)
qed

theorem run_collects_statistics_witness:
  "\<exists>w' x. Simulation_run (stat_hooks Inr record_at_end) (\<lambda>e. Inr) 100 1 example_sim = Some (Inr w') \<and>
     sb_exper (st_obj (sim_stats w') 0) = [x] \<and> getMean 0 (sim_stats w') = Inr x"
proof -
  obtain w' where w': "Simulation_run (stat_hooks Inr record_at_end) (\<lambda>e. Inr) 100 1 example_sim = Some (Inr w')" using example_stat_run ..
  have list: "st_list (sim_stats example_sim) = [0]" by (simp add: example_sim_def example_stats_def BaseStat_ctor_def)
  have rec: "recording (Inr :: nat stat_sim \<Rightarrow> _)" by (simp add: recording_def)
  have one: "(1 :: int) \<le> 1" and d: "distinct (st_list (sim_stats example_sim))" by (simp_all add: list)
  have k: "1 = (if (1 :: int) = 2 then 3 else nat 1)" by simp
  from run_collects_statistics [OF w' one d rec rec record_at_end_recording k] list show ?thesis
    using w' by (fastforce simp: values_of_def length_Suc_conv)
qed

section \<open>Intervals\<close>

lemma sum_V: "foldl (V mu) a xs = a + (\<Sum>x\<leftarrow>xs. (x - mu) * (x - mu))"
  by (induction xs arbitrary: a) (simp_all add: V_def)

lemma t_student_values: "t_student (conf_value c) n = (if 1 \<le> n \<and> n \<le> 30 then (case c of C90 \<Rightarrow> fst | C95 \<Rightarrow> snd) (t1_table ! nat (n - 1)) else - 1)"
  by (simp add: t_student_def conf_value_def split: conf.split)

lemma t1_table_pos: "k < 30 \<Longrightarrow> 0 < fst (t1_table ! k) \<and> 0 < snd (t1_table ! k)"
proof -
  have "length t1_table = 30" "\<forall>r\<in>set t1_table. 0 < fst r \<and> 0 < snd r" by (simp_all add: t1_table_def)
  then show "k < 30 \<Longrightarrow> 0 < fst (t1_table ! k) \<and> 0 < snd (t1_table ! k)" by simp
qed

text \<open>
  After three runs or more the interval of a statistic is the standard error of the mean, the root of the sum of the
  squares of the differences over n (n - 1), times the value of the table of Student; with more than 31 runs it is that
  times minus one, since the table has 30 lines.
\<close>

lemma interval_of_statistic:
  assumes "st_endOfSim S" and "st_initFlag S" and "3 \<le> st_expNum S" and "\<And>x. 0 \<le> x \<Longrightarrow> 0 \<le> sq x"
  shows "\<exists>t. getConfInterval sq c p S = Inr (t * sq ((\<Sum>x\<leftarrow>sb_exper (st_obj S p). (x - sum_list (sb_exper (st_obj S p)) / of_nat (st_expNum S)) ^ 2)
        / of_nat ((st_expNum S - 1) * st_expNum S))) \<and> (if st_expNum S \<le> 31 then 0 < t else t = - 1)"
proof -
  let ?n = "st_expNum S" and ?xs = "sb_exper (st_obj S p)"
  have mean: "getMean p S = Inr (sum_list ?xs / of_nat ?n)" using assms by (intro mean_of_values) auto
  have "0 < (?n - 1) * ?n" using assms(3) by simp
  then have "rat_of_nat ((?n - 1) * ?n) \<noteq> 0" by (metis of_nat_eq_0_iff less_numeral_extra(3))
  then have var: "getVariance sq p S = Inr (sq ((\<Sum>x\<leftarrow>?xs. (x - sum_list ?xs / of_nat ?n) ^ 2) / of_nat ((?n - 1) * ?n)))"
    using assms(1-3) by (simp add: getVariance_def mean sum_V divE_def power2_eq_square)
  have "nat (int ?n - 1 - 1) < 30" if "?n \<le> 31" using that assms(3) by auto
  then have "if ?n \<le> 31 then 0 < t_student (conf_value c) (int ?n - 1) else t_student (conf_value c) (int ?n - 1) = - 1"
    using t1_table_pos [of "nat (int ?n - 1 - 1)"] assms(3) by (auto simp: t_student_values split: conf.split)
  then show ?thesis using assms(1-3) by (intro exI [of _ "t_student (conf_value c) (int ?n - 1)"]) (simp add: getConfInterval_def mean var)
qed

section \<open>History\<close>

text \<open>A history of a size is a window on the values that were pushed.\<close>

definition window :: "'a history \<Rightarrow> 'a list" where
  "window h = map (\<lambda>i. h_c h ! nat ((h_curr_pos h - 1 - int i) mod int (h_size h))) [0..<h_size h]"

definition history_ok :: "'a history \<Rightarrow> bool" where
  "history_ok h \<longleftrightarrow> 0 < h_size h \<and> length (h_c h) = h_size h \<and> 0 \<le> h_curr_pos h \<and> h_curr_pos h < int (h_size h)"

lemma history_nth_window:
  assumes "history_ok h" and "i < h_size h"
  shows "history_nth h (int i) = Inr (window h ! i)"
proof -
  let ?n = "int (h_size h)" and ?p = "h_curr_pos h - 1 - int i"
  have "?p mod ?n = (if ?p < 0 then ?p + ?n else ?p)"
  proof (cases "?p < 0")
    case True
    then have "0 \<le> ?p + ?n" "?p + ?n < ?n" using assms by (auto simp: history_ok_def)
    then have "(?p + ?n) mod ?n = ?p + ?n" by (rule mod_pos_pos_trivial)
    then have "?p mod ?n = ?p + ?n" by (simp only: mod_add_self2)
    with True show ?thesis by simp
  qed (use assms in \<open>auto simp: history_ok_def\<close>)
  with assms show ?thesis by (auto simp: history_nth_def Let_def window_def history_ok_def)
qed

lemma history_push_window:
  assumes "history_ok h"
  shows "\<exists>h'. history_push v h = Inr h' \<and> history_ok h' \<and> h_size h' = h_size h \<and> window h' = v # butlast (window h)"
proof -
  let ?n = "h_size h" and ?p = "nat (h_curr_pos h)"
  define h' where "h' = h\<lparr>h_c := (h_c h)[?p := v], h_curr_pos := (h_curr_pos h + 1) mod int ?n\<rparr>"
  have push: "history_push v h = Inr h'" and ok: "history_ok h'" using assms by (auto simp: history_push_def history_ok_def h'_def)
  have pos: "(h_curr_pos h' - 1 - int i) mod int ?n = (h_curr_pos h - int i) mod int ?n" for i
    by (simp add: h'_def mod_diff_left_eq) (simp add: algebra_simps mod_simps)
  have "window h' = v # butlast (window h)"
  proof (rule nth_equalityI)
    show len: "length (window h') = length (v # butlast (window h))" using assms by (auto simp: window_def h'_def history_ok_def)
    fix i assume i: "i < length (window h')"
    then have in_range: "i < ?n" by (simp add: window_def h'_def)
    have "window h' ! i = ((h_c h)[?p := v]) ! nat ((h_curr_pos h - int i) mod int ?n)"
      using in_range pos by (simp add: window_def h'_def)
    also have "\<dots> = (v # butlast (window h)) ! i"
    proof (cases i)
      case 0
      with assms show ?thesis by (auto simp: history_ok_def)
    next
      case (Suc j)
      have "(h_curr_pos h - int i) mod int ?n \<noteq> h_curr_pos h"
      proof
        assume "(h_curr_pos h - int i) mod int ?n = h_curr_pos h"
        then have "(h_curr_pos h - int i) mod int ?n = h_curr_pos h mod int ?n" using assms by (simp add: history_ok_def)
        then have "int ?n dvd int i" by (simp add: mod_eq_dvd_iff)
        with in_range Suc show False by (auto dest: zdvd_imp_le)
      qed
      moreover have "0 \<le> (h_curr_pos h - int i) mod int ?n" using assms by (simp add: history_ok_def)
      ultimately have "nat ((h_curr_pos h - int i) mod int ?n) \<noteq> ?p" using assms by (simp add: history_ok_def nat_eq_iff)
      with Suc in_range show ?thesis by (simp add: nth_butlast window_def algebra_simps)
    qed
    finally show "window h' ! i = (v # butlast (window h)) ! i" .
  qed
  with push ok show ?thesis by (auto simp: h'_def)
qed

text \<open>
  C38. A history of a size returns, for every index below the size, the value that was pushed last but that many; before
  so many values were pushed it returns the initial value.
\<close>

theorem history_returns_last:
  assumes "i < s"
  shows "\<exists>h. steps (map history_push vs) (history_ctor s v) = Inr h \<and> history_nth h (int i) = Inr ((rev vs @ replicate s v) ! i)"
proof -
  have "\<exists>h. steps (map history_push vs) g = Inr h \<and> history_ok h \<and> h_size h = h_size g \<and> window h = take (h_size g) (rev vs @ window g)"
    if "history_ok g" for g :: "'a history"
    using that
  proof (induction vs arbitrary: g)
    case Nil
    then show ?case by (simp add: window_def)
  next
    case (Cons v vs)
    obtain g1 where g1: "history_push v g = Inr g1" "history_ok g1" "h_size g1 = h_size g" "window g1 = v # butlast (window g)"
      using history_push_window [OF Cons.prems] by blast
    obtain h where h: "steps (map history_push vs) g1 = Inr h" "history_ok h" "h_size h = h_size g" "window h = take (h_size g) (rev vs @ window g1)"
      using Cons.IH [OF g1(2)] g1(3) by auto
    have len: "length (window g) = h_size g" "window g \<noteq> []" using Cons.prems by (auto simp: window_def history_ok_def)
    have "take k (v # butlast (window g)) = take k (v # window g)" if "k \<le> h_size g" for k
      using len that by (cases k) (simp_all add: take_butlast)
    then have "take (h_size g) (rev vs @ v # butlast (window g)) = take (h_size g) (rev vs @ v # window g)" by simp
    with h g1 show ?case by simp
  qed
  moreover have "history_ok (history_ctor s v)" "h_size (history_ctor s v) = s" using assms by (auto simp: history_ctor_def history_ok_def)
  ultimately obtain h where "steps (map history_push vs) (history_ctor s v) = Inr h" and h: "history_ok h" "h_size h = s"
    "window h = take s (rev vs @ window (history_ctor s v))" by fastforce
  moreover have "window (history_ctor s v) = replicate s v"
    using assms by (intro nth_equalityI) (simp_all add: window_def history_ctor_def nat_less_iff)
  ultimately show ?thesis using history_nth_window [OF h(1), of i] assms by (intro exI [of _ h]) (simp del: take_append)
qed

theorem history_returns_last_witness:
  "\<exists>h. steps (map history_push [1, 2, 3 :: int]) (history_ctor 2 0) = Inr h \<and> history_nth h (int 1) = Inr 2"
  using history_returns_last [of 1 2 "[1, 2, 3 :: int]" 0] by simp

end
