(* ===== verification/TaskStats.thy ===== *)
theory TaskStats
  imports Stats_Laws RTTask
begin

text \<open>
  \<open>librtsim/include/rtsim/taskstat.hpp\<close> and \<open>libmetasim/include/metasim/particle.hpp\<close>: what is measured of a task.  A
  probe is called by a particle after the handler of the event, with the time of the event (\<open>getLastTime\<close>); it reads
  the task and records a value in its statistic \<open>p\<close>.
\<close>

section \<open>Measures at the end of an instance\<close>

text \<open>The probes of \<open>EndEvt\<close> do nothing before the end of the transitory.\<close>

definition after_transitory :: "tick \<Rightarrow> (stats \<Rightarrow> exc + stats) \<Rightarrow> stats \<Rightarrow> exc + stats" where
  "after_transitory t f S = (if t < st_transitory S then Inr S else f S)"

definition FinishingTimeStat_probe :: "tick \<Rightarrow> tick \<Rightarrow> task \<Rightarrow> nat \<Rightarrow> stats \<Rightarrow> exc + stats" where
  "FinishingTimeStat_probe now lt k p = after_transitory lt (\<lambda>S. Inr (stat_record now (of_int (lt - lastArrival k)) p S))"

definition LatenessStat_probe :: "tick \<Rightarrow> tick \<Rightarrow> task \<Rightarrow> nat \<Rightarrow> stats \<Rightarrow> exc + stats" where
  "LatenessStat_probe now lt k p = after_transitory lt (\<lambda>S.
     Inr (if dl k < lt then stat_record now (of_int (lt - dl k)) p S else stat_record now 0 p S))"

definition TardinessStat_probe :: "tick \<Rightarrow> tick \<Rightarrow> task \<Rightarrow> nat \<Rightarrow> stats \<Rightarrow> exc + stats" where
  "TardinessStat_probe now lt k p = after_transitory lt (\<lambda>S.
     bindE (divE (of_int lt - of_int (lastArrival k) - of_int (rdl k)) (of_int (rdl k))) (\<lambda>q. Inr (stat_record now (max 0 q) p S)))"

definition UtilizationStat_probe :: "tick \<Rightarrow> tick \<Rightarrow> task \<Rightarrow> nat \<Rightarrow> stats \<Rightarrow> exc + stats" where
  "UtilizationStat_probe now lt k p = after_transitory lt (\<lambda>S.
     bindE (divE (of_int (Task_getExecTime now k)) (of_int (dl k) - of_int (lastArrival k))) (\<lambda>q. Inr (stat_record now q p S)))"

definition MissPercentage_probe :: "tick \<Rightarrow> tick \<Rightarrow> task \<Rightarrow> nat \<Rightarrow> stats \<Rightarrow> exc + stats" where
  "MissPercentage_probe now lt k p = after_transitory lt (\<lambda>S.
     Inr (if lastArrival k + rdl k < now then stat_record now 1 p S else stat_record now 0 p S))"

text \<open>The probe of \<open>DeadEvt\<close>.\<close>

definition MissCount_probe :: "tick \<Rightarrow> nat \<Rightarrow> stats \<Rightarrow> stats" where
  "MissCount_probe now p S = stat_record now 1 p S"

section \<open>Preemptions\<close>

text \<open>The members of \<open>PreemptionStat\<close>; the constructor sets none of them.\<close>

record preemption =
  pr_count :: int
  pr_descTime :: tick
  pr_schedTime :: tick

definition PreemptionStat_desched :: "tick \<Rightarrow> stats \<Rightarrow> preemption \<Rightarrow> preemption" where
  "PreemptionStat_desched lt S x =
    (let x1 = (if lt \<noteq> pr_schedTime x then x\<lparr>pr_descTime := lt, pr_count := pr_count x + 1\<rparr> else x)
     in if lt < st_transitory S then x1\<lparr>pr_count := 0\<rparr> else x1)"

definition PreemptionStat_sched :: "tick \<Rightarrow> stats \<Rightarrow> preemption \<Rightarrow> preemption" where
  "PreemptionStat_sched lt S x =
    (let x1 = (if lt \<noteq> pr_descTime x then x\<lparr>pr_schedTime := lt\<rparr> else x\<lparr>pr_count := pr_count x - 1\<rparr>)
     in if lt < st_transitory S then x1\<lparr>pr_count := 0\<rparr> else x1)"

definition PreemptionStat_end :: "tick \<Rightarrow> nat \<Rightarrow> stats \<times> preemption \<Rightarrow> stats \<times> preemption" where
  "PreemptionStat_end now p = (\<lambda>(S, x). (stat_record now (of_int (pr_count x)) p S, x\<lparr>pr_count := 0\<rparr>))"

text \<open>\<open>GlobalPreemptionStat\<close> counts over all the tasks; \<open>schedTime\<close> is never read.\<close>

record global_preemption =
  gp_idSched :: int
  gp_idDesched :: int
  gp_descTime :: tick
  gp_schedTime :: tick

definition GlobalPreemptionStat_ctor :: global_preemption where
  "GlobalPreemptionStat_ctor = \<lparr>gp_idSched = -1, gp_idDesched = -1, gp_descTime = MAXTICK, gp_schedTime = MAXTICK\<rparr>"

definition GlobalPreemptionStat_sched :: "tick \<Rightarrow> tick \<Rightarrow> task \<Rightarrow> nat \<Rightarrow> stats \<times> global_preemption \<Rightarrow> stats \<times> global_preemption" where
  "GlobalPreemptionStat_sched now t k p = (\<lambda>(S, x).
     if now < st_transitory S then (S, x)
     else if t = gp_descTime x \<and> t_id k = gp_idDesched x then (stat_record now (- 1) p S, x) else (S, x))"

definition GlobalPreemptionStat_desched :: "tick \<Rightarrow> task \<Rightarrow> nat \<Rightarrow> stats \<times> global_preemption \<Rightarrow> stats \<times> global_preemption" where
  "GlobalPreemptionStat_desched now k p = (\<lambda>(S, x).
     if now < st_transitory S then (S, x) else (stat_record now 1 p S, x\<lparr>gp_descTime := now, gp_idDesched := t_id k\<rparr>))"

definition GlobalPreemptionStat_initValue :: "nat \<Rightarrow> stats \<times> global_preemption \<Rightarrow> stats \<times> global_preemption" where
  "GlobalPreemptionStat_initValue p = (\<lambda>(S, x). (put_stat p (initValue (st_obj S p)) S, GlobalPreemptionStat_ctor))"

section \<open>Particles\<close>

text \<open>An event calls its particles after its handler, in the order in which they were added.\<close>

definition addParticle :: "'p \<Rightarrow> 'p list \<Rightarrow> 'p list" where
  "addParticle p particles = particles @ [p]"

definition with_particles :: "('w \<Rightarrow> exc + 'w) \<Rightarrow> ('w \<Rightarrow> exc + 'w) list \<Rightarrow> 'w \<Rightarrow> exc + 'w" where
  "with_particles doit particles w = bindE (doit w) (steps particles)"

section \<open>What the measures have in common\<close>

text \<open>The value that a probe records, when it does.\<close>

definition recorded :: "tick \<Rightarrow> rat \<Rightarrow> nat \<Rightarrow> stats \<Rightarrow> exc + stats \<Rightarrow> bool" where
  "recorded now a p S r \<longleftrightarrow> r = Inr (stat_record now a p S)"

text \<open>
  When an instance whose deadline is its arrival and the relative deadline ends after the transitory, its lateness is the
  part of its finishing time over the relative deadline, its tardiness is its lateness over the relative deadline, and it counts as a
  miss exactly when these are positive.
\<close>

lemma measures_agree:
  assumes "st_transitory S \<le> now" and "dl k = lastArrival k + rdl k" and "0 < rdl k"
  shows "\<exists>f. recorded now (of_int f) p S (FinishingTimeStat_probe now now k p S) \<and>
    recorded now (of_int (max 0 (f - rdl k))) p S (LatenessStat_probe now now k p S) \<and>
    recorded now (of_int (max 0 (f - rdl k)) / of_int (rdl k)) p S (TardinessStat_probe now now k p S) \<and>
    recorded now (if 0 < max 0 (f - rdl k) then 1 else 0) p S (MissPercentage_probe now now k p S)"
proof -
  let ?f = "now - lastArrival k"
  have "max 0 (rat_of_int (?f - rdl k) / of_int (rdl k)) = of_int (max 0 (?f - rdl k)) / of_int (rdl k)"
    using assms(3) by (auto simp: max_def divide_le_0_iff zero_le_divide_iff)
  then have "recorded now (of_int (max 0 (?f - rdl k)) / of_int (rdl k)) p S (TardinessStat_probe now now k p S)"
    using assms by (simp add: recorded_def TardinessStat_probe_def after_transitory_def divE_def)
  moreover have "recorded now (of_int (max 0 (?f - rdl k))) p S (LatenessStat_probe now now k p S)"
    "recorded now (if 0 < max 0 (?f - rdl k) then 1 else 0) p S (MissPercentage_probe now now k p S)"
    "recorded now (of_int ?f) p S (FinishingTimeStat_probe now now k p S)"
    using assms by (auto simp: recorded_def LatenessStat_probe_def MissPercentage_probe_def FinishingTimeStat_probe_def after_transitory_def
        max_def algebra_simps)
  ultimately show ?thesis by blast
qed

definition example_task :: task where
  "example_task = (Task_ctor 1 None 10 0 1000 0)\<lparr>lastArrival := 5, dl := 15\<rparr>"

lemma measures_agree_witness:
  "\<exists>f. recorded 19 (of_int f) 0 example_stats (FinishingTimeStat_probe 19 19 example_task 0 example_stats) \<and>
    recorded 19 (of_int (max 0 (f - 10))) 0 example_stats (LatenessStat_probe 19 19 example_task 0 example_stats) \<and>
    recorded 19 (of_int (max 0 (f - 10)) / 10) 0 example_stats (TardinessStat_probe 19 19 example_task 0 example_stats)"
proof -
  have "st_transitory example_stats \<le> 19" "dl example_task = lastArrival example_task + rdl example_task" "0 < rdl example_task" "rdl example_task = 10"
    by (simp_all add: example_stats_def BaseStat_ctor_def example_task_def Task_ctor_def)
  from measures_agree [OF this(1-3), of 0] this(4) show ?thesis by auto
qed

section \<open>Counting preemptions\<close>

text \<open>A job that is scheduled and preempted: the times of its preemptions and of its schedules.\<close>

fun job_events :: "(tick \<times> tick) list \<Rightarrow> stats \<Rightarrow> preemption \<Rightarrow> preemption" where
  "job_events [] S x = x"
| "job_events ((d, s) # es) S x = job_events es S (PreemptionStat_sched s S (PreemptionStat_desched d S x))"

fun increasing :: "tick \<Rightarrow> (tick \<times> tick) list \<Rightarrow> bool" where
  "increasing t [] \<longleftrightarrow> True"
| "increasing t ((d, s) # es) \<longleftrightarrow> t < d \<and> d < s \<and> increasing s es"

lemma job_events_count:
  "increasing t es \<Longrightarrow> st_transitory S \<le> t \<Longrightarrow> pr_schedTime x = t \<Longrightarrow>
    pr_count (job_events es S x) = pr_count x + int (length es)"
  by (induction es arbitrary: t x) (auto simp: PreemptionStat_sched_def PreemptionStat_desched_def Let_def)

text \<open>
  A job that is scheduled and then preempted n times, at times that increase after the transitory, is recorded with n
  more than the count that was left, which is zero after the end of a job.
\<close>

lemma preemptions_are_counted:
  assumes "increasing s0 es" and "st_transitory S \<le> s0" and "pr_descTime x \<noteq> s0"
  shows "\<exists>y. PreemptionStat_end now p (S, job_events es S (PreemptionStat_sched s0 S x)) =
     (stat_record now (of_int (pr_count x + int (length es))) p S, y) \<and> pr_count y = 0"
proof -
  have "pr_schedTime (PreemptionStat_sched s0 S x) = s0" "pr_count (PreemptionStat_sched s0 S x) = pr_count x"
    using assms by (simp_all add: PreemptionStat_sched_def Let_def)
  with job_events_count [OF assms(1,2) this(1)] show ?thesis by (simp add: PreemptionStat_end_def)
qed

lemma preemptions_are_counted_witness:
  "\<exists>y. PreemptionStat_end 30 0 (example_stats, job_events [(15, 17), (20, 25)] example_stats
       (PreemptionStat_sched 12 example_stats \<lparr>pr_count = 0, pr_descTime = 3, pr_schedTime = 4\<rparr>)) =
     (stat_record 30 2 0 example_stats, y) \<and> pr_count y = 0"
proof -
  have "increasing 12 [(15, 17), (20, 25)]" "st_transitory example_stats \<le> 12"
    by (simp_all add: example_stats_def BaseStat_ctor_def)
  from preemptions_are_counted [OF this, of "\<lparr>pr_count = 0, pr_descTime = 3, pr_schedTime = 4\<rparr>" 30 0] show ?thesis by simp
qed

end
