(* ===== verification/TraceEvents.thy ===== *)
theory TraceEvents
  imports StrToken RTTask Entities Csv "HOL-Library.Word"
begin

text \<open>
  \<open>librtsim/traceevent.cpp\<close>, \<open>traceevent.hpp\<close>, \<open>jtrace.cpp\<close> and \<open>jtrace.hpp\<close>: the binary trace of a simulation.  A
  record of the trace is an object of a class derived from \<open>TraceEvent\<close>: here a constructor with the members of the class.
  Its numbers have 32 bits; in the file they are in the order of bytes of a big endian machine, whatever the machine is.
  A file is a string.
\<close>

section \<open>Numbers in memory\<close>

type_synonym i32 = "32 word"

datatype endianess = TRACE_UNKNOWN_ENDIAN | TRACE_BIG_ENDIAN | TRACE_LITTLE_ENDIAN

text \<open>The bytes of a number in the memory of a machine, and the number of some bytes.\<close>

definition little_bytes :: "i32 \<Rightarrow> string" where
  "little_bytes w = map (\<lambda>k. char_of (unat w div 256 ^ k)) [0..<4]"

definition of_little :: "string \<Rightarrow> i32" where
  "of_little s = word_of_nat (foldr (\<lambda>c n. of_char c + 256 * n) s 0)"

definition memory_of :: "bool \<Rightarrow> i32 \<Rightarrow> string" where
  "memory_of little w = (if little then little_bytes w else rev (little_bytes w))"

definition of_memory :: "bool \<Rightarrow> string \<Rightarrow> i32" where
  "of_memory little s = of_little (if little then s else rev s)"

definition probeEndianess :: "bool \<Rightarrow> endianess" where
  "probeEndianess little =
    (if of_memory little (map char_of [255 :: nat, 0, 255, 0]) = 0xff00ff00 then TRACE_BIG_ENDIAN else TRACE_LITTLE_ENDIAN)"

definition TraceEvent_encode :: "endianess \<Rightarrow> string \<Rightarrow> string" where
  "TraceEvent_encode e s = (if e = TRACE_LITTLE_ENDIAN then rev s else s)"

text \<open>The machine and the static members that the functions below read.\<close>

record tmachine =
  tm_little :: bool
  tm_endianess :: endianess
  tm_version :: string

definition put_int :: "tmachine \<Rightarrow> i32 \<Rightarrow> string" where
  "put_int m w = TraceEvent_encode (tm_endianess m) (memory_of (tm_little m) w)"

text \<open>A stream that has fewer bytes than are read fails, and the variable has what was in it: \<open>None\<close>.\<close>

definition get_int :: "tmachine \<Rightarrow> string \<Rightarrow> (i32 \<times> string) option" where
  "get_int m f = (if length f < 4 then None
     else Some (of_memory (tm_little m) (TraceEvent_encode (tm_endianess m) (take 4 f)), drop 4 f))"

text \<open>A loop reads the characters of a string, for a number that is not negative.\<close>

definition get_chars :: "i32 \<Rightarrow> string \<Rightarrow> (string \<times> string) option" where
  "get_chars len f = (let n = (if sint len < 0 then 0 else unat len)
     in if length f < n then None else Some (take n f, drop n f))"

definition new_version :: "tmachine \<Rightarrow> bool" where
  "new_version m \<longleftrightarrow> \<not> string_less (tm_version m) ''1.2''"

section \<open>Records\<close>

datatype trace_event =
    TraceArrEvent i32 i32                      \<comment> \<open>\<open>_time\<close>, \<open>_task\<close>\<close>
  | TraceSchedEvent i32 i32 i32                \<comment> \<open>\<open>_cpu\<close>\<close>
  | TraceDeschedEvent i32 i32 i32
  | TraceEndEvent i32 i32 i32
  | TraceDlinePostEvent i32 i32 i32 i32        \<comment> \<open>\<open>_taskD\<close>, \<open>_taskD2\<close>\<close>
  | TraceDlineSetEvent i32 i32 i32             \<comment> \<open>\<open>_taskD\<close>\<close>
  | TraceWaitEvent i32 i32 string              \<comment> \<open>\<open>_res\<close>\<close>
  | TraceSignalEvent i32 i32 string
  | TraceIdleEvent i32 i32
  | TraceNameEvent i32 i32 string              \<comment> \<open>\<open>_name\<close>\<close>
  | TraceDlineMissEvent i32 i32

fun te_type :: "trace_event \<Rightarrow> nat" where
  "te_type (TraceArrEvent _ _) = 0"
| "te_type (TraceSchedEvent _ _ _) = 1"
| "te_type (TraceDeschedEvent _ _ _) = 2"
| "te_type (TraceEndEvent _ _ _) = 3"
| "te_type (TraceDlinePostEvent _ _ _ _) = 4"
| "te_type (TraceDlineSetEvent _ _ _) = 5"
| "te_type (TraceWaitEvent _ _ _) = 6"
| "te_type (TraceSignalEvent _ _ _) = 7"
| "te_type (TraceIdleEvent _ _) = 8"
| "te_type (TraceNameEvent _ _ _) = 9"
| "te_type (TraceDlineMissEvent _ _) = 10"

fun te_time :: "trace_event \<Rightarrow> i32" where
  "te_time (TraceArrEvent t _) = t"
| "te_time (TraceSchedEvent t _ _) = t"
| "te_time (TraceDeschedEvent t _ _) = t"
| "te_time (TraceEndEvent t _ _) = t"
| "te_time (TraceDlinePostEvent t _ _ _) = t"
| "te_time (TraceDlineSetEvent t _ _) = t"
| "te_time (TraceWaitEvent t _ _) = t"
| "te_time (TraceSignalEvent t _ _) = t"
| "te_time (TraceIdleEvent t _) = t"
| "te_time (TraceNameEvent t _ _) = t"
| "te_time (TraceDlineMissEvent t _) = t"

fun te_task :: "trace_event \<Rightarrow> i32" where
  "te_task (TraceArrEvent _ k) = k"
| "te_task (TraceSchedEvent _ k _) = k"
| "te_task (TraceDeschedEvent _ k _) = k"
| "te_task (TraceEndEvent _ k _) = k"
| "te_task (TraceDlinePostEvent _ k _ _) = k"
| "te_task (TraceDlineSetEvent _ k _) = k"
| "te_task (TraceWaitEvent _ k _) = k"
| "te_task (TraceSignalEvent _ k _) = k"
| "te_task (TraceIdleEvent _ k) = k"
| "te_task (TraceNameEvent _ k _) = k"
| "te_task (TraceDlineMissEvent _ k) = k"

definition EVT_NUMBER :: int where "EVT_NUMBER = 11"

definition evt_name :: "string list" where
  "evt_name = [''ARRIVAL'', ''SCHEDULE'', ''DESCHEDULE'', ''END'', ''DLINE POSTPONED'', ''DLINE SET'', ''WAIT'', ''SIGNAL'', ''IDLE'',
     ''NAME'', ''DLINE MISS'']"

section \<open>Writing\<close>

text \<open>The sum of the sizes of the members, of the class and those above it.\<close>

fun TraceEvent_getSize :: "trace_event \<Rightarrow> nat" where
  "TraceEvent_getSize (TraceSchedEvent _ _ _) = 16"
| "TraceEvent_getSize (TraceDeschedEvent _ _ _) = 16"
| "TraceEvent_getSize (TraceEndEvent _ _ _) = 16"
| "TraceEvent_getSize (TraceDlinePostEvent _ _ _ _) = 20"
| "TraceEvent_getSize (TraceDlineSetEvent _ _ _) = 16"
| "TraceEvent_getSize (TraceWaitEvent _ _ res) = 20 + length res"
| "TraceEvent_getSize (TraceSignalEvent _ _ res) = 20 + length res"
| "TraceEvent_getSize (TraceNameEvent _ _ name) = 16 + length name"
| "TraceEvent_getSize _ = 12"

definition TraceEvent_write_base :: "tmachine \<Rightarrow> trace_event \<Rightarrow> string" where
  "TraceEvent_write_base m e =
     put_int m (word_of_nat (TraceEvent_getSize e)) @ put_int m (word_of_nat (te_type e)) @ put_int m (te_time e)"

definition TraceTaskEvent_write :: "tmachine \<Rightarrow> trace_event \<Rightarrow> string" where
  "TraceTaskEvent_write m e = TraceEvent_write_base m e @ put_int m (te_task e)"

definition put_string :: "tmachine \<Rightarrow> string \<Rightarrow> string" where
  "put_string m s = put_int m (word_of_nat (length s)) @ s"

fun write_members :: "tmachine \<Rightarrow> trace_event \<Rightarrow> string" where
  "write_members m (TraceSchedEvent _ _ cpu) = put_int m cpu"
| "write_members m (TraceDeschedEvent _ _ cpu) = put_int m cpu"
| "write_members m (TraceEndEvent _ _ cpu) = put_int m cpu"
| "write_members m (TraceDlinePostEvent _ _ d d2) = put_int m d @ put_int m d2"
| "write_members m (TraceDlineSetEvent _ _ d) = put_int m d"
| "write_members m (TraceWaitEvent _ _ res) = put_int m 1 @ put_string m res"
| "write_members m (TraceSignalEvent _ _ res) = put_int m 1 @ put_string m res"
| "write_members m (TraceNameEvent _ _ name) = put_string m name"
| "write_members m _ = []"

definition TraceEvent_write :: "tmachine \<Rightarrow> trace_event \<Rightarrow> string" where
  "TraceEvent_write m e = TraceTaskEvent_write m e @ write_members m e"

section \<open>Reading\<close>

text \<open>
  \<open>getEvent\<close> makes an object of the class of a type, whose \<open>read\<close> is called; here both are one: the reader of the class.
  In a file of an old version the records have no processor, and \<open>_cpu\<close> keeps what was in the memory.
\<close>

definition bindO :: "('a \<times> string) option \<Rightarrow> ('a \<Rightarrow> string \<Rightarrow> ('b \<times> string) option) \<Rightarrow> ('b \<times> string) option" where
  "bindO r f = (case r of None \<Rightarrow> None | Some (x, s) \<Rightarrow> f x s)"

definition read_task_event :: "tmachine \<Rightarrow> (i32 \<Rightarrow> i32 \<Rightarrow> string \<Rightarrow> (trace_event \<times> string) option) \<Rightarrow> string \<Rightarrow> (trace_event \<times> string) option" where
  "read_task_event m f s = bindO (get_int m s) (\<lambda>time s1. bindO (get_int m s1) (f time))"

definition read_plain :: "tmachine \<Rightarrow> (i32 \<Rightarrow> i32 \<Rightarrow> trace_event) \<Rightarrow> string \<Rightarrow> (trace_event \<times> string) option" where
  "read_plain m C = read_task_event m (\<lambda>time task s. Some (C time task, s))"

definition read_cpu :: "tmachine \<Rightarrow> i32 \<Rightarrow> (i32 \<Rightarrow> i32 \<Rightarrow> i32 \<Rightarrow> trace_event) \<Rightarrow> string \<Rightarrow> (trace_event \<times> string) option" where
  "read_cpu m old C = read_task_event m (\<lambda>time task s.
     if new_version m then bindO (get_int m s) (\<lambda>cpu s1. Some (C time task cpu, s1)) else Some (C time task old, s))"

definition read_res :: "tmachine \<Rightarrow> (i32 \<Rightarrow> i32 \<Rightarrow> string \<Rightarrow> trace_event) \<Rightarrow> string \<Rightarrow> (trace_event \<times> string) option" where
  "read_res m C = read_task_event m (\<lambda>time task s. bindO (get_int m s) (\<lambda>res s1. bindO (get_int m s1) (\<lambda>len s2.
     bindO (get_chars len s2) (\<lambda>name s3. Some (C time task name, s3)))))"

definition read_name :: "tmachine \<Rightarrow> string \<Rightarrow> (trace_event \<times> string) option" where
  "read_name m = read_task_event m (\<lambda>time task s. bindO (get_int m s) (\<lambda>len s1.
     bindO (get_chars len s1) (\<lambda>name s2. Some (TraceNameEvent time task name, s2))))"

definition read_dline_set :: "tmachine \<Rightarrow> string \<Rightarrow> (trace_event \<times> string) option" where
  "read_dline_set m = read_task_event m (\<lambda>time task s. bindO (get_int m s) (\<lambda>d s1. Some (TraceDlineSetEvent time task d, s1)))"

definition read_dline_post :: "tmachine \<Rightarrow> string \<Rightarrow> (trace_event \<times> string) option" where
  "read_dline_post m = read_task_event m (\<lambda>time task s. bindO (get_int m s) (\<lambda>d s1. bindO (get_int m s1) (\<lambda>d2 s2.
     Some (TraceDlinePostEvent time task d d2, s2))))"

definition TraceEvent_getEvent :: "tmachine \<Rightarrow> i32 \<Rightarrow> int \<Rightarrow> (string \<Rightarrow> (trace_event \<times> string) option) option" where
  "TraceEvent_getEvent m old actType =
    (if actType < 0 \<or> EVT_NUMBER \<le> actType then None
     else if actType = 0 then Some (read_plain m TraceArrEvent)
     else if actType = 1 then Some (read_cpu m old TraceSchedEvent)
     else if actType = 2 then Some (read_cpu m old TraceDeschedEvent)
     else if actType = 3 then Some (read_cpu m old TraceEndEvent)
     else if actType = 4 then Some (read_dline_post m)
     else if actType = 5 then Some (read_dline_set m)
     else if actType = 6 then Some (read_res m TraceWaitEvent)
     else if actType = 7 then Some (read_res m TraceSignalEvent)
     else if actType = 8 then Some (read_plain m TraceIdleEvent)
     else if actType = 9 then Some (read_name m)
     else Some (read_plain m TraceDlineMissEvent))"

section \<open>Description\<close>

fun TraceEvent_somethingToDraw :: "i32 \<Rightarrow> trace_event \<Rightarrow> bool" where
  "TraceEvent_somethingToDraw t (TraceDlinePostEvent time _ _ d2) \<longleftrightarrow> sint t \<le> sint d2 \<or> sint t \<le> sint time"
| "TraceEvent_somethingToDraw t (TraceDlineSetEvent time _ d) \<longleftrightarrow> sint t \<le> sint d \<or> sint t \<le> sint time"
| "TraceEvent_somethingToDraw t e \<longleftrightarrow> sint t \<le> sint (te_time e)"

text \<open>\<open>equals\<close> of the class of the first; the classes with a processor do not compare it.\<close>

definition TraceTaskEvent_equals :: "trace_event \<Rightarrow> trace_event \<Rightarrow> bool" where
  "TraceTaskEvent_equals a e \<longleftrightarrow> te_type e = te_type a \<and> te_time e = te_time a \<and> te_task a = te_task e"

definition TraceEvent_equals :: "trace_event \<Rightarrow> trace_event \<Rightarrow> bool" where
  "TraceEvent_equals a e \<longleftrightarrow> TraceTaskEvent_equals a e \<and> (case (a, e) of
      (TraceDlinePostEvent _ _ d d2, TraceDlinePostEvent _ _ f f2) \<Rightarrow> d = f \<and> d2 = f2
    | (TraceDlineSetEvent _ _ d, TraceDlineSetEvent _ _ f) \<Rightarrow> d = f
    | (TraceWaitEvent _ _ res, TraceWaitEvent _ _ res2) \<Rightarrow> res2 = res
    | (TraceSignalEvent _ _ res, TraceSignalEvent _ _ res2) \<Rightarrow> res2 = res
    | (TraceNameEvent _ _ name, TraceNameEvent _ _ name2) \<Rightarrow> name2 = name
    | _ \<Rightarrow> True)"

text \<open>\<open>print\<close> and \<open>getDescription\<close>, with the name of the description of the task.\<close>

definition TraceTaskEvent_print :: "string \<Rightarrow> trace_event \<Rightarrow> string" where
  "TraceTaskEvent_print desc e = ''- time : '' @ decimal_int (sint (te_time e)) @ [CHR 0x0A] @ ''- task : '' @ desc @ [CHR 0x0A] @
     ''- Type : '' @ evt_name ! te_type e @ [CHR 0x0A]"

definition cpu_line :: "tmachine \<Rightarrow> string \<Rightarrow> i32 \<Rightarrow> string \<Rightarrow> string" where
  "cpu_line m before cpu after = (if new_version m then before @ decimal_int (sint cpu) @ after else [])"

definition TraceEvent_print :: "tmachine \<Rightarrow> string \<Rightarrow> trace_event \<Rightarrow> string" where
  "TraceEvent_print m desc e = TraceTaskEvent_print desc e @ (case e of
      TraceSchedEvent _ _ cpu \<Rightarrow> cpu_line m ''- CPU: '' cpu [CHR 0x0A]
    | TraceDeschedEvent _ _ cpu \<Rightarrow> cpu_line m ''- CPU: '' cpu [CHR 0x0A]
    | TraceEndEvent _ _ cpu \<Rightarrow> cpu_line m ''- CPU: '' cpu [CHR 0x0A]
    | TraceDlinePostEvent _ _ d d2 \<Rightarrow> ''- taskD: '' @ decimal_int (sint d) @ [CHR 0x0A] @ ''- taskD2: '' @ decimal_int (sint d2) @ [CHR 0x0A]
    | TraceDlineSetEvent _ _ d \<Rightarrow> ''- taskD: '' @ decimal_int (sint d) @ [CHR 0x0A]
    | TraceWaitEvent _ _ res \<Rightarrow> '' on resource : '' @ res @ [CHR 0x0A]
    | TraceSignalEvent _ _ res \<Rightarrow> '' on resource : '' @ res @ [CHR 0x0A]
    | _ \<Rightarrow> [])"

definition type_text :: "nat \<Rightarrow> string" where
  "type_text n = [''Task Arrival'', ''Task Scheduled'', ''Task Descheduled'', ''Task End'', ''Deadline Postponed'', ''Deadline Set'', ''Wait'',
     ''Signal'', ''Idle'', ''Task Name'', ''Deadline Miss''] ! n"

definition TraceEvent_getDescription :: "tmachine \<Rightarrow> string \<Rightarrow> trace_event \<Rightarrow> string" where
  "TraceEvent_getDescription m desc e = desc @ '' - '' @ type_text (te_type e) @ (case e of
      TraceSchedEvent _ _ cpu \<Rightarrow> cpu_line m '' on CPU '' cpu []
    | TraceDeschedEvent _ _ cpu \<Rightarrow> cpu_line m '' on CPU '' cpu []
    | TraceEndEvent _ _ cpu \<Rightarrow> cpu_line m '' on CPU '' cpu []
    | TraceDlinePostEvent _ _ d d2 \<Rightarrow> '' - from '' @ decimal_int (sint d) @ '' to '' @ decimal_int (sint d2)
    | TraceDlineSetEvent _ _ d \<Rightarrow> '' at '' @ decimal_int (sint d)
    | TraceWaitEvent _ _ res \<Rightarrow> '' on '' @ res
    | TraceSignalEvent _ _ res \<Rightarrow> '' on '' @ res
    | TraceNameEvent _ _ name \<Rightarrow> '': '' @ name
    | _ \<Rightarrow> [])"

section \<open>The trace\<close>

text \<open>The constructor makes a list of ten zeros, of tasks whose name is known.\<close>

record java_trace =
  jt_toFile :: bool
  jt_os :: string
  jt_data :: "trace_event list"
  jt_taskList :: "i32 list"
  jt_filenum :: int
  jt_fileLimit :: nat

definition set_endianess :: "tmachine \<Rightarrow> tmachine" where
  "set_endianess m = (if tm_endianess m = TRACE_UNKNOWN_ENDIAN then m\<lparr>tm_endianess := probeEndianess (tm_little m)\<rparr> else m)"

definition JavaTrace_ctor :: "bool \<Rightarrow> nat \<Rightarrow> tmachine \<Rightarrow> java_trace \<times> tmachine" where
  "JavaTrace_ctor tof limit m =
    (\<lparr>jt_toFile = tof, jt_os = (if tof then ''version 1.2'' @ [CHR 0x00] else []), jt_data = [], jt_taskList = replicate 10 0,
      jt_filenum = 0, jt_fileLimit = limit\<rparr>, set_endianess m)"

definition JavaTrace_close :: "java_trace \<Rightarrow> java_trace" where
  "JavaTrace_close j = (if jt_toFile j then j else j\<lparr>jt_data := []\<rparr>)"

definition trace_put :: "tmachine \<Rightarrow> trace_event \<Rightarrow> java_trace \<Rightarrow> java_trace" where
  "trace_put m e j = (if jt_toFile j then j\<lparr>jt_os := jt_os j @ TraceEvent_write m e\<rparr> else j\<lparr>jt_data := jt_data j @ [e]\<rparr>)"

text \<open>The task of a \<open>TaskEvt\<close>.\<close>

fun evt_task :: "evt \<Rightarrow> nat option" where
  "evt_task (ArrEvt t) = Some t"
| "evt_task (EndEvt t) = Some t"
| "evt_task (KillEvt t) = Some t"
| "evt_task (SchedEvt t) = Some t"
| "evt_task (DeschedEvt t) = Some t"
| "evt_task (FakeArrEvt t) = Some t"
| "evt_task (DeadEvt t) = Some t"
| "evt_task _ = None"

text \<open>The records of an event; a time, a number and a processor become integers of 32 bits.\<close>

fun event_records :: "world \<Rightarrow> evt \<Rightarrow> i32 \<Rightarrow> i32 \<Rightarrow> trace_event list" where
  "event_records w (ArrEvt t) time tid = [TraceArrEvent time tid, TraceDlineSetEvent time tid (word_of_int (dl (tasks w t)))]"
| "event_records w (EndEvt t) time tid = [TraceEndEvent time tid (word_of_int (endEvt_cpu (tasks w t)))]"
| "event_records w (DeschedEvt t) time tid = [TraceDeschedEvent time tid (word_of_int (deschedEvt_cpu (tasks w t)))]"
| "event_records w (SchedEvt t) time tid = [TraceSchedEvent time tid (word_of_int (schedEvt_cpu (tasks w t)))]"
| "event_records w (DeadEvt t) time tid = [TraceDlineMissEvent time tid]"
| "event_records w _ time tid = []"

definition JavaTrace_record :: "tmachine \<Rightarrow> (nat \<Rightarrow> string) \<Rightarrow> world \<Rightarrow> evt \<Rightarrow> java_trace \<Rightarrow> java_trace" where
  "JavaTrace_record m names w e j = (case evt_task e of None \<Rightarrow> j | Some t \<Rightarrow>
     let tid = word_of_int (t_id (tasks w t)); time = word_of_int (ev_lastTime (evs w e));
         j1 = (if tid \<in> set (jt_taskList j) then j
               else (trace_put m (TraceNameEvent time tid (names t)) j)\<lparr>jt_taskList := jt_taskList j @ [tid]\<rparr>)
     in fold (trace_put m) (event_records w e time tid) j1)"

end
