(* ===== verification/TraceEvents_Laws.thy ===== *)
theory TraceEvents_Laws
  imports TraceEvents RTTask_Laws
begin

text \<open>
  The binary trace can be read: the bytes of a record are read as this record, the size in front of it is its size, and
  the file that a simulation writes is read as the records that it would have kept in memory.
\<close>

section \<open>Numbers\<close>

lemma little_bytes_length [simp]: "length (little_bytes w) = 4"
  by (simp add: little_bytes_def)

lemma memory_length [simp]: "length (memory_of b w) = 4"
  by (simp add: memory_of_def)

lemma encode_simps [simp]: "length (TraceEvent_encode e s) = length s" "TraceEvent_encode e (TraceEvent_encode e s) = s"
  by (simp_all add: TraceEvent_encode_def)

lemma put_int_length [simp]: "length (put_int m w) = 4"
  by (simp add: put_int_def)

lemma of_little_bytes [simp]: "of_little (little_bytes w) = w"
proof -
  let ?n = "unat w"
  have four: "[0..<4] = [0, 1, 2, 3 :: nat]" by (simp add: upt_rec)
  have lt: "?n < 256 ^ 4" using unsigned_less [of w] by simp
  have "foldr (\<lambda>c n. of_char c + 256 * n) (little_bytes w) 0 =
      ?n mod 256 + 256 * (?n div 256 mod 256 + 256 * (?n div 256 ^ 2 mod 256 + 256 * (?n div 256 ^ 3 mod 256)))"
    by (simp add: little_bytes_def four)
  also have "\<dots> = ?n"
  proof -
    have "?n div 256 ^ 3 < 256" using lt by (simp add: less_mult_imp_div_less)
    then have "?n div 256 ^ 3 mod 256 = ?n div 256 ^ 2 div 256" by (simp add: div_mult2_eq [symmetric])
    then have "?n div 256 ^ 2 mod 256 + 256 * (?n div 256 ^ 3 mod 256) = ?n div 256 ^ 2" by simp
    moreover have "?n div 256 ^ 2 = ?n div 256 div 256" by (simp add: div_mult2_eq [symmetric])
    ultimately have "?n div 256 mod 256 + 256 * (?n div 256 ^ 2 mod 256 + 256 * (?n div 256 ^ 3 mod 256)) = ?n div 256" by simp
    then show ?thesis by (simp only: mod_mult_div_eq)
  qed
  finally show ?thesis by (simp add: of_little_def)
qed

lemma of_memory_of [simp]: "of_memory b (memory_of b w) = w"
  by (simp add: of_memory_def memory_of_def)

lemma get_put_int [simp]: "get_int m (put_int m w @ s) = Some (w, s)"
  by (simp add: get_int_def put_int_def)

lemma get_chars_ok:
  assumes "length s < 2 ^ 31"
  shows "get_chars (word_of_nat (length s)) (s @ t) = Some (s, t)"
proof -
  have "take_bit 32 (length s) = length s" using assms by (intro take_bit_nat_eq_self) simp
  then have "uint (word_of_nat (length s) :: i32) = int (length s)" and n: "unat (word_of_nat (length s) :: i32) = length s"
    by (simp_all add: unsigned_of_nat take_bit_of_nat)
  then have "sint (word_of_nat (length s) :: i32) = int (length s)"
    using assms by (simp add: sint_uint signed_take_bit_int_eq_self)
  with n show ?thesis by (simp add: get_chars_def Let_def)
qed

text \<open>The order of the bytes does not depend on the machine, once it was probed.\<close>

lemma probe_machine: "probeEndianess b = (if b then TRACE_LITTLE_ENDIAN else TRACE_BIG_ENDIAN)"
  by (cases b) (simp_all add: probeEndianess_def of_memory_def of_little_def)

lemma file_is_big_endian: "tm_endianess m = probeEndianess (tm_little m) \<Longrightarrow> put_int m w = rev (little_bytes w)"
  by (cases "tm_little m") (simp_all add: put_int_def probe_machine TraceEvent_encode_def memory_of_def)

section \<open>Records\<close>

text \<open>A record is read after its size and its type.\<close>

definition read_record :: "tmachine \<Rightarrow> i32 \<Rightarrow> string \<Rightarrow> (trace_event \<times> string) option" where
  "read_record m old s = bindO (get_int m s) (\<lambda>sz s1. bindO (get_int m s1) (\<lambda>ty s2.
     case TraceEvent_getEvent m old (sint ty) of None \<Rightarrow> None | Some rd \<Rightarrow> rd s2))"

fun read_records :: "tmachine \<Rightarrow> i32 \<Rightarrow> nat \<Rightarrow> string \<Rightarrow> (trace_event list \<times> string) option" where
  "read_records m old 0 s = Some ([], s)"
| "read_records m old (Suc n) s = (case read_record m old s of None \<Rightarrow> None
     | Some (e, s1) \<Rightarrow> (case read_records m old n s1 of None \<Rightarrow> None | Some (es, s2) \<Rightarrow> Some (e # es, s2)))"

text \<open>The strings of a record have a length that is an integer.\<close>

fun short_text :: "trace_event \<Rightarrow> bool" where
  "short_text (TraceWaitEvent _ _ res) \<longleftrightarrow> length res < 2 ^ 31"
| "short_text (TraceSignalEvent _ _ res) \<longleftrightarrow> length res < 2 ^ 31"
| "short_text (TraceNameEvent _ _ name) \<longleftrightarrow> length name < 2 ^ 31"
| "short_text _ \<longleftrightarrow> True"

lemma bindO_Some [simp]: "bindO (Some (x, s)) f = f x s"
  by (simp add: bindO_def)

lemma write_length: "length (TraceEvent_write m e) = 4 + TraceEvent_getSize e"
  by (cases e) (simp_all add: TraceEvent_write_def TraceTaskEvent_write_def TraceEvent_write_base_def put_string_def)

lemma read_record_write:
  assumes "new_version m" and "short_text e"
  shows "read_record m old (TraceEvent_write m e @ s) = Some (e, s)"
  using assms
  by (cases e) (simp_all add: read_record_def TraceEvent_write_def TraceTaskEvent_write_def TraceEvent_write_base_def
      TraceEvent_getEvent_def EVT_NUMBER_def read_plain_def read_cpu_def read_res_def read_name_def read_dline_set_def
      read_dline_post_def read_task_event_def put_string_def get_chars_ok)

text \<open>
  The records that are written to a trace are read back as they are, on every machine, and the size that stands in
  front of a record is the number of its bytes after the size.
\<close>

lemma trace_roundtrip:
  assumes "new_version m" and "\<And>e. e \<in> set es \<Longrightarrow> short_text e"
  shows "read_records m old (length es) (concat (map (TraceEvent_write m) es) @ s) = Some (es, s) \<and>
    (\<forall>e. length (TraceEvent_write m e) = 4 + TraceEvent_getSize e)"
  using assms(2) by (induction es) (simp_all add: read_record_write [OF assms(1)] write_length)

definition example_machine :: tmachine where
  "example_machine = \<lparr>tm_little = True, tm_endianess = TRACE_LITTLE_ENDIAN, tm_version = ''1.2''\<rparr>"

lemma example_version: "new_version example_machine"
  by (simp add: new_version_def example_machine_def string_less.simps)

lemma trace_roundtrip_witness:
  "read_records example_machine 0 2 (concat (map (TraceEvent_write example_machine) [TraceNameEvent 0 3 ''t3'', TraceEndEvent 7 3 (- 1)])) =
     Some ([TraceNameEvent 0 3 ''t3'', TraceEndEvent 7 3 (- 1)], [])"
proof -
  have short: "\<And>e. e \<in> set [TraceNameEvent 0 3 ''t3'', TraceEndEvent 7 3 (- 1)] \<Longrightarrow> short_text e" by auto
  have "read_records example_machine 0 (length [TraceNameEvent 0 3 ''t3'', TraceEndEvent 7 3 (- 1)])
     (concat (map (TraceEvent_write example_machine) [TraceNameEvent 0 3 ''t3'', TraceEndEvent 7 3 (- 1)]) @ []) =
     Some ([TraceNameEvent 0 3 ''t3'', TraceEndEvent 7 3 (- 1)], [])"
    using trace_roundtrip [OF example_version short] by blast
  then show ?thesis by (simp only: list.size append_Nil2 numeral_2_eq_2 One_nat_def add_0 add_Suc plus_1_eq_Suc)
qed

section \<open>The trace of a simulation\<close>

text \<open>The events that are recorded, each with the state in which it is.\<close>

definition record_all :: "tmachine \<Rightarrow> (nat \<Rightarrow> string) \<Rightarrow> (world \<times> evt) list \<Rightarrow> java_trace \<Rightarrow> java_trace" where
  "record_all m names = fold (\<lambda>(w, e). JavaTrace_record m names w e)"

text \<open>A trace in a file and a trace in memory with the same records.\<close>

definition same_trace :: "tmachine \<Rightarrow> java_trace \<Rightarrow> java_trace \<Rightarrow> bool" where
  "same_trace m jf jd \<longleftrightarrow> jt_toFile jf \<and> \<not> jt_toFile jd \<and> jt_taskList jf = jt_taskList jd \<and>
     jt_os jf = ''version 1.2'' @ [CHR 0x00] @ concat (map (TraceEvent_write m) (jt_data jd))"

lemma same_put: "same_trace m jf jd \<Longrightarrow> same_trace m (trace_put m e jf) (trace_put m e jd)"
  by (simp add: same_trace_def trace_put_def)

lemma same_puts: "same_trace m jf jd \<Longrightarrow> same_trace m (fold (trace_put m) es jf) (fold (trace_put m) es jd)"
  by (induction es arbitrary: jf jd) (simp_all add: same_put)

lemma same_list: "same_trace m jf jd \<Longrightarrow> same_trace m (jf\<lparr>jt_taskList := l\<rparr>) (jd\<lparr>jt_taskList := l\<rparr>)"
  by (simp add: same_trace_def)

lemma same_record:
  assumes "same_trace m jf jd"
  shows "same_trace m (JavaTrace_record m names w e jf) (JavaTrace_record m names w e jd)"
proof -
  have "jt_taskList jf = jt_taskList jd" using assms by (simp add: same_trace_def)
  with assms show ?thesis
    by (auto simp: JavaTrace_record_def Let_def intro!: same_puts same_put same_list split: option.split)
qed

lemma same_records: "same_trace m jf jd \<Longrightarrow> same_trace m (record_all m names es jf) (record_all m names es jd)"
  unfolding record_all_def by (induction es arbitrary: jf jd) (auto intro: same_record)

lemma put_data: "jt_data (fold (trace_put m) es j) = (if jt_toFile j then jt_data j else jt_data j @ es)" "jt_toFile (fold (trace_put m) es j) = jt_toFile j"
  "jt_taskList (fold (trace_put m) es j) = jt_taskList j"
  by (induction es arbitrary: j) (simp_all add: trace_put_def)

lemma event_records_short: "x \<in> set (event_records w e time tid) \<Longrightarrow> short_text x"
  by (cases e) auto

lemma record_short:
  assumes "\<And>t. length (names t) < 2 ^ 31" and "\<not> jt_toFile j" and "\<And>x. x \<in> set (jt_data j) \<Longrightarrow> short_text x"
    and "x \<in> set (jt_data (JavaTrace_record m names w e j))"
  shows "short_text x \<and> \<not> jt_toFile (JavaTrace_record m names w e j)"
  using assms event_records_short
  by (auto simp: JavaTrace_record_def Let_def put_data trace_put_def split: option.splits if_splits)

lemma records_short:
  assumes "\<And>t. length (names t) < 2 ^ 31"
  shows "\<not> jt_toFile j \<Longrightarrow> (\<And>x. x \<in> set (jt_data j) \<Longrightarrow> short_text x) \<Longrightarrow> x \<in> set (jt_data (record_all m names es j)) \<Longrightarrow> short_text x"
  unfolding record_all_def
proof (induction es arbitrary: j)
  case (Cons p es)
  obtain w e where p: "p = (w, e)" by (cases p)
  have "\<not> jt_toFile (JavaTrace_record m names w e j)"
    using Cons.prems(1) by (auto simp: JavaTrace_record_def Let_def put_data trace_put_def split: option.splits)
  moreover have "short_text x" if "x \<in> set (jt_data (JavaTrace_record m names w e j))" for x
    using record_short [OF assms Cons.prems(1,2) that] by blast
  ultimately show ?case using Cons.IH [of "JavaTrace_record m names w e j"] Cons.prems(3) by (simp add: p)
qed simp

text \<open>
  C39. The file of a trace starts with its version, and after it reads as exactly the records that the same trace in memory
  holds, whatever events were recorded.
\<close>

theorem trace_file_is_trace:
  assumes "new_version m" and "\<And>t. length (names t) < 2 ^ 31"
  shows "\<exists>body. jt_os (record_all m names es (fst (JavaTrace_ctor True limit m))) = ''version 1.2'' @ [CHR 0x00] @ body \<and>
    (let recs = jt_data (record_all m names es (fst (JavaTrace_ctor False limit m))) in read_records m old (length recs) body = Some (recs, []))"
proof -
  let ?jf = "record_all m names es (fst (JavaTrace_ctor True limit m))" and ?jd = "record_all m names es (fst (JavaTrace_ctor False limit m))"
  have "same_trace m (fst (JavaTrace_ctor True limit m)) (fst (JavaTrace_ctor False limit m))"
    by (simp add: same_trace_def JavaTrace_ctor_def)
  then have "same_trace m ?jf ?jd" by (rule same_records)
  moreover have "short_text x" if "x \<in> set (jt_data ?jd)" for x
    using records_short [OF assms(2) _ _ that] by (simp add: JavaTrace_ctor_def)
  from trace_roundtrip [OF assms(1) this, of "jt_data ?jd" old "[]"] have "read_records m old (length (jt_data ?jd)) (concat (map (TraceEvent_write m) (jt_data ?jd))) = Some (jt_data ?jd, [])" by simp
  ultimately show ?thesis by (auto simp: same_trace_def Let_def)
qed

theorem trace_file_is_trace_witness:
  "\<exists>body. jt_os (record_all example_machine (\<lambda>t. ''t'') [(task_example, ArrEvt 1), (task_example, EndEvt 1)] (fst (JavaTrace_ctor True 10 example_machine))) = ''version 1.2'' @ [CHR 0x00] @ body \<and>
    (let recs = jt_data (record_all example_machine (\<lambda>t. ''t'') [(task_example, ArrEvt 1), (task_example, EndEvt 1)] (fst (JavaTrace_ctor False 10 example_machine)))
     in read_records example_machine 0 (length recs) body = Some (recs, []))"
  by (rule trace_file_is_trace [OF example_version]) simp

section \<open>Names\<close>

text \<open>The names of the tasks stand before their records, once; the task with the number zero has none.\<close>

definition named :: "trace_event list \<Rightarrow> i32 list" where
  "named es = map te_task (filter (\<lambda>e. te_type e = 9) es)"

definition names_ok :: "trace_event list \<Rightarrow> bool" where
  "names_ok es \<longleftrightarrow> (\<forall>i<length es. te_task (es ! i) = 0 \<or> te_task (es ! i) \<in> set (named (take (Suc i) es)))"

lemma names_ok_append:
  assumes "names_ok es" and "\<And>x. x \<in> set xs \<Longrightarrow> te_task x = 0 \<or> te_task x \<in> set (named es)"
  shows "names_ok (es @ xs)"
  unfolding names_ok_def
proof (intro allI impI)
  fix i assume i: "i < length (es @ xs)"
  show "te_task ((es @ xs) ! i) = 0 \<or> te_task ((es @ xs) ! i) \<in> set (named (take (Suc i) (es @ xs)))"
  proof (cases "i < length es")
    case True
    with assms(1) show ?thesis by (simp add: names_ok_def nth_append)
  next
    case False
    then have "(es @ xs) ! i \<in> set xs" and "set (named es) \<subseteq> set (named (take (Suc i) (es @ xs)))"
      using i by (auto simp: nth_append named_def)
    with assms(2) [of "(es @ xs) ! i"] show ?thesis by blast
  qed
qed

lemma event_records_task: "x \<in> set (event_records w e time tid) \<Longrightarrow> te_task x = tid \<and> te_type x \<noteq> 9"
  by (cases e) auto

definition named_trace :: "java_trace \<Rightarrow> bool" where
  "named_trace j \<longleftrightarrow> \<not> jt_toFile j \<and> jt_taskList j = replicate 10 0 @ named (jt_data j) \<and> distinct (named (jt_data j)) \<and>
     0 \<notin> set (named (jt_data j)) \<and> names_ok (jt_data j)"

lemma named_simps [simp]: "named [] = []" "named (es @ fs) = named es @ named fs" "named [TraceNameEvent time k n] = [k]"
  by (simp_all add: named_def)

lemma record_named:
  assumes "named_trace j"
  shows "named_trace (JavaTrace_record m names w e j)"
proof (cases "evt_task e")
  case None
  with assms show ?thesis by (simp add: JavaTrace_record_def)
next
  case (Some t)
  define tid where "tid = (word_of_int (t_id (tasks w t)) :: i32)"
  define time where "time = (word_of_int (ev_lastTime (evs w e)) :: i32)"
  let ?recs = "event_records w e time tid"
  have recs: "named ?recs = []" using event_records_task [of _ w e time tid] by (auto simp: named_def filter_empty_conv)
  define j1 where "j1 = (if tid \<in> set (jt_taskList j) then j
     else (trace_put m (TraceNameEvent time tid (names t)) j)\<lparr>jt_taskList := jt_taskList j @ [tid]\<rparr>)"
  have j1: "named_trace j1 \<and> (tid = 0 \<or> tid \<in> set (named (jt_data j1)))"
  proof (cases "tid \<in> set (jt_taskList j)")
    case True
    with assms show ?thesis by (auto simp: j1_def named_trace_def)
  next
    case False
    then have new: "tid \<noteq> 0" "tid \<notin> set (named (jt_data j))" using assms by (auto simp: named_trace_def)
    have "names_ok (jt_data j @ [TraceNameEvent time tid (names t)])"
      using assms by (auto simp: named_trace_def names_ok_def nth_append less_Suc_eq)
    with False new assms show ?thesis by (auto simp: j1_def named_trace_def trace_put_def)
  qed
  have "JavaTrace_record m names w e j = fold (trace_put m) ?recs j1"
    using Some by (simp add: JavaTrace_record_def Let_def tid_def time_def j1_def)
  moreover have "names_ok (jt_data j1 @ ?recs)"
    using j1 event_records_task [of _ w e time tid] by (intro names_ok_append) (auto simp: named_trace_def)
  ultimately show ?thesis using j1 by (simp add: named_trace_def put_data recs)
qed

text \<open>
  C40. In a trace every record of a task, but of the task with the number zero, comes after the one record of its name; the
  list of tasks starts with zeros, so that a task with the number zero is never named.
\<close>

theorem tasks_are_named:
  "distinct (named (jt_data (record_all m names obs (fst (JavaTrace_ctor False limit m))))) \<and>
   0 \<notin> set (named (jt_data (record_all m names obs (fst (JavaTrace_ctor False limit m))))) \<and>
   names_ok (jt_data (record_all m names obs (fst (JavaTrace_ctor False limit m))))"
proof -
  have "named_trace j \<Longrightarrow> named_trace (record_all m names obs j)" for j
    unfolding record_all_def by (induction obs arbitrary: j) (auto intro: record_named)
  moreover have "named_trace (fst (JavaTrace_ctor False limit m))" by (simp add: named_trace_def JavaTrace_ctor_def names_ok_def)
  ultimately show ?thesis by (auto simp: named_trace_def)
qed

end
