(* ===== verification/Spec2Isabelle.thy ===== *)
theory Spec2Isabelle
  imports ProgramRuns TaskText_Laws RandomVars_Laws Entities_Laws RTAnalysis_Laws Grub_Laws Sporadic_Laws Polling Yaml_Laws Processors_World Csv_Laws LoadGen_Laws TaskStats TraceEvents_Laws
begin

text \<open>
  PARTSim: a discrete event simulator (\<open>libmetasim\<close>) and the simulation of real time systems on it
  (\<open>librtsim\<close>): tasks made of instructions, schedulers, kernels for one and for many processors,
  constant bandwidth servers and shared resources.  The development translates the C++ sources into
  functions and proves what these parts promise to each other.

  The parts and how they work together.  A task (\<open>Task\<close>) arrives when its \<open>ArrEvt\<close> fires.  It tells
  its kernel (\<open>onArrival\<close>), which is a root kernel (\<open>RTKernel\<close>, \<open>MRTKernel\<close>) or a server.  The kernel
  inserts it into the ready queue of its scheduler and posts a begin of dispatch; its handler takes the
  first ready task, deschedules the one it replaces, and posts the end of dispatch after the cost of the
  context switch, which schedules the new task.  A scheduled task runs its instructions: an \<open>ExecInstr\<close>
  posts its own end, a \<open>WaitInstr\<close> or \<open>SignalInstr\<close> goes to the resource manager of the kernel, which
  suspends and activates tasks.  A server is a task for the root kernel and a kernel for its tasks; it
  stops when its budget is exhausted.  Events are executed in the order of time, priority and posting.

  How the model is written.  Objects are numbered; the record \<open>world\<close> of \<open>World\<close> extends the state of
  the engine with one map per class, from numbers to records with the data members of the class, which
  keep their names with a prefix of the class.  Pointers are references (\<open>absTask\<close>, \<open>kernref\<close>,
  \<open>rtkref\<close>) or numbers, null pointers are \<open>None\<close>; a virtual call is a case distinction on the reference.
  A method \<open>C::m\<close> is the definition \<open>C_m\<close>; a method that changes state or may throw takes the state and
  returns the sum of an exception (\<open>exc\<close>) and the state.  A failed assertion, the use of a null pointer
  and the end of the process are values of \<open>exc\<close> too.  A \<open>Tick\<close> is an integer (within 64 bits); where
  the source stores one in 32 bits this is written out (\<open>int32_of\<close>).  A \<open>double\<close> is a rational number:
  the rounding of floating point is not modelled, the conversions to \<open>Tick\<close> are.  So what is said of virtual times,
  utilizations, random loads and statistics holds in exact arithmetic.  Where the code decides by a double that is rounded,
  it may decide otherwise: the sensitivity of \<open>schedpoints.cpp\<close> may grant one tick less than the whole, and the budget of
  a server of \<open>grubserver.cpp\<close> may be a little below zero when it is exhausted, on which \<open>Grub::startAccounting\<close> asserts.

  The theories, in the order of imports:

  \<^item> \<open>Prelude\<close>: exceptions, sequencing of fallible steps (\<open>bindE\<close>, \<open>steps\<close>, \<open>whenE\<close>), lists.
  \<^item> \<open>PList\<close>: \<open>plist.hpp\<close>, the ordered containers, over the locale \<open>strict_weak_order\<close>.
  \<^item> \<open>Tick\<close>: \<open>tick.hpp\<close>, \<open>tick.cpp\<close>, conversions.
  \<^item> \<open>Engine\<close>: \<open>event.cpp\<close>, \<open>simul.cpp\<close>; \<open>Engine_Laws\<close>: the queue is well formed (\<open>evq_inv\<close>), its
    operations keep it so, and the loops end or do what they should for every \<open>event_handler\<close>.
  \<^item> \<open>World\<close>: the objects and their constructors.
  \<^item> \<open>RTScheduler\<close>: \<open>librtsim/scheduler\<close>; \<open>RTScheduler_Laws\<close>: the ready queue is ordered (\<open>rq_inv\<close>) and
    what its first task is under each policy; \<open>sched_uses\<close> are the uses of a scheduler since it was made.
  \<^item> \<open>RTKernel\<close>: \<open>kernel.cpp\<close>, \<open>mrtkernel.cpp\<close>; \<open>RTKernel_Laws\<close>: the bookkeeping of the processors
    (\<open>mrt_inv\<close>), what a dispatch does, and the locales \<open>sched_ops\<close>, \<open>kernel_ops\<close> and \<open>kernel_frame\<close>: a
    fact that the calls to the engine, the tasks and the scheduler keep is kept by every operation of a
    kernel.
  \<^item> \<open>RTServer\<close>: \<open>server.cpp\<close>, \<open>cbserver.cpp\<close>, \<open>capacitytimer.cpp\<close>; \<open>RTServer_Laws\<close>: the relation of
    budget, deadline and virtual time (\<open>cbs_inv\<close>), every transition of the server, and the locales
    \<open>server_ops\<close> (what a kernel or task asks of a server), \<open>one_server_frame\<close> (a fact that no change of
    one server breaks) and \<open>server_frame\<close> (of no server).
  \<^item> \<open>RTResource\<close>: \<open>librtsim/resource\<close>; \<open>RTResource_Laws\<close>: first come first served, \<open>resource_frame\<close>.
  \<^item> \<open>RTTask\<close>: \<open>task.cpp\<close>, \<open>taskevt.cpp\<close>, \<open>exeinstr.cpp\<close>, \<open>waitinstr.cpp\<close>, \<open>suspend_instr.cpp\<close>;
    \<open>RTTask_Laws\<close>: jobs, preemption, kills, buffered arrivals, and the frames of the instructions (\<open>instr_frame\<close>), of
    one task (\<open>one_task_frame\<close>) and of the tasks (\<open>task_frame\<close>).
  \<^item> \<open>Program\<close>: \<open>doit\<close> of every event and the calls of \<open>Entity\<close>; \<open>Program_Laws\<close>: what holds in every
    state a simulation reaches, over \<open>event_frame\<close> and \<open>program_frame\<close>; a fact that arrivals may break is kept by
    all other events over \<open>quiet_event_frame\<close>.
  \<^item> \<open>CBS_Spec\<close>: the constant bandwidth server as an abstract state machine with its invariant;
    \<open>Server_Refinement\<close>: every transition and handler of \<open>CBServer\<close> is a step of it, for the server as the
    machine sees it (\<open>cbs_view\<close>); \<open>Program_Servers\<close>: so is every step of a simulation.
  \<^item> \<open>StrToken\<close>: \<open>strtoken.cpp\<close> over the strings of the standard library, \<open>factory.hpp\<close>; \<open>StrToken_Laws\<close>: how
    a well formed text is cut.
  \<^item> \<open>RandomVars\<close>: \<open>randomvar.cpp\<close>, \<open>genericvar.cpp\<close>, \<open>regvar.cpp\<close>; \<open>RandomVars_Laws\<close>: the generator is the
    minimal standard one, what a uniform and a normal variable draw.
  \<^item> \<open>Entities\<close>: the registry of \<open>entity.cpp\<close>; \<open>Entities_Laws\<close>: numbers and names identify the live objects
    (\<open>reg_inv\<close>).
  \<^item> \<open>TaskText\<close>: times, tasks and instructions from text; \<open>TaskText_Laws\<close>: a language of instructions with its
    printer, and the round trips.
  \<^item> \<open>RTAnalysis\<close>: the supervisors of \<open>schedrta.cpp\<close>, \<open>schedpoints.cpp\<close> and \<open>supercbs.cpp\<close>, over the table of the
    virtual methods of a server (\<open>server_vt\<close>); \<open>RTAnalysis_Laws\<close>: the demand of a set of servers, response times
    as least fixed points, the scheduling points suffice, and in exact arithmetic the two tests grant the same budgets.
  \<^item> \<open>EventOrder\<close>: operations on the queue of events that leave all other events where they are.
  \<^item> \<open>ServerTimers\<close>: the events of the other servers and the calls of the class \<open>Server\<close> (\<open>server_call\<close>): what its methods ask of
    the class of a server; the kernel and the tasks of these servers are not part of their models.
  \<^item> \<open>Grub\<close>: \<open>grubserver.cpp\<close>, servers that reclaim bandwidth under one supervisor; \<open>Grub_Laws\<close>: the account
    of the supervisor (\<open>grub_inv\<close>) over the calls the class \<open>Server\<close> makes (\<open>grub_call\<close>, \<open>grub_reach\<close>).
  \<^item> \<open>Sporadic\<close>: \<open>sporadicserver.cpp\<close>; \<open>Sporadic_Laws\<close>: the capacity and the replenishments of a server sum up
    (\<open>sporadic_total\<close>), and the runs that break the rule of one budget in a period.
  \<^item> \<open>Polling\<close>: \<open>pollingserver.cpp\<close> and which of its calls return.

  \<^item> \<open>Yaml\<close>: \<open>yaml.hpp\<close>, \<open>yaml.cpp\<close>; \<open>Yaml_Laws\<close>: documents, their text and what the parser makes of it.

  \<^item> \<open>SortedCont\<close>: \<open>sortedcont.hpp\<close>, ordered vectors and maps, over \<open>strict_weak_order\<close>; \<open>PowerModels\<close>: operating points,
    the models of power and speed and \<open>powermodel.cpp\<close>; \<open>PowerModels_Laws\<close>: which row of a table a model returns.
  \<^item> \<open>Processors\<close>: \<open>cpu.hpp\<close>, processors and islands; \<open>Processors_Laws\<close>: the association and the cached values
    (\<open>links_ok\<close>, \<open>speed_ok\<close>) in every state the calls reach (\<open>plat_reach\<close>), and the power of an island;
    \<open>Processors_World\<close>: the processor of the simulation (\<open>CPU_setWorkload\<close>, \<open>CPU_updateModel\<close>), which has the speeds of one
    operating point, is the processor of a platform (\<open>PCPU_setWorkload\<close>, \<open>PCPU_updateModel\<close>) as it sees it, so the lines of these two
    methods are translated for both.

  \<^item> \<open>Csv\<close>: \<open>csv.hpp\<close>, \<open>trim.hpp\<close>; \<open>Csv_Laws\<close>: a table and its text.
  \<^item> \<open>SystemFile\<close>: \<open>system_descriptor.cpp\<close>, \<open>powermodel_params.cpp\<close>, the description of a system in its files;
    \<open>SystemBuild\<close>: \<open>system.cpp\<close>, the processors, islands, schedulers and kernels that are made of it;
    \<open>SystemBuild_Laws\<close>: how they are connected (\<open>wired_but\<close>).
  \<^item> \<open>MainProgram\<close>: \<open>main.cpp\<close>, \<open>args.hpp\<close>, tasks, servers and resources from text, their placement and the run;
    \<open>MainProgram_Laws\<close>, \<open>ProgramNames\<close>, \<open>ProgramStart\<close>: what holds when the run starts; \<open>TaskSetFile\<close>: the text of
    a set of tasks and what is made and placed of it; \<open>TaskSetCode\<close>: with free names and code in the language of \<open>TaskText_Laws\<close> it is
    read; \<open>ProgramRuns\<close>: the program from its files to every state of the run, with two files worked out.
  \<^item> \<open>LoadGen\<close>: \<open>load.cpp\<close>, \<open>load.hpp\<close>, sets of random tasks; \<open>LoadGen_Laws\<close>: the loads of a set, what its tasks have in
    common and which sets are never made.
  \<^item> \<open>Stats\<close>: \<open>basestat.cpp\<close>, \<open>basestat.hpp\<close>, \<open>history.hpp\<close>; \<open>Stats_Laws\<close>: the value of a statistic in a run, the values that
    \<open>Simulation_run\<close> collects along its runs (\<open>run_sequence\<close>), intervals, and a history as a window on what was pushed.
  \<^item> \<open>TaskStats\<close>: \<open>taskstat.hpp\<close>, the probes of a task and the particles that call them.
  \<^item> \<open>TraceEvents\<close>: \<open>traceevent.cpp\<close>, \<open>jtrace.cpp\<close>, the binary trace; \<open>TraceEvents_Laws\<close>: its bytes read as its records.

  The frames are chained: each extends the one below by the calls of its own component, so a fact
  about the whole simulator is an interpretation of \<open>program_frame\<close> that discharges one condition per
  primitive update, or of \<open>event_frame\<close> when the events of the servers need an argument of their own.

  Loops and recursion.  \<open>Simulation_main_cycle\<close> and \<open>Simulation_run_to_cycle\<close> may run for ever, since
  a handler may post events at the current time without end; they are partial functions whose value
  \<open>None\<close> is not to return, and that they return is proved under the condition it needs.
  \<open>Instr_schedule\<close> recurs on the number of the instructions left, which \<open>instr_schedule_is_recursive\<close>
  shows to be the recursion of the code, never cut short.  \<open>FCFS_release_loop\<close> is given the length of the
  queue plus one: a round that locks shortens the queue, and one that does not is the last.

  \<open>factory_generate\<close> tries sets of tasks until one is good, and may not end; \<open>newton_loop\<close> is a loop of the same kind.

  Parameters: the mathematical functions (\<open>log\<close>, \<open>pow\<close>, \<open>sqrt\<close>, \<open>exp\<close>, \<open>sin\<close>, \<open>cos\<close>) and the files that are
  read are arguments of the definitions that use them; in \<open>World\<close> a random variable is the sequence of
  values it will return.  The options of the command line are an argument of the main program.  The order of bytes of the
  machine is a member of \<open>tmachine\<close>.  A generator of a random set is new, it was not bound to a set before (\<open>already_bound\<close>).

  Not modelled: the traces that are text, the trace of power and debug messages, which are output only; the parsing of the
  command line, which a library does; the spare pot; interrupts and timers, which nothing in the program makes; and the
  schedulers, kernels, managers and instructions that the build leaves out (\<open>multisched.cpp\<close>, \<open>energyMRTKernel.cpp\<close>,
  \<open>AVRTask.cpp\<close>, \<open>schedinstr.cpp\<close>, \<open>threinstr.cpp\<close>, \<open>piresmanager.cpp\<close>, \<open>bwi.cpp\<close>).  \<open>Event_action\<close> runs the handler; with
  particles the handler is the one that \<open>with_particles\<close> makes.

  Where the code does not do what it seems to mean, the theorem states what it does, and its text says
  what is amiss.
\<close>

end
